(* ===== verification/Prelude.thy ===== *)
theory Prelude
  imports Complex_Main "HOL-Library.Word" "HOL-Library.Monad_Syntax"
begin

text \<open>
  Shared vocabulary of the veejay development.

  \<^item> The server is C. A definition returns \<open>'a option\<close> where the C function can reach undefined
    behaviour: \<open>None\<close> is an out-of-range array access, a null or dangling pointer, or an
    operation C leaves undefined; \<open>Some r\<close> is a run that returns \<open>r\<close>. The abbreviations
    \<open>out_of_bounds\<close>, \<open>null_deref\<close>, \<open>dangling\<close> and \<open>c_undefined\<close> name the reason.
  \<^item> A search loop \<open>for(i = 0; i < n; i++) if(P(a[i])) return i; return -1\<close> is \<open>first_index\<close>.
  \<^item> C \<open>int\<close> and \<open>long\<close> values are \<open>int\<close> where overflow cannot change the result of interest, and words
    where it can; \<open>int32_of_long\<close> is the conversion from \<open>long\<close> to \<open>int\<close>.
\<close>

type_synonym u8 = "8 word"
type_synonym u64 = "64 word"
type_synonym addr = nat

abbreviation out_of_bounds :: "'a option" where "out_of_bounds \<equiv> None"
abbreviation null_deref :: "'a option" where "null_deref \<equiv> None"
abbreviation dangling :: "'a option" where "dangling \<equiv> None"
abbreviation c_undefined :: "'a option" where "c_undefined \<equiv> None"

named_theorems list_upd \<open>how the shared list operations behave under an update by index\<close>

subsection \<open>Integer conversions of C\<close>

definition int32_of_long :: "int \<Rightarrow> int" where
  "int32_of_long x = sint (word_of_int x :: 32 word)"

lemma int32_of_long_id [simp]: "- 2147483648 \<le> x \<Longrightarrow> x < 2147483648 \<Longrightarrow> int32_of_long x = x"
  by (simp add: int32_of_long_def sint_sbintrunc' signed_take_bit_int_eq_self_iff)

text \<open>\<open>abs\<close> takes and returns an \<open>int\<close>; the absolute value of the least \<open>int\<close> is undefined.\<close>

definition c_abs :: "int \<Rightarrow> int option" where
  "c_abs x = (let y = int32_of_long x in if y = - 2147483648 then c_undefined else Some \<bar>y\<bar>)"

lemma c_abs_Some [simp]: "\<bar>x\<bar> < 2147483648 \<Longrightarrow> c_abs x = Some \<bar>x\<bar>"
  by (simp add: c_abs_def Let_def abs_less_iff)

text \<open>Division of C truncates towards zero; division by zero is undefined.\<close>

definition c_div :: "int \<Rightarrow> int \<Rightarrow> int option" where
  "c_div a b = (if b = 0 then c_undefined else Some (sgn a * sgn b * (\<bar>a\<bar> div \<bar>b\<bar>)))"

lemma c_div_pos: "0 \<le> a \<Longrightarrow> 0 < b \<Longrightarrow> c_div a b = Some (a div b)"
  by (cases "a = 0") (auto simp: c_div_def)

text \<open>The conversion of a floating-point value to \<open>int\<close> drops the fraction.\<close>

definition c_trunc :: "rat \<Rightarrow> int" where
  "c_trunc x = (if x < 0 then - \<lfloor>- x\<rfloor> else \<lfloor>x\<rfloor>)"

text \<open>Reading an array of known length.\<close>

definition c_nth :: "'a list \<Rightarrow> int \<Rightarrow> 'a option" where
  "c_nth xs i = (if 0 \<le> i \<and> i < int (length xs) then Some (xs ! nat i) else out_of_bounds)"

definition c_update :: "'a list \<Rightarrow> int \<Rightarrow> 'a \<Rightarrow> 'a list option" where
  "c_update xs i x = (if 0 \<le> i \<and> i < int (length xs) then Some (xs[nat i := x]) else out_of_bounds)"

lemma c_nth_Some [simp]: "0 \<le> i \<Longrightarrow> i < int (length xs) \<Longrightarrow> c_nth xs i = Some (xs ! nat i)"
  by (simp add: c_nth_def)

lemma c_update_Some [simp]: "0 \<le> i \<Longrightarrow> i < int (length xs) \<Longrightarrow> c_update xs i x = Some (xs[nat i := x])"
  by (simp add: c_update_def)

text \<open>\<open>memcpy\<close> of \<open>n\<close> bytes from a buffer.\<close>

definition c_slice :: "string \<Rightarrow> int \<Rightarrow> int \<Rightarrow> string option" where
  "c_slice s i n =
     (if i < 0 \<or> n < 0 \<or> i + n > int (length s) then out_of_bounds else Some (take (nat n) (drop (nat i) s)))"

subsection \<open>Rounding of sizes\<close>

unbundle bit_operations_syntax

text \<open>
  The macro of \<open>vj-el.c\<close>, \<open>vj-server.c\<close> and \<open>vj-x86.c\<close> is meant to round up to a multiple of eight. It adds eight
  and clears bit 3, so it gives \<open>num\<close> or \<open>num + 8\<close>.
\<close>

definition RUP8 :: "int \<Rightarrow> int" where
  "RUP8 num = (num + 8) AND NOT 8"

lemma RUP8_eq: "RUP8 n = (if bit n 3 then n + 8 else n)"
proof -
  have split: "x AND NOT 8 = x - 8 * of_bool (bit x 3)" for x :: int
    using unset_bit_eq [of 3 x] unset_bit_eq_and_not [of 3 x] by simp
  have "bit (n + 8) 3 \<longleftrightarrow> \<not> bit n 3"
    by (simp add: bit_iff_odd)
  then show ?thesis unfolding RUP8_def split by simp
qed

lemma RUP8_ge: "n \<le> RUP8 n"
  by (simp add: RUP8_eq)

subsection \<open>Search loops\<close>

fun first_index :: "('a \<Rightarrow> bool) \<Rightarrow> 'a list \<Rightarrow> int" where
  "first_index P [] = - 1"
| "first_index P (x # xs) =
     (if P x then 0 else let i = first_index P xs in if i = - 1 then - 1 else i + 1)"

lemma first_index_ge: "- 1 \<le> first_index P xs"
  by (induction xs) (auto simp: Let_def)

lemma first_index_less: "first_index P xs < int (length xs)"
  by (induction xs) (auto simp: Let_def)

lemma first_index_none_iff: "first_index P xs = - 1 \<longleftrightarrow> (\<forall>x \<in> set xs. \<not> P x)"
proof (induction xs)
  case (Cons x xs)
  have "first_index P xs + 1 \<noteq> - 1" using first_index_ge [of P xs] by linarith
  with Cons show ?case by (auto simp: Let_def)
qed simp

lemma first_index_neg_iff: "first_index P xs < 0 \<longleftrightarrow> first_index P xs = - 1"
  using first_index_ge [of P xs] by linarith

lemma first_index_hit: "0 \<le> first_index P xs \<Longrightarrow> P (xs ! nat (first_index P xs))"
proof (induction xs)
  case (Cons x xs)
  show ?case
  proof (cases "P x \<or> first_index P xs = - 1")
    case True
    with Cons.prems show ?thesis by (auto simp: Let_def split: if_splits)
  next
    case False
    then have "0 \<le> first_index P xs" using first_index_ge [of P xs] by linarith
    with Cons.IH False show ?thesis by (simp add: Let_def nat_add_distrib)
  qed
qed simp

lemma first_index_before: "i < length xs \<Longrightarrow> int i < first_index P xs \<Longrightarrow> \<not> P (xs ! i)"
proof (induction xs arbitrary: i)
  case (Cons x xs)
  then show ?case by (cases i) (auto simp: Let_def split: if_splits)
qed simp

lemma first_index_nat_less [simp]: "0 \<le> first_index P xs \<Longrightarrow> nat (first_index P xs) < length xs"
  using first_index_less [of P xs] by linarith

lemma first_index_eqI:
  assumes "k < length xs" "P (xs ! k)" "\<And>i. i < k \<Longrightarrow> \<not> P (xs ! i)"
  shows "first_index P xs = int k"
  using assms
proof (induction xs arbitrary: k)
  case (Cons x xs)
  show ?case
  proof (cases k)
    case 0
    with Cons.prems show ?thesis by simp
  next
    case (Suc m)
    have "first_index P xs = int m"
    proof (rule Cons.IH)
      show "\<not> P (xs ! i)" if "i < m" for i using Cons.prems(3) [of "Suc i"] that Suc by simp
    qed (use Cons.prems Suc in auto)
    moreover have "\<not> P x" using Cons.prems(3) [of 0] Suc by simp
    ultimately show ?thesis using Suc by simp
  qed
qed simp

subsection \<open>Sums and counts over arrays updated by index\<close>

lemma sum_list_map_update [list_upd]:
  fixes f :: "'a \<Rightarrow> int"
  assumes "i < length xs"
  shows "sum_list (map f (xs[i := x])) = sum_list (map f xs) - f (xs ! i) + f x"
  using assms
  by (induction xs arbitrary: i) (auto split: nat.splits)

lemma all_update_iff [list_upd]:
  assumes "i < length xs"
  shows "(\<forall>j < length (xs[i := x]). Q j (xs[i := x] ! j)) \<longleftrightarrow>
         Q i x \<and> (\<forall>j < length xs. j \<noteq> i \<longrightarrow> Q j (xs ! j))"
  using assms by (auto simp: nth_list_update)

end
