(* ===== verification/ElCache.thy ===== *)
theory ElCache
  imports Prelude
begin

text \<open>
  The in-memory frame cache of an edit list (\<open>libel/elcache.c\<close>): a fixed number of slots, each empty
  (index \<open>-1\<close>) or holding the compressed bytes of one frame. A full cache replaces the slot whose frame
  lies farthest from the new one. The global \<open>total_mem_used_\<close> is passed and returned explicitly.
\<close>

subsection \<open>Data\<close>

record cache_slot =
  slot_size :: int
  slot_fmt :: int
  slot_num :: int
  slot_buffer :: "u8 list"

record cache_t =
  cache_slots :: "cache_slot option list"
  cache_index :: "int list"

subsection \<open>Operations\<close>

definition cache_free_slot :: "cache_t \<Rightarrow> int" where
  "cache_free_slot v = first_index (\<lambda>x. x = - 1) (cache_index v)"

text \<open>The old occupant is released when its index entry is not negative; then the slot is taken.\<close>

definition cache_claim_slot ::
  "cache_t \<Rightarrow> int \<Rightarrow> int \<Rightarrow> u8 list \<Rightarrow> int \<Rightarrow> int \<Rightarrow> int \<Rightarrow> (cache_t \<times> int) option" where
  "cache_claim_slot v mem free_slot linbuf frame_num buf_len format =
     (if free_slot < 0 \<or> int (length (cache_index v)) \<le> free_slot \<or>
         buf_len < 0 \<or> int (length linbuf) < buf_len then out_of_bounds
      else do {
        let k = nat free_slot;
        let data = \<lparr>slot_size = buf_len, slot_fmt = format, slot_num = frame_num,
                    slot_buffer = take (nat buf_len) linbuf\<rparr>;
        mem' \<leftarrow> (if 0 \<le> cache_index v ! k
                   then (case cache_slots v ! k of
                           None \<Rightarrow> null_deref
                         | Some del_slot \<Rightarrow> Some (mem - slot_size del_slot))
                   else Some mem);
        Some (v\<lparr>cache_index := (cache_index v)[k := frame_num],
               cache_slots := (cache_slots v)[k := Some data]\<rparr>, mem' + buf_len)
      })"

fun cache_find_slot_loop :: "int \<Rightarrow> nat \<Rightarrow> nat \<Rightarrow> int \<Rightarrow> int list \<Rightarrow> nat option" where
  "cache_find_slot_loop frame_num i k n [] = Some k"
| "cache_find_slot_loop frame_num i k n (x # xs) =
     (case c_abs (x - frame_num) of
        None \<Rightarrow> c_undefined
      | Some d \<Rightarrow> if d > n then cache_find_slot_loop frame_num (Suc i) i d xs
                 else cache_find_slot_loop frame_num (Suc i) k n xs)"

definition cache_find_slot :: "cache_t \<Rightarrow> int \<Rightarrow> nat option" where
  "cache_find_slot v frame_num = cache_find_slot_loop frame_num 0 0 0 (cache_index v)"

definition cache_locate_slot :: "cache_t \<Rightarrow> int \<Rightarrow> int" where
  "cache_locate_slot v frame_num = first_index (\<lambda>x. x = frame_num) (cache_index v)"

text \<open>\<open>n_slots\<close> is \<open>unsigned\<close>: only zero is refused (the caller gets a null pointer).\<close>

definition init_cache :: "nat \<Rightarrow> cache_t option" where
  "init_cache n_slots =
     (if n_slots = 0 then None
      else Some \<lparr>cache_slots = replicate n_slots None, cache_index = replicate n_slots (- 1)\<rparr>)"

fun reset_mem :: "int \<Rightarrow> cache_slot option list \<Rightarrow> int" where
  "reset_mem mem [] = mem"
| "reset_mem mem (None # ss) = reset_mem mem ss"
| "reset_mem mem (Some s # ss) = reset_mem (mem - slot_size s) ss"

definition reset_cache :: "cache_t \<Rightarrow> int \<Rightarrow> cache_t \<times> int" where
  "reset_cache v mem =
     (v\<lparr>cache_index := map (\<lambda>_. - 1) (cache_index v),
        cache_slots := map (\<lambda>_. None) (cache_slots v)\<rparr>,
      reset_mem mem (cache_slots v))"

definition cache_avail_mb :: "int \<Rightarrow> int option" where
  "cache_avail_mb mem = (if mem = 0 then Some 0 else c_div mem (1024 * 1024))"

text \<open>
  \<open>free_cache\<close> releases the two arrays and the header. It walks no slot, so the frame buffers are not
  released and \<open>total_mem_used_\<close> keeps counting them; the result is the new value of the global.
\<close>

definition free_cache :: "cache_t \<Rightarrow> int \<Rightarrow> int" where
  "free_cache v mem = mem"

definition cache_frame ::
  "cache_t \<Rightarrow> int \<Rightarrow> u8 list \<Rightarrow> int \<Rightarrow> int \<Rightarrow> int \<Rightarrow> (cache_t \<times> int) option" where
  "cache_frame v mem linbuf buflen frame_num format =
     (if buflen \<le> 0 then Some (v, mem)
      else let slot_num = cache_free_slot v
           in if slot_num = - 1
              then (case cache_find_slot v frame_num of
                      None \<Rightarrow> c_undefined
                    | Some k \<Rightarrow> cache_claim_slot v mem (int k) linbuf frame_num buflen format)
              else cache_claim_slot v mem slot_num linbuf frame_num buflen format)"

text \<open>A miss is \<open>Some None\<close> (the null pointer), a hit gives the bytes, their number and the format.\<close>

definition get_cached_frame :: "cache_t \<Rightarrow> int \<Rightarrow> (u8 list \<times> int \<times> int) option option" where
  "get_cached_frame v frame_num =
     (let slot = cache_locate_slot v frame_num
      in if slot = - 1 then Some None
         else case cache_slots v ! nat slot of
                None \<Rightarrow> null_deref
              | Some data \<Rightarrow> Some (Some (slot_buffer data, slot_size data, slot_fmt data)))"

subsection \<open>Well-formed caches\<close>

text \<open>
  Frame numbers are C \<open>int\<close>s that are not negative. An empty slot has index \<open>-1\<close>; an occupied one has the
  index of its frame and a buffer of its size.
\<close>

definition frame_ok :: "int \<Rightarrow> bool" where
  "frame_ok n \<longleftrightarrow> 0 \<le> n \<and> n < 2147483647"

definition slot_ok :: "int \<Rightarrow> cache_slot option \<Rightarrow> bool" where
  "slot_ok x s = (case s of None \<Rightarrow> x = - 1
                  | Some d \<Rightarrow> frame_ok x \<and> slot_num d = x \<and> 0 < slot_size d \<and>
                              slot_size d = int (length (slot_buffer d)))"

definition cache_wf :: "cache_t \<Rightarrow> bool" where
  "cache_wf v \<longleftrightarrow> cache_index v \<noteq> [] \<and> length (cache_slots v) = length (cache_index v) \<and>
     (\<forall>i < length (cache_index v). slot_ok (cache_index v ! i) (cache_slots v ! i))"

fun slot_mem :: "cache_slot option \<Rightarrow> int" where
  "slot_mem None = 0"
| "slot_mem (Some s) = slot_size s"

definition cache_mem :: "cache_t \<Rightarrow> int" where
  "cache_mem v = sum_list (map slot_mem (cache_slots v))"

lemma slot_ok_empty_iff: "slot_ok x s \<Longrightarrow> x = - 1 \<longleftrightarrow> s = None"
  by (auto simp: slot_ok_def frame_ok_def split: option.splits)

lemma slot_ok_range: "slot_ok x s \<Longrightarrow> - 1 \<le> x \<and> x < 2147483647"
  by (auto simp: slot_ok_def frame_ok_def split: option.splits)

lemma cache_wf_slot: "cache_wf v \<Longrightarrow> i < length (cache_index v) \<Longrightarrow> slot_ok (cache_index v ! i) (cache_slots v ! i)"
  by (simp add: cache_wf_def)

lemma cache_wf_range: "cache_wf v \<Longrightarrow> x \<in> set (cache_index v) \<Longrightarrow> - 1 \<le> x \<and> x < 2147483647"
  by (metis cache_wf_slot in_set_conv_nth slot_ok_range)

lemma reset_mem_eq: "reset_mem mem ss = mem - sum_list (map slot_mem ss)"
  by (induction mem ss rule: reset_mem.induct) auto

subsection \<open>The replacement policy\<close>

text \<open>The loop returns the first index whose distance to the frame is greatest, and \<open>0\<close> if none is positive.\<close>

lemma cache_find_slot_loop_spec:
  assumes "\<forall>x \<in> set xs. - 1 \<le> x \<and> x < 2147483647" "frame_ok m" "0 \<le> n"
  shows "\<exists>r d. cache_find_slot_loop m i k n xs = Some r \<and> n \<le> d \<and>
           (\<forall>j < length xs. \<bar>xs ! j - m\<bar> \<le> d) \<and>
           (r = k \<and> d = n \<or> (\<exists>j < length xs. r = i + j \<and> \<bar>xs ! j - m\<bar> = d))"
  using assms
proof (induction xs arbitrary: i k n)
  case (Cons x xs)
  have abs: "c_abs (x - m) = Some \<bar>x - m\<bar>"
    using Cons.prems(1,2) by (intro c_abs_Some) (auto simp: frame_ok_def)
  show ?case
  proof (cases "\<bar>x - m\<bar> > n")
    case True
    obtain r d where rd: "cache_find_slot_loop m (Suc i) i \<bar>x - m\<bar> xs = Some r" "\<bar>x - m\<bar> \<le> d"
      "\<forall>j < length xs. \<bar>xs ! j - m\<bar> \<le> d"
      "r = i \<and> d = \<bar>x - m\<bar> \<or> (\<exists>j < length xs. r = Suc i + j \<and> \<bar>xs ! j - m\<bar> = d)"
      using Cons.IH [of "\<bar>x - m\<bar>" "Suc i" i] Cons.prems by auto
    have "\<forall>j < length (x # xs). \<bar>(x # xs) ! j - m\<bar> \<le> d"
      using rd(2,3) by (auto simp: nth_Cons split: nat.splits)
    moreover have "\<exists>j < length (x # xs). r = i + j \<and> \<bar>(x # xs) ! j - m\<bar> = d"
      using rd(4) by (auto intro: exI [of _ 0])
    ultimately show ?thesis using rd(1,2) True abs by (intro exI [of _ r] exI [of _ d]) simp
  next
    case False
    obtain r d where rd: "cache_find_slot_loop m (Suc i) k n xs = Some r" "n \<le> d"
      "\<forall>j < length xs. \<bar>xs ! j - m\<bar> \<le> d"
      "r = k \<and> d = n \<or> (\<exists>j < length xs. r = Suc i + j \<and> \<bar>xs ! j - m\<bar> = d)"
      using Cons.IH [of n "Suc i" k] Cons.prems by auto
    have "\<forall>j < length (x # xs). \<bar>(x # xs) ! j - m\<bar> \<le> d"
      using rd(2,3) False by (auto simp: nth_Cons split: nat.splits)
    moreover have "r = k \<and> d = n \<or> (\<exists>j < length (x # xs). r = i + j \<and> \<bar>(x # xs) ! j - m\<bar> = d)"
      using rd(4) by auto
    ultimately show ?thesis using rd(1,2) False abs by (intro exI [of _ r] exI [of _ d]) simp
  qed
qed auto

lemma cache_find_slot_farthest:
  assumes "cache_wf v" "frame_ok m"
  shows "\<exists>k. cache_find_slot v m = Some k \<and> k < length (cache_index v) \<and>
           (\<forall>j < length (cache_index v). \<bar>cache_index v ! j - m\<bar> \<le> \<bar>cache_index v ! k - m\<bar>)"
proof -
  have ne: "0 < length (cache_index v)" using assms(1) by (auto simp: cache_wf_def)
  obtain r d where rd: "cache_find_slot_loop m 0 0 0 (cache_index v) = Some r" "0 \<le> d"
      "\<forall>j < length (cache_index v). \<bar>cache_index v ! j - m\<bar> \<le> d"
      "r = 0 \<and> d = 0 \<or> (\<exists>j < length (cache_index v). r = 0 + j \<and> \<bar>cache_index v ! j - m\<bar> = d)"
    using cache_find_slot_loop_spec [of "cache_index v" m 0 0 0] cache_wf_range [OF assms(1)] assms(2)
    by blast
  have "r < length (cache_index v)" using rd(4) ne by auto
  moreover have "\<bar>cache_index v ! r - m\<bar> = d" using rd(3,4) ne by fastforce
  ultimately show ?thesis using rd(1,3) by (auto simp: cache_find_slot_def)
qed

subsection \<open>Insertion\<close>

definition new_slot :: "u8 list \<Rightarrow> int \<Rightarrow> int \<Rightarrow> int \<Rightarrow> cache_slot" where
  "new_slot linbuf frame_num buflen format =
     \<lparr>slot_size = buflen, slot_fmt = format, slot_num = frame_num,
      slot_buffer = take (nat buflen) linbuf\<rparr>"

definition put_slot :: "cache_t \<Rightarrow> nat \<Rightarrow> cache_slot \<Rightarrow> cache_t" where
  "put_slot v k s = v\<lparr>cache_index := (cache_index v)[k := slot_num s],
                     cache_slots := (cache_slots v)[k := Some s]\<rparr>"

text \<open>The slot a new frame takes: the first empty one, else the farthest one.\<close>

definition victim :: "cache_t \<Rightarrow> int \<Rightarrow> nat option" where
  "victim v m = (if cache_free_slot v = - 1 then cache_find_slot v m
                 else Some (nat (cache_free_slot v)))"

lemma cache_free_slot_less:
  "cache_free_slot v \<noteq> - 1 \<Longrightarrow> 0 \<le> cache_free_slot v \<and> nat (cache_free_slot v) < length (cache_index v)"
  using first_index_ge [of "\<lambda>x. x = - 1" "cache_index v"]
        first_index_less [of "\<lambda>x. x = - 1" "cache_index v"]
  by (auto simp: cache_free_slot_def)

lemma victim_less: "cache_wf v \<Longrightarrow> frame_ok m \<Longrightarrow> \<exists>k. victim v m = Some k \<and> k < length (cache_index v)"
  using cache_find_slot_farthest [of v m] cache_free_slot_less [of v] by (auto simp: victim_def)

lemma claim_slot_eq:
  assumes "cache_wf v" "k < length (cache_index v)" "0 < buflen" "buflen \<le> int (length linbuf)"
  shows "cache_claim_slot v mem (int k) linbuf m buflen fmt =
           Some (put_slot v k (new_slot linbuf m buflen fmt),
                 mem - slot_mem (cache_slots v ! k) + buflen)"
proof -
  have ok: "slot_ok (cache_index v ! k) (cache_slots v ! k)" using assms by (simp add: cache_wf_slot)
  show ?thesis
  proof (cases "cache_slots v ! k")
    case None
    with ok have "cache_index v ! k = - 1" by (simp add: slot_ok_def)
    with None assms show ?thesis by (simp add: cache_claim_slot_def put_slot_def new_slot_def)
  next
    case (Some d)
    with ok have "0 \<le> cache_index v ! k" by (simp add: slot_ok_def frame_ok_def)
    with Some assms show ?thesis by (simp add: cache_claim_slot_def put_slot_def new_slot_def)
  qed
qed

lemma cache_frame_eq:
  assumes "cache_wf v" "frame_ok m" "0 < buflen" "buflen \<le> int (length linbuf)" "victim v m = Some k"
  shows "cache_frame v mem linbuf buflen m fmt =
           Some (put_slot v k (new_slot linbuf m buflen fmt),
                 mem - slot_mem (cache_slots v ! k) + buflen)"
proof (cases "cache_free_slot v = - 1")
  case True
  with assms(5) have "cache_find_slot v m = Some k" by (simp add: victim_def)
  moreover have "k < length (cache_index v)" using victim_less assms by fastforce
  ultimately show ?thesis using True assms by (simp add: cache_frame_def Let_def claim_slot_eq)
next
  case False
  with assms(5) have k: "cache_free_slot v = int k" using cache_free_slot_less [of v] by (auto simp: victim_def)
  moreover have "k < length (cache_index v)" using victim_less assms by fastforce
  ultimately show ?thesis using assms by (simp add: cache_frame_def Let_def claim_slot_eq)
qed

lemma put_slot_wf:
  assumes "cache_wf v" "k < length (cache_index v)" "frame_ok m" "0 < buflen" "buflen \<le> int (length linbuf)"
  shows "cache_wf (put_slot v k (new_slot linbuf m buflen fmt))"
  using assms
  by (auto simp: cache_wf_def put_slot_def new_slot_def nth_list_update slot_ok_def frame_ok_def)

lemma put_slot_mem:
  assumes "cache_wf v" "k < length (cache_index v)"
  shows "cache_mem (put_slot v k s) = cache_mem v - slot_mem (cache_slots v ! k) + slot_size s"
  using assms sum_list_map_update [of k "cache_slots v" slot_mem "Some s"]
  by (simp add: cache_mem_def put_slot_def cache_wf_def)

subsection \<open>Lookup\<close>

lemma get_cached_frame_eq:
  assumes "cache_wf v" "frame_ok m"
  shows "get_cached_frame v m =
     Some (if m \<in> set (cache_index v)
           then map_option (\<lambda>d. (slot_buffer d, slot_size d, slot_fmt d))
                  (cache_slots v ! nat (first_index (\<lambda>x. x = m) (cache_index v)))
           else None)"
proof (cases "m \<in> set (cache_index v)")
  case True
  let ?i = "first_index (\<lambda>x. x = m) (cache_index v)"
  have i: "0 \<le> ?i"
    using True first_index_none_iff [of "\<lambda>x. x = m" "cache_index v"]
      first_index_ge [of "\<lambda>x. x = m" "cache_index v"]
    by (smt (verit))
  then have "slot_ok m (cache_slots v ! nat ?i)"
    using cache_wf_slot [OF assms(1), of "nat ?i"] first_index_hit [OF i] by simp
  then obtain d where "cache_slots v ! nat ?i = Some d"
    using assms(2) by (auto simp: slot_ok_def frame_ok_def split: option.splits)
  then show ?thesis using i True by (simp add: get_cached_frame_def cache_locate_slot_def Let_def)
next
  case False
  then have "cache_locate_slot v m = - 1"
    by (auto simp: cache_locate_slot_def first_index_none_iff)
  with False show ?thesis by (simp add: get_cached_frame_def Let_def)
qed

definition frame_lookup :: "cache_t \<Rightarrow> int \<Rightarrow> (u8 list \<times> int \<times> int) option" where
  "frame_lookup v m = (case get_cached_frame v m of None \<Rightarrow> None | Some r \<Rightarrow> r)"

lemma frame_lookup_none_iff:
  assumes "cache_wf v" "frame_ok m"
  shows "frame_lookup v m = None \<longleftrightarrow> m \<notin> set (cache_index v)"
proof (cases "m \<in> set (cache_index v)")
  case True
  let ?i = "first_index (\<lambda>x. x = m) (cache_index v)"
  have i: "0 \<le> ?i"
    using True first_index_none_iff [of "\<lambda>x. x = m" "cache_index v"]
      first_index_ge [of "\<lambda>x. x = m" "cache_index v"] by (smt (verit))
  then have "slot_ok m (cache_slots v ! nat ?i)"
    using cache_wf_slot [OF assms(1), of "nat ?i"] first_index_hit [OF i] by simp
  then have "cache_slots v ! nat ?i \<noteq> None"
    using assms(2) by (auto simp: slot_ok_def frame_ok_def split: option.splits)
  with True assms show ?thesis by (simp add: frame_lookup_def get_cached_frame_eq)
qed (use assms in \<open>simp add: frame_lookup_def get_cached_frame_eq\<close>)

lemma frame_lookup_first:
  assumes "cache_wf v" "frame_ok m" "k < length (cache_index v)" "cache_index v ! k = m"
    "\<And>i. i < k \<Longrightarrow> cache_index v ! i \<noteq> m" "cache_slots v ! k = Some d"
  shows "frame_lookup v m = Some (slot_buffer d, slot_size d, slot_fmt d)"
proof -
  have "first_index (\<lambda>x. x = m) (cache_index v) = int k"
    using assms(3-5) by (intro first_index_eqI) auto
  moreover have "m \<in> set (cache_index v)" using assms(3,4) nth_mem by blast
  ultimately show ?thesis using assms by (simp add: frame_lookup_def get_cached_frame_eq)
qed

lemma put_slot_lookup_same:
  assumes "cache_wf v" "frame_ok m" "k < length (cache_index v)" "frame_lookup v m = None"
    "0 < buflen" "buflen \<le> int (length linbuf)"
  shows "frame_lookup (put_slot v k (new_slot linbuf m buflen fmt)) m =
           Some (take (nat buflen) linbuf, buflen, fmt)"
proof -
  let ?v' = "put_slot v k (new_slot linbuf m buflen fmt)"
  have notin: "m \<notin> set (cache_index v)" using assms by (simp add: frame_lookup_none_iff)
  have wf: "cache_wf ?v'" using assms by (simp add: put_slot_wf)
  have idx: "cache_index ?v' = (cache_index v)[k := m]" by (simp add: put_slot_def new_slot_def)
  have "cache_index ?v' ! i \<noteq> m" if "i < k" for i
    using notin that assms(3) by (metis idx nth_list_update_neq nth_mem order_less_trans less_not_refl)
  moreover have "cache_slots ?v' ! k = Some (new_slot linbuf m buflen fmt)"
    using assms(1,3) by (simp add: put_slot_def cache_wf_def)
  ultimately show ?thesis
    using frame_lookup_first [OF wf assms(2), of k] assms(3) idx by (simp add: new_slot_def)
qed

subsection \<open>Each frame is cached at most once\<close>

text \<open>
  \<open>cache_frame\<close> does not look whether the frame is already there; its only caller does
  (\<open>vj_el_get_video_frame\<close> caches after a miss). Under that discipline no frame has two slots.
\<close>

definition cache_once :: "cache_t \<Rightarrow> bool" where
  "cache_once v \<longleftrightarrow> (\<forall>i < length (cache_index v). \<forall>j < length (cache_index v).
     i \<noteq> j \<longrightarrow> cache_index v ! i = cache_index v ! j \<longrightarrow> cache_index v ! i = - 1)"

definition cache_inv :: "cache_t \<Rightarrow> bool" where
  "cache_inv v \<longleftrightarrow> cache_wf v \<and> cache_once v"

lemma cache_onceD:
  "cache_once v \<Longrightarrow> i < length (cache_index v) \<Longrightarrow> j < length (cache_index v) \<Longrightarrow>
   cache_index v ! i = cache_index v ! j \<Longrightarrow> cache_index v ! i \<noteq> - 1 \<Longrightarrow> i = j"
  by (auto simp: cache_once_def)

lemma frame_ok_not_empty: "frame_ok m \<Longrightarrow> m \<noteq> - 1"
  by (auto simp: frame_ok_def)

lemma put_slot_once:
  assumes "cache_once v" "m \<notin> set (cache_index v)" "k < length (cache_index v)" "slot_num s = m"
  shows "cache_once (put_slot v k s)"
  unfolding cache_once_def
proof (intro allI impI)
  fix i j
  assume ij: "i < length (cache_index (put_slot v k s))" "j < length (cache_index (put_slot v k s))"
    "i \<noteq> j" "cache_index (put_slot v k s) ! i = cache_index (put_slot v k s) ! j"
  have notin: "cache_index v ! l \<noteq> m" if "l < length (cache_index v)" for l
    using assms(2) that nth_mem by blast
  have "i \<noteq> k" using ij notin [of j] assms(3,4) by (cases "i = k") (auto simp: put_slot_def)
  moreover have "j \<noteq> k" using ij notin [of i] assms(3,4) by (cases "j = k") (auto simp: put_slot_def)
  ultimately have "i \<noteq> k" "j \<noteq> k" by simp_all
  with ij cache_onceD [OF assms(1), of i j] show "cache_index (put_slot v k s) ! i = - 1"
    by (auto simp: put_slot_def)
qed

lemma frame_lookup_at:
  assumes "cache_inv v" "frame_ok m" "k < length (cache_index v)" "cache_index v ! k = m"
    "cache_slots v ! k = Some d"
  shows "frame_lookup v m = Some (slot_buffer d, slot_size d, slot_fmt d)"
proof (rule frame_lookup_first)
  show "cache_index v ! i \<noteq> m" if "i < k" for i
    using cache_onceD [of v i k] assms that frame_ok_not_empty [OF assms(2)]
    by (auto simp: cache_inv_def)
qed (use assms in \<open>auto simp: cache_inv_def\<close>)

lemma put_slot_lookup_other:
  assumes "cache_inv v" "frame_ok m" "frame_ok m'" "k < length (cache_index v)"
    "frame_lookup v m = None" "0 < buflen" "buflen \<le> int (length linbuf)" "m' \<noteq> m"
  shows "frame_lookup (put_slot v k (new_slot linbuf m buflen fmt)) m' =
           (if cache_index v ! k = m' then None else frame_lookup v m')"
proof -
  let ?v' = "put_slot v k (new_slot linbuf m buflen fmt)"
  have wf: "cache_wf v" using assms(1) by (simp add: cache_inv_def)
  have inv': "cache_inv ?v'"
    using assms put_slot_wf [of v k m buflen linbuf fmt] put_slot_once [of v m k]
    by (auto simp: cache_inv_def frame_lookup_none_iff new_slot_def)
  have idx: "cache_index ?v' = (cache_index v)[k := m]" by (simp add: put_slot_def new_slot_def)
  show ?thesis
  proof (cases "\<exists>j < length (cache_index v). j \<noteq> k \<and> cache_index v ! j = m'")
    case True
    then obtain j where j: "j < length (cache_index v)" "j \<noteq> k" "cache_index v ! j = m'" by blast
    then obtain d where d: "cache_slots v ! j = Some d"
      using cache_wf_slot [OF wf j(1)] assms(3) by (auto simp: slot_ok_def frame_ok_def split: option.splits)
    have "cache_index v ! k \<noteq> m'"
      using cache_onceD [of v k j] assms(1,4) j frame_ok_not_empty [OF assms(3)]
      by (auto simp: cache_inv_def)
    moreover have "frame_lookup v m' = Some (slot_buffer d, slot_size d, slot_fmt d)"
      using assms(1,3) j d by (intro frame_lookup_at) auto
    moreover have "frame_lookup ?v' m' = Some (slot_buffer d, slot_size d, slot_fmt d)"
      using inv' assms(3,4) j d idx by (intro frame_lookup_at [where k = j]) (auto simp: put_slot_def)
    ultimately show ?thesis by simp
  next
    case False
    then have gone: "m' \<notin> set ((cache_index v)[k := m])"
    proof -
      have "(cache_index v)[k := m] ! i \<noteq> m'" if "i < length (cache_index v)" for i
        using False that assms(8) by (cases "i = k") auto
      then show ?thesis by (auto simp: in_set_conv_nth)
    qed
    then have "frame_lookup ?v' m' = None"
      using inv' assms(3) idx by (simp add: frame_lookup_none_iff cache_inv_def)
    moreover have "frame_lookup v m' = None" if "cache_index v ! k \<noteq> m'"
    proof -
      have "m' \<notin> set (cache_index v)" using False that assms(4) by (auto simp: in_set_conv_nth)
      then show ?thesis using wf assms(3) by (simp add: frame_lookup_none_iff)
    qed
    ultimately show ?thesis by simp
  qed
qed

subsection \<open>The interface a client relies on\<close>

text \<open>
  A frame store answers a lookup with what was inserted, may forget, and never answers with something
  else. \<open>ins\<close> is only called after a miss.
\<close>

locale frame_store =
  fixes inv :: "'c \<Rightarrow> bool"
    and look :: "'c \<Rightarrow> int \<Rightarrow> 'd option"
    and ins :: "'c \<Rightarrow> int \<Rightarrow> 'd \<Rightarrow> 'c"
    and key_ok :: "int \<Rightarrow> bool"
    and val_ok :: "'d \<Rightarrow> bool"
  assumes ins_inv: "inv c \<Longrightarrow> key_ok n \<Longrightarrow> val_ok d \<Longrightarrow> look c n = None \<Longrightarrow> inv (ins c n d)"
    and look_ins_same: "inv c \<Longrightarrow> key_ok n \<Longrightarrow> val_ok d \<Longrightarrow> look c n = None \<Longrightarrow> look (ins c n d) n = Some d"
    and look_ins_other: "inv c \<Longrightarrow> key_ok n \<Longrightarrow> val_ok d \<Longrightarrow> look c n = None \<Longrightarrow> key_ok m \<Longrightarrow> m \<noteq> n \<Longrightarrow>
        look (ins c n d) m = None \<or> look (ins c n d) m = look c m"

text \<open>A read through a store: take the stored value, or produce it and store it when it may be stored.\<close>

definition read_through ::
  "('c \<Rightarrow> int \<Rightarrow> 'd option) \<Rightarrow> ('c \<Rightarrow> int \<Rightarrow> 'd \<Rightarrow> 'c) \<Rightarrow> ('d \<Rightarrow> bool) \<Rightarrow> (int \<Rightarrow> 'd) \<Rightarrow> 'c \<Rightarrow> int \<Rightarrow> 'd \<times> 'c" where
  "read_through look ins val_ok src c n =
     (case look c n of
        Some d \<Rightarrow> (d, c)
      | None \<Rightarrow> (src n, if val_ok (src n) then ins c n (src n) else c))"

definition coherent :: "('c \<Rightarrow> int \<Rightarrow> 'd option) \<Rightarrow> (int \<Rightarrow> bool) \<Rightarrow> (int \<Rightarrow> 'd) \<Rightarrow> 'c \<Rightarrow> bool" where
  "coherent look key_ok src c \<longleftrightarrow> (\<forall>n d. key_ok n \<longrightarrow> look c n = Some d \<longrightarrow> d = src n)"

fun read_all ::
  "('c \<Rightarrow> int \<Rightarrow> 'd option) \<Rightarrow> ('c \<Rightarrow> int \<Rightarrow> 'd \<Rightarrow> 'c) \<Rightarrow> ('d \<Rightarrow> bool) \<Rightarrow> (int \<Rightarrow> 'd) \<Rightarrow> 'c \<Rightarrow> int list \<Rightarrow> 'd list \<times> 'c" where
  "read_all look ins val_ok src c [] = ([], c)"
| "read_all look ins val_ok src c (n # ns) =
     (let (d, c') = read_through look ins val_ok src c n;
          (ds, c'') = read_all look ins val_ok src c' ns
      in (d # ds, c''))"

context frame_store
begin

lemma read_through_sound:
  assumes "inv c" "coherent look key_ok src c" "key_ok n" "read_through look ins val_ok src c n = (d, c')"
  shows "d = src n \<and> inv c' \<and> coherent look key_ok src c'"
proof (cases "look c n")
  case None
  show ?thesis
  proof (cases "val_ok (src n)")
    case True
    have "coherent look key_ok src (ins c n (src n))"
      unfolding coherent_def
    proof (intro allI impI)
      fix m e assume m: "key_ok m" "look (ins c n (src n)) m = Some e"
      show "e = src m"
      proof (cases "m = n")
        case True
        with m look_ins_same assms \<open>val_ok (src n)\<close> None show ?thesis by simp
      next
        case False
        with m look_ins_other [of c n "src n" m] assms \<open>val_ok (src n)\<close> None
        have "look c m = Some e" by auto
        with assms(2) m(1) show ?thesis by (simp add: coherent_def)
      qed
    qed
    with True None assms ins_inv show ?thesis by (auto simp: read_through_def)
  qed (use None assms in \<open>auto simp: read_through_def\<close>)
qed (use assms in \<open>auto simp: read_through_def coherent_def\<close>)

lemma read_all_sound:
  assumes "inv c" "coherent look key_ok src c" "\<forall>n \<in> set ns. key_ok n"
  shows "fst (read_all look ins val_ok src c ns) = map src ns"
  using assms
proof (induction ns arbitrary: c)
  case (Cons n ns)
  obtain d c' where rt: "read_through look ins val_ok src c n = (d, c')" by fastforce
  have "key_ok n" using Cons.prems(3) by simp
  then have now: "d = src n" "inv c'" "coherent look key_ok src c'"
    using read_through_sound [OF Cons.prems(1,2) _ rt] by blast+
  have "fst (read_all look ins val_ok src c' ns) = map src ns"
    using Cons.IH [OF now(2,3)] Cons.prems(3) by simp
  then show ?case using rt now(1) by (simp add: split_beta)
qed simp

end

text \<open>The C cache is such a store; the pair carries the global memory counter.\<close>

definition frame_insert :: "cache_t \<times> int \<Rightarrow> int \<Rightarrow> u8 list \<times> int \<times> int \<Rightarrow> cache_t \<times> int" where
  "frame_insert c n d =
     (case d of (buf, len, fmt) \<Rightarrow>
        (case cache_frame (fst c) (snd c) buf len n fmt of None \<Rightarrow> c | Some c' \<Rightarrow> c'))"

definition frame_val_ok :: "u8 list \<times> int \<times> int \<Rightarrow> bool" where
  "frame_val_ok d = (case d of (buf, len, fmt) \<Rightarrow> 0 < len \<and> len = int (length buf))"

interpretation el_cache: frame_store
  "\<lambda>c. cache_inv (fst c)" "\<lambda>c. frame_lookup (fst c)" frame_insert frame_ok frame_val_ok
proof unfold_locales
  fix c :: "cache_t \<times> int" and n :: int and d :: "u8 list \<times> int \<times> int"
  assume c: "cache_inv (fst c)" "frame_ok n" "frame_val_ok d" "frame_lookup (fst c) n = None"
  obtain buf len fmt where d: "d = (buf, len, fmt)" by (cases d)
  obtain k where k: "victim (fst c) n = Some k" "k < length (cache_index (fst c))"
    using victim_less c by (auto simp: cache_inv_def)
  have len: "0 < len" "len = int (length buf)" using c d by (auto simp: frame_val_ok_def)
  have eq: "fst (frame_insert c n d) = put_slot (fst c) k (new_slot buf n len fmt)"
    using c k d len by (simp add: frame_insert_def cache_frame_eq cache_inv_def)
  show "cache_inv (fst (frame_insert c n d))"
    unfolding eq using c k len put_slot_wf [of "fst c" k n len buf fmt] put_slot_once [of "fst c" n k]
    by (auto simp: cache_inv_def frame_lookup_none_iff new_slot_def)
  show "frame_lookup (fst (frame_insert c n d)) n = Some d"
    unfolding eq using c k len d put_slot_lookup_same [of "fst c" n k len buf fmt]
    by (simp add: cache_inv_def)
  fix m assume m: "frame_ok m" "m \<noteq> n"
  have "frame_lookup (put_slot (fst c) k (new_slot buf n len fmt)) m =
          (if cache_index (fst c) ! k = m then None else frame_lookup (fst c) m)"
    using put_slot_lookup_other [OF c(1,2) m(1) k(2) c(4) len(1) _ m(2)] len(2) by simp
  then show "frame_lookup (fst (frame_insert c n d)) m = None \<or>
             frame_lookup (fst (frame_insert c n d)) m = frame_lookup (fst c) m"
    unfolding eq by (simp split: if_splits)
qed

subsection \<open>Properties\<close>

text \<open>
  C18. Caching a frame is safe and its memory is accounted for: on a well-formed cache, for a frame number and a
  buffer the decoder can produce, \<open>cache_frame\<close> never leaves its arrays, keeps the cache well-formed with the
  same number of slots, and changes the global counter by exactly what it changes the cached bytes.
\<close>

theorem cache_frame_accounting:
  assumes "cache_wf v" "frame_ok m" "0 < buflen" "buflen \<le> int (length linbuf)"
  shows "\<exists>v' mem'. cache_frame v mem linbuf buflen m fmt = Some (v', mem') \<and> cache_wf v' \<and>
           length (cache_index v') = length (cache_index v) \<and>
           mem' - cache_mem v' = mem - cache_mem v"
proof -
  obtain k where k: "victim v m = Some k" "k < length (cache_index v)"
    using victim_less assms by blast
  have "cache_wf (put_slot v k (new_slot linbuf m buflen fmt))" using assms k by (simp add: put_slot_wf)
  moreover have "cache_mem (put_slot v k (new_slot linbuf m buflen fmt)) =
      cache_mem v - slot_mem (cache_slots v ! k) + buflen"
    using assms k by (simp add: put_slot_mem new_slot_def)
  ultimately show ?thesis using assms k by (simp add: cache_frame_eq put_slot_def)
qed

definition demo_cache :: cache_t where
  "demo_cache = \<lparr>cache_slots = [None, None], cache_index = [- 1, - 1]\<rparr>"

lemma demo_cache_wf: "cache_wf demo_cache"
  by (auto simp: cache_wf_def demo_cache_def slot_ok_def less_Suc_eq)

theorem cache_frame_accounting_witness:
  "\<exists>v' mem'. cache_frame demo_cache 100 [1, 2, 3] 3 7 0 = Some (v', mem') \<and> mem' - cache_mem v' = 100"
proof -
  have "frame_ok 7" by (simp add: frame_ok_def)
  moreover have "cache_mem demo_cache = 0" by (simp add: cache_mem_def demo_cache_def)
  ultimately show ?thesis
    using cache_frame_accounting [OF demo_cache_wf, of 7 3 "[1, 2, 3]" 100 0] by auto
qed

text \<open>
  C17. A full cache gives up the frame that is farthest from the new one: when no slot is empty, the only slot
  that changes is one whose frame distance is greatest, and it now holds the new frame.
\<close>

theorem cache_frame_evicts_farthest:
  assumes "cache_wf v" "frame_ok m" "0 < buflen" "buflen \<le> int (length linbuf)"
    "- 1 \<notin> set (cache_index v)"
  shows "\<exists>v' mem' k. cache_frame v mem linbuf buflen m fmt = Some (v', mem') \<and>
           k < length (cache_index v) \<and>
           (\<forall>j < length (cache_index v). \<bar>cache_index v ! j - m\<bar> \<le> \<bar>cache_index v ! k - m\<bar>) \<and>
           cache_index v' = (cache_index v)[k := m] \<and>
           cache_slots v' ! k = Some (new_slot linbuf m buflen fmt) \<and>
           (\<forall>j. j \<noteq> k \<longrightarrow> cache_slots v' ! j = cache_slots v ! j)"
proof -
  have full: "cache_free_slot v = - 1"
    using assms(5) by (auto simp: cache_free_slot_def first_index_none_iff)
  obtain k where k: "cache_find_slot v m = Some k" "k < length (cache_index v)"
      "\<forall>j < length (cache_index v). \<bar>cache_index v ! j - m\<bar> \<le> \<bar>cache_index v ! k - m\<bar>"
    using cache_find_slot_farthest [OF assms(1,2)] by blast
  then have "victim v m = Some k" using full by (simp add: victim_def)
  moreover have "length (cache_slots v) = length (cache_index v)" using assms(1) by (simp add: cache_wf_def)
  ultimately show ?thesis
    using assms k by (auto simp: cache_frame_eq put_slot_def new_slot_def intro!: exI [of _ k])
qed

definition full_cache :: cache_t where
  "full_cache = put_slot (put_slot demo_cache 0 (new_slot [1] 10 1 0)) 1 (new_slot [2] 90 1 0)"

theorem cache_frame_evicts_farthest_witness:
  "\<exists>v' mem' k. cache_frame full_cache 2 [5] 1 20 0 = Some (v', mem') \<and> cache_index v' = [10, 20]"
proof -
  have wf: "cache_wf full_cache"
    unfolding full_cache_def by (intro put_slot_wf demo_cache_wf)
      (simp_all add: frame_ok_def demo_cache_def put_slot_def)
  have idx: "cache_index full_cache = [10, 90]"
    by (simp add: full_cache_def put_slot_def new_slot_def demo_cache_def)
  have full: "- 1 \<notin> set (cache_index full_cache)" by (simp add: idx)
  have ok: "frame_ok 20" by (simp add: frame_ok_def)
  obtain v' mem' k where r: "cache_frame full_cache 2 [5] 1 20 0 = Some (v', mem')"
      "k < length (cache_index full_cache)"
      "\<forall>j < length (cache_index full_cache).
         \<bar>cache_index full_cache ! j - 20\<bar> \<le> \<bar>cache_index full_cache ! k - 20\<bar>"
      "cache_index v' = (cache_index full_cache)[k := 20]"
    using cache_frame_evicts_farthest [OF wf ok _ _ full, of 1 "[5]" 2 0] by auto
  have "k = 1"
  proof (rule ccontr)
    assume "k \<noteq> 1"
    with r(2) have "k = 0" by (simp add: idx)
    with r(3) [rule_format, of 1] show False by (simp add: idx)
  qed
  with r show ?thesis by (auto simp: idx)
qed

text \<open>
  \<open>reset_cache\<close> empties every slot and gives the cached bytes back to the counter, so nothing is found
  afterwards and the counter is what it was before the cache was filled. \<open>free_cache\<close>, which also ends the
  life of the cached frames, leaves the counter as it is: the bytes of a discarded cache stay counted.
\<close>

theorem reset_cache_releases:
  "snd (reset_cache v mem) = mem - cache_mem v \<and> cache_mem (fst (reset_cache v mem)) = 0 \<and>
   cache_index (fst (reset_cache v mem)) = replicate (length (cache_index v)) (- 1) \<and>
   free_cache v mem = mem"
  by (simp add: reset_cache_def reset_mem_eq cache_mem_def free_cache_def map_replicate_const
      sum_list_replicate)

end
