(* ===== verification/EditList.thy ===== *)
theory EditList
  imports ElCache Complex_Main
begin

unbundle bit_operations_syntax

text \<open>
  Edit lists (\<open>libel/vj-el.h\<close>, \<open>libel/vj-el.c\<close>): a list of frame entries, each naming a video file and a
  frame of it, with the tables of the files it refers to and an optional frame cache.

  \<^item> An entry is a \<open>64 word\<close>: twelve bits of file, fifty-two bits of frame.
  \<^item> A frame buffer is a list of cells of its allocated length; a cell is \<open>None\<close> while its memory has not
    been written. \<open>total_frames\<close> is a \<open>64 word\<close> as in the code, because every bound test on it is unsigned.
  \<^item> The file handles are addresses of \<open>lav_file\<close> objects, of which the modelled operations read the format
    and the length given to a still picture.
\<close>

subsection \<open>Entries\<close>

definition N_EL_FRAME :: "u64 \<Rightarrow> u64" where
  "N_EL_FRAME x = x AND 0xfffffffffffff"

definition N_EL_FILE :: "u64 \<Rightarrow> 32 word" where
  "N_EL_FILE x = ucast (drop_bit 52 x AND 0xfff)"

definition EL_ENTRY :: "u64 \<Rightarrow> u64 \<Rightarrow> u64" where
  "EL_ENTRY file frame = push_bit 52 file OR (frame AND 0xfffffffffffff)"

abbreviation el_file :: "u64 \<Rightarrow> nat" where "el_file x \<equiv> unat (N_EL_FILE x)"

definition MAX_EDIT_LIST_FILES :: nat where "MAX_EDIT_LIST_FILES = 4096"
definition DUMMY_FRAMES :: int where "DUMMY_FRAMES = 2"

subsection \<open>Frame buffers\<close>

type_synonym 'a buf = "'a option list"

definition buf_get :: "'a buf \<Rightarrow> nat \<Rightarrow> 'a option option" where
  "buf_get b i = (if i < length b then Some (b ! i) else out_of_bounds)"

definition buf_put :: "'a buf \<Rightarrow> nat \<Rightarrow> 'a option \<Rightarrow> 'a buf option" where
  "buf_put b i x = (if i < length b then Some (b[i := x]) else out_of_bounds)"

text \<open>Reading a value for use: the cell must exist and have been written.\<close>

definition buf_read :: "'a buf \<Rightarrow> nat \<Rightarrow> 'a option" where
  "buf_read b i = (if i < length b then b ! i else out_of_bounds)"

definition buf_realloc :: "'a buf \<Rightarrow> nat \<Rightarrow> 'a buf" where
  "buf_realloc b n = take n b @ replicate (n - length b) None"

lemma length_buf_realloc [simp]: "length (buf_realloc b n) = n"
  by (simp add: buf_realloc_def)

lemma nth_buf_realloc: "i < n \<Longrightarrow> buf_realloc b n ! i = (if i < length b then b ! i else None)"
  by (simp add: buf_realloc_def nth_append)

lemma buf_get_Some [simp]: "i < length b \<Longrightarrow> buf_get b i = Some (b ! i)"
  by (simp add: buf_get_def)

lemma buf_put_Some [simp]: "i < length b \<Longrightarrow> buf_put b i x = Some (b[i := x])"
  by (simp add: buf_put_def)

subsection \<open>The edit list\<close>

record lav_file =
  lav_format :: char
  lav_bogus_len :: int

record editlist =
  el_has_video :: int
  el_is_empty :: int
  el_video_width :: int
  el_video_height :: int
  el_video_fps :: rat
  el_video_sar_width :: int
  el_video_sar_height :: int
  el_video_norm :: char
  el_has_audio :: int
  el_audio_rate :: int
  el_audio_chans :: int
  el_audio_bits :: int
  el_audio_bps :: int
  el_video_frames :: int
  el_num_video_files :: int
  el_total_frames :: u64
  el_max_frame_size :: int
  el_MJPG_chroma :: int
  el_video_file_list :: "nat \<Rightarrow> string option"
  el_lav_fd :: "nat \<Rightarrow> addr option"
  el_pixfmt :: "nat \<Rightarrow> int"
  el_ctx :: "nat \<Rightarrow> addr option"
  el_decoders :: "nat \<Rightarrow> addr option"
  el_num_frames :: "nat \<Rightarrow> int"
  el_frame_list :: "u64 buf option"
  el_last_afile :: int
  el_last_apos :: int
  el_auto_deinter :: int
  el_pixel_format :: int
  el_cache :: "cache_t option"
  el_is_clone :: int

text \<open>The tables have \<open>MAX_EDIT_LIST_FILES\<close> entries and a file field is less than that.\<close>

definition el_frames :: "editlist \<Rightarrow> u64 buf" where
  "el_frames el = (case el_frame_list el of None \<Rightarrow> [] | Some b \<Rightarrow> b)"

definition el_frame_at :: "editlist \<Rightarrow> nat \<Rightarrow> u64 option" where
  "el_frame_at el i = (case el_frame_list el of None \<Rightarrow> null_deref | Some b \<Rightarrow> buf_read b i)"

subsection \<open>Cache of an edit list\<close>

text \<open>\<open>mem_chunk_\<close> and \<open>never_cache_\<close> are globals of \<open>vj-el.c\<close>, \<open>total_mem_used_\<close> of \<open>elcache.c\<close>.\<close>

record el_globals =
  mem_chunk :: int
  never_cache :: int
  total_mem_used :: int

definition vj_el_init_chunk :: "el_globals \<Rightarrow> int \<Rightarrow> el_globals" where
  "vj_el_init_chunk g sz = g\<lparr>mem_chunk := 1024 * sz\<rparr>"

definition vj_el_set_caching :: "el_globals \<Rightarrow> int \<Rightarrow> el_globals" where
  "vj_el_set_caching g status = g\<lparr>never_cache := status\<rparr>"

definition vj_el_break_cache :: "el_globals \<Rightarrow> editlist \<Rightarrow> editlist \<times> el_globals" where
  "vj_el_break_cache g el =
     (el\<lparr>el_cache := None\<rparr>,
      case el_cache el of None \<Rightarrow> g | Some v \<Rightarrow> g\<lparr>total_mem_used := free_cache v (total_mem_used g)\<rparr>)"

text \<open>
  The number of slots is the chunk divided by the largest frame; \<open>init_cache\<close> takes an \<open>unsigned\<close>. A cache
  is made only for a list with fewer frames than slots.
\<close>

definition vj_el_setup_cache :: "el_globals \<Rightarrow> editlist \<Rightarrow> editlist option" where
  "vj_el_setup_cache g el =
     (if el_cache el = None \<and> never_cache g = 0
      then do {
        q \<leftarrow> c_div (mem_chunk g) (el_max_frame_size el);
        let n_slots = int32_of_long q;
        Some (if el_video_frames el < n_slots
              then el\<lparr>el_cache := init_cache (nat (n_slots mod 2 ^ 32))\<rparr> else el)
      }
      else Some el)"

definition vj_el_clear_cache :: "el_globals \<Rightarrow> editlist \<Rightarrow> editlist \<times> el_globals" where
  "vj_el_clear_cache g el =
     (case el_cache el of
        None \<Rightarrow> (el, g)
      | Some v \<Rightarrow> (let (v', mem) = reset_cache v (total_mem_used g)
                   in (el\<lparr>el_cache := Some v'\<rparr>, g\<lparr>total_mem_used := mem\<rparr>)))"

subsection \<open>Still pictures\<close>

definition lav_bogus_video_length :: "lav_file \<Rightarrow> int" where
  "lav_bogus_video_length f = (if lav_format f = CHR ''x'' then lav_bogus_len f else 0)"

definition lav_bogus_set_length :: "lav_file \<Rightarrow> int \<Rightarrow> lav_file" where
  "lav_bogus_set_length f len = f\<lparr>lav_bogus_len := len\<rparr>"

text \<open>The bound test \<open>nframe > el->total_frames\<close> converts the \<open>long\<close> to unsigned.\<close>

definition el_clamp_frame :: "editlist \<Rightarrow> int \<Rightarrow> int" where
  "el_clamp_frame el nframe =
     (let n = (if nframe < 0 then 0 else nframe)
      in if (word_of_int n :: u64) > el_total_frames el then sint (el_total_frames el) else n)"

definition el_frame_file :: "(addr \<rightharpoonup> lav_file) \<Rightarrow> editlist \<Rightarrow> int \<Rightarrow> (addr \<times> lav_file) option" where
  "el_frame_file files el nframe =
     (if nframe < 0 then out_of_bounds
      else do {
        n \<leftarrow> el_frame_at el (nat nframe);
        fd \<leftarrow> el_lav_fd el (el_file n);
        f \<leftarrow> files fd;
        Some (fd, f)
      })"

definition vj_el_bogus_length :: "(addr \<rightharpoonup> lav_file) \<Rightarrow> editlist \<Rightarrow> int \<Rightarrow> int option" where
  "vj_el_bogus_length files el nframe =
     (if el_has_video el = 0 \<or> el_is_empty el \<noteq> 0 then Some 0
      else do {
        (fd, f) \<leftarrow> el_frame_file files el (el_clamp_frame el nframe);
        Some (lav_bogus_video_length f)
      })"

definition vj_el_set_bogus_length ::
  "(addr \<rightharpoonup> lav_file) \<Rightarrow> editlist \<Rightarrow> int \<Rightarrow> int \<Rightarrow> (int \<times> (addr \<rightharpoonup> lav_file)) option" where
  "vj_el_set_bogus_length files el nframe len =
     (if len \<le> 0 then Some (0, files)
      else if el_has_video el = 0 \<or> el_is_empty el \<noteq> 0 then Some (0, files)
      else do {
        (fd, f) \<leftarrow> el_frame_file files el (el_clamp_frame el nframe);
        if lav_bogus_video_length f = 0 then Some (0, files)
        else Some (1, files(fd \<mapsto> lav_bogus_set_length f len))
      })"

subsection \<open>Cloning and the empty list\<close>

definition vj_el_soft_clone :: "editlist \<Rightarrow> editlist" where
  "vj_el_soft_clone el =
     el\<lparr>el_total_frames := word_of_int (el_video_frames el - 1),
        el_frame_list := None,
        el_cache := None,
        el_is_clone := 1,
        el_video_file_list := (\<lambda>i. if el_lav_fd el i \<noteq> None \<and> el_video_file_list el i \<noteq> None
                                   then el_video_file_list el i else None),
        el_lav_fd := (\<lambda>i. if el_lav_fd el i \<noteq> None \<and> el_video_file_list el i \<noteq> None
                          then el_lav_fd el i else None),
        el_num_frames := (\<lambda>i. if el_lav_fd el i \<noteq> None \<and> el_video_file_list el i \<noteq> None
                              then el_num_frames el i else 0),
        el_pixfmt := (\<lambda>i. if el_lav_fd el i \<noteq> None \<and> el_video_file_list el i \<noteq> None
                          then el_pixfmt el i else 0)\<rparr>"

definition vj_el_framelist_clone :: "editlist \<Rightarrow> editlist \<Rightarrow> (int \<times> editlist) option" where
  "vj_el_framelist_clone src dst =
     (if el_frame_list dst \<noteq> None then Some (0, dst)
      else let n = nat (el_video_frames src)
           in if length (el_frames src) < n then out_of_bounds
              else Some (1, dst\<lparr>el_frame_list :=
                      Some (buf_realloc (take n (el_frames src)) (nat (RUP8 (el_video_frames src))))\<rparr>))"

definition vj_el_clone :: "editlist \<Rightarrow> editlist option" where
  "vj_el_clone el = do {
     let clone = vj_el_soft_clone el;
     (r, clone') \<leftarrow> vj_el_framelist_clone el clone;
     Some clone'
   }"

definition vj_el_dummy :: "int \<Rightarrow> int \<Rightarrow> char \<Rightarrow> int \<Rightarrow> int \<Rightarrow> rat \<Rightarrow> int \<Rightarrow> editlist" where
  "vj_el_dummy deinterlace chroma vnorm width height fps fmt =
     \<lparr>el_has_video = 0, el_is_empty = 1, el_video_width = width, el_video_height = height,
      el_video_fps = fps, el_video_sar_width = 0, el_video_sar_height = 0, el_video_norm = vnorm,
      el_has_audio = 0, el_audio_rate = 0, el_audio_chans = 0, el_audio_bits = 0, el_audio_bps = 0,
      el_video_frames = DUMMY_FRAMES, el_num_video_files = 0,
      el_total_frames = word_of_int (DUMMY_FRAMES - 1), el_max_frame_size = width * height * 3,
      el_MJPG_chroma = chroma, el_video_file_list = (\<lambda>_. None), el_lav_fd = (\<lambda>_. None),
      el_pixfmt = (\<lambda>_. 0), el_ctx = (\<lambda>_. None), el_decoders = (\<lambda>_. None), el_num_frames = (\<lambda>_. 0),
      el_frame_list = None, el_last_afile = - 1, el_last_apos = 0, el_auto_deinter = deinterlace,
      el_pixel_format = fmt, el_cache = None, el_is_clone = 1\<rparr>"

subsection \<open>Positions of the files in the list\<close>

fun file_offset :: "(nat \<Rightarrow> int) \<Rightarrow> nat \<Rightarrow> int" where
  "file_offset num_frames 0 = 0"
| "file_offset num_frames (Suc i) = file_offset num_frames i + num_frames i"

definition vj_el_get_file_entry :: "editlist \<Rightarrow> int \<Rightarrow> (int \<times> int \<times> int) option" where
  "vj_el_get_file_entry el entry =
     (if entry \<ge> el_num_video_files el then Some (0, 0, 0)
      else if entry < 0 then out_of_bounds
      else if el_video_file_list el (nat entry) = None then Some (0, 0, 0)
      else let start_pos = file_offset (el_num_frames el) (nat entry)
           in Some (1, start_pos, start_pos + el_num_frames el (nat entry) - 1))"

subsection \<open>Entry encoding\<close>

lemma el_masks: "(0xfffffffffffff :: u64) = mask 52" "(0xfff :: u64) = mask 12"
  by (simp_all add: mask_eq_exp_minus_1)

lemma el_frame_entry: "N_EL_FRAME (EL_ENTRY f n) = take_bit 52 n"
  by (rule bit_word_eqI)
     (auto simp: N_EL_FRAME_def EL_ENTRY_def el_masks take_bit_eq_mask [symmetric] bit_simps)

lemma el_file_entry: "el_file (EL_ENTRY f n) = take_bit 12 (unat f)"
proof -
  have "drop_bit 52 (EL_ENTRY f n) AND 0xfff = take_bit 12 f"
    by (rule bit_word_eqI)
       (auto simp: EL_ENTRY_def el_masks take_bit_eq_mask [symmetric] bit_simps)
  then show ?thesis
    by (simp add: N_EL_FILE_def unsigned_ucast_eq unsigned_take_bit_eq)
qed

lemma el_entry_exact:
  assumes "unat f < 4096" "unat n < 2 ^ 52"
  shows "el_file (EL_ENTRY f n) = unat f" "N_EL_FRAME (EL_ENTRY f n) = n"
proof -
  show "el_file (EL_ENTRY f n) = unat f"
    using assms(1) by (simp add: el_file_entry take_bit_nat_eq_self)
  have "unat (take_bit 52 n) = unat n"
    using assms(2) by (simp add: unsigned_take_bit_eq take_bit_nat_eq_self)
  then have "take_bit 52 n = n" by (simp add: word_unat_eq_iff)
  then show "N_EL_FRAME (EL_ENTRY f n) = n" by (simp add: el_frame_entry)
qed

lemma el_file_less: "el_file x < 4096"
proof -
  have "el_file x = take_bit 12 (unat (drop_bit 52 x))"
    by (simp add: N_EL_FILE_def el_masks take_bit_eq_mask [symmetric] unsigned_ucast_eq unsigned_take_bit_eq)
  then show ?thesis using take_bit_nat_less_exp [of 12 "unat (drop_bit 52 x)"] by simp
qed

lemma el_frame_less: "unat (N_EL_FRAME x) < 2 ^ 52"
  using take_bit_nat_less_exp [of 52 "unat x"]
  by (simp add: N_EL_FRAME_def el_masks take_bit_eq_mask [symmetric] unsigned_take_bit_eq)

end
