(* ===== verification/CText.thy ===== *)
theory CText
  imports Prelude "HOL-Library.Char_ord"
begin

text \<open>
  Decimal text as \<open>printf\<close> writes it and \<open>scanf\<close> reads it: the conversions \<open>%d\<close>, \<open>%Nd\<close> and \<open>%0Nd\<close> that
  the edit-list files, the VIMS messages and the keyframe packets use. Strings are lists of bytes.
\<close>

definition is_space :: "char \<Rightarrow> bool" where
  "is_space c \<longleftrightarrow> (of_char c :: nat) = 32 \<or> 9 \<le> (of_char c :: nat) \<and> (of_char c :: nat) \<le> 13"

definition is_digit :: "char \<Rightarrow> bool" where
  "is_digit c \<longleftrightarrow> 48 \<le> (of_char c :: nat) \<and> (of_char c :: nat) \<le> 57"

definition digit_val :: "char \<Rightarrow> nat" where
  "digit_val c = of_char c - 48"

definition digit_char :: "nat \<Rightarrow> char" where
  "digit_char d = char_of (48 + d)"

lemma digit_char_simps [simp]:
  "d < 10 \<Longrightarrow> is_digit (digit_char d)" "d < 10 \<Longrightarrow> digit_val (digit_char d) = d"
  by (simp_all add: is_digit_def digit_char_def digit_val_def)

lemma digit_chars:
  "digit_char 0 = CHR ''0''" "digit_char (Suc 0) = CHR ''1''" "digit_char 1 = CHR ''1''" "digit_char 2 = CHR ''2''"
  "digit_char 3 = CHR ''3''" "digit_char 4 = CHR ''4''" "digit_char 5 = CHR ''5''" "digit_char 6 = CHR ''6''"
  "digit_char 7 = CHR ''7''" "digit_char 8 = CHR ''8''" "digit_char 9 = CHR ''9''"
  by code_simp+

lemma digit_not_space [simp]: "is_digit c \<Longrightarrow> \<not> is_space c"
  by (auto simp: is_digit_def is_space_def)

lemma digit_not_sign: "is_digit c \<Longrightarrow> c \<noteq> CHR ''-'' \<and> c \<noteq> CHR ''+''"
  by (auto simp: is_digit_def)

subsection \<open>Printing\<close>

fun show_nat :: "nat \<Rightarrow> string" where
  "show_nat n = (if n < 10 then [digit_char n] else show_nat (n div 10) @ [digit_char (n mod 10)])"

declare show_nat.simps [simp del]

definition show_int :: "int \<Rightarrow> string" where
  "show_int i = (if i < 0 then CHR ''-'' # show_nat (nat (- i)) else show_nat (nat i))"

text \<open>\<open>%0Nd\<close>: zeros between the sign and the digits up to the field width, which is a minimum.\<close>

definition show_pad :: "nat \<Rightarrow> int \<Rightarrow> string" where
  "show_pad w i =
     (if i < 0 then CHR ''-'' # replicate (w - 1 - length (show_nat (nat (- i)))) CHR ''0'' @ show_nat (nat (- i))
      else replicate (w - length (show_nat (nat i))) CHR ''0'' @ show_nat (nat i))"

subsection \<open>Scanning\<close>

fun skip_space :: "string \<Rightarrow> string" where
  "skip_space [] = []"
| "skip_space (c # cs) = (if is_space c then skip_space cs else c # cs)"

fun take_digits :: "nat \<Rightarrow> string \<Rightarrow> string \<times> string" where
  "take_digits 0 cs = ([], cs)"
| "take_digits (Suc w) [] = ([], [])"
| "take_digits (Suc w) (c # cs) =
     (if is_digit c then (let (ds, r) = take_digits w cs in (c # ds, r)) else ([], c # cs))"

definition digits_nat :: "string \<Rightarrow> nat" where
  "digits_nat ds = foldl (\<lambda>a c. 10 * a + digit_val c) 0 ds"

text \<open>
  \<open>%Nd\<close>: white space is skipped, a sign counts towards the width, at least one digit is needed. The result
  is the value and the rest of the input, or \<open>None\<close> when the conversion fails. A value that does not fit the
  target is undefined in C; the callers' fields are bounded by their width.
\<close>

definition scan_field :: "nat \<Rightarrow> string \<Rightarrow> (int \<times> string) option" where
  "scan_field w cs =
     (let cs = skip_space cs;
          (neg, w, cs) = (case cs of
             c # r \<Rightarrow> if c = CHR ''-'' then (True, w - 1, r)
                      else if c = CHR ''+'' then (False, w - 1, r) else (False, w, cs)
           | [] \<Rightarrow> (False, w, []));
          (ds, rest) = take_digits w cs
      in if ds = [] then None
         else Some (if neg then - int (digits_nat ds) else int (digits_nat ds), rest))"

text \<open>\<open>%d\<close> has no width; the input's length is a bound that no field can exceed.\<close>

definition scan_int :: "string \<Rightarrow> (int \<times> string) option" where
  "scan_int cs = (let cs = skip_space cs in scan_field (length cs) cs)"

subsection \<open>Round trip\<close>

lemma show_nat_digits: "\<forall>c \<in> set (show_nat n). is_digit c"
proof (induction n rule: show_nat.induct)
  case (1 n)
  then show ?case by (cases "n < 10") (auto simp: show_nat.simps [of n])
qed

lemma show_nat_nonempty [simp]: "show_nat n \<noteq> []"
  by (subst show_nat.simps) simp

lemma digits_nat_snoc: "digits_nat (ds @ [c]) = 10 * digits_nat ds + digit_val c"
  by (simp add: digits_nat_def)

lemma digits_nat_show [simp]: "digits_nat (show_nat n) = n"
proof (induction n rule: show_nat.induct)
  case (1 n)
  show ?case
  proof (cases "n < 10")
    case True
    then show ?thesis by (simp add: show_nat.simps [of n] digits_nat_def)
  next
    case False
    with 1 show ?thesis by (simp add: show_nat.simps [of n] digits_nat_snoc)
  qed
qed

lemma digits_nat_zeros: "digits_nat (replicate k CHR ''0'' @ ds) = digits_nat ds"
proof (induction k)
  case (Suc k)
  have "digit_val CHR ''0'' = 0" by (simp add: digit_val_def)
  with Suc show ?case by (simp add: digits_nat_def)
qed simp

lemma length_show_nat: "n < 10 ^ w \<Longrightarrow> 0 < w \<Longrightarrow> length (show_nat n) \<le> w"
proof (induction n arbitrary: w rule: show_nat.induct)
  case (1 n)
  show ?case
  proof (cases "n < 10")
    case True
    with 1 show ?thesis by (simp add: show_nat.simps [of n])
  next
    case False
    then obtain v where v: "w = Suc v" "0 < v"
      using "1.prems" by (cases w; cases "w - 1") auto
    with "1.prems"(1) have "n div 10 < 10 ^ v" by (simp add: div_less_iff_less_mult algebra_simps)
    with "1.IH" [OF False this v(2)] False v show ?thesis by (simp add: show_nat.simps [of n])
  qed
qed

lemma take_digits_exact:
  assumes "\<forall>c \<in> set ds. is_digit c" "length ds \<le> w" "length ds = w \<or> rest = [] \<or> \<not> is_digit (hd rest)"
  shows "take_digits w (ds @ rest) = (ds, rest)"
  using assms
proof (induction ds arbitrary: w)
  case Nil
  then show ?case by (cases w; cases rest) auto
next
  case (Cons d ds)
  then obtain v where "w = Suc v" by (cases w) auto
  with Cons show ?case by simp
qed

lemma skip_space_digit: "ds \<noteq> [] \<Longrightarrow> is_digit (hd ds) \<Longrightarrow> skip_space (ds @ r) = ds @ r"
  by (cases ds) auto

lemma scan_field_digits:
  assumes "ds \<noteq> []" "\<forall>c \<in> set ds. is_digit c" "length ds \<le> w"
    "length ds = w \<or> rest = [] \<or> \<not> is_digit (hd rest)"
  shows "scan_field w (ds @ rest) = Some (int (digits_nat ds), rest)"
proof -
  obtain d ds' where ds: "ds = d # ds'" using assms(1) by (cases ds) auto
  have "d \<noteq> CHR ''-''" "d \<noteq> CHR ''+''" "\<not> is_space d" using assms(2) ds digit_not_sign [of d] by auto
  moreover have "take_digits w (d # ds' @ rest) = (d # ds', rest)"
    using take_digits_exact [OF assms(2-4)] ds by simp
  ultimately show ?thesis by (simp add: scan_field_def ds)
qed

lemma scan_field_pad:
  assumes "0 \<le> i" "i < 10 ^ w" "0 < w"
  shows "scan_field w (show_pad w i @ rest) = Some (i, rest)" "length (show_pad w i) = w"
proof -
  have len: "length (show_nat (nat i)) \<le> w"
    using assms by (intro length_show_nat) (simp_all add: nat_less_iff)
  have "is_digit CHR ''0''" by (simp add: is_digit_def)
  then have dig: "\<forall>c \<in> set (show_pad w i). is_digit c"
    using assms(1) show_nat_digits by (auto simp: show_pad_def)
  show l: "length (show_pad w i) = w" using assms(1) len by (simp add: show_pad_def)
  have "digits_nat (show_pad w i) = nat i" using assms(1) by (simp add: show_pad_def digits_nat_zeros)
  moreover have "show_pad w i \<noteq> []" using assms(1) by (simp add: show_pad_def)
  ultimately show "scan_field w (show_pad w i @ rest) = Some (i, rest)"
    using scan_field_digits [OF _ dig, of w rest] l assms(1) by simp
qed

lemma skip_space_idem [simp]: "skip_space (skip_space cs) = skip_space cs"
  by (induction cs) auto

lemma scan_int_show:
  assumes "rest = [] \<or> \<not> is_digit (hd rest)"
  shows "scan_int (show_int i @ rest) = Some (i, rest)"
proof (cases "i < 0")
  case False
  let ?ds = "show_nat (nat i)"
  have sk: "skip_space (?ds @ rest) = ?ds @ rest"
    using show_nat_digits [of "nat i"] by (intro skip_space_digit) (auto simp: hd_in_set)
  have "scan_field (length (?ds @ rest)) (?ds @ rest) = Some (int (digits_nat ?ds), rest)"
    using assms show_nat_digits by (intro scan_field_digits) auto
  with False sk show ?thesis by (simp add: scan_int_def show_int_def)
next
  case True
  let ?ds = "show_nat (nat (- i))"
  have "take_digits (length (?ds @ rest)) (?ds @ rest) = (?ds, rest)"
    using assms show_nat_digits by (intro take_digits_exact) auto
  with True show ?thesis
    by (simp add: scan_int_def show_int_def scan_field_def is_space_def)
qed

lemma scan_int_space: "is_space c \<Longrightarrow> scan_int (c # cs) = scan_int cs"
  by (simp add: scan_int_def)

end
