(* ===== verification/EditListIO.thy ===== *)
theory EditListIO
  imports EditList CText
begin

text \<open>
  The edit-list file (\<open>vj_el_write_editlist\<close> and the edit-list branch of \<open>vj_el_init_with_args\<close> in
  \<open>libel/vj-el.c\<close>) and the one-line form sent to clients (\<open>vj_el_write_line_ascii\<close>).

  \<^item> A file is the sequence of its lines, each with its newline: what successive \<open>fgets\<close> calls deliver.
  \<^item> Opening a video file is \<open>open_video_file\<close>, which reads a container through the AVI, DV and ffmpeg
    libraries: a parameter \<open>ovf\<close> that returns the extended list and the file's number (or \<open>-1\<close>).
  \<^item> Whether \<open>realloc\<close> succeeds is the parameter \<open>mem_ok\<close> on the number of entries asked for.
\<close>

abbreviation newline :: char where "newline \<equiv> CHR 0x0A"

subsection \<open>Writing\<close>

text \<open>The files that the entries refer to, numbered in the order of the table.\<close>

fun num_files_upto :: "(nat \<Rightarrow> bool) \<Rightarrow> nat \<Rightarrow> nat" where
  "num_files_upto used 0 = 0"
| "num_files_upto used (Suc i) = num_files_upto used i + (if used i then 1 else 0)"

definition el_index :: "u64 list \<Rightarrow> nat \<Rightarrow> int" where
  "el_index ns f = (let used = (\<lambda>g. g \<in> el_file ` set ns)
                    in if used f then int (num_files_upto used f) else - 1)"

text \<open>
  Runs of consecutive frames of one file: \<open>rf\<close> and \<open>rs\<close> start the open run, \<open>oldfile\<close> and \<open>oldframe\<close> are the
  variables of the code. A run is a triple of file, first and last frame.
\<close>

fun el_runs :: "(nat \<Rightarrow> int) \<Rightarrow> int \<Rightarrow> int \<Rightarrow> int \<Rightarrow> int \<Rightarrow> u64 list \<Rightarrow> (int \<times> int \<times> int) list" where
  "el_runs index rf rs oldfile oldframe [] = [(rf, rs, oldframe)]"
| "el_runs index rf rs oldfile oldframe (n # ns) =
     (let f = index (el_file n); a = uint (N_EL_FRAME n)
      in if f \<noteq> oldfile \<or> a \<noteq> oldframe + 1
         then (rf, rs, oldframe) # el_runs index f a f a ns
         else el_runs index rf rs f a ns)"

definition el_all_runs :: "(nat \<Rightarrow> int) \<Rightarrow> u64 list \<Rightarrow> (int \<times> int \<times> int) list" where
  "el_all_runs index ns =
     (case ns of [] \<Rightarrow> []
      | n # ns' \<Rightarrow> (let f = index (el_file n); a = uint (N_EL_FRAME n) in el_runs index f a f a ns'))"

definition el_run_line :: "int \<times> int \<times> int \<Rightarrow> string" where
  "el_run_line r = (case r of (f, a, b) \<Rightarrow>
     show_int f @ '' '' @ show_int a @ '' '' @ show_int b @ [newline])"

definition el_file_lines :: "editlist \<Rightarrow> (nat \<Rightarrow> int) \<Rightarrow> nat \<Rightarrow> string list" where
  "el_file_lines el index k =
     concat (map (\<lambda>i. if index i \<ge> 0 then (case el_video_file_list el i of
                                             None \<Rightarrow> [] | Some name \<Rightarrow> [name @ [newline]])
                      else []) [0..<k])"

text \<open>The values of the frame buffer from \<open>n1\<close> to \<open>n2\<close>; each is read, so each must have been written.\<close>

fun buf_values :: "u64 buf \<Rightarrow> nat \<Rightarrow> nat \<Rightarrow> u64 list option" where
  "buf_values b i 0 = Some []"
| "buf_values b i (Suc k) = do { x \<leftarrow> buf_read b i; xs \<leftarrow> buf_values b (Suc i) k; Some (x # xs) }"

text \<open>
  The range is clamped first; \<open>n2 > el->total_frames\<close> compares as unsigned. \<open>fopen_ok\<close> is whether the file
  could be opened. The result is the return value and the lines written.
\<close>

definition el_clamp_range :: "editlist \<Rightarrow> int \<Rightarrow> int \<Rightarrow> int \<times> int" where
  "el_clamp_range el n1 n2 =
     (let n1 = (if n1 < 0 then 0 else n1);
          n2 = (if (word_of_int n2 :: u64) > el_total_frames el \<or> n2 < n1 then sint (el_total_frames el) else n2)
      in (n1, n2))"

definition vj_el_write_editlist :: "bool \<Rightarrow> int \<Rightarrow> int \<Rightarrow> editlist \<Rightarrow> (int \<times> string list) option" where
  "vj_el_write_editlist fopen_ok n1 n2 el =
     (if el_is_empty el \<noteq> 0 then Some (0, [])
      else if \<not> fopen_ok then Some (0, [])
      else do {
        let (n1, n2) = el_clamp_range el n1 n2;
        x \<leftarrow> el_frame_at el (nat n1);
        ns \<leftarrow> (case el_frame_list el of None \<Rightarrow> null_deref
               | Some b \<Rightarrow> buf_values b (nat n1) (nat (n2 - n1 + 1)));
        let index = el_index ns;
        Some (1, [''LAV Edit List'' @ [newline],
                  (if el_video_norm el = CHR ''n'' then ''NTSC'' else ''PAL'') @ [newline],
                  show_int (int (num_files_upto (\<lambda>g. g \<in> el_file ` set ns) MAX_EDIT_LIST_FILES)) @ [newline]]
                 @ el_file_lines el index MAX_EDIT_LIST_FILES
                 @ map el_run_line (el_all_runs index (if ns = [] then [x] else ns)))
      })"

subsection \<open>Runs and frames\<close>

definition expand_run :: "int \<times> int \<times> int \<Rightarrow> (int \<times> int) list" where
  "expand_run r = (case r of (f, a, b) \<Rightarrow> map (Pair f) [a..b])"

definition el_key :: "(nat \<Rightarrow> int) \<Rightarrow> u64 \<Rightarrow> int \<times> int" where
  "el_key index n = (index (el_file n), uint (N_EL_FRAME n))"

lemma expand_el_runs:
  assumes "rs \<le> oldframe" "rf = oldfile"
  shows "concat (map expand_run (el_runs index rf rs oldfile oldframe ns)) =
           map (Pair rf) [rs..oldframe] @ map (el_key index) ns"
  using assms
proof (induction index rf rs oldfile oldframe ns rule: el_runs.induct)
  case (1 index rf rs oldfile oldframe)
  then show ?case by (simp add: expand_run_def)
next
  case (2 index rf rs oldfile oldframe n ns)
  let ?f = "index (el_file n)" and ?a = "uint (N_EL_FRAME n)"
  show ?case
  proof (cases "?f \<noteq> oldfile \<or> ?a \<noteq> oldframe + 1")
    case True
    with 2 show ?thesis by (simp add: Let_def expand_run_def el_key_def)
  next
    case False
    have "[rs..?a] = [rs..oldframe] @ [?a]"
      using False 2(3) upto_split2 [of rs oldframe "oldframe + 1"] by simp
    with False 2 show ?thesis by (simp add: Let_def el_key_def)
  qed
qed

lemma expand_el_all_runs: "concat (map expand_run (el_all_runs index ns)) = map (el_key index) ns"
  by (cases ns) (simp_all add: el_all_runs_def Let_def expand_el_runs el_key_def)

lemma el_runs_bounds:
  assumes "(f, a, b) \<in> set (el_runs index rf rs oldfile oldframe ns)" "0 \<le> rs" "rs \<le> oldframe"
    "rf = oldfile" "oldframe < N" "\<forall>n \<in> set ns. uint (N_EL_FRAME n) < N"
  shows "0 \<le> a \<and> a \<le> b \<and> b < N \<and> (f = rf \<or> f \<in> (index \<circ> el_file) ` set ns)"
  using assms
proof (induction index rf rs oldfile oldframe ns rule: el_runs.induct)
  case (2 index rf rs oldfile oldframe n ns)
  show ?case
  proof (cases "index (el_file n) \<noteq> oldfile \<or> uint (N_EL_FRAME n) \<noteq> oldframe + 1")
    case True
    with "2.prems"(1) consider "(f, a, b) = (rf, rs, oldframe)" |
      "(f, a, b) \<in> set (el_runs index (index (el_file n)) (uint (N_EL_FRAME n)) (index (el_file n)) (uint (N_EL_FRAME n)) ns)"
      by (auto simp: Let_def)
    then show ?thesis
    proof cases
      case 1
      with "2.prems" show ?thesis by simp
    next
      case 2
      with "2.IH"(1) [OF refl refl True 2] "2.prems" show ?thesis by auto
    qed
  next
    case False
    with "2.prems"(1) have in': "(f, a, b) \<in> set (el_runs index rf rs (index (el_file n)) (uint (N_EL_FRAME n)) ns)"
      by (simp add: Let_def)
    have "0 \<le> a \<and> a \<le> b \<and> b < N \<and> (f = rf \<or> f \<in> (index \<circ> el_file) ` set ns)"
      by (rule "2.IH"(2) [OF refl refl False in']) (use "2.prems" False in auto)
    then show ?thesis by auto
  qed
qed auto

subsection \<open>Loading\<close>

text \<open>
  \<open>Load_failed\<close> is the null pointer the loader returns after an error message; \<open>Load_more\<close> stands for a loop
  that has used up the given number of rounds.
\<close>

datatype 'a load = Loaded 'a | Load_failed | Load_more

text \<open>\<open>fgets\<close> leaves the line buffer alone at the end of the file.\<close>

definition c_fgets :: "string list \<Rightarrow> string \<Rightarrow> string list \<times> string" where
  "c_fgets ls line = (case ls of [] \<Rightarrow> ([], line) | l # ls' \<Rightarrow> (ls', l))"

definition el_append :: "editlist \<Rightarrow> u64 list \<Rightarrow> editlist" where
  "el_append el ns =
     el\<lparr>el_frame_list := Some (take (nat (el_video_frames el)) (el_frames el) @ map Some ns),
        el_video_frames := el_video_frames el + int (length ns)\<rparr>"

definition el_entries :: "u64 \<Rightarrow> int \<Rightarrow> int \<Rightarrow> u64 list" where
  "el_entries file a b = map (\<lambda>i. EL_ENTRY file (word_of_int i)) [a..b]"

text \<open>
  One round of the file loop. The variable \<open>n\<close> holds the length of the line, newline included, and the
  loop that appends frames reuses both \<open>n\<close> (as the number of the file) and the counter \<open>i\<close> of the outer
  loop. \<open>index_list[i] < 0\<close> compares an unsigned value, so a file that cannot be opened is not noticed.
\<close>

definition el_load_file ::
  "(editlist \<Rightarrow> string \<Rightarrow> editlist \<times> int) \<Rightarrow> (int \<Rightarrow> bool) \<Rightarrow>
   int \<times> string list \<times> string \<times> editlist \<times> (int \<rightharpoonup> u64) \<Rightarrow>
   (int \<times> string list \<times> string \<times> editlist \<times> (int \<rightharpoonup> u64)) load option" where
  "el_load_file ovf mem_ok st =
     (case st of (i, ls, line, el, index_list) \<Rightarrow>
        let (ls, line) = c_fgets ls line; n = length line
        in if n = 0 \<or> i < 0 \<or> int MAX_EDIT_LIST_FILES \<le> i \<or> MAX_EDIT_LIST_FILES \<le> n then out_of_bounds
           else if last line \<noteq> newline then Some Load_failed
           else let line = butlast line;
                    (el, r) = ovf el line;
                    index_list = index_list(i \<mapsto> word_of_int r);
                    k = el_num_frames el n
                in if \<not> mem_ok (el_video_frames el + k) then Some Load_failed
                   else Some (Loaded ((if k > 0 then k else 0) + 1, ls, line,
                                      el_append el (el_entries (word_of_nat n) 0 (k - 1)), index_list)))"

fun el_load_files ::
  "(editlist \<Rightarrow> string \<Rightarrow> editlist \<times> int) \<Rightarrow> (int \<Rightarrow> bool) \<Rightarrow> int \<Rightarrow> nat \<Rightarrow>
   int \<times> string list \<times> string \<times> editlist \<times> (int \<rightharpoonup> u64) \<Rightarrow>
   (int \<times> string list \<times> string \<times> editlist \<times> (int \<rightharpoonup> u64)) load option" where
  "el_load_files ovf mem_ok num_list_files rounds st =
     (if fst st \<ge> num_list_files then Some (Loaded st)
      else case rounds of
             0 \<Rightarrow> Some Load_more
           | Suc m \<Rightarrow> (case el_load_file ovf mem_ok st of
                         None \<Rightarrow> None
                       | Some Load_failed \<Rightarrow> Some Load_failed
                       | Some Load_more \<Rightarrow> Some Load_more
                       | Some (Loaded st') \<Rightarrow> el_load_files ovf mem_ok num_list_files m st'))"

declare el_load_files.simps [simp del]

text \<open>\<open>sscanf(line, "%ld %d %d", ...)\<close>: a conversion that fails leaves the later variables as they were.\<close>

definition el_scan_entry :: "string \<Rightarrow> int \<times> int \<times> int \<Rightarrow> int \<times> int \<times> int" where
  "el_scan_entry line v =
     (case v of (nl, n1, n2) \<Rightarrow>
        (case scan_int line of None \<Rightarrow> (nl, n1, n2) | Some (a, r) \<Rightarrow>
           (case scan_int r of None \<Rightarrow> (a, n1, n2) | Some (b, r) \<Rightarrow>
              (case scan_int r of None \<Rightarrow> (a, b, n2) | Some (c, r) \<Rightarrow> (a, b, c)))))"

fun el_load_entries ::
  "(int \<Rightarrow> bool) \<Rightarrow> int \<Rightarrow> (int \<rightharpoonup> u64) \<Rightarrow> int \<times> int \<times> int \<Rightarrow> string list \<Rightarrow> editlist \<Rightarrow> editlist load option" where
  "el_load_entries mem_ok num_list_files index_list v [] el = Some (Loaded el)"
| "el_load_entries mem_ok num_list_files index_list v (line # ls) el =
     (if line \<noteq> [] \<and> hd line = CHR '':'' then el_load_entries mem_ok num_list_files index_list v ls el
      else case el_scan_entry line v of (nl, n1, n2) \<Rightarrow>
        if nl < 0 \<or> nl \<ge> num_list_files then Some Load_failed
        else let n1 = (if n1 < 0 then 0 else n1)
             in case index_list nl of None \<Rightarrow> c_undefined | Some file \<Rightarrow>
                if unat file \<ge> MAX_EDIT_LIST_FILES then out_of_bounds
                else let n2 = (if n2 \<ge> el_num_frames el (unat file) then el_num_frames el (unat file) else n2)
                     in if n2 < n1 then el_load_entries mem_ok num_list_files index_list (nl, n1, n2) ls el
                        else if \<not> mem_ok (el_video_frames el + n2 - n1 + 1) then Some Load_failed
                        else el_load_entries mem_ok num_list_files index_list (nl, n1, n2) ls
                               (el_append el (el_entries file n1 n2)))"

text \<open>
  The edit-list branch as a whole, on the lines after the first. \<open>rounds\<close> bounds the file loop (a round
  either takes a line or fails). The second line names the norm, the third the number of files.
\<close>

definition el_norm_letters :: "char list" where
  "el_norm_letters = ''NnPpsS''"

definition el_to_lower :: "char \<Rightarrow> char" where
  "el_to_lower c = (if 65 \<le> (of_char c :: nat) \<and> (of_char c :: nat) \<le> 90 then char_of (of_char c + 32 :: nat) else c)"

lemma el_to_lower_norm [simp]: "el_to_lower (CHR ''P'') = CHR ''p''" "el_to_lower (CHR ''N'') = CHR ''n''"
  by (simp_all add: el_to_lower_def char_of_def bit_iff_odd)

definition el_load_list ::
  "(editlist \<Rightarrow> string \<Rightarrow> editlist \<times> int) \<Rightarrow> (int \<Rightarrow> bool) \<Rightarrow> nat \<Rightarrow> string \<Rightarrow> string list \<Rightarrow> editlist \<Rightarrow> editlist load option" where
  "el_load_list ovf mem_ok rounds line ls el =
     (let (ls, line) = c_fgets ls line
      in if line = [] then out_of_bounds
         else if hd line \<notin> set el_norm_letters then Some Load_failed
         else let el = (if el_video_norm el = CHR 0x00
                        then el\<lparr>el_video_norm := el_to_lower (hd line)\<rparr> else el);
                  (ls, line) = c_fgets ls line
              in case scan_int line of
                   None \<Rightarrow> c_undefined
                 | Some (num_list_files, _) \<Rightarrow>
                     (case el_load_files ovf mem_ok num_list_files rounds (0, ls, line, el, Map.empty) of
                        None \<Rightarrow> None
                      | Some Load_failed \<Rightarrow> Some Load_failed
                      | Some Load_more \<Rightarrow> Some Load_more
                      | Some (Loaded (i, ls, line, el, index_list)) \<Rightarrow>
                          el_load_entries mem_ok num_list_files index_list (0, 0, 0) ls el))"

subsection \<open>Lists of two or more files\<close>

text \<open>A line as \<open>fgets\<close> delivers it for a file name: at least one byte and the newline at the end only.\<close>

definition name_line :: "string \<Rightarrow> bool" where
  "name_line l \<longleftrightarrow> (\<exists>name. name \<noteq> [] \<and> newline \<notin> set name \<and> l = name @ [newline] \<and> length l < MAX_EDIT_LIST_FILES)"

lemma el_append_nil: "el_num_frames (el_append el ns) = el_num_frames el"
  by (simp add: el_append_def)

lemma load_files_stuck:
  assumes "2 \<le> num_list_files" "i = 0 \<or> i = 1" "length ls < rounds"
    "\<forall>e name k. M \<le> k \<longrightarrow> el_num_frames (fst (ovf e name)) k = el_num_frames e k"
    "\<forall>k \<ge> M. el_num_frames el k = 0" "\<forall>l \<in> set ls. name_line l \<and> M \<le> length l"
    "ls = [] \<longrightarrow> line \<noteq> [] \<and> length line < MAX_EDIT_LIST_FILES \<and> newline \<notin> set line"
  shows "el_load_files ovf mem_ok num_list_files rounds (i, ls, line, el, index_list) = Some Load_failed"
  using assms
proof (induction ls arbitrary: i line el index_list rounds)
  case Nil
  then obtain m where m: "rounds = Suc m" by (cases rounds) auto
  have "last line \<noteq> newline" using Nil.prems(7) last_in_set by metis
  then have "el_load_file ovf mem_ok (i, [], line, el, index_list) = Some Load_failed"
    using Nil.prems by (auto simp: el_load_file_def c_fgets_def MAX_EDIT_LIST_FILES_def)
  then show ?case using Nil.prems(1,2) m by (auto simp: el_load_files.simps)
next
  case (Cons l ls)
  then obtain m where m: "rounds = Suc m" by (cases rounds) auto
  obtain name where name: "name \<noteq> []" "newline \<notin> set name" "l = name @ [newline]"
      "length l < MAX_EDIT_LIST_FILES"
    using Cons.prems(6) by (auto simp: name_line_def)
  obtain el' r where ovf: "ovf el name = (el', r)" by fastforce
  have k: "el_num_frames el' q = 0" if "M \<le> q" for q
    using Cons.prems(4,5) ovf that by (metis fst_conv)
  then have k0: "el_num_frames el' (length l) = 0" using Cons.prems(6) by simp
  show ?case
  proof (cases "mem_ok (el_video_frames el')")
    case False
    then have "el_load_file ovf mem_ok (i, l # ls, line, el, index_list) = Some Load_failed"
      using name ovf k0 Cons.prems(2) by (auto simp: el_load_file_def c_fgets_def MAX_EDIT_LIST_FILES_def)
    then show ?thesis using Cons.prems(1,2) m by (auto simp: el_load_files.simps)
  next
    case True
    let ?el = "el_append el' (el_entries (word_of_nat (length l)) 0 (- 1))"
    have step: "el_load_file ovf mem_ok (i, l # ls, line, el, index_list) =
        Some (Loaded (1, ls, name, ?el, index_list(i \<mapsto> word_of_int r)))"
      using True name ovf k0 Cons.prems(2)
      by (auto simp: el_load_file_def c_fgets_def MAX_EDIT_LIST_FILES_def el_entries_def)
    have rest: "el_load_files ovf mem_ok num_list_files m (1, ls, name, ?el, index_list(i \<mapsto> word_of_int r)) = Some Load_failed"
      using Cons.prems name k m by (intro Cons.IH) (auto simp: el_append_nil)
    show ?thesis
      unfolding m by (subst el_load_files.simps) (use step rest Cons.prems(1,2) in auto)
  qed
qed

subsection \<open>Lists of one file\<close>

lemma scan_run_line:
  "el_scan_entry (el_run_line (f, a, b)) v = (f, a, b)"
proof -
  have "\<not> is_digit (CHR '' '')" "\<not> is_digit newline" by (simp_all add: is_digit_def)
  moreover have "is_space CHR '' ''" by (simp add: is_space_def)
  ultimately show ?thesis
    by (simp add: el_scan_entry_def el_run_line_def scan_int_show scan_int_space split: prod.splits)
qed

lemma run_line_not_comment: "el_run_line (f, a, b) \<noteq> [] \<and> hd (el_run_line (f, a, b)) \<noteq> CHR '':''"
proof -
  have d: "hd (show_nat n) \<noteq> CHR '':''" for n
  proof -
    have "is_digit (hd (show_nat n))"
      using bspec [OF show_nat_digits hd_in_set [OF show_nat_nonempty]] .
    then show ?thesis by (auto simp: is_digit_def)
  qed
  show ?thesis by (auto simp: el_run_line_def show_int_def hd_append d)
qed

lemma load_entries_runs:
  assumes "\<forall>r \<in> set rs. case r of (f, a, b) \<Rightarrow> f = 0 \<and> 0 \<le> a \<and> a \<le> b \<and> b < el_num_frames el 0"
    "index_list 0 = Some 0" "0 \<le> el_video_frames el"
    "nat (el_video_frames el) = length (el_frames el)"
  shows "\<exists>el'. el_load_entries (\<lambda>_. True) 1 index_list v (map el_run_line rs) el = Some (Loaded el') \<and>
           el_frames el' = el_frames el @ map Some (concat (map (\<lambda>(f, a, b). el_entries 0 a b) rs)) \<and>
           el_video_frames el' = int (length (el_frames el'))"
  using assms
proof (induction rs arbitrary: v el)
  case (Cons r rs)
  obtain f a b where r: "r = (f, a, b)" by (cases r)
  with Cons.prems(1) have b: "f = 0" "0 \<le> a" "a \<le> b" "b < el_num_frames el 0" by auto
  let ?el = "el_append el (el_entries 0 a b)"
  have fr: "el_frames ?el = el_frames el @ map Some (el_entries 0 a b)"
    using Cons.prems(4) by (simp add: el_append_def el_frames_def split: option.splits)
  have vf: "el_video_frames ?el = int (length (el_frames ?el))"
    using Cons.prems(3,4) fr by (simp add: el_append_def)
  have "\<exists>el'. el_load_entries (\<lambda>_. True) 1 index_list (0, a, b) (map el_run_line rs) ?el = Some (Loaded el') \<and>
      el_frames el' = el_frames ?el @ map Some (concat (map (\<lambda>(f, a, b). el_entries 0 a b) rs)) \<and>
      el_video_frames el' = int (length (el_frames el'))"
    using Cons.prems vf by (intro Cons.IH) (auto simp: el_append_nil)
  then show ?case
    using b r fr Cons.prems(2) run_line_not_comment [of f a b]
    by (auto simp: scan_run_line MAX_EDIT_LIST_FILES_def Let_def)
qed simp

text \<open>What is written for a list whose entries are all of one file.\<close>

lemma num_files_upto_none: "(\<forall>i < k. \<not> used i) \<Longrightarrow> num_files_upto used k = 0"
  by (induction k) auto

lemma num_files_upto_one:
  "f < k \<Longrightarrow> used f \<Longrightarrow> (\<forall>i. i \<noteq> f \<longrightarrow> \<not> used i) \<Longrightarrow> num_files_upto used k = 1"
proof (induction k)
  case (Suc k)
  show ?case
  proof (cases "f = k")
    case True
    with Suc.prems num_files_upto_none [of k used] show ?thesis by simp
  next
    case False
    with Suc show ?thesis by simp
  qed
qed simp

lemma concat_map_single:
  "f < k \<Longrightarrow> (\<forall>i. i \<noteq> f \<longrightarrow> g i = []) \<Longrightarrow> concat (map g [0..<k]) = g f"
proof (induction k)
  case (Suc k)
  show ?case
  proof (cases "f = k")
    case True
    with Suc.prems have "concat (map g [0..<k]) = []" by auto
    with True show ?thesis by simp
  next
    case False
    with Suc show ?thesis by simp
  qed
qed simp

lemma buf_values_drop:
  "i + k \<le> length b \<Longrightarrow> \<forall>x \<in> set (take k (drop i b)). x \<noteq> None \<Longrightarrow>
   buf_values b i k = Some (map the (take k (drop i b)))"
proof (induction k arbitrary: i)
  case (Suc k)
  have d: "take (Suc k) (drop i b) = b ! i # take k (drop (Suc i) b)"
    using Suc.prems(1) by (simp add: Cons_nth_drop_Suc [symmetric])
  with Suc.prems(2) obtain x where "b ! i = Some x" by auto
  with Suc d show ?case by (simp add: buf_read_def)
qed simp

lemma buf_values_all: "buf_values (map Some ns) 0 (length ns) = Some ns"
  using buf_values_drop [of 0 "length ns" "map Some ns"] by (simp add: comp_def)

definition one_file_list :: "editlist \<Rightarrow> nat \<Rightarrow> string \<Rightarrow> u64 list \<Rightarrow> bool" where
  "one_file_list el f name ns \<longleftrightarrow>
     el_is_empty el = 0 \<and> el_frame_list el = Some (map Some ns) \<and> ns \<noteq> [] \<and> length ns < 2 ^ 62 \<and>
     el_total_frames el = word_of_nat (length ns - 1) \<and>
     (\<forall>n \<in> set ns. el_file n = f) \<and> el_video_file_list el f = Some name"

lemma one_file_index:
  assumes "one_file_list el f name ns"
  shows "el_index ns g = (if g = f then 0 else - 1)"
    "num_files_upto (\<lambda>g. g \<in> el_file ` set ns) MAX_EDIT_LIST_FILES = 1"
proof -
  obtain n where n: "n \<in> set ns" using assms by (cases ns) (auto simp: one_file_list_def)
  have used: "g \<in> el_file ` set ns \<longleftrightarrow> g = f" for g
    using assms n by (auto simp: one_file_list_def image_iff)
  have f: "f < MAX_EDIT_LIST_FILES"
    using assms n el_file_less [of n] by (auto simp: one_file_list_def MAX_EDIT_LIST_FILES_def)
  show "num_files_upto (\<lambda>g. g \<in> el_file ` set ns) MAX_EDIT_LIST_FILES = 1"
    using f by (intro num_files_upto_one [of f]) (auto simp: used)
  have "num_files_upto (\<lambda>g. g \<in> el_file ` set ns) f = 0"
    by (rule num_files_upto_none) (auto simp: used)
  then show "el_index ns g = (if g = f then 0 else - 1)"
    by (simp add: el_index_def used)
qed

lemma write_one_file:
  assumes "one_file_list el f name ns"
  shows "vj_el_write_editlist True 0 (- 1) el =
     Some (1, [''LAV Edit List'' @ [newline],
               (if el_video_norm el = CHR ''n'' then ''NTSC'' else ''PAL'') @ [newline],
               show_int 1 @ [newline], name @ [newline]]
              @ map el_run_line (el_all_runs (el_index ns) ns))"
proof -
  have a: "el_is_empty el = 0" "el_frame_list el = Some (map Some ns)" "ns \<noteq> []" "length ns < 2 ^ 62"
    "el_total_frames el = word_of_nat (length ns - 1)" "\<forall>n \<in> set ns. el_file n = f"
    "el_video_file_list el f = Some name"
    using assms by (auto simp: one_file_list_def)
  have "sint (word_of_int (int (length ns - 1)) :: u64) = int (length ns - 1)"
    unfolding sint_sbintrunc' using a(4) by (intro signed_take_bit_int_eq_self) auto
  then have t: "sint (el_total_frames el) = int (length ns) - 1"
    using a(3) by (cases ns) (simp_all add: a(5))
  have max: "(word_of_int (- 1) :: u64) > el_total_frames el"
  proof -
    have "unat (el_total_frames el) = length ns - 1"
      using a(4) by (simp add: a(5) unat_of_nat)
    then show ?thesis using a(4) by (simp add: word_less_nat_alt unsigned_minus_1_eq_mask mask_eq_exp_minus_1)
  qed
  have range: "el_clamp_range el 0 (- 1) = (0, int (length ns) - 1)"
    using max t by (simp add: el_clamp_range_def)
  obtain n ns' where ns: "ns = n # ns'" using a(3) by (cases ns) auto
  have first: "el_frame_at el 0 = Some n"
    using a(2) ns by (simp add: el_frame_at_def buf_read_def)
  have f: "f < MAX_EDIT_LIST_FILES"
    using a(6) ns el_file_less [of n] by (simp add: MAX_EDIT_LIST_FILES_def)
  have files: "el_file_lines el (el_index ns) MAX_EDIT_LIST_FILES = [name @ [newline]]"
    unfolding el_file_lines_def
    using concat_map_single [OF f, of "\<lambda>i. if el_index ns i \<ge> 0 then (case el_video_file_list el i of
        None \<Rightarrow> [] | Some name \<Rightarrow> [name @ [newline]]) else []"] a(7)
    by (simp add: one_file_index(1) [OF assms])
  show ?thesis
    using a(1,2,3) range first files buf_values_all [of ns] one_file_index(2) [OF assms]
    by (simp add: vj_el_write_editlist_def)
qed

subsection \<open>Properties\<close>


text \<open>A list of the frames 3, 4, 5 and 1 of one file of ten frames, and an opener for that file.\<close>

definition sample_list :: editlist where
  "sample_list = (vj_el_dummy 0 0 (CHR ''p'') 320 240 25 0)
     \<lparr>el_is_empty := 0, el_frame_list := Some (map Some [3, 4, 5, 1]), el_total_frames := 3,
       el_video_file_list := [0 \<mapsto> ''a.avi'']\<rparr>"

definition sample_blank :: editlist where
  "sample_blank = sample_list\<lparr>el_video_norm := CHR 0x00, el_frame_list := None, el_video_frames := 0\<rparr>"

definition sample_open :: "editlist \<Rightarrow> string \<Rightarrow> editlist \<times> int" where
  "sample_open e name = (e\<lparr>el_num_frames := (el_num_frames e)(0 := 10)\<rparr>, 0)"

lemma sample_list_one_file: "one_file_list sample_list 0 ''a.avi'' [3, 4, 5, 1]"
  by (simp add: one_file_list_def sample_list_def N_EL_FILE_def)




end
