(* ===== verification/EffectTable.thy ===== *)
theory EffectTable
  imports Prelude
begin

text \<open>
  The effect registry (\<open>libvje/vj-effect.c\<close>): the numbering of effects, the descriptors the rest of the
  server reads, and the activation state of each effect.

  \<^item> An effect has a public id (image effects 101--191, video effects 201--247, plugins from 500) and a
    position in the array \<open>vj_effects\<close>.
  \<^item> \<open>fx_table\<close> holds the registry's globals: the number of plugins, the descriptors (the result of the
    effects' own \<open>_init\<close> functions and of the plugin loader) and \<open>vj_effect_ready\<close>.
  \<^item> What an effect's own \<open>_malloc\<close> answers and what the plugin loader returns for an activation are the
    two functions of \<open>fx_env\<close>, an argument of the operations that call them.
\<close>

subsection \<open>Constants and data\<close>

definition VJ_IMAGE_EFFECT_MIN :: int where "VJ_IMAGE_EFFECT_MIN = 100"
definition VJ_IMAGE_EFFECT_MAX :: int where "VJ_IMAGE_EFFECT_MAX = 192"
definition VJ_VIDEO_EFFECT_MIN :: int where "VJ_VIDEO_EFFECT_MIN = 200"
definition VJ_VIDEO_EFFECT_MAX :: int where "VJ_VIDEO_EFFECT_MAX = 248"
definition VJ_VIDEO_COUNT :: int where "VJ_VIDEO_COUNT = VJ_VIDEO_EFFECT_MAX - VJ_VIDEO_EFFECT_MIN"
definition VJ_EXT_EFFECT :: int where "VJ_EXT_EFFECT = 500"
definition MAX_EFFECTS :: int where "MAX_EFFECTS = 140"
definition FX_LIMIT :: int where "FX_LIMIT = 1024"

lemmas fx_consts = VJ_IMAGE_EFFECT_MIN_def VJ_IMAGE_EFFECT_MAX_def VJ_VIDEO_EFFECT_MIN_def
  VJ_VIDEO_EFFECT_MAX_def VJ_VIDEO_COUNT_def VJ_EXT_EFFECT_def MAX_EFFECTS_def FX_LIMIT_def

record vj_effect =
  ve_num_params :: int
  ve_defaults :: "int list"
  ve_limits_min :: "int list"
  ve_limits_max :: "int list"
  ve_extra_frame :: int
  ve_sub_format :: int
  ve_rgb_conv :: int
  ve_static_bg :: int
  ve_has_user :: int
  ve_parallel :: int

record fx_table =
  n_ext_plugs :: int
  vj_effects :: "int \<Rightarrow> vj_effect option"
  vj_effect_ready :: "int \<Rightarrow> int"

record fx_env =
  mem_init :: "int \<Rightarrow> bool"
  plug_activate :: "int \<Rightarrow> addr option"

text \<open>The effects with a \<open>_malloc\<close>/\<open>_free\<close> pair, by id, in the order of the tables.\<close>

definition simple_effect_index :: "int list" where
  "simple_effect_index =
    [140, 126, 230, 112, 183, 182, 125, 233, 136, 151, 226, 134, 148, 121, 139, 122, 124, 137, 141, 209,
     225, 142, 145, 154, 155, 156, 159, 160, 162, 163, 240, 239, 184, 179, 164, 165, 166, 167, 168, 169,
     170, 171, 172, 173, 174, 237, 238, 175, 181, 185, 186, 242, 187, 189, 243, 149, 150, 246]"

definition complex_effect_index :: "int list" where
  "complex_effect_index = [203, 188, 190, 241, 245]"

subsection \<open>Numbering\<close>

definition vj_effect_real_to_sequence :: "int \<Rightarrow> int" where
  "vj_effect_real_to_sequence effect_id =
     (if effect_id \<ge> VJ_EXT_EFFECT then effect_id - VJ_EXT_EFFECT + MAX_EFFECTS
      else if effect_id > VJ_IMAGE_EFFECT_MIN \<and> effect_id < VJ_IMAGE_EFFECT_MAX
        then effect_id - VJ_IMAGE_EFFECT_MIN + VJ_VIDEO_COUNT
      else if effect_id > VJ_VIDEO_EFFECT_MIN \<and> effect_id < VJ_VIDEO_EFFECT_MAX
        then effect_id - VJ_VIDEO_EFFECT_MIN
      else - 1)"

definition vj_effect_max_effects :: "fx_table \<Rightarrow> int" where
  "vj_effect_max_effects T = MAX_EFFECTS + n_ext_plugs T"

definition vj_effect_get_real_id :: "fx_table \<Rightarrow> int \<Rightarrow> int" where
  "vj_effect_get_real_id T effect_id =
     (if effect_id > 0 \<and> effect_id < VJ_VIDEO_COUNT then effect_id + VJ_VIDEO_EFFECT_MIN
      else if effect_id \<ge> VJ_VIDEO_COUNT \<and> effect_id < MAX_EFFECTS
        then effect_id - VJ_VIDEO_COUNT + VJ_IMAGE_EFFECT_MIN
      else if effect_id \<ge> MAX_EFFECTS \<and> effect_id \<le> vj_effect_max_effects T
        then effect_id - MAX_EFFECTS + VJ_EXT_EFFECT
      else 0)"

definition vj_effect_is_valid :: "fx_table \<Rightarrow> int \<Rightarrow> int" where
  "vj_effect_is_valid T effect_id =
     (if effect_id \<ge> VJ_EXT_EFFECT \<and> effect_id < VJ_EXT_EFFECT + n_ext_plugs T then 1
      else if effect_id > VJ_IMAGE_EFFECT_MIN \<and> effect_id < VJ_IMAGE_EFFECT_MAX then 1
      else if effect_id > VJ_VIDEO_EFFECT_MIN \<and> effect_id < VJ_VIDEO_EFFECT_MAX then 1
      else 0)"

subsection \<open>Descriptors\<close>

text \<open>Reading \<open>vj_effects[entry]->field\<close>: the index must be in the array and the entry not null.\<close>

definition fx_entry :: "fx_table \<Rightarrow> int \<Rightarrow> vj_effect option" where
  "fx_entry T entry = (if 0 \<le> entry \<and> entry < FX_LIMIT then vj_effects T entry else out_of_bounds)"

definition fx_nth :: "int list \<Rightarrow> int \<Rightarrow> int option" where
  "fx_nth xs i = (if 0 \<le> i \<and> i < int (length xs) then Some (xs ! nat i) else out_of_bounds)"

definition vj_effect_get_num_params :: "fx_table \<Rightarrow> int \<Rightarrow> int option" where
  "vj_effect_get_num_params T effect_id =
     (if effect_id < 0 then Some 0
      else let entry = vj_effect_real_to_sequence effect_id
           in if entry > 0 then map_option ve_num_params (fx_entry T entry) else Some 0)"

definition vj_effect_get_static_bg :: "fx_table \<Rightarrow> int \<Rightarrow> int option" where
  "vj_effect_get_static_bg T effect_id =
     (if effect_id < 0 then Some 0
      else let entry = vj_effect_real_to_sequence effect_id
           in if entry > 0 then map_option ve_static_bg (fx_entry T entry) else Some 0)"

definition vj_effect_get_default :: "fx_table \<Rightarrow> int \<Rightarrow> int \<Rightarrow> int option" where
  "vj_effect_get_default T effect_id param_nr =
     (let entry = vj_effect_real_to_sequence effect_id
      in if entry > 0 \<and> param_nr \<ge> 0
         then do { v \<leftarrow> fx_entry T entry;
                   if param_nr < ve_num_params v then fx_nth (ve_defaults v) param_nr else Some 0 }
         else Some 0)"

definition vj_effect_get_min_limit :: "fx_table \<Rightarrow> int \<Rightarrow> int \<Rightarrow> int option" where
  "vj_effect_get_min_limit T effect_id param_nr =
     (let entry = vj_effect_real_to_sequence effect_id
      in if entry > 0 \<and> param_nr \<ge> 0
         then do { v \<leftarrow> fx_entry T entry;
                   if param_nr < ve_num_params v then fx_nth (ve_limits_min v) param_nr else Some 0 }
         else Some 0)"

definition vj_effect_get_max_limit :: "fx_table \<Rightarrow> int \<Rightarrow> int \<Rightarrow> int option" where
  "vj_effect_get_max_limit T effect_id param_nr =
     (let entry = vj_effect_real_to_sequence effect_id
      in if entry > 0 \<and> param_nr \<ge> 0
         then do { v \<leftarrow> fx_entry T entry;
                   if param_nr < ve_num_params v then fx_nth (ve_limits_max v) param_nr else Some 0 }
         else Some 0)"

definition vj_effect_get_extra_frame :: "fx_table \<Rightarrow> int \<Rightarrow> int option" where
  "vj_effect_get_extra_frame T effect_id =
     (let entry = vj_effect_real_to_sequence effect_id
      in if entry > 0 then map_option ve_extra_frame (fx_entry T entry) else Some 0)"

definition vj_effect_get_subformat :: "fx_table \<Rightarrow> int \<Rightarrow> int option" where
  "vj_effect_get_subformat T effect_id =
     (let entry = vj_effect_real_to_sequence effect_id
      in if entry \<ge> 0 then map_option ve_sub_format (fx_entry T entry) else Some 0)"

definition vj_effect_has_rgbkey :: "fx_table \<Rightarrow> int \<Rightarrow> int option" where
  "vj_effect_has_rgbkey T effect_id =
     (let entry = vj_effect_real_to_sequence effect_id
      in if entry \<ge> 0 then map_option ve_rgb_conv (fx_entry T entry) else Some 0)"

definition vj_effect_valid_value :: "fx_table \<Rightarrow> int \<Rightarrow> int \<Rightarrow> int \<Rightarrow> int option" where
  "vj_effect_valid_value T effect_id param_nr value =
     (let entry = vj_effect_real_to_sequence effect_id
      in if entry \<ge> 0 \<and> param_nr \<ge> 0
         then do { v \<leftarrow> fx_entry T entry;
                   if param_nr < ve_num_params v
                   then do { lo \<leftarrow> fx_nth (ve_limits_min v) param_nr;
                             hi \<leftarrow> fx_nth (ve_limits_max v) param_nr;
                             Some (if value \<ge> lo \<and> value \<le> hi then 1 else 0) }
                   else Some 0 }
         else Some 0)"

definition vj_is_complex_effect :: "int \<Rightarrow> int" where
  "vj_is_complex_effect effect_id = (if effect_id \<in> set complex_effect_index then 1 else 0)"

definition vj_effect_has_cb :: "fx_table \<Rightarrow> int \<Rightarrow> int option" where
  "vj_effect_has_cb T effect_id =
     (let entry = vj_effect_real_to_sequence effect_id
      in if entry < 0 then Some 0
         else do { v \<leftarrow> fx_entry T entry;
                   Some (if ve_has_user v = 1 \<and> vj_is_complex_effect effect_id = 1 then 1 else 0) })"

subsection \<open>Activation\<close>

definition get_simple_effect :: "int \<Rightarrow> int" where
  "get_simple_effect effect_id = first_index (\<lambda>x. x = effect_id) simple_effect_index"

definition get_complex_effect :: "int \<Rightarrow> int" where
  "get_complex_effect effect_id = first_index (\<lambda>x. x = effect_id) complex_effect_index"

definition no_mem_required :: "int \<Rightarrow> bool" where
  "no_mem_required effect_id \<longleftrightarrow>
     effect_id < VJ_EXT_EFFECT \<and> get_simple_effect effect_id = - 1 \<and> get_complex_effect effect_id = - 1"

definition vj_effect_is_plugin :: "fx_table \<Rightarrow> int \<Rightarrow> int" where
  "vj_effect_is_plugin T effect_id =
     (let seq = vj_effect_real_to_sequence effect_id
      in if seq \<ge> MAX_EFFECTS \<and> seq < MAX_EFFECTS + n_ext_plugs T then 1 else 0)"

definition fx_ready_at :: "fx_table \<Rightarrow> int \<Rightarrow> int option" where
  "fx_ready_at T seq = (if 0 \<le> seq \<and> seq < FX_LIMIT then Some (vj_effect_ready T seq) else out_of_bounds)"

definition set_fx_ready :: "fx_table \<Rightarrow> int \<Rightarrow> int \<Rightarrow> fx_table" where
  "set_fx_ready T seq r = T\<lparr>vj_effect_ready := (vj_effect_ready T)(seq := r)\<rparr>"

definition vj_effect_initialized :: "fx_table \<Rightarrow> int \<Rightarrow> addr option \<Rightarrow> int" where
  "vj_effect_initialized T effect_id instance_ptr =
     (let seq = vj_effect_real_to_sequence effect_id
      in if seq < 0 then 0
         else if seq \<ge> MAX_EFFECTS \<and> seq < MAX_EFFECTS + n_ext_plugs T
           then (if instance_ptr = None then 0 else 1)
         else if seq < MAX_EFFECTS \<and> (no_mem_required effect_id \<or> vj_effect_ready T seq = 1) then 1
         else 0)"

text \<open>
  The result is the instance pointer and the value stored in \<open>*result\<close>. For a position past the plugins
  \<open>vj_effect_activate_ext\<close> leaves \<open>*result\<close> alone; every caller passes a variable set to 0.
\<close>

definition vj_effect_activate_ext :: "fx_env \<Rightarrow> fx_table \<Rightarrow> int \<Rightarrow> addr option \<times> int" where
  "vj_effect_activate_ext E T fx_id =
     (if fx_id > MAX_EFFECTS + n_ext_plugs T then (None, 0)
      else case plug_activate E (fx_id - MAX_EFFECTS) of
             Some plug \<Rightarrow> (Some plug, 1)
           | None \<Rightarrow> (None, 0))"

definition vj_effect_activate :: "fx_env \<Rightarrow> fx_table \<Rightarrow> int \<Rightarrow> (addr option \<times> int \<times> fx_table) option" where
  "vj_effect_activate E T effect_id =
     (let seq = vj_effect_real_to_sequence effect_id
      in if seq < 0 \<or> seq > MAX_EFFECTS + n_ext_plugs T then Some (None, 0, T)
         else if seq \<ge> MAX_EFFECTS \<and> seq < MAX_EFFECTS + n_ext_plugs T
           then (let (p, r) = vj_effect_activate_ext E T seq in Some (p, r, T))
         else if no_mem_required effect_id then Some (None, 1, T)
         else do {
           ready \<leftarrow> fx_ready_at T seq;
           if ready = 1 then Some (None, 1, T)
           else if ready = 0 then
             (if get_simple_effect effect_id = - 1 then
                (if get_complex_effect effect_id = - 1 then Some (None, 0, T)
                 else if \<not> mem_init E effect_id then Some (None, 0, T)
                 else Some (None, 1, set_fx_ready T seq 1))
              else if \<not> mem_init E effect_id then Some (None, 0, T)
              else Some (None, 1, set_fx_ready T seq 1))
           else Some (None, 1, T)
         })"

text \<open>
  A negative position passes the first test of the C function and reaches \<open>vj_effect_ready[seq]\<close>.
\<close>

definition vj_effect_deactivate :: "fx_table \<Rightarrow> int \<Rightarrow> addr option \<Rightarrow> (int \<times> fx_table) option" where
  "vj_effect_deactivate T effect_id ptr =
     (let seq = vj_effect_real_to_sequence effect_id
      in if (seq < 0 \<or> seq \<ge> MAX_EFFECTS) \<and> seq > n_ext_plugs T + MAX_EFFECTS then Some (0, T)
         else if seq \<ge> MAX_EFFECTS \<and> seq < n_ext_plugs T + MAX_EFFECTS
           then (if ptr \<noteq> None then Some (1, T) else Some (0, T))
         else if seq < MAX_EFFECTS then do {
           ready \<leftarrow> fx_ready_at T seq;
           if ready = 1 then
             (if get_simple_effect effect_id = - 1 then
                (if get_complex_effect effect_id = - 1 then Some (0, T)
                 else Some (1, set_fx_ready T seq 0))
              else Some (1, set_fx_ready T seq 0))
           else Some (0, T)
         }
         else Some (0, T))"

subsection \<open>Facts about the numbering and the activation state\<close>

text \<open>A registry as initialisation leaves it: every position up to the last plugin fits the arrays.\<close>

definition fx_table_ok :: "fx_table \<Rightarrow> bool" where
  "fx_table_ok T \<longleftrightarrow> 0 \<le> n_ext_plugs T \<and> MAX_EFFECTS + n_ext_plugs T < FX_LIMIT \<and>
     (\<forall>s. vj_effect_ready T s = 0 \<or> vj_effect_ready T s = 1)"

lemma is_valid_sequence:
  "vj_effect_is_valid T e = 1 \<Longrightarrow>
     0 < vj_effect_real_to_sequence e \<and> vj_effect_real_to_sequence e < vj_effect_max_effects T \<or>
     n_ext_plugs T < 0"
  by (auto simp: vj_effect_is_valid_def vj_effect_real_to_sequence_def vj_effect_max_effects_def fx_consts
      split: if_splits)

lemma initialized_sequence: "vj_effect_initialized T e p = 1 \<Longrightarrow> 0 \<le> vj_effect_real_to_sequence e"
  by (auto simp: vj_effect_initialized_def Let_def split: if_splits)

lemma initialized_bool: "vj_effect_initialized T e p = 0 \<or> vj_effect_initialized T e p = 1"
  by (auto simp: vj_effect_initialized_def Let_def)

text \<open>Releasing an effect that is initialised never reads outside the registry.\<close>

lemma deactivate_initialized:
  assumes "fx_table_ok T" "vj_effect_initialized T e p \<noteq> 0"
  shows "\<exists>r T'. vj_effect_deactivate T e p = Some (r, T') \<and> fx_table_ok T' \<and> n_ext_plugs T' = n_ext_plugs T"
  using assms initialized_sequence [of T e p]
  by (auto simp: vj_effect_deactivate_def vj_effect_initialized_def fx_ready_at_def fx_table_ok_def
      set_fx_ready_def Let_def fx_consts split: if_splits)

lemma activate_defined:
  assumes "fx_table_ok T"
  shows "\<exists>p r T'. vj_effect_activate E T e = Some (p, r, T') \<and> fx_table_ok T' \<and>
           n_ext_plugs T' = n_ext_plugs T \<and> vj_effects T' = vj_effects T"
  using assms
  by (auto simp: vj_effect_activate_def fx_ready_at_def fx_table_ok_def set_fx_ready_def Let_def fx_consts
      split: if_splits prod.splits)

lemma set_fx_ready_initialized_other:
  assumes "vj_effect_real_to_sequence e' \<noteq> seq"
  shows "vj_effect_initialized (set_fx_ready T seq r) e' q = vj_effect_initialized T e' q"
  using assms by (auto simp: vj_effect_initialized_def set_fx_ready_def Let_def)

lemma sequence_inj:
  "0 \<le> vj_effect_real_to_sequence e \<Longrightarrow>
   vj_effect_real_to_sequence e = vj_effect_real_to_sequence e' \<Longrightarrow> e = e'"
  by (auto simp: vj_effect_real_to_sequence_def fx_consts split: if_splits)

lemma activate_initialized_builtin:
  assumes "vj_effect_activate E T e = Some (p, r, T1)" "fx_table_ok T"
    "0 \<le> vj_effect_real_to_sequence e" "vj_effect_real_to_sequence e < MAX_EFFECTS" "r \<noteq> 0"
  shows "vj_effect_initialized T1 e p = 1"
proof (cases "no_mem_required e")
  case True
  with assms show ?thesis by (simp add: vj_effect_initialized_def Let_def)
next
  case False
  have "vj_effect_ready T (vj_effect_real_to_sequence e) = 0 \<or>
        vj_effect_ready T (vj_effect_real_to_sequence e) = 1"
    using assms(2) by (simp add: fx_table_ok_def)
  then have "vj_effect_ready T1 (vj_effect_real_to_sequence e) = 1"
    using False assms(1,3-5) by (auto simp: vj_effect_activate_def Let_def fx_ready_at_def
      set_fx_ready_def split: if_splits)
  with assms(3,4) show ?thesis by (simp add: vj_effect_initialized_def Let_def)
qed

lemma activate_initialized:
  assumes "vj_effect_activate E T e = Some (p, r, T1)" "fx_table_ok T"
    "0 \<le> vj_effect_real_to_sequence e" "vj_effect_real_to_sequence e < MAX_EFFECTS + n_ext_plugs T" "r \<noteq> 0"
  shows "vj_effect_initialized T1 e p = 1"
proof (cases "vj_effect_real_to_sequence e < MAX_EFFECTS")
  case True
  with activate_initialized_builtin assms show ?thesis by blast
next
  case False
  with assms(1,3-5) have "p \<noteq> None \<and> T1 = T"
    by (cases "plug_activate E (vj_effect_real_to_sequence e - MAX_EFFECTS)")
       (auto simp: vj_effect_activate_def vj_effect_activate_ext_def Let_def, metis)
  with False assms(3,4) show ?thesis by (simp add: vj_effect_initialized_def Let_def)
qed

text \<open>Release of a built-in effect: its ready flag is cleared exactly when it owns memory.\<close>

lemma deactivate_builtin:
  assumes "vj_effect_initialized T e p = 1" "0 \<le> vj_effect_real_to_sequence e"
    "vj_effect_real_to_sequence e < MAX_EFFECTS" "e < VJ_EXT_EFFECT"
    "vj_effect_deactivate T e p = Some (r, T')"
  shows "T' = (if no_mem_required e then T else set_fx_ready T (vj_effect_real_to_sequence e) 0)"
proof (cases "no_mem_required e")
  case True
  with assms show ?thesis
    by (simp add: vj_effect_deactivate_def Let_def fx_ready_at_def no_mem_required_def fx_consts
        split: if_splits)
next
  case False
  with assms(1,3) have "vj_effect_ready T (vj_effect_real_to_sequence e) = 1"
    by (simp add: vj_effect_initialized_def Let_def split: if_splits)
  with False assms show ?thesis
    by (simp add: vj_effect_deactivate_def Let_def fx_ready_at_def no_mem_required_def fx_consts
        split: if_splits)
qed

lemma cleared_not_initialized:
  assumes "vj_effect_real_to_sequence e < MAX_EFFECTS" "\<not> no_mem_required e"
  shows "vj_effect_initialized (set_fx_ready T (vj_effect_real_to_sequence e) 0) e p = 0"
  using assms by (simp add: vj_effect_initialized_def set_fx_ready_def Let_def)

lemma activate_table:
  assumes "vj_effect_activate E T e = Some (p, r, T')"
  shows "T' = T \<or> T' = set_fx_ready T (vj_effect_real_to_sequence e) 1"
  using assms
  by (auto simp: vj_effect_activate_def Let_def fx_ready_at_def split: if_splits prod.splits)

subsection \<open>Properties\<close>

text \<open>
  The public id of an effect and its position are inverse to each other: every valid id (built-in or
  plugin) has a position inside the registry, and reading the id back from that position gives it again.
\<close>

theorem effect_numbering_roundtrip:
  assumes "vj_effect_is_valid T e = 1" "0 \<le> n_ext_plugs T"
  shows "0 < vj_effect_real_to_sequence e \<and> vj_effect_real_to_sequence e < vj_effect_max_effects T \<and>
         vj_effect_get_real_id T (vj_effect_real_to_sequence e) = e"
  using assms
  by (auto simp: vj_effect_is_valid_def vj_effect_real_to_sequence_def vj_effect_get_real_id_def
      vj_effect_max_effects_def fx_consts split: if_splits)

definition fx_demo :: fx_table where
  "fx_demo = \<lparr>n_ext_plugs = 2, vj_effects = (\<lambda>_. None), vj_effect_ready = (\<lambda>_. 0)\<rparr>"

theorem effect_numbering_roundtrip_witness:
  "vj_effect_is_valid fx_demo 501 = 1 \<and> vj_effect_real_to_sequence 501 = 141 \<and>
   vj_effect_get_real_id fx_demo 141 = 501"
proof -
  have v: "vj_effect_is_valid fx_demo 501 = 1" by (simp add: vj_effect_is_valid_def fx_demo_def fx_consts)
  have s: "vj_effect_real_to_sequence 501 = 141" by (simp add: vj_effect_real_to_sequence_def fx_consts)
  from v have "vj_effect_get_real_id fx_demo (vj_effect_real_to_sequence 501) = 501"
    by (rule effect_numbering_roundtrip [THEN conjunct2, THEN conjunct2]) (simp add: fx_demo_def)
  with v s show ?thesis by simp
qed

text \<open>
  C19. Activation and release of an effect agree with \<open>vj_effect_initialized\<close>. On a well-formed registry an
  activation of a valid effect never reads outside it; when it reports success the effect counts as
  initialised with the instance it returned, and no other effect's state changes. Releasing it afterwards
  makes it uninitialised exactly when it owns memory (built-in effects with a \<open>_malloc\<close>).
\<close>

theorem effect_activation_lifecycle:
  assumes "fx_table_ok T" "vj_effect_is_valid T e = 1"
  shows "\<exists>p r T1. vj_effect_activate E T e = Some (p, r, T1) \<and> fx_table_ok T1 \<and>
           (r \<noteq> 0 \<longrightarrow> vj_effect_initialized T1 e p = 1) \<and>
           (\<forall>e' q. e' \<noteq> e \<longrightarrow> vj_effect_initialized T1 e' q = vj_effect_initialized T e' q) \<and>
           (r \<noteq> 0 \<longrightarrow> (\<exists>r' T2. vj_effect_deactivate T1 e p = Some (r', T2) \<and>
              (e < VJ_EXT_EFFECT \<longrightarrow>
                 (vj_effect_initialized T2 e p = 0 \<longleftrightarrow> \<not> no_mem_required e))))"
proof -
  obtain p r T1 where act: "vj_effect_activate E T e = Some (p, r, T1)" and ok1: "fx_table_ok T1"
    and n1: "n_ext_plugs T1 = n_ext_plugs T"
    using activate_defined [OF assms(1)] by blast
  let ?s = "vj_effect_real_to_sequence e"
  have s: "0 < ?s" "?s < MAX_EFFECTS + n_ext_plugs T"
    using is_valid_sequence [OF assms(2)] assms(1) by (auto simp: fx_table_ok_def vj_effect_max_effects_def)
  have ini: "vj_effect_initialized T1 e p = 1" if "r \<noteq> 0"
    using activate_initialized [OF act assms(1) _ s(2) that] s(1) by simp
  have oth: "vj_effect_initialized T1 e' q = vj_effect_initialized T e' q" if "e' \<noteq> e" for e' q
    using activate_table [OF act] set_fx_ready_initialized_other [of e' ?s T 1 q]
      sequence_inj [of e e'] s(1) that by force
  have rel: "\<exists>r' T2. vj_effect_deactivate T1 e p = Some (r', T2) \<and>
      (e < VJ_EXT_EFFECT \<longrightarrow> (vj_effect_initialized T2 e p = 0 \<longleftrightarrow> \<not> no_mem_required e))" if "r \<noteq> 0"
  proof -
    note i1 = ini [OF that]
    have small: "?s < MAX_EFFECTS" if "e < VJ_EXT_EFFECT"
      using that by (auto simp: vj_effect_real_to_sequence_def fx_consts)
    obtain r' T2 where de: "vj_effect_deactivate T1 e p = Some (r', T2)"
      using deactivate_initialized [OF ok1, of e p] i1 by force
    moreover have "vj_effect_initialized T2 e p = 0 \<longleftrightarrow> \<not> no_mem_required e" if e: "e < VJ_EXT_EFFECT"
      using deactivate_builtin [OF i1 _ small [OF e] e de] s(1) i1
        cleared_not_initialized [OF small [OF e]] by simp
    ultimately show ?thesis by blast
  qed
  show ?thesis using act ok1 ini oth rel by blast
qed

theorem effect_activation_lifecycle_witness:
  "fx_table_ok fx_demo \<and> vj_effect_is_valid fx_demo 140 = 1 \<and>
   (\<exists>p r T1. vj_effect_activate \<lparr>mem_init = (\<lambda>_. True), plug_activate = (\<lambda>_. None)\<rparr> fx_demo 140
               = Some (p, r, T1) \<and> r = 1 \<and> vj_effect_initialized T1 140 p = 1)"
proof -
  let ?E = "\<lparr>mem_init = (\<lambda>_. True), plug_activate = (\<lambda>_. None)\<rparr>"
  have ok: "fx_table_ok fx_demo" by (simp add: fx_table_ok_def fx_demo_def fx_consts)
  have v: "vj_effect_is_valid fx_demo 140 = 1" by (simp add: vj_effect_is_valid_def fx_demo_def fx_consts)
  obtain p r T1 where a: "vj_effect_activate ?E fx_demo 140 = Some (p, r, T1)"
    and i: "r \<noteq> 0 \<longrightarrow> vj_effect_initialized T1 140 p = 1"
    using effect_activation_lifecycle [OF ok v, of ?E] by blast
  have "r = 1" using a
    by (simp add: vj_effect_activate_def fx_demo_def vj_effect_real_to_sequence_def fx_consts Let_def
        no_mem_required_def get_simple_effect_def simple_effect_index_def fx_ready_at_def)
  with ok v a i show ?thesis by auto
qed

end
