(* ===== verification/SampleStore.thy ===== *)
theory SampleStore
  imports EditList EffectTable CText
begin

text \<open>
  The sample administration of \<open>libsample/sampleadm.c\<close>: the record of a sample, the table of samples, the
  choice of identifiers, and creating, storing, finding and copying a sample.

  \<^item> \<open>adm\<close> is the state behind the functions: the blocks of memory that samples, edit lists, strings and
    parameter ports occupy (maps from addresses, a freed block is absent), the file-level variables
    \<open>SampleHash\<close>, \<open>sample_cache\<close>, \<open>avail_num\<close>, \<open>next_avail_num\<close>, \<open>this_sample_id\<close>, \<open>initialized\<close>,
    \<open>sampleadm_state\<close> and \<open>plain_editlist\<close>, and what the functions use of other modules (the edit-list
    globals, the streams and the effect registry).
  \<^item> The hash table is the map it implements (\<open>int_hash\<close> is injective, so a lookup compares equal keys only).
  \<^item> The entries of a chain are allocated with their sample, so they are part of its record.
  \<^item> Memory is not exhausted: an allocation returns a new address. \<open>HAVE_FREETYPE\<close> is defined, so a sample has a
    dictionary port.
\<close>

definition SAMPLE_MAX_SAMPLES :: int where "SAMPLE_MAX_SAMPLES = 16384"
definition SAMPLE_MAX_PARAMETERS :: nat where "SAMPLE_MAX_PARAMETERS = 32"
definition SAMPLE_MAX_EFFECTS :: nat where "SAMPLE_MAX_EFFECTS = 20"
definition SAMPLE_MAX_DESCR_LEN :: nat where "SAMPLE_MAX_DESCR_LEN = 24"
definition MAX_SPEED :: int where "MAX_SPEED = 32"
definition SAMPLE_LOAD :: int where "SAMPLE_LOAD = 0"
definition SAMPLE_RUN :: int where "SAMPLE_RUN = 1"
definition SAMPLE_PEEK :: int where "SAMPLE_PEEK = 2"
definition VJ_TAG_TYPE_NET :: int where "VJ_TAG_TYPE_NET = 13"

lemmas sample_consts = SAMPLE_MAX_SAMPLES_def SAMPLE_MAX_PARAMETERS_def SAMPLE_MAX_EFFECTS_def
  SAMPLE_MAX_DESCR_LEN_def MAX_SPEED_def

subsection \<open>Records\<close>

record sample_eff_chain =
  sc_effect_id :: int
  sc_e_flag :: int
  sc_arg :: "int list"
  sc_frame_offset :: int
  sc_frame_trimmer :: int
  sc_a_flag :: int
  sc_volume :: int
  sc_source_type :: int
  sc_channel :: int
  sc_is_rendering :: int
  sc_kf :: "addr option"
  sc_kf_status :: int
  sc_kf_type :: int
  sc_fx_instance :: "addr option"

text \<open>
  The fields \<open>source\<close>, \<open>channel\<close>, \<open>kf\<close>, \<open>playmode_frame\<close>, \<open>loop_periods\<close>, \<open>marker_speed\<close>, \<open>auto_switch\<close> and
  \<open>encoder_total_frames\<close> of the struct are read by nothing that is modelled and are left out. \<open>float\<close> fields are
  rationals (see \<open>SampleParams\<close> for the rounding).
\<close>

record sample_info =
  si_sample_id :: int
  si_effect_chain :: "sample_eff_chain list"
  si_first_frame :: int
  si_last_frame :: int
  si_descr :: string
  si_speed :: int
  si_looptype :: int
  si_max_loops :: int
  si_max_loops2 :: int
  si_next_sample_id :: int
  si_depth :: int
  si_playmode :: int
  si_sub_audio :: int
  si_audio_volume :: int
  si_marker_start :: int
  si_marker_end :: int
  si_dup :: int
  si_dups :: int
  si_loop_dec :: int
  si_fader_active :: int
  si_fader_direction :: int
  si_fader_val :: rat
  si_fader_inc :: rat
  si_encoder_active :: int
  si_sequence_num :: int
  si_rec_total_bytes :: int
  si_encoder_destination :: "addr option"
  si_encoder_format :: int
  si_encoder :: "addr option"
  si_encoder_file :: "addr option"
  si_encoder_frames_to_record :: int
  si_encoder_frames_recorded :: int
  si_encoder_total_frames_recorded :: int
  si_encoder_width :: int
  si_encoder_height :: int
  si_encoder_max_size :: int
  si_selected_entry :: int
  si_effect_toggle :: int
  si_offset :: int
  si_play_length :: int
  si_loopcount :: int
  si_edit_list :: "addr option"
  si_edit_list_file :: "addr option"
  si_soft_edl :: int
  si_dict :: "addr option"
  si_composite :: int
  si_viewport_config :: "addr option"
  si_viewport :: "addr option"
  si_resume_pos :: int
  si_subrender :: int

text \<open>
  A stream (\<open>vj_tag\<close>). The devices behind a stream, its pixel buffers, the calibration frames and the parts of the
  encoder that belong to libavcodec are left out; so are the fields that are only written (\<open>next_id\<close>, \<open>nframes\<close>,
  \<open>source\<close>, \<open>opacity\<close>).
\<close>

record vj_tag =
  tag_id :: int
  tag_effect_chain :: "sample_eff_chain list"
  tag_source_type :: int
  tag_source_name :: "addr option"
  tag_method_filename :: "addr option"
  tag_extra :: "addr option"
  tag_index :: int
  tag_depth :: int
  tag_active :: int
  tag_video_channel :: int
  tag_capture_type :: int
  tag_encoder_active :: int
  tag_encoder_file :: "addr option"
  tag_encoder :: "addr option"
  tag_sequence_num :: int
  tag_encoder_base :: string
  tag_encoder_destination :: string
  tag_descr :: string
  tag_encoder_format :: int
  tag_encoder_total_frames_recorded :: int
  tag_encoder_frames_to_record :: int
  tag_encoder_frames_recorded :: int
  tag_encoder_width :: int
  tag_encoder_height :: int
  tag_encoder_max_size :: int
  tag_color_r :: int
  tag_color_g :: int
  tag_color_b :: int
  tag_fader_active :: int
  tag_fader_direction :: int
  tag_fader_val :: rat
  tag_fader_inc :: rat
  tag_selected_entry :: int
  tag_effect_toggle :: int
  tag_socket_ready :: int
  tag_n_frames :: int
  tag_dict :: "addr option"
  tag_composite :: int
  tag_viewport_config :: "addr option"
  tag_viewport :: "addr option"
  tag_generator :: "addr option"
  tag_subrender :: int

text \<open>
  The table is a null pointer before \<open>sample_init\<close> and a dangling one after \<open>sample_free\<close>.
\<close>

datatype sample_hash = Hash_null | Hash_destroyed | Hash_table "int \<rightharpoonup> addr"

record adm =
  ad_samples :: "addr \<rightharpoonup> sample_info"
  ad_els :: "addr \<rightharpoonup> editlist"
  ad_strs :: "addr \<rightharpoonup> string"
  ad_ports :: "addr set"
  ad_lav :: "addr \<rightharpoonup> lav_file"
  ad_next :: addr
  SampleHash :: sample_hash
  sample_cache :: "int \<Rightarrow> addr option"
  avail_num :: "nat \<Rightarrow> int"
  next_avail_num :: nat
  this_sample_id :: int
  initialized :: int
  sampleadm_state :: int
  plain_editlist :: "addr option"
  ad_elg :: el_globals
  ad_tags :: "int \<rightharpoonup> vj_tag"
  ad_fx :: fx_table
  this_tag_id :: int
  avail_tag :: "nat \<Rightarrow> int"
  next_avail_tag :: nat
  last_added_tag :: int

definition chain_zero :: sample_eff_chain where
  "chain_zero = \<lparr>sc_effect_id = 0, sc_e_flag = 0, sc_arg = replicate SAMPLE_MAX_PARAMETERS 0, sc_frame_offset = 0,
     sc_frame_trimmer = 0, sc_a_flag = 0, sc_volume = 0, sc_source_type = 0, sc_channel = 0, sc_is_rendering = 0,
     sc_kf = None, sc_kf_status = 0, sc_kf_type = 0, sc_fx_instance = None\<rparr>"

text \<open>A sample as \<open>vj_calloc\<close> leaves it.\<close>

definition sample_zero :: sample_info where
  "sample_zero = \<lparr>si_sample_id = 0, si_effect_chain = replicate SAMPLE_MAX_EFFECTS chain_zero, si_first_frame = 0,
     si_last_frame = 0, si_descr = [], si_speed = 0, si_looptype = 0, si_max_loops = 0, si_max_loops2 = 0,
     si_next_sample_id = 0, si_depth = 0, si_playmode = 0, si_sub_audio = 0, si_audio_volume = 0,
     si_marker_start = 0, si_marker_end = 0, si_dup = 0, si_dups = 0, si_loop_dec = 0, si_fader_active = 0,
     si_fader_direction = 0, si_fader_val = 0, si_fader_inc = 0, si_encoder_active = 0, si_sequence_num = 0,
     si_rec_total_bytes = 0, si_encoder_destination = None, si_encoder_format = 0, si_encoder = None,
     si_encoder_file = None,
     si_encoder_frames_to_record = 0, si_encoder_frames_recorded = 0, si_encoder_total_frames_recorded = 0,
     si_encoder_width = 0, si_encoder_height = 0, si_encoder_max_size = 0, si_selected_entry = 0,
     si_effect_toggle = 0, si_offset = 0, si_play_length = 0, si_loopcount = 0, si_edit_list = None,
     si_edit_list_file = None, si_soft_edl = 0, si_dict = None, si_composite = 0, si_viewport_config = None,
     si_viewport = None, si_resume_pos = 0, si_subrender = 0\<rparr>"

subsection \<open>Memory\<close>

definition ad_alloc :: "adm \<Rightarrow> addr \<times> adm" where
  "ad_alloc d = (ad_next d, d\<lparr>ad_next := Suc (ad_next d)\<rparr>)"

definition strdup :: "string \<Rightarrow> adm \<Rightarrow> addr \<times> adm" where
  "strdup t d = (let (a, d) = ad_alloc d in (a, d\<lparr>ad_strs := (ad_strs d)(a \<mapsto> t)\<rparr>))"

definition vpn :: "adm \<Rightarrow> addr \<times> adm" where
  "vpn d = (let (a, d) = ad_alloc d in (a, d\<lparr>ad_ports := insert a (ad_ports d)\<rparr>))"

text \<open>\<open>free\<close> and \<open>vpf\<close> on a block that is not (or no longer) allocated are undefined.\<close>

definition free_str :: "addr \<Rightarrow> adm \<Rightarrow> adm option" where
  "free_str a d = (if ad_strs d a = None then dangling else Some (d\<lparr>ad_strs := (ad_strs d)(a := None)\<rparr>))"

definition vpf :: "addr \<Rightarrow> adm \<Rightarrow> adm option" where
  "vpf a d = (if a \<in> ad_ports d then Some (d\<lparr>ad_ports := ad_ports d - {a}\<rparr>) else dangling)"

definition free_ptr :: "(addr \<Rightarrow> adm \<Rightarrow> adm option) \<Rightarrow> addr option \<Rightarrow> adm \<Rightarrow> adm option" where
  "free_ptr f p d = (case p of None \<Rightarrow> Some d | Some a \<Rightarrow> f a d)"

subsection \<open>Finding a sample\<close>

definition sample_lookup :: "adm \<Rightarrow> int \<Rightarrow> addr option option" where
  "sample_lookup d k = (case SampleHash d of Hash_null \<Rightarrow> null_deref | Hash_destroyed \<Rightarrow> dangling
                          | Hash_table h \<Rightarrow> Some (h k))"

text \<open>
  The pointer cache is filled by the lookup. The test lets \<open>SAMPLE_MAX_SAMPLES\<close> itself through, one past
  the end of the cache.
\<close>

definition sample_get :: "adm \<Rightarrow> int \<Rightarrow> (addr option \<times> adm) option" where
  "sample_get d sample_id =
     (if sample_id < 0 \<or> sample_id > SAMPLE_MAX_SAMPLES then Some (None, d)
      else if sample_id \<ge> SAMPLE_MAX_SAMPLES then out_of_bounds
      else case sample_cache d sample_id of
             Some a \<Rightarrow> Some (Some a, d)
           | None \<Rightarrow> do {
               r \<leftarrow> sample_lookup d sample_id;
               case r of
                 None \<Rightarrow> Some (None, d)
               | Some a \<Rightarrow> Some (Some a, d\<lparr>sample_cache := (sample_cache d)(sample_id := Some a)\<rparr>)
             })"

definition sample_exists :: "adm \<Rightarrow> int \<Rightarrow> (int \<times> adm) option" where
  "sample_exists d sample_id =
     (if sample_id = 0 then Some (0, d)
      else do {
        r \<leftarrow> sample_lookup d sample_id;
        case r of
          None \<Rightarrow> Some (0, d)
        | Some _ \<Rightarrow> do { (p, d) \<leftarrow> sample_get d sample_id; Some (if p = None then 0 else 1, d) }
      })"

text \<open>
  The shape of nearly every operation: find the sample, return a default when there is none, else work on its
  record, which must not have been freed.
\<close>

definition with_sample ::
  "adm \<Rightarrow> int \<Rightarrow> 'r \<Rightarrow> (adm \<Rightarrow> addr \<Rightarrow> sample_info \<Rightarrow> ('r \<times> adm) option) \<Rightarrow> ('r \<times> adm) option" where
  "with_sample d s1 dflt k = do {
     (p, d) \<leftarrow> sample_get d s1;
     case p of
       None \<Rightarrow> Some (dflt, d)
     | Some a \<Rightarrow> (case ad_samples d a of None \<Rightarrow> dangling | Some si \<Rightarrow> k d a si)
   }"

definition put_sample :: "addr \<Rightarrow> sample_info \<Rightarrow> adm \<Rightarrow> adm" where
  "put_sample a si d = d\<lparr>ad_samples := (ad_samples d)(a \<mapsto> si)\<rparr>"

text \<open>Readers return a value computed from the record; writers replace the record and return a code.\<close>

definition read_sample :: "adm \<Rightarrow> int \<Rightarrow> 'r \<Rightarrow> (sample_info \<Rightarrow> 'r) \<Rightarrow> ('r \<times> adm) option" where
  "read_sample d s1 dflt f = with_sample d s1 dflt (\<lambda>d a si. Some (f si, d))"

definition write_sample :: "adm \<Rightarrow> int \<Rightarrow> 'r \<Rightarrow> 'r \<Rightarrow> (sample_info \<Rightarrow> sample_info) \<Rightarrow> ('r \<times> adm) option" where
  "write_sample d s1 dflt r f = with_sample d s1 dflt (\<lambda>d a si. Some (r, put_sample a (f si) d))"

definition sample_get_dict :: "adm \<Rightarrow> int \<Rightarrow> (addr option \<times> adm) option" where
  "sample_get_dict d s1 = read_sample d s1 None si_dict"

subsection \<open>Initialisation and state\<close>

definition sample_size :: "adm \<Rightarrow> int" where "sample_size d = this_sample_id d"

definition sample_init :: "addr option \<Rightarrow> adm \<Rightarrow> adm" where
  "sample_init pedl d =
     (if initialized d = 0
      then d\<lparr>avail_num := (\<lambda>_. 0), this_sample_id := 1, SampleHash := Hash_table Map.empty, initialized := 1\<rparr>
      else d)\<lparr>plain_editlist := pedl\<rparr>"

definition sample_set_state :: "adm \<Rightarrow> int \<Rightarrow> int \<times> adm" where
  "sample_set_state d new_state =
     (let d = (if new_state = SAMPLE_LOAD \<or> new_state = SAMPLE_RUN \<or> new_state = SAMPLE_PEEK
               then d\<lparr>sampleadm_state := new_state\<rparr> else d)
      in (sampleadm_state d, d))"

definition sample_get_state :: "adm \<Rightarrow> int" where "sample_get_state d = sampleadm_state d"

subsection \<open>Creating\<close>

text \<open>
  The search for a freed identifier runs over the positions \<open>0 .. next_avail_num\<close>, so one position past
  the last one used; \<open>Some None\<close> means that none was found.
\<close>

fun find_avail :: "(nat \<Rightarrow> int) \<Rightarrow> nat \<Rightarrow> nat \<Rightarrow> nat option option" where
  "find_avail av n 0 = Some None"
| "find_avail av n (Suc k) =
     (if int n \<ge> SAMPLE_MAX_SAMPLES then out_of_bounds
      else if av n \<noteq> 0 then Some (Some n) else find_avail av (Suc n) k)"

definition new_id :: "adm \<Rightarrow> (int \<times> adm) option" where
  "new_id d = do {
     r \<leftarrow> find_avail (avail_num d) 0 (Suc (next_avail_num d));
     case r of
       Some n \<Rightarrow> Some (avail_num d n, d\<lparr>avail_num := (avail_num d)(n := 0)\<rparr>)
     | None \<Rightarrow> let sid = (if this_sample_id d = 0 then 1 else this_sample_id d)
               in Some (sid, d\<lparr>this_sample_id := sid + 1\<rparr>)
   }"

text \<open>\<open>%4d\<close> pads with spaces to a width of four.\<close>

definition show_wide :: "nat \<Rightarrow> int \<Rightarrow> string" where
  "show_wide w i = replicate (w - length (show_int i)) CHR '' '' @ show_int i"

definition chain_skeleton :: "int \<Rightarrow> sample_eff_chain" where
  "chain_skeleton ch = chain_zero\<lparr>sc_effect_id := - 1, sc_volume := 50, sc_channel := ch\<rparr>"

text \<open>The block allocated before the test of the range is not released when the test fails.\<close>

definition sample_skeleton_new :: "adm \<Rightarrow> int \<Rightarrow> int \<Rightarrow> (addr option \<times> adm) option" where
  "sample_skeleton_new d startFrame endFrame =
     (if initialized d = 0 then Some (None, d)
      else let startFrame = (if startFrame < 0 then 0 else startFrame); (a, d) = ad_alloc d
      in if endFrame \<le> startFrame then Some (None, d)
      else do {
        (sid, d) \<leftarrow> new_id d;
        let (file, d) = strdup (''sample_'' @ show_pad 5 sid @ ''.edl'') d;
        let ch = (if sample_size d \<le> 0 then sid else sample_size d - 1);
        let (dict, d) = vpn d;
        let si = sample_zero\<lparr>si_sample_id := sid,
                   si_descr := take (SAMPLE_MAX_DESCR_LEN - 1) (''Sample '' @ show_wide 4 sid),
                   si_first_frame := startFrame, si_last_frame := endFrame, si_resume_pos := startFrame,
                   si_edit_list := None, si_soft_edl := 1, si_speed := 1, si_looptype := 1,
                   si_audio_volume := 50, si_marker_start := 0, si_marker_end := 0, si_loopcount := 0,
                   si_effect_toggle := 1, si_edit_list_file := Some file,
                   si_effect_chain := replicate SAMPLE_MAX_EFFECTS (chain_skeleton ch), si_dict := Some dict\<rparr>;
        if sid < 0 \<or> sid \<ge> SAMPLE_MAX_SAMPLES then out_of_bounds
        else Some (Some a, (put_sample a si d)\<lparr>sample_cache := (sample_cache d)(sid := Some a)\<rparr>)
      })"

text \<open>
  For an identifier that is in the table the new node is filled in and dropped: the table keeps its old entry.
\<close>

definition sample_store :: "adm \<Rightarrow> addr option \<Rightarrow> (int \<times> adm) option" where
  "sample_store d skel =
     (case skel of
        None \<Rightarrow> Some (- 1, d)
      | Some a \<Rightarrow> do {
          si \<leftarrow> ad_samples d a;
          d \<leftarrow> (case si_edit_list si of
                  None \<Rightarrow> Some d
                | Some e \<Rightarrow> do {
                    el \<leftarrow> ad_els d e;
                    n \<leftarrow> vj_el_bogus_length (ad_lav d) el 0;
                    Some (put_sample a (si\<lparr>si_play_length := n\<rparr>) d)
                  });
          (x, d) \<leftarrow> sample_exists d (si_sample_id si);
          if x = 0
          then (case SampleHash d of
                  Hash_table h \<Rightarrow> Some (0, d\<lparr>SampleHash := Hash_table (h(si_sample_id si \<mapsto> a))\<rparr>)
                | _ \<Rightarrow> null_deref)
          else Some (0, d)
        })"

definition sample_new_simple :: "adm \<Rightarrow> addr option \<Rightarrow> int \<Rightarrow> int \<Rightarrow> adm option" where
  "sample_new_simple d el start stop = do {
     (p, d) \<leftarrow> sample_skeleton_new d start stop;
     case p of
       None \<Rightarrow> Some d
     | Some a \<Rightarrow> do {
         si \<leftarrow> ad_samples d a;
         (r, d) \<leftarrow> sample_store (put_sample a (si\<lparr>si_edit_list := el, si_soft_edl := 1\<rparr>) d) (Some a);
         Some d
       }
   }"

subsection \<open>Copying\<close>

text \<open>
  The record and the chain are copied byte by byte, so the copy holds the pointers of the original: the keyframe
  ports, the dictionary, the file name, the recorder's file name and the effect instances are shared.
\<close>

definition sample_copy :: "adm \<Rightarrow> int \<Rightarrow> (int \<times> adm) option" where
  "sample_copy d sample_id = do {
     (x, d) \<leftarrow> sample_exists d sample_id;
     if x = 0 then Some (0, d)
     else do {
       (p, d) \<leftarrow> sample_get d sample_id;
       org \<leftarrow> (case p of None \<Rightarrow> null_deref | Some a \<Rightarrow> ad_samples d a);
       let (c, d) = ad_alloc d;
       (sid, d) \<leftarrow> new_id d;
       let cpy = org\<lparr>si_sample_id := sid\<rparr>;
       (cpy, d) \<leftarrow> (case si_edit_list org of
           None \<Rightarrow> Some (cpy, d)
         | Some e \<Rightarrow> do {
             el \<leftarrow> ad_els d e;
             el' \<leftarrow> vj_el_clone el;
             let (e', d) = ad_alloc d;
             Some (cpy\<lparr>si_edit_list := Some e', si_soft_edl := 1\<rparr>, d\<lparr>ad_els := (ad_els d)(e' \<mapsto> el')\<rparr>)
           });
       (r, d) \<leftarrow> sample_store (put_sample c cpy d) (Some c);
       Some (if r \<noteq> 0 then 0 else sid, d)
     }
   }"

subsection \<open>The table of samples without its cache\<close>

text \<open>
  \<open>find_sample\<close> is the address of a sample, \<open>sample_at\<close> its record and \<open>modify_sample\<close> a change of the record,
  as total functions: what \<open>sample_get\<close> finds, what \<open>read_sample\<close> reads and \<open>write_sample\<close> writes.
\<close>

definition hash_of :: "adm \<Rightarrow> int \<rightharpoonup> addr" where
  "hash_of d = (case SampleHash d of Hash_table h \<Rightarrow> h | _ \<Rightarrow> Map.empty)"

definition find_sample :: "adm \<Rightarrow> int \<Rightarrow> addr option" where
  "find_sample d k =
     (if 0 \<le> k \<and> k < SAMPLE_MAX_SAMPLES
      then (case sample_cache d k of None \<Rightarrow> hash_of d k | Some a \<Rightarrow> Some a) else None)"

definition memo_sample :: "adm \<Rightarrow> int \<Rightarrow> adm" where
  "memo_sample d k = (if 0 \<le> k \<and> k < SAMPLE_MAX_SAMPLES
                      then d\<lparr>sample_cache := (sample_cache d)(k := find_sample d k)\<rparr> else d)"

definition sample_at :: "adm \<Rightarrow> int \<Rightarrow> sample_info option" where
  "sample_at d k = (case find_sample d k of None \<Rightarrow> None | Some a \<Rightarrow> ad_samples d a)"

definition modify_sample :: "adm \<Rightarrow> int \<Rightarrow> (sample_info \<Rightarrow> sample_info) \<Rightarrow> adm" where
  "modify_sample d k f =
     (case find_sample d k of
        None \<Rightarrow> memo_sample d k
      | Some a \<Rightarrow> (memo_sample d k)\<lparr>ad_samples := (ad_samples d)(a := map_option f (ad_samples d a))\<rparr>)"

text \<open>
  The state is well formed: the table exists; the table and the cache lead to live records with the right
  identifier and agree; identifiers and addresses handed out are below the two counters; the free list holds
  distinct identifiers that are not in use.
\<close>

definition adm_ok :: "adm \<Rightarrow> bool" where
  "adm_ok d \<longleftrightarrow>
     initialized d \<noteq> 0 \<and> SampleHash d = Hash_table (hash_of d) \<and>
     (\<forall>k a. hash_of d k = Some a \<longrightarrow> (\<exists>si. ad_samples d a = Some si \<and> si_sample_id si = k)) \<and>
     (\<forall>k a. sample_cache d k = Some a \<longrightarrow>
        (\<exists>si. ad_samples d a = Some si \<and> si_sample_id si = k) \<and> (hash_of d k = None \<or> hash_of d k = Some a)) \<and>
     (\<forall>a si. ad_samples d a = Some si \<longrightarrow> a < ad_next d \<and> 0 < si_sample_id si \<and> si_sample_id si < this_sample_id d) \<and>
     0 \<le> this_sample_id d \<and> int (next_avail_num d) \<le> SAMPLE_MAX_SAMPLES \<and>
     (\<forall>n. avail_num d n \<noteq> 0 \<longrightarrow> n < next_avail_num d \<and> 0 < avail_num d n \<and> avail_num d n < this_sample_id d \<and>
        hash_of d (avail_num d n) = None \<and> sample_cache d (avail_num d n) = None) \<and>
     (\<forall>n m. avail_num d n \<noteq> 0 \<longrightarrow> avail_num d n = avail_num d m \<longrightarrow> n = m)"

lemma adm_okD:
  assumes "adm_ok d"
  shows adm_ok_hash: "SampleHash d = Hash_table (hash_of d)" "initialized d \<noteq> 0"
    and adm_ok_hash_live: "hash_of d k = Some a \<Longrightarrow> \<exists>si. ad_samples d a = Some si \<and> si_sample_id si = k"
    and adm_ok_cache: "sample_cache d k = Some a \<Longrightarrow> \<exists>si. ad_samples d a = Some si \<and> si_sample_id si = k"
      "sample_cache d k = Some a \<Longrightarrow> hash_of d k = None \<or> hash_of d k = Some a"
    and adm_ok_range: "ad_samples d a = Some si \<Longrightarrow> a < ad_next d \<and> 0 < si_sample_id si \<and> si_sample_id si < this_sample_id d"
    and adm_ok_counters: "0 \<le> this_sample_id d" "int (next_avail_num d) \<le> SAMPLE_MAX_SAMPLES"
    and adm_ok_avail: "avail_num d n \<noteq> 0 \<Longrightarrow> n < next_avail_num d \<and> 0 < avail_num d n \<and> avail_num d n < this_sample_id d \<and>
        hash_of d (avail_num d n) = None \<and> sample_cache d (avail_num d n) = None"
    and adm_ok_avail_inj: "avail_num d n \<noteq> 0 \<Longrightarrow> avail_num d n = avail_num d m \<Longrightarrow> n = m"
  using assms by (auto simp: adm_ok_def)

lemma find_sample_live:
  assumes "adm_ok d" "find_sample d k = Some a"
  obtains si where "ad_samples d a = Some si" "si_sample_id si = k" "a < ad_next d"
proof -
  have "sample_cache d k = Some a \<or> hash_of d k = Some a"
    using assms(2) by (auto simp: find_sample_def split: if_splits option.splits)
  then obtain si where "ad_samples d a = Some si" "si_sample_id si = k"
    using adm_ok_cache(1) [OF assms(1)] adm_ok_hash_live [OF assms(1)] by blast
  then show ?thesis using that adm_ok_range [OF assms(1)] by blast
qed

lemma find_sample_SomeD:
  "adm_ok d \<Longrightarrow> find_sample d k = Some a \<Longrightarrow> \<exists>si. ad_samples d a = Some si \<and> si_sample_id si = k"
  by (meson find_sample_live)

lemma find_sample_inj:
  assumes "adm_ok d" "find_sample d k = Some a" "find_sample d j = Some a"
  shows "k = j"
  using find_sample_live [OF assms(1,2)] find_sample_live [OF assms(1,3)] by (metis option.inject)

lemma find_sample_memo [simp]: "find_sample (memo_sample d k) j = find_sample d j"
  by (auto simp: memo_sample_def find_sample_def hash_of_def split: option.splits)

lemma cache_upd_same: "sample_cache d k = x \<Longrightarrow> d\<lparr>sample_cache := (sample_cache d)(k := x)\<rparr> = d"
  by (auto simp: fun_upd_idem)

lemma sample_get_find:
  assumes "adm_ok d" "k \<noteq> SAMPLE_MAX_SAMPLES"
  shows "sample_get d k = Some (find_sample d k, memo_sample d k)"
proof (cases "sample_cache d k")
  case None
  then show ?thesis
    using assms adm_ok_hash(1) [OF assms(1)] cache_upd_same [OF None]
    by (auto simp: sample_get_def find_sample_def memo_sample_def sample_lookup_def split: option.splits)
next
  case (Some a)
  then show ?thesis
    using assms(2) cache_upd_same [OF Some] by (auto simp: sample_get_def find_sample_def memo_sample_def)
qed

lemma memo_fields [simp]:
  "ad_samples (memo_sample d k) = ad_samples d" "hash_of (memo_sample d k) = hash_of d"
  "ad_next (memo_sample d k) = ad_next d" "this_sample_id (memo_sample d k) = this_sample_id d"
  "avail_num (memo_sample d k) = avail_num d" "next_avail_num (memo_sample d k) = next_avail_num d"
  "initialized (memo_sample d k) = initialized d" "SampleHash (memo_sample d k) = SampleHash d"
  "ad_els (memo_sample d k) = ad_els d" "ad_elg (memo_sample d k) = ad_elg d" "ad_lav (memo_sample d k) = ad_lav d"
  "ad_tags (memo_sample d k) = ad_tags d" "ad_fx (memo_sample d k) = ad_fx d" "ad_ports (memo_sample d k) = ad_ports d"
  "ad_strs (memo_sample d k) = ad_strs d" "plain_editlist (memo_sample d k) = plain_editlist d"
  "this_tag_id (memo_sample d k) = this_tag_id d" "avail_tag (memo_sample d k) = avail_tag d"
  "next_avail_tag (memo_sample d k) = next_avail_tag d" "last_added_tag (memo_sample d k) = last_added_tag d"
  by (simp_all add: memo_sample_def hash_of_def)

lemma memo_cache:
  "sample_cache (memo_sample d k) j =
     (if j = k \<and> 0 \<le> k \<and> k < SAMPLE_MAX_SAMPLES then find_sample d k else sample_cache d j)"
  by (simp add: memo_sample_def)

lemma adm_ok_memo:
  assumes "adm_ok d"
  shows "adm_ok (memo_sample d k)"
proof -
  have c: "sample_cache d j = Some a \<or> hash_of d j = Some a" if "sample_cache (memo_sample d k) j = Some a" for j a
    using that by (auto simp: memo_cache find_sample_def split: if_splits option.splits)
  have avail: "sample_cache (memo_sample d k) (avail_num d n) = None" if "avail_num d n \<noteq> 0" for n
    using adm_ok_avail [OF assms that] by (auto simp: memo_cache find_sample_def)
  show ?thesis
    unfolding adm_ok_def memo_fields
  proof (intro conjI allI impI)
    fix j a assume h: "sample_cache (memo_sample d k) j = Some a"
    show "\<exists>si. ad_samples d a = Some si \<and> si_sample_id si = j"
      using c [OF h] adm_ok_cache(1) [OF assms] adm_ok_hash_live [OF assms] by blast
    show "hash_of d j = None \<or> hash_of d j = Some a"
      using c [OF h] adm_ok_cache(2) [OF assms] by blast
  qed (use assms adm_okD [OF assms] avail in auto)
qed

text \<open>What the operations of one sample come to.\<close>

lemma with_sample_find:
  assumes "adm_ok d" "k \<noteq> SAMPLE_MAX_SAMPLES"
  shows "with_sample d k dflt K =
     (case find_sample d k of
        None \<Rightarrow> Some (dflt, memo_sample d k)
      | Some a \<Rightarrow> K (memo_sample d k) a (the (ad_samples d a)))"
proof (cases "find_sample d k")
  case None
  then show ?thesis by (simp add: with_sample_def sample_get_find [OF assms])
next
  case (Some a)
  then obtain si where "ad_samples d a = Some si" using find_sample_live [OF assms(1)] by metis
  with Some show ?thesis by (simp add: with_sample_def sample_get_find [OF assms])
qed

lemma sample_at_None_iff:
  assumes "adm_ok d"
  shows "sample_at d k = None \<longleftrightarrow> find_sample d k = None"
  by (cases "find_sample d k") (auto simp: sample_at_def dest: find_sample_SomeD [OF assms])

lemma read_sample_at:
  assumes "adm_ok d" "k \<noteq> SAMPLE_MAX_SAMPLES"
  shows "read_sample d k dflt f =
     Some (case sample_at d k of None \<Rightarrow> dflt | Some si \<Rightarrow> f si, memo_sample d k)"
  by (cases "find_sample d k")
    (auto simp: read_sample_def with_sample_find [OF assms] sample_at_def dest: find_sample_SomeD [OF assms(1)])

lemma write_sample_modify:
  assumes "adm_ok d" "k \<noteq> SAMPLE_MAX_SAMPLES"
  shows "write_sample d k dflt r f =
     Some (if sample_at d k = None then dflt else r, modify_sample d k f)"
  by (cases "find_sample d k")
    (auto simp: write_sample_def with_sample_find [OF assms] sample_at_def modify_sample_def put_sample_def
      dest: find_sample_SomeD [OF assms(1)])

lemma sample_at_memo [simp]: "sample_at (memo_sample d k) j = sample_at d j"
  by (simp add: sample_at_def split: option.splits)

lemma find_sample_eq:
  "sample_cache d' k = sample_cache d k \<Longrightarrow> hash_of d' k = hash_of d k \<Longrightarrow> find_sample d' k = find_sample d k"
  by (auto simp: find_sample_def split: option.splits)

lemma find_sample_cong:
  "sample_cache d' = sample_cache d \<Longrightarrow> SampleHash d' = SampleHash d \<Longrightarrow> find_sample d' k = find_sample d k"
  by (simp add: find_sample_def hash_of_def split: option.splits)

lemma find_sample_upd [simp]:
  "find_sample (d\<lparr>ad_samples := x1\<rparr>) k = find_sample d k" "find_sample (d\<lparr>ad_els := x2\<rparr>) k = find_sample d k"
  "find_sample (d\<lparr>ad_elg := x3\<rparr>) k = find_sample d k" "find_sample (d\<lparr>ad_ports := x4\<rparr>) k = find_sample d k"
  "find_sample (d\<lparr>ad_tags := x5\<rparr>) k = find_sample d k" "find_sample (d\<lparr>ad_fx := x6\<rparr>) k = find_sample d k"
  "find_sample (d\<lparr>ad_lav := x7\<rparr>) k = find_sample d k" "find_sample (d\<lparr>ad_strs := x8\<rparr>) k = find_sample d k"
  by (rule find_sample_cong; simp)+

lemma find_sample_modify [simp]: "find_sample (modify_sample d k f) j = find_sample d j"
  by (simp add: modify_sample_def split: option.splits)

lemma sample_at_modify:
  assumes "adm_ok d"
  shows "sample_at (modify_sample d k f) j = (if j = k then map_option f (sample_at d k) else sample_at d j)"
proof (cases "find_sample d k")
  case None
  then show ?thesis by (simp add: modify_sample_def) (simp add: sample_at_def)
next
  case (Some a)
  have "find_sample d j = Some a \<longleftrightarrow> j = k" using find_sample_inj [OF assms Some] Some by metis
  with Some show ?thesis
    by (cases "find_sample d j") (auto simp: sample_at_def [of "modify_sample d k f"] modify_sample_def sample_at_def)
qed

lemma adm_ok_put:
  assumes "adm_ok d" "ad_samples d a = Some si" "si_sample_id si' = si_sample_id si"
  shows "adm_ok (d\<lparr>ad_samples := (ad_samples d)(a := Some si')\<rparr>)"
proof -
  let ?d = "d\<lparr>ad_samples := (ad_samples d)(a := Some si')\<rparr>"
  have h: "hash_of ?d = hash_of d" by (simp add: hash_of_def)
  have live: "\<exists>si. ad_samples ?d b = Some si \<and> si_sample_id si = k"
    if "\<exists>si. ad_samples d b = Some si \<and> si_sample_id si = k" for b k
    using that assms(2,3) by auto
  show ?thesis
    unfolding adm_ok_def h
  proof (intro conjI allI impI)
    fix k b assume "hash_of d k = Some b"
    then show "\<exists>si. ad_samples ?d b = Some si \<and> si_sample_id si = k"
      using live adm_ok_hash_live [OF assms(1)] by blast
  next
    fix k b assume "sample_cache ?d k = Some b"
    then show "\<exists>si. ad_samples ?d b = Some si \<and> si_sample_id si = k"
      "hash_of d k = None \<or> hash_of d k = Some b"
      using live adm_ok_cache [OF assms(1)] by simp_all
  next
    fix b sj assume "ad_samples ?d b = Some sj"
    then show "b < ad_next ?d" "0 < si_sample_id sj" "si_sample_id sj < this_sample_id ?d"
      using adm_ok_range [OF assms(1,2)] adm_ok_range [OF assms(1), of b sj] assms(3) by (auto split: if_splits)
  next
    fix n assume "avail_num ?d n \<noteq> 0"
    then show "n < next_avail_num ?d" "0 < avail_num ?d n" "avail_num ?d n < this_sample_id ?d"
      "hash_of d (avail_num ?d n) = None" "sample_cache ?d (avail_num ?d n) = None"
      using adm_ok_avail [OF assms(1)] by simp_all
  qed (use adm_ok_hash [OF assms(1)] adm_ok_counters [OF assms(1)] adm_ok_avail_inj [OF assms(1)] in simp_all)
qed

lemma adm_ok_modify:
  assumes "adm_ok d" "\<forall>si. si_sample_id (f si) = si_sample_id si"
  shows "adm_ok (modify_sample d k f)"
proof (cases "find_sample d k")
  case None
  then show ?thesis using adm_ok_memo [OF assms(1)] by (simp add: modify_sample_def)
next
  case (Some a)
  then obtain si where "ad_samples d a = Some si" using find_sample_live [OF assms(1)] by metis
  with Some show ?thesis
    using adm_ok_put [OF adm_ok_memo [OF assms(1), of k], of a si "f si"] assms(2)
    by (simp add: modify_sample_def)
qed

subsection \<open>The interface to the parameter and chain operations\<close>

text \<open>
  A table of records under integer keys: a record can be looked up and modified in place. Operations on one
  record are proved over this interface.
\<close>

locale record_table =
  fixes inv :: "'s \<Rightarrow> bool"
    and look :: "'s \<Rightarrow> int \<Rightarrow> 'r option"
    and modify :: "'s \<Rightarrow> int \<Rightarrow> ('r \<Rightarrow> 'r) \<Rightarrow> 's"
    and key :: "'r \<Rightarrow> int"
  assumes look_key: "inv s \<Longrightarrow> look s k = Some r \<Longrightarrow> key r = k"
    and look_modify: "inv s \<Longrightarrow> look (modify s k f) j = (if j = k then map_option f (look s k) else look s j)"
    and inv_modify: "inv s \<Longrightarrow> \<forall>r. key (f r) = key r \<Longrightarrow> inv (modify s k f)"
begin

text \<open>What holds of every record and is kept by a change of one record still holds of every record.\<close>

lemma all_records:
  assumes "inv s" "\<forall>k r. look s k = Some r \<longrightarrow> P r" "\<forall>r. P r \<longrightarrow> P (f r)"
  shows "\<forall>j r. look (modify s k f) j = Some r \<longrightarrow> P r"
  using assms by (auto simp: look_modify split: if_splits)

definition updates :: "(int \<times> ('r \<Rightarrow> 'r)) list \<Rightarrow> 's \<Rightarrow> 's" where
  "updates us s = fold (\<lambda>(k, f) s. modify s k f) us s"

lemma updates_simps [simp]:
  "updates [] s = s" "updates ((k, f) # us) s = updates us (modify s k f)"
  by (simp_all add: updates_def)

text \<open>A sequence of changes acts on each record as the changes to that record alone, in their order.\<close>

lemma look_updates:
  assumes "inv s" "\<forall>(k, f) \<in> set us. \<forall>r. key (f r) = key r"
  shows "look (updates us s) j = map_option (fold (\<lambda>(k, f). if k = j then f else id) us) (look s j)"
  using assms
proof (induction us arbitrary: s)
  case Nil
  then show ?case by (simp add: option.map_ident)
next
  case (Cons u us)
  obtain k f where u: "u = (k, f)" by force
  have "inv (modify s k f)" using Cons.prems u by (intro inv_modify) auto
  with Cons u show ?case by (auto simp: look_modify option.map_comp comp_def)
qed

lemma inv_updates:
  assumes "inv s" "\<forall>(k, f) \<in> set us. \<forall>r. key (f r) = key r"
  shows "inv (updates us s)"
  using assms by (induction us arbitrary: s) (auto simp: inv_modify)

lemma modify_commute:
  assumes "inv s" "k \<noteq> k'" "\<forall>r. key (f r) = key r" "\<forall>r. key (g r) = key r"
  shows "look (modify (modify s k f) k' g) j = look (modify (modify s k' g) k f) j"
  using assms by (simp add: look_modify inv_modify)

end

lemma sample_at_id: "adm_ok d \<Longrightarrow> sample_at d k = Some si \<Longrightarrow> si_sample_id si = k"
  using find_sample_SomeD by (fastforce simp: sample_at_def split: option.splits)

interpretation samples: record_table adm_ok sample_at modify_sample si_sample_id
  by unfold_locales (auto simp: sample_at_id sample_at_modify adm_ok_modify)

subsection \<open>Identifiers\<close>

lemma find_avail_Some:
  "find_avail av n k = Some (Some m) \<Longrightarrow> n \<le> m \<and> m < n + k \<and> av m \<noteq> 0 \<and> (\<forall>i. n \<le> i \<longrightarrow> i < m \<longrightarrow> av i = 0)"
proof (induction av n k rule: find_avail.induct)
  case (2 av n k)
  show ?case
  proof (cases "av n = 0")
    case True
    have "i = n \<or> Suc n \<le> i" if "n \<le> i" for i using that by auto
    with 2 True show ?thesis by (fastforce split: if_splits)
  qed (use 2 in \<open>auto split: if_splits\<close>)
qed simp

lemma find_avail_none: "find_avail av n k = Some None \<Longrightarrow> n \<le> i \<Longrightarrow> i < n + k \<Longrightarrow> av i = 0"
proof (induction av n k rule: find_avail.induct)
  case (2 av n k)
  then show ?case by (cases "i = n") (auto split: if_splits)
qed simp

lemma find_avail_defined: "int (n + k) \<le> SAMPLE_MAX_SAMPLES \<Longrightarrow> find_avail av n k \<noteq> None"
  by (induction av n k rule: find_avail.induct) auto

lemma hash_of_upd [simp]:
  "hash_of (d\<lparr>avail_num := x1\<rparr>) = hash_of d" "hash_of (d\<lparr>this_sample_id := x2\<rparr>) = hash_of d"
  "hash_of (d\<lparr>ad_next := x3\<rparr>) = hash_of d" "hash_of (d\<lparr>ad_samples := x4\<rparr>) = hash_of d"
  "hash_of (d\<lparr>sample_cache := x5\<rparr>) = hash_of d" "hash_of (d\<lparr>ad_strs := x6\<rparr>) = hash_of d"
  "hash_of (d\<lparr>ad_ports := x7\<rparr>) = hash_of d" "hash_of (d\<lparr>ad_els := x8\<rparr>) = hash_of d"
  "hash_of (d\<lparr>SampleHash := Hash_table h\<rparr>) = h"
  by (simp_all add: hash_of_def)

lemma adm_ok_take_avail:
  assumes "adm_ok d"
  shows "adm_ok (d\<lparr>avail_num := (avail_num d)(n := 0)\<rparr>)"
  unfolding adm_ok_def hash_of_upd
proof (intro conjI allI impI)
  fix i j
  assume "avail_num (d\<lparr>avail_num := (avail_num d)(n := 0)\<rparr>) i \<noteq> 0"
    "avail_num (d\<lparr>avail_num := (avail_num d)(n := 0)\<rparr>) i = avail_num (d\<lparr>avail_num := (avail_num d)(n := 0)\<rparr>) j"
  then show "i = j" using adm_ok_avail_inj [OF assms] by (auto split: if_splits)
qed (use assms adm_okD [OF assms] in \<open>auto split: if_splits\<close>)

lemma adm_ok_next_id:
  assumes "adm_ok d" "this_sample_id d \<le> t"
  shows "adm_ok (d\<lparr>this_sample_id := t\<rparr>)"
  unfolding adm_ok_def hash_of_upd
proof (intro conjI allI impI)
  fix a si assume "ad_samples (d\<lparr>this_sample_id := t\<rparr>) a = Some si"
  then show "si_sample_id si < this_sample_id (d\<lparr>this_sample_id := t\<rparr>)"
    using adm_ok_range [OF assms(1), of a si] assms(2) by simp
next
  fix n assume "avail_num (d\<lparr>this_sample_id := t\<rparr>) n \<noteq> 0"
  then show "avail_num (d\<lparr>this_sample_id := t\<rparr>) n < this_sample_id (d\<lparr>this_sample_id := t\<rparr>)"
    using adm_ok_avail [OF assms(1), of n] assms(2) by simp
qed (use assms adm_okD [OF assms(1)] in auto)

lemma no_sample_at_next:
  assumes "adm_ok d" "this_sample_id d \<le> k"
  shows "hash_of d k = None" "sample_cache d k = None"
proof -
  have "\<not> (\<exists>a si. ad_samples d a = Some si \<and> si_sample_id si = k)"
    using adm_ok_range [OF assms(1)] assms(2) by force
  then show "hash_of d k = None" "sample_cache d k = None"
    using adm_ok_hash_live [OF assms(1), of k] adm_ok_cache(1) [OF assms(1), of k]
    by (metis not_None_eq)+
qed

text \<open>
  A new identifier is not in use, whether it is reclaimed or fresh, and it is no longer on offer.
\<close>

lemma new_id_counter:
  "new_id d = Some (sid, d') \<Longrightarrow> 0 \<le> this_sample_id d \<Longrightarrow> this_sample_id d' \<le> max 1 (this_sample_id d) + 1"
  by (auto simp: new_id_def bind_eq_Some_conv Let_def simp del: find_avail.simps split: option.splits)

lemma new_id_fresh:
  assumes "adm_ok d" "new_id d = Some (sid, d')"
  shows "0 < sid \<and> sid < this_sample_id d' \<and> hash_of d sid = None \<and> sample_cache d sid = None \<and> adm_ok d' \<and>
    (\<forall>n. avail_num d' n \<noteq> sid) \<and> (\<exists>av t. d' = d\<lparr>avail_num := av, this_sample_id := t\<rparr>) \<and> sid \<le> max 1 (this_sample_id d)"
proof -
  obtain r where r: "find_avail (avail_num d) 0 (Suc (next_avail_num d)) = Some r"
    using assms(2) by (auto simp: new_id_def bind_eq_Some_conv simp del: find_avail.simps)
  show ?thesis
  proof (cases r)
    case (Some n)
    then have n: "avail_num d n \<noteq> 0" using find_avail_Some r by blast
    have d': "sid = avail_num d n" "d' = d\<lparr>avail_num := (avail_num d)(n := 0)\<rparr>"
      using assms(2) r Some by (simp_all add: new_id_def del: find_avail.simps)
    have "\<forall>m. avail_num d' m \<noteq> sid"
      using n adm_ok_avail_inj [OF assms(1) n] by (simp add: d') metis
    moreover have "\<exists>av t. d' = d\<lparr>avail_num := av, this_sample_id := t\<rparr>"
      by (rule exI [of _ "(avail_num d)(n := 0)"], rule exI [of _ "this_sample_id d"]) (simp add: d')
    ultimately show ?thesis
      using adm_ok_avail [OF assms(1) n] adm_ok_take_avail [OF assms(1), of n] by (simp add: d')
  next
    case None
    define t where "t = (if this_sample_id d = 0 then 1 else this_sample_id d)"
    have pos: "0 < t" "this_sample_id d \<le> t" "t \<le> max 1 (this_sample_id d)"
      using adm_ok_counters(1) [OF assms(1)] by (auto simp: t_def)
    have d': "sid = t" "d' = d\<lparr>this_sample_id := t + 1\<rparr>"
      using assms(2) r None by (auto simp: new_id_def Let_def t_def simp del: find_avail.simps)
    have "avail_num d m \<noteq> sid" for m
      using adm_ok_avail [OF assms(1), of m] pos d'(1) by (cases "avail_num d m = 0") auto
    then have "\<forall>m. avail_num d' m \<noteq> sid" by (simp add: d'(2))
    moreover have "\<exists>av t. d' = d\<lparr>avail_num := av, this_sample_id := t\<rparr>"
      by (rule exI [of _ "avail_num d"], rule exI [of _ "t + 1"]) (simp add: d')
    ultimately show ?thesis
      using pos no_sample_at_next [OF assms(1), of sid] adm_ok_next_id [OF assms(1), of "t + 1"] by (simp add: d')
  qed
qed

lemma new_id_defined:
  assumes "int (next_avail_num d) < SAMPLE_MAX_SAMPLES"
  obtains sid d' where "new_id d = Some (sid, d')"
proof -
  obtain r where "find_avail (avail_num d) 0 (Suc (next_avail_num d)) = Some r"
    using find_avail_defined [of 0 "Suc (next_avail_num d)" "avail_num d"] assms by auto
  then show ?thesis
    using that by (cases r) (auto simp: new_id_def Let_def simp del: find_avail.simps)
qed

subsection \<open>A new sample\<close>

text \<open>A live block and its identifier are added to the cache, and then to the table.\<close>

lemma adm_ok_add_record:
  assumes "adm_ok d" "ad_samples d a = None" "a < t" "ad_next d \<le> t" "0 < si_sample_id si"
    "si_sample_id si < this_sample_id d"
  shows "adm_ok (d\<lparr>ad_samples := (ad_samples d)(a \<mapsto> si), ad_next := t\<rparr>)" (is "adm_ok ?d")
proof -
  have live: "\<exists>sj. ad_samples ?d b = Some sj \<and> si_sample_id sj = k"
    if "\<exists>sj. ad_samples d b = Some sj \<and> si_sample_id sj = k" for b k
    using that assms(2) by auto
  show ?thesis
    unfolding adm_ok_def hash_of_upd
  proof (intro conjI allI impI)
    fix k b assume "hash_of d k = Some b"
    then show "\<exists>sj. ad_samples ?d b = Some sj \<and> si_sample_id sj = k"
      using live adm_ok_hash_live [OF assms(1)] by blast
  next
    fix k b assume "sample_cache ?d k = Some b"
    then show "\<exists>sj. ad_samples ?d b = Some sj \<and> si_sample_id sj = k"
      "hash_of d k = None \<or> hash_of d k = Some b"
      using live adm_ok_cache [OF assms(1)] by simp_all
  next
    fix b sj assume "ad_samples ?d b = Some sj"
    then show "b < ad_next ?d" "0 < si_sample_id sj" "si_sample_id sj < this_sample_id ?d"
      using adm_ok_range [OF assms(1), of b sj] assms(3-6) by (auto split: if_splits)
  next
    fix n assume "avail_num ?d n \<noteq> 0"
    then show "n < next_avail_num ?d" "0 < avail_num ?d n" "avail_num ?d n < this_sample_id ?d"
      "hash_of d (avail_num ?d n) = None" "sample_cache ?d (avail_num ?d n) = None"
      using adm_ok_avail [OF assms(1)] by simp_all
  qed (use adm_ok_hash [OF assms(1)] adm_ok_counters [OF assms(1)] adm_ok_avail_inj [OF assms(1)] in simp_all)
qed

lemma adm_ok_add_cache:
  assumes "adm_ok d" "ad_samples d a = Some si" "si_sample_id si = k" "hash_of d k = None \<or> hash_of d k = Some a"
    "\<forall>n. avail_num d n \<noteq> k"
  shows "adm_ok (d\<lparr>sample_cache := (sample_cache d)(k := Some a)\<rparr>)" (is "adm_ok ?d")
  unfolding adm_ok_def hash_of_upd
proof (intro conjI allI impI)
  fix j b assume c: "sample_cache ?d j = Some b"
  show "\<exists>sj. ad_samples ?d b = Some sj \<and> si_sample_id sj = j" "hash_of d j = None \<or> hash_of d j = Some b"
    using c assms(2-4) adm_ok_cache [OF assms(1), of j b] by (auto split: if_splits)
next
  fix n assume "avail_num ?d n \<noteq> 0"
  then show "n < next_avail_num ?d" "0 < avail_num ?d n" "avail_num ?d n < this_sample_id ?d"
      "hash_of d (avail_num ?d n) = None" "sample_cache ?d (avail_num ?d n) = None"
    using adm_ok_avail [OF assms(1), of n] assms(5) by auto
qed (use adm_okD [OF assms(1)] in auto)

lemma adm_ok_add_hash:
  assumes "adm_ok d" "ad_samples d a = Some si" "si_sample_id si = k" "sample_cache d k = None \<or> sample_cache d k = Some a"
    "\<forall>n. avail_num d n \<noteq> k"
  shows "adm_ok (d\<lparr>SampleHash := Hash_table ((hash_of d)(k \<mapsto> a))\<rparr>)" (is "adm_ok ?d")
proof -
  have h: "hash_of ?d = (hash_of d)(k \<mapsto> a)" by (simp add: hash_of_def)
  show ?thesis
    unfolding adm_ok_def h
  proof (intro conjI allI impI)
    fix j b assume "((hash_of d)(k \<mapsto> a)) j = Some b"
    then show "\<exists>sj. ad_samples ?d b = Some sj \<and> si_sample_id sj = j"
      using assms(2,3) adm_ok_hash_live [OF assms(1), of j b] by (auto split: if_splits)
  next
    fix j b assume "sample_cache ?d j = Some b"
    then show "\<exists>sj. ad_samples ?d b = Some sj \<and> si_sample_id sj = j"
      "((hash_of d)(k \<mapsto> a)) j = None \<or> ((hash_of d)(k \<mapsto> a)) j = Some b"
      using assms(4) adm_ok_cache [OF assms(1), of j b] by auto
  next
    fix n assume "avail_num ?d n \<noteq> 0"
    then show "n < next_avail_num ?d" "0 < avail_num ?d n" "avail_num ?d n < this_sample_id ?d"
      "((hash_of d)(k \<mapsto> a)) (avail_num ?d n) = None" "sample_cache ?d (avail_num ?d n) = None"
      using adm_ok_avail [OF assms(1), of n] assms(5) by auto
  qed (use adm_okD [OF assms(1)] in auto)
qed

lemma adm_ok_cong:
  assumes "adm_ok d" "ad_samples d' = ad_samples d" "SampleHash d' = SampleHash d" "sample_cache d' = sample_cache d"
    "avail_num d' = avail_num d" "next_avail_num d' = next_avail_num d" "this_sample_id d' = this_sample_id d"
    "initialized d' = initialized d" "ad_next d \<le> ad_next d'"
  shows "adm_ok d'"
proof -
  have h: "hash_of d' = hash_of d" using assms(3) by (simp add: hash_of_def)
  have "\<forall>a si. ad_samples d a = Some si \<longrightarrow> a < ad_next d'"
    using adm_ok_range [OF assms(1)] assms(9) by fastforce
  then show ?thesis using assms(1) unfolding adm_ok_def h assms(2-8) by blast
qed

text \<open>What \<open>sample_skeleton_new\<close> does when the range and the state are good.\<close>

lemma skeleton_new_cases:
  assumes "adm_ok d" "0 \<le> startFrame" "startFrame < endFrame" "int (next_avail_num d) < SAMPLE_MAX_SAMPLES"
    "this_sample_id d < SAMPLE_MAX_SAMPLES"
  obtains sid a si d' where
    "sample_skeleton_new d startFrame endFrame = Some (Some a, d')"
    "adm_ok d'" "sample_at d sid = None" "0 < sid" "sid < SAMPLE_MAX_SAMPLES"
    "ad_samples d' a = Some si" "sample_cache d' sid = Some a" "hash_of d' sid = None" "\<forall>n. avail_num d' n \<noteq> sid"
    "si_sample_id si = sid" "si_first_frame si = startFrame" "si_last_frame si = endFrame" "si_edit_list si = None"
    "si_play_length si = 0" "\<forall>c \<in> set (si_effect_chain si). sc_effect_id c = - 1"
    "\<forall>k. k \<noteq> sid \<longrightarrow> sample_at d' k = sample_at d k" "ad_els d' = ad_els d" "ad_lav d' = ad_lav d"
proof -
  define a where "a = ad_next d"
  define d0 where "d0 = d\<lparr>ad_next := Suc a\<rparr>"
  have d0: "adm_ok d0"
    by (rule adm_ok_cong [OF assms(1)]) (simp_all add: d0_def a_def)
  obtain sid d1 where n: "new_id d0 = Some (sid, d1)"
    using new_id_defined [of d0] assms(4) by (auto simp: d0_def)
  note fresh = new_id_fresh [OF d0 n]
  then obtain av t where d1: "d1 = d0\<lparr>avail_num := av, this_sample_id := t\<rparr>" by blast
  define ch where "ch = (if sample_size d1 \<le> 0 then sid else sample_size d1 - 1)"
  define si where "si = sample_zero\<lparr>si_sample_id := sid,
                   si_descr := take (SAMPLE_MAX_DESCR_LEN - 1) (''Sample '' @ show_wide 4 sid),
                   si_first_frame := startFrame, si_last_frame := endFrame, si_resume_pos := startFrame,
                   si_edit_list := None, si_soft_edl := 1, si_speed := 1, si_looptype := 1,
                   si_audio_volume := 50, si_marker_start := 0, si_marker_end := 0, si_loopcount := 0,
                   si_effect_toggle := 1, si_edit_list_file := Some (Suc a),
                   si_effect_chain := replicate SAMPLE_MAX_EFFECTS (chain_skeleton ch), si_dict := Some (Suc (Suc a))\<rparr>"
  define d2 where "d2 = d1\<lparr>ad_strs := (ad_strs d)(Suc a \<mapsto> ''sample_'' @ show_pad 5 sid @ ''.edl''),
                          ad_ports := insert (Suc (Suc a)) (ad_ports d), ad_next := Suc (Suc (Suc a)),
                          ad_samples := (ad_samples d)(a \<mapsto> si)\<rparr>"
  define d' where "d' = d2\<lparr>sample_cache := (sample_cache d)(sid := Some a)\<rparr>"
  have sid: "sid < SAMPLE_MAX_SAMPLES" "0 < sid"
    using fresh assms(5) by (auto simp: d0_def SAMPLE_MAX_SAMPLES_def)
  have new: "sample_skeleton_new d startFrame endFrame = Some (Some a, d')"
    using assms(2,3) adm_ok_hash(2) [OF assms(1)] sid n
    by (simp add: sample_skeleton_new_def ad_alloc_def Let_def d0_def [symmetric] a_def [symmetric] strdup_def vpn_def
        put_sample_def d'_def d2_def d1 si_def ch_def sample_size_def)
      (simp add: d0_def)
  have "adm_ok (d1\<lparr>ad_samples := (ad_samples d1)(a \<mapsto> si), ad_next := Suc (Suc (Suc a))\<rparr>)"
  proof (rule adm_ok_add_record)
    show "si_sample_id si < this_sample_id d1" using fresh by (simp add: si_def)
    show "ad_samples d1 a = None"
      using adm_ok_range [OF assms(1), of a] a_def by (cases "ad_samples d a") (auto simp: d1 d0_def)
  qed (use fresh sid in \<open>simp_all add: si_def d1 d0_def\<close>)
  then have "adm_ok d2"
    by (rule adm_ok_cong) (simp_all add: d2_def d1 d0_def)
  then have ok: "adm_ok d'"
    unfolding d'_def
    using adm_ok_add_cache [of d2 a si sid] fresh by (simp add: d2_def si_def d1 d0_def)
  have none: "find_sample d sid = None"
    using fresh by (simp add: find_sample_def d0_def)
  have same: "sample_at d' k = sample_at d k" if "k \<noteq> sid" for k
  proof -
    have f: "find_sample d' k = find_sample d k"
      by (rule find_sample_eq) (use that in \<open>simp_all add: d'_def d2_def d1 d0_def hash_of_def\<close>)
    show ?thesis
    proof (cases "find_sample d k")
      case (Some b)
      have "b \<noteq> a" using find_sample_live [OF assms(1) Some] a_def by (metis less_irrefl)
      with f Some show ?thesis by (simp add: sample_at_def d'_def d2_def)
    qed (simp add: sample_at_def f)
  qed
  show ?thesis
  proof (rule that [OF new ok _ sid(2,1), where si = si])
    show "sample_at d sid = None" using none by (simp add: sample_at_def)
    show "hash_of d' sid = None" using fresh by (simp add: d'_def d2_def d1 d0_def)
    show "\<forall>k. k \<noteq> sid \<longrightarrow> sample_at d' k = sample_at d k" using same by blast
    show "\<forall>n. avail_num d' n \<noteq> sid" using fresh by (simp add: d'_def d2_def d1)
    show "\<forall>c \<in> set (si_effect_chain si). sc_effect_id c = - 1" by (simp add: si_def chain_skeleton_def)
  qed (simp_all add: d'_def d2_def si_def d1 d0_def sample_zero_def)
qed

text \<open>Storing a record under an identifier that is not in the table.\<close>

definition stored_as :: "adm \<Rightarrow> sample_info \<Rightarrow> sample_info \<Rightarrow> bool" where
  "stored_as d si si' \<longleftrightarrow>
     (case si_edit_list si of
        None \<Rightarrow> si' = si
      | Some e \<Rightarrow> (\<exists>el n. ad_els d e = Some el \<and> vj_el_bogus_length (ad_lav d) el 0 = Some n \<and>
                         si' = si\<lparr>si_play_length := n\<rparr>))"

lemma store_new:
  assumes "adm_ok d" "ad_samples d a = Some si" "si_sample_id si = k"
    "sample_cache d k = Some a \<or> sample_cache d k = None" "hash_of d k = None" "\<forall>n. avail_num d n \<noteq> k"
    "stored_as d si si'"
  defines "d' \<equiv> (put_sample a si' d)\<lparr>SampleHash := Hash_table ((hash_of d)(k \<mapsto> a))\<rparr>"
  shows "sample_store d (Some a) = Some (0, d')" "adm_ok d'"
proof -
  have same: "put_sample a si d = d"
    using assms(2) by (simp add: put_sample_def fun_upd_idem)
  have id': "si_sample_id si' = k"
    using assms(3,7) by (auto simp: stored_as_def split: option.splits)
  have ok: "adm_ok (put_sample a si' d)"
    using adm_ok_put [OF assms(1,2)] id' assms(3) by (simp add: put_sample_def)
  have h: "hash_of (put_sample a si' d) = hash_of d" by (simp add: put_sample_def)
  have "sample_exists (put_sample a si' d) k = Some (0, put_sample a si' d)"
    using assms(5) adm_ok_hash(1) [OF ok] h by (simp add: sample_exists_def sample_lookup_def)
  then show "sample_store d (Some a) = Some (0, d')"
    using assms(2,3,7) adm_ok_hash(1) [OF ok] h same
    by (auto simp: sample_store_def stored_as_def d'_def split: option.splits)
  show "adm_ok d'"
    unfolding d'_def
    using adm_ok_add_hash [OF ok, of a si' k] id' assms(4,6) h by (auto simp: put_sample_def)
qed

lemma sample_exists_at:
  assumes "adm_ok d" "k < SAMPLE_MAX_SAMPLES"
  shows "sample_exists d k = Some (if k > 0 \<and> hash_of d k \<noteq> None then 1 else 0,
           if hash_of d k = None then d else memo_sample d k)"
proof (cases "hash_of d k")
  case None
  then show ?thesis using adm_ok_hash(1) [OF assms(1)] by (simp add: sample_exists_def sample_lookup_def)
next
  case (Some a)
  then obtain si where "ad_samples d a = Some si" "si_sample_id si = k"
    using adm_ok_hash_live [OF assms(1)] by blast
  then have "0 < k" using adm_ok_range [OF assms(1)] by blast
  with Some assms(2) have "find_sample d k \<noteq> None" by (auto simp: find_sample_def split: option.splits)
  with Some assms \<open>0 < k\<close> show ?thesis
    using adm_ok_hash(1) [OF assms(1)] by (simp add: sample_exists_def sample_lookup_def sample_get_find)
qed

lemma memo_idem [simp]: "memo_sample (memo_sample d k) k = memo_sample d k"
  by (simp add: memo_sample_def find_sample_def hash_of_def split: option.splits)

lemma find_hashed: "adm_ok d \<Longrightarrow> hash_of d k = Some a \<Longrightarrow> k < SAMPLE_MAX_SAMPLES \<Longrightarrow> find_sample d k = Some a \<and> 0 < k"
  using adm_ok_cache(2) [of d k] adm_ok_hash_live [of d k a] adm_ok_range [of d]
  by (fastforce simp: find_sample_def split: option.splits)

text \<open>A state with room for one more sample.\<close>

definition has_room :: "adm \<Rightarrow> bool" where
  "has_room d \<longleftrightarrow> this_sample_id d < SAMPLE_MAX_SAMPLES \<and> int (next_avail_num d) < SAMPLE_MAX_SAMPLES"

subsection \<open>A copied sample\<close>

text \<open>
  \<open>copied d org cpy d'\<close>: \<open>cpy\<close> is the record that \<open>sample_copy\<close> makes of \<open>org\<close> and \<open>d'\<close> the state in which it has
  its own edit list.
\<close>

definition own_list :: "adm \<Rightarrow> sample_info \<Rightarrow> bool" where
  "own_list d org \<longleftrightarrow>
     (case si_edit_list org of None \<Rightarrow> True
      | Some e \<Rightarrow> (\<exists>el el' n. ad_els d e = Some el \<and> vj_el_clone el = Some el' \<and>
                       vj_el_bogus_length (ad_lav d) el' 0 = Some n))"

lemma copy_cases:
  assumes "adm_ok d" "hash_of d k = Some b" "k < SAMPLE_MAX_SAMPLES" "ad_samples d b = Some org"
    "int (next_avail_num d) < SAMPLE_MAX_SAMPLES" "own_list d org"
  obtains sid a cpy d' where "sample_copy d k = Some (sid, d')" "adm_ok d'" "0 < sid" "sid \<le> max 1 (this_sample_id d)"
    "hash_of d sid = None" "sample_cache d sid = None" "hash_of d' = (hash_of d)(sid \<mapsto> a)"
    "sample_cache d' = sample_cache (memo_sample d k)" "ad_samples d' = (ad_samples d)(a \<mapsto> cpy)"
    "ad_samples d a = None"
    "cpy\<lparr>si_sample_id := k, si_edit_list := si_edit_list org, si_soft_edl := si_soft_edl org,
        si_play_length := si_play_length org\<rparr> = org"
    "si_sample_id cpy = sid" "si_edit_list org = None \<longrightarrow> si_edit_list cpy = None"
    "\<forall>e. si_edit_list org = Some e \<longrightarrow> (\<exists>e' el. si_edit_list cpy = Some e' \<and> ad_next d \<le> e' \<and> ad_els d e = Some el \<and>
        ad_els d' e' = vj_el_clone el)" "ad_ports d' = ad_ports d" "ad_strs d' = ad_strs d"
    "next_avail_num d' = next_avail_num d" "this_sample_id d' \<le> max 1 (this_sample_id d) + 1" "ad_fx d' = ad_fx d"
    "\<forall>e < ad_next d. ad_els d' e = ad_els d e"
proof -
  note fk = find_hashed [OF assms(1-3)]
  define a where "a = ad_next d"
  define d1 where "d1 = memo_sample d k"
  define d2 where "d2 = d1\<lparr>ad_next := Suc a\<rparr>"
  have ok2: "adm_ok d2"
    by (rule adm_ok_cong [OF adm_ok_memo [OF assms(1), of k]]) (simp_all add: d2_def d1_def a_def)
  obtain sid d3 where n: "new_id d2 = Some (sid, d3)"
    using new_id_defined [of d2] assms(5) by (auto simp: d2_def d1_def)
  note fresh = new_id_fresh [OF ok2 n]
  then obtain av t where d3: "d3 = d2\<lparr>avail_num := av, this_sample_id := t\<rparr>" by blast
  have t: "t \<le> max 1 (this_sample_id d) + 1"
    using new_id_counter [OF n] adm_ok_counters(1) [OF assms(1)] by (simp add: d3 d2_def d1_def)
  have fx: "ad_fx d3 = ad_fx d" by (simp add: d3 d2_def d1_def)
  have ex: "sample_exists d k = Some (1, d1)"
    using sample_exists_at [OF assms(1,3)] fk assms(2) by (simp add: d1_def)
  have get: "sample_get d1 k = Some (Some b, d1)"
    using sample_get_find [OF adm_ok_memo [OF assms(1)], of k k] assms(3) fk by (simp add: d1_def)
  have hs: "hash_of d sid = None" "sample_cache d sid = None"
  proof -
    show "hash_of d sid = None" using fresh by (simp add: d2_def d1_def)
    have "sample_cache d1 sid = None" using fresh by (simp add: d2_def)
    then show "sample_cache d sid = None"
      by (auto simp: d1_def memo_cache find_sample_def split: if_splits option.splits)
  qed
  have new: "ad_samples d a = None"
    using adm_ok_range [OF assms(1), of a] a_def by (cases "ad_samples d a") auto
  define clone where "clone = (case si_edit_list org of None \<Rightarrow> None | Some e \<Rightarrow> vj_el_clone (the (ad_els d e)))"
  define cpy where "cpy = (case si_edit_list org of None \<Rightarrow> org\<lparr>si_sample_id := sid\<rparr>
      | Some e \<Rightarrow> org\<lparr>si_sample_id := sid, si_edit_list := Some (Suc a), si_soft_edl := 1\<rparr>)"
  define d4 where "d4 = (case si_edit_list org of None \<Rightarrow> d3
      | Some e \<Rightarrow> d3\<lparr>ad_next := Suc (Suc a), ad_els := (ad_els d)(Suc a := clone)\<rparr>)"
  define d5 where "d5 = put_sample a cpy d4"
  have d4_simps: "ad_samples d4 = ad_samples d" "SampleHash d4 = SampleHash d3" "sample_cache d4 = sample_cache d1"
    "avail_num d4 = av" "this_sample_id d4 = t" "ad_lav d4 = ad_lav d" "ad_ports d4 = ad_ports d" "ad_strs d4 = ad_strs d"
    "next_avail_num d4 = next_avail_num d3" "initialized d4 = initialized d3" "hash_of d4 = hash_of d" "ad_next d3 \<le> ad_next d4" "ad_fx d4 = ad_fx d3"
    by (simp_all add: d4_def d3 d2_def d1_def split: option.splits)
  have id': "si_sample_id cpy = sid" by (simp add: cpy_def split: option.splits)
  have "adm_ok (d3\<lparr>ad_samples := (ad_samples d3)(a \<mapsto> cpy), ad_next := ad_next d4\<rparr>)"
  proof (rule adm_ok_add_record)
    show "a < ad_next d4" using d4_simps(12) by (simp add: d3 d2_def)
  qed (use fresh new id' d4_simps(12) in \<open>simp_all add: d3 d2_def d1_def\<close>)
  then have ok5: "adm_ok d5"
    by (rule adm_ok_cong) (simp_all add: d5_def put_sample_def d4_simps, simp_all add: d3 d2_def d1_def)
  have org: "si_sample_id org = k"
    using adm_ok_hash_live [OF assms(1,2)] assms(4) by auto
  obtain cpy' where cpy': "stored_as d5 cpy cpy'" "si_sample_id cpy' = sid" "si_edit_list cpy' = si_edit_list cpy"
    "cpy'\<lparr>si_sample_id := k, si_edit_list := si_edit_list org, si_soft_edl := si_soft_edl org,
        si_play_length := si_play_length org\<rparr> = org"
  proof (cases "si_edit_list org")
    case None
    show ?thesis by (rule that [of cpy]) (simp_all add: stored_as_def cpy_def None org [symmetric])
  next
    case (Some e)
    then obtain el el' m where "ad_els d e = Some el" "vj_el_clone el = Some el'" "vj_el_bogus_length (ad_lav d) el' 0 = Some m"
      using assms(6) by (auto simp: own_list_def)
    with Some show ?thesis
      by (intro that [of "cpy\<lparr>si_play_length := m\<rparr>"])
        (simp_all add: stored_as_def cpy_def d5_def put_sample_def d4_def clone_def d3 d2_def d1_def org [symmetric])
  qed
  let ?d6 = "(put_sample a cpy' d5)\<lparr>SampleHash := Hash_table ((hash_of d5)(sid \<mapsto> a))\<rparr>"
  have h5: "hash_of d5 = hash_of d" by (simp add: d5_def put_sample_def d4_simps)
  have c5: "sample_cache d5 sid = None" using fresh by (simp add: d5_def put_sample_def d4_simps d2_def)
  have st: "sample_store d5 (Some a) = Some (0, ?d6)" "adm_ok ?d6"
    using store_new [OF ok5 _ id' _ _ _ cpy'(1), of a] h5 c5 hs fresh
    by (simp_all add: d5_def put_sample_def d4_simps d3)
  have step: "(case si_edit_list org of
           None \<Rightarrow> Some (org\<lparr>si_sample_id := sid\<rparr>, d3)
         | Some e \<Rightarrow> do {
             el \<leftarrow> ad_els d3 e;
             el' \<leftarrow> vj_el_clone el;
             let (e', d) = ad_alloc d3;
             Some (org\<lparr>si_sample_id := sid, si_edit_list := Some e', si_soft_edl := 1\<rparr>, d\<lparr>ad_els := (ad_els d)(e' \<mapsto> el')\<rparr>)
           }) = Some (cpy, d4)"
    using assms(6)
    by (auto simp: cpy_def d4_def own_list_def clone_def ad_alloc_def d3 d2_def d1_def split: option.splits)
  have "ad_samples d1 b = Some org" "ad_alloc d1 = (a, d2)"
    using assms(4) by (simp_all add: d1_def ad_alloc_def d2_def a_def)
  then have copy: "sample_copy d k = Some (sid, ?d6)"
    using ex get n st(1) step by (simp add: sample_copy_def Let_def d5_def [symmetric])
  show ?thesis
  proof (rule that [OF copy st(2) _ _ hs, where a = a and cpy = cpy'])
    show "0 < sid" "sid \<le> max 1 (this_sample_id d)" using fresh by (simp_all add: d2_def d1_def)
    show "hash_of ?d6 = (hash_of d)(sid \<mapsto> a)" by (simp add: h5)
    show "\<forall>e. si_edit_list org = Some e \<longrightarrow> (\<exists>e' el. si_edit_list cpy' = Some e' \<and> ad_next d \<le> e' \<and> ad_els d e = Some el \<and>
        ad_els ?d6 e' = vj_el_clone el)"
      using assms(6) cpy'(3)
      by (auto simp: cpy_def own_list_def clone_def d5_def put_sample_def d4_def a_def)
    show "si_edit_list org = None \<longrightarrow> si_edit_list cpy' = None" using cpy'(3) by (simp add: cpy_def)
    show "\<forall>e < ad_next d. ad_els ?d6 e = ad_els d e"
      by (simp add: d5_def put_sample_def d4_def a_def d3 d2_def d1_def split: option.splits)
    show "next_avail_num ?d6 = next_avail_num d" by (simp add: d5_def put_sample_def d4_simps d3 d2_def d1_def)
  qed (use new cpy' t fx in \<open>simp_all add: d5_def put_sample_def d4_simps d1_def\<close>)
qed

subsection \<open>Example states\<close>

text \<open>The state of the module as the server starts, and one with a sample of two frames and its edit list.\<close>

definition fx_empty :: fx_table where
  "fx_empty = \<lparr>n_ext_plugs = 0, vj_effects = (\<lambda>_. None), vj_effect_ready = (\<lambda>_. 0)\<rparr>"

definition adm_start :: adm where
  "adm_start = sample_init None
     \<lparr>ad_samples = Map.empty, ad_els = Map.empty, ad_strs = Map.empty, ad_ports = {}, ad_lav = Map.empty, ad_next = 0,
      SampleHash = Hash_null, sample_cache = (\<lambda>_. None), avail_num = (\<lambda>_. 0), next_avail_num = 0,
      this_sample_id = 0, initialized = 0, sampleadm_state = SAMPLE_PEEK, plain_editlist = None,
      ad_elg = \<lparr>mem_chunk = 0, never_cache = 0, total_mem_used = 0\<rparr>, ad_tags = Map.empty, ad_fx = fx_empty,
      this_tag_id = 0, avail_tag = (\<lambda>_. 0), next_avail_tag = 0, last_added_tag = 0\<rparr>"

definition el_demo :: editlist where
  "el_demo = (vj_el_dummy 0 0 (CHR ''p'') 320 240 25 0)
     \<lparr>el_is_empty := 0, el_frame_list := Some [Some 0, Some 1], el_total_frames := 1\<rparr>"

definition sample_demo :: sample_info where
  "sample_demo = sample_zero\<lparr>si_sample_id := 1, si_last_frame := 1, si_speed := 1, si_edit_list := Some 1,
     si_effect_chain := replicate SAMPLE_MAX_EFFECTS (chain_skeleton 1)\<rparr>"

definition adm_demo :: adm where
  "adm_demo = adm_start\<lparr>ad_samples := [0 \<mapsto> sample_demo], ad_els := [1 \<mapsto> el_demo], ad_next := 2,
     SampleHash := Hash_table [1 \<mapsto> 0], this_sample_id := 2\<rparr>"

lemma adm_start_ok: "adm_ok adm_start" "has_room adm_start"
  by (simp_all add: adm_ok_def adm_start_def sample_init_def hash_of_def has_room_def SAMPLE_MAX_SAMPLES_def)

lemma adm_demo_ok: "adm_ok adm_demo" "has_room adm_demo"
  by (auto simp: adm_ok_def adm_demo_def adm_start_def sample_init_def hash_of_def has_room_def SAMPLE_MAX_SAMPLES_def
      sample_demo_def)

lemma adm_demo_find: "find_sample adm_demo k = (if k = 1 then Some 0 else None)"
  by (simp add: find_sample_def hash_of_def adm_demo_def adm_start_def sample_init_def SAMPLE_MAX_SAMPLES_def)

lemma adm_demo_sample: "sample_at adm_demo 1 = Some sample_demo" "hash_of adm_demo = [1 \<mapsto> 0]" "own_list adm_demo sample_demo"
  by (simp_all add: sample_at_def find_sample_def hash_of_def adm_demo_def adm_start_def sample_init_def SAMPLE_MAX_SAMPLES_def
      own_list_def sample_demo_def el_demo_def vj_el_dummy_def vj_el_clone_def vj_el_framelist_clone_def
      vj_el_soft_clone_def vj_el_bogus_length_def el_frames_def DUMMY_FRAMES_def Let_def)

subsection \<open>Properties\<close>



text \<open>
  A copied sample equals its original. The copy gets an identifier that was not in use; its record is that of
  the original but for the identifier, the edit list (a clone of the original's, at an address of its own) and the
  play length taken from the clone; the original and every other sample are left alone.
\<close>

theorem sample_copy_equal:
  assumes "adm_ok d" "has_room d" "hash_of d k \<noteq> None" "k < SAMPLE_MAX_SAMPLES" "sample_at d k = Some org"
    "own_list d org"
  shows "\<exists>sid d' cpy. sample_copy d k = Some (sid, d') \<and> adm_ok d' \<and> sample_at d sid = None \<and>
      sample_at d' sid = Some cpy \<and> sample_at d' k = Some org \<and>
      cpy\<lparr>si_sample_id := k, si_edit_list := si_edit_list org, si_soft_edl := si_soft_edl org,
          si_play_length := si_play_length org\<rparr> = org \<and>
      (\<forall>e. si_edit_list org = Some e \<longrightarrow> (\<exists>e' el. si_edit_list cpy = Some e' \<and> ad_next d \<le> e' \<and> ad_els d e = Some el \<and>
          ad_els d' e' = vj_el_clone el)) \<and>
      (\<forall>j. j \<noteq> sid \<longrightarrow> sample_at d' j = sample_at d j)"
proof -
  obtain b where b: "hash_of d k = Some b" using assms(3) by auto
  note fk = find_hashed [OF assms(1) b assms(4)]
  have org: "ad_samples d b = Some org" using assms(5) fk by (simp add: sample_at_def)
  have room: "int (next_avail_num d) < SAMPLE_MAX_SAMPLES" "this_sample_id d < SAMPLE_MAX_SAMPLES"
    using assms(2) by (simp_all add: has_room_def)
  obtain sid a cpy d' where c: "sample_copy d k = Some (sid, d')" "adm_ok d'" "0 < sid" "sid \<le> max 1 (this_sample_id d)"
    "hash_of d sid = None" "sample_cache d sid = None" "hash_of d' = (hash_of d)(sid \<mapsto> a)"
    "sample_cache d' = sample_cache (memo_sample d k)" "ad_samples d' = (ad_samples d)(a \<mapsto> cpy)"
    "ad_samples d a = None"
    "cpy\<lparr>si_sample_id := k, si_edit_list := si_edit_list org, si_soft_edl := si_soft_edl org,
        si_play_length := si_play_length org\<rparr> = org"
    "\<forall>e. si_edit_list org = Some e \<longrightarrow> (\<exists>e' el. si_edit_list cpy = Some e' \<and> ad_next d \<le> e' \<and> ad_els d e = Some el \<and>
        ad_els d' e' = vj_el_clone el)"
    by (rule copy_cases [OF assms(1) b assms(4) org room(1) assms(6)])
  have sid: "sid \<noteq> k" "sid < SAMPLE_MAX_SAMPLES" using c b room by (auto simp: SAMPLE_MAX_SAMPLES_def)
  have "sample_cache d' sid = None" using c(6,8) sid(1) by (simp add: memo_cache)
  then have new: "find_sample d' sid = Some a" using c(3,7) sid by (simp add: find_sample_def)
  have old: "sample_at d' j = sample_at d j" if "j \<noteq> sid" for j
  proof -
    have "find_sample d' j = find_sample (memo_sample d k) j"
      using that c(7,8) by (intro find_sample_eq) simp_all
    then have "find_sample d' j = find_sample d j" by simp
    moreover have "find_sample d j \<noteq> Some a" using find_sample_SomeD [OF assms(1)] c(10) by fastforce
    ultimately show ?thesis using c(9) by (auto simp: sample_at_def split: option.splits)
  qed
  have "sample_at d sid = None" using c(5,6) by (simp add: sample_at_def find_sample_def)
  moreover have "sample_at d' sid = Some cpy" using new c(9) by (simp add: sample_at_def)
  moreover have "sample_at d' k = Some org" using old [of k] sid assms(5) by simp
  ultimately show ?thesis using c old by blast
qed

theorem sample_copy_equal_witness:
  "\<exists>sid d' cpy. sample_copy adm_demo 1 = Some (sid, d') \<and> sid \<noteq> 1 \<and> sample_at d' sid = Some cpy \<and>
     sample_at d' 1 = Some sample_demo \<and> si_last_frame cpy = 1"
proof -
  obtain sid d' cpy where *: "sample_copy adm_demo 1 = Some (sid, d')" "sample_at adm_demo sid = None"
      "sample_at d' sid = Some cpy" "sample_at d' 1 = Some sample_demo"
      "cpy\<lparr>si_sample_id := 1, si_edit_list := si_edit_list sample_demo, si_soft_edl := si_soft_edl sample_demo,
          si_play_length := si_play_length sample_demo\<rparr> = sample_demo"
    using sample_copy_equal [OF adm_demo_ok, of 1 sample_demo] adm_demo_sample by (auto simp: SAMPLE_MAX_SAMPLES_def)
  have "si_last_frame cpy = si_last_frame sample_demo" by (subst *(5) [symmetric]) simp
  then show ?thesis using * adm_demo_sample(1) by (auto simp: sample_demo_def)
qed

end
