(* ===== verification/SampleParams.thy ===== *)
theory SampleParams
  imports SampleStore
begin

text \<open>
  Reading and setting the parameters of a sample (\<open>libsample/sampleadm.c\<close>): its range and markers, where to
  resume, speed, loops, frame duplication, volume, the fader, its edit list and the derived lengths.

  \<^item> Every function looks its sample up and returns a default when there is none (\<open>read_sample\<close>,
    \<open>write_sample\<close>, \<open>with_sample\<close>). Output parameters are part of the result.
  \<^item> \<open>long\<close> frame numbers become \<open>int\<close> by \<open>int32_of_long\<close> where the code converts them.
  \<^item> The fader is a \<open>float\<close>: \<open>fl\<close> and \<open>dbl\<close> round a result to single and double precision.
\<close>

subsection \<open>Range\<close>

definition sample_get_startFrame :: "adm \<Rightarrow> int \<Rightarrow> (int \<times> adm) option" where
  "sample_get_startFrame d s1 = read_sample d s1 (- 1) (\<lambda>si.
     if si_marker_start si \<ge> 0 \<or> si_marker_end si > 0 then si_marker_start si
     else int32_of_long (si_first_frame si))"

definition sample_get_endFrame :: "adm \<Rightarrow> int \<Rightarrow> (int \<times> adm) option" where
  "sample_get_endFrame d s1 = read_sample d s1 (- 1) (\<lambda>si.
     if si_marker_end si > 0 \<and> si_marker_start si \<ge> 0 then si_marker_end si
     else int32_of_long (si_last_frame si))"

definition sample_get_el_position :: "adm \<Rightarrow> int \<Rightarrow> ((int \<times> (int \<times> int) option) \<times> adm) option" where
  "sample_get_el_position d s1 = read_sample d s1 (- 1, None) (\<lambda>si.
     (1, Some (int32_of_long (si_first_frame si), int32_of_long (si_last_frame si))))"

text \<open>Start, end, loop type and speed.\<close>

definition sample_get_short_info :: "adm \<Rightarrow> int \<Rightarrow> ((int \<times> (int \<times> int \<times> int \<times> int) option) \<times> adm) option" where
  "sample_get_short_info d s1 = read_sample d s1 (- 1, None) (\<lambda>si.
     (0, Some (if si_marker_start si \<ge> 0 \<and> si_marker_end si > 0
               then (si_marker_start si, si_marker_end si, si_looptype si, si_speed si)
               else (int32_of_long (si_first_frame si), int32_of_long (si_last_frame si), si_looptype si, si_speed si))))"

definition sample_update_offset :: "adm \<Rightarrow> int \<Rightarrow> int \<Rightarrow> (int \<times> adm) option" where
  "sample_update_offset d s1 n_frame = write_sample d s1 (- 1) 1 (\<lambda>si.
     let off = int32_of_long (n_frame - si_first_frame si);
         len = int32_of_long (si_last_frame si - si_first_frame si);
         off = (if off < 0 then 0 else off)
     in si\<lparr>si_offset := (if off > len then len else off)\<rparr>)"

subsection \<open>Markers\<close>

definition sample_marker_clear :: "adm \<Rightarrow> int \<Rightarrow> (int \<times> adm) option" where
  "sample_marker_clear d s1 = write_sample d s1 (- 1) 1 (\<lambda>si. si\<lparr>si_marker_start := 0, si_marker_end := 0\<rparr>)"

definition sample_set_marker_start :: "adm \<Rightarrow> int \<Rightarrow> int \<Rightarrow> (int \<times> adm) option" where
  "sample_set_marker_start d s1 marker = write_sample d s1 (- 1) 1 (\<lambda>si.
     if si_speed si < 0
     then let swap = si_marker_end si in si\<lparr>si_marker_end := marker, si_marker_start := swap\<rparr>
     else si\<lparr>si_marker_start := marker\<rparr>)"

definition sample_set_marker_end :: "adm \<Rightarrow> int \<Rightarrow> int \<Rightarrow> (int \<times> adm) option" where
  "sample_set_marker_end d s1 marker = write_sample d s1 (- 1) 1 (\<lambda>si.
     if si_speed si < 0
     then let swap = si_marker_start si in si\<lparr>si_marker_start := marker, si_marker_end := swap\<rparr>
     else si\<lparr>si_marker_end := marker\<rparr>)"

definition sample_set_marker :: "adm \<Rightarrow> int \<Rightarrow> int \<Rightarrow> int \<Rightarrow> (int \<times> adm) option" where
  "sample_set_marker d s1 start stop = with_sample d s1 0 (\<lambda>d a si.
     if start < si_first_frame si \<or> start > si_last_frame si \<or> stop < si_first_frame si \<or> stop > si_last_frame si
     then Some (0, d)
     else Some (1, put_sample a (si\<lparr>si_marker_start := start, si_marker_end := stop\<rparr>) d))"

subsection \<open>Description\<close>

definition sample_set_description :: "adm \<Rightarrow> int \<Rightarrow> string option \<Rightarrow> (int \<times> adm) option" where
  "sample_set_description d s1 description = write_sample d s1 (- 1) 1 (\<lambda>si. si\<lparr>si_descr :=
     take (SAMPLE_MAX_DESCR_LEN - 1)
       (case description of
          None \<Rightarrow> ''Sample'' @ show_pad 4 (si_sample_id si)
        | Some t \<Rightarrow> if t = [] then ''Sample'' @ show_pad 4 (si_sample_id si) else t)\<rparr>)"

definition sample_get_description :: "adm \<Rightarrow> int \<Rightarrow> ((int \<times> string option) \<times> adm) option" where
  "sample_get_description d s1 = read_sample d s1 (- 1, None) (\<lambda>si.
     (0, Some (take (SAMPLE_MAX_DESCR_LEN - 1) (si_descr si))))"

subsection \<open>The fader\<close>

text \<open>Activating the fader or moving it by hand switches the effect chain on.\<close>

definition fader_toggle :: "sample_info \<Rightarrow> sample_info" where
  "fader_toggle si = (if si_effect_toggle si = 0 then si\<lparr>si_effect_toggle := 1\<rparr> else si)"

definition sample_set_manual_fader :: "(rat \<Rightarrow> rat) \<Rightarrow> adm \<Rightarrow> int \<Rightarrow> int \<Rightarrow> (int \<times> adm) option" where
  "sample_set_manual_fader fl d s1 value = write_sample d s1 (- 1) 1 (\<lambda>si. fader_toggle
     (si\<lparr>si_fader_active := 2, si_fader_val := fl (of_int value), si_fader_inc := 0, si_fader_direction := 0\<rparr>))"

definition sample_set_fader_active ::
  "(rat \<Rightarrow> rat) \<Rightarrow> (rat \<Rightarrow> rat) \<Rightarrow> adm \<Rightarrow> int \<Rightarrow> int \<Rightarrow> int \<Rightarrow> (int \<times> adm) option" where
  "sample_set_fader_active fl dbl d s1 nframes direction = with_sample d s1 (- 1) (\<lambda>d a si.
     if nframes \<le> 0 then Some (- 1, d)
     else let inc = fl (dbl (255 / fl (of_int nframes)))
          in Some (1, put_sample a (fader_toggle
               (si\<lparr>si_fader_active := 1, si_fader_val := (if direction < 0 then 255 else 0),
                   si_fader_direction := direction, si_fader_inc := fl (inc * fl (of_int direction))\<rparr>)) d))"

definition sample_reset_fader :: "adm \<Rightarrow> int \<Rightarrow> (int \<times> adm) option" where
  "sample_reset_fader d s1 = write_sample d s1 (- 1) 1 (\<lambda>si.
     si\<lparr>si_fader_active := 0, si_fader_val := 0, si_fader_inc := 0\<rparr>)"

definition sample_get_fader_active :: "adm \<Rightarrow> int \<Rightarrow> (int \<times> adm) option" where
  "sample_get_fader_active d s1 = read_sample d s1 (- 1) si_fader_active"

definition sample_get_fader_val :: "adm \<Rightarrow> int \<Rightarrow> (rat \<times> adm) option" where
  "sample_get_fader_val d s1 = read_sample d s1 (- 1) si_fader_val"

definition sample_get_fader_inc :: "adm \<Rightarrow> int \<Rightarrow> (rat \<times> adm) option" where
  "sample_get_fader_inc d s1 = read_sample d s1 (- 1) si_fader_inc"

definition sample_get_fader_direction :: "adm \<Rightarrow> int \<Rightarrow> (int \<times> adm) option" where
  "sample_get_fader_direction d s1 = read_sample d s1 (- 1) si_fader_direction"

definition sample_set_fader_val :: "adm \<Rightarrow> int \<Rightarrow> rat \<Rightarrow> (int \<times> adm) option" where
  "sample_set_fader_val d s1 v = write_sample d s1 (- 1) 1 (\<lambda>si. si\<lparr>si_fader_val := v\<rparr>)"

definition sample_set_fader_inc :: "adm \<Rightarrow> int \<Rightarrow> rat \<Rightarrow> (int \<times> adm) option" where
  "sample_set_fader_inc d s1 inc = write_sample d s1 (- 1) 1 (\<lambda>si. si\<lparr>si_fader_inc := inc\<rparr>)"

definition sample_apply_fader_inc :: "(rat \<Rightarrow> rat) \<Rightarrow> (rat \<Rightarrow> rat) \<Rightarrow> adm \<Rightarrow> int \<Rightarrow> (int \<times> adm) option" where
  "sample_apply_fader_inc fl dbl d s1 = with_sample d s1 (- 1) (\<lambda>d a si.
     let v = fl (si_fader_val si + si_fader_inc si);
         v = (if v > 255 then 255 else v);
         v = (if v < 0 then 0 else v)
     in Some (c_trunc (dbl (v + 1 / 2)), put_sample a (si\<lparr>si_fader_val := v\<rparr>) d))"

subsection \<open>Resuming\<close>

definition sample_set_resume :: "adm \<Rightarrow> int \<Rightarrow> int \<Rightarrow> (int \<times> adm) option" where
  "sample_set_resume d s1 position = write_sample d s1 (- 1) 1 (\<lambda>si. si\<lparr>si_resume_pos := position\<rparr>)"

text \<open>The stored position is brought into the range, and into the markers when they are set, before it is returned.\<close>

definition sample_get_resume :: "adm \<Rightarrow> int \<Rightarrow> (int \<times> adm) option" where
  "sample_get_resume d s1 = with_sample d s1 (- 1) (\<lambda>d a si.
     let p = si_resume_pos si;
         p = (if p < si_first_frame si then si_first_frame si
              else if p > si_last_frame si then si_last_frame si else p);
         p = (if si_marker_start si \<ge> 0 \<and> si_marker_end si > 0
              then (if p < si_marker_start si then si_marker_start si
                    else if p > si_marker_end si then si_marker_end si else p)
              else p)
     in Some (p, put_sample a (si\<lparr>si_resume_pos := p\<rparr>) d))"

subsection \<open>Speed, loops and frame duplication\<close>

definition sample_get_speed :: "adm \<Rightarrow> int \<Rightarrow> (int \<times> adm) option" where
  "sample_get_speed d s1 = read_sample d s1 0 si_speed"

text \<open>The speed is bounded by \<open>MAX_SPEED\<close> and by the number of frames of the sample.\<close>

definition sample_set_speed :: "adm \<Rightarrow> int \<Rightarrow> int \<Rightarrow> (int \<times> adm) option" where
  "sample_set_speed d s1 speed = with_sample d s1 (- 1) (\<lambda>d a si.
     let len = int32_of_long (si_last_frame si - si_first_frame si)
     in if speed < - MAX_SPEED \<or> speed > MAX_SPEED then Some (- 1, d)
        else if speed > len then Some (- 1, d)
        else if speed < - len then Some (- 1, d)
        else Some (1, put_sample a (si\<lparr>si_speed := speed\<rparr>) d))"

definition sample_get_framedup :: "adm \<Rightarrow> int \<Rightarrow> (int \<times> adm) option" where
  "sample_get_framedup d s1 = read_sample d s1 0 si_dup"

definition sample_get_framedups :: "adm \<Rightarrow> int \<Rightarrow> (int \<times> adm) option" where
  "sample_get_framedups d s1 = read_sample d s1 0 si_dups"

definition sample_set_framedup :: "adm \<Rightarrow> int \<Rightarrow> int \<Rightarrow> (int \<times> adm) option" where
  "sample_set_framedup d s1 n = write_sample d s1 (- 1) 1 (\<lambda>si. si\<lparr>si_dup := n\<rparr>)"

definition sample_set_framedups :: "adm \<Rightarrow> int \<Rightarrow> int \<Rightarrow> (int \<times> adm) option" where
  "sample_set_framedups d s1 n = write_sample d s1 (- 1) 1 (\<lambda>si. si\<lparr>si_dups := n\<rparr>)"

definition sample_get_loops :: "adm \<Rightarrow> int \<Rightarrow> (int \<times> adm) option" where
  "sample_get_loops d s1 = read_sample d s1 (- 1) si_max_loops"

definition sample_get_loops2 :: "adm \<Rightarrow> int \<Rightarrow> (int \<times> adm) option" where
  "sample_get_loops2 d s1 = read_sample d s1 (- 1) si_max_loops2"

definition sample_set_loops :: "adm \<Rightarrow> int \<Rightarrow> int \<Rightarrow> (int \<times> adm) option" where
  "sample_set_loops d s1 nr = write_sample d s1 (- 1) 1 (\<lambda>si. si\<lparr>si_max_loops := nr\<rparr>)"

definition sample_set_loops2 :: "adm \<Rightarrow> int \<Rightarrow> int \<Rightarrow> (int \<times> adm) option" where
  "sample_set_loops2 d s1 nr = write_sample d s1 (- 1) 1 (\<lambda>si. si\<lparr>si_max_loops2 := nr\<rparr>)"

definition sample_get_looptype :: "adm \<Rightarrow> int \<Rightarrow> (int \<times> adm) option" where
  "sample_get_looptype d s1 = read_sample d s1 0 si_looptype"

definition sample_set_looptype :: "adm \<Rightarrow> int \<Rightarrow> int \<Rightarrow> (int \<times> adm) option" where
  "sample_set_looptype d s1 looptype = with_sample d s1 (- 1) (\<lambda>d a si.
     if looptype = 3 \<or> looptype = 0 \<or> looptype = 1 \<or> looptype = 2
     then Some (1, put_sample a (si\<lparr>si_looptype := looptype\<rparr>) d) else Some (0, d))"

definition sample_loopcount :: "adm \<Rightarrow> int \<Rightarrow> (unit \<times> adm) option" where
  "sample_loopcount d s1 = write_sample d s1 () () (\<lambda>si.
     si\<lparr>si_loopcount := (if si_loopcount si + 1 > 1000000 then 0 else si_loopcount si + 1)\<rparr>)"

definition sample_get_loopcount :: "adm \<Rightarrow> int \<Rightarrow> (int \<times> adm) option" where
  "sample_get_loopcount d s1 = read_sample d s1 0 si_loopcount"

definition sample_reset_loopcount :: "adm \<Rightarrow> int \<Rightarrow> (unit \<times> adm) option" where
  "sample_reset_loopcount d s1 = write_sample d s1 () () (\<lambda>si. si\<lparr>si_loopcount := 0\<rparr>)"

definition sample_get_loop_dec :: "adm \<Rightarrow> int \<Rightarrow> (int \<times> adm) option" where
  "sample_get_loop_dec d s1 = read_sample d s1 (- 1) si_loop_dec"

definition sample_set_loop_dec :: "adm \<Rightarrow> int \<Rightarrow> int \<Rightarrow> (int \<times> adm) option" where
  "sample_set_loop_dec d s1 active = write_sample d s1 (- 1) 1 (\<lambda>si. si\<lparr>si_loop_dec := active\<rparr>)"

definition sample_apply_loop_dec :: "adm \<Rightarrow> int \<Rightarrow> (int \<times> adm) option" where
  "sample_apply_loop_dec d s1 = write_sample d s1 (- 1) 1 (\<lambda>si. si\<lparr>si_loop_dec := si_loop_dec si + 1\<rparr>)"

definition sample_get_playmode :: "adm \<Rightarrow> int \<Rightarrow> (int \<times> adm) option" where
  "sample_get_playmode d s1 = read_sample d s1 (- 1) si_playmode"

definition sample_set_playmode :: "adm \<Rightarrow> int \<Rightarrow> int \<Rightarrow> (int \<times> adm) option" where
  "sample_set_playmode d s1 playmode = write_sample d s1 (- 1) 1 (\<lambda>si. si\<lparr>si_playmode := playmode\<rparr>)"

definition sample_get_next :: "adm \<Rightarrow> int \<Rightarrow> (int \<times> adm) option" where
  "sample_get_next d s1 = read_sample d s1 (- 1) si_next_sample_id"

definition sample_set_next :: "adm \<Rightarrow> int \<Rightarrow> int \<Rightarrow> (int \<times> adm) option" where
  "sample_set_next d s1 next_id = write_sample d s1 (- 1) 1 (\<lambda>si. si\<lparr>si_next_sample_id := next_id\<rparr>)"

subsection \<open>Other switches\<close>

definition sample_get_depth :: "adm \<Rightarrow> int \<Rightarrow> (int \<times> adm) option" where
  "sample_get_depth d s1 = read_sample d s1 0 si_depth"

definition sample_set_depth :: "adm \<Rightarrow> int \<Rightarrow> int \<Rightarrow> (int \<times> adm) option" where
  "sample_set_depth d s1 n =
     (if n = 0 \<or> n = 1 then write_sample d s1 (- 1) 1 (\<lambda>si. if si_depth si = n then si else si\<lparr>si_depth := n\<rparr>)
      else Some (- 1, d))"

definition sample_get_subrender :: "adm \<Rightarrow> int \<Rightarrow> (int \<times> adm) option" where
  "sample_get_subrender d s1 = read_sample d s1 0 si_subrender"

definition sample_set_subrender :: "adm \<Rightarrow> int \<Rightarrow> int \<Rightarrow> (unit \<times> adm) option" where
  "sample_set_subrender d s1 status = write_sample d s1 () () (\<lambda>si. si\<lparr>si_subrender := status\<rparr>)"

definition sample_get_sub_audio :: "adm \<Rightarrow> int \<Rightarrow> (int \<times> adm) option" where
  "sample_get_sub_audio d s1 = read_sample d s1 (- 1) si_sub_audio"

text \<open>The test for a value outside 0 and 1 asks for both at once.\<close>

definition sample_set_sub_audio :: "adm \<Rightarrow> int \<Rightarrow> int \<Rightarrow> (int \<times> adm) option" where
  "sample_set_sub_audio d s1 audio = with_sample d s1 (- 1) (\<lambda>d a si.
     if audio < 0 \<and> audio > 1 then Some (- 1, d) else Some (1, put_sample a (si\<lparr>si_sub_audio := audio\<rparr>) d))"

definition sample_get_audio_volume :: "adm \<Rightarrow> int \<Rightarrow> (int \<times> adm) option" where
  "sample_get_audio_volume d s1 = read_sample d s1 (- 1) si_audio_volume"

text \<open>The pointer is not tested.\<close>

definition sample_set_audio_volume :: "adm \<Rightarrow> int \<Rightarrow> int \<Rightarrow> (int \<times> adm) option" where
  "sample_set_audio_volume d s1 volume = do {
     (p, d) \<leftarrow> sample_get d s1;
     let volume = (if volume < 0 then 0 else volume);
     let volume = (if volume > 100 then 100 else volume);
     case p of
       None \<Rightarrow> null_deref
     | Some a \<Rightarrow> do { si \<leftarrow> ad_samples d a; Some (1, put_sample a (si\<lparr>si_audio_volume := volume\<rparr>) d) }
   }"

definition sample_get_effect_status :: "adm \<Rightarrow> int \<Rightarrow> (int \<times> adm) option" where
  "sample_get_effect_status d s1 = read_sample d s1 0 si_effect_toggle"

definition sample_set_effect_status :: "adm \<Rightarrow> int \<Rightarrow> int \<Rightarrow> (int \<times> adm) option" where
  "sample_set_effect_status d s1 status = with_sample d s1 (- 1) (\<lambda>d a si.
     if status = 1 \<or> status = 0 then Some (1, put_sample a (si\<lparr>si_effect_toggle := status\<rparr>) d) else Some (- 1, d))"

definition sample_get_selected_entry :: "adm \<Rightarrow> int \<Rightarrow> (int \<times> adm) option" where
  "sample_get_selected_entry d s1 = read_sample d s1 (- 1) si_selected_entry"

definition sample_set_selected_entry :: "adm \<Rightarrow> int \<Rightarrow> int \<Rightarrow> (int \<times> adm) option" where
  "sample_set_selected_entry d s1 position = with_sample d s1 (- 1) (\<lambda>d a si.
     if position < 0 \<or> position \<ge> int SAMPLE_MAX_EFFECTS then Some (- 1, d)
     else Some (1, put_sample a (si\<lparr>si_selected_entry := position\<rparr>) d))"

text \<open>The type, fader, effect, recorder and activity flags; the result is 0 and nothing is written without a sample.\<close>

definition sample_var :: "adm \<Rightarrow> int \<Rightarrow> ((int \<times> (int \<times> int \<times> int \<times> int \<times> int) option) \<times> adm) option" where
  "sample_var d s1 = read_sample d s1 (0, None) (\<lambda>si.
     (1, Some (0, si_fader_active si, si_effect_toggle si, si_encoder_active si, 1)))"

definition sample_get_composite :: "adm \<Rightarrow> int \<Rightarrow> (int \<times> adm) option" where
  "sample_get_composite d s1 = read_sample d s1 0 si_composite"

definition sample_get_composite_view :: "adm \<Rightarrow> int \<Rightarrow> (addr option \<times> adm) option" where
  "sample_get_composite_view d s1 = read_sample d s1 None si_viewport"

definition sample_set_composite_view :: "adm \<Rightarrow> int \<Rightarrow> addr option \<Rightarrow> (int \<times> adm) option" where
  "sample_set_composite_view d s1 vp = write_sample d s1 (- 1) 1 (\<lambda>si. si\<lparr>si_viewport := vp\<rparr>)"

subsection \<open>Edit list and lengths\<close>

definition sample_get_editlist :: "adm \<Rightarrow> int \<Rightarrow> (addr option \<times> adm) option" where
  "sample_get_editlist d s1 = read_sample d s1 None si_edit_list"

definition sample_set_editlist :: "adm \<Rightarrow> int \<Rightarrow> addr option \<Rightarrow> (int \<times> adm) option" where
  "sample_set_editlist d s1 edl = with_sample d s1 (- 1) (\<lambda>d a si.
     if si_edit_list si \<noteq> None then Some (0, d)
     else Some (1, put_sample a (si\<lparr>si_edit_list := edl, si_soft_edl := 1\<rparr>) d))"

definition edit_list_of :: "adm \<Rightarrow> sample_info \<Rightarrow> editlist option option" where
  "edit_list_of d si =
     (case si_edit_list si of None \<Rightarrow> Some None
      | Some e \<Rightarrow> (case ad_els d e of None \<Rightarrow> dangling | Some el \<Rightarrow> Some (Some el)))"

text \<open>The bound compares a \<open>long\<close> with the unsigned \<open>total_frames\<close>.\<close>

definition clamp_total :: "editlist option \<Rightarrow> int \<Rightarrow> int" where
  "clamp_total eo frame_num =
     (case eo of
        None \<Rightarrow> frame_num
      | Some el \<Rightarrow> if (word_of_int frame_num :: u64) > el_total_frames el then sint (el_total_frames el) else frame_num)"

definition sample_set_startframe :: "adm \<Rightarrow> int \<Rightarrow> int \<Rightarrow> (int \<times> adm) option" where
  "sample_set_startframe d s1 frame_num = with_sample d s1 0 (\<lambda>d a si.
     if frame_num < 0 then Some (0, d)
     else if si_play_length si \<noteq> 0 then Some (1, d)
     else do {
       eo \<leftarrow> edit_list_of d si;
       let frame_num = clamp_total eo frame_num;
       let first = (if frame_num \<ge> si_last_frame si then si_last_frame si - 1 else frame_num);
       let pos = (if si_resume_pos si < frame_num then frame_num else si_resume_pos si);
       Some (1, put_sample a (si\<lparr>si_first_frame := first, si_resume_pos := pos\<rparr>) d)
     })"

definition sample_set_endframe :: "adm \<Rightarrow> int \<Rightarrow> int \<Rightarrow> (int \<times> adm) option" where
  "sample_set_endframe d s1 frame_num = with_sample d s1 0 (\<lambda>d a si.
     if frame_num < 0 then Some (0, d)
     else if si_play_length si \<noteq> 0
     then let new_len = int32_of_long (frame_num - si_first_frame si);
              new_len = (if new_len \<le> 1 then 1 else new_len);
              si = si\<lparr>si_last_frame := si_first_frame si + new_len,
                      si_resume_pos := (if si_resume_pos si > frame_num then frame_num else si_resume_pos si)\<rparr>
          in (case si_edit_list si of
                None \<Rightarrow> null_deref
              | Some e \<Rightarrow> do {
                  el \<leftarrow> ad_els d e;
                  (r, lav) \<leftarrow> vj_el_set_bogus_length (ad_lav d) el 0 new_len;
                  let d = d\<lparr>ad_lav := lav\<rparr>;
                  if r \<noteq> 0 then Some (1, put_sample a (si\<lparr>si_play_length := new_len\<rparr>) d)
                  else Some (0, put_sample a si d)
                })
     else do {
       eo \<leftarrow> edit_list_of d si;
       let frame_num = clamp_total eo frame_num;
       Some (1, put_sample a (si\<lparr>si_last_frame := frame_num,
                   si_resume_pos := (if si_resume_pos si > frame_num then frame_num else si_resume_pos si)\<rparr>) d)
     })"

definition sample_usable_edl :: "adm \<Rightarrow> int \<Rightarrow> (int \<times> adm) option" where
  "sample_usable_edl d s1 = read_sample d s1 0 (\<lambda>si.
     if si_play_length si \<noteq> 0 then 0 else if si_edit_list si \<noteq> None then 1 else 0)"

definition sample_video_length :: "adm \<Rightarrow> int \<Rightarrow> (int \<times> adm) option" where
  "sample_video_length d s1 = with_sample d s1 0 (\<lambda>d a si.
     if si_play_length si \<noteq> 0 then Some (si_play_length si, d)
     else do {
       eo \<leftarrow> edit_list_of d si;
       Some (case eo of None \<Rightarrow> 0 | Some el \<Rightarrow> int32_of_long (uint (el_total_frames el)), d)
     })"

definition sample_max_video_length :: "(rat \<Rightarrow> rat) \<Rightarrow> adm \<Rightarrow> int \<Rightarrow> (int \<times> adm) option" where
  "sample_max_video_length fl d s1 = with_sample d s1 0 (\<lambda>d a si. do {
     eo \<leftarrow> edit_list_of d si;
     let fps = (case eo of None \<Rightarrow> 25 | Some el \<Rightarrow> el_video_fps el);
     if si_play_length si \<noteq> 0 then Some (c_trunc (fl (fl (60 * fps) * 6)), d)
     else Some (case eo of None \<Rightarrow> 0 | Some el \<Rightarrow> int32_of_long (uint (el_total_frames el)), d)
   })"

subsection \<open>Operations as changes of one record\<close>

lemma put_same_sample:
  assumes "find_sample d k = Some a" "sample_at d k = Some si"
  shows "put_sample a si (memo_sample d k) = memo_sample d k"
  using assms by (simp add: put_sample_def sample_at_def fun_upd_idem)

text \<open>An operation that returns \<open>r\<close> and replaces the record by \<open>f\<close> of it changes the table by \<open>modify_sample\<close>.\<close>

lemma with_sample_modify:
  assumes "adm_ok d" "k \<noteq> SAMPLE_MAX_SAMPLES"
    "\<And>a si. find_sample d k = Some a \<Longrightarrow> sample_at d k = Some si \<Longrightarrow>
       K (memo_sample d k) a si = Some (r si, put_sample a (f si) (memo_sample d k))"
  shows "with_sample d k dflt K =
     Some (case sample_at d k of None \<Rightarrow> dflt | Some si \<Rightarrow> r si, modify_sample d k f)"
proof (cases "find_sample d k")
  case None
  then show ?thesis
    by (simp add: with_sample_find [OF assms(1,2)] sample_at_def modify_sample_def)
next
  case (Some a)
  then obtain si where si: "ad_samples d a = Some si" using find_sample_live [OF assms(1)] by metis
  then have "sample_at d k = Some si" using Some by (simp add: sample_at_def)
  with Some si assms(3) [of a si] show ?thesis
    by (simp add: with_sample_find [OF assms(1,2)] modify_sample_def put_sample_def)
qed

text \<open>The setters as commands, each with the function it stands for and what it does to a record.\<close>

datatype sample_cmd =
    Set_marker int int | Set_marker_start int | Set_marker_end int | Marker_clear | Set_description "string option"
  | Set_speed int | Set_framedup int | Set_framedups int | Set_loops int | Set_loops2 int | Set_looptype int
  | Set_loop_dec int | Apply_loop_dec | Set_playmode int | Set_next int | Set_depth int | Set_sub_audio int
  | Set_effect_status int | Set_selected_entry int | Set_resume int | Get_resume | Update_offset int

definition exec_cmd :: "sample_cmd \<Rightarrow> int \<Rightarrow> adm \<Rightarrow> (int \<times> adm) option" where
  "exec_cmd c s1 d =
     (case c of
        Set_marker a b \<Rightarrow> sample_set_marker d s1 a b
      | Set_marker_start m \<Rightarrow> sample_set_marker_start d s1 m
      | Set_marker_end m \<Rightarrow> sample_set_marker_end d s1 m
      | Marker_clear \<Rightarrow> sample_marker_clear d s1
      | Set_description t \<Rightarrow> sample_set_description d s1 t
      | Set_speed v \<Rightarrow> sample_set_speed d s1 v
      | Set_framedup n \<Rightarrow> sample_set_framedup d s1 n
      | Set_framedups n \<Rightarrow> sample_set_framedups d s1 n
      | Set_loops n \<Rightarrow> sample_set_loops d s1 n
      | Set_loops2 n \<Rightarrow> sample_set_loops2 d s1 n
      | Set_looptype n \<Rightarrow> sample_set_looptype d s1 n
      | Set_loop_dec n \<Rightarrow> sample_set_loop_dec d s1 n
      | Apply_loop_dec \<Rightarrow> sample_apply_loop_dec d s1
      | Set_playmode n \<Rightarrow> sample_set_playmode d s1 n
      | Set_next n \<Rightarrow> sample_set_next d s1 n
      | Set_depth n \<Rightarrow> sample_set_depth d s1 n
      | Set_sub_audio n \<Rightarrow> sample_set_sub_audio d s1 n
      | Set_effect_status n \<Rightarrow> sample_set_effect_status d s1 n
      | Set_selected_entry n \<Rightarrow> sample_set_selected_entry d s1 n
      | Set_resume n \<Rightarrow> sample_set_resume d s1 n
      | Get_resume \<Rightarrow> sample_get_resume d s1
      | Update_offset n \<Rightarrow> sample_update_offset d s1 n)"

definition resume_clamp :: "sample_info \<Rightarrow> int" where
  "resume_clamp si =
     (let p = si_resume_pos si;
          p = (if p < si_first_frame si then si_first_frame si else if p > si_last_frame si then si_last_frame si else p)
      in if si_marker_start si \<ge> 0 \<and> si_marker_end si > 0
         then (if p < si_marker_start si then si_marker_start si
               else if p > si_marker_end si then si_marker_end si else p)
         else p)"

text \<open>
  The specification: the answer and the new record, in terms of the record alone. \<open>frames\<close> is the number of
  frames of the sample, \<open>in_range\<close> says that a frame lies in its range.
\<close>

definition frames :: "sample_info \<Rightarrow> int" where
  "frames si = int32_of_long (si_last_frame si - si_first_frame si)"

definition in_range :: "sample_info \<Rightarrow> int \<Rightarrow> bool" where
  "in_range si n \<longleftrightarrow> si_first_frame si \<le> n \<and> n \<le> si_last_frame si"

definition accept :: "bool \<Rightarrow> int \<Rightarrow> sample_info \<Rightarrow> sample_info \<Rightarrow> int \<times> sample_info" where
  "accept c err old new = (if c then (1, new) else (err, old))"

definition spec_cmd :: "sample_cmd \<Rightarrow> sample_info \<Rightarrow> int \<times> sample_info" where
  "spec_cmd c si =
     (case c of
        Set_marker a b \<Rightarrow> accept (in_range si a \<and> in_range si b) 0 si (si\<lparr>si_marker_start := a, si_marker_end := b\<rparr>)
      | Set_marker_start m \<Rightarrow>
          (1, if si_speed si < 0 then si\<lparr>si_marker_end := m, si_marker_start := si_marker_end si\<rparr>
              else si\<lparr>si_marker_start := m\<rparr>)
      | Set_marker_end m \<Rightarrow>
          (1, if si_speed si < 0 then si\<lparr>si_marker_start := m, si_marker_end := si_marker_start si\<rparr>
              else si\<lparr>si_marker_end := m\<rparr>)
      | Marker_clear \<Rightarrow> (1, si\<lparr>si_marker_start := 0, si_marker_end := 0\<rparr>)
      | Set_description t \<Rightarrow>
          (1, si\<lparr>si_descr := take 23 (if t = None \<or> t = Some [] then ''Sample'' @ show_pad 4 (si_sample_id si) else the t)\<rparr>)
      | Set_speed v \<Rightarrow> accept (\<bar>v\<bar> \<le> MAX_SPEED \<and> \<bar>v\<bar> \<le> frames si) (- 1) si (si\<lparr>si_speed := v\<rparr>)
      | Set_framedup n \<Rightarrow> (1, si\<lparr>si_dup := n\<rparr>)
      | Set_framedups n \<Rightarrow> (1, si\<lparr>si_dups := n\<rparr>)
      | Set_loops n \<Rightarrow> (1, si\<lparr>si_max_loops := n\<rparr>)
      | Set_loops2 n \<Rightarrow> (1, si\<lparr>si_max_loops2 := n\<rparr>)
      | Set_looptype n \<Rightarrow> accept (n \<in> {0..3}) 0 si (si\<lparr>si_looptype := n\<rparr>)
      | Set_loop_dec n \<Rightarrow> (1, si\<lparr>si_loop_dec := n\<rparr>)
      | Apply_loop_dec \<Rightarrow> (1, si\<lparr>si_loop_dec := si_loop_dec si + 1\<rparr>)
      | Set_playmode n \<Rightarrow> (1, si\<lparr>si_playmode := n\<rparr>)
      | Set_next n \<Rightarrow> (1, si\<lparr>si_next_sample_id := n\<rparr>)
      | Set_depth n \<Rightarrow> accept (n \<in> {0, 1}) (- 1) si (si\<lparr>si_depth := n\<rparr>)
      | Set_sub_audio n \<Rightarrow> (1, si\<lparr>si_sub_audio := n\<rparr>)
      | Set_effect_status n \<Rightarrow> accept (n \<in> {0, 1}) (- 1) si (si\<lparr>si_effect_toggle := n\<rparr>)
      | Set_selected_entry n \<Rightarrow> accept (0 \<le> n \<and> n < 20) (- 1) si (si\<lparr>si_selected_entry := n\<rparr>)
      | Set_resume n \<Rightarrow> (1, si\<lparr>si_resume_pos := n\<rparr>)
      | Get_resume \<Rightarrow> (resume_clamp si, si\<lparr>si_resume_pos := resume_clamp si\<rparr>)
      | Update_offset n \<Rightarrow>
          (1, si\<lparr>si_offset := min (max 0 (int32_of_long (n - si_first_frame si))) (frames si)\<rparr>))"

definition no_sample_answer :: "sample_cmd \<Rightarrow> int" where
  "no_sample_answer c = (case c of Set_marker a b \<Rightarrow> 0 | _ \<Rightarrow> - 1)"

lemma spec_cmd_id: "si_sample_id (snd (spec_cmd c si)) = si_sample_id si"
  by (cases c) (simp_all add: spec_cmd_def accept_def)

lemmas setter_defs = sample_set_marker_def sample_set_marker_start_def sample_set_marker_end_def
  sample_marker_clear_def sample_set_description_def sample_set_speed_def sample_set_framedup_def
  sample_set_framedups_def sample_set_loops_def sample_set_loops2_def sample_set_looptype_def
  sample_set_loop_dec_def sample_apply_loop_dec_def sample_set_playmode_def sample_set_next_def
  sample_set_depth_def sample_set_sub_audio_def sample_set_effect_status_def sample_set_selected_entry_def
  sample_set_resume_def sample_get_resume_def sample_update_offset_def write_sample_def

lemmas spec_defs = spec_cmd_def accept_def no_sample_answer_def frames_def in_range_def resume_clamp_def Let_def
  SAMPLE_MAX_DESCR_LEN_def SAMPLE_MAX_EFFECTS_def

lemma modify_caseI:
  assumes "exec_cmd c k d = with_sample d k dflt K"
    "\<And>d a si. put_sample a si d = d \<Longrightarrow>
       K d a si = Some (fst (spec_cmd c si), put_sample a (snd (spec_cmd c si)) d)"
    "no_sample_answer c = dflt" "adm_ok d" "k \<noteq> SAMPLE_MAX_SAMPLES"
  shows "exec_cmd c k d = Some (case sample_at d k of None \<Rightarrow> no_sample_answer c | Some si \<Rightarrow> fst (spec_cmd c si),
           modify_sample d k (\<lambda>si. snd (spec_cmd c si)))"
  unfolding assms(1,3)
  by (rule with_sample_modify [OF assms(4,5)]) (use assms(2) put_same_sample in blast)

lemma depth_same: "si_depth si = n \<Longrightarrow> si\<lparr>si_depth := n\<rparr> = si"
  by (cases si) simp

lemma exec_cmd_modify:
  assumes "adm_ok d" "k \<noteq> SAMPLE_MAX_SAMPLES" "\<forall>n. c = Set_depth n \<longrightarrow> n \<in> {0, 1}"
  shows "exec_cmd c k d = Some (case sample_at d k of None \<Rightarrow> no_sample_answer c | Some si \<Rightarrow> fst (spec_cmd c si),
           modify_sample d k (\<lambda>si. snd (spec_cmd c si)))"
proof -
  show ?thesis
  proof (cases "\<exists>n. c = Set_depth n")
    case True
    then obtain n where n: "c = Set_depth n" "n \<in> {0, 1}" using assms(3) by auto
    show ?thesis
      by (rule modify_caseI [OF _ _ _ assms(1,2), where dflt = "- 1" and
            K = "\<lambda>d a si. Some (1, put_sample a (if si_depth si = n then si else si\<lparr>si_depth := n\<rparr>) d)"])
        (use n in \<open>auto simp: exec_cmd_def sample_set_depth_def write_sample_def spec_defs depth_same\<close>)
  next
    case False
    then show ?thesis
      by (cases c)
        (hypsubst, rule modify_caseI [OF _ _ _ assms(1,2)],
         (simp only: exec_cmd_def sample_cmd.case setter_defs; fail)[1],
         (auto simp: spec_defs min_def max_def split: option.splits)[2] | blast)+
  qed
qed

lemma exec_cmd_spec:
  assumes "adm_ok d" "k \<noteq> SAMPLE_MAX_SAMPLES"
  shows "\<exists>d'. exec_cmd c k d = Some (case sample_at d k of None \<Rightarrow> no_sample_answer c | Some si \<Rightarrow> fst (spec_cmd c si), d') \<and>
     adm_ok d' \<and> (\<forall>j. sample_at d' j = (if j = k then map_option (\<lambda>si. snd (spec_cmd c si)) (sample_at d k) else sample_at d j))"
proof (cases "\<exists>n. c = Set_depth n \<and> n \<notin> {0, 1}")
  case True
  then obtain n where "c = Set_depth n" "n \<noteq> 0" "n \<noteq> 1" by auto
  then show ?thesis using assms(1)
    by (auto simp: exec_cmd_def sample_set_depth_def spec_defs option.map_ident split: option.splits)
next
  case False
  then show ?thesis
    using exec_cmd_modify [OF assms, of c] adm_ok_modify [OF assms(1)] sample_at_modify [OF assms(1)] spec_cmd_id
    by auto
qed

text \<open>A run of commands, each for a sample, with the answers it gives.\<close>

fun exec_cmds :: "(int \<times> sample_cmd) list \<Rightarrow> adm \<Rightarrow> (int list \<times> adm) option" where
  "exec_cmds [] d = Some ([], d)"
| "exec_cmds ((k, c) # cs) d = do { (r, d) \<leftarrow> exec_cmd c k d; (rs, d) \<leftarrow> exec_cmds cs d; Some (r # rs, d) }"

text \<open>The same run on the abstract table, a map from identifiers to records.\<close>

fun spec_cmds :: "(int \<times> sample_cmd) list \<Rightarrow> (int \<rightharpoonup> sample_info) \<Rightarrow> int list \<times> (int \<rightharpoonup> sample_info)" where
  "spec_cmds [] t = ([], t)"
| "spec_cmds ((k, c) # cs) t =
     (case t k of
        None \<Rightarrow> (let (rs, t') = spec_cmds cs t in (no_sample_answer c # rs, t'))
      | Some si \<Rightarrow> (let (rs, t') = spec_cmds cs (t(k \<mapsto> snd (spec_cmd c si))) in (fst (spec_cmd c si) # rs, t')))"

subsection \<open>The fader over several frames\<close>

definition fader_next :: "(rat \<Rightarrow> rat) \<Rightarrow> sample_info \<Rightarrow> rat" where
  "fader_next fl si = max 0 (min 255 (fl (si_fader_val si + si_fader_inc si)))"

fun apply_fader :: "(rat \<Rightarrow> rat) \<Rightarrow> (rat \<Rightarrow> rat) \<Rightarrow> nat \<Rightarrow> adm \<Rightarrow> int \<Rightarrow> (int list \<times> adm) option" where
  "apply_fader fl dbl 0 d k = Some ([], d)"
| "apply_fader fl dbl (Suc n) d k = do {
     (r, d) \<leftarrow> sample_apply_fader_inc fl dbl d k; (rs, d) \<leftarrow> apply_fader fl dbl n d k; Some (r # rs, d) }"

text \<open>What the rounding of IEEE arithmetic guarantees: it is monotone and exact on small multiples of a half.\<close>

definition rounding :: "(rat \<Rightarrow> rat) \<Rightarrow> bool" where
  "rounding f \<longleftrightarrow> (\<forall>x y. x \<le> y \<longrightarrow> f x \<le> f y) \<and> (\<forall>i. \<bar>i\<bar> \<le> 1024 \<longrightarrow> f (of_int i / 2) = of_int i / 2)"

lemma rounding_exact:
  assumes "rounding f"
  shows "f 0 = 0" "f 255 = 255" "f (1 / 2) = 1 / 2" "f (511 / 2) = 511 / 2"
proof -
  have "f (of_int i / 2) = of_int i / 2" if "\<bar>i\<bar> \<le> 1024" for i
    using assms that by (auto simp: rounding_def)
  from this [of 0] this [of 510] this [of 1] this [of 511]
  show "f 0 = 0" "f 255 = 255" "f (1 / 2) = 1 / 2" "f (511 / 2) = 511 / 2" by simp_all
qed

lemma apply_fader_step:
  assumes "adm_ok d" "k \<noteq> SAMPLE_MAX_SAMPLES" "sample_at d k = Some si"
  shows "sample_apply_fader_inc fl dbl d k =
     Some (c_trunc (dbl (fader_next fl si + 1 / 2)), modify_sample d k (\<lambda>si. si\<lparr>si_fader_val := fader_next fl si\<rparr>))"
proof -
  have v: "fader_next fl si = (let v = fl (si_fader_val si + si_fader_inc si); v = (if v > 255 then 255 else v)
      in if v < 0 then 0 else v)" for si
    by (auto simp: fader_next_def Let_def min_def max_def)
  have "sample_apply_fader_inc fl dbl d k = Some (case sample_at d k of None \<Rightarrow> - 1
      | Some si \<Rightarrow> c_trunc (dbl (fader_next fl si + 1 / 2)), modify_sample d k (\<lambda>si. si\<lparr>si_fader_val := fader_next fl si\<rparr>))"
    unfolding sample_apply_fader_inc_def
    by (rule with_sample_modify [OF assms(1,2)]) (simp add: v Let_def)
  with assms(3) show ?thesis by simp
qed

lemma c_trunc_mono_half:
  assumes "rounding dbl" "0 \<le> x" "x \<le> y" "y \<le> 255"
  shows "0 \<le> c_trunc (dbl (x + 1 / 2))" "c_trunc (dbl (x + 1 / 2)) \<le> c_trunc (dbl (y + 1 / 2))"
    "c_trunc (dbl (y + 1 / 2)) \<le> 255"
proof -
  have m: "dbl a \<le> dbl b" if "a \<le> b" for a b using assms(1) that by (auto simp: rounding_def)
  have lo: "1 / 2 \<le> dbl (x + 1 / 2)" using m [of "1 / 2" "x + 1 / 2"] rounding_exact(3) [OF assms(1)] assms(2) by simp
  have xy: "dbl (x + 1 / 2) \<le> dbl (y + 1 / 2)" using m assms(3) by simp
  have hi: "dbl (y + 1 / 2) \<le> 511 / 2" using m [of "y + 1 / 2" "511 / 2"] rounding_exact(4) [OF assms(1)] assms(4) by simp
  show "0 \<le> c_trunc (dbl (x + 1 / 2))" using lo by (simp add: c_trunc_def)
  show "c_trunc (dbl (x + 1 / 2)) \<le> c_trunc (dbl (y + 1 / 2))"
    using lo xy by (simp add: c_trunc_def floor_mono)
  have "dbl (y + 1 / 2) < 256" using hi by linarith
  then have "\<lfloor>dbl (y + 1 / 2)\<rfloor> < 256" by (simp add: floor_less_iff)
  then show "c_trunc (dbl (y + 1 / 2)) \<le> 255" using lo xy by (simp add: c_trunc_def)
qed

lemma fader_next_range: "0 \<le> fader_next fl si" "fader_next fl si \<le> 255"
  by (simp_all add: fader_next_def)

subsection \<open>Properties\<close>



text \<open>
  A fade in moves one way and stays in range. With an increment that is not negative, the opacities that
  \<open>sample_apply_fader_inc\<close> returns frame after frame never decrease and lie between 0 and 255, whatever the
  rounding of the float and double arithmetic (as long as it is monotone and exact on small halves).
\<close>

theorem fade_in_monotone:
  assumes "adm_ok d" "k \<noteq> SAMPLE_MAX_SAMPLES" "sample_at d k = Some si" "0 \<le> si_fader_inc si"
    "fl (si_fader_val si) = si_fader_val si" "0 \<le> si_fader_val si" "si_fader_val si \<le> 255"
    "rounding fl" "\<forall>x. fl (fl x) = fl x" "rounding dbl"
  shows "\<exists>rs d'. apply_fader fl dbl n d k = Some (rs, d') \<and> length rs = n \<and> sorted rs \<and>
     (\<forall>r \<in> set rs. c_trunc (dbl (si_fader_val si + 1 / 2)) \<le> r \<and> r \<le> 255)"
  using assms
proof (induction n arbitrary: d si)
  case (Suc n)
  let ?v = "fader_next fl si"
  let ?si = "si\<lparr>si_fader_val := ?v\<rparr>"
  let ?d = "modify_sample d k (\<lambda>si. si\<lparr>si_fader_val := fader_next fl si\<rparr>)"
  let ?t = "\<lambda>v. c_trunc (dbl (v + 1 / 2))"
  note rnd = rounding_exact [OF Suc.prems(8)]
  have fl_v: "fl ?v = ?v"
    using Suc.prems(9) rnd by (auto simp: fader_next_def min_def max_def)
  have "si_fader_val si \<le> fl (si_fader_val si + si_fader_inc si)"
    using Suc.prems(4,5,8) by (metis le_add_same_cancel1 rounding_def)
  then have up: "si_fader_val si \<le> ?v" using Suc.prems(6,7) by (simp add: fader_next_def)
  note t = c_trunc_mono_half [OF Suc.prems(10) Suc.prems(6) up fader_next_range(2)]
  have ok: "adm_ok ?d" by (rule adm_ok_modify [OF Suc.prems(1)]) simp
  have at: "sample_at ?d k = Some ?si" using sample_at_modify [OF Suc.prems(1)] Suc.prems(3) by simp
  obtain rs d' where rs: "apply_fader fl dbl n ?d k = Some (rs, d')" "length rs = n" "sorted rs"
      "\<forall>r \<in> set rs. ?t ?v \<le> r \<and> r \<le> 255"
    using Suc.IH [OF ok Suc.prems(2) at] Suc.prems(4,8-10) fl_v fader_next_range by auto
  then show ?case
    using apply_fader_step [OF Suc.prems(1-3)] t by (auto intro: order_trans)
qed simp

theorem fade_in_monotone_witness:
  "\<exists>rs d'. apply_fader id id 4 (modify_sample adm_demo 1 (\<lambda>si. si\<lparr>si_fader_inc := 255 / 4\<rparr>)) 1 = Some (rs, d') \<and>
     length rs = 4 \<and> sorted rs \<and> set rs \<subseteq> {0..255}"
proof -
  let ?d = "modify_sample adm_demo 1 (\<lambda>si. si\<lparr>si_fader_inc := 255 / 4\<rparr>)"
  let ?si = "sample_demo\<lparr>si_fader_inc := 255 / 4\<rparr>"
  have ok: "adm_ok ?d" by (rule adm_ok_modify [OF adm_demo_ok(1)]) simp
  have at: "sample_at ?d 1 = Some ?si"
    using sample_at_modify [OF adm_demo_ok(1)] adm_demo_sample(1) by simp
  have "rounding id" by (simp add: rounding_def)
  moreover have "(1 :: int) \<noteq> SAMPLE_MAX_SAMPLES" by (simp add: SAMPLE_MAX_SAMPLES_def)
  moreover have v: "si_fader_val ?si = 0" "si_fader_inc ?si = 255 / 4" by (simp_all add: sample_demo_def sample_zero_def)
  ultimately obtain rs d' where "apply_fader id id 4 ?d 1 = Some (rs, d')" "length rs = 4" "sorted rs"
      "\<forall>r \<in> set rs. c_trunc (id (si_fader_val ?si + 1 / 2)) \<le> r \<and> r \<le> 255"
    using fade_in_monotone [OF ok _ at, of id id 4] by auto
  moreover have "\<lfloor>1 / 2 :: rat\<rfloor> = 0" by (rule floor_unique) simp_all
  ultimately show ?thesis unfolding v by (intro exI [of _ rs] exI [of _ d']) (auto simp: c_trunc_def)
qed

text \<open>
  Where to resume. Whatever position was stored, the frame to resume at lies in the sample's range; with
  markers set inside that range it lies between the markers; the answer is also stored, and asking again gives it again.
\<close>

theorem resume_in_range:
  assumes "adm_ok d" "k \<noteq> SAMPLE_MAX_SAMPLES" "sample_at d k = Some si" "si_first_frame si \<le> si_last_frame si"
    "si_marker_end si > 0 \<longrightarrow> in_range si (si_marker_start si) \<and> in_range si (si_marker_end si) \<and>
       si_marker_start si \<le> si_marker_end si"
  shows "\<exists>d1 d2 p. sample_set_resume d k position = Some (1, d1) \<and> sample_get_resume d1 k = Some (p, d2) \<and>
     in_range si p \<and> (si_marker_end si > 0 \<and> si_marker_start si \<ge> 0 \<longrightarrow> si_marker_start si \<le> p \<and> p \<le> si_marker_end si) \<and>
     (in_range si position \<and> si_marker_end si = 0 \<longrightarrow> p = position) \<and>
     (\<exists>d3. sample_get_resume d2 k = Some (p, d3))"
proof -
  let ?s1 = "si\<lparr>si_resume_pos := position\<rparr>"
  obtain d1 where 1: "exec_cmd (Set_resume position) k d = Some (1, d1)" "adm_ok d1" "sample_at d1 k = Some ?s1"
    using exec_cmd_spec [OF assms(1,2), of "Set_resume position"] assms(3) by (auto simp: spec_cmd_def)
  let ?p = "resume_clamp ?s1"
  let ?s2 = "?s1\<lparr>si_resume_pos := ?p\<rparr>"
  obtain d2 where 2: "exec_cmd Get_resume k d1 = Some (?p, d2)" "adm_ok d2" "sample_at d2 k = Some ?s2"
    using exec_cmd_spec [OF 1(2) assms(2), of Get_resume] 1(3) by (auto simp: spec_cmd_def)
  obtain d3 where 3: "exec_cmd Get_resume k d2 = Some (resume_clamp ?s2, d3)"
    using exec_cmd_spec [OF 2(2) assms(2), of Get_resume] 2(3) by (auto simp: spec_cmd_def)
  have "resume_clamp ?s2 = ?p" "in_range si ?p"
    "si_marker_end si > 0 \<and> si_marker_start si \<ge> 0 \<longrightarrow> si_marker_start si \<le> ?p \<and> ?p \<le> si_marker_end si"
    "in_range si position \<and> si_marker_end si = 0 \<longrightarrow> ?p = position"
    using assms(4,5) by (auto simp: resume_clamp_def in_range_def Let_def)
  then show ?thesis using 1(1) 2(1) 3 by (auto simp: exec_cmd_def)
qed

theorem resume_in_range_witness:
  "\<exists>d1 d2 p. sample_set_resume adm_demo 1 700 = Some (1, d1) \<and> sample_get_resume d1 1 = Some (p, d2) \<and> 0 \<le> p \<and> p \<le> 1"
  using resume_in_range [OF adm_demo_ok(1) _ adm_demo_sample(1), of 700]
  by (auto simp: SAMPLE_MAX_SAMPLES_def sample_demo_def sample_zero_def in_range_def)

text \<open>
  The first frame of a sample without markers. After the markers are cleared \<open>sample_get_startFrame\<close> answers
  0 whatever the first frame of the sample is, because it treats a start marker of 0 as set (\<open>||\<close> where
  \<open>sample_get_endFrame\<close> and \<open>sample_get_short_info\<close> have \<open>&&\<close>); the other two answer with the range.
\<close>

theorem start_frame_after_marker_clear:
  assumes "adm_ok d" "k \<noteq> SAMPLE_MAX_SAMPLES" "sample_at d k = Some si"
    "0 \<le> si_first_frame si" "si_first_frame si \<le> si_last_frame si" "si_last_frame si < 2 ^ 31"
  shows "\<exists>d1 d2 d3 d4. sample_marker_clear d k = Some (1, d1) \<and> sample_get_startFrame d1 k = Some (0, d2) \<and>
     sample_get_endFrame d1 k = Some (si_last_frame si, d3) \<and>
     sample_get_short_info d1 k = Some ((0, Some (si_first_frame si, si_last_frame si, si_looptype si, si_speed si)), d4)"
proof -
  obtain d1 where 1: "sample_marker_clear d k = Some (1, d1)" "adm_ok d1"
      "sample_at d1 k = Some (si\<lparr>si_marker_start := 0, si_marker_end := 0\<rparr>)"
    using exec_cmd_spec [OF assms(1,2), of Marker_clear] assms(3) by (auto simp: spec_cmd_def exec_cmd_def)
  then show ?thesis
    using assms(4-6)
    by (auto simp: sample_get_startFrame_def sample_get_endFrame_def sample_get_short_info_def read_sample_at [OF 1(2) assms(2)])
qed

theorem start_frame_after_marker_clear_witness:
  "\<exists>d1 d2. sample_marker_clear (modify_sample adm_demo 1 (\<lambda>si. si\<lparr>si_first_frame := 50, si_last_frame := 90\<rparr>)) 1 = Some (1, d1) \<and>
     sample_get_startFrame d1 1 = Some (0, d2)"
proof -
  let ?d = "modify_sample adm_demo 1 (\<lambda>si. si\<lparr>si_first_frame := 50, si_last_frame := 90\<rparr>)"
  let ?si = "sample_demo\<lparr>si_first_frame := 50, si_last_frame := 90\<rparr>"
  have ok: "adm_ok ?d" by (rule adm_ok_modify [OF adm_demo_ok(1)]) simp
  have at: "sample_at ?d 1 = Some ?si"
    using sample_at_modify [OF adm_demo_ok(1)] adm_demo_sample(1) by simp
  show ?thesis using start_frame_after_marker_clear [OF ok _ at] by (auto simp: SAMPLE_MAX_SAMPLES_def)
qed

end
