(* ===== verification/SampleChain.thy ===== *)
theory SampleChain
  imports SampleParams
begin

text \<open>
  The effect chain of a sample (\<open>libsample/sampleadm.c\<close>): reading and setting the fields of an entry, adding and
  removing effects, and the caches and streams that follow the entries' sources.

  \<^item> An entry is read through \<open>chain_entry\<close>: an index outside the chain of twenty is undefined behaviour.
  \<^item> Effects are activated and released through the registry (\<open>EffectTable\<close>); what an effect's own
    allocation answers is the argument \<open>fe\<close>.
  \<^item> A loop over the chain whose body touches only its own entry and the global state is \<open>map_entries\<close>.
\<close>

subsection \<open>Entries\<close>

definition chain_entry :: "sample_info \<Rightarrow> int \<Rightarrow> sample_eff_chain option" where
  "chain_entry si p = c_nth (si_effect_chain si) p"

definition put_entry :: "int \<Rightarrow> sample_eff_chain \<Rightarrow> sample_info \<Rightarrow> sample_info" where
  "put_entry p e si = si\<lparr>si_effect_chain := (si_effect_chain si)[nat p := e]\<rparr>"

text \<open>
  The two shapes of access: \<open>bad\<close> is the function's own test of its arguments, which answers \<open>dflt\<close>.
\<close>

definition read_entry ::
  "adm \<Rightarrow> int \<Rightarrow> 'r \<Rightarrow> bool \<Rightarrow> int \<Rightarrow> (sample_eff_chain \<Rightarrow> 'r option) \<Rightarrow> ('r \<times> adm) option" where
  "read_entry d s1 dflt bad p f = with_sample d s1 dflt (\<lambda>d a si.
     if bad then Some (dflt, d) else do { e \<leftarrow> chain_entry si p; r \<leftarrow> f e; Some (r, d) })"

definition write_entry ::
  "adm \<Rightarrow> int \<Rightarrow> bool \<Rightarrow> int \<Rightarrow> (sample_eff_chain \<Rightarrow> sample_eff_chain option) \<Rightarrow> (int \<times> adm) option" where
  "write_entry d s1 bad p f = with_sample d s1 (- 1) (\<lambda>d a si.
     if bad then Some (- 1, d)
     else do { e \<leftarrow> chain_entry si p; e \<leftarrow> f e; Some (1, put_sample a (put_entry p e si) d) })"

definition outside :: "int \<Rightarrow> bool" where
  "outside p \<longleftrightarrow> p < 0 \<or> p \<ge> int SAMPLE_MAX_EFFECTS"

definition sample_entry_is_rendering :: "adm \<Rightarrow> int \<Rightarrow> int \<Rightarrow> (int \<times> adm) option" where
  "sample_entry_is_rendering d s1 p = read_entry d s1 (- 1) (outside p) p (\<lambda>e. Some (sc_is_rendering e))"

definition sample_entry_set_is_rendering :: "adm \<Rightarrow> int \<Rightarrow> int \<Rightarrow> int \<Rightarrow> (int \<times> adm) option" where
  "sample_entry_set_is_rendering d s1 p v = write_entry d s1 (outside p) p (\<lambda>e. Some (e\<lparr>sc_is_rendering := v\<rparr>))"

definition sample_get_effect :: "adm \<Rightarrow> int \<Rightarrow> int \<Rightarrow> (int \<times> adm) option" where
  "sample_get_effect d s1 p = read_entry d s1 (- 1) (outside p) p
     (\<lambda>e. Some (if sc_e_flag e = 0 then - 1 else sc_effect_id e))"

definition sample_get_plugin :: "adm \<Rightarrow> int \<Rightarrow> int \<Rightarrow> addr option \<Rightarrow> (addr option \<times> adm) option" where
  "sample_get_plugin d s1 p ptr = with_sample d s1 None (\<lambda>d a si.
     if outside p then Some (None, d)
     else do {
       e \<leftarrow> chain_entry si p;
       let e = (if ptr \<noteq> None then e\<lparr>sc_fx_instance := ptr\<rparr> else e);
       Some (sc_fx_instance e, put_sample a (put_entry p e si) d)
     })"

text \<open>The next five do not test the lower bound of the position, or not at all.\<close>

definition sample_get_effect_any :: "adm \<Rightarrow> int \<Rightarrow> int \<Rightarrow> (int \<times> adm) option" where
  "sample_get_effect_any d s1 p = read_entry d s1 (- 1) False p (\<lambda>e. Some (sc_effect_id e))"

definition sample_get_chain_status :: "adm \<Rightarrow> int \<Rightarrow> int \<Rightarrow> (int \<times> adm) option" where
  "sample_get_chain_status d s1 p = read_entry d s1 (- 1) (p \<ge> int SAMPLE_MAX_EFFECTS) p (\<lambda>e. Some (sc_e_flag e))"

definition sample_get_offset :: "adm \<Rightarrow> int \<Rightarrow> int \<Rightarrow> (int \<times> adm) option" where
  "sample_get_offset d s1 p = read_entry d s1 (- 1) (p \<ge> int SAMPLE_MAX_EFFECTS) p (\<lambda>e. Some (sc_frame_offset e))"

definition sample_get_chain_volume :: "adm \<Rightarrow> int \<Rightarrow> int \<Rightarrow> (int \<times> adm) option" where
  "sample_get_chain_volume d s1 p = read_entry d s1 (- 1) (p \<ge> int SAMPLE_MAX_EFFECTS) p (\<lambda>e. Some (sc_volume e))"

definition sample_get_chain_audio :: "adm \<Rightarrow> int \<Rightarrow> int \<Rightarrow> (int \<times> adm) option" where
  "sample_get_chain_audio d s1 p = read_entry d s1 (- 1) False p (\<lambda>e. Some (sc_a_flag e))"

definition sample_get_trimmer :: "adm \<Rightarrow> int \<Rightarrow> int \<Rightarrow> (int \<times> adm) option" where
  "sample_get_trimmer d s1 p = read_entry d s1 (- 1) (outside p) p (\<lambda>e. Some (sc_frame_trimmer e))"

text \<open>The position is tested before the sample is looked up.\<close>

definition sample_set_chain_status :: "adm \<Rightarrow> int \<Rightarrow> int \<Rightarrow> int \<Rightarrow> (int \<times> adm) option" where
  "sample_set_chain_status d s1 p status =
     (if outside p then Some (- 1, d) else write_entry d s1 False p (\<lambda>e. Some (e\<lparr>sc_e_flag := status\<rparr>)))"

definition sample_get_chain_channel :: "adm \<Rightarrow> int \<Rightarrow> int \<Rightarrow> (int \<times> adm) option" where
  "sample_get_chain_channel d s1 p = read_entry d s1 (- 1) (outside p) p (\<lambda>e. Some (sc_channel e))"

definition sample_get_chain_source :: "adm \<Rightarrow> int \<Rightarrow> int \<Rightarrow> (int \<times> adm) option" where
  "sample_get_chain_source d s1 p = read_entry d s1 (- 1) (outside p) p (\<lambda>e. Some (sc_source_type e))"

text \<open>The argument number \<open>SAMPLE_MAX_PARAMETERS\<close> passes the test and is one past the array.\<close>

definition bad_arg :: "int \<Rightarrow> int \<Rightarrow> bool" where
  "bad_arg p argnr \<longleftrightarrow> p \<ge> int SAMPLE_MAX_EFFECTS \<or> argnr < 0 \<or> argnr > int SAMPLE_MAX_PARAMETERS"

definition sample_get_effect_arg :: "adm \<Rightarrow> int \<Rightarrow> int \<Rightarrow> int \<Rightarrow> (int \<times> adm) option" where
  "sample_get_effect_arg d s1 p argnr = read_entry d s1 (- 1) (bad_arg p argnr) p (\<lambda>e. c_nth (sc_arg e) argnr)"

definition sample_set_effect_arg :: "adm \<Rightarrow> int \<Rightarrow> int \<Rightarrow> int \<Rightarrow> int \<Rightarrow> (int \<times> adm) option" where
  "sample_set_effect_arg d s1 p argnr v = write_entry d s1 (bad_arg p argnr) p
     (\<lambda>e. do { xs \<leftarrow> c_update (sc_arg e) argnr v; Some (e\<lparr>sc_arg := xs\<rparr>) })"

definition sample_has_extra_frame :: "adm \<Rightarrow> int \<Rightarrow> int \<Rightarrow> (int \<times> adm) option" where
  "sample_has_extra_frame d s1 p = read_entry d s1 (- 1) (p \<ge> int SAMPLE_MAX_EFFECTS) p (\<lambda>e.
     if sc_effect_id e = - 1 then Some (- 1)
     else do { x \<leftarrow> vj_effect_get_extra_frame (ad_fx d) (sc_effect_id e); Some (if x = 1 then 1 else - 1) })"

definition sample_set_offset :: "adm \<Rightarrow> int \<Rightarrow> int \<Rightarrow> int \<Rightarrow> (int \<times> adm) option" where
  "sample_set_offset d s1 p v = write_entry d s1 False p (\<lambda>e. Some (e\<lparr>sc_frame_offset := v\<rparr>))"

text \<open>Here the position is compared with the number of parameters, which is larger than the chain.\<close>

definition sample_set_trimmer :: "adm \<Rightarrow> int \<Rightarrow> int \<Rightarrow> int \<Rightarrow> (int \<times> adm) option" where
  "sample_set_trimmer d s1 p trimmer = with_sample d s1 (- 1) (\<lambda>d a si.
     if p < 0 \<or> p \<ge> int SAMPLE_MAX_PARAMETERS then Some (- 1, d)
     else do {
       let t = (if trimmer > si_last_frame si - si_first_frame si then 0 else trimmer);
       let t = (if t < 0 then 0 else t);
       e \<leftarrow> chain_entry si p;
       Some (1, put_sample a (put_entry p (e\<lparr>sc_frame_trimmer := t\<rparr>) si) d)
     })"

definition sample_set_chain_audio :: "adm \<Rightarrow> int \<Rightarrow> int \<Rightarrow> int \<Rightarrow> (int \<times> adm) option" where
  "sample_set_chain_audio d s1 p v = write_entry d s1 (p < 0 \<or> p \<ge> int SAMPLE_MAX_PARAMETERS) p
     (\<lambda>e. Some (e\<lparr>sc_a_flag := v\<rparr>))"

text \<open>A volume below 0 becomes 100 and one above 100 becomes 0.\<close>

definition sample_set_chain_volume :: "adm \<Rightarrow> int \<Rightarrow> int \<Rightarrow> int \<Rightarrow> (int \<times> adm) option" where
  "sample_set_chain_volume d s1 p volume =
     (let v = (if volume < 0 then 100 else volume); v = (if v > 100 then 0 else v)
      in write_entry d s1 False p (\<lambda>e. Some (e\<lparr>sc_volume := v\<rparr>)))"

definition sample_reset_offset :: "adm \<Rightarrow> int \<Rightarrow> (int \<times> adm) option" where
  "sample_reset_offset d s1 = write_sample d s1 (- 1) 1 (\<lambda>si.
     si\<lparr>si_effect_chain := map (\<lambda>e. e\<lparr>sc_frame_offset := 0\<rparr>) (si_effect_chain si)\<rparr>)"

subsection \<open>Searching the chain\<close>

definition sample_get_first_mix_offset :: "adm \<Rightarrow> int \<Rightarrow> int \<Rightarrow> (int \<times> adm) option" where
  "sample_get_first_mix_offset d s1 look_for = read_sample d s1 0 (\<lambda>si.
     let p = first_index (\<lambda>e. sc_source_type e = 0 \<and> look_for = sc_channel e) (si_effect_chain si)
     in if p < 0 then 0 else sc_frame_offset (si_effect_chain si ! nat p))"

definition sample_has_cali_fx :: "adm \<Rightarrow> int \<Rightarrow> (int \<times> adm) option" where
  "sample_has_cali_fx d s1 = read_sample d s1 (- 1) (\<lambda>si. first_index (\<lambda>e. sc_effect_id e = 190) (si_effect_chain si))"

definition sample_chain_size :: "adm \<Rightarrow> int \<Rightarrow> (int \<times> adm) option" where
  "sample_chain_size d s1 = read_sample d s1 (- 1) (\<lambda>si.
     int (length (filter (\<lambda>e. sc_effect_id e \<noteq> - 1) (si_effect_chain si))))"

definition sample_chain_get_free_entry :: "adm \<Rightarrow> int \<Rightarrow> (int \<times> adm) option" where
  "sample_chain_get_free_entry d s1 = read_sample d s1 (- 1) (\<lambda>si.
     first_index (\<lambda>e. sc_effect_id e = - 1) (si_effect_chain si))"

definition sample_sample_used :: "sample_info \<Rightarrow> int \<Rightarrow> bool" where
  "sample_sample_used si b \<longleftrightarrow> (\<exists>e \<in> set (si_effect_chain si). sc_source_type e = 0 \<and> sc_channel e = b)"

definition sample_cached :: "sample_info \<Rightarrow> int \<Rightarrow> int" where
  "sample_cached si b = (if \<exists>e \<in> set (si_effect_chain si). sc_source_type e = 0 \<and> sc_channel e = b then 1 else 0)"

definition sample_is_deleted :: "adm \<Rightarrow> int \<Rightarrow> int" where
  "sample_is_deleted d s1 = (if \<exists>i \<in> set [0..<next_avail_num d]. avail_num d i = s1 then 1 else 0)"

subsection \<open>Caches of edit lists and network streams\<close>

definition ad_break_cache :: "addr option \<Rightarrow> adm \<Rightarrow> adm option" where
  "ad_break_cache p d =
     (case p of None \<Rightarrow> Some d
      | Some e \<Rightarrow> do { el \<leftarrow> ad_els d e; let (el', g) = vj_el_break_cache (ad_elg d) el;
                       Some (d\<lparr>ad_els := (ad_els d)(e \<mapsto> el'), ad_elg := g\<rparr>) })"

text \<open>Only the setup does not test for a null pointer.\<close>

definition ad_setup_cache :: "addr option \<Rightarrow> adm \<Rightarrow> adm option" where
  "ad_setup_cache p d =
     (case p of None \<Rightarrow> null_deref
      | Some e \<Rightarrow> do { el \<leftarrow> ad_els d e; el' \<leftarrow> vj_el_setup_cache (ad_elg d) el;
                       Some (d\<lparr>ad_els := (ad_els d)(e \<mapsto> el')\<rparr>) })"

definition ad_clear_cache :: "addr option \<Rightarrow> adm \<Rightarrow> adm option" where
  "ad_clear_cache p d =
     (case p of None \<Rightarrow> Some d
      | Some e \<Rightarrow> do { el \<leftarrow> ad_els d e; let (el', g) = vj_el_clear_cache (ad_elg d) el;
                       Some (d\<lparr>ad_els := (ad_els d)(e \<mapsto> el'), ad_elg := g\<rparr>) })"

text \<open>\<open>si = sample_get(id); if(si) f(si->edit_list)\<close>.\<close>

definition on_list_of :: "adm \<Rightarrow> int \<Rightarrow> (addr option \<Rightarrow> adm \<Rightarrow> adm option) \<Rightarrow> adm option" where
  "on_list_of d k f = do {
     (p, d) \<leftarrow> sample_get d k;
     case p of None \<Rightarrow> Some d | Some a \<Rightarrow> do { si \<leftarrow> ad_samples d a; f (si_edit_list si) d }
   }"

text \<open>
  The streams of \<open>libstream/vj-tag.c\<close> as far as the chain uses them. Stopping the network thread and pausing
  capture devices, which \<open>vj_tag_disable\<close> does as well, is outside the model.
\<close>

definition vj_tag_get :: "adm \<Rightarrow> int \<Rightarrow> vj_tag option" where
  "vj_tag_get d t1 = (if t1 \<le> 0 \<or> t1 > this_tag_id d then None else ad_tags d t1)"

definition vj_tag_get_active :: "adm \<Rightarrow> int \<Rightarrow> int" where
  "vj_tag_get_active d t1 = (case vj_tag_get d t1 of None \<Rightarrow> - 1 | Some t \<Rightarrow> tag_active t)"

definition vj_tag_get_type :: "adm \<Rightarrow> int \<Rightarrow> int" where
  "vj_tag_get_type d t1 = (case vj_tag_get d t1 of None \<Rightarrow> - 1 | Some t \<Rightarrow> tag_source_type t)"

definition vj_tag_disable :: "adm \<Rightarrow> int \<Rightarrow> adm" where
  "vj_tag_disable d t1 =
     (case vj_tag_get d t1 of None \<Rightarrow> d
      | Some t \<Rightarrow> if tag_active t = 0 then d else d\<lparr>ad_tags := (ad_tags d)(t1 \<mapsto> t\<lparr>tag_active := 0\<rparr>)\<rparr>)"

text \<open>An active network stream that an entry mixes in is stopped when the entry lets go of it.\<close>

definition release_stream :: "sample_eff_chain \<Rightarrow> adm \<Rightarrow> adm" where
  "release_stream e d =
     (if sc_source_type e = 1 \<and> vj_tag_get_active d (sc_channel e) \<noteq> 0 \<and>
         vj_tag_get_type d (sc_channel e) = VJ_TAG_TYPE_NET
      then vj_tag_disable d (sc_channel e) else d)"

definition sample_set_chain_channel :: "adm \<Rightarrow> int \<Rightarrow> int \<Rightarrow> int \<Rightarrow> (int \<times> adm) option" where
  "sample_set_chain_channel d s1 p input = with_sample d s1 (- 1) (\<lambda>d a si.
     if outside p then Some (- 1, d)
     else do {
       e \<leftarrow> chain_entry si p;
       d \<leftarrow> (if sc_source_type e = 0 \<and> sc_channel e \<noteq> input \<and> sc_effect_id e > 0
             then do {
               (q, d) \<leftarrow> sample_get d input;
               d \<leftarrow> on_list_of d (sc_channel e) ad_break_cache;
               case q of None \<Rightarrow> Some d | Some b \<Rightarrow> do { sj \<leftarrow> ad_samples d b; ad_setup_cache (si_edit_list sj) d }
             }
             else Some d);
       let d = release_stream e d;
       Some (1, put_sample a (put_entry p (e\<lparr>sc_channel := input\<rparr>) si) d)
     })"

text \<open>The cache that is set up here is that of the sample whose number is the source \<^emph>\<open>type\<close>.\<close>

definition sample_set_chain_source :: "adm \<Rightarrow> int \<Rightarrow> int \<Rightarrow> int \<Rightarrow> (int \<times> adm) option" where
  "sample_set_chain_source d s1 p input = with_sample d s1 (- 1) (\<lambda>d a si.
     if outside p then Some (- 1, d)
     else do {
       e \<leftarrow> chain_entry si p;
       d \<leftarrow> (if sc_source_type e = 0 \<and> sc_channel e > 0 \<and> sc_effect_id e > 0 \<and> input \<noteq> sc_source_type e
             then do {
               d \<leftarrow> on_list_of d (sc_channel e) ad_clear_cache;
               on_list_of d input ad_setup_cache
             }
             else Some d);
       let d = (if input \<noteq> 1 then release_stream e d else d);
       Some (1, put_sample a (put_entry p (e\<lparr>sc_source_type := input\<rparr>) si) d)
     })"

subsection \<open>Starting and stopping playback of a sample\<close>

text \<open>The loops over the entries of a chain, with the entries' channels in order.\<close>

fun each_channel :: "(sample_eff_chain \<Rightarrow> bool) \<Rightarrow> (addr option \<Rightarrow> adm \<Rightarrow> adm option) \<Rightarrow> sample_eff_chain list \<Rightarrow> adm \<Rightarrow> adm option" where
  "each_channel P f [] d = Some d"
| "each_channel P f (e # es) d = do {
     d \<leftarrow> (if P e then on_list_of d (sc_channel e) f else Some d);
     each_channel P f es d }"

definition sample_start_playing :: "adm \<Rightarrow> int \<Rightarrow> bool \<Rightarrow> (int \<times> adm) option" where
  "sample_start_playing d s1 no_cache = with_sample d s1 (- 1) (\<lambda>d a si. do {
     d \<leftarrow> (if no_cache then Some d else ad_setup_cache (si_edit_list si) d);
     d \<leftarrow> each_channel (\<lambda>e. sc_source_type e = 0 \<and> sc_channel e > 0 \<and> sc_effect_id e > 0)
            ad_setup_cache (si_effect_chain si) d;
     Some (1, d) })"

definition sample_stop_playing :: "adm \<Rightarrow> int \<Rightarrow> int \<Rightarrow> (int \<times> adm) option" where
  "sample_stop_playing d s1 new_s1 = do {
     (p, d) \<leftarrow> sample_get d s1;
     (q, d) \<leftarrow> (if new_s1 \<noteq> 0 then sample_get d new_s1 else Some (None, d));
     case p of
       None \<Rightarrow> Some (0, d)
     | Some a \<Rightarrow>
         if new_s1 \<noteq> 0 \<and> q = None then Some (0, d)
         else if new_s1 = s1 then Some (1, d)
         else do {
           si \<leftarrow> ad_samples d a;
           sn \<leftarrow> (case q of None \<Rightarrow> Some None
                 | Some b \<Rightarrow> (case ad_samples d b of None \<Rightarrow> dangling | Some sn \<Rightarrow> Some (Some sn)));
           let destroy = (case sn of None \<Rightarrow> True | Some sn \<Rightarrow> \<not> sample_sample_used sn s1);
           d \<leftarrow> (if destroy then ad_break_cache (si_edit_list si) d else Some d);
           case sn of
             None \<Rightarrow> Some (1, d)
           | Some sn \<Rightarrow> do {
               d \<leftarrow> each_channel (\<lambda>e. sc_source_type e = 0 \<and> sc_channel e > 0 \<and> \<not> sample_sample_used sn (sc_channel e))
                      ad_break_cache (si_effect_chain si) d;
               Some (1, d)
             }
         }
   }"

subsection \<open>Effects\<close>

fun map_entries :: "('e \<Rightarrow> 's \<Rightarrow> ('e \<times> 's) option) \<Rightarrow> 'e list \<Rightarrow> 's \<Rightarrow> ('e list \<times> 's) option" where
  "map_entries f [] s = Some ([], s)"
| "map_entries f (e # es) s = do { (e, s) \<leftarrow> f e s; (es, s) \<leftarrow> map_entries f es s; Some (e # es, s) }"

definition fx_deactivate :: "sample_eff_chain \<Rightarrow> adm \<Rightarrow> (sample_eff_chain \<times> adm) option" where
  "fx_deactivate e d = do {
     (r, T) \<leftarrow> vj_effect_deactivate (ad_fx d) (sc_effect_id e) (sc_fx_instance e);
     Some (e\<lparr>sc_fx_instance := None\<rparr>, d\<lparr>ad_fx := T\<rparr>) }"

definition fx_on :: "adm \<Rightarrow> sample_eff_chain \<Rightarrow> bool" where
  "fx_on d e \<longleftrightarrow> vj_effect_initialized (ad_fx d) (sc_effect_id e) (sc_fx_instance e) \<noteq> 0"

text \<open>An empty entry has effect \<open>-1\<close>, which is not 0, so it is handed to \<open>vj_effect_activate\<close> as well.\<close>

definition malloc_entry :: "fx_env \<Rightarrow> sample_eff_chain \<Rightarrow> adm \<times> int \<Rightarrow> (sample_eff_chain \<times> adm \<times> int) option" where
  "malloc_entry fe e st =
     (case st of (d, cnt) \<Rightarrow>
        if sc_effect_id e \<noteq> 0
        then do {
          (inst, res, T) \<leftarrow> vj_effect_activate fe (ad_fx d) (sc_effect_id e);
          Some (e\<lparr>sc_fx_instance := inst\<rparr>, d\<lparr>ad_fx := T\<rparr>, if res \<noteq> 0 then cnt + 1 else cnt)
        }
        else Some (e, d, cnt))"

definition sample_chain_malloc :: "fx_env \<Rightarrow> adm \<Rightarrow> int \<Rightarrow> (int \<times> adm) option" where
  "sample_chain_malloc fe d s1 = with_sample d s1 (- 1) (\<lambda>d a si. do {
     (es, d, cnt) \<leftarrow> map_entries (malloc_entry fe) (si_effect_chain si) (d, 0);
     Some (cnt, put_sample a (si\<lparr>si_effect_chain := es\<rparr>) d) })"

definition free_entry :: "sample_eff_chain \<Rightarrow> adm \<times> int \<Rightarrow> (sample_eff_chain \<times> adm \<times> int) option" where
  "free_entry e st =
     (case st of (d, cnt) \<Rightarrow>
        if sc_effect_id e \<noteq> - 1
        then do {
          (e, d, cnt) \<leftarrow> (if fx_on d e
                            then do { (e, d) \<leftarrow> fx_deactivate e d; Some (e, d, cnt + 1) }
                            else Some (e, d, cnt));
          Some (e, release_stream e d, cnt)
        }
        else Some (e, d, cnt))"

definition sample_chain_free :: "adm \<Rightarrow> int \<Rightarrow> (int \<times> adm) option" where
  "sample_chain_free d s1 = with_sample d s1 (- 1) (\<lambda>d a si. do {
     (es, d, cnt) \<leftarrow> map_entries free_entry (si_effect_chain si) (d, 0);
     Some (cnt, put_sample a (si\<lparr>si_effect_chain := es\<rparr>) d) })"

text \<open>
  Adding an effect at position \<open>c\<close>. An effect that is replaced is released, unless it is a built-in one and
  another entry holds the \<^emph>\<open>new\<close> effect (the test compares with \<open>effect_nr\<close>).
\<close>

definition chain_add_release :: "int \<Rightarrow> int \<Rightarrow> sample_info \<Rightarrow> sample_eff_chain \<Rightarrow> adm \<Rightarrow> (sample_eff_chain \<times> adm) option" where
  "chain_add_release c effect_nr si e d =
     (if sc_effect_id e \<noteq> - 1 \<and> sc_effect_id e \<noteq> effect_nr \<and> fx_on d e
      then if vj_effect_is_plugin (ad_fx d) (sc_effect_id e) = 0
           then let frm = (\<forall>i \<in> set [0..<SAMPLE_MAX_EFFECTS]. int i \<noteq> c \<longrightarrow>
                             sc_effect_id (si_effect_chain si ! i) \<noteq> effect_nr)
                in if frm then fx_deactivate e d else Some (e, d)
           else fx_deactivate e d
      else Some (e, d))"

fun chain_defaults :: "fx_table \<Rightarrow> int \<Rightarrow> nat \<Rightarrow> int list \<Rightarrow> int list option" where
  "chain_defaults T effect_nr 0 xs = Some xs"
| "chain_defaults T effect_nr (Suc n) xs = do {
     xs \<leftarrow> chain_defaults T effect_nr n xs;
     v \<leftarrow> vj_effect_get_default T effect_nr (int n);
     c_update xs (int n) v }"

definition chain_add_setup :: "adm \<Rightarrow> int \<Rightarrow> sample_eff_chain \<Rightarrow> (sample_eff_chain \<times> adm) option" where
  "chain_add_setup d effect_nr e = do {
     n \<leftarrow> vj_effect_get_num_params (ad_fx d) effect_nr;
     if sc_effect_id e \<noteq> effect_nr
     then do {
       xs \<leftarrow> chain_defaults (ad_fx d) effect_nr (nat n) (sc_arg e);
       d \<leftarrow> free_ptr vpf (sc_kf e) d;
       Some (e\<lparr>sc_arg := xs, sc_e_flag := 1, sc_kf_status := 0, sc_kf_type := 0, sc_kf := None, sc_effect_id := effect_nr\<rparr>, d)
     }
     else Some (e, d) }"

text \<open>The step that makes sure the new effect is active; its answer says whether it is.\<close>

definition chain_add_activate :: "fx_env \<Rightarrow> int \<Rightarrow> sample_eff_chain \<Rightarrow> adm \<Rightarrow> (bool \<times> sample_eff_chain \<times> adm) option" where
  "chain_add_activate fe effect_nr e d =
     (if vj_effect_initialized (ad_fx d) effect_nr (sc_fx_instance e) = 0
          then do {
            (inst, res, T) \<leftarrow> vj_effect_activate fe (ad_fx d) effect_nr;
            let e = e\<lparr>sc_fx_instance := inst\<rparr>;
            let d = d\<lparr>ad_fx := T\<rparr>;
            Some (if res = 0
                  then (False, e\<lparr>sc_effect_id := - 1, sc_e_flag := 1, sc_arg := replicate SAMPLE_MAX_PARAMETERS 0,
                                sc_frame_trimmer := 0\<rparr>, d)
                  else (True, e, d))
          }
          else Some (True, e, d))"

text \<open>The last step, for effects that mix in a second source.\<close>

definition chain_add_mix :: "int \<Rightarrow> int \<Rightarrow> sample_eff_chain \<Rightarrow> adm \<Rightarrow> (sample_eff_chain \<times> adm) option" where
  "chain_add_mix s1 effect_nr e d = do {
         xf \<leftarrow> vj_effect_get_extra_frame (ad_fx d) effect_nr;
         if xf \<noteq> 0
         then do {
           (x, d) \<leftarrow> sample_exists d (if s1 > 1 then s1 - 1 else s1);
           let e = e\<lparr>sc_frame_trimmer := 0\<rparr>;
           let e = (if sc_channel e \<le> 0 then e\<lparr>sc_channel := sample_size d - 1\<rparr> else e);
           let e = (if sc_source_type e < 0 then e\<lparr>sc_source_type := 0\<rparr> else e);
           Some (e, d)
         }
         else Some (e, d) }"

definition sample_chain_add :: "fx_env \<Rightarrow> adm \<Rightarrow> int \<Rightarrow> int \<Rightarrow> int \<Rightarrow> (int \<times> adm) option" where
  "sample_chain_add fe d s1 c effect_nr = with_sample d s1 0 (\<lambda>d a si.
     if outside c then Some (0, d)
     else do {
       e \<leftarrow> chain_entry si c;
       (e, d) \<leftarrow> chain_add_release c effect_nr si e d;
       (ok, e, d) \<leftarrow> chain_add_activate fe effect_nr e d;
       if \<not> ok then Some (0, put_sample a (put_entry c e si) d)
       else do {
         (e, d) \<leftarrow> chain_add_setup d effect_nr e;
         (e, d) \<leftarrow> chain_add_mix s1 effect_nr e d;
         Some (1, put_sample a (put_entry c e si) d)
       }
     })"

text \<open>Emptying an entry, shared by removing one effect and clearing the chain.\<close>

definition chain_blank :: "int \<Rightarrow> sample_eff_chain \<Rightarrow> adm \<Rightarrow> (sample_eff_chain \<times> adm) option" where
  "chain_blank ch e d = do {
     d \<leftarrow> free_ptr vpf (sc_kf e) d;
     d \<leftarrow> (if sc_source_type e = 0 \<and> sc_channel e > 0 then on_list_of d (sc_channel e) ad_clear_cache else Some d);
     Some (e\<lparr>sc_effect_id := - 1, sc_frame_offset := 0, sc_frame_trimmer := 0, sc_volume := 0, sc_a_flag := 0,
             sc_kf := None, sc_source_type := 0, sc_channel := ch, sc_arg := replicate SAMPLE_MAX_PARAMETERS 0\<rparr>,
           release_stream e d) }"

definition sample_can_free :: "adm \<Rightarrow> sample_info \<Rightarrow> int \<Rightarrow> int \<Rightarrow> bool" where
  "sample_can_free d si reserved effect_id \<longleftrightarrow>
     vj_effect_is_plugin (ad_fx d) effect_id \<noteq> 0 \<or>
     (\<forall>i \<in> set [0..<SAMPLE_MAX_EFFECTS]. int i \<noteq> reserved \<longrightarrow> effect_id \<noteq> sc_effect_id (si_effect_chain si ! i))"

definition sample_chain_remove :: "adm \<Rightarrow> int \<Rightarrow> int \<Rightarrow> (int \<times> adm) option" where
  "sample_chain_remove d s1 p = with_sample d s1 (- 1) (\<lambda>d a si.
     if outside p then Some (- 1, d)
     else do {
       e \<leftarrow> chain_entry si p;
       (e, d) \<leftarrow> (if sc_effect_id e \<noteq> - 1 \<and> fx_on d e \<and> sample_can_free d si p (sc_effect_id e)
                  then fx_deactivate e d else Some (e, d));
       (e, d) \<leftarrow> chain_blank 0 e d;
       Some (1, put_sample a (put_entry p e si) d)
     })"

definition clear_entry :: "int \<Rightarrow> sample_eff_chain \<Rightarrow> adm \<Rightarrow> (sample_eff_chain \<times> adm) option" where
  "clear_entry s1 e d = do {
     (e, d) \<leftarrow> (if sc_effect_id e \<noteq> - 1 \<and> fx_on d e then fx_deactivate e d else Some (e, d));
     chain_blank s1 e d }"

definition sample_chain_clear :: "adm \<Rightarrow> int \<Rightarrow> (int \<times> adm) option" where
  "sample_chain_clear d s1 = with_sample d s1 (- 1) (\<lambda>d a si. do {
     (es, d) \<leftarrow> map_entries (clear_entry s1) (si_effect_chain si) d;
     Some (1, put_sample a (si\<lparr>si_effect_chain := es\<rparr>) d) })"

subsection \<open>Keyframes of an entry\<close>

definition sample_chain_reset_kf :: "adm \<Rightarrow> int \<Rightarrow> int \<Rightarrow> (int \<times> adm) option" where
  "sample_chain_reset_kf d s1 p = with_sample d s1 0 (\<lambda>d a si. do {
     e \<leftarrow> chain_entry si p;
     d \<leftarrow> free_ptr vpf (sc_kf e) d;
     Some (1, put_sample a (put_entry p (e\<lparr>sc_kf_status := 0, sc_kf_type := 0, sc_kf := None\<rparr>) si) d) })"

definition sample_get_kf_port :: "adm \<Rightarrow> int \<Rightarrow> int \<Rightarrow> (addr option \<times> adm) option" where
  "sample_get_kf_port d s1 p = read_entry d s1 None False p (\<lambda>e. Some (sc_kf e))"

text \<open>The status, and the type when it is asked for.\<close>

definition sample_get_kf_status :: "adm \<Rightarrow> int \<Rightarrow> int \<Rightarrow> ((int \<times> int option) \<times> adm) option" where
  "sample_get_kf_status d s1 p = read_entry d s1 (0, None) False p (\<lambda>e. Some (sc_kf_status e, Some (sc_kf_type e)))"

definition sample_set_kf_type :: "adm \<Rightarrow> int \<Rightarrow> int \<Rightarrow> int \<Rightarrow> (int \<times> adm) option" where
  "sample_set_kf_type d s1 p t = write_entry d s1 False p (\<lambda>e. Some (e\<lparr>sc_kf_type := t\<rparr>))"

definition sample_chain_set_kf_status :: "adm \<Rightarrow> int \<Rightarrow> int \<Rightarrow> int \<Rightarrow> (int \<times> adm) option" where
  "sample_chain_set_kf_status d s1 p status = write_entry d s1 False p (\<lambda>e. Some (e\<lparr>sc_kf_status := status\<rparr>))"

definition sample_chain_alloc_kf :: "adm \<Rightarrow> int \<Rightarrow> int \<Rightarrow> (unit \<times> adm) option" where
  "sample_chain_alloc_kf d s1 p = with_sample d s1 () (\<lambda>d a si. do {
     e \<leftarrow> chain_entry si p;
     let (k, d) = vpn d;
     Some ((), put_sample a (put_entry p (e\<lparr>sc_kf := Some k\<rparr>) si) d) })"

subsection \<open>How long a sample plays\<close>

text \<open>
  The longest of the sample and the samples its entries mix in. Division by the speed of another sample that is
  paused is division by zero.
\<close>

definition mix_duration :: "adm \<Rightarrow> int \<Rightarrow> (int \<times> adm) option" where
  "mix_duration d k = do {
     (stop, d) \<leftarrow> sample_get_endFrame d k;
     (start, d) \<leftarrow> sample_get_startFrame d k;
     let tmp = stop - start;
     if tmp > 0
     then do {
       (speed, d) \<leftarrow> sample_get_speed d k;
       tmp \<leftarrow> c_div tmp speed;
       (lt, d) \<leftarrow> sample_get_looptype d k;
       let tmp = (if tmp < 0 then - tmp else tmp);
       Some (if lt = 2 then tmp * 2 else tmp, d)
     }
     else Some (tmp, d) }"

fun longest_loop :: "int \<Rightarrow> nat \<Rightarrow> int \<Rightarrow> int \<Rightarrow> adm \<Rightarrow> (int \<times> adm) option" where
  "longest_loop s1 0 c duration d = Some (duration, d)"
| "longest_loop s1 (Suc n) c duration d = do {
     (k, d) \<leftarrow> sample_get_chain_channel d s1 c;
     (t, d) \<leftarrow> sample_get_chain_source d s1 c;
     (duration, d) \<leftarrow> (if t = 0
        then do {
          (x, d) \<leftarrow> sample_exists d k;
          if x = 0 then Some (duration, d)
          else do { (tmp, d) \<leftarrow> mix_duration d k; Some (if tmp > duration then tmp else duration, d) }
        }
        else Some (duration, d));
     longest_loop s1 n (c + 1) duration d }"

definition sample_get_longest :: "adm \<Rightarrow> int \<Rightarrow> (int \<times> adm) option" where
  "sample_get_longest d s1 = with_sample d s1 0 (\<lambda>d a si. do {
     let len = int32_of_long (si_last_frame si - si_first_frame si);
     speed \<leftarrow> c_abs (si_speed si);
     let speed = (if speed = 0 then 1 else speed);
     duration \<leftarrow> c_div len speed;
     let duration = (if si_looptype si = 2 then duration * 2 else duration);
     (dup, d) \<leftarrow> sample_get_framedup d s1;
     let duration = (if dup > 0 then duration * dup else duration);
     longest_loop s1 SAMPLE_MAX_EFFECTS 0 duration d })"

subsection \<open>Operations that touch other parts of the state\<close>

text \<open>
  \<open>side d d'\<close>: between \<open>d\<close> and \<open>d'\<close> no sample changed, though effects, ports, caches or streams may have.
\<close>

definition side :: "adm \<Rightarrow> adm \<Rightarrow> bool" where
  "side d d' \<longleftrightarrow> adm_ok d' \<and> ad_samples d' = ad_samples d \<and> (\<forall>k. find_sample d' k = find_sample d k) \<and>
     this_sample_id d' = this_sample_id d"

lemma side_refl: "adm_ok d \<Longrightarrow> side d d"
  by (simp add: side_def)

lemma side_trans: "side d d1 \<Longrightarrow> side d1 d2 \<Longrightarrow> side d d2"
  by (simp add: side_def)

lemma side_upd:
  assumes "adm_ok d"
  shows "side d (d\<lparr>ad_fx := x1\<rparr>)" "side d (d\<lparr>ad_ports := x2\<rparr>)" "side d (d\<lparr>ad_tags := x3\<rparr>)"
    "side d (d\<lparr>ad_els := x4\<rparr>)" "side d (d\<lparr>ad_els := x5, ad_elg := x6\<rparr>)"
  using assms by (auto simp: side_def elim!: adm_ok_cong)

lemma side_memo: "adm_ok d \<Longrightarrow> side d (memo_sample d k)"
  by (simp add: side_def adm_ok_memo)

lemma side_ok: "side d d' \<Longrightarrow> adm_ok d'"
  by (simp add: side_def)

lemma side_sample_at: "side d d' \<Longrightarrow> sample_at d' k = sample_at d k"
  by (simp add: side_def sample_at_def split: option.splits)

lemma sample_exists_side:
  assumes "adm_ok d" "k < SAMPLE_MAX_SAMPLES"
  shows "\<exists>x d'. sample_exists d k = Some (x, d') \<and> side d d' \<and> ad_fx d' = ad_fx d \<and> ad_ports d' = ad_ports d \<and>
    ad_els d' = ad_els d \<and> ad_elg d' = ad_elg d \<and> ad_tags d' = ad_tags d"
  using sample_exists_at [OF assms] side_memo [OF assms(1), of k] side_refl [OF assms(1)] by auto

lemma with_sample_found:
  assumes "adm_ok d" "k \<noteq> SAMPLE_MAX_SAMPLES" "find_sample d k = Some a" "sample_at d k = Some si"
    "K (memo_sample d k) a si = r"
  shows "with_sample d k dflt K = r"
  using assms by (simp add: with_sample_find [OF assms(1,2)] sample_at_def)

lemma put_side:
  assumes "adm_ok d" "find_sample d k = Some a" "sample_at d k = Some si" "side (memo_sample d k) d1"
    "si_sample_id si' = si_sample_id si"
  shows "adm_ok (put_sample a si' d1)"
    "sample_at (put_sample a si' d1) j = (if j = k then Some si' else sample_at d j)"
proof -
  have si: "ad_samples d a = Some si" using assms(2,3) by (simp add: sample_at_def)
  have d1: "adm_ok d1" "ad_samples d1 = ad_samples d" "find_sample d1 j = find_sample d j" for j
    using assms(4) by (simp_all add: side_def)
  show "adm_ok (put_sample a si' d1)"
    using adm_ok_put [OF d1(1), of a si si'] si assms(5) d1(2) by (simp add: put_sample_def)
  have "find_sample d j = Some a \<longleftrightarrow> j = k" using find_sample_inj [OF assms(1,2)] assms(2) by metis
  then show "sample_at (put_sample a si' d1) j = (if j = k then Some si' else sample_at d j)"
    using d1(2,3) by (auto simp: sample_at_def put_sample_def split: option.splits)
qed

text \<open>Chains of the declared size, with effects the registry knows.\<close>

definition chain_shape :: "sample_info \<Rightarrow> bool" where
  "chain_shape si \<longleftrightarrow> length (si_effect_chain si) = SAMPLE_MAX_EFFECTS \<and>
     (\<forall>e \<in> set (si_effect_chain si). length (sc_arg e) = SAMPLE_MAX_PARAMETERS)"

definition fx_known :: "fx_table \<Rightarrow> int \<Rightarrow> bool" where
  "fx_known T e \<longleftrightarrow> vj_effect_is_valid T e = 1 \<and>
     (\<exists>v. vj_effects T (vj_effect_real_to_sequence e) = Some v \<and> 0 \<le> ve_num_params v \<and>
        ve_num_params v \<le> int SAMPLE_MAX_PARAMETERS \<and> ve_num_params v \<le> int (length (ve_defaults v)))"

lemma fx_known_entry:
  assumes "fx_table_ok T" "fx_known T e"
  obtains v where "fx_entry T (vj_effect_real_to_sequence e) = Some v" "0 \<le> e" "0 < vj_effect_real_to_sequence e"
    "0 \<le> ve_num_params v" "ve_num_params v \<le> int SAMPLE_MAX_PARAMETERS" "ve_num_params v \<le> int (length (ve_defaults v))"
proof -
  have s: "0 < vj_effect_real_to_sequence e" "vj_effect_real_to_sequence e < MAX_EFFECTS + n_ext_plugs T"
    using is_valid_sequence [of T e] assms by (auto simp: fx_table_ok_def fx_known_def vj_effect_max_effects_def)
  have "0 \<le> e" using s(1) by (auto simp: vj_effect_real_to_sequence_def fx_consts split: if_splits)
  with s assms that show ?thesis by (auto simp: fx_known_def fx_entry_def fx_table_ok_def)
qed

lemma chain_defaults_spec:
  assumes "fx_entry T (vj_effect_real_to_sequence e) = Some v" "0 < vj_effect_real_to_sequence e"
    "int n \<le> ve_num_params v" "n \<le> length (ve_defaults v)" "n \<le> length xs"
  shows "chain_defaults T e n xs = Some (take n (ve_defaults v) @ drop n xs)"
  using assms
proof (induction n)
  case (Suc n)
  have "vj_effect_get_default T e (int n) = Some (ve_defaults v ! n)"
    using Suc.prems by (simp add: vj_effect_get_default_def Let_def fx_nth_def)
  moreover have "(take n (ve_defaults v) @ drop n xs)[n := ve_defaults v ! n] =
      take (Suc n) (ve_defaults v) @ drop (Suc n) xs"
  proof -
    have "drop n xs = xs ! n # drop (Suc n) xs" using Suc.prems by (simp add: Cons_nth_drop_Suc)
    then show ?thesis using Suc.prems by (simp add: take_Suc_conv_app_nth list_update_append min_def)
  qed
  ultimately show ?case using Suc by (simp add: c_update_def min_def)
qed simp

subsection \<open>Adding an effect\<close>

text \<open>A keyframe port that an entry holds is live.\<close>

definition kf_live :: "adm \<Rightarrow> sample_eff_chain \<Rightarrow> bool" where
  "kf_live d e \<longleftrightarrow> (case sc_kf e of None \<Rightarrow> True | Some k \<Rightarrow> k \<in> ad_ports d)"

lemma fx_deactivate_side:
  assumes "fx_table_ok (ad_fx d)" "fx_on d e"
  shows "\<exists>T. fx_deactivate e d = Some (e\<lparr>sc_fx_instance := None\<rparr>, d\<lparr>ad_fx := T\<rparr>) \<and> fx_table_ok T \<and>
    n_ext_plugs T = n_ext_plugs (ad_fx d) \<and> vj_effects T = vj_effects (ad_fx d) \<and>
    (\<exists>r. vj_effect_deactivate (ad_fx d) (sc_effect_id e) (sc_fx_instance e) = Some (r, T))"
proof -
  obtain r T where d: "vj_effect_deactivate (ad_fx d) (sc_effect_id e) (sc_fx_instance e) = Some (r, T)"
      "fx_table_ok T" "n_ext_plugs T = n_ext_plugs (ad_fx d)"
    using deactivate_initialized [OF assms(1), of "sc_effect_id e" "sc_fx_instance e"] assms(2) by (auto simp: fx_on_def)
  moreover have "vj_effects T = vj_effects (ad_fx d)"
    using d(1) by (auto simp: vj_effect_deactivate_def Let_def set_fx_ready_def fx_ready_at_def split: if_splits)
  ultimately show ?thesis by (auto simp: fx_deactivate_def)
qed

lemma chain_add_release_side:
  assumes "fx_table_ok (ad_fx d)"
  obtains T e' where "chain_add_release c x si e d = Some (e', d\<lparr>ad_fx := T\<rparr>)" "fx_table_ok T"
    "n_ext_plugs T = n_ext_plugs (ad_fx d)" "vj_effects T = vj_effects (ad_fx d)"
    "e' = e \<or> e' = e\<lparr>sc_fx_instance := None\<rparr>" "fx_on d e \<and> sc_effect_id e = x \<longrightarrow> e' = e \<and> T = ad_fx d"
proof (cases "sc_effect_id e \<noteq> - 1 \<and> sc_effect_id e \<noteq> x \<and> fx_on d e \<and>
    (vj_effect_is_plugin (ad_fx d) (sc_effect_id e) = 0 \<longrightarrow>
      (\<forall>i \<in> set [0..<SAMPLE_MAX_EFFECTS]. int i \<noteq> c \<longrightarrow> sc_effect_id (si_effect_chain si ! i) \<noteq> x))")
  case True
  obtain T where T: "fx_deactivate e d = Some (e\<lparr>sc_fx_instance := None\<rparr>, d\<lparr>ad_fx := T\<rparr>)" "fx_table_ok T"
      "n_ext_plugs T = n_ext_plugs (ad_fx d)" "vj_effects T = vj_effects (ad_fx d)"
    using fx_deactivate_side [OF assms, of e] True by auto
  show ?thesis
    by (rule that [of "e\<lparr>sc_fx_instance := None\<rparr>" T]) (use True T in \<open>auto simp: chain_add_release_def Let_def\<close>)
next
  case False
  show ?thesis
    by (rule that [of e "ad_fx d"]) (use False assms in \<open>auto simp: chain_add_release_def Let_def\<close>)
qed

text \<open>The entry after \<open>chain_add_setup\<close>: new defaults only when the effect is a new one for the entry.\<close>

definition with_defaults :: "vj_effect \<Rightarrow> int \<Rightarrow> sample_eff_chain \<Rightarrow> sample_eff_chain" where
  "with_defaults v x e =
     (if sc_effect_id e = x then e
      else e\<lparr>sc_arg := take (nat (ve_num_params v)) (ve_defaults v) @ drop (nat (ve_num_params v)) (sc_arg e),
             sc_e_flag := 1, sc_kf_status := 0, sc_kf_type := 0, sc_kf := None, sc_effect_id := x\<rparr>)"

lemma chain_add_setup_side:
  assumes "adm_ok d" "fx_entry (ad_fx d) (vj_effect_real_to_sequence x) = Some v" "0 \<le> x" "0 < vj_effect_real_to_sequence x"
    "0 \<le> ve_num_params v" "ve_num_params v \<le> int SAMPLE_MAX_PARAMETERS" "ve_num_params v \<le> int (length (ve_defaults v))"
    "length (sc_arg e) = SAMPLE_MAX_PARAMETERS" "kf_live d e"
  obtains d' where "chain_add_setup d x e = Some (with_defaults v x e, d')" "side d d'" "ad_fx d' = ad_fx d"
proof -
  have n: "vj_effect_get_num_params (ad_fx d) x = Some (ve_num_params v)"
    using assms(2-4) by (simp add: vj_effect_get_num_params_def Let_def)
  have df: "chain_defaults (ad_fx d) x (nat (ve_num_params v)) (sc_arg e) =
      Some (take (nat (ve_num_params v)) (ve_defaults v) @ drop (nat (ve_num_params v)) (sc_arg e))"
    by (rule chain_defaults_spec [OF assms(2,4)]) (use assms(5-8) in auto)
  show ?thesis
  proof (cases "sc_effect_id e = x")
    case True
    show ?thesis by (rule that [of d]) (use True n side_refl [OF assms(1)] in \<open>simp_all add: chain_add_setup_def with_defaults_def\<close>)
  next
    case False
    show ?thesis
      by (rule that [of "case sc_kf e of None \<Rightarrow> d | Some k \<Rightarrow> d\<lparr>ad_ports := ad_ports d - {k}\<rparr>"])
        (use False n df assms(9) side_refl [OF assms(1)] side_upd(2) [OF assms(1)] in
          \<open>auto simp: chain_add_setup_def with_defaults_def free_ptr_def vpf_def kf_live_def split: option.splits\<close>)
  qed
qed

lemma chain_add_activate_side:
  assumes "fx_table_ok (ad_fx d)" "vj_effect_is_valid (ad_fx d) x = 1"
  obtains ok e' T where "chain_add_activate fe x e d = Some (ok, e', d\<lparr>ad_fx := T\<rparr>)" "fx_table_ok T"
    "vj_effects T = vj_effects (ad_fx d)" "n_ext_plugs T = n_ext_plugs (ad_fx d)"
    "\<forall>y q. y \<noteq> x \<longrightarrow> vj_effect_initialized T y q = vj_effect_initialized (ad_fx d) y q"
    "ok \<longrightarrow> vj_effect_initialized T x (sc_fx_instance e') = 1 \<and> e' \<in> range (\<lambda>q. e\<lparr>sc_fx_instance := q\<rparr>)"
    "\<not> ok \<longrightarrow> sc_effect_id e' = - 1 \<and> sc_arg e' = replicate SAMPLE_MAX_PARAMETERS 0"
proof (cases "vj_effect_initialized (ad_fx d) x (sc_fx_instance e) = 0")
  case False
  then have "vj_effect_initialized (ad_fx d) x (sc_fx_instance e) = 1"
    using initialized_bool [of "ad_fx d" x "sc_fx_instance e"] by auto
  moreover have "e \<in> range (\<lambda>q. e\<lparr>sc_fx_instance := q\<rparr>)" by (rule range_eqI [of _ _ "sc_fx_instance e"]) simp
  ultimately show ?thesis
    using assms(1) by (intro that [of True e "ad_fx d"]) (simp_all add: chain_add_activate_def)
next
  case True
  obtain q res T where act: "vj_effect_activate fe (ad_fx d) x = Some (q, res, T)" "fx_table_ok T"
      "n_ext_plugs T = n_ext_plugs (ad_fx d)" "vj_effects T = vj_effects (ad_fx d)"
    using activate_defined [OF assms(1)] by metis
  have s: "0 \<le> vj_effect_real_to_sequence x" "vj_effect_real_to_sequence x < MAX_EFFECTS + n_ext_plugs (ad_fx d)"
    using is_valid_sequence [OF assms(2)] assms(1) by (auto simp: fx_table_ok_def vj_effect_max_effects_def)
  have other: "\<forall>y q. y \<noteq> x \<longrightarrow> vj_effect_initialized T y q = vj_effect_initialized (ad_fx d) y q"
  proof (intro allI impI)
    fix y q assume "y \<noteq> x"
    then have "vj_effect_real_to_sequence y \<noteq> vj_effect_real_to_sequence x"
      using sequence_inj [OF s(1), of y] by metis
    then show "vj_effect_initialized T y q = vj_effect_initialized (ad_fx d) y q"
      using activate_table [OF act(1)] set_fx_ready_initialized_other by metis
  qed
  show ?thesis
  proof (cases "res = 0")
    case r0: True
    show ?thesis
      by (rule that [of False "e\<lparr>sc_fx_instance := q, sc_effect_id := - 1, sc_e_flag := 1,
            sc_arg := replicate SAMPLE_MAX_PARAMETERS 0, sc_frame_trimmer := 0\<rparr>" T])
        (use True r0 act other in \<open>simp_all add: chain_add_activate_def\<close>)
  next
    case r1: False
    show ?thesis
      by (rule that [of True "e\<lparr>sc_fx_instance := q\<rparr>" T])
        (use True r1 act other activate_initialized [OF act(1) assms(1) s r1] in \<open>auto simp: chain_add_activate_def\<close>)
  qed
qed

definition mixed_in :: "adm \<Rightarrow> int \<Rightarrow> sample_eff_chain \<Rightarrow> sample_eff_chain" where
  "mixed_in d xf e =
     (if xf = 0 then e
      else let e = e\<lparr>sc_frame_trimmer := 0\<rparr>;
               e = (if sc_channel e \<le> 0 then e\<lparr>sc_channel := this_sample_id d - 1\<rparr> else e)
           in (if sc_source_type e < 0 then e\<lparr>sc_source_type := 0\<rparr> else e))"

lemma chain_add_mix_side:
  assumes "adm_ok d" "k < SAMPLE_MAX_SAMPLES" "fx_entry (ad_fx d) (vj_effect_real_to_sequence x) = Some v"
    "0 \<le> x" "0 < vj_effect_real_to_sequence x"
  obtains d' where "chain_add_mix k x e d = Some (mixed_in d (ve_extra_frame v) e, d')" "side d d'" "ad_fx d' = ad_fx d"
proof -
  have xf: "vj_effect_get_extra_frame (ad_fx d) x = Some (ve_extra_frame v)"
    using assms(3-5) by (simp add: vj_effect_get_extra_frame_def Let_def)
  show ?thesis
  proof (cases "ve_extra_frame v = 0")
    case True
    show ?thesis
      by (rule that [of d]) (use True xf side_refl [OF assms(1)] in \<open>simp_all add: chain_add_mix_def mixed_in_def\<close>)
  next
    case False
    define j where "j = (if k > 1 then k - 1 else k)"
    have "j < SAMPLE_MAX_SAMPLES" using assms(2) by (simp add: j_def)
    then obtain r d' where d': "sample_exists d j = Some (r, d')" "side d d'" "ad_fx d' = ad_fx d"
      using sample_exists_side [OF assms(1)] by blast
    then show ?thesis
      by (intro that [of d']) (use False xf in \<open>simp_all add: chain_add_mix_def j_def [symmetric] mixed_in_def sample_size_def side_def Let_def\<close>)
  qed
qed

lemma put_entry_simps [simp]:
  "si_sample_id (put_entry p e si) = si_sample_id si"
  "si_effect_chain (put_entry p e si) = (si_effect_chain si)[nat p := e]"
  by (simp_all add: put_entry_def)

lemma chain_shape_put:
  assumes "chain_shape si" "length (sc_arg e) = SAMPLE_MAX_PARAMETERS"
  shows "chain_shape (put_entry p e si)"
  using assms set_update_subset_insert [of "si_effect_chain si" "nat p" e] by (auto simp: chain_shape_def)

lemma chain_entry_in:
  assumes "chain_shape si" "\<not> outside p"
  shows "chain_entry si p = Some (si_effect_chain si ! nat p)" "nat p < length (si_effect_chain si)"
    "length (sc_arg (si_effect_chain si ! nat p)) = SAMPLE_MAX_PARAMETERS"
proof -
  show "chain_entry si p = Some (si_effect_chain si ! nat p)" "nat p < length (si_effect_chain si)"
    using assms by (simp_all add: chain_entry_def chain_shape_def outside_def nat_less_iff)
  then show "length (sc_arg (si_effect_chain si ! nat p)) = SAMPLE_MAX_PARAMETERS"
    using assms(1) by (simp add: chain_shape_def)
qed

lemma mixed_in_keeps [simp]:
  "sc_effect_id (mixed_in d xf e) = sc_effect_id e" "sc_arg (mixed_in d xf e) = sc_arg e"
  "sc_fx_instance (mixed_in d xf e) = sc_fx_instance e" "sc_e_flag (mixed_in d xf e) = sc_e_flag e"
  by (simp_all add: mixed_in_def Let_def)

lemma with_defaults_keeps [simp]:
  "sc_effect_id (with_defaults v x e) = x" "sc_fx_instance (with_defaults v x e) = sc_fx_instance e"
  by (simp_all add: with_defaults_def)

lemma with_defaults_args:
  assumes "length (sc_arg e) = SAMPLE_MAX_PARAMETERS" "0 \<le> ve_num_params v" "ve_num_params v \<le> int SAMPLE_MAX_PARAMETERS"
    "ve_num_params v \<le> int (length (ve_defaults v))"
  shows "length (sc_arg (with_defaults v x e)) = SAMPLE_MAX_PARAMETERS"
    "sc_effect_id e \<noteq> x \<Longrightarrow> take (nat (ve_num_params v)) (sc_arg (with_defaults v x e)) = take (nat (ve_num_params v)) (ve_defaults v)"
  using assms by (auto simp: with_defaults_def min_def)

text \<open>A chain whose entries all are well formed, in a state whose registry is.\<close>

definition chain_env :: "adm \<Rightarrow> int \<Rightarrow> sample_info \<Rightarrow> bool" where
  "chain_env d k si \<longleftrightarrow> adm_ok d \<and> fx_table_ok (ad_fx d) \<and> sample_at d k = Some si \<and> chain_shape si"

lemma chain_envD:
  assumes "chain_env d k si"
  shows "adm_ok d" "fx_table_ok (ad_fx d)" "sample_at d k = Some si" "chain_shape si" "k < SAMPLE_MAX_SAMPLES"
    "k \<noteq> SAMPLE_MAX_SAMPLES" "\<exists>a. find_sample d k = Some a"
  using assms by (auto simp: chain_env_def sample_at_def find_sample_def split: option.splits if_splits)

text \<open>How adding an effect turns out, on the entry it is added to.\<close>

lemma chain_add_cases:
  assumes "chain_env d k si" "\<not> outside c" "fx_known (ad_fx d) x" "kf_live d (si_effect_chain si ! nat c)"
  obtains r e' d' where "sample_chain_add fe d k c x = Some (r, d')" "r = 0 \<or> r = 1" "adm_ok d'"
    "fx_table_ok (ad_fx d')" "\<And>j. sample_at d' j = (if j = k then Some (put_entry c e' si) else sample_at d j)"
    "length (sc_arg e') = SAMPLE_MAX_PARAMETERS" "r = 0 \<longrightarrow> sc_effect_id e' = - 1"
    "\<And>T1 e1 y q. chain_add_release c x si (si_effect_chain si ! nat c) (memo_sample d k) = Some (e1, (memo_sample d k)\<lparr>ad_fx := T1\<rparr>) \<Longrightarrow>
       y \<noteq> x \<Longrightarrow> vj_effect_initialized (ad_fx d') y q = vj_effect_initialized T1 y q"
    "r = 1 \<longrightarrow> sc_effect_id e' = x \<and> vj_effect_initialized (ad_fx d') x (sc_fx_instance e') = 1 \<and>
       (sc_effect_id (si_effect_chain si ! nat c) \<noteq> x \<longrightarrow> sc_e_flag e' = 1 \<and>
          (\<exists>v. vj_effects (ad_fx d) (vj_effect_real_to_sequence x) = Some v \<and>
             take (nat (ve_num_params v)) (sc_arg e') = take (nat (ve_num_params v)) (ve_defaults v)))"
proof -
  note env = chain_envD [OF assms(1)]
  let ?e = "si_effect_chain si ! nat c"
  let ?d = "memo_sample d k"
  note en = chain_entry_in [OF env(4) assms(2)]
  obtain a where a: "find_sample d k = Some a" using env(7) by blast
  have ok: "adm_ok ?d" "fx_table_ok (ad_fx ?d)" using env by (simp_all add: adm_ok_memo)
  obtain v where v: "fx_entry (ad_fx d) (vj_effect_real_to_sequence x) = Some v" "0 \<le> x" "0 < vj_effect_real_to_sequence x"
    "0 \<le> ve_num_params v" "ve_num_params v \<le> int SAMPLE_MAX_PARAMETERS" "ve_num_params v \<le> int (length (ve_defaults v))"
    using fx_known_entry [OF env(2) assms(3)] by blast
  obtain T1 e1 where 1: "chain_add_release c x si ?e ?d = Some (e1, ?d\<lparr>ad_fx := T1\<rparr>)" "fx_table_ok T1"
      "n_ext_plugs T1 = n_ext_plugs (ad_fx d)" "vj_effects T1 = vj_effects (ad_fx d)" "e1 = ?e \<or> e1 = ?e\<lparr>sc_fx_instance := None\<rparr>"
    using chain_add_release_side [OF ok(2), of c x si ?e] unfolding memo_fields by blast
  let ?d1 = "?d\<lparr>ad_fx := T1\<rparr>"
  have s1: "side ?d ?d1" by (rule side_upd(1) [OF ok(1)])
  have valid: "vj_effect_is_valid (ad_fx ?d1) x = 1"
    using assms(3) 1(3) by (simp add: fx_known_def vj_effect_is_valid_def)
  have fx1: "ad_fx ?d1 = T1" and ft1: "fx_table_ok (ad_fx ?d1)" using 1(2) by simp_all
  obtain okr e2 T2 where 2: "chain_add_activate fe x e1 ?d1 = Some (okr, e2, ?d1\<lparr>ad_fx := T2\<rparr>)" "fx_table_ok T2"
      "vj_effects T2 = vj_effects T1" "n_ext_plugs T2 = n_ext_plugs T1"
      "\<forall>y q. y \<noteq> x \<longrightarrow> vj_effect_initialized T2 y q = vj_effect_initialized T1 y q"
      "okr \<longrightarrow> vj_effect_initialized T2 x (sc_fx_instance e2) = 1 \<and> e2 \<in> range (\<lambda>q. e1\<lparr>sc_fx_instance := q\<rparr>)"
      "\<not> okr \<longrightarrow> sc_effect_id e2 = - 1 \<and> sc_arg e2 = replicate SAMPLE_MAX_PARAMETERS 0"
    using chain_add_activate_side [OF ft1 valid, of fe e1] unfolding fx1 by blast
  let ?d2 = "?d1\<lparr>ad_fx := T2\<rparr>"
  have rel: "T1' = T1" if "chain_add_release c x si ?e ?d = Some (e1', ?d\<lparr>ad_fx := T1'\<rparr>)" for e1' T1'
  proof -
    have "?d\<lparr>ad_fx := T1'\<rparr> = ?d\<lparr>ad_fx := T1\<rparr>" using that 1(1) by simp
    then show ?thesis by (metis fx1 adm.select_convs(17) adm.surjective adm.update_convs(17))
  qed
  have s2: "side ?d ?d2" using side_trans [OF s1 side_upd(1) [OF side_ok [OF s1]]] .
  show ?thesis
  proof (cases okr)
    case False
    note w = put_side [OF env(1) a env(3) s2, of "put_entry c e2 si"]
    show ?thesis
    proof (rule that [of 0 "put_sample a (put_entry c e2 si) ?d2" e2])
      show "sample_chain_add fe d k c x = Some (0, put_sample a (put_entry c e2 si) ?d2)"
        unfolding sample_chain_add_def by (rule with_sample_found [OF env(1,6) a env(3)]) (use False assms(2) en 1 2 in simp_all)
      show "vj_effect_initialized (ad_fx (put_sample a (put_entry c e2 si) ?d2)) y q = vj_effect_initialized T1' y q"
        if "chain_add_release c x si ?e ?d = Some (e1', ?d\<lparr>ad_fx := T1'\<rparr>)" "y \<noteq> x" for T1' e1' y q
        using rel [OF that(1)] 2(5) that(2) by (simp add: put_sample_def)
    qed (use w False 2(2,6,7) in \<open>simp_all add: put_sample_def\<close>)
  next
    case True
    have fx2: "ad_fx ?d2 = T2" by simp
    have e2: "sc_effect_id e2 = sc_effect_id ?e" "sc_arg e2 = sc_arg ?e" "sc_kf e2 = sc_kf ?e"
      using 1(5) 2(6) True by auto
    have kf: "kf_live ?d2 e2" using assms(4) e2 by (simp add: kf_live_def split: option.splits)
    have v2: "fx_entry (ad_fx ?d2) (vj_effect_real_to_sequence x) = Some v"
      using v(1) 1(4) 2(3) by (simp add: fx_entry_def split: if_splits)
    have len: "length (sc_arg e2) = SAMPLE_MAX_PARAMETERS" using e2 en by simp
    obtain d3 where 3: "chain_add_setup ?d2 x e2 = Some (with_defaults v x e2, d3)" "side ?d2 d3" "ad_fx d3 = T2"
      using chain_add_setup_side [OF side_ok [OF s2] v2 v(2-6) len kf] unfolding fx2 by blast
    let ?e3 = "with_defaults v x e2"
    have v3: "fx_entry (ad_fx d3) (vj_effect_real_to_sequence x) = Some v" using v2 3(3) by simp
    obtain d4 where 4: "chain_add_mix k x ?e3 d3 = Some (mixed_in d3 (ve_extra_frame v) ?e3, d4)" "side d3 d4" "ad_fx d4 = T2"
      using chain_add_mix_side [OF side_ok [OF 3(2)] env(5) v3 v(2,3), of ?e3] unfolding 3(3) by blast
    let ?e4 = "mixed_in d3 (ve_extra_frame v) ?e3"
    have s4: "side ?d d4" using side_trans [OF side_trans [OF s2 3(2)] 4(2)] .
    note w = put_side [OF env(1) a env(3) s4, of "put_entry c ?e4 si"]
    have vv: "vj_effects (ad_fx d) (vj_effect_real_to_sequence x) = Some v"
      using v(1) by (simp add: fx_entry_def split: if_splits)
    show ?thesis
    proof (rule that [of 1 "put_sample a (put_entry c ?e4 si) d4" ?e4])
      show "sample_chain_add fe d k c x = Some (1, put_sample a (put_entry c ?e4 si) d4)"
        unfolding sample_chain_add_def by (rule with_sample_found [OF env(1,6) a env(3)]) (use True assms(2) en 1 2 3 4 in simp_all)
      show "length (sc_arg ?e4) = SAMPLE_MAX_PARAMETERS" using with_defaults_args [OF len v(4-6)] by simp
      show "1 = 1 \<longrightarrow> sc_effect_id ?e4 = x \<and>
          vj_effect_initialized (ad_fx (put_sample a (put_entry c ?e4 si) d4)) x (sc_fx_instance ?e4) = 1 \<and>
          (sc_effect_id ?e \<noteq> x \<longrightarrow> sc_e_flag ?e4 = 1 \<and>
          (\<exists>v. vj_effects (ad_fx d) (vj_effect_real_to_sequence x) = Some v \<and>
             take (nat (ve_num_params v)) (sc_arg ?e4) = take (nat (ve_num_params v)) (ve_defaults v)))"
        using 2(6) True 4(3) with_defaults_args [OF len v(4-6)] vv e2(1)
        by (auto simp: put_sample_def with_defaults_def)
      show "vj_effect_initialized (ad_fx (put_sample a (put_entry c ?e4 si) d4)) y q = vj_effect_initialized T1' y q"
        if "chain_add_release c x si ?e ?d = Some (e1', ?d\<lparr>ad_fx := T1'\<rparr>)" "y \<noteq> x" for T1' e1' y q
        using rel [OF that(1)] 2(5) that(2) 4(3) by (simp add: put_sample_def)
    qed (use w 2(2) 4(3) in \<open>simp_all add: put_sample_def\<close>)
  qed
qed

lemma chain_env_put:
  assumes "chain_env d k si" "adm_ok d'" "fx_table_ok (ad_fx d')" "length (sc_arg e) = SAMPLE_MAX_PARAMETERS"
    "\<And>j. sample_at d' j = (if j = k then Some (put_entry p e si) else sample_at d j)"
  shows "chain_env d' k (put_entry p e si)"
  using assms(2-5) chain_shape_put [OF chain_envD(4) [OF assms(1)]] by (simp add: chain_env_def)

subsection \<open>Removing an effect\<close>

text \<open>What the caches of the mixed-in samples need: their edit lists are live.\<close>

definition lists_live :: "adm \<Rightarrow> bool" where
  "lists_live d \<longleftrightarrow> (\<forall>a si e. ad_samples d a = Some si \<longrightarrow> si_edit_list si = Some e \<longrightarrow> ad_els d e \<noteq> None)"

lemma ad_clear_cache_side:
  assumes "adm_ok d" "\<forall>e. q = Some e \<longrightarrow> ad_els d e \<noteq> None"
  shows "\<exists>d'. ad_clear_cache q d = Some d' \<and> side d d' \<and> ad_fx d' = ad_fx d \<and> ad_ports d' = ad_ports d \<and>
    (\<forall>e. ad_els d e \<noteq> None \<longrightarrow> ad_els d' e \<noteq> None)"
proof (cases q)
  case None
  then show ?thesis using side_refl [OF assms(1)] by (simp add: ad_clear_cache_def)
next
  case (Some e)
  then obtain el where "ad_els d e = Some el" using assms(2) by auto
  with Some show ?thesis using side_upd(5) [OF assms(1)] by (auto simp: ad_clear_cache_def split: prod.split)
qed

lemma on_list_clear_side:
  assumes "adm_ok d" "lists_live d" "k \<noteq> SAMPLE_MAX_SAMPLES"
  shows "\<exists>d'. on_list_of d k ad_clear_cache = Some d' \<and> side d d' \<and> ad_fx d' = ad_fx d \<and> lists_live d' \<and>
    ad_ports d' = ad_ports d"
proof (cases "find_sample d k")
  case None
  then show ?thesis
    using side_memo [OF assms(1), of k] assms(2) by (auto simp: on_list_of_def sample_get_find [OF assms(1,3)] lists_live_def)
next
  case (Some a)
  then obtain si where si: "ad_samples d a = Some si" using find_sample_live [OF assms(1)] by metis
  let ?m = "memo_sample d k"
  obtain d' where d': "ad_clear_cache (si_edit_list si) ?m = Some d'" "side ?m d'" "ad_fx d' = ad_fx ?m"
      "ad_ports d' = ad_ports ?m" "\<forall>e. ad_els ?m e \<noteq> None \<longrightarrow> ad_els d' e \<noteq> None"
    using ad_clear_cache_side [OF adm_ok_memo [OF assms(1)], of "si_edit_list si" k] assms(2) si
    by (auto simp: lists_live_def)
  have "ad_samples d' = ad_samples d" using d'(2) by (simp add: side_def)
  then have "lists_live d'" using assms(2) d'(5) by (auto simp: lists_live_def)
  then show ?thesis
    using Some si d' side_trans [OF side_memo [OF assms(1)] d'(2)]
    by (simp add: on_list_of_def sample_get_find [OF assms(1,3)])
qed

lemma release_stream_side:
  assumes "adm_ok d"
  shows "side d (release_stream e d)" "ad_fx (release_stream e d) = ad_fx d" "ad_els (release_stream e d) = ad_els d"
    "ad_ports (release_stream e d) = ad_ports d"
  using side_refl [OF assms] side_upd(3) [OF assms]
  by (auto simp: release_stream_def vj_tag_disable_def split: option.splits)

text \<open>The entry that \<open>chain_blank\<close> leaves.\<close>

definition blank_of :: "int \<Rightarrow> sample_eff_chain \<Rightarrow> sample_eff_chain" where
  "blank_of ch e = e\<lparr>sc_effect_id := - 1, sc_frame_offset := 0, sc_frame_trimmer := 0, sc_volume := 0, sc_a_flag := 0,
             sc_kf := None, sc_source_type := 0, sc_channel := ch, sc_arg := replicate SAMPLE_MAX_PARAMETERS 0\<rparr>"

lemma chain_blank_side:
  assumes "adm_ok d" "lists_live d" "sc_channel e \<noteq> SAMPLE_MAX_SAMPLES" "kf_live d e"
  obtains d' where "chain_blank ch e d = Some (blank_of ch e, d')" "side d d'" "ad_fx d' = ad_fx d" "lists_live d'"
    "ad_ports d' = ad_ports d - set_option (sc_kf e)"
proof -
  define d1 where "d1 = (case sc_kf e of None \<Rightarrow> d | Some k \<Rightarrow> d\<lparr>ad_ports := ad_ports d - {k}\<rparr>)"
  have 1: "free_ptr vpf (sc_kf e) d = Some d1" "side d d1" "ad_fx d1 = ad_fx d" "lists_live d1"
      "ad_ports d1 = ad_ports d - set_option (sc_kf e)"
    using assms side_refl [OF assms(1)] side_upd(2) [OF assms(1)]
    by (auto simp: d1_def free_ptr_def vpf_def kf_live_def lists_live_def split: option.splits)
  obtain d2 where 2: "(if sc_source_type e = 0 \<and> sc_channel e > 0 then on_list_of d1 (sc_channel e) ad_clear_cache else Some d1) = Some d2"
      "side d1 d2" "ad_fx d2 = ad_fx d1" "lists_live d2" "ad_ports d2 = ad_ports d1"
  proof (cases "sc_source_type e = 0 \<and> sc_channel e > 0")
    case True
    obtain d2 where "on_list_of d1 (sc_channel e) ad_clear_cache = Some d2" "side d1 d2" "ad_fx d2 = ad_fx d1"
        "lists_live d2" "ad_ports d2 = ad_ports d1"
      using on_list_clear_side [OF side_ok [OF 1(2)] 1(4) assms(3)] by blast
    with True that show ?thesis by simp
  next
    case False
    then show ?thesis using that [of d1] side_refl [OF side_ok [OF 1(2)]] 1(4) by auto
  qed
  note r = release_stream_side [OF side_ok [OF 2(2)], of e]
  show ?thesis
  proof (rule that [of "release_stream e d2"])
    show "chain_blank ch e d = Some (blank_of ch e, release_stream e d2)"
      using 1(1) 2(1) by (simp add: chain_blank_def blank_of_def)
    show "side d (release_stream e d2)" by (rule side_trans [OF side_trans [OF 1(2) 2(2)] r(1)])
    show "lists_live (release_stream e d2)"
      using 2(4) r(1,3) by (simp add: lists_live_def side_def)
  qed (use 1 2 r in auto)
qed

lemma chain_remove_cases:
  assumes "chain_env d k si" "\<not> outside p" "lists_live d" "kf_live d (si_effect_chain si ! nat p)"
    "sc_channel (si_effect_chain si ! nat p) \<noteq> SAMPLE_MAX_SAMPLES"
  obtains e' d' where "sample_chain_remove d k p = Some (1, d')" "adm_ok d'" "fx_table_ok (ad_fx d')"
    "\<And>j. sample_at d' j = (if j = k then Some (put_entry p e' si) else sample_at d j)"
    "sc_effect_id e' = - 1" "sc_source_type e' = 0" "sc_arg e' = replicate SAMPLE_MAX_PARAMETERS 0"
    "\<And>i. i < SAMPLE_MAX_EFFECTS \<Longrightarrow> int i \<noteq> p \<Longrightarrow> fx_on d' (si_effect_chain si ! i) = fx_on d (si_effect_chain si ! i)"
    "ad_ports d' = ad_ports d - set_option (sc_kf (si_effect_chain si ! nat p))"
proof -
  note env = chain_envD [OF assms(1)]
  let ?e = "si_effect_chain si ! nat p"
  let ?m = "memo_sample d k"
  let ?free = "sc_effect_id ?e \<noteq> - 1 \<and> fx_on ?m ?e \<and> sample_can_free ?m si p (sc_effect_id ?e)"
  note en = chain_entry_in [OF env(4) assms(2)]
  obtain a where a: "find_sample d k = Some a" using env(7) by blast
  have ok: "adm_ok ?m" "fx_table_ok (ad_fx ?m)" using env by (simp_all add: adm_ok_memo)
  obtain e1 T where 1: "(if ?free then fx_deactivate ?e ?m else Some (?e, ?m)) = Some (e1, ?m\<lparr>ad_fx := T\<rparr>)"
      "fx_table_ok T" "e1 = ?e \<or> e1 = ?e\<lparr>sc_fx_instance := None\<rparr>"
      "T = ad_fx d \<or> ?free \<and> (\<exists>r. vj_effect_deactivate (ad_fx d) (sc_effect_id ?e) (sc_fx_instance ?e) = Some (r, T))"
  proof (cases ?free)
    case True
    with fx_deactivate_side [OF ok(2), of ?e] that show ?thesis by auto
  next
    case False
    show ?thesis by (rule that [of ?e "ad_fx d"]) (use False env(2) in auto)
  qed
  let ?d1 = "?m\<lparr>ad_fx := T\<rparr>"
  have s1: "side ?m ?d1" by (rule side_upd(1) [OF ok(1)])
  have e1: "sc_channel e1 \<noteq> SAMPLE_MAX_SAMPLES" "kf_live ?d1 e1" "lists_live ?d1" "sc_kf e1 = sc_kf ?e"
    using 1(3) assms(3-5) by (auto simp: kf_live_def lists_live_def split: option.splits)
  obtain d2 where 2: "chain_blank 0 e1 ?d1 = Some (blank_of 0 e1, d2)" "side ?d1 d2" "ad_fx d2 = T"
      "ad_ports d2 = ad_ports d - set_option (sc_kf ?e)"
    using chain_blank_side [OF side_ok [OF s1] e1(3,1,2), of 0] e1(4) by auto
  have s2: "side ?m d2" by (rule side_trans [OF s1 2(2)])
  note w = put_side [OF env(1) a env(3) s2, of "put_entry p (blank_of 0 e1) si"]
  have other: "fx_on d2 (si_effect_chain si ! i) = fx_on d (si_effect_chain si ! i)"
    if i: "i < SAMPLE_MAX_EFFECTS" "int i \<noteq> p" for i
  proof (cases "T = ad_fx d")
    case False
    then obtain r where r: ?free "vj_effect_deactivate (ad_fx d) (sc_effect_id ?e) (sc_fx_instance ?e) = Some (r, T)"
      using 1(4) by blast
    have "T = set_fx_ready (ad_fx d) (vj_effect_real_to_sequence (sc_effect_id ?e)) 0"
      "vj_effect_is_plugin (ad_fx d) (sc_effect_id ?e) = 0"
      using r(2) False by (auto simp: vj_effect_deactivate_def vj_effect_is_plugin_def Let_def fx_ready_at_def split: if_splits)
    moreover from this(2) have "sc_effect_id ?e \<noteq> sc_effect_id (si_effect_chain si ! i)"
      using r(1) i by (auto simp: sample_can_free_def)
    then have "vj_effect_real_to_sequence (sc_effect_id (si_effect_chain si ! i)) \<noteq> vj_effect_real_to_sequence (sc_effect_id ?e)"
      using sequence_inj [of "sc_effect_id ?e"] initialized_sequence [of "ad_fx d" "sc_effect_id ?e" "sc_fx_instance ?e"]
        initialized_bool [of "ad_fx d" "sc_effect_id ?e" "sc_fx_instance ?e"] r(1) by (metis fx_on_def memo_fields(13))
    ultimately show ?thesis
      using 2(3) set_fx_ready_initialized_other by (simp add: fx_on_def)
  qed (simp add: fx_on_def 2(3))
  show ?thesis
  proof (rule that [of "put_sample a (put_entry p (blank_of 0 e1) si) d2" "blank_of 0 e1"])
    show "sample_chain_remove d k p = Some (1, put_sample a (put_entry p (blank_of 0 e1) si) d2)"
      unfolding sample_chain_remove_def
      by (rule with_sample_found [OF env(1,6) a env(3)]) (use assms(2) en 1(1) 2(1) in \<open>simp del: if_split\<close>)
    show "fx_on (put_sample a (put_entry p (blank_of 0 e1) si) d2) (si_effect_chain si ! i) = fx_on d (si_effect_chain si ! i)"
      if "i < SAMPLE_MAX_EFFECTS" "int i \<noteq> p" for i
      using other [OF that] by (simp add: fx_on_def put_sample_def)
  qed (use w 1(2) 2(3,4) in \<open>simp_all add: put_sample_def blank_of_def\<close>)
qed

subsection \<open>An example chain\<close>

text \<open>A registry in which every effect has two parameters, and a sample with effect 140 at positions 0 and 1.\<close>

definition fx_two :: fx_table where
  "fx_two = \<lparr>n_ext_plugs = 0,
     vj_effects = (\<lambda>_. Some \<lparr>ve_num_params = 2, ve_defaults = [5, 7], ve_limits_min = [0, 0], ve_limits_max = [9, 9],
        ve_extra_frame = 0, ve_sub_format = 0, ve_rgb_conv = 0, ve_static_bg = 0, ve_has_user = 0, ve_parallel = 0\<rparr>),
     vj_effect_ready = (\<lambda>s. if s = vj_effect_real_to_sequence 140 then 1 else 0)\<rparr>"

definition chain_demo :: sample_info where
  "chain_demo = sample_demo\<lparr>si_effect_chain :=
     [(chain_skeleton 1)\<lparr>sc_effect_id := 140\<rparr>, (chain_skeleton 1)\<lparr>sc_effect_id := 140\<rparr>] @ replicate 18 (chain_skeleton 1)\<rparr>"

definition adm_chain :: adm where
  "adm_chain = (modify_sample adm_demo 1 (\<lambda>_. chain_demo))\<lparr>ad_fx := fx_two\<rparr>"

definition fx_all :: fx_env where
  "fx_all = \<lparr>mem_init = (\<lambda>_. True), plug_activate = (\<lambda>_. None)\<rparr>"

lemma chain_demo_env: "chain_env adm_chain 1 chain_demo" "ad_fx adm_chain = fx_two"
proof -
  have ok: "adm_ok (modify_sample adm_demo 1 (\<lambda>_. chain_demo))"
    unfolding modify_sample_def adm_demo_find
    using adm_ok_put [OF adm_ok_memo [OF adm_demo_ok(1)], where a = 0 and si = sample_demo and si' = chain_demo and k1 = 1] adm_demo_sample(1)
    by (simp add: adm_demo_find sample_at_def chain_demo_def)
  have "sample_at (modify_sample adm_demo 1 (\<lambda>_. chain_demo)) 1 = Some chain_demo"
    using sample_at_modify [OF adm_demo_ok(1)] adm_demo_sample(1) by simp
  moreover have "chain_shape chain_demo"
    by (auto simp: chain_shape_def chain_demo_def chain_skeleton_def chain_zero_def SAMPLE_MAX_EFFECTS_def)
  moreover have "fx_table_ok fx_two" by (auto simp: fx_table_ok_def fx_two_def fx_consts)
  ultimately show "chain_env adm_chain 1 chain_demo"
    using side_upd(1) [OF ok, of fx_two] side_sample_at [OF side_upd(1) [OF ok, of fx_two]]
    by (simp add: chain_env_def adm_chain_def side_def)
  show "ad_fx adm_chain = fx_two" by (simp add: adm_chain_def)
qed

lemma adm_chain_fields: "ad_samples adm_chain = [0 \<mapsto> chain_demo]" "ad_els adm_chain = [1 \<mapsto> el_demo]"
proof -
  have "ad_samples adm_demo = [0 \<mapsto> sample_demo]" "ad_els adm_demo = [1 \<mapsto> el_demo]"
    by (simp_all add: adm_demo_def)
  then show "ad_samples adm_chain = [0 \<mapsto> chain_demo]" "ad_els adm_chain = [1 \<mapsto> el_demo]"
    by (simp_all add: adm_chain_def modify_sample_def adm_demo_find)
qed

lemma fx_two_known: "fx_known fx_two 140" "fx_known fx_two 112"
  by (simp_all add: fx_known_def fx_two_def vj_effect_is_valid_def fx_consts SAMPLE_MAX_PARAMETERS_def)

subsection \<open>Properties\<close>

text \<open>
  C9. Adding an effect to a chain. For a position in the chain and an effect that the registry knows, the call
  answers 1 or 0 and leaves a well-formed chain. When it answers 1 the entry holds the effect, the effect is
  initialised, and if it is new for the entry it is enabled with its default parameters; when it answers 0 (the
  effect could not be activated) the entry is empty. No other entry and no other sample changes.
\<close>

theorem chain_add_effect:
  assumes "chain_env d k si" "0 \<le> c" "c < int SAMPLE_MAX_EFFECTS" "fx_known (ad_fx d) x"
    "kf_live d (si_effect_chain si ! nat c)"
  shows "\<exists>r d' si'. sample_chain_add fe d k c x = Some (r, d') \<and> (r = 0 \<or> r = 1) \<and> chain_env d' k si' \<and>
     (r = 1 \<longrightarrow> sc_effect_id (si_effect_chain si' ! nat c) = x \<and> fx_on d' (si_effect_chain si' ! nat c) \<and>
        (sc_effect_id (si_effect_chain si ! nat c) \<noteq> x \<longrightarrow> sc_e_flag (si_effect_chain si' ! nat c) = 1 \<and>
          (\<exists>v. vj_effects (ad_fx d) (vj_effect_real_to_sequence x) = Some v \<and>
             take (nat (ve_num_params v)) (sc_arg (si_effect_chain si' ! nat c)) = take (nat (ve_num_params v)) (ve_defaults v)))) \<and>
     (r = 0 \<longrightarrow> sc_effect_id (si_effect_chain si' ! nat c) = - 1) \<and>
     (\<forall>i < SAMPLE_MAX_EFFECTS. i \<noteq> nat c \<longrightarrow> si_effect_chain si' ! i = si_effect_chain si ! i) \<and>
     (\<forall>j. j \<noteq> k \<longrightarrow> sample_at d' j = sample_at d j)"
proof -
  have out: "\<not> outside c" using assms(2,3) by (simp add: outside_def)
  note en = chain_entry_in [OF chain_envD(4) [OF assms(1)] out]
  show ?thesis
  proof (rule chain_add_cases [OF assms(1) out assms(4,5), of fe])
    fix r e' d'
    assume r: "sample_chain_add fe d k c x = Some (r, d')" "r = 0 \<or> r = 1" "adm_ok d'" "fx_table_ok (ad_fx d')"
      "\<And>j. sample_at d' j = (if j = k then Some (put_entry c e' si) else sample_at d j)"
      "length (sc_arg e') = SAMPLE_MAX_PARAMETERS" "r = 0 \<longrightarrow> sc_effect_id e' = - 1"
      "r = 1 \<longrightarrow> sc_effect_id e' = x \<and> vj_effect_initialized (ad_fx d') x (sc_fx_instance e') = 1 \<and>
       (sc_effect_id (si_effect_chain si ! nat c) \<noteq> x \<longrightarrow> sc_e_flag e' = 1 \<and>
          (\<exists>v. vj_effects (ad_fx d) (vj_effect_real_to_sequence x) = Some v \<and>
             take (nat (ve_num_params v)) (sc_arg e') = take (nat (ve_num_params v)) (ve_defaults v)))"
    show ?thesis
      by (intro exI [of _ r] exI [of _ d'] exI [of _ "put_entry c e' si"] conjI, rule r(1), rule r(2),
          rule chain_env_put [OF assms(1) r(3,4,6,5)])
        (use r(5,7,8) en in \<open>simp_all add: fx_on_def\<close>)
  qed
qed

theorem chain_add_effect_witness:
  "\<exists>r d' si'. sample_chain_add fx_all adm_chain 1 2 112 = Some (r, d') \<and> chain_env d' 1 si' \<and>
     si_effect_chain si' ! 0 = si_effect_chain chain_demo ! 0"
proof -
  have "kf_live adm_chain (si_effect_chain chain_demo ! nat 2)"
    by (simp add: kf_live_def chain_demo_def chain_skeleton_def chain_zero_def)
  then show ?thesis
    using chain_add_effect [OF chain_demo_env(1), of 2 112 fx_all] fx_two_known(2) chain_demo_env(2)
    by (fastforce simp: SAMPLE_MAX_EFFECTS_def)
qed

text \<open>
  Replacing an effect that another entry shares. When entries \<open>c\<close> and \<open>i\<close> of a chain hold the same built-in
  effect (one that owns memory) and another effect is put in \<open>c\<close>, the shared effect is released: entry \<open>i\<close> still
  names it, but it is no longer initialised. (The test in \<open>sample_chain_add\<close> looks for the new effect in the other
  entries, not for the one that is given up.)
\<close>

theorem chain_add_releases_shared_effect:
  assumes "chain_env d k si" "0 \<le> c" "c < int SAMPLE_MAX_EFFECTS" "fx_known (ad_fx d) x"
    "kf_live d (si_effect_chain si ! nat c)" "i < SAMPLE_MAX_EFFECTS" "i \<noteq> nat c"
    "sc_effect_id (si_effect_chain si ! nat c) = y" "sc_effect_id (si_effect_chain si ! i) = y"
    "y < VJ_EXT_EFFECT" "\<not> no_mem_required y" "fx_on d (si_effect_chain si ! nat c)" "x \<noteq> y"
    "\<forall>j < SAMPLE_MAX_EFFECTS. sc_effect_id (si_effect_chain si ! j) \<noteq> x"
  shows "\<exists>r d' si'. sample_chain_add fe d k c x = Some (r, d') \<and> sample_at d' k = Some si' \<and>
     sc_effect_id (si_effect_chain si' ! i) = y \<and> \<not> fx_on d' (si_effect_chain si' ! i)"
proof -
  have out: "\<not> outside c" using assms(2,3) by (simp add: outside_def)
  let ?e = "si_effect_chain si ! nat c"
  let ?m = "memo_sample d k"
  note env = chain_envD [OF assms(1)]
  have i1: "vj_effect_initialized (ad_fx d) y (sc_fx_instance ?e) = 1"
    using assms(8,12) initialized_bool [of "ad_fx d" y "sc_fx_instance ?e"] by (simp add: fx_on_def)
  have s: "0 \<le> vj_effect_real_to_sequence y" "vj_effect_real_to_sequence y < MAX_EFFECTS" "y \<noteq> - 1"
    using initialized_sequence [OF i1] assms(10) by (auto simp: vj_effect_real_to_sequence_def fx_consts split: if_splits)
  obtain T r where T: "fx_deactivate ?e ?m = Some (?e\<lparr>sc_fx_instance := None\<rparr>, ?m\<lparr>ad_fx := T\<rparr>)"
      "vj_effect_deactivate (ad_fx d) y (sc_fx_instance ?e) = Some (r, T)"
    using fx_deactivate_side [of ?m ?e] env(2) assms(8,12) by (auto simp: fx_on_def)
  have T0: "T = set_fx_ready (ad_fx d) (vj_effect_real_to_sequence y) 0"
    using deactivate_builtin [OF i1 s(1,2) assms(10) T(2)] assms(11) by simp
  have plug: "vj_effect_is_plugin (ad_fx d) y = 0" using s(2) by (simp add: vj_effect_is_plugin_def Let_def)
  have rel: "chain_add_release c x si ?e ?m = Some (?e\<lparr>sc_fx_instance := None\<rparr>, ?m\<lparr>ad_fx := T\<rparr>)"
    using assms(8,12-14) s(3) plug T(1) by (auto simp: chain_add_release_def Let_def fx_on_def)
  show ?thesis
  proof (rule chain_add_cases [OF assms(1) out assms(4,5), of fe])
    fix r e' d'
    assume r: "sample_chain_add fe d k c x = Some (r, d')"
      "\<And>j. sample_at d' j = (if j = k then Some (put_entry c e' si) else sample_at d j)"
      "\<And>T1 e1 y q. chain_add_release c x si ?e ?m = Some (e1, ?m\<lparr>ad_fx := T1\<rparr>) \<Longrightarrow>
       y \<noteq> x \<Longrightarrow> vj_effect_initialized (ad_fx d') y q = vj_effect_initialized T1 y q"
    have "vj_effect_initialized (ad_fx d') y q = 0" for q
      using r(3) [OF rel, of y q] assms(13) cleared_not_initialized [OF s(2) assms(11)] T0 by simp
    then show ?thesis
      using r(1,2) assms(7,9) by (intro exI [of _ r] exI [of _ d'] exI [of _ "put_entry c e' si"]) (simp add: fx_on_def)
  qed
qed

theorem chain_add_releases_shared_effect_witness:
  "\<exists>r d' si'. sample_chain_add fx_all adm_chain 1 0 112 = Some (r, d') \<and> sample_at d' 1 = Some si' \<and>
     sc_effect_id (si_effect_chain si' ! 1) = 140 \<and> \<not> fx_on d' (si_effect_chain si' ! 1)"
proof -
  have nth: "si_effect_chain chain_demo ! j = (if j < 2 then (chain_skeleton 1)\<lparr>sc_effect_id := 140\<rparr> else chain_skeleton 1)"
    if "j < 20" for j
    using that by (auto simp: chain_demo_def nth_append nth_Cons' )
  show ?thesis
  proof (rule chain_add_releases_shared_effect [OF chain_demo_env(1)])
    show "kf_live adm_chain (si_effect_chain chain_demo ! nat 0)"
      by (simp add: kf_live_def nth chain_skeleton_def chain_zero_def)
    show "\<not> no_mem_required 140" by (simp add: no_mem_required_def get_simple_effect_def simple_effect_index_def)
    show "fx_on adm_chain (si_effect_chain chain_demo ! nat 0)"
      by (simp add: fx_on_def chain_demo_env(2) nth vj_effect_initialized_def Let_def fx_two_def fx_consts vj_effect_real_to_sequence_def)
    show "fx_known (ad_fx adm_chain) 112" using fx_two_known(2) chain_demo_env(2) by simp
    show "\<forall>j < SAMPLE_MAX_EFFECTS. sc_effect_id (si_effect_chain chain_demo ! j) \<noteq> 112"
      by (simp add: nth SAMPLE_MAX_EFFECTS_def chain_skeleton_def)
  qed (simp_all add: nth SAMPLE_MAX_EFFECTS_def fx_consts)
qed



lemma length_filter_update:
  assumes "i < length xs" "\<not> P (xs ! i)" "P x"
  shows "length (filter P (xs[i := x])) = Suc (length (filter P xs))"
  using assms by (induction xs arbitrary: i) (auto split: nat.splits)

text \<open>
  The free entry of a chain. \<open>sample_chain_get_free_entry\<close> answers \<open>-1\<close> exactly when
  \<open>sample_chain_size\<close> answers 20; otherwise it answers the first empty position, and adding an effect there
  raises the size of the chain by one when it succeeds.
\<close>

theorem free_entry_grows_chain:
  assumes "chain_env d k si" "fx_known (ad_fx d) x" "\<forall>e \<in> set (si_effect_chain si). kf_live d e" "0 \<le> x"
  shows "\<exists>p n d1. sample_chain_get_free_entry d k = Some (p, d1) \<and> sample_chain_size d k = Some (n, d1) \<and>
     (p = - 1 \<longleftrightarrow> n = 20) \<and>
     (p \<noteq> - 1 \<longrightarrow> 0 \<le> p \<and> p < 20 \<and> sc_effect_id (si_effect_chain si ! nat p) = - 1 \<and>
       (\<forall>i < nat p. sc_effect_id (si_effect_chain si ! i) \<noteq> - 1) \<and>
       (\<exists>r d2. sample_chain_add fe d k p x = Some (r, d2) \<and>
          (r = 1 \<longrightarrow> (\<exists>d3. sample_chain_size d2 k = Some (n + 1, d3)))))"
proof -
  note env = chain_envD [OF assms(1)]
  let ?es = "si_effect_chain si"
  let ?p = "first_index (\<lambda>e. sc_effect_id e = - 1) ?es"
  let ?n = "int (length (filter (\<lambda>e. sc_effect_id e \<noteq> - 1) ?es))"
  have len: "length ?es = 20" using env(4) by (simp add: chain_shape_def SAMPLE_MAX_EFFECTS_def)
  have get: "sample_chain_get_free_entry d k = Some (?p, memo_sample d k)" "sample_chain_size d k = Some (?n, memo_sample d k)"
    using env by (simp_all add: sample_chain_get_free_entry_def sample_chain_size_def read_sample_at)
  have full: "?p = - 1 \<longleftrightarrow> ?n = 20"
    using length_filter_less [of _ ?es "\<lambda>e. sc_effect_id e \<noteq> - 1"] len
    by (fastforce simp: first_index_none_iff filter_id_conv)
  have "0 \<le> ?p \<and> ?p < 20 \<and> sc_effect_id (?es ! nat ?p) = - 1 \<and> (\<forall>i < nat ?p. sc_effect_id (?es ! i) \<noteq> - 1) \<and>
       (\<exists>r d2. sample_chain_add fe d k ?p x = Some (r, d2) \<and>
          (r = 1 \<longrightarrow> (\<exists>d3. sample_chain_size d2 k = Some (?n + 1, d3))))" if p: "?p \<noteq> - 1"
  proof -
    have p0: "0 \<le> ?p" "?p < 20" using p first_index_ge [of "\<lambda>e. sc_effect_id e = - 1" ?es]
        first_index_less [of "\<lambda>e. sc_effect_id e = - 1" ?es] len by auto
    note hit = first_index_hit [OF p0(1)]
    have before: "sc_effect_id (?es ! i) \<noteq> - 1" if "i < nat ?p" for i
      using first_index_before [of i ?es "\<lambda>e. sc_effect_id e = - 1"] that p0 len by auto
    have out: "\<not> outside ?p" using p0 by (simp add: outside_def SAMPLE_MAX_EFFECTS_def)
    have kf: "kf_live d (?es ! nat ?p)" using assms(3) p0 len by simp
    show ?thesis
    proof (rule chain_add_cases [OF assms(1) out assms(2) kf, of fe])
      fix r e' d'
      assume r: "sample_chain_add fe d k ?p x = Some (r, d')" "adm_ok d'"
        "\<And>j. sample_at d' j = (if j = k then Some (put_entry ?p e' si) else sample_at d j)"
        "r = 1 \<longrightarrow> sc_effect_id e' = x \<and> vj_effect_initialized (ad_fx d') x (sc_fx_instance e') = 1 \<and>
         (sc_effect_id (?es ! nat ?p) \<noteq> x \<longrightarrow> sc_e_flag e' = 1 \<and>
          (\<exists>v. vj_effects (ad_fx d) (vj_effect_real_to_sequence x) = Some v \<and>
             take (nat (ve_num_params v)) (sc_arg e') = take (nat (ve_num_params v)) (ve_defaults v)))"
      have "sample_chain_size d' k = Some (?n + 1, memo_sample d' k)" if "r = 1"
      proof -
        have "sc_effect_id e' \<noteq> - 1" using r(4) that assms(4) by simp
        then have "length (filter (\<lambda>e. sc_effect_id e \<noteq> - 1) (?es[nat ?p := e'])) = Suc (length (filter (\<lambda>e. sc_effect_id e \<noteq> - 1) ?es))"
          using hit p0 len by (intro length_filter_update) auto
        then show ?thesis
          using r(3) by (simp add: sample_chain_size_def read_sample_at [OF r(2) env(6)])
      qed
      then show ?thesis using p0 hit before r(1) by blast
    qed
  qed
  then show ?thesis using get full by blast
qed

theorem free_entry_grows_chain_witness:
  "\<exists>d1 r d2. sample_chain_get_free_entry adm_chain 1 = Some (2, d1) \<and> sample_chain_size adm_chain 1 = Some (2, d1) \<and>
     sample_chain_add fx_all adm_chain 1 2 112 = Some (r, d2)"
proof -
  have kf: "\<forall>e \<in> set (si_effect_chain chain_demo). kf_live adm_chain e"
    by (auto simp: chain_demo_def kf_live_def chain_skeleton_def chain_zero_def)
  have "first_index (\<lambda>e. sc_effect_id e = - 1) (si_effect_chain chain_demo) = 2"
    by (rule first_index_eqI [of 2, simplified]) (auto simp: chain_demo_def chain_skeleton_def less_Suc_eq numeral_2_eq_2)
  then have p: "sample_chain_get_free_entry adm_chain 1 = Some (2, memo_sample adm_chain 1)"
    using chain_envD [OF chain_demo_env(1)] by (simp add: sample_chain_get_free_entry_def read_sample_at)
  have "length (filter (\<lambda>e. sc_effect_id e \<noteq> - 1) (si_effect_chain chain_demo)) = 2"
    by (simp add: chain_demo_def chain_skeleton_def filter_replicate)
  then have "sample_chain_size adm_chain 1 = Some (2, memo_sample adm_chain 1)"
    using chain_envD [OF chain_demo_env(1)] by (simp add: sample_chain_size_def read_sample_at)
  then show ?thesis
    using free_entry_grows_chain [OF chain_demo_env(1) _ kf, of 112 fx_all] fx_two_known(2) chain_demo_env(2) p by auto
qed

end
