(* ===== verification/SampleDelete.thy ===== *)
theory SampleDelete
  imports SampleChain
begin

text \<open>
  Deleting samples (\<open>libsample/sampleadm.c\<close>): releasing what a sample owns, offering its identifier for
  reuse, and deleting all samples.

  \<^item> \<open>ad_ports\<close> holds the keyframe and dictionary ports and the viewport blocks, \<open>ad_strs\<close> the strings.
  \<^item> An edit list is freed with the last sample that uses it.
\<close>

subsection \<open>Edit lists\<close>

text \<open>The handles of a list that is not a clone are closed with it.\<close>

fun el_close_files :: "editlist \<Rightarrow> nat \<Rightarrow> (addr \<rightharpoonup> lav_file) \<Rightarrow> (addr \<rightharpoonup> lav_file) option" where
  "el_close_files el 0 lav = Some lav"
| "el_close_files el (Suc n) lav = do {
     lav \<leftarrow> el_close_files el n lav;
     case el_lav_fd el n of
       None \<Rightarrow> Some lav
     | Some f \<Rightarrow> if lav f = None then dangling else Some (lav(f := None)) }"

definition vj_el_free :: "addr option \<Rightarrow> adm \<Rightarrow> adm option" where
  "vj_el_free p d =
     (case p of None \<Rightarrow> Some d
      | Some e \<Rightarrow> do {
          el \<leftarrow> ad_els d e;
          lav \<leftarrow> (if el_is_clone el \<noteq> 0 then Some (ad_lav d) else el_close_files el (nat (el_num_video_files el)) (ad_lav d));
          let (el', g) = vj_el_break_cache (ad_elg d) el;
          Some (d\<lparr>ad_lav := lav, ad_elg := g, ad_els := (ad_els d)(e := None)\<rparr>)
        })"

text \<open>Whether a sample other than \<open>s1\<close>, from \<open>i\<close> on, has the edit list \<open>e\<close>.\<close>

fun edl_in_use :: "int \<Rightarrow> addr \<Rightarrow> int list \<Rightarrow> adm \<Rightarrow> (bool \<times> adm) option" where
  "edl_in_use s1 e [] d = Some (False, d)"
| "edl_in_use s1 e (i # is) d = do {
     (x, d) \<leftarrow> sample_exists d i;
     if x = 0 \<or> s1 = i then edl_in_use s1 e is d
     else do {
       (p, d) \<leftarrow> sample_get d i;
       b \<leftarrow> (case p of None \<Rightarrow> null_deref | Some a \<Rightarrow> ad_samples d a);
       if si_edit_list b = Some e then Some (True, d) else edl_in_use s1 e is d
     } }"

definition sample_close_edl :: "int \<Rightarrow> addr option \<Rightarrow> adm \<Rightarrow> adm option" where
  "sample_close_edl s1 p d =
     (case p of None \<Rightarrow> Some d
      | Some e \<Rightarrow> do {
          (same, d) \<leftarrow> (if Some e = plain_editlist d then Some (True, d) else edl_in_use s1 e [1..sample_size d] d);
          if same then Some d else vj_el_free (Some e) d
        })"

subsection \<open>Deleting a sample\<close>

text \<open>
  Sources of other samples that mix in the deleted sample fall back to the sample itself. The loop stops before
  \<open>sample_size() - 1\<close>, which is the newest identifier.
\<close>

definition verify_entry :: "int \<Rightarrow> int \<Rightarrow> int \<Rightarrow> sample_eff_chain \<Rightarrow> sample_eff_chain" where
  "verify_entry i s1 t e =
     (if sc_channel e = s1 \<and> sc_source_type e = t then e\<lparr>sc_channel := i, sc_source_type := 0\<rparr> else e)"

fun verify_delete_loop :: "int \<Rightarrow> int \<Rightarrow> int list \<Rightarrow> adm \<Rightarrow> adm option" where
  "verify_delete_loop s1 t [] d = Some d"
| "verify_delete_loop s1 t (i # is) d = do {
     (r, d) \<leftarrow> write_sample d i () () (\<lambda>si. si\<lparr>si_effect_chain := map (verify_entry i s1 t) (si_effect_chain si)\<rparr>);
     verify_delete_loop s1 t is d }"

definition sample_verify_delete :: "adm \<Rightarrow> int \<Rightarrow> int \<Rightarrow> (int \<times> adm) option" where
  "sample_verify_delete d sample_id sample_type = do {
     d \<leftarrow> verify_delete_loop sample_id sample_type [1..sample_size d - 2] d;
     Some (1, d) }"

fun free_ptrs :: "(addr \<Rightarrow> adm \<Rightarrow> adm option) \<Rightarrow> addr option list \<Rightarrow> adm \<Rightarrow> adm option" where
  "free_ptrs f [] d = Some d"
| "free_ptrs f (p # ps) d = do { d \<leftarrow> free_ptr f p d; free_ptrs f ps d }"

text \<open>What \<open>sample_del\<close> does to the record it has found, up to the release of the identifier.\<close>

definition sample_release :: "int \<Rightarrow> addr \<Rightarrow> adm \<Rightarrow> adm option" where
  "sample_release sample_id a d = do {
     si \<leftarrow> ad_samples d a;
     d \<leftarrow> (if si_soft_edl si = 0 \<and> si_edit_list si \<noteq> None then ad_break_cache (si_edit_list si) d else Some d);
     d \<leftarrow> free_ptrs vpf (map sc_kf (si_effect_chain si)) d;
     d \<leftarrow> free_ptr free_str (si_encoder_destination si) d;
     d \<leftarrow> free_ptr free_str (si_edit_list_file si) d;
     d \<leftarrow> free_ptr vpf (si_dict si) d;
     d \<leftarrow> free_ptr vpf (si_viewport si) d;
     sample_close_edl sample_id (si_edit_list si) d }"

definition sample_del :: "adm \<Rightarrow> int \<Rightarrow> (int \<times> adm) option" where
  "sample_del d sample_id = do {
     (p, d) \<leftarrow> sample_get d sample_id;
     case p of
       None \<Rightarrow> Some (0, d)
     | Some a \<Rightarrow> do {
         node \<leftarrow> sample_lookup d sample_id;
         case node of
           None \<Rightarrow> Some (0, d)
         | Some _ \<Rightarrow> do {
             (r, d) \<leftarrow> sample_chain_free d sample_id;
             d \<leftarrow> sample_release sample_id a d;
             if int (next_avail_num d) \<ge> SAMPLE_MAX_SAMPLES then out_of_bounds
             else Some (1, d\<lparr>avail_num := (avail_num d)(next_avail_num d := sample_id),
                             next_avail_num := Suc (next_avail_num d),
                             SampleHash := Hash_table ((hash_of d)(sample_id := None)),
                             sample_cache := (sample_cache d)(sample_id := None),
                             ad_samples := (ad_samples d)(a := None)\<rparr>)
           }
       }
   }"

fun del_all_loop :: "int list \<Rightarrow> adm \<Rightarrow> adm option" where
  "del_all_loop [] d = Some d"
| "del_all_loop (i # is) d = do {
     (x, d) \<leftarrow> sample_exists d i;
     if x = 0 then del_all_loop is d
     else do {
       (r, d) \<leftarrow> sample_chain_clear d i;
       (r, d) \<leftarrow> sample_del d i;
       del_all_loop is d
     } }"

definition sample_del_all :: "adm \<Rightarrow> adm option" where
  "sample_del_all d = do {
     d \<leftarrow> del_all_loop [1..sample_size d] d;
     case SampleHash d of
       Hash_table h \<Rightarrow> Some (d\<lparr>avail_num := (\<lambda>_. 0), next_avail_num := 0, this_sample_id := 0, SampleHash := Hash_table Map.empty\<rparr>)
     | _ \<Rightarrow> null_deref }"

definition sample_free :: "adm \<Rightarrow> adm option" where
  "sample_free d =
     (if SampleHash d = Hash_null then Some d
      else do { d \<leftarrow> sample_del_all d; Some (d\<lparr>SampleHash := Hash_destroyed\<rparr>) })"

subsection \<open>Releasing what a sample owns\<close>

lemma side_upd_mem:
  assumes "adm_ok d"
  shows "side d (d\<lparr>ad_strs := x1\<rparr>)" "side d (d\<lparr>ad_lav := x2, ad_elg := x3, ad_els := x4\<rparr>)"
  using assms by (auto simp: side_def elim!: adm_ok_cong)

text \<open>
  \<open>tab d d'\<close>: as \<open>side\<close>, and the hash table and the list of freed identifiers are the same. \<open>kept d d'\<close>: also
  the allocated strings, ports and edit lists.
\<close>

definition tab :: "adm \<Rightarrow> adm \<Rightarrow> bool" where
  "tab d d' \<longleftrightarrow> side d d' \<and> hash_of d' = hash_of d \<and> next_avail_num d' = next_avail_num d \<and>
     avail_num d' = avail_num d \<and> plain_editlist d' = plain_editlist d"

definition kept :: "adm \<Rightarrow> adm \<Rightarrow> bool" where
  "kept d d' \<longleftrightarrow> tab d d' \<and> ad_ports d' = ad_ports d \<and> ad_strs d' = ad_strs d \<and> ad_els d' = ad_els d"

lemma tab_trans: "tab d d1 \<Longrightarrow> tab d1 d2 \<Longrightarrow> tab d d2"
  by (auto simp: tab_def intro: side_trans)

lemma tab_ok: "tab d d' \<Longrightarrow> adm_ok d'"
  by (simp add: tab_def side_def)

lemma tabD:
  assumes "tab d d'"
  shows "ad_samples d' = ad_samples d" "find_sample d' j = find_sample d j" "sample_at d' j = sample_at d j"
    "hash_of d' = hash_of d" "next_avail_num d' = next_avail_num d" "avail_num d' = avail_num d"
    "plain_editlist d' = plain_editlist d" "this_sample_id d' = this_sample_id d"
  using assms side_sample_at by (auto simp: tab_def side_def)

lemma kept_tab: "kept d d' \<Longrightarrow> tab d d'"
  by (simp add: kept_def)

lemma kept_trans: "kept d d1 \<Longrightarrow> kept d1 d2 \<Longrightarrow> kept d d2"
  by (auto simp: kept_def intro: tab_trans)

lemma kept_refl: "adm_ok d \<Longrightarrow> kept d d"
  by (simp add: kept_def tab_def side_refl)

lemma kept_memo: "adm_ok d \<Longrightarrow> kept d (memo_sample d k)"
  by (simp add: kept_def tab_def side_memo)

lemma kept_ok: "kept d d' \<Longrightarrow> adm_ok d'"
  by (simp add: kept_def tab_def side_def)

lemma tab_upd:
  assumes "adm_ok d"
  shows "tab d (d\<lparr>ad_fx := x1\<rparr>)" "tab d (d\<lparr>ad_ports := x2\<rparr>)" "tab d (d\<lparr>ad_strs := x3\<rparr>)"
    "tab d (d\<lparr>ad_els := x4, ad_elg := x5\<rparr>)" "tab d (d\<lparr>ad_lav := x6, ad_elg := x7, ad_els := x8\<rparr>)" "tab d d"
  using side_upd [OF assms] side_upd_mem [OF assms] side_refl [OF assms] by (simp_all add: tab_def hash_of_def)

lemma free_entry_kept:
  assumes "adm_ok d" "fx_table_ok (ad_fx d)"
  shows "\<exists>e' d' n'. free_entry e (d, n) = Some (e', d', n') \<and> kept d d' \<and> fx_table_ok (ad_fx d') \<and> sc_kf e' = sc_kf e"
proof -
  obtain e1 d1 n1 where 1: "(if fx_on d e then do { (e, d) \<leftarrow> fx_deactivate e d; Some (e, d, n + 1) } else Some (e, d, n)) = Some (e1, d1, n1)"
      "kept d d1" "fx_table_ok (ad_fx d1)" "sc_kf e1 = sc_kf e"
  proof (cases "fx_on d e")
    case True
    obtain T where T: "fx_deactivate e d = Some (e\<lparr>sc_fx_instance := None\<rparr>, d\<lparr>ad_fx := T\<rparr>)" "fx_table_ok T"
      using fx_deactivate_side [OF assms(2) True] by blast
    show ?thesis
      by (rule that [of "e\<lparr>sc_fx_instance := None\<rparr>" "d\<lparr>ad_fx := T\<rparr>" "n + 1"])
        (use True T side_upd(1) [OF assms(1)] in \<open>simp_all add: kept_def tab_def hash_of_def\<close>)
  next
    case False
    show ?thesis by (rule that [of e d n]) (use False assms kept_refl in simp_all)
  qed
  have "kept d1 (release_stream e1 d1)"
    using release_stream_side [OF kept_ok [OF 1(2)], of e1]
    by (auto simp: kept_def tab_def release_stream_def vj_tag_disable_def hash_of_def split: option.splits)
  then show ?thesis
    using 1 kept_trans [OF 1(2)] release_stream_side(2) [OF kept_ok [OF 1(2)], of e1] kept_refl [OF assms(1)] assms(2)
    by (cases "sc_effect_id e = - 1") (auto simp: free_entry_def)
qed

lemma free_entries_kept:
  assumes "adm_ok d" "fx_table_ok (ad_fx d)"
  shows "\<exists>es' d' n'. map_entries free_entry es (d, n) = Some (es', d', n') \<and> kept d d' \<and> fx_table_ok (ad_fx d') \<and>
    map sc_kf es' = map sc_kf es"
  using assms
proof (induction es arbitrary: d n)
  case Nil
  then show ?case by (simp add: kept_refl)
next
  case (Cons e es)
  obtain e1 d1 n1 where 1: "free_entry e (d, n) = Some (e1, d1, n1)" "kept d d1" "fx_table_ok (ad_fx d1)" "sc_kf e1 = sc_kf e"
    using free_entry_kept [OF Cons.prems] by blast
  obtain es2 d2 n2 where 2: "map_entries free_entry es (d1, n1) = Some (es2, d2, n2)" "kept d1 d2" "fx_table_ok (ad_fx d2)"
      "map sc_kf es2 = map sc_kf es"
    using Cons.IH [OF kept_ok [OF 1(2)] 1(3)] by blast
  show ?case using 1 2 kept_trans [OF 1(2) 2(2)] by auto
qed

text \<open>The addresses of a list of pointers.\<close>

fun somes :: "'a option list \<Rightarrow> 'a list" where
  "somes [] = []"
| "somes (None # xs) = somes xs"
| "somes (Some x # xs) = x # somes xs"

lemma free_ptrs_vpf:
  assumes "distinct (somes ps)" "set (somes ps) \<subseteq> ad_ports d"
  shows "free_ptrs vpf ps d = Some (d\<lparr>ad_ports := ad_ports d - set (somes ps)\<rparr>)"
  using assms
proof (induction ps arbitrary: d)
  case (Cons p ps)
  show ?case
  proof (cases p)
    case None
    with Cons show ?thesis by (simp add: free_ptr_def)
  next
    case (Some a)
    let ?d = "d\<lparr>ad_ports := ad_ports d - {a}\<rparr>"
    have "free_ptrs vpf ps ?d = Some (?d\<lparr>ad_ports := ad_ports ?d - set (somes ps)\<rparr>)"
      using Some Cons.prems by (intro Cons.IH) auto
    moreover have "vpf a d = Some ?d" using Some Cons.prems(2) by (simp add: vpf_def)
    ultimately show ?thesis using Some by (simp add: free_ptr_def Diff_insert2 [symmetric] insert_Diff_if)
  qed
qed simp

text \<open>
  A sample owns its memory: its ports are live and all different, its strings too, and its edit list, when it
  has one, is a live clone.
\<close>

definition ports_of :: "sample_info \<Rightarrow> addr list" where
  "ports_of si = somes (map sc_kf (si_effect_chain si)) @ somes [si_dict si, si_viewport si]"

definition strs_of :: "sample_info \<Rightarrow> addr list" where
  "strs_of si = somes [si_encoder_destination si, si_edit_list_file si]"

definition owned :: "adm \<Rightarrow> sample_info \<Rightarrow> bool" where
  "owned d si \<longleftrightarrow> distinct (ports_of si) \<and> set (ports_of si) \<subseteq> ad_ports d \<and>
     distinct (strs_of si) \<and> set (strs_of si) \<subseteq> dom (ad_strs d) \<and>
     (\<forall>e. si_edit_list si = Some e \<longrightarrow> (\<exists>el. ad_els d e = Some el \<and> el_is_clone el \<noteq> 0))"

text \<open>Another sample of \<open>is\<close> has the edit list.\<close>

definition shares :: "adm \<Rightarrow> int \<Rightarrow> int list \<Rightarrow> addr \<Rightarrow> bool" where
  "shares d s1 is e \<longleftrightarrow> (\<exists>j \<in> set is. j \<noteq> s1 \<and> hash_of d j \<noteq> None \<and> map_option si_edit_list (sample_at d j) = Some (Some e))"

lemma shares_tab: "tab d d' \<Longrightarrow> shares d' s1 is e = shares d s1 is e"
  by (simp add: shares_def tabD)

lemma sample_exists_kept:
  assumes "adm_ok d" "i < SAMPLE_MAX_SAMPLES"
  obtains x d1 where "sample_exists d i = Some (x, d1)" "kept d d1" "x \<noteq> 0 \<longleftrightarrow> i \<noteq> 0 \<and> hash_of d i \<noteq> None"
proof -
  have pos: "0 < i" if "hash_of d i \<noteq> None"
    using that find_hashed [OF assms(1) _ assms(2)] by auto
  show ?thesis
    by (rule that [OF sample_exists_at [OF assms]])
      (use pos kept_memo [OF assms(1), of i] kept_refl [OF assms(1)] in auto)
qed

lemma edl_in_use_kept:
  assumes "adm_ok d" "\<forall>i \<in> set is. 0 < i \<and> i < SAMPLE_MAX_SAMPLES"
  shows "\<exists>d'. edl_in_use s1 e is d = Some (shares d s1 is e, d') \<and> kept d d'"
  using assms
proof (induction "is" arbitrary: d)
  case Nil
  then show ?case using kept_refl by (auto simp: shares_def)
next
  case (Cons i "is")
  have i: "0 < i" "i < SAMPLE_MAX_SAMPLES" using Cons.prems(2) by simp_all
  obtain x d1 where 1: "sample_exists d i = Some (x, d1)" "kept d d1" "x \<noteq> 0 \<longleftrightarrow> i \<noteq> 0 \<and> hash_of d i \<noteq> None"
    by (rule sample_exists_kept [OF Cons.prems(1) i(2)])
  have tail: "\<exists>d'. edl_in_use s1 e is d2 = Some (shares d s1 is e, d') \<and> kept d d'" if "kept d d2" for d2
  proof -
    have "\<forall>j \<in> set is. 0 < j \<and> j < SAMPLE_MAX_SAMPLES" using Cons.prems(2) by simp
    from Cons.IH [OF kept_ok [OF that] this] shares_tab [OF kept_tab [OF that]] kept_trans [OF that]
    show ?thesis by auto
  qed
  show ?case
  proof (cases "x = 0 \<or> s1 = i")
    case True
    then have "shares d s1 (i # is) e = shares d s1 is e" using 1(3) i by (auto simp: shares_def)
    with True 1 tail [OF 1(2)] show ?thesis by simp
  next
    case False
    then obtain a where a: "hash_of d i = Some a" using 1(3) by auto
    note f = find_hashed [OF Cons.prems(1) a i(2)]
    obtain si where si: "ad_samples d a = Some si" using adm_ok_hash_live [OF Cons.prems(1) a] by blast
    note t1 = tabD [OF kept_tab [OF 1(2)]]
    have k2: "kept d (memo_sample d1 i)" by (rule kept_trans [OF 1(2) kept_memo [OF kept_ok [OF 1(2)]]])
    have get: "sample_get d1 i = Some (Some a, memo_sample d1 i)"
      using sample_get_find [OF kept_ok [OF 1(2)], of i] i f t1(2) by simp
    have at: "sample_at d i = Some si" using f si by (simp add: sample_at_def)
    have step: "edl_in_use s1 e (i # is) d =
      (if si_edit_list si = Some e then Some (True, memo_sample d1 i) else edl_in_use s1 e is (memo_sample d1 i))"
      using False 1(1) get si t1(1) by simp
    have "shares d s1 (i # is) e \<longleftrightarrow> si_edit_list si = Some e \<or> shares d s1 is e"
      using False a at by (auto simp: shares_def)
    then show ?thesis using step k2 tail [OF k2] by (cases "si_edit_list si = Some e") simp_all
  qed
qed


lemma vj_el_free_clone:
  assumes "ad_els d e = Some el" "el_is_clone el \<noteq> 0"
  shows "\<exists>g. vj_el_free (Some e) d = Some (d\<lparr>ad_lav := ad_lav d, ad_elg := g, ad_els := (ad_els d)(e := None)\<rparr>)"
  using assms by (intro exI [of _ "snd (vj_el_break_cache (ad_elg d) el)"]) (simp add: vj_el_free_def split_beta)

text \<open>An edit list goes with the last sample that has it; the list all samples start from stays.\<close>

definition list_goes :: "adm \<Rightarrow> int \<Rightarrow> addr \<Rightarrow> bool" where
  "list_goes d k e \<longleftrightarrow> plain_editlist d \<noteq> Some e \<and> \<not> shares d k [1..this_sample_id d] e"

lemma list_goes_tab: "tab d d' \<Longrightarrow> list_goes d' k e = list_goes d k e"
  by (simp add: list_goes_def tabD shares_tab)

lemma sample_close_edl_frees:
  assumes "adm_ok d" "this_sample_id d < SAMPLE_MAX_SAMPLES"
    "\<forall>e. p = Some e \<longrightarrow> (\<exists>el. ad_els d e = Some el \<and> el_is_clone el \<noteq> 0)"
  shows "\<exists>d'. sample_close_edl k p d = Some d' \<and> tab d d' \<and> ad_ports d' = ad_ports d \<and> ad_strs d' = ad_strs d \<and>
    ad_els d' = (\<lambda>e. if p = Some e \<and> list_goes d k e then None else ad_els d e)"
proof (cases p)
  case None
  then show ?thesis using tab_upd(6) [OF assms(1)] by (simp add: sample_close_edl_def)
next
  case (Some e)
  then obtain el where el: "ad_els d e = Some el" "el_is_clone el \<noteq> 0" using assms(3) by auto
  show ?thesis
  proof (cases "plain_editlist d = Some e")
    case True
    with Some show ?thesis
      using tab_upd(6) [OF assms(1)] by (intro exI [of _ d]) (auto simp: sample_close_edl_def list_goes_def)
  next
    case False
    have "\<forall>i \<in> set [1..this_sample_id d]. 0 < i \<and> i < SAMPLE_MAX_SAMPLES" using assms(2) by auto
    from edl_in_use_kept [OF assms(1) this, of k e] obtain d1 where
      d1: "edl_in_use k e [1..this_sample_id d] d = Some (shares d k [1..this_sample_id d] e, d1)" "kept d d1" by blast
    note t = kept_tab [OF d1(2)]
    have f: "ad_els d1 = ad_els d" "ad_ports d1 = ad_ports d" "ad_strs d1 = ad_strs d" using d1(2) by (simp_all add: kept_def)
    show ?thesis
    proof (cases "shares d k [1..this_sample_id d] e")
      case True
      then have "sample_close_edl k p d = Some d1"
        using Some False d1(1) by (simp add: sample_close_edl_def sample_size_def)
      with True Some t f show ?thesis by (intro exI [of _ d1]) (auto simp: list_goes_def)
    next
      case ns: False
      obtain g where g: "vj_el_free (Some e) d1 = Some (d1\<lparr>ad_lav := ad_lav d1, ad_elg := g, ad_els := (ad_els d1)(e := None)\<rparr>)"
        using vj_el_free_clone [of d1 e el] el f by auto
      let ?d' = "d1\<lparr>ad_lav := ad_lav d1, ad_elg := g, ad_els := (ad_els d1)(e := None)\<rparr>"
      have "sample_close_edl k p d = Some ?d'"
        using ns Some False d1(1) g by (simp add: sample_close_edl_def sample_size_def)
      moreover have "tab d ?d'" by (rule tab_trans [OF t tab_upd(5) [OF kept_ok [OF d1(2)]]])
      ultimately show ?thesis
        using ns Some False f by (intro exI [of _ ?d']) (auto simp: list_goes_def)
    qed
  qed
qed


lemma ad_break_cache_tab:
  assumes "adm_ok d" "\<forall>e. p = Some e \<longrightarrow> (\<exists>el. ad_els d e = Some el \<and> el_is_clone el \<noteq> 0)"
  shows "\<exists>d'. ad_break_cache p d = Some d' \<and> tab d d' \<and> ad_ports d' = ad_ports d \<and> ad_strs d' = ad_strs d \<and>
    (\<forall>e. p = Some e \<longrightarrow> (\<exists>el. ad_els d' e = Some el \<and> el_is_clone el \<noteq> 0)) \<and>
    dom (ad_els d') = dom (ad_els d)"
proof (cases p)
  case None
  then show ?thesis using tab_upd(6) [OF assms(1)] by (simp add: ad_break_cache_def)
next
  case (Some e)
  then obtain el where el: "ad_els d e = Some el" "el_is_clone el \<noteq> 0" using assms(2) by auto
  obtain el' g where b: "vj_el_break_cache (ad_elg d) el = (el', g)" by fastforce
  then have "el_is_clone el' = el_is_clone el" by (auto simp: vj_el_break_cache_def split: option.splits)
  with Some el b show ?thesis
    using tab_upd(4) [OF assms(1), where ?x4.0 = "(ad_els d)(e \<mapsto> el')" and ?x5.0 = g]
    by (intro exI [of _ "d\<lparr>ad_els := (ad_els d)(e \<mapsto> el'), ad_elg := g\<rparr>"]) (auto simp: ad_break_cache_def)
qed

lemma free_ptr_str:
  "set (somes [p]) \<subseteq> dom (ad_strs d) \<Longrightarrow> free_ptr free_str p d = Some (d\<lparr>ad_strs := ad_strs d |` (- set (somes [p]))\<rparr>)"
  by (cases p) (auto simp: free_ptr_def free_str_def restrict_map_def fun_eq_iff intro!: arg_cong [of _ _ "\<lambda>m. d\<lparr>ad_strs := m\<rparr>"])

lemma free_ptr_vpf:
  "set (somes [p]) \<subseteq> ad_ports d \<Longrightarrow> free_ptr vpf p d = Some (d\<lparr>ad_ports := ad_ports d - set (somes [p])\<rparr>)"
  by (cases p) (auto simp: free_ptr_def vpf_def)

lemma sample_release_frees:
  assumes "adm_ok d" "this_sample_id d < SAMPLE_MAX_SAMPLES" "ad_samples d a = Some si" "owned d si"
  shows "\<exists>d'. sample_release k a d = Some d' \<and> tab d d' \<and> ad_ports d' = ad_ports d - set (ports_of si) \<and>
    ad_strs d' = ad_strs d |` (- set (strs_of si)) \<and>
    dom (ad_els d') = dom (ad_els d) - {e. si_edit_list si = Some e \<and> list_goes d k e}"
proof -
  let ?brk = "si_soft_edl si = 0 \<and> si_edit_list si \<noteq> None"
  have own: "\<forall>e. si_edit_list si = Some e \<longrightarrow> (\<exists>el. ad_els d e = Some el \<and> el_is_clone el \<noteq> 0)"
    using assms(4) by (simp add: owned_def)
  obtain d1 where d1: "(if ?brk then ad_break_cache (si_edit_list si) d else Some d) = Some d1" "tab d d1"
      "ad_ports d1 = ad_ports d" "ad_strs d1 = ad_strs d" "dom (ad_els d1) = dom (ad_els d)"
      "\<forall>e. si_edit_list si = Some e \<longrightarrow> (\<exists>el. ad_els d1 e = Some el \<and> el_is_clone el \<noteq> 0)"
    using ad_break_cache_tab [OF assms(1) own] tab_upd(6) [OF assms(1)] own by (cases ?brk) auto
  let ?kfs = "set (somes (map sc_kf (si_effect_chain si)))"
  let ?d2 = "d1\<lparr>ad_ports := ad_ports d1 - ?kfs\<rparr>"
  have 2: "free_ptrs vpf (map sc_kf (si_effect_chain si)) d1 = Some ?d2"
    using assms(4) d1(3) by (intro free_ptrs_vpf) (auto simp: owned_def ports_of_def)
  let ?d3 = "?d2\<lparr>ad_strs := ad_strs ?d2 |` (- set (somes [si_encoder_destination si]))\<rparr>"
  let ?d4 = "?d3\<lparr>ad_strs := ad_strs ?d3 |` (- set (somes [si_edit_list_file si]))\<rparr>"
  let ?d5 = "?d4\<lparr>ad_ports := ad_ports ?d4 - set (somes [si_dict si])\<rparr>"
  let ?d6 = "?d5\<lparr>ad_ports := ad_ports ?d5 - set (somes [si_viewport si])\<rparr>"
  have s3: "free_ptr free_str (si_encoder_destination si) ?d2 = Some ?d3" 
    using assms(4) d1(4) by (intro free_ptr_str) (cases "si_encoder_destination si", auto simp: owned_def strs_of_def)
  have s4: "free_ptr free_str (si_edit_list_file si) ?d3 = Some ?d4" 
    using assms(4) d1(4) by (intro free_ptr_str)
      (cases "si_encoder_destination si"; cases "si_edit_list_file si"; auto simp: owned_def strs_of_def)
  have s5: "free_ptr vpf (si_dict si) ?d4 = Some ?d5" 
    using assms(4) d1(3) by (intro free_ptr_vpf) (cases "si_dict si"; auto simp: owned_def ports_of_def)
  have s6: "free_ptr vpf (si_viewport si) ?d5 = Some ?d6" 
    using assms(4) d1(3) by (intro free_ptr_vpf) (cases "si_dict si"; cases "si_viewport si"; auto simp: owned_def ports_of_def)
  have t: "tab d1 ?d6"
    by (intro tab_trans [OF _ tab_upd(2)] tab_trans [OF _ tab_upd(3)] tab_upd(2))
      (use tab_ok [OF d1(2)] in \<open>auto intro: tab_ok [OF tab_upd(2)] tab_ok [OF tab_upd(3)]\<close>)
  have t6: "tab d ?d6" by (rule tab_trans [OF d1(2) t])
  define d6 where "d6 = ?d6"
  have f6: "ad_els d6 = ad_els d1" "ad_ports d6 = ad_ports d1 - ?kfs - set (somes [si_dict si]) - set (somes [si_viewport si])"
    "ad_strs d6 = ad_strs d1 |` (- set (somes [si_encoder_destination si])) |` (- set (somes [si_edit_list_file si]))"
    by (simp_all add: d6_def)
  note t6 = t6 [folded d6_def] and s6 = s6 [folded d6_def]
  have "this_sample_id d6 < SAMPLE_MAX_SAMPLES" using tabD(8) [OF t6] assms(2) by simp
  from sample_close_edl_frees [OF tab_ok [OF t6] this, of "si_edit_list si" k] d1(6)
  obtain d' where d': "sample_close_edl k (si_edit_list si) d6 = Some d'" "tab d6 d'" "ad_ports d' = ad_ports d6"
    "ad_strs d' = ad_strs d6" "ad_els d' = (\<lambda>e. if si_edit_list si = Some e \<and> list_goes d6 k e then None else ad_els d6 e)"
    by (auto simp: f6)
  have "sample_release k a d = Some d'"
    using assms(3) d1(1) 2 s3 s4 s5 s6 d'(1) by (simp only: sample_release_def bind.bind_lunit option.case)
  moreover have "ad_ports d' = ad_ports d - set (ports_of si)"
    unfolding d'(3) f6 d1(3) by (cases "si_dict si"; cases "si_viewport si") (auto simp: ports_of_def)
  moreover have "ad_strs d' = ad_strs d |` (- set (strs_of si))"
    unfolding d'(4) f6 d1(4)
    by (cases "si_encoder_destination si"; cases "si_edit_list_file si") (auto simp: strs_of_def restrict_map_def fun_eq_iff)
  moreover have "dom (ad_els d') = dom (ad_els d) - {e. si_edit_list si = Some e \<and> list_goes d k e}"
    unfolding d'(5) f6(1) d1(5) [symmetric] by (auto simp: list_goes_tab [OF t6] split: if_splits)
  ultimately show ?thesis
    using tab_trans [OF t6 d'(2)] by blast
qed


subsection \<open>Taking a sample out of the table\<close>

definition drop_sample :: "adm \<Rightarrow> int \<Rightarrow> addr \<Rightarrow> adm" where
  "drop_sample d k a = d\<lparr>avail_num := (avail_num d)(next_avail_num d := k),
     next_avail_num := Suc (next_avail_num d),
     SampleHash := Hash_table ((hash_of d)(k := None)),
     sample_cache := (sample_cache d)(k := None),
     ad_samples := (ad_samples d)(a := None)\<rparr>"

lemma drop_fields [simp]:
  "avail_num (drop_sample d k a) = (avail_num d)(next_avail_num d := k)"
  "next_avail_num (drop_sample d k a) = Suc (next_avail_num d)"
  "hash_of (drop_sample d k a) = (hash_of d)(k := None)"
  "sample_cache (drop_sample d k a) = (sample_cache d)(k := None)"
  "ad_samples (drop_sample d k a) = (ad_samples d)(a := None)"
  "ad_ports (drop_sample d k a) = ad_ports d" "ad_strs (drop_sample d k a) = ad_strs d"
  "ad_els (drop_sample d k a) = ad_els d" "this_sample_id (drop_sample d k a) = this_sample_id d"
  "ad_next (drop_sample d k a) = ad_next d" "initialized (drop_sample d k a) = initialized d"
  "ad_fx (drop_sample d k a) = ad_fx d" "plain_editlist (drop_sample d k a) = plain_editlist d"
  by (simp_all add: drop_sample_def hash_of_def)

lemma drop_sample_ok:
  assumes "adm_ok d" "hash_of d k = Some a" "int (next_avail_num d) < SAMPLE_MAX_SAMPLES"
  shows "adm_ok (drop_sample d k a)"
proof -
  obtain si where si: "ad_samples d a = Some si" "si_sample_id si = k" using adm_ok_hash_live [OF assms(1,2)] by blast
  have kr: "0 < k" "k < this_sample_id d" using adm_ok_range [OF assms(1) si(1)] si(2) by auto
  have other: "b \<noteq> a" if "ad_samples d b = Some sj" "si_sample_id sj \<noteq> k" for b sj using that si by auto
  have new: "avail_num d (next_avail_num d) = 0" using adm_ok_avail(1) [OF assms(1), of "next_avail_num d"] by auto
  have ne: "avail_num d n \<noteq> k" for n
  proof
    assume n: "avail_num d n = k"
    then have "avail_num d n \<noteq> 0" using kr by simp
    from adm_ok_avail [OF assms(1) this] n assms(2) show False by simp
  qed
  have tbl: "SampleHash (drop_sample d k a) = Hash_table ((hash_of d)(k := None))" by (simp add: drop_sample_def)
  show ?thesis
    unfolding adm_ok_def drop_fields tbl
  proof (intro conjI allI impI)
    show "initialized d \<noteq> 0" by (rule adm_ok_hash(2) [OF assms(1)])
  next
    fix j b assume h: "((hash_of d)(k := None)) j = Some b"
    then have "j \<noteq> k" "hash_of d j = Some b" by (auto split: if_splits)
    then show "\<exists>si. ((ad_samples d)(a := None)) b = Some si \<and> si_sample_id si = j"
      using adm_ok_hash_live [OF assms(1), of j b] other by fastforce
  next
    fix j b assume h: "((sample_cache d)(k := None)) j = Some b"
    then have j: "j \<noteq> k" "sample_cache d j = Some b" by (auto split: if_splits)
    then show "\<exists>si. ((ad_samples d)(a := None)) b = Some si \<and> si_sample_id si = j"
      using adm_ok_cache(1) [OF assms(1), of j b] other by fastforce
    show "((hash_of d)(k := None)) j = None \<or> ((hash_of d)(k := None)) j = Some b"
      using adm_ok_cache(2) [OF assms(1), of j b] j by auto
  next
    fix b sj assume "((ad_samples d)(a := None)) b = Some sj"
    then show "b < ad_next d" "0 < si_sample_id sj" "si_sample_id sj < this_sample_id d"
      using adm_ok_range [OF assms(1), of b sj] by (auto split: if_splits)
  next
    fix n assume n: "((avail_num d)(next_avail_num d := k)) n \<noteq> 0"
    show "n < Suc (next_avail_num d)" "0 < ((avail_num d)(next_avail_num d := k)) n"
        "((avail_num d)(next_avail_num d := k)) n < this_sample_id d"
        "((hash_of d)(k := None)) (((avail_num d)(next_avail_num d := k)) n) = None"
        "((sample_cache d)(k := None)) (((avail_num d)(next_avail_num d := k)) n) = None"
      using n kr adm_ok_avail [OF assms(1), of n] ne [of n] by (cases "n = next_avail_num d"; simp)+
  next
    fix n m assume nm: "((avail_num d)(next_avail_num d := k)) n \<noteq> 0"
        "((avail_num d)(next_avail_num d := k)) n = ((avail_num d)(next_avail_num d := k)) m"
    show "n = m"
    proof (cases "n = next_avail_num d \<or> m = next_avail_num d")
      case True
      with nm ne show ?thesis by (auto split: if_splits)
    next
      case False
      with nm show ?thesis using adm_ok_avail_inj [OF assms(1), of n m] by simp
    qed
  qed (use adm_ok_counters [OF assms(1)] assms(3) in simp_all)
qed

lemma drop_sample_at:
  assumes "adm_ok d" "hash_of d k = Some a" "0 < k" "k < SAMPLE_MAX_SAMPLES"
  shows "sample_at (drop_sample d k a) j = (if j = k then None else sample_at d j)"
proof (cases "j = k")
  case True
  then show ?thesis by (simp add: sample_at_def find_sample_def)
next
  case False
  have "find_sample (drop_sample d k a) j = find_sample d j"
    using False by (intro find_sample_eq) simp_all
  moreover have "find_sample d k = Some a" using find_hashed [OF assms(1,2,4)] by simp
  then have "find_sample d j \<noteq> Some a" using find_sample_inj [OF assms(1)] False by blast
  ultimately show ?thesis using False by (auto simp: sample_at_def split: option.splits)
qed


lemma chain_free_kept:
  assumes "adm_ok d" "fx_table_ok (ad_fx d)" "find_sample d k = Some a" "ad_samples d a = Some si" "k \<noteq> SAMPLE_MAX_SAMPLES"
  shows "\<exists>n es d1. sample_chain_free d k = Some (n, put_sample a (si\<lparr>si_effect_chain := es\<rparr>) d1) \<and> kept d d1 \<and>
    fx_table_ok (ad_fx d1) \<and> map sc_kf es = map sc_kf (si_effect_chain si)"
proof -
  obtain es d1 n where f: "map_entries free_entry (si_effect_chain si) (memo_sample d k, 0) = Some (es, d1, n)"
      "kept (memo_sample d k) d1" "fx_table_ok (ad_fx d1)" "map sc_kf es = map sc_kf (si_effect_chain si)"
    using free_entries_kept [OF adm_ok_memo [OF assms(1), of k], of "si_effect_chain si" 0] assms(2) by auto
  have "sample_at d k = Some si" using assms(3,4) by (simp add: sample_at_def)
  then have "sample_chain_free d k = Some (n, put_sample a (si\<lparr>si_effect_chain := es\<rparr>) d1)"
    unfolding sample_chain_free_def by (rule with_sample_found [OF assms(1,5,3)]) (simp add: f(1))
  then show ?thesis using f kept_trans [OF kept_memo [OF assms(1)] f(2)] by blast
qed

text \<open>What is needed to delete a sample: it is in the table, owns its memory, and the counters are below the limit.\<close>

definition deletable :: "adm \<Rightarrow> int \<Rightarrow> sample_info \<Rightarrow> bool" where
  "deletable d k si \<longleftrightarrow> hash_of d k \<noteq> None \<and> sample_at d k = Some si \<and> owned d si \<and> k < SAMPLE_MAX_SAMPLES \<and>
     int (next_avail_num d) < SAMPLE_MAX_SAMPLES \<and> this_sample_id d < SAMPLE_MAX_SAMPLES"

lemma shares_put:
  assumes "kept d d1" "find_sample d k = Some a" "sample_at d k = Some si" "adm_ok d"
  shows "shares (put_sample a (si\<lparr>si_effect_chain := es\<rparr>) d1) k is e = shares d k is e"
proof -
  note t = tabD [OF kept_tab [OF assms(1)]]
  have h: "hash_of (put_sample a x d1) = hash_of d1" for x by (simp add: put_sample_def hash_of_def)
  have k: "side (memo_sample d k) d1" using assms(1) by (auto simp: kept_def tab_def side_def)
  have "sample_at (put_sample a (si\<lparr>si_effect_chain := es\<rparr>) d1) j = sample_at d j" if "j \<noteq> k" for j
    using put_side(2) [OF assms(4,2,3) k, of "si\<lparr>si_effect_chain := es\<rparr>" j] that by simp
  then show ?thesis by (auto simp: shares_def h t)
qed

lemma sample_del_cases:
  assumes "adm_ok d" "fx_table_ok (ad_fx d)" "deletable d k si"
  shows "\<exists>d'. sample_del d k = Some (1, d') \<and> adm_ok d' \<and>
     (\<forall>j. sample_at d' j = (if j = k then None else sample_at d j)) \<and> hash_of d' = (hash_of d)(k := None) \<and>
     ad_ports d' = ad_ports d - set (ports_of si) \<and> ad_strs d' = ad_strs d |` (- set (strs_of si)) \<and>
     dom (ad_els d') = dom (ad_els d) - {e. si_edit_list si = Some e \<and> list_goes d k e} \<and>
     avail_num d' = (avail_num d)(next_avail_num d := k) \<and> next_avail_num d' = Suc (next_avail_num d) \<and>
     this_sample_id d' = this_sample_id d \<and> sample_cache d' k = None"
proof -
  obtain a where a: "hash_of d k = Some a" using assms(3) by (auto simp: deletable_def)
  have k: "k < SAMPLE_MAX_SAMPLES" "k \<noteq> SAMPLE_MAX_SAMPLES" and at: "sample_at d k = Some si" and own: "owned d si"
    using assms(3) by (simp_all add: deletable_def)
  have f: "find_sample d k = Some a" "0 < k" using find_hashed [OF assms(1) a k(1)] by simp_all
  have si: "ad_samples d a = Some si" "si_sample_id si = k"
    using at f adm_ok_hash_live [OF assms(1) a] by (auto simp: sample_at_def)
  let ?m = "memo_sample d k"
  obtain n es d1 where c: "sample_chain_free ?m k = Some (n, put_sample a (si\<lparr>si_effect_chain := es\<rparr>) d1)" "kept ?m d1"
      "fx_table_ok (ad_fx d1)" "map sc_kf es = map sc_kf (si_effect_chain si)"
    using chain_free_kept [OF adm_ok_memo [OF assms(1), of k], of k a si] assms(2) f si k by auto
  have kd: "kept d d1" by (rule kept_trans [OF kept_memo [OF assms(1)] c(2)])
  note t = tabD [OF kept_tab [OF kd]]
  define d2 where "d2 = put_sample a (si\<lparr>si_effect_chain := es\<rparr>) d1"
  have sm: "side ?m d1" using c(2) by (simp add: kept_def tab_def)
  have d2: "adm_ok d2" "sample_at d2 j = (if j = k then Some (si\<lparr>si_effect_chain := es\<rparr>) else sample_at d j)" for j
    unfolding d2_def using put_side [OF assms(1) f(1) at sm, of "si\<lparr>si_effect_chain := es\<rparr>"] by simp_all
  have d2f: "hash_of d2 = hash_of d" "avail_num d2 = avail_num d" "next_avail_num d2 = next_avail_num d"
    "this_sample_id d2 = this_sample_id d" "ad_ports d2 = ad_ports d" "ad_strs d2 = ad_strs d" "ad_els d2 = ad_els d"
    "plain_editlist d2 = plain_editlist d" "ad_samples d2 a = Some (si\<lparr>si_effect_chain := es\<rparr>)"
    using t kd by (simp_all add: d2_def put_sample_def hash_of_def kept_def)
  have same: "ports_of (si\<lparr>si_effect_chain := es\<rparr>) = ports_of si" "strs_of (si\<lparr>si_effect_chain := es\<rparr>) = strs_of si"
    using c(4) by (simp_all add: ports_of_def strs_of_def)
  have own2: "owned d2 (si\<lparr>si_effect_chain := es\<rparr>)" using own by (simp add: owned_def same d2f)
  have "this_sample_id d2 < SAMPLE_MAX_SAMPLES" using assms(3) by (simp add: d2f deletable_def)
  from sample_release_frees [OF d2(1) this d2f(9) own2, of k] obtain d3 where d3: "sample_release k a d2 = Some d3" "tab d2 d3"
      "ad_ports d3 = ad_ports d - set (ports_of si)" "ad_strs d3 = ad_strs d |` (- set (strs_of si))"
      "dom (ad_els d3) = dom (ad_els d) - {e. si_edit_list si = Some e \<and> list_goes d2 k e}"
    by (auto simp: same d2f)
  have goes: "list_goes d2 k e = list_goes d k e" for e
    unfolding list_goes_def d2f using shares_put [OF kd f(1) at assms(1)] by (simp add: d2_def)
  note u = tabD [OF d3(2)]
  have "int (next_avail_num d3) < SAMPLE_MAX_SAMPLES" using u(5) d2f(3) assms(3) by (simp add: deletable_def)
  then have del: "sample_del d k = Some (1, drop_sample d3 k a)"
    using c(1) d3(1) a adm_ok_hash(1) [OF assms(1)] f(1) sample_get_find [OF assms(1) k(2)]
    by (simp add: sample_del_def sample_lookup_def d2_def drop_sample_def)
  have h3: "hash_of d3 k = Some a" using u(4) d2f(1) a by simp
  have "adm_ok (drop_sample d3 k a)"
    by (rule drop_sample_ok [OF tab_ok [OF d3(2)] h3]) (use u(5) d2f(3) assms(3) in \<open>simp add: deletable_def\<close>)
  moreover have "sample_at (drop_sample d3 k a) j = (if j = k then None else sample_at d j)" for j
    using drop_sample_at [OF tab_ok [OF d3(2)] h3 f(2) k(1)] u(3) d2(2) by simp
  ultimately show ?thesis
    using del d3 u d2f goes by (intro exI [of _ "drop_sample d3 k a"]) auto
qed


text \<open>A string that is not allocated any more cannot be freed.\<close>

lemma free_ptrs_strs: "free_ptrs vpf ps d = Some d' \<Longrightarrow> ad_strs d' = ad_strs d"
  by (induction ps arbitrary: d) (auto simp: bind_eq_Some_conv free_ptr_def vpf_def split: option.splits if_splits)

lemma ad_break_cache_strs: "ad_break_cache p d = Some d' \<Longrightarrow> ad_strs d' = ad_strs d"
  by (auto simp: ad_break_cache_def bind_eq_Some_conv split_beta split: option.splits)

lemma sample_release_dangling:
  assumes "ad_samples d a = Some si" "si_edit_list_file si = Some f" "ad_strs d f = None"
  shows "sample_release k a d = None"
proof -
  have enc: "ad_strs d1 f = None" if "free_ptr free_str p d0 = Some d1" "ad_strs d0 f = None" for p d0 d1
    using that by (auto simp: free_ptr_def free_str_def split: option.splits if_splits)
  have "free_ptr free_str (Some f) d1 = None" if "ad_strs d1 f = None" for d1
    using that by (simp add: free_ptr_def free_str_def)
  then show ?thesis
    using assms(2,3) enc free_ptrs_strs ad_break_cache_strs
    by (auto simp: sample_release_def assms(1) bind_eq_None_conv)
qed


lemma free_entries_mem:
  "map_entries free_entry es (d, n) = Some (es', d', n') \<Longrightarrow> ad_strs d' = ad_strs d \<and> ad_samples d' = ad_samples d"
proof (induction es arbitrary: d n es')
  case (Cons e es)
  have rs: "ad_strs (release_stream e d) = ad_strs d" "ad_samples (release_stream e d) = ad_samples d" for e d
    by (auto simp: release_stream_def vj_tag_disable_def split: option.splits)
  obtain e1 d1 n1 es2 where 1: "free_entry e (d, n) = Some (e1, d1, n1)" "map_entries free_entry es (d1, n1) = Some (es2, d', n')"
    using Cons.prems by (auto simp: bind_eq_Some_conv)
  have "ad_strs d1 = ad_strs d \<and> ad_samples d1 = ad_samples d"
    using 1(1) rs by (auto simp: free_entry_def fx_deactivate_def bind_eq_Some_conv split: if_splits)
  with Cons.IH [OF 1(2)] show ?case by simp
qed simp

lemma sample_del_dangling:
  assumes "adm_ok d" "find_sample d k = Some a" "hash_of d k = Some a" "ad_samples d a = Some si" "k \<noteq> SAMPLE_MAX_SAMPLES"
    "si_edit_list_file si = Some f" "ad_strs d f = None"
  shows "sample_del d k = None"
proof -
  let ?m = "memo_sample d k"
  have get: "sample_get d k = Some (Some a, ?m)" "sample_lookup ?m k = Some (Some a)"
    using sample_get_find [OF assms(1,5)] assms(2,3) adm_ok_hash(1) [OF assms(1)] by (simp_all add: sample_lookup_def)
  have at: "sample_at ?m k = Some si" "find_sample ?m k = Some a" using assms(2,4) by (simp_all add: sample_at_def)
  have "sample_release k a d2 = None" if c: "sample_chain_free ?m k = Some (r, d2)" for r d2
  proof -
    have "with_sample ?m k (- 1) (\<lambda>d a si. do {
        (es, d, cnt) \<leftarrow> map_entries free_entry (si_effect_chain si) (d, 0);
        Some (cnt, put_sample a (si\<lparr>si_effect_chain := es\<rparr>) d) }) =
      do { (es, d, cnt) \<leftarrow> map_entries free_entry (si_effect_chain si) (memo_sample ?m k, 0);
           Some (cnt, put_sample a (si\<lparr>si_effect_chain := es\<rparr>) d) }"
      by (rule with_sample_found [OF adm_ok_memo [OF assms(1)] assms(5) at(2,1)]) (rule refl)
    then obtain es d3 n where m: "map_entries free_entry (si_effect_chain si) (memo_sample ?m k, 0) = Some (es, d3, n)"
        "d2 = put_sample a (si\<lparr>si_effect_chain := es\<rparr>) d3"
      using c by (auto simp: sample_chain_free_def bind_eq_Some_conv)
    show ?thesis
      by (rule sample_release_dangling [where si = "si\<lparr>si_effect_chain := es\<rparr>" and f = f])
        (use assms(6,7) free_entries_mem [OF m(1)] in \<open>simp_all add: m(2) put_sample_def\<close>)
  qed
  then show ?thesis by (cases "sample_chain_free ?m k") (auto simp: sample_del_def get)
qed

subsection \<open>Example state\<close>

text \<open>A sample with a keyframe port, the name of its edit-list file and an edit list of its own.\<close>

definition sample_to_delete :: sample_info where
  "sample_to_delete = sample_demo\<lparr>si_edit_list_file := Some 2, si_effect_chain :=
     (chain_skeleton 1)\<lparr>sc_kf := Some 3\<rparr> # replicate (SAMPLE_MAX_EFFECTS - 1) (chain_skeleton 1)\<rparr>"

definition adm_delete :: adm where
  "adm_delete = adm_demo\<lparr>ad_samples := [0 \<mapsto> sample_to_delete], ad_els := [1 \<mapsto> el_demo\<lparr>el_is_clone := 1\<rparr>],
     ad_strs := [2 \<mapsto> ''sample_00001.edl''], ad_ports := {3}, ad_next := 4\<rparr>"

lemma adm_delete_ok: "adm_ok adm_delete" "fx_table_ok (ad_fx adm_delete)" "deletable adm_delete 1 sample_to_delete"
  "own_list adm_delete sample_to_delete"
proof -
  have at: "hash_of adm_delete = [1 \<mapsto> 0]" "sample_at adm_delete 1 = Some sample_to_delete"
    by (simp_all add: sample_at_def find_sample_def hash_of_def adm_delete_def adm_demo_def adm_start_def sample_init_def SAMPLE_MAX_SAMPLES_def)
  show "adm_ok adm_delete" "fx_table_ok (ad_fx adm_delete)"
    by (auto simp: adm_ok_def adm_delete_def adm_demo_def adm_start_def sample_init_def hash_of_def
        sample_to_delete_def sample_demo_def SAMPLE_MAX_SAMPLES_def fx_table_ok_def fx_empty_def fx_consts)
  have s: "somes (map sc_kf (replicate n (chain_skeleton 1))) = []" for n
    by (induction n) (simp_all add: chain_skeleton_def chain_zero_def)
  have p: "ports_of sample_to_delete = [3]" "strs_of sample_to_delete = [2]"
    using s by (simp_all add: ports_of_def strs_of_def sample_to_delete_def sample_demo_def sample_zero_def del: map_replicate)
  show "deletable adm_delete 1 sample_to_delete"
    using at p by (simp add: deletable_def owned_def adm_delete_def adm_demo_def adm_start_def sample_init_def
        SAMPLE_MAX_SAMPLES_def sample_to_delete_def sample_demo_def)
  show "own_list adm_delete sample_to_delete"
    by (simp add: adm_delete_def own_list_def sample_to_delete_def sample_demo_def el_demo_def vj_el_dummy_def vj_el_clone_def
        vj_el_framelist_clone_def vj_el_soft_clone_def vj_el_bogus_length_def el_frames_def DUMMY_FRAMES_def Let_def)
qed


subsection \<open>Properties\<close>

text \<open>
  C10. Deleting a sample releases what it owns and nothing else. The sample leaves the table and the pointer
  cache and every other sample stays; its keyframe and dictionary ports and its strings are freed; its edit list
  is freed exactly if no other sample has it and it is not the list that all samples start from. Deleting the
  identifier again changes nothing and returns 0.
\<close>

theorem sample_del_releases:
  assumes "adm_ok d" "fx_table_ok (ad_fx d)" "deletable d k si"
  shows "\<exists>d'. sample_del d k = Some (1, d') \<and> adm_ok d' \<and> sample_del d' k = Some (0, d') \<and>
     sample_exists d' k = Some (0, d') \<and> (\<forall>j. sample_at d' j = (if j = k then None else sample_at d j)) \<and>
     ad_ports d' = ad_ports d - set (ports_of si) \<and> ad_strs d' = ad_strs d |` (- set (strs_of si)) \<and>
     dom (ad_els d') = dom (ad_els d) - {e. si_edit_list si = Some e \<and> list_goes d k e}"
proof -
  obtain d' where d': "sample_del d k = Some (1, d')" "adm_ok d'" "\<forall>j. sample_at d' j = (if j = k then None else sample_at d j)"
     "hash_of d' = (hash_of d)(k := None)" "sample_cache d' k = None"
     "ad_ports d' = ad_ports d - set (ports_of si)" "ad_strs d' = ad_strs d |` (- set (strs_of si))"
     "dom (ad_els d') = dom (ad_els d) - {e. si_edit_list si = Some e \<and> list_goes d k e}"
    using sample_del_cases [OF assms] by blast
  have k: "k < SAMPLE_MAX_SAMPLES" "k \<noteq> SAMPLE_MAX_SAMPLES" using assms(3) by (simp_all add: deletable_def)
  have none: "find_sample d' k = None" using d'(4,5) by (simp add: find_sample_def)
  have memo: "memo_sample d' k = d'"
    using none cache_upd_same [OF d'(5)] by (simp add: memo_sample_def)
  have "sample_del d' k = Some (0, d')"
    using sample_get_find [OF d'(2) k(2)] none memo by (simp add: sample_del_def)
  moreover have "sample_exists d' k = Some (0, d')" using sample_exists_at [OF d'(2) k(1)] d'(4) by simp
  ultimately show ?thesis using d' by blast
qed

theorem sample_del_releases_witness:
  "\<exists>d'. sample_del adm_delete 1 = Some (1, d') \<and> sample_del d' 1 = Some (0, d') \<and> ad_ports d' = {} \<and>
     ad_strs d' = Map.empty \<and> ad_els d' = Map.empty"
proof -
  obtain d' where d': "sample_del adm_delete 1 = Some (1, d')" "sample_del d' 1 = Some (0, d')"
     "ad_ports d' = ad_ports adm_delete - set (ports_of sample_to_delete)"
     "ad_strs d' = ad_strs adm_delete |` (- set (strs_of sample_to_delete))"
     "dom (ad_els d') = dom (ad_els adm_delete) - {e. si_edit_list sample_to_delete = Some e \<and> list_goes adm_delete 1 e}"
    using sample_del_releases [OF adm_delete_ok(1-3)] by blast
  have p: "3 \<in> set (ports_of sample_to_delete)" "2 \<in> set (strs_of sample_to_delete)"
    by (simp_all add: ports_of_def strs_of_def sample_to_delete_def sample_demo_def sample_zero_def)
  have "list_goes adm_delete 1 1"
    by (simp add: list_goes_def shares_def adm_delete_def adm_demo_def adm_start_def sample_init_def hash_of_def)
  then have "dom (ad_els d') = {}"
    unfolding d'(5) by (simp add: adm_delete_def sample_to_delete_def sample_demo_def)
  with d' p show ?thesis by (auto simp: adm_delete_def restrict_map_def fun_eq_iff)
qed

text \<open>
  Identifiers are recycled. The identifier of a deleted sample is given to the next sample that is made,
  when no other freed identifier is waiting.
\<close>

theorem deleted_identifier_reused:
  assumes "adm_ok d" "fx_table_ok (ad_fx d)" "deletable d k si" "\<forall>n. avail_num d n = 0"
    "int (next_avail_num d) + 1 < SAMPLE_MAX_SAMPLES"
  shows "\<exists>d1 d2. sample_del d k = Some (1, d1) \<and> new_id d1 = Some (k, d2) \<and> adm_ok d2 \<and>
     (\<forall>n. avail_num d2 n = 0) \<and> this_sample_id d2 = this_sample_id d"
proof -
  obtain d1 where d1: "sample_del d k = Some (1, d1)" "adm_ok d1" "avail_num d1 = (avail_num d)(next_avail_num d := k)"
      "next_avail_num d1 = Suc (next_avail_num d)" "this_sample_id d1 = this_sample_id d" "hash_of d1 k = None"
    using sample_del_cases [OF assms(1-3)] by (metis fun_upd_same)
  obtain a where a: "hash_of d k = Some a" "k < SAMPLE_MAX_SAMPLES" using assms(3) by (auto simp: deletable_def)
  have k: "0 < k" using find_hashed [OF assms(1) a] by simp
  obtain sid d2 where n: "new_id d1 = Some (sid, d2)" using new_id_defined [of d1] d1(4) assms(5) by auto
  obtain r where r: "find_avail (avail_num d1) 0 (Suc (next_avail_num d1)) = Some r"
    using n by (auto simp: new_id_def bind_eq_Some_conv simp del: find_avail.simps)
  have "r = Some (next_avail_num d)"
  proof (cases r)
    case None
    have "avail_num d1 (next_avail_num d) = 0" 
      by (rule find_avail_none [of _ 0 "Suc (next_avail_num d1)"]) (use r None d1(4) in \<open>simp_all del: find_avail.simps\<close>)
    then show ?thesis using d1(3) k by simp
  next
    case (Some m)
    then have "avail_num d1 m \<noteq> 0" using find_avail_Some r by blast
    then show ?thesis using Some d1(3) assms(4) by (auto split: if_splits)
  qed
  then have "sid = k" "d2 = d1\<lparr>avail_num := (avail_num d1)(next_avail_num d := 0)\<rparr>"
    using n r d1(3) by (simp_all add: new_id_def del: find_avail.simps)
  moreover have "adm_ok d2" using new_id_fresh [OF d1(2) n] by simp
  ultimately show ?thesis using d1 n assms(4) by (intro exI [of _ d1] exI [of _ d2]) auto
qed

theorem deleted_identifier_reused_witness:
  "\<exists>d1 d2. sample_del adm_delete 1 = Some (1, d1) \<and> new_id d1 = Some (1, d2) \<and> this_sample_id d2 = 2"
  using deleted_identifier_reused [OF adm_delete_ok(1-3)]
  by (auto simp: adm_delete_def adm_demo_def adm_start_def sample_init_def SAMPLE_MAX_SAMPLES_def)

text \<open>
  C31. Deleting a sample and its copy is undefined. The copy holds the pointer to the name of the edit-list file of
  the original; the original's deletion frees the name, and deleting the copy frees it once more.
\<close>

theorem sample_copy_delete_double_free:
  assumes "adm_ok d" "fx_table_ok (ad_fx d)" "deletable d k org" "own_list d org" "this_sample_id d + 1 < SAMPLE_MAX_SAMPLES"
    "si_edit_list_file org = Some f" "si_edit_list org = Some e" "e < ad_next d"
  shows "\<exists>sid d1 d2. sample_copy d k = Some (sid, d1) \<and> sample_del d1 k = Some (1, d2) \<and> sample_del d2 sid = None"
proof -
  obtain b where b: "hash_of d k = Some b" using assms(3) by (auto simp: deletable_def)
  have dl: "k < SAMPLE_MAX_SAMPLES" "sample_at d k = Some org" "owned d org" "int (next_avail_num d) < SAMPLE_MAX_SAMPLES"
    using assms(3) by (simp_all add: deletable_def)
  note fk = find_hashed [OF assms(1) b dl(1)]
  have org: "ad_samples d b = Some org" using dl(2) fk by (simp add: sample_at_def)
  show ?thesis
  proof (rule copy_cases [OF assms(1) b dl(1) org dl(4) assms(4)])
    fix sid a cpy d1
    assume c: "sample_copy d k = Some (sid, d1)" "adm_ok d1" "0 < sid" "sid \<le> max 1 (this_sample_id d)"
      "hash_of d sid = None" "sample_cache d sid = None" "hash_of d1 = (hash_of d)(sid \<mapsto> a)"
      "sample_cache d1 = sample_cache (memo_sample d k)" "ad_samples d1 = (ad_samples d)(a \<mapsto> cpy)"
      "ad_samples d a = None"
      "cpy\<lparr>si_sample_id := k, si_edit_list := si_edit_list org, si_soft_edl := si_soft_edl org,
          si_play_length := si_play_length org\<rparr> = org"
      "\<forall>e. si_edit_list org = Some e \<longrightarrow> (\<exists>e' el. si_edit_list cpy = Some e' \<and> ad_next d \<le> e' \<and> ad_els d e = Some el \<and>
          ad_els d1 e' = vj_el_clone el)" "ad_ports d1 = ad_ports d" "ad_strs d1 = ad_strs d"
      "next_avail_num d1 = next_avail_num d" "this_sample_id d1 \<le> max 1 (this_sample_id d) + 1" "ad_fx d1 = ad_fx d"
      "\<forall>e < ad_next d. ad_els d1 e = ad_els d e"
    have sid: "sid \<noteq> k" "sid < SAMPLE_MAX_SAMPLES" "sid \<noteq> SAMPLE_MAX_SAMPLES"
      using c(4,5) b assms(5) by (auto simp: SAMPLE_MAX_SAMPLES_def)
    have fl: "si_edit_list_file cpy = Some f"
      using assms(6) by (subst (asm) c(11) [symmetric]) simp
    have h: "hash_of d1 k = Some b" "hash_of d1 sid = Some a" using c(7) b sid(1) by simp_all
    have ab: "a \<noteq> b" using c(10) org by auto
    have at: "sample_at d1 k = Some org" "sample_at d1 sid = Some cpy"
      using find_hashed [OF c(2) h(1) dl(1)] find_hashed [OF c(2) h(2) sid(2)] c(9) org ab by (simp_all add: sample_at_def)
    have "deletable d1 k org"
      using dl h at c assms(5,7,8) by (auto simp: deletable_def owned_def SAMPLE_MAX_SAMPLES_def)
    from sample_del_cases [OF c(2) _ this] obtain d2 where d2: "sample_del d1 k = Some (1, d2)" "adm_ok d2"
        "\<forall>j. sample_at d2 j = (if j = k then None else sample_at d1 j)" "hash_of d2 = (hash_of d1)(k := None)"
        "ad_strs d2 = ad_strs d1 |` (- set (strs_of org))"
      using c(17) assms(2) by auto
    have h2: "hash_of d2 sid = Some a" using d2(4) h sid(1) by simp
    note f2 = find_hashed [OF d2(2) h2 sid(2)]
    have "sample_at d2 sid = Some cpy" using d2(3) at sid(1) by simp
    then have s2: "ad_samples d2 a = Some cpy" using f2 by (simp add: sample_at_def)
    have "f \<in> set (strs_of org)" using assms(6) by (cases "si_encoder_destination org") (simp_all add: strs_of_def)
    then have "ad_strs d2 f = None" using d2(5) by (simp add: restrict_map_def)
    then have "sample_del d2 sid = None"
      using sample_del_dangling [OF d2(2) _ h2 s2 sid(3) fl] f2 by simp
    then show ?thesis using c(1) d2(1) by blast
  qed
qed

theorem sample_copy_delete_double_free_witness:
  "\<exists>sid d1 d2. sample_copy adm_delete 1 = Some (sid, d1) \<and> sample_del d1 1 = Some (1, d2) \<and> sample_del d2 sid = None"
proof -
  have "si_edit_list_file sample_to_delete = Some 2" "si_edit_list sample_to_delete = Some 1" "1 < ad_next adm_delete"
    "this_sample_id adm_delete + 1 < SAMPLE_MAX_SAMPLES"
    by (simp_all add: sample_to_delete_def sample_demo_def adm_delete_def adm_demo_def SAMPLE_MAX_SAMPLES_def)
  then show ?thesis using sample_copy_delete_double_free [OF adm_delete_ok] by blast
qed

end
