(* ===== verification/StreamStore.thy ===== *)
theory StreamStore
  imports SampleChain
begin

text \<open>
  Streams (\<open>libstream/vj-tag.h\<close>, \<open>libstream/vj-tag.c\<close>): the table of streams with its identifiers, and the
  creation of a stream.

  \<^item> \<open>ad_tags\<close> is both \<open>TagHash\<close> and \<open>tag_cache\<close>: every stream enters both when it is created and leaves both when it is
    deleted, so \<open>vj_tag_get\<close> (in \<open>SampleChain\<close>, which looks at streams as well) never has to fill the cache.
  \<^item> The devices a stream captures from are outside. What they answer is the argument \<open>env\<close>.
  \<^item> The build is the one with V4L2, with GdkPixbuf, with FreeType and without libdv.
\<close>

definition VJ_TAG_TYPE_SPLITTER :: int where "VJ_TAG_TYPE_SPLITTER = 8"
definition VJ_TAG_TYPE_GENERATOR :: int where "VJ_TAG_TYPE_GENERATOR = 7"
definition VJ_TAG_TYPE_CALI :: int where "VJ_TAG_TYPE_CALI = 6"
definition VJ_TAG_TYPE_PICTURE :: int where "VJ_TAG_TYPE_PICTURE = 5"
definition VJ_TAG_TYPE_COLOR :: int where "VJ_TAG_TYPE_COLOR = 4"
definition VJ_TAG_TYPE_V4L :: int where "VJ_TAG_TYPE_V4L = 2"
definition VJ_TAG_TYPE_YUV4MPEG :: int where "VJ_TAG_TYPE_YUV4MPEG = 1"
definition VJ_TAG_TYPE_NONE :: int where "VJ_TAG_TYPE_NONE = 0"
definition VJ_TAG_TYPE_MCAST :: int where "VJ_TAG_TYPE_MCAST = 14"
definition VJ_TAG_MAX_STREAM_IN :: int where "VJ_TAG_MAX_STREAM_IN = 255"
definition TAG_MAX_DESCR_LEN :: nat where "TAG_MAX_DESCR_LEN = 150"
definition SOURCE_NAME_LEN :: nat where "SOURCE_NAME_LEN = 255"

lemmas tag_consts = VJ_TAG_TYPE_SPLITTER_def VJ_TAG_TYPE_GENERATOR_def VJ_TAG_TYPE_CALI_def VJ_TAG_TYPE_PICTURE_def
  VJ_TAG_TYPE_COLOR_def VJ_TAG_TYPE_V4L_def VJ_TAG_TYPE_YUV4MPEG_def VJ_TAG_TYPE_NONE_def VJ_TAG_TYPE_MCAST_def
  VJ_TAG_TYPE_NET_def VJ_TAG_MAX_STREAM_IN_def TAG_MAX_DESCR_LEN_def SOURCE_NAME_LEN_def

text \<open>What the devices, files and plugins behind streams answer.\<close>

record stream_env =
  env_num_devices :: int
  env_open_capture :: "int \<Rightarrow> int \<Rightarrow> bool"
  env_probe_picture :: "string \<Rightarrow> bool"
  env_open_picture :: "string \<Rightarrow> bool"
  env_read_cali :: "string \<Rightarrow> bool"
  env_open_yuv4mpeg :: "string \<Rightarrow> bool"
  env_find_generator :: int
  env_plug_by_so_name :: "string \<Rightarrow> int"
  env_plug_by_name :: "string \<Rightarrow> int"
  env_plug_activate :: "int \<Rightarrow> addr option"
  env_plug_inputs :: "int \<Rightarrow> int"
  env_plug_outputs :: "int \<Rightarrow> int"
  env_net_start :: "vj_tag \<Rightarrow> bool"

definition tag_zero :: vj_tag where
  "tag_zero = \<lparr>tag_id = 0, tag_effect_chain = [], tag_source_type = 0, tag_source_name = None,
     tag_method_filename = None, tag_extra = None, tag_index = 0, tag_depth = 0, tag_active = 0, tag_video_channel = 0,
     tag_capture_type = 0, tag_encoder_active = 0, tag_encoder_file = None, tag_encoder = None, tag_sequence_num = 0,
     tag_encoder_base = [], tag_encoder_destination = [], tag_descr = [], tag_encoder_format = 0,
     tag_encoder_total_frames_recorded = 0, tag_encoder_frames_to_record = 0, tag_encoder_frames_recorded = 0,
     tag_encoder_width = 0, tag_encoder_height = 0, tag_encoder_max_size = 0, tag_color_r = 0, tag_color_g = 0,
     tag_color_b = 0, tag_fader_active = 0, tag_fader_direction = 0, tag_fader_val = 0, tag_fader_inc = 0,
     tag_selected_entry = 0, tag_effect_toggle = 0, tag_socket_ready = 0, tag_n_frames = 0, tag_dict = None,
     tag_composite = 0, tag_viewport_config = None, tag_viewport = None, tag_generator = None, tag_subrender = 0\<rparr>"

subsection \<open>The table\<close>

definition vj_tag_init :: "int \<Rightarrow> int \<Rightarrow> adm \<Rightarrow> int \<times> adm" where
  "vj_tag_init width height d =
     (if width \<le> 0 \<or> height \<le> 0 then (- 1, d)
      else (0, d\<lparr>this_tag_id := 0, ad_tags := Map.empty, avail_tag := (\<lambda>_. 0)\<rparr>))"

definition vj_tag_get_last_tag :: "adm \<Rightarrow> int" where "vj_tag_get_last_tag d = last_added_tag d"
definition vj_tag_true_size :: "adm \<Rightarrow> int" where "vj_tag_true_size d = this_tag_id d - int (next_avail_tag d)"
definition vj_tag_size :: "adm \<Rightarrow> int" where "vj_tag_size d = this_tag_id d"

definition vj_tag_exists :: "adm \<Rightarrow> int \<Rightarrow> int" where
  "vj_tag_exists d k = (if k = 0 then 0 else if vj_tag_get d k = None then 0 else 1)"

definition vj_tag_is_deleted :: "adm \<Rightarrow> int \<Rightarrow> int" where
  "vj_tag_is_deleted d k = (if \<exists>i \<in> set [0..<next_avail_tag d]. avail_tag d i = k then 1 else 0)"

text \<open>A record whose identifier is taken is dropped: \<open>hnode_put\<close> fills in a node that is in no table.\<close>

definition vj_tag_put :: "adm \<Rightarrow> vj_tag \<Rightarrow> int \<times> adm" where
  "vj_tag_put d t =
     (if vj_tag_exists d (tag_id t) = 0 then (1, d\<lparr>ad_tags := (ad_tags d)(tag_id t \<mapsto> t)\<rparr>) else (1, d))"

text \<open>The idioms of the operations on one stream: reading a record and changing it in place.\<close>

definition read_tag :: "adm \<Rightarrow> int \<Rightarrow> 'r \<Rightarrow> (vj_tag \<Rightarrow> 'r) \<Rightarrow> 'r" where
  "read_tag d t1 dflt f = (case vj_tag_get d t1 of None \<Rightarrow> dflt | Some t \<Rightarrow> f t)"

definition modify_tag :: "adm \<Rightarrow> int \<Rightarrow> (vj_tag \<Rightarrow> vj_tag) \<Rightarrow> adm" where
  "modify_tag d t1 f =
     (case vj_tag_get d t1 of None \<Rightarrow> d | Some t \<Rightarrow> d\<lparr>ad_tags := (ad_tags d)(t1 \<mapsto> f t)\<rparr>)"

definition write_tag :: "adm \<Rightarrow> int \<Rightarrow> 'r \<Rightarrow> 'r \<Rightarrow> (vj_tag \<Rightarrow> vj_tag) \<Rightarrow> 'r \<times> adm" where
  "write_tag d t1 dflt r f = (if vj_tag_get d t1 = None then (dflt, d) else (r, modify_tag d t1 f))"

text \<open>The names of the kinds of stream; an unknown kind leaves the description alone.\<close>

definition vj_tag_get_by_type :: "int \<Rightarrow> string \<Rightarrow> string" where
  "vj_tag_get_by_type type description =
     (if type = VJ_TAG_TYPE_GENERATOR then ''Generator''
      else if type = VJ_TAG_TYPE_COLOR then ''Solid''
      else if type = VJ_TAG_TYPE_NONE then ''EditList''
      else if type = VJ_TAG_TYPE_MCAST then ''Multicast''
      else if type = VJ_TAG_TYPE_NET then ''Unicast''
      else if type = VJ_TAG_TYPE_PICTURE then ''GdkPixbuf''
      else if type = VJ_TAG_TYPE_V4L then ''Video4Linux''
      else if type = VJ_TAG_TYPE_YUV4MPEG then ''YUV4MPEG''
      else if type = VJ_TAG_TYPE_CALI then ''Image Calibration''
      else description)"

definition vj_tag_get_descriptive :: "adm \<Rightarrow> int \<Rightarrow> string \<Rightarrow> string" where
  "vj_tag_get_descriptive d k description =
     read_tag d k ''invalid'' (\<lambda>t. vj_tag_get_by_type (tag_source_type t) description)"

definition vj_tag_by_type :: "adm \<Rightarrow> int \<Rightarrow> int" where
  "vj_tag_by_type d type =
     (case filter (\<lambda>i. vj_tag_get_type d i = type) [1..this_tag_id d - 1] of [] \<Rightarrow> 0 | i # _ \<Rightarrow> i)"

subsection \<open>Creating a stream\<close>

definition lower :: "char \<Rightarrow> char" where
  "lower c = (let n = of_char c :: nat in if 65 \<le> n \<and> n \<le> 90 then char_of (n + 32) else c)"

definition strcasecmp_eq :: "string \<Rightarrow> string \<Rightarrow> bool" where
  "strcasecmp_eq s t \<longleftrightarrow> map lower s = map lower t"

definition source_name_of :: "adm \<Rightarrow> vj_tag \<Rightarrow> string option" where
  "source_name_of d t = do { a \<leftarrow> tag_source_name t; ad_strs d a }"

text \<open>Whether a network stream with the same host (letter case aside) and port exists below identifier \<open>n\<close>.\<close>

fun net_opened_loop :: "adm \<Rightarrow> string \<Rightarrow> int \<Rightarrow> int list \<Rightarrow> bool option" where
  "net_opened_loop d filename channel [] = Some False"
| "net_opened_loop d filename channel (i # is) =
     (case vj_tag_get d i of
        None \<Rightarrow> net_opened_loop d filename channel is
      | Some t \<Rightarrow> do {
          s \<leftarrow> source_name_of d t;
          if strcasecmp_eq s filename \<and> (tag_source_type t = VJ_TAG_TYPE_NET \<or> tag_source_type t = VJ_TAG_TYPE_MCAST) \<and>
             tag_video_channel t = channel
          then Some True else net_opened_loop d filename channel is })"

definition net_already_opened :: "adm \<Rightarrow> string option \<Rightarrow> int \<Rightarrow> int \<Rightarrow> bool option" where
  "net_already_opened d filename n channel =
     (case filename of
        None \<Rightarrow> if \<exists>i \<in> set [1..n - 1]. vj_tag_get d i \<noteq> None then null_deref else Some False
      | Some s \<Rightarrow> net_opened_loop d s channel [1..n - 1])"

text \<open>
  \<open>sprintf\<close> of a name into a block of \<open>SOURCE_NAME_LEN\<close> bytes; a null name is undefined for \<open>%s\<close>. Failing to open a
  source is \<open>Some (None, d)\<close>.
\<close>

definition print_name :: "vj_tag \<Rightarrow> string option \<Rightarrow> adm \<Rightarrow> adm option" where
  "print_name t s d = do {
     a \<leftarrow> tag_source_name t;
     s \<leftarrow> s;
     if length s \<ge> SOURCE_NAME_LEN then out_of_bounds else Some (d\<lparr>ad_strs := (ad_strs d)(a \<mapsto> s)\<rparr>) }"

definition bad_slot :: "int \<Rightarrow> bool" where
  "bad_slot stream_nr \<longleftrightarrow> stream_nr < 0 \<or> stream_nr > VJ_TAG_MAX_STREAM_IN"

text \<open>The handle tables have \<open>VJ_TAG_MAX_STREAM_IN\<close> entries, one fewer than \<open>bad_slot\<close> lets through.\<close>

definition vj_tag_new_net :: "vj_tag \<Rightarrow> int \<Rightarrow> string option \<Rightarrow> int \<Rightarrow> adm \<Rightarrow> vj_tag option \<times> adm" where
  "vj_tag_new_net t stream_nr host port d =
     (case host of
        None \<Rightarrow> (None, d)
      | Some h \<Rightarrow>
          if port \<le> 0 \<or> bad_slot stream_nr then (None, d)
          else let (a, d) = strdup (take 1023 (h @ '' '' @ show_int port)) d
               in (Some (t\<lparr>tag_extra := Some a, tag_socket_ready := 1\<rparr>), d))"

definition vj_tag_new_unicap :: "stream_env \<Rightarrow> vj_tag \<Rightarrow> int \<Rightarrow> int \<Rightarrow> int \<Rightarrow> adm \<Rightarrow> (vj_tag option \<times> adm) option" where
  "vj_tag_new_unicap env t stream_nr device_num channel d =
     (if stream_nr < 0 \<or> stream_nr > env_num_devices env then Some (None, d)
      else if stream_nr \<ge> VJ_TAG_MAX_STREAM_IN then out_of_bounds
      else let t = t\<lparr>tag_capture_type := 1\<rparr>
           in if \<not> env_open_capture env device_num channel then Some (None, d)
              else let (a, d) = strdup (show_int channel) d in Some (Some (t\<lparr>tag_extra := Some a\<rparr>), d))"

definition vj_tag_new_picture :: "stream_env \<Rightarrow> vj_tag \<Rightarrow> int \<Rightarrow> adm \<Rightarrow> (vj_tag option \<times> adm) option" where
  "vj_tag_new_picture env t stream_nr d =
     (if bad_slot stream_nr then Some (None, d)
      else do {
        s \<leftarrow> source_name_of d t;
        if \<not> env_probe_picture env s then Some (None, d)
        else if stream_nr = VJ_TAG_MAX_STREAM_IN then out_of_bounds
        else Some (Some t, d) })"

definition vj_tag_new_cali :: "stream_env \<Rightarrow> vj_tag \<Rightarrow> int \<Rightarrow> adm \<Rightarrow> (vj_tag option \<times> adm) option" where
  "vj_tag_new_cali env t stream_nr d =
     (if bad_slot stream_nr then Some (None, d)
      else do {
        s \<leftarrow> source_name_of d t;
        if \<not> env_read_cali env s then Some (None, d)
        else if stream_nr = VJ_TAG_MAX_STREAM_IN then out_of_bounds
        else Some (Some t, d) })"

definition vj_tag_new_yuv4mpeg :: "stream_env \<Rightarrow> vj_tag \<Rightarrow> int \<Rightarrow> adm \<Rightarrow> (bool \<times> adm) option" where
  "vj_tag_new_yuv4mpeg env t stream_nr d =
     (if bad_slot stream_nr then Some (False, d)
      else if stream_nr = VJ_TAG_MAX_STREAM_IN then out_of_bounds
      else do { s \<leftarrow> source_name_of d t; Some (env_open_yuv4mpeg env s, d) })"

definition free_source_name :: "vj_tag \<Rightarrow> adm \<Rightarrow> adm option" where
  "free_source_name t d = free_ptr free_str (tag_source_name t) d"

text \<open>The generator plugin: named, or given by its index, or the first one there is.\<close>

definition open_generator :: "stream_env \<Rightarrow> vj_tag \<Rightarrow> string option \<Rightarrow> int \<Rightarrow> adm \<Rightarrow> (vj_tag option \<times> adm) option" where
  "open_generator env t filename channel d = do {
     d \<leftarrow> print_name t (Some ''[GEN]'') d;
     let channel = (if channel = - 1 \<and> filename = None \<and> env_find_generator env \<ge> 0 then env_find_generator env else channel);
     if channel \<ge> 0 \<or> filename \<noteq> None
     then let channel = (case filename of None \<Rightarrow> channel
                         | Some f \<Rightarrow> if env_plug_by_so_name env f = - 1 then env_plug_by_name env f else env_plug_by_so_name env f)
          in if filename \<noteq> None \<and> channel = - 1 then do { d \<leftarrow> free_source_name t d; Some (None, d) }
             else (case env_plug_activate env channel of
                     None \<Rightarrow> do { d \<leftarrow> free_source_name t d; Some (None, d) }
                   | Some g \<Rightarrow>
                       if env_plug_inputs env channel > 0 \<or> env_plug_outputs env channel = 0
                       then do { d \<leftarrow> free_source_name t d; Some (None, d) }
                       else do {
                         d \<leftarrow> (if filename \<noteq> None then print_name t filename d else Some d);
                         Some (Some (t\<lparr>tag_generator := Some g\<rparr>), d) })
     else Some (Some t, d) }"

definition open_source ::
  "stream_env \<Rightarrow> vj_tag \<Rightarrow> int \<Rightarrow> string option \<Rightarrow> int \<Rightarrow> int \<Rightarrow> int \<Rightarrow> adm \<Rightarrow> (vj_tag option \<times> adm) option" where
  "open_source env t type filename stream_nr channel extra d =
     (if type = VJ_TAG_TYPE_V4L
      then do { d \<leftarrow> print_name t filename d; vj_tag_new_unicap env t stream_nr extra channel d }
      else if type = VJ_TAG_TYPE_MCAST \<or> type = VJ_TAG_TYPE_NET
      then do { d \<leftarrow> print_name t filename d; Some (vj_tag_new_net t stream_nr filename channel d) }
      else if type = VJ_TAG_TYPE_PICTURE
      then do { d \<leftarrow> print_name t filename d; vj_tag_new_picture env t stream_nr d }
      else if type = VJ_TAG_TYPE_CALI
      then do { d \<leftarrow> print_name t filename d; vj_tag_new_cali env t stream_nr d }
      else if type = VJ_TAG_TYPE_YUV4MPEG
      then do {
        d \<leftarrow> print_name t filename d;
        (ok, d) \<leftarrow> vj_tag_new_yuv4mpeg env t stream_nr d;
        if ok then Some (Some (t\<lparr>tag_active := 1\<rparr>), d)
        else do { d \<leftarrow> free_source_name t d; Some (None, d) } }
      else if type = VJ_TAG_TYPE_GENERATOR then open_generator env t filename channel d
      else if type = VJ_TAG_TYPE_COLOR
      then do { d \<leftarrow> print_name t (Some ''[0,0,0]'') d; Some (Some (t\<lparr>tag_active := 1\<rparr>), d) }
      else Some (None, d))"

text \<open>The entries of a new chain, each with a keyframe port of its own.\<close>

fun new_tag_chain :: "nat \<Rightarrow> adm \<Rightarrow> sample_eff_chain list \<times> adm" where
  "new_tag_chain 0 d = ([], d)"
| "new_tag_chain (Suc n) d =
     (let (k, d) = vpn d; (es, d) = new_tag_chain n d
      in (chain_zero\<lparr>sc_effect_id := - 1, sc_source_type := 1, sc_kf := Some k\<rparr> # es, d))"

text \<open>
  The identifier comes from the deleted ones if there is one, and it is gone from them even when the source
  cannot be opened. (The node that the code inserts for a reused identifier has key 0, under which no lookup is
  made; the entry that counts is made by \<open>vj_tag_put\<close>.) \<open>this_tag_id\<close> grows in either case.
\<close>

definition tag_skeleton :: "int \<Rightarrow> int \<Rightarrow> addr \<Rightarrow> addr option \<Rightarrow> int \<Rightarrow> int \<Rightarrow> vj_tag" where
  "tag_skeleton k type name meth stream_nr channel = tag_zero
     \<lparr>tag_id := k, tag_video_channel := channel, tag_source_type := type, tag_index := stream_nr, tag_n_frames := 50,
      tag_effect_toggle := 1, tag_source_name := Some name, tag_method_filename := meth\<rparr>"

definition take_tag_id :: "adm \<Rightarrow> (int \<times> adm) option" where
  "take_tag_id d = do {
     r \<leftarrow> find_avail (avail_tag d) 0 (Suc (next_avail_tag d));
     Some (case r of
             Some n \<Rightarrow> (avail_tag d n, d\<lparr>avail_tag := (avail_tag d)(n := 0)\<rparr>)
           | None \<Rightarrow> (this_tag_id d, d)) }"

definition vj_tag_new :: "stream_env \<Rightarrow> int \<Rightarrow> string option \<Rightarrow> int \<Rightarrow> int \<Rightarrow> int \<Rightarrow> adm \<Rightarrow> (int \<times> adm) option" where
  "vj_tag_new env type filename stream_nr channel extra d = do {
     let d = (if this_tag_id d = 0 then d\<lparr>this_tag_id := 1\<rparr> else d);
     opened \<leftarrow> (if type = VJ_TAG_TYPE_NET \<or> type = VJ_TAG_TYPE_MCAST
                then net_already_opened d filename (this_tag_id d) channel else Some False);
     if opened then Some (- 1, d)
     else do {
       let (name, d) = strdup [] d;
       (k, d) \<leftarrow> take_tag_id d;
       let (meth, d) = (case filename of None \<Rightarrow> (None, d) | Some f \<Rightarrow> (let (a, d) = strdup f d in (Some a, d)));
       (r, d) \<leftarrow> open_source env (tag_skeleton k type name meth stream_nr channel) type filename stream_nr channel extra d;
       case r of
         None \<Rightarrow> Some (- 1, d)
       | Some t \<Rightarrow>
           if k \<ge> SAMPLE_MAX_SAMPLES then out_of_bounds
           else let (es, d) = new_tag_chain SAMPLE_MAX_EFFECTS d;
                    t = t\<lparr>tag_descr := vj_tag_get_by_type type [], tag_effect_chain := es\<rparr>;
                    (dict, d) = vpn d;
                    (r, d) = vj_tag_put d (t\<lparr>tag_dict := Some dict\<rparr>)
                in Some (k, d\<lparr>last_added_tag := k, this_tag_id := this_tag_id d + 1\<rparr>)
     } }"

subsection \<open>The invariant of the table\<close>

text \<open>
  Streams are stored under their identifiers, identifiers in use and identifiers offered for reuse are below the
  next new one, and an identifier offered for reuse is not in use and not offered twice.
\<close>

definition tags_ok :: "adm \<Rightarrow> bool" where
  "tags_ok d \<longleftrightarrow> 0 \<le> this_tag_id d \<and>
     (\<forall>k t. ad_tags d k = Some t \<longrightarrow> tag_id t = k \<and> 0 < k \<and> k < this_tag_id d) \<and>
     (\<forall>n. avail_tag d n \<noteq> 0 \<longrightarrow> n < next_avail_tag d \<and> 0 < avail_tag d n \<and> avail_tag d n < this_tag_id d \<and>
        ad_tags d (avail_tag d n) = None) \<and>
     (\<forall>m n. avail_tag d m \<noteq> 0 \<longrightarrow> avail_tag d m = avail_tag d n \<longrightarrow> m = n)"

definition tags_room :: "adm \<Rightarrow> bool" where
  "tags_room d \<longleftrightarrow> int (next_avail_tag d) < SAMPLE_MAX_SAMPLES \<and> this_tag_id d < SAMPLE_MAX_SAMPLES"

lemma tags_okD:
  assumes "tags_ok d"
  shows "0 \<le> this_tag_id d" "ad_tags d k = Some t \<Longrightarrow> tag_id t = k" "ad_tags d k = Some t \<Longrightarrow> 0 < k"
    "ad_tags d k = Some t \<Longrightarrow> k < this_tag_id d" "avail_tag d n \<noteq> 0 \<Longrightarrow> n < next_avail_tag d"
    "avail_tag d n \<noteq> 0 \<Longrightarrow> 0 < avail_tag d n" "avail_tag d n \<noteq> 0 \<Longrightarrow> avail_tag d n < this_tag_id d"
    "avail_tag d n \<noteq> 0 \<Longrightarrow> ad_tags d (avail_tag d n) = None"
    "avail_tag d m \<noteq> 0 \<Longrightarrow> avail_tag d m = avail_tag d n \<Longrightarrow> m = n"
  using assms unfolding tags_ok_def by blast+

lemma tags_ok_cong:
  "tags_ok d \<Longrightarrow> ad_tags d' = ad_tags d \<Longrightarrow> avail_tag d' = avail_tag d \<Longrightarrow> next_avail_tag d' = next_avail_tag d \<Longrightarrow>
     this_tag_id d' = this_tag_id d \<Longrightarrow> tags_ok d'"
  by (simp add: tags_ok_def)

lemma vj_tag_get_tags: "tags_ok d \<Longrightarrow> vj_tag_get d k = ad_tags d k"
  by (cases "ad_tags d k") (auto simp: vj_tag_get_def dest: tags_okD(3,4))

lemma vj_tag_get_cong:
  "ad_tags d' = ad_tags d \<Longrightarrow> this_tag_id d' = this_tag_id d \<Longrightarrow> vj_tag_get d' k = vj_tag_get d k"
  by (simp add: vj_tag_get_def)

lemma modify_tag_fields [simp]:
  "this_tag_id (modify_tag d k f) = this_tag_id d" "avail_tag (modify_tag d k f) = avail_tag d"
  "next_avail_tag (modify_tag d k f) = next_avail_tag d" "ad_ports (modify_tag d k f) = ad_ports d"
  "ad_fx (modify_tag d k f) = ad_fx d" "ad_strs (modify_tag d k f) = ad_strs d" "ad_next (modify_tag d k f) = ad_next d"
  "ad_samples (modify_tag d k f) = ad_samples d"
  by (simp_all add: modify_tag_def split: option.splits)

lemma vj_tag_get_modify:
  "vj_tag_get (modify_tag d k f) j = (if j = k then map_option f (vj_tag_get d k) else vj_tag_get d j)"
  by (auto simp: modify_tag_def vj_tag_get_def split: option.splits)

lemma tags_ok_modify:
  assumes "tags_ok d" "\<forall>t. tag_id (f t) = tag_id t"
  shows "tags_ok (modify_tag d k f)"
proof (cases "vj_tag_get d k")
  case None
  then show ?thesis using assms by (simp add: modify_tag_def)
next
  case (Some t)
  then have t: "ad_tags d k = Some t" using vj_tag_get_tags [OF assms(1)] by simp
  have "avail_tag d n \<noteq> k" if "avail_tag d n \<noteq> 0" for n using tags_okD(8) [OF assms(1) that] t by auto
  then show ?thesis
    using Some t assms(2) tags_okD [OF assms(1)] by (auto simp: modify_tag_def tags_ok_def)
qed

text \<open>The streams are a table of records like the samples; what is proved of such tables holds of them.\<close>

interpretation streams: record_table tags_ok vj_tag_get modify_tag tag_id
  by unfold_locales (auto simp: vj_tag_get_tags vj_tag_get_modify tags_ok_modify tags_okD)

lemma write_tag_modify:
  "write_tag d k dflt r f = (if vj_tag_get d k = None then dflt else r, modify_tag d k f)"
  by (simp add: write_tag_def modify_tag_def)

subsection \<open>What creating a stream does\<close>

text \<open>\<open>streams_same d d'\<close>: the table of streams and its identifiers are the same.\<close>

definition streams_same :: "adm \<Rightarrow> adm \<Rightarrow> bool" where
  "streams_same d d' \<longleftrightarrow> ad_tags d' = ad_tags d \<and> this_tag_id d' = this_tag_id d \<and> avail_tag d' = avail_tag d \<and>
     next_avail_tag d' = next_avail_tag d \<and> ad_samples d' = ad_samples d"

lemma streams_same_refl [simp]: "streams_same d d"
  by (simp add: streams_same_def)

lemma streams_same_trans: "streams_same d d1 \<Longrightarrow> streams_same d1 d2 \<Longrightarrow> streams_same d d2"
  by (simp add: streams_same_def)

lemma streams_same_steps [intro]:
  "strdup s d = (a, d') \<Longrightarrow> streams_same d d'" "vpn d = (a, d') \<Longrightarrow> streams_same d d'"
  "free_ptr free_str p d = Some d' \<Longrightarrow> streams_same d d'" "print_name t n d = Some d' \<Longrightarrow> streams_same d d'"
  by (auto simp: streams_same_def strdup_def vpn_def ad_alloc_def free_ptr_def free_str_def print_name_def Let_def bind_eq_Some_conv
      split: option.splits if_splits)

lemma new_tag_chain_same: "new_tag_chain n d = (es, d') \<Longrightarrow> streams_same d d'"
  by (induction n arbitrary: d es d')
    (auto simp: Let_def split: prod.splits intro: streams_same_trans)

lemma new_tag_chain_entries:
  "new_tag_chain n d = (es, d') \<Longrightarrow> length es = n \<and> (\<forall>e \<in> set es. sc_effect_id e = - 1 \<and> length (sc_arg e) = SAMPLE_MAX_PARAMETERS)"
proof (induction n arbitrary: d es d')
  case (Suc n)
  then show ?case by (auto simp: Let_def chain_zero_def split: prod.splits)
qed simp

text \<open>Every kind of source leaves the table alone, and keeps identifier and kind of the new record.\<close>

lemma open_generator_same:
  assumes "open_generator env t filename channel d = Some (r, d')"
  shows "streams_same d d' \<and> (\<forall>t'. r = Some t' \<longrightarrow> tag_id t' = tag_id t \<and> tag_source_type t' = tag_source_type t)"
  using assms unfolding open_generator_def
  by (auto simp: Let_def bind_eq_Some_conv free_source_name_def split: option.splits if_splits
      intro: streams_same_trans dest!: streams_same_steps)

lemma new_source_same:
  "vj_tag_new_net t nr h p d = (r, d') \<Longrightarrow> streams_same d d' \<and> (\<forall>t'. r = Some t' \<longrightarrow> tag_id t' = tag_id t \<and> tag_source_type t' = tag_source_type t)"
  "vj_tag_new_unicap env t nr dv c d = Some (r, d') \<Longrightarrow> streams_same d d' \<and> (\<forall>t'. r = Some t' \<longrightarrow> tag_id t' = tag_id t \<and> tag_source_type t' = tag_source_type t)"
  "vj_tag_new_picture env t nr d = Some (r, d') \<Longrightarrow> d' = d \<and> (\<forall>t'. r = Some t' \<longrightarrow> t' = t)"
  "vj_tag_new_cali env t nr d = Some (r, d') \<Longrightarrow> d' = d \<and> (\<forall>t'. r = Some t' \<longrightarrow> t' = t)"
  "vj_tag_new_yuv4mpeg env t nr d = Some (ok, d') \<Longrightarrow> d' = d"
  by (auto simp: vj_tag_new_net_def vj_tag_new_unicap_def vj_tag_new_picture_def vj_tag_new_cali_def vj_tag_new_yuv4mpeg_def
      Let_def bind_eq_Some_conv split: option.splits if_splits prod.splits)

lemma open_source_same:
  assumes "open_source env t type filename stream_nr channel extra d = Some (r, d')"
  shows "streams_same d d' \<and> (\<forall>t'. r = Some t' \<longrightarrow> tag_id t' = tag_id t \<and> tag_source_type t' = tag_source_type t)"
proof -
  consider "type = VJ_TAG_TYPE_V4L" | "type = VJ_TAG_TYPE_MCAST \<or> type = VJ_TAG_TYPE_NET" | "type = VJ_TAG_TYPE_PICTURE"
    | "type = VJ_TAG_TYPE_CALI" | "type = VJ_TAG_TYPE_YUV4MPEG" | "type = VJ_TAG_TYPE_GENERATOR" | "type = VJ_TAG_TYPE_COLOR"
    | "type \<notin> {VJ_TAG_TYPE_V4L, VJ_TAG_TYPE_MCAST, VJ_TAG_TYPE_NET, VJ_TAG_TYPE_PICTURE, VJ_TAG_TYPE_CALI,
         VJ_TAG_TYPE_YUV4MPEG, VJ_TAG_TYPE_GENERATOR, VJ_TAG_TYPE_COLOR}"
    by blast
  then show ?thesis
  proof cases
    case 1
    with assms show ?thesis
      by (auto simp: open_source_def bind_eq_Some_conv dest!: new_source_same(2) streams_same_steps(4) intro: streams_same_trans)
  next
    case 2
    then obtain d1 where "print_name t filename d = Some d1" "vj_tag_new_net t stream_nr filename channel d1 = (r, d')"
      using assms by (auto simp: open_source_def tag_consts bind_eq_Some_conv)
    then show ?thesis using new_source_same(1) streams_same_steps(4) streams_same_trans by blast
  next
    case 3
    with assms show ?thesis
      by (auto simp: open_source_def tag_consts bind_eq_Some_conv dest!: new_source_same(3))
  next
    case 4
    with assms show ?thesis
      by (auto simp: open_source_def tag_consts bind_eq_Some_conv dest!: new_source_same(4))
  next
    case 5
    have eq: "open_source env t type filename stream_nr channel extra d = do {
        d \<leftarrow> print_name t filename d;
        (ok, d) \<leftarrow> vj_tag_new_yuv4mpeg env t stream_nr d;
        if ok then Some (Some (t\<lparr>tag_active := 1\<rparr>), d)
        else do { d \<leftarrow> free_source_name t d; Some (None, d) } }"
      using 5 by (simp add: open_source_def tag_consts)
    obtain d1 where p: "print_name t filename d = Some d1"
      using assms unfolding eq by (cases "print_name t filename d") simp_all
    obtain ok d2 where y: "vj_tag_new_yuv4mpeg env t stream_nr d1 = Some (ok, d2)"
      using assms unfolding eq by (cases "vj_tag_new_yuv4mpeg env t stream_nr d1") (auto simp: p)
    have last: "(if ok then Some (Some (t\<lparr>tag_active := 1\<rparr>), d2) else do { d \<leftarrow> free_source_name t d2; Some (None, d) }) = Some (r, d')"
      using assms unfolding eq by (simp add: p y)
    have "streams_same d2 d' \<and> (\<forall>t'. r = Some t' \<longrightarrow> tag_id t' = tag_id t \<and> tag_source_type t' = tag_source_type t)"
      using last by (cases ok) (auto simp: free_source_name_def bind_eq_Some_conv dest: streams_same_steps(3))
    then show ?thesis
      using streams_same_steps(4) [OF p] new_source_same(5) [OF y] streams_same_trans by blast
  next
    case 6
    then have "open_generator env t filename channel d = Some (r, d')"
      using assms by (simp add: open_source_def tag_consts)
    then show ?thesis by (rule open_generator_same)
  next
    case 7
    with assms show ?thesis
      by (auto simp: open_source_def tag_consts bind_eq_Some_conv dest!: streams_same_steps(4))
  next
    case 8
    with assms show ?thesis by (auto simp: open_source_def)
  qed
qed

lemma take_tag_id_defined:
  assumes "tags_ok d" "tags_room d"
  obtains k d' where "take_tag_id d = Some (k, d')" "tags_ok d'" "ad_tags d' = ad_tags d" "this_tag_id d' = this_tag_id d"
    "next_avail_tag d' = next_avail_tag d" "ad_samples d' = ad_samples d" "ad_tags d k = None" "0 \<le> k" "k \<le> this_tag_id d"
    "\<And>n. avail_tag d' n \<noteq> k \<or> avail_tag d' n = 0" "k = this_tag_id d \<and> d' = d \<or> 0 < k \<and> k < this_tag_id d \<and> (\<exists>n. avail_tag d n = k)"
proof -
  have "find_avail (avail_tag d) 0 (Suc (next_avail_tag d)) \<noteq> None"
    using find_avail_defined [of 0 "Suc (next_avail_tag d)"] assms(2) by (simp add: tags_room_def)
  then obtain r where r: "find_avail (avail_tag d) 0 (Suc (next_avail_tag d)) = Some r" by auto
  show ?thesis
  proof (cases r)
    case None
    have "avail_tag d n = 0" for n
      using find_avail_none [OF r [unfolded None], of n] tags_okD(5) [OF assms(1), of n] by fastforce
    moreover have "ad_tags d (this_tag_id d) = None"
      using tags_okD(4) [OF assms(1)] by (cases "ad_tags d (this_tag_id d)") auto
    ultimately show ?thesis
      using None r assms(1) tags_okD(1) [OF assms(1)]
      by (intro that [of "this_tag_id d" d]) (simp_all add: take_tag_id_def)
  next
    case (Some n)
    note n = find_avail_Some [OF r [unfolded Some]]
    let ?d = "d\<lparr>avail_tag := (avail_tag d)(n := 0)\<rparr>"
    have "tags_ok ?d" using assms(1) unfolding tags_ok_def by (auto split: if_splits)
    moreover have "avail_tag ?d m \<noteq> avail_tag d n \<or> avail_tag ?d m = 0" for m
      using tags_okD(9) [OF assms(1), of m n] by auto
    ultimately show ?thesis
      using Some r n tags_okD(6-8) [OF assms(1), of n]
      by (intro that [of "avail_tag d n" ?d]) (auto simp: take_tag_id_def)
  qed
qed

definition empty_chain :: "vj_tag \<Rightarrow> bool" where
  "empty_chain t \<longleftrightarrow> length (tag_effect_chain t) = SAMPLE_MAX_EFFECTS \<and>
     (\<forall>e \<in> set (tag_effect_chain t). sc_effect_id e = - 1 \<and> length (sc_arg e) = SAMPLE_MAX_PARAMETERS)"

text \<open>Entering a finished record under an identifier that is free.\<close>

lemma tags_ok_enter:
  assumes "tags_ok d" "ad_tags d k = None" "0 < k" "k \<le> this_tag_id d" "\<And>n. avail_tag d n \<noteq> k \<or> avail_tag d n = 0" "tag_id t = k"
  shows "tags_ok (d\<lparr>ad_tags := (ad_tags d)(k \<mapsto> t), this_tag_id := this_tag_id d + 1\<rparr>)"
proof -
  have "j < this_tag_id d + 1" if "ad_tags d j = Some u" for j u using tags_okD(4) [OF assms(1) that] by simp
  moreover have "avail_tag d n < this_tag_id d + 1" if "avail_tag d n \<noteq> 0" for n using tags_okD(7) [OF assms(1) that] by simp
  ultimately show ?thesis
    using assms(2-6) tags_okD(1-3,5,6,8,9) [OF assms(1)] unfolding tags_ok_def by auto
qed

text \<open>The names of the streams are live blocks.\<close>

definition names_live :: "adm \<Rightarrow> bool" where
  "names_live d \<longleftrightarrow> (\<forall>k t. ad_tags d k = Some t \<longrightarrow> source_name_of d t \<noteq> None)"

lemma net_already_opened_defined:
  assumes "names_live d"
  shows "\<exists>b. net_already_opened d (Some f) n ch = Some b"
proof -
  have "net_opened_loop d f ch is \<noteq> None" for "is"
  proof (induction "is")
    case (Cons i "is")
    show ?case
    proof (cases "vj_tag_get d i")
      case (Some t)
      then have "ad_tags d i = Some t" by (auto simp: vj_tag_get_def split: if_splits)
      then obtain nm where "source_name_of d t = Some nm" using assms by (auto simp: names_live_def)
      with Some Cons show ?thesis by auto
    qed (use Cons in simp)
  qed simp
  then show ?thesis by (simp add: net_already_opened_def)
qed

lemma print_name_fits:
  assumes "tag_source_name t = Some a" "length f < SOURCE_NAME_LEN"
  shows "print_name t (Some f) d = Some (d\<lparr>ad_strs := (ad_strs d)(a \<mapsto> f)\<rparr>)"
  using assms by (simp add: print_name_def)

lemma open_generator_defined:
  assumes "tag_source_name t = Some a" "length f < SOURCE_NAME_LEN"
  shows "open_generator env t (Some f) ch d \<noteq> None"
  using print_name_fits [OF assms(1)] assms
  by (auto simp: open_generator_def free_source_name_def free_ptr_def free_str_def SOURCE_NAME_LEN_def Let_def split: option.split)

lemma new_source_defined:
  assumes "source_name_of d t = Some f" "nr < VJ_TAG_MAX_STREAM_IN"
  shows "vj_tag_new_unicap env t nr dv ch d \<noteq> None" "vj_tag_new_picture env t nr d \<noteq> None"
    "vj_tag_new_cali env t nr d \<noteq> None"
    "vj_tag_new_yuv4mpeg env t nr d = Some (\<not> bad_slot nr \<and> env_open_yuv4mpeg env f, d)"
  using assms
  by (simp_all add: vj_tag_new_unicap_def vj_tag_new_picture_def vj_tag_new_cali_def vj_tag_new_yuv4mpeg_def Let_def
      split: prod.split)

lemma open_source_defined:
  assumes "tag_source_name t = Some a" "length f < SOURCE_NAME_LEN" "nr < VJ_TAG_MAX_STREAM_IN"
  shows "open_source env t type (Some f) nr ch ex d \<noteq> None"
proof -
  let ?d = "d\<lparr>ad_strs := (ad_strs d)(a \<mapsto> f)\<rparr>"
  have nm: "print_name t (Some ''[0,0,0]'') d = Some (d\<lparr>ad_strs := (ad_strs d)(a \<mapsto> ''[0,0,0]'')\<rparr>)"
    by (rule print_name_fits [OF assms(1)]) (simp add: SOURCE_NAME_LEN_def)
  have src: "source_name_of ?d t = Some f" using assms(1) by (simp add: source_name_of_def)
  note new = new_source_defined [OF src assms(3), of env]
  obtain df where free: "free_source_name t ?d = Some df"
    using assms(1) by (simp add: free_source_name_def free_ptr_def free_str_def)
  note gen = open_generator_defined [OF assms(1,2), of env ch d]
  show ?thesis
    unfolding open_source_def print_name_fits [OF assms(1,2)] nm bind.bind_lunit
    using new(1-3) gen by (simp add: new(4) free del: not_None_eq)
qed

text \<open>How creating a stream goes, step by step.\<close>

definition start_ids :: "adm \<Rightarrow> adm" where
  "start_ids d = (if this_tag_id d = 0 then d\<lparr>this_tag_id := 1\<rparr> else d)"

lemma start_ids_keeps [simp]:
  "ad_tags (start_ids d) = ad_tags d" "ad_strs (start_ids d) = ad_strs d" "ad_ports (start_ids d) = ad_ports d"
  "ad_next (start_ids d) = ad_next d" "ad_fx (start_ids d) = ad_fx d" "avail_tag (start_ids d) = avail_tag d"
  "next_avail_tag (start_ids d) = next_avail_tag d" "source_name_of (start_ids d) = source_name_of d"
  by (auto simp: start_ids_def source_name_of_def fun_eq_iff)

lemma start_ids_ok:
  assumes "tags_ok d" "tags_room d"
  shows "tags_ok (start_ids d)" "tags_room (start_ids d)" "0 < this_tag_id (start_ids d)"
proof -
  have no: "ad_tags d k = None" if "this_tag_id d = 0" for k
    using that tags_okD(3,4) [OF assms(1), of k] by (cases "ad_tags d k") auto
  have av: "avail_tag d n = 0" if "this_tag_id d = 0" for n
    using that tags_okD(6,7) [OF assms(1), of n] by fastforce
  show "tags_ok (start_ids d)"
    using assms(1) no av by (cases "this_tag_id d = 0") (simp_all add: start_ids_def tags_ok_def)
  show "tags_room (start_ids d)" "0 < this_tag_id (start_ids d)"
    using assms tags_okD(1) [OF assms(1)] by (auto simp: start_ids_def tags_room_def SAMPLE_MAX_SAMPLES_def)
qed

lemma vj_tag_new_steps:
  assumes "tags_ok d" "tags_room d" "names_live d" "length f < SOURCE_NAME_LEN" "nr < VJ_TAG_MAX_STREAM_IN"
  obtains (opened) "vj_tag_new env type (Some f) nr ch ex d = Some (- 1, start_ids d)" "type \<noteq> VJ_TAG_TYPE_COLOR"
  | (taken) name d1 k d2 ma d3 r d4 where
      "strdup [] (start_ids d) = (name, d1)" "take_tag_id d1 = Some (k, d2)" "tags_ok d2" "ad_tags d2 = ad_tags d1"
      "this_tag_id d2 = this_tag_id d1" "ad_tags d k = None" "0 < k" "k \<le> this_tag_id d1"
      "\<And>n. avail_tag d2 n \<noteq> k \<or> avail_tag d2 n = 0" "strdup f d2 = (ma, d3)"
      "open_source env (tag_skeleton k type name (Some ma) nr ch) type (Some f) nr ch ex d3 = Some (r, d4)"
      "vj_tag_new env type (Some f) nr ch ex d =
         (case r of
            None \<Rightarrow> Some (- 1, d4)
          | Some t \<Rightarrow>
              let (es, d) = new_tag_chain SAMPLE_MAX_EFFECTS d4;
                  t = t\<lparr>tag_descr := vj_tag_get_by_type type [], tag_effect_chain := es\<rparr>;
                  (dict, d) = vpn d;
                  (r, d) = vj_tag_put d (t\<lparr>tag_dict := Some dict\<rparr>)
              in Some (k, d\<lparr>last_added_tag := k, this_tag_id := this_tag_id d + 1\<rparr>))"
proof -
  note ok0 = start_ids_ok [OF assms(1,2)]
  have "names_live (start_ids d)" using assms(3) by (simp add: names_live_def)
  then obtain b where b: "(if type = VJ_TAG_TYPE_NET \<or> type = VJ_TAG_TYPE_MCAST
      then net_already_opened (start_ids d) (Some f) (this_tag_id (start_ids d)) ch else Some False) = Some b"
    using net_already_opened_defined [of "start_ids d" f "this_tag_id (start_ids d)" ch]
    by (cases "type = VJ_TAG_TYPE_NET \<or> type = VJ_TAG_TYPE_MCAST") auto
  show ?thesis
  proof (cases b)
    case True
    have "type \<noteq> VJ_TAG_TYPE_COLOR" using b True by (auto simp: tag_consts)
    then show ?thesis
      by (intro opened) (use b True in \<open>simp_all add: vj_tag_new_def Let_def start_ids_def [symmetric] del: if_split\<close>)
  next
    case False
    obtain name d1 where s1: "strdup [] (start_ids d) = (name, d1)" by force
    then have same1: "streams_same (start_ids d) d1" by (rule streams_same_steps)
    have ok1: "tags_ok d1" "tags_room d1"
      using ok0 same1 by (auto simp: streams_same_def tags_room_def elim!: tags_ok_cong)
    obtain k d2 where 2: "take_tag_id d1 = Some (k, d2)" "tags_ok d2" "ad_tags d2 = ad_tags d1" "this_tag_id d2 = this_tag_id d1"
        "ad_tags d1 k = None" "k \<le> this_tag_id d1" "\<And>n. avail_tag d2 n \<noteq> k \<or> avail_tag d2 n = 0" "k = this_tag_id d1 \<or> 0 < k"
      using take_tag_id_defined [OF ok1] by metis
    have k: "0 < k" "k < SAMPLE_MAX_SAMPLES" using 2(6,8) same1 ok0 by (auto simp: streams_same_def tags_room_def)
    obtain ma d3 where s3: "strdup f d2 = (ma, d3)" by force
    let ?t = "tag_skeleton k type name (Some ma) nr ch"
    have "tag_source_name ?t = Some name" by (simp add: tag_skeleton_def)
    then have "open_source env ?t type (Some f) nr ch ex d3 \<noteq> None" by (rule open_source_defined) (rule assms)+
    then obtain r d4 where 4: "open_source env ?t type (Some f) nr ch ex d3 = Some (r, d4)" by force
    have free: "ad_tags d k = None" using 2(5) same1 by (simp add: streams_same_def)
    show ?thesis
    proof (rule taken [OF s1 2(1-4) free k(1) 2(6,7) s3 4])
      show "vj_tag_new env type (Some f) nr ch ex d =
         (case r of
            None \<Rightarrow> Some (- 1, d4)
          | Some t \<Rightarrow>
              let (es, d) = new_tag_chain SAMPLE_MAX_EFFECTS d4;
                  t = t\<lparr>tag_descr := vj_tag_get_by_type type [], tag_effect_chain := es\<rparr>;
                  (dict, d) = vpn d;
                  (r, d) = vj_tag_put d (t\<lparr>tag_dict := Some dict\<rparr>)
              in Some (k, d\<lparr>last_added_tag := k, this_tag_id := this_tag_id d + 1\<rparr>))"
        unfolding vj_tag_new_def Let_def start_ids_def [symmetric] b
        using k(2) by (simp add: False s1 2(1) s3 4 split: option.split)
    qed
  qed
qed

text \<open>The record that ends up in the table, and the table with it.\<close>

lemma vj_tag_new_enter:
  assumes "tags_ok d2" "streams_same d2 d4" "ad_tags d2 k = None" "0 < k" "k \<le> this_tag_id d2"
    "\<And>n. avail_tag d2 n \<noteq> k \<or> avail_tag d2 n = 0" "tag_id t = k"
    "new_tag_chain SAMPLE_MAX_EFFECTS d4 = (es, d5)" "vpn d5 = (dict, d6)"
    "u = t\<lparr>tag_descr := x, tag_effect_chain := es, tag_dict := Some dict\<rparr>"
  shows "vj_tag_put d6 u = (1, d6\<lparr>ad_tags := (ad_tags d6)(k \<mapsto> u)\<rparr>)" "ad_tags d6 = ad_tags d2" "this_tag_id d6 = this_tag_id d2"
    "tags_ok (d6\<lparr>ad_tags := (ad_tags d6)(k \<mapsto> u), last_added_tag := k, this_tag_id := this_tag_id d6 + 1\<rparr>)"
    "empty_chain u"
proof -
  have same: "streams_same d2 d6"
    using streams_same_trans [OF streams_same_trans [OF assms(2) new_tag_chain_same [OF assms(8)]] streams_same_steps(2) [OF assms(9)]] .
  have ok6: "tags_ok d6" using assms(1) same by (auto simp: streams_same_def elim!: tags_ok_cong)
  show f6: "ad_tags d6 = ad_tags d2" "this_tag_id d6 = this_tag_id d2"
    using same by (simp_all add: streams_same_def)
  have av: "avail_tag d6 = avail_tag d2" using same by (simp add: streams_same_def)
  show "vj_tag_put d6 u = (1, d6\<lparr>ad_tags := (ad_tags d6)(k \<mapsto> u)\<rparr>)"
    using assms(3,4,7,10) f6 vj_tag_get_tags [OF ok6] by (simp add: vj_tag_put_def vj_tag_exists_def)
  have "tags_ok (d6\<lparr>ad_tags := (ad_tags d6)(k \<mapsto> u), this_tag_id := this_tag_id d6 + 1\<rparr>)"
    by (rule tags_ok_enter [OF ok6]) (use f6 av assms(3-7,10) in auto)
  then show "tags_ok (d6\<lparr>ad_tags := (ad_tags d6)(k \<mapsto> u), last_added_tag := k, this_tag_id := this_tag_id d6 + 1\<rparr>)"
    by (simp add: tags_ok_def)
  show "empty_chain u" using new_tag_chain_entries [OF assms(8)] assms(10) by (simp add: empty_chain_def)
qed

lemma vj_tag_new_cases:
  assumes "tags_ok d" "tags_room d" "names_live d" "length f < SOURCE_NAME_LEN" "nr < VJ_TAG_MAX_STREAM_IN"
  obtains (failed) d' where "vj_tag_new env type (Some f) nr ch ex d = Some (- 1, d')" "tags_ok d'" "ad_tags d' = ad_tags d"
      "type \<noteq> VJ_TAG_TYPE_COLOR"
  | (created) k t d' where "vj_tag_new env type (Some f) nr ch ex d = Some (k, d')" "tags_ok d'" "0 < k" "ad_tags d k = None"
      "ad_tags d' = (ad_tags d)(k \<mapsto> t)" "tag_source_type t = type" "empty_chain t" "last_added_tag d' = k"
proof (rule vj_tag_new_steps [OF assms, of env type ch ex])
  assume "vj_tag_new env type (Some f) nr ch ex d = Some (- 1, start_ids d)" "type \<noteq> VJ_TAG_TYPE_COLOR"
  then show ?thesis using failed start_ids_ok [OF assms(1,2)] by simp
next
  fix name d1 k d2 ma d3 r d4
  assume s1: "strdup [] (start_ids d) = (name, d1)" and 2: "take_tag_id d1 = Some (k, d2)" "tags_ok d2" "ad_tags d2 = ad_tags d1"
      "this_tag_id d2 = this_tag_id d1" "ad_tags d k = None" "0 < k" "k \<le> this_tag_id d1"
      "\<And>n. avail_tag d2 n \<noteq> k \<or> avail_tag d2 n = 0"
    and s3: "strdup f d2 = (ma, d3)"
    and 4: "open_source env (tag_skeleton k type name (Some ma) nr ch) type (Some f) nr ch ex d3 = Some (r, d4)"
    and run: "vj_tag_new env type (Some f) nr ch ex d =
         (case r of
            None \<Rightarrow> Some (- 1, d4)
          | Some t \<Rightarrow>
              let (es, d) = new_tag_chain SAMPLE_MAX_EFFECTS d4;
                  t = t\<lparr>tag_descr := vj_tag_get_by_type type [], tag_effect_chain := es\<rparr>;
                  (dict, d) = vpn d;
                  (r, d) = vj_tag_put d (t\<lparr>tag_dict := Some dict\<rparr>)
              in Some (k, d\<lparr>last_added_tag := k, this_tag_id := this_tag_id d + 1\<rparr>))"
  have same: "streams_same d2 d4" using streams_same_trans [OF streams_same_steps(1) [OF s3]] open_source_same [OF 4] by blast
  have tags: "ad_tags d2 = ad_tags d" using 2(3) streams_same_steps(1) [OF s1] by (simp add: streams_same_def)
  show ?thesis
  proof (cases r)
    case None
    have "ad_tags d4 = ad_tags d" using same tags by (simp add: streams_same_def)
    moreover have "tags_ok d4" using 2(2) same by (auto simp: streams_same_def elim!: tags_ok_cong)
    moreover have "type \<noteq> VJ_TAG_TYPE_COLOR"
      using 4 None by (auto simp: open_source_def tag_consts bind_eq_Some_conv)
    ultimately show ?thesis using run None failed by simp
  next
    case (Some t)
    obtain es d5 where 5: "new_tag_chain SAMPLE_MAX_EFFECTS d4 = (es, d5)" by force
    obtain dict d6 where 6: "vpn d5 = (dict, d6)" by force
    let ?u = "t\<lparr>tag_descr := vj_tag_get_by_type type [], tag_effect_chain := es, tag_dict := Some dict\<rparr>"
    have t: "tag_id t = k" "tag_source_type t = type" using open_source_same [OF 4] Some by (simp_all add: tag_skeleton_def)
    have free: "ad_tags d2 k = None" "k \<le> this_tag_id d2" using 2(4,5,7) tags by simp_all
    note e = vj_tag_new_enter [OF 2(2) same free(1) 2(6) free(2) 2(8) t(1) 5 6 refl]
    show ?thesis
      using run Some 5 6 e(1) e(4,5) 2(5,6) e(2) tags t(2)
      by (intro created [of k "d6\<lparr>ad_tags := (ad_tags d6)(k \<mapsto> ?u), last_added_tag := k, this_tag_id := this_tag_id d6 + 1\<rparr>" ?u]) simp_all
  qed
qed

subsection \<open>Example state\<close>

text \<open>A table with a solid stream 1 and the deleted identifier 2.\<close>

definition tag_demo :: vj_tag where
  "tag_demo = tag_zero\<lparr>tag_id := 1, tag_source_type := VJ_TAG_TYPE_COLOR, tag_source_name := Some 0, tag_active := 1,
     tag_effect_chain := replicate SAMPLE_MAX_EFFECTS (chain_zero\<lparr>sc_effect_id := - 1, sc_source_type := 1\<rparr>)\<rparr>"

definition adm_streams :: adm where
  "adm_streams = adm_start\<lparr>ad_tags := [1 \<mapsto> tag_demo], ad_strs := [0 \<mapsto> ''[0,0,0]''], ad_next := 1, this_tag_id := 3,
     avail_tag := (\<lambda>n. if n = 0 then 2 else 0), next_avail_tag := 1\<rparr>"

definition env_closed :: stream_env where
  "env_closed = \<lparr>env_num_devices = 0, env_open_capture = (\<lambda>_ _. False), env_probe_picture = (\<lambda>_. False),
     env_open_picture = (\<lambda>_. False), env_read_cali = (\<lambda>_. False), env_open_yuv4mpeg = (\<lambda>_. False), env_find_generator = - 1,
     env_plug_by_so_name = (\<lambda>_. - 1), env_plug_by_name = (\<lambda>_. - 1), env_plug_activate = (\<lambda>_. None),
     env_plug_inputs = (\<lambda>_. 0), env_plug_outputs = (\<lambda>_. 0), env_net_start = (\<lambda>_. False)\<rparr>"

lemma adm_streams_ok: "tags_ok adm_streams" "tags_room adm_streams" "names_live adm_streams" "vj_tag_get adm_streams 1 = Some tag_demo"
  by (auto simp: tags_ok_def adm_streams_def tag_demo_def tags_room_def SAMPLE_MAX_SAMPLES_def names_live_def source_name_of_def
      vj_tag_get_def)

subsection \<open>Properties\<close>

lemma vj_tag_new_next_avail:
  assumes "tags_ok d" "tags_room d" "names_live d" "length f < SOURCE_NAME_LEN" "nr < VJ_TAG_MAX_STREAM_IN"
    and new: "vj_tag_new env type (Some f) nr ch ex d = Some (k, d')"
  shows "next_avail_tag d' = next_avail_tag d"
proof -
  have put: "next_avail_tag d' = next_avail_tag d" if "vj_tag_put d t = (r, d')" for d t r d'
    using that by (auto simp: vj_tag_put_def split: if_splits)
  have take: "next_avail_tag d' = next_avail_tag d" if "take_tag_id d = Some (k, d')" for d k d'
    using that by (auto simp: take_tag_id_def bind_eq_Some_conv split: option.splits)
  have same: "next_avail_tag d' = next_avail_tag d" if "streams_same d d'" for d d'
    using that by (simp add: streams_same_def)
  show ?thesis
  proof (rule vj_tag_new_steps [OF assms(1-5), of env type ch ex])
    assume "vj_tag_new env type (Some f) nr ch ex d = Some (- 1, start_ids d)"
    then show ?thesis using new by simp
  next
    fix name d1 k1 d2 ma d3 r d4
    assume s: "strdup [] (start_ids d) = (name, d1)" "take_tag_id d1 = Some (k1, d2)" "strdup f d2 = (ma, d3)"
        "open_source env (tag_skeleton k1 type name (Some ma) nr ch) type (Some f) nr ch ex d3 = Some (r, d4)"
      and run: "vj_tag_new env type (Some f) nr ch ex d =
           (case r of
              None \<Rightarrow> Some (- 1, d4)
            | Some t \<Rightarrow>
                let (es, d) = new_tag_chain SAMPLE_MAX_EFFECTS d4;
                    t = t\<lparr>tag_descr := vj_tag_get_by_type type [], tag_effect_chain := es\<rparr>;
                    (dict, d) = vpn d;
                    (r, d) = vj_tag_put d (t\<lparr>tag_dict := Some dict\<rparr>)
                in Some (k1, d\<lparr>last_added_tag := k1, this_tag_id := this_tag_id d + 1\<rparr>))"
    have four: "next_avail_tag d4 = next_avail_tag d"
      using same [OF streams_same_steps(1) [OF s(1)]] take [OF s(2)] same [OF streams_same_steps(1) [OF s(3)]]
        same [OF conjunct1 [OF open_source_same [OF s(4)]]] by simp
    show ?thesis
    proof (cases r)
      case None
      then show ?thesis using run new four by simp
    next
      case (Some t)
      obtain es d5 where 5: "new_tag_chain SAMPLE_MAX_EFFECTS d4 = (es, d5)" by force
      obtain dict d6 where 6: "vpn d5 = (dict, d6)" by force
      show ?thesis
        using run new four Some 5 6 same [OF new_tag_chain_same [OF 5]] same [OF streams_same_steps(2) [OF 6]]
        by (auto simp: Let_def split: prod.splits dest: put)
    qed
  qed
qed

text \<open>
  C38. A new stream. With room in the tables, a name that fits its block and a handle that fits its table, creating a
  stream either fails with -1 and no stream changes, or gives an identifier that was not in use, under which a stream
  of the kind asked for with an empty chain is found; it is the last stream added and no other stream changes. A solid
  stream never fails.
\<close>

theorem stream_new_enters:
  assumes "tags_ok d" "tags_room d" "names_live d" "length f < SOURCE_NAME_LEN" "nr < VJ_TAG_MAX_STREAM_IN"
  shows "\<exists>k d'. vj_tag_new env type (Some f) nr ch ex d = Some (k, d') \<and> tags_ok d' \<and>
     (k = - 1 \<and> type \<noteq> VJ_TAG_TYPE_COLOR \<and> (\<forall>j. vj_tag_get d' j = vj_tag_get d j) \<or>
      0 < k \<and> vj_tag_exists d k = 0 \<and> vj_tag_exists d' k = 1 \<and> vj_tag_get_type d' k = type \<and> vj_tag_get_last_tag d' = k \<and>
      (\<exists>t. vj_tag_get d' k = Some t \<and> empty_chain t) \<and> (\<forall>j. j \<noteq> k \<longrightarrow> vj_tag_get d' j = vj_tag_get d j))"
proof (rule vj_tag_new_cases [OF assms, of env type ch ex])
  fix d' assume "vj_tag_new env type (Some f) nr ch ex d = Some (- 1, d')" "tags_ok d'" "ad_tags d' = ad_tags d" "type \<noteq> VJ_TAG_TYPE_COLOR"
  then show ?thesis using vj_tag_get_tags assms(1) by simp
next
  fix k t d'
  assume n: "vj_tag_new env type (Some f) nr ch ex d = Some (k, d')" "tags_ok d'" "0 < k" "ad_tags d k = None"
      "ad_tags d' = (ad_tags d)(k \<mapsto> t)" "tag_source_type t = type" "empty_chain t" "last_added_tag d' = k"
  then show ?thesis
    by (intro exI [of _ k] exI [of _ d'])
      (simp add: vj_tag_exists_def vj_tag_get_tags [OF assms(1)] vj_tag_get_tags [OF n(2)] vj_tag_get_type_def vj_tag_get_last_tag_def)
qed

theorem stream_new_enters_witness:
  "\<exists>k d'. vj_tag_new env_closed VJ_TAG_TYPE_COLOR (Some ''solid'') 0 0 0 adm_streams = Some (k, d') \<and> 0 < k \<and>
     vj_tag_get_type d' k = VJ_TAG_TYPE_COLOR \<and> vj_tag_get d' 1 = Some tag_demo"
proof -
  obtain k d' where n: "vj_tag_new env_closed VJ_TAG_TYPE_COLOR (Some ''solid'') 0 0 0 adm_streams = Some (k, d')"
    "0 < k" "vj_tag_exists adm_streams k = 0" "vj_tag_get_type d' k = VJ_TAG_TYPE_COLOR" "\<forall>j. j \<noteq> k \<longrightarrow> vj_tag_get d' j = vj_tag_get adm_streams j"
    using stream_new_enters [OF adm_streams_ok(1-3), of "''solid''" 0 env_closed VJ_TAG_TYPE_COLOR 0 0]
    by (auto simp: tag_consts)
  then have "k \<noteq> 1" using adm_streams_ok(4) by (auto simp: vj_tag_exists_def)
  with n adm_streams_ok(4) show ?thesis by auto
qed

text \<open>
  A failed stream uses up an identifier. When a deleted identifier \<open>k\<close> is first in line for reuse and the source of
  a new stream cannot be opened (here a picture that is none), the call fails and \<open>k\<close> is gone: no stream has it, it is
  no longer among the deleted ones, and the next identifier to be made up is larger.
\<close>

theorem failed_stream_loses_identifier:
  assumes "tags_ok d" "tags_room d" "avail_tag d 0 = k" "k \<noteq> 0" "length f < SOURCE_NAME_LEN" "0 \<le> nr" "nr \<le> VJ_TAG_MAX_STREAM_IN"
    "\<not> env_probe_picture env f"
  shows "vj_tag_is_deleted d k = 1 \<and>
     (\<exists>d'. vj_tag_new env VJ_TAG_TYPE_PICTURE (Some f) nr ch ex d = Some (- 1, d') \<and> vj_tag_exists d' k = 0 \<and>
        vj_tag_is_deleted d' k = 0 \<and> (\<forall>n. avail_tag d' n \<noteq> k) \<and> k < this_tag_id d')"
proof -
  have k: "0 < k" "k < this_tag_id d" "0 < next_avail_tag d" "ad_tags d k = None"
    using tags_okD(5-8) [OF assms(1), of 0] assms(3,4) by simp_all
  have once: "n = 0" if "avail_tag d n = k" for n using tags_okD(9) [OF assms(1), of n 0] assms(3,4) that by simp
  have find: "find_avail (avail_tag d) 0 (Suc (next_avail_tag d)) = Some (Some 0)"
    using assms(3,4) by (simp add: SAMPLE_MAX_SAMPLES_def)
  let ?d4 = "d\<lparr>ad_next := ad_next d + 2, ad_strs := (ad_strs d)(ad_next d \<mapsto> [], Suc (ad_next d) \<mapsto> f, ad_next d \<mapsto> f),
      avail_tag := (avail_tag d)(0 := 0)\<rparr>"
  have "vj_tag_new env VJ_TAG_TYPE_PICTURE (Some f) nr ch ex d = Some (- 1, ?d4)"
    using k(2) k(1) find assms(3,5-8)
    by (simp add: vj_tag_new_def take_tag_id_def strdup_def ad_alloc_def Let_def open_source_def tag_consts print_name_def
        tag_skeleton_def vj_tag_new_picture_def bad_slot_def source_name_of_def del: find_avail.simps)
  moreover have "vj_tag_get ?d4 k = None" using k(4) by (simp add: vj_tag_get_def)
  ultimately show ?thesis
    using k once assms(3,4) by (intro conjI exI [of _ ?d4]) (auto simp: vj_tag_is_deleted_def vj_tag_exists_def)
qed

theorem failed_stream_loses_identifier_witness:
  "\<exists>d'. vj_tag_new env_closed VJ_TAG_TYPE_PICTURE (Some ''a.png'') 0 0 0 adm_streams = Some (- 1, d') \<and> vj_tag_is_deleted d' 2 = 0"
  using failed_stream_loses_identifier [OF adm_streams_ok(1,2), of 2 "''a.png''" 0 env_closed 0 0]
  by (auto simp: adm_streams_def env_closed_def tag_consts)

end
