(* ===== verification/StreamParams.thy ===== *)
theory StreamParams
  imports StreamStore
begin

text \<open>
  The parameters of a stream (\<open>libstream/vj-tag.c\<close>): state, colour, layout, faders, description, composite
  settings, and reading and setting the fields of its effect chain.

  \<^item> Most operations cannot fail and return an answer with the new state; where the code can dereference a null
    pointer or leave an array the result is an option.
  \<^item> \<open>fl\<close> and \<open>dbl\<close> are the roundings of \<open>float\<close> and \<open>double\<close> arithmetic, as for the samples.
\<close>

subsection \<open>Starting and stopping\<close>

text \<open>
  With V4L2 a capture device is unpaused but the stream is not marked as active; a network stream whose thread
  does not start answers 1 like one whose thread does.
\<close>

definition vj_tag_enable :: "stream_env \<Rightarrow> adm \<Rightarrow> int \<Rightarrow> (int \<times> adm) option" where
  "vj_tag_enable env d t1 =
     (case vj_tag_get d t1 of
        None \<Rightarrow> null_deref
      | Some t \<Rightarrow>
          if tag_source_type t = VJ_TAG_TYPE_V4L then Some (1, d)
          else if (tag_source_type t = VJ_TAG_TYPE_NET \<or> tag_source_type t = VJ_TAG_TYPE_MCAST) \<and> \<not> env_net_start env t
          then Some (1, d)
          else if tag_source_type t = VJ_TAG_TYPE_PICTURE
          then do {
            s \<leftarrow> source_name_of d t;
            if env_open_picture env s then Some (1, modify_tag d t1 (\<lambda>t. t\<lparr>tag_active := 1\<rparr>)) else Some (- 1, d) }
          else Some (1, modify_tag d t1 (\<lambda>t. t\<lparr>tag_active := 1\<rparr>)))"

definition vj_tag_set_active :: "stream_env \<Rightarrow> adm \<Rightarrow> int \<Rightarrow> int \<Rightarrow> (int \<times> adm) option" where
  "vj_tag_set_active env d t1 active =
     (case vj_tag_get d t1 of
        None \<Rightarrow> Some (- 1, d)
      | Some t \<Rightarrow>
          if active = tag_active t then Some (1, d)
          else if tag_source_type t = VJ_TAG_TYPE_YUV4MPEG
          then Some (1, if active = 0 then modify_tag d t1 (\<lambda>t. t\<lparr>tag_active := 0\<rparr>) else d)
          else if tag_source_type t = VJ_TAG_TYPE_MCAST \<or> tag_source_type t = VJ_TAG_TYPE_NET \<or>
                  tag_source_type t = VJ_TAG_TYPE_PICTURE
          then (if active = 1 then do { (r, d) \<leftarrow> vj_tag_enable env d t1; Some (1, d) } else Some (1, vj_tag_disable d t1))
          else Some (1, modify_tag d t1 (\<lambda>t. t\<lparr>tag_active := active\<rparr>)))"

subsection \<open>Plain fields\<close>

definition vj_tag_get_n_frames :: "adm \<Rightarrow> int \<Rightarrow> int" where
  "vj_tag_get_n_frames d t1 = read_tag d t1 (- 1) tag_n_frames"

definition vj_tag_set_n_frames :: "adm \<Rightarrow> int \<Rightarrow> int \<Rightarrow> int \<times> adm" where
  "vj_tag_set_n_frames d t1 n = write_tag d t1 (- 1) 1 (\<lambda>t. t\<lparr>tag_n_frames := n\<rparr>)"

definition vj_tag_get_dict :: "adm \<Rightarrow> int \<Rightarrow> addr option" where
  "vj_tag_get_dict d t1 = read_tag d t1 None tag_dict"

definition vj_tag_get_logical_index :: "adm \<Rightarrow> int \<Rightarrow> int" where
  "vj_tag_get_logical_index d t1 = read_tag d t1 (- 1) tag_index"

definition vj_tag_set_logical_index :: "adm \<Rightarrow> int \<Rightarrow> int \<Rightarrow> int \<times> adm" where
  "vj_tag_set_logical_index d t1 stream_nr = write_tag d t1 (- 1) 1 (\<lambda>t. t\<lparr>tag_index := stream_nr\<rparr>)"

text \<open>The depth that is set is not the one that is read.\<close>

definition vj_tag_get_depth :: "adm \<Rightarrow> int \<Rightarrow> int" where
  "vj_tag_get_depth d t1 = read_tag d t1 (- 1) tag_index"

definition vj_tag_set_depth :: "adm \<Rightarrow> int \<Rightarrow> int \<Rightarrow> int \<times> adm" where
  "vj_tag_set_depth d t1 depth = write_tag d t1 (- 1) 1 (\<lambda>t. t\<lparr>tag_depth := depth\<rparr>)"

definition vj_tag_get_subrender :: "adm \<Rightarrow> int \<Rightarrow> int" where
  "vj_tag_get_subrender d t1 = read_tag d t1 (- 1) tag_subrender"

definition vj_tag_set_subrender :: "adm \<Rightarrow> int \<Rightarrow> int \<Rightarrow> unit \<times> adm" where
  "vj_tag_set_subrender d t1 status = write_tag d t1 () () (\<lambda>t. t\<lparr>tag_subrender := status\<rparr>)"

definition vj_tag_get_effect_status :: "adm \<Rightarrow> int \<Rightarrow> int" where
  "vj_tag_get_effect_status d t1 = read_tag d t1 (- 1) tag_effect_toggle"

definition vj_tag_set_effect_status :: "adm \<Rightarrow> int \<Rightarrow> int \<Rightarrow> int \<times> adm" where
  "vj_tag_set_effect_status d t1 status = write_tag d t1 (- 1) 1 (\<lambda>t.
     if status = 1 \<or> status = 0 then t\<lparr>tag_effect_toggle := status\<rparr> else t)"

definition vj_tag_get_selected_entry :: "adm \<Rightarrow> int \<Rightarrow> int" where
  "vj_tag_get_selected_entry d t1 = read_tag d t1 (- 1) tag_selected_entry"

definition vj_tag_set_selected_entry :: "adm \<Rightarrow> int \<Rightarrow> int \<Rightarrow> int \<times> adm" where
  "vj_tag_set_selected_entry d t1 position =
     (if vj_tag_get d t1 = None \<or> outside position then (- 1, d)
      else (1, modify_tag d t1 (\<lambda>t. t\<lparr>tag_selected_entry := position\<rparr>)))"

definition vj_tag_var :: "adm \<Rightarrow> int \<Rightarrow> int \<times> (int \<times> int \<times> int \<times> int \<times> int) option" where
  "vj_tag_var d t1 = read_tag d t1 (0, None) (\<lambda>t.
     (1, Some (tag_source_type t, tag_fader_active t, tag_effect_toggle t, tag_encoder_active t, tag_active t)))"

definition vj_tag_set_description :: "adm \<Rightarrow> int \<Rightarrow> string option \<Rightarrow> int \<times> adm" where
  "vj_tag_set_description d t1 description = write_tag d t1 0 1 (\<lambda>t.
     t\<lparr>tag_descr := take (TAG_MAX_DESCR_LEN - 1)
        (case description of None \<Rightarrow> ''Untitled'' | Some s \<Rightarrow> if s = [] then ''Untitled'' else s)\<rparr>)"

definition vj_tag_get_description :: "adm \<Rightarrow> int \<Rightarrow> int \<times> string option" where
  "vj_tag_get_description d t1 = read_tag d t1 (0, None) (\<lambda>t. (1, Some (take (TAG_MAX_DESCR_LEN - 1) (tag_descr t))))"

text \<open>For a stream that does not exist the type of the null record is read.\<close>

definition vj_tag_get_source_name :: "adm \<Rightarrow> int \<Rightarrow> string option" where
  "vj_tag_get_source_name d t1 = (case vj_tag_get d t1 of None \<Rightarrow> null_deref | Some t \<Rightarrow> source_name_of d t)"

definition vj_tag_get_method_filename :: "adm \<Rightarrow> int \<Rightarrow> string \<Rightarrow> string option" where
  "vj_tag_get_method_filename d t1 dst =
     (case vj_tag_get d t1 of None \<Rightarrow> Some dst
      | Some t \<Rightarrow> (case tag_method_filename t of None \<Rightarrow> Some dst | Some a \<Rightarrow> ad_strs d a))"

subsection \<open>Colour and layout\<close>

definition vj_tag_set_stream_color :: "adm \<Rightarrow> int \<Rightarrow> int \<Rightarrow> int \<Rightarrow> int \<Rightarrow> int \<times> adm" where
  "vj_tag_set_stream_color d t1 r g b =
     write_tag d t1 0 1 (\<lambda>t. t\<lparr>tag_color_r := r, tag_color_g := g, tag_color_b := b\<rparr>)"

definition vj_tag_get_stream_color :: "adm \<Rightarrow> int \<Rightarrow> int \<times> (int \<times> int \<times> int) option" where
  "vj_tag_get_stream_color d t1 = read_tag d t1 (0, None) (\<lambda>t.
     if tag_source_type t \<noteq> VJ_TAG_TYPE_COLOR then (0, None)
     else (1, Some (tag_color_r t, tag_color_g t, tag_color_b t)))"

text \<open>A split screen keeps its screen, source stream and layout in the colour fields.\<close>

definition vj_tag_set_stream_layout :: "adm \<Rightarrow> int \<Rightarrow> int \<Rightarrow> int \<Rightarrow> int \<Rightarrow> int \<times> adm" where
  "vj_tag_set_stream_layout d t1 stream_id_g screen_no_b v = write_tag d t1 0 1 (\<lambda>t.
     let t = (if screen_no_b \<ge> 0 then t\<lparr>tag_color_b := screen_no_b\<rparr> else t);
         t = (if stream_id_g > 0 \<and> vj_tag_exists d stream_id_g \<noteq> 0 then t\<lparr>tag_color_g := stream_id_g\<rparr> else t)
     in if v \<ge> 0 then t\<lparr>tag_color_r := (if v > 7 then 7 else v)\<rparr> else t)"

subsection \<open>Composite settings\<close>

definition vj_tag_get_composite :: "adm \<Rightarrow> int \<Rightarrow> int" where
  "vj_tag_get_composite d t1 = read_tag d t1 0 tag_composite"

definition vj_tag_get_composite_view :: "adm \<Rightarrow> int \<Rightarrow> addr option" where
  "vj_tag_get_composite_view d t1 = read_tag d t1 None tag_viewport"

definition vj_tag_set_composite_view :: "adm \<Rightarrow> int \<Rightarrow> addr option \<Rightarrow> int \<times> adm" where
  "vj_tag_set_composite_view d t1 vp = write_tag d t1 (- 1) 1 (\<lambda>t. t\<lparr>tag_viewport := vp\<rparr>)"

text \<open>What \<open>composite_add_to_config\<close> writes into the configuration block is outside.\<close>

definition vj_tag_set_composite :: "adm \<Rightarrow> int \<Rightarrow> int \<Rightarrow> int \<times> adm" where
  "vj_tag_set_composite d t1 n = write_tag d t1 (- 1) 1 (\<lambda>t.
     if tag_viewport_config t = None then t\<lparr>tag_composite := 1\<rparr> else t\<lparr>tag_composite := n\<rparr>)"

text \<open>\<open>load cfg\<close> is the view and the mode that \<open>composite_load_config\<close> makes of a configuration.\<close>

definition vj_tag_load_composite_config :: "(addr option \<Rightarrow> addr option \<times> int) \<Rightarrow> adm \<Rightarrow> int \<Rightarrow> int \<times> adm" where
  "vj_tag_load_composite_config load d t1 =
     (case vj_tag_get d t1 of
        None \<Rightarrow> (- 1, d)
      | Some t \<Rightarrow>
          (case load (tag_viewport_config t) of (temp, v) \<Rightarrow>
             if temp = None \<or> v = - 1 then (0, d)
             else (v, modify_tag d t1 (\<lambda>t. t\<lparr>tag_composite := v, tag_viewport := temp\<rparr>))))"

subsection \<open>Faders\<close>

definition vj_tag_set_manual_fader :: "(rat \<Rightarrow> rat) \<Rightarrow> adm \<Rightarrow> int \<Rightarrow> int \<Rightarrow> int \<times> adm" where
  "vj_tag_set_manual_fader fl d t1 v = write_tag d t1 (- 1) 1 (\<lambda>t.
     t\<lparr>tag_fader_active := 2, tag_fader_inc := 0, tag_fader_val := fl (of_int v)\<rparr>)"

definition vj_tag_get_fader_val :: "adm \<Rightarrow> int \<Rightarrow> rat" where
  "vj_tag_get_fader_val d t1 = read_tag d t1 (- 1) tag_fader_val"

definition vj_tag_get_fader_inc :: "adm \<Rightarrow> int \<Rightarrow> rat" where
  "vj_tag_get_fader_inc d t1 = read_tag d t1 (- 1) tag_fader_inc"

definition vj_tag_get_fader_active :: "adm \<Rightarrow> int \<Rightarrow> int" where
  "vj_tag_get_fader_active d t1 = read_tag d t1 (- 1) tag_fader_active"

definition vj_tag_get_fader_direction :: "adm \<Rightarrow> int \<Rightarrow> int" where
  "vj_tag_get_fader_direction d t1 = read_tag d t1 (- 1) tag_fader_direction"

definition vj_tag_reset_fader :: "adm \<Rightarrow> int \<Rightarrow> int \<times> adm" where
  "vj_tag_reset_fader d t1 = write_tag d t1 (- 1) 1 (\<lambda>t.
     t\<lparr>tag_fader_active := 0, tag_fader_inc := 0, tag_fader_val := 0\<rparr>)"

definition vj_tag_set_fader_val :: "adm \<Rightarrow> int \<Rightarrow> rat \<Rightarrow> int \<times> adm" where
  "vj_tag_set_fader_val d t1 v = write_tag d t1 (- 1) 1 (\<lambda>t. t\<lparr>tag_fader_val := v\<rparr>)"

text \<open>The value that the direction asks for is overwritten with 0 by the statement after it.\<close>

definition vj_tag_set_fader_active ::
  "(rat \<Rightarrow> rat) \<Rightarrow> (rat \<Rightarrow> rat) \<Rightarrow> adm \<Rightarrow> int \<Rightarrow> int \<Rightarrow> int \<Rightarrow> int \<times> adm" where
  "vj_tag_set_fader_active fl dbl d t1 nframes direction =
     (if vj_tag_get d t1 = None \<or> nframes \<le> 0 then (- 1, d)
      else (1, modify_tag d t1 (\<lambda>t.
        let t = t\<lparr>tag_fader_active := 1\<rparr>;
            t = (if direction < 0 then t\<lparr>tag_fader_val := 255\<rparr> else t\<lparr>tag_fader_val := 0\<rparr>);
            t = t\<lparr>tag_fader_val := 0\<rparr>;
            inc = fl (dbl (255 / fl (of_int nframes)));
            t = t\<lparr>tag_fader_direction := direction, tag_fader_inc := fl (inc * fl (of_int direction))\<rparr>
        in if tag_effect_toggle t = 0 then t\<lparr>tag_effect_toggle := 1\<rparr> else t)))"

definition vj_tag_apply_fader_inc :: "(rat \<Rightarrow> rat) \<Rightarrow> adm \<Rightarrow> int \<Rightarrow> int \<times> adm" where
  "vj_tag_apply_fader_inc fl d t1 =
     (case vj_tag_get d t1 of
        None \<Rightarrow> (- 1, d)
      | Some t \<Rightarrow>
          let v = fl (tag_fader_val t + tag_fader_inc t);
              v = (if v > 255 then 255 else v);
              v = (if v < 0 then 0 else v);
              d = modify_tag d t1 (\<lambda>t. t\<lparr>tag_fader_val := v\<rparr>)
          in (if tag_fader_direction t \<noteq> 0 then c_trunc v else c_trunc (fl (255 - v)), d))"

subsection \<open>Fields of chain entries\<close>

definition tag_entry :: "vj_tag \<Rightarrow> int \<Rightarrow> sample_eff_chain option" where
  "tag_entry t p = c_nth (tag_effect_chain t) p"

definition put_tag_entry :: "int \<Rightarrow> sample_eff_chain \<Rightarrow> vj_tag \<Rightarrow> vj_tag" where
  "put_tag_entry p e t = t\<lparr>tag_effect_chain := (tag_effect_chain t)[nat p := e]\<rparr>"

text \<open>Reading and setting a field of entry \<open>p\<close>, once the tests of the code have been passed.\<close>

definition read_tag_entry :: "adm \<Rightarrow> int \<Rightarrow> int \<Rightarrow> 'r \<Rightarrow> (sample_eff_chain \<Rightarrow> 'r) \<Rightarrow> 'r option" where
  "read_tag_entry d t1 p dflt f = read_tag d t1 (Some dflt) (\<lambda>t. do { e \<leftarrow> tag_entry t p; Some (f e) })"

definition write_tag_entry ::
  "adm \<Rightarrow> int \<Rightarrow> int \<Rightarrow> 'r \<Rightarrow> 'r \<Rightarrow> (sample_eff_chain \<Rightarrow> sample_eff_chain) \<Rightarrow> ('r \<times> adm) option" where
  "write_tag_entry d t1 p dflt r f = read_tag d t1 (Some (dflt, d)) (\<lambda>t. do {
     e \<leftarrow> tag_entry t p; Some (r, modify_tag d t1 (put_tag_entry p (f e))) })"

definition vj_tag_get_effect :: "adm \<Rightarrow> int \<Rightarrow> int \<Rightarrow> int option" where
  "vj_tag_get_effect d t1 p =
     (if p \<ge> int SAMPLE_MAX_EFFECTS then Some (- 1)
      else read_tag_entry d t1 p (- 1) (\<lambda>e. if sc_e_flag e = 0 then - 1 else sc_effect_id e))"

definition vj_tag_get_effect_any :: "adm \<Rightarrow> int \<Rightarrow> int \<Rightarrow> int option" where
  "vj_tag_get_effect_any d t1 p = read_tag_entry d t1 p 0 sc_effect_id"

definition vj_tag_get_plugin :: "adm \<Rightarrow> int \<Rightarrow> int \<Rightarrow> addr option \<Rightarrow> (addr option \<times> adm) option" where
  "vj_tag_get_plugin d t1 p inst = read_tag d t1 (Some (None, d)) (\<lambda>t.
     if p \<ge> int SAMPLE_MAX_EFFECTS then Some (None, d)
     else do {
       e \<leftarrow> tag_entry t p;
       let e = (if inst \<noteq> None then e\<lparr>sc_fx_instance := inst\<rparr> else e);
       Some (sc_fx_instance e, modify_tag d t1 (put_tag_entry p e)) })"

definition vj_tag_get_chain_status :: "adm \<Rightarrow> int \<Rightarrow> int \<Rightarrow> int option" where
  "vj_tag_get_chain_status d t1 p =
     (if p \<ge> int SAMPLE_MAX_EFFECTS then Some (- 1) else read_tag_entry d t1 p (- 1) sc_e_flag)"

text \<open>There is no test for a stream that does not exist.\<close>

definition vj_tag_set_chain_status :: "adm \<Rightarrow> int \<Rightarrow> int \<Rightarrow> int \<Rightarrow> (int \<times> adm) option" where
  "vj_tag_set_chain_status d t1 p status =
     (if p \<ge> int SAMPLE_MAX_EFFECTS then Some (- 1, d)
      else if vj_tag_get d t1 = None then null_deref
      else write_tag_entry d t1 p (- 1) 1 (\<lambda>e. e\<lparr>sc_e_flag := status\<rparr>))"

definition vj_tag_get_trimmer :: "adm \<Rightarrow> int \<Rightarrow> int \<Rightarrow> int option" where
  "vj_tag_get_trimmer d t1 p = (if outside p then Some 0 else read_tag_entry d t1 p 0 sc_frame_trimmer)"

definition vj_tag_set_trimmer :: "adm \<Rightarrow> int \<Rightarrow> int \<Rightarrow> int \<Rightarrow> (int \<times> adm) option" where
  "vj_tag_set_trimmer d t1 p trim =
     (if outside p then Some (- 1, d) else write_tag_entry d t1 p (- 1) 1 (\<lambda>e. e\<lparr>sc_frame_trimmer := trim\<rparr>))"

definition bad_tag_arg :: "int \<Rightarrow> int \<Rightarrow> bool" where
  "bad_tag_arg p argnr \<longleftrightarrow> outside p \<or> argnr < 0 \<or> argnr > int SAMPLE_MAX_PARAMETERS"

definition vj_tag_get_effect_arg :: "adm \<Rightarrow> int \<Rightarrow> int \<Rightarrow> int \<Rightarrow> int option" where
  "vj_tag_get_effect_arg d t1 p argnr = read_tag d t1 (Some (- 1)) (\<lambda>t.
     if bad_tag_arg p argnr then Some (- 1) else do { e \<leftarrow> tag_entry t p; c_nth (sc_arg e) argnr })"

definition vj_tag_set_effect_arg :: "adm \<Rightarrow> int \<Rightarrow> int \<Rightarrow> int \<Rightarrow> int \<Rightarrow> (int \<times> adm) option" where
  "vj_tag_set_effect_arg d t1 p argnr v = read_tag d t1 (Some (- 1, d)) (\<lambda>t.
     if bad_tag_arg p argnr then Some (- 1, d)
     else do {
       e \<leftarrow> tag_entry t p;
       xs \<leftarrow> c_update (sc_arg e) argnr v;
       Some (1, modify_tag d t1 (put_tag_entry p (e\<lparr>sc_arg := xs\<rparr>))) })"

definition vj_tag_get_chain_channel :: "adm \<Rightarrow> int \<Rightarrow> int \<Rightarrow> int option" where
  "vj_tag_get_chain_channel d t1 p = (if outside p then Some (- 1) else read_tag_entry d t1 p (- 1) sc_channel)"

definition vj_tag_get_chain_source :: "adm \<Rightarrow> int \<Rightarrow> int \<Rightarrow> int option" where
  "vj_tag_get_chain_source d t1 p = (if outside p then Some (- 1) else read_tag_entry d t1 p (- 1) sc_source_type)"

definition vj_tag_get_offset :: "adm \<Rightarrow> int \<Rightarrow> int \<Rightarrow> int option" where
  "vj_tag_get_offset d t1 p = read_tag_entry d t1 p (- 1) sc_frame_offset"

definition vj_tag_set_offset :: "adm \<Rightarrow> int \<Rightarrow> int \<Rightarrow> int \<Rightarrow> (int \<times> adm) option" where
  "vj_tag_set_offset d t1 p frame_offset =
     write_tag_entry d t1 p (- 1) 1 (\<lambda>e. e\<lparr>sc_frame_offset := (if frame_offset < 0 then 0 else frame_offset)\<rparr>)"

definition vj_tag_chain_size :: "adm \<Rightarrow> int \<Rightarrow> int" where
  "vj_tag_chain_size d t1 = read_tag d t1 (- 1) (\<lambda>t.
     case filter (\<lambda>i. sc_effect_id (tag_effect_chain t ! i) \<noteq> - 1) (rev [1..<SAMPLE_MAX_EFFECTS]) of [] \<Rightarrow> 0 | i # _ \<Rightarrow> int i)"

definition VJ_IMAGE_EFFECT_CALI :: int where "VJ_IMAGE_EFFECT_CALI = 190"

definition vj_tag_has_cali_fx :: "adm \<Rightarrow> int \<Rightarrow> int" where
  "vj_tag_has_cali_fx d t1 = read_tag d t1 (- 1) (\<lambda>t.
     first_index (\<lambda>e. sc_effect_id e = VJ_IMAGE_EFFECT_CALI) (tag_effect_chain t))"

subsection \<open>Keyframe ports\<close>

definition vj_tag_chain_reset_kf :: "adm \<Rightarrow> int \<Rightarrow> int \<Rightarrow> (int \<times> adm) option" where
  "vj_tag_chain_reset_kf d t1 p = read_tag d t1 (Some (- 1, d)) (\<lambda>t. do {
     e \<leftarrow> tag_entry t p;
     d \<leftarrow> free_ptr vpf (sc_kf e) d;
     let (k, d) = vpn d;
     Some (1, modify_tag d t1 (put_tag_entry p (e\<lparr>sc_kf_status := 0, sc_kf_type := 0, sc_kf := Some k\<rparr>))) })"

definition vj_tag_get_kf_status :: "adm \<Rightarrow> int \<Rightarrow> int \<Rightarrow> (int \<times> int option) option" where
  "vj_tag_get_kf_status d t1 p = read_tag_entry d t1 p (0, None) (\<lambda>e. (sc_kf_status e, Some (sc_kf_type e)))"

definition vj_tag_set_kf_type :: "adm \<Rightarrow> int \<Rightarrow> int \<Rightarrow> int \<Rightarrow> (unit \<times> adm) option" where
  "vj_tag_set_kf_type d t1 p type = write_tag_entry d t1 p () () (\<lambda>e. e\<lparr>sc_kf_type := type\<rparr>)"

definition vj_tag_chain_set_kf_status :: "adm \<Rightarrow> int \<Rightarrow> int \<Rightarrow> int \<Rightarrow> (int \<times> adm) option" where
  "vj_tag_chain_set_kf_status d t1 p status = write_tag_entry d t1 p (- 1) 1 (\<lambda>e. e\<lparr>sc_kf_status := status\<rparr>)"

definition vj_tag_get_kf_port :: "adm \<Rightarrow> int \<Rightarrow> int \<Rightarrow> addr option option" where
  "vj_tag_get_kf_port d t1 p = read_tag_entry d t1 p None sc_kf"

subsection \<open>Fading a stream\<close>

text \<open>Frame after frame of a fade: the opacities that are answered.\<close>

fun apply_stream_fader :: "(rat \<Rightarrow> rat) \<Rightarrow> nat \<Rightarrow> adm \<Rightarrow> int \<Rightarrow> int list \<times> adm" where
  "apply_stream_fader fl 0 d k = ([], d)"
| "apply_stream_fader fl (Suc n) d k =
     (let (r, d) = vj_tag_apply_fader_inc fl d k; (rs, d) = apply_stream_fader fl n d k in (r # rs, d))"

lemma faded_out:
  assumes "vj_tag_get d k = Some t" "tag_fader_val t = 0" "tag_fader_inc t \<le> 0" "tag_fader_direction t \<noteq> 0" "rounding fl"
  shows "fst (apply_stream_fader fl n d k) = replicate n 0"
  using assms
proof (induction n arbitrary: d t)
  case (Suc n)
  have "fl (tag_fader_inc t) \<le> fl 0" using Suc.prems(3,5) unfolding rounding_def by blast
  then have "fl (tag_fader_inc t) \<le> 0" using rounding_exact [OF Suc.prems(5)] by simp
  moreover have "c_trunc (fl (tag_fader_inc t)) = 0" if "\<not> fl (tag_fader_inc t) < 0"
    using that calculation by (simp add: c_trunc_def)
  ultimately have step: "vj_tag_apply_fader_inc fl d k = (0, modify_tag d k (\<lambda>t. t\<lparr>tag_fader_val := 0\<rparr>))"
    using Suc.prems(1,2,4) by (auto simp: vj_tag_apply_fader_inc_def Let_def c_trunc_def)
  have "vj_tag_get (modify_tag d k (\<lambda>t. t\<lparr>tag_fader_val := 0\<rparr>)) k = Some (t\<lparr>tag_fader_val := 0\<rparr>)"
    using Suc.prems(1) by (simp add: vj_tag_get_modify)
  from Suc.IH [OF this] Suc.prems show ?case by (simp add: step split_beta)
qed simp

subsection \<open>Properties\<close>

text \<open>
  A stream cannot fade out. Whatever the number of frames, after a fade with negative direction is started the
  opacity is 0 from the first frame on: \<open>vj_tag_set_fader_active\<close> sets the start value of 255 and then overwrites it.
\<close>

theorem stream_fade_out_is_over:
  assumes "vj_tag_get d k = Some t" "0 < nframes" "direction < 0" "rounding fl" "rounding dbl"
  shows "\<exists>d'. vj_tag_set_fader_active fl dbl d k nframes direction = (1, d') \<and>
     fst (apply_stream_fader fl n d' k) = replicate n 0"
proof -
  obtain d' where d': "vj_tag_set_fader_active fl dbl d k nframes direction = (1, d')"
    using assms(1,2) by (simp add: vj_tag_set_fader_active_def)
  note mono = assms(4) [unfolded rounding_def, THEN conjunct1, rule_format]
    assms(5) [unfolded rounding_def, THEN conjunct1, rule_format]
  note zero = rounding_exact(1) [OF assms(4)] rounding_exact(1) [OF assms(5)]
  have "0 \<le> fl (of_int nframes)" using mono(1) [of 0 "of_int nframes"] zero(1) assms(2) by simp
  then have "0 \<le> dbl (255 / fl (of_int nframes))" using mono(2) [of 0 "255 / fl (of_int nframes)"] zero(2) by simp
  then have i: "0 \<le> fl (dbl (255 / fl (of_int nframes)))" using mono(1) zero(1) by (metis)
  have "fl (of_int direction) \<le> 0" using mono(1) [of "of_int direction" 0] zero(1) assms(3) by simp
  then have "fl (dbl (255 / fl (of_int nframes))) * fl (of_int direction) \<le> 0" using i by (simp add: mult_nonneg_nonpos)
  then have "fl (fl (dbl (255 / fl (of_int nframes))) * fl (of_int direction)) \<le> 0" using mono(1) zero(1) by metis
  moreover obtain u where "vj_tag_get d' k = Some u" "tag_fader_val u = 0" "tag_fader_direction u = direction"
      "tag_fader_inc u = fl (fl (dbl (255 / fl (of_int nframes))) * fl (of_int direction))"
    using d' assms(1,2) by (auto simp: vj_tag_set_fader_active_def vj_tag_get_modify Let_def)
  ultimately have "fst (apply_stream_fader fl n d' k) = replicate n 0"
    using faded_out [OF _ _ _ _ assms(4), of d' k u n] assms(3) by simp
  with d' show ?thesis by blast
qed

theorem stream_fade_out_is_over_witness:
  "\<exists>d'. vj_tag_set_fader_active id id adm_streams 1 25 (- 1) = (1, d') \<and> fst (apply_stream_fader id 3 d' 1) = [0, 0, 0]"
proof -
  have "rounding id" by (simp add: rounding_def)
  from stream_fade_out_is_over [OF adm_streams_ok(4) _ _ this this, of 25 "- 1" 3] show ?thesis
    by (simp add: numeral_3_eq_3)
qed

end
