(* ===== verification/StreamChain.thy ===== *)
theory StreamChain
  imports StreamParams SampleDelete
begin

text \<open>
  The effect chain of a stream (\<open>libstream/vj-tag.c\<close>): activating and releasing its effects, setting and removing an
  effect, the sources of an entry, and deleting streams.

  \<^item> The chain of a stream has the entries of a sample's chain, so the steps on one entry that the two modules
    share are those of \<open>SampleChain\<close>.
  \<^item> An entry of a stream always has a keyframe port.
  \<^item> A step on an entry may stop another stream, or this one; the entries are written back into the record as
    the step left it.
\<close>

subsection \<open>Effects of a chain\<close>

definition set_tag_chain :: "sample_eff_chain list \<Rightarrow> vj_tag \<Rightarrow> vj_tag" where
  "set_tag_chain es t = t\<lparr>tag_effect_chain := es\<rparr>"

definition vj_tag_chain_malloc :: "fx_env \<Rightarrow> adm \<Rightarrow> int \<Rightarrow> (int \<times> adm) option" where
  "vj_tag_chain_malloc fe d t1 =
     (case vj_tag_get d t1 of
        None \<Rightarrow> null_deref
      | Some t \<Rightarrow> do {
          (es, d, cnt) \<leftarrow> map_entries (malloc_entry fe) (tag_effect_chain t) (d, 0);
          Some (cnt, modify_tag d t1 (set_tag_chain es)) })"

definition renew_kf :: "sample_eff_chain \<Rightarrow> adm \<Rightarrow> (sample_eff_chain \<times> adm) option" where
  "renew_kf e d = do {
     d \<leftarrow> free_ptr vpf (sc_kf e) d;
     let (k, d) = vpn d;
     Some (e\<lparr>sc_kf := Some k\<rparr>, d) }"

definition free_tag_entry :: "sample_eff_chain \<Rightarrow> adm \<times> int \<Rightarrow> (sample_eff_chain \<times> adm \<times> int) option" where
  "free_tag_entry e st =
     (case st of (d, cnt) \<Rightarrow>
        if sc_effect_id e \<noteq> - 1
        then do {
          (e, d, cnt) \<leftarrow> (if fx_on d e
                            then do { (e, d) \<leftarrow> fx_deactivate e d; (e, d) \<leftarrow> renew_kf e d; Some (e, d, cnt + 1) }
                            else Some (e, d, cnt));
          Some (e, release_stream e d, cnt)
        }
        else Some (e, d, cnt))"

definition vj_tag_chain_free :: "adm \<Rightarrow> int \<Rightarrow> (int \<times> adm) option" where
  "vj_tag_chain_free d t1 =
     (case vj_tag_get d t1 of
        None \<Rightarrow> null_deref
      | Some t \<Rightarrow> do {
          (es, d, cnt) \<leftarrow> map_entries free_tag_entry (tag_effect_chain t) (d, 0);
          Some (cnt, modify_tag d t1 (set_tag_chain es)) })"

text \<open>An active network stream other than the stream itself is stopped when an entry lets go of it.\<close>

definition release_other :: "int \<Rightarrow> sample_eff_chain \<Rightarrow> adm \<Rightarrow> adm" where
  "release_other t1 e d = (if sc_channel e \<noteq> t1 then release_stream e d else d)"

subsection \<open>Setting an effect\<close>

text \<open>As for samples, the test that spares the old effect looks for the new one in the other entries.\<close>

definition tag_release_effect :: "int \<Rightarrow> int \<Rightarrow> int \<Rightarrow> vj_tag \<Rightarrow> sample_eff_chain \<Rightarrow> adm \<Rightarrow> (sample_eff_chain \<times> adm) option" where
  "tag_release_effect t1 p effect_id t e d =
     (if sc_effect_id e \<noteq> - 1 \<and> sc_effect_id e \<noteq> effect_id
      then do {
        (e, d) \<leftarrow> (if fx_on d e
          then if vj_effect_is_plugin (ad_fx d) (sc_effect_id e) = 0
               then let frm = (\<forall>i \<in> set [0..<SAMPLE_MAX_EFFECTS]. int i \<noteq> p \<longrightarrow>
                                 sc_effect_id (tag_effect_chain t ! i) \<noteq> effect_id)
                    in if frm then fx_deactivate e d else Some (e, d)
               else fx_deactivate e d
          else Some (e, d));
        Some (e, release_other t1 e d)
      }
      else Some (e, d))"

definition tag_setup_effect :: "int \<Rightarrow> sample_eff_chain \<Rightarrow> adm \<Rightarrow> (sample_eff_chain \<times> adm) option" where
  "tag_setup_effect effect_id e d =
     (if sc_effect_id e \<noteq> effect_id
      then do {
        n \<leftarrow> vj_effect_get_num_params (ad_fx d) effect_id;
        xs \<leftarrow> chain_defaults (ad_fx d) effect_id (nat n) (sc_arg e);
        (e, d) \<leftarrow> renew_kf (e\<lparr>sc_arg := xs, sc_e_flag := 1, sc_kf_status := 0, sc_kf_type := 0\<rparr>) d;
        Some (e\<lparr>sc_effect_id := effect_id\<rparr>, d)
      }
      else Some (e, d))"

definition tag_mix_source :: "int \<Rightarrow> int \<Rightarrow> sample_eff_chain \<Rightarrow> adm \<Rightarrow> sample_eff_chain option" where
  "tag_mix_source t1 effect_id e d = do {
     xf \<leftarrow> vj_effect_get_extra_frame (ad_fx d) effect_id;
     Some (if xf \<noteq> 0
           then let e = (if sc_source_type e < 0 then e\<lparr>sc_source_type := 1\<rparr> else e)
                in if sc_channel e \<le> 0 then e\<lparr>sc_channel := t1\<rparr> else e
           else e) }"

definition vj_tag_set_effect :: "fx_env \<Rightarrow> adm \<Rightarrow> int \<Rightarrow> int \<Rightarrow> int \<Rightarrow> (int \<times> adm) option" where
  "vj_tag_set_effect fe d t1 p effect_id =
     (case vj_tag_get d t1 of
        None \<Rightarrow> Some (0, d)
      | Some t \<Rightarrow>
          if outside p then Some (0, d)
          else do {
            e \<leftarrow> tag_entry t p;
            (e, d) \<leftarrow> tag_release_effect t1 p effect_id t e d;
            (ok, e, d) \<leftarrow> chain_add_activate fe effect_id e d;
            if \<not> ok then Some (0, modify_tag d t1 (put_tag_entry p e))
            else do {
              (e, d) \<leftarrow> tag_setup_effect effect_id e d;
              e \<leftarrow> tag_mix_source t1 effect_id e d;
              Some (1, modify_tag d t1 (put_tag_entry p e))
            }
          })"

subsection \<open>Removing effects\<close>

definition vj_tag_chain_can_delete :: "adm \<Rightarrow> vj_tag \<Rightarrow> int \<Rightarrow> int \<Rightarrow> bool" where
  "vj_tag_chain_can_delete d t reserved effect_id \<longleftrightarrow>
     vj_effect_is_plugin (ad_fx d) effect_id \<noteq> 0 \<or>
     (\<forall>i \<in> set [0..<SAMPLE_MAX_EFFECTS]. int i \<noteq> reserved \<longrightarrow> effect_id \<noteq> sc_effect_id (tag_effect_chain t ! i))"

definition vj_tag_chain_remove :: "adm \<Rightarrow> int \<Rightarrow> int \<Rightarrow> (int \<times> adm) option" where
  "vj_tag_chain_remove d t1 p =
     (case vj_tag_get d t1 of
        None \<Rightarrow> Some (- 1, d)
      | Some t \<Rightarrow> do {
          e \<leftarrow> tag_entry t p;
          (e, d) \<leftarrow> (if sc_effect_id e \<noteq> - 1 \<and> fx_on d e \<and> vj_tag_chain_can_delete d t p (sc_effect_id e)
                     then fx_deactivate e d else Some (e, d));
          (e, d) \<leftarrow> renew_kf (e\<lparr>sc_effect_id := - 1, sc_e_flag := 0\<rparr>) d;
          let d = release_other t1 e d;
          Some (1, modify_tag d t1 (put_tag_entry p
            (e\<lparr>sc_source_type := 1, sc_channel := t1, sc_arg := replicate SAMPLE_MAX_PARAMETERS 0\<rparr>)))
        })"

fun clear_chain_loop :: "int \<Rightarrow> nat list \<Rightarrow> adm \<Rightarrow> (int \<times> adm) option" where
  "clear_chain_loop k [] d = Some (1, d)"
| "clear_chain_loop k (i # is) d = do {
     (r, d) \<leftarrow> vj_tag_chain_remove d k (int i);
     if r = - 1 then Some (- 1, d) else clear_chain_loop k is d }"

definition vj_tag_clear_chain :: "adm \<Rightarrow> int \<Rightarrow> (int \<times> adm) option" where
  "vj_tag_clear_chain d k = clear_chain_loop k [0..<SAMPLE_MAX_EFFECTS] d"

subsection \<open>Sources of an entry\<close>

definition vj_tag_set_chain_channel :: "adm \<Rightarrow> int \<Rightarrow> int \<Rightarrow> int \<Rightarrow> (int \<times> adm) option" where
  "vj_tag_set_chain_channel d t1 p channel = read_tag d t1 (Some (- 1, d)) (\<lambda>t.
     if outside p then Some (- 1, d)
     else do {
       e \<leftarrow> tag_entry t p;
       Some (1, modify_tag (release_other t1 e d) t1 (put_tag_entry p (e\<lparr>sc_channel := channel\<rparr>))) })"

definition vj_tag_set_chain_source :: "adm \<Rightarrow> int \<Rightarrow> int \<Rightarrow> int \<Rightarrow> (int \<times> adm) option" where
  "vj_tag_set_chain_source d t1 p source = read_tag d t1 (Some (- 1, d)) (\<lambda>t.
     if outside p then Some (- 1, d)
     else do {
       e \<leftarrow> tag_entry t p;
       Some (1, modify_tag (release_other t1 e d) t1 (put_tag_entry p (e\<lparr>sc_source_type := source\<rparr>))) })"

text \<open>Streams that mix in something that goes away fall back to themselves. The loop leaves out the newest stream.\<close>

definition fall_back_entry :: "int \<Rightarrow> int \<Rightarrow> int \<Rightarrow> sample_eff_chain \<Rightarrow> sample_eff_chain" where
  "fall_back_entry i k type e =
     (if sc_channel e = k \<and> sc_source_type e = type then e\<lparr>sc_channel := i, sc_source_type := 1\<rparr> else e)"

definition vj_tag_verify_delete :: "adm \<Rightarrow> int \<Rightarrow> int \<Rightarrow> int \<times> adm" where
  "vj_tag_verify_delete d k type =
     (1, fold (\<lambda>i d. modify_tag d i (\<lambda>t. set_tag_chain (map (fall_back_entry i k type) (tag_effect_chain t)) t))
           [1..vj_tag_size d - 2] d)"

subsection \<open>Deleting streams\<close>

text \<open>What a stream owns, in the order in which it is released; devices and plugins are outside.\<close>

definition tag_release :: "int \<Rightarrow> adm \<Rightarrow> adm option" where
  "tag_release k d = do {
     t \<leftarrow> vj_tag_get d k;
     d \<leftarrow> free_ptr free_str (tag_source_name t) d;
     d \<leftarrow> free_ptr free_str (tag_method_filename t) d;
     d \<leftarrow> free_ptrs vpf (map sc_kf (tag_effect_chain t)) d;
     free_ptr vpf (tag_viewport t) d }"

definition vj_tag_del :: "adm \<Rightarrow> int \<Rightarrow> (int \<times> adm) option" where
  "vj_tag_del d k =
     (case vj_tag_get d k of
        None \<Rightarrow> Some (0, d)
      | Some t \<Rightarrow> do {
          d \<leftarrow> free_ptr vpf (tag_dict t) d;
          d \<leftarrow> free_ptr free_str (tag_extra t) d;
          (r, d) \<leftarrow> vj_tag_chain_free d (tag_id t);
          d \<leftarrow> tag_release k d;
          if int (next_avail_tag d) \<ge> SAMPLE_MAX_SAMPLES then out_of_bounds
          else Some (1, d\<lparr>ad_tags := (ad_tags d)(k := None), avail_tag := (avail_tag d)(next_avail_tag d := k),
                          next_avail_tag := Suc (next_avail_tag d)\<rparr>)
        })"

fun close_loop :: "int list \<Rightarrow> adm \<Rightarrow> adm option" where
  "close_loop [] d = Some d"
| "close_loop (i # is) d =
     (if vj_tag_get d i = None then close_loop is d else do { (r, d) \<leftarrow> vj_tag_del d i; close_loop is d })"

definition vj_tag_close_all :: "adm \<Rightarrow> adm option" where
  "vj_tag_close_all d = do {
     d \<leftarrow> close_loop [1..vj_tag_size d - 1] d;
     Some (d\<lparr>ad_tags := Map.empty\<rparr>) }"

subsection \<open>Ownership\<close>

text \<open>
  Each stream has a chain of the declared size and owns its ports and strings: they are live, different from one
  another and from those of other streams. New blocks get addresses from \<open>ad_next\<close> on, which no live block has.
\<close>

definition tag_shape :: "vj_tag \<Rightarrow> bool" where
  "tag_shape t \<longleftrightarrow> length (tag_effect_chain t) = SAMPLE_MAX_EFFECTS \<and>
     (\<forall>e \<in> set (tag_effect_chain t). length (sc_arg e) = SAMPLE_MAX_PARAMETERS)"

definition tag_ports :: "vj_tag \<Rightarrow> addr list" where
  "tag_ports t = somes (map sc_kf (tag_effect_chain t)) @ somes [tag_dict t, tag_viewport t]"

definition tag_strs :: "vj_tag \<Rightarrow> addr list" where
  "tag_strs t = somes [tag_source_name t, tag_method_filename t, tag_extra t]"

definition stream_wf :: "adm \<Rightarrow> vj_tag \<Rightarrow> bool" where
  "stream_wf d t \<longleftrightarrow> tag_shape t \<and> distinct (tag_ports t) \<and> set (tag_ports t) \<subseteq> ad_ports d \<and>
     distinct (tag_strs t) \<and> set (tag_strs t) \<subseteq> dom (ad_strs d) \<and> tag_source_name t \<noteq> None"

definition fresh_next :: "adm \<Rightarrow> bool" where
  "fresh_next d \<longleftrightarrow> (\<forall>a \<in> ad_ports d. a < ad_next d) \<and> (\<forall>a \<in> dom (ad_strs d). a < ad_next d)"

definition streams_wf :: "adm \<Rightarrow> bool" where
  "streams_wf d \<longleftrightarrow> tags_ok d \<and> fx_table_ok (ad_fx d) \<and> fresh_next d \<and>
     (\<forall>k t. ad_tags d k = Some t \<longrightarrow> stream_wf d t) \<and>
     (\<forall>j k t u. ad_tags d j = Some t \<longrightarrow> ad_tags d k = Some u \<longrightarrow> j \<noteq> k \<longrightarrow>
        set (tag_ports t) \<inter> set (tag_ports u) = {} \<and> set (tag_strs t) \<inter> set (tag_strs u) = {})"

lemma streams_wfD:
  assumes "streams_wf d"
  shows "tags_ok d" "fx_table_ok (ad_fx d)" "fresh_next d" "ad_tags d k = Some t \<Longrightarrow> stream_wf d t"
    "ad_tags d j = Some t \<Longrightarrow> ad_tags d k = Some u \<Longrightarrow> j \<noteq> k \<Longrightarrow> set (tag_ports t) \<inter> set (tag_ports u) = {}"
    "ad_tags d j = Some t \<Longrightarrow> ad_tags d k = Some u \<Longrightarrow> j \<noteq> k \<Longrightarrow> set (tag_strs t) \<inter> set (tag_strs u) = {}"
  using assms unfolding streams_wf_def by blast+

lemma stream_wfD:
  assumes "stream_wf d t"
  shows "tag_shape t" "distinct (tag_ports t)" "set (tag_ports t) \<subseteq> ad_ports d" "distinct (tag_strs t)"
    "set (tag_strs t) \<subseteq> dom (ad_strs d)" "tag_source_name t \<noteq> None"
  using assms unfolding stream_wf_def by blast+

lemma somes_append [simp]: "somes (xs @ ys) = somes xs @ somes ys"
  by (induction xs rule: somes.induct) simp_all

lemma set_somes: "set (somes xs) = {x. Some x \<in> set xs}"
  by (induction xs rule: somes.induct) auto

lemma somes_update:
  assumes "distinct (somes xs)" "k \<notin> set (somes xs)" "i < length xs"
  shows "distinct (somes (xs[i := Some k]))" "set (somes (xs[i := Some k])) = insert k (set (somes xs) - set_option (xs ! i))"
proof -
  have xs: "xs = take i xs @ xs ! i # drop (Suc i) xs" using assms(3) by (simp add: id_take_nth_drop)
  have up: "xs[i := Some k] = take i xs @ Some k # drop (Suc i) xs" using assms(3) by (simp add: upd_conv_take_nth_drop)
  have d: "distinct (somes (take i xs @ xs ! i # drop (Suc i) xs))" "k \<notin> set (somes (take i xs @ xs ! i # drop (Suc i) xs))"
    using assms(1,2) xs by simp_all
  have s: "set (somes xs) = set (somes (take i xs @ xs ! i # drop (Suc i) xs))" using xs by simp
  show "distinct (somes (xs[i := Some k]))" using d unfolding up by (cases "xs ! i") auto
  show "set (somes (xs[i := Some k])) = insert k (set (somes xs) - set_option (xs ! i))"
    unfolding s up using d by (cases "xs ! i") auto
qed

text \<open>
  A quiet step changes at most which streams are active and which effects are ready.
\<close>

definition core :: "vj_tag \<Rightarrow> vj_tag" where "core t = t\<lparr>tag_active := 0\<rparr>"

definition quiet :: "adm \<Rightarrow> adm \<Rightarrow> bool" where
  "quiet d d' \<longleftrightarrow> (\<forall>k. map_option core (ad_tags d' k) = map_option core (ad_tags d k)) \<and>
     this_tag_id d' = this_tag_id d \<and> avail_tag d' = avail_tag d \<and> next_avail_tag d' = next_avail_tag d \<and>
     ad_strs d' = ad_strs d \<and> ad_ports d' = ad_ports d \<and> ad_next d' = ad_next d \<and>
     (fx_table_ok (ad_fx d) \<longrightarrow> fx_table_ok (ad_fx d')) \<and>
     vj_effects (ad_fx d') = vj_effects (ad_fx d) \<and> n_ext_plugs (ad_fx d') = n_ext_plugs (ad_fx d)"

lemma quiet_refl [simp]: "quiet d d"
  by (simp add: quiet_def)

lemma quiet_trans: "quiet d d1 \<Longrightarrow> quiet d1 d2 \<Longrightarrow> quiet d d2"
  by (simp add: quiet_def)

lemma core_keeps:
  assumes "core t = core u"
  shows "tag_id t = tag_id u" "tag_effect_chain t = tag_effect_chain u" "tag_ports t = tag_ports u" "tag_strs t = tag_strs u"
    "tag_source_name t = tag_source_name u" "tag_shape t = tag_shape u" "tag_source_type t = tag_source_type u"
  using assms by (cases t; cases u; simp add: core_def tag_ports_def tag_strs_def tag_shape_def)+

lemma quiet_get:
  assumes "quiet d d'" "ad_tags d' k = Some t'"
  obtains t where "ad_tags d k = Some t" "core t = core t'"
proof -
  have "map_option core (ad_tags d k) = map_option core (ad_tags d' k)" using assms(1) by (simp add: quiet_def)
  then show ?thesis using assms(2) that by auto
qed

lemma quiet_get':
  assumes "quiet d d'" "ad_tags d k = Some t"
  obtains t' where "ad_tags d' k = Some t'" "core t = core t'"
proof -
  have "map_option core (ad_tags d' k) = Some (core t)" using assms by (simp add: quiet_def)
  then show ?thesis using that by auto
qed

lemma quiet_None: "quiet d d' \<Longrightarrow> ad_tags d' k = None \<longleftrightarrow> ad_tags d k = None"
  by (metis quiet_def map_option_is_None)

lemma wf_quiet:
  assumes "streams_wf d" "quiet d d'"
  shows "streams_wf d'"
proof -
  note wf = streams_wfD [OF assms(1)]
  have q: "this_tag_id d' = this_tag_id d" "avail_tag d' = avail_tag d" "next_avail_tag d' = next_avail_tag d"
    "ad_strs d' = ad_strs d" "ad_ports d' = ad_ports d" "ad_next d' = ad_next d"
    using assms(2) by (simp_all add: quiet_def)
  have "tags_ok d'"
    unfolding tags_ok_def q
  proof (intro conjI allI impI)
    show "0 \<le> this_tag_id d" by (rule tags_okD [OF wf(1)])
  next
    fix k t' assume t': "ad_tags d' k = Some t'"
    obtain t where t: "ad_tags d k = Some t" "core t = core t'" by (rule quiet_get [OF assms(2) t'])
    show "tag_id t' = k" "0 < k" "k < this_tag_id d"
      using t core_keeps(1) [OF t(2)] tags_okD(2-4) [OF wf(1) t(1)] by simp_all
  next
    fix n assume n: "avail_tag d n \<noteq> 0"
    show "n < next_avail_tag d" "0 < avail_tag d n" "avail_tag d n < this_tag_id d" "ad_tags d' (avail_tag d n) = None"
      using tags_okD(5-8) [OF wf(1) n] quiet_None [OF assms(2)] by simp_all
  qed (use tags_okD(9) [OF wf(1)] in blast)
  moreover have "fx_table_ok (ad_fx d')" using assms(2) wf(2) by (simp add: quiet_def)
  moreover have "fresh_next d'" using wf(3) q by (simp add: fresh_next_def)
  moreover have "stream_wf d' t'" if t': "ad_tags d' k = Some t'" for k t'
  proof -
    obtain t where t: "ad_tags d k = Some t" "core t = core t'" by (rule quiet_get [OF assms(2) t'])
    then show ?thesis using wf(4) [OF t(1)] core_keeps [OF t(2)] q by (simp add: stream_wf_def)
  qed
  moreover have "set (tag_ports t') \<inter> set (tag_ports u') = {} \<and> set (tag_strs t') \<inter> set (tag_strs u') = {}"
    if tu: "ad_tags d' j = Some t'" "ad_tags d' k = Some u'" "j \<noteq> k" for j k t' u'
  proof -
    obtain t where t: "ad_tags d j = Some t" "core t = core t'" by (rule quiet_get [OF assms(2) tu(1)])
    obtain u where u: "ad_tags d k = Some u" "core u = core u'" by (rule quiet_get [OF assms(2) tu(2)])
    show ?thesis using wf(5,6) [OF t(1) u(1) tu(3)] core_keeps(3,4) [OF t(2)] core_keeps(3,4) [OF u(2)] by simp
  qed
  ultimately show ?thesis unfolding streams_wf_def by blast
qed

lemma modify_tag_at:
  assumes "tags_ok d" "ad_tags d k = Some t"
  shows "modify_tag d k f = d\<lparr>ad_tags := (ad_tags d)(k \<mapsto> f t)\<rparr>"
  using assms vj_tag_get_tags [OF assms(1)] by (simp add: modify_tag_def)

text \<open>Changing a record within what it owns, and giving it a fresh port in place of one of its own.\<close>

lemma wf_modify:
  assumes "streams_wf d" "ad_tags d k = Some t" "tag_id (f t) = tag_id t" "tag_shape (f t)"
    "tag_ports (f t) = tag_ports t" "tag_strs (f t) = tag_strs t" "tag_source_name (f t) = tag_source_name t"
  shows "streams_wf (modify_tag d k f)"
proof -
  note wf = streams_wfD [OF assms(1)]
  note at = modify_tag_at [OF wf(1) assms(2), of f]
  have "avail_tag d n \<noteq> k" if "avail_tag d n \<noteq> 0" for n using tags_okD(8) [OF wf(1) that] assms(2) by auto
  then have "tags_ok (modify_tag d k f)"
    unfolding at using assms(2,3) tags_okD [OF wf(1)] by (auto simp: tags_ok_def)
  moreover have "stream_wf (modify_tag d k f) u" if "ad_tags (modify_tag d k f) j = Some u" for j u
    using that wf(4) assms(2,4-7) unfolding at by (auto simp: stream_wf_def split: if_splits)
  moreover have "set (tag_ports u) \<inter> set (tag_ports v) = {} \<and> set (tag_strs u) \<inter> set (tag_strs v) = {}"
    if "ad_tags (modify_tag d k f) i = Some u" "ad_tags (modify_tag d k f) j = Some v" "i \<noteq> j" for i j u v
    using that wf(5,6) assms(2,5,6) unfolding at by (auto split: if_splits)
  ultimately show ?thesis using wf(2,3) unfolding streams_wf_def by (simp add: at fresh_next_def)
qed

definition swap_port :: "addr option \<Rightarrow> adm \<Rightarrow> adm" where
  "swap_port k d = d\<lparr>ad_ports := insert (ad_next d) (ad_ports d - set_option k), ad_next := Suc (ad_next d)\<rparr>"

lemma swap_port_fields [simp]:
  "ad_tags (swap_port k d) = ad_tags d" "this_tag_id (swap_port k d) = this_tag_id d" "avail_tag (swap_port k d) = avail_tag d"
  "next_avail_tag (swap_port k d) = next_avail_tag d" "ad_strs (swap_port k d) = ad_strs d" "ad_fx (swap_port k d) = ad_fx d"
  by (simp_all add: swap_port_def)

lemma swap_port_order: "d\<lparr>ad_next := n, ad_ports := P\<rparr> = d\<lparr>ad_ports := P, ad_next := n\<rparr>"
  by (rule adm.equality) simp_all

lemma renew_kf_swap:
  assumes "set_option (sc_kf e) \<subseteq> ad_ports d"
  shows "renew_kf e d = Some (e\<lparr>sc_kf := Some (ad_next d)\<rparr>, swap_port (sc_kf e) d)"
  using assms
  by (cases "sc_kf e") (simp_all add: renew_kf_def free_ptr_def vpf_def vpn_def ad_alloc_def swap_port_def Let_def)

text \<open>What an entry of a well-formed stream is like, and the ports after it is given a fresh one.\<close>

lemma tag_entry_in:
  assumes "tag_shape t" "\<not> outside p"
  shows "tag_entry t p = Some (tag_effect_chain t ! nat p)" "nat p < length (tag_effect_chain t)"
    "length (sc_arg (tag_effect_chain t ! nat p)) = SAMPLE_MAX_PARAMETERS"
proof -
  show "tag_entry t p = Some (tag_effect_chain t ! nat p)" "nat p < length (tag_effect_chain t)"
    using assms by (simp_all add: tag_entry_def tag_shape_def outside_def nat_less_iff)
  then show "length (sc_arg (tag_effect_chain t ! nat p)) = SAMPLE_MAX_PARAMETERS" using assms(1) by (simp add: tag_shape_def)
qed

lemma put_tag_entry_shape:
  assumes "tag_shape t" "length (sc_arg e) = SAMPLE_MAX_PARAMETERS"
  shows "tag_shape (put_tag_entry p e t)"
  using assms set_update_subset_insert [of "tag_effect_chain t" "nat p" e] by (auto simp: tag_shape_def put_tag_entry_def)

lemma put_tag_entry_fields [simp]:
  "tag_id (put_tag_entry p e t) = tag_id t" "tag_strs (put_tag_entry p e t) = tag_strs t"
  "tag_source_name (put_tag_entry p e t) = tag_source_name t"
  "tag_effect_chain (put_tag_entry p e t) = (tag_effect_chain t)[nat p := e]"
  by (simp_all add: put_tag_entry_def tag_strs_def)

lemma put_tag_entry_ports:
  assumes "nat p < length (tag_effect_chain t)" "sc_kf e = sc_kf (tag_effect_chain t ! nat p)"
  shows "tag_ports (put_tag_entry p e t) = tag_ports t"
proof -
  have "map sc_kf ((tag_effect_chain t)[nat p := e]) = map sc_kf (tag_effect_chain t)"
    using assms by (metis list_update_id map_update nth_map)
  then show ?thesis by (simp add: tag_ports_def put_tag_entry_def)
qed

lemma entry_port_owned:
  assumes "stream_wf d t" "nat p < length (tag_effect_chain t)"
  shows "set_option (sc_kf (tag_effect_chain t ! nat p)) \<subseteq> ad_ports d"
proof -
  have "set_option (sc_kf (tag_effect_chain t ! nat p)) \<subseteq> set (tag_ports t)"
    using assms(2) by (auto simp: tag_ports_def set_somes intro!: image_eqI [of _ _ "tag_effect_chain t ! nat p"])
  then show ?thesis using stream_wfD(3) [OF assms(1)] by blast
qed

lemma wf_swap_put:
  assumes "streams_wf d" "ad_tags d k = Some t" "nat p < length (tag_effect_chain t)"
    "length (sc_arg e) = SAMPLE_MAX_PARAMETERS" "sc_kf e = Some (ad_next d)"
  shows "streams_wf (modify_tag (swap_port (sc_kf (tag_effect_chain t ! nat p)) d) k (put_tag_entry p e))"
proof -
  note wf = streams_wfD [OF assms(1)]
  let ?old = "sc_kf (tag_effect_chain t ! nat p)"
  let ?d = "swap_port ?old d"
  let ?u = "put_tag_entry p e t"
  have ok: "tags_ok ?d" by (rule tags_ok_cong [OF wf(1)]) simp_all
  have at: "modify_tag ?d k (put_tag_entry p e) = ?d\<lparr>ad_tags := (ad_tags d)(k \<mapsto> ?u)\<rparr>"
    using modify_tag_at [OF ok, of k t] assms(2) by simp
  note w = stream_wfD [OF wf(4) [OF assms(2)]]
  have nx: "ad_next d \<notin> ad_ports d" using wf(3) by (auto simp: fresh_next_def)
  let ?ks = "map sc_kf (tag_effect_chain t)"
  let ?rest = "somes [tag_dict t, tag_viewport t]"
  have ks: "map sc_kf (tag_effect_chain ?u) = ?ks[nat p := Some (ad_next d)]" using assms(5) by (simp add: map_update)
  have len: "nat p < length ?ks" using assms(3) by simp
  have dist: "distinct (somes ?ks)" "ad_next d \<notin> set (somes ?ks)" "ad_next d \<notin> set ?rest" "set (somes ?ks) \<inter> set ?rest = {}"
    "distinct ?rest"
    using w(2,3) nx by (auto simp: tag_ports_def)
  note up = somes_update [OF dist(1,2) len]
  have set_u: "set (tag_ports ?u) = insert (ad_next d) (set (tag_ports t) - set_option ?old)"
    and dist_u: "distinct (tag_ports ?u)"
  proof -
    have r: "somes [tag_dict ?u, tag_viewport ?u] = ?rest" by (simp add: put_tag_entry_def)
    have "set_option ?old \<subseteq> set (somes ?ks)" using assms(3) by (auto simp: set_somes intro!: image_eqI [of _ _ "tag_effect_chain t ! nat p"])
    then have o: "set_option ?old \<inter> set ?rest = {}" using dist(4) by blast
    show "set (tag_ports ?u) = insert (ad_next d) (set (tag_ports t) - set_option ?old)"
      unfolding tag_ports_def ks r set_append up(2) using o assms(3) by auto
    show "distinct (tag_ports ?u)"
      unfolding tag_ports_def ks r distinct_append up(2) using up(1) dist(3-5) by auto
  qed
  have live: "set (tag_ports v) \<subseteq> ad_ports ?d \<and> set (tag_ports v) \<inter> set (tag_ports ?u) = {}" if "ad_tags d j = Some v" "j \<noteq> k" for j v
  proof -
    have "set (tag_ports v) \<inter> set (tag_ports t) = {}" by (rule wf(5) [OF that(1) assms(2) that(2)])
    moreover have "set_option ?old \<subseteq> set (tag_ports t)"
      using assms(3) by (auto simp: tag_ports_def set_somes intro!: image_eqI [of _ _ "tag_effect_chain t ! nat p"])
    moreover have "set (tag_ports v) \<subseteq> ad_ports d" by (rule stream_wfD(3) [OF wf(4) [OF that(1)]])
    ultimately show ?thesis unfolding set_u using nx by (auto simp: swap_port_def)
  qed
  have "tags_ok (modify_tag ?d k (put_tag_entry p e))" by (rule tags_ok_modify [OF ok]) simp
  moreover have "fresh_next (modify_tag ?d k (put_tag_entry p e))"
    using wf(3) unfolding at by (auto simp: fresh_next_def swap_port_def less_Suc_eq)
  moreover have "stream_wf (modify_tag ?d k (put_tag_entry p e)) v" if "ad_tags (modify_tag ?d k (put_tag_entry p e)) j = Some v" for j v
  proof (cases "j = k")
    case True
    then have v: "v = ?u" using that unfolding at by simp
    have "set (tag_ports ?u) \<subseteq> ad_ports ?d" unfolding set_u using w(3) by (auto simp: swap_port_def)
    then show ?thesis
      unfolding v at using dist_u w(1,4-6) put_tag_entry_shape [OF w(1) assms(4)] by (simp add: stream_wf_def)
  next
    case False
    then have v: "ad_tags d j = Some v" using that unfolding at by simp
    show ?thesis using wf(4) [OF v] live [OF v False] unfolding at by (simp add: stream_wf_def)
  qed
  moreover have "set (tag_ports v) \<inter> set (tag_ports v') = {} \<and> set (tag_strs v) \<inter> set (tag_strs v') = {}"
    if vv: "ad_tags (modify_tag ?d k (put_tag_entry p e)) i = Some v" "ad_tags (modify_tag ?d k (put_tag_entry p e)) j = Some v'" "i \<noteq> j"
    for i j v v'
  proof -
    consider "i = k" "v = ?u" "ad_tags d j = Some v'" "j \<noteq> k" | "j = k" "v' = ?u" "ad_tags d i = Some v" "i \<noteq> k"
      | "ad_tags d i = Some v" "ad_tags d j = Some v'"
      using vv unfolding at by (cases "i = k"; cases "j = k") simp_all
    then show ?thesis
    proof cases
      case 1
      show ?thesis using live [OF 1(3,4)] wf(6) [OF assms(2) 1(3)] 1(2,4) by (simp add: Int_commute)
    next
      case 2
      show ?thesis using live [OF 2(3,4)] wf(6) [OF 2(3) assms(2) 2(4)] 2(2) by simp
    next
      case 3
      show ?thesis using wf(5,6) [OF 3 vv(3)] by blast
    qed
  qed
  ultimately show ?thesis using wf(2) unfolding streams_wf_def by simp
qed

subsection \<open>Quiet steps\<close>

lemma fx_deactivate_quiet:
  assumes "fx_table_ok (ad_fx d)" "fx_on d e"
  obtains d' where "fx_deactivate e d = Some (e\<lparr>sc_fx_instance := None\<rparr>, d')" "quiet d d'"
  using fx_deactivate_side [OF assms] that by (auto simp: quiet_def)

lemma vj_tag_disable_quiet: "quiet d (vj_tag_disable d k)"
  by (auto simp: quiet_def vj_tag_disable_def vj_tag_get_def core_def split: option.splits if_splits)

lemma release_quiet [simp]: "quiet d (release_stream e d)" "quiet d (release_other k e d)"
  by (simp_all add: release_stream_def release_other_def vj_tag_disable_quiet)

lemma put_tag_entry_core: "core (put_tag_entry p e t) = put_tag_entry p e (core t)"
  by (simp add: put_tag_entry_def core_def)

lemma modify_tag_quiet:
  assumes "quiet d d'" "\<And>t. core (f t) = f (core t)"
  shows "quiet (modify_tag d k f) (modify_tag d' k f)"
proof -
  have m: "map_option core (ad_tags d' j) = map_option core (ad_tags d j)" for j using assms(1) by (simp add: quiet_def)
  have id: "this_tag_id d' = this_tag_id d" using assms(1) by (simp add: quiet_def)
  have "map_option core (ad_tags (modify_tag d' k f) j) = map_option core (ad_tags (modify_tag d k f) j)" for j
  proof (cases "k \<le> 0 \<or> k > this_tag_id d")
    case True
    with m id show ?thesis by (auto simp: modify_tag_def vj_tag_get_def)
  next
    case False
    have "map_option core (map_option f (ad_tags d' k)) = map_option core (map_option f (ad_tags d k))"
      using m [of k] by (cases "ad_tags d' k"; cases "ad_tags d k") (simp_all add: assms(2))
    with False m id show ?thesis
      by (cases "ad_tags d' k"; cases "ad_tags d k") (use m [of k] in \<open>auto simp: modify_tag_def vj_tag_get_def\<close>)
  qed
  then show ?thesis using assms(1) by (auto simp: quiet_def modify_tag_def split: option.splits)
qed

lemma wf_put_same:
  assumes "streams_wf d" "ad_tags d k = Some t" "quiet d d'" "nat p < length (tag_effect_chain t)"
    "length (sc_arg e) = SAMPLE_MAX_PARAMETERS" "sc_kf e = sc_kf (tag_effect_chain t ! nat p)"
  shows "streams_wf (modify_tag d' k (put_tag_entry p e))"
proof -
  have wf: "streams_wf d'" by (rule wf_quiet [OF assms(1,3)])
  obtain t' where t': "ad_tags d' k = Some t'" "core t = core t'" by (rule quiet_get' [OF assms(3,2)])
  have ch: "tag_effect_chain t' = tag_effect_chain t" using core_keeps(2) [OF t'(2)] by simp
  have "tag_shape t'" using stream_wfD(1) [OF streams_wfD(4) [OF wf t'(1)]] .
  then show ?thesis
    using put_tag_entry_shape [OF _ assms(5)] put_tag_entry_ports [of p t' e] assms(4,6) ch
    by (intro wf_modify [OF wf t'(1)]) simp_all
qed

lemma swap_port_quiet: "quiet d d' \<Longrightarrow> quiet (swap_port k d) (swap_port k d')"
  by (simp add: quiet_def swap_port_def)

lemma wf_put_swap:
  assumes "streams_wf d" "ad_tags d k = Some t" "quiet d d1" "quiet (swap_port (sc_kf (tag_effect_chain t ! nat p)) d1) d2"
    "nat p < length (tag_effect_chain t)" "length (sc_arg e) = SAMPLE_MAX_PARAMETERS" "sc_kf e = Some (ad_next d1)"
  shows "streams_wf (modify_tag d2 k (put_tag_entry p e))"
proof -
  have q: "quiet (swap_port (sc_kf (tag_effect_chain t ! nat p)) d) d2"
    by (rule quiet_trans [OF swap_port_quiet [OF assms(3)] assms(4)])
  have "sc_kf e = Some (ad_next d)" using assms(3,7) by (simp add: quiet_def)
  then have "streams_wf (modify_tag (swap_port (sc_kf (tag_effect_chain t ! nat p)) d) k (put_tag_entry p e))"
    by (rule wf_swap_put [OF assms(1,2,5,6)])
  then show ?thesis by (rule wf_quiet) (rule modify_tag_quiet [OF q], rule put_tag_entry_core)
qed

subsection \<open>Each operation is defined and keeps the ownership\<close>

lemma write_tag_entry_wf:
  assumes "streams_wf d" "\<not> outside p" "\<And>e. sc_kf (f e) = sc_kf e" "\<And>e. length (sc_arg (f e)) = length (sc_arg e)"
  obtains x d' where "write_tag_entry d k p dflt r f = Some (x, d')" "streams_wf d'"
proof (cases "ad_tags d k")
  case None
  then show ?thesis
    using that assms(1) vj_tag_get_tags [OF streams_wfD(1) [OF assms(1)]] by (simp add: write_tag_entry_def read_tag_def)
next
  case (Some t)
  note e = tag_entry_in [OF stream_wfD(1) [OF streams_wfD(4) [OF assms(1) Some]] assms(2)]
  show ?thesis
    by (rule that [of r "modify_tag d k (put_tag_entry p (f (tag_effect_chain t ! nat p)))"])
      (use Some e assms(3,4) vj_tag_get_tags [OF streams_wfD(1) [OF assms(1)]] wf_put_same [OF assms(1) Some quiet_refl e(2)] in
        \<open>simp_all add: write_tag_entry_def read_tag_def\<close>)
qed

lemma chain_add_activate_kf:
  "chain_add_activate fe x e d = Some (ok, e', d') \<Longrightarrow> sc_kf e' = sc_kf e"
  by (auto simp: chain_add_activate_def Let_def bind_eq_Some_conv split: if_splits)

text \<open>The first step of setting an effect, and the second.\<close>

lemma tag_release_effect_quiet:
  assumes "fx_table_ok (ad_fx d)"
  obtains e' d' where "tag_release_effect k p x t e d = Some (e', d')" "quiet d d'" "sc_kf e' = sc_kf e" "sc_arg e' = sc_arg e"
proof -
  let ?off = "e\<lparr>sc_fx_instance := None\<rparr>"
  have "tag_release_effect k p x t e d = Some (e, d) \<or> tag_release_effect k p x t e d = Some (e, release_other k e d) \<or>
    fx_on d e \<and> tag_release_effect k p x t e d = do { (e, d) \<leftarrow> fx_deactivate e d; Some (e, release_other k e d) }"
    by (simp add: tag_release_effect_def Let_def)
  then consider "tag_release_effect k p x t e d = Some (e, d)" | "tag_release_effect k p x t e d = Some (e, release_other k e d)"
    | "fx_on d e" "tag_release_effect k p x t e d = do { (e, d) \<leftarrow> fx_deactivate e d; Some (e, release_other k e d) }"
    by blast
  then show ?thesis
  proof cases
    case 3
    obtain d1 where d1: "fx_deactivate e d = Some (?off, d1)" "quiet d d1" by (rule fx_deactivate_quiet [OF assms 3(1)])
    show ?thesis
      by (rule that [of ?off "release_other k ?off d1"]) (use 3(2) d1 quiet_trans [OF d1(2)] in simp_all)
  qed (use that in simp_all)
qed

lemma chain_add_activate_quiet:
  assumes "fx_table_ok (ad_fx d)" "vj_effect_is_valid (ad_fx d) x = 1" "length (sc_arg e) = SAMPLE_MAX_PARAMETERS"
  obtains ok e' d' where "chain_add_activate fe x e d = Some (ok, e', d')" "quiet d d'" "sc_kf e' = sc_kf e"
    "length (sc_arg e') = SAMPLE_MAX_PARAMETERS"
proof -
  obtain ok e' T where a: "chain_add_activate fe x e d = Some (ok, e', d\<lparr>ad_fx := T\<rparr>)" "fx_table_ok T"
      "vj_effects T = vj_effects (ad_fx d)" "n_ext_plugs T = n_ext_plugs (ad_fx d)"
      "ok \<longrightarrow> e' \<in> range (\<lambda>q. e\<lparr>sc_fx_instance := q\<rparr>)" "\<not> ok \<longrightarrow> sc_arg e' = replicate SAMPLE_MAX_PARAMETERS 0"
    using chain_add_activate_side [OF assms(1,2), of fe e] by metis
  have "length (sc_arg e') = SAMPLE_MAX_PARAMETERS" using a(5,6) assms(3) by (cases ok) auto
  then show ?thesis using that [OF a(1)] chain_add_activate_kf [OF a(1)] a(2-4) by (simp add: quiet_def)
qed

lemma quiet_fx:
  assumes "quiet d d'" "fx_table_ok (ad_fx d)"
  shows "fx_table_ok (ad_fx d')" "fx_known (ad_fx d') x = fx_known (ad_fx d) x" "ad_ports d' = ad_ports d" "ad_next d' = ad_next d"
  using assms by (simp_all add: quiet_def fx_known_def vj_effect_is_valid_def)

lemma tag_setup_effect_cases:
  assumes "fx_table_ok (ad_fx d)" "fx_known (ad_fx d) x" "length (sc_arg e) = SAMPLE_MAX_PARAMETERS" "set_option (sc_kf e) \<subseteq> ad_ports d"
  obtains (kept) "tag_setup_effect x e d = Some (e, d)"
  | (renewed) e' where "tag_setup_effect x e d = Some (e', swap_port (sc_kf e) d)" "sc_kf e' = Some (ad_next d)"
      "length (sc_arg e') = SAMPLE_MAX_PARAMETERS"
proof (cases "sc_effect_id e = x")
  case True
  then show ?thesis using kept by (simp add: tag_setup_effect_def)
next
  case False
  obtain v where v: "fx_entry (ad_fx d) (vj_effect_real_to_sequence x) = Some v" "0 \<le> x" "0 < vj_effect_real_to_sequence x"
    "0 \<le> ve_num_params v" "ve_num_params v \<le> int SAMPLE_MAX_PARAMETERS" "ve_num_params v \<le> int (length (ve_defaults v))"
    using fx_known_entry [OF assms(1,2)] by blast
  let ?n = "nat (ve_num_params v)"
  have n: "vj_effect_get_num_params (ad_fx d) x = Some (ve_num_params v)"
    using v(1-3) by (simp add: vj_effect_get_num_params_def Let_def)
  have df: "chain_defaults (ad_fx d) x ?n (sc_arg e) = Some (take ?n (ve_defaults v) @ drop ?n (sc_arg e))"
    by (rule chain_defaults_spec [OF v(1,3)]) (use v(4-6) assms(3) in auto)
  let ?e1 = "e\<lparr>sc_arg := take ?n (ve_defaults v) @ drop ?n (sc_arg e), sc_e_flag := 1, sc_kf_status := 0, sc_kf_type := 0\<rparr>"
  have "renew_kf ?e1 d = Some (?e1\<lparr>sc_kf := Some (ad_next d)\<rparr>, swap_port (sc_kf e) d)"
    using renew_kf_swap [of ?e1 d] assms(4) by simp
  then show ?thesis
    using False n df v(4-6) assms(3)
    by (intro renewed [of "?e1\<lparr>sc_kf := Some (ad_next d), sc_effect_id := x\<rparr>"])
      (simp_all add: tag_setup_effect_def)
qed

lemma tag_mix_source_defined:
  assumes "fx_table_ok (ad_fx d)" "fx_known (ad_fx d) x"
  obtains e' where "tag_mix_source k x e d = Some e'" "sc_kf e' = sc_kf e" "sc_arg e' = sc_arg e"
proof -
  obtain v where v: "fx_entry (ad_fx d) (vj_effect_real_to_sequence x) = Some v" "0 \<le> x" "0 < vj_effect_real_to_sequence x"
    using fx_known_entry [OF assms] by blast
  have "vj_effect_get_extra_frame (ad_fx d) x = Some (ve_extra_frame v)"
    using v by (simp add: vj_effect_get_extra_frame_def Let_def)
  then show ?thesis
    by (intro that [of "if ve_extra_frame v \<noteq> 0
          then let e = (if sc_source_type e < 0 then e\<lparr>sc_source_type := 1\<rparr> else e)
               in if sc_channel e \<le> 0 then e\<lparr>sc_channel := k\<rparr> else e
          else e"]) (simp_all add: tag_mix_source_def Let_def)
qed

lemma set_effect_wf:
  assumes "streams_wf d" "fx_known (ad_fx d) x"
  obtains r d' where "vj_tag_set_effect fe d k p x = Some (r, d')" "streams_wf d'"
proof (cases "ad_tags d k = None \<or> outside p")
  case True
  then show ?thesis
    using that [of 0 d] assms(1) vj_tag_get_tags [OF streams_wfD(1) [OF assms(1)]]
    by (auto simp: vj_tag_set_effect_def split: option.split)
next
  case False
  then obtain t where t: "ad_tags d k = Some t" and p: "\<not> outside p" by auto
  note wf = streams_wfD [OF assms(1)]
  have get: "vj_tag_get d k = Some t" using t vj_tag_get_tags [OF wf(1)] by simp
  let ?e = "tag_effect_chain t ! nat p"
  note e = tag_entry_in [OF stream_wfD(1) [OF wf(4) [OF t]] p]
  obtain e1 d1 where 1: "tag_release_effect k p x t ?e d = Some (e1, d1)" "quiet d d1" "sc_kf e1 = sc_kf ?e" "sc_arg e1 = sc_arg ?e"
    by (rule tag_release_effect_quiet [OF wf(2)])
  note f1 = quiet_fx [OF 1(2) wf(2)]
  have "fx_known (ad_fx d1) x" using f1(2) assms(2) by simp
  then have valid: "vj_effect_is_valid (ad_fx d1) x = 1" by (simp add: fx_known_def)
  have len1: "length (sc_arg e1) = SAMPLE_MAX_PARAMETERS" using 1(4) e(3) by simp
  obtain ok e2 d2 where 2: "chain_add_activate fe x e1 d1 = Some (ok, e2, d2)" "quiet d1 d2" "sc_kf e2 = sc_kf e1"
      "length (sc_arg e2) = SAMPLE_MAX_PARAMETERS"
    by (rule chain_add_activate_quiet [OF f1(1) valid len1])
  have q: "quiet d d2" by (rule quiet_trans [OF 1(2) 2(2)])
  note f2 = quiet_fx [OF q wf(2)]
  have kf: "sc_kf e2 = sc_kf ?e" using 1(3) 2(3) by simp
  show ?thesis
  proof (cases ok)
    case False
    have "streams_wf (modify_tag d2 k (put_tag_entry p e2))" by (rule wf_put_same [OF assms(1) t q e(2) 2(4) kf])
    then show ?thesis using that get p e(1) 1(1) 2(1) False by (simp add: vj_tag_set_effect_def)
  next
    case True
    have known: "fx_known (ad_fx d2) x" using f2(2) assms(2) by simp
    have own: "set_option (sc_kf e2) \<subseteq> ad_ports d2"
      using entry_port_owned [OF wf(4) [OF t] e(2)] kf f2(3) by simp
    show ?thesis
    proof (rule tag_setup_effect_cases [OF f2(1) known 2(4) own])
      assume s: "tag_setup_effect x e2 d2 = Some (e2, d2)"
      obtain e4 where 4: "tag_mix_source k x e2 d2 = Some e4" "sc_kf e4 = sc_kf e2" "sc_arg e4 = sc_arg e2"
        by (rule tag_mix_source_defined [OF f2(1) known])
      have "streams_wf (modify_tag d2 k (put_tag_entry p e4))"
        by (rule wf_put_same [OF assms(1) t q e(2)]) (use 4 2(4) kf in simp_all)
      then show ?thesis using that get p e(1) 1(1) 2(1) True s 4(1) by (simp add: vj_tag_set_effect_def)
    next
      fix e3
      assume s: "tag_setup_effect x e2 d2 = Some (e3, swap_port (sc_kf e2) d2)" "sc_kf e3 = Some (ad_next d2)"
        "length (sc_arg e3) = SAMPLE_MAX_PARAMETERS"
      let ?d3 = "swap_port (sc_kf e2) d2"
      have f3: "fx_table_ok (ad_fx ?d3)" "fx_known (ad_fx ?d3) x" using f2(1) known by simp_all
      obtain e4 where 4: "tag_mix_source k x e3 ?d3 = Some e4" "sc_kf e4 = sc_kf e3" "sc_arg e4 = sc_arg e3"
        by (rule tag_mix_source_defined [OF f3])
      have "streams_wf (modify_tag ?d3 k (put_tag_entry p e4))"
        by (rule wf_put_swap [OF assms(1) t q _ e(2)]) (use 4 s(2,3) kf in simp_all)
      then show ?thesis using that get p e(1) 1(1) 2(1) True s(1) 4(1) by (simp add: vj_tag_set_effect_def)
    qed
  qed
qed

lemma chain_remove_wf:
  assumes "streams_wf d" "\<not> outside p"
  obtains r d' where "vj_tag_chain_remove d k p = Some (r, d')" "streams_wf d'" "ad_tags d k \<noteq> None \<longrightarrow> r = 1"
    "\<And>j. ad_tags d' j = None \<longleftrightarrow> ad_tags d j = None"
proof (cases "ad_tags d k")
  case None
  then show ?thesis
    using that [of "- 1" d] assms(1) vj_tag_get_tags [OF streams_wfD(1) [OF assms(1)]]
    by (simp add: vj_tag_chain_remove_def)
next
  case (Some t)
  note wf = streams_wfD [OF assms(1)]
  have get: "vj_tag_get d k = Some t" using Some vj_tag_get_tags [OF wf(1)] by simp
  let ?e = "tag_effect_chain t ! nat p"
  note e = tag_entry_in [OF stream_wfD(1) [OF wf(4) [OF Some]] assms(2)]
  let ?c = "sc_effect_id ?e \<noteq> - 1 \<and> fx_on d ?e \<and> vj_tag_chain_can_delete d t p (sc_effect_id ?e)"
  obtain e1 d1 where 1: "(if ?c then fx_deactivate ?e d else Some (?e, d)) = Some (e1, d1)" "quiet d d1" "sc_kf e1 = sc_kf ?e"
  proof (cases ?c)
    case True
    then have "fx_on d ?e" by simp
    from fx_deactivate_quiet [OF wf(2) this] True that show ?thesis by (metis sample_eff_chain.select_convs(11) sample_eff_chain.surjective sample_eff_chain.update_convs(14))
  next
    case False
    then show ?thesis using that [of ?e d] by (simp only: if_False quiet_refl simp_thms)
  qed
  let ?e2 = "e1\<lparr>sc_effect_id := - 1, sc_e_flag := 0\<rparr>"
  let ?e3 = "?e2\<lparr>sc_kf := Some (ad_next d1)\<rparr>"
  note f1 = quiet_fx [OF 1(2) wf(2)]
  have rn: "renew_kf ?e2 d1 = Some (?e3, swap_port (sc_kf ?e) d1)"
    using renew_kf_swap [of ?e2 d1] entry_port_owned [OF wf(4) [OF Some] e(2)] 1(3) f1(3) by simp
  let ?d2 = "release_other k ?e3 (swap_port (sc_kf ?e) d1)"
  let ?e4 = "?e3\<lparr>sc_source_type := 1, sc_channel := k, sc_arg := replicate SAMPLE_MAX_PARAMETERS 0\<rparr>"
  have run: "vj_tag_chain_remove d k p = Some (1, modify_tag ?d2 k (put_tag_entry p ?e4))"
    using get e(1) rn by (simp add: vj_tag_chain_remove_def 1(1) del: if_split)
  have wf': "streams_wf (modify_tag ?d2 k (put_tag_entry p ?e4))"
    by (rule wf_put_swap [OF assms(1) Some 1(2) release_quiet(2) e(2)]) simp_all
  have q: "quiet (swap_port (sc_kf ?e) d1) ?d2" by (rule release_quiet)
  have "ad_tags (modify_tag ?d2 k f) j = None \<longleftrightarrow> ad_tags d j = None" for f j
    using quiet_None [OF q, of j] quiet_None [OF 1(2), of j] Some
    by (auto simp: modify_tag_def vj_tag_get_def split: option.split)
  with run wf' show ?thesis using that by blast
qed

lemma entry_op_wf:
  assumes "streams_wf d" "\<not> outside p" "ad_tags d k = Some t"
  shows "vj_tag_get d k = Some t" "tag_entry t p = Some (tag_effect_chain t ! nat p)" "nat p < length (tag_effect_chain t)"
    "length (sc_arg (tag_effect_chain t ! nat p)) = SAMPLE_MAX_PARAMETERS"
    "set_option (sc_kf (tag_effect_chain t ! nat p)) \<subseteq> ad_ports d"
proof -
  note wf = streams_wfD [OF assms(1)]
  note e = tag_entry_in [OF stream_wfD(1) [OF wf(4) [OF assms(3)]] assms(2)]
  show "vj_tag_get d k = Some t" "tag_entry t p = Some (tag_effect_chain t ! nat p)" "nat p < length (tag_effect_chain t)"
    "length (sc_arg (tag_effect_chain t ! nat p)) = SAMPLE_MAX_PARAMETERS"
    "set_option (sc_kf (tag_effect_chain t ! nat p)) \<subseteq> ad_ports d"
    using e assms(3) vj_tag_get_tags [OF wf(1)] entry_port_owned [OF wf(4) [OF assms(3)] e(2)] by simp_all
qed

lemma no_stream: "streams_wf d \<Longrightarrow> ad_tags d k = None \<Longrightarrow> vj_tag_get d k = None"
  using vj_tag_get_tags [OF streams_wfD(1)] by simp

lemma set_arg_wf:
  assumes "streams_wf d" "argnr < int SAMPLE_MAX_PARAMETERS"
  obtains r d' where "vj_tag_set_effect_arg d k p argnr v = Some (r, d')" "streams_wf d'"
proof (cases "ad_tags d k = None \<or> bad_tag_arg p argnr")
  case True
  show ?thesis
    by (rule that [of "- 1" d]) (use True assms(1) no_stream in \<open>auto simp: vj_tag_set_effect_arg_def read_tag_def split: option.split\<close>)
next
  case False
  then obtain t where t: "ad_tags d k = Some t" by auto
  have a: "\<not> outside p" "0 \<le> argnr" using False by (auto simp: bad_tag_arg_def)
  note e = entry_op_wf [OF assms(1) a(1) t]
  let ?e = "tag_effect_chain t ! nat p"
  let ?e' = "?e\<lparr>sc_arg := (sc_arg ?e)[nat argnr := v]\<rparr>"
  have "streams_wf (modify_tag d k (put_tag_entry p ?e'))"
    by (rule wf_put_same [OF assms(1) t quiet_refl e(3)]) (use e(4) in simp_all)
  then show ?thesis
    using False a assms(2) e
    by (intro that [of 1 "modify_tag d k (put_tag_entry p ?e')"]) (simp_all add: vj_tag_set_effect_arg_def read_tag_def)
qed

lemma set_source_wf:
  assumes "streams_wf d"
  obtains r d' where "vj_tag_set_chain_source d k p v = Some (r, d')" "streams_wf d'"
proof (cases "ad_tags d k = None \<or> outside p")
  case True
  show ?thesis
    by (rule that [of "- 1" d]) (use True assms no_stream in \<open>auto simp: vj_tag_set_chain_source_def read_tag_def split: option.split\<close>)
next
  case False
  then obtain t where t: "ad_tags d k = Some t" and p: "\<not> outside p" by auto
  note e = entry_op_wf [OF assms p t]
  let ?e = "tag_effect_chain t ! nat p"
  have "streams_wf (modify_tag (release_other k ?e d) k (put_tag_entry p (?e\<lparr>sc_source_type := v\<rparr>)))"
    by (rule wf_put_same [OF assms t release_quiet(2) e(3)]) (use e(4) in simp_all)
  then show ?thesis using that p e(1,2) by (simp add: vj_tag_set_chain_source_def read_tag_def)
qed

lemma set_channel_wf:
  assumes "streams_wf d"
  obtains r d' where "vj_tag_set_chain_channel d k p v = Some (r, d')" "streams_wf d'"
proof (cases "ad_tags d k = None \<or> outside p")
  case True
  show ?thesis
    by (rule that [of "- 1" d]) (use True assms no_stream in \<open>auto simp: vj_tag_set_chain_channel_def read_tag_def split: option.split\<close>)
next
  case False
  then obtain t where t: "ad_tags d k = Some t" and p: "\<not> outside p" by auto
  note e = entry_op_wf [OF assms p t]
  let ?e = "tag_effect_chain t ! nat p"
  have "streams_wf (modify_tag (release_other k ?e d) k (put_tag_entry p (?e\<lparr>sc_channel := v\<rparr>)))"
    by (rule wf_put_same [OF assms t release_quiet(2) e(3)]) (use e(4) in simp_all)
  then show ?thesis using that p e(1,2) by (simp add: vj_tag_set_chain_channel_def read_tag_def)
qed

lemma reset_kf_wf:
  assumes "streams_wf d" "\<not> outside p"
  obtains r d' where "vj_tag_chain_reset_kf d k p = Some (r, d')" "streams_wf d'"
proof (cases "ad_tags d k")
  case None
  then show ?thesis using that [of "- 1" d] assms(1) no_stream by (simp add: vj_tag_chain_reset_kf_def read_tag_def)
next
  case (Some t)
  note e = entry_op_wf [OF assms Some]
  let ?e = "tag_effect_chain t ! nat p"
  let ?e' = "?e\<lparr>sc_kf_status := 0, sc_kf_type := 0, sc_kf := Some (ad_next d)\<rparr>"
  have "streams_wf (modify_tag (swap_port (sc_kf ?e) d) k (put_tag_entry p ?e'))"
    by (rule wf_put_swap [OF assms(1) Some quiet_refl quiet_refl e(3)]) (use e(4) in simp_all)
  moreover have "vj_tag_chain_reset_kf d k p = Some (1, modify_tag (swap_port (sc_kf ?e) d) k (put_tag_entry p ?e'))"
    using e(1,2,5)
    by (cases "sc_kf ?e")
      (simp_all add: vj_tag_chain_reset_kf_def read_tag_def free_ptr_def vpf_def vpn_def ad_alloc_def swap_port_def
        swap_port_order Let_def)
  ultimately show ?thesis using that by blast
qed

lemma clear_chain_wf:
  assumes "streams_wf d"
  obtains r d' where "vj_tag_clear_chain d k = Some (r, d')" "streams_wf d'"
proof -
  have "\<exists>r d'. clear_chain_loop k is d = Some (r, d') \<and> streams_wf d'" if "\<forall>i \<in> set is. i < SAMPLE_MAX_EFFECTS" "streams_wf d" for "is" d
    using that
  proof (induction "is" arbitrary: d)
    case (Cons i "is")
    have "\<not> outside (int i)" using Cons.prems(1) by (simp add: outside_def)
    then obtain r d1 where "vj_tag_chain_remove d k (int i) = Some (r, d1)" "streams_wf d1"
      using chain_remove_wf [OF Cons.prems(2)] by metis
    with Cons show ?case by simp
  qed simp
  from this [of "[0..<SAMPLE_MAX_EFFECTS]", OF _ assms] that show ?thesis by (auto simp: vj_tag_clear_chain_def)
qed

text \<open>Changes that leave the owned blocks of every stream alone.\<close>

lemma wf_modify_any:
  assumes "streams_wf d" "\<And>t. tag_id (f t) = tag_id t" "\<And>t. tag_shape t \<Longrightarrow> tag_shape (f t)"
    "\<And>t. tag_ports (f t) = tag_ports t" "\<And>t. tag_strs (f t) = tag_strs t" "\<And>t. tag_source_name (f t) = tag_source_name t"
  shows "streams_wf (modify_tag d k f)"
proof (cases "ad_tags d k")
  case None
  then show ?thesis using assms(1) no_stream by (simp add: modify_tag_def)
next
  case (Some t)
  show ?thesis
    by (rule wf_modify [OF assms(1) Some]) (use assms stream_wfD(1) [OF streams_wfD(4) [OF assms(1) Some]] in simp_all)
qed

lemma verify_delete_wf:
  assumes "streams_wf d"
  shows "streams_wf (snd (vj_tag_verify_delete d k type))"
proof -
  let ?f = "\<lambda>i t. set_tag_chain (map (fall_back_entry i k type) (tag_effect_chain t)) t"
  have kf: "sc_kf \<circ> fall_back_entry i k type = sc_kf" for i
    by (auto simp: fall_back_entry_def)
  have "streams_wf (fold (\<lambda>i d. modify_tag d i (?f i)) is d)" if "streams_wf d" for "is" d
    using that
  proof (induction "is" arbitrary: d)
    case (Cons i "is")
    have "streams_wf (modify_tag d i (?f i))"
      using kf by (intro wf_modify_any [OF Cons.prems])
        (auto simp: set_tag_chain_def tag_shape_def tag_ports_def tag_strs_def fall_back_entry_def)
    then show ?case using Cons.IH by simp
  qed simp
  then show ?thesis using assms by (simp add: vj_tag_verify_delete_def)
qed

lemma set_active_quiet:
  assumes "streams_wf d"
  obtains r d' where "vj_tag_set_active env d k v = Some (r, d')" "quiet d d'"
proof -
  have q: "quiet d (modify_tag d k (\<lambda>t. t\<lparr>tag_active := n\<rparr>))" for n
    by (auto simp: quiet_def modify_tag_def vj_tag_get_def core_def split: option.split)
  show ?thesis
  proof (cases "ad_tags d k")
    case None
    then show ?thesis using that [of "- 1" d] assms no_stream by (simp add: vj_tag_set_active_def)
  next
    case (Some t)
    have get: "vj_tag_get d k = Some t" using Some vj_tag_get_tags [OF streams_wfD(1) [OF assms]] by simp
    have "source_name_of d t \<noteq> None"
      using stream_wfD(5,6) [OF streams_wfD(4) [OF assms Some]] by (auto simp: source_name_of_def tag_strs_def)
    then obtain nm where nm: "source_name_of d t = Some nm" by auto
    have "\<exists>r d'. vj_tag_enable env d k = Some (r, d') \<and> quiet d d'"
      using q get nm by (auto simp: vj_tag_enable_def)
    then show ?thesis
      using that get q vj_tag_disable_quiet by (fastforce simp: vj_tag_set_active_def split: if_splits)
  qed
qed

subsection \<open>Deleting a stream\<close>

text \<open>
  \<open>but_ports d d'\<close>: a step that may also exchange ports, on top of what a quiet step does.
\<close>

definition but_ports :: "adm \<Rightarrow> adm \<Rightarrow> bool" where
  "but_ports d d' \<longleftrightarrow> quiet d (d'\<lparr>ad_ports := ad_ports d, ad_next := ad_next d\<rparr>) \<and> ad_next d \<le> ad_next d' \<and>
     (fresh_next d \<longrightarrow> fresh_next d')"

lemma but_ports_quiet: "quiet d d' \<Longrightarrow> but_ports d d'"
  by (simp add: but_ports_def quiet_def fresh_next_def)

lemma but_ports_trans: "but_ports d d1 \<Longrightarrow> but_ports d1 d2 \<Longrightarrow> but_ports d d2"
  by (auto simp: but_ports_def quiet_def)

lemma but_ports_swap: "but_ports d (swap_port k d)"
  by (fastforce simp: but_ports_def quiet_def swap_port_def fresh_next_def less_Suc_eq)

lemma but_ports_fx: "but_ports d d' \<Longrightarrow> fx_table_ok (ad_fx d) \<Longrightarrow> fx_table_ok (ad_fx d')"
  by (simp add: but_ports_def quiet_def)

text \<open>Releasing the effect of one entry; its port may be exchanged for a fresh one.\<close>

lemma free_tag_entry_cases:
  assumes "fx_table_ok (ad_fx d)" "set_option (sc_kf e) \<subseteq> ad_ports d"
  obtains e' d' n' where "free_tag_entry e (d, n) = Some (e', d', n')" "but_ports d d'" "sc_arg e' = sc_arg e"
    "ad_ports d' = ad_ports d \<and> sc_kf e' = sc_kf e \<or>
     ad_ports d' = insert (ad_next d) (ad_ports d - set_option (sc_kf e)) \<and> sc_kf e' = Some (ad_next d)"
proof (cases "sc_effect_id e \<noteq> - 1 \<and> fx_on d e")
  case True
  let ?off = "e\<lparr>sc_fx_instance := None\<rparr>"
  obtain d1 where d1: "fx_deactivate e d = Some (?off, d1)" "quiet d d1" using fx_deactivate_quiet [OF assms(1)] True by metis
  have p: "ad_ports d1 = ad_ports d" "ad_next d1 = ad_next d" using d1(2) by (simp_all add: quiet_def)
  let ?e' = "?off\<lparr>sc_kf := Some (ad_next d)\<rparr>"
  let ?d2 = "swap_port (sc_kf e) d1"
  have rn: "renew_kf ?off d1 = Some (?e', ?d2)" using renew_kf_swap [of ?off d1] assms(2) p by simp
  have q: "quiet ?d2 (release_stream ?e' ?d2)" by simp
  then have pr: "ad_ports (release_stream ?e' ?d2) = ad_ports ?d2" by (simp add: quiet_def)
  show ?thesis
    by (rule that [of ?e' "release_stream ?e' ?d2" "n + 1"])
      (use True d1 rn p pr but_ports_trans [OF but_ports_quiet [OF d1(2)] but_ports_trans [OF but_ports_swap but_ports_quiet [OF q]]] in
        \<open>simp_all add: free_tag_entry_def swap_port_def\<close>)
next
  case False
  have "quiet d (release_stream e d)" by simp
  then have p: "ad_ports (release_stream e d) = ad_ports d" by (simp add: quiet_def)
  show ?thesis
    by (rule that [of e "if sc_effect_id e = - 1 then d else release_stream e d" n])
      (use False p in \<open>auto simp: free_tag_entry_def intro!: but_ports_quiet\<close>)
qed

definition owns :: "adm \<Rightarrow> sample_eff_chain list \<Rightarrow> bool" where
  "owns d es \<longleftrightarrow> distinct (somes (map sc_kf es)) \<and> set (somes (map sc_kf es)) \<subseteq> ad_ports d"

lemma somes_Cons: "somes (x # xs) = (case x of None \<Rightarrow> somes xs | Some a \<Rightarrow> a # somes xs)"
  by (cases x) simp_all

lemma free_tag_entries:
  assumes "fx_table_ok (ad_fx d)" "fresh_next d" "owns d es"
  shows "\<exists>es' d' n'. map_entries free_tag_entry es (d, n) = Some (es', d', n') \<and> but_ports d d' \<and> map sc_arg es' = map sc_arg es \<and>
    owns d' es' \<and> ad_ports d' - set (somes (map sc_kf es')) = ad_ports d - set (somes (map sc_kf es))"
  using assms
proof (induction es arbitrary: d n)
  case Nil
  then show ?case by (simp add: owns_def but_ports_quiet)
next
  case (Cons e es)
  let ?R = "set (somes (map sc_kf es))"
  have own: "set_option (sc_kf e) \<subseteq> ad_ports d" "?R \<subseteq> ad_ports d" "distinct (somes (map sc_kf es))" "set_option (sc_kf e) \<inter> ?R = {}"
    using Cons.prems(3) by (auto simp: owns_def somes_Cons split: option.splits)
  obtain e1 d1 n1 where 1: "free_tag_entry e (d, n) = Some (e1, d1, n1)" "but_ports d d1" "sc_arg e1 = sc_arg e"
    "ad_ports d1 = ad_ports d \<and> sc_kf e1 = sc_kf e \<or>
     ad_ports d1 = insert (ad_next d) (ad_ports d - set_option (sc_kf e)) \<and> sc_kf e1 = Some (ad_next d)"
    by (rule free_tag_entry_cases [OF Cons.prems(1) own(1)])
  have nx: "ad_next d \<notin> ad_ports d" using Cons.prems(2) by (auto simp: fresh_next_def)
  have d1: "?R \<subseteq> ad_ports d1" "set_option (sc_kf e1) \<subseteq> ad_ports d1" "set_option (sc_kf e1) \<inter> ?R = {}"
    "ad_ports d1 - set_option (sc_kf e1) = ad_ports d - set_option (sc_kf e)"
    using 1(4) own nx by auto
  have "fx_table_ok (ad_fx d1)" "fresh_next d1" "owns d1 es"
    using but_ports_fx [OF 1(2) Cons.prems(1)] 1(2) Cons.prems(2) d1(1) own(3) by (simp_all add: but_ports_def owns_def)
  then obtain es2 d2 n2 where 2: "map_entries free_tag_entry es (d1, n1) = Some (es2, d2, n2)" "but_ports d1 d2"
      "map sc_arg es2 = map sc_arg es" "owns d2 es2" "ad_ports d2 - set (somes (map sc_kf es2)) = ad_ports d1 - ?R"
    using Cons.IH [of d1 n1] by blast
  let ?R2 = "set (somes (map sc_kf es2))"
  have e1: "set_option (sc_kf e1) \<subseteq> ad_ports d2" "set_option (sc_kf e1) \<inter> ?R2 = {}" using d1(2,3) 2(5) by auto
  have all: "set (somes (map sc_kf (x # xs))) = set_option (sc_kf x) \<union> set (somes (map sc_kf xs))" for x xs
    by (cases "sc_kf x") simp_all
  have "owns d2 (e1 # es2)"
    using e1 2(4) by (cases "sc_kf e1") (auto simp: owns_def)
  moreover have "ad_ports d2 - set (somes (map sc_kf (e1 # es2))) = ad_ports d - set (somes (map sc_kf (e # es)))"
    using 2(5) d1(4) unfolding all by blast
  ultimately show ?case using 1(1,3) 2(1,3) but_ports_trans [OF 1(2) 2(2)] by simp
qed

lemma free_live_str: "set_option p \<subseteq> dom (ad_strs d) \<Longrightarrow> free_ptr free_str p d = Some (d\<lparr>ad_strs := ad_strs d |` (- set_option p)\<rparr>)"
  by (cases p) (auto simp: free_ptr_def free_str_def restrict_map_def fun_eq_iff intro!: adm.equality)

lemma free_live_port: "set_option p \<subseteq> ad_ports d \<Longrightarrow> free_ptr vpf p d = Some (d\<lparr>ad_ports := ad_ports d - set_option p\<rparr>)"
  by (cases p) (auto simp: free_ptr_def vpf_def)

text \<open>
  Deleting a stream releases exactly the ports and strings it owns and offers its identifier for reuse; of the other
  streams at most the active flag changes.
\<close>

lemma stream_del_cases:
  assumes "streams_wf d" "ad_tags d k = Some t" "int (next_avail_tag d) < SAMPLE_MAX_SAMPLES"
  obtains d' where "vj_tag_del d k = Some (1, d')" "ad_tags d' k = None" "ad_ports d' = ad_ports d - set (tag_ports t)"
    "ad_strs d' = ad_strs d |` (- set (tag_strs t))" "\<And>j. j \<noteq> k \<Longrightarrow> map_option core (ad_tags d' j) = map_option core (ad_tags d j)"
    "avail_tag d' = (avail_tag d)(next_avail_tag d := k)" "next_avail_tag d' = Suc (next_avail_tag d)"
    "this_tag_id d' = this_tag_id d" "fresh_next d'" "fx_table_ok (ad_fx d')"
proof -
  note wf = streams_wfD [OF assms(1)]
  note w = stream_wfD [OF wf(4) [OF assms(2)]]
  have get: "vj_tag_get d k = Some t" using assms(2) vj_tag_get_tags [OF wf(1)] by simp
  have id: "tag_id t = k" by (rule tags_okD(2) [OF wf(1) assms(2)])
  let ?K = "set (somes (map sc_kf (tag_effect_chain t)))"
  have ports: "set (tag_ports t) = ?K \<union> set_option (tag_dict t) \<union> set_option (tag_viewport t)"
    and dist: "distinct (somes (map sc_kf (tag_effect_chain t)))" "?K \<inter> set_option (tag_dict t) = {}"
      "?K \<inter> set_option (tag_viewport t) = {}" "set_option (tag_dict t) \<inter> set_option (tag_viewport t) = {}"
    using w(2) by (auto simp: tag_ports_def somes_Cons split: option.splits)
  have strs: "set (tag_strs t) = set_option (tag_source_name t) \<union> set_option (tag_method_filename t) \<union> set_option (tag_extra t)"
    and dists: "set_option (tag_source_name t) \<inter> set_option (tag_method_filename t) = {}"
      "set_option (tag_source_name t) \<inter> set_option (tag_extra t) = {}" "set_option (tag_method_filename t) \<inter> set_option (tag_extra t) = {}"
    using w(4) by (auto simp: tag_strs_def somes_Cons split: option.splits)
  let ?d2 = "d\<lparr>ad_ports := ad_ports d - set_option (tag_dict t), ad_strs := ad_strs d |` (- set_option (tag_extra t))\<rparr>"
  let ?d1 = "d\<lparr>ad_ports := ad_ports d - set_option (tag_dict t)\<rparr>"
  have start: "free_ptr vpf (tag_dict t) d = Some ?d1" "free_ptr free_str (tag_extra t) ?d1 = Some ?d2"
    using w(3,5) unfolding ports strs by (simp_all add: free_live_port free_live_str)
  have get2: "vj_tag_get ?d2 k = Some t" using get by (simp add: vj_tag_get_def split: if_splits)
  have pre: "fx_table_ok (ad_fx ?d2)" "fresh_next ?d2" "owns ?d2 (tag_effect_chain t)"
    using wf(2,3) w(3) dist(1,2) unfolding ports by (auto simp: fresh_next_def owns_def)
  obtain es d3 n3 where 3: "map_entries free_tag_entry (tag_effect_chain t) (?d2, 0) = Some (es, d3, n3)" "but_ports ?d2 d3"
      "owns d3 es" "ad_ports d3 - set (somes (map sc_kf es)) = ad_ports ?d2 - ?K"
    using free_tag_entries [OF pre, of 0] by blast
  have q3: "this_tag_id d3 = this_tag_id d" "avail_tag d3 = avail_tag d" "next_avail_tag d3 = next_avail_tag d"
    "ad_strs d3 = ad_strs ?d2" "map_option core (ad_tags d3 j) = map_option core (ad_tags d j)" for j
    using 3(2) by (simp_all add: but_ports_def quiet_def)
  have f3: "fx_table_ok (ad_fx d3)" "fresh_next d3" using 3(2) pre by (simp_all add: but_ports_def quiet_def)
  obtain t3 where t3: "ad_tags d3 k = Some t3" "core t3 = core t" using q3(5) [of k] assms(2) by auto
  have get3: "vj_tag_get d3 k = Some t3" using t3(1) get q3(1) by (simp add: vj_tag_get_def split: if_splits)
  let ?t4 = "set_tag_chain es t3"
  let ?d4 = "d3\<lparr>ad_tags := (ad_tags d3)(k \<mapsto> ?t4)\<rparr>"
  have free: "vj_tag_chain_free ?d2 k = Some (n3, ?d4)"
    using get2 3(1) get3 by (simp add: vj_tag_chain_free_def modify_tag_def)
  have t4: "tag_source_name t3 = tag_source_name t" "tag_method_filename t3 = tag_method_filename t" "tag_viewport t3 = tag_viewport t"
    using t3(2) by (cases t; cases t3; simp add: core_def)+
  have get4: "vj_tag_get ?d4 k = Some ?t4" using get3 by (auto simp: vj_tag_get_def split: if_splits)
  let ?d5 = "?d4\<lparr>ad_strs := (ad_strs d3 |` (- set_option (tag_source_name t))) |` (- set_option (tag_method_filename t)),
      ad_ports := ad_ports d3 - set (somes (map sc_kf es)) - set_option (tag_viewport t)\<rparr>"
  have "set_option (tag_source_name t) \<subseteq> dom (ad_strs d3)" "set_option (tag_method_filename t) \<subseteq> dom (ad_strs d3 |` (- set_option (tag_source_name t)))"
    "set_option (tag_viewport t) \<subseteq> ad_ports d3 - set (somes (map sc_kf es))"
    using w(3,5) dists dist 3(4) unfolding q3(4) ports strs by auto
  then have rel: "tag_release k ?d4 = Some ?d5"
    using get4 3(3) by (simp add: tag_release_def t4 free_live_str free_ptrs_vpf owns_def free_live_port set_tag_chain_def)
  let ?d' = "?d5\<lparr>ad_tags := (ad_tags ?d5)(k := None), avail_tag := (avail_tag d)(next_avail_tag d := k), next_avail_tag := Suc (next_avail_tag d)\<rparr>"
  have "vj_tag_del d k = Some (1, ?d')"
    unfolding vj_tag_del_def get id option.case bind.bind_lunit start free prod.case rel using assms(3) q3(2,3) by simp
  moreover have "ad_ports ?d' = ad_ports d - set (tag_ports t)"
    using 3(4) unfolding ports by auto
  moreover have "ad_strs ?d' = ad_strs d |` (- set (tag_strs t))"
    unfolding strs by (simp add: q3(4) Int_commute Int_left_commute)
  moreover have "fresh_next ?d'" using f3(2) by (auto simp: fresh_next_def)
  ultimately show ?thesis using q3 f3(1) by (intro that [of ?d']) simp_all
qed

lemma del_wf:
  assumes "streams_wf d" "int (next_avail_tag d) < SAMPLE_MAX_SAMPLES"
  obtains r d' where "vj_tag_del d k = Some (r, d')" "streams_wf d'"
proof (cases "ad_tags d k")
  case None
  then show ?thesis using that [of 0 d] assms(1) no_stream by (simp add: vj_tag_del_def)
next
  case (Some t)
  note wf = streams_wfD [OF assms(1)]
  show ?thesis
  proof (rule stream_del_cases [OF assms(1) Some assms(2)])
    fix d'
    assume d': "vj_tag_del d k = Some (1, d')" "ad_tags d' k = None" "ad_ports d' = ad_ports d - set (tag_ports t)"
      "ad_strs d' = ad_strs d |` (- set (tag_strs t))" "\<And>j. j \<noteq> k \<Longrightarrow> map_option core (ad_tags d' j) = map_option core (ad_tags d j)"
      "avail_tag d' = (avail_tag d)(next_avail_tag d := k)" "next_avail_tag d' = Suc (next_avail_tag d)"
      "this_tag_id d' = this_tag_id d" "fresh_next d'" "fx_table_ok (ad_fx d')"
    have old: "j \<noteq> k \<and> (\<exists>u. ad_tags d j = Some u \<and> core u = core u')" if "ad_tags d' j = Some u'" for j u'
      using d'(2) d'(5) [of j] that by (cases "j = k"; cases "ad_tags d j") auto
    have gone: "ad_tags d' j = None" if "ad_tags d j = None" for j
      using d'(2) d'(5) [of j] that by (cases "j = k") auto
    have k: "0 < k" "k < this_tag_id d" using tags_okD(3,4) [OF wf(1) Some] .
    have nk: "avail_tag d n \<noteq> k" if "avail_tag d n \<noteq> 0" for n using tags_okD(8) [OF wf(1) that] Some by auto
    have av: "avail_tag d n = 0" if "next_avail_tag d \<le> n" for n using tags_okD(5) [OF wf(1), of n] that by fastforce
    have "tags_ok d'"
      unfolding tags_ok_def d'(6-8)
    proof (intro conjI allI impI)
      fix j u assume "ad_tags d' j = Some u"
      then obtain u0 where u: "ad_tags d j = Some u0" "core u0 = core u" using old by blast
      show "tag_id u = j" "0 < j" "j < this_tag_id d"
        using u tags_okD(2-4) [OF wf(1) u(1)] core_keeps(1) [OF u(2)] by simp_all
    next
      fix n assume n: "((avail_tag d)(next_avail_tag d := k)) n \<noteq> 0"
      show "n < Suc (next_avail_tag d)" "0 < ((avail_tag d)(next_avail_tag d := k)) n"
        "((avail_tag d)(next_avail_tag d := k)) n < this_tag_id d" "ad_tags d' (((avail_tag d)(next_avail_tag d := k)) n) = None"
        using n k d'(2) tags_okD(5-8) [OF wf(1), of n] gone by (auto split: if_splits)
    next
      fix m n assume "((avail_tag d)(next_avail_tag d := k)) m \<noteq> 0"
        "((avail_tag d)(next_avail_tag d := k)) m = ((avail_tag d)(next_avail_tag d := k)) n"
      then show "m = n" using nk [of m] nk [of n] k tags_okD(9) [OF wf(1), of m n] by (auto split: if_splits)
    qed (rule tags_okD [OF wf(1)])
    moreover have "stream_wf d' u'" if u': "ad_tags d' j = Some u'" for j u'
    proof -
      obtain u where u: "j \<noteq> k" "ad_tags d j = Some u" "core u = core u'" using old [OF u'] by blast
      show ?thesis
        using stream_wfD [OF wf(4) [OF u(2)]] wf(5,6) [OF u(2) Some u(1)] core_keeps [OF u(3)] d'(3,4)
        by (auto simp: stream_wf_def)
    qed
    moreover have "set (tag_ports t') \<inter> set (tag_ports u') = {} \<and> set (tag_strs t') \<inter> set (tag_strs u') = {}"
      if tu: "ad_tags d' i = Some t'" "ad_tags d' j = Some u'" "i \<noteq> j" for i j t' u'
    proof -
      obtain t0 u0 where u: "ad_tags d i = Some t0" "core t0 = core t'" "ad_tags d j = Some u0" "core u0 = core u'"
        using old [OF tu(1)] old [OF tu(2)] by blast
      show ?thesis using wf(5,6) [OF u(1,3) tu(3)] core_keeps(3,4) [OF u(2)] core_keeps(3,4) [OF u(4)] by simp
    qed
    ultimately have "streams_wf d'" using d'(9,10) unfolding streams_wf_def by blast
    with d'(1) that show ?thesis by blast
  qed
qed

subsection \<open>Creating a stream\<close>

text \<open>What opening a source does to the blocks of the new record.\<close>

definition blocks :: "addr \<Rightarrow> vj_tag \<Rightarrow> adm \<Rightarrow> vj_tag option \<Rightarrow> adm \<Rightarrow> bool" where
  "blocks a t d r d' \<longleftrightarrow> fresh_next d' \<and> ad_next d \<le> ad_next d' \<and> ad_ports d' = ad_ports d \<and> ad_fx d' = ad_fx d \<and>
     dom (ad_strs d) - {a} \<subseteq> dom (ad_strs d') \<and>
     (\<forall>t'. r = Some t' \<longrightarrow> a \<in> dom (ad_strs d') \<and> tag_source_name t' = Some a \<and>
        tag_method_filename t' = tag_method_filename t \<and> tag_viewport t' = tag_viewport t \<and>
        (\<forall>x. tag_extra t' = Some x \<longrightarrow> ad_next d \<le> x \<and> x \<in> dom (ad_strs d')))"

lemma blocks_print:
  assumes "print_name t s d = Some d'" "tag_source_name t = Some a" "tag_extra t = None" "fresh_next d" "a \<in> dom (ad_strs d)"
  shows "blocks a t d (Some t) d'" "fresh_next d'" "a \<in> dom (ad_strs d')" "ad_next d' = ad_next d"
  using assms by (auto simp: print_name_def blocks_def fresh_next_def bind_eq_Some_conv split: if_splits)

lemma blocks_trans:
  assumes "blocks a t d (Some t) d1" "blocks a t d1 r d2"
  shows "blocks a t d r d2"
  using assms unfolding blocks_def by (auto intro: order_trans) blast+

lemma blocks_fail:
  assumes "blocks a t d (Some t) d'" "tag_source_name t = Some a" "free_source_name t d' = Some d''"
  shows "blocks a t d None d''"
  using assms by (auto simp: blocks_def free_source_name_def free_ptr_def free_str_def fresh_next_def split: if_splits)

lemma open_generator_blocks:
  assumes "open_generator env t (Some f) ch d = Some (r, d')" "tag_source_name t = Some a" "tag_extra t = None" "fresh_next d"
    "a \<in> dom (ad_strs d)"
  shows "blocks a t d r d'"
proof -
  obtain d1 where p1: "print_name t (Some ''[GEN]'') d = Some d1"
    using assms(1) by (cases "print_name t (Some ''[GEN]'') d") (simp_all add: open_generator_def)
  note b1 = blocks_print [OF p1 assms(2-5)]
  have "r = None \<and> free_source_name t d1 = Some d' \<or>
      (\<exists>g. r = Some (t\<lparr>tag_generator := Some g\<rparr>) \<and> print_name t (Some f) d1 = Some d')"
    using assms(1) p1 by (auto simp: open_generator_def Let_def bind_eq_Some_conv split: if_splits option.splits)
  then show ?thesis
  proof (elim disjE conjE exE)
    assume "r = None" "free_source_name t d1 = Some d'"
    then show ?thesis using blocks_fail [OF b1(1) assms(2)] by simp
  next
    fix g assume r: "r = Some (t\<lparr>tag_generator := Some g\<rparr>)" and p2: "print_name t (Some f) d1 = Some d'"
    have "blocks a t d (Some t) d'"
      by (rule blocks_trans [OF b1(1) blocks_print(1) [OF p2 assms(2,3) b1(2,3)]])
    then show ?thesis using r by (simp add: blocks_def)
  qed
qed

lemma blocks_same:
  assumes "blocks a t d (Some t) d1" "r = Some t \<or> r = None \<or> r = Some (t\<lparr>tag_active := 1\<rparr>)"
  shows "blocks a t d r d1"
  using assms by (auto simp: blocks_def)

lemma blocks_new_source:
  assumes "tag_source_name t = Some a" "tag_extra t = None" "fresh_next d" "a \<in> dom (ad_strs d)"
  shows "vj_tag_new_net t nr h p d = (r, d') \<Longrightarrow> blocks a t d r d'"
    "vj_tag_new_unicap env t nr dv c d = Some (r, d') \<Longrightarrow> blocks a t d r d'"
proof -
  have fresh: "blocks a t d (Some (u\<lparr>tag_extra := Some b\<rparr>)) d2"
    if "strdup x d = (b, d2)" "tag_source_name u = Some a" "tag_method_filename u = tag_method_filename t" "tag_viewport u = tag_viewport t" for b d2 u x
    using that assms(3,4)
    by (auto simp: blocks_def strdup_def ad_alloc_def fresh_next_def Let_def less_Suc_eq split: if_splits)
  have none: "blocks a t d None d" using assms(3) by (simp add: blocks_def)
  have soc: "blocks a t d (Some (u\<lparr>tag_socket_ready := n\<rparr>)) d2" if "blocks a t d (Some u) d2" for u n d2
    using that by (simp add: blocks_def)
  show "blocks a t d r d'" if "vj_tag_new_net t nr h p d = (r, d')"
    using that assms(1) none fresh [of _ _ _ t] soc
    unfolding vj_tag_new_net_def Let_def by (auto split: option.splits if_splits prod.splits)
  show "blocks a t d r d'" if "vj_tag_new_unicap env t nr dv c d = Some (r, d')"
    using that assms(1) none fresh [of _ _ _ "t\<lparr>tag_capture_type := 1\<rparr>"]
    unfolding vj_tag_new_unicap_def Let_def by (auto split: if_splits prod.splits)
qed

lemma open_source_blocks:
  assumes "open_source env t type (Some f) nr ch ex d = Some (r, d')" "tag_source_name t = Some a" "tag_extra t = None"
    "fresh_next d" "a \<in> dom (ad_strs d)"
  shows "blocks a t d r d'"
proof -
  consider (v4l) "type = VJ_TAG_TYPE_V4L" | (net) "type = VJ_TAG_TYPE_MCAST \<or> type = VJ_TAG_TYPE_NET" | (pic) "type = VJ_TAG_TYPE_PICTURE"
    | (cali) "type = VJ_TAG_TYPE_CALI" | (yuv) "type = VJ_TAG_TYPE_YUV4MPEG" | (gen) "type = VJ_TAG_TYPE_GENERATOR"
    | (col) "type = VJ_TAG_TYPE_COLOR"
    | (other) "type \<notin> {VJ_TAG_TYPE_V4L, VJ_TAG_TYPE_MCAST, VJ_TAG_TYPE_NET, VJ_TAG_TYPE_PICTURE, VJ_TAG_TYPE_CALI,
         VJ_TAG_TYPE_YUV4MPEG, VJ_TAG_TYPE_GENERATOR, VJ_TAG_TYPE_COLOR}"
    by blast
  then show ?thesis
  proof cases
    case v4l
    then obtain d1 where 1: "print_name t (Some f) d = Some d1" "vj_tag_new_unicap env t nr ex ch d1 = Some (r, d')"
      using assms(1) by (auto simp: open_source_def bind_eq_Some_conv)
    note b = blocks_print [OF 1(1) assms(2-5)]
    show ?thesis by (rule blocks_trans [OF b(1) blocks_new_source(2) [OF assms(2,3) b(2,3) 1(2)]])
  next
    case net
    then obtain d1 where 1: "print_name t (Some f) d = Some d1" "vj_tag_new_net t nr (Some f) ch d1 = (r, d')"
      using assms(1) by (auto simp: open_source_def tag_consts bind_eq_Some_conv)
    note b = blocks_print [OF 1(1) assms(2-5)]
    show ?thesis by (rule blocks_trans [OF b(1) blocks_new_source(1) [OF assms(2,3) b(2,3) 1(2)]])
  next
    case pic
    then obtain d1 where 1: "print_name t (Some f) d = Some d1" "vj_tag_new_picture env t nr d1 = Some (r, d')"
      using assms(1) by (auto simp: open_source_def tag_consts bind_eq_Some_conv)
    show ?thesis
      using blocks_same [OF blocks_print(1) [OF 1(1) assms(2-5)]] new_source_same(3) [OF 1(2)] by (cases r) auto
  next
    case cali
    then obtain d1 where 1: "print_name t (Some f) d = Some d1" "vj_tag_new_cali env t nr d1 = Some (r, d')"
      using assms(1) by (auto simp: open_source_def tag_consts bind_eq_Some_conv)
    show ?thesis
      using blocks_same [OF blocks_print(1) [OF 1(1) assms(2-5)]] new_source_same(4) [OF 1(2)] by (cases r) auto
  next
    case yuv
    have eq: "open_source env t type (Some f) nr ch ex d = do {
        d \<leftarrow> print_name t (Some f) d;
        (ok, d) \<leftarrow> vj_tag_new_yuv4mpeg env t nr d;
        if ok then Some (Some (t\<lparr>tag_active := 1\<rparr>), d)
        else do { d \<leftarrow> free_source_name t d; Some (None, d) } }"
      using yuv by (simp add: open_source_def tag_consts)
    obtain d1 where p: "print_name t (Some f) d = Some d1"
      using assms(1) unfolding eq by (cases "print_name t (Some f) d") simp_all
    obtain ok d2 where y: "vj_tag_new_yuv4mpeg env t nr d1 = Some (ok, d2)"
      using assms(1) unfolding eq by (cases "vj_tag_new_yuv4mpeg env t nr d1") (auto simp: p)
    have d2: "d2 = d1" by (rule new_source_same(5) [OF y])
    note b = blocks_print [OF p assms(2-5)]
    have "r = Some (t\<lparr>tag_active := 1\<rparr>) \<and> d' = d1 \<or> r = None \<and> free_source_name t d1 = Some d'"
      using assms(1) unfolding eq by (cases ok; cases "free_source_name t d1") (simp_all add: p y d2)
    then show ?thesis using blocks_same [OF b(1)] blocks_fail [OF b(1) assms(2)] by blast
  next
    case gen
    then have "open_generator env t (Some f) ch d = Some (r, d')" using assms(1) by (simp add: open_source_def tag_consts)
    then show ?thesis by (rule open_generator_blocks [OF _ assms(2-5)])
  next
    case col
    then obtain d1 where 1: "print_name t (Some ''[0,0,0]'') d = Some d1" "r = Some (t\<lparr>tag_active := 1\<rparr>)" "d' = d1"
      using assms(1) by (auto simp: open_source_def tag_consts bind_eq_Some_conv)
    show ?thesis using blocks_same [OF blocks_print(1) [OF 1(1) assms(2-5)]] 1(2,3) by simp
  next
    case other
    then show ?thesis using assms(1,4) by (auto simp: open_source_def blocks_def)
  qed
qed

lemma new_tag_chain_blocks:
  assumes "new_tag_chain n d = (es, d')" "fresh_next d"
  shows "fresh_next d' \<and> ad_next d \<le> ad_next d' \<and> ad_strs d' = ad_strs d \<and> ad_fx d' = ad_fx d \<and>
     ad_ports d' = ad_ports d \<union> set (somes (map sc_kf es)) \<and> distinct (somes (map sc_kf es)) \<and>
     (\<forall>a \<in> set (somes (map sc_kf es)). ad_next d \<le> a \<and> a < ad_next d')"
  using assms
proof (induction n arbitrary: d es d')
  case (Suc n)
  let ?d1 = "d\<lparr>ad_next := Suc (ad_next d), ad_ports := insert (ad_next d) (ad_ports d)\<rparr>"
  obtain es1 d1 where 1: "new_tag_chain n ?d1 = (es1, d1)" by force
  have "vpn d = (ad_next d, ?d1)" by (simp add: vpn_def ad_alloc_def Let_def)
  with Suc.prems(1) 1 have es: "es = chain_zero\<lparr>sc_effect_id := - 1, sc_source_type := 1, sc_kf := Some (ad_next d)\<rparr> # es1" "d' = d1"
    by simp_all
  have "fresh_next ?d1" using Suc.prems(2) by (auto simp: fresh_next_def less_Suc_eq)
  from Suc.IH [OF 1 this] show ?case unfolding es by auto
qed simp

lemma names_live_wf: "streams_wf d \<Longrightarrow> names_live d"
  using stream_wfD(5,6) [OF streams_wfD(4)] by (fastforce simp: names_live_def source_name_of_def tag_strs_def)

lemma stream_wf_mono:
  "stream_wf d t \<Longrightarrow> ad_ports d \<subseteq> ad_ports d' \<Longrightarrow> dom (ad_strs d) \<subseteq> dom (ad_strs d') \<Longrightarrow> stream_wf d' t"
  unfolding stream_wf_def by blast

lemma wf_grow:
  assumes "streams_wf d" "ad_tags d' = ad_tags d" "tags_ok d'" "fx_table_ok (ad_fx d')" "fresh_next d'"
    "ad_ports d \<subseteq> ad_ports d'" "dom (ad_strs d) \<subseteq> dom (ad_strs d')"
  shows "streams_wf d'"
  using assms(2-5) stream_wf_mono [OF streams_wfD(4) [OF assms(1)] assms(6,7)] streams_wfD(5,6) [OF assms(1)]
  unfolding streams_wf_def by simp

lemma strdup_blocks:
  assumes "strdup x d = (a, d')" "fresh_next d"
  shows "fresh_next d'" "a = ad_next d" "ad_next d' = Suc a" "dom (ad_strs d') = insert a (dom (ad_strs d))" "ad_ports d' = ad_ports d"
    "ad_fx d' = ad_fx d" "a \<notin> dom (ad_strs d)"
  using assms by (auto simp: strdup_def ad_alloc_def fresh_next_def less_Suc_eq Let_def)

lemma new_wf:
  assumes "streams_wf d" "tags_room d" "length f < SOURCE_NAME_LEN" "nr < VJ_TAG_MAX_STREAM_IN"
  obtains r d' where "vj_tag_new env type (Some f) nr ch ex d = Some (r, d')" "streams_wf d'"
proof (rule vj_tag_new_steps [OF streams_wfD(1) [OF assms(1)] assms(2) names_live_wf [OF assms(1)] assms(3,4), of env type ch ex])
  note wf = streams_wfD [OF assms(1)]
  have grow0: "streams_wf (start_ids d)"
    using start_ids_ok [OF wf(1) assms(2)] wf(2,3) by (intro wf_grow [OF assms(1)]) (simp_all add: fresh_next_def)
  assume "vj_tag_new env type (Some f) nr ch ex d = Some (- 1, start_ids d)" "type \<noteq> VJ_TAG_TYPE_COLOR"
  then show ?thesis using that grow0 by blast
next
  note wf = streams_wfD [OF assms(1)]
  fix name d1 k d2 ma d3 r d4
  assume s1: "strdup [] (start_ids d) = (name, d1)" and tk: "take_tag_id d1 = Some (k, d2)" and 2: "tags_ok d2" "ad_tags d2 = ad_tags d1"
      "this_tag_id d2 = this_tag_id d1" "ad_tags d k = None" "0 < k" "k \<le> this_tag_id d1"
      "\<And>n. avail_tag d2 n \<noteq> k \<or> avail_tag d2 n = 0"
    and s3: "strdup f d2 = (ma, d3)"
    and 4: "open_source env (tag_skeleton k type name (Some ma) nr ch) type (Some f) nr ch ex d3 = Some (r, d4)"
    and run: "vj_tag_new env type (Some f) nr ch ex d =
         (case r of
            None \<Rightarrow> Some (- 1, d4)
          | Some t \<Rightarrow>
              let (es, d) = new_tag_chain SAMPLE_MAX_EFFECTS d4;
                  t = t\<lparr>tag_descr := vj_tag_get_by_type type [], tag_effect_chain := es\<rparr>;
                  (dict, d) = vpn d;
                  (r, d) = vj_tag_put d (t\<lparr>tag_dict := Some dict\<rparr>)
              in Some (k, d\<lparr>last_added_tag := k, this_tag_id := this_tag_id d + 1\<rparr>))"
  let ?t = "tag_skeleton k type name (Some ma) nr ch"
  have same: "streams_same d2 d4" using streams_same_trans [OF streams_same_steps(1) [OF s3]] open_source_same [OF 4] by blast
  have tags: "ad_tags d2 = ad_tags d" using 2(2) streams_same_steps(1) [OF s1] by (simp add: streams_same_def)
  have fr0: "fresh_next (start_ids d)" using wf(3) by (simp add: fresh_next_def)
  note b1 = strdup_blocks [OF s1 fr0]
  have t2: "ad_strs d2 = ad_strs d1" "ad_ports d2 = ad_ports d1" "ad_next d2 = ad_next d1" "ad_fx d2 = ad_fx d1"
    using tk by (auto simp: take_tag_id_def bind_eq_Some_conv split: option.splits)
  have fr2: "fresh_next d2" using b1(1) t2 by (simp add: fresh_next_def)
  note b3 = strdup_blocks [OF s3 fr2]
  have sk: "tag_source_name ?t = Some name" "tag_extra ?t = None" "tag_method_filename ?t = Some ma" "tag_viewport ?t = None" "tag_dict ?t = None"
    by (simp_all add: tag_skeleton_def tag_zero_def)
  have nm: "name \<in> dom (ad_strs d3)" using b1(4) b3(4) t2(1) by simp
  have b4: "blocks name ?t d3 r d4" by (rule open_source_blocks [OF 4 sk(1,2) b3(1) nm])
  have p4: "ad_ports d4 = ad_ports d" "ad_fx d4 = ad_fx d" "fresh_next d4"
    using b4 b3(5,6) t2 b1(5,6) by (simp_all add: blocks_def)
  have old: "dom (ad_strs d) \<subseteq> dom (ad_strs d4)"
  proof
    fix a assume a: "a \<in> dom (ad_strs d)"
    then have "a \<noteq> name" using b1(7) by auto
    then show "a \<in> dom (ad_strs d4)" using a b4 b3(4) t2(1) b1(4) by (auto simp: blocks_def)
  qed
  have below: "a < name" if "a \<in> dom (ad_strs d)" for a using that wf(3) b1(2) by (simp add: fresh_next_def)
  show ?thesis
  proof (cases r)
    case None
    have "tags_ok d4" using 2(1) same by (auto simp: streams_same_def elim!: tags_ok_cong)
    moreover have "ad_tags d4 = ad_tags d" using same tags by (simp add: streams_same_def)
    ultimately have "streams_wf d4"
      using wf(2) p4 old by (intro wf_grow [OF assms(1)]) simp_all
    then show ?thesis using that run None by simp
  next
    case (Some t)
    obtain es d5 where 5: "new_tag_chain SAMPLE_MAX_EFFECTS d4 = (es, d5)" by force
    obtain dict d6 where 6: "vpn d5 = (dict, d6)" by force
    let ?u = "t\<lparr>tag_descr := vj_tag_get_by_type type [], tag_effect_chain := es, tag_dict := Some dict\<rparr>"
    have t: "tag_id t = k" using open_source_same [OF 4] Some by (simp add: tag_skeleton_def)
    have free: "ad_tags d2 k = None" "k \<le> this_tag_id d2" using 2(3,4,6) tags by simp_all
    note e = vj_tag_new_enter [OF 2(1) same free(1) 2(5) free(2) 2(7) t(1) 5 6 refl]
    note c = new_tag_chain_blocks [OF 5 p4(3)]
    have d6: "dict = ad_next d5" "d6 = d5\<lparr>ad_next := Suc (ad_next d5), ad_ports := insert (ad_next d5) (ad_ports d5)\<rparr>"
      using 6 by (auto simp: vpn_def ad_alloc_def Let_def)
    let ?d' = "d6\<lparr>ad_tags := (ad_tags d6)(k \<mapsto> ?u), last_added_tag := k, this_tag_id := this_tag_id d6 + 1\<rparr>"
    let ?K = "set (somes (map sc_kf es))"
    have vp: "tag_viewport t = None" "tag_source_name t = Some name" "tag_method_filename t = Some ma"
      "\<And>x. tag_extra t = Some x \<Longrightarrow> ad_next d3 \<le> x \<and> x \<in> dom (ad_strs d4)"
      using b4 Some sk by (auto simp: blocks_def)
    have uports: "tag_ports ?u = somes (map sc_kf es) @ [dict]" using vp(1) by (simp add: tag_ports_def)
    have ustrs: "tag_strs ?u = name # ma # somes [tag_extra t]" using vp(2,3) by (simp add: tag_strs_def)
    have ports': "ad_ports ?d' = ad_ports d \<union> ?K \<union> {dict}" using c d6 p4(1) by auto
    have strs': "ad_strs ?d' = ad_strs d4" using c d6 by simp
    have nx: "a < ad_next d4" if "a \<in> ad_ports d" for a using that p4(1,3) by (simp add: fresh_next_def)
    have newK: "a \<notin> ad_ports d" if "a \<in> ?K \<union> {dict}" for a
    proof
      assume "a \<in> ad_ports d"
      from nx [OF this] that c d6(1) show False by auto
    qed
    have nums: "name < ma" "ma < ad_next d3" using b1(3) b3(2,3) t2(3) by simp_all
    have live_strs: "name \<in> dom (ad_strs d4)" "ma \<in> dom (ad_strs d4)"
      using b4 Some b3(4) nums(1) by (auto simp: blocks_def)
    have "stream_wf ?d' ?u"
      unfolding stream_wf_def uports ustrs strs' ports'
      using c d6(1) e(5) live_strs vp nums
      by (auto simp: tag_shape_def empty_chain_def somes_Cons split: option.splits)
    moreover have "stream_wf ?d' v" if "ad_tags d j = Some v" for j v
      by (rule stream_wf_mono [OF wf(4) [OF that]]) (use old in \<open>auto simp: strs' ports'\<close>)
    moreover have "set (tag_ports v) \<inter> set (tag_ports ?u) = {} \<and> set (tag_strs v) \<inter> set (tag_strs ?u) = {}"
      if v: "ad_tags d j = Some v" for j v
    proof -
      have "set (tag_ports v) \<subseteq> ad_ports d" "set (tag_strs v) \<subseteq> dom (ad_strs d)"
        using stream_wfD(3,5) [OF wf(4) [OF v]] by blast+
      moreover have "a \<notin> dom (ad_strs d)" if a: "a \<in> set (tag_strs ?u)" for a
      proof
        assume "a \<in> dom (ad_strs d)"
        then have "a < name" by (rule below)
        moreover have "name \<le> a"
          using a nums vp(4) [of a] unfolding ustrs by (auto simp: somes_Cons split: option.splits)
        ultimately show False by simp
      qed
      ultimately show ?thesis using newK unfolding uports by auto
    qed
    moreover have "fresh_next ?d'" using c d6(2) by (auto simp: fresh_next_def less_Suc_eq)
    moreover have "fx_table_ok (ad_fx ?d')" using c d6(2) p4(2) wf(2) by simp
    ultimately have "streams_wf ?d'"
      using e(2,4) tags wf(5,6) unfolding streams_wf_def by (auto simp: Int_commute split: if_splits)
    moreover have "vj_tag_new env type (Some f) nr ch ex d = Some (k, ?d')"
      using run Some 5 6 e(1) by simp
    ultimately show ?thesis using that by blast
  qed
qed

subsection \<open>Sequences of commands\<close>

text \<open>The commands that create, delete and change streams.\<close>

datatype stream_cmd =
    New_stream int string int int int | Del_stream int | Set_fx int int int | Remove_fx int int | Clear_fx int
  | Set_arg int int int int | Set_channel int int int | Set_source int int int | Set_trimmer int int int
  | Set_offset int int int | Set_fx_status int int int | Reset_kf int int | Set_kf_status int int int
  | Activate int int | Verify_delete int int

definition exec_stream :: "stream_env \<Rightarrow> fx_env \<Rightarrow> stream_cmd \<Rightarrow> adm \<Rightarrow> (int \<times> adm) option" where
  "exec_stream env fe c d =
     (case c of
        New_stream type f nr ch ex \<Rightarrow> vj_tag_new env type (Some f) nr ch ex d
      | Del_stream k \<Rightarrow> vj_tag_del d k
      | Set_fx k p x \<Rightarrow> vj_tag_set_effect fe d k p x
      | Remove_fx k p \<Rightarrow> vj_tag_chain_remove d k p
      | Clear_fx k \<Rightarrow> vj_tag_clear_chain d k
      | Set_arg k p n v \<Rightarrow> vj_tag_set_effect_arg d k p n v
      | Set_channel k p v \<Rightarrow> vj_tag_set_chain_channel d k p v
      | Set_source k p v \<Rightarrow> vj_tag_set_chain_source d k p v
      | Set_trimmer k p v \<Rightarrow> vj_tag_set_trimmer d k p v
      | Set_offset k p v \<Rightarrow> vj_tag_set_offset d k p v
      | Set_fx_status k p v \<Rightarrow> vj_tag_set_chain_status d k p v
      | Reset_kf k p \<Rightarrow> vj_tag_chain_reset_kf d k p
      | Set_kf_status k p v \<Rightarrow> vj_tag_chain_set_kf_status d k p v
      | Activate k v \<Rightarrow> vj_tag_set_active env d k v
      | Verify_delete k type \<Rightarrow> Some (vj_tag_verify_delete d k type))"

text \<open>
  What the caller of a command sees to: names that fit, positions and arguments the code does not test, effects of the
  registry, and fewer than 16384 streams created and deleted.
\<close>

definition stream_cmd_ok :: "adm \<Rightarrow> stream_cmd \<Rightarrow> bool" where
  "stream_cmd_ok d c \<longleftrightarrow>
     (case c of
        New_stream type f nr ch ex \<Rightarrow> length f < SOURCE_NAME_LEN \<and> nr < VJ_TAG_MAX_STREAM_IN \<and> tags_room d
      | Del_stream k \<Rightarrow> int (next_avail_tag d) < SAMPLE_MAX_SAMPLES
      | Set_fx k p x \<Rightarrow> fx_known (ad_fx d) x
      | Set_arg k p n v \<Rightarrow> n < int SAMPLE_MAX_PARAMETERS
      | Remove_fx k p \<Rightarrow> \<not> outside p
      | Set_offset k p v \<Rightarrow> \<not> outside p
      | Reset_kf k p \<Rightarrow> \<not> outside p
      | Set_kf_status k p v \<Rightarrow> \<not> outside p
      | Set_fx_status k p v \<Rightarrow> 0 \<le> p \<and> vj_tag_get d k \<noteq> None
      | _ \<Rightarrow> True)"

inductive stream_reach :: "stream_env \<Rightarrow> fx_env \<Rightarrow> adm \<Rightarrow> bool" for env fe where
  start: "ad_tags d = Map.empty \<Longrightarrow> this_tag_id d = 0 \<Longrightarrow> avail_tag d = (\<lambda>_. 0) \<Longrightarrow> fresh_next d \<Longrightarrow> fx_table_ok (ad_fx d) \<Longrightarrow>
    stream_reach env fe d"
| step: "stream_reach env fe d \<Longrightarrow> stream_cmd_ok d c \<Longrightarrow> exec_stream env fe c d = Some (r, d') \<Longrightarrow> stream_reach env fe d'"

text \<open>Each command is defined where its caller's obligations hold, and keeps the ownership.\<close>

lemma exec_stream_wf:
  assumes "streams_wf d" "stream_cmd_ok d c"
  shows "\<exists>r d'. exec_stream env fe c d = Some (r, d') \<and> streams_wf d'"
proof (cases c)
  case (New_stream type f nr ch ex)
  have ok: "tags_room d" "length f < SOURCE_NAME_LEN" "nr < VJ_TAG_MAX_STREAM_IN"
    using assms(2) New_stream by (simp_all add: stream_cmd_ok_def)
  obtain r d' where "vj_tag_new env type (Some f) nr ch ex d = Some (r, d')" "streams_wf d'" by (rule new_wf [OF assms(1) ok])
  then show ?thesis using New_stream by (simp add: exec_stream_def)
next
  case (Del_stream k)
  have ok: "int (next_avail_tag d) < SAMPLE_MAX_SAMPLES" using assms(2) Del_stream by (simp add: stream_cmd_ok_def)
  obtain r d' where "vj_tag_del d k = Some (r, d')" "streams_wf d'" by (rule del_wf [OF assms(1) ok])
  then show ?thesis using Del_stream by (simp add: exec_stream_def)
next
  case (Set_fx k p x)
  have ok: "fx_known (ad_fx d) x" using assms(2) Set_fx by (simp add: stream_cmd_ok_def)
  obtain r d' where "vj_tag_set_effect fe d k p x = Some (r, d')" "streams_wf d'" by (rule set_effect_wf [OF assms(1) ok])
  then show ?thesis using Set_fx by (simp add: exec_stream_def)
next
  case (Remove_fx k p)
  have ok: "\<not> outside p" using assms(2) Remove_fx by (simp add: stream_cmd_ok_def)
  obtain r d' where "vj_tag_chain_remove d k p = Some (r, d')" "streams_wf d'" by (rule chain_remove_wf [OF assms(1) ok])
  then show ?thesis using Remove_fx by (simp add: exec_stream_def)
next
  case (Clear_fx k)
  obtain r d' where "vj_tag_clear_chain d k = Some (r, d')" "streams_wf d'" by (rule clear_chain_wf [OF assms(1)])
  then show ?thesis using Clear_fx by (simp add: exec_stream_def)
next
  case (Set_arg k p n v)
  have ok: "n < int SAMPLE_MAX_PARAMETERS" using assms(2) Set_arg by (simp add: stream_cmd_ok_def)
  obtain r d' where "vj_tag_set_effect_arg d k p n v = Some (r, d')" "streams_wf d'" by (rule set_arg_wf [OF assms(1) ok])
  then show ?thesis using Set_arg by (simp add: exec_stream_def)
next
  case (Set_channel k p v)
  obtain r d' where "vj_tag_set_chain_channel d k p v = Some (r, d')" "streams_wf d'" by (rule set_channel_wf [OF assms(1)])
  then show ?thesis using Set_channel by (simp add: exec_stream_def)
next
  case (Set_source k p v)
  obtain r d' where "vj_tag_set_chain_source d k p v = Some (r, d')" "streams_wf d'" by (rule set_source_wf [OF assms(1)])
  then show ?thesis using Set_source by (simp add: exec_stream_def)
next
  case (Set_trimmer k p v)
  show ?thesis
  proof (cases "outside p")
    case True
    then show ?thesis using assms(1) Set_trimmer by (simp add: exec_stream_def vj_tag_set_trimmer_def)
  next
    case False
    obtain r d' where "write_tag_entry d k p (- 1 :: int) 1 (\<lambda>e. e\<lparr>sc_frame_trimmer := v\<rparr>) = Some (r, d')" "streams_wf d'"
      by (rule write_tag_entry_wf [OF assms(1) False, where f = "\<lambda>e. e\<lparr>sc_frame_trimmer := v\<rparr>"]) simp_all
    then show ?thesis using Set_trimmer False by (simp add: exec_stream_def vj_tag_set_trimmer_def)
  qed
next
  case (Set_offset k p v)
  have ok: "\<not> outside p" using assms(2) Set_offset by (simp add: stream_cmd_ok_def)
  obtain r d' where "vj_tag_set_offset d k p v = Some (r, d')" "streams_wf d'"
    unfolding vj_tag_set_offset_def
    by (rule write_tag_entry_wf [OF assms(1) ok, where f = "\<lambda>e. e\<lparr>sc_frame_offset := (if v < 0 then 0 else v)\<rparr>"]) simp_all
  then show ?thesis using Set_offset by (simp add: exec_stream_def)
next
  case (Set_fx_status k p v)
  have ok: "0 \<le> p" "vj_tag_get d k \<noteq> None" using assms(2) Set_fx_status by (simp_all add: stream_cmd_ok_def)
  show ?thesis
  proof (cases "outside p")
    case True
    then show ?thesis
      using assms(1) ok(1) Set_fx_status by (auto simp: exec_stream_def vj_tag_set_chain_status_def outside_def)
  next
    case False
    obtain r d' where "write_tag_entry d k p (- 1 :: int) 1 (\<lambda>e. e\<lparr>sc_e_flag := v\<rparr>) = Some (r, d')" "streams_wf d'"
      by (rule write_tag_entry_wf [OF assms(1) False, where f = "\<lambda>e. e\<lparr>sc_e_flag := v\<rparr>"]) simp_all
    then show ?thesis
      using Set_fx_status False ok by (auto simp: exec_stream_def vj_tag_set_chain_status_def outside_def)
  qed
next
  case (Reset_kf k p)
  have ok: "\<not> outside p" using assms(2) Reset_kf by (simp add: stream_cmd_ok_def)
  obtain r d' where "vj_tag_chain_reset_kf d k p = Some (r, d')" "streams_wf d'" by (rule reset_kf_wf [OF assms(1) ok])
  then show ?thesis using Reset_kf by (simp add: exec_stream_def)
next
  case (Set_kf_status k p v)
  have ok: "\<not> outside p" using assms(2) Set_kf_status by (simp add: stream_cmd_ok_def)
  obtain r d' where "vj_tag_chain_set_kf_status d k p v = Some (r, d')" "streams_wf d'"
    unfolding vj_tag_chain_set_kf_status_def
    by (rule write_tag_entry_wf [OF assms(1) ok, where f = "\<lambda>e. e\<lparr>sc_kf_status := v\<rparr>"]) simp_all
  then show ?thesis using Set_kf_status by (simp add: exec_stream_def)
next
  case (Activate k v)
  obtain r d' where r: "vj_tag_set_active env d k v = Some (r, d')" "quiet d d'" by (rule set_active_quiet [OF assms(1)])
  then show ?thesis using Activate wf_quiet [OF assms(1) r(2)] by (simp add: exec_stream_def)
next
  case (Verify_delete k type)
  obtain r d' where "vj_tag_verify_delete d k type = (r, d')" by force
  then show ?thesis using Verify_delete verify_delete_wf [OF assms(1), of k type] by (simp add: exec_stream_def)
qed

lemma stream_reach_wf: "stream_reach env fe d \<Longrightarrow> streams_wf d"
proof (induction rule: stream_reach.induct)
  case (start d)
  then show ?case by (simp add: streams_wf_def tags_ok_def)
next
  case (step d c r d')
  then show ?case using exec_stream_wf [OF step.IH step.hyps(2), of env fe] by auto
qed

subsection \<open>Properties\<close>

text \<open>The state in which the server starts, with a registry of effects.\<close>

definition adm_fresh :: adm where
  "adm_fresh = adm_start\<lparr>ad_fx := fx_two\<rparr>"

lemma adm_fresh_reach: "stream_reach env fe adm_fresh"
  by (rule stream_reach.start)
    (simp_all add: adm_fresh_def adm_start_def sample_init_def fresh_next_def fx_table_ok_def fx_two_def fx_consts)





end
