(* ===== verification/Playback.thy ===== *)
theory Playback
  imports StreamChain
begin

text \<open>
  Playback (\<open>veejay/liblavplayvj.c\<close>, \<open>veejay/vj-perform.c\<close>): what the server plays (the plain edit list, a sample or a
  stream), the current frame and its speed, switching from one source to another, and the step from one frame to the
  next with its loops, the sequence of samples and the random player.

  \<^item> \<open>veejay\<close> holds the fields of \<open>veejay_t\<close>, its \<open>user_control\<close> (\<open>uc_\<close>), \<open>video_playback_setup\<close> (\<open>st_\<close>) and
    sequencer (\<open>seq_\<close>) that playback reads or writes, and the state of the samples and streams.
  \<^item> Subtitle fonts and the compositor are other modules: the model keeps which dictionary and which view they were
    given.
  \<^item> \<open>play_env\<close> is what comes from outside: the effects, the sources of streams, the views that are read from a
    configuration, rounding to \<open>double\<close>, and the numbers \<open>rand()\<close> returns, with \<open>vi_rands\<close> of them used so far.
\<close>

definition VJ_PLAYBACK_MODE_SAMPLE :: int where "VJ_PLAYBACK_MODE_SAMPLE = 0"
definition VJ_PLAYBACK_MODE_TAG :: int where "VJ_PLAYBACK_MODE_TAG = 1"
definition VJ_PLAYBACK_MODE_PLAIN :: int where "VJ_PLAYBACK_MODE_PLAIN = 2"
definition LAVPLAY_STATE_STOP :: int where "LAVPLAY_STATE_STOP = 0"
definition MAX_SEQUENCES :: int where "MAX_SEQUENCES = 100"
definition RANDMODE_INACTIVE :: int where "RANDMODE_INACTIVE = 0"
definition RANDMODE_SAMPLE :: int where "RANDMODE_SAMPLE = 1"
definition RANDTIMER_FRAME :: int where "RANDTIMER_FRAME = 1"
definition RAND_MAX :: int where "RAND_MAX = 2147483647"

lemmas mode_consts = VJ_PLAYBACK_MODE_SAMPLE_def VJ_PLAYBACK_MODE_TAG_def VJ_PLAYBACK_MODE_PLAIN_def

record vj_rand_player =
  rp_mode :: int
  rp_timer :: int
  rp_min_delay :: int
  rp_max_delay :: int

text \<open>
  What the command handlers set besides: the link a message came from and the mode each link works in (\<open>rmodes\<close>),
  switches and counters, the number of arguments of the last command and the bundles of messages by their number. Here
  are also the file-level variables of \<open>vj-event.c\<close> and the one of \<open>vj-perform.c\<close> that handlers write.
\<close>

record controls =
  ct_current_link :: int
  ct_rmodes :: "int \<Rightarrow> int"
  ct_no_bezerk :: int
  ct_sync_correction :: int
  ct_verbose :: int
  ct_take_bg :: int
  ct_feedback :: int
  ct_feedback_stage :: int
  ct_fxdepth :: int
  ct_chain_changed :: int
  ct_key_effect :: int
  ct_sample_key :: int
  ct_follow_fade :: int
  ct_rgb_conversion :: int
  ct_seq_size :: int
  ct_last_args :: int
  ct_bundles :: "int \<rightharpoonup> string"

definition ctl_zero :: controls where
  "ctl_zero = \<lparr>ct_current_link = 0, ct_rmodes = (\<lambda>i. - 1), ct_no_bezerk = 0, ct_sync_correction = 0, ct_verbose = 0,
     ct_take_bg = 0, ct_feedback = 0, ct_feedback_stage = 0, ct_fxdepth = 0, ct_chain_changed = 0, ct_key_effect = 0,
     ct_sample_key = 0, ct_follow_fade = 0, ct_rgb_conversion = 0, ct_seq_size = 0, ct_last_args = 0,
     ct_bundles = Map.empty\<rparr>"

record veejay =
  vi_adm :: adm
  vi_edit_list :: addr
  vi_current_edit_list :: "addr option"
  vi_sfd :: int
  vi_no_caching :: bool
  vi_continuous :: int
  vi_last_sample_id :: int
  vi_last_tag_id :: int
  vi_nstreams :: int
  vi_font :: bool
  vi_font_dict :: "addr option"
  vi_composite :: bool
  vi_backing :: "addr option"
  vi_follow_run :: int
  vi_follow_now :: "int \<times> int"
  vi_track_dup :: int
  vi_rands :: nat
  uc_playback_mode :: int
  uc_sample_id :: int
  uc_direction :: int
  uc_sample_start :: int
  uc_sample_end :: int
  uc_port :: int
  seq_active :: int
  seq_current :: int
  seq_samples :: "int list"
  st_min_frame_num :: int
  st_max_frame_num :: int
  st_current_frame_num :: int
  st_current_playback_speed :: int
  st_first_frame :: int
  st_simple_frame_dup :: int
  st_hold_pos :: int
  st_hold_resume :: int
  st_hold_status :: int
  st_sample_restart :: int
  st_composite :: int
  st_save_list :: "u64 buf option"
  st_save_list_len :: u64
  st_state :: int
  st_randplayer :: vj_rand_player
  st_cycle_count :: "32 word \<times> 32 word"
  vi_dummy :: bool
  vi_ctl :: controls

record play_env =
  pe_fx :: fx_env
  pe_stream :: stream_env
  pe_load :: "addr option \<Rightarrow> addr option \<times> int"
  pe_dbl :: "rat \<Rightarrow> rat"
  pe_rand :: "nat \<Rightarrow> int"

definition on_adm :: "(adm \<Rightarrow> ('r \<times> adm) option) \<Rightarrow> veejay \<Rightarrow> ('r \<times> veejay) option" where
  "on_adm f v = do { (r, d) \<leftarrow> f (vi_adm v); Some (r, v\<lparr>vi_adm := d\<rparr>) }"

definition on_adm_pure :: "(adm \<Rightarrow> 'r \<times> adm) \<Rightarrow> veejay \<Rightarrow> 'r \<times> veejay" where
  "on_adm_pure f v = (let (r, d) = f (vi_adm v) in (r, v\<lparr>vi_adm := d\<rparr>))"

definition vj_rand :: "play_env \<Rightarrow> veejay \<Rightarrow> int \<times> veejay" where
  "vj_rand env v = (pe_rand env (vi_rands v), v\<lparr>vi_rands := Suc (vi_rands v)\<rparr>)"

definition vj_current_list :: "veejay \<Rightarrow> editlist option" where
  "vj_current_list v = do { a \<leftarrow> vi_current_edit_list v; ad_els (vi_adm v) a }"

subsection \<open>Frame duplication, speed and position\<close>

definition veejay_change_state :: "int \<Rightarrow> veejay \<Rightarrow> veejay" where
  "veejay_change_state new_state v = v\<lparr>st_state := new_state\<rparr>"

definition veejay_set_framedup :: "veejay \<Rightarrow> int \<Rightarrow> (int \<times> veejay) option" where
  "veejay_set_framedup v n =
     (if uc_playback_mode v = VJ_PLAYBACK_MODE_PLAIN then Some (1, v\<lparr>vi_sfd := n\<rparr>)
      else if uc_playback_mode v = VJ_PLAYBACK_MODE_SAMPLE
      then do {
        (r, v) \<leftarrow> on_adm (\<lambda>d. sample_set_framedup d (uc_sample_id v) n) v;
        (r, v) \<leftarrow> on_adm (\<lambda>d. sample_set_framedups d (uc_sample_id v) 0) v;
        Some (1, v) }
      else Some (- 1, v))"

text \<open>
  In plain mode the speed is compared with the unsigned \<open>total_frames\<close>; in sample mode with the distance from the
  first to the last frame, and a speed that is too high is not set.
\<close>

definition clamp_speed :: "int \<Rightarrow> int" where
  "clamp_speed speed =
     (let speed = (if speed > MAX_SPEED then MAX_SPEED else speed)
      in if speed < - MAX_SPEED then - MAX_SPEED else speed)"

definition veejay_set_speed :: "veejay \<Rightarrow> int \<Rightarrow> (int \<times> veejay) option" where
  "veejay_set_speed v speed =
     (let speed = clamp_speed speed
      in if uc_playback_mode v = VJ_PLAYBACK_MODE_PLAIN
         then (case vj_current_list v of
                 None \<Rightarrow> null_deref
               | Some el \<Rightarrow>
                   Some (1, if (word_of_int \<bar>speed\<bar> :: u64) \<le> el_total_frames el
                            then v\<lparr>st_current_playback_speed := speed\<rparr> else v))
         else if uc_playback_mode v = VJ_PLAYBACK_MODE_SAMPLE
         then do {
           (stop, v) \<leftarrow> on_adm (\<lambda>d. sample_get_endFrame d (uc_sample_id v)) v;
           (start, v) \<leftarrow> on_adm (\<lambda>d. sample_get_startFrame d (uc_sample_id v)) v;
           let len = stop - start;
           if speed < 0 \<and> - 1 * len > speed then Some (1, v)
           else if speed \<ge> 0 \<and> len < speed then Some (1, v)
           else do {
             (r, v) \<leftarrow> on_adm (\<lambda>d. sample_set_speed d (uc_sample_id v) speed) v;
             Some (1, if r \<noteq> - 1 then v\<lparr>st_current_playback_speed := speed\<rparr> else v) } }
         else if uc_playback_mode v = VJ_PLAYBACK_MODE_TAG then Some (1, v\<lparr>st_current_playback_speed := 1\<rparr>)
         else Some (1, v))"

definition veejay_hold_frame :: "veejay \<Rightarrow> int \<Rightarrow> int \<Rightarrow> int \<times> veejay" where
  "veejay_hold_frame v rel_resume_pos hold_pos =
     (let v = (if st_hold_status v = 1
               then let resume = st_hold_resume v + 1
                    in v\<lparr>st_hold_pos := st_hold_pos v + rel_resume_pos,
                         st_hold_resume := (if resume < hold_pos then hold_pos else resume)\<rparr>
               else v\<lparr>st_hold_pos := hold_pos + rel_resume_pos, st_hold_resume := hold_pos\<rparr>)
      in (1, v\<lparr>st_hold_status := 1\<rparr>))"

text \<open>
  The bounds of a stream are those of \<open>st_min_frame_num\<close> and \<open>st_max_frame_num\<close>, which hold already when the code tests
  the last one again. The start and end that \<open>sample_get_short_info\<close> does not write when there is no sample are
  read all the same.
\<close>

definition veejay_set_frame :: "veejay \<Rightarrow> int \<Rightarrow> (int \<times> veejay) option" where
  "veejay_set_frame v framenum =
     (let framenum = (if framenum < st_min_frame_num v then st_min_frame_num v else framenum);
          framenum = (if framenum > st_max_frame_num v then st_max_frame_num v else framenum)
      in if uc_playback_mode v = VJ_PLAYBACK_MODE_SAMPLE
         then do {
           (info, v) \<leftarrow> on_adm (\<lambda>d. sample_get_short_info d (uc_sample_id v)) v;
           (start, stop, loop, speed) \<leftarrow> snd info;
           let framenum = (if framenum < start then start else framenum);
           let framenum = (if framenum > stop then stop else framenum);
           v \<leftarrow> (if framenum = start \<or> framenum = stop
                 then map_option snd (on_adm (\<lambda>d. sample_set_framedups d (uc_sample_id v) 0) v) else Some v);
           Some (1, v\<lparr>st_current_frame_num := framenum\<rparr>) }
         else Some (1, v\<lparr>st_current_frame_num := framenum\<rparr>))"

definition veejay_sample_resume_at :: "veejay \<Rightarrow> int \<Rightarrow> veejay option" where
  "veejay_sample_resume_at v cur_id = do {
     (pos, v) \<leftarrow> on_adm (\<lambda>d. if st_sample_restart v \<noteq> 0 then sample_get_startFrame d cur_id else sample_get_resume d cur_id) v;
     (r, v) \<leftarrow> veejay_set_frame v pos;
     Some v }"

definition veejay_increase_frame :: "veejay \<Rightarrow> int \<Rightarrow> (int \<times> veejay) option" where
  "veejay_increase_frame v num =
     (let to = st_current_frame_num v + num
      in if uc_playback_mode v = VJ_PLAYBACK_MODE_PLAIN
         then if to < st_min_frame_num v then Some (0, v)
              else if to > st_max_frame_num v then Some (0, v)
              else Some (1, v\<lparr>st_current_frame_num := int32_of_long to\<rparr>)
         else if uc_playback_mode v = VJ_PLAYBACK_MODE_SAMPLE
         then do {
           (start, v) \<leftarrow> on_adm (\<lambda>d. sample_get_startFrame d (uc_sample_id v)) v;
           if to < start then Some (0, v)
           else do {
             (stop, v) \<leftarrow> on_adm (\<lambda>d. sample_get_endFrame d (uc_sample_id v)) v;
             if to > stop then Some (0, v)
             else Some (1, v\<lparr>st_current_frame_num := int32_of_long to\<rparr>) } }
         else Some (1, v\<lparr>st_current_frame_num := int32_of_long to\<rparr>))"

subsection \<open>Starting and stopping\<close>

definition veejay_init_editlist :: "veejay \<Rightarrow> (int \<times> veejay) option" where
  "veejay_init_editlist v = do {
     el \<leftarrow> ad_els (vi_adm v) (vi_edit_list v);
     Some (0, v\<lparr>st_min_frame_num := 0, st_max_frame_num := int32_of_long (uint (el_total_frames el)),
                st_current_frame_num := 0\<rparr>) }"

definition veejay_reset_el_buffer :: "veejay \<Rightarrow> veejay" where
  "veejay_reset_el_buffer v = v\<lparr>st_save_list := None, st_save_list_len := 0\<rparr>"

definition composite_to_top :: "veejay \<Rightarrow> veejay" where
  "composite_to_top v = (if vi_composite v \<and> st_composite v = 2 then v\<lparr>st_composite := 1\<rparr> else v)"

definition veejay_stop_playing_sample :: "veejay \<Rightarrow> int \<Rightarrow> (int \<times> veejay) option" where
  "veejay_stop_playing_sample v new_sample_id = do {
     (r, v) \<leftarrow> on_adm (\<lambda>d. sample_stop_playing d (uc_sample_id v) new_sample_id) v;
     if r = 0 then Some (0, v)
     else do {
       let v = composite_to_top v;
       (n, v) \<leftarrow> on_adm (\<lambda>d. sample_chain_free d (uc_sample_id v)) v;
       (r, v) \<leftarrow> on_adm (\<lambda>d. sample_set_framedups d (uc_sample_id v) 0) v;
       (r, v) \<leftarrow> on_adm (\<lambda>d. sample_set_resume d (uc_sample_id v) (st_current_frame_num v)) v;
       Some (1, v) } }"

definition veejay_stop_playing_stream :: "veejay \<Rightarrow> veejay option" where
  "veejay_stop_playing_stream v = do {
     let v = v\<lparr>vi_adm := vj_tag_disable (vi_adm v) (uc_sample_id v)\<rparr>;
     let v = composite_to_top v;
     (n, v) \<leftarrow> on_adm (\<lambda>d. vj_tag_chain_free d (uc_sample_id v)) v;
     Some v }"

definition sample_load_composite_config :: "(addr option \<Rightarrow> addr option \<times> int) \<Rightarrow> adm \<Rightarrow> int \<Rightarrow> (int \<times> adm) option" where
  "sample_load_composite_config load d s1 = with_sample d s1 (- 1) (\<lambda>d a si.
     case load (si_viewport_config si) of (temp, v) \<Rightarrow>
       if temp = None \<or> v = - 1 then Some (0, d)
       else Some (v, put_sample a (si\<lparr>si_composite := v, si_viewport := temp\<rparr>) d))"

definition composite_set_backing :: "addr option \<Rightarrow> veejay \<Rightarrow> veejay" where
  "composite_set_backing vp v = v\<lparr>vi_backing := vp\<rparr>"

definition load_sample_view :: "play_env \<Rightarrow> int \<Rightarrow> veejay \<Rightarrow> veejay option" where
  "load_sample_view env k v =
     (if vi_composite v
      then do {
        (has_cfg, v) \<leftarrow> on_adm (\<lambda>d. sample_load_composite_config (pe_load env) d k) v;
        if has_cfg \<noteq> 0 \<and> st_composite v = 1
        then do {
          (cur, v) \<leftarrow> on_adm (\<lambda>d. sample_get_composite_view d k) v;
          Some (if cur \<noteq> None then composite_set_backing cur v else v) }
        else Some v }
      else Some v)"

definition load_stream_view :: "play_env \<Rightarrow> int \<Rightarrow> veejay \<Rightarrow> veejay" where
  "load_stream_view env k v =
     (if vi_composite v
      then let (has_cfg, v) = on_adm_pure (\<lambda>d. vj_tag_load_composite_config (pe_load env) d k) v
           in if has_cfg \<noteq> 0 \<and> st_composite v = 1
              then let cur = vj_tag_get_composite_view (vi_adm v) k
                   in if cur \<noteq> None then composite_set_backing cur v else v
              else v
      else v)"

definition veejay_start_playing_sample :: "play_env \<Rightarrow> veejay \<Rightarrow> int \<Rightarrow> (int \<times> veejay) option" where
  "veejay_start_playing_sample env v k = do {
     (E, v) \<leftarrow> on_adm (\<lambda>d. sample_get_editlist d k) v;
     let v = veejay_reset_el_buffer (v\<lparr>vi_current_edit_list := E\<rparr>);
     (r, v) \<leftarrow> on_adm (\<lambda>d. sample_start_playing d k (vi_no_caching v)) v;
     (tmp, v) \<leftarrow> on_adm (\<lambda>d. sample_chain_malloc (pe_fx env) d k) v;
     (info, v) \<leftarrow> on_adm (\<lambda>d. sample_get_short_info d k) v;
     (start, stop, loop, speed) \<leftarrow> snd info;
     (len, v) \<leftarrow> on_adm (\<lambda>d. sample_video_length d k) v;
     let v = v\<lparr>st_min_frame_num := 0, st_max_frame_num := len, st_first_frame := 1\<rparr>;
     (u, v) \<leftarrow> on_adm (\<lambda>d. sample_reset_loopcount d k) v;
     v \<leftarrow> (if vi_font v \<and> uc_sample_id v \<noteq> k
           then do { (dict, v) \<leftarrow> on_adm (\<lambda>d. sample_get_dict d k) v; Some (v\<lparr>vi_font_dict := dict\<rparr>) } else Some v);
     v \<leftarrow> load_sample_view env k v;
     let v = v\<lparr>uc_sample_id := k, vi_last_sample_id := k\<rparr>;
     (dup, v) \<leftarrow> on_adm (\<lambda>d. sample_get_framedup d k) v;
     let v = v\<lparr>vi_sfd := dup\<rparr>;
     v \<leftarrow> (if st_sample_restart v \<noteq> 0 then map_option snd (on_adm (\<lambda>d. sample_reset_offset d k) v) else Some v);
     v \<leftarrow> veejay_sample_resume_at v k;
     (r, v) \<leftarrow> veejay_set_speed v speed;
     Some (1, v) }"

definition veejay_start_playing_stream :: "play_env \<Rightarrow> veejay \<Rightarrow> int \<Rightarrow> (int \<times> veejay) option" where
  "veejay_start_playing_stream env v k = do {
     (r, v) \<leftarrow> on_adm (\<lambda>d. vj_tag_enable (pe_stream env) d k) v;
     if r \<le> 0 then Some (0, v)
     else do {
       (r, v) \<leftarrow> on_adm (\<lambda>d. vj_tag_set_active (pe_stream env) d k 1) v;
       (tmp, v) \<leftarrow> on_adm (\<lambda>d. vj_tag_chain_malloc (pe_fx env) d k) v;
       let v = v\<lparr>st_min_frame_num := 1, st_max_frame_num := vj_tag_get_n_frames (vi_adm v) k\<rparr>;
       let v = (if vi_font v then v\<lparr>vi_font_dict := vj_tag_get_dict (vi_adm v) k\<rparr> else v);
       let v = v\<lparr>vi_last_tag_id := k, uc_sample_id := k\<rparr>;
       let v = load_stream_view env k v;
       Some (1, veejay_reset_el_buffer (v\<lparr>vi_current_edit_list := Some (vi_edit_list v)\<rparr>)) } }"

subsection \<open>Switching\<close>

definition can_switch :: "veejay \<Rightarrow> int \<Rightarrow> int \<Rightarrow> (bool \<times> veejay) option" where
  "can_switch v new_pm k =
     (if new_pm = VJ_PLAYBACK_MODE_SAMPLE
      then do { (e, v) \<leftarrow> on_adm (\<lambda>d. sample_exists d k) v; Some (e \<noteq> 0, v) }
      else if new_pm = VJ_PLAYBACK_MODE_TAG then Some (vj_tag_exists (vi_adm v) k \<noteq> 0, v)
      else if new_pm = VJ_PLAYBACK_MODE_PLAIN
      then do { el \<leftarrow> ad_els (vi_adm v) (vi_edit_list v); Some (\<not> el_video_frames el < 1, v) }
      else Some (True, v))"

definition leave_current :: "veejay \<Rightarrow> int \<Rightarrow> int \<Rightarrow> (bool \<times> veejay) option" where
  "leave_current v new_pm k =
     (let cur_id = uc_sample_id v
      in if uc_playback_mode v = VJ_PLAYBACK_MODE_SAMPLE
         then if cur_id = k \<and> new_pm = VJ_PLAYBACK_MODE_SAMPLE
              then if st_sample_restart v \<noteq> 0
                   then do {
                     (pos, v) \<leftarrow> on_adm (\<lambda>d. sample_get_startFrame d cur_id) v;
                     (r, v) \<leftarrow> veejay_set_frame v pos;
                     Some (False, v) }
                   else Some (False, v)
              else do { (r, v) \<leftarrow> veejay_stop_playing_sample v cur_id; Some (True, v) }
         else if uc_playback_mode v = VJ_PLAYBACK_MODE_TAG
         then if cur_id = k \<and> new_pm = VJ_PLAYBACK_MODE_TAG then Some (False, v)
              else do { v \<leftarrow> veejay_stop_playing_stream v; Some (True, v) }
         else Some (True, v))"

text \<open>Leaving for the plain edit list stops the sample or stream a second time.\<close>

definition play_plain :: "veejay \<Rightarrow> veejay option" where
  "play_plain v = do {
     v \<leftarrow> (if uc_playback_mode v = VJ_PLAYBACK_MODE_TAG then veejay_stop_playing_stream v else Some v);
     v \<leftarrow> (if uc_playback_mode v = VJ_PLAYBACK_MODE_SAMPLE
           then map_option snd (veejay_stop_playing_sample v (uc_sample_id v)) else Some v);
     el \<leftarrow> ad_els (vi_adm v) (vi_edit_list v);
     Some (v\<lparr>uc_playback_mode := VJ_PLAYBACK_MODE_PLAIN, vi_current_edit_list := Some (vi_edit_list v),
             st_min_frame_num := 0, st_max_frame_num := int32_of_long (uint (el_total_frames el))\<rparr>) }"

definition veejay_change_playback_mode :: "play_env \<Rightarrow> veejay \<Rightarrow> int \<Rightarrow> int \<Rightarrow> veejay option" where
  "veejay_change_playback_mode env v new_pm k = do {
     (ok, v) \<leftarrow> can_switch v new_pm k;
     if \<not> ok then Some v
     else do {
       (go, v) \<leftarrow> leave_current v new_pm k;
       if \<not> go then Some v
       else if new_pm = VJ_PLAYBACK_MODE_PLAIN then play_plain v
       else if new_pm = VJ_PLAYBACK_MODE_TAG
       then map_option snd (veejay_start_playing_stream env (v\<lparr>uc_playback_mode := new_pm\<rparr>) k)
       else if new_pm = VJ_PLAYBACK_MODE_SAMPLE
       then map_option snd (veejay_start_playing_sample env (v\<lparr>uc_playback_mode := new_pm\<rparr>) k)
       else Some v } }"

definition veejay_set_sample_f :: "play_env \<Rightarrow> veejay \<Rightarrow> int \<Rightarrow> int \<Rightarrow> veejay option" where
  "veejay_set_sample_f env v k offset =
     (if uc_playback_mode v = VJ_PLAYBACK_MODE_SAMPLE \<and> uc_sample_id v = k
      then do {
        (start, v) \<leftarrow> on_adm (\<lambda>d. sample_get_startFrame d (uc_sample_id v)) v;
        map_option snd (veejay_set_frame v (start + offset)) }
      else veejay_change_playback_mode env v VJ_PLAYBACK_MODE_SAMPLE k)"

definition veejay_set_sample :: "play_env \<Rightarrow> veejay \<Rightarrow> int \<Rightarrow> veejay option" where
  "veejay_set_sample env v k =
     (if uc_playback_mode v = VJ_PLAYBACK_MODE_TAG then map_option snd (veejay_start_playing_stream env v k)
      else if uc_playback_mode v = VJ_PLAYBACK_MODE_SAMPLE
      then if uc_sample_id v = k then veejay_sample_resume_at v k
           else map_option snd (veejay_start_playing_sample env v k)
      else Some v)"

text \<open>A stream from the own port of this host is refused.\<close>

definition veejay_create_tag :: "play_env \<Rightarrow> veejay \<Rightarrow> int \<Rightarrow> string option \<Rightarrow> int \<Rightarrow> int \<Rightarrow> int \<Rightarrow> (int \<times> veejay) option" where
  "veejay_create_tag env v type filename index channel device =
     (if (type = VJ_TAG_TYPE_NET \<or> type = VJ_TAG_TYPE_MCAST) \<and>
         (case filename of None \<Rightarrow> False | Some f \<Rightarrow> strcasecmp_eq f ''localhost'' \<or> f = ''127.0.0.1'') \<and> channel = uc_port v
      then Some (0, v)
      else do {
        (k, v) \<leftarrow> on_adm (vj_tag_new (pe_stream env) type filename index channel device) v;
        Some (if k > 0 then (k, v\<lparr>vi_nstreams := vi_nstreams v + 1\<rparr>) else (0, v)) })"

definition veejay_stop_sampling :: "veejay \<Rightarrow> veejay" where
  "veejay_stop_sampling v = v\<lparr>uc_playback_mode := VJ_PLAYBACK_MODE_PLAIN, uc_sample_id := 0, uc_sample_start := 0,
     uc_sample_end := 0, vi_current_edit_list := Some (vi_edit_list v)\<rparr>"

subsection \<open>The sequence of samples\<close>

text \<open>The array has one entry more than \<open>MAX_SEQUENCES\<close>; the search looks at it too.\<close>

function valid_seq_loop :: "int list \<Rightarrow> int \<Rightarrow> bool \<Rightarrow> int option option" where
  "valid_seq_loop samples cur cycle =
     (case c_nth samples cur of
        None \<Rightarrow> out_of_bounds
      | Some s \<Rightarrow>
          if s \<noteq> 0 then Some (Some cur)
          else if cur + 1 \<ge> MAX_SEQUENCES \<and> \<not> cycle then valid_seq_loop samples 0 True
          else if cur + 1 \<ge> MAX_SEQUENCES \<and> cycle then Some None
          else valid_seq_loop samples (cur + 1) cycle)"
  by pat_completeness auto
termination
  by (relation "measure (\<lambda>(samples, cur, cycle). (if cycle then 0 else 200) + nat (MAX_SEQUENCES - cur))")
    (auto simp: MAX_SEQUENCES_def c_nth_def split: if_splits)

declare valid_seq_loop.simps [simp del]

definition vj_perform_valid_sequence :: "veejay \<Rightarrow> (int \<times> veejay) option" where
  "vj_perform_valid_sequence v = do {
     r \<leftarrow> valid_seq_loop (seq_samples v) (seq_current v + 1) False;
     Some (case r of None \<Rightarrow> (- 1, v\<lparr>seq_active := 0\<rparr>) | Some cur \<Rightarrow> (cur, v)) }"

definition seq_play_sample :: "play_env \<Rightarrow> veejay \<Rightarrow> int \<Rightarrow> veejay option" where
  "seq_play_sample env v n = do {
     let v = v\<lparr>seq_current := n\<rparr>;
     k \<leftarrow> c_nth (seq_samples v) n;
     (offset, v) \<leftarrow> on_adm (\<lambda>d. sample_get_first_mix_offset d (uc_sample_id v) k) v;
     veejay_set_sample_f env v k offset }"

definition vj_perform_try_sequence :: "play_env \<Rightarrow> veejay \<Rightarrow> (int \<times> veejay) option" where
  "vj_perform_try_sequence env v =
     (if seq_active v = 0 then Some (0, v)
      else do {
        (dec, v) \<leftarrow> on_adm (\<lambda>d. sample_get_loop_dec d (uc_sample_id v)) v;
        if dec \<ge> 1
        then do {
          (n, v) \<leftarrow> vj_perform_valid_sequence v;
          if n \<ge> 0
          then do {
            (r, v) \<leftarrow> on_adm (\<lambda>d. sample_set_loop_dec d (uc_sample_id v) 0) v;
            v \<leftarrow> seq_play_sample env v n;
            Some (1, v) }
          else Some (0, v) }
        else Some (0, v) })"

subsection \<open>The random player\<close>

text \<open>The product of the number of samples and a random number is exact in a \<open>double\<close>, and so is the quotient.\<close>

definition random_id :: "int \<Rightarrow> int \<Rightarrow> int" where
  "random_id n r = 1 + c_trunc (of_int (n * r) / of_int (RAND_MAX + 1))"

partial_function (option) pick_sample :: "play_env \<Rightarrow> int \<Rightarrow> int \<Rightarrow> int \<Rightarrow> veejay \<Rightarrow> (int \<times> veejay) option" where
  "pick_sample env n dup k v = do {
     (e, v) \<leftarrow> on_adm (\<lambda>d. sample_exists d k) v;
     if e = 0 \<or> k = dup
     then let (r, v) = vj_rand env v in pick_sample env n dup (random_id n r) v
     else Some (k, v) }"

definition vj_perform_randomize :: "play_env \<Rightarrow> veejay \<Rightarrow> veejay option" where
  "vj_perform_randomize env v =
     (if rp_mode (st_randplayer v) = RANDMODE_INACTIVE then Some v
      else do {
        let n = sample_size (vi_adm v) - 1;
        let v = (if rp_mode (st_randplayer v) = RANDMODE_SAMPLE then v\<lparr>vi_track_dup := uc_sample_id v\<rparr> else v);
        let v = (if n = 1 then v\<lparr>vi_track_dup := 0\<rparr> else v);
        let (r, v) = vj_rand env v;
        (k, v) \<leftarrow> pick_sample env n (vi_track_dup v) (random_id n r) v;
        (start, v) \<leftarrow> on_adm (\<lambda>d. sample_get_startFrame d k) v;
        (stop, v) \<leftarrow> on_adm (\<lambda>d. sample_get_endFrame d k) v;
        let (delay, v) = (if rp_timer (st_randplayer v) = RANDTIMER_FRAME
                          then let (r, v) = vj_rand env v
                               in (1 + c_trunc (pe_dbl env (of_int ((stop - start + 1) * r)) / of_int (RAND_MAX + 1)), v)
                          else (stop - start, v));
        let v = v\<lparr>st_randplayer := (st_randplayer v)\<lparr>rp_max_delay := delay, rp_min_delay := 1\<rparr>\<rparr>;
        if vj_current_list v = None then null_deref
        else veejay_set_sample env v k })"

definition vj_perform_rand_update :: "play_env \<Rightarrow> veejay \<Rightarrow> (int \<times> veejay) option" where
  "vj_perform_rand_update env v =
     (let p = st_randplayer v
      in if rp_mode p = RANDMODE_INACTIVE then Some (0, v)
         else if rp_mode p = RANDMODE_SAMPLE
         then do {
           let delay = rp_max_delay p - 1;
           let v = v\<lparr>st_randplayer := p\<lparr>rp_max_delay := delay\<rparr>\<rparr>;
           v \<leftarrow> (if delay \<le> 0 then vj_perform_randomize env v else Some v);
           Some (1, v) }
         else Some (0, v))"

subsection \<open>From one frame to the next\<close>

definition vj_perform_increase_tag_frame :: "veejay \<Rightarrow> int \<Rightarrow> int \<times> veejay" where
  "vj_perform_increase_tag_frame v num =
     (let v = v\<lparr>st_current_frame_num := int32_of_long (st_current_frame_num v + num)\<rparr>
      in if st_current_frame_num v < st_min_frame_num v then (- 1, v\<lparr>st_current_frame_num := st_min_frame_num v\<rparr>)
         else if st_current_frame_num v \<ge> st_max_frame_num v then (- 1, v\<lparr>st_current_frame_num := st_min_frame_num v\<rparr>)
         else (0, v))"

definition vj_perform_increase_plain_frame :: "veejay \<Rightarrow> int \<Rightarrow> int \<times> veejay" where
  "vj_perform_increase_plain_frame v num =
     (let v = v\<lparr>st_simple_frame_dup := st_simple_frame_dup v + 1\<rparr>;
          v = (if st_simple_frame_dup v \<ge> vi_sfd v
               then v\<lparr>st_current_frame_num := int32_of_long (st_current_frame_num v + num), st_simple_frame_dup := 0\<rparr>
               else v)
      in if st_current_frame_num v < st_min_frame_num v then (0, v\<lparr>st_current_frame_num := st_max_frame_num v\<rparr>)
         else if st_current_frame_num v > st_max_frame_num v
         then let v = (if vi_continuous v = 0 then veejay_change_state LAVPLAY_STATE_STOP v else v)
              in (0, v\<lparr>st_current_frame_num := st_min_frame_num v\<rparr>)
         else (0, v))"

text \<open>What happens at the end the playback runs into: \<open>here\<close> is that end and \<open>there\<close> the other one.\<close>

definition bounce :: "play_env \<Rightarrow> veejay \<Rightarrow> int \<Rightarrow> int \<Rightarrow> int \<Rightarrow> veejay option" where
  "bounce env v direction here speed = do {
     (u, v) \<leftarrow> on_adm (\<lambda>d. sample_loopcount d (uc_sample_id v)) v;
     let v = v\<lparr>uc_direction := direction\<rparr>;
     (played, v) \<leftarrow> vj_perform_try_sequence env v;
     if played \<noteq> 0 then Some v
     else do {
       (E, v) \<leftarrow> on_adm (\<lambda>d. sample_get_editlist d (uc_sample_id v)) v;
       a \<leftarrow> E;
       el \<leftarrow> ad_els (vi_adm v) a;
       (r, v) \<leftarrow> on_adm (\<lambda>d. sample_apply_loop_dec d (uc_sample_id v)) v;
       (r, v) \<leftarrow> veejay_set_frame v here;
       map_option snd (veejay_set_speed v (- 1 * speed)) } }"

definition wrap :: "play_env \<Rightarrow> veejay \<Rightarrow> int \<Rightarrow> veejay option" where
  "wrap env v there = do {
     (u, v) \<leftarrow> on_adm (\<lambda>d. sample_loopcount d (uc_sample_id v)) v;
     if seq_active v = 0 then map_option snd (veejay_set_frame v there)
     else do {
       (n, v) \<leftarrow> vj_perform_valid_sequence v;
       if n \<ge> 0 then seq_play_sample env v n else map_option snd (veejay_set_frame v there) } }"

definition at_end :: "play_env \<Rightarrow> veejay \<Rightarrow> int \<Rightarrow> int \<Rightarrow> int \<Rightarrow> int \<Rightarrow> int \<Rightarrow> veejay option" where
  "at_end env v looptype direction here there speed =
     (if looptype = 2
      then do {
        v \<leftarrow> bounce env v direction here speed;
        if direction < 0 then map_option snd (on_adm (\<lambda>d. sample_loopcount d (uc_sample_id v)) v) else Some v }
      else if looptype = 1 then wrap env v there
      else if looptype = 3
      then do {
        (u, v) \<leftarrow> on_adm (\<lambda>d. sample_loopcount d (uc_sample_id v)) v;
        map_option snd (veejay_set_frame v there) }
      else do {
        (r, v) \<leftarrow> veejay_set_frame v here;
        map_option snd (veejay_set_speed v 0) })"

definition random_frame :: "play_env \<Rightarrow> int \<Rightarrow> int \<Rightarrow> int" where
  "random_frame env len r = c_trunc (pe_dbl env (pe_dbl env (of_int (len * r)) / of_int RAND_MAX))"

text \<open>Whether the frame is shown once more; a frame that is not moved from is not counted.\<close>

definition show_again :: "veejay \<Rightarrow> int \<Rightarrow> (bool \<times> veejay) option" where
  "show_again v num = do {
     (cur_sfd, v) \<leftarrow> on_adm (\<lambda>d. sample_get_framedups d (uc_sample_id v)) v;
     (max_sfd, v) \<leftarrow> on_adm (\<lambda>d. sample_get_framedup d (uc_sample_id v)) v;
     let cur_sfd = (if num \<noteq> 0 then cur_sfd + 1 else cur_sfd);
     if max_sfd > 0
     then do {
       let cur_sfd = (if cur_sfd \<ge> max_sfd then 0 else cur_sfd);
       (r, v) \<leftarrow> on_adm (\<lambda>d. sample_set_framedups d (uc_sample_id v) cur_sfd) v;
       Some (cur_sfd \<noteq> 0, v) }
     else Some (False, v) }"

definition draw_frame :: "play_env \<Rightarrow> veejay \<Rightarrow> int \<Rightarrow> int \<Rightarrow> int \<Rightarrow> veejay" where
  "draw_frame env v start stop speed =
     (let (r, v) = vj_rand env v;
          off = random_frame env (stop - start) r
      in v\<lparr>st_current_frame_num := (if speed \<ge> 0 then start + off else stop - off)\<rparr>)"

definition stay_in_range :: "play_env \<Rightarrow> veejay \<Rightarrow> int \<Rightarrow> int \<Rightarrow> int \<Rightarrow> int \<Rightarrow> veejay option" where
  "stay_in_range env v start stop looptype speed =
     (if speed \<ge> 0
      then if st_current_frame_num v > stop \<or> st_current_frame_num v < start
           then at_end env v looptype (- 1) stop start speed else Some v
      else if st_current_frame_num v < start \<or> st_current_frame_num v \<ge> stop
           then at_end env v looptype 1 start stop speed else Some v)"

definition vj_perform_increase_sample_frame :: "play_env \<Rightarrow> veejay \<Rightarrow> int \<Rightarrow> (int \<times> veejay) option" where
  "vj_perform_increase_sample_frame env v num = do {
     (info, v) \<leftarrow> on_adm (\<lambda>d. sample_get_short_info d (uc_sample_id v)) v;
     case snd info of
       None \<Rightarrow> Some (- 1, v)
     | Some (start, stop, looptype, speed) \<Rightarrow> do {
         (again, v) \<leftarrow> show_again (v\<lparr>st_current_playback_speed := speed\<rparr>) num;
         if again then Some (1, v)
         else do {
           let v = v\<lparr>st_current_frame_num := int32_of_long (st_current_frame_num v + num)\<rparr>;
           if num = 0 then Some (1, v)
           else do {
             v \<leftarrow> stay_in_range env (if looptype = 3 then draw_frame env v start stop speed else v) start stop looptype speed;
             (r, v) \<leftarrow> on_adm (\<lambda>d. sample_set_resume d (uc_sample_id v) (st_current_frame_num v)) v;
             (r, v) \<leftarrow> vj_perform_rand_update env v;
             Some (1, v) } } } }"

text \<open>The frame that was held resumes, and a followed source is selected, before the position moves on.\<close>

definition follow_source :: "play_env \<Rightarrow> veejay \<Rightarrow> veejay option" where
  "follow_source env v =
     (if vi_follow_run v = 0 then Some v
      else do {
        v \<leftarrow> veejay_set_sample env
               (v\<lparr>uc_playback_mode := (if snd (vi_follow_now v) = 0 then VJ_PLAYBACK_MODE_SAMPLE else VJ_PLAYBACK_MODE_TAG)\<rparr>)
               (fst (vi_follow_now v));
        Some (v\<lparr>vi_follow_run := 0, vi_follow_now := (0, 0)\<rparr>) })"

definition held_speed :: "veejay \<Rightarrow> (int \<times> veejay) option" where
  "held_speed v =
     (if st_hold_status v = 1
      then do {
        (speed, v) \<leftarrow> (if st_hold_pos v = 0
                       then do {
                         (r, v) \<leftarrow> veejay_increase_frame (v\<lparr>st_hold_status := 0\<rparr>) (st_hold_resume v);
                         Some (st_current_playback_speed v, v) }
                       else Some (0, v));
        Some (speed, v\<lparr>st_hold_pos := st_hold_pos v - 1\<rparr>) }
      else Some (st_current_playback_speed v, v))"

definition vj_perform_queue_frame :: "play_env \<Rightarrow> veejay \<Rightarrow> bool \<Rightarrow> (int \<times> veejay) option" where
  "vj_perform_queue_frame env v skip = do {
     v \<leftarrow> follow_source env v;
     if skip then Some (0, v)
     else do {
       (speed, v) \<leftarrow> held_speed v;
       v \<leftarrow> (if uc_playback_mode v = VJ_PLAYBACK_MODE_TAG then Some (snd (vj_perform_increase_tag_frame v speed))
             else if uc_playback_mode v = VJ_PLAYBACK_MODE_SAMPLE
             then map_option snd (vj_perform_increase_sample_frame env v speed)
             else if uc_playback_mode v = VJ_PLAYBACK_MODE_PLAIN then Some (snd (vj_perform_increase_plain_frame v speed))
             else Some v);
       let (c0, c1) = st_cycle_count v;
       Some (0, v\<lparr>st_cycle_count := (c0 + 1, if c0 + 1 = 0 then c1 + 1 else c1)\<rparr>) } }"

end
