(* ===== verification/PlayFrames.thy ===== *)
theory PlayFrames
  imports Playback
begin

text \<open>
  Playing a sample frame by frame. While no sequence and no random player is active, the steps of \<open>Playback\<close> on the
  record of the sample and the position come to \<open>next_frame\<close>, a function of the record and the position alone, and the
  way the position takes is a fact about that function.
\<close>

subsection \<open>The specification of one frame\<close>

text \<open>
  The range that is played: the markers when both are set, else the frames of the sample. (\<open>veejay_set_speed\<close> takes the
  distance between two other getters, which differ from these when one marker is set.)
\<close>

definition play_range :: "sample_info \<Rightarrow> int \<times> int" where
  "play_range si =
     (if si_marker_start si \<ge> 0 \<and> si_marker_end si > 0 then (si_marker_start si, si_marker_end si)
      else (int32_of_long (si_first_frame si), int32_of_long (si_last_frame si)))"

definition get_start :: "sample_info \<Rightarrow> int" where
  "get_start si = (if si_marker_start si \<ge> 0 \<or> si_marker_end si > 0 then si_marker_start si
                   else int32_of_long (si_first_frame si))"

definition get_end :: "sample_info \<Rightarrow> int" where
  "get_end si = (if si_marker_end si > 0 \<and> si_marker_start si \<ge> 0 then si_marker_end si
                 else int32_of_long (si_last_frame si))"

definition clamp :: "int \<Rightarrow> int \<Rightarrow> int \<Rightarrow> int" where
  "clamp a b x = min b (max a x)"

definition put_pos :: "int \<times> int \<Rightarrow> int \<Rightarrow> sample_info \<Rightarrow> sample_info \<times> int" where
  "put_pos bounds p si =
     (let (a, b) = play_range si; p = clamp a b (clamp (fst bounds) (snd bounds) p)
      in (if p = a \<or> p = b then si\<lparr>si_dups := 0\<rparr> else si, p))"

definition speed_fits :: "sample_info \<Rightarrow> int \<Rightarrow> bool" where
  "speed_fits si s \<longleftrightarrow> \<bar>s\<bar> \<le> get_end si - get_start si \<and> \<bar>s\<bar> \<le> frames si"

definition put_speed :: "int \<Rightarrow> sample_info \<Rightarrow> sample_info \<times> int" where
  "put_speed s si = (if speed_fits si (clamp_speed s) then (si\<lparr>si_speed := clamp_speed s\<rparr>, clamp_speed s) else (si, si_speed si))"

definition count_loop :: "sample_info \<Rightarrow> sample_info" where
  "count_loop si = si\<lparr>si_loopcount := (if si_loopcount si + 1 > 1000000 then 0 else si_loopcount si + 1)\<rparr>"

text \<open>What happens at an end, for each kind of loop: the new record, position and speed.\<close>

definition loop_end :: "int \<times> int \<Rightarrow> int \<Rightarrow> int \<Rightarrow> bool \<Rightarrow> sample_info \<Rightarrow> sample_info \<times> int \<times> int" where
  "loop_end bounds here there forward si =
     (if si_looptype si = 2
      then let si = (count_loop si); si = si\<lparr>si_loop_dec := si_loop_dec si + 1\<rparr>;
               (si, p) = put_pos bounds here si;
               (si, s) = put_speed (- si_speed si) si
           in (if forward then count_loop si else si, p, s)
      else if si_looptype si = 1 \<or> si_looptype si = 3
      then let (si, p) = put_pos bounds there (count_loop si) in (si, p, si_speed si)
      else let (si, p) = put_pos bounds here si; (si, s) = put_speed 0 si in (si, p, s))"

text \<open>
  The step by \<open>num\<close> frames; \<open>rnd\<close> is the frame that is drawn, as its distance from the end that is played from.
\<close>

definition dups_after :: "int \<Rightarrow> sample_info \<Rightarrow> int" where
  "dups_after num si = (let dups = (if num \<noteq> 0 then si_dups si + 1 else si_dups si)
                        in if si_dup si > 0 \<and> dups \<ge> si_dup si then 0 else dups)"

definition count_dup :: "int \<Rightarrow> sample_info \<Rightarrow> sample_info" where
  "count_dup num si = (if si_dup si > 0 then si\<lparr>si_dups := dups_after num si\<rparr> else si)"

definition waits :: "int \<Rightarrow> sample_info \<Rightarrow> bool" where
  "waits num si \<longleftrightarrow> si_dup si > 0 \<and> dups_after num si \<noteq> 0"

definition outside_range :: "sample_info \<Rightarrow> int \<Rightarrow> bool" where
  "outside_range si p \<longleftrightarrow>
     (if si_speed si \<ge> 0 then p > snd (play_range si) \<or> p < fst (play_range si)
      else p < fst (play_range si) \<or> p \<ge> snd (play_range si))"

definition at_range_end :: "int \<times> int \<Rightarrow> sample_info \<Rightarrow> sample_info \<times> int \<times> int" where
  "at_range_end bounds si =
     (if si_speed si \<ge> 0 then loop_end bounds (snd (play_range si)) (fst (play_range si)) True si
      else loop_end bounds (fst (play_range si)) (snd (play_range si)) False si)"

definition next_frame :: "int \<times> int \<Rightarrow> int \<Rightarrow> int \<Rightarrow> sample_info \<Rightarrow> int \<Rightarrow> sample_info \<times> int \<times> int" where
  "next_frame bounds rnd num si p =
     (let sj = count_dup num si
      in if waits num si then (sj, p, si_speed si)
         else if num = 0 then (sj, int32_of_long p, si_speed si)
         else let p = (if si_looptype si = 3
                       then (if si_speed si \<ge> 0 then fst (play_range si) + rnd else snd (play_range si) - rnd)
                       else int32_of_long (p + num));
                  (sk, p, s) = (if outside_range sj p then at_range_end bounds sj else (sj, p, si_speed si))
              in (sk\<lparr>si_resume_pos := p\<rparr>, p, s))"

definition draws :: "int \<Rightarrow> sample_info \<Rightarrow> bool" where
  "draws num si \<longleftrightarrow> \<not> waits num si \<and> num \<noteq> 0 \<and> si_looptype si = 3"

subsection \<open>Changes of the record of one sample\<close>

text \<open>\<open>d'\<close> is \<open>d\<close> with record \<open>si\<close> under identifier \<open>k\<close>, up to the pointer cache.\<close>

definition becomes :: "int \<Rightarrow> sample_info \<Rightarrow> adm \<Rightarrow> adm \<Rightarrow> bool" where
  "becomes k si d d' \<longleftrightarrow> adm_ok d' \<and> sample_at d' k = Some si \<and> (\<forall>j. j \<noteq> k \<longrightarrow> sample_at d' j = sample_at d j) \<and>
     ad_els d' = ad_els d \<and> ad_tags d' = ad_tags d \<and> ad_fx d' = ad_fx d \<and> this_sample_id d' = this_sample_id d \<and>
     hash_of d' = hash_of d"

lemma becomesD:
  assumes "becomes k si d d'"
  shows "adm_ok d'" "sample_at d' k = Some si" "ad_els d' = ad_els d"
  using assms by (simp_all add: becomes_def)

lemma becomes_trans: "becomes k si d d1 \<Longrightarrow> becomes k sj d1 d2 \<Longrightarrow> becomes k sj d d2"
  by (simp add: becomes_def)

lemma becomes_self: "adm_ok d \<Longrightarrow> sample_at d k = Some si \<Longrightarrow> becomes k si d d"
  by (simp add: becomes_def)

lemma becomes_memo: "adm_ok d \<Longrightarrow> sample_at d k = Some si \<Longrightarrow> becomes k si d (memo_sample d j)"
  by (simp add: becomes_def adm_ok_memo)

lemma modify_sample_fields [simp]:
  "ad_els (modify_sample d k f) = ad_els d" "ad_tags (modify_sample d k f) = ad_tags d"
  "ad_fx (modify_sample d k f) = ad_fx d" "this_sample_id (modify_sample d k f) = this_sample_id d"
  "hash_of (modify_sample d k f) = hash_of d"
  by (simp_all add: modify_sample_def split: option.splits)

lemma becomes_modify:
  assumes "adm_ok d" "sample_at d k = Some si" "\<forall>si. si_sample_id (f si) = si_sample_id si"
  shows "becomes k (f si) d (modify_sample d k f)"
  using assms by (simp add: becomes_def adm_ok_modify sample_at_modify)

lemma becomes_frames:
  assumes "adm_ok d" "sample_at d k = Some si" "k \<noteq> SAMPLE_MAX_SAMPLES"
  shows becomes_read: "read_sample d k dflt g = Some (g si, memo_sample d k)"
    and becomes_write: "write_sample d k dflt r f = Some (r, modify_sample d k f)"
  using assms by (simp_all add: read_sample_at write_sample_modify)

subsection \<open>The state of playing a sample\<close>

definition plays :: "int \<Rightarrow> sample_info \<Rightarrow> veejay \<Rightarrow> bool" where
  "plays k si v \<longleftrightarrow> uc_playback_mode v = VJ_PLAYBACK_MODE_SAMPLE \<and> uc_sample_id v = k \<and> k \<noteq> SAMPLE_MAX_SAMPLES \<and>
     adm_ok (vi_adm v) \<and> sample_at (vi_adm v) k = Some si"

lemma playsD:
  assumes "plays k si v"
  shows "uc_playback_mode v = VJ_PLAYBACK_MODE_SAMPLE" "uc_sample_id v = k" "k \<noteq> SAMPLE_MAX_SAMPLES"
    "adm_ok (vi_adm v)" "sample_at (vi_adm v) k = Some si"
  using assms by (simp_all add: plays_def)

text \<open>A step that leaves record \<open>sj\<close> behind and otherwise only does \<open>f\<close> to the fields of playback.\<close>

definition moves :: "int \<Rightarrow> sample_info \<Rightarrow> veejay \<Rightarrow> veejay \<Rightarrow> bool" where
  "moves k sj v v' \<longleftrightarrow> (\<exists>d'. v' = v\<lparr>vi_adm := d'\<rparr> \<and> becomes k sj (vi_adm v) d')"

lemma on_adm_read:
  assumes "plays k si v"
  shows "\<exists>v'. on_adm (\<lambda>d. read_sample d k dflt g) v = Some (g si, v') \<and> moves k si v v'"
proof -
  note p = playsD [OF assms]
  show ?thesis
    by (rule exI [of _ "v\<lparr>vi_adm := memo_sample (vi_adm v) k\<rparr>"])
      (use p becomes_read [OF p(4,5,3), of dflt g] becomes_memo [OF p(4,5)] in \<open>auto simp: on_adm_def moves_def\<close>)
qed

lemma on_adm_write:
  assumes "plays k si v" "\<forall>si. si_sample_id (g si) = si_sample_id si"
  shows "\<exists>v'. on_adm (\<lambda>d. write_sample d k dflt r g) v = Some (r, v') \<and> moves k (g si) v v'"
proof -
  note p = playsD [OF assms(1)]
  show ?thesis
    by (rule exI [of _ "v\<lparr>vi_adm := modify_sample (vi_adm v) k g\<rparr>"])
      (use p becomes_write [OF p(4,5,3), of dflt r g] becomes_modify [OF p(4,5) assms(2)] in
        \<open>auto simp: on_adm_def moves_def\<close>)
qed

lemma moves_plays: "plays k si v \<Longrightarrow> moves k sj v v' \<Longrightarrow> plays k sj v'"
  by (auto simp: plays_def moves_def becomes_def)

lemma moves_trans: "moves k si v v1 \<Longrightarrow> moves k sj v1 v2 \<Longrightarrow> moves k sj v v2"
  unfolding moves_def
proof (elim exE conjE)
  fix d1 d2 assume "v1 = v\<lparr>vi_adm := d1\<rparr>" "becomes k si (vi_adm v) d1" "v2 = v1\<lparr>vi_adm := d2\<rparr>" "becomes k sj (vi_adm v1) d2"
  then show "\<exists>d'. v2 = v\<lparr>vi_adm := d'\<rparr> \<and> becomes k sj (vi_adm v) d'"
    by (intro exI [of _ d2]) (auto intro: becomes_trans)
qed

lemma moves_self: "plays k si v \<Longrightarrow> moves k si v v"
  unfolding moves_def by (intro exI [of _ "vi_adm v"]) (simp add: plays_def becomes_self)

lemma moves_fields:
  assumes "moves k sj v v'"
  shows "st_min_frame_num v' = st_min_frame_num v" "st_max_frame_num v' = st_max_frame_num v"
    "st_current_frame_num v' = st_current_frame_num v" "st_current_playback_speed v' = st_current_playback_speed v"
    "uc_playback_mode v' = uc_playback_mode v" "uc_sample_id v' = uc_sample_id v" "seq_active v' = seq_active v"
    "st_randplayer v' = st_randplayer v" "st_hold_status v' = st_hold_status v" "vi_follow_run v' = vi_follow_run v"
    "vi_rands v' = vi_rands v" "st_cycle_count v' = st_cycle_count v" "ad_els (vi_adm v') = ad_els (vi_adm v)"
  using assms by (auto simp: moves_def becomes_def)

text \<open>Updates of the fields of playback commute with such a step.\<close>

lemma moves_update:
  assumes "moves k sj v v'"
  shows "moves k sj (v\<lparr>st_current_frame_num := x\<rparr>) (v'\<lparr>st_current_frame_num := x\<rparr>)"
    "moves k sj (v\<lparr>st_current_playback_speed := y\<rparr>) (v'\<lparr>st_current_playback_speed := y\<rparr>)"
    "moves k sj (v\<lparr>uc_direction := z\<rparr>) (v'\<lparr>uc_direction := z\<rparr>)"
proof -
  obtain d' where d': "v' = v\<lparr>vi_adm := d'\<rparr>" "becomes k sj (vi_adm v) d'" using assms by (auto simp: moves_def)
  then show "moves k sj (v\<lparr>st_current_frame_num := x\<rparr>) (v'\<lparr>st_current_frame_num := x\<rparr>)"
    "moves k sj (v\<lparr>st_current_playback_speed := y\<rparr>) (v'\<lparr>st_current_playback_speed := y\<rparr>)"
    "moves k sj (v\<lparr>uc_direction := z\<rparr>) (v'\<lparr>uc_direction := z\<rparr>)"
    unfolding moves_def by (intro exI [of _ d'] conjI; simp)+
qed

lemma plays_update:
  assumes "plays k si v"
  shows "plays k si (v\<lparr>st_current_frame_num := x\<rparr>)" "plays k si (v\<lparr>st_current_playback_speed := y\<rparr>)"
    "plays k si (v\<lparr>uc_direction := z\<rparr>)"
  using assms by (simp_all add: plays_def)

subsection \<open>The operations in that state\<close>

lemma short_info_plays:
  assumes "plays k si v"
  shows "\<exists>v'. on_adm (\<lambda>d. sample_get_short_info d k) v =
      Some ((0, Some (fst (play_range si), snd (play_range si), si_looptype si, si_speed si)), v') \<and> moves k si v v'"
proof -
  have "sample_get_short_info d k = read_sample d k (- 1, None)
      (\<lambda>si. (0, Some (fst (play_range si), snd (play_range si), si_looptype si, si_speed si)))" for d
    unfolding sample_get_short_info_def by (rule arg_cong [of _ _ "read_sample d k (- 1, None)"]) (auto simp: play_range_def)
  then show ?thesis by (simp only:) (rule on_adm_read [OF assms])
qed

lemma writes_plays:
  assumes "plays k si v"
  shows set_framedups_plays: "\<exists>v'. on_adm (\<lambda>d. sample_set_framedups d k n) v = Some (1, v') \<and> moves k (si\<lparr>si_dups := n\<rparr>) v v'"
    and set_resume_plays: "\<exists>v'. on_adm (\<lambda>d. sample_set_resume d k n) v = Some (1, v') \<and> moves k (si\<lparr>si_resume_pos := n\<rparr>) v v'"
    and loop_dec_plays: "\<exists>v'. on_adm (\<lambda>d. sample_apply_loop_dec d k) v = Some (1, v') \<and>
          moves k (si\<lparr>si_loop_dec := si_loop_dec si + 1\<rparr>) v v'"
    and loopcount_plays: "\<exists>v'. on_adm (\<lambda>d. sample_loopcount d k) v = Some ((), v') \<and> moves k (count_loop si) v v'"
  unfolding sample_set_framedups_def sample_set_resume_def sample_apply_loop_dec_def sample_loopcount_def count_loop_def
  by (rule on_adm_write [OF assms]; simp)+

lemma reads_plays:
  assumes "plays k si v"
  shows get_start_plays: "\<exists>v'. on_adm (\<lambda>d. sample_get_startFrame d k) v = Some (get_start si, v') \<and> moves k si v v'"
    and get_end_plays: "\<exists>v'. on_adm (\<lambda>d. sample_get_endFrame d k) v = Some (get_end si, v') \<and> moves k si v v'"
    and get_framedup_plays: "\<exists>v'. on_adm (\<lambda>d. sample_get_framedup d k) v = Some (si_dup si, v') \<and> moves k si v v'"
    and get_framedups_plays: "\<exists>v'. on_adm (\<lambda>d. sample_get_framedups d k) v = Some (si_dups si, v') \<and> moves k si v v'"
    and get_editlist_plays: "\<exists>v'. on_adm (\<lambda>d. sample_get_editlist d k) v = Some (si_edit_list si, v') \<and> moves k si v v'"
  unfolding sample_get_startFrame_def sample_get_endFrame_def sample_get_framedup_def sample_get_framedups_def
    sample_get_editlist_def get_start_def get_end_def
  by (rule on_adm_read [OF assms])+

lemma set_speed_sample_plays:
  assumes "plays k si v" "\<bar>s\<bar> \<le> MAX_SPEED"
  shows "\<exists>v'. on_adm (\<lambda>d. sample_set_speed d k s) v = Some (if \<bar>s\<bar> \<le> frames si then 1 else - 1, v') \<and>
     moves k (if \<bar>s\<bar> \<le> frames si then si\<lparr>si_speed := s\<rparr> else si) v v'"
proof -
  note p = playsD [OF assms(1)]
  obtain d' where "sample_set_speed (vi_adm v) k s = Some (fst (spec_cmd (Set_speed s) si), d')" "adm_ok d'"
    "\<forall>j. sample_at d' j = (if j = k then map_option (\<lambda>si. snd (spec_cmd (Set_speed s) si)) (sample_at (vi_adm v) k) else sample_at (vi_adm v) j)"
    "d' = modify_sample (vi_adm v) k (\<lambda>si. snd (spec_cmd (Set_speed s) si))"
    using exec_cmd_modify [OF p(4,3), of "Set_speed s"] adm_ok_modify [OF p(4)] sample_at_modify [OF p(4)] spec_cmd_id p(5)
    by (auto simp: exec_cmd_def)
  then show ?thesis
    using assms(2) p(5) unfolding on_adm_def moves_def becomes_def
    by (intro exI [of _ "v\<lparr>vi_adm := d'\<rparr>"]) (auto simp: spec_cmd_def accept_def intro!: exI [of _ d'])
qed

lemma set_frame_plays:
  assumes "plays k si v" "put_pos (st_min_frame_num v, st_max_frame_num v) p si = (sj, q)" "st_min_frame_num v \<le> st_max_frame_num v"
    "fst (play_range si) \<le> snd (play_range si)"
  obtains v' where "veejay_set_frame v p = Some (1, v')" "moves k sj (v\<lparr>st_current_frame_num := q\<rparr>) v'"
proof -
  note p = playsD [OF assms(1)]
  obtain v1 where v1: "on_adm (\<lambda>d. sample_get_short_info d k) v =
      Some ((0, Some (fst (play_range si), snd (play_range si), si_looptype si, si_speed si)), v1)" "moves k si v v1"
    using short_info_plays [OF assms(1)] by blast
  note p1 = moves_plays [OF assms(1) v1(2)]
  obtain v2 where v2: "on_adm (\<lambda>d. sample_set_framedups d k 0) v1 = Some (1, v2)" "moves k (si\<lparr>si_dups := 0\<rparr>) v1 v2"
    using set_framedups_plays [OF p1] by blast
  let ?a = "fst (play_range si)" and ?b = "snd (play_range si)"
  let ?p = "clamp ?a ?b (clamp (st_min_frame_num v) (st_max_frame_num v) p)"
  have q: "q = ?p" "sj = (if ?p = ?a \<or> ?p = ?b then si\<lparr>si_dups := 0\<rparr> else si)"
    using assms(2) by (auto simp: put_pos_def Let_def split: prod.splits if_splits)
  let ?v = "if ?p = ?a \<or> ?p = ?b then v2 else v1"
  have run: "veejay_set_frame v p = Some (1, ?v\<lparr>st_current_frame_num := q\<rparr>)"
  proof -
    have "(let framenum = (if p < st_min_frame_num v then st_min_frame_num v else p);
              framenum = (if framenum > st_max_frame_num v then st_max_frame_num v else framenum);
              framenum = (if framenum < ?a then ?a else framenum)
           in if framenum > ?b then ?b else framenum) = ?p"
      using assms(3,4) by (auto simp: clamp_def Let_def min_def max_def)
    then show ?thesis
      using p(1,2) v1(1) v2(1) moves_fields(6) [OF v1(2)]
      by (simp add: veejay_set_frame_def Let_def q(1))
  qed
  have "moves k sj v ?v" using v1(2) moves_trans [OF v1(2) v2(2)] q(2) by simp
  from that [OF run moves_update(1) [OF this]] show ?thesis .
qed

text \<open>A step that also leaves position \<open>p\<close>, speed \<open>s\<close> and some direction behind.\<close>

definition arrives :: "int \<Rightarrow> sample_info \<Rightarrow> int \<Rightarrow> int \<Rightarrow> veejay \<Rightarrow> veejay \<Rightarrow> bool" where
  "arrives k sj p s v v' \<longleftrightarrow> (\<exists>d' z. becomes k sj (vi_adm v) d' \<and>
     v' = v\<lparr>vi_adm := d', st_current_frame_num := p, st_current_playback_speed := s, uc_direction := z\<rparr>)"

lemma arrivesE:
  assumes "arrives k sj p s v v'"
  obtains d' z where "becomes k sj (vi_adm v) d'"
    "v' = v\<lparr>vi_adm := d', st_current_frame_num := p, st_current_playback_speed := s, uc_direction := z\<rparr>"
  using assms by (auto simp: arrives_def)

lemma arrives_trans:
  assumes "arrives k si p s v v1" "arrives k sj q t v1 v2"
  shows "arrives k sj q t v v2"
proof (rule arrivesE [OF assms(1)], rule arrivesE [OF assms(2)])
  fix d1 z1 d2 z2
  assume "becomes k si (vi_adm v) d1"
    "v1 = v\<lparr>vi_adm := d1, st_current_frame_num := p, st_current_playback_speed := s, uc_direction := z1\<rparr>"
    "becomes k sj (vi_adm v1) d2"
    "v2 = v1\<lparr>vi_adm := d2, st_current_frame_num := q, st_current_playback_speed := t, uc_direction := z2\<rparr>"
  then show ?thesis unfolding arrives_def by (intro exI [of _ d2] exI [of _ z2]) (auto intro: becomes_trans)
qed

lemma moves_arrives:
  assumes "moves k sj v v'"
  shows "arrives k sj (st_current_frame_num v) (st_current_playback_speed v) v v'"
proof -
  obtain d' where "becomes k sj (vi_adm v) d'" "v' = v\<lparr>vi_adm := d'\<rparr>" using assms by (auto simp: moves_def)
  then show ?thesis unfolding arrives_def by (intro exI [of _ d'] exI [of _ "uc_direction v"]) simp
qed

lemma moves_arrives':
  assumes "moves k sj (v\<lparr>st_current_frame_num := p\<rparr>) v'"
  shows "arrives k sj p (st_current_playback_speed v) v v'"
proof -
  obtain d' where "becomes k sj (vi_adm v) d'" "v' = v\<lparr>st_current_frame_num := p, vi_adm := d'\<rparr>"
    using assms by (auto simp: moves_def)
  then show ?thesis unfolding arrives_def by (intro exI [of _ d'] exI [of _ "uc_direction v"]) simp
qed

lemma arrives_plays: "plays k si v \<Longrightarrow> arrives k sj p s v v' \<Longrightarrow> plays k sj v'"
  by (auto simp: plays_def arrives_def becomes_def)

lemma arrives_fields:
  assumes "arrives k sj p s v v'"
  shows "st_min_frame_num v' = st_min_frame_num v" "st_max_frame_num v' = st_max_frame_num v"
    "st_current_frame_num v' = p" "st_current_playback_speed v' = s"
    "uc_playback_mode v' = uc_playback_mode v" "uc_sample_id v' = uc_sample_id v" "seq_active v' = seq_active v"
    "st_randplayer v' = st_randplayer v" "st_hold_status v' = st_hold_status v" "vi_follow_run v' = vi_follow_run v"
    "vi_rands v' = vi_rands v" "st_cycle_count v' = st_cycle_count v" "ad_els (vi_adm v') = ad_els (vi_adm v)"
  using assms by (auto simp: arrives_def becomes_def)

lemma arrives_speed:
  assumes "arrives k sj p s v v'"
  shows "arrives k sj p t v (v'\<lparr>st_current_playback_speed := t\<rparr>)"
proof (rule arrivesE [OF assms])
  fix d' z assume "becomes k sj (vi_adm v) d'"
    "v' = v\<lparr>vi_adm := d', st_current_frame_num := p, st_current_playback_speed := s, uc_direction := z\<rparr>"
  then show ?thesis unfolding arrives_def by (intro exI [of _ d'] exI [of _ z]) simp
qed

lemma arrives_direction:
  assumes "arrives k sj p s v v'"
  shows "arrives k sj p s v (v'\<lparr>uc_direction := x\<rparr>)"
proof (rule arrivesE [OF assms])
  fix d' z assume "becomes k sj (vi_adm v) d'"
    "v' = v\<lparr>vi_adm := d', st_current_frame_num := p, st_current_playback_speed := s, uc_direction := z\<rparr>"
  then show ?thesis unfolding arrives_def by (intro exI [of _ d'] exI [of _ x]) simp
qed

lemma set_speed_plays:
  assumes "plays k si v"
  obtains v' where "veejay_set_speed v s = Some (1, v')"
    "arrives k (if speed_fits si (clamp_speed s) then si\<lparr>si_speed := clamp_speed s\<rparr> else si) (st_current_frame_num v)
       (if speed_fits si (clamp_speed s) then clamp_speed s else st_current_playback_speed v) v v'"
proof -
  note p = playsD [OF assms(1)]
  define c where "c = clamp_speed s"
  have c: "\<bar>c\<bar> \<le> MAX_SPEED" by (auto simp: c_def clamp_speed_def MAX_SPEED_def)
  obtain v1 where v1: "on_adm (\<lambda>d. sample_get_endFrame d k) v = Some (get_end si, v1)" "moves k si v v1"
    using get_end_plays [OF assms(1)] by blast
  note p1 = moves_plays [OF assms(1) v1(2)]
  obtain v2 where v2: "on_adm (\<lambda>d. sample_get_startFrame d k) v1 = Some (get_start si, v2)" "moves k si v1 v2"
    using get_start_plays [OF p1] by blast
  note p2 = moves_plays [OF p1 v2(2)] and m2 = moves_trans [OF v1(2) v2(2)]
  obtain v3 where v3: "on_adm (\<lambda>d. sample_set_speed d k c) v2 = Some (if \<bar>c\<bar> \<le> frames si then 1 else - 1, v3)"
    "moves k (if \<bar>c\<bar> \<le> frames si then si\<lparr>si_speed := c\<rparr> else si) v2 v3"
    using set_speed_sample_plays [OF p2 c] by blast
  note m3 = moves_arrives [OF moves_trans [OF m2 v3(2)]]
  have ids: "uc_sample_id v = k" "uc_sample_id v1 = k" "uc_sample_id v2 = k"
    using p(2) moves_fields(6) [OF v1(2)] moves_fields(6) [OF m2] by simp_all
  have two: "(0 \<le> c \<longrightarrow> c \<le> get_end si - get_start si) \<and> (c < 0 \<longrightarrow> - (get_end si - get_start si) \<le> c) \<longleftrightarrow>
      \<bar>c\<bar> \<le> get_end si - get_start si" by auto
  have run: "veejay_set_speed v s = Some (1,
      if \<bar>c\<bar> \<le> get_end si - get_start si then (if \<bar>c\<bar> \<le> frames si then v3\<lparr>st_current_playback_speed := c\<rparr> else v3) else v2)"
    using p(1) v1(1) v2(1) v3(1) ids
    by (auto simp: veejay_set_speed_def Let_def c_def [symmetric] mode_consts)
  show ?thesis
    unfolding c_def [symmetric]
  proof (cases "\<bar>c\<bar> \<le> get_end si - get_start si")
    case False
    then show ?thesis
      using that [unfolded c_def [symmetric], OF run] moves_arrives [OF m2] by (simp add: speed_fits_def)
  next
    case len: True
    show ?thesis
    proof (cases "\<bar>c\<bar> \<le> frames si")
      case True
      then show ?thesis
        using that [unfolded c_def [symmetric], OF run] arrives_speed [OF m3, of c] len by (simp add: speed_fits_def)
    next
      case False
      then show ?thesis using that [unfolded c_def [symmetric], OF run] m3 len by (simp add: speed_fits_def)
    qed
  qed
qed

subsection \<open>The end of the range\<close>

definition listed :: "veejay \<Rightarrow> sample_info \<Rightarrow> bool" where
  "listed v si \<longleftrightarrow> (\<exists>a. si_edit_list si = Some a \<and> ad_els (vi_adm v) a \<noteq> None)"

text \<open>A sample plays by itself: no sequence, no random player, and its list is there.\<close>

definition solo :: "int \<Rightarrow> sample_info \<Rightarrow> veejay \<Rightarrow> bool" where
  "solo k si v \<longleftrightarrow> plays k si v \<and> seq_active v = 0 \<and> rp_mode (st_randplayer v) = RANDMODE_INACTIVE \<and> listed v si \<and>
     st_min_frame_num v \<le> st_max_frame_num v \<and> fst (play_range si) \<le> snd (play_range si)"

abbreviation bounds_of :: "veejay \<Rightarrow> int \<times> int" where
  "bounds_of v \<equiv> (st_min_frame_num v, st_max_frame_num v)"

lemma solo_arrives:
  assumes "solo k si v" "arrives k sj p s v v'" "play_range sj = play_range si" "si_edit_list sj = si_edit_list si"
  shows "solo k sj v'"
  using assms arrives_plays [of k si v sj p s v'] arrives_fields [OF assms(2)] by (simp add: solo_def listed_def)

lemma same_range [simp]:
  "play_range (si\<lparr>si_dups := n\<rparr>) = play_range si" "play_range (si\<lparr>si_speed := n\<rparr>) = play_range si"
  "play_range (si\<lparr>si_loop_dec := n\<rparr>) = play_range si" "play_range (si\<lparr>si_resume_pos := n\<rparr>) = play_range si"
  "play_range (count_loop si) = play_range si"
  by (simp_all add: play_range_def count_loop_def)

lemma count_loop_keeps [simp]:
  "si_speed (count_loop si) = si_speed si" "si_edit_list (count_loop si) = si_edit_list si"
  "si_looptype (count_loop si) = si_looptype si" "si_dup (count_loop si) = si_dup si"
  "si_loop_dec (count_loop si) = si_loop_dec si"
  by (simp_all add: count_loop_def)

lemma put_pos_keeps:
  assumes "put_pos bounds p si = (sj, q)"
  shows "play_range sj = play_range si" "si_edit_list sj = si_edit_list si" "si_speed sj = si_speed si"
    "si_looptype sj = si_looptype si" "si_dup sj = si_dup si"
    "fst (play_range si) \<le> snd (play_range si) \<Longrightarrow> fst (play_range si) \<le> q \<and> q \<le> snd (play_range si)"
proof -
  have "sj = si \<or> sj = si\<lparr>si_dups := 0\<rparr>" using assms by (auto simp: put_pos_def Let_def split: prod.splits if_splits)
  then show "play_range sj = play_range si" "si_edit_list sj = si_edit_list si" "si_speed sj = si_speed si"
    "si_looptype sj = si_looptype si" "si_dup sj = si_dup si" by auto
  have "q = clamp (fst (play_range si)) (snd (play_range si)) (clamp (fst bounds) (snd bounds) p)"
    using assms by (simp add: put_pos_def Let_def split: prod.splits)
  then show "fst (play_range si) \<le> snd (play_range si) \<Longrightarrow> fst (play_range si) \<le> q \<and> q \<le> snd (play_range si)"
    by (simp add: clamp_def)
qed

lemma put_speed_keeps:
  assumes "put_speed s si = (sj, t)"
  shows "play_range sj = play_range si" "si_edit_list sj = si_edit_list si" "si_speed sj = t"
    "si_looptype sj = si_looptype si" "si_dup sj = si_dup si"
  using assms by (auto simp: put_speed_def split: if_splits)

text \<open>Moving to an end of the range, from a position and a speed of which only the speed counts.\<close>

lemma go_to:
  assumes "solo k si v" "put_pos (bounds_of v) p si = (sj, q)"
  obtains v' where "veejay_set_frame v p = Some (1, v')" "arrives k sj q (st_current_playback_speed v) v v'" "solo k sj v'"
proof -
  have s: "plays k si v" "st_min_frame_num v \<le> st_max_frame_num v" "fst (play_range si) \<le> snd (play_range si)"
    using assms(1) by (simp_all add: solo_def)
  obtain v' where v': "veejay_set_frame v p = Some (1, v')" "moves k sj (v\<lparr>st_current_frame_num := q\<rparr>) v'"
    by (rule set_frame_plays [OF s(1) assms(2) s(2,3)])
  show ?thesis
    by (rule that [OF v'(1) moves_arrives' [OF v'(2)] solo_arrives [OF assms(1) moves_arrives' [OF v'(2)]]])
      (use put_pos_keeps [OF assms(2)] in simp_all)
qed

lemma go_on:
  assumes "solo k si v" "st_current_playback_speed v = si_speed si" "put_speed s si = (sj, t)"
  obtains v' where "veejay_set_speed v s = Some (1, v')" "arrives k sj (st_current_frame_num v) t v v'" "solo k sj v'"
proof -
  have p: "plays k si v" using assms(1) by (simp add: solo_def)
  obtain v' where v': "veejay_set_speed v s = Some (1, v')" "arrives k sj (st_current_frame_num v) t v v'"
    by (rule set_speed_plays [OF p, of s]) (use assms(2,3) in \<open>auto simp: put_speed_def split: if_splits\<close>)
  show ?thesis
    by (rule that [OF v' solo_arrives [OF assms(1) v'(2)]]) (use put_speed_keeps [OF assms(3)] in simp_all)
qed

lemma count_plays:
  assumes "solo k si v"
  obtains v' where "on_adm (\<lambda>d. sample_loopcount d (uc_sample_id v)) v = Some ((), v')"
    "arrives k (count_loop si) (st_current_frame_num v) (st_current_playback_speed v) v v'" "solo k (count_loop si) v'"
proof -
  have p: "plays k si v" using assms(1) by (simp add: solo_def)
  obtain v' where v': "on_adm (\<lambda>d. sample_loopcount d k) v = Some ((), v')" "moves k (count_loop si) v v'"
    using loopcount_plays [OF p] by blast
  show ?thesis
    by (rule that [OF _ moves_arrives [OF v'(2)] solo_arrives [OF assms(1) moves_arrives [OF v'(2)]]])
      (use v' playsD(2) [OF p] in simp_all)
qed

lemma bounce_solo:
  assumes "solo k si v" "st_current_playback_speed v = si_speed si"
    "put_pos (bounds_of v) here ((count_loop si)\<lparr>si_loop_dec := si_loop_dec si + 1\<rparr>) = (s1, q)"
    "put_speed (- si_speed si) s1 = (sj, t)"
  obtains v' where "bounce env v direction here (si_speed si) = Some v'" "arrives k sj q t v v'" "solo k sj v'"
proof -
  obtain v1 where v1: "on_adm (\<lambda>d. sample_loopcount d (uc_sample_id v)) v = Some ((), v1)"
    "arrives k (count_loop si) (st_current_frame_num v) (st_current_playback_speed v) v v1" "solo k (count_loop si) v1"
    by (rule count_plays [OF assms(1)])
  let ?v1 = "v1\<lparr>uc_direction := direction\<rparr>"
  have a1: "arrives k (count_loop si) (st_current_frame_num v) (st_current_playback_speed v) v ?v1"
    by (rule arrives_direction [OF v1(2)])
  have s1: "solo k (count_loop si) ?v1" by (rule solo_arrives [OF assms(1) a1]) simp_all
  note p1 = s1 [unfolded solo_def, THEN conjunct1]
  obtain v2 where v2: "on_adm (\<lambda>d. sample_get_editlist d k) ?v1 = Some (si_edit_list si, v2)" "moves k (count_loop si) ?v1 v2"
    using get_editlist_plays [OF p1] by auto
  note p2 = moves_plays [OF p1 v2(2)]
  obtain a el where el: "si_edit_list si = Some a" "ad_els (vi_adm v2) a = Some el"
    using s1 moves_fields(13) [OF v2(2)] by (auto simp: solo_def listed_def)
  obtain v3 where v3: "on_adm (\<lambda>d. sample_apply_loop_dec d k) v2 = Some (1, v3)"
    "moves k ((count_loop si)\<lparr>si_loop_dec := si_loop_dec si + 1\<rparr>) v2 v3"
    using loop_dec_plays [OF p2] by (auto simp: count_loop_def)
  note m3 = moves_arrives [OF moves_trans [OF v2(2) v3(2)]]
  have s3: "solo k ((count_loop si)\<lparr>si_loop_dec := si_loop_dec si + 1\<rparr>) v3" by (rule solo_arrives [OF s1 m3]) simp_all
  have b3: "bounds_of v3 = bounds_of v" using arrives_fields(1,2) [OF a1] arrives_fields(1,2) [OF m3] by simp
  obtain v4 where v4: "veejay_set_frame v3 here = Some (1, v4)" "arrives k s1 q (st_current_playback_speed v3) v3 v4" "solo k s1 v4"
    by (rule go_to [OF s3]) (use assms(3) b3 in simp)
  have sp: "st_current_playback_speed v4 = si_speed s1"
    using arrives_fields(4) [OF a1] arrives_fields(4) [OF m3] arrives_fields(4) [OF v4(2)] assms(2) put_pos_keeps(3) [OF assms(3)]
    by simp
  obtain v5 where v5: "veejay_set_speed v4 (- si_speed si) = Some (1, v5)" "arrives k sj (st_current_frame_num v4) t v4 v5" "solo k sj v5"
    by (rule go_on [OF v4(3) sp assms(4)])
  have ids: "uc_sample_id ?v1 = k" "uc_sample_id v2 = k" "seq_active ?v1 = 0"
    using p1 p2 s1 by (simp_all add: plays_def solo_def)
  have "bounce env v direction here (si_speed si) = Some v5"
    using v1(1) v2(1) el v3(1) v4(1) v5(1) ids by (simp add: bounce_def vj_perform_try_sequence_def Let_def)
  moreover have "arrives k sj q t v v5"
    using arrives_trans [OF a1 arrives_trans [OF m3 arrives_trans [OF v4(2) v5(2)]]] arrives_fields(3) [OF v4(2)] by simp
  ultimately show ?thesis using that v5(3) by blast
qed

lemma loop_end_keeps:
  assumes "loop_end bounds here there forward si = (sj, q, t)"
  shows "play_range sj = play_range si" "si_edit_list sj = si_edit_list si" "si_looptype sj = si_looptype si"
    "si_dup sj = si_dup si" "si_speed sj = t"
    "fst (play_range si) \<le> snd (play_range si) \<Longrightarrow> fst (play_range si) \<le> q \<and> q \<le> snd (play_range si)"
proof -
  let ?s = "(count_loop si)\<lparr>si_loop_dec := si_loop_dec si + 1\<rparr>"
  obtain a1 p1 where 1: "put_pos bounds here ?s = (a1, p1)" by force
  obtain b1 t1 where 2: "put_speed (- si_speed si) a1 = (b1, t1)" by force
  obtain a2 p2 where 3: "put_pos bounds there (count_loop si) = (a2, p2)" by force
  obtain a3 p3 where 4: "put_pos bounds here si = (a3, p3)" by force
  obtain b3 t3 where 5: "put_speed 0 a3 = (b3, t3)" by force
  note k = put_pos_keeps [OF 1] put_speed_keeps [OF 2] put_pos_keeps [OF 3] put_pos_keeps [OF 4] put_speed_keeps [OF 5]
  have s: "play_range ?s = play_range si" "si_edit_list ?s = si_edit_list si" "si_looptype ?s = si_looptype si"
    "si_dup ?s = si_dup si" "si_speed ?s = si_speed si" by simp_all
  have "(sj, q, t) = (if si_looptype si = 2 then (if forward then count_loop b1 else b1, p1, t1)
      else if si_looptype si = 1 \<or> si_looptype si = 3 then (a2, p2, si_speed si) else (b3, p3, t3))"
    using assms 1 2 3 4 5 k(3,14) by (auto simp: loop_end_def Let_def split: if_splits)
  then consider "sj = (if forward then count_loop b1 else b1)" "q = p1" "t = t1"
    | "sj = a2" "q = p2" "t = si_speed si" | "sj = b3" "q = p3" "t = t3"
    by (auto split: if_splits)
  then have "play_range sj = play_range si \<and> si_edit_list sj = si_edit_list si \<and> si_looptype sj = si_looptype si \<and>
    si_dup sj = si_dup si \<and> si_speed sj = t \<and>
    (fst (play_range si) \<le> snd (play_range si) \<longrightarrow> fst (play_range si) \<le> q \<and> q \<le> snd (play_range si))"
  proof cases
    case 1
    have "play_range b1 = play_range si \<and> si_edit_list b1 = si_edit_list si \<and> si_looptype b1 = si_looptype si \<and>
      si_dup b1 = si_dup si \<and> si_speed b1 = t1" using k(1,2,4,5,7-11) s by simp
    then show ?thesis using 1 k(6) s by (cases forward) simp_all
  next
    case 2
    then show ?thesis using k(12-17) by simp
  next
    case 3
    then show ?thesis using k(18-28) by simp
  qed
  then show "play_range sj = play_range si" "si_edit_list sj = si_edit_list si" "si_looptype sj = si_looptype si"
    "si_dup sj = si_dup si" "si_speed sj = t"
    "fst (play_range si) \<le> snd (play_range si) \<Longrightarrow> fst (play_range si) \<le> q \<and> q \<le> snd (play_range si)"
    by blast+
qed

lemma at_end_solo:
  assumes "solo k si v" "st_current_playback_speed v = si_speed si"
    "loop_end (bounds_of v) here there forward si = (sj, q, t)"
  obtains v' where "at_end env v (si_looptype si) (if forward then - 1 else 1) here there (si_speed si) = Some v'"
    "arrives k sj q t v v'" "solo k sj v'"
proof -
  consider "si_looptype si = 2" | "si_looptype si = 1 \<or> si_looptype si = 3" | "si_looptype si \<notin> {1, 2, 3}" by blast
  then show ?thesis
  proof cases
    case 1
    obtain s1 q1 where 2: "put_pos (bounds_of v) here ((count_loop si)\<lparr>si_loop_dec := si_loop_dec si + 1\<rparr>) = (s1, q1)" by force
    obtain s2 t2 where 3: "put_speed (- si_speed si) s1 = (s2, t2)" by force
    have r: "q = q1" "t = t2" "sj = (if forward then count_loop s2 else s2)"
      using assms(3) 1 2 3 by (simp_all add: loop_end_def Let_def count_loop_def put_pos_keeps(3) split: prod.splits)
    obtain v1 where v1: "bounce env v (if forward then - 1 else 1) here (si_speed si) = Some v1" "arrives k s2 q1 t2 v v1" "solo k s2 v1"
      by (rule bounce_solo [OF assms(1,2) 2 3])
    obtain v2 where v2: "on_adm (\<lambda>d. sample_loopcount d (uc_sample_id v1)) v1 = Some ((), v2)"
      "arrives k (count_loop s2) (st_current_frame_num v1) (st_current_playback_speed v1) v1 v2" "solo k (count_loop s2) v2"
      by (rule count_plays [OF v1(3)])
    have "arrives k (count_loop s2) q1 t2 v v2"
      using arrives_trans [OF v1(2) v2(2)] arrives_fields(3,4) [OF v1(2)] by simp
    then show ?thesis
      using that [of "if forward then v2 else v1"] v1 v2 r 1 by (cases forward) (simp_all add: at_end_def)
  next
    case 2
    obtain s1 q1 where 3: "put_pos (bounds_of v) there (count_loop si) = (s1, q1)" by force
    have r: "q = q1" "t = si_speed si" "sj = s1"
      using assms(3) 2 3 put_pos_keeps(3) [OF 3] by (auto simp: loop_end_def Let_def)
    obtain v1 where v1: "on_adm (\<lambda>d. sample_loopcount d (uc_sample_id v)) v = Some ((), v1)"
      "arrives k (count_loop si) (st_current_frame_num v) (st_current_playback_speed v) v v1" "solo k (count_loop si) v1"
      by (rule count_plays [OF assms(1)])
    note f1 = arrives_fields [OF v1(2)]
    obtain v2 where v2: "veejay_set_frame v1 there = Some (1, v2)" "arrives k s1 q1 (st_current_playback_speed v1) v1 v2" "solo k s1 v2"
      by (rule go_to [OF v1(3)]) (use 3 f1 in simp)
    have "seq_active v1 = 0" using v1(3) by (simp add: solo_def)
    then have "at_end env v (si_looptype si) (if forward then - 1 else 1) here there (si_speed si) = Some v2"
      using 2 v1(1) v2(1) by (auto simp: at_end_def wrap_def)
    then show ?thesis using that arrives_trans [OF v1(2) v2(2)] f1 assms(2) v2(3) r by simp
  next
    case 3
    obtain s1 q1 where 4: "put_pos (bounds_of v) here si = (s1, q1)" by force
    obtain s2 t2 where 5: "put_speed 0 s1 = (s2, t2)" by force
    have r: "q = q1" "t = t2" "sj = s2" using assms(3) 3 4 5 by (auto simp: loop_end_def Let_def)
    obtain v1 where v1: "veejay_set_frame v here = Some (1, v1)" "arrives k s1 q1 (st_current_playback_speed v) v v1" "solo k s1 v1"
      by (rule go_to [OF assms(1) 4])
    have sp: "st_current_playback_speed v1 = si_speed s1"
      using arrives_fields(4) [OF v1(2)] assms(2) put_pos_keeps(3) [OF 4] by simp
    obtain v2 where v2: "veejay_set_speed v1 0 = Some (1, v2)" "arrives k s2 (st_current_frame_num v1) t2 v1 v2" "solo k s2 v2"
      by (rule go_on [OF v1(3) sp 5])
    have "at_end env v (si_looptype si) (if forward then - 1 else 1) here there (si_speed si) = Some v2"
      using 3 v1(1) v2(1) by (auto simp: at_end_def)
    then show ?thesis using that arrives_trans [OF v1(2) v2(2)] arrives_fields(3) [OF v1(2)] v2(3) r by simp
  qed
qed

subsection \<open>One frame\<close>

lemma count_dup_keeps [simp]:
  "play_range (count_dup num si) = play_range si" "si_edit_list (count_dup num si) = si_edit_list si"
  "si_speed (count_dup num si) = si_speed si" "si_looptype (count_dup num si) = si_looptype si"
  "si_dup (count_dup num si) = si_dup si"
  by (simp_all add: count_dup_def)

lemma arrives_draw:
  assumes "arrives k sj p s v v'"
  shows "arrives k sj q s (v\<lparr>vi_rands := n\<rparr>) (v'\<lparr>vi_rands := n, st_current_frame_num := q\<rparr>)"
proof (rule arrivesE [OF assms])
  fix d' z assume "becomes k sj (vi_adm v) d'"
    "v' = v\<lparr>vi_adm := d', st_current_frame_num := p, st_current_playback_speed := s, uc_direction := z\<rparr>"
  then show ?thesis unfolding arrives_def by (intro exI [of _ d'] exI [of _ z]) simp
qed

lemma arrives_pos:
  assumes "arrives k sj p s v v'"
  shows "arrives k sj q s v (v'\<lparr>st_current_frame_num := q\<rparr>)"
proof (rule arrivesE [OF assms])
  fix d' z assume "becomes k sj (vi_adm v) d'"
    "v' = v\<lparr>vi_adm := d', st_current_frame_num := p, st_current_playback_speed := s, uc_direction := z\<rparr>"
  then show ?thesis unfolding arrives_def by (intro exI [of _ d'] exI [of _ z]) simp
qed

text \<open>Up to the point where a frame is shown once more or the position moves.\<close>

lemma info_solo:
  assumes "solo k si v"
  obtains v' where "on_adm (\<lambda>d. sample_get_short_info d (uc_sample_id v)) v =
       Some ((0, Some (fst (play_range si), snd (play_range si), si_looptype si, si_speed si)), v')"
    "arrives k si (st_current_frame_num v) (si_speed si) v (v'\<lparr>st_current_playback_speed := si_speed si\<rparr>)"
    "solo k si (v'\<lparr>st_current_playback_speed := si_speed si\<rparr>)"
proof -
  have p: "plays k si v" using assms by (simp add: solo_def)
  obtain v' where v': "on_adm (\<lambda>d. sample_get_short_info d k) v =
      Some ((0, Some (fst (play_range si), snd (play_range si), si_looptype si, si_speed si)), v')" "moves k si v v'"
    using short_info_plays [OF p] by blast
  note a = arrives_speed [OF moves_arrives [OF v'(2)], of "si_speed si"]
  show ?thesis by (rule that [OF _ a solo_arrives [OF assms a]]) (use v'(1) playsD(2) [OF p] in simp_all)
qed

lemma show_again_solo:
  assumes "solo k si v"
  obtains v' where "show_again v num = Some (waits num si, v')"
    "arrives k (count_dup num si) (st_current_frame_num v) (st_current_playback_speed v) v v'" "solo k (count_dup num si) v'"
proof -
  have p: "plays k si v" using assms by (simp add: solo_def)
  obtain v2 where v2: "on_adm (\<lambda>d. sample_get_framedups d k) v = Some (si_dups si, v2)" "moves k si v v2"
    using get_framedups_plays [OF p] by blast
  note p2 = moves_plays [OF p v2(2)]
  obtain v3 where v3: "on_adm (\<lambda>d. sample_get_framedup d k) v2 = Some (si_dup si, v3)" "moves k si v2 v3"
    using get_framedup_plays [OF p2] by blast
  note p3 = moves_plays [OF p2 v3(2)]
  note m3 = moves_trans [OF v2(2) v3(2)]
  obtain v4 where v4: "on_adm (\<lambda>d. sample_set_framedups d k (dups_after num si)) v3 = Some (1, v4)"
    "moves k (si\<lparr>si_dups := dups_after num si\<rparr>) v3 v4"
    using set_framedups_plays [OF p3] by blast
  let ?v4 = "if si_dup si > 0 then v4 else v3"
  have m4: "moves k (count_dup num si) v ?v4"
    using m3 moves_trans [OF m3 v4(2)] by (simp add: count_dup_def)
  have ids: "uc_sample_id v = k" "uc_sample_id v2 = k" "uc_sample_id v3 = k"
    using p p2 p3 by (simp_all add: plays_def)
  have "show_again v num = Some (waits num si, ?v4)"
    using ids v2(1) v3(1) v4(1) by (auto simp: show_again_def waits_def dups_after_def Let_def)
  then show ?thesis by (rule that [OF _ moves_arrives [OF m4] solo_arrives [OF assms moves_arrives [OF m4]]]) simp_all
qed

lemma stay_in_range_solo:
  assumes "solo k si v" "st_current_playback_speed v = si_speed si"
    "(if outside_range si (st_current_frame_num v) then at_range_end (bounds_of v) si
      else (si, st_current_frame_num v, si_speed si)) = (sj, q, t)"
  obtains v' where "stay_in_range env v (fst (play_range si)) (snd (play_range si)) (si_looptype si) (si_speed si) = Some v'"
    "arrives k sj q t v v'" "solo k sj v'"
proof (cases "outside_range si (st_current_frame_num v)")
  case False
  then have r: "sj = si" "q = st_current_frame_num v" "t = si_speed si" using assms(3) by auto
  have p: "plays k si v" using assms(1) by (simp add: solo_def)
  show ?thesis
    by (rule that [of v])
      (use False assms(1,2) r moves_arrives [OF moves_self [OF p]] in \<open>auto simp: stay_in_range_def outside_range_def split: if_splits\<close>)
next
  case True
  let ?a = "fst (play_range si)" and ?b = "snd (play_range si)" and ?f = "si_speed si \<ge> 0"
  have e: "loop_end (bounds_of v) (if ?f then ?b else ?a) (if ?f then ?a else ?b) ?f si = (sj, q, t)"
    using True assms(3) by (simp add: at_range_end_def split: if_splits)
  obtain v' where v': "at_end env v (si_looptype si) (if ?f then - 1 else 1) (if ?f then ?b else ?a) (if ?f then ?a else ?b) (si_speed si) = Some v'"
    "arrives k sj q t v v'" "solo k sj v'"
    by (rule at_end_solo [OF assms(1,2) e])
  then show ?thesis
    using that True by (simp add: stay_in_range_def outside_range_def split: if_splits)
qed

lemma rand_update_idle: "rp_mode (st_randplayer v) = RANDMODE_INACTIVE \<Longrightarrow> vj_perform_rand_update env v = Some (0, v)"
  by (simp add: vj_perform_rand_update_def Let_def)

lemma resume_solo:
  assumes "solo k si v"
  obtains v' where "on_adm (\<lambda>d. sample_set_resume d (uc_sample_id v) n) v = Some (1, v')"
    "arrives k (si\<lparr>si_resume_pos := n\<rparr>) (st_current_frame_num v) (st_current_playback_speed v) v v'"
    "solo k (si\<lparr>si_resume_pos := n\<rparr>) v'" "rp_mode (st_randplayer v') = RANDMODE_INACTIVE"
proof -
  have p: "plays k si v" using assms by (simp add: solo_def)
  obtain v' where v': "on_adm (\<lambda>d. sample_set_resume d k n) v = Some (1, v')" "moves k (si\<lparr>si_resume_pos := n\<rparr>) v v'"
    using set_resume_plays [OF p] by blast
  have s: "solo k (si\<lparr>si_resume_pos := n\<rparr>) v'" by (rule solo_arrives [OF assms moves_arrives [OF v'(2)]]) simp_all
  show ?thesis
    by (rule that [OF _ moves_arrives [OF v'(2)] s]) (use v' p s in \<open>simp_all add: plays_def solo_def\<close>)
qed

lemma increase_sample_solo:
  assumes "solo k si v"
    "next_frame (bounds_of v) (random_frame env (snd (play_range si) - fst (play_range si)) (pe_rand env (vi_rands v)))
       num si (st_current_frame_num v) = (sj, q, t)"
  obtains v' where "vj_perform_increase_sample_frame env v num = Some (1, v')"
    "arrives k sj q t (v\<lparr>vi_rands := (if draws num si then Suc (vi_rands v) else vi_rands v)\<rparr>) v'" "solo k sj v'"
proof -
  let ?a = "fst (play_range si)" and ?b = "snd (play_range si)"
  let ?off = "random_frame env (?b - ?a) (pe_rand env (vi_rands v))"
  obtain v1 where v1: "on_adm (\<lambda>d. sample_get_short_info d (uc_sample_id v)) v =
       Some ((0, Some (?a, ?b, si_looptype si, si_speed si)), v1)"
    "arrives k si (st_current_frame_num v) (si_speed si) v (v1\<lparr>st_current_playback_speed := si_speed si\<rparr>)"
    "solo k si (v1\<lparr>st_current_playback_speed := si_speed si\<rparr>)"
    by (rule info_solo [OF assms(1)])
  let ?v1 = "v1\<lparr>st_current_playback_speed := si_speed si\<rparr>"
  obtain v2 where v2: "show_again ?v1 num = Some (waits num si, v2)"
    "arrives k (count_dup num si) (st_current_frame_num ?v1) (st_current_playback_speed ?v1) ?v1 v2" "solo k (count_dup num si) v2"
    by (rule show_again_solo [OF v1(3)])
  have a2: "arrives k (count_dup num si) (st_current_frame_num v) (si_speed si) v v2"
    using arrives_trans [OF v1(2) v2(2)] arrives_fields(3,4) [OF v1(2)] by simp
  note f2 = arrives_fields [OF a2]
  consider "waits num si" | "\<not> waits num si" "num = 0" | "\<not> waits num si" "num \<noteq> 0" by blast
  then show ?thesis
  proof cases
    case 1
    then have "vj_perform_increase_sample_frame env v num = Some (1, v2)"
      using v1(1) v2(1) by (simp add: vj_perform_increase_sample_frame_def)
    then show ?thesis by (rule that) (use 1 assms(2) a2 v2(3) in \<open>auto simp: next_frame_def draws_def Let_def\<close>)
  next
    case 2
    then have run: "vj_perform_increase_sample_frame env v num =
        Some (1, v2\<lparr>st_current_frame_num := int32_of_long (st_current_frame_num v)\<rparr>)"
      using v1(1) v2(1) f2(3) by (simp add: vj_perform_increase_sample_frame_def Let_def)
    show ?thesis
      by (rule that [OF run])
        (use 2 assms(2) arrives_pos [OF a2] solo_arrives [OF assms(1) arrives_pos [OF a2]] in
          \<open>auto simp: next_frame_def draws_def Let_def\<close>)
  next
    case 3
    define P where "P = (if si_looptype si = 3 then (if si_speed si \<ge> 0 then ?a + ?off else ?b - ?off)
              else int32_of_long (st_current_frame_num v + num))"
    let ?p = P
    let ?n = "if draws num si then Suc (vi_rands v) else vi_rands v"
    let ?v = "v\<lparr>vi_rands := ?n\<rparr>" and ?v3 = "v2\<lparr>vi_rands := ?n, st_current_frame_num := ?p\<rparr>"
    have a3: "arrives k (count_dup num si) ?p (si_speed si) ?v ?v3" by (rule arrives_draw [OF a2])
    have sv: "solo k si ?v" using assms(1) by (simp add: solo_def plays_def listed_def)
    have s3: "solo k (count_dup num si) ?v3" by (rule solo_arrives [OF sv a3]) simp_all
    obtain sk q' t' where st: "(if outside_range (count_dup num si) ?p then at_range_end (bounds_of v) (count_dup num si)
          else (count_dup num si, ?p, si_speed si)) = (sk, q', t')" by (metis prod_cases3)
    have "next_frame (bounds_of v) ?off num si (st_current_frame_num v) =
        (case (if outside_range (count_dup num si) ?p then at_range_end (bounds_of v) (count_dup num si)
               else (count_dup num si, ?p, si_speed si)) of (sk, p, s) \<Rightarrow> (sk\<lparr>si_resume_pos := p\<rparr>, p, s))"
      by (simp only: next_frame_def Let_def 3 if_False simp_thms P_def)
    then have r: "sj = sk\<lparr>si_resume_pos := q'\<rparr>" "q = q'" "t = t'"
      using assms(2) unfolding st by simp_all
    obtain v4 where v4: "stay_in_range env ?v3 ?a ?b (si_looptype si) (si_speed si) = Some v4" "arrives k sk q' t' ?v3 v4" "solo k sk v4"
      by (rule stay_in_range_solo [OF s3, where env = env]) (use st arrives_fields(1,2,3,4) [OF a3] in \<open>auto split: if_splits\<close>)
    obtain v5 where v5: "on_adm (\<lambda>d. sample_set_resume d (uc_sample_id v4) (st_current_frame_num v4)) v4 = Some (1, v5)"
      "arrives k (sk\<lparr>si_resume_pos := st_current_frame_num v4\<rparr>) (st_current_frame_num v4) (st_current_playback_speed v4) v4 v5"
      "solo k (sk\<lparr>si_resume_pos := st_current_frame_num v4\<rparr>) v5" "rp_mode (st_randplayer v5) = RANDMODE_INACTIVE"
      by (rule resume_solo [OF v4(3)])
    note f4 = arrives_fields(3,4) [OF v4(2)]
    let ?w = "v2\<lparr>st_current_frame_num := int32_of_long (st_current_frame_num v2 + num)\<rparr>"
    have "(if si_looptype si = 3 then draw_frame env ?w ?a ?b (si_speed si) else ?w) = ?v3"
      using 3 f2(3,11) by (simp add: draw_frame_def vj_rand_def draws_def P_def)
    then have "vj_perform_increase_sample_frame env v num = Some (1, v5)"
      using 3 v1(1) v2(1) v4(1) v5(1) rand_update_idle [OF v5(4), of env]
      by (simp add: vj_perform_increase_sample_frame_def Let_def)
    then show ?thesis
      using that arrives_trans [OF a3 arrives_trans [OF v4(2) v5(2)]] v5(3) f4 r by simp
  qed
qed

end
