(* ===== verification/PlayLoops.thy ===== *)
theory PlayLoops
  imports PlayFrames
begin

text \<open>
  The way of the position over many frames: the steps of the player refine \<open>spec_frames\<close>, the position stays in the
  range of the sample, and the loop kinds give the positions they are meant to give.
\<close>

subsection \<open>Many frames\<close>

fun queue_frames :: "play_env \<Rightarrow> nat \<Rightarrow> veejay \<Rightarrow> veejay option" where
  "queue_frames env 0 v = Some v"
| "queue_frames env (Suc n) v = do { (r, v) \<leftarrow> vj_perform_queue_frame env v False; queue_frames env n v }"

text \<open>The record, the position, the speed and how many random numbers were drawn.\<close>

fun spec_frames :: "play_env \<Rightarrow> int \<times> int \<Rightarrow> nat \<Rightarrow> sample_info \<Rightarrow> int \<Rightarrow> int \<Rightarrow> nat \<Rightarrow> sample_info \<times> int \<times> int \<times> nat" where
  "spec_frames env bounds 0 si p s c = (si, p, s, c)"
| "spec_frames env bounds (Suc n) si p s c =
     (let rnd = random_frame env (snd (play_range si) - fst (play_range si)) (pe_rand env c);
          (sj, q, t) = next_frame bounds rnd s si p
      in spec_frames env bounds n sj q t (if draws s si then Suc c else c))"

definition unheld :: "veejay \<Rightarrow> bool" where
  "unheld v \<longleftrightarrow> vi_follow_run v = 0 \<and> st_hold_status v \<noteq> 1"

text \<open>Playing changes nothing but the record, the position, the speed, the direction, the random numbers and the clock.\<close>

definition played :: "int \<Rightarrow> sample_info \<Rightarrow> int \<Rightarrow> int \<Rightarrow> nat \<Rightarrow> veejay \<Rightarrow> veejay \<Rightarrow> bool" where
  "played k sj q t c v v' \<longleftrightarrow> (\<exists>d' z cc. becomes k sj (vi_adm v) d' \<and>
     v' = v\<lparr>vi_adm := d', st_current_frame_num := q, st_current_playback_speed := t, uc_direction := z, vi_rands := c,
             st_cycle_count := cc\<rparr>)"

lemma playedE:
  assumes "played k sj q t c v v'"
  obtains d' z cc where "becomes k sj (vi_adm v) d'"
    "v' = v\<lparr>vi_adm := d', st_current_frame_num := q, st_current_playback_speed := t, uc_direction := z, vi_rands := c,
             st_cycle_count := cc\<rparr>"
  using assms by (auto simp: played_def)

lemma played_trans:
  assumes "played k si p s b v v1" "played k sj q t c v1 v2"
  shows "played k sj q t c v v2"
proof (rule playedE [OF assms(1)], rule playedE [OF assms(2)])
  fix d1 z1 cc1 d2 z2 cc2
  assume "becomes k si (vi_adm v) d1" "becomes k sj (vi_adm v1) d2"
    "v1 = v\<lparr>vi_adm := d1, st_current_frame_num := p, st_current_playback_speed := s, uc_direction := z1, vi_rands := b,
            st_cycle_count := cc1\<rparr>"
    "v2 = v1\<lparr>vi_adm := d2, st_current_frame_num := q, st_current_playback_speed := t, uc_direction := z2, vi_rands := c,
            st_cycle_count := cc2\<rparr>"
  then show ?thesis
    unfolding played_def by (intro exI [of _ d2] exI [of _ z2] exI [of _ cc2]) (auto intro: becomes_trans)
qed

lemma played_self:
  assumes "solo k si v"
  shows "played k si (st_current_frame_num v) (st_current_playback_speed v) (vi_rands v) v v"
  unfolding played_def
  by (intro exI [of _ "vi_adm v"] exI [of _ "uc_direction v"] exI [of _ "st_cycle_count v"])
    (use assms in \<open>simp add: solo_def plays_def becomes_self\<close>)

lemma played_fields:
  assumes "played k sj q t c v v'"
  shows "st_current_frame_num v' = q" "st_current_playback_speed v' = t" "vi_rands v' = c" "bounds_of v' = bounds_of v"
    "unheld v' = unheld v" "sample_at (vi_adm v') k = Some sj" "j \<noteq> k \<Longrightarrow> sample_at (vi_adm v') j = sample_at (vi_adm v) j"
  using assms by (auto simp: unheld_def becomes_def elim!: playedE)

lemma queue_frame_solo:
  assumes "solo k si v" "unheld v"
    "next_frame (bounds_of v) (random_frame env (snd (play_range si) - fst (play_range si)) (pe_rand env (vi_rands v)))
       (st_current_playback_speed v) si (st_current_frame_num v) = (sj, q, t)"
  obtains v' where "vj_perform_queue_frame env v False = Some (0, v')" "solo k sj v'"
    "played k sj q t (if draws (st_current_playback_speed v) si then Suc (vi_rands v) else vi_rands v) v v'"
proof -
  let ?n = "if draws (st_current_playback_speed v) si then Suc (vi_rands v) else vi_rands v"
  obtain v1 where v1: "vj_perform_increase_sample_frame env v (st_current_playback_speed v) = Some (1, v1)"
    "arrives k sj q t (v\<lparr>vi_rands := ?n\<rparr>) v1" "solo k sj v1"
    by (rule increase_sample_solo [OF assms(1,3)])
  obtain c0 c1 where c: "st_cycle_count v1 = (c0, c1)" by force
  let ?cc = "(c0 + 1, if c0 + 1 = 0 then c1 + 1 else c1)"
  have "uc_playback_mode v = VJ_PLAYBACK_MODE_SAMPLE" using assms(1) by (simp add: solo_def plays_def)
  then have run: "vj_perform_queue_frame env v False = Some (0, v1\<lparr>st_cycle_count := ?cc\<rparr>)"
    using assms(2) v1(1) c
    by (simp add: vj_perform_queue_frame_def follow_source_def held_speed_def unheld_def mode_consts Let_def)
  obtain d' z where d': "becomes k sj (vi_adm v) d'"
    "v1 = v\<lparr>vi_rands := ?n, vi_adm := d', st_current_frame_num := q, st_current_playback_speed := t, uc_direction := z\<rparr>"
    by (rule arrivesE [OF v1(2)]) simp
  have "v1\<lparr>st_cycle_count := ?cc\<rparr> = v\<lparr>vi_adm := d', st_current_frame_num := q, st_current_playback_speed := t,
      uc_direction := z, vi_rands := ?n, st_cycle_count := ?cc\<rparr>"
    by (rule veejay.equality) (simp_all add: d'(2))
  then have "played k sj q t ?n v (v1\<lparr>st_cycle_count := ?cc\<rparr>)" unfolding played_def using d'(1) by blast
  moreover have "solo k sj (v1\<lparr>st_cycle_count := ?cc\<rparr>)" using v1(3) by (simp add: solo_def plays_def listed_def)
  ultimately show ?thesis using that run by blast
qed

lemma queue_frames_solo:
  assumes "solo k si v" "unheld v"
    "spec_frames env (bounds_of v) n si (st_current_frame_num v) (st_current_playback_speed v) (vi_rands v) = (sj, q, t, c)"
  shows "\<exists>v'. queue_frames env n v = Some v' \<and> solo k sj v' \<and> played k sj q t c v v'"
  using assms
proof (induction n arbitrary: si v)
  case (Suc n)
  obtain s1 q1 t1 where step: "next_frame (bounds_of v)
      (random_frame env (snd (play_range si) - fst (play_range si)) (pe_rand env (vi_rands v)))
      (st_current_playback_speed v) si (st_current_frame_num v) = (s1, q1, t1)" by (metis prod_cases3)
  obtain v1 where v1: "vj_perform_queue_frame env v False = Some (0, v1)" "solo k s1 v1"
    "played k s1 q1 t1 (if draws (st_current_playback_speed v) si then Suc (vi_rands v) else vi_rands v) v v1"
    by (rule queue_frame_solo [OF Suc.prems(1,2) step])
  note f = played_fields [OF v1(3)]
  have "spec_frames env (bounds_of v1) n s1 (st_current_frame_num v1) (st_current_playback_speed v1) (vi_rands v1) = (sj, q, t, c)"
    using Suc.prems(3) unfolding f(1-4) by (simp add: step Let_def)
  moreover have "unheld v1" using f(5) Suc.prems(2) by simp
  ultimately obtain v' where "queue_frames env n v1 = Some v'" "solo k sj v'" "played k sj q t c v1 v'"
    using Suc.IH [OF v1(2)] by blast
  then show ?case using v1(1) played_trans [OF v1(3)] by auto
qed (auto intro: played_self)

subsection \<open>What a frame keeps of the record\<close>

text \<open>The record without what a frame changes.\<close>

definition fixed_part :: "sample_info \<Rightarrow> sample_info" where
  "fixed_part si = si\<lparr>si_dups := 0, si_loopcount := 0, si_loop_dec := 0, si_speed := 0, si_resume_pos := 0\<rparr>"

lemma fixed_part_upd [simp]:
  "fixed_part (si\<lparr>si_dups := n\<rparr>) = fixed_part si" "fixed_part (si\<lparr>si_loop_dec := n\<rparr>) = fixed_part si"
  "fixed_part (si\<lparr>si_speed := n\<rparr>) = fixed_part si" "fixed_part (si\<lparr>si_resume_pos := n\<rparr>) = fixed_part si"
  "fixed_part (count_loop si) = fixed_part si" "fixed_part (count_dup n si) = fixed_part si"
  by (simp_all add: fixed_part_def count_loop_def count_dup_def)

lemma fixed_partD:
  assumes "fixed_part sj = fixed_part si"
  shows "play_range sj = play_range si" "get_start sj = get_start si" "get_end sj = get_end si" "frames sj = frames si"
    "si_looptype sj = si_looptype si" "si_dup sj = si_dup si" "speed_fits sj s = speed_fits si s"
  using assms
  by (cases si; cases sj; simp add: fixed_part_def play_range_def get_start_def get_end_def frames_def speed_fits_def)+

lemma put_pos_fixed: "put_pos bounds p si = (sj, q) \<Longrightarrow> fixed_part sj = fixed_part si"
  by (auto simp: put_pos_def Let_def split: prod.splits if_splits)

lemma put_speed_fixed: "put_speed s si = (sj, t) \<Longrightarrow> fixed_part sj = fixed_part si"
  by (auto simp: put_speed_def split: if_splits)

lemma loop_end_fixed:
  assumes "loop_end bounds here there forward si = (sj, q, t)"
  shows "fixed_part sj = fixed_part si"
proof -
  let ?s = "(count_loop si)\<lparr>si_loop_dec := si_loop_dec si + 1\<rparr>"
  obtain a1 p1 where 1: "put_pos bounds here ?s = (a1, p1)" by force
  obtain b1 t1 where 2: "put_speed (- si_speed si) a1 = (b1, t1)" by force
  obtain a2 p2 where 3: "put_pos bounds there (count_loop si) = (a2, p2)" by force
  obtain a3 p3 where 4: "put_pos bounds here si = (a3, p3)" by force
  obtain b3 t3 where 5: "put_speed 0 a3 = (b3, t3)" by force
  note k = put_pos_fixed [OF 1] put_speed_fixed [OF 2] put_pos_fixed [OF 3] put_pos_fixed [OF 4] put_speed_fixed [OF 5]
  show ?thesis
    using assms 1 2 3 4 5 k put_pos_keeps(3) [OF 1] by (auto simp: loop_end_def Let_def split: if_splits)
qed

lemma next_frame_keeps:
  assumes "next_frame bounds rnd num si p = (sj, q, t)"
  shows "fixed_part sj = fixed_part si" "si_speed sj = t"
    "fst (play_range si) \<le> p \<Longrightarrow> p \<le> snd (play_range si) \<Longrightarrow> - 2147483648 \<le> p \<Longrightarrow> p < 2147483648 \<Longrightarrow>
       fst (play_range si) \<le> q \<and> q \<le> snd (play_range si)"
proof -
  define P where "P = (if si_looptype si = 3 then (if si_speed si \<ge> 0 then fst (play_range si) + rnd else snd (play_range si) - rnd)
              else int32_of_long (p + num))"
  obtain sk q' t' where st: "(if outside_range (count_dup num si) P then at_range_end bounds (count_dup num si)
      else (count_dup num si, P, si_speed si)) = (sk, q', t')" by (metis prod_cases3)
  have e: "\<exists>here there f. loop_end bounds here there f (count_dup num si) = (sk, q', t')" if "outside_range (count_dup num si) P"
    using st that by (auto simp: at_range_end_def split: if_splits)
  have k: "fixed_part sk = fixed_part si \<and> si_speed sk = t' \<and>
      (fst (play_range si) \<le> snd (play_range si) \<longrightarrow> fst (play_range si) \<le> q' \<and> q' \<le> snd (play_range si))"
  proof (cases "outside_range (count_dup num si) P")
    case True
    then obtain here there f where l: "loop_end bounds here there f (count_dup num si) = (sk, q', t')" using e by blast
    show ?thesis using loop_end_fixed [OF l] loop_end_keeps(5,6) [OF l] by simp
  next
    case False
    then show ?thesis using st by (auto simp: outside_range_def split: if_splits)
  qed
  consider "waits num si" | "\<not> waits num si" "num = 0" | "\<not> waits num si" "num \<noteq> 0" by blast
  then have "fixed_part sj = fixed_part si \<and> si_speed sj = t \<and>
    (fst (play_range si) \<le> p \<longrightarrow> p \<le> snd (play_range si) \<longrightarrow> - 2147483648 \<le> p \<longrightarrow> p < 2147483648 \<longrightarrow>
       fst (play_range si) \<le> q \<and> q \<le> snd (play_range si))"
  proof cases
    case 3
    then have "next_frame bounds rnd num si p =
        (case (if outside_range (count_dup num si) P then at_range_end bounds (count_dup num si)
               else (count_dup num si, P, si_speed si)) of (sk, p, s) \<Rightarrow> (sk\<lparr>si_resume_pos := p\<rparr>, p, s))"
      by (simp only: next_frame_def Let_def if_False simp_thms P_def)
    then show ?thesis using assms k unfolding st by auto
  qed (use assms in \<open>auto simp: next_frame_def Let_def\<close>)
  then show "fixed_part sj = fixed_part si" "si_speed sj = t"
    "fst (play_range si) \<le> p \<Longrightarrow> p \<le> snd (play_range si) \<Longrightarrow> - 2147483648 \<le> p \<Longrightarrow> p < 2147483648 \<Longrightarrow>
       fst (play_range si) \<le> q \<and> q \<le> snd (play_range si)" by blast+
qed

subsection \<open>Staying in range\<close>

lemma spec_frames_keeps:
  assumes "spec_frames env bounds n si p s c = (sj, q, t, c')" "fst (play_range si) \<le> p" "p \<le> snd (play_range si)"
    "- 2147483648 \<le> fst (play_range si)" "snd (play_range si) < 2147483648"
  shows "fixed_part sj = fixed_part si \<and> fst (play_range si) \<le> q \<and> q \<le> snd (play_range si) \<and> (0 < n \<longrightarrow> t = si_speed sj)"
  using assms
proof (induction n arbitrary: si p s c)
  case (Suc n)
  obtain s1 q1 t1 where step: "next_frame bounds (random_frame env (snd (play_range si) - fst (play_range si)) (pe_rand env c)) s si p
      = (s1, q1, t1)" by (metis prod_cases3)
  note k = next_frame_keeps [OF step]
  have r: "play_range s1 = play_range si" using fixed_partD(1) [OF k(1)] .
  have "spec_frames env bounds n s1 q1 t1 (if draws s si then Suc c else c) = (sj, q, t, c')"
    using Suc.prems(1) step by (simp add: Let_def)
  from Suc.IH [OF this] Suc.prems(2-5) k r show ?case
    using \<open>spec_frames env bounds n s1 q1 t1 (if draws s si then Suc c else c) = (sj, q, t, c')\<close> by (cases n) auto
qed auto

subsection \<open>Looping and bouncing\<close>

text \<open>
  The positions of a sample of \<open>len\<close> frames that bounces at speed 1, counted from its first frame: up, down, and each
  end shown twice.
\<close>

definition wave :: "int \<Rightarrow> int \<Rightarrow> int" where
  "wave len x = (let r = x mod (2 * len) in if r < len then r else 2 * len - 1 - r)"

definition wave_speed :: "int \<Rightarrow> int \<Rightarrow> int" where
  "wave_speed len x = (if x mod (2 * len) < len then 1 else - 1)"

lemma wave_Suc:
  fixes len :: int
  assumes "0 < len"
  shows "(x + 1) mod (2 * len) = (if x mod (2 * len) = 2 * len - 1 then 0 else x mod (2 * len) + 1)"
proof -
  have "(x + 1) mod (2 * len) = (x mod (2 * len) + 1) mod (2 * len)" by (simp add: mod_simps)
  moreover have "0 \<le> x mod (2 * len)" "x mod (2 * len) < 2 * len" using assms by simp_all
  ultimately show ?thesis by (auto simp: mod_pos_pos_trivial)
qed

text \<open>A sample that shows each frame once, has a range inside the bounds and may run at speed 1 either way.\<close>

definition plain_range :: "int \<times> int \<Rightarrow> sample_info \<Rightarrow> bool" where
  "plain_range bounds si \<longleftrightarrow> si_dup si \<le> 0 \<and> fst bounds \<le> fst (play_range si) \<and> snd (play_range si) \<le> snd bounds \<and>
     fst (play_range si) < snd (play_range si) \<and> - 2147483647 \<le> fst (play_range si) \<and> snd (play_range si) < 2147483647 \<and>
     speed_fits si 1"

lemma plain_range_fixed: "fixed_part sj = fixed_part si \<Longrightarrow> plain_range bounds si \<Longrightarrow> plain_range bounds sj"
  using fixed_partD [of sj si] by (simp add: plain_range_def)

lemma put_pos_inside:
  assumes "fst bounds \<le> fst (play_range si)" "snd (play_range si) \<le> snd bounds" "fst (play_range si) \<le> p" "p \<le> snd (play_range si)"
  shows "snd (put_pos bounds p si) = p"
  using assms by (auto simp: put_pos_def clamp_def Let_def split: prod.splits)

lemma next_frame_moves:
  assumes "plain_range bounds si" "s \<noteq> 0" "si_looptype si \<noteq> 3" "- 2147483648 \<le> p + s" "p + s < 2147483648"
  shows "next_frame bounds rnd s si p =
    (case (if outside_range si (p + s) then at_range_end bounds si else (si, p + s, si_speed si)) of
       (sk, q, t) \<Rightarrow> (sk\<lparr>si_resume_pos := q\<rparr>, q, t))"
proof -
  have "count_dup s si = si" "\<not> waits s si" using assms(1) by (simp_all add: count_dup_def waits_def plain_range_def)
  then show ?thesis using assms(2-5) by (simp only: next_frame_def Let_def if_False simp_thms int32_of_long_id)
qed

lemma bounce_end:
  assumes "si_looptype si = 2" "plain_range bounds si" "here = fst (play_range si) \<or> here = snd (play_range si)" "\<bar>si_speed si\<bar> = 1"
  obtains sj where "loop_end bounds here there forward si = (sj, here, - si_speed si)" "fixed_part sj = fixed_part si"
    "si_speed sj = - si_speed si"
proof -
  let ?s = "(count_loop si)\<lparr>si_loop_dec := si_loop_dec si + 1\<rparr>"
  obtain a1 p1 where 1: "put_pos bounds here ?s = (a1, p1)" by force
  obtain b1 t1 where 2: "put_speed (- si_speed si) a1 = (b1, t1)" by force
  have f: "fixed_part ?s = fixed_part si" "fixed_part a1 = fixed_part si" "fixed_part b1 = fixed_part si"
    using put_pos_fixed [OF 1] put_speed_fixed [OF 2] by simp_all
  have "p1 = here"
    using put_pos_inside [of bounds ?s here] 1 assms(2,3) by (auto simp: plain_range_def)
  moreover have "clamp_speed (- si_speed si) = - si_speed si" using assms(4) by (auto simp: clamp_speed_def MAX_SPEED_def abs_if split: if_splits)
  moreover have "speed_fits a1 (- si_speed si)"
    using fixed_partD(2-4) [OF f(2)] assms(2,4) by (simp add: plain_range_def speed_fits_def)
  ultimately have "t1 = - si_speed si" "p1 = here" using 2 by (auto simp: put_speed_def)
  then show ?thesis
    using that [of "if forward then count_loop b1 else b1"] 1 2 f assms(1) put_pos_keeps(3) [OF 1] put_speed_keeps(3) [OF 2]
    by (simp add: loop_end_def Let_def)
qed

lemma bounce_frame:
  assumes "si_looptype si = 2" "plain_range bounds si" "len = snd (play_range si) - fst (play_range si) + 1"
    "si_speed si = wave_speed len x"
  obtains sj where "next_frame bounds rnd (wave_speed len x) si (fst (play_range si) + wave len x) =
      (sj, fst (play_range si) + wave len (x + 1), wave_speed len (x + 1))"
    "fixed_part sj = fixed_part si" "si_speed sj = wave_speed len (x + 1)"
proof -
  let ?a = "fst (play_range si)" and ?b = "snd (play_range si)" and ?r = "x mod (2 * len)"
  have len: "1 < len" "?b = ?a + len - 1" and ints: "- 2147483647 \<le> ?a" "?b < 2147483647"
    using assms(2,3) by (auto simp: plain_range_def)
  have r: "0 \<le> ?r" "?r < 2 * len" using len by simp_all
  have w: "?a + wave len x \<le> ?b" "?a \<le> ?a + wave len x" using r len by (auto simp: wave_def Let_def)
  have nx: "next_frame bounds rnd (wave_speed len x) si (?a + wave len x) =
      (case (if outside_range si (?a + wave len x + wave_speed len x) then at_range_end bounds si
             else (si, ?a + wave len x + wave_speed len x, si_speed si)) of (sk, q, t) \<Rightarrow> (sk\<lparr>si_resume_pos := q\<rparr>, q, t))"
    by (rule next_frame_moves [OF assms(2)]) (use assms(1) w ints in \<open>auto simp: wave_speed_def\<close>)
  have sp: "\<bar>si_speed si\<bar> = 1" using assms(4) by (simp add: wave_speed_def)
  consider "?r < len - 1" | "?r = len - 1" | "len \<le> ?r" "?r < 2 * len - 1" | "?r = 2 * len - 1" using r by linarith
  then show ?thesis
  proof cases
    case 1
    then have v: "wave len x = ?r" "wave_speed len x = 1" "wave len (x + 1) = ?r + 1" "wave_speed len (x + 1) = 1"
      using wave_Suc [of len x] len by (auto simp: wave_def wave_speed_def Let_def)
    then have "\<not> outside_range si (?a + wave len x + wave_speed len x)" using 1 assms(4) len r by (simp add: outside_range_def)
    then show ?thesis using that [of "si\<lparr>si_resume_pos := ?a + wave len (x + 1)\<rparr>"] nx v assms(4) by (simp add: add.assoc)
  next
    case 2
    then have v: "wave len x = len - 1" "wave_speed len x = 1" "wave len (x + 1) = len - 1" "wave_speed len (x + 1) = - 1"
      using wave_Suc [of len x] len by (auto simp: wave_def wave_speed_def Let_def)
    obtain sj where l: "loop_end bounds ?b ?a True si = (sj, ?b, - si_speed si)" "fixed_part sj = fixed_part si" "si_speed sj = - si_speed si"
      by (rule bounce_end [OF assms(1,2) _ sp, where here = "?b" and there = "?a" and forward = True]) simp
    have "outside_range si (?a + wave len x + wave_speed len x)" using v assms(4) len by (simp add: outside_range_def)
    then show ?thesis using that [of "sj\<lparr>si_resume_pos := ?b\<rparr>"] nx l v assms(4) len by (simp add: at_range_end_def)
  next
    case 3
    then have v: "wave len x = 2 * len - 1 - ?r" "wave_speed len x = - 1" "wave len (x + 1) = 2 * len - 2 - ?r" "wave_speed len (x + 1) = - 1"
      using wave_Suc [of len x] len by (auto simp: wave_def wave_speed_def Let_def)
    then have "\<not> outside_range si (?a + wave len x + wave_speed len x)" using 3 assms(4) len r by (simp add: outside_range_def)
    then show ?thesis using that [of "si\<lparr>si_resume_pos := ?a + wave len (x + 1)\<rparr>"] nx v assms(4) by simp
  next
    case 4
    then have v: "wave len x = 0" "wave_speed len x = - 1" "wave len (x + 1) = 0" "wave_speed len (x + 1) = 1"
      using wave_Suc [of len x] len by (auto simp: wave_def wave_speed_def Let_def)
    obtain sj where l: "loop_end bounds ?a ?b False si = (sj, ?a, - si_speed si)" "fixed_part sj = fixed_part si" "si_speed sj = - si_speed si"
      by (rule bounce_end [OF assms(1,2) _ sp, where here = "?a" and there = "?b" and forward = False]) simp
    have "outside_range si (?a + wave len x + wave_speed len x)" using v assms(4) len by (simp add: outside_range_def)
    then show ?thesis using that [of "sj\<lparr>si_resume_pos := ?a\<rparr>"] nx l v assms(4) len by (simp add: at_range_end_def)
  qed
qed

lemma bounce_frames:
  assumes "si_looptype si = 2" "plain_range bounds si" "len = snd (play_range si) - fst (play_range si) + 1"
    "si_speed si = wave_speed len x"
  shows "\<exists>sj c'. spec_frames env bounds n si (fst (play_range si) + wave len x) (wave_speed len x) c =
      (sj, fst (play_range si) + wave len (x + int n), wave_speed len (x + int n), c')"
  using assms
proof (induction n arbitrary: si x c)
  case (Suc n)
  obtain s1 where step: "next_frame bounds (random_frame env (snd (play_range si) - fst (play_range si)) (pe_rand env c))
      (wave_speed len x) si (fst (play_range si) + wave len x) =
      (s1, fst (play_range si) + wave len (x + 1), wave_speed len (x + 1))"
    "fixed_part s1 = fixed_part si" "si_speed s1 = wave_speed len (x + 1)"
    by (rule bounce_frame [OF Suc.prems])
  note f = fixed_partD [OF step(2)]
  have "\<exists>sj c''. spec_frames env bounds n s1 (fst (play_range s1) + wave len (x + 1)) (wave_speed len (x + 1))
        (if draws (wave_speed len x) si then Suc c else c) =
      (sj, fst (play_range s1) + wave len (x + 1 + int n), wave_speed len (x + 1 + int n), c'')"
    by (rule Suc.IH [OF _ plain_range_fixed [OF step(2) Suc.prems(2)] _ step(3)]) (use Suc.prems f in simp_all)
  then show ?case using f step(1) by (auto simp: Let_def algebra_simps)
qed auto

subsection \<open>Properties\<close>

text \<open>A server that plays sample 1, of two frames, with the record given.\<close>

definition vj_demo :: "sample_info \<Rightarrow> veejay" where
  "vj_demo si = \<lparr>vi_adm = adm_demo\<lparr>ad_samples := [0 \<mapsto> si]\<rparr>, vi_edit_list = 1, vi_current_edit_list = Some 1, vi_sfd = 0,
     vi_no_caching = True, vi_continuous = 1, vi_last_sample_id = 1, vi_last_tag_id = 0, vi_nstreams = 0, vi_font = False,
     vi_font_dict = None, vi_composite = False, vi_backing = None, vi_follow_run = 0, vi_follow_now = (0, 0),
     vi_track_dup = 0, vi_rands = 0, uc_playback_mode = VJ_PLAYBACK_MODE_SAMPLE, uc_sample_id = 1, uc_direction = 1,
     uc_sample_start = 0, uc_sample_end = 0, uc_port = 3490, seq_active = 0, seq_current = 0,
     seq_samples = replicate 101 0, st_min_frame_num = 0, st_max_frame_num = 1, st_current_frame_num = 0,
     st_current_playback_speed = si_speed si, st_first_frame = 1, st_simple_frame_dup = 0, st_hold_pos = 0,
     st_hold_resume = 0, st_hold_status = 0, st_sample_restart = 0, st_composite = 0, st_save_list = None,
     st_save_list_len = 0, st_state = 2, st_randplayer = \<lparr>rp_mode = 0, rp_timer = 0, rp_min_delay = 0, rp_max_delay = 0\<rparr>,
     st_cycle_count = (0, 0), vi_dummy = False, vi_ctl = ctl_zero\<rparr>"

definition env_quiet :: play_env where
  "env_quiet = \<lparr>pe_fx = fx_all, pe_stream = env_closed, pe_load = (\<lambda>_. (None, 0)), pe_dbl = (\<lambda>x. x), pe_rand = (\<lambda>_. 0)\<rparr>"

lemma demo_solo:
  assumes "si_sample_id si = 1" "si_edit_list si = Some 1" "fst (play_range si) \<le> snd (play_range si)"
  shows "solo 1 si (vj_demo si)" "unheld (vj_demo si)"
proof -
  have "adm_ok (adm_demo\<lparr>ad_samples := (ad_samples adm_demo)(0 := Some si)\<rparr>)"
    by (rule adm_ok_put [OF adm_demo_ok(1), of 0 sample_demo]) (simp_all add: assms adm_demo_def sample_demo_def)
  then have "adm_ok (adm_demo\<lparr>ad_samples := [0 \<mapsto> si]\<rparr>)" by (simp add: adm_demo_def)
  moreover have "sample_at (adm_demo\<lparr>ad_samples := [0 \<mapsto> si]\<rparr>) 1 = Some si"
    by (simp add: sample_at_def adm_demo_find)
  moreover have "ad_els adm_demo 1 \<noteq> None" by (simp add: adm_demo_def)
  ultimately show "solo 1 si (vj_demo si)" "unheld (vj_demo si)"
    using assms
    by (simp_all add: solo_def plays_def listed_def unheld_def vj_demo_def SAMPLE_MAX_SAMPLES_def RANDMODE_INACTIVE_def)
qed

text \<open>
  C20. Playing refines its specification. As long as a sample plays without sequence, random player, hold and follow,
  any number of frames runs without undefined behaviour and leaves the record of the sample, the position, the speed and
  the number of random numbers drawn that \<open>spec_frames\<close> computes from the record and the position alone; no other
  sample changes.
\<close>

theorem sample_frames_refine:
  assumes "solo k si v" "unheld v"
    "spec_frames env (st_min_frame_num v, st_max_frame_num v) n si (st_current_frame_num v) (st_current_playback_speed v)
       (vi_rands v) = (sj, q, t, c)"
  shows "\<exists>v'. queue_frames env n v = Some v' \<and> sample_at (vi_adm v') k = Some sj \<and> st_current_frame_num v' = q \<and>
    st_current_playback_speed v' = t \<and> vi_rands v' = c \<and> (\<forall>j. j \<noteq> k \<longrightarrow> sample_at (vi_adm v') j = sample_at (vi_adm v) j)"
proof -
  obtain v' where v': "queue_frames env n v = Some v'" "played k sj q t c v v'" using queue_frames_solo [OF assms] by blast
  show ?thesis by (rule exI [of _ v']) (use v'(1) played_fields [OF v'(2)] in simp)
qed

definition demo_loop :: "int \<Rightarrow> sample_info" where
  "demo_loop looptype = sample_demo\<lparr>si_looptype := looptype\<rparr>"

lemma demo_loop_facts:
  "si_sample_id (demo_loop n) = 1" "si_edit_list (demo_loop n) = Some 1" "play_range (demo_loop n) = (0, 1)"
  "si_speed (demo_loop n) = 1" "si_looptype (demo_loop n) = n" "plain_range (0, 1) (demo_loop n)"
  by (simp_all add: demo_loop_def sample_demo_def sample_zero_def play_range_def plain_range_def speed_fits_def get_start_def
      get_end_def frames_def)

lemma vj_demo_fields:
  "st_min_frame_num (vj_demo si) = 0" "st_max_frame_num (vj_demo si) = 1" "st_current_frame_num (vj_demo si) = 0"
  "st_current_playback_speed (vj_demo si) = si_speed si" "vi_rands (vj_demo si) = 0"
  by (simp_all add: vj_demo_def)

theorem sample_frames_refine_witness:
  "\<exists>v' sj. queue_frames env_quiet 3 (vj_demo (demo_loop 2)) = Some v' \<and> sample_at (vi_adm v') 1 = Some sj"
proof -
  have s: "solo 1 (demo_loop 2) (vj_demo (demo_loop 2))" "unheld (vj_demo (demo_loop 2))"
    by (rule demo_solo; simp add: demo_loop_facts)+
  obtain sj q t c where "spec_frames env_quiet (st_min_frame_num (vj_demo (demo_loop 2)), st_max_frame_num (vj_demo (demo_loop 2))) 3
      (demo_loop 2) (st_current_frame_num (vj_demo (demo_loop 2))) (st_current_playback_speed (vj_demo (demo_loop 2)))
      (vi_rands (vj_demo (demo_loop 2))) = (sj, q, t, c)" by (metis prod_cases4)
  from sample_frames_refine [OF s this] show ?thesis by blast
qed

text \<open>
  C21. The position stays in the range. However a sample loops (in any of the ways, with any speed, frame duplication
  and random numbers), the position is between its start and its end after every frame, and the speed of the server is
  that of the sample.
\<close>

theorem playback_stays_in_range:
  assumes "solo k si v" "unheld v" "fst (play_range si) \<le> st_current_frame_num v" "st_current_frame_num v \<le> snd (play_range si)"
    "- 2147483648 \<le> fst (play_range si)" "snd (play_range si) < 2147483648"
  shows "\<exists>v' sj. queue_frames env n v = Some v' \<and> sample_at (vi_adm v') k = Some sj \<and> play_range sj = play_range si \<and>
    fst (play_range si) \<le> st_current_frame_num v' \<and> st_current_frame_num v' \<le> snd (play_range si) \<and>
    (0 < n \<longrightarrow> st_current_playback_speed v' = si_speed sj)"
proof -
  obtain sj q t c where r: "spec_frames env (bounds_of v) n si (st_current_frame_num v) (st_current_playback_speed v) (vi_rands v)
      = (sj, q, t, c)" by (metis prod_cases4)
  note k = spec_frames_keeps [OF r assms(3-6)]
  from queue_frames_solo [OF assms(1,2) r] obtain v' where v': "queue_frames env n v = Some v'" "played k sj q t c v v'" by blast
  show ?thesis
    by (rule exI [of _ v'], rule exI [of _ sj]) (use v'(1) played_fields [OF v'(2)] k fixed_partD(1) [of sj si] in simp)
qed

theorem playback_stays_in_range_witness:
  "\<exists>v'. queue_frames env_quiet 1000 (vj_demo (demo_loop 3)) = Some v' \<and> st_current_frame_num v' \<in> {0, 1}"
proof -
  have s: "solo 1 (demo_loop 3) (vj_demo (demo_loop 3))" "unheld (vj_demo (demo_loop 3))"
    by (rule demo_solo; simp add: demo_loop_facts)+
  from playback_stays_in_range [OF s, of env_quiet 1000] obtain v' where
    "queue_frames env_quiet 1000 (vj_demo (demo_loop 3)) = Some v'" "0 \<le> st_current_frame_num v'" "st_current_frame_num v' \<le> 1"
    by (auto simp: demo_loop_facts vj_demo_fields)
  then show ?thesis by (intro exI [of _ v']) auto
qed

text \<open>
  C22. A bouncing sample at speed 1 shows the frames of a triangle wave: from the position and speed of phase \<open>x\<close>, \<open>n\<close>
  frames later the position and speed are those of phase \<open>x + n\<close>, whatever \<open>n\<close> is; each end is shown twice in a row.
\<close>

theorem bounce_is_wave:
  assumes "solo k si v" "unheld v" "si_looptype si = 2" "plain_range (st_min_frame_num v, st_max_frame_num v) si"
    "si_speed si = wave_speed (snd (play_range si) - fst (play_range si) + 1) x"
    "st_current_playback_speed v = wave_speed (snd (play_range si) - fst (play_range si) + 1) x"
    "st_current_frame_num v = fst (play_range si) + wave (snd (play_range si) - fst (play_range si) + 1) x"
  shows "\<exists>v'. queue_frames env n v = Some v' \<and>
    st_current_frame_num v' = fst (play_range si) + wave (snd (play_range si) - fst (play_range si) + 1) (x + int n) \<and>
    st_current_playback_speed v' = wave_speed (snd (play_range si) - fst (play_range si) + 1) (x + int n)"
proof -
  obtain sj c where "spec_frames env (bounds_of v) n si (st_current_frame_num v) (st_current_playback_speed v) (vi_rands v) =
      (sj, fst (play_range si) + wave (snd (play_range si) - fst (play_range si) + 1) (x + int n),
       wave_speed (snd (play_range si) - fst (play_range si) + 1) (x + int n), c)"
    using bounce_frames [OF assms(3,4) refl assms(5)] assms(6,7) by metis
  from queue_frames_solo [OF assms(1,2) this] played_fields(1,2) show ?thesis by blast
qed

theorem bounce_is_wave_witness:
  "\<exists>v'. queue_frames env_quiet 7 (vj_demo (demo_loop 2)) = Some v' \<and> st_current_frame_num v' = 0 \<and> st_current_playback_speed v' = - 1"
proof -
  have s: "solo 1 (demo_loop 2) (vj_demo (demo_loop 2))" "unheld (vj_demo (demo_loop 2))"
    by (rule demo_solo; simp add: demo_loop_facts)+
  from bounce_is_wave [OF s, of 0 env_quiet 7] show ?thesis
    by (auto simp: demo_loop_facts vj_demo_fields wave_def wave_speed_def)
qed

end
