(* ===== verification/PlaySwitch.thy ===== *)
theory PlaySwitch
  imports PlayLoops
begin

text \<open>
  What is played next: the sequence of samples, the random player, and switching between samples.
\<close>

subsection \<open>The sequence\<close>

text \<open>The first slot in use from position \<open>cur\<close> on, and then from the start.\<close>

lemma valid_seq_loop_cycle:
  assumes "length samples = 101" "0 \<le> cur" "cur < 100"
  shows "valid_seq_loop samples cur True = Some (find (\<lambda>i. samples ! nat i \<noteq> 0) [cur..99])"
  using assms
proof (induction "nat (100 - cur)" arbitrary: cur)
  case (Suc n)
  have u: "[cur..99] = cur # [cur + 1..99]" using Suc.prems by (simp add: upto_rec1)
  show ?case
  proof (cases "cur = 99")
    case True
    then show ?thesis using Suc.prems
      by (subst valid_seq_loop.simps) (simp add: c_nth_def MAX_SEQUENCES_def u)
  next
    case False
    then have "valid_seq_loop samples (cur + 1) True = Some (find (\<lambda>i. samples ! nat i \<noteq> 0) [cur + 1..99])"
      using Suc.prems Suc.hyps(2) by (intro Suc.hyps(1)) auto
    then show ?thesis using Suc.prems False
      by (subst valid_seq_loop.simps) (simp add: c_nth_def MAX_SEQUENCES_def u)
  qed
qed simp

lemma valid_seq_loop_find:
  assumes "length samples = 101" "0 \<le> cur" "cur \<le> 100"
  shows "valid_seq_loop samples cur False = Some (find (\<lambda>i. samples ! nat i \<noteq> 0) ([cur..(if cur < 100 then 99 else 100)] @ [0..99]))"
  using assms
proof (induction "nat (100 - cur)" arbitrary: cur)
  case 0
  then have "cur = 100" by simp
  then show ?case using valid_seq_loop_cycle [OF assms(1), of 0] assms(1)
    by (subst valid_seq_loop.simps) (simp add: c_nth_def MAX_SEQUENCES_def)
next
  case (Suc n)
  have u: "[cur..99] = cur # [cur + 1..99]" using Suc.prems Suc.hyps(2) by (simp add: upto_rec1)
  show ?case
  proof (cases "cur = 99")
    case True
    then show ?thesis using Suc.prems valid_seq_loop_cycle [OF assms(1), of 0]
      by (subst valid_seq_loop.simps) (simp add: c_nth_def MAX_SEQUENCES_def u)
  next
    case False
    then have c: "cur < 99" using Suc.prems Suc.hyps(2) by linarith
    have "valid_seq_loop samples (cur + 1) False = Some (find (\<lambda>i. samples ! nat i \<noteq> 0) ([cur + 1..99] @ [0..99]))"
      using Suc.prems Suc.hyps(1) [of "cur + 1"] Suc.hyps(2) c by simp
    then show ?thesis using Suc.prems c
      by (subst valid_seq_loop.simps) (simp add: c_nth_def MAX_SEQUENCES_def u)
  qed
qed

subsection \<open>The random player\<close>

text \<open>What the player may pick, and the numbers it tries: \<open>k\<close> first, then one for every number drawn.\<close>

definition playable :: "adm \<Rightarrow> int \<Rightarrow> int \<Rightarrow> bool" where
  "playable d dup j \<longleftrightarrow> 0 < j \<and> hash_of d j \<noteq> None \<and> j \<noteq> dup"

fun nth_try :: "play_env \<Rightarrow> int \<Rightarrow> nat \<Rightarrow> int \<Rightarrow> nat \<Rightarrow> int" where
  "nth_try env n c k 0 = k"
| "nth_try env n c k (Suc i) = random_id n (pe_rand env (c + i))"

lemma nth_try_Suc: "nth_try env n c k (Suc i) = nth_try env n (Suc c) (random_id n (pe_rand env c)) i"
  by (cases i) simp_all

lemma random_id_range:
  assumes "1 \<le> n" "0 \<le> r" "r \<le> RAND_MAX"
  shows "1 \<le> random_id n r" "random_id n r \<le> n"
proof -
  have d: "(of_int (n * r) :: rat) / of_int (RAND_MAX + 1) < of_int n"
  proof -
    have "n * r < n * (RAND_MAX + 1)" using assms by simp
    then show ?thesis by (simp add: RAND_MAX_def divide_less_eq flip: of_int_mult of_int_less_iff)
  qed
  then have "\<lfloor>(of_int (n * r) :: rat) / of_int (RAND_MAX + 1)\<rfloor> < n" by (simp only: floor_less_iff)
  moreover have "(0 :: rat) \<le> of_int (n * r) / of_int (RAND_MAX + 1)" using assms by (simp add: RAND_MAX_def)
  ultimately show "1 \<le> random_id n r" "random_id n r \<le> n"
    by (simp_all add: random_id_def c_trunc_def)
qed

lemma pick_sample_step:
  assumes "adm_ok (vi_adm v)" "k < SAMPLE_MAX_SAMPLES"
  shows "\<exists>d. adm_ok d \<and> hash_of d = hash_of (vi_adm v) \<and> (\<forall>j. sample_at d j = sample_at (vi_adm v) j) \<and>
    pick_sample env n dup k v =
      (if playable (vi_adm v) dup k then Some (k, v\<lparr>vi_adm := d\<rparr>)
       else pick_sample env n dup (random_id n (pe_rand env (vi_rands v))) (v\<lparr>vi_adm := d, vi_rands := Suc (vi_rands v)\<rparr>))"
proof -
  define d where "d = (if hash_of (vi_adm v) k = None then vi_adm v else memo_sample (vi_adm v) k)"
  define e :: int where "e = (if k > 0 \<and> hash_of (vi_adm v) k \<noteq> None then 1 else 0)"
  have "sample_exists (vi_adm v) k = Some (e, d)" unfolding d_def e_def by (rule sample_exists_at [OF assms])
  moreover have "e = 0 \<or> k = dup \<longleftrightarrow> \<not> playable (vi_adm v) dup k" by (auto simp: e_def playable_def)
  ultimately have "pick_sample env n dup k v =
      (if playable (vi_adm v) dup k then Some (k, v\<lparr>vi_adm := d\<rparr>)
       else pick_sample env n dup (random_id n (pe_rand env (vi_rands v))) (v\<lparr>vi_adm := d, vi_rands := Suc (vi_rands v)\<rparr>))"
    by (subst pick_sample.simps) (simp add: on_adm_def vj_rand_def)
  moreover have "adm_ok d" "hash_of d = hash_of (vi_adm v)" "\<forall>j. sample_at d j = sample_at (vi_adm v) j"
    using assms(1) by (simp_all add: adm_ok_memo d_def)
  ultimately show ?thesis by blast
qed

text \<open>With a first try that is playable it is taken; without one the loop goes on for ever.\<close>

lemma pick_sample_first:
  assumes "adm_ok (vi_adm v)" "\<forall>j<i. \<not> playable (vi_adm v) dup (nth_try env n (vi_rands v) k j)"
    "playable (vi_adm v) dup (nth_try env n (vi_rands v) k i)" "\<forall>j\<le>i. nth_try env n (vi_rands v) k j < SAMPLE_MAX_SAMPLES"
  shows "\<exists>d. pick_sample env n dup k v = Some (nth_try env n (vi_rands v) k i, v\<lparr>vi_adm := d, vi_rands := vi_rands v + i\<rparr>) \<and>
    adm_ok d \<and> hash_of d = hash_of (vi_adm v) \<and> (\<forall>j. sample_at d j = sample_at (vi_adm v) j)"
  using assms
proof (induction i arbitrary: v k)
  case 0
  then show ?case using pick_sample_step [OF 0(1), of k env n dup] by fastforce
next
  case (Suc i)
  have k: "\<not> playable (vi_adm v) dup k" "k < SAMPLE_MAX_SAMPLES"
    using Suc.prems(2,4) [rule_format, of 0] by simp_all
  obtain d where d: "adm_ok d" "hash_of d = hash_of (vi_adm v)" "\<forall>j. sample_at d j = sample_at (vi_adm v) j"
    "pick_sample env n dup k v =
      pick_sample env n dup (random_id n (pe_rand env (vi_rands v))) (v\<lparr>vi_adm := d, vi_rands := Suc (vi_rands v)\<rparr>)"
    using pick_sample_step [OF Suc.prems(1) k(2), of env n dup] k(1) by auto
  let ?v = "v\<lparr>vi_adm := d, vi_rands := Suc (vi_rands v)\<rparr>" and ?k = "random_id n (pe_rand env (vi_rands v))"
  have p: "playable d dup j \<longleftrightarrow> playable (vi_adm v) dup j" for j by (simp add: playable_def d(2))
  have "\<exists>d'. pick_sample env n dup ?k ?v = Some (nth_try env n (vi_rands ?v) ?k i, ?v\<lparr>vi_adm := d', vi_rands := vi_rands ?v + i\<rparr>) \<and>
      adm_ok d' \<and> hash_of d' = hash_of (vi_adm ?v) \<and> (\<forall>j. sample_at d' j = sample_at (vi_adm ?v) j)"
  proof (rule Suc.IH)
    show "\<forall>j<i. \<not> playable (vi_adm ?v) dup (nth_try env n (vi_rands ?v) ?k j)"
      using Suc.prems(2) [rule_format, of "Suc _"] by (simp add: p nth_try_Suc del: nth_try.simps)
    show "playable (vi_adm ?v) dup (nth_try env n (vi_rands ?v) ?k i)"
      using Suc.prems(3) by (simp add: p nth_try_Suc del: nth_try.simps)
    show "\<forall>j\<le>i. nth_try env n (vi_rands ?v) ?k j < SAMPLE_MAX_SAMPLES"
      using Suc.prems(4) [rule_format, of "Suc _"] by (simp add: nth_try_Suc del: nth_try.simps)
  qed (simp add: d(1))
  then show ?case using d(2-4) by (auto simp: nth_try_Suc simp del: nth_try.simps)
qed

lemma pick_sample_never:
  assumes "pick_sample env n dup k v = Some r" "adm_ok (vi_adm v)"
    "\<forall>i. nth_try env n (vi_rands v) k i < SAMPLE_MAX_SAMPLES"
  shows "\<exists>i. playable (vi_adm v) dup (nth_try env n (vi_rands v) k i)"
proof -
  define P where "P env n dup k v r \<longleftrightarrow> (adm_ok (vi_adm v) \<longrightarrow> (\<forall>i. nth_try env n (vi_rands v) k i < SAMPLE_MAX_SAMPLES) \<longrightarrow>
      (\<exists>i. playable (vi_adm v) dup (nth_try env n (vi_rands v) k i)))" for env n dup k and v :: veejay and r :: "int \<times> veejay"
  have "P env n dup k v r"
  proof (rule pick_sample.raw_induct [OF _ assms(1)])
    fix pick env n dup k v r
    assume IH: "\<And>n dup k v b y. pick n dup k v b = Some y \<Longrightarrow> P n dup k v b y"
      and run: "on_adm (\<lambda>d. sample_exists d k) v \<bind>
        (\<lambda>(e, v). if e = 0 \<or> k = dup then let (r, v) = vj_rand env v in pick env n dup (random_id n r) v else Some (k, v)) = Some r"
    show "P env n dup k v r"
      unfolding P_def
    proof (intro impI)
      assume ok: "adm_ok (vi_adm v)" and small: "\<forall>i. nth_try env n (vi_rands v) k i < SAMPLE_MAX_SAMPLES"
      have k: "k < SAMPLE_MAX_SAMPLES" using small [rule_format, of 0] by simp
      define d where "d = (if hash_of (vi_adm v) k = None then vi_adm v else memo_sample (vi_adm v) k)"
      define e :: int where "e = (if k > 0 \<and> hash_of (vi_adm v) k \<noteq> None then 1 else 0)"
      have x: "sample_exists (vi_adm v) k = Some (e, d)" unfolding d_def e_def by (rule sample_exists_at [OF ok k])
      have d: "adm_ok d" "hash_of d = hash_of (vi_adm v)" using ok by (simp_all add: d_def adm_ok_memo)
      let ?k = "random_id n (pe_rand env (vi_rands v))" and ?v = "v\<lparr>vi_adm := d, vi_rands := Suc (vi_rands v)\<rparr>"
      show "\<exists>i. playable (vi_adm v) dup (nth_try env n (vi_rands v) k i)"
      proof (cases "e = 0 \<or> k = dup")
        case False
        then have "playable (vi_adm v) dup k" by (auto simp: e_def playable_def split: if_splits)
        then show ?thesis by (intro exI [of _ 0]) simp
      next
        case True
        then have "P env n dup ?k ?v r" using run x by (intro IH) (simp add: on_adm_def vj_rand_def)
        moreover have "\<forall>i. nth_try env n (vi_rands ?v) ?k i < SAMPLE_MAX_SAMPLES"
          using small [rule_format, of "Suc _"] by (simp add: nth_try_Suc del: nth_try.simps)
        ultimately obtain i where "playable d dup (nth_try env n (Suc (vi_rands v)) ?k i)" using d(1) by (auto simp: P_def)
        then have "playable (vi_adm v) dup (nth_try env n (vi_rands v) k (Suc i))"
          using d(2) by (simp add: playable_def nth_try_Suc del: nth_try.simps)
        then show ?thesis by blast
      qed
    qed
  qed
  then show ?thesis using assms(2,3) by (simp add: P_def)
qed

text \<open>The body of the loop \<open>m\<close> times, as long as what is tried is turned down.\<close>

fun pick_rounds :: "play_env \<Rightarrow> int \<Rightarrow> int \<Rightarrow> nat \<Rightarrow> int \<Rightarrow> veejay \<Rightarrow> (int \<times> veejay) option" where
  "pick_rounds env n dup 0 k v = Some (k, v)"
| "pick_rounds env n dup (Suc m) k v = do {
     (e, v) \<leftarrow> on_adm (\<lambda>d. sample_exists d k) v;
     if e = 0 \<or> k = dup then let (r, v) = vj_rand env v in pick_rounds env n dup m (random_id n r) v else None }"

lemma pick_rounds_turned_down:
  assumes "adm_ok (vi_adm v)" "\<forall>i. \<not> playable (vi_adm v) dup (nth_try env n (vi_rands v) k i)"
    "\<forall>i. nth_try env n (vi_rands v) k i < SAMPLE_MAX_SAMPLES"
  shows "\<exists>v'. pick_rounds env n dup m k v = Some (nth_try env n (vi_rands v) k m, v')"
  using assms
proof (induction m arbitrary: v k)
  case (Suc m)
  have k: "\<not> playable (vi_adm v) dup k" "k < SAMPLE_MAX_SAMPLES"
    using Suc.prems(2,3) [rule_format, of 0] by simp_all
  define d where "d = (if hash_of (vi_adm v) k = None then vi_adm v else memo_sample (vi_adm v) k)"
  define e :: int where "e = (if k > 0 \<and> hash_of (vi_adm v) k \<noteq> None then 1 else 0)"
  have x: "sample_exists (vi_adm v) k = Some (e, d)" unfolding d_def e_def by (rule sample_exists_at [OF Suc.prems(1) k(2)])
  have d: "adm_ok d" "hash_of d = hash_of (vi_adm v)" using Suc.prems(1) by (simp_all add: d_def adm_ok_memo)
  have e: "e = 0 \<or> k = dup" using k(1) by (auto simp: e_def playable_def)
  let ?k = "random_id n (pe_rand env (vi_rands v))" and ?v = "v\<lparr>vi_adm := d, vi_rands := Suc (vi_rands v)\<rparr>"
  have "\<exists>v'. pick_rounds env n dup m ?k ?v = Some (nth_try env n (vi_rands ?v) ?k m, v')"
    by (rule Suc.IH)
      (use Suc.prems(2,3) [rule_format, of "Suc _"] d in \<open>simp_all add: playable_def nth_try_Suc del: nth_try.simps\<close>)
  then show ?case using x e by (auto simp: on_adm_def vj_rand_def nth_try_Suc simp del: nth_try.simps)
qed simp

lemma nth_try_range:
  assumes "1 \<le> n" "\<forall>i. 0 \<le> pe_rand env i \<and> pe_rand env i \<le> RAND_MAX" "1 \<le> k" "k \<le> n"
  shows "1 \<le> nth_try env n c k i \<and> nth_try env n c k i \<le> n"
  using assms random_id_range [OF assms(1)] by (cases i) simp_all

lemma only_sample_hangs:
  assumes "adm_ok (vi_adm v)" "1 \<le> n" "n < SAMPLE_MAX_SAMPLES" "\<forall>i. 0 \<le> pe_rand env i \<and> pe_rand env i \<le> RAND_MAX"
    "\<forall>j. hash_of (vi_adm v) j \<noteq> None \<longrightarrow> j = dup" "1 \<le> k" "k \<le> n"
  shows "pick_sample env n dup k v = None" "\<forall>m. pick_rounds env n dup m k v \<noteq> None"
proof -
  have no: "\<forall>i. \<not> playable (vi_adm v) dup (nth_try env n (vi_rands v) k i)" using assms(5) by (auto simp: playable_def)
  have small: "\<forall>i. nth_try env n (vi_rands v) k i < SAMPLE_MAX_SAMPLES"
    using nth_try_range [OF assms(2,4,6,7), of "vi_rands v"] assms(3) by (meson order.strict_trans1)
  show "pick_sample env n dup k v = None"
    using pick_sample_never [OF _ assms(1) small] no by (metis option.exhaust)
  show "\<forall>m. pick_rounds env n dup m k v \<noteq> None"
    using pick_rounds_turned_down [OF assms(1) no small] by (metis option.discI)
qed

lemma adm_ok_more_ids:
  assumes "adm_ok d" "this_sample_id d \<le> n"
  shows "adm_ok (d\<lparr>this_sample_id := n\<rparr>)"
  using assms unfolding adm_ok_def by (fastforce simp: hash_of_def)

subsection \<open>Properties\<close>

text \<open>
  The next of the sequence. With the slots an array of 101, the search from the slot after the current one returns
  the first slot in use up to slot 99 and then from slot 0 on, if there is one; only with no slot in use it switches the
  sequence off. It ends in every case and never reads outside the array. Slot 100 is looked at only when slot 99 is the
  current one.
\<close>

theorem next_sequence_slot:
  assumes "length (seq_samples v) = 101" "- 1 \<le> seq_current v" "seq_current v < 100"
  shows "vj_perform_valid_sequence v =
    Some (case find (\<lambda>i. seq_samples v ! nat i \<noteq> 0) ([seq_current v + 1..(if seq_current v < 99 then 99 else 100)] @ [0..99]) of
            None \<Rightarrow> (- 1, v\<lparr>seq_active := 0\<rparr>) | Some i \<Rightarrow> (i, v))"
  using valid_seq_loop_find [OF assms(1), of "seq_current v + 1"] assms(2,3)
  by (simp add: vj_perform_valid_sequence_def)

theorem next_sequence_slot_witness:
  "\<exists>v'. vj_perform_valid_sequence ((vj_demo (demo_loop 1))\<lparr>seq_samples := (replicate 101 0)[2 := 1], seq_current := 1\<rparr>) = Some (2, v')"
  using next_sequence_slot [of "(vj_demo (demo_loop 1))\<lparr>seq_samples := (replicate 101 0)[2 := 1], seq_current := 1\<rparr>"]
  by (simp add: upto_rec1 [of 2 99])

text \<open>
  The random player's choice. Whatever numbers are drawn, the loop that picks a sample ends exactly when one of the
  identifiers tried exists and is not the one to avoid; the first such identifier is the one that is picked, after as
  many draws as it takes, and the samples stay as they are.
\<close>

theorem random_pick:
  assumes "adm_ok (vi_adm v)" "1 \<le> n" "n < SAMPLE_MAX_SAMPLES" "\<forall>i. 0 \<le> pe_rand env i \<and> pe_rand env i \<le> RAND_MAX"
    "1 \<le> k" "k \<le> n"
  shows "(pick_sample env n dup k v = None \<longleftrightarrow> (\<forall>i. \<not> playable (vi_adm v) dup (nth_try env n (vi_rands v) k i))) \<and>
    (\<forall>i. playable (vi_adm v) dup (nth_try env n (vi_rands v) k i) \<longrightarrow>
         (\<forall>j<i. \<not> playable (vi_adm v) dup (nth_try env n (vi_rands v) k j)) \<longrightarrow>
       (\<exists>d. pick_sample env n dup k v = Some (nth_try env n (vi_rands v) k i, v\<lparr>vi_adm := d, vi_rands := vi_rands v + i\<rparr>) \<and>
            (\<forall>j. sample_at d j = sample_at (vi_adm v) j)))"
proof -
  have small: "\<forall>i. nth_try env n (vi_rands v) k i < SAMPLE_MAX_SAMPLES"
    using nth_try_range [OF assms(2,4,5,6), of "vi_rands v"] assms(3) by (meson order.strict_trans1)
  have first: "\<exists>d. pick_sample env n dup k v = Some (nth_try env n (vi_rands v) k i, v\<lparr>vi_adm := d, vi_rands := vi_rands v + i\<rparr>) \<and>
        (\<forall>j. sample_at d j = sample_at (vi_adm v) j)"
    if "playable (vi_adm v) dup (nth_try env n (vi_rands v) k i)" "\<forall>j<i. \<not> playable (vi_adm v) dup (nth_try env n (vi_rands v) k j)"
    for i using pick_sample_first [OF assms(1) that(2,1)] small by blast
  have "pick_sample env n dup k v \<noteq> None" if "playable (vi_adm v) dup (nth_try env n (vi_rands v) k i)" for i
    using exists_least_iff [of "\<lambda>i. playable (vi_adm v) dup (nth_try env n (vi_rands v) k i)"] first that
    by (metis option.discI)
  then show ?thesis using first pick_sample_never [OF _ assms(1) small] by (metis option.exhaust)
qed

theorem random_pick_witness:
  "\<exists>d. pick_sample env_quiet 3 2 1 (vj_demo (demo_loop 1)) = Some (1, (vj_demo (demo_loop 1))\<lparr>vi_adm := d\<rparr>)"
proof -
  have s: "adm_ok (vi_adm (vj_demo (demo_loop 1)))"
    using demo_solo(1) [of "demo_loop 1"] by (simp add: demo_loop_facts solo_def plays_def)
  have "playable (vi_adm (vj_demo (demo_loop 1))) 2 1"
    by (simp add: playable_def vj_demo_def hash_of_def adm_demo_def)
  then show ?thesis
    using random_pick [OF s, of 3 env_quiet 1 2, THEN conjunct2, rule_format, of 0]
    by (auto simp: SAMPLE_MAX_SAMPLES_def env_quiet_def RAND_MAX_def)
qed

text \<open>
  C28. The random player hangs when the sample that plays is the only one. If an identifier above the first has been
  used and no other sample is left, \<open>vj_perform_randomize\<close> in the mode that avoids the current sample does not return:
  every round of its loop is defined and draws the next number.
\<close>

theorem random_player_hangs:
  assumes "adm_ok (vi_adm v)" "rp_mode (st_randplayer v) = RANDMODE_SAMPLE" "2 < sample_size (vi_adm v)"
    "sample_size (vi_adm v) \<le> SAMPLE_MAX_SAMPLES" "\<forall>i. 0 \<le> pe_rand env i \<and> pe_rand env i \<le> RAND_MAX"
    "\<forall>j. hash_of (vi_adm v) j \<noteq> None \<longrightarrow> j = uc_sample_id v"
  shows "vj_perform_randomize env v = None \<and>
    (\<forall>m. pick_rounds env (sample_size (vi_adm v) - 1) (uc_sample_id v)
           m (random_id (sample_size (vi_adm v) - 1) (pe_rand env (vi_rands v)))
           (v\<lparr>vi_track_dup := uc_sample_id v, vi_rands := Suc (vi_rands v)\<rparr>) \<noteq> None)"
proof -
  let ?n = "sample_size (vi_adm v) - 1" and ?v = "v\<lparr>vi_track_dup := uc_sample_id v, vi_rands := Suc (vi_rands v)\<rparr>"
  have n: "1 \<le> ?n" "?n < SAMPLE_MAX_SAMPLES" "?n \<noteq> 1" using assms(3,4) by simp_all
  note k = random_id_range [OF n(1) assms(5) [rule_format, THEN conjunct1] assms(5) [rule_format, THEN conjunct2], of "vi_rands v"]
  have "adm_ok (vi_adm ?v)" "\<forall>j. hash_of (vi_adm ?v) j \<noteq> None \<longrightarrow> j = uc_sample_id v" using assms(1,6) by simp_all
  note h = only_sample_hangs [OF this(1) n(1,2) assms(5) this(2) k]
  then show ?thesis using assms(2) n(3) by (simp add: vj_perform_randomize_def RANDMODE_SAMPLE_def RANDMODE_INACTIVE_def vj_rand_def)
qed

theorem random_player_hangs_witness:
  "vj_perform_randomize env_quiet ((vj_demo (demo_loop 1))\<lparr>vi_adm := (vi_adm (vj_demo (demo_loop 1)))\<lparr>this_sample_id := 3\<rparr>,
     st_randplayer := \<lparr>rp_mode = RANDMODE_SAMPLE, rp_timer = 0, rp_min_delay = 0, rp_max_delay = 0\<rparr>\<rparr>) = None"
proof -
  let ?d = "(vi_adm (vj_demo (demo_loop 1)))\<lparr>this_sample_id := 3\<rparr>"
  have "adm_ok (vi_adm (vj_demo (demo_loop 1)))"
    using demo_solo(1) [of "demo_loop 1"] by (simp add: demo_loop_facts solo_def plays_def)
  then have ok: "adm_ok ?d" by (rule adm_ok_more_ids) (simp add: vj_demo_def adm_demo_def)
  show ?thesis
    by (rule random_player_hangs [THEN conjunct1])
      (use ok in \<open>auto simp: sample_size_def SAMPLE_MAX_SAMPLES_def env_quiet_def RAND_MAX_def vj_demo_def hash_of_def adm_demo_def split: if_splits\<close>)
qed

end
