(* ===== verification/SampleSwitch.thy ===== *)
theory SampleSwitch
  imports PlaySwitch
begin

text \<open>
  Switching between samples: what leaving a sample keeps of it, where a sample starts when it is selected, and that going
  to another sample and coming back resumes where playback left.
\<close>

subsection \<open>Steps that only touch caches, effects and streams\<close>

text \<open>The edit lists are the same but for their frame caches.\<close>

definition els_sim :: "adm \<Rightarrow> adm \<Rightarrow> bool" where
  "els_sim d d' \<longleftrightarrow> (\<forall>a. map_option (\<lambda>el. el\<lparr>el_cache := None\<rparr>) (ad_els d' a) = map_option (\<lambda>el. el\<lparr>el_cache := None\<rparr>) (ad_els d a))"

definition calm :: "adm \<Rightarrow> adm \<Rightarrow> bool" where
  "calm d d' \<longleftrightarrow> side d d' \<and> hash_of d' = hash_of d \<and> els_sim d d' \<and> (fx_table_ok (ad_fx d) \<longrightarrow> fx_table_ok (ad_fx d'))"

lemma els_sim_refl [simp]: "els_sim d d" by (simp add: els_sim_def)

lemma els_sim_trans: "els_sim d d1 \<Longrightarrow> els_sim d1 d2 \<Longrightarrow> els_sim d d2" by (simp add: els_sim_def)

lemma els_sim_same: "ad_els d' = ad_els d \<Longrightarrow> els_sim d d'" by (simp add: els_sim_def)

lemma els_simD:
  assumes "els_sim d d'" "ad_els d a = Some el"
  obtains el' where "ad_els d' a = Some el'" "el_max_frame_size el' = el_max_frame_size el"
    "el_total_frames el' = el_total_frames el"
proof -
  have "map_option (\<lambda>el. el\<lparr>el_cache := None\<rparr>) (ad_els d' a) = Some (el\<lparr>el_cache := None\<rparr>)"
    using assms by (simp add: els_sim_def)
  then obtain el' where e: "ad_els d' a = Some el'" "el'\<lparr>el_cache := None\<rparr> = el\<lparr>el_cache := None\<rparr>" by auto
  from arg_cong [OF e(2), of el_max_frame_size] arg_cong [OF e(2), of el_total_frames] e(1) that show ?thesis by simp
qed

lemma calm_refl: "adm_ok d \<Longrightarrow> calm d d" by (simp add: calm_def side_refl)

lemma calm_trans: "calm d d1 \<Longrightarrow> calm d1 d2 \<Longrightarrow> calm d d2"
  by (auto simp: calm_def intro: side_trans els_sim_trans)

lemma calm_memo: "adm_ok d \<Longrightarrow> calm d (memo_sample d k)"
  by (simp add: calm_def side_memo els_sim_same)

lemma calm_kept: "kept d d' \<Longrightarrow> fx_table_ok (ad_fx d') \<Longrightarrow> calm d d'"
  by (simp add: calm_def kept_def tab_def els_sim_same)

lemma calmD:
  assumes "calm d d'"
  shows "adm_ok d'" "sample_at d' j = sample_at d j" "side d d'" "hash_of d' = hash_of d" "els_sim d d'"
    "find_sample d' j = find_sample d j"
  using assms side_sample_at by (auto simp: calm_def side_def)

text \<open>A sample that can be played: its list is there, and so are those of the samples it mixes in.\<close>

definition has_list :: "adm \<Rightarrow> sample_info \<Rightarrow> bool" where
  "has_list d si \<longleftrightarrow> (\<exists>a el. si_edit_list si = Some a \<and> ad_els d a = Some el \<and> el_max_frame_size el \<noteq> 0)"

definition all_ready :: "adm \<Rightarrow> bool" where
  "all_ready d \<longleftrightarrow> adm_ok d \<and> fx_table_ok (ad_fx d) \<and>
     (\<forall>k si. sample_at d k = Some si \<longrightarrow> has_list d si \<and> (\<forall>e \<in> set (si_effect_chain si). sc_channel e \<noteq> SAMPLE_MAX_SAMPLES))"

lemma has_list_sim: "els_sim d d' \<Longrightarrow> has_list d si \<Longrightarrow> has_list d' si"
  unfolding has_list_def by (metis els_simD)

lemma all_ready_calm: "calm d d' \<Longrightarrow> all_ready d \<Longrightarrow> all_ready d'"
  unfolding all_ready_def by (metis calmD(1,2,5) calm_def has_list_sim)

lemma setup_cache_sim:
  assumes "el_max_frame_size el \<noteq> 0"
  shows "\<exists>el'. vj_el_setup_cache g el = Some el' \<and> el'\<lparr>el_cache := None\<rparr> = el\<lparr>el_cache := None\<rparr>"
  using assms by (auto simp: vj_el_setup_cache_def c_div_def Let_def)

lemma ad_setup_cache_calm:
  assumes "all_ready d" "has_list d si"
  shows "\<exists>d'. ad_setup_cache (si_edit_list si) d = Some d' \<and> calm d d'"
proof -
  obtain a el where a: "si_edit_list si = Some a" "ad_els d a = Some el" "el_max_frame_size el \<noteq> 0"
    using assms(2) by (auto simp: has_list_def)
  obtain el' where e: "vj_el_setup_cache (ad_elg d) el = Some el'" "el'\<lparr>el_cache := None\<rparr> = el\<lparr>el_cache := None\<rparr>"
    using setup_cache_sim [OF a(3)] by blast
  let ?d = "d\<lparr>ad_els := (ad_els d)(a \<mapsto> el')\<rparr>"
  have "calm d ?d"
    using side_upd(4) [of d] assms(1) a(2) e(2)
    by (auto simp: calm_def els_sim_def all_ready_def hash_of_def)
  then show ?thesis using a e by (auto simp: ad_setup_cache_def)
qed

lemma on_list_setup_calm:
  assumes "all_ready d" "k \<noteq> SAMPLE_MAX_SAMPLES"
  shows "\<exists>d'. on_list_of d k ad_setup_cache = Some d' \<and> calm d d'"
proof -
  have ok: "adm_ok d" using assms(1) by (simp add: all_ready_def)
  note m = calm_memo [OF ok, of k]
  show ?thesis
  proof (cases "find_sample d k")
    case None
    then show ?thesis using m by (auto simp: on_list_of_def sample_get_find [OF ok assms(2)])
  next
    case (Some a)
    then obtain si where si: "ad_samples d a = Some si" using find_sample_live [OF ok] by metis
    then have "sample_at d k = Some si" using Some by (simp add: sample_at_def)
    then have "has_list (memo_sample d k) si" using assms(1) has_list_sim [OF calmD(5) [OF m]] by (auto simp: all_ready_def)
    then obtain d' where "ad_setup_cache (si_edit_list si) (memo_sample d k) = Some d'" "calm (memo_sample d k) d'"
      using ad_setup_cache_calm [OF all_ready_calm [OF m assms(1)]] by blast
    then show ?thesis using Some si calm_trans [OF m] by (auto simp: on_list_of_def sample_get_find [OF ok assms(2)])
  qed
qed

lemma each_channel_setup_calm:
  assumes "all_ready d" "\<forall>e \<in> set es. sc_channel e \<noteq> SAMPLE_MAX_SAMPLES"
  shows "\<exists>d'. each_channel P ad_setup_cache es d = Some d' \<and> calm d d'"
  using assms
proof (induction es arbitrary: d)
  case Nil
  then show ?case by (simp add: calm_refl all_ready_def)
next
  case (Cons e es)
  obtain d1 where d1: "(if P e then on_list_of d (sc_channel e) ad_setup_cache else Some d) = Some d1" "calm d d1"
    using on_list_setup_calm [OF Cons.prems(1), of "sc_channel e"] Cons.prems(2) calm_refl [of d] Cons.prems(1)
    by (cases "P e") (auto simp: all_ready_def)
  obtain d2 where "each_channel P ad_setup_cache es d1 = Some d2" "calm d1 d2"
    using Cons.IH [OF all_ready_calm [OF d1(2) Cons.prems(1)]] Cons.prems(2) by auto
  then show ?case using d1 calm_trans [OF d1(2)] by auto
qed

lemma start_playing_calm:
  assumes "all_ready d" "sample_at d k = Some si" "k \<noteq> SAMPLE_MAX_SAMPLES"
  shows "\<exists>d'. sample_start_playing d k nc = Some (1, d') \<and> calm d d'"
proof -
  have ok: "adm_ok d" using assms(1) by (simp add: all_ready_def)
  note m = calm_memo [OF ok, of k]
  note r = all_ready_calm [OF m assms(1)]
  obtain a where a: "find_sample d k = Some a" using assms(2) by (auto simp: sample_at_def split: option.splits)
  have si: "has_list (memo_sample d k) si" "\<forall>e \<in> set (si_effect_chain si). sc_channel e \<noteq> SAMPLE_MAX_SAMPLES"
    using assms(1,2) has_list_sim [OF calmD(5) [OF m]] by (auto simp: all_ready_def)
  obtain d1 where d1: "(if nc then Some (memo_sample d k) else ad_setup_cache (si_edit_list si) (memo_sample d k)) = Some d1"
    "calm (memo_sample d k) d1"
    using ad_setup_cache_calm [OF r si(1)] calm_refl [OF calmD(1) [OF m]] by (cases nc) auto
  obtain d2 where d2: "each_channel (\<lambda>e. sc_source_type e = 0 \<and> sc_channel e > 0 \<and> sc_effect_id e > 0)
      ad_setup_cache (si_effect_chain si) d1 = Some d2" "calm d1 d2"
    using each_channel_setup_calm [OF all_ready_calm [OF d1(2) r] si(2)] by blast
  have "sample_start_playing d k nc = Some (1, d2)"
    unfolding sample_start_playing_def
    by (rule with_sample_found [OF ok assms(3) a assms(2)]) (use d1(1) d2(1) in simp)
  then show ?thesis using calm_trans [OF m calm_trans [OF d1(2) d2(2)]] by blast
qed

subsection \<open>Changes of one sample\<close>

definition changes :: "int \<Rightarrow> sample_info \<Rightarrow> adm \<Rightarrow> adm \<Rightarrow> bool" where
  "changes k si d d' \<longleftrightarrow> adm_ok d' \<and> hash_of d' = hash_of d \<and> els_sim d d' \<and> (fx_table_ok (ad_fx d) \<longrightarrow> fx_table_ok (ad_fx d')) \<and>
     (\<forall>j. sample_at d' j = (if j = k then Some si else sample_at d j))"

lemma changes_trans: "changes k si d d1 \<Longrightarrow> changes k sj d1 d2 \<Longrightarrow> changes k sj d d2"
  by (auto simp: changes_def intro: els_sim_trans)

lemma changesD:
  assumes "changes k si d d'"
  shows "adm_ok d'" "sample_at d' k = Some si" "hash_of d' = hash_of d" "els_sim d d'" "j \<noteq> k \<Longrightarrow> sample_at d' j = sample_at d j"
  using assms by (simp_all add: changes_def)

lemma changes_becomes: "becomes k si d d' \<Longrightarrow> changes k si d d'"
  by (simp add: becomes_def changes_def els_sim_same)

lemma changes_calm: "calm d d' \<Longrightarrow> sample_at d k = Some si \<Longrightarrow> changes k si d d'"
  by (auto simp: changes_def calmD) (simp add: calm_def)

lemma changes_put:
  assumes "adm_ok d" "find_sample d k = Some a" "sample_at d k = Some si" "calm (memo_sample d k) d1"
    "si_sample_id si' = si_sample_id si"
  shows "changes k si' d (put_sample a si' d1)"
proof -
  note p = put_side [OF assms(1-3) calmD(3) [OF assms(4)] assms(5)]
  have "hash_of (put_sample a si' d1) = hash_of d" "els_sim d (put_sample a si' d1)"
    using calmD(4,5) [OF assms(4)] by (simp_all add: put_sample_def hash_of_def els_sim_def)
  moreover have "fx_table_ok (ad_fx (put_sample a si' d1))" if "fx_table_ok (ad_fx d)"
    using assms(4) that by (simp add: put_sample_def calm_def)
  ultimately show ?thesis using p by (simp add: changes_def)
qed

text \<open>The chain without the instances of its effects.\<close>

definition bare :: "sample_eff_chain list \<Rightarrow> sample_eff_chain list" where
  "bare es = map (\<lambda>e. e\<lparr>sc_fx_instance := None\<rparr>) es"

lemma bare_channels:
  assumes "bare es = bare fs"
  shows "sc_channel ` set es = sc_channel ` set fs"
proof -
  have e: "sc_channel ` set gs = set (map sc_channel (bare gs))" for gs by (simp add: bare_def image_image comp_def)
  show ?thesis using e [of es] e [of fs] assms by simp
qed

lemma free_entry_bare: "free_entry e st = Some (e', st') \<Longrightarrow> e'\<lparr>sc_fx_instance := None\<rparr> = e\<lparr>sc_fx_instance := None\<rparr>"
  by (auto simp: free_entry_def fx_deactivate_def split: prod.splits if_splits option.splits Option.bind_splits)

lemma malloc_entry_bare: "malloc_entry fe e st = Some (e', st') \<Longrightarrow> e'\<lparr>sc_fx_instance := None\<rparr> = e\<lparr>sc_fx_instance := None\<rparr>"
  by (auto simp: malloc_entry_def split: prod.splits if_splits Option.bind_splits)

lemma map_entries_bare:
  assumes "\<And>e st e' st'. f e st = Some (e', st') \<Longrightarrow> e'\<lparr>sc_fx_instance := None\<rparr> = e\<lparr>sc_fx_instance := None\<rparr>"
    "map_entries f es st = Some (es', st')"
  shows "bare es' = bare es"
  using assms(2)
proof (induction es arbitrary: st es')
  case (Cons e es)
  then show ?case using assms(1) by (fastforce simp: bare_def split: prod.splits Option.bind_splits)
qed (simp add: bare_def)

lemma malloc_entries_calm:
  assumes "adm_ok d" "fx_table_ok (ad_fx d)"
  shows "\<exists>es' d' n'. map_entries (malloc_entry fe) es (d, n) = Some (es', d', n') \<and> calm d d' \<and> fx_table_ok (ad_fx d')"
  using assms
proof (induction es arbitrary: d n)
  case Nil
  then show ?case by (simp add: calm_refl)
next
  case (Cons e es)
  obtain e1 d1 n1 where 1: "malloc_entry fe e (d, n) = Some (e1, d1, n1)" "calm d d1" "fx_table_ok (ad_fx d1)"
  proof (cases "sc_effect_id e = 0")
    case True
    show ?thesis by (rule that [of e d n]) (use True Cons.prems calm_refl in \<open>simp_all add: malloc_entry_def\<close>)
  next
    case False
    obtain p r T where T: "vj_effect_activate fe (ad_fx d) (sc_effect_id e) = Some (p, r, T)" "fx_table_ok T"
      using activate_defined [OF Cons.prems(2), of fe "sc_effect_id e"] by blast
    show ?thesis
      by (rule that [of "e\<lparr>sc_fx_instance := p\<rparr>" "d\<lparr>ad_fx := T\<rparr>" "if r \<noteq> 0 then n + 1 else n"])
        (use False T side_upd(1) [OF Cons.prems(1)] in \<open>simp_all add: malloc_entry_def calm_def hash_of_def els_sim_def\<close>)
  qed
  obtain es2 d2 n2 where 2: "map_entries (malloc_entry fe) es (d1, n1) = Some (es2, d2, n2)" "calm d1 d2" "fx_table_ok (ad_fx d2)"
    using Cons.IH [OF calmD(1) [OF 1(2)] 1(3)] by blast
  show ?case using 1 2 calm_trans [OF 1(2) 2(2)] by auto
qed

lemma chain_malloc_changes:
  assumes "all_ready d" "sample_at d k = Some si" "k \<noteq> SAMPLE_MAX_SAMPLES"
  shows "\<exists>n es d'. sample_chain_malloc fe d k = Some (n, d') \<and> changes k (si\<lparr>si_effect_chain := es\<rparr>) d d' \<and>
    bare es = bare (si_effect_chain si)"
proof -
  have ok: "adm_ok d" "fx_table_ok (ad_fx d)" using assms(1) by (simp_all add: all_ready_def)
  obtain a where a: "find_sample d k = Some a" using assms(2) by (auto simp: sample_at_def split: option.splits)
  note m = calm_memo [OF ok(1), of k]
  obtain es d1 n where f: "map_entries (malloc_entry fe) (si_effect_chain si) (memo_sample d k, 0) = Some (es, d1, n)" "calm (memo_sample d k) d1"
    using malloc_entries_calm [OF calmD(1) [OF m], of fe "si_effect_chain si" 0] m ok(2) by (auto simp: calm_def)
  have "sample_chain_malloc fe d k = Some (n, put_sample a (si\<lparr>si_effect_chain := es\<rparr>) d1)"
    unfolding sample_chain_malloc_def by (rule with_sample_found [OF ok(1) assms(3) a assms(2)]) (simp add: f(1))
  moreover have "changes k (si\<lparr>si_effect_chain := es\<rparr>) d (put_sample a (si\<lparr>si_effect_chain := es\<rparr>) d1)"
    by (rule changes_put [OF ok(1) a assms(2) f(2)]) simp
  moreover have "bare es = bare (si_effect_chain si)" using map_entries_bare [OF malloc_entry_bare f(1)] .
  ultimately show ?thesis by blast
qed

lemma chain_free_changes:
  assumes "all_ready d" "sample_at d k = Some si" "k \<noteq> SAMPLE_MAX_SAMPLES"
  shows "\<exists>n es d'. sample_chain_free d k = Some (n, d') \<and> changes k (si\<lparr>si_effect_chain := es\<rparr>) d d' \<and>
    bare es = bare (si_effect_chain si)"
proof -
  have ok: "adm_ok d" "fx_table_ok (ad_fx d)" using assms(1) by (simp_all add: all_ready_def)
  obtain a where a: "find_sample d k = Some a" using assms(2) by (auto simp: sample_at_def split: option.splits)
  note m = calm_memo [OF ok(1), of k]
  obtain es d1 n where f: "map_entries free_entry (si_effect_chain si) (memo_sample d k, 0) = Some (es, d1, n)"
      "kept (memo_sample d k) d1" "fx_table_ok (ad_fx d1)"
    using free_entries_kept [OF calmD(1) [OF m], of "si_effect_chain si" 0] m ok(2) by (auto simp: calm_def)
  have "sample_chain_free d k = Some (n, put_sample a (si\<lparr>si_effect_chain := es\<rparr>) d1)"
    unfolding sample_chain_free_def by (rule with_sample_found [OF ok(1) assms(3) a assms(2)]) (simp add: f(1))
  moreover have "changes k (si\<lparr>si_effect_chain := es\<rparr>) d (put_sample a (si\<lparr>si_effect_chain := es\<rparr>) d1)"
    by (rule changes_put [OF ok(1) a assms(2) calm_kept [OF f(2,3)]]) simp
  moreover have "bare es = bare (si_effect_chain si)" using map_entries_bare [OF free_entry_bare f(1)] .
  ultimately show ?thesis by blast
qed

lemma stop_playing_self:
  assumes "adm_ok d" "sample_at d k = Some si" "k \<noteq> SAMPLE_MAX_SAMPLES"
  shows "\<exists>d'. sample_stop_playing d k k = Some (1, d') \<and> calm d d'"
proof -
  obtain a where a: "find_sample d k = Some a" using assms(2) by (auto simp: sample_at_def split: option.splits)
  note m = calm_memo [OF assms(1), of k]
  have "sample_stop_playing d k k = Some (1, if k \<noteq> 0 then memo_sample (memo_sample d k) k else memo_sample d k)"
    using sample_get_find [OF assms(1,3)] sample_get_find [OF calmD(1) [OF m] assms(3)] a
    by (simp add: sample_stop_playing_def calmD(6) [OF m])
  then show ?thesis using m by (auto simp del: memo_idem simp: memo_idem)
qed

lemma all_ready_changes:
  assumes "changes k sj d d'" "all_ready d" "sample_at d k = Some si" "si_edit_list sj = si_edit_list si"
    "sc_channel ` set (si_effect_chain sj) = sc_channel ` set (si_effect_chain si)"
  shows "all_ready d'"
  unfolding all_ready_def
proof (intro conjI allI impI)
  show "adm_ok d'" "fx_table_ok (ad_fx d')" using assms(1,2) by (simp_all add: changes_def all_ready_def)
  fix j sk assume sk: "sample_at d' j = Some sk"
  have k: "has_list d' si" "\<forall>c \<in> sc_channel ` set (si_effect_chain sj). c \<noteq> SAMPLE_MAX_SAMPLES"
    using assms(2,3,5) has_list_sim [OF changesD(4) [OF assms(1)]] by (auto simp: all_ready_def)
  have "has_list d' sk \<and> (\<forall>c \<in> sc_channel ` set (si_effect_chain sk). c \<noteq> SAMPLE_MAX_SAMPLES)"
  proof (cases "j = k")
    case True
    then show ?thesis using sk changesD(2) [OF assms(1)] k assms(4) by (simp add: has_list_def)
  next
    case False
    then have "sample_at d j = Some sk" using sk changesD(5) [OF assms(1)] by simp
    then show ?thesis using assms(2) has_list_sim [OF changesD(4) [OF assms(1)]] by (auto simp: all_ready_def)
  qed
  then show "has_list d' sk" "\<forall>e \<in> set (si_effect_chain sk). sc_channel e \<noteq> SAMPLE_MAX_SAMPLES" by auto
qed

subsection \<open>Reading and writing the record\<close>

lemma read_changes:
  assumes "adm_ok d" "sample_at d k = Some si" "k \<noteq> SAMPLE_MAX_SAMPLES"
  obtains d' where "read_sample d k dflt g = Some (g si, d')" "changes k si d d'"
  by (rule that [OF becomes_read [OF assms] changes_becomes [OF becomes_memo [OF assms(1,2)]]])

lemma write_changes:
  assumes "adm_ok d" "sample_at d k = Some si" "k \<noteq> SAMPLE_MAX_SAMPLES" "\<forall>si. si_sample_id (f si) = si_sample_id si"
  obtains d' where "write_sample d k dflt r f = Some (r, d')" "changes k (f si) d d'"
  by (rule that [OF becomes_write [OF assms(1-3)] changes_becomes [OF becomes_modify [OF assms(1,2,4)]]])

lemma short_info_changes:
  assumes "adm_ok d" "sample_at d k = Some si" "k \<noteq> SAMPLE_MAX_SAMPLES"
  obtains d' where "sample_get_short_info d k = Some ((0, Some (fst (play_range si), snd (play_range si), si_looptype si, si_speed si)), d')"
    "changes k si d d'"
proof -
  have "sample_get_short_info d k = read_sample d k (- 1, None)
      (\<lambda>si. (0, Some (fst (play_range si), snd (play_range si), si_looptype si, si_speed si)))"
    unfolding sample_get_short_info_def by (rule arg_cong [of _ _ "read_sample d k (- 1, None)"]) (auto simp: play_range_def)
  with becomes_read [OF assms] show ?thesis by (intro that [OF _ changes_becomes [OF becomes_memo [OF assms(1,2)]]]) simp
qed

text \<open>Where a sample resumes, and how long its list is.\<close>

definition resume_of :: "sample_info \<Rightarrow> int" where
  "resume_of si =
     (let p = si_resume_pos si;
          p = (if p < si_first_frame si then si_first_frame si
               else if p > si_last_frame si then si_last_frame si else p)
      in if si_marker_start si \<ge> 0 \<and> si_marker_end si > 0
         then (if p < si_marker_start si then si_marker_start si
               else if p > si_marker_end si then si_marker_end si else p)
         else p)"

definition length_of :: "adm \<Rightarrow> sample_info \<Rightarrow> int" where
  "length_of d si =
     (if si_play_length si \<noteq> 0 then si_play_length si
      else case si_edit_list si of None \<Rightarrow> 0
           | Some a \<Rightarrow> (case ad_els d a of None \<Rightarrow> 0 | Some el \<Rightarrow> int32_of_long (uint (el_total_frames el))))"

lemma get_resume_changes:
  assumes "adm_ok d" "sample_at d k = Some si" "k \<noteq> SAMPLE_MAX_SAMPLES"
  obtains d' where "sample_get_resume d k = Some (resume_of si, d')" "changes k (si\<lparr>si_resume_pos := resume_of si\<rparr>) d d'"
proof -
  obtain a where a: "find_sample d k = Some a" using assms(2) by (auto simp: sample_at_def split: option.splits)
  let ?d = "put_sample a (si\<lparr>si_resume_pos := resume_of si\<rparr>) (memo_sample d k)"
  have "sample_get_resume d k = Some (resume_of si, ?d)"
    unfolding sample_get_resume_def by (rule with_sample_found [OF assms(1,3) a assms(2)]) (simp add: resume_of_def Let_def)
  moreover have "changes k (si\<lparr>si_resume_pos := resume_of si\<rparr>) d ?d"
    by (rule changes_put [OF assms(1) a assms(2) calm_refl [OF adm_ok_memo [OF assms(1)]]]) simp
  ultimately show ?thesis by (rule that)
qed

lemma length_of_sim:
  assumes "els_sim d d'" "has_list d si" "si_edit_list sj = si_edit_list si" "si_play_length sj = si_play_length si"
  shows "length_of d' sj = length_of d si"
proof -
  obtain a el where a: "si_edit_list si = Some a" "ad_els d a = Some el" using assms(2) by (auto simp: has_list_def)
  obtain el' where "ad_els d' a = Some el'" "el_total_frames el' = el_total_frames el" using els_simD [OF assms(1) a(2)] by blast
  with a assms(3,4) show ?thesis by (simp add: length_of_def)
qed

lemma video_length_changes:
  assumes "adm_ok d" "sample_at d k = Some si" "k \<noteq> SAMPLE_MAX_SAMPLES" "has_list d si"
  obtains d' where "sample_video_length d k = Some (length_of d si, d')" "changes k si d d'"
proof -
  obtain a where a: "find_sample d k = Some a" using assms(2) by (auto simp: sample_at_def split: option.splits)
  have "sample_video_length d k = Some (length_of d si, memo_sample d k)"
    unfolding sample_video_length_def
    by (rule with_sample_found [OF assms(1,3) a assms(2)]) (use assms(4) in \<open>auto simp: edit_list_of_def has_list_def length_of_def\<close>)
  then show ?thesis using that changes_calm [OF calm_memo [OF assms(1)] assms(2)] by blast
qed

text \<open>Records that differ in counters, the speed, the position and the instances of effects only.\<close>

definition same_sample :: "sample_info \<Rightarrow> sample_info \<Rightarrow> bool" where
  "same_sample si sj \<longleftrightarrow>
     fixed_part (sj\<lparr>si_effect_chain := bare (si_effect_chain sj)\<rparr>) = fixed_part (si\<lparr>si_effect_chain := bare (si_effect_chain si)\<rparr>)"

lemma same_sample_refl [simp]: "same_sample si si" by (simp add: same_sample_def)

lemma same_sample_trans: "same_sample si sj \<Longrightarrow> same_sample sj sk \<Longrightarrow> same_sample si sk" by (simp add: same_sample_def)

lemma same_sample_fields:
  assumes "same_sample si sj"
  shows "play_range sj = play_range si" "get_start sj = get_start si" "get_end sj = get_end si" "frames sj = frames si"
    "si_looptype sj = si_looptype si" "si_dup sj = si_dup si" "si_edit_list sj = si_edit_list si"
    "si_play_length sj = si_play_length si" "bare (si_effect_chain sj) = bare (si_effect_chain si)"
    "si_first_frame sj = si_first_frame si" "si_last_frame sj = si_last_frame si"
    "si_marker_start sj = si_marker_start si" "si_marker_end sj = si_marker_end si"
proof -
  note e = assms [unfolded same_sample_def fixed_part_def]
  show looptype: "si_looptype sj = si_looptype si" using arg_cong [OF e, of si_looptype] by simp
  show dup: "si_dup sj = si_dup si" using arg_cong [OF e, of si_dup] by simp
  show edit_list: "si_edit_list sj = si_edit_list si" using arg_cong [OF e, of si_edit_list] by simp
  show play_length: "si_play_length sj = si_play_length si" using arg_cong [OF e, of si_play_length] by simp
  show first_frame: "si_first_frame sj = si_first_frame si" using arg_cong [OF e, of si_first_frame] by simp
  show last_frame: "si_last_frame sj = si_last_frame si" using arg_cong [OF e, of si_last_frame] by simp
  show marker_start: "si_marker_start sj = si_marker_start si" using arg_cong [OF e, of si_marker_start] by simp
  show marker_end: "si_marker_end sj = si_marker_end si" using arg_cong [OF e, of si_marker_end] by simp
  show "bare (si_effect_chain sj) = bare (si_effect_chain si)" using arg_cong [OF e, of si_effect_chain] by simp
  show "play_range sj = play_range si" "get_start sj = get_start si" "get_end sj = get_end si" "frames sj = frames si"
    using first_frame last_frame marker_start marker_end by (simp_all add: play_range_def get_start_def get_end_def frames_def)
qed

lemma same_sample_upd:
  "bare es = bare (si_effect_chain si) \<Longrightarrow> same_sample si (si\<lparr>si_effect_chain := es\<rparr>)"
  "same_sample si (si\<lparr>si_dups := n\<rparr>)" "same_sample si (si\<lparr>si_loopcount := n\<rparr>)" "same_sample si (si\<lparr>si_resume_pos := n\<rparr>)"
  "same_sample si (si\<lparr>si_speed := n\<rparr>)"
  by (simp_all add: same_sample_def fixed_part_def)

lemma same_sample_fixed:
  assumes "fixed_part sj = fixed_part si"
  shows "same_sample si sj"
proof -
  have x: "fixed_part (sk\<lparr>si_effect_chain := es\<rparr>) = (fixed_part sk)\<lparr>si_effect_chain := es\<rparr>" for sk es by (simp add: fixed_part_def)
  have "si_effect_chain sj = si_effect_chain si" using arg_cong [OF assms, of si_effect_chain] by (simp add: fixed_part_def)
  then show ?thesis by (simp add: same_sample_def x assms)
qed

lemma same_sample_put_pos: "put_pos bounds p si = (sj, q) \<Longrightarrow> same_sample si sj"
  by (rule same_sample_fixed [OF put_pos_fixed])

lemma all_ready_same:
  assumes "changes k sj d d'" "all_ready d" "sample_at d k = Some si" "same_sample si sj"
  shows "all_ready d'"
  by (rule all_ready_changes [OF assms(1-3)]) (rule same_sample_fields(7) [OF assms(4)] bare_channels [OF same_sample_fields(9) [OF assms(4)]])+

subsection \<open>Leaving and entering a sample\<close>

lemma stop_sample:
  assumes "all_ready (vi_adm v)" "sample_at (vi_adm v) k = Some si" "k \<noteq> SAMPLE_MAX_SAMPLES" "uc_sample_id v = k" "\<not> vi_composite v"
  obtains sj d' where "veejay_stop_playing_sample v k = Some (1, v\<lparr>vi_adm := d'\<rparr>)" "changes k sj (vi_adm v) d'"
    "same_sample si sj" "si_resume_pos sj = st_current_frame_num v" "si_speed sj = si_speed si"
proof -
  have ok: "adm_ok (vi_adm v)" using assms(1) by (simp add: all_ready_def)
  obtain d1 where d1: "sample_stop_playing (vi_adm v) k k = Some (1, d1)" "calm (vi_adm v) d1"
    using stop_playing_self [OF ok assms(2,3)] by blast
  have s1: "sample_at d1 k = Some si" using calmD(2) [OF d1(2)] assms(2) by simp
  obtain n es d2 where d2: "sample_chain_free d1 k = Some (n, d2)" "changes k (si\<lparr>si_effect_chain := es\<rparr>) d1 d2"
    "bare es = bare (si_effect_chain si)"
    using chain_free_changes [OF all_ready_calm [OF d1(2) assms(1)] s1 assms(3)] by blast
  let ?s2 = "si\<lparr>si_effect_chain := es\<rparr>"
  obtain d3 where d3: "sample_set_framedups d2 k 0 = Some (1, d3)" "changes k (?s2\<lparr>si_dups := 0\<rparr>) d2 d3"
    unfolding sample_set_framedups_def
    by (rule write_changes [OF changesD(1,2) [OF d2(2)] assms(3), where f = "\<lambda>si. si\<lparr>si_dups := 0\<rparr>"]) simp_all
  let ?s4 = "?s2\<lparr>si_dups := 0, si_resume_pos := st_current_frame_num v\<rparr>"
  obtain d4 where d4: "sample_set_resume d3 k (st_current_frame_num v) = Some (1, d4)" "changes k ?s4 d3 d4"
    unfolding sample_set_resume_def
    by (rule write_changes [OF changesD(1,2) [OF d3(2)] assms(3), where f = "\<lambda>si. si\<lparr>si_resume_pos := st_current_frame_num v\<rparr>"]) simp_all
  have "changes k ?s4 (vi_adm v) d4"
    using changes_trans [OF changes_calm [OF d1(2) assms(2)] changes_trans [OF d2(2) changes_trans [OF d3(2) d4(2)]]] .
  moreover have "veejay_stop_playing_sample v k = Some (1, v\<lparr>vi_adm := d4\<rparr>)"
    using assms(4,5) d1(1) d2(1) d3(1) d4(1) by (simp add: veejay_stop_playing_sample_def on_adm_def composite_to_top_def)
  moreover have "same_sample si ?s4"
    using same_sample_trans [OF same_sample_upd(1) [OF d2(3)] same_sample_trans [OF same_sample_upd(2,4)]] .
  ultimately show ?thesis by (intro that [of d4 ?s4]) simp_all
qed

text \<open>Where a selected sample starts, when samples resume.\<close>

definition entry_pos :: "adm \<Rightarrow> sample_info \<Rightarrow> int" where
  "entry_pos d si = clamp (fst (play_range si)) (snd (play_range si)) (clamp 0 (length_of d si) (resume_of si))"

lemma resume_at_plays:
  assumes "plays k si v" "put_pos (st_min_frame_num v, st_max_frame_num v) (resume_of si) (si\<lparr>si_resume_pos := resume_of si\<rparr>) = (sj, q)"
    "st_min_frame_num v \<le> st_max_frame_num v" "fst (play_range si) \<le> snd (play_range si)" "st_sample_restart v = 0"
  obtains d' where "veejay_sample_resume_at v k = Some (v\<lparr>vi_adm := d', st_current_frame_num := q\<rparr>)" "changes k sj (vi_adm v) d'"
proof -
  note p = playsD [OF assms(1)]
  obtain d1 where d1: "sample_get_resume (vi_adm v) k = Some (resume_of si, d1)" "changes k (si\<lparr>si_resume_pos := resume_of si\<rparr>) (vi_adm v) d1"
    by (rule get_resume_changes [OF p(4,5,3)])
  have p1: "plays k (si\<lparr>si_resume_pos := resume_of si\<rparr>) (v\<lparr>vi_adm := d1\<rparr>)"
    using p changesD(1,2) [OF d1(2)] by (simp add: plays_def)
  obtain v2 where v2: "veejay_set_frame (v\<lparr>vi_adm := d1\<rparr>) (resume_of si) = Some (1, v2)"
    "moves k sj (v\<lparr>vi_adm := d1, st_current_frame_num := q\<rparr>) v2"
    by (rule set_frame_plays [OF p1]) (use assms(2-4) in simp_all)
  obtain d2 where d2: "v2 = v\<lparr>vi_adm := d2, st_current_frame_num := q\<rparr>" "becomes k sj d1 d2"
  proof -
    from v2(2) obtain d2 where "v2 = v\<lparr>vi_adm := d1, st_current_frame_num := q, vi_adm := d2\<rparr>" "becomes k sj d1 d2"
      by (auto simp: moves_def)
    then show ?thesis by (intro that [of d2]) simp_all
  qed
  show ?thesis
    by (rule that [of d2])
      (use assms(5) d1 v2(1) d2 changes_trans [OF d1(2) changes_becomes [OF d2(2)]] in
        \<open>simp_all add: veejay_sample_resume_at_def on_adm_def\<close>)
qed

lemma same_sample_speed:
  assumes "same_sample si sj"
  shows "speed_fits sj s = speed_fits si s"
  using same_sample_fields(2-4) [OF assms] by (simp add: speed_fits_def)

lemma start_sample:
  assumes "all_ready (vi_adm v)" "sample_at (vi_adm v) k = Some si" "k \<noteq> SAMPLE_MAX_SAMPLES" "\<not> vi_composite v" "\<not> vi_font v"
    "st_sample_restart v = 0" "uc_playback_mode v = VJ_PLAYBACK_MODE_SAMPLE" "fst (play_range si) \<le> snd (play_range si)"
    "0 \<le> length_of (vi_adm v) si"
  obtains sj d' s z where "veejay_start_playing_sample env v k = Some (1, v\<lparr>vi_adm := d', vi_current_edit_list := si_edit_list si,
      st_save_list := None, st_save_list_len := 0, st_min_frame_num := 0, st_max_frame_num := length_of (vi_adm v) si,
      st_first_frame := 1, uc_sample_id := k, vi_last_sample_id := k, vi_sfd := si_dup si,
      st_current_frame_num := entry_pos (vi_adm v) si, st_current_playback_speed := s, uc_direction := z\<rparr>)"
    "changes k sj (vi_adm v) d'" "same_sample si sj"
    "s = (if speed_fits si (clamp_speed (si_speed si)) then clamp_speed (si_speed si) else st_current_playback_speed v)"
proof -
  let ?L = "length_of (vi_adm v) si" and ?q = "entry_pos (vi_adm v) si"
  have ok: "adm_ok (vi_adm v)" using assms(1) by (simp add: all_ready_def)
  obtain d1 where d1: "sample_get_editlist (vi_adm v) k = Some (si_edit_list si, d1)" "changes k si (vi_adm v) d1"
    unfolding sample_get_editlist_def by (rule read_changes [OF ok assms(2,3)])
  note r1 = all_ready_same [OF d1(2) assms(1,2) same_sample_refl]
  obtain d2 where d2: "sample_start_playing d1 k (vi_no_caching v) = Some (1, d2)" "calm d1 d2"
    using start_playing_calm [OF r1 changesD(2) [OF d1(2)] assms(3)] by blast
  have s2: "sample_at d2 k = Some si" using calmD(2) [OF d2(2)] changesD(2) [OF d1(2)] by simp
  note r2 = all_ready_calm [OF d2(2) r1] and c2 = changes_trans [OF d1(2) changes_calm [OF d2(2) changesD(2) [OF d1(2)]]]
  obtain n es d3 where d3: "sample_chain_malloc (pe_fx env) d2 k = Some (n, d3)" "changes k (si\<lparr>si_effect_chain := es\<rparr>) d2 d3"
    "bare es = bare (si_effect_chain si)"
    using chain_malloc_changes [OF r2 s2 assms(3)] by blast
  let ?s3 = "si\<lparr>si_effect_chain := es\<rparr>"
  note sm3 = same_sample_upd(1) [OF d3(3)] and c3 = changes_trans [OF c2 d3(2)]
  note f3 = same_sample_fields [OF sm3]
  obtain d4 where d4: "sample_get_short_info d3 k = Some ((0, Some (fst (play_range ?s3), snd (play_range ?s3), si_looptype ?s3, si_speed ?s3)), d4)"
    "changes k ?s3 d3 d4"
    by (rule short_info_changes [OF changesD(1,2) [OF d3(2)] assms(3)])
  note c4 = changes_trans [OF c3 d4(2)]
  have l4: "has_list d4 ?s3" "length_of d4 ?s3 = ?L"
    using assms(1,2) has_list_sim [OF changesD(4) [OF c4]] length_of_sim [OF changesD(4) [OF c4], of si ?s3]
    by (auto simp: all_ready_def has_list_def)
  obtain d5 where d5: "sample_video_length d4 k = Some (?L, d5)" "changes k ?s3 d4 d5"
    using video_length_changes [OF changesD(1,2) [OF d4(2)] assms(3) l4(1)] l4(2) by metis
  let ?s6 = "?s3\<lparr>si_loopcount := 0\<rparr>"
  obtain d6 where d6: "sample_reset_loopcount d5 k = Some ((), d6)" "changes k ?s6 d5 d6"
    unfolding sample_reset_loopcount_def
    by (rule write_changes [OF changesD(1,2) [OF d5(2)] assms(3), where f = "\<lambda>si. si\<lparr>si_loopcount := 0\<rparr>"]) simp_all
  obtain d7 where d7: "sample_get_framedup d6 k = Some (si_dup ?s6, d7)" "changes k ?s6 d6 d7"
    unfolding sample_get_framedup_def by (rule read_changes [OF changesD(1,2) [OF d6(2)] assms(3)])
  note c7 = changes_trans [OF c4 changes_trans [OF d5(2) changes_trans [OF d6(2) d7(2)]]]
  note sm7 = same_sample_trans [OF sm3 same_sample_upd(3) [of ?s3 0]]
  note f7 = same_sample_fields [OF sm7]
  let ?v7 = "v\<lparr>vi_current_edit_list := si_edit_list si, st_save_list := None, st_save_list_len := 0, st_min_frame_num := 0,
      st_max_frame_num := ?L, st_first_frame := 1, uc_sample_id := k, vi_last_sample_id := k, vi_adm := d7, vi_sfd := si_dup si\<rparr>"
  have p7: "plays k ?s6 ?v7" using assms(3,7) changesD(1,2) [OF c7] by (simp add: plays_def)
  have rs: "resume_of ?s6 = resume_of si" by (simp add: resume_of_def Let_def)
  obtain s8 where s8: "put_pos (0, ?L) (resume_of si) (?s6\<lparr>si_resume_pos := resume_of si\<rparr>) = (s8, ?q)"
  proof -
    have "snd (put_pos (0, ?L) (resume_of si) (?s6\<lparr>si_resume_pos := resume_of si\<rparr>)) = ?q"
      using f7(1) by (simp add: put_pos_def entry_pos_def Let_def split: prod.split)
    then show ?thesis by (metis that prod.collapse)
  qed
  have sm8: "same_sample si s8"
    using same_sample_trans [OF sm7 same_sample_trans [OF same_sample_upd(4) same_sample_put_pos [OF s8]]] .
  obtain d8 where d8: "veejay_sample_resume_at ?v7 k = Some (?v7\<lparr>vi_adm := d8, st_current_frame_num := ?q\<rparr>)" "changes k s8 d7 d8"
    by (rule resume_at_plays [OF p7, unfolded rs]) (use s8 assms(6,8,9) f7(1) in simp_all)
  define w where "w = ?v7\<lparr>vi_adm := d8, st_current_frame_num := ?q\<rparr>"
  have w: "st_current_frame_num w = ?q" "st_current_playback_speed w = st_current_playback_speed v" "vi_adm w = d8"
    by (simp_all add: w_def)
  have p8: "plays k s8 w" using p7 changesD(1,2) [OF d8(2)] by (simp add: plays_def w_def)
  obtain v9 where v9: "veejay_set_speed w (si_speed si) = Some (1, v9)"
    "arrives k (if speed_fits s8 (clamp_speed (si_speed si)) then s8\<lparr>si_speed := clamp_speed (si_speed si)\<rparr> else s8) ?q
       (if speed_fits s8 (clamp_speed (si_speed si)) then clamp_speed (si_speed si) else st_current_playback_speed v) w v9"
    by (rule set_speed_plays [OF p8, of "si_speed si", unfolded w])
  let ?s9 = "if speed_fits s8 (clamp_speed (si_speed si)) then s8\<lparr>si_speed := clamp_speed (si_speed si)\<rparr> else s8"
  let ?t = "if speed_fits si (clamp_speed (si_speed si)) then clamp_speed (si_speed si) else st_current_playback_speed v"
  obtain d9 z where d9: "becomes k ?s9 d8 d9"
      "v9 = w\<lparr>vi_adm := d9, st_current_frame_num := ?q, st_current_playback_speed := ?t, uc_direction := z\<rparr>"
    by (rule arrivesE [OF v9(2), unfolded w same_sample_speed [OF sm8]]) (simp only: same_sample_speed [OF sm8])
  have run: "veejay_start_playing_sample env v k = Some (1, v9)"
    using d1(1) d2(1) d3(1) d4(1) d5(1) d6(1) d7(1) d8(1) v9(1) assms(4-6)
    by (simp add: veejay_start_playing_sample_def on_adm_def load_sample_view_def veejay_reset_el_buffer_def w_def)
  have v9: "v9 = v\<lparr>vi_adm := d9, vi_current_edit_list := si_edit_list si,
      st_save_list := None, st_save_list_len := 0, st_min_frame_num := 0, st_max_frame_num := ?L,
      st_first_frame := 1, uc_sample_id := k, vi_last_sample_id := k, vi_sfd := si_dup si,
      st_current_frame_num := ?q, st_current_playback_speed := ?t, uc_direction := z\<rparr>"
    by (rule veejay.equality) (simp_all add: d9(2) w_def)
  have "same_sample si ?s9" using sm8 same_sample_trans [OF sm8 same_sample_upd(5)] by simp
  then show ?thesis
    using run changes_trans [OF c7 changes_trans [OF d8(2) changes_becomes [OF d9(1)]]] unfolding v9 by (intro that) simp_all
qed

subsection \<open>From one sample to another\<close>

text \<open>A server that plays, without subtitles, compositor and restart of samples.\<close>

definition ready :: "veejay \<Rightarrow> bool" where
  "ready v \<longleftrightarrow> all_ready (vi_adm v) \<and> \<not> vi_composite v \<and> \<not> vi_font v \<and> st_sample_restart v = 0 \<and> unheld v \<and>
     seq_active v = 0 \<and> rp_mode (st_randplayer v) = RANDMODE_INACTIVE"

definition selectable :: "adm \<Rightarrow> int \<Rightarrow> sample_info \<Rightarrow> bool" where
  "selectable d k si \<longleftrightarrow> sample_at d k = Some si \<and> 0 < k \<and> k < SAMPLE_MAX_SAMPLES \<and> hash_of d k \<noteq> None \<and>
     fst (play_range si) \<le> snd (play_range si) \<and> 0 \<le> length_of d si"

lemma entry_pos_range:
  "fst (play_range si) \<le> snd (play_range si) \<Longrightarrow> fst (play_range si) \<le> entry_pos d si \<and> entry_pos d si \<le> snd (play_range si)"
  by (simp add: entry_pos_def clamp_def)

lemma selectable_changes:
  assumes "changes j sj d d'" "all_ready d" "sample_at d j = Some s" "same_sample s sj" "selectable d k si"
  shows "selectable d' k (if k = j then sj else si)" "k \<noteq> j \<Longrightarrow> entry_pos d' si = entry_pos d si"
    "same_sample si (if k = j then sj else si)"
proof -
  have h: "has_list d si" using assms(2,5) by (auto simp: all_ready_def selectable_def)
  have k: "k = j \<Longrightarrow> si = s" using assms(3,5) by (simp add: selectable_def)
  show s: "same_sample si (if k = j then sj else si)" using k assms(4) by auto
  note f = same_sample_fields [OF s]
  have "length_of d' (if k = j then sj else si) = length_of d si"
    by (rule length_of_sim [OF changesD(4) [OF assms(1)] h f(7,8)])
  then show "selectable d' k (if k = j then sj else si)"
    using assms(5) f(1) changesD(2,3) [OF assms(1)] changesD(5) [OF assms(1), of k] by (auto simp: selectable_def)
  show "k \<noteq> j \<Longrightarrow> entry_pos d' si = entry_pos d si"
    using length_of_sim [OF changesD(4) [OF assms(1)] h refl refl] by (simp add: entry_pos_def)
qed

lemma enter_sample:
  assumes "ready v" "selectable (vi_adm v) k si" "uc_playback_mode v = VJ_PLAYBACK_MODE_SAMPLE"
  obtains sj v' where "veejay_start_playing_sample env v k = Some (1, v')" "ready v'" "solo k sj v'" "same_sample si sj"
    "changes k sj (vi_adm v) (vi_adm v')" "st_current_frame_num v' = entry_pos (vi_adm v) si"
    "bounds_of v' = (0, length_of (vi_adm v) si)" "vi_current_edit_list v' = si_edit_list si"
    "st_current_playback_speed v' = (if speed_fits si (clamp_speed (si_speed si)) then clamp_speed (si_speed si)
       else st_current_playback_speed v)"
proof -
  have k: "sample_at (vi_adm v) k = Some si" "k \<noteq> SAMPLE_MAX_SAMPLES" "fst (play_range si) \<le> snd (play_range si)"
    "0 \<le> length_of (vi_adm v) si" using assms(2) by (auto simp: selectable_def)
  have r: "all_ready (vi_adm v)" "\<not> vi_composite v" "\<not> vi_font v" "st_sample_restart v = 0" using assms(1) by (simp_all add: ready_def)
  obtain sj d' s z where st: "veejay_start_playing_sample env v k = Some (1, v\<lparr>vi_adm := d', vi_current_edit_list := si_edit_list si,
      st_save_list := None, st_save_list_len := 0, st_min_frame_num := 0, st_max_frame_num := length_of (vi_adm v) si,
      st_first_frame := 1, uc_sample_id := k, vi_last_sample_id := k, vi_sfd := si_dup si,
      st_current_frame_num := entry_pos (vi_adm v) si, st_current_playback_speed := s, uc_direction := z\<rparr>)"
    "changes k sj (vi_adm v) d'" "same_sample si sj"
    "s = (if speed_fits si (clamp_speed (si_speed si)) then clamp_speed (si_speed si) else st_current_playback_speed v)"
    by (rule start_sample [OF r(1) k(1,2) r(2-4) assms(3) k(3,4)])
  let ?v = "v\<lparr>vi_adm := d', vi_current_edit_list := si_edit_list si,
      st_save_list := None, st_save_list_len := 0, st_min_frame_num := 0, st_max_frame_num := length_of (vi_adm v) si,
      st_first_frame := 1, uc_sample_id := k, vi_last_sample_id := k, vi_sfd := si_dup si,
      st_current_frame_num := entry_pos (vi_adm v) si, st_current_playback_speed := s, uc_direction := z\<rparr>"
  note f = same_sample_fields [OF st(3)]
  have a: "all_ready d'" by (rule all_ready_same [OF st(2) r(1) k(1) st(3)])
  have at: "sample_at d' k = Some sj" by (rule changesD(2) [OF st(2)])
  have "has_list d' sj" using a at by (simp add: all_ready_def)
  then have l: "listed ?v sj" by (auto simp: listed_def has_list_def)
  have s: "solo k sj ?v"
    using assms(1,3) k f(1) at l changesD(1) [OF st(2)] by (simp add: solo_def plays_def ready_def)
  have "ready ?v" using assms(1) a by (simp add: ready_def unheld_def)
  then show ?thesis by (rule that [OF st(1) _ s st(3)]) (use st(2,4) in simp_all)
qed

lemma may_switch:
  assumes "ready v" "selectable (vi_adm v) k si"
  obtains d where "can_switch v VJ_PLAYBACK_MODE_SAMPLE k = Some (True, v\<lparr>vi_adm := d\<rparr>)" "calm (vi_adm v) d"
proof -
  have k: "k < SAMPLE_MAX_SAMPLES" "0 < k" "hash_of (vi_adm v) k \<noteq> None" "adm_ok (vi_adm v)"
    using assms by (auto simp: selectable_def ready_def all_ready_def)
  show ?thesis
    by (rule that [of "memo_sample (vi_adm v) k"])
      (use sample_exists_at [OF k(4,1)] k calm_memo [OF k(4)] in \<open>auto simp: can_switch_def on_adm_def mode_consts\<close>)
qed

lemma selectable_calm:
  assumes "calm d d'" "all_ready d" "selectable d k si"
  shows "selectable d' k si" "entry_pos d' si = entry_pos d si" "length_of d' si = length_of d si"
proof -
  have "has_list d si" using assms(2,3) by (auto simp: all_ready_def selectable_def)
  then show l: "length_of d' si = length_of d si" by (rule length_of_sim [OF calmD(5) [OF assms(1)] _ refl refl])
  then show "selectable d' k si" "entry_pos d' si = entry_pos d si"
    using assms(3) calmD(2,4) [OF assms(1)] by (simp_all add: selectable_def entry_pos_def)
qed

text \<open>The sample that is left keeps its position.\<close>

lemma switch_to_sample:
  assumes "ready v" "selectable (vi_adm v) j sj" "selectable (vi_adm v) k si" "j \<noteq> k"
    "uc_playback_mode v = VJ_PLAYBACK_MODE_SAMPLE" "uc_sample_id v = j"
  obtains si' sj' v' where "veejay_change_playback_mode env v VJ_PLAYBACK_MODE_SAMPLE k = Some v'" "ready v'" "solo k si' v'"
    "same_sample si si'" "st_current_frame_num v' = entry_pos (vi_adm v) si" "bounds_of v' = (0, length_of (vi_adm v) si)"
    "vi_current_edit_list v' = si_edit_list si"
    "selectable (vi_adm v') j sj'" "same_sample sj sj'" "si_resume_pos sj' = st_current_frame_num v" "si_speed sj' = si_speed sj"
    "length_of (vi_adm v') sj' = length_of (vi_adm v) sj" "selectable (vi_adm v') k si'"
    "\<forall>i. i \<noteq> j \<longrightarrow> i \<noteq> k \<longrightarrow> sample_at (vi_adm v') i = sample_at (vi_adm v) i"
proof -
  note r = assms(1) [unfolded ready_def, THEN conjunct1]
  obtain d1 where d1: "can_switch v VJ_PLAYBACK_MODE_SAMPLE k = Some (True, v\<lparr>vi_adm := d1\<rparr>)" "calm (vi_adm v) d1"
    by (rule may_switch [OF assms(1,3)])
  note r1 = all_ready_calm [OF d1(2) r]
  note j1 = selectable_calm [OF d1(2) r assms(2)] and k1 = selectable_calm [OF d1(2) r assms(3)]
  have j: "sample_at d1 j = Some sj" "j \<noteq> SAMPLE_MAX_SAMPLES" using j1(1) by (auto simp: selectable_def)
  obtain sj' d2 where d2: "veejay_stop_playing_sample (v\<lparr>vi_adm := d1\<rparr>) j = Some (1, v\<lparr>vi_adm := d2\<rparr>)" "changes j sj' d1 d2"
    "same_sample sj sj'" "si_resume_pos sj' = st_current_frame_num v" "si_speed sj' = si_speed sj"
  proof -
    let ?v = "v\<lparr>vi_adm := d1\<rparr>"
    have v: "all_ready (vi_adm ?v)" "sample_at (vi_adm ?v) j = Some sj" "uc_sample_id ?v = j" "\<not> vi_composite ?v"
      using r1 j assms(1,6) by (simp_all add: ready_def)
    obtain sj' d2 where "veejay_stop_playing_sample ?v j = Some (1, ?v\<lparr>vi_adm := d2\<rparr>)" "changes j sj' (vi_adm ?v) d2"
      "same_sample sj sj'" "si_resume_pos sj' = st_current_frame_num ?v" "si_speed sj' = si_speed sj"
      by (rule stop_sample [OF v(1,2) j(2) v(3,4)])
    then show ?thesis by (intro that [of d2 sj']) simp_all
  qed
  note r2 = all_ready_same [OF d2(2) r1 j(1) d2(3)]
  note k2 = selectable_changes [OF d2(2) r1 j(1) d2(3) k1(1)] and j2 = selectable_changes [OF d2(2) r1 j(1) d2(3) j1(1)]
  define w where "w = v\<lparr>vi_adm := d2, uc_playback_mode := VJ_PLAYBACK_MODE_SAMPLE\<rparr>"
  have w: "ready w" "vi_adm w = d2" "uc_playback_mode w = VJ_PLAYBACK_MODE_SAMPLE"
    using assms(1) r2 by (simp_all add: w_def ready_def unheld_def)
  have kw: "selectable (vi_adm w) k si" "entry_pos d2 si = entry_pos (vi_adm v) si" using k2(1,2) assms(4) k1(2) w(2) by auto
  obtain si' v' where v': "veejay_start_playing_sample env w k = Some (1, v')" "ready v'" "solo k si' v'" "same_sample si si'"
    "changes k si' (vi_adm w) (vi_adm v')" "st_current_frame_num v' = entry_pos (vi_adm w) si"
    "bounds_of v' = (0, length_of (vi_adm w) si)" "vi_current_edit_list v' = si_edit_list si"
    by (rule enter_sample [OF w(1) kw(1) w(3)])
  have l: "has_list d2 si" "has_list d1 si" "has_list d1 sj" "has_list d2 sj'"
    using r2 r1 kw(1) k1(1) j1(1) j2(1) w(2) by (auto simp: all_ready_def selectable_def)
  have lk: "length_of d2 si = length_of (vi_adm v) si"
    using length_of_sim [OF changesD(4) [OF d2(2)] l(2) refl refl] k1(3) by simp
  have lj: "length_of (vi_adm v') sj' = length_of (vi_adm v) sj"
    using length_of_sim [OF changesD(4) [OF v'(5)], of sj' sj'] l(4) w(2)
      length_of_sim [OF changesD(4) [OF d2(2)] l(3) same_sample_fields(7,8) [OF d2(3)]] j1(3) by simp
  have jw: "selectable (vi_adm w) j sj'" using j2(1) w(2) by simp
  note kk = kw(1) [unfolded selectable_def, THEN conjunct1]
  note rw = w(1) [unfolded ready_def, THEN conjunct1]
  note s = selectable_changes(1) [OF v'(5) rw kk v'(4) jw] selectable_changes(1) [OF v'(5) rw kk v'(4) kw(1)]
  have run: "veejay_change_playback_mode env v VJ_PLAYBACK_MODE_SAMPLE k = Some v'"
    using d1(1) d2(1) v'(1) assms(4-6) by (simp add: veejay_change_playback_mode_def leave_current_def mode_consts w_def)
  have others: "\<forall>i. i \<noteq> j \<longrightarrow> i \<noteq> k \<longrightarrow> sample_at (vi_adm v') i = sample_at (vi_adm v) i"
    using changesD(5) [OF v'(5)] changesD(5) [OF d2(2)] calmD(2) [OF d1(2)] w(2) by simp
  show ?thesis
    by (rule that [OF run v'(2-4) _ _ v'(8) _ d2(3-5) lj _ others]) (use v'(6,7) kw(2) lk w(2) s assms(4) in simp_all)
qed

lemma resume_of_here:
  assumes "si_resume_pos si = p" "si_first_frame si \<le> p" "p \<le> si_last_frame si" "fst (play_range si) \<le> p" "p \<le> snd (play_range si)"
    "0 \<le> p" "p \<le> length_of d si"
  shows "entry_pos d si = p"
proof -
  have "resume_of si = p" using assms(1-5) by (auto simp: resume_of_def play_range_def Let_def split: if_splits)
  then show ?thesis using assms(4-7) by (simp add: entry_pos_def clamp_def)
qed

lemma played_ready:
  assumes "played k sj q t c v v'" "ready v" "selectable (vi_adm v) k si" "same_sample si sj"
  shows "ready v'" "changes k sj (vi_adm v) (vi_adm v')" "uc_playback_mode v' = uc_playback_mode v" "uc_sample_id v' = uc_sample_id v"
proof -
  obtain d' z cc where v': "becomes k sj (vi_adm v) d'"
    "v' = v\<lparr>vi_adm := d', st_current_frame_num := q, st_current_playback_speed := t, uc_direction := z, vi_rands := c,
             st_cycle_count := cc\<rparr>" by (rule playedE [OF assms(1)])
  show c: "changes k sj (vi_adm v) (vi_adm v')" using changes_becomes [OF v'(1)] v'(2) by simp
  have "all_ready (vi_adm v')"
    by (rule all_ready_same [OF c _ _ assms(4)]) (use assms(2,3) in \<open>simp_all add: ready_def selectable_def\<close>)
  then show "ready v'" using assms(2) v'(2) by (simp add: ready_def unheld_def)
  show "uc_playback_mode v' = uc_playback_mode v" "uc_sample_id v' = uc_sample_id v" using v'(2) by simp_all
qed

subsection \<open>Properties\<close>

text \<open>Two samples of one list of two frames; the first one plays.\<close>

definition demo_of :: "int \<Rightarrow> int \<Rightarrow> sample_info" where
  "demo_of k looptype = (demo_loop looptype)\<lparr>si_sample_id := k\<rparr>"

definition adm_two :: adm where
  "adm_two = adm_start\<lparr>ad_samples := [0 \<mapsto> demo_of 1 2, 2 \<mapsto> demo_of 2 3], ad_els := [1 \<mapsto> el_demo\<lparr>el_max_frame_size := 100\<rparr>],
     ad_next := 3, SampleHash := Hash_table [1 \<mapsto> 0, 2 \<mapsto> 2], this_sample_id := 3, ad_fx := fx_empty\<rparr>"

definition vj_two :: "int \<Rightarrow> veejay" where
  "vj_two mode = (vj_demo (demo_loop 1))\<lparr>vi_adm := adm_two, uc_playback_mode := mode\<rparr>"

lemma demo_of_facts:
  "si_sample_id (demo_of k n) = k" "play_range (demo_of k n) = (0, 1)" "si_edit_list (demo_of k n) = Some 1"
  "si_effect_chain (demo_of k n) = replicate SAMPLE_MAX_EFFECTS (chain_skeleton 1)" "si_play_length (demo_of k n) = 0"
  "si_first_frame (demo_of k n) = 0" "si_last_frame (demo_of k n) = 1" "resume_of (demo_of k n) = 0"
  by (simp_all add: demo_of_def demo_loop_def sample_demo_def sample_zero_def play_range_def resume_of_def)

lemma adm_two_hash: "hash_of adm_two = [1 \<mapsto> 0, 2 \<mapsto> 2]" by (simp add: adm_two_def hash_of_def)

lemma adm_two_find: "find_sample adm_two k = (if k = 1 then Some 0 else if k = 2 then Some 2 else None)"
proof -
  have "sample_cache adm_two j = None" for j by (simp add: adm_two_def adm_start_def sample_init_def)
  then show ?thesis by (simp add: find_sample_def adm_two_hash SAMPLE_MAX_SAMPLES_def)
qed

lemma adm_two_at: "sample_at adm_two k = (if k = 1 then Some (demo_of 1 2) else if k = 2 then Some (demo_of 2 3) else None)"
  by (simp add: sample_at_def adm_two_find) (simp add: adm_two_def)

lemma adm_two_list: "ad_els adm_two (Suc 0) = Some (el_demo\<lparr>el_max_frame_size := 100\<rparr>)" by (simp add: adm_two_def)

lemma adm_two_ok: "adm_ok adm_two"
  unfolding adm_ok_def adm_two_hash
  by (auto simp: adm_two_def adm_start_def sample_init_def SAMPLE_MAX_SAMPLES_def demo_of_facts split: if_splits)

lemma vj_two_ready: "ready (vj_two mode)"
proof -
  have "all_ready adm_two"
    unfolding all_ready_def
    using adm_two_ok adm_two_at
    by (auto simp: has_list_def demo_of_facts adm_two_list chain_skeleton_def SAMPLE_MAX_SAMPLES_def adm_two_def fx_table_ok_def
        fx_empty_def fx_consts split: if_splits)
  then show ?thesis by (simp add: ready_def vj_two_def vj_demo_def unheld_def RANDMODE_INACTIVE_def)
qed

lemma adm_two_length: "length_of adm_two (demo_of k n) = 1"
  by (simp add: length_of_def demo_of_facts adm_two_list el_demo_def int32_of_long_def)

lemma vj_two_selectable: "selectable (vi_adm (vj_two mode)) 1 (demo_of 1 2)" "selectable (vi_adm (vj_two mode)) 2 (demo_of 2 3)"
  by (simp_all add: selectable_def vj_two_def adm_two_at adm_two_hash demo_of_facts adm_two_length SAMPLE_MAX_SAMPLES_def)

text \<open>
  C26. Selecting a sample. From the plain edit list or from another sample, selecting a sample that exists plays it: its
  list becomes the current one, the bounds are 0 and the length of the list, the position is where the sample was left,
  brought into the bounds and then into the range of the sample, and its record is the same but for counters and the
  instances of its effects, which are set up anew.
\<close>

theorem select_sample:
  assumes "ready v" "selectable (vi_adm v) k si"
    "uc_playback_mode v = VJ_PLAYBACK_MODE_PLAIN \<or>
     (uc_playback_mode v = VJ_PLAYBACK_MODE_SAMPLE \<and> uc_sample_id v \<noteq> k \<and> (\<exists>sj. selectable (vi_adm v) (uc_sample_id v) sj))"
  shows "\<exists>v' sk. veejay_change_playback_mode env v VJ_PLAYBACK_MODE_SAMPLE k = Some v' \<and>
    uc_playback_mode v' = VJ_PLAYBACK_MODE_SAMPLE \<and> uc_sample_id v' = k \<and> vi_current_edit_list v' = si_edit_list si \<and>
    st_min_frame_num v' = 0 \<and> st_max_frame_num v' = length_of (vi_adm v) si \<and>
    st_current_frame_num v' = clamp (fst (play_range si)) (snd (play_range si)) (clamp 0 (length_of (vi_adm v) si) (resume_of si)) \<and>
    sample_at (vi_adm v') k = Some sk \<and> same_sample si sk"
proof (cases "uc_playback_mode v = VJ_PLAYBACK_MODE_PLAIN")
  case True
  note r = assms(1) [unfolded ready_def, THEN conjunct1]
  obtain d1 where d1: "can_switch v VJ_PLAYBACK_MODE_SAMPLE k = Some (True, v\<lparr>vi_adm := d1\<rparr>)" "calm (vi_adm v) d1"
    by (rule may_switch [OF assms(1,2)])
  note k1 = selectable_calm [OF d1(2) r assms(2)]
  define w where "w = v\<lparr>vi_adm := d1, uc_playback_mode := VJ_PLAYBACK_MODE_SAMPLE\<rparr>"
  have w: "ready w" "selectable (vi_adm w) k si" "uc_playback_mode w = VJ_PLAYBACK_MODE_SAMPLE" "vi_adm w = d1"
    using assms(1) all_ready_calm [OF d1(2) r] k1(1) by (simp_all add: w_def ready_def unheld_def)
  obtain sk v' where v': "veejay_start_playing_sample env w k = Some (1, v')" "solo k sk v'" "same_sample si sk"
    "st_current_frame_num v' = entry_pos (vi_adm w) si" "bounds_of v' = (0, length_of (vi_adm w) si)"
    "vi_current_edit_list v' = si_edit_list si"
    by (rule enter_sample [OF w(1-3)])
  have "veejay_change_playback_mode env v VJ_PLAYBACK_MODE_SAMPLE k = Some v'"
    using d1(1) v'(1) True by (simp add: veejay_change_playback_mode_def leave_current_def mode_consts w_def)
  then show ?thesis
    using v' k1 w(4) by (intro exI [of _ v'] exI [of _ sk]) (simp add: solo_def plays_def entry_pos_def)
next
  case False
  then obtain sj where j: "uc_playback_mode v = VJ_PLAYBACK_MODE_SAMPLE" "uc_sample_id v \<noteq> k" "selectable (vi_adm v) (uc_sample_id v) sj"
    using assms(3) by blast
  obtain sk sj' v' where v': "veejay_change_playback_mode env v VJ_PLAYBACK_MODE_SAMPLE k = Some v'" "solo k sk v'" "same_sample si sk"
    "st_current_frame_num v' = entry_pos (vi_adm v) si" "bounds_of v' = (0, length_of (vi_adm v) si)"
    "vi_current_edit_list v' = si_edit_list si"
    by (rule switch_to_sample [OF assms(1) j(3) assms(2) j(2,1) refl])
  then show ?thesis
    by (intro exI [of _ v'] exI [of _ sk]) (simp add: solo_def plays_def entry_pos_def)
qed

theorem select_sample_witness:
  "\<exists>v'. veejay_change_playback_mode env_quiet (vj_two VJ_PLAYBACK_MODE_PLAIN) VJ_PLAYBACK_MODE_SAMPLE 2 = Some v' \<and>
     uc_sample_id v' = 2 \<and> st_current_frame_num v' = 0 \<and> st_max_frame_num v' = 1"
proof -
  have m: "uc_playback_mode (vj_two VJ_PLAYBACK_MODE_PLAIN) = VJ_PLAYBACK_MODE_PLAIN" by (simp add: vj_two_def)
  from select_sample [OF vj_two_ready vj_two_selectable(2) disjI1 [OF m], of env_quiet] show ?thesis
    by (auto simp: demo_of_facts clamp_def vj_two_def adm_two_length)
qed

text \<open>
  C27. Away and back. A server that leaves a sample for another one, plays that one for any number of frames, in
  whichever way it loops, and comes back is at the frame where it left.
\<close>

theorem away_and_back:
  assumes "ready v" "selectable (vi_adm v) a sa" "selectable (vi_adm v) b sb" "a \<noteq> b"
    "uc_playback_mode v = VJ_PLAYBACK_MODE_SAMPLE" "uc_sample_id v = a"
    "fst (play_range sa) \<le> st_current_frame_num v" "st_current_frame_num v \<le> snd (play_range sa)"
    "si_first_frame sa \<le> st_current_frame_num v" "st_current_frame_num v \<le> si_last_frame sa"
    "0 \<le> st_current_frame_num v" "st_current_frame_num v \<le> length_of (vi_adm v) sa"
    "- 2147483648 \<le> fst (play_range sb)" "snd (play_range sb) < 2147483648"
  shows "\<exists>v1 v2 v3. veejay_change_playback_mode env v VJ_PLAYBACK_MODE_SAMPLE b = Some v1 \<and> queue_frames env n v1 = Some v2 \<and>
    veejay_change_playback_mode env v2 VJ_PLAYBACK_MODE_SAMPLE a = Some v3 \<and>
    uc_sample_id v3 = a \<and> st_current_frame_num v3 = st_current_frame_num v"
proof -
  let ?p = "st_current_frame_num v"
  obtain sb1 sa1 v1 where v1: "veejay_change_playback_mode env v VJ_PLAYBACK_MODE_SAMPLE b = Some v1" "ready v1" "solo b sb1 v1"
    "same_sample sb sb1" "st_current_frame_num v1 = entry_pos (vi_adm v) sb" "selectable (vi_adm v1) a sa1" "same_sample sa sa1"
    "si_resume_pos sa1 = ?p" "length_of (vi_adm v1) sa1 = length_of (vi_adm v) sa" "selectable (vi_adm v1) b sb1"
    by (rule switch_to_sample [OF assms(1-6)])
  note fa = same_sample_fields [OF v1(7)] and fb = same_sample_fields [OF v1(4)]
  have q: "fst (play_range sb1) \<le> st_current_frame_num v1 \<and> st_current_frame_num v1 \<le> snd (play_range sb1)"
    using entry_pos_range [of sb "vi_adm v"] assms(3) v1(5) fb(1) by (simp add: selectable_def)
  obtain sj q t c where sp: "spec_frames env (bounds_of v1) n sb1 (st_current_frame_num v1) (st_current_playback_speed v1) (vi_rands v1)
      = (sj, q, t, c)" by (metis prod_cases4)
  have "unheld v1" using v1(2) by (simp add: ready_def)
  then obtain v2 where v2: "queue_frames env n v1 = Some v2" "solo b sj v2" "played b sj q t c v1 v2"
    using queue_frames_solo [OF v1(3) _ sp] by blast
  have same: "same_sample sb1 sj"
    using spec_frames_keeps [OF sp] q assms(13,14) fb(1) by (intro same_sample_fixed) simp
  note r2 = played_ready [OF v2(3) v1(2,10) same]
  have at: "sample_at (vi_adm v1) b = Some sb1" "all_ready (vi_adm v1)"
    using v1(2,10) by (simp_all add: selectable_def ready_def)
  note b2 = selectable_changes [OF r2(2) at(2,1) same v1(10)] and a2 = selectable_changes [OF r2(2) at(2,1) same v1(6)]
  have a2': "selectable (vi_adm v2) a sa1" "entry_pos (vi_adm v2) sa1 = entry_pos (vi_adm v1) sa1" using a2(1,2) assms(4) by auto
  have b2': "selectable (vi_adm v2) b sj" using b2(1) by simp
  have m: "uc_playback_mode v2 = VJ_PLAYBACK_MODE_SAMPLE" "uc_sample_id v2 = b" using v2(2) by (simp_all add: solo_def plays_def)
  obtain sa3 sb3 v3 where v3: "veejay_change_playback_mode env v2 VJ_PLAYBACK_MODE_SAMPLE a = Some v3" "solo a sa3 v3"
    "st_current_frame_num v3 = entry_pos (vi_adm v2) sa1"
    by (rule switch_to_sample [OF r2(1) b2' a2'(1) assms(4) [symmetric] m])
  have "entry_pos (vi_adm v1) sa1 = ?p"
    by (rule resume_of_here) (use assms(7-12) fa v1(8,9) in simp_all)
  then show ?thesis using v1(1) v2(1) v3 a2'(2) by (auto simp: solo_def plays_def)
qed

theorem away_and_back_witness:
  "\<exists>v1 v2 v3. veejay_change_playback_mode env_quiet (vj_two VJ_PLAYBACK_MODE_SAMPLE) VJ_PLAYBACK_MODE_SAMPLE 2 = Some v1 \<and>
     queue_frames env_quiet 5 v1 = Some v2 \<and>
     veejay_change_playback_mode env_quiet v2 VJ_PLAYBACK_MODE_SAMPLE 1 = Some v3 \<and> uc_sample_id v3 = 1 \<and> st_current_frame_num v3 = 0"
proof -
  have m: "uc_playback_mode (vj_two VJ_PLAYBACK_MODE_SAMPLE) = VJ_PLAYBACK_MODE_SAMPLE" "uc_sample_id (vj_two VJ_PLAYBACK_MODE_SAMPLE) = 1"
    "st_current_frame_num (vj_two VJ_PLAYBACK_MODE_SAMPLE) = 0" "vi_adm (vj_two VJ_PLAYBACK_MODE_SAMPLE) = adm_two"
    by (simp_all add: vj_two_def vj_demo_def)
  from away_and_back [OF vj_two_ready vj_two_selectable _ m(1,2), of env_quiet 5] show ?thesis
    by (simp add: m demo_of_facts adm_two_length)
qed

end
