(* ===== verification/MsgPool.thy ===== *)
theory MsgPool
  imports Prelude
begin

text \<open>
  The message pool (\<open>vj_simple_pool_*\<close> in \<open>libvjmem/vj-x86.c\<close>): a block of memory from which each message of a
  network tick takes its bytes; all of them are given back at once. An address is an offset into the block.
\<close>

subsection \<open>Operations\<close>

record msg_pool =
  pool_len :: int
  pool_cur :: int
  pool_mem :: string

definition vj_simple_pool_init :: "int \<Rightarrow> msg_pool" where
  "vj_simple_pool_init s = \<lparr>pool_len = s, pool_cur = 0, pool_mem = replicate (nat (RUP8 s)) (CHR 0x00)\<rparr>"

text \<open>
  The size is a \<open>size_t\<close>, so a negative one is larger than any block. The address is taken from the old position
  and then moved on by the \<^emph>\<open>new\<close> position, so blocks start at about twice the number of bytes handed out.
\<close>

definition vj_simple_pool_alloc :: "msg_pool \<Rightarrow> int \<Rightarrow> int option \<times> msg_pool" where
  "vj_simple_pool_alloc p s =
     (if s < 0 \<or> s > pool_len p \<or> pool_cur p + s > pool_len p then (None, p)
      else let ad = RUP8 (pool_cur p); cur = pool_cur p + RUP8 s in (Some (ad + cur), p\<lparr>pool_cur := cur\<rparr>))"

definition vj_simple_pool_reset :: "msg_pool \<Rightarrow> msg_pool" where
  "vj_simple_pool_reset p = p\<lparr>pool_cur := 0\<rparr>"

text \<open>Copying bytes into the block and reading them back; outside the block that is undefined.\<close>

definition pool_write :: "msg_pool \<Rightarrow> int \<Rightarrow> string \<Rightarrow> msg_pool option" where
  "pool_write p a bs =
     (if a < 0 \<or> a + int (length bs) > int (length (pool_mem p)) then out_of_bounds
      else Some (p\<lparr>pool_mem := take (nat a) (pool_mem p) @ bs @ drop (nat a + length bs) (pool_mem p)\<rparr>))"

definition pool_read :: "msg_pool \<Rightarrow> int \<Rightarrow> int \<Rightarrow> string option" where
  "pool_read p a n =
     (if a < 0 \<or> n < 0 \<or> a + n > int (length (pool_mem p)) then out_of_bounds
      else Some (take (nat n) (drop (nat a) (pool_mem p))))"

subsection \<open>Reading and writing\<close>

lemma pool_write_same:
  assumes "pool_write p a bs = Some q"
  shows "pool_read q a (int (length bs)) = Some bs" "length (pool_mem q) = length (pool_mem p)"
    "pool_len q = pool_len p" "pool_cur q = pool_cur p"
  using assms by (auto simp: pool_write_def pool_read_def split: if_splits)

lemma pool_write_other:
  assumes "pool_write p a bs = Some q" "b + n \<le> a" "0 \<le> b" "0 \<le> n"
  shows "pool_read q b n = pool_read p b n"
proof -
  have "0 \<le> a" "a + int (length bs) \<le> int (length (pool_mem p))" using assms(1) by (auto simp: pool_write_def split: if_splits)
  moreover have "take (nat n) (drop (nat b) (take (nat a) xs @ ys)) = take (nat n) (drop (nat b) xs)"
    if "nat a \<le> length xs" for xs ys :: string
  proof -
    have "nat b + nat n \<le> nat a" using assms(2-4) by linarith
    then show ?thesis using that by (simp add: take_drop [symmetric] min_def add.commute) (simp add: take_drop)
  qed
  ultimately show ?thesis using assms by (auto simp: pool_write_def pool_read_def)
qed

lemma pool_read_prefix:
  assumes "pool_read p a n = Some bs" "0 \<le> m" "m \<le> n"
  shows "pool_read p a m = Some (take (nat m) bs)"
  using assms by (auto simp: pool_read_def min_def split: if_splits)

subsection \<open>Blocks\<close>

text \<open>
  \<open>pool_room p e\<close>: bytes below \<open>e\<close> are taken, and a block of at least eight bytes that is handed out next lies
  above them.
\<close>

definition pool_room :: "msg_pool \<Rightarrow> int \<Rightarrow> bool" where
  "pool_room p e \<longleftrightarrow> 0 \<le> pool_cur p \<and> e \<le> RUP8 (pool_cur p) + pool_cur p + 8"

lemma RUP8_le: "RUP8 n \<le> n + 8"
  by (simp add: RUP8_eq)

lemma pool_room_alloc:
  assumes "pool_room p e" "8 \<le> s" "vj_simple_pool_alloc p s = (Some a, q)"
  shows "e \<le> a" "0 \<le> a" "pool_room q (a + s)" "a + s \<le> 2 * (pool_cur q) + 8" "pool_cur q \<le> pool_cur p + s + 8"
    "pool_mem q = pool_mem p" "pool_len q = pool_len p"
proof -
  have q: "a = RUP8 (pool_cur p) + pool_cur p + RUP8 s" "q = p\<lparr>pool_cur := pool_cur p + RUP8 s\<rparr>"
    using assms(3) by (auto simp: vj_simple_pool_alloc_def Let_def split: if_splits)
  have "8 \<le> RUP8 s" using assms(2) RUP8_ge [of s] by linarith
  then show "e \<le> a" "0 \<le> a" using assms(1) RUP8_ge [of "pool_cur p"] by (auto simp: q pool_room_def)
  have "s \<le> RUP8 s" "RUP8 (pool_cur p) \<le> pool_cur p + 8" "pool_cur q \<le> RUP8 (pool_cur q)" "RUP8 s \<le> s + 8"
    by (simp_all add: RUP8_ge RUP8_le)
  then show "pool_room q (a + s)" "a + s \<le> 2 * (pool_cur q) + 8" "pool_cur q \<le> pool_cur p + s + 8"
    using assms(1,2) by (auto simp: q pool_room_def)
qed (use assms(3) in \<open>auto simp: vj_simple_pool_alloc_def Let_def split: if_splits\<close>)

lemma pool_alloc_Some:
  assumes "0 \<le> s" "pool_cur p + s \<le> pool_len p" "0 \<le> pool_cur p"
  shows "\<exists>a q. vj_simple_pool_alloc p s = (Some a, q)"
  using assms by (simp add: vj_simple_pool_alloc_def Let_def)

end
