(* ===== verification/VimsServer.thy ===== *)
theory VimsServer
  imports MsgPool CText
begin

text \<open>
  The command server (\<open>libvjnet/vj-server.c\<close>): client slots, the check and the splitting of what a client sends
  into messages, and the queue from which they are taken.

  \<^item> A VIMS message is \<open>V\<close>, three digits of length, \<open>D\<close> and the text; a keyframe packet is \<open>K\<close>, eight digits of
    length and the bytes.
  \<^item> The receive buffer is its whole memory; what lies behind the bytes received is left from earlier calls.
    Behind its end a byte 0 is assumed, where \<open>sscanf\<close> stops.
  \<^item> What the socket calls answer is a parameter: the descriptor that \<open>accept\<close> returns, the bytes of each \<open>recv\<close>.
\<close>

subsection \<open>State\<close>

definition VJ_MAX_CONNECTIONS :: nat where "VJ_MAX_CONNECTIONS = 16"
definition VJ_MAX_PENDING_MSG :: nat where "VJ_MAX_PENDING_MSG = 4096"
definition RECV_SIZE :: nat where "RECV_SIZE = 4096"
definition MSG_POOL_SIZE :: int where "MSG_POOL_SIZE = int VJ_MAX_PENDING_MSG * 1024"

record vj_message =
  vm_msg :: "int option"
  vm_len :: int

record vj_link =
  lk_handle :: int
  lk_in_use :: int
  lk_promote :: int
  lk_m_queue :: "vj_message list"
  lk_n_queued :: int
  lk_n_retrieved :: int
  lk_pool :: "msg_pool option"

record vj_server =
  vs_handle :: int
  vs_nr_of_connections :: int
  vs_link :: "vj_link list"
  vs_fds :: "int set"
  vs_wds :: "int set"
  vs_use_mcast :: bool
  vs_recv_buf :: string

definition no_message :: vj_message where
  "no_message = \<lparr>vm_msg = None, vm_len = 0\<rparr>"

definition link_zero :: vj_link where
  "link_zero = \<lparr>lk_handle = 0, lk_in_use = 0, lk_promote = 0, lk_m_queue = replicate VJ_MAX_PENDING_MSG no_message,
     lk_n_queued = 0, lk_n_retrieved = 0, lk_pool = None\<rparr>"

text \<open>The server for unicast connections: \<open>handle\<close> is its listening socket.\<close>

definition vj_server_alloc :: "int \<Rightarrow> int \<Rightarrow> vj_server" where
  "vj_server_alloc handle buflen =
     (let bl = RUP8 buflen; bl = (if bl < int RECV_SIZE then int RECV_SIZE else bl)
      in \<lparr>vs_handle = handle, vs_nr_of_connections = handle, vs_link = replicate VJ_MAX_CONNECTIONS link_zero,
          vs_fds = {}, vs_wds = {}, vs_use_mcast = False, vs_recv_buf = replicate (nat bl) (CHR 0x00)\<rparr>)"

text \<open>Work on one link; its index must be in range.\<close>

definition with_link :: "vj_server \<Rightarrow> int \<Rightarrow> (vj_link \<Rightarrow> ('r \<times> vj_link) option) \<Rightarrow> ('r \<times> vj_server) option" where
  "with_link vje i k = do {
     l \<leftarrow> c_nth (vs_link vje) i;
     (r, l) \<leftarrow> k l;
     Some (r, vje\<lparr>vs_link := (vs_link vje)[nat i := l]\<rparr>) }"

subsection \<open>Client slots\<close>

definition vj_server_free_slot :: "vj_server \<Rightarrow> int" where
  "vj_server_free_slot vje =
     (let i = first_index (\<lambda>l. lk_in_use l = 0) (vs_link vje) in if i < 0 then int VJ_MAX_CONNECTIONS else i)"

definition vj_server_new_client :: "vj_server \<Rightarrow> int \<Rightarrow> (int \<times> vj_server) option" where
  "vj_server_new_client vje socket_fd =
     (let entry = vj_server_free_slot vje
      in if entry = int VJ_MAX_CONNECTIONS then Some (int VJ_MAX_CONNECTIONS, vje)
         else do {
           (r, vje) \<leftarrow> with_link vje entry (\<lambda>l. Some ((), l\<lparr>lk_handle := socket_fd, lk_in_use := 1\<rparr>));
           Some (entry, vje\<lparr>vs_fds := insert socket_fd (vs_fds vje), vs_wds := insert socket_fd (vs_wds vje)\<rparr>)
         })"

definition vj_server_del_client :: "vj_server \<Rightarrow> int \<Rightarrow> (int \<times> vj_server) option" where
  "vj_server_del_client vje link_id = do {
     l \<leftarrow> c_nth (vs_link vje) link_id;
     if lk_in_use l = 0 then Some (0, vje)
     else do {
       (r, vje) \<leftarrow> with_link vje link_id (\<lambda>l. Some ((), l\<lparr>lk_in_use := 0, lk_handle := - 1, lk_promote := 0,
                      lk_n_queued := 0, lk_n_retrieved := 0, lk_pool := None\<rparr>));
       Some (1, if lk_handle l > 0
                then vje\<lparr>vs_fds := vs_fds vje - {lk_handle l}, vs_wds := vs_wds vje - {lk_handle l}\<rparr> else vje)
     } }"

definition vj_server_close_connection :: "vj_server \<Rightarrow> int \<Rightarrow> vj_server option" where
  "vj_server_close_connection vje link_id = do { (r, vje) \<leftarrow> vj_server_del_client vje link_id; Some vje }"

definition vj_server_client_promoted :: "vj_server \<Rightarrow> int \<Rightarrow> int option" where
  "vj_server_client_promoted vje link_id = do { l \<leftarrow> c_nth (vs_link vje) link_id; Some (lk_promote l) }"

definition vj_server_client_promote :: "vj_server \<Rightarrow> int \<Rightarrow> vj_server option" where
  "vj_server_client_promote vje link_id = do {
     (r, vje) \<leftarrow> with_link vje link_id (\<lambda>l. Some ((), l\<lparr>lk_promote := 1\<rparr>)); Some vje }"

definition vj_server_link_can_write :: "vj_server \<Rightarrow> int \<Rightarrow> int option" where
  "vj_server_link_can_write vje link_id = do {
     l \<leftarrow> c_nth (vs_link vje) link_id;
     Some (if lk_in_use l = 0 then 0 else if lk_handle l \<in> vs_wds vje then 1 else 0) }"

definition vj_server_link_can_read :: "vj_server \<Rightarrow> int \<Rightarrow> int option" where
  "vj_server_link_can_read vje link_id = do {
     l \<leftarrow> c_nth (vs_link vje) link_id;
     Some (if lk_in_use l = 0 then 0 else if lk_handle l \<in> vs_fds vje then 1 else 0) }"

definition vj_server_link_used :: "vj_server \<Rightarrow> int \<Rightarrow> int option" where
  "vj_server_link_used vje link_id = do { l \<leftarrow> c_nth (vs_link vje) link_id; Some (lk_in_use l) }"

text \<open>
  The sets handed to \<open>select\<close> hold the listening socket and every connected client; \<open>sel\<close> is what \<open>select\<close>
  leaves in them and its return value.
\<close>

definition poll_set :: "vj_server \<Rightarrow> int set" where
  "poll_set vje = insert (vs_handle vje) {lk_handle l | l. l \<in> set (vs_link vje) \<and> lk_handle l > 0 \<and> lk_in_use l \<noteq> 0}"

definition vj_server_poll :: "(int set \<Rightarrow> int \<times> int set \<times> int set) \<Rightarrow> vj_server \<Rightarrow> int \<times> vj_server" where
  "vj_server_poll sel vje = (case sel (poll_set vje) of (status, rd, wr) \<Rightarrow>
     (status, vje\<lparr>vs_fds := poll_set vje \<inter> rd, vs_wds := poll_set vje \<inter> wr\<rparr>))"

text \<open>\<open>fd\<close> is what \<open>accept\<close> returns. A client beyond the last slot is closed at once.\<close>

definition vj_server_new_connection :: "vj_server \<Rightarrow> int \<Rightarrow> (int \<times> vj_server) option" where
  "vj_server_new_connection vje fd =
     (if vs_handle vje \<notin> vs_fds vje \<or> fd = - 1 then Some (0, vje)
      else do {
        let vje = (if vs_nr_of_connections vje < fd then vje\<lparr>vs_nr_of_connections := fd\<rparr> else vje);
        (n, vje) \<leftarrow> vj_server_new_client vje fd;
        if n \<ge> int VJ_MAX_CONNECTIONS then Some (0, vje)
        else Some (1, vje\<lparr>vs_fds := vs_fds vje - {fd}\<rparr>)
      })"

subsection \<open>Checking what was received\<close>

definition vj_server_init_msg_pool :: "vj_server \<Rightarrow> int \<Rightarrow> vj_server option" where
  "vj_server_init_msg_pool vje link_id = do {
     (r, vje) \<leftarrow> with_link vje link_id (\<lambda>l. Some ((), if lk_pool l = None
                    then l\<lparr>lk_pool := Some (vj_simple_pool_init MSG_POOL_SIZE)\<rparr> else l));
     Some vje }"

definition vj_server_empty_queue :: "vj_server \<Rightarrow> int \<Rightarrow> (int \<times> vj_server) option" where
  "vj_server_empty_queue vje link_id = with_link vje link_id (\<lambda>l.
     case lk_pool l of
       None \<Rightarrow> null_deref
     | Some p \<Rightarrow> Some (1, l\<lparr>lk_m_queue := map (\<lambda>_. no_message) (lk_m_queue l), lk_pool := Some (vj_simple_pool_reset p),
                            lk_n_queued := 0, lk_n_retrieved := 0\<rparr>))"

text \<open>
  \<open>sscanf("%3dD%3d")\<close>, the length and the number of the command, and \<open>sscanf("%8d")\<close>. The second answers \<open>EOF\<close> at
  the end of the text, which is not 0.
\<close>

definition scan_header :: "string \<Rightarrow> (int \<times> int) option" where
  "scan_header cs =
     (case scan_field 3 cs of
        Some (slen, c # r) \<Rightarrow> if c = CHR ''D'' then map_option (\<lambda>(n, r). (slen, n)) (scan_field 3 r) else None
      | _ \<Rightarrow> None)"

datatype scan_result = Scan_eof | Scan_none | Scan_value int

definition scan_length :: "string \<Rightarrow> scan_result" where
  "scan_length cs =
     (case skip_space cs of [] \<Rightarrow> Scan_eof
      | c # r \<Rightarrow> if c = CHR 0x00 then Scan_eof
                 else (case scan_field 8 cs of None \<Rightarrow> Scan_none | Some (n, r) \<Rightarrow> Scan_value n))"

text \<open>One message of the check: \<open>Some None\<close> is a buffer that is refused, \<open>Some (Some i')\<close> where the next begins.\<close>

definition verify_step :: "bool \<Rightarrow> string \<Rightarrow> int \<Rightarrow> int option option" where
  "verify_step use_mcast s i = do {
     c \<leftarrow> c_nth s i;
     let rest = drop (nat (i + 1)) s;
     if c = CHR ''V''
     then (case scan_header rest of
             None \<Rightarrow> Some None
           | Some (slen, netid) \<Rightarrow>
               if netid < 0 \<or> netid > 600 then Some None
               else if use_mcast \<and> netid \<ge> 400 \<and> netid < 500 then Some None
               else if slen > 0
               then do { e \<leftarrow> c_nth s (i + 4 + slen); Some (if e = CHR '';'' then Some (i + 5 + slen) else None) }
               else Some None)
     else if c = CHR ''K''
     then Some (case scan_length rest of
                  Scan_eof \<Rightarrow> Some (i + 9) | Scan_none \<Rightarrow> None | Scan_value len \<Rightarrow> Some (i + len + 9))
     else Some None }"

text \<open>The loops run on a number of rounds; \<open>Walk_more\<close> says that they were used up.\<close>

datatype 'a walk = Walk_done 'a | Walk_more

fun verify_loop :: "bool \<Rightarrow> string \<Rightarrow> int \<Rightarrow> nat \<Rightarrow> int \<Rightarrow> int \<Rightarrow> int walk option" where
  "verify_loop use_mcast s n rounds i num =
     (if i \<ge> n then Some (Walk_done num)
      else case rounds of
             0 \<Rightarrow> Some Walk_more
           | Suc m \<Rightarrow> do {
               r \<leftarrow> verify_step use_mcast s i;
               case r of None \<Rightarrow> Some (Walk_done 0) | Some i' \<Rightarrow> verify_loop use_mcast s n m i' (num + 1) })"

declare verify_loop.simps [simp del]

definition vj_verify_msg :: "bool \<Rightarrow> string \<Rightarrow> int \<Rightarrow> nat \<Rightarrow> int walk option" where
  "vj_verify_msg use_mcast buf buf_len rounds =
     (if buf_len < 5 then Some (Walk_done 0) else verify_loop use_mcast buf buf_len rounds 0 0)"


subsection \<open>Splitting it into messages\<close>

text \<open>
  Taking a message into the queue at \<open>num\<close>: \<open>size\<close> bytes of the pool for the \<open>slen\<close> bytes at \<open>i\<close> and \<open>tail\<close>
  behind them. When the pool is full the message is dropped.
\<close>

definition take_message :: "string \<Rightarrow> int \<Rightarrow> int \<Rightarrow> string \<Rightarrow> vj_link \<Rightarrow> int \<Rightarrow> (int \<times> vj_link) option" where
  "take_message s i slen tail l num =
     (case lk_pool l of
        None \<Rightarrow> null_deref
      | Some p \<Rightarrow> do {
          m \<leftarrow> c_nth (lk_m_queue l) num;
          let (a, p) = vj_simple_pool_alloc p (slen + int (length tail));
          case a of
            None \<Rightarrow> do { q \<leftarrow> c_update (lk_m_queue l) num (m\<lparr>vm_msg := None\<rparr>);
                         Some (num, l\<lparr>lk_m_queue := q, lk_pool := Some p\<rparr>) }
          | Some a \<Rightarrow> do {
              bs \<leftarrow> c_slice s i slen;
              p \<leftarrow> pool_write p a (bs @ tail);
              q \<leftarrow> c_update (lk_m_queue l) num \<lparr>vm_msg = Some a, vm_len = slen\<rparr>;
              Some (num + 1, l\<lparr>lk_m_queue := q, lk_pool := Some p\<rparr>)
            }
        })"

text \<open>One message: the next position and count, or the value with which the function returns early.\<close>

definition parse_step :: "string \<Rightarrow> int \<Rightarrow> int \<Rightarrow> vj_link \<Rightarrow> ((int + int \<times> int) \<times> vj_link) option" where
  "parse_step s i num l = do {
     c \<leftarrow> c_nth s i;
     let rest = drop (nat (i + 1)) s;
     if c = CHR ''V''
     then (case scan_header rest of
             None \<Rightarrow> Some (Inl 0, l)
           | Some (slen, netid) \<Rightarrow> do {
               (num, l) \<leftarrow> (if netid > 0 \<and> netid \<le> 600 then take_message s (i + 5) slen [CHR 0x00] l num else Some (num, l));
               Some (if num \<ge> int VJ_MAX_PENDING_MSG then Inl (int VJ_MAX_PENDING_MSG) else Inr (i + 5 + slen, num), l)
             })
     else if c = CHR ''K''
     then (case scan_length rest of
             Scan_value slen \<Rightarrow> do { (num, l) \<leftarrow> take_message s (i + 9) slen [] l num; Some (Inr (i + 9 + slen, num), l) }
           | _ \<Rightarrow> Some (Inl 0, l))
     else Some (Inl 0, l) }"

fun parse_loop :: "string \<Rightarrow> int \<Rightarrow> nat \<Rightarrow> int \<Rightarrow> int \<Rightarrow> vj_link \<Rightarrow> (int walk \<times> vj_link) option" where
  "parse_loop s n rounds i num l =
     (if i \<ge> n then Some (Walk_done num, l\<lparr>lk_n_queued := num, lk_n_retrieved := 0\<rparr>)
      else case rounds of
             0 \<Rightarrow> Some (Walk_more, l)
           | Suc m \<Rightarrow> do {
               (r, l) \<leftarrow> parse_step s i num l;
               case r of Inl v \<Rightarrow> Some (Walk_done v, l) | Inr (i', num') \<Rightarrow> parse_loop s n m i' num' l })"

declare parse_loop.simps [simp del]

definition vj_parse_msg :: "string \<Rightarrow> int \<Rightarrow> nat \<Rightarrow> vj_link \<Rightarrow> (int walk \<times> vj_link) option" where
  "vj_parse_msg buf buf_len rounds l = parse_loop buf buf_len rounds 0 0 l"

subsection \<open>Receiving\<close>

text \<open>
  What \<open>recv\<close> answers: bytes, with whether \<open>errno\<close> is \<open>EAGAIN\<close>, or an error, again with that flag. An exhausted
  list stands for a peer that has closed the connection. The reading loop keeps the buffer, the position in it
  and the count; \<open>None\<close> in the result is the return for a buffer that is too small.
\<close>

datatype received = Recv_bytes string bool | Recv_error bool

definition buf_put :: "string \<Rightarrow> int \<Rightarrow> string \<Rightarrow> string option" where
  "buf_put buf pos bs =
     (if pos + int (length bs) > int (length buf) then out_of_bounds
      else Some (take (nat pos) buf @ bs @ drop (nat pos + length bs) buf))"

fun recv_more :: "received list \<Rightarrow> string \<Rightarrow> int \<Rightarrow> int \<Rightarrow> (int option \<times> string) option" where
  "recv_more [] buf pos cnt = Some (Some cnt, buf)"
| "recv_more (Recv_error again # rs) buf pos cnt =
     (if again then recv_more rs buf pos cnt else Some (Some (- 2), buf))"
| "recv_more (Recv_bytes bs again # rs) buf pos cnt = do {
     let bs = take RECV_SIZE bs;
     buf \<leftarrow> buf_put buf pos bs;
     let n = int (length bs);
     if length bs = RECV_SIZE \<and> again
     then (if cnt + n > int (length buf) then Some (None, buf) else recv_more rs buf (pos + n) (cnt + n))
     else Some (Some (cnt + n), buf) }"

text \<open>
  The first byte is read alone, and only what follows it is counted, so the count is one less than what the
  buffer holds.
\<close>

definition recv_first :: "received list \<Rightarrow> string \<Rightarrow> (int option \<times> string) option" where
  "recv_first rs buf =
     (case rs of
        Recv_bytes [c] again # rs' \<Rightarrow> do {
          buf \<leftarrow> buf_put buf 0 [c];
          if c \<in> set ''VKD'' then recv_more rs' buf 1 0 else Some (Some 0, buf) }
      | _ \<Rightarrow> Some (Some (- 1), buf))"

text \<open>Called for every link once per frame; a negative result makes the caller close the connection.\<close>

definition vj_server_update :: "nat \<Rightarrow> received list \<Rightarrow> vj_server \<Rightarrow> int \<Rightarrow> (int walk \<times> vj_server) option" where
  "vj_server_update rounds rs vje i = do {
     l \<leftarrow> c_nth (vs_link vje) i;
     if lk_in_use l = 0 then Some (Walk_done 0, vje)
     else do {
       (r, vje) \<leftarrow> vj_server_empty_queue vje i;
       if lk_handle l \<notin> vs_fds vje then Some (Walk_done 0, vje)
       else do {
         (got, buf) \<leftarrow> recv_first rs (vs_recv_buf vje);
         let vje = vje\<lparr>vs_recv_buf := buf\<rparr>;
         case got of
           None \<Rightarrow> Some (Walk_done (- 1), vje)
         | Some n \<Rightarrow>
             if n \<le> 0 then Some (Walk_done (- 1), vje)
             else do {
               v \<leftarrow> vj_verify_msg (vs_use_mcast vje) buf n rounds;
               case v of
                 Walk_more \<Rightarrow> Some (Walk_more, vje)
               | Walk_done n_msg \<Rightarrow>
                   if n_msg = 0 \<or> n_msg \<ge> int VJ_MAX_PENDING_MSG then Some (Walk_done (- 1), vje)
                   else do {
                     (nn, vje) \<leftarrow> with_link vje i (vj_parse_msg buf n rounds);
                     Some (if nn = Walk_done n_msg \<or> nn = Walk_more then nn else Walk_done 0, vje)
                   }
             }
       }
     } }"

subsection \<open>Taking messages from the queue\<close>

definition vj_server_min_bufsize :: "vj_server \<Rightarrow> int \<Rightarrow> int option" where
  "vj_server_min_bufsize vje i = do {
     l \<leftarrow> c_nth (vs_link vje) i;
     if lk_in_use l = 0 \<or> lk_n_retrieved l \<ge> lk_n_queued l then Some 0
     else do { m \<leftarrow> c_nth (lk_m_queue l) (lk_n_retrieved l); Some (vm_len m) } }"

text \<open>The result is the message's address and length; its bytes are those of the pool at that time.\<close>

definition vj_server_retrieve_msg :: "vj_server \<Rightarrow> int \<Rightarrow> ((int option \<times> int) option \<times> vj_server) option" where
  "vj_server_retrieve_msg vje i = do {
     l \<leftarrow> c_nth (vs_link vje) i;
     if lk_in_use l = 0 \<or> lk_n_retrieved l \<ge> lk_n_queued l then Some (None, vje)
     else do {
       m \<leftarrow> c_nth (lk_m_queue l) (lk_n_retrieved l);
       (r, vje) \<leftarrow> with_link vje i (\<lambda>l. Some ((), l\<lparr>lk_n_retrieved := lk_n_retrieved l + 1\<rparr>));
       Some (Some (vm_msg m, vm_len m), vje)
     } }"

text \<open>
  The caller's loop: \<open>while((buf = vj_server_retrieve_msg(...)) != NULL)\<close>, here with the bytes of each message.
\<close>

fun retrieve_all :: "nat \<Rightarrow> vj_server \<Rightarrow> int \<Rightarrow> (string list \<times> vj_server) option" where
  "retrieve_all 0 vje i = Some ([], vje)"
| "retrieve_all (Suc n) vje i = do {
     (r, vje) \<leftarrow> vj_server_retrieve_msg vje i;
     case r of
       Some (Some a, len) \<Rightarrow> do {
         l \<leftarrow> c_nth (vs_link vje) i;
         p \<leftarrow> lk_pool l;
         bs \<leftarrow> pool_read p a len;
         (rest, vje) \<leftarrow> retrieve_all n vje i;
         Some (bs # rest, vje) }
     | _ \<Rightarrow> Some ([], vje) }"

subsection \<open>Packets\<close>

text \<open>What clients send: a command with its number and arguments, or the bytes of a keyframe packet.\<close>

datatype packet = Vims int string | Keys string

fun packet_text :: "packet \<Rightarrow> string" where
  "packet_text (Vims n args) = show_pad 3 n @ '':'' @ args @ '';''"
| "packet_text (Keys bs) = bs"

fun encode :: "packet \<Rightarrow> string" where
  "encode (Vims n args) = ''V'' @ show_pad 3 (int (length (packet_text (Vims n args)))) @ ''D'' @ packet_text (Vims n args)"
| "encode (Keys bs) = ''K'' @ show_pad 8 (int (length bs)) @ bs"

declare packet_text.simps(1) [simp del]

fun packet_ok :: "bool \<Rightarrow> packet \<Rightarrow> bool" where
  "packet_ok use_mcast (Vims n args) \<longleftrightarrow> 0 < n \<and> n \<le> 600 \<and> (use_mcast \<longrightarrow> n < 400 \<or> 500 \<le> n) \<and>
     length (packet_text (Vims n args)) < 1000"
| "packet_ok use_mcast (Keys bs) \<longleftrightarrow> length bs < 10 ^ 8"

lemma packet_text_last:
  assumes "packet_ok use_mcast (Vims n args)"
  shows "\<exists>bs. packet_text (Vims n args) = bs @ '';'' \<and> 4 \<le> length bs"
proof -
  have "length (show_pad 3 n) = 3" using assms scan_field_pad(2) [of n 3] by simp
  then show ?thesis by (intro exI [of _ "show_pad 3 n @ '':'' @ args"]) (simp add: packet_text.simps(1))
qed

lemma encode_length:
  assumes "packet_ok use_mcast pk"
  shows "int (length (encode pk)) = int (length (packet_text pk)) + (case pk of Vims _ _ \<Rightarrow> 5 | Keys _ \<Rightarrow> 9)"
  using assms scan_field_pad(2) [of "int (length (packet_text pk))" "if (\<exists>bs. pk = Keys bs) then 8 else 3"]
  by (cases pk) simp_all

lemma scan_header_packet:
  assumes "packet_ok use_mcast (Vims n args)"
  shows "scan_header (show_pad 3 (int (length (packet_text (Vims n args)))) @ ''D'' @ packet_text (Vims n args) @ post)
     = Some (int (length (packet_text (Vims n args))), n)"
  using assms scan_field_pad(1) [of "int (length (packet_text (Vims n args)))" 3] scan_field_pad(1) [of n 3]
  by (simp add: scan_header_def) (simp add: packet_text.simps(1))

lemma scan_length_pad:
  assumes "0 \<le> n" "n < 10 ^ 8"
  shows "scan_length (show_pad 8 n @ post) = Scan_value n"
proof -
  let ?ds = "show_pad 8 n"
  have f: "scan_field 8 (?ds @ r) = Some (n, r)" "length ?ds = 8" for r
    using assms scan_field_pad [of n 8] by simp_all
  have ne: "?ds \<noteq> []" using f(2) by auto
  have dig: "is_digit CHR ''0''" by (simp add: is_digit_def)
  have "\<forall>c \<in> set ?ds. is_digit c" using assms(1) show_nat_digits dig by (auto simp: show_pad_def)
  then have d: "is_digit (hd ?ds)" using ne by simp
  have "skip_space (?ds @ r) = ?ds @ r" for r using skip_space_digit [OF ne d] .
  moreover have "hd ?ds \<noteq> CHR 0x00" using d by (auto simp: is_digit_def)
  ultimately show ?thesis using ne f(1) by (cases ?ds) (auto simp: scan_length_def)
qed

lemma scan_length_packet:
  assumes "packet_ok use_mcast (Keys bs)"
  shows "scan_length (show_pad 8 (int (length bs)) @ bs @ post) = Scan_value (int (length bs))"
  using assms by (intro scan_length_pad) simp_all

lemma at_packet:
  assumes "s = pre @ c # cs"
  shows "c_nth s (int (length pre)) = Some c" "drop (nat (int (length pre) + 1)) s = cs"
  by (simp_all add: assms nat_add_distrib)

lemma verify_step_packet:
  assumes "packet_ok use_mcast pk" "s = pre @ encode pk @ post"
  shows "verify_step use_mcast s (int (length pre)) = Some (Some (int (length pre) + int (length (encode pk))))"
proof (cases pk)
  case (Vims n args)
  let ?t = "packet_text pk"
  have ok: "packet_ok use_mcast (Vims n args)" using assms(1) Vims by simp
  obtain bs where bs: "?t = bs @ '';''" "4 \<le> length bs" using packet_text_last [OF ok] Vims by auto
  have s: "s = pre @ CHR ''V'' # (show_pad 3 (int (length ?t)) @ ''D'' @ ?t @ post)" using assms(2) Vims by simp
  have len: "length (show_pad 3 (int (length ?t))) = 3" using ok Vims scan_field_pad(2) [of "int (length ?t)" 3] by simp
  have "c_nth s (int (length pre) + 4 + int (length ?t)) = Some (CHR '';'')"
  proof -
    have s': "s = (pre @ ''V'' @ show_pad 3 (int (length ?t)) @ ''D'' @ bs) @ CHR '';'' # post" using s bs(1) by simp
    have "int (length pre) + 4 + int (length ?t) = int (length (pre @ ''V'' @ show_pad 3 (int (length ?t)) @ ''D'' @ bs))"
      by (simp add: len) (simp add: bs(1))
    then show ?thesis by (simp only: at_packet(1) [OF s'])
  qed
  moreover have "packet_text (Vims n args) \<noteq> []" using bs Vims by auto
  ultimately show ?thesis
    using at_packet [OF s] scan_header_packet [OF ok, of post] ok Vims encode_length [OF assms(1)]
    by (auto simp: verify_step_def Let_def)
next
  case (Keys bs)
  have ok: "packet_ok use_mcast (Keys bs)" using assms(1) Keys by simp
  have s: "s = pre @ CHR ''K'' # (show_pad 8 (int (length bs)) @ bs @ post)" using assms(2) Keys by simp
  show ?thesis
    using at_packet [OF s] scan_length_packet [OF ok, of post] Keys encode_length [OF assms(1)]
    by (simp add: verify_step_def Let_def)
qed

lemma verify_loop_packets:
  assumes "\<forall>pk \<in> set pks. packet_ok use_mcast pk" "s = pre @ concat (map encode pks) @ post" "length pks \<le> rounds"
    "n = int (length (pre @ concat (map encode pks))) - 1"
  shows "verify_loop use_mcast s n rounds (int (length pre)) num = Some (Walk_done (num + int (length pks)))"
  using assms
proof (induction pks arbitrary: pre num rounds)
  case Nil
  then show ?case by (simp add: verify_loop.simps)
next
  case (Cons pk pks)
  have ok: "packet_ok use_mcast pk" using Cons.prems(1) by simp
  have big: "5 \<le> length (encode pk)" using encode_length [OF ok] by (auto split: packet.splits)
  obtain m where m: "rounds = Suc m" "length pks \<le> m" using Cons.prems(3) by (cases rounds) auto
  have step: "verify_step use_mcast s (int (length pre)) = Some (Some (int (length (pre @ encode pk))))"
    using verify_step_packet [OF ok, of s pre "concat (map encode pks) @ post"] Cons.prems(2) by simp
  have "verify_loop use_mcast s n m (int (length (pre @ encode pk))) (num + 1) = Some (Walk_done (num + 1 + int (length pks)))"
    by (rule Cons.IH) (use Cons.prems m in simp_all)
  moreover have "int (length pre) < n" using big by (simp add: Cons.prems(4))
  ultimately show ?case using step m by (simp add: verify_loop.simps [of _ _ _ "Suc m"] add.assoc)
qed

text \<open>
  \<open>holds l ts e\<close>: the texts \<open>ts\<close> are the messages in the queue of \<open>l\<close>, their bytes lie below \<open>e\<close> in the pool, and the
  next block lies above.
\<close>

definition holds :: "vj_link \<Rightarrow> msg_pool \<Rightarrow> string list \<Rightarrow> int \<Rightarrow> bool" where
  "holds l p ts e \<longleftrightarrow> lk_pool l = Some p \<and> pool_room p e \<and> length (lk_m_queue l) = VJ_MAX_PENDING_MSG \<and>
     pool_len p \<le> int (length (pool_mem p)) \<and>
     (\<forall>k < length ts. \<exists>a. lk_m_queue l ! k = \<lparr>vm_msg = Some a, vm_len = int (length (ts ! k))\<rparr> \<and>
        0 \<le> a \<and> a + int (length (ts ! k)) \<le> e \<and> pool_read p a (int (length (ts ! k))) = Some (ts ! k))"

lemma take_message_holds:
  assumes "holds l p ts e" "s = pre @ bs @ post" "8 \<le> length bs + length tail" "length ts < VJ_MAX_PENDING_MSG"
    "2 * (pool_cur p + int (length bs + length tail) + 8) + 8 \<le> pool_len p"
  shows "\<exists>q l' e'. take_message s (int (length pre)) (int (length bs)) tail l (int (length ts)) = Some (int (length ts) + 1, l') \<and>
     holds l' q (ts @ [bs]) e' \<and> pool_cur q \<le> pool_cur p + int (length bs + length tail) + 8 \<and> pool_len q = pool_len p \<and>
     lk_n_queued l' = lk_n_queued l \<and> lk_in_use l' = lk_in_use l"
proof -
  let ?n = "int (length bs + length tail)"
  have lk: "lk_pool l = Some p" "pool_room p e" "length (lk_m_queue l) = VJ_MAX_PENDING_MSG" "pool_len p \<le> int (length (pool_mem p))"
    and old: "\<And>k. k < length ts \<Longrightarrow> \<exists>a. lk_m_queue l ! k = \<lparr>vm_msg = Some a, vm_len = int (length (ts ! k))\<rparr> \<and>
        0 \<le> a \<and> a + int (length (ts ! k)) \<le> e \<and> pool_read p a (int (length (ts ! k))) = Some (ts ! k)"
    using assms(1) by (auto simp: holds_def)
  have "0 \<le> pool_cur p" using lk(2) by (simp add: pool_room_def)
  then obtain a p1 where a: "vj_simple_pool_alloc p ?n = (Some a, p1)"
    using pool_alloc_Some [of ?n p] assms(5) by auto
  have "8 \<le> ?n" using assms(3) by simp
  note al = pool_room_alloc [OF lk(2) this a]
  have "a + int (length (bs @ tail)) \<le> int (length (pool_mem p1))" using al(4-6) assms(5) lk(4) by simp
  then obtain q where w: "pool_write p1 a (bs @ tail) = Some q" using al(2) by (simp add: pool_write_def)
  note wq = pool_write_same [OF w]
  have new: "pool_read q a (int (length bs)) = Some bs"
    using pool_read_prefix [OF wq(1), of "int (length bs)"] by simp
  let ?m = "\<lparr>vm_msg = Some a, vm_len = int (length bs)\<rparr>"
  let ?l = "l\<lparr>lk_m_queue := (lk_m_queue l)[length ts := ?m], lk_pool := Some q\<rparr>"
  have "take_message s (int (length pre)) (int (length bs)) tail l (int (length ts)) = Some (int (length ts) + 1, ?l)"
    using lk assms(4) a w by (simp add: take_message_def Let_def c_slice_def assms(2))
  moreover have "holds ?l q (ts @ [bs]) (a + ?n)"
    unfolding holds_def
  proof (intro conjI allI impI)
    show "lk_pool ?l = Some q" "length (lk_m_queue ?l) = VJ_MAX_PENDING_MSG" using lk by simp_all
    show "pool_room q (a + ?n)" using al(3) wq(4) by (simp add: pool_room_def)
    show "pool_len q \<le> int (length (pool_mem q))" using wq al(6,7) lk(4) by simp
    fix k assume k: "k < length (ts @ [bs])"
    show "\<exists>b. lk_m_queue ?l ! k = \<lparr>vm_msg = Some b, vm_len = int (length ((ts @ [bs]) ! k))\<rparr> \<and> 0 \<le> b \<and>
        b + int (length ((ts @ [bs]) ! k)) \<le> a + ?n \<and> pool_read q b (int (length ((ts @ [bs]) ! k))) = Some ((ts @ [bs]) ! k)"
    proof (cases "k = length ts")
      case True
      then show ?thesis using lk(3) assms(4) al(2) new by (intro exI [of _ a]) (simp add: nth_append)
    next
      case False
      then have kt: "k < length ts" using k by simp
      then obtain b where b: "lk_m_queue l ! k = \<lparr>vm_msg = Some b, vm_len = int (length (ts ! k))\<rparr>" "0 \<le> b"
          "b + int (length (ts ! k)) \<le> e" "pool_read p b (int (length (ts ! k))) = Some (ts ! k)"
        using old by blast
      have "pool_read q b (int (length (ts ! k))) = pool_read p1 b (int (length (ts ! k)))"
        by (rule pool_write_other [OF w]) (use b al(1) in simp_all)
      also have "\<dots> = Some (ts ! k)" using b(4) al(6) by (simp add: pool_read_def split: if_splits)
      finally show ?thesis
        using b al(1) kt False lk(3) by (intro exI [of _ b]) (simp add: nth_append)
    qed
  qed
  moreover have "pool_cur q \<le> pool_cur p + ?n + 8" "pool_len q = pool_len p" using wq al(5,7) by simp_all
  ultimately show ?thesis by (intro exI [of _ q] exI [of _ ?l] exI [of _ "a + ?n"]) simp
qed

text \<open>A packet that takes at least eight bytes of the pool.\<close>

fun packet_long :: "packet \<Rightarrow> bool" where
  "packet_long (Vims n args) \<longleftrightarrow> 7 \<le> length (packet_text (Vims n args))"
| "packet_long (Keys bs) \<longleftrightarrow> 8 \<le> length bs"

lemma parse_step_packet:
  assumes "holds l p ts e" "s = pre @ encode pk @ post" "packet_ok use_mcast pk" "packet_long pk"
    "length ts + 1 < VJ_MAX_PENDING_MSG" "2 * (pool_cur p + int (length (encode pk)) + 8) + 8 \<le> pool_len p"
  shows "\<exists>q l' e'. parse_step s (int (length pre)) (int (length ts)) l =
       Some (Inr (int (length (pre @ encode pk)), int (length (ts @ [packet_text pk]))), l') \<and>
     holds l' q (ts @ [packet_text pk]) e' \<and> pool_cur q \<le> pool_cur p + int (length (encode pk)) + 8 \<and> pool_len q = pool_len p \<and>
     lk_in_use l' = lk_in_use l"
proof (cases pk)
  case (Vims n args)
  let ?t = "packet_text pk"
  have ok: "packet_ok use_mcast (Vims n args)" using assms(3) Vims by simp
  have s: "s = pre @ CHR ''V'' # (show_pad 3 (int (length ?t)) @ ''D'' @ ?t @ post)" using assms(2) Vims by simp
  have l3: "length (show_pad 3 (int (length ?t))) = 3" using ok Vims scan_field_pad(2) [of "int (length ?t)" 3] by simp
  have e: "int (length (encode pk)) = int (length ?t) + 5" using encode_length [OF assms(3)] Vims by simp
  let ?pre = "pre @ ''V'' @ show_pad 3 (int (length ?t)) @ ''D''"
  have s': "s = ?pre @ ?t @ post" using s by simp
  have i: "int (length pre) + 5 = int (length ?pre)" by (simp add: l3)
  obtain q l' e' where t: "take_message s (int (length ?pre)) (int (length ?t)) [CHR 0x00] l (int (length ts)) = Some (int (length ts) + 1, l')"
     "holds l' q (ts @ [?t]) e'" "pool_cur q \<le> pool_cur p + int (length ?t + 1) + 8" "pool_len q = pool_len p" "lk_in_use l' = lk_in_use l"
    using take_message_holds [OF assms(1) s', of "[CHR 0x00]"] assms(4-6) e Vims by auto
  have "int (length pre) + 5 + int (length ?t) = int (length (pre @ encode pk))" using e by simp
  then show ?thesis
    using at_packet [OF s] scan_header_packet [OF ok, of post] ok Vims t e assms(5)
    by (intro exI [of _ q] exI [of _ l'] exI [of _ e']) (simp add: parse_step_def Let_def i [symmetric])
next
  case (Keys bs)
  have ok: "packet_ok use_mcast (Keys bs)" using assms(3) Keys by simp
  have s: "s = pre @ CHR ''K'' # (show_pad 8 (int (length bs)) @ bs @ post)" using assms(2) Keys by simp
  have l8: "length (show_pad 8 (int (length bs))) = 8" using ok scan_field_pad(2) [of "int (length bs)" 8] by simp
  have e: "int (length (encode pk)) = int (length bs) + 9" using encode_length [OF assms(3)] Keys by simp
  let ?pre = "pre @ ''K'' @ show_pad 8 (int (length bs))"
  have s': "s = ?pre @ bs @ post" using s by simp
  have i: "int (length pre) + 9 = int (length ?pre)" by (simp add: l8)
  obtain q l' e' where t: "take_message s (int (length ?pre)) (int (length bs)) [] l (int (length ts)) = Some (int (length ts) + 1, l')"
     "holds l' q (ts @ [bs]) e'" "pool_cur q \<le> pool_cur p + int (length bs) + 8" "pool_len q = pool_len p" "lk_in_use l' = lk_in_use l"
    using take_message_holds [OF assms(1) s', of "[]"] assms(4-6) e Keys by auto
  have "int (length pre) + 9 + int (length bs) = int (length (pre @ encode pk))" using e by simp
  then show ?thesis
    using at_packet [OF s] scan_length_packet [OF ok, of post] Keys t e
    by (intro exI [of _ q] exI [of _ l'] exI [of _ e']) (simp add: parse_step_def Let_def i [symmetric])
qed

lemma parse_loop_packets:
  assumes "holds l p ts e" "\<forall>pk \<in> set pks. packet_ok use_mcast pk \<and> packet_long pk"
    "s = pre @ concat (map encode pks) @ post" "length pks \<le> rounds" "n = int (length (pre @ concat (map encode pks))) - 1"
    "length ts + length pks < VJ_MAX_PENDING_MSG"
    "2 * (pool_cur p + int (length (concat (map encode pks))) + 8 * int (length pks)) + 8 \<le> pool_len p"
  shows "\<exists>q l' e'. parse_loop s n rounds (int (length pre)) (int (length ts)) l = Some (Walk_done (int (length ts + length pks)), l') \<and>
     holds l' q (ts @ map packet_text pks) e' \<and> lk_n_queued l' = int (length ts + length pks) \<and> lk_n_retrieved l' = 0 \<and>
     lk_in_use l' = lk_in_use l"
  using assms
proof (induction pks arbitrary: pre ts l p e rounds)
  case Nil
  then have "holds (l\<lparr>lk_n_queued := int (length ts), lk_n_retrieved := 0\<rparr>) p ts e" by (simp add: holds_def)
  with Nil show ?case by (auto simp: parse_loop.simps)
next
  case (Cons pk pks)
  have ok: "packet_ok use_mcast pk" "packet_long pk" using Cons.prems(2) by simp_all
  have big: "5 \<le> length (encode pk)" using encode_length [OF ok(1)] by (auto split: packet.splits)
  obtain m where m: "rounds = Suc m" "length pks \<le> m" using Cons.prems(4) by (cases rounds) auto
  obtain q l1 e1 where 1: "parse_step s (int (length pre)) (int (length ts)) l =
       Some (Inr (int (length (pre @ encode pk)), int (length (ts @ [packet_text pk]))), l1)"
     "holds l1 q (ts @ [packet_text pk]) e1" "pool_cur q \<le> pool_cur p + int (length (encode pk)) + 8" "pool_len q = pool_len p"
     "lk_in_use l1 = lk_in_use l"
    using parse_step_packet [OF Cons.prems(1) _ ok, of s pre "concat (map encode pks) @ post"] Cons.prems(3,6,7) by auto
  obtain q2 l2 e2 where 2: "parse_loop s n m (int (length (pre @ encode pk))) (int (length (ts @ [packet_text pk]))) l1 =
       Some (Walk_done (int (length (ts @ [packet_text pk]) + length pks)), l2)"
     "holds l2 q2 ((ts @ [packet_text pk]) @ map packet_text pks) e2" "lk_n_queued l2 = int (length (ts @ [packet_text pk]) + length pks)"
     "lk_n_retrieved l2 = 0" "lk_in_use l2 = lk_in_use l1"
    using Cons.IH [OF 1(2), of "pre @ encode pk" m] Cons.prems m 1(3,4) by auto
  have "int (length pre) < n" using big by (simp add: Cons.prems(5))
  then show ?case
    using 1 2 m by (intro exI [of _ q2] exI [of _ l2] exI [of _ e2]) (simp add: parse_loop.simps [of _ _ "Suc m"])
qed

lemma retrieve_all_holds:
  assumes "vs_link vje ! nat i = l" "0 \<le> i" "i < int (length (vs_link vje))" "holds l p ts e" "lk_n_queued l = int (length ts)"
    "lk_n_retrieved l = int k" "k \<le> length ts" "length ts < VJ_MAX_PENDING_MSG" "lk_in_use l \<noteq> 0" "length ts - k < m"
  shows "\<exists>v. retrieve_all m vje i = Some (drop k ts, v)"
  using assms
proof (induction m arbitrary: vje l k)
  case (Suc m)
  show ?case
  proof (cases "k = length ts")
    case True
    then show ?thesis using Suc.prems by (auto simp: vj_server_retrieve_msg_def)
  next
    case False
    then have k: "k < length ts" using Suc.prems(7) by simp
    then obtain a where a: "lk_m_queue l ! k = \<lparr>vm_msg = Some a, vm_len = int (length (ts ! k))\<rparr>"
        "pool_read p a (int (length (ts ! k))) = Some (ts ! k)"
      using Suc.prems(4) by (auto simp: holds_def)
    let ?l = "l\<lparr>lk_n_retrieved := int k + 1\<rparr>"
    let ?v = "vje\<lparr>vs_link := (vs_link vje)[nat i := ?l]\<rparr>"
    have len: "length (lk_m_queue l) = VJ_MAX_PENDING_MSG" "lk_pool l = Some p" using Suc.prems(4) by (simp_all add: holds_def)
    have r: "vj_server_retrieve_msg vje i = Some (Some (Some a, int (length (ts ! k))), ?v)"
      using Suc.prems k a(1) len by (simp add: vj_server_retrieve_msg_def with_link_def)
    have "holds ?l p ts e" using Suc.prems(4) by (simp add: holds_def)
    moreover have "vs_link ?v ! nat i = ?l" "i < int (length (vs_link ?v))" using Suc.prems(2,3) by simp_all
    moreover have "length ts - Suc k < m" using Suc.prems(10) k by linarith
    ultimately obtain v where "retrieve_all m ?v i = Some (drop (Suc k) ts, v)"
      using Suc.IH [of ?v ?l "Suc k"] Suc.prems(2,5,8-10) k by auto
    then show ?thesis
      using r a(2) len Suc.prems(2,3) k by (simp add: Cons_nth_drop_Suc)
  qed
qed simp

subsection \<open>What the operations keep\<close>

text \<open>Who holds a link, and the sizes of its queue and pool.\<close>

definition link_same :: "vj_link \<Rightarrow> vj_link \<Rightarrow> bool" where
  "link_same l l' \<longleftrightarrow> lk_handle l' = lk_handle l \<and> lk_in_use l' = lk_in_use l \<and> lk_promote l' = lk_promote l \<and>
     length (lk_m_queue l') = length (lk_m_queue l) \<and>
     map_option (\<lambda>p. (pool_len p, length (pool_mem p))) (lk_pool l') = map_option (\<lambda>p. (pool_len p, length (pool_mem p))) (lk_pool l)"

lemma link_same_refl [simp]: "link_same l l"
  by (simp add: link_same_def)

lemma link_same_trans: "link_same l l1 \<Longrightarrow> link_same l1 l2 \<Longrightarrow> link_same l l2"
  by (simp add: link_same_def)

lemma alloc_sizes:
  "vj_simple_pool_alloc p s = (a, q) \<Longrightarrow> pool_len q = pool_len p \<and> pool_mem q = pool_mem p"
  by (auto simp: vj_simple_pool_alloc_def Let_def split: if_splits)

lemma take_message_same:
  assumes "take_message s i slen tail l num = Some (r, l')"
  shows "link_same l l'"
proof -
  obtain p m a q where p: "lk_pool l = Some p" "vj_simple_pool_alloc p (slen + int (length tail)) = (a, q)"
    using assms by (auto simp: take_message_def bind_eq_Some_conv split: option.splits) (metis surj_pair)
  note q = alloc_sizes [OF p(2)]
  show ?thesis
  proof (cases a)
    case None
    then show ?thesis
      using assms p q by (auto simp: take_message_def link_same_def bind_eq_Some_conv Let_def c_update_def split: if_splits)
  next
    case (Some x)
    then obtain bs u where u: "pool_write q x (bs @ tail) = Some u" "lk_pool l' = Some u"
        "length (lk_m_queue l') = length (lk_m_queue l)" "lk_handle l' = lk_handle l" "lk_in_use l' = lk_in_use l" "lk_promote l' = lk_promote l"
      using assms p by (auto simp: take_message_def bind_eq_Some_conv Let_def c_update_def split: if_splits)
    show ?thesis using u p(1) q pool_write_same [OF u(1)] by (simp add: link_same_def)
  qed
qed

lemma parse_step_same: "parse_step s i num l = Some (r, l') \<Longrightarrow> link_same l l'"
  by (auto simp: parse_step_def bind_eq_Some_conv Let_def dest: take_message_same
      split: option.splits if_splits prod.splits scan_result.splits)

lemma parse_loop_same: "parse_loop s n rounds i num l = Some (r, l') \<Longrightarrow> link_same l l'"
proof (induction rounds arbitrary: i num l)
  case 0
  then show ?case by (auto simp: parse_loop.simps [of _ _ 0] link_same_def split: if_splits)
next
  case (Suc m)
  show ?case
  proof (cases "i \<ge> n")
    case True
    with Suc.prems show ?thesis by (auto simp: parse_loop.simps [of _ _ "Suc m"] link_same_def)
  next
    case False
    then obtain x l1 where 1: "parse_step s i num l = Some (x, l1)"
        "(case x of Inl v \<Rightarrow> Some (Walk_done v, l1) | Inr (i', num') \<Rightarrow> parse_loop s n m i' num' l1) = Some (r, l')"
      using Suc.prems by (auto simp: parse_loop.simps [of _ _ "Suc m"] bind_eq_Some_conv)
    from 1(2) have "link_same l1 l'" using Suc.IH by (auto split: sum.splits prod.splits)
    with parse_step_same [OF 1(1)] show ?thesis by (rule link_same_trans)
  qed
qed

text \<open>The sizes that the server is set up with.\<close>

definition link_ok :: "vj_link \<Rightarrow> bool" where
  "link_ok l \<longleftrightarrow> length (lk_m_queue l) = VJ_MAX_PENDING_MSG \<and>
     (\<forall>p. lk_pool l = Some p \<longrightarrow> pool_len p = MSG_POOL_SIZE \<and> MSG_POOL_SIZE \<le> int (length (pool_mem p)))"

lemma link_ok_same: "link_same l l' \<Longrightarrow> link_ok l \<Longrightarrow> link_ok l'"
  by (cases "lk_pool l") (auto simp: link_same_def link_ok_def)

definition server_ok :: "vj_server \<Rightarrow> bool" where
  "server_ok vje \<longleftrightarrow> length (vs_link vje) = VJ_MAX_CONNECTIONS \<and> (\<forall>l \<in> set (vs_link vje). link_ok l) \<and>
     RECV_SIZE \<le> length (vs_recv_buf vje)"

lemma server_ok_link: "server_ok vje \<Longrightarrow> 0 \<le> i \<Longrightarrow> i < int VJ_MAX_CONNECTIONS \<Longrightarrow> link_ok (vs_link vje ! nat i)"
  by (simp add: server_ok_def)

lemma pool_init_ok: "link_ok l \<Longrightarrow> link_ok (l\<lparr>lk_pool := Some (vj_simple_pool_init MSG_POOL_SIZE)\<rparr>)"
  using RUP8_ge [of MSG_POOL_SIZE] by (simp add: link_ok_def vj_simple_pool_init_def)

subsection \<open>Delivery\<close>

lemma concat_encode_length:
  assumes "\<forall>pk \<in> set pks. packet_ok use_mcast pk"
  shows "5 * length pks \<le> length (concat (map encode pks))"
  using assms
proof (induction pks)
  case (Cons pk pks)
  have "5 \<le> length (encode pk)" using encode_length [of use_mcast pk] Cons.prems by (auto split: packet.splits)
  then show ?case using Cons by simp
qed simp

lemma receive_two:
  assumes "c \<in> set ''VKD''" "length cs < RECV_SIZE" "RECV_SIZE \<le> length buf"
  shows "recv_first [Recv_bytes [c] b1, Recv_bytes cs b2] buf = Some (Some (int (length cs)), c # cs @ drop (Suc (length cs)) buf)"
proof -
  have t: "take RECV_SIZE cs = cs" using assms(2) by simp
  have "buf \<noteq> []" using assms(2,3) by auto
  then have "buf_put buf 0 [c] = Some (c # drop 1 buf)" by (cases buf) (simp_all add: buf_put_def)
  moreover have "buf_put (c # drop 1 buf) 1 cs = Some (c # cs @ drop (Suc (length cs)) buf)"
    using assms(2,3) by (simp add: buf_put_def)
  ultimately show ?thesis using assms(1,2) t by (simp add: recv_first_def)
qed

lemma update_packets:
  assumes "server_ok vje" "0 \<le> i" "i < int VJ_MAX_CONNECTIONS" "lk_in_use (vs_link vje ! nat i) \<noteq> 0"
    "lk_handle (vs_link vje ! nat i) \<in> vs_fds vje" "lk_pool (vs_link vje ! nat i) \<noteq> None"
    "\<forall>pk \<in> set pks. packet_ok (vs_use_mcast vje) pk \<and> packet_long pk" "concat (map encode pks) = c # cs"
    "length cs < RECV_SIZE" "length pks \<le> rounds"
  shows "\<exists>vje' p e. vj_server_update rounds [Recv_bytes [c] b1, Recv_bytes cs b2] vje i = Some (Walk_done (int (length pks)), vje') \<and>
     holds (vs_link vje' ! nat i) p (map packet_text pks) e \<and> lk_n_queued (vs_link vje' ! nat i) = int (length pks) \<and>
     lk_n_retrieved (vs_link vje' ! nat i) = 0 \<and> lk_in_use (vs_link vje' ! nat i) \<noteq> 0 \<and>
     length (vs_link vje') = VJ_MAX_CONNECTIONS"
proof -
  define l where "l = vs_link vje ! nat i"
  have lens: "length (vs_link vje) = VJ_MAX_CONNECTIONS" "RECV_SIZE \<le> length (vs_recv_buf vje)" "link_ok l"
    using assms(1-3) server_ok_link l_def by (auto simp: server_ok_def)
  obtain p where p: "lk_pool l = Some p" "pool_len p = MSG_POOL_SIZE" "MSG_POOL_SIZE \<le> int (length (pool_mem p))"
    using assms(6) lens(3) by (auto simp: link_ok_def l_def)
  let ?l1 = "l\<lparr>lk_m_queue := map (\<lambda>_. no_message) (lk_m_queue l), lk_pool := Some (vj_simple_pool_reset p),
      lk_n_queued := 0, lk_n_retrieved := 0\<rparr>"
  let ?v1 = "vje\<lparr>vs_link := (vs_link vje)[nat i := ?l1]\<rparr>"
  have e: "vj_server_empty_queue vje i = Some (1, ?v1)"
    using assms(2,3) lens(1) p(1) by (simp add: vj_server_empty_queue_def with_link_def l_def)
  have h1: "holds ?l1 (vj_simple_pool_reset p) [] 0"
    using lens(3) p by (simp add: holds_def pool_room_def vj_simple_pool_reset_def link_ok_def RUP8_eq)
  obtain pk pks' where pks: "pks = pk # pks'" using assms(8) by (cases pks) auto
  have ok: "\<forall>pk \<in> set pks. packet_ok (vs_use_mcast vje) pk" using assms(7) by blast
  have c: "c \<in> set ''VKD''" using assms(8) pks by (cases pk) auto
  define buf where "buf = c # cs @ drop (Suc (length cs)) (vs_recv_buf vje)"
  have rc: "recv_first [Recv_bytes [c] b1, Recv_bytes cs b2] (vs_recv_buf ?v1) = Some (Some (int (length cs)), buf)"
    using receive_two [OF c assms(9) lens(2)] by (simp add: buf_def)
  have buf: "buf = [] @ concat (map encode pks) @ drop (Suc (length cs)) (vs_recv_buf vje)" by (simp add: buf_def assms(8))
  have n: "int (length cs) = int (length ([] @ concat (map encode pks))) - 1" by (simp add: assms(8))
  have "int (length (encode pk)) = int (length (packet_text pk)) + (case pk of Vims _ _ \<Rightarrow> 5 | Keys _ \<Rightarrow> 9)"
    using encode_length ok pks by auto
  moreover have "packet_long pk" using assms(7) pks by simp
  ultimately have "12 \<le> length (encode pk)" by (cases pk) auto
  then have big: "5 \<le> int (length cs)" using n pks by simp
  then have cs: "cs \<noteq> []" by auto
  have cnt: "5 * length pks \<le> Suc (length cs)" using concat_encode_length [OF ok] assms(8) by simp
  have small: "length pks < VJ_MAX_PENDING_MSG" using cnt assms(9) by (simp add: RECV_SIZE_def VJ_MAX_PENDING_MSG_def)
  have ver: "vj_verify_msg (vs_use_mcast vje) buf (int (length cs)) rounds = Some (Walk_done (int (length pks)))"
    using verify_loop_packets [OF ok buf assms(10) n, of 0] big by (simp add: vj_verify_msg_def)
  have "2 * (pool_cur (vj_simple_pool_reset p) + int (length (concat (map encode pks))) + 8 * int (length pks)) + 8
      \<le> pool_len (vj_simple_pool_reset p)"
    using cnt assms(9) by (simp add: vj_simple_pool_reset_def p(2) assms(8) RECV_SIZE_def MSG_POOL_SIZE_def VJ_MAX_PENDING_MSG_def)
  from parse_loop_packets [OF h1 assms(7) buf assms(10) n _ this] small
  obtain q l2 e2 where l2: "parse_loop buf (int (length cs)) rounds 0 0 ?l1 = Some (Walk_done (int (length pks)), l2)"
      "holds l2 q (map packet_text pks) e2" "lk_n_queued l2 = int (length pks)" "lk_n_retrieved l2 = 0" "lk_in_use l2 = lk_in_use l"
    by auto
  let ?v2 = "?v1\<lparr>vs_recv_buf := buf\<rparr>"
  have w: "with_link ?v2 i (vj_parse_msg buf (int (length cs)) rounds) =
      Some (Walk_done (int (length pks)), ?v2\<lparr>vs_link := (vs_link ?v2)[nat i := l2]\<rparr>)"
    using assms(2,3) lens(1) l2(1) by (simp add: with_link_def vj_parse_msg_def)
  have "vj_server_update rounds [Recv_bytes [c] b1, Recv_bytes cs b2] vje i =
      Some (Walk_done (int (length pks)), ?v2\<lparr>vs_link := (vs_link ?v2)[nat i := l2]\<rparr>)"
    using assms(2-5) lens(1) e rc big ver w small pks cs
    by (simp add: vj_server_update_def l_def Let_def del: recv_more.simps)
  moreover have "vs_link (?v2\<lparr>vs_link := (vs_link ?v2)[nat i := l2]\<rparr>) ! nat i = l2"
    "length (vs_link (?v2\<lparr>vs_link := (vs_link ?v2)[nat i := l2]\<rparr>)) = VJ_MAX_CONNECTIONS"
    using assms(2,3) lens(1) by simp_all
  ultimately show ?thesis using l2 assms(4) l_def by metis
qed

subsection \<open>Reachable servers\<close>

text \<open>
  The steps of the event loop: polling, accepting a client (the descriptor of \<open>accept\<close> is positive and not open),
  preparing the pool of a client that can be read, receiving, taking a message, promoting the client whose
  message is handled, and closing.
\<close>

definition open_fds :: "vj_server \<Rightarrow> int set" where
  "open_fds vje = insert (vs_handle vje) {lk_handle l | l. l \<in> set (vs_link vje) \<and> lk_in_use l \<noteq> 0}"

inductive server_step :: "vj_server \<Rightarrow> vj_server \<Rightarrow> bool" where
  poll: "vj_server_poll sel vje = (r, vje') \<Longrightarrow> server_step vje vje'"
| accept: "0 < fd \<Longrightarrow> fd \<notin> open_fds vje \<Longrightarrow> vj_server_new_connection vje fd = Some (r, vje') \<Longrightarrow> server_step vje vje'"
| pool: "vj_server_link_can_read vje i = Some 1 \<Longrightarrow> vj_server_init_msg_pool vje i = Some vje' \<Longrightarrow> server_step vje vje'"
| update: "vj_server_update rounds rs vje i = Some (w, vje') \<Longrightarrow> server_step vje vje'"
| retrieve: "vj_server_retrieve_msg vje i = Some (m, vje') \<Longrightarrow> server_step vje vje'"
| promote: "vj_server_link_used vje i = Some u \<Longrightarrow> u \<noteq> 0 \<Longrightarrow> vj_server_client_promote vje i = Some vje' \<Longrightarrow> server_step vje vje'"
| close: "vj_server_close_connection vje i = Some vje' \<Longrightarrow> server_step vje vje'"

inductive server_reach :: "vj_server \<Rightarrow> bool" where
  start: "0 < handle \<Longrightarrow> server_reach (vj_server_alloc handle buflen)"
| step: "server_reach vje \<Longrightarrow> server_step vje vje' \<Longrightarrow> server_reach vje'"

text \<open>A free link carries nothing of the client it served; the links in use have descriptors of their own.\<close>

definition link_clean :: "vj_link \<Rightarrow> bool" where
  "link_clean l \<longleftrightarrow> lk_handle l \<le> 0 \<and> lk_promote l = 0 \<and> lk_n_queued l = 0 \<and> lk_n_retrieved l = 0 \<and> lk_pool l = None"

definition slots_ok :: "vj_server \<Rightarrow> bool" where
  "slots_ok vje \<longleftrightarrow> server_ok vje \<and> 0 < vs_handle vje \<and>
     (\<forall>i < VJ_MAX_CONNECTIONS. if lk_in_use (vs_link vje ! i) = 0 then link_clean (vs_link vje ! i)
        else 0 < lk_handle (vs_link vje ! i) \<and> lk_handle (vs_link vje ! i) \<noteq> vs_handle vje) \<and>
     (\<forall>i < VJ_MAX_CONNECTIONS. \<forall>j < VJ_MAX_CONNECTIONS.
        lk_in_use (vs_link vje ! i) \<noteq> 0 \<longrightarrow> lk_in_use (vs_link vje ! j) \<noteq> 0 \<longrightarrow>
        lk_handle (vs_link vje ! i) = lk_handle (vs_link vje ! j) \<longrightarrow> i = j)"

lemma slots_ok_length: "slots_ok vje \<Longrightarrow> length (vs_link vje) = VJ_MAX_CONNECTIONS"
  by (simp add: slots_ok_def server_ok_def)

lemma slots_ok_cong:
  "slots_ok vje \<Longrightarrow> vs_link vje' = vs_link vje \<Longrightarrow> vs_handle vje' = vs_handle vje \<Longrightarrow>
   length (vs_recv_buf vje') = length (vs_recv_buf vje) \<Longrightarrow> slots_ok vje'"
  by (simp add: slots_ok_def server_ok_def)

text \<open>One link changes: a client stays, leaves or comes.\<close>

lemma slots_ok_link:
  assumes "slots_ok vje" "0 \<le> i" "i < int VJ_MAX_CONNECTIONS" "link_ok l'"
    "lk_in_use l' = 0 \<and> link_clean l' \<or> lk_in_use l' \<noteq> 0 \<and> lk_handle l' = lk_handle (vs_link vje ! nat i) \<and> lk_in_use (vs_link vje ! nat i) \<noteq> 0
     \<or> lk_in_use l' \<noteq> 0 \<and> 0 < lk_handle l' \<and> lk_handle l' \<notin> open_fds vje"
  shows "slots_ok (vje\<lparr>vs_link := (vs_link vje)[nat i := l']\<rparr>)"
proof -
  have len: "length (vs_link vje) = VJ_MAX_CONNECTIONS" "nat i < VJ_MAX_CONNECTIONS"
    using assms(1-3) slots_ok_length by auto
  have old: "if lk_in_use (vs_link vje ! j) = 0 then link_clean (vs_link vje ! j)
        else 0 < lk_handle (vs_link vje ! j) \<and> lk_handle (vs_link vje ! j) \<noteq> vs_handle vje" if "j < VJ_MAX_CONNECTIONS" for j
    using assms(1) that by (simp add: slots_ok_def)
  have fresh: "lk_handle l' \<noteq> lk_handle (vs_link vje ! j)" "lk_handle l' \<noteq> vs_handle vje"
    if "lk_handle l' \<notin> open_fds vje" "j < VJ_MAX_CONNECTIONS" "lk_in_use (vs_link vje ! j) \<noteq> 0" for j
    using that len by (auto simp: open_fds_def)
  have ne: "lk_handle l' \<noteq> vs_handle vje" if "lk_handle l' \<notin> open_fds vje" using that by (simp add: open_fds_def)
  have set: "\<forall>l \<in> set ((vs_link vje)[nat i := l']). link_ok l"
    using assms(1,4) set_update_subset_insert [of "vs_link vje" "nat i" l'] by (auto simp: slots_ok_def server_ok_def)
  have inj: "j = k" if "j < VJ_MAX_CONNECTIONS" "k < VJ_MAX_CONNECTIONS" "lk_in_use (vs_link vje ! j) \<noteq> 0"
      "lk_in_use (vs_link vje ! k) \<noteq> 0" "lk_handle (vs_link vje ! j) = lk_handle (vs_link vje ! k)" for j k
    using assms(1) that by (simp add: slots_ok_def)
  show ?thesis
    unfolding slots_ok_def
  proof (intro conjI allI impI)
    show "server_ok (vje\<lparr>vs_link := (vs_link vje)[nat i := l']\<rparr>)"
      using assms(1) set by (simp add: server_ok_def slots_ok_def)
    show "0 < vs_handle (vje\<lparr>vs_link := (vs_link vje)[nat i := l']\<rparr>)" using assms(1) by (simp add: slots_ok_def)
  next
    fix j assume j: "j < VJ_MAX_CONNECTIONS"
    show "if lk_in_use (vs_link (vje\<lparr>vs_link := (vs_link vje)[nat i := l']\<rparr>) ! j) = 0
        then link_clean (vs_link (vje\<lparr>vs_link := (vs_link vje)[nat i := l']\<rparr>) ! j)
        else 0 < lk_handle (vs_link (vje\<lparr>vs_link := (vs_link vje)[nat i := l']\<rparr>) ! j) \<and>
          lk_handle (vs_link (vje\<lparr>vs_link := (vs_link vje)[nat i := l']\<rparr>) ! j) \<noteq> vs_handle (vje\<lparr>vs_link := (vs_link vje)[nat i := l']\<rparr>)"
      using old [OF j] old [OF len(2)] assms(5) ne len j by (cases "j = nat i") (auto split: if_splits)
  next
    fix j k
    assume "j < VJ_MAX_CONNECTIONS" "k < VJ_MAX_CONNECTIONS" "lk_in_use (vs_link (vje\<lparr>vs_link := (vs_link vje)[nat i := l']\<rparr>) ! j) \<noteq> 0"
      "lk_in_use (vs_link (vje\<lparr>vs_link := (vs_link vje)[nat i := l']\<rparr>) ! k) \<noteq> 0"
      "lk_handle (vs_link (vje\<lparr>vs_link := (vs_link vje)[nat i := l']\<rparr>) ! j) = lk_handle (vs_link (vje\<lparr>vs_link := (vs_link vje)[nat i := l']\<rparr>) ! k)"
    then show "j = k"
      using inj [of j k] inj [of "nat i" k] inj [of j "nat i"] fresh(1) [of j] fresh(1) [of k] assms(5) len
      by (cases "j = nat i"; cases "k = nat i") auto
  qed
qed

lemma slots_ok_same:
  assumes "slots_ok vje" "0 \<le> i" "i < int VJ_MAX_CONNECTIONS" "link_same (vs_link vje ! nat i) l'"
    "lk_in_use (vs_link vje ! nat i) \<noteq> 0"
  shows "slots_ok (vje\<lparr>vs_link := (vs_link vje)[nat i := l']\<rparr>)"
proof -
  have "link_ok (vs_link vje ! nat i)" using assms(1-3) server_ok_link by (simp add: slots_ok_def)
  then show ?thesis
    using slots_ok_link [OF assms(1-3), of l'] assms(4,5) link_ok_same by (simp add: link_same_def)
qed


lemma c_nth_SomeD: "c_nth xs i = Some x \<Longrightarrow> 0 \<le> i \<and> i < int (length xs) \<and> x = xs ! nat i"
  by (simp add: c_nth_def split: if_splits)

lemma with_link_same:
  assumes "slots_ok vje" "with_link vje i k = Some (r, vje')" "lk_in_use (vs_link vje ! nat i) \<noteq> 0"
    "\<And>l' r. k (vs_link vje ! nat i) = Some (r, l') \<Longrightarrow> link_same (vs_link vje ! nat i) l'"
  shows "slots_ok vje'"
proof -
  obtain l' where l': "k (vs_link vje ! nat i) = Some (r, l')" "vje' = vje\<lparr>vs_link := (vs_link vje)[nat i := l']\<rparr>"
      "0 \<le> i" "i < int (length (vs_link vje))"
    using assms(2) by (auto simp: with_link_def bind_eq_Some_conv dest!: c_nth_SomeD)
  then show ?thesis
    using slots_ok_same [OF assms(1), of i l'] slots_ok_length [OF assms(1)] assms(3,4) by simp
qed

lemma empty_queue_slots:
  assumes "slots_ok vje" "vj_server_empty_queue vje i = Some (r, vje')" "lk_in_use (vs_link vje ! nat i) \<noteq> 0"
  shows "slots_ok vje'"
  by (rule with_link_same [OF assms(1) assms(2) [unfolded vj_server_empty_queue_def] assms(3)])
    (auto simp: link_same_def vj_simple_pool_reset_def split: option.splits)

lemma recv_more_length: "recv_more rs buf pos cnt = Some (r, buf') \<Longrightarrow> 0 \<le> pos \<Longrightarrow> length buf' = length buf"
proof (induction rs buf pos cnt rule: recv_more.induct)
  case (2 again rs buf pos cnt)
  then show ?case by (auto split: if_splits)
next
  case (3 bs again rs buf pos cnt)
  let ?bs = "take RECV_SIZE bs"
  obtain b1 where b1: "buf_put buf pos ?bs = Some b1" using "3.prems" by (auto simp: Let_def bind_eq_Some_conv)
  then have "length b1 = length buf" using "3.prems"(2) by (auto simp: buf_put_def split: if_splits)
  with "3.IH" [OF refl b1 refl] b1 "3.prems" show ?case by (auto simp: Let_def split: if_splits)
qed simp

lemma recv_first_length: "recv_first rs buf = Some (r, buf') \<Longrightarrow> length buf' = length buf"
proof -
  assume r: "recv_first rs buf = Some (r, buf')"
  show "length buf' = length buf"
  proof (cases "\<exists>c again rs'. rs = Recv_bytes [c] again # rs'")
    case True
    then obtain c again rs' where rs: "rs = Recv_bytes [c] again # rs'" by blast
    obtain b1 where b1: "buf_put buf 0 [c] = Some b1" using r rs by (auto simp: recv_first_def bind_eq_Some_conv)
    have "length b1 = length buf" using b1 by (auto simp: buf_put_def split: if_splits)
    then show ?thesis
      using r rs b1 recv_more_length [of rs' b1 1 0] by (auto simp: recv_first_def split: if_splits)
  next
    case False
    then show ?thesis
      using r by (auto simp: recv_first_def split: list.splits received.splits)
  qed
qed

lemma update_slots:
  assumes "slots_ok vje" "vj_server_update rounds rs vje i = Some (w, vje')"
  shows "slots_ok vje'"
proof -
  obtain l where l: "c_nth (vs_link vje) i = Some l" using assms(2) by (auto simp: vj_server_update_def bind_eq_Some_conv)
  note li = c_nth_SomeD [OF l]
  show ?thesis
  proof (cases "lk_in_use l = 0")
    case True
    with assms l show ?thesis by (simp add: vj_server_update_def)
  next
    case False
    then obtain r v1 where e: "vj_server_empty_queue vje i = Some (r, v1)"
      using assms(2) l by (auto simp: vj_server_update_def bind_eq_Some_conv)
    have v1: "slots_ok v1" by (rule empty_queue_slots [OF assms(1) e]) (use False li in simp)
    have used: "lk_in_use (vs_link v1 ! nat i) \<noteq> 0"
      using e l li False by (auto simp: vj_server_empty_queue_def with_link_def bind_eq_Some_conv split: option.splits)
    show ?thesis
    proof (cases "lk_handle l \<in> vs_fds v1")
      case no: False
      with assms(2) l e v1 False show ?thesis by (simp add: vj_server_update_def)
    next
      case True
      obtain got buf where g: "recv_first rs (vs_recv_buf v1) = Some (got, buf)"
        using assms(2) l e True False by (auto simp: vj_server_update_def bind_eq_Some_conv)
      let ?v2 = "v1\<lparr>vs_recv_buf := buf\<rparr>"
      have v2: "slots_ok ?v2"
        by (rule slots_ok_cong [OF v1]) (use recv_first_length [OF g] in simp_all)
      have p: "slots_ok v3" if "with_link ?v2 i (vj_parse_msg buf n rounds) = Some (nn, v3)" for n nn v3
        by (rule with_link_same [OF v2 that]) (use used parse_loop_same in \<open>auto simp: vj_parse_msg_def\<close>)
      have upd: "(case got of None \<Rightarrow> Some (Walk_done (- 1), ?v2)
         | Some n \<Rightarrow> if n \<le> 0 then Some (Walk_done (- 1), ?v2)
             else do { v \<leftarrow> vj_verify_msg (vs_use_mcast ?v2) buf n rounds;
                       case v of Walk_more \<Rightarrow> Some (Walk_more, ?v2)
                       | Walk_done n_msg \<Rightarrow>
                           if n_msg = 0 \<or> n_msg \<ge> int VJ_MAX_PENDING_MSG then Some (Walk_done (- 1), ?v2)
                           else do { (nn, vje) \<leftarrow> with_link ?v2 i (vj_parse_msg buf n rounds);
                                     Some (if nn = Walk_done n_msg \<or> nn = Walk_more then nn else Walk_done 0, vje) } }) = Some (w, vje')"
        using assms(2) l e True False g by (simp add: vj_server_update_def Let_def)
      show ?thesis
      proof (cases "\<exists>n. got = Some n \<and> n > 0")
        case no: False
        with upd v2 show ?thesis by (auto split: option.splits if_splits)
      next
        case True
        then obtain n where n: "got = Some n" "n > 0" by blast
        obtain v where v: "vj_verify_msg (vs_use_mcast ?v2) buf n rounds = Some v" using upd n by (auto simp: bind_eq_Some_conv)
        show ?thesis
        proof (cases v)
          case Walk_more
          with upd n v v2 show ?thesis by simp
        next
          case (Walk_done x)
          with upd n v v2 p show ?thesis by (auto simp: bind_eq_Some_conv split: if_splits)
        qed
      qed
    qed
  qed
qed

lemma new_connection_slots:
  assumes "slots_ok vje" "0 < fd" "fd \<notin> open_fds vje" "vj_server_new_connection vje fd = Some (r, vje')"
  shows "slots_ok vje'"
proof -
  define v1 where "v1 = (if vs_nr_of_connections vje < fd then vje\<lparr>vs_nr_of_connections := fd\<rparr> else vje)"
  have f: "vs_link v1 = vs_link vje" "vs_handle v1 = vs_handle vje" "vs_recv_buf v1 = vs_recv_buf vje" by (simp_all add: v1_def)
  have v1: "slots_ok v1" by (rule slots_ok_cong [OF assms(1)]) (simp_all add: f)
  let ?e = "vj_server_free_slot v1"
  show ?thesis
  proof (cases "?e = int VJ_MAX_CONNECTIONS \<or> vs_handle vje \<notin> vs_fds vje")
    case True
    then show ?thesis
      using assms(1,4) v1 by (auto simp: vj_server_new_connection_def vj_server_new_client_def Let_def v1_def [symmetric] split: if_splits)
  next
    case False
    let ?l = "(vs_link v1 ! nat ?e)\<lparr>lk_handle := fd, lk_in_use := 1\<rparr>"
    have e: "0 \<le> ?e" "?e < int VJ_MAX_CONNECTIONS"
      using False first_index_ge [of "\<lambda>l. lk_in_use l = 0" "vs_link v1"] first_index_less [of "\<lambda>l. lk_in_use l = 0" "vs_link v1"]
        slots_ok_length [OF v1] by (auto simp: vj_server_free_slot_def Let_def split: if_splits)
    have "link_ok (vs_link v1 ! nat ?e)" using server_ok_link e v1 by (simp add: slots_ok_def)
    then have "link_ok ?l" by (simp add: link_ok_def)
    then have s: "slots_ok (v1\<lparr>vs_link := (vs_link v1)[nat ?e := ?l]\<rparr>)"
      using slots_ok_link [OF v1 e, of ?l] assms(2,3) by (simp add: open_fds_def f)
    have "vj_server_new_client v1 fd = Some (?e, v1\<lparr>vs_link := (vs_link v1)[nat ?e := ?l],
        vs_fds := insert fd (vs_fds v1), vs_wds := insert fd (vs_wds v1)\<rparr>)"
      using False e slots_ok_length [OF v1] by (simp add: vj_server_new_client_def with_link_def Let_def)
    then show ?thesis
      using assms(2,4) False e
      by (auto simp: vj_server_new_connection_def Let_def v1_def [symmetric] intro!: slots_ok_cong [OF s] split: if_splits)
  qed
qed


lemma del_client_slots:
  assumes "slots_ok vje" "vj_server_del_client vje i = Some (r, vje')"
  shows "slots_ok vje'"
proof -
  obtain l where l: "c_nth (vs_link vje) i = Some l" using assms(2) by (auto simp: vj_server_del_client_def bind_eq_Some_conv)
  note li = c_nth_SomeD [OF l]
  show ?thesis
  proof (cases "lk_in_use l = 0")
    case True
    with assms l show ?thesis by (simp add: vj_server_del_client_def)
  next
    case False
    let ?l = "l\<lparr>lk_in_use := 0, lk_handle := - 1, lk_promote := 0, lk_n_queued := 0, lk_n_retrieved := 0, lk_pool := None\<rparr>"
    have "link_ok l" using server_ok_link assms(1) li slots_ok_length [OF assms(1)] by (simp add: slots_ok_def)
    then have s: "slots_ok (vje\<lparr>vs_link := (vs_link vje)[nat i := ?l]\<rparr>)"
      using slots_ok_link [OF assms(1), of i ?l] li slots_ok_length [OF assms(1)] by (simp add: link_ok_def link_clean_def)
    show ?thesis
      using assms(2) l li False
      by (auto simp: vj_server_del_client_def with_link_def split: if_splits intro!: slots_ok_cong [OF s])
  qed
qed

lemma server_step_slots: "server_step vje vje' \<Longrightarrow> slots_ok vje \<Longrightarrow> slots_ok vje'"
proof (induction rule: server_step.induct)
  case (poll sel vje r vje')
  show ?case by (rule slots_ok_cong [OF poll(2)]) (use poll(1) in \<open>auto simp: vj_server_poll_def split: prod.splits\<close>)
next
  case (accept fd vje r vje')
  then show ?case using new_connection_slots by blast
next
  case (pool vje i vje')
  then obtain l r where l: "c_nth (vs_link vje) i = Some l" "lk_in_use l \<noteq> 0" and
      w: "with_link vje i (\<lambda>l. Some ((), if lk_pool l = None
                    then l\<lparr>lk_pool := Some (vj_simple_pool_init MSG_POOL_SIZE)\<rparr> else l)) = Some (r, vje')"
    by (auto simp: vj_server_link_can_read_def vj_server_init_msg_pool_def bind_eq_Some_conv split: if_splits)
  note li = c_nth_SomeD [OF l(1)]
  have ok: "link_ok l" using server_ok_link pool(3) li slots_ok_length [OF pool(3)] by (simp add: slots_ok_def)
  let ?l = "if lk_pool l = None then l\<lparr>lk_pool := Some (vj_simple_pool_init MSG_POOL_SIZE)\<rparr> else l"
  have "slots_ok (vje\<lparr>vs_link := (vs_link vje)[nat i := ?l]\<rparr>)"
    using slots_ok_link [OF pool(3), of i ?l] li l(2) slots_ok_length [OF pool(3)] pool_init_ok [OF ok] ok by simp
  then show ?case using w l(1) by (simp add: with_link_def)
next
  case (update rounds rs vje i w vje')
  then show ?case using update_slots by blast
next
  case (retrieve vje i m vje')
  then obtain l where l: "c_nth (vs_link vje) i = Some l" by (auto simp: vj_server_retrieve_msg_def bind_eq_Some_conv)
  note li = c_nth_SomeD [OF l]
  show ?case
  proof (cases "lk_in_use l = 0 \<or> lk_n_retrieved l \<ge> lk_n_queued l")
    case True
    with retrieve l show ?thesis by (auto simp: vj_server_retrieve_msg_def)
  next
    case False
    then obtain r where "with_link vje i (\<lambda>l. Some ((), l\<lparr>lk_n_retrieved := lk_n_retrieved l + 1\<rparr>)) = Some (r, vje')"
      using retrieve(1) l by (auto simp: vj_server_retrieve_msg_def bind_eq_Some_conv)
    then show ?thesis
      by (rule with_link_same [OF retrieve(2)]) (use False li in \<open>auto simp: link_same_def\<close>)
  qed
next
  case (promote vje i u vje')
  then obtain l where l: "c_nth (vs_link vje) i = Some l" "lk_in_use l \<noteq> 0" by (auto simp: vj_server_link_used_def bind_eq_Some_conv)
  note li = c_nth_SomeD [OF l(1)]
  have ok: "link_ok l" using server_ok_link promote(4) li slots_ok_length [OF promote(4)] by (simp add: slots_ok_def)
  have "slots_ok (vje\<lparr>vs_link := (vs_link vje)[nat i := l\<lparr>lk_promote := 1\<rparr>]\<rparr>)"
    using slots_ok_link [OF promote(4), of i "l\<lparr>lk_promote := 1\<rparr>"] li l(2) slots_ok_length [OF promote(4)] ok
    by (simp add: link_ok_def)
  then show ?case using promote(3) l(1) by (simp add: vj_server_client_promote_def with_link_def)
next
  case (close vje i vje')
  then show ?case using del_client_slots by (auto simp: vj_server_close_connection_def bind_eq_Some_conv)
qed

lemma server_alloc_slots: "0 < handle \<Longrightarrow> slots_ok (vj_server_alloc handle buflen)"
  by (auto simp: slots_ok_def server_ok_def vj_server_alloc_def link_zero_def link_ok_def link_clean_def Let_def nth_replicate
      simp del: replicate.simps)

lemma server_reach_slots: "server_reach vje \<Longrightarrow> slots_ok vje"
  by (induction rule: server_reach.induct) (use server_alloc_slots server_step_slots in auto)


subsection \<open>Examples\<close>

text \<open>A server with a connection waiting, and one with a client on the first link.\<close>

definition server_demo :: vj_server where
  "server_demo = (vj_server_alloc 3 16)\<lparr>vs_fds := {3}\<rparr>"

definition link_one :: vj_link where
  "link_one = link_zero\<lparr>lk_handle := 7, lk_in_use := 1, lk_pool := Some (vj_simple_pool_init MSG_POOL_SIZE)\<rparr>"

definition server_one :: vj_server where
  "server_one = (vj_server_alloc 3 16)\<lparr>vs_link := (vs_link (vj_server_alloc 3 16))[0 := link_one], vs_fds := {7}\<rparr>"

lemma server_demo_reach: "server_reach server_demo"
proof -
  let ?v = "vj_server_alloc 3 16"
  have "poll_set ?v = {3}"
    by (auto simp: poll_set_def vj_server_alloc_def link_zero_def Let_def simp del: replicate.simps)
  then have "vj_server_poll (\<lambda>_. (1, {3}, {})) ?v = (1, server_demo)"
    by (simp add: vj_server_poll_def server_demo_def vj_server_alloc_def Let_def)
  then show ?thesis by (intro server_reach.step [OF server_reach.start server_step.poll]) simp_all
qed

lemma server_one_ok:
  "server_ok server_one" "lk_in_use (vs_link server_one ! 0) \<noteq> 0" "lk_handle (vs_link server_one ! 0) \<in> vs_fds server_one"
  "lk_pool (vs_link server_one ! 0) \<noteq> None" "vs_use_mcast server_one = False"
proof -
  have s: "slots_ok (vj_server_alloc 3 16)" by (rule server_alloc_slots) simp
  then have len: "length (vs_link (vj_server_alloc 3 16)) = VJ_MAX_CONNECTIONS" by (rule slots_ok_length)
  have "link_ok (link_zero\<lparr>lk_handle := 7, lk_in_use := 1\<rparr>)"
    by (simp add: link_ok_def link_zero_def del: replicate.simps)
  then have "link_ok link_one" using pool_init_ok by (simp add: link_one_def)
  then have "\<forall>l \<in> set (vs_link server_one). link_ok l"
    using s set_update_subset_insert [of "vs_link (vj_server_alloc 3 16)" 0 link_one]
    by (auto simp: server_one_def slots_ok_def server_ok_def)
  then show "server_ok server_one" using s by (simp add: server_one_def slots_ok_def server_ok_def)
  show "lk_in_use (vs_link server_one ! 0) \<noteq> 0" "lk_handle (vs_link server_one ! 0) \<in> vs_fds server_one"
    "lk_pool (vs_link server_one ! 0) \<noteq> None"
    using len by (simp_all add: server_one_def link_one_def VJ_MAX_CONNECTIONS_def)
  show "vs_use_mcast server_one = False" by (simp add: server_one_def vj_server_alloc_def Let_def)
qed

subsection \<open>Properties\<close>

text \<open>
  C11. What a client sends is delivered. A receive of well-formed packets (commands of at least seven characters,
  keyframe packets of at least eight bytes, less than 4096 bytes behind the first) gives exactly their texts, in
  order, each as it was sent, and then no more; although the count of received bytes leaves out the first one.
\<close>

theorem vims_messages_delivered:
  assumes "server_ok vje" "0 \<le> i" "i < int VJ_MAX_CONNECTIONS" "lk_in_use (vs_link vje ! nat i) \<noteq> 0"
    "lk_handle (vs_link vje ! nat i) \<in> vs_fds vje" "lk_pool (vs_link vje ! nat i) \<noteq> None"
    "\<forall>pk \<in> set pks. packet_ok (vs_use_mcast vje) pk \<and> packet_long pk" "concat (map encode pks) = c # cs"
    "length cs < RECV_SIZE" "length pks \<le> rounds"
  shows "\<exists>vje' vje''. vj_server_update rounds [Recv_bytes [c] b1, Recv_bytes cs b2] vje i = Some (Walk_done (int (length pks)), vje') \<and>
     retrieve_all (Suc (length pks)) vje' i = Some (map packet_text pks, vje'')"
proof -
  have ok: "\<forall>pk \<in> set pks. packet_ok (vs_use_mcast vje) pk" using assms(7) by blast
  have "5 * length pks \<le> Suc (length cs)" using concat_encode_length [OF ok] assms(8) by simp
  then have small: "length (map packet_text pks) < VJ_MAX_PENDING_MSG"
    using assms(9) by (simp add: RECV_SIZE_def VJ_MAX_PENDING_MSG_def)
  obtain vje' p e where u: "vj_server_update rounds [Recv_bytes [c] b1, Recv_bytes cs b2] vje i = Some (Walk_done (int (length pks)), vje')"
     "holds (vs_link vje' ! nat i) p (map packet_text pks) e" "lk_n_queued (vs_link vje' ! nat i) = int (length pks)"
     "lk_n_retrieved (vs_link vje' ! nat i) = 0" "lk_in_use (vs_link vje' ! nat i) \<noteq> 0" "length (vs_link vje') = VJ_MAX_CONNECTIONS"
    using update_packets [OF assms] by blast
  show ?thesis
    using u retrieve_all_holds [OF refl assms(2) _ u(2), of 0 "Suc (length pks)"] assms(3) small by auto
qed

theorem vims_messages_delivered_witness:
  "\<exists>vje' vje''. vj_server_update 9 [Recv_bytes ''V'' False, Recv_bytes ''008D108:0 5;V008D083:4 2;K00000008keyframe'' False] server_one 0
       = Some (Walk_done 3, vje') \<and> retrieve_all 4 vje' 0 = Some ([''108:0 5;'', ''083:4 2;'', ''keyframe''], vje'')"
proof -
  let ?pks = "[Vims 108 ''0 5'', Vims 83 ''4 2'', Keys ''keyframe'']"
  have t: "map packet_text ?pks = [''108:0 5;'', ''083:4 2;'', ''keyframe'']"
    and e: "concat (map encode ?pks) = CHR ''V'' # ''008D108:0 5;V008D083:4 2;K00000008keyframe''"
    by (simp_all add: packet_text.simps(1) show_pad_def show_nat.simps digit_chars) (simp add: eval_nat_numeral)
  have ok: "\<forall>pk \<in> set ?pks. packet_ok False pk \<and> packet_long pk"
    by (simp add: packet_text.simps(1) show_pad_def show_nat.simps)
  have "length ''008D108:0 5;V008D083:4 2;K00000008keyframe'' < RECV_SIZE" by (simp add: RECV_SIZE_def)
  then have "\<exists>vje' vje''. vj_server_update 9 [Recv_bytes [CHR ''V''] False, Recv_bytes ''008D108:0 5;V008D083:4 2;K00000008keyframe'' False]
       server_one 0 = Some (Walk_done (int (length ?pks)), vje') \<and>
     retrieve_all (Suc (length ?pks)) vje' 0 = Some (map packet_text ?pks, vje'')"
    by (intro vims_messages_delivered [OF server_one_ok(1) _ _ _ _ _ _ e])
      (use server_one_ok ok in \<open>simp_all add: VJ_MAX_CONNECTIONS_def del: packet_ok.simps packet_long.simps\<close>)
  moreover have "int (length ?pks) = 3" "Suc (length ?pks) = 4" by simp_all
  ultimately show ?thesis by (simp only: t)
qed

text \<open>
  C15. A slot is handed over clean. In every state the event loop can reach, a new client gets a free slot with its own
  descriptor, without the promotion, the pool or the messages of an earlier client, and the other slots stay as
  they are; when all slots are taken, the client is refused and no slot changes.
\<close>

theorem new_client_gets_clean_slot:
  assumes "server_reach vje" "0 < fd" "fd \<notin> open_fds vje" "vs_handle vje \<in> vs_fds vje"
  shows "\<exists>r vje'. vj_server_new_connection vje fd = Some (r, vje') \<and> slots_ok vje' \<and>
     (if \<forall>j < VJ_MAX_CONNECTIONS. lk_in_use (vs_link vje ! j) \<noteq> 0 then r = 0 \<and> vs_link vje' = vs_link vje
      else r = 1 \<and> (\<exists>i < VJ_MAX_CONNECTIONS. lk_in_use (vs_link vje ! i) = 0 \<and> lk_handle (vs_link vje' ! i) = fd \<and>
         lk_in_use (vs_link vje' ! i) = 1 \<and> vj_server_client_promoted vje' (int i) = Some 0 \<and> lk_pool (vs_link vje' ! i) = None \<and>
         vj_server_retrieve_msg vje' (int i) = Some (None, vje') \<and>
         (\<forall>j < VJ_MAX_CONNECTIONS. j \<noteq> i \<longrightarrow> vs_link vje' ! j = vs_link vje ! j)))"
proof -
  have s: "slots_ok vje" by (rule server_reach_slots [OF assms(1)])
  note len = slots_ok_length [OF s]
  define v1 where "v1 = (if vs_nr_of_connections vje < fd then vje\<lparr>vs_nr_of_connections := fd\<rparr> else vje)"
  have f: "vs_link v1 = vs_link vje" "vs_fds v1 = vs_fds vje" by (simp_all add: v1_def)
  let ?n = "first_index (\<lambda>l. lk_in_use l = 0) (vs_link vje)"
  show ?thesis
  proof (cases "?n = - 1")
    case True
    then have all: "\<forall>j < VJ_MAX_CONNECTIONS. lk_in_use (vs_link vje ! j) \<noteq> 0"
      using len by (simp add: first_index_none_iff)
    have c: "vj_server_new_connection vje fd = Some (0, v1)"
      using True assms(2,4) by (simp add: vj_server_new_connection_def vj_server_new_client_def vj_server_free_slot_def Let_def v1_def [symmetric] f)
    show ?thesis
      using c all f new_connection_slots [OF s assms(2,3) c] by (intro exI [of _ 0] exI [of _ v1]) simp
  next
    case False
    then have n: "0 \<le> ?n" "?n < int VJ_MAX_CONNECTIONS"
      using first_index_ge [of "\<lambda>l. lk_in_use l = 0" "vs_link vje"] first_index_less [of "\<lambda>l. lk_in_use l = 0" "vs_link vje"] len by auto
    have free: "lk_in_use (vs_link vje ! nat ?n) = 0" using first_index_hit [OF n(1)] .
    then have clean: "link_clean (vs_link vje ! nat ?n)" using s n by (simp add: slots_ok_def)
    let ?l = "(vs_link vje ! nat ?n)\<lparr>lk_handle := fd, lk_in_use := 1\<rparr>"
    let ?v = "v1\<lparr>vs_link := (vs_link vje)[nat ?n := ?l], vs_fds := insert fd (vs_fds vje) - {fd}, vs_wds := insert fd (vs_wds v1)\<rparr>"
    have c: "vj_server_new_connection vje fd = Some (1, ?v)"
      using n assms(2,4) len
      by (simp add: vj_server_new_connection_def vj_server_new_client_def vj_server_free_slot_def with_link_def Let_def v1_def [symmetric] f)
    have v: "vs_link ?v ! nat ?n = ?l" "length (vs_link ?v) = VJ_MAX_CONNECTIONS" using n len by simp_all
    have "\<not> (\<forall>j < VJ_MAX_CONNECTIONS. lk_in_use (vs_link vje ! j) \<noteq> 0)" using free n by (auto intro!: exI [of _ "nat ?n"])
    moreover have "vj_server_client_promoted ?v (int (nat ?n)) = Some 0" "vj_server_retrieve_msg ?v (int (nat ?n)) = Some (None, ?v)"
      using n len clean by (simp_all add: vj_server_client_promoted_def vj_server_retrieve_msg_def link_clean_def)
    moreover have "nat ?n < VJ_MAX_CONNECTIONS" "lk_pool ?l = None" using n clean by (simp_all add: link_clean_def)
    ultimately show ?thesis
      using c v free new_connection_slots [OF s assms(2,3) c]
      by (intro exI [of _ 1] exI [of _ ?v] conjI) (auto intro!: exI [of _ "nat ?n"])
  qed
qed


theorem new_client_gets_clean_slot_witness:
  "\<exists>vje' i. vj_server_new_connection server_demo 9 = Some (1, vje') \<and> i < VJ_MAX_CONNECTIONS \<and> lk_handle (vs_link vje' ! i) = 9 \<and>
     vj_server_client_promoted vje' (int i) = Some 0"
proof -
  have z: "lk_in_use (vs_link server_demo ! j) = 0" if "j < VJ_MAX_CONNECTIONS" for j
    using that by (simp add: server_demo_def vj_server_alloc_def link_zero_def Let_def del: replicate.simps)
  have a: "9 \<notin> open_fds server_demo" "vs_handle server_demo \<in> vs_fds server_demo"
    by (auto simp: open_fds_def server_demo_def vj_server_alloc_def link_zero_def Let_def simp del: replicate.simps)
  have no: "(\<forall>j < VJ_MAX_CONNECTIONS. lk_in_use (vs_link server_demo ! j) \<noteq> 0) = False"
    using z [of 0] by (auto simp: VJ_MAX_CONNECTIONS_def intro!: exI [of _ 0])
  have "(0::int) < 9" by simp
  from new_client_gets_clean_slot [OF server_demo_reach this a, unfolded no if_False] show ?thesis by blast
qed

text \<open>
  C16. The check of a buffer ends. When no keyframe header in it has a length below -8, the check comes to an answer
  within as many rounds as there are bytes, or it reads outside the buffer.
\<close>

theorem verify_terminates:
  assumes "\<forall>i len. 0 \<le> i \<longrightarrow> i < n \<longrightarrow> c_nth s i = Some (CHR ''K'') \<longrightarrow>
      scan_length (drop (nat (i + 1)) s) = Scan_value len \<longrightarrow> - 9 < len"
  shows "vj_verify_msg use_mcast s n (nat n) \<noteq> Some Walk_more"
proof -
  have step: "0 \<le> i \<and> i < j" if "verify_step use_mcast s i = Some (Some j)" "i < n" for i j
  proof -
    have "0 \<le> i" using that(1) by (auto simp: verify_step_def bind_eq_Some_conv dest: c_nth_SomeD)
    then show ?thesis
      using that assms
      by (auto simp: verify_step_def bind_eq_Some_conv Let_def split: if_splits option.splits prod.splits scan_result.splits)
  qed
  have "verify_loop use_mcast s n m i num \<noteq> Some Walk_more" if "n \<le> i + int m" for m i num
    using that
  proof (induction m arbitrary: i num)
    case 0
    then show ?case by (simp add: verify_loop.simps [of _ _ _ 0])
  next
    case (Suc m)
    show ?case
    proof (cases "n \<le> i")
      case True
      then show ?thesis by (simp add: verify_loop.simps [of _ _ _ "Suc m"])
    next
      case False
      show ?thesis
      proof (cases "\<exists>j. verify_step use_mcast s i = Some (Some j)")
        case True
        then obtain j where j: "verify_step use_mcast s i = Some (Some j)" by blast
        then have "n \<le> j + int m" using step [OF j] False Suc.prems by simp
        with Suc.IH j False show ?thesis by (simp add: verify_loop.simps [of _ _ _ "Suc m"])
      next
        case no: False
        with False show ?thesis
          by (cases "verify_step use_mcast s i") (auto simp: verify_loop.simps [of _ _ _ "Suc m"] split: option.splits)
      qed
    qed
  qed
  then show ?thesis by (simp add: vj_verify_msg_def)
qed

theorem verify_terminates_witness:
  "vj_verify_msg False ''K00000002ab'' 11 (nat 11) \<noteq> Some Walk_more"
proof (rule verify_terminates, intro allI impI)
  fix i len
  assume i: "0 \<le> i" "i < 11" "c_nth ''K00000002ab'' i = Some CHR ''K''"
    and l: "scan_length (drop (nat (i + 1)) ''K00000002ab'') = Scan_value len"
  have "nat i < 11" using i by auto
  then have "nat i = 0"
    using i by (auto simp: c_nth_def less_Suc_eq numeral_eq_Suc split: if_splits)
  then have "i = 0" using i(1) by simp
  moreover have "scan_length ''00000002ab'' = Scan_value 2" by code_simp
  ultimately show "- 9 < len" using l by simp
qed

text \<open>
  C29. A keyframe header of length -9 stops the server. The position does not move, so the check of a buffer that
  begins with it is not finished after any number of rounds.
\<close>

theorem verify_negative_length_loops:
  assumes "5 \<le> n"
  shows "vj_verify_msg use_mcast (''K-0000009'' @ rest) n rounds = Some Walk_more"
proof -
  let ?s = "''K-0000009'' @ rest"
  have "scan_length (''-0000009'' @ rest) = Scan_value (- 9)"
    by (simp add: scan_length_def scan_field_def is_space_def is_digit_def digit_val_def digits_nat_def numeral_eq_Suc)
  then have step: "verify_step use_mcast ?s 0 = Some (Some 0)"
    by (simp add: verify_step_def Let_def)
  have "verify_loop use_mcast ?s n rounds 0 num = Some Walk_more" for num
  proof (induction rounds arbitrary: num)
    case 0
    then show ?case using assms by (simp add: verify_loop.simps [of _ _ _ 0])
  next
    case (Suc m)
    then show ?case using step assms by (simp add: verify_loop.simps [of _ _ _ "Suc m"])
  qed
  then show ?thesis using assms by (simp add: vj_verify_msg_def)
qed

theorem verify_negative_length_loops_witness:
  "vj_verify_msg False ''K-0000009V005D255:;'' 18 1000000 = Some Walk_more"
  using verify_negative_length_loops [of 18 False "''V005D255:;''" 1000000] by simp


text \<open>
  Short messages overwrite each other. The pool moves on by less than it should when sizes are below eight: when
  the shortest command is sent four times in one go, the bytes of the third are overwritten by the fourth, so
  that \<open>255:;\<close> is read as \<open>255:2\<close>.
\<close>

theorem short_messages_overwritten:
  assumes "lk_pool l = Some p" "pool_cur p = 0" "24 \<le> pool_len p" "48 \<le> length (pool_mem p)"
    "length (lk_m_queue l) = VJ_MAX_PENDING_MSG"
  shows "\<exists>l' q. vj_parse_msg ''V005D255:;V005D255:;V005D255:;V005D255:;'' 39 4 l = Some (Walk_done 4, l') \<and> lk_pool l' = Some q \<and>
     lk_m_queue l' ! 2 = \<lparr>vm_msg = Some 38, vm_len = 5\<rparr> \<and> pool_read q 38 5 = Some ''255:2''"
proof -
  let ?s = "''V005D255:;V005D255:;V005D255:;V005D255:;''" and ?b = "''255:;'' @ [CHR 0x00]"
  have h: "scan_header (''005D255:;'' @ r) = Some (5, 255)" for r
    by (simp add: scan_header_def scan_field_def is_space_def is_digit_def digit_val_def digits_nat_def eval_nat_numeral)
  have q: "4 < length (lk_m_queue l)" using assms(5) by (simp add: VJ_MAX_PENDING_MSG_def)
  have step: "parse_step ?s i num k = Some (Inr (i + 10, num + 1),
      k\<lparr>lk_m_queue := (lk_m_queue k)[nat num := \<lparr>vm_msg = Some a, vm_len = 5\<rparr>], lk_pool := Some w\<rparr>)"
    if "i \<in> {0, 10, 20, 30}" "0 \<le> num" "num < 4" "lk_pool k = Some u" "length (lk_m_queue k) = length (lk_m_queue l)"
      "pool_cur u + 6 \<le> pool_len u" "0 \<le> pool_cur u" "a = RUP8 (pool_cur u) + (pool_cur u + 6)"
      "pool_write (u\<lparr>pool_cur := pool_cur u + 6\<rparr>) a ?b = Some w" for i num k u a w
  proof -
    have "c_nth ?s i = Some CHR ''V''" "\<exists>r. drop (nat (i + 1)) ?s = ''005D255:;'' @ r" "c_slice ?s (i + 5) 5 = Some ''255:;''"
      using that(1) by (auto simp: c_nth_def c_slice_def)
    moreover have "c_nth (lk_m_queue k) num = Some (lk_m_queue k ! nat num)" using that(2,3,5) q by simp
    moreover have "vj_simple_pool_alloc u 6 = (Some a, u\<lparr>pool_cur := pool_cur u + 6\<rparr>)"
      using that(6-8) by (simp add: vj_simple_pool_alloc_def Let_def RUP8_eq [of 6] bit_iff_odd)
    ultimately show ?thesis
      using that q h by (auto simp: parse_step_def take_message_def Let_def VJ_MAX_PENDING_MSG_def)
  qed
  have wr: "\<exists>w. pool_write (u\<lparr>pool_cur := x\<rparr>) a ?b = Some w \<and> pool_cur w = x \<and> pool_len w = pool_len u \<and>
      length (pool_mem w) = length (pool_mem u) \<and> pool_read w a 6 = Some ?b"
    if "0 \<le> a" "a + 6 \<le> 48" "48 \<le> length (pool_mem u)" for u a x
  proof -
    have "0 \<le> a" "a + 6 \<le> int (length (pool_mem u))" using that by linarith+
    then obtain w where w: "pool_write (u\<lparr>pool_cur := x\<rparr>) a ?b = Some w" by (auto simp: pool_write_def)
    show ?thesis using pool_write_same [OF w] w by auto
  qed
  have R: "RUP8 0 = 0" "RUP8 6 = 6" "RUP8 12 = 20" "RUP8 18 = 18" by (simp_all add: RUP8_def)
  obtain w0 where w0: "pool_write (p\<lparr>pool_cur := 6\<rparr>) 6 ?b = Some w0" "pool_cur w0 = 6" "pool_len w0 = pool_len p"
    "length (pool_mem w0) = length (pool_mem p)" using wr [of 6 p 6] assms(4) by auto
  obtain w1 where w1: "pool_write (w0\<lparr>pool_cur := 12\<rparr>) 18 ?b = Some w1" "pool_cur w1 = 12" "pool_len w1 = pool_len p"
    "length (pool_mem w1) = length (pool_mem p)" using wr [of 18 w0 12] assms(4) w0 by auto
  obtain w2 where w2: "pool_write (w1\<lparr>pool_cur := 18\<rparr>) 38 ?b = Some w2" "pool_cur w2 = 18" "pool_len w2 = pool_len p"
    "length (pool_mem w2) = length (pool_mem p)" "pool_read w2 38 6 = Some ?b" using wr [of 38 w1 18] assms(4) w1 by auto
  obtain w3 where w3: "pool_write (w2\<lparr>pool_cur := 24\<rparr>) 42 ?b = Some w3"
    using wr [of 42 w2 24] assms(4) w2 by auto
  let ?q = "\<lambda>n a xs. xs[n := \<lparr>vm_msg = Some a, vm_len = 5\<rparr>]"
  let ?l0 = "l\<lparr>lk_m_queue := ?q 0 6 (lk_m_queue l), lk_pool := Some w0\<rparr>"
  let ?l1 = "?l0\<lparr>lk_m_queue := ?q 1 18 (lk_m_queue ?l0), lk_pool := Some w1\<rparr>"
  let ?l2 = "?l1\<lparr>lk_m_queue := ?q 2 38 (lk_m_queue ?l1), lk_pool := Some w2\<rparr>"
  let ?l3 = "?l2\<lparr>lk_m_queue := ?q 3 42 (lk_m_queue ?l2), lk_pool := Some w3\<rparr>"
  have s: "parse_step ?s 0 0 l = Some (Inr (10, 1), ?l0)" "parse_step ?s 10 1 ?l0 = Some (Inr (20, 2), ?l1)"
    "parse_step ?s 20 2 ?l1 = Some (Inr (30, 3), ?l2)" "parse_step ?s 30 3 ?l2 = Some (Inr (40, 4), ?l3)"
    using step [of 0 0 l p 6 w0] step [of 10 1 ?l0 w0 18 w1] step [of 20 2 ?l1 w1 38 w2] step [of 30 3 ?l2 w2 42 w3] assms w0 w1 w2 w3 R
    by simp_all
  have "vj_parse_msg ?s 39 4 l = Some (Walk_done 4, ?l3\<lparr>lk_n_queued := 4, lk_n_retrieved := 0\<rparr>)"
    unfolding vj_parse_msg_def numeral_eq_Suc using s by (simp add: parse_loop.simps numeral_eq_Suc)
  moreover have "pool_read w3 38 5 = Some ''255:2''"
  proof -
    let ?m = "pool_mem w2"
    have t: "take 6 (drop 38 ?m) = ?b" using w2(5) by (simp add: pool_read_def split: if_splits)
    have "take 4 (drop 38 ?m) = take 4 (take 6 (drop 38 ?m))" by simp
    then have "take 4 (drop 38 ?m) = ''255:''" unfolding t by simp
    then have d: "drop 38 (take 42 ?m) = ''255:''" by (simp add: drop_take)
    have m: "pool_mem w3 = take 42 ?m @ ?b @ drop 48 ?m" using w3 by (auto simp: pool_write_def split: if_splits)
    have l42: "length (take 42 ?m) = 42" using w2(4) assms(4) by simp
    have "drop 38 (pool_mem w3) = ''255:'' @ ?b @ drop 48 ?m" unfolding m using d l42 by simp
    moreover have "43 \<le> length (pool_mem w3)" unfolding m using l42 by simp
    ultimately show ?thesis by (simp add: pool_read_def)
  qed
  ultimately show ?thesis using q by (intro exI [of _ "?l3\<lparr>lk_n_queued := 4, lk_n_retrieved := 0\<rparr>"] exI [of _ w3]) simp
qed

text \<open>
  The length of a keyframe packet is trusted. A packet that announces more bytes than the buffer holds passes the
  check as one message; splitting it reads outside the buffer.
\<close>

theorem keyframe_packet_beyond_buffer:
  assumes "0 \<le> len" "len \<le> MSG_POOL_SIZE" "int (length bs) < len" "5 \<le> n" "n \<le> 9 + len"
    "lk_pool l = Some p" "pool_cur p = 0" "pool_len p = MSG_POOL_SIZE" "length (lk_m_queue l) = VJ_MAX_PENDING_MSG"
  shows "vj_verify_msg use_mcast (''K'' @ show_pad 8 len @ bs) n (Suc rounds) = Some (Walk_done 1) \<and>
     vj_parse_msg (''K'' @ show_pad 8 len @ bs) n (Suc rounds) l = None"
proof -
  let ?s = "''K'' @ show_pad 8 len @ bs"
  have len: "len < 10 ^ 8" using assms(2) by (simp add: MSG_POOL_SIZE_def VJ_MAX_PENDING_MSG_def)
  have sc: "scan_length (show_pad 8 len @ bs) = Scan_value len" using scan_length_pad assms(1) len by blast
  have l8: "length (show_pad 8 len) = 8" using scan_field_pad(2) [of len 8] assms(1) len by simp
  have at: "c_nth ?s 0 = Some CHR ''K''" "drop (nat (0 + 1)) ?s = show_pad 8 len @ bs" by simp_all
  have "verify_step use_mcast ?s 0 = Some (Some (len + 9))" using at sc by (simp add: verify_step_def)
  then have v: "vj_verify_msg use_mcast ?s n (Suc rounds) = Some (Walk_done 1)"
    using assms(4,5) by (simp add: vj_verify_msg_def verify_loop.simps [of _ _ _ "Suc rounds"] verify_loop.simps [of _ _ _ rounds])
  have "c_nth (lk_m_queue l) 0 = Some (lk_m_queue l ! 0)" using assms(9) by (simp add: VJ_MAX_PENDING_MSG_def)
  then have "take_message ?s 9 len [] l 0 = None"
    using assms(1-3,6-8) l8 by (simp add: take_message_def vj_simple_pool_alloc_def c_slice_def Let_def)
  then have "parse_step ?s 0 0 l = None" using at sc by (simp add: parse_step_def)
  then show ?thesis using v assms(4) by (simp add: vj_parse_msg_def parse_loop.simps [of _ _ "Suc rounds"])
qed

theorem keyframe_packet_beyond_buffer_witness:
  "vj_verify_msg False ''K00000100frames'' 16 2 = Some (Walk_done 1) \<and> vj_parse_msg ''K00000100frames'' 16 2 link_one = None"
proof -
  have e: "''K00000100frames'' = ''K'' @ show_pad 8 100 @ ''frames''"
    by (simp add: show_pad_def show_nat.simps digit_chars) (simp add: eval_nat_numeral)
  moreover have "lk_pool link_one = Some (vj_simple_pool_init MSG_POOL_SIZE)" "length (lk_m_queue link_one) = VJ_MAX_PENDING_MSG"
    by (simp_all add: link_one_def link_zero_def del: replicate.simps)
  moreover have "(100::int) \<le> MSG_POOL_SIZE" by (simp add: MSG_POOL_SIZE_def VJ_MAX_PENDING_MSG_def)
  ultimately have "vj_verify_msg False (''K'' @ show_pad 8 100 @ ''frames'') 16 (Suc (Suc 0)) = Some (Walk_done 1) \<and>
      vj_parse_msg (''K'' @ show_pad 8 100 @ ''frames'') 16 (Suc (Suc 0)) link_one = None"
    by (intro keyframe_packet_beyond_buffer [where p = "vj_simple_pool_init MSG_POOL_SIZE"]) (simp_all add: vj_simple_pool_init_def)
  then show ?thesis unfolding e numeral_2_eq_2 .
qed


theorem short_messages_overwritten_witness:
  "\<exists>l' q. vj_parse_msg ''V005D255:;V005D255:;V005D255:;V005D255:;'' 39 4 link_one = Some (Walk_done 4, l') \<and> lk_pool l' = Some q \<and>
     pool_read q 38 5 = Some ''255:2''"
proof -
  have "lk_pool link_one = Some (vj_simple_pool_init MSG_POOL_SIZE)" "length (lk_m_queue link_one) = VJ_MAX_PENDING_MSG"
    by (simp_all add: link_one_def link_zero_def del: replicate.simps)
  moreover have "24 \<le> MSG_POOL_SIZE" "48 \<le> MSG_POOL_SIZE" by (simp_all add: MSG_POOL_SIZE_def VJ_MAX_PENDING_MSG_def)
  moreover have "48 \<le> nat (RUP8 MSG_POOL_SIZE)" using RUP8_ge [of MSG_POOL_SIZE] calculation(4) by linarith
  ultimately show ?thesis
    using short_messages_overwritten [of link_one "vj_simple_pool_init MSG_POOL_SIZE"]
    by (auto simp: vj_simple_pool_init_def simp del: replicate.simps)
qed

end
