(* ===== verification/EditOps.thy ===== *)
theory EditOps
  imports Playback
begin

text \<open>
  Editing of a list of frames (\<open>veejay/liblavplayvj.c\<close>): copy and cut to a buffer, paste, delete and move.

  \<^item> The editing buffer is \<open>st_save_list\<close> with its length; the list that is edited is given by its address.
  \<^item> \<open>alloc\<close> tells whether the C library serves a request for so many bytes. \<open>vj_malloc\<close> refuses a request for none.
  \<^item> Frame numbers are \<open>long\<close> arguments that the code converts to \<open>uint64_t\<close>; the bounds and the position are \<open>int\<close>
    and compared as \<open>uint64_t\<close> with them.
\<close>

abbreviation u64_of :: "int \<Rightarrow> u64" where "u64_of x \<equiv> word_of_int x"

definition int_of_u64 :: "u64 \<Rightarrow> int" where "int_of_u64 w = int32_of_long (uint w)"

definition put_el :: "addr \<Rightarrow> editlist \<Rightarrow> veejay \<Rightarrow> veejay" where
  "put_el e el v = v\<lparr>vi_adm := (vi_adm v)\<lparr>ad_els := (ad_els (vi_adm v))(e \<mapsto> el)\<rparr>\<rparr>"

text \<open>The samples and the list are saved to files first, which is outside the model.\<close>

definition veejay_change_state_save :: "int \<Rightarrow> veejay \<Rightarrow> veejay" where
  "veejay_change_state_save new_state v = veejay_change_state new_state v"

subsection \<open>Copying to the buffer\<close>

fun copy_loop :: "u64 buf \<Rightarrow> u64 \<Rightarrow> nat \<Rightarrow> u64 buf option" where
  "copy_loop fl i 0 = Some []"
| "copy_loop fl i (Suc m) = do { x \<leftarrow> buf_get fl (unat i); xs \<leftarrow> copy_loop fl (i + 1) m; Some (x # xs) }"

text \<open>The number of rounds of a loop from \<open>a\<close> up to and including \<open>b\<close>.\<close>

definition rounds :: "u64 \<Rightarrow> u64 \<Rightarrow> nat" where
  "rounds a b = (if a \<le> b then unat (b - a) + 1 else 0)"

definition veejay_edit_copy :: "(u64 \<Rightarrow> bool) \<Rightarrow> veejay \<Rightarrow> addr \<Rightarrow> int \<Rightarrow> int \<Rightarrow> (int \<times> veejay) option" where
  "veejay_edit_copy alloc v e start stop = do {
     el \<leftarrow> ad_els (vi_adm v) e;
     if el_is_empty el \<noteq> 0 then Some (0, v)
     else do {
       let n1 = u64_of start;
       let n2 = u64_of stop;
       let bytes = (n2 - n1 + 1) * 8;
       let v = v\<lparr>st_save_list := None\<rparr>;
       if bytes = 0 \<or> \<not> alloc bytes then Some (0, veejay_change_state_save LAVPLAY_STATE_STOP v)
       else do {
         xs \<leftarrow> (if n1 \<le> n2 then do { fl \<leftarrow> el_frame_list el; copy_loop fl n1 (rounds n1 n2) } else Some []);
         let cells = unat bytes div 8;
         if length xs > cells then out_of_bounds
         else Some (1, v\<lparr>st_save_list := Some (xs @ replicate (cells - length xs) (Some 0)),
                         st_save_list_len := of_nat (length xs)\<rparr>) } } }"

text \<open>The copy that is given to a new sample: the frames alone, with the files of the list.\<close>

definition veejay_edit_copy_to_new :: "(u64 \<Rightarrow> bool) \<Rightarrow> veejay \<Rightarrow> addr \<Rightarrow> int \<Rightarrow> int \<Rightarrow> (addr option \<times> veejay) option" where
  "veejay_edit_copy_to_new alloc v e start stop = do {
     el \<leftarrow> ad_els (vi_adm v) e;
     let len = stop - start + 1;
     if el_is_empty el \<noteq> 0 then Some (None, v)
     else if u64_of stop > el_total_frames el then Some (None, v)
     else if len < 1 then Some (None, v)
     else if \<not> alloc (8 * u64_of len) then Some (None, veejay_change_state_save LAVPLAY_STATE_STOP v)
     else do {
       fl \<leftarrow> el_frame_list el;
       xs \<leftarrow> copy_loop fl (u64_of start) (nat len);
       let (a, d) = ad_alloc (vi_adm v);
       let new_el = (vj_el_soft_clone el)\<lparr>el_frame_list := Some xs, el_video_frames := len, el_total_frames := u64_of (len - 1)\<rparr>;
       Some (Some a, put_el a new_el (v\<lparr>vi_adm := d\<rparr>)) } }"

subsection \<open>Deleting\<close>

fun shift_down :: "u64 buf \<Rightarrow> u64 \<Rightarrow> u64 \<Rightarrow> nat \<Rightarrow> u64 buf option" where
  "shift_down b i len 0 = Some b"
| "shift_down b i len (Suc m) = do {
     x \<leftarrow> buf_get b (unat i);
     b \<leftarrow> buf_put b (unat (i - len)) x;
     shift_down b (i + 1) len m }"

definition delete_bounds :: "u64 \<Rightarrow> u64 \<Rightarrow> veejay \<Rightarrow> veejay" where
  "delete_bounds n1 n2 v =
     (let len = n2 - n1 + 1;
          mn = u64_of (st_min_frame_num v);
          v = (if n1 - 1 < mn
               then v\<lparr>st_min_frame_num := int_of_u64 (if n2 < mn then mn - len else n1)\<rparr> else v);
          mx = u64_of (st_max_frame_num v);
          v = (if n1 - 1 < mx
               then v\<lparr>st_max_frame_num := int_of_u64 (if n2 \<le> mx then mx - len else n1 - 1)\<rparr> else v);
          cur = u64_of (st_current_frame_num v)
      in if n1 \<le> cur
         then v\<lparr>st_current_frame_num := int_of_u64 (if cur \<le> n2 then n1 else cur - len)\<rparr> else v)"

definition veejay_edit_delete :: "veejay \<Rightarrow> addr \<Rightarrow> int \<Rightarrow> int \<Rightarrow> (int \<times> veejay) option" where
  "veejay_edit_delete v e start stop = do {
     el \<leftarrow> ad_els (vi_adm v) e;
     let n1 = u64_of start;
     let n2 = u64_of stop;
     if el_is_empty el \<noteq> 0 then Some (0, v)
     else if vi_dummy v then Some (0, v)
     else if n2 < n1 \<or> n1 > el_total_frames el \<or> n2 > el_total_frames el then Some (0, v)
     else do {
       let len = n2 - n1 + 1;
       let m = unat (u64_of (el_video_frames el)) - unat (n2 + 1);
       b \<leftarrow> (if m = 0 then Some (el_frame_list el)
             else do { fl \<leftarrow> el_frame_list el; b \<leftarrow> shift_down fl (n2 + 1) len m; Some (Some b) });
       let el = el\<lparr>el_frame_list := b, el_video_frames := sint (u64_of (el_video_frames el) - len),
                    el_total_frames := el_total_frames el - len\<rparr>;
       Some (1, put_el e el (delete_bounds n1 n2 v)) } }"

definition veejay_edit_cut :: "(u64 \<Rightarrow> bool) \<Rightarrow> veejay \<Rightarrow> addr \<Rightarrow> int \<Rightarrow> int \<Rightarrow> (int \<times> veejay) option" where
  "veejay_edit_cut alloc v e start stop = do {
     el \<leftarrow> ad_els (vi_adm v) e;
     if el_is_empty el \<noteq> 0 then Some (0, v)
     else do {
       (r, v) \<leftarrow> veejay_edit_copy alloc v e start stop;
       if r = 0 then Some (0, v)
       else do {
         (r, v) \<leftarrow> veejay_edit_delete v e start stop;
         Some (if r = 0 then 0 else 1, v) } } }"

subsection \<open>Pasting and moving\<close>

fun shift_up :: "u64 buf \<Rightarrow> u64 \<Rightarrow> u64 \<Rightarrow> nat \<Rightarrow> u64 buf option" where
  "shift_up b i k 0 = Some b"
| "shift_up b i k (Suc m) = do {
     x \<leftarrow> buf_get b (unat i);
     b \<leftarrow> buf_put b (unat (i + k)) x;
     shift_up b (i - 1) k m }"

text \<open>The frames of the buffer go in one by one, and the bounds grow with each that is not after them.\<close>

fun paste_loop :: "u64 buf \<Rightarrow> u64 buf \<Rightarrow> nat \<Rightarrow> u64 \<Rightarrow> int \<Rightarrow> int \<Rightarrow> nat \<Rightarrow> (u64 buf \<times> int \<times> int) option" where
  "paste_loop b save i k mn mx 0 = Some (b, mn, mx)"
| "paste_loop b save i k mn mx (Suc m) = do {
     let mn = (if k \<le> u64_of mn then mn + 1 else mn);
     let mx = (if k < u64_of mx then mx + 1 else mx);
     x \<leftarrow> buf_get save i;
     b \<leftarrow> buf_put b (unat k) x;
     paste_loop b save (Suc i) (k + 1) mn mx m }"

definition veejay_edit_paste :: "(u64 \<Rightarrow> bool) \<Rightarrow> veejay \<Rightarrow> addr \<Rightarrow> int \<Rightarrow> (int \<times> veejay) option" where
  "veejay_edit_paste alloc v e destination = do {
     el \<leftarrow> ad_els (vi_adm v) e;
     let len = st_save_list_len v;
     case st_save_list v of
       None \<Rightarrow> Some (0, v)
     | Some save \<Rightarrow>
         if len = 0 then Some (0, v)
         else do {
           let destination = (if el_is_empty el \<noteq> 0 then 0 else destination);
           if el_is_empty el = 0 \<and> (destination < 0 \<or> u64_of destination > el_total_frames el) then Some (0, v)
           else do {
             let bytes = ((if el_is_empty el \<noteq> 0 then 0 else u64_of (el_video_frames el)) + len) * 8;
             if \<not> alloc bytes
             then Some (0, veejay_change_state_save LAVPLAY_STATE_STOP (put_el e (el\<lparr>el_frame_list := None\<rparr>) v))
             else do {
               let b = buf_realloc (el_frames el) (unat bytes div 8);
               let low = max (u64_of destination) 1;
               b \<leftarrow> shift_up b (el_total_frames el) len (rounds low (el_total_frames el));
               (b, mn, mx) \<leftarrow> paste_loop b save 0 (u64_of destination) (st_min_frame_num v) (st_max_frame_num v) (unat len);
               let el = el\<lparr>el_frame_list := Some b, el_video_frames := sint (u64_of (el_video_frames el) + len),
                            el_total_frames := el_total_frames el + (len - 1), el_is_empty := 0\<rparr>;
               (r, v) \<leftarrow> veejay_increase_frame (put_el e el (v\<lparr>st_min_frame_num := mn, st_max_frame_num := mx\<rparr>)) 0;
               Some (1, v) } } } }"

definition veejay_edit_move :: "(u64 \<Rightarrow> bool) \<Rightarrow> veejay \<Rightarrow> addr \<Rightarrow> int \<Rightarrow> int \<Rightarrow> int \<Rightarrow> (int \<times> veejay) option" where
  "veejay_edit_move alloc v e start stop destination = do {
     el \<leftarrow> ad_els (vi_adm v) e;
     let n = el_total_frames el;
     if el_is_empty el \<noteq> 0 then Some (0, v)
     else if u64_of destination > n \<or> destination < 0 \<or> start < 0 \<or> stop < 0 \<or> u64_of start \<ge> n \<or> u64_of stop > n \<or> stop < start
     then Some (0, v)
     else do {
       let dest_real = (if destination < start then destination
                        else if destination > stop then destination - (stop - start + 1) else start);
       (r, v) \<leftarrow> veejay_edit_cut alloc v e start stop;
       if r = 0 then Some (0, v)
       else do {
         (r, v) \<leftarrow> veejay_edit_paste alloc v e dest_real;
         Some (if r = 0 then 0 else 1, v) } } }"

subsection \<open>What the loops do\<close>

lemma unat_Suc:
  fixes i :: u64
  assumes "unat i < n" "n < 2 ^ 64"
  shows "unat (i + 1) = unat i + 1"
  using assms by (simp add: unat_word_ariths)

lemma unat_u64_of: "0 \<le> x \<Longrightarrow> x < 2 ^ 63 \<Longrightarrow> unat (u64_of x) = nat x"
  by (simp add: unat_eq_nat_uint uint_word_of_int)

lemma sint_u64_of: "- (2 ^ 63) \<le> x \<Longrightarrow> x < 2 ^ 63 \<Longrightarrow> sint (u64_of x) = x"
  by (simp add: sint_sbintrunc' signed_take_bit_int_eq_self_iff)

lemma u64_of_order:
  assumes "0 \<le> x" "x < 2 ^ 63"
  shows "k \<le> u64_of x \<longleftrightarrow> int (unat k) \<le> x" "k < u64_of x \<longleftrightarrow> int (unat k) < x"
proof -
  have n: "int (unat (u64_of x)) = x" using unat_u64_of [OF assms] assms(1) by simp
  show "k \<le> u64_of x \<longleftrightarrow> int (unat k) \<le> x" "k < u64_of x \<longleftrightarrow> int (unat k) < x"
    by (metis n of_nat_le_iff word_le_nat_alt) (metis n of_nat_less_iff word_less_nat_alt)
qed

lemma copy_loop_take:
  assumes "unat i + m \<le> length b" "length b < 2 ^ 64"
  shows "copy_loop b i m = Some (take m (drop (unat i) b))"
  using assms
proof (induction m arbitrary: i)
  case (Suc m)
  then have i: "unat i < length b" by simp
  note n = unat_Suc [OF i Suc.prems(2)]
  have "copy_loop b (i + 1) m = Some (take m (drop (Suc (unat i)) b))"
    using Suc.IH [of "i + 1"] Suc.prems n by simp
  then show ?case using i by (simp add: Cons_nth_drop_Suc [symmetric])
qed simp

lemma shift_down_list:
  assumes "unat len \<le> unat i" "unat i + m \<le> length b" "length b < 2 ^ 64" "p = unat i - unat len"
  shows "shift_down b i len m = Some (take p b @ take m (drop (unat i) b) @ drop (p + m) b)"
  using assms
proof (induction m arbitrary: b i p)
  case (Suc m)
  have i: "unat i < length b" and p: "p < length b" "p \<le> unat i" using Suc.prems by simp_all
  note n = unat_Suc [OF i Suc.prems(3)]
  have pi: "unat (i - len) = p" using Suc.prems(1,4) by (simp add: unat_sub word_le_nat_alt)
  let ?b = "b[p := b ! unat i]"
  have "shift_down ?b (i + 1) len m =
      Some (take (Suc p) ?b @ take m (drop (unat (i + 1)) ?b) @ drop (Suc p + m) ?b)"
    by (rule Suc.IH) (use Suc.prems n p in auto)
  moreover have "take (Suc p) ?b = take p b @ [b ! unat i]" using p(1) by (simp add: take_Suc_conv_app_nth)
  moreover have "drop (unat (i + 1)) ?b = drop (Suc (unat i)) b" "drop (Suc p + m) ?b = drop (Suc p + m) b" using n p by simp_all
  ultimately show ?case using i p pi by (simp add: Cons_nth_drop_Suc [symmetric])
qed simp

lemma shift_up_list:
  assumes "m \<le> unat i" "unat i + unat k < length b" "length b < 2 ^ 64"
  shows "\<exists>b'. shift_up b i k m = Some b' \<and> length b' = length b \<and>
    (\<forall>j<length b. b' ! j = (if unat i - m < j - unat k \<and> unat k \<le> j \<and> j \<le> unat i + unat k then b ! (j - unat k) else b ! j))"
  using assms
proof (induction m arbitrary: b i)
  case (Suc m)
  have i: "unat (i + k) = unat i + unat k" "unat (i - 1) = unat i - 1" "0 < unat i"
    using Suc.prems by (simp_all add: unat_word_ariths unat_sub word_le_nat_alt)
  let ?b = "b[unat i + unat k := b ! unat i]"
  have "m \<le> unat (i - 1)" "unat (i - 1) + unat k < length ?b" "length ?b < 2 ^ 64"
    using Suc.prems i by simp_all
  from Suc.IH [OF this] obtain b' where b': "shift_up ?b (i - 1) k m = Some b'" "length b' = length b"
    "\<forall>j<length b. b' ! j = (if unat i - 1 - m < j - unat k \<and> unat k \<le> j \<and> j \<le> unat i - 1 + unat k then ?b ! (j - unat k) else ?b ! j)"
    by (simp only: i length_list_update) blast
  have "shift_up b i k (Suc m) = Some b'" using i b'(1) Suc.prems(2) by simp
  moreover have "b' ! j = (if unat i - Suc m < j - unat k \<and> unat k \<le> j \<and> j \<le> unat i + unat k then b ! (j - unat k) else b ! j)"
    if "j < length b" for j
    using b'(3) [rule_format, OF that] i(3) that by (auto simp: nth_list_update)
  ultimately show ?case using b'(2) by blast
qed auto

lemma paste_loop_list:
  assumes "unat k + m \<le> length b" "length b < 2 ^ 31" "i + m \<le> length save" "0 \<le> mn" "mn + int m < 2 ^ 31" "0 \<le> mx" "mx + int m < 2 ^ 31"
  shows "paste_loop b save i k mn mx m =
    Some (take (unat k) b @ take m (drop i save) @ drop (unat k + m) b,
          if int (unat k) \<le> mn then mn + int m else mn, if int (unat k) < mx then mx + int m else mx)"
  using assms
proof (induction m arbitrary: b i k mn mx)
  case (Suc m)
  have k: "unat k < length b" and i: "i < length save" using Suc.prems by simp_all
  have n: "unat (k + 1) = unat k + 1" using unat_Suc [OF k] Suc.prems(2) by simp
  have le: "k \<le> u64_of mn \<longleftrightarrow> int (unat k) \<le> mn" "k < u64_of mx \<longleftrightarrow> int (unat k) < mx"
    using Suc.prems u64_of_order [of mn k] u64_of_order [of mx k] by simp_all
  let ?b = "b[unat k := save ! i]"
  let ?mn = "if int (unat k) \<le> mn then mn + 1 else mn" and ?mx = "if int (unat k) < mx then mx + 1 else mx"
  have "paste_loop ?b save (Suc i) (k + 1) ?mn ?mx m =
      Some (take (unat (k + 1)) ?b @ take m (drop (Suc i) save) @ drop (unat (k + 1) + m) ?b,
            if int (unat (k + 1)) \<le> ?mn then ?mn + int m else ?mn, if int (unat (k + 1)) < ?mx then ?mx + int m else ?mx)"
    by (rule Suc.IH) (use Suc.prems n in auto)
  moreover have "take (unat (k + 1)) ?b = take (unat k) b @ [save ! i]" using k n by (simp add: take_Suc_conv_app_nth)
  moreover have "drop (unat (k + 1) + m) ?b = drop (unat k + Suc m) b" using n by simp
  ultimately show ?case using k i n le by (auto simp: Cons_nth_drop_Suc [symmetric] Let_def)
qed simp

subsection \<open>Lists of frames\<close>

text \<open>The list holds the frames \<open>xs\<close>, up to memory behind them, and fewer than an \<open>int\<close> counts.\<close>

definition frames_are :: "editlist \<Rightarrow> u64 list \<Rightarrow> bool" where
  "frames_are el xs \<longleftrightarrow> el_is_empty el = 0 \<and> el_video_frames el = int (length xs) \<and>
     (\<exists>slack. el_frame_list el = Some (map Some xs @ slack) \<and> int (length xs + length slack) < 2 ^ 30)"

lemma frames_areE:
  assumes "frames_are el xs"
  obtains slack where "el_is_empty el = 0" "el_video_frames el = int (length xs)" "int (length xs) < 2 ^ 30"
    "el_frame_list el = Some (map Some xs @ slack)" "int (length xs + length slack) < 2 ^ 30"
proof -
  obtain slack where "el_frame_list el = Some (map Some xs @ slack)" "int (length xs + length slack) < 2 ^ 30"
    "el_is_empty el = 0" "el_video_frames el = int (length xs)" using assms by (auto simp: frames_are_def)
  then show ?thesis by (intro that [of slack]) simp_all
qed

definition cut_out :: "nat \<Rightarrow> nat \<Rightarrow> 'a list \<Rightarrow> 'a list" where
  "cut_out a b xs = take a xs @ drop (Suc b) xs"

definition put_in :: "nat \<Rightarrow> 'a list \<Rightarrow> 'a list \<Rightarrow> 'a list" where
  "put_in p ys xs = take p xs @ ys @ drop p xs"

definition slice :: "nat \<Rightarrow> nat \<Rightarrow> 'a list \<Rightarrow> 'a list" where
  "slice a b xs = take (Suc b - a) (drop a xs)"

lemma cut_put:
  assumes "a \<le> b" "b < length xs"
  shows "put_in a (slice a b xs) (cut_out a b xs) = xs" "length (slice a b xs) = Suc b - a"
    "length (cut_out a b xs) = length xs - (Suc b - a)"
proof -
  have "take (Suc b - a) (drop a xs) @ drop (Suc b) xs = drop a xs"
    using assms append_take_drop_id [of "Suc b - a" "drop a xs"] by simp
  then show "put_in a (slice a b xs) (cut_out a b xs) = xs"
    using assms by (simp add: put_in_def slice_def cut_out_def)
  show "length (slice a b xs) = Suc b - a" "length (cut_out a b xs) = length xs - (Suc b - a)"
    using assms by (simp_all add: slice_def cut_out_def)
qed

lemma rounds_nat: "a \<le> b \<Longrightarrow> rounds a b = Suc (unat b - unat a)"
  by (simp add: rounds_def unat_sub)

lemma word_len:
  assumes "0 \<le> a" "a \<le> b" "b < 2 ^ 30"
  shows "unat (u64_of b - u64_of a + 1) = nat (b - a + 1)" "u64_of a \<le> u64_of b" "unat (u64_of b + 1) = nat (b + 1)"
proof -
  have "u64_of b - u64_of a + 1 = u64_of (b - a + 1)" "u64_of b + 1 = u64_of (b + 1)" by simp_all
  then show "unat (u64_of b - u64_of a + 1) = nat (b - a + 1)" "unat (u64_of b + 1) = nat (b + 1)"
    using assms unat_u64_of [of "b - a + 1"] unat_u64_of [of "b + 1"] by simp_all
  show "u64_of a \<le> u64_of b" using assms unat_u64_of [of a] unat_u64_of [of b] by (simp add: word_le_nat_alt)
qed

lemma edit_copy_frames:
  assumes "ad_els (vi_adm v) e = Some el" "frames_are el xs" "0 \<le> a" "a \<le> b" "b < int (length xs)" "\<forall>n. alloc n"
  shows "veejay_edit_copy alloc v e a b = Some (1, v\<lparr>st_save_list := Some (map Some (slice (nat a) (nat b) xs)),
      st_save_list_len := u64_of (b - a + 1)\<rparr>)"
proof -
  obtain slack where f: "el_is_empty el = 0" "el_frame_list el = Some (map Some xs @ slack)" "int (length xs) < 2 ^ 30"
    "int (length xs + length slack) < 2 ^ 30"
    by (rule frames_areE [OF assms(2)])
  have b30: "b < 2 ^ 30" using assms(5) f(3) by simp
  note w = word_len [OF assms(3,4) b30]
  have ua: "unat (u64_of a) = nat a" and ub: "unat (u64_of b) = nat b"
    using unat_u64_of [of a] unat_u64_of [of b] assms(3,4) b30 by simp_all
  have r: "rounds (u64_of a) (u64_of b) = Suc (nat b) - nat a"
    using rounds_nat [OF w(2)] ua ub nat_mono [OF assms(4)] by (simp add: Suc_diff_le)
  have l: "nat a + (Suc (nat b) - nat a) \<le> length (map Some xs @ slack)" using assms(3-5) by simp
  have "copy_loop (map Some xs @ slack) (u64_of a) (rounds (u64_of a) (u64_of b)) = Some (map Some (slice (nat a) (nat b) xs))"
  proof -
    have "length (map Some xs @ slack) < 2 ^ 64" using f(3,4) by simp
    note copy_loop_take [of "u64_of a" "Suc (nat b) - nat a" "map Some xs @ slack", unfolded ua, OF l this]
    moreover have "take (Suc (nat b) - nat a) (drop (nat a) (map Some xs @ slack)) = map Some (slice (nat a) (nat b) xs)"
      using assms(3-5) by (simp add: slice_def take_map drop_map)
    ultimately show ?thesis by (simp add: r)
  qed
  moreover have by8: "unat ((u64_of b - u64_of a + 1) * 8) = nat (b - a + 1) * 8"
  proof -
    have "unat ((u64_of b - u64_of a + 1) * 8) = unat (u64_of ((b - a + 1) * 8))" by simp
    also have "\<dots> = nat ((b - a + 1) * 8)" using assms(3,4) b30 by (intro unat_u64_of) simp_all
    also have "\<dots> = nat (b - a + 1) * 8" using assms(4) by (simp add: nat_mult_distrib)
    finally show ?thesis .
  qed
  moreover have "length (slice (nat a) (nat b) xs) = nat (b - a + 1)"
    using assms(3-5) by (simp add: slice_def)
  ultimately show ?thesis
    using assms(1,3,4,6) f(1,2) w(2) by (auto simp: veejay_edit_copy_def Let_def)
qed

lemma put_el_el [simp]: "ad_els (vi_adm (put_el e el v)) e = Some el"
  by (simp add: put_el_def)

lemma delete_bounds_adm [simp]: "vi_adm (delete_bounds n1 n2 v) = vi_adm v"
  by (simp add: delete_bounds_def Let_def)

lemma frames_areI:
  assumes "el_is_empty el = 0" "el_video_frames el = int (length xs)"
    "el_frame_list el = Some (map Some xs @ slack)" "int (length xs + length slack) < 2 ^ 30"
  shows "frames_are el xs"
  using assms by (auto simp: frames_are_def)

lemma edit_delete_frames:
  assumes "ad_els (vi_adm v) e = Some el" "frames_are el xs" "el_total_frames el = u64_of t" "t < int (length xs)"
    "0 \<le> a" "a \<le> b" "b \<le> t" "\<not> vi_dummy v"
  shows "\<exists>el'. veejay_edit_delete v e a b = Some (1, put_el e el' (delete_bounds (u64_of a) (u64_of b) v)) \<and>
    frames_are el' (cut_out (nat a) (nat b) xs) \<and> el_total_frames el' = u64_of (t - (b - a + 1)) \<and>
    length (el_frames el') = length (el_frames el)"
proof -
  obtain slack where f: "el_is_empty el = 0" "el_video_frames el = int (length xs)" "int (length xs) < 2 ^ 30"
    "el_frame_list el = Some (map Some xs @ slack)" "int (length xs + length slack) < 2 ^ 30"
    by (rule frames_areE [OF assms(2)])
  have b30: "b < 2 ^ 30" using assms(4,7) f(3) by simp
  note w = word_len [OF assms(5,6) b30]
  have u: "unat (u64_of a) = nat a" "unat (u64_of b) = nat b" "unat (u64_of t) = nat t" "unat (u64_of (int (length xs))) = length xs"
    using unat_u64_of [of a] unat_u64_of [of b] unat_u64_of [of t] unat_u64_of [of "int (length xs)"] assms(4-7) f(3) by simp_all
  have cond: "\<not> (u64_of b < u64_of a \<or> u64_of a > u64_of t \<or> u64_of b > u64_of t)"
    using u assms(5-7) by (simp add: word_less_nat_alt)
  let ?b = "map Some xs @ slack" and ?L = "u64_of b - u64_of a + 1"
  let ?m = "length xs - nat (b + 1)"
  have cut: "length (cut_out (nat a) (nat b) xs) = length xs - nat (b - a + 1)"
    using cut_put(3) [of "nat a" "nat b" xs] assms(4-7) by (simp add: nat_diff_distrib' Suc_diff_le)
  have L: "nat (b - a + 1) \<le> length xs" using assms(4-7) by linarith
  have sd: "shift_down ?b (u64_of b + 1) ?L ?m = Some (map Some (cut_out (nat a) (nat b) xs) @
      map Some (drop (length xs - nat (b - a + 1)) xs) @ slack)"
  proof -
    have "shift_down ?b (u64_of b + 1) ?L ?m =
        Some (take (nat a) ?b @ take ?m (drop (nat (b + 1)) ?b) @ drop (nat a + ?m) ?b)"
      by (rule shift_down_list [where p = "nat a", of ?L "u64_of b + 1" ?m ?b, unfolded w(1,3)])
        (use assms(4-7) f(3,5) in auto)
    moreover have "take (nat a) ?b @ take ?m (drop (nat (b + 1)) ?b) = map Some (cut_out (nat a) (nat b) xs)"
      using assms(4-7) by (simp add: take_map drop_map cut_out_def nat_add_distrib)
    moreover have "drop (nat a + ?m) ?b = map Some (drop (length xs - nat (b - a + 1)) xs) @ slack"
    proof -
      have "nat a + ?m = length xs - nat (b - a + 1)" using assms(4-7) by linarith
      then show ?thesis by (simp add: drop_map)
    qed
    ultimately show ?thesis by (metis append_assoc)
  qed
  let ?n = "length xs - nat (b - a + 1)"
  define fl' where "fl' = map Some (cut_out (nat a) (nat b) xs) @ map Some (drop ?n xs) @ slack"
  note sd = sd [folded fl'_def]
  define el' where "el' = el\<lparr>el_frame_list := Some fl', el_video_frames := int ?n, el_total_frames := u64_of (t - (b - a + 1))\<rparr>"
  have n: "int ?n = int (length xs) - (b - a + 1)" using L assms(6) by simp
  have vf: "sint (u64_of (int (length xs)) - ?L) = int ?n"
  proof -
    have "u64_of (int (length xs)) - ?L = u64_of (int ?n)" unfolding n by simp
    then show ?thesis using f(3) sint_u64_of [of "int ?n"] by (simp only:) simp
  qed
  have el': "el' = el\<lparr>el_frame_list := Some fl', el_video_frames := sint (u64_of (el_video_frames el) - ?L),
      el_total_frames := el_total_frames el - ?L\<rparr>"
    unfolding el'_def f(2) assms(3) vf by simp
  have m: "unat (u64_of (el_video_frames el)) - unat (u64_of b + 1) = ?m" unfolding f(2) u(4) w(3) ..
  have run: "veejay_edit_delete v e a b = Some (1, put_el e el' (delete_bounds (u64_of a) (u64_of b) v))"
  proof (cases "?m = 0")
    case True
    then have "fl' = ?b" using sd by simp
    then show ?thesis
      using True cond f(1) assms(1,3,8) m by (simp add: veejay_edit_delete_def Let_def el' f(4))
  next
    case False
    then show ?thesis
      using cond f(1,4) assms(1,3,8) m sd by (simp add: veejay_edit_delete_def Let_def el')
  qed
  have "frames_are el' (cut_out (nat a) (nat b) xs)"
    by (rule frames_areI [where slack = "map Some (drop ?n xs) @ slack"])
      (use f cut L in \<open>simp_all add: el'_def fl'_def\<close>)
  then show ?thesis using run cut L f(4) by (intro exI [of _ el']) (simp add: el'_def fl'_def el_frames_def)
qed

text \<open>An increase by no frame leaves the position where it is.\<close>

lemma increase_by_none:
  assumes "adm_ok (vi_adm v)" "uc_sample_id v \<noteq> SAMPLE_MAX_SAMPLES" "- 2147483648 \<le> st_current_frame_num v"
    "st_current_frame_num v < 2147483648"
  obtains r d where "veejay_increase_frame v 0 = Some (r, v\<lparr>vi_adm := d\<rparr>)" "ad_els d = ad_els (vi_adm v)" "adm_ok d"
    "\<forall>j. sample_at d j = sample_at (vi_adm v) j"
proof -
  let ?k = "uc_sample_id v" and ?m = "memo_sample (vi_adm v) (uc_sample_id v)"
  have m: "adm_ok ?m" using assms(1) by (rule adm_ok_memo)
  obtain s where s: "sample_get_startFrame (vi_adm v) ?k = Some (s, ?m)"
    using that by (simp add: sample_get_startFrame_def read_sample_at [OF assms(1,2)])
  obtain t where t: "sample_get_endFrame ?m ?k = Some (t, ?m)"
    using that by (simp add: sample_get_endFrame_def read_sample_at [OF m assms(2)])
  have cur: "w\<lparr>vi_adm := d, st_current_frame_num := st_current_frame_num w\<rparr> = w\<lparr>vi_adm := d\<rparr>"
    "w\<lparr>st_current_frame_num := st_current_frame_num w\<rparr> = w" "w\<lparr>vi_adm := vi_adm w\<rparr> = w" for w :: veejay and d
    by (rule veejay.equality; simp)+
  have "\<exists>r d. veejay_increase_frame v 0 = Some (r, v\<lparr>vi_adm := d\<rparr>) \<and> (d = vi_adm v \<or> d = ?m)"
  proof (cases "uc_playback_mode v = VJ_PLAYBACK_MODE_SAMPLE")
    case True
    then show ?thesis
      by (intro exI [of _ "if st_current_frame_num v < s \<or> st_current_frame_num v > t then 0 else 1"] exI [of _ ?m])
        (use assms(3,4) s t in \<open>auto simp: veejay_increase_frame_def on_adm_def mode_consts cur Let_def\<close>)
  next
    case False
    then show ?thesis
      by (intro exI [of _ "fst (the (veejay_increase_frame v 0))"] exI [of _ "vi_adm v"])
        (use assms(3,4) in \<open>auto simp: veejay_increase_frame_def Let_def cur\<close>)
  qed
  then obtain r d where "veejay_increase_frame v 0 = Some (r, v\<lparr>vi_adm := d\<rparr>)" "d = vi_adm v \<or> d = ?m" by blast
  then show ?thesis using assms(1) m by (intro that [of r d]) auto
qed

text \<open>
  A paste, with \<open>b1\<close> the array after the frames behind the position have moved. The loop that moves them never moves
  frame 0.
\<close>

lemma edit_paste_run:
  assumes "ad_els (vi_adm v) e = Some el" "frames_are el xs" "el_total_frames el = u64_of (int (length xs) - 1)"
    "st_save_list v = Some (map Some ys @ rest)" "st_save_list_len v = u64_of (int (length ys))" "ys \<noteq> []"
    "int (length xs + length ys) < 2 ^ 30" "0 \<le> p" "p < int (length xs)" "\<forall>n. alloc n"
    "adm_ok (vi_adm v)" "uc_sample_id v \<noteq> SAMPLE_MAX_SAMPLES" "- 2147483648 \<le> st_current_frame_num v" "st_current_frame_num v < 2147483648"
    "0 \<le> st_min_frame_num v" "st_min_frame_num v < 2 ^ 30" "0 \<le> st_max_frame_num v" "st_max_frame_num v < 2 ^ 30"
  obtains v' el' b1 where "veejay_edit_paste alloc v e p = Some (1, v')" "ad_els (vi_adm v') = (ad_els (vi_adm v))(e \<mapsto> el')"
    "el_frame_list el' = Some (take (nat p) b1 @ map Some ys @ drop (nat p + length ys) b1)" "length b1 = length xs + length ys"
    "\<forall>j<length xs. b1 ! j = (if max (nat p) 1 + length ys \<le> j then Some (xs ! (j - length ys)) else Some (xs ! j))"
    "\<forall>j<length xs + length ys. length xs \<le> j \<longrightarrow> max (nat p) 1 + length ys \<le> j \<longrightarrow> b1 ! j = Some (xs ! (j - length ys))"
    "el_is_empty el' = 0" "el_video_frames el' = int (length xs + length ys)"
    "el_total_frames el' = u64_of (int (length xs + length ys) - 2)"
    "st_current_frame_num v' = st_current_frame_num v" "\<forall>j. sample_at (vi_adm v') j = sample_at (vi_adm v) j"
    "adm_ok (vi_adm v')"
proof -
  obtain slack where f: "el_is_empty el = 0" "el_video_frames el = int (length xs)" "int (length xs) < 2 ^ 30"
    "el_frame_list el = Some (map Some xs @ slack)" "int (length xs + length slack) < 2 ^ 30"
    by (rule frames_areE [OF assms(2)])
  define L T where "L = u64_of (int (length ys))" and "T = u64_of (int (length xs) - 1)"
  let ?N = "length xs + length ys"
  note LT = assms(3,5) [folded L_def T_def]
  have "xs \<noteq> []" using assms(8,9) by auto
  then have u: "unat L = length ys" "unat T = length xs - 1" "unat (u64_of p) = nat p"
    using unat_u64_of [of "int (length ys)"] unat_u64_of [of "int (length xs) - 1"] unat_u64_of [of p] assms(7-9) by (simp_all add: nat_diff_distrib' L_def T_def)
  have bytes: "unat ((u64_of (el_video_frames el) + L) * 8) div 8 = ?N"
  proof -
    have "unat ((u64_of (el_video_frames el) + L) * 8) = unat (u64_of (int (8 * ?N)))" by (simp add: f(2) algebra_simps L_def)
    also have "\<dots> = 8 * ?N" using assms(7) unat_u64_of [of "int (8 * ?N)"] by (simp only: nat_int) simp
    finally show ?thesis by simp
  qed
  define b where "b = buf_realloc (map Some xs @ slack) ?N"
  have b: "length b = ?N" "\<forall>j<length xs. b ! j = Some (xs ! j)"
    by (simp_all add: b_def nth_buf_realloc nth_append)
  define q where "q = max (nat p) 1"
  have low: "unat (max (u64_of p) 1) = q" using u(3) by (simp add: q_def max_def word_le_nat_alt)
  have q: "q \<le> length xs" "0 < length xs" "0 < q" using assms(8,9) by (auto simp: q_def)
  have r: "rounds (max (u64_of p) 1) T = length xs - q"
  proof (cases "max (u64_of p) 1 \<le> T")
    case True
    then have "q \<le> length xs - 1" using low u(2) by (simp add: word_le_nat_alt)
    then show ?thesis using rounds_nat [OF True] low u(2) q by linarith
  next
    case False
    then have "length xs - 1 < q" using low u(2) by (simp only: word_le_nat_alt not_le)
    then show ?thesis using False q by (simp add: rounds_def)
  qed
  obtain b1 where b1: "shift_up b T L (length xs - q) = Some b1" "length b1 = ?N"
    "\<forall>j<?N. b1 ! j = (if length xs - 1 - (length xs - q) < j - length ys \<and> length ys \<le> j \<and> j \<le> length xs - 1 + length ys
       then b ! (j - length ys) else b ! j)"
  proof -
    have "length xs - q \<le> length xs - 1" "length xs - 1 + length ys < ?N" "?N < 2 ^ 64" using assms(7) q by simp_all
    from shift_up_list [of "length xs - q" T L b, unfolded u b(1), OF this] show ?thesis using that by blast
  qed
  have moved: "b1 ! j = b ! (j - length ys)" if "q + length ys \<le> j" "j < ?N" for j
    using b1(3) that q by auto
  have stay: "b1 ! j = b ! j" if "\<not> q + length ys \<le> j" "j < ?N" for j
    using b1(3) that q by auto
  obtain mn mx where pl: "paste_loop b1 (map Some ys @ rest) 0 (u64_of p) (st_min_frame_num v) (st_max_frame_num v) (length ys) =
      Some (take (nat p) b1 @ map Some ys @ drop (nat p + length ys) b1, mn, mx)"
    using paste_loop_list [of "u64_of p" "length ys" b1 0 "map Some ys @ rest" "st_min_frame_num v" "st_max_frame_num v"]
      u(3) b1(2) assms(7-9,15-18) by auto
  define fl where "fl = take (nat p) b1 @ map Some ys @ drop (nat p + length ys) b1"
  let ?el = "el\<lparr>el_frame_list := Some fl, el_video_frames := sint (u64_of (el_video_frames el) + L),
      el_total_frames := el_total_frames el + (L - 1), el_is_empty := 0\<rparr>"
  have vf: "sint (u64_of (el_video_frames el) + L) = int ?N"
  proof -
    have "u64_of (el_video_frames el) + L = u64_of (int ?N)" by (simp add: f(2) L_def)
    then show ?thesis using assms(7) sint_u64_of [of "int ?N"] by (simp only:) simp
  qed
  have tot: "el_total_frames ?el = u64_of (int ?N - 2)" by (simp add: assms(3) L_def)
  define w where "w = put_el e ?el (v\<lparr>st_min_frame_num := mn, st_max_frame_num := mx\<rparr>)"
  have w: "adm_ok (vi_adm w)" "uc_sample_id w \<noteq> SAMPLE_MAX_SAMPLES" "- 2147483648 \<le> st_current_frame_num w"
    "st_current_frame_num w < 2147483648"
    using side_upd(4) [OF assms(11)] assms(12-14) by (simp_all add: w_def put_el_def side_def)
  obtain r d where d: "veejay_increase_frame w 0 = Some (r, w\<lparr>vi_adm := d\<rparr>)" "ad_els d = ad_els (vi_adm w)" "adm_ok d"
    "\<forall>j. sample_at d j = sample_at (vi_adm w) j"
    by (rule increase_by_none [OF w])
  have cond: "\<not> (p < 0 \<or> u64_of p > T)" "L \<noteq> 0"
    using u assms(6,8,9) by (auto simp: word_less_nat_alt unat_eq_0 [symmetric] simp del: unat_eq_0)
  have bb: "buf_realloc (el_frames el) (unat (u64_of (el_video_frames el) * 8 + L * 8) div 8) = b"
    using bytes by (simp add: b_def el_frames_def f(4) distrib_right)
  have run: "veejay_edit_paste alloc v e p = Some (1, w\<lparr>vi_adm := d\<rparr>)"
    using assms(1,4,10) f(1) cond d(1)
    by (simp add: veejay_edit_paste_def Let_def LT bb low r b1(1) u pl [folded fl_def] w_def [unfolded LT, symmetric])
  have "sample_at (vi_adm w) j = sample_at (vi_adm v) j" for j
    using side_sample_at [OF side_upd(4) [OF assms(11)]] by (simp add: w_def put_el_def)
  moreover have "\<forall>j<length xs. b1 ! j = (if q + length ys \<le> j then Some (xs ! (j - length ys)) else Some (xs ! j))"
    using moved stay b(2) by (simp add: less_imp_diff_less)
  moreover have "\<forall>j<?N. length xs \<le> j \<longrightarrow> q + length ys \<le> j \<longrightarrow> b1 ! j = Some (xs ! (j - length ys))"
    using moved b(2) by (auto simp: less_diff_conv2)
  ultimately show ?thesis
    using run tot vf b1(2) d(2-4) by (intro that [of "w\<lparr>vi_adm := d\<rparr>" ?el b1]) (simp_all add: w_def put_el_def fl_def q_def)
qed

lemma edit_paste_frames:
  assumes "ad_els (vi_adm v) e = Some el" "frames_are el xs" "el_total_frames el = u64_of (int (length xs) - 1)"
    "st_save_list v = Some (map Some ys @ rest)" "st_save_list_len v = u64_of (int (length ys))" "ys \<noteq> []"
    "int (length xs + length ys) < 2 ^ 30" "1 \<le> p" "p < int (length xs)" "\<forall>n. alloc n"
    "adm_ok (vi_adm v)" "uc_sample_id v \<noteq> SAMPLE_MAX_SAMPLES" "- 2147483648 \<le> st_current_frame_num v" "st_current_frame_num v < 2147483648"
    "0 \<le> st_min_frame_num v" "st_min_frame_num v < 2 ^ 30" "0 \<le> st_max_frame_num v" "st_max_frame_num v < 2 ^ 30"
  obtains v' el' where "veejay_edit_paste alloc v e p = Some (1, v')" "ad_els (vi_adm v') = (ad_els (vi_adm v))(e \<mapsto> el')"
    "frames_are el' (put_in (nat p) ys xs)" "el_total_frames el' = u64_of (int (length xs + length ys) - 2)"
    "st_current_frame_num v' = st_current_frame_num v" "\<forall>j. sample_at (vi_adm v') j = sample_at (vi_adm v) j"
    "adm_ok (vi_adm v')"
proof -
  have p0: "0 \<le> p" using assms(8) by simp
  let ?N = "length xs + length ys"
  obtain v' el' b1 where r: "veejay_edit_paste alloc v e p = Some (1, v')" "ad_els (vi_adm v') = (ad_els (vi_adm v))(e \<mapsto> el')"
    "el_frame_list el' = Some (take (nat p) b1 @ map Some ys @ drop (nat p + length ys) b1)" "length b1 = ?N"
    "\<forall>j<length xs. b1 ! j = (if max (nat p) 1 + length ys \<le> j then Some (xs ! (j - length ys)) else Some (xs ! j))"
    "\<forall>j<?N. length xs \<le> j \<longrightarrow> max (nat p) 1 + length ys \<le> j \<longrightarrow> b1 ! j = Some (xs ! (j - length ys))"
    "el_is_empty el' = 0" "el_video_frames el' = int ?N" "el_total_frames el' = u64_of (int ?N - 2)"
    "st_current_frame_num v' = st_current_frame_num v" "\<forall>j. sample_at (vi_adm v') j = sample_at (vi_adm v) j" "adm_ok (vi_adm v')"
    by (rule edit_paste_run [OF assms(1-7) p0 assms(9-18)])
  have q: "max (nat p) 1 = nat p" and pn: "nat p < length xs" using assms(8,9) by auto
  have fl: "take (nat p) b1 @ map Some ys @ drop (nat p + length ys) b1 = map Some (put_in (nat p) ys xs)"
  proof (rule nth_equalityI)
    show "length (take (nat p) b1 @ map Some ys @ drop (nat p + length ys) b1) = length (map Some (put_in (nat p) ys xs))"
      using r(4) pn by (simp add: put_in_def)
    fix j assume "j < length (take (nat p) b1 @ map Some ys @ drop (nat p + length ys) b1)"
    then have j: "j < ?N" using r(4) pn by simp
    consider "j < nat p" | "nat p \<le> j" "j < nat p + length ys" | "nat p + length ys \<le> j" by linarith
    then show "(take (nat p) b1 @ map Some ys @ drop (nat p + length ys) b1) ! j = map Some (put_in (nat p) ys xs) ! j"
    proof cases
      case 1
      then have "b1 ! j = Some (xs ! j)" using r(5) q pn by simp
      then show ?thesis using 1 j pn r(4) by (simp add: nth_append put_in_def)
    next
      case 2
      then have "j - nat p < length ys" by linarith
      then show ?thesis using 2 j pn r(4) by (simp add: nth_append put_in_def)
    next
      case 3
      then have "b1 ! j = Some (xs ! (j - length ys))" using r(5,6) q j by (cases "j < length xs") simp_all
      moreover have "\<not> j - nat p < length ys" using 3 by linarith
      ultimately show ?thesis using 3 j pn r(4) by (simp add: nth_append put_in_def)
    qed
  qed
  have "frames_are el' (put_in (nat p) ys xs)"
    by (rule frames_areI [where slack = "[]"]) (use r(3,7,8) fl pn assms(7) in \<open>simp_all add: put_in_def\<close>)
  then show ?thesis using that r(1,2,9-12) by blast
qed

text \<open>At position 0 the first frame is not moved and the pasted frames overwrite it.\<close>

lemma edit_paste_first:
  assumes "ad_els (vi_adm v) e = Some el" "frames_are el xs" "el_total_frames el = u64_of (int (length xs) - 1)"
    "st_save_list v = Some (map Some ys @ rest)" "st_save_list_len v = u64_of (int (length ys))" "ys \<noteq> []"
    "int (length xs + length ys) < 2 ^ 30" "xs \<noteq> []" "\<forall>n. alloc n"
    "adm_ok (vi_adm v)" "uc_sample_id v \<noteq> SAMPLE_MAX_SAMPLES" "- 2147483648 \<le> st_current_frame_num v" "st_current_frame_num v < 2147483648"
    "0 \<le> st_min_frame_num v" "st_min_frame_num v < 2 ^ 30" "0 \<le> st_max_frame_num v" "st_max_frame_num v < 2 ^ 30"
  obtains v' el' g where "veejay_edit_paste alloc v e 0 = Some (1, v')" "ad_els (vi_adm v') e = Some el'"
    "el_frame_list el' = Some (map Some ys @ g # map Some (tl xs))" "length ys < length xs \<Longrightarrow> g = Some (xs ! length ys)"
proof -
  let ?N = "length xs + length ys"
  have n: "0 < int (length xs)" using assms(8) by simp
  obtain v' el' b1 where r: "veejay_edit_paste alloc v e 0 = Some (1, v')" "ad_els (vi_adm v') = (ad_els (vi_adm v))(e \<mapsto> el')"
    "el_frame_list el' = Some (take (nat 0) b1 @ map Some ys @ drop (nat 0 + length ys) b1)" "length b1 = ?N"
    "\<forall>j<length xs. b1 ! j = (if max (nat 0) 1 + length ys \<le> j then Some (xs ! (j - length ys)) else Some (xs ! j))"
    "\<forall>j<?N. length xs \<le> j \<longrightarrow> max (nat 0) 1 + length ys \<le> j \<longrightarrow> b1 ! j = Some (xs ! (j - length ys))"
    by (rule edit_paste_run [OF assms(1-7) order_refl n assms(9-17)])
  have "drop (length ys) b1 = b1 ! length ys # map Some (tl xs)"
  proof (rule nth_equalityI)
    show "length (drop (length ys) b1) = length (b1 ! length ys # map Some (tl xs))" using r(4) n by simp
    fix j assume "j < length (drop (length ys) b1)"
    then have j: "j < length xs" using r(4) by simp
    show "drop (length ys) b1 ! j = (b1 ! length ys # map Some (tl xs)) ! j"
    proof (cases j)
      case (Suc i)
      then have "b1 ! (length ys + j) = Some (xs ! j)"
        using r(5,6) j by (cases "length ys + j < length xs") simp_all
      then show ?thesis using Suc j r(4) by (simp add: nth_tl)
    qed (use r(4) in simp)
  qed
  then show ?thesis using that [of v' el' "b1 ! length ys"] r(1,2,3,5) by simp
qed

lemma int_of_u64_of: "0 \<le> x \<Longrightarrow> x < 2 ^ 31 \<Longrightarrow> int_of_u64 (u64_of x) = x"
  by (simp add: int_of_u64_def uint_word_of_int)

lemma u64_of_less:
  assumes "0 \<le> x" "x < 2 ^ 63" "0 \<le> y" "y < 2 ^ 63"
  shows "u64_of x < u64_of y \<longleftrightarrow> x < y" "u64_of x \<le> u64_of y \<longleftrightarrow> x \<le> y"
  using u64_of_order [OF assms(3,4), of "u64_of x"] unat_u64_of [OF assms(1,2)] assms(1) by simp_all

text \<open>Bounds and position after deleting from \<open>a\<close> to \<open>b\<close>; from frame 0 on, the bounds stay as they are.\<close>

lemma delete_bounds_int:
  assumes "0 \<le> a" "a \<le> b" "b < 2 ^ 30" "0 \<le> st_min_frame_num v" "st_min_frame_num v < 2 ^ 30"
    "0 \<le> st_max_frame_num v" "st_max_frame_num v < 2 ^ 30" "0 \<le> st_current_frame_num v" "st_current_frame_num v < 2 ^ 30"
  shows "st_current_frame_num (delete_bounds (u64_of a) (u64_of b) v) =
      (if a \<le> st_current_frame_num v then (if st_current_frame_num v \<le> b then a else st_current_frame_num v - (b - a + 1))
       else st_current_frame_num v)"
    "st_min_frame_num (delete_bounds (u64_of a) (u64_of b) v) =
      (if 0 < a \<and> a - 1 < st_min_frame_num v
       then (if b < st_min_frame_num v then st_min_frame_num v - (b - a + 1) else a) else st_min_frame_num v)"
    "st_max_frame_num (delete_bounds (u64_of a) (u64_of b) v) =
      (if 0 < a \<and> a - 1 < st_max_frame_num v
       then (if b \<le> st_max_frame_num v then st_max_frame_num v - (b - a + 1) else a - 1) else st_max_frame_num v)"
proof -
  have l: "u64_of b - u64_of a + 1 = u64_of (b - a + 1)" by simp
  have less: "u64_of a - 1 < u64_of y \<longleftrightarrow> 0 < a \<and> a - 1 < y" if "0 \<le> y" "y < 2 ^ 30" for y
  proof (cases "a = 0")
    case True
    have "\<not> (- 1 :: u64) < u64_of y" by (simp add: not_less)
    with True show ?thesis by simp
  next
    case False
    have "u64_of a - 1 = u64_of (a - 1)" by simp
    then show ?thesis using u64_of_less(1) [of "a - 1" y] False assms(1-3) that by simp
  qed
  have sub: "int_of_u64 (u64_of y - u64_of (b - a + 1)) = y - (b - a + 1)" if "b - a + 1 \<le> y" "y < 2 ^ 30" for y
    using int_of_u64_of [of "y - (b - a + 1)"] assms(2) that by simp
  have a1: "int_of_u64 (u64_of a - 1) = a - 1" if "0 < a" using int_of_u64_of [of "a - 1"] that assms(2,3) by simp
  have a0: "int_of_u64 (u64_of a) = a" using int_of_u64_of [of a] assms(1-3) by simp
  note o = u64_of_less [of a "st_current_frame_num v"] u64_of_less [of "st_current_frame_num v" b]
    u64_of_less [of b "st_min_frame_num v"] u64_of_less [of b "st_max_frame_num v"]
  show "st_current_frame_num (delete_bounds (u64_of a) (u64_of b) v) =
      (if a \<le> st_current_frame_num v then (if st_current_frame_num v \<le> b then a else st_current_frame_num v - (b - a + 1))
       else st_current_frame_num v)"
    unfolding delete_bounds_def l Let_def using o sub [of "st_current_frame_num v"] a0 assms by auto
  show "st_min_frame_num (delete_bounds (u64_of a) (u64_of b) v) =
      (if 0 < a \<and> a - 1 < st_min_frame_num v
       then (if b < st_min_frame_num v then st_min_frame_num v - (b - a + 1) else a) else st_min_frame_num v)"
    unfolding delete_bounds_def l Let_def using o sub [of "st_min_frame_num v"] less [of "st_min_frame_num v"] a0 assms by auto
  show "st_max_frame_num (delete_bounds (u64_of a) (u64_of b) v) =
      (if 0 < a \<and> a - 1 < st_max_frame_num v
       then (if b \<le> st_max_frame_num v then st_max_frame_num v - (b - a + 1) else a - 1) else st_max_frame_num v)"
    unfolding delete_bounds_def l Let_def using o sub [of "st_max_frame_num v"] less [of "st_max_frame_num v"] a1 assms by auto
qed

subsection \<open>The state of an edit\<close>

text \<open>The list at \<open>e\<close> holds \<open>xs\<close>, its last frame is the last one that can be reached, and the bounds are frame numbers.\<close>

definition edit_env :: "(u64 \<Rightarrow> bool) \<Rightarrow> veejay \<Rightarrow> addr \<Rightarrow> u64 list \<Rightarrow> bool" where
  "edit_env alloc v e xs \<longleftrightarrow> (\<forall>n. alloc n) \<and> adm_ok (vi_adm v) \<and> uc_sample_id v \<noteq> SAMPLE_MAX_SAMPLES \<and> \<not> vi_dummy v \<and>
     0 \<le> st_min_frame_num v \<and> st_min_frame_num v < 2 ^ 30 \<and> 0 \<le> st_max_frame_num v \<and> st_max_frame_num v < 2 ^ 30 \<and>
     0 \<le> st_current_frame_num v \<and> st_current_frame_num v < 2 ^ 30 \<and>
     (\<exists>el. ad_els (vi_adm v) e = Some el \<and> frames_are el xs \<and> el_total_frames el = u64_of (int (length xs) - 1))"

lemma edit_envE:
  assumes "edit_env alloc v e xs"
  obtains el where "ad_els (vi_adm v) e = Some el" "frames_are el xs" "el_total_frames el = u64_of (int (length xs) - 1)"
    "\<forall>n. alloc n" "adm_ok (vi_adm v)" "uc_sample_id v \<noteq> SAMPLE_MAX_SAMPLES" "\<not> vi_dummy v"
    "0 \<le> st_min_frame_num v" "st_min_frame_num v < 2 ^ 30" "0 \<le> st_max_frame_num v" "st_max_frame_num v < 2 ^ 30"
    "0 \<le> st_current_frame_num v" "st_current_frame_num v < 2 ^ 30"
  using assms by (auto simp: edit_env_def)

lemma delete_in_env:
  assumes "edit_env alloc v e xs" "0 \<le> a" "a \<le> b" "b < int (length xs)"
  obtains el' where "veejay_edit_delete v e a b = Some (1, put_el e el' (delete_bounds (u64_of a) (u64_of b) v))"
    "frames_are el' (cut_out (nat a) (nat b) xs)" "el_total_frames el' = u64_of (int (length (cut_out (nat a) (nat b) xs)) - 1)"
    "edit_env alloc (put_el e el' (delete_bounds (u64_of a) (u64_of b) v)) e (cut_out (nat a) (nat b) xs)"
proof -
  obtain el where en: "ad_els (vi_adm v) e = Some el" "frames_are el xs" "el_total_frames el = u64_of (int (length xs) - 1)"
    "\<forall>n. alloc n" "adm_ok (vi_adm v)" "uc_sample_id v \<noteq> SAMPLE_MAX_SAMPLES" "\<not> vi_dummy v"
    "0 \<le> st_min_frame_num v" "st_min_frame_num v < 2 ^ 30" "0 \<le> st_max_frame_num v" "st_max_frame_num v < 2 ^ 30"
    "0 \<le> st_current_frame_num v" "st_current_frame_num v < 2 ^ 30" by (rule edit_envE [OF assms(1)])
  let ?t = "int (length xs) - 1" and ?ys = "cut_out (nat a) (nat b) xs" and ?v = "delete_bounds (u64_of a) (u64_of b) v"
  obtain el' where d: "veejay_edit_delete v e a b = Some (1, put_el e el' ?v)" "frames_are el' ?ys"
    "el_total_frames el' = u64_of (?t - (b - a + 1))"
    using edit_delete_frames [OF en(1-3) _ assms(2,3) _ en(7)] assms(4) by auto
  have "nat a \<le> nat b" "nat b < length xs" using assms(2-4) by linarith+
  then have l: "int (length ?ys) = int (length xs) - (b - a + 1)"
    using cut_put(3) [of "nat a" "nat b" xs] assms(2,3) by linarith
  have tot: "el_total_frames el' = u64_of (int (length ?ys) - 1)" unfolding d(3) l by (simp add: algebra_simps)
  have b30: "b < 2 ^ 30" using assms(4) en(2) by (auto simp: frames_are_def)
  note db = delete_bounds_int [OF assms(2,3) b30 en(8-13)]
  have keep: "vi_dummy ?v = vi_dummy v" "uc_sample_id ?v = uc_sample_id v" by (simp_all add: delete_bounds_def Let_def)
  have ok: "adm_ok (vi_adm (put_el e el' ?v))" using side_upd(4) [OF en(5)] by (simp add: put_el_def side_def)
  have "0 \<le> st_min_frame_num ?v \<and> st_min_frame_num ?v < 2 ^ 30" unfolding db(2) using en(8,9) assms(2,3) b30 by simp
  moreover have "0 \<le> st_max_frame_num ?v \<and> st_max_frame_num ?v < 2 ^ 30" unfolding db(3) using en(10,11) assms(2,3) b30 by simp
  moreover have "0 \<le> st_current_frame_num ?v \<and> st_current_frame_num ?v < 2 ^ 30" unfolding db(1) using en(12,13) assms(2,3) b30 by simp
  ultimately have "edit_env alloc (put_el e el' ?v) e ?ys"
    using en(4,6,7) keep ok d(2) tot by (simp add: edit_env_def) (simp add: put_el_def)
  then show ?thesis using that d(1,2) tot by blast
qed

lemma cut_in_env:
  assumes "edit_env alloc v e xs" "0 \<le> a" "a \<le> b" "b < int (length xs)"
  obtains v' where "veejay_edit_cut alloc v e a b = Some (1, v')" "edit_env alloc v' e (cut_out (nat a) (nat b) xs)"
    "st_save_list v' = Some (map Some (slice (nat a) (nat b) xs))" "st_save_list_len v' = u64_of (int (length (slice (nat a) (nat b) xs)))"
proof -
  obtain el where en: "ad_els (vi_adm v) e = Some el" "frames_are el xs" "\<forall>n. alloc n"
    by (rule edit_envE [OF assms(1)])
  let ?w = "v\<lparr>st_save_list := Some (map Some (slice (nat a) (nat b) xs)), st_save_list_len := u64_of (b - a + 1)\<rparr>"
  note c = edit_copy_frames [OF en(1,2) assms(2-4) en(3)]
  have "edit_env alloc ?w e xs" using assms(1) by (simp add: edit_env_def)
  then obtain el' where d: "veejay_edit_delete ?w e a b = Some (1, put_el e el' (delete_bounds (u64_of a) (u64_of b) ?w))"
    "edit_env alloc (put_el e el' (delete_bounds (u64_of a) (u64_of b) ?w)) e (cut_out (nat a) (nat b) xs)"
    by (rule delete_in_env [OF _ assms(2-4)])
  let ?v = "put_el e el' (delete_bounds (u64_of a) (u64_of b) ?w)"
  have run: "veejay_edit_cut alloc v e a b = Some (1, ?v)"
    using en(1) frames_areE [OF en(2)] c d(1) by (auto simp: veejay_edit_cut_def)
  have "nat a \<le> nat b" "nat b < length xs" using assms(2-4) by linarith+
  then have "int (length (slice (nat a) (nat b) xs)) = b - a + 1" using cut_put(2) [of "nat a" "nat b" xs] assms(2,3) by linarith
  then show ?thesis
    using that [OF run d(2)] by (simp add: put_el_def delete_bounds_def Let_def)
qed

lemma paste_in_env:
  assumes "edit_env alloc v e xs" "st_save_list v = Some (map Some ys)" "st_save_list_len v = u64_of (int (length ys))" "ys \<noteq> []"
    "int (length xs + length ys) < 2 ^ 30" "1 \<le> p" "p < int (length xs)"
  obtains v' el' where "veejay_edit_paste alloc v e p = Some (1, v')" "ad_els (vi_adm v') = (ad_els (vi_adm v))(e \<mapsto> el')"
    "frames_are el' (put_in (nat p) ys xs)" "el_total_frames el' = u64_of (int (length xs + length ys) - 2)"
    "st_current_frame_num v' = st_current_frame_num v"
proof -
  obtain el where en: "ad_els (vi_adm v) e = Some el" "frames_are el xs" "el_total_frames el = u64_of (int (length xs) - 1)"
    "\<forall>n. alloc n" "adm_ok (vi_adm v)" "uc_sample_id v \<noteq> SAMPLE_MAX_SAMPLES" "\<not> vi_dummy v"
    "0 \<le> st_min_frame_num v" "st_min_frame_num v < 2 ^ 30" "0 \<le> st_max_frame_num v" "st_max_frame_num v < 2 ^ 30"
    "0 \<le> st_current_frame_num v" "st_current_frame_num v < 2 ^ 30" by (rule edit_envE [OF assms(1)])
  have s: "st_save_list v = Some (map Some ys @ [])" using assms(2) by simp
  show ?thesis
    by (rule edit_paste_frames [OF en(1-3) s assms(3-7) en(4-6) _ _ en(8-11)]) (use en(12,13) that in auto)
qed

subsection \<open>Example state\<close>

definition el_of :: "u64 list \<Rightarrow> editlist" where
  "el_of xs = (vj_el_dummy 0 0 (CHR ''p'') 320 240 25 0)
     \<lparr>el_is_empty := 0, el_frame_list := Some (map Some xs), el_video_frames := int (length xs),
      el_total_frames := u64_of (int (length xs) - 1)\<rparr>"

definition vj_edit :: "u64 list \<Rightarrow> veejay" where
  "vj_edit xs = \<lparr>vi_adm = adm_start\<lparr>ad_els := [1 \<mapsto> el_of xs], ad_next := 2\<rparr>, vi_edit_list = 1, vi_current_edit_list = Some 1, vi_sfd = 0,
     vi_no_caching = True, vi_continuous = 1, vi_last_sample_id = 0, vi_last_tag_id = 0, vi_nstreams = 0, vi_font = False,
     vi_font_dict = None, vi_composite = False, vi_backing = None, vi_follow_run = 0, vi_follow_now = (0, 0),
     vi_track_dup = 0, vi_rands = 0, uc_playback_mode = VJ_PLAYBACK_MODE_PLAIN, uc_sample_id = 0, uc_direction = 1,
     uc_sample_start = 0, uc_sample_end = 0, uc_port = 3490, seq_active = 0, seq_current = 0,
     seq_samples = replicate 101 0, st_min_frame_num = 0, st_max_frame_num = int (length xs) - 1, st_current_frame_num = 0,
     st_current_playback_speed = 1, st_first_frame = 1, st_simple_frame_dup = 0, st_hold_pos = 0,
     st_hold_resume = 0, st_hold_status = 0, st_sample_restart = 0, st_composite = 0, st_save_list = None,
     st_save_list_len = 0, st_state = 2, st_randplayer = \<lparr>rp_mode = 0, rp_timer = 0, rp_min_delay = 0, rp_max_delay = 0\<rparr>,
     st_cycle_count = (0, 0), vi_dummy = False, vi_ctl = ctl_zero\<rparr>"

lemma vj_edit_env:
  assumes "xs \<noteq> []" "int (length xs) < 2 ^ 30"
  shows "edit_env (\<lambda>_. True) (vj_edit xs) 1 xs"
proof -
  have "adm_ok (adm_start\<lparr>ad_els := [1 \<mapsto> el_of xs], ad_next := 2\<rparr>)"
    using adm_start_ok(1) unfolding adm_ok_def by (auto simp: hash_of_def adm_start_def sample_init_def)
  moreover have "frames_are (el_of xs) xs"
    by (rule frames_areI [where slack = "[]"]) (use assms in \<open>simp_all add: el_of_def\<close>)
  moreover have "0 < length xs" using assms(1) by simp
  ultimately show ?thesis using assms(2)
    by (simp add: edit_env_def vj_edit_def SAMPLE_MAX_SAMPLES_def) (simp add: el_of_def)
qed

subsection \<open>Properties\<close>

text \<open>
  C24. Deleting frames. Deleting from \<open>a\<close> to \<open>b\<close> leaves the frames before and after in their order, the last frame that
  can be reached is the last one left, other lists stay as they are, and a position on a frame that is kept is on the
  same frame afterwards; a position on a deleted frame goes to the place of the deletion.
\<close>

theorem edit_delete_frame_shown:
  assumes "edit_env alloc v e xs" "0 \<le> a" "a \<le> b" "b < int (length xs)"
  shows "\<exists>v' el'. veejay_edit_delete v e a b = Some (1, v') \<and> ad_els (vi_adm v') = (ad_els (vi_adm v))(e \<mapsto> el') \<and>
    frames_are el' (take (nat a) xs @ drop (Suc (nat b)) xs) \<and>
    el_total_frames el' = u64_of (int (length xs) - (b - a + 1) - 1) \<and>
    (let cur = st_current_frame_num v; cur' = st_current_frame_num v'
     in if a \<le> cur \<and> cur \<le> b then cur' = a
        else cur < int (length xs) \<longrightarrow> (take (nat a) xs @ drop (Suc (nat b)) xs) ! nat cur' = xs ! nat cur)"
proof -
  obtain el' where d: "veejay_edit_delete v e a b = Some (1, put_el e el' (delete_bounds (u64_of a) (u64_of b) v))"
    "frames_are el' (cut_out (nat a) (nat b) xs)" "el_total_frames el' = u64_of (int (length (cut_out (nat a) (nat b) xs)) - 1)"
    by (rule delete_in_env [OF assms])
  obtain el where en: "frames_are el xs" "0 \<le> st_min_frame_num v" "st_min_frame_num v < 2 ^ 30" "0 \<le> st_max_frame_num v"
    "st_max_frame_num v < 2 ^ 30" "0 \<le> st_current_frame_num v" "st_current_frame_num v < 2 ^ 30"
    by (rule edit_envE [OF assms(1)])
  have b30: "b < 2 ^ 30" using assms(4) en(1) by (auto simp: frames_are_def)
  let ?v = "put_el e el' (delete_bounds (u64_of a) (u64_of b) v)" and ?cur = "st_current_frame_num v"
  have cur: "st_current_frame_num ?v = (if a \<le> ?cur then (if ?cur \<le> b then a else ?cur - (b - a + 1)) else ?cur)"
    using delete_bounds_int(1) [OF assms(2,3) b30 en(2-7)] by (simp add: put_el_def)
  have ab: "nat a \<le> nat b" "nat b < length xs" using assms(2-4) by linarith+
  have len: "int (length (cut_out (nat a) (nat b) xs)) = int (length xs) - (b - a + 1)"
    using cut_put(3) [OF ab] assms(2,3) ab by linarith
  have "?cur < a \<Longrightarrow> (take (nat a) xs @ drop (Suc (nat b)) xs) ! nat ?cur = xs ! nat ?cur"
    using assms(2-4) en(6) by (simp add: nth_append)
  moreover have "(take (nat a) xs @ drop (Suc (nat b)) xs) ! nat (?cur - (b - a + 1)) = xs ! nat ?cur"
    if "b < ?cur" "?cur < int (length xs)"
  proof -
    have "nat (?cur - (b - a + 1)) = nat a + (nat ?cur - Suc (nat b))" using assms(2,3) that by linarith
    moreover have "Suc (nat b) + (nat ?cur - Suc (nat b)) = nat ?cur" using assms(2,3) that by linarith
    moreover have "(take (nat a) xs @ drop (Suc (nat b)) xs) ! (nat a + n) = xs ! (Suc (nat b) + n)" for n
      using nth_append_length_plus [of "take (nat a) xs" "drop (Suc (nat b)) xs" n] ab by simp
    ultimately show ?thesis by metis
  qed
  ultimately have pos: "let cur = ?cur; cur' = st_current_frame_num ?v
     in if a \<le> cur \<and> cur \<le> b then cur' = a
        else cur < int (length xs) \<longrightarrow> (take (nat a) xs @ drop (Suc (nat b)) xs) ! nat cur' = xs ! nat cur"
    unfolding Let_def cur by auto
  have "ad_els (vi_adm ?v) = (ad_els (vi_adm v))(e \<mapsto> el')" by (simp add: put_el_def)
  then show ?thesis using d(1) d(2) [unfolded cut_out_def] d(3) [unfolded len] pos by blast
qed

theorem edit_delete_frame_shown_witness:
  "\<exists>v' el'. veejay_edit_delete (vj_edit [10, 11, 12, 13]) 1 1 2 = Some (1, v') \<and> ad_els (vi_adm v') 1 = Some el' \<and> frames_are el' [10, 13]"
proof -
  have e: "edit_env (\<lambda>_. True) (vj_edit [10, 11, 12, 13]) 1 [10, 11, 12, 13]" by (rule vj_edit_env) simp_all
  from edit_delete_frame_shown [OF e, of 1 2] show ?thesis by (auto simp: eval_nat_numeral)
qed





text \<open>
  Pasting at the start loses the first frame. The loop that makes room stops before frame 0, so the pasted frames
  overwrite it, and what follows them is another frame, or memory that was never written, instead of it.
\<close>

theorem paste_at_start_loses_first:
  assumes "edit_env alloc v e xs" "xs \<noteq> []" "st_save_list v = Some (map Some ys)" "st_save_list_len v = u64_of (int (length ys))"
    "ys \<noteq> []" "int (length xs + length ys) < 2 ^ 30" "length ys < length xs"
  shows "\<exists>v' el'. veejay_edit_paste alloc v e 0 = Some (1, v') \<and> ad_els (vi_adm v') e = Some el' \<and>
    el_frame_list el' = Some (map Some (ys @ xs ! length ys # tl xs))"
proof -
  obtain el where en: "ad_els (vi_adm v) e = Some el" "frames_are el xs" "el_total_frames el = u64_of (int (length xs) - 1)"
    "\<forall>n. alloc n" "adm_ok (vi_adm v)" "uc_sample_id v \<noteq> SAMPLE_MAX_SAMPLES" "\<not> vi_dummy v"
    "0 \<le> st_min_frame_num v" "st_min_frame_num v < 2 ^ 30" "0 \<le> st_max_frame_num v" "st_max_frame_num v < 2 ^ 30"
    "0 \<le> st_current_frame_num v" "st_current_frame_num v < 2 ^ 30" by (rule edit_envE [OF assms(1)])
  have s: "st_save_list v = Some (map Some ys @ [])" using assms(3) by simp
  obtain v' el' g where "veejay_edit_paste alloc v e 0 = Some (1, v')" "ad_els (vi_adm v') e = Some el'"
    "el_frame_list el' = Some (map Some ys @ g # map Some (tl xs))" "length ys < length xs \<Longrightarrow> g = Some (xs ! length ys)"
    by (rule edit_paste_first [OF en(1-3) s assms(4-6,2) en(4-6) _ _ en(8-11)]) (use en(12,13) in auto)
  then show ?thesis using assms(7) by auto
qed

theorem paste_at_start_loses_first_witness:
  "\<exists>v' el'. veejay_edit_paste (\<lambda>_. True) ((vj_edit [10, 11, 12])\<lparr>st_save_list := Some [Some 20], st_save_list_len := 1\<rparr>) 1 0 = Some (1, v') \<and>
     ad_els (vi_adm v') 1 = Some el' \<and> el_frame_list el' = Some [Some 20, Some 11, Some 11, Some 12]"
proof -
  let ?v = "(vj_edit [10, 11, 12])\<lparr>st_save_list := Some [Some 20], st_save_list_len := 1\<rparr>"
  have "edit_env (\<lambda>_. True) (vj_edit [10, 11, 12]) 1 [10, 11, 12]" by (rule vj_edit_env) simp_all
  then have e: "edit_env (\<lambda>_. True) ?v 1 [10, 11, 12]" by (simp add: edit_env_def)
  from paste_at_start_loses_first [OF e, of "[20]"] show ?thesis by simp
qed

text \<open>
  Pasting into an empty list writes outside the array. An empty list counts two frames; the array is made for the
  pasted frames alone, but the loop that makes room still moves the frames the list is said to have.
\<close>

theorem paste_into_empty_out_of_bounds:
  assumes "ad_els (vi_adm v) e = Some el" "el_is_empty el \<noteq> 0" "el_total_frames el = u64_of t" "1 \<le> t" "t < 2 ^ 30"
    "st_save_list v = Some save" "st_save_list_len v = u64_of n" "1 \<le> n" "n < 2 ^ 30" "\<forall>n. alloc n"
  shows "veejay_edit_paste alloc v e destination = None"
proof -
  define L T where "L = u64_of n" and "T = u64_of t"
  have u: "unat L = nat n" "unat T = nat t" using unat_u64_of [of n] unat_u64_of [of t] assms(4,5,8,9) by (simp_all add: L_def T_def)
  have "unat (L * 8) = unat (u64_of (n * 8))" by (simp add: L_def)
  also have "\<dots> = nat (n * 8)" using assms(8,9) by (intro unat_u64_of) simp_all
  finally have cells: "unat (L * 8) div 8 = nat n" using assms(8) by (simp add: nat_mult_distrib)
  have "rounds 1 T = Suc (nat t - 1)" using rounds_nat [of 1 T] u(2) assms(4) by (simp add: word_le_nat_alt)
  moreover have "unat (T + L) = nat t + nat n" using u assms(4,5,8,9) by (simp add: unat_word_ariths)
  ultimately have "shift_up (buf_realloc (el_frames el) (nat n)) T L (rounds 1 T) = None"
    by (simp add: buf_get_def buf_put_def)
  moreover have "L \<noteq> 0" using u(1) assms(8) by (intro notI) simp
  ultimately show ?thesis
    using assms(1,2,6,10) cells by (simp add: veejay_edit_paste_def Let_def assms(3,7) [folded L_def T_def])
qed

theorem paste_into_empty_out_of_bounds_witness:
  "veejay_edit_paste (\<lambda>_. True) (put_el 1 (vj_el_dummy 0 0 (CHR ''p'') 320 240 25 0)
     ((vj_edit [10])\<lparr>st_save_list := Some [Some 20], st_save_list_len := 1\<rparr>)) 1 0 = None"
  by (rule paste_into_empty_out_of_bounds [where t = 1 and n = 1])
    (simp_all add: vj_el_dummy_def DUMMY_FRAMES_def, simp_all add: put_el_def)

end
