(* ===== verification/VimsArgs.thy ===== *)
theory VimsArgs
  imports EditOps
begin

text \<open>
  What the command handlers of \<open>veejay/vj-event.c\<close> share: how a handler reads its arguments (the macro \<open>P_A\<close>), the
  tests of the playback mode, and the identifiers that stand for the current and the newest sample or stream.

  \<^item> A handler is a function of the format of its event, the arguments it was called with, and the state.
  \<^item> \<open>cmd_env\<close> is what comes from outside: the environment of playback, rounding to \<open>float\<close>, memory for edited lists,
    the handlers of parts that are not modelled (\<open>ce_outside\<close>, by the name of the function), and \<open>ce_bundle\<close>, which runs
    a bundle of messages.
  \<^item> Messages to the log are left out, not so the functions that are called for their text.
\<close>

definition LAVPLAY_STATE_PAUSED :: int where "LAVPLAY_STATE_PAUSED = 1"
definition LAVPLAY_STATE_PLAYING :: int where "LAVPLAY_STATE_PLAYING = 2"
definition RANDTIMER_LENGTH :: int where "RANDTIMER_LENGTH = 0"

text \<open>The result of \<open>int\<close> arithmetic, which must not overflow.\<close>

definition c_int :: "int \<Rightarrow> int option" where
  "c_int x = (if - 2147483648 \<le> x \<and> x < 2147483648 then Some x else c_undefined)"

lemma c_int_Some [simp]: "- 2147483648 \<le> x \<Longrightarrow> x < 2147483648 \<Longrightarrow> c_int x = Some x"
  by (simp add: c_int_def)

subsection \<open>Arguments\<close>

text \<open>What \<open>va_arg\<close> finds: a pointer to a number, a string, or a null pointer.\<close>

datatype vims_arg = VInt int | VStr string | VNull

record cmd_env =
  ce_play :: play_env
  ce_flt :: "rat \<Rightarrow> rat"
  ce_alloc :: "u64 \<Rightarrow> bool"
  ce_bundle :: "string \<Rightarrow> veejay \<Rightarrow> veejay option"
  ce_outside :: "string \<Rightarrow> string option \<Rightarrow> vims_arg list \<Rightarrow> veejay \<Rightarrow> veejay option"

type_synonym vims_handler = "cmd_env \<Rightarrow> string option \<Rightarrow> vims_arg list \<Rightarrow> veejay \<Rightarrow> veejay option"

text \<open>
  The loop of \<open>P_A\<close> over the format: \<open>z\<close> counts the arguments and is compared with the number of the last command; a
  string goes to a buffer of \<open>m\<close> bytes, if the handler has one, and a number to the array \<open>args\<close>, which is empty when
  the handler passes a null pointer.
\<close>

fun p_a :: "nat option \<Rightarrow> int \<Rightarrow> string \<Rightarrow> vims_arg list \<Rightarrow> nat \<Rightarrow> int list \<Rightarrow> string option \<Rightarrow> (int list \<times> string option) option" where
  "p_a m known [] va z args s = Some (args, s)"
| "p_a m known (c # cs) va z args s =
     (if int z > known then Some (args, s)
      else if c = CHR ''s'' then
        (case va of
           VNull # va \<Rightarrow> p_a m known cs va (Suc z) args s
         | VStr t # va \<Rightarrow>
             (case m of
                None \<Rightarrow> null_deref
              | Some k \<Rightarrow> if length t < k then p_a m known cs va (Suc z) args (Some t) else out_of_bounds)
         | _ \<Rightarrow> c_undefined)
      else if c = CHR ''d'' then
        (case va of
           VInt x # va \<Rightarrow> do { args \<leftarrow> c_update args (int z) x; p_a m known cs va (Suc z) args s }
         | _ \<Rightarrow> null_deref)
      else p_a m known cs va z args s)"

text \<open>An array of \<open>n\<close> numbers is zeroed first; the format of an event without arguments is a null pointer.\<close>

definition P_A :: "nat \<Rightarrow> nat option \<Rightarrow> string option \<Rightarrow> vims_arg list \<Rightarrow> veejay \<Rightarrow> (int list \<times> string option) option" where
  "P_A n m fmt va v =
     (case fmt of
        None \<Rightarrow> null_deref
      | Some cs \<Rightarrow> p_a m (ct_last_args (vi_ctl v)) cs va 0 (replicate n 0) None)"

definition p_ints :: "nat \<Rightarrow> string option \<Rightarrow> vims_arg list \<Rightarrow> veejay \<Rightarrow> int list option" where
  "p_ints n fmt va v = map_option fst (P_A n None fmt va v)"

subsection \<open>Calls on the samples and streams\<close>

definition adm_do :: "(adm \<Rightarrow> ('r \<times> adm) option) \<Rightarrow> veejay \<Rightarrow> veejay option" where
  "adm_do f v = map_option snd (on_adm f v)"

definition tag_do :: "(adm \<Rightarrow> 'r \<times> adm) \<Rightarrow> veejay \<Rightarrow> veejay" where
  "tag_do f v = snd (on_adm_pure f v)"

definition set_ctl :: "(controls \<Rightarrow> controls) \<Rightarrow> veejay \<Rightarrow> veejay" where
  "set_ctl f v = v\<lparr>vi_ctl := f (vi_ctl v)\<rparr>"

definition chain_changed :: "veejay \<Rightarrow> veejay" where
  "chain_changed = set_ctl (ct_chain_changed_update (\<lambda>_. 1))"

subsection \<open>Modes\<close>

definition link_mode :: "veejay \<Rightarrow> int" where
  "link_mode v = ct_rmodes (vi_ctl v) (ct_current_link (vi_ctl v))"

definition SAMPLE_PLAYING :: "veejay \<Rightarrow> bool" where
  "SAMPLE_PLAYING v \<longleftrightarrow> uc_playback_mode v = VJ_PLAYBACK_MODE_SAMPLE \<or> link_mode v = VJ_PLAYBACK_MODE_SAMPLE"

definition STREAM_PLAYING :: "veejay \<Rightarrow> bool" where
  "STREAM_PLAYING v \<longleftrightarrow> uc_playback_mode v = VJ_PLAYBACK_MODE_TAG \<or> link_mode v = VJ_PLAYBACK_MODE_TAG"

definition PLAIN_PLAYING :: "veejay \<Rightarrow> bool" where
  "PLAIN_PLAYING v \<longleftrightarrow> uc_playback_mode v = VJ_PLAYBACK_MODE_PLAIN \<or> link_mode v = VJ_PLAYBACK_MODE_PLAIN"

lemmas playing_defs = SAMPLE_PLAYING_def STREAM_PLAYING_def PLAIN_PLAYING_def

definition vj_event_valid_mode :: "int \<Rightarrow> bool" where
  "vj_event_valid_mode mode \<longleftrightarrow>
     mode = VJ_PLAYBACK_MODE_SAMPLE \<or> mode = VJ_PLAYBACK_MODE_TAG \<or> mode = VJ_PLAYBACK_MODE_PLAIN"

text \<open>An identifier of 0 stands for what is played, -1 for the newest one.\<close>

definition or_current :: "veejay \<Rightarrow> int \<Rightarrow> int" where
  "or_current v a = (if a = 0 then uc_sample_id v else a)"

definition or_last :: "int \<Rightarrow> int \<Rightarrow> int" where
  "or_last n a = (if a = - 1 then n - 1 else a)"

definition sample_arg :: "veejay \<Rightarrow> int \<Rightarrow> int" where
  "sample_arg v a = or_last (sample_size (vi_adm v)) (or_current v a)"

definition stream_arg :: "veejay \<Rightarrow> int \<Rightarrow> int" where
  "stream_arg v a = or_last (vj_tag_size (vi_adm v)) (or_current v a)"

definition v_chi :: "int \<Rightarrow> bool" where
  "v_chi c \<longleftrightarrow> c < 0 \<or> c \<ge> int SAMPLE_MAX_EFFECTS"

definition stream_exists :: "veejay \<Rightarrow> int \<Rightarrow> bool" where
  "stream_exists v k \<longleftrightarrow> vj_tag_exists (vi_adm v) k \<noteq> 0"

definition if_sample :: "int \<Rightarrow> (veejay \<Rightarrow> veejay option) \<Rightarrow> veejay \<Rightarrow> veejay option" where
  "if_sample k f v = do { (e, v) \<leftarrow> on_adm (\<lambda>d. sample_exists d k) v; if e \<noteq> 0 then f v else Some v }"

definition vj_has_video :: "editlist \<Rightarrow> bool" where
  "vj_has_video el \<longleftrightarrow> el_is_empty el = 0 \<and> el_has_video el \<noteq> 0 \<and> el_video_frames el > 0"

text \<open>The subtitle renderer is prepared for the new bounds; without one the code follows a null pointer.\<close>

definition constrain_sample :: "veejay \<Rightarrow> int \<Rightarrow> veejay option" where
  "constrain_sample v n = do {
     (dict, v) \<leftarrow> on_adm (\<lambda>d. sample_get_dict d n) v;
     let v = (if vi_font v then v\<lparr>vi_font_dict := dict\<rparr> else v);
     v \<leftarrow> adm_do (\<lambda>d. sample_get_startFrame d n) v;
     v \<leftarrow> adm_do (\<lambda>d. sample_get_endFrame d n) v;
     if vi_font v then Some v else null_deref }"

definition constrain_stream :: "veejay \<Rightarrow> int \<Rightarrow> veejay option" where
  "constrain_stream v n = (if vi_font v then Some (v\<lparr>vi_font_dict := vj_tag_get_dict (vi_adm v) n\<rparr>) else null_deref)"

end
