(* ===== verification/EventPlay.thy ===== *)
theory EventPlay
  imports VimsArgs
begin

text \<open>
  The commands that choose what is played and control it (\<open>veejay/vj-event.c\<close>): modes, selection of samples and
  streams, speed and position, the random player, the sequence of samples, and the switches of the server. A command
  that does not apply in the current mode logs an error and leaves the state alone.
\<close>

subsection \<open>Switches of the server\<close>

text \<open>Commands that have no effect any more.\<close>

definition vj_event_none :: vims_handler where "vj_event_none env fmt va v = Some v"
definition vj_event_sample_mode :: vims_handler where "vj_event_sample_mode env fmt va v = Some v"
definition vj_event_misc_start_rec_auto :: vims_handler where "vj_event_misc_start_rec_auto env fmt va v = Some v"
definition vj_event_misc_start_rec :: vims_handler where "vj_event_misc_start_rec env fmt va v = Some v"
definition vj_event_misc_stop_rec :: vims_handler where "vj_event_misc_stop_rec env fmt va v = Some v"
definition vj_event_output_y4m_start :: vims_handler where "vj_event_output_y4m_start env fmt va v = Some v"
definition vj_event_output_y4m_stop :: vims_handler where "vj_event_output_y4m_stop env fmt va v = Some v"
definition vj_event_el_load_editlist :: vims_handler where "vj_event_el_load_editlist env fmt va v = Some v"

definition vj_event_sync_correction :: vims_handler where
  "vj_event_sync_correction env fmt va v = do {
     args \<leftarrow> p_ints 2 fmt va v;
     Some (if args ! 0 = 0 then set_ctl (ct_sync_correction_update (\<lambda>_. 0)) v
           else if args ! 0 = 1 then set_ctl (ct_sync_correction_update (\<lambda>_. 1)) v else v) }"

definition vj_event_bezerk :: vims_handler where
  "vj_event_bezerk env fmt va v = Some (set_ctl (ct_no_bezerk_update (\<lambda>b. if b \<noteq> 0 then 0 else 1)) v)"

fun break_caches :: "int list \<Rightarrow> veejay \<Rightarrow> veejay option" where
  "break_caches [] v = Some v"
| "break_caches (i # is) v = do {
     (e, v) \<leftarrow> on_adm (\<lambda>d. sample_get_editlist d i) v;
     d \<leftarrow> ad_break_cache e (vi_adm v);
     break_caches is (v\<lparr>vi_adm := d\<rparr>) }"

definition vj_event_no_caching :: vims_handler where
  "vj_event_no_caching env fmt va v = do {
     let v = v\<lparr>vi_no_caching := \<not> vi_no_caching v\<rparr>;
     v \<leftarrow> (if vi_no_caching v
           then do {
             d \<leftarrow> ad_break_cache (Some (vi_edit_list v)) (vi_adm v);
             break_caches [1..sample_size d - 2] (v\<lparr>vi_adm := d\<rparr>) }
           else do {
             d \<leftarrow> ad_setup_cache (vi_current_edit_list v) (vi_adm v);
             Some (v\<lparr>vi_adm := d\<rparr>) });
     let d = vi_adm v;
     Some (v\<lparr>vi_adm := d\<lparr>ad_elg := vj_el_set_caching (ad_elg d) (if vi_no_caching v then 1 else 0)\<rparr>\<rparr>) }"

definition vj_event_debug_level :: vims_handler where
  "vj_event_debug_level env fmt va v = Some (set_ctl (ct_verbose_update (\<lambda>b. if b \<noteq> 0 then 0 else 1)) v)"

definition vj_event_suspend :: vims_handler where
  "vj_event_suspend env fmt va v =
     Some (veejay_change_state (if st_state v = LAVPLAY_STATE_PAUSED then LAVPLAY_STATE_PLAYING else LAVPLAY_STATE_PAUSED) v)"

definition vj_event_play_norestart :: vims_handler where
  "vj_event_play_norestart env fmt va v = do {
     args \<leftarrow> p_ints 2 fmt va v;
     Some (if args ! 0 = 0 then v\<lparr>st_sample_restart := 0\<rparr>
           else if args ! 0 = 1 then v\<lparr>st_sample_restart := 1\<rparr> else v) }"

text \<open>Which sample or stream is meant is worked out twice when both kinds count as playing.\<close>

definition vj_event_sub_render :: vims_handler where
  "vj_event_sub_render env fmt va v = do {
     args \<leftarrow> p_ints 2 fmt va v;
     let a = args ! 0;
     (a, v) \<leftarrow> (if SAMPLE_PLAYING v
               then do {
                 let a = or_current v (or_last (sample_size (vi_adm v)) a);
                 (cur, v) \<leftarrow> on_adm (\<lambda>d. sample_get_subrender d a) v;
                 v \<leftarrow> adm_do (\<lambda>d. sample_set_subrender d a (if cur = 0 then 1 else 0)) v;
                 v \<leftarrow> adm_do (\<lambda>d. sample_get_subrender d a) v;
                 Some (a, v) }
               else Some (a, v));
     Some (if STREAM_PLAYING v
           then let a = or_last (vj_tag_size (vi_adm v)) (or_current v a)
                in tag_do (\<lambda>d. vj_tag_set_subrender d a (if vj_tag_get_subrender d a = 0 then 1 else 0)) v
           else v) }"

definition vj_event_set_rgb_parameter_type :: vims_handler where
  "vj_event_set_rgb_parameter_type env fmt va v = do {
     args \<leftarrow> p_ints 3 fmt va v;
     Some (if args ! 0 \<ge> 0 \<and> args ! 0 \<le> 3 then set_ctl (ct_rgb_conversion_update (\<lambda>_. args ! 0)) v else v) }"

definition vj_event_effect_set_bg :: vims_handler where
  "vj_event_effect_set_bg env fmt va v = Some (set_ctl (ct_take_bg_update (\<lambda>_. 1)) v)"

definition vj_event_feedback :: vims_handler where
  "vj_event_feedback env fmt va v = do {
     args \<leftarrow> p_ints 1 fmt va v;
     Some (if args ! 0 = 0 then set_ctl (ct_feedback_update (\<lambda>_. 0)) v
           else if args ! 0 = 1
           then set_ctl (ct_feedback_stage_update (\<lambda>_. 1)) (set_ctl (ct_feedback_update (\<lambda>_. 1)) v) else v) }"

definition vj_event_render_depth :: vims_handler where
  "vj_event_render_depth env fmt va v = do {
     args \<leftarrow> p_ints 1 fmt va v;
     Some (if args ! 0 = 2 then set_ctl (ct_fxdepth_update (\<lambda>b. if b = 1 then 0 else 1)) v
           else set_ctl (ct_fxdepth_update (\<lambda>_. if args ! 0 \<noteq> 0 then 1 else 0)) v) }"

definition vj_event_viewport_composition :: vims_handler where
  "vj_event_viewport_composition env fmt va v = Some v"

definition force_mode :: "int \<Rightarrow> veejay \<Rightarrow> veejay" where
  "force_mode m = set_ctl (ct_rmodes_update (\<lambda>modes i. if modes i = - 1000 then - 1000 else m))"

definition vj_event_offline_samples :: vims_handler where
  "vj_event_offline_samples env fmt va v = Some (force_mode VJ_PLAYBACK_MODE_SAMPLE v)"

definition vj_event_offline_tags :: vims_handler where
  "vj_event_offline_tags env fmt va v = Some (force_mode VJ_PLAYBACK_MODE_TAG v)"

definition vj_event_playmode_rule :: vims_handler where
  "vj_event_playmode_rule env fmt va v = Some (force_mode (- 1) v)"

subsection \<open>Choosing what is played\<close>

definition change_mode :: "cmd_env \<Rightarrow> int \<Rightarrow> int \<Rightarrow> veejay \<Rightarrow> veejay option" where
  "change_mode env pm k v = veejay_change_playback_mode (ce_play env) v pm k"

definition go_plain :: "cmd_env \<Rightarrow> veejay \<Rightarrow> veejay option" where
  "go_plain env v = do {
     el \<leftarrow> ad_els (vi_adm v) (vi_edit_list v);
     if vj_has_video el then change_mode env VJ_PLAYBACK_MODE_PLAIN 0 v else Some v }"

definition go_sample :: "cmd_env \<Rightarrow> int \<Rightarrow> veejay \<Rightarrow> veejay option" where
  "go_sample env k = if_sample k (change_mode env VJ_PLAYBACK_MODE_SAMPLE k)"

definition go_stream :: "cmd_env \<Rightarrow> int \<Rightarrow> veejay \<Rightarrow> veejay option" where
  "go_stream env k v = (if stream_exists v k then change_mode env VJ_PLAYBACK_MODE_TAG k v else Some v)"

definition vj_event_set_play_mode_go :: vims_handler where
  "vj_event_set_play_mode_go env fmt va v = do {
     args \<leftarrow> p_ints 2 fmt va v;
     if args ! 0 = VJ_PLAYBACK_MODE_PLAIN then go_plain env v
     else if args ! 0 = VJ_PLAYBACK_MODE_SAMPLE then go_sample env (sample_arg v (args ! 1)) v
     else if args ! 0 = VJ_PLAYBACK_MODE_TAG then go_stream env (stream_arg v (args ! 1)) v
     else Some v }"

definition vj_event_sample_select :: vims_handler where
  "vj_event_sample_select env fmt va v = do {
     args \<leftarrow> p_ints 1 fmt va v;
     go_sample env (sample_arg v (args ! 0)) v }"

definition vj_event_tag_select :: vims_handler where
  "vj_event_tag_select env fmt va v = do {
     args \<leftarrow> p_ints 1 fmt va v;
     go_stream env (stream_arg v (args ! 0)) v }"

text \<open>From the plain list to the sample or stream that was left, and between the last sample and the last stream.\<close>

definition switch_from_plain :: "cmd_env \<Rightarrow> int \<Rightarrow> veejay \<Rightarrow> (bool \<times> veejay) option" where
  "switch_from_plain env last_tag v = do {
     (e, v) \<leftarrow> on_adm (\<lambda>d. sample_exists d (vi_last_sample_id v)) v;
     if e \<noteq> 0 then do { v \<leftarrow> change_mode env VJ_PLAYBACK_MODE_SAMPLE (vi_last_sample_id v) v; Some (True, v) }
     else if stream_exists v (vi_last_tag_id v)
     then do { v \<leftarrow> change_mode env VJ_PLAYBACK_MODE_TAG (vi_last_tag_id v) v; Some (True, v) }
     else if sample_size (vi_adm v) - 1 \<le> 0 \<and> stream_exists v last_tag
     then do { v \<leftarrow> change_mode env VJ_PLAYBACK_MODE_TAG last_tag v; Some (True, v) }
     else Some (False, v) }"

definition vj_event_switch_sample_tag :: vims_handler where
  "vj_event_switch_sample_tag env fmt va v = do {
     let last_tag = max 1 (vj_tag_size (vi_adm v) - 1);
     let last_sample = max 1 (sample_size (vi_adm v) - 1);
     (done, v) \<leftarrow> (if \<not> STREAM_PLAYING v \<and> \<not> SAMPLE_PLAYING v then switch_from_plain env last_tag v else Some (False, v));
     if done then Some v
     else if SAMPLE_PLAYING v
     then if stream_exists v (vi_last_tag_id v) then change_mode env VJ_PLAYBACK_MODE_TAG (vi_last_tag_id v) v
          else go_stream env last_tag v
     else if STREAM_PLAYING v
     then do {
       (e, v) \<leftarrow> on_adm (\<lambda>d. sample_exists d (vi_last_sample_id v)) v;
       if e \<noteq> 0 then change_mode env VJ_PLAYBACK_MODE_SAMPLE (vi_last_sample_id v) v else go_sample env last_sample v }
     else Some v }"

definition vj_event_set_play_mode :: vims_handler where
  "vj_event_set_play_mode env fmt va v = do {
     args \<leftarrow> p_ints 1 fmt va v;
     let mode = args ! 0;
     if mode = VJ_PLAYBACK_MODE_SAMPLE then do {
       let last_id = sample_size (vi_adm v) - 1;
       if last_id = 0 then Some v
       else do {
         (e, v) \<leftarrow> on_adm (\<lambda>d. sample_exists d (vi_last_sample_id v)) v;
         let v = (if e = 0 then v\<lparr>uc_sample_id := last_id\<rparr> else v);
         go_sample env (uc_sample_id v) v } }
     else if mode = VJ_PLAYBACK_MODE_TAG then do {
       let last_id = vj_tag_size (vi_adm v) - 1;
       if last_id = 0 then Some v
       else do {
         let v = (if \<not> stream_exists v (vi_last_tag_id v) then v\<lparr>uc_sample_id := last_id\<rparr> else v);
         go_stream env (uc_sample_id v) v } }
     else if mode = VJ_PLAYBACK_MODE_PLAIN then go_plain env v
     else Some v }"

text \<open>The keys F1 to F12 choose in the bank of twelve identifiers that \<open>vj_event_select_bank\<close> chose.\<close>

definition vj_event_select_id :: vims_handler where
  "vj_event_select_id env fmt va v = do {
     args \<leftarrow> p_ints 2 fmt va v;
     k \<leftarrow> c_int (ct_sample_key (vi_ctl v) * 12 - 12 + args ! 0);
     if \<not> STREAM_PLAYING v then go_sample env k v else go_stream env k v }"

definition vj_event_select_bank :: vims_handler where
  "vj_event_select_bank env fmt va v = do {
     args \<leftarrow> p_ints 1 fmt va v;
     Some (if args ! 0 \<ge> 1 \<and> args ! 0 \<le> 9 then set_ctl (ct_sample_key_update (\<lambda>_. args ! 0)) v else v) }"

subsection \<open>Speed and position\<close>

definition set_speed :: "int \<Rightarrow> veejay \<Rightarrow> veejay option" where
  "set_speed speed v = map_option snd (veejay_set_speed v speed)"

definition set_frame :: "int \<Rightarrow> veejay \<Rightarrow> veejay option" where
  "set_frame n v = map_option snd (veejay_set_frame v n)"

definition vj_event_play_stop :: vims_handler where
  "vj_event_play_stop env fmt va v =
     (if \<not> STREAM_PLAYING v then set_speed (if st_current_playback_speed v = 0 then 1 else 0) v else Some v)"

definition vj_event_play_reverse :: vims_handler where
  "vj_event_play_reverse env fmt va v =
     (let speed = st_current_playback_speed v
      in if \<not> STREAM_PLAYING v then set_speed (if speed = 0 then - 1 else if speed > 0 then - speed else speed) v else Some v)"

definition vj_event_play_forward :: vims_handler where
  "vj_event_play_forward env fmt va v =
     (let speed = st_current_playback_speed v
      in if \<not> STREAM_PLAYING v then set_speed (if speed = 0 then 1 else if speed < 0 then - 1 * speed else speed) v else Some v)"

definition vj_event_play_speed :: vims_handler where
  "vj_event_play_speed env fmt va v =
     (if \<not> STREAM_PLAYING v then do { args \<leftarrow> p_ints 2 fmt va v; set_speed (args ! 0) v } else Some v)"

definition vj_event_hold_frame :: vims_handler where
  "vj_event_hold_frame env fmt va v =
     (if SAMPLE_PLAYING v \<or> PLAIN_PLAYING v
      then do {
        args \<leftarrow> p_ints 3 fmt va v;
        let a1 = (if args ! 1 \<le> 0 then 1 else args ! 1);
        let a2 = (if args ! 2 \<le> 0 then 1 else args ! 2);
        let a2 = (if a2 \<ge> 300 then 1 else a2);
        Some (snd (veejay_hold_frame v a1 a2)) }
      else Some v)"

definition vj_event_play_speed_kb :: vims_handler where
  "vj_event_play_speed_kb env fmt va v =
     (if \<not> STREAM_PLAYING v
      then do {
        args \<leftarrow> p_ints 2 fmt va v;
        speed \<leftarrow> c_abs (args ! 0);
        set_speed (if st_current_playback_speed v < 0 then - 1 * speed else speed) v }
      else Some v)"

definition vj_event_play_slow :: vims_handler where
  "vj_event_play_slow env fmt va v = do {
     args \<leftarrow> p_ints 1 fmt va v;
     if PLAIN_PLAYING v \<or> SAMPLE_PLAYING v
     then do {
       (r, v) \<leftarrow> veejay_set_framedup v (if args ! 0 \<le> 0 then 1 else args ! 0);
       if r \<noteq> 0 \<and> SAMPLE_PLAYING v then adm_do (\<lambda>d. sample_reset_loopcount d (uc_sample_id v)) v else Some v }
     else Some v }"

definition vj_event_set_frame :: vims_handler where
  "vj_event_set_frame env fmt va v =
     (if \<not> STREAM_PLAYING v
      then do {
        args \<leftarrow> p_ints 1 fmt va v;
        n \<leftarrow> (if args ! 0 = - 1
              then do { el \<leftarrow> vj_current_list v; Some (int32_of_long (uint (el_total_frames el))) }
              else Some (args ! 0));
        set_frame n v }
      else Some v)"

definition skip_by :: "(veejay \<Rightarrow> int \<Rightarrow> int option) \<Rightarrow> string option \<Rightarrow> vims_arg list \<Rightarrow> veejay \<Rightarrow> veejay option" where
  "skip_by to fmt va v = do {
     args \<leftarrow> p_ints 1 fmt va v;
     if \<not> STREAM_PLAYING v then do { n \<leftarrow> to v (args ! 0); set_frame n v } else Some v }"

definition vj_event_inc_frame :: vims_handler where
  "vj_event_inc_frame env = skip_by (\<lambda>v n. c_int (st_current_frame_num v + n))"

definition vj_event_dec_frame :: vims_handler where
  "vj_event_dec_frame env = skip_by (\<lambda>v n. c_int (st_current_frame_num v - n))"

text \<open>So many seconds of the list that is played, in \<open>float\<close>.\<close>

definition seconds :: "cmd_env \<Rightarrow> veejay \<Rightarrow> int \<Rightarrow> int option" where
  "seconds env v n = do {
     el \<leftarrow> vj_current_list v;
     c_int (c_trunc (ce_flt env (ce_flt env (of_int n) * el_video_fps el))) }"

definition vj_event_prev_second :: vims_handler where
  "vj_event_prev_second env = skip_by (\<lambda>v n. do { k \<leftarrow> seconds env v n; c_int (st_current_frame_num v - k) })"

definition vj_event_next_second :: vims_handler where
  "vj_event_next_second env = skip_by (\<lambda>v n. do { k \<leftarrow> seconds env v n; c_int (st_current_frame_num v + k) })"

definition vj_event_goto_end :: vims_handler where
  "vj_event_goto_end env fmt va v =
     (if STREAM_PLAYING v then Some v
      else do {
        v \<leftarrow> (if SAMPLE_PLAYING v
              then do { (n, v) \<leftarrow> on_adm (\<lambda>d. sample_get_endFrame d (uc_sample_id v)) v; set_frame n v } else Some v);
        if PLAIN_PLAYING v
        then do { el \<leftarrow> vj_current_list v; set_frame (int32_of_long (uint (el_total_frames el))) v } else Some v })"

definition to_start :: "veejay \<Rightarrow> veejay option" where
  "to_start v = do { (n, v) \<leftarrow> on_adm (\<lambda>d. sample_get_startFrame d (uc_sample_id v)) v; set_frame n v }"

definition vj_event_goto_start :: vims_handler where
  "vj_event_goto_start env fmt va v =
     (if STREAM_PLAYING v then Some v
      else do {
        v \<leftarrow> (if SAMPLE_PLAYING v then to_start v else Some v);
        if PLAIN_PLAYING v then set_frame 0 v else Some v })"

subsection \<open>Random player and sequence\<close>

definition vj_event_sample_rand_start :: vims_handler where
  "vj_event_sample_rand_start env fmt va v = do {
     args \<leftarrow> p_ints 2 fmt va v;
     let timer = (if args ! 0 = RANDTIMER_FRAME then RANDTIMER_FRAME else RANDTIMER_LENGTH);
     let v = v\<lparr>st_randplayer := (st_randplayer v)\<lparr>rp_timer := timer, rp_mode := RANDMODE_SAMPLE\<rparr>\<rparr>;
     vj_perform_randomize (ce_play env) v }"

definition vj_event_sample_rand_stop :: vims_handler where
  "vj_event_sample_rand_stop env fmt va v =
     Some (v\<lparr>st_randplayer := (st_randplayer v)\<lparr>rp_mode := RANDMODE_INACTIVE\<rparr>\<rparr>)"

text \<open>The search for a sample starts at the playing one, so it goes on only when that has been deleted.\<close>

fun next_sample_loop :: "nat \<Rightarrow> int \<Rightarrow> int \<Rightarrow> int \<Rightarrow> veejay \<Rightarrow> (int option \<times> veejay) option" where
  "next_sample_loop 0 s stop n v = Some (None, v)"
| "next_sample_loop (Suc m) s stop n v = do {
     (e, v) \<leftarrow> on_adm (\<lambda>d. sample_exists d n) v;
     if e \<noteq> 0 then Some (Some n, v)
     else if n + s > stop \<or> n + s < 1 then Some (None, v)
     else next_sample_loop m s stop (n + s) v }"

fun next_stream_loop :: "nat \<Rightarrow> int \<Rightarrow> int \<Rightarrow> adm \<Rightarrow> int option" where
  "next_stream_loop 0 stop n d = None"
| "next_stream_loop (Suc m) stop n d =
     (if vj_tag_exists d n \<noteq> 0 then Some n
      else if n + 1 > stop then None
      else next_stream_loop m stop (n + 1) d)"

definition play_next_in_sequence :: "cmd_env \<Rightarrow> int \<Rightarrow> veejay \<Rightarrow> veejay option" where
  "play_next_in_sequence env s v =
     (if seq_active v \<noteq> 0
      then do {
        n \<leftarrow> c_nth (seq_samples v) (max 0 (seq_current v + s));
        if_sample n (\<lambda>v. veejay_set_sample (ce_play env) v n) v }
      else Some v)"

definition play_next_sample :: "cmd_env \<Rightarrow> int \<Rightarrow> veejay \<Rightarrow> veejay option" where
  "play_next_sample env s v = do {
     let n = uc_sample_id v + s;
     (e, v) \<leftarrow> on_adm (\<lambda>d. sample_exists d n) v;
     if e \<noteq> 0 then veejay_set_sample (ce_play env) v n
     else do {
       let stop = sample_size (vi_adm v) - 1;
       (r, v) \<leftarrow> next_sample_loop (nat (\<bar>uc_sample_id v\<bar> + \<bar>stop\<bar> + 2)) s stop (uc_sample_id v) v;
       case r of None \<Rightarrow> Some v | Some n \<Rightarrow> veejay_set_sample (ce_play env) v n } }"

definition play_next_stream :: "cmd_env \<Rightarrow> veejay \<Rightarrow> veejay option" where
  "play_next_stream env v =
     (let n = uc_sample_id v + 1
      in if stream_exists v n then change_mode env VJ_PLAYBACK_MODE_TAG n v
         else let stop = vj_tag_size (vi_adm v) - 1
              in case next_stream_loop (nat (\<bar>stop\<bar> + 2)) stop 1 (vi_adm v) of
                   None \<Rightarrow> Some v | Some n \<Rightarrow> change_mode env VJ_PLAYBACK_MODE_TAG n v)"

definition vj_event_sample_next :: vims_handler where
  "vj_event_sample_next env fmt va v = do {
     let s = (if st_current_playback_speed v < 0 then - 1 else 1);
     v \<leftarrow> play_next_in_sequence env s v;
     let s = (if st_current_playback_speed v < 0 then - 1 else 1);
     if SAMPLE_PLAYING v then play_next_sample env s v
     else if STREAM_PLAYING v then play_next_stream env v
     else Some v }"

definition vj_event_sequencer_add_sample :: vims_handler where
  "vj_event_sequencer_add_sample env fmt va v = do {
     args \<leftarrow> p_ints 5 fmt va v;
     let seq = args ! 0;
     let k = args ! 1;
     if seq < 0 \<or> seq \<ge> MAX_SEQUENCES then Some v
     else if_sample k (\<lambda>v. do {
       xs \<leftarrow> c_update (seq_samples v) seq k;
       Some (set_ctl (ct_seq_size_update (\<lambda>n. if n < MAX_SEQUENCES then n + 1 else n)) (v\<lparr>seq_samples := xs\<rparr>)) }) v }"

definition vj_event_sequencer_del_sample :: vims_handler where
  "vj_event_sequencer_del_sample env fmt va v = do {
     args \<leftarrow> p_ints 5 fmt va v;
     let seq_it = args ! 0;
     if seq_it < 0 \<or> seq_it \<ge> MAX_SEQUENCES then Some v
     else do {
       s \<leftarrow> c_nth (seq_samples v) seq_it;
       if s \<noteq> 0 then do { xs \<leftarrow> c_update (seq_samples v) seq_it 0; Some (v\<lparr>seq_samples := xs\<rparr>) } else Some v } }"

definition vj_event_sample_sequencer_active :: vims_handler where
  "vj_event_sample_sequencer_active env fmt va v = do {
     args \<leftarrow> p_ints 5 fmt va v;
     if ct_seq_size (vi_ctl v) = 0 then Some v
     else if args ! 0 = 0 then Some (v\<lparr>seq_active := 0, seq_current := 0\<rparr>)
     else Some (v\<lparr>seq_active := 1\<rparr>) }"

end
