(* ===== verification/EventSample.thy ===== *)
theory EventSample
  imports EventPlay
begin

text \<open>
  The commands on samples (\<open>veejay/vj-event.c\<close>): making samples from the list that is played, their range, markers,
  loops, speed and title, copying and deleting them, and editing the frames of the sample that is played.
\<close>

subsection \<open>New samples\<close>

definition playing_list :: "veejay \<Rightarrow> addr option" where
  "playing_list v = (if SAMPLE_PLAYING v then vi_current_edit_list v else Some (vi_edit_list v))"

definition set_sample_list :: "addr \<Rightarrow> addr \<Rightarrow> veejay \<Rightarrow> veejay option" where
  "set_sample_list a el v = do {
     si \<leftarrow> ad_samples (vi_adm v) a;
     Some (v\<lparr>vi_adm := put_sample a (si\<lparr>si_edit_list := Some el\<rparr>) (vi_adm v)\<rparr>) }"

text \<open>The last position is the unsigned \<open>total_frames\<close>; with a copied list its address is stored in the new record.\<close>

definition vj_event_sample_new :: vims_handler where
  "vj_event_sample_new env fmt va v =
     (if \<not> PLAIN_PLAYING v \<and> \<not> SAMPLE_PLAYING v then Some v
      else do {
        args \<leftarrow> p_ints 2 fmt va v;
        e \<leftarrow> playing_list v;
        E \<leftarrow> ad_els (vi_adm v) e;
        let num_frames = int32_of_long (uint (el_total_frames E));
        let a = (if args ! 0 < 0 then int32_of_long (uc_sample_start v) else args ! 0);
        let b = (if args ! 1 = 0 then num_frames else args ! 1);
        if \<not> (a \<ge> 0 \<and> b > 0 \<and> a \<le> b \<and> a \<le> num_frames \<and> b \<le> num_frames) then Some v
        else do {
          (p, v) \<leftarrow> veejay_edit_copy_to_new (ce_alloc env) v e a b;
          case p of
            None \<Rightarrow> Some v
          | Some el \<Rightarrow> do {
              l \<leftarrow> ad_els (vi_adm v) el;
              (skel, v) \<leftarrow> on_adm (\<lambda>d. sample_skeleton_new d 0 (int32_of_long (uint (el_total_frames l)))) v;
              v \<leftarrow> (case skel of None \<Rightarrow> Some v | Some a \<Rightarrow> set_sample_list a el v);
              adm_do (\<lambda>d. sample_store d skel) v } } })"

definition vj_event_sample_start :: vims_handler where
  "vj_event_sample_start env fmt va v =
     Some (if SAMPLE_PLAYING v \<or> PLAIN_PLAYING v then v\<lparr>uc_sample_start := st_current_frame_num v\<rparr> else v)"

text \<open>
  In reverse the start and end change places once more, and a copy that would be shorter than one frame is refused. The
  bound is compared as an unsigned number.
\<close>

definition cut_sample :: "cmd_env \<Rightarrow> veejay \<Rightarrow> veejay option" where
  "cut_sample env v = do {
     let vstart = (if st_current_playback_speed v < 0 then uc_sample_end v else uc_sample_start v);
     let vend = (if st_current_playback_speed v < 0 then uc_sample_start v else uc_sample_end v);
     let vstart = (if vstart < 0 then 0 else vstart);
     cur \<leftarrow> vj_current_list v;
     let vend = (if u64_of vend > el_total_frames cur then sint (el_total_frames cur) else vend);
     e \<leftarrow> playing_list v;
     (p, v) \<leftarrow> veejay_edit_copy_to_new (ce_alloc env) v e vstart vend;
     case p of
       None \<Rightarrow> Some v
     | Some el \<Rightarrow> do {
         l \<leftarrow> ad_els (vi_adm v) el;
         (skel, v) \<leftarrow> on_adm (\<lambda>d. sample_skeleton_new d 0 (sint (el_total_frames l))) v;
         case skel of
           None \<Rightarrow> Some v
         | Some a \<Rightarrow> do {
             v \<leftarrow> set_sample_list a el (v\<lparr>uc_sample_start := uc_sample_end v\<rparr>);
             adm_do (\<lambda>d. sample_store d skel) v } } }"

definition vj_event_sample_end :: vims_handler where
  "vj_event_sample_end env fmt va v =
     (if PLAIN_PLAYING v \<or> SAMPLE_PLAYING v
      then do {
        let v = v\<lparr>uc_sample_end := st_current_frame_num v\<rparr>;
        let v = (if uc_sample_end v < uc_sample_start v
                 then v\<lparr>uc_sample_start := uc_sample_end v, uc_sample_end := uc_sample_start v\<rparr> else v);
        if uc_sample_end v > uc_sample_start v then cut_sample env v else Some v }
      else Some v)"

subsection \<open>Parameters\<close>

text \<open>\<open>if_playing_sample\<close>: the argument names a sample, in sample mode only; the others follow it.\<close>

definition on_sample :: "nat \<Rightarrow> string option \<Rightarrow> vims_arg list \<Rightarrow> (int \<Rightarrow> int list \<Rightarrow> veejay \<Rightarrow> veejay option) \<Rightarrow> veejay \<Rightarrow> veejay option" where
  "on_sample n fmt va f v = do {
     args \<leftarrow> p_ints n fmt va v;
     if \<not> SAMPLE_PLAYING v then Some v
     else let k = sample_arg v (args ! 0) in if_sample k (f k args) v }"

definition put_looptype :: "int \<Rightarrow> int \<Rightarrow> veejay \<Rightarrow> veejay option" where
  "put_looptype k lp v = do {
     v \<leftarrow> adm_do (\<lambda>d. sample_set_looptype d k lp) v;
     adm_do (\<lambda>d. sample_get_looptype d k) v }"

definition vj_event_sample_set_loop_type :: vims_handler where
  "vj_event_sample_set_loop_type env fmt va v = do {
     args \<leftarrow> p_ints 2 fmt va v;
     if \<not> SAMPLE_PLAYING v then Some v
     else do {
       let k = sample_arg v (args ! 0);
       if args ! 1 = - 1
       then if_sample k (\<lambda>v. do {
         (lp, v) \<leftarrow> on_adm (\<lambda>d. sample_get_looptype d k) v;
         put_looptype k (if lp = 2 then 1 else 2) v }) v
       else if args ! 1 \<ge> 0 \<and> args ! 1 \<le> 3 then if_sample k (put_looptype k (args ! 1)) v
       else Some v } }"

definition vj_event_sample_set_position :: vims_handler where
  "vj_event_sample_set_position env fmt va v = do {
     args \<leftarrow> p_ints 3 fmt va v;
     (entry, v) \<leftarrow> (if args ! 1 = - 1 then on_adm (\<lambda>d. sample_get_selected_entry d (uc_sample_id v)) v
                   else Some (args ! 1, v));
     v \<leftarrow> adm_do (\<lambda>d. sample_get_chain_source d (uc_sample_id v) entry) v;
     (cha, v) \<leftarrow> on_adm (\<lambda>d. sample_get_chain_channel d (uc_sample_id v) entry) v;
     (pos, v) \<leftarrow> on_adm (\<lambda>d. sample_get_offset d cha entry) v;
     pos \<leftarrow> c_int (pos + args ! 2);
     adm_do (\<lambda>d. sample_set_offset d cha entry pos) v }"

text \<open>Every entry of every sample that mixes in the given sample is moved on, within the range of that sample.\<close>

definition skip_entry :: "int \<Rightarrow> int \<Rightarrow> addr \<Rightarrow> nat \<Rightarrow> veejay \<Rightarrow> veejay option" where
  "skip_entry k n a j v = do {
     si \<leftarrow> ad_samples (vi_adm v) a;
     e \<leftarrow> c_nth (si_effect_chain si) (int j);
     if sc_effect_id e > 0 \<and> sc_source_type e = 0 \<and> sc_channel e = k
     then do {
       (start, v) \<leftarrow> on_adm (\<lambda>d. sample_get_startFrame d (sc_channel e)) v;
       (stop, v) \<leftarrow> on_adm (\<lambda>d. sample_get_endFrame d (sc_channel e)) v;
       off \<leftarrow> c_int (sc_frame_offset e + n);
       let len = stop - start;
       let off = (if off > len then len else off);
       let off = (if off < 0 then 0 else off);
       si \<leftarrow> ad_samples (vi_adm v) a;
       Some (v\<lparr>vi_adm := put_sample a (put_entry (int j) (e\<lparr>sc_frame_offset := off\<rparr>) si) (vi_adm v)\<rparr>) }
     else Some v }"

fun skip_entries :: "int \<Rightarrow> int \<Rightarrow> addr \<Rightarrow> nat list \<Rightarrow> veejay \<Rightarrow> veejay option" where
  "skip_entries k n a [] v = Some v"
| "skip_entries k n a (j # js) v = do { v \<leftarrow> skip_entry k n a j v; skip_entries k n a js v }"

fun skip_samples :: "int \<Rightarrow> int \<Rightarrow> int list \<Rightarrow> veejay \<Rightarrow> veejay option" where
  "skip_samples k n [] v = Some v"
| "skip_samples k n (i # is) v = do {
     (p, v) \<leftarrow> on_adm (\<lambda>d. sample_get d i) v;
     v \<leftarrow> (case p of None \<Rightarrow> Some v | Some a \<Rightarrow> skip_entries k n a [0..<SAMPLE_MAX_EFFECTS] v);
     skip_samples k n is v }"

definition vj_event_sample_skip_frame :: vims_handler where
  "vj_event_sample_skip_frame env fmt va v = do {
     args \<leftarrow> p_ints 2 fmt va v;
     let k = or_current v (or_last (sample_size (vi_adm v)) (args ! 0));
     skip_samples k (args ! 1) [1..sample_size (vi_adm v) - 1] v }"

definition vj_event_sample_set_speed :: vims_handler where
  "vj_event_sample_set_speed env fmt va v = do {
     args \<leftarrow> p_ints 2 fmt va v;
     let k = or_current v (or_last (sample_size (vi_adm v)) (args ! 0));
     adm_do (\<lambda>d. sample_set_speed d k (args ! 1)) v }"

definition vj_event_sample_set_marker_start :: vims_handler where
  "vj_event_sample_set_marker_start env fmt va = on_sample 2 fmt va (\<lambda>k args v. do {
     (r, v) \<leftarrow> on_adm (\<lambda>d. sample_get_el_position d k) v;
     if fst r \<noteq> 0 then adm_do (\<lambda>d. sample_set_marker_start d k (args ! 1)) v else Some v })"

definition vj_event_sample_set_marker_end :: vims_handler where
  "vj_event_sample_set_marker_end env fmt va = on_sample 2 fmt va (\<lambda>k args v. do {
     (r, v) \<leftarrow> on_adm (\<lambda>d. sample_get_el_position d k) v;
     if fst r \<noteq> 0
     then do {
       n \<leftarrow> c_int ((case snd r of None \<Rightarrow> 0 | Some (start, stop) \<Rightarrow> stop) - args ! 1);
       adm_do (\<lambda>d. sample_set_marker_end d k n) v }
     else Some v })"

definition vj_event_sample_set_marker :: vims_handler where
  "vj_event_sample_set_marker env fmt va = on_sample 3 fmt va (\<lambda>k args v. do {
     (r, v) \<leftarrow> on_adm (\<lambda>d. sample_get_el_position d k) v;
     if fst r \<noteq> 0 then adm_do (\<lambda>d. sample_set_marker d k (args ! 1) (args ! 2)) v else Some v })"

definition vj_event_sample_set_marker_clear :: vims_handler where
  "vj_event_sample_set_marker_clear env fmt va = on_sample 1 fmt va (\<lambda>k args. adm_do (\<lambda>d. sample_marker_clear d k))"

definition vj_event_sample_set_dup :: vims_handler where
  "vj_event_sample_set_dup env fmt va = on_sample 2 fmt va (\<lambda>k args v. do {
     let n = (if args ! 1 \<le> 0 then 1 else args ! 1);
     (r, v) \<leftarrow> on_adm (\<lambda>d. sample_set_framedup d k n) v;
     v \<leftarrow> (if r \<noteq> - 1 \<and> k = uc_sample_id v then map_option snd (veejay_set_framedup v n) else Some v);
     adm_do (\<lambda>d. sample_reset_loopcount d k) v })"

text \<open>A title is printed to an array of 24 bytes that the handler has on its stack.\<close>

definition vj_event_sample_set_descr :: vims_handler where
  "vj_event_sample_set_descr env fmt va v = do {
     (args, s) \<leftarrow> P_A 5 (Some SAMPLE_MAX_DESCR_LEN) fmt va v;
     if \<not> SAMPLE_PLAYING v then Some v
     else do {
       title \<leftarrow> s;
       adm_do (\<lambda>d. sample_set_description d (sample_arg v (args ! 0)) (Some title)) v } }"

text \<open>The loops are set for the sample that is played, whichever sample the command names.\<close>

definition vj_event_sample_set_num_loops :: vims_handler where
  "vj_event_sample_set_num_loops env fmt va v = do {
     args \<leftarrow> p_ints 2 fmt va v;
     if_sample (sample_arg v (args ! 0)) (\<lambda>v. do {
       (r, v) \<leftarrow> on_adm (\<lambda>d. sample_set_loops d (uc_sample_id v) (args ! 1)) v;
       if r \<noteq> 0 then adm_do (\<lambda>d. sample_get_loops d (uc_sample_id v)) v else Some v }) v }"

definition vj_event_sample_rel_start :: vims_handler where
  "vj_event_sample_rel_start env fmt va = on_sample 4 fmt va (\<lambda>k args v. do {
     (start, v) \<leftarrow> on_adm (\<lambda>d. sample_get_startFrame d k) v;
     s_start \<leftarrow> c_int (start + args ! 1);
     (stop, v) \<leftarrow> on_adm (\<lambda>d. sample_get_endFrame d k) v;
     s_end \<leftarrow> c_int (stop + args ! 2);
     (r, v) \<leftarrow> on_adm (\<lambda>d. sample_set_startframe d k s_start) v;
     if r = 0 then Some v
     else do {
       (r, v) \<leftarrow> on_adm (\<lambda>d. sample_set_endframe d k s_end) v;
       if r = 0 then Some v else constrain_sample v k } })"

definition vj_event_sample_set_start :: vims_handler where
  "vj_event_sample_set_start env fmt va v = do {
     args \<leftarrow> p_ints 2 fmt va v;
     if \<not> SAMPLE_PLAYING v then Some v
     else do {
       let k = sample_arg v (args ! 0);
       if k \<le> 0 then Some v
       else do {
         (stop, v) \<leftarrow> on_adm (\<lambda>d. sample_get_endFrame d k) v;
         if args ! 1 < stop
         then do {
           (r, v) \<leftarrow> on_adm (\<lambda>d. sample_set_startframe d k (args ! 1)) v;
           if r \<noteq> 0 then adm_do (\<lambda>d. sample_get_startFrame d k) v else Some v }
         else adm_do (\<lambda>d. sample_get_endFrame d k) v } } }"

text \<open>The end is compared with the start of the sample that is played, not of the one that is changed.\<close>

definition vj_event_sample_set_end :: vims_handler where
  "vj_event_sample_set_end env fmt va v = do {
     args \<leftarrow> p_ints 2 fmt va v;
     if \<not> SAMPLE_PLAYING v then Some v
     else do {
       let k = or_current v (args ! 0);
       (n, v) \<leftarrow> (if args ! 1 = - 1 then on_adm (\<lambda>d. sample_video_length d k) v else Some (args ! 1, v));
       if n \<le> 0 then Some v
       else do {
         (start, v) \<leftarrow> on_adm (\<lambda>d. sample_get_startFrame d (uc_sample_id v)) v;
         if n \<ge> start
         then do {
           (r, v) \<leftarrow> on_adm (\<lambda>d. sample_set_endframe d k n) v;
           if r \<noteq> 0
           then do { v \<leftarrow> constrain_sample v k; adm_do (\<lambda>d. sample_get_endFrame d k) v }
           else Some v }
         else Some v } } }"

subsection \<open>Deleting and copying\<close>

definition vj_event_sample_del :: vims_handler where
  "vj_event_sample_del env fmt va v = do {
     args \<leftarrow> p_ints 1 fmt va v;
     let k = args ! 0;
     if SAMPLE_PLAYING v \<and> uc_sample_id v = k then Some v
     else do {
       (r, v) \<leftarrow> on_adm (\<lambda>d. sample_del d k) v;
       if r \<noteq> 0
       then do {
         let (slots, rest) = (take (nat MAX_SEQUENCES) (seq_samples v), drop (nat MAX_SEQUENCES) (seq_samples v));
         let v = v\<lparr>seq_samples := map (\<lambda>s. if s = k then 0 else s) slots @ rest\<rparr>;
         adm_do (\<lambda>d. sample_verify_delete d k 0) v }
       else Some v } }"

definition vj_event_sample_copy :: vims_handler where
  "vj_event_sample_copy env fmt va v = do {
     args \<leftarrow> p_ints 1 fmt va v;
     if_sample (args ! 0) (adm_do (\<lambda>d. sample_copy d (args ! 0))) v }"

text \<open>What is played must not be a sample: the plain list is played when it has frames, else the first stream.\<close>

definition vj_event_sample_clear_all :: vims_handler where
  "vj_event_sample_clear_all env fmt va v = do {
     (go, v) \<leftarrow> (if SAMPLE_PLAYING v
                then do {
                  el \<leftarrow> ad_els (vi_adm v) (vi_edit_list v);
                  if vj_has_video el then do { v \<leftarrow> change_mode env VJ_PLAYBACK_MODE_PLAIN 0 v; Some (True, v) }
                  else if vj_tag_size (vi_adm v) > 0 then do { v \<leftarrow> change_mode env VJ_PLAYBACK_MODE_TAG 1 v; Some (True, v) }
                  else Some (False, v) }
                else Some (True, v));
     if \<not> go then Some v
     else do {
       d \<leftarrow> sample_del_all (vi_adm v);
       let v = v\<lparr>vi_adm := d\<rparr>;
       let v = (if vi_font v then v\<lparr>vi_font_dict := None\<rparr> else v);
       let rest = drop (nat MAX_SEQUENCES) (seq_samples v);
       Some (set_ctl (ct_seq_size_update (\<lambda>_. 0))
               (v\<lparr>seq_samples := replicate (nat MAX_SEQUENCES) 0 @ rest, seq_active := 0\<rparr>)) } }"

subsection \<open>Editing the sample that is played\<close>

text \<open>The list of the sample, when its frames can be edited.\<close>

definition editable_list :: "veejay \<Rightarrow> (addr option \<times> veejay) option" where
  "editable_list v = do {
     (r, v) \<leftarrow> on_adm (\<lambda>d. sample_usable_edl d (uc_sample_id v)) v;
     if r = 0 then Some (None, v) else on_adm (\<lambda>d. sample_get_editlist d (uc_sample_id v)) v }"

definition in_list :: "editlist \<Rightarrow> int \<Rightarrow> bool" where
  "in_list el n \<longleftrightarrow> \<not> (n < 0 \<or> u64_of n > el_total_frames el)"

text \<open>After editing, the sample covers its list and the subtitle renderer is prepared for it.\<close>

definition cover_list :: "veejay \<Rightarrow> veejay option" where
  "cover_list v = do {
     v \<leftarrow> adm_do (\<lambda>d. sample_set_startframe d (uc_sample_id v) 0) v;
     (n, v) \<leftarrow> on_adm (\<lambda>d. sample_video_length d (uc_sample_id v)) v;
     v \<leftarrow> adm_do (\<lambda>d. sample_set_endframe d (uc_sample_id v) n) v;
     constrain_sample v (uc_sample_id v) }"

definition edit_frames :: "(veejay \<Rightarrow> addr \<Rightarrow> int \<Rightarrow> int \<Rightarrow> (int \<times> veejay) option) \<Rightarrow> string option \<Rightarrow> vims_arg list \<Rightarrow> veejay \<Rightarrow> veejay option" where
  "edit_frames f fmt va v = do {
     args \<leftarrow> p_ints 2 fmt va v;
     if SAMPLE_PLAYING v
     then do {
       (p, v) \<leftarrow> editable_list v;
       case p of
         None \<Rightarrow> Some v
       | Some e \<Rightarrow> do {
           el \<leftarrow> ad_els (vi_adm v) e;
           if \<not> in_list el (args ! 0) \<or> \<not> in_list el (args ! 1) then Some v
           else do { (r, v) \<leftarrow> f v e (args ! 0) (args ! 1); cover_list v } } }
     else Some v }"

definition vj_event_el_cut :: vims_handler where
  "vj_event_el_cut env = edit_frames (veejay_edit_cut (ce_alloc env))"

definition vj_event_el_copy :: vims_handler where
  "vj_event_el_copy env = edit_frames (veejay_edit_copy (ce_alloc env))"

definition vj_event_el_del :: vims_handler where
  "vj_event_el_del env = edit_frames veejay_edit_delete"

text \<open>
  The frames up to and including the start are deleted, then those from the end, less the start, to the last one of
  what is left.
\<close>

definition vj_event_el_crop :: vims_handler where
  "vj_event_el_crop env fmt va v = do {
     args \<leftarrow> p_ints 2 fmt va v;
     let a = args ! 0;
     let b = args ! 1;
     if STREAM_PLAYING v \<or> PLAIN_PLAYING v then Some v
     else if SAMPLE_PLAYING v
     then do {
       (p, v) \<leftarrow> editable_list v;
       case p of
         None \<Rightarrow> Some v
       | Some e \<Rightarrow> do {
           el \<leftarrow> ad_els (vi_adm v) e;
           if \<not> in_list el a \<or> \<not> in_list el b \<or> b \<le> a then Some v
           else do {
             (s1, v) \<leftarrow> veejay_edit_delete v e 0 a;
             if s1 = 0 then Some v
             else do {
               el \<leftarrow> ad_els (vi_adm v) e;
               (s2, v) \<leftarrow> veejay_edit_delete v e (b - a) (sint (el_total_frames el));
               if s2 = 0 then Some v
               else do { v \<leftarrow> set_frame 0 v; cover_list v } } } } }
     else Some v }"

definition vj_event_el_paste_at :: vims_handler where
  "vj_event_el_paste_at env fmt va v = do {
     args \<leftarrow> p_ints 1 fmt va v;
     if STREAM_PLAYING v \<or> PLAIN_PLAYING v then Some v
     else if SAMPLE_PLAYING v
     then do {
       (p, v) \<leftarrow> editable_list v;
       case p of
         None \<Rightarrow> Some v
       | Some e \<Rightarrow> do {
           el \<leftarrow> ad_els (vi_adm v) e;
           if in_list el (args ! 0)
           then do { (r, v) \<leftarrow> veejay_edit_paste (ce_alloc env) v e (args ! 0); cover_list v }
           else Some v } }
     else Some v }"

end
