(* ===== verification/EventChain.thy ===== *)
theory EventChain
  imports EventSample
begin

text \<open>
  The commands on the chains of effects (\<open>veejay/vj-event.c\<close>). Most of them have a part for samples and one for streams,
  and both run when the mode of the link differs from what is played; the second part sees the arguments as the first
  one left them. \<open>sample_part\<close> and \<open>stream_part\<close> hold what these parts have in common: the identifier and the entry of
  the chain that are meant, the test of the entry, and the test that the sample or stream exists.
\<close>

definition vj_effect_get_description :: "fx_table \<Rightarrow> int \<Rightarrow> unit option" where
  "vj_effect_get_description T effect_id =
     (let entry = vj_effect_real_to_sequence effect_id
      in if entry > 0 then map_option (\<lambda>_. ()) (fx_entry T entry) else Some ())"

definition sample_part ::
  "(veejay \<Rightarrow> int \<Rightarrow> int) \<Rightarrow> bool \<Rightarrow> (int \<Rightarrow> int \<Rightarrow> veejay \<Rightarrow> (bool \<times> veejay) option) \<Rightarrow> int \<Rightarrow> int \<Rightarrow> veejay \<Rightarrow>
   (bool \<times> int \<times> int \<times> veejay) option" where
  "sample_part ident bounded f a c v =
     (if \<not> SAMPLE_PLAYING v then Some (True, a, c, v)
      else do {
        let a = ident v a;
        (c, v) \<leftarrow> (if c = - 1 then on_adm (\<lambda>d. sample_get_selected_entry d (uc_sample_id v)) v else Some (c, v));
        if bounded \<and> v_chi c then Some (False, a, c, v)
        else do {
          (e, v) \<leftarrow> on_adm (\<lambda>d. sample_exists d a) v;
          (go, v) \<leftarrow> (if e \<noteq> 0 then f a c v else Some (True, v));
          Some (go, a, c, v) } })"

definition stream_part ::
  "(veejay \<Rightarrow> int \<Rightarrow> int) \<Rightarrow> bool \<Rightarrow> (int \<Rightarrow> int \<Rightarrow> veejay \<Rightarrow> veejay option) \<Rightarrow> int \<Rightarrow> int \<Rightarrow> veejay \<Rightarrow> veejay option" where
  "stream_part ident bounded g a c v =
     (if \<not> STREAM_PLAYING v then Some v
      else let a = ident v a;
               c = (if c = - 1 then vj_tag_get_selected_entry (vi_adm v) (uc_sample_id v) else c)
           in if bounded \<and> v_chi c then Some v
              else if stream_exists v a then g a c v else Some v)"

definition on_chain where
  "on_chain ids idt bounded f g a c v = do {
     (go, a, c, v) \<leftarrow> sample_part ids bounded f a c v;
     if go then stream_part idt bounded g a c v else Some v }"

definition go_on :: "veejay option \<Rightarrow> (bool \<times> veejay) option" where
  "go_on = map_option (\<lambda>v. (True, v))"

text \<open>What is played now, with one command for a sample and one for a stream.\<close>

definition on_playing :: "(int \<Rightarrow> veejay \<Rightarrow> veejay option) \<Rightarrow> (int \<Rightarrow> veejay \<Rightarrow> veejay option) \<Rightarrow> veejay \<Rightarrow> veejay option" where
  "on_playing f g v = do {
     v \<leftarrow> (if SAMPLE_PLAYING v then f (uc_sample_id v) v else Some v);
     if STREAM_PLAYING v then g (uc_sample_id v) v else Some v }"

subsection \<open>Switching chains on and off\<close>

definition sample_chain_status :: "int \<Rightarrow> int \<Rightarrow> veejay \<Rightarrow> veejay option" where
  "sample_chain_status status k = adm_do (\<lambda>d. sample_set_effect_status d k status)"

definition stream_chain_status :: "int \<Rightarrow> int \<Rightarrow> veejay \<Rightarrow> veejay" where
  "stream_chain_status status k = tag_do (\<lambda>d. vj_tag_set_effect_status d k status)"

definition chain_status :: "int \<Rightarrow> veejay \<Rightarrow> veejay option" where
  "chain_status status v =
     (if SAMPLE_PLAYING v then sample_chain_status status (uc_sample_id v) v
      else if STREAM_PLAYING v then Some (stream_chain_status status (uc_sample_id v) v)
      else Some v)"

definition vj_event_chain_enable :: vims_handler where
  "vj_event_chain_enable env fmt va v = chain_status 1 v"

definition vj_event_chain_disable :: vims_handler where
  "vj_event_chain_disable env fmt va v = chain_status 0 v"

definition vj_event_stream_set_length :: vims_handler where
  "vj_event_stream_set_length env fmt va v = do {
     args \<leftarrow> p_ints 2 fmt va v;
     if STREAM_PLAYING v \<and> args ! 0 > 0 \<and> args ! 0 < 2160000
     then let v = tag_do (\<lambda>d. vj_tag_set_n_frames d (uc_sample_id v) (args ! 0)) v
          in constrain_stream (v\<lparr>st_max_frame_num := args ! 0\<rparr>) (uc_sample_id v)
     else Some v }"

definition vj_event_sample_chain_enable :: vims_handler where
  "vj_event_sample_chain_enable env fmt va v = do {
     args \<leftarrow> p_ints 4 fmt va v;
     if \<not> SAMPLE_PLAYING v then Some v
     else let k = or_current v (args ! 0) in if_sample k (sample_chain_status 1 k) v }"

fun all_chains :: "int \<Rightarrow> int list \<Rightarrow> veejay \<Rightarrow> veejay option" where
  "all_chains status [] v = Some v"
| "all_chains status (i # is) v = do { v \<leftarrow> sample_chain_status status i v; all_chains status is v }"

text \<open>Both loops start at 0 and end before the newest identifier.\<close>

definition vj_event_all_samples_chain_toggle :: vims_handler where
  "vj_event_all_samples_chain_toggle env fmt va v = do {
     args \<leftarrow> p_ints 1 fmt va v;
     if SAMPLE_PLAYING v then all_chains (args ! 0) [0..sample_size (vi_adm v) - 2] v
     else if STREAM_PLAYING v
     then Some (fold (\<lambda>i. stream_chain_status (args ! 0) i) [0..vj_tag_size (vi_adm v) - 2] v)
     else Some v }"

definition tag_chain_switch :: "nat \<Rightarrow> int \<Rightarrow> vims_handler" where
  "tag_chain_switch n status env fmt va v = do {
     args \<leftarrow> p_ints n fmt va v;
     if \<not> STREAM_PLAYING v then Some v
     else let k = or_current v (args ! 0)
          in Some (if stream_exists v k then stream_chain_status status k v else v) }"

definition vj_event_tag_chain_enable :: vims_handler where
  "vj_event_tag_chain_enable = tag_chain_switch 4 1"

definition vj_event_tag_chain_disable :: vims_handler where
  "vj_event_tag_chain_disable = tag_chain_switch 2 0"

definition vj_event_sample_chain_disable :: vims_handler where
  "vj_event_sample_chain_disable env fmt va v = do {
     args \<leftarrow> p_ints 2 fmt va v;
     let k = or_current v (args ! 0);
     v \<leftarrow> (if SAMPLE_PLAYING v then if_sample k (sample_chain_status 0 k) v else Some v);
     Some (if STREAM_PLAYING v \<and> stream_exists v k then stream_chain_status 0 k v else v) }"

definition vj_event_chain_toggle :: vims_handler where
  "vj_event_chain_toggle env fmt va = on_playing
     (\<lambda>k v. do {
        (flag, v) \<leftarrow> on_adm (\<lambda>d. sample_get_effect_status d k) v;
        v \<leftarrow> sample_chain_status (if flag = 0 then 1 else 0) k v;
        adm_do (\<lambda>d. sample_get_effect_status d k) v })
     (\<lambda>k v. Some (stream_chain_status (if vj_tag_get_effect_status (vi_adm v) k = 0 then 1 else 0) k v))"

definition vj_event_chain_entry_video_toggle :: vims_handler where
  "vj_event_chain_entry_video_toggle env fmt va = on_playing
     (\<lambda>k v. do {
        (c, v) \<leftarrow> on_adm (\<lambda>d. sample_get_selected_entry d k) v;
        (flag, v) \<leftarrow> on_adm (\<lambda>d. sample_get_chain_status d k c) v;
        adm_do (\<lambda>d. sample_set_chain_status d k c (if flag = 0 then 1 else 0)) v })
     (\<lambda>k v. do {
        let c = vj_tag_get_selected_entry (vi_adm v) k;
        flag \<leftarrow> vj_tag_get_chain_status (vi_adm v) k c;
        adm_do (\<lambda>d. vj_tag_set_chain_status d k c (if flag = 0 then 1 else 0)) v })"

definition entry_video :: "bool \<Rightarrow> int \<Rightarrow> vims_handler" where
  "entry_video bounded status env fmt va v = do {
     args \<leftarrow> p_ints 2 fmt va v;
     on_chain or_current or_current bounded
       (\<lambda>k c v. do {
          (r, v) \<leftarrow> on_adm (\<lambda>d. sample_set_chain_status d k c status) v;
          go_on (if r \<noteq> - 1 then adm_do (\<lambda>d. sample_get_chain_status d k c) v else Some v) })
       (\<lambda>k c v. do {
          (r, v) \<leftarrow> on_adm (\<lambda>d. vj_tag_set_chain_status d k c status) v;
          if r \<noteq> - 1 then do { s \<leftarrow> vj_tag_get_chain_status (vi_adm v) k c; Some v } else Some v })
       (args ! 0) (args ! 1) v }"

text \<open>Only one of the two tests the entry first.\<close>

definition vj_event_chain_entry_enable_video :: vims_handler where
  "vj_event_chain_entry_enable_video = entry_video False 1"

definition vj_event_chain_entry_disable_video :: vims_handler where
  "vj_event_chain_entry_disable_video = entry_video True 0"

subsection \<open>Fading\<close>

definition vj_event_chain_fade_follow :: vims_handler where
  "vj_event_chain_fade_follow env fmt va v = do {
     args \<leftarrow> p_ints 2 fmt va v;
     Some (if args ! 0 = 0 \<or> args ! 0 = 1 then set_ctl (ct_follow_fade_update (\<lambda>_. args ! 0)) v else v) }"

definition fade_target :: "veejay \<Rightarrow> int \<Rightarrow> int" where
  "fade_target v a = (if a = 0 \<and> (SAMPLE_PLAYING v \<or> STREAM_PLAYING v) then uc_sample_id v else a)"

definition on_fader :: "(int \<Rightarrow> veejay \<Rightarrow> veejay option) \<Rightarrow> (int \<Rightarrow> veejay \<Rightarrow> veejay option) \<Rightarrow> int \<Rightarrow> veejay \<Rightarrow> veejay option" where
  "on_fader f g k v = do {
     v \<leftarrow> (if SAMPLE_PLAYING v then if_sample k (f k) v else Some v);
     if STREAM_PLAYING v \<and> stream_exists v k then g k v else Some v }"

definition vj_event_manual_chain_fade :: vims_handler where
  "vj_event_manual_chain_fade env fmt va v = do {
     args \<leftarrow> p_ints 2 fmt va v;
     if args ! 1 < 0 \<or> args ! 1 > 255 then Some v
     else on_fader
       (\<lambda>k v. do {
          (r, v) \<leftarrow> on_adm (\<lambda>d. sample_set_manual_fader (ce_flt env) d k (255 - args ! 1)) v;
          if r \<noteq> 0 then adm_do (\<lambda>d. sample_get_fader_val d k) v else Some v })
       (\<lambda>k v. Some (tag_do (\<lambda>d. vj_tag_set_manual_fader (ce_flt env) d k (255 - args ! 1)) v))
       (fade_target v (args ! 0)) v }"

text \<open>The test of the status has a misplaced parenthesis: it asks for the status of sample 0, or of sample 1.\<close>

definition vj_event_chain_fade_in :: vims_handler where
  "vj_event_chain_fade_in env fmt va v = do {
     args \<leftarrow> p_ints 2 fmt va v;
     let n = (if args ! 1 = 0 then 1 else args ! 1);
     on_fader
       (\<lambda>k v. do {
          (r, v) \<leftarrow> on_adm (\<lambda>d. sample_set_fader_active (ce_flt env) (pe_dbl (ce_play env)) d k n (- 1)) v;
          if r \<noteq> 0
          then do {
            v \<leftarrow> adm_do (\<lambda>d. sample_get_fader_inc d k) v;
            (st, v) \<leftarrow> on_adm (\<lambda>d. sample_get_effect_status d (if k = 0 then 1 else 0)) v;
            if st \<noteq> 0 then sample_chain_status (- 1) k v else Some v }
          else Some v })
       (\<lambda>k v. do {
          let (r, v) = on_adm_pure (\<lambda>d. vj_tag_set_fader_active (ce_flt env) (pe_dbl (ce_play env)) d k n (- 1)) v;
          if r \<noteq> 0
          then do {
            v \<leftarrow> adm_do (\<lambda>d. sample_get_fader_inc d k) v;
            Some (if vj_tag_get_effect_status (vi_adm v) (if k = 0 then 1 else 0) \<noteq> 0
                  then stream_chain_status (- 1) k v else v) }
          else Some v })
       (fade_target v (args ! 0)) v }"

definition vj_event_chain_fade_out :: vims_handler where
  "vj_event_chain_fade_out env fmt va v = do {
     args \<leftarrow> p_ints 2 fmt va v;
     let n = (if args ! 1 = 0 then - 1 else args ! 1);
     on_fader
       (\<lambda>k v. do {
          (r, v) \<leftarrow> on_adm (\<lambda>d. sample_set_fader_active (ce_flt env) (pe_dbl (ce_play env)) d k n 1) v;
          if r \<noteq> 0 then adm_do (\<lambda>d. sample_get_fader_inc d k) v else Some v })
       (\<lambda>k v. do {
          let (r, v) = on_adm_pure (\<lambda>d. vj_tag_set_fader_active (ce_flt env) (pe_dbl (ce_play env)) d k n 1) v;
          if r \<noteq> 0 then adm_do (\<lambda>d. sample_get_fader_inc d k) v else Some v })
       (fade_target v (args ! 0)) v }"

subsection \<open>Effects of a chain\<close>

definition sample_drop_effect :: "int \<Rightarrow> int \<Rightarrow> veejay \<Rightarrow> (bool \<times> veejay) option" where
  "sample_drop_effect k i v = do {
     (effect, v) \<leftarrow> on_adm (\<lambda>d. sample_get_effect_any d k i) v;
     if vj_effect_is_valid (ad_fx (vi_adm v)) effect \<noteq> 0
     then do {
       v \<leftarrow> adm_do (\<lambda>d. sample_chain_remove d k i) v;
       u \<leftarrow> vj_effect_get_description (ad_fx (vi_adm v)) effect;
       Some (True, v) }
     else Some (False, v) }"

definition stream_drop_effect :: "int \<Rightarrow> int \<Rightarrow> veejay \<Rightarrow> (bool \<times> veejay) option" where
  "stream_drop_effect k i v = do {
     effect \<leftarrow> vj_tag_get_effect_any (vi_adm v) k i;
     if vj_effect_is_valid (ad_fx (vi_adm v)) effect \<noteq> 0
     then do {
       v \<leftarrow> adm_do (\<lambda>d. vj_tag_chain_remove d k i) v;
       u \<leftarrow> vj_effect_get_description (ad_fx (vi_adm v)) effect;
       Some (True, v) }
     else Some (False, v) }"

fun drop_effects :: "(int \<Rightarrow> veejay \<Rightarrow> (bool \<times> veejay) option) \<Rightarrow> int list \<Rightarrow> veejay \<Rightarrow> veejay option" where
  "drop_effects f [] v = Some v"
| "drop_effects f (i # is) v = do { (b, v) \<leftarrow> f i v; drop_effects f is v }"

definition vj_event_chain_clear :: vims_handler where
  "vj_event_chain_clear env fmt va v = do {
     args \<leftarrow> p_ints 1 fmt va v;
     on_fader
       (\<lambda>k v. map_option chain_changed (drop_effects (sample_drop_effect k) [0..int SAMPLE_MAX_EFFECTS - 1] v))
       (\<lambda>k v. map_option chain_changed (drop_effects (stream_drop_effect k) [0..int SAMPLE_MAX_EFFECTS - 1] v))
       (fade_target v (args ! 0)) v }"

definition if_changed :: "bool \<times> veejay \<Rightarrow> veejay" where
  "if_changed r = (if fst r then chain_changed (snd r) else snd r)"

definition vj_event_chain_entry_del :: vims_handler where
  "vj_event_chain_entry_del env fmt va v = do {
     args \<leftarrow> p_ints 2 fmt va v;
     on_chain or_current or_current True
       (\<lambda>k c v. go_on (map_option if_changed (sample_drop_effect k c v)))
       (\<lambda>k c v. map_option if_changed (stream_drop_effect k c v))
       (args ! 0) (args ! 1) v }"

definition vj_event_chain_entry_set_defaults :: vims_handler where
  "vj_event_chain_entry_set_defaults env fmt va v = Some v"

definition sample_add_effect :: "cmd_env \<Rightarrow> int \<Rightarrow> int \<Rightarrow> int \<Rightarrow> veejay \<Rightarrow> (bool \<times> veejay) option" where
  "sample_add_effect env k c fx v = do {
     (r, v) \<leftarrow> on_adm (\<lambda>d. sample_chain_add (pe_fx (ce_play env)) d k c fx) v;
     Some (r \<noteq> 0, v) }"

definition stream_add_effect :: "cmd_env \<Rightarrow> int \<Rightarrow> int \<Rightarrow> int \<Rightarrow> veejay \<Rightarrow> (bool \<times> veejay) option" where
  "stream_add_effect env k c fx v = do {
     (r, v) \<leftarrow> on_adm (\<lambda>d. vj_tag_set_effect (pe_fx (ce_play env)) d k c fx) v;
     Some (r \<noteq> 0, v) }"

definition vj_event_chain_entry_set :: vims_handler where
  "vj_event_chain_entry_set env fmt va v = do {
     args \<leftarrow> p_ints 3 fmt va v;
     on_chain sample_arg stream_arg True
       (\<lambda>k c v. go_on (map_option if_changed (sample_add_effect env k c (args ! 2) v)))
       (\<lambda>k c v. map_option if_changed (stream_add_effect env k c (args ! 2) v))
       (args ! 0) (args ! 1) v }"

subsection \<open>The selected entry\<close>

definition show_sample_entry :: "int \<Rightarrow> int \<Rightarrow> veejay \<Rightarrow> veejay option" where
  "show_sample_entry k c v = do {
     (fx, v) \<leftarrow> on_adm (\<lambda>d. sample_get_effect_any d k c) v;
     u \<leftarrow> vj_effect_get_description (ad_fx (vi_adm v)) fx;
     Some v }"

definition show_stream_entry :: "int \<Rightarrow> int \<Rightarrow> veejay \<Rightarrow> veejay option" where
  "show_stream_entry k c v = do {
     fx \<leftarrow> vj_tag_get_effect_any (vi_adm v) k c;
     u \<leftarrow> vj_effect_get_description (ad_fx (vi_adm v)) fx;
     Some v }"

definition vj_event_chain_entry_select :: vims_handler where
  "vj_event_chain_entry_select env fmt va v = do {
     args \<leftarrow> p_ints 1 fmt va v;
     if v_chi (args ! 0) then Some v
     else on_playing
       (\<lambda>k v. do {
          (r, v) \<leftarrow> on_adm (\<lambda>d. sample_set_selected_entry d k (args ! 0)) v;
          if r \<noteq> 0
          then do { (c, v) \<leftarrow> on_adm (\<lambda>d. sample_get_selected_entry d k) v; show_sample_entry k c v }
          else Some v })
       (\<lambda>k v. do {
          let (r, v) = on_adm_pure (\<lambda>d. vj_tag_set_selected_entry d k (args ! 0)) v;
          if r \<noteq> 0 then show_stream_entry k (vj_tag_get_selected_entry (vi_adm v) k) v else Some v })
       v }"

definition move_entry :: "(int \<Rightarrow> int option) \<Rightarrow> veejay \<Rightarrow> veejay option" where
  "move_entry to v = do {
     let k = uc_sample_id v;
     (fx, v) \<leftarrow> (if SAMPLE_PLAYING v
                then do {
                  (c, v) \<leftarrow> on_adm (\<lambda>d. sample_get_selected_entry d k) v;
                  c \<leftarrow> to c;
                  v \<leftarrow> adm_do (\<lambda>d. sample_set_selected_entry d k c) v;
                  on_adm (\<lambda>d. sample_get_effect_any d k c) v }
                else Some (- 1, v));
     (fx, v) \<leftarrow> (if STREAM_PLAYING v
                then do {
                  c \<leftarrow> to (vj_tag_get_selected_entry (vi_adm v) k);
                  let v = tag_do (\<lambda>d. vj_tag_set_selected_entry d k c) v;
                  fx \<leftarrow> vj_tag_get_effect_any (vi_adm v) k c;
                  Some (fx, v) }
                else Some (fx, v));
     u \<leftarrow> vj_effect_get_description (ad_fx (vi_adm v)) fx;
     Some v }"

definition vj_event_entry_up :: vims_handler where
  "vj_event_entry_up env fmt va v = do {
     args \<leftarrow> p_ints 1 fmt va v;
     move_entry (\<lambda>c. do { c \<leftarrow> c_int (c + args ! 0); Some (if c \<ge> int SAMPLE_MAX_EFFECTS then 0 else c) }) v }"

definition vj_event_entry_down :: vims_handler where
  "vj_event_entry_down env fmt va v = do {
     args \<leftarrow> p_ints 1 fmt va v;
     move_entry (\<lambda>c. do { c \<leftarrow> c_int (c - args ! 0); Some (if c < 0 then int SAMPLE_MAX_EFFECTS - 1 else c) }) v }"

definition vj_event_effect_inc :: vims_handler where
  "vj_event_effect_inc env fmt va v = do {
     args \<leftarrow> p_ints 1 fmt va v;
     if \<not> SAMPLE_PLAYING v \<and> \<not> STREAM_PLAYING v then Some v
     else do {
       let T = ad_fx (vi_adm v);
       n \<leftarrow> c_int (ct_key_effect (vi_ctl v) + args ! 0);
       let n = (if n \<ge> vj_effect_max_effects T then 1 else n);
       x \<leftarrow> vj_effect_get_extra_frame T (vj_effect_get_real_id T n);
       u \<leftarrow> vj_effect_get_description T (vj_effect_get_real_id T n);
       Some (set_ctl (ct_key_effect_update (\<lambda>_. n)) v) } }"

definition vj_event_effect_dec :: vims_handler where
  "vj_event_effect_dec env fmt va v = do {
     args \<leftarrow> p_ints 1 fmt va v;
     if \<not> SAMPLE_PLAYING v \<and> \<not> STREAM_PLAYING v then Some v
     else do {
       let T = ad_fx (vi_adm v);
       n \<leftarrow> c_int (ct_key_effect (vi_ctl v) - args ! 0);
       let n = (if n \<le> 0 then vj_effect_max_effects T - 1 else n);
       x \<leftarrow> vj_effect_get_extra_frame T (vj_effect_get_real_id T n);
       u \<leftarrow> vj_effect_get_description T (vj_effect_get_real_id T n);
       Some (set_ctl (ct_key_effect_update (\<lambda>_. n)) v) } }"

text \<open>The effect that was chosen goes to the selected entry; a sample with a mixing effect may start again.\<close>

definition restart_sample :: "veejay \<Rightarrow> veejay option" where
  "restart_sample v = (if ct_no_bezerk (vi_ctl v) \<noteq> 0 then to_start v else Some v)"

definition vj_event_effect_add :: vims_handler where
  "vj_event_effect_add env fmt va = on_playing
     (\<lambda>k v. do {
        (c, v) \<leftarrow> on_adm (\<lambda>d. sample_get_selected_entry d k) v;
        let fx = vj_effect_get_real_id (ad_fx (vi_adm v)) (ct_key_effect (vi_ctl v));
        (ok, v) \<leftarrow> sample_add_effect env k c fx v;
        if \<not> ok then Some v
        else do {
          u \<leftarrow> vj_effect_get_description (ad_fx (vi_adm v)) fx;
          v \<leftarrow> (if ct_no_bezerk (vi_ctl v) \<noteq> 0
                then do { x \<leftarrow> vj_effect_get_extra_frame (ad_fx (vi_adm v)) fx; if x \<noteq> 0 then to_start v else Some v }
                else Some v);
          Some (chain_changed v) } })
     (\<lambda>k v. do {
        let c = vj_tag_get_selected_entry (vi_adm v) k;
        let fx = vj_effect_get_real_id (ad_fx (vi_adm v)) (ct_key_effect (vi_ctl v));
        (ok, v) \<leftarrow> stream_add_effect env k c fx v;
        if \<not> ok then Some v
        else do { u \<leftarrow> vj_effect_get_description (ad_fx (vi_adm v)) fx; Some (chain_changed v) } })"

end
