(* ===== verification/EventMix.thy ===== *)
theory EventMix
  imports EventChain CText
begin

text \<open>
  The commands on the sources that an entry of a chain mixes in and on the parameters of its effect
  (\<open>veejay/vj-event.c\<close>). A source is a sample (type \<open>VJ_TAG_TYPE_NONE\<close>) or a stream, and its channel the identifier.
\<close>

subsection \<open>Sources\<close>

definition exists_for :: "int \<Rightarrow> int \<Rightarrow> veejay \<Rightarrow> (bool \<times> veejay) option" where
  "exists_for src c v =
     (if src = VJ_TAG_TYPE_NONE then do { (e, v) \<leftarrow> on_adm (\<lambda>d. sample_exists d c) v; Some (e \<noteq> 0, v) }
      else Some (stream_exists v c, v))"

text \<open>The channel that is there, else the newest sample or stream, if there is any.\<close>

definition usable_channel :: "int \<Rightarrow> int \<Rightarrow> veejay \<Rightarrow> (int option \<times> bool \<times> veejay) option" where
  "usable_channel src c v = do {
     (ok, v) \<leftarrow> exists_for src c v;
     if ok then Some (Some c, False, v)
     else let n = (if src = VJ_TAG_TYPE_NONE then sample_size (vi_adm v) else vj_tag_size (vi_adm v)) - 1
          in Some (if n \<le> 0 then None else Some n, True, v) }"

text \<open>The first early return leaves out the part for streams as well.\<close>

definition sample_src_toggle :: "veejay \<Rightarrow> (bool \<times> veejay) option" where
  "sample_src_toggle v = do {
     let k = uc_sample_id v;
     (entry, v) \<leftarrow> on_adm (\<lambda>d. sample_get_selected_entry d k) v;
     (src, v) \<leftarrow> on_adm (\<lambda>d. sample_get_chain_source d k entry) v;
     (cha, v) \<leftarrow> on_adm (\<lambda>d. sample_get_chain_channel d k entry) v;
     let src = (if src = 0 then 1 else 0);
     (p, new, v) \<leftarrow> usable_channel src cha v;
     case p of
       None \<Rightarrow> Some (False, v)
     | Some cha \<Rightarrow> do {
         v \<leftarrow> adm_do (\<lambda>d. sample_set_chain_source d k entry src) v;
         v \<leftarrow> adm_do (\<lambda>d. sample_set_chain_channel d k entry cha) v;
         go_on (restart_sample v) } }"

definition stream_src_toggle :: "veejay \<Rightarrow> veejay option" where
  "stream_src_toggle v = do {
     let k = uc_sample_id v;
     let entry = vj_tag_get_selected_entry (vi_adm v) k;
     src \<leftarrow> vj_tag_get_chain_source (vi_adm v) k entry;
     cha \<leftarrow> vj_tag_get_chain_channel (vi_adm v) k entry;
     let src = (if src = VJ_TAG_TYPE_NONE then 1 else 0);
     (p, new, v) \<leftarrow> usable_channel src cha v;
     case p of
       None \<Rightarrow> Some v
     | Some cha \<Rightarrow> do {
         v \<leftarrow> adm_do (\<lambda>d. vj_tag_set_chain_source d k entry src) v;
         adm_do (\<lambda>d. vj_tag_set_chain_channel d k entry cha) v } }"

definition vj_event_chain_entry_src_toggle :: vims_handler where
  "vj_event_chain_entry_src_toggle env fmt va v = do {
     (go, v) \<leftarrow> (if SAMPLE_PLAYING v then sample_src_toggle v else Some (True, v));
     if go \<and> STREAM_PLAYING v then stream_src_toggle v else Some v }"

text \<open>When the newest stream is taken instead, its own type becomes the type of the source.\<close>

definition source_type :: "int \<Rightarrow> bool \<Rightarrow> int \<Rightarrow> veejay \<Rightarrow> int" where
  "source_type src new c v = (if src \<noteq> VJ_TAG_TYPE_NONE \<and> new then vj_tag_get_type (vi_adm v) c else src)"

definition sample_entry_source :: "int \<Rightarrow> int \<Rightarrow> int \<Rightarrow> veejay \<Rightarrow> (bool \<times> veejay) option" where
  "sample_entry_source src k entry v = do {
     (c, v) \<leftarrow> on_adm (\<lambda>d. sample_get_chain_channel d k entry) v;
     (p, new, v) \<leftarrow> usable_channel src c v;
     case p of
       None \<Rightarrow> Some (False, v)
     | Some c \<Rightarrow>
         if c > 0
         then do {
           let src = source_type src new c v;
           v \<leftarrow> adm_do (\<lambda>d. sample_set_chain_channel d k entry c) v;
           v \<leftarrow> adm_do (\<lambda>d. sample_set_chain_source d k entry src) v;
           v \<leftarrow> adm_do (\<lambda>d. sample_get_offset d k entry) v;
           v \<leftarrow> (if src = VJ_TAG_TYPE_NONE then adm_do (\<lambda>d. sample_get_speed d c) v else Some v);
           go_on (restart_sample v) }
         else Some (True, v) }"

definition stream_entry_source :: "int \<Rightarrow> int \<Rightarrow> int \<Rightarrow> veejay \<Rightarrow> veejay option" where
  "stream_entry_source src k entry v = do {
     c \<leftarrow> vj_tag_get_chain_channel (vi_adm v) k entry;
     (p, new, v) \<leftarrow> usable_channel src c v;
     case p of
       None \<Rightarrow> Some v
     | Some c \<Rightarrow>
         if c > 0
         then do {
           let src = source_type src new c v;
           v \<leftarrow> adm_do (\<lambda>d. vj_tag_set_chain_channel d k entry c) v;
           v \<leftarrow> adm_do (\<lambda>d. vj_tag_set_chain_source d k entry src) v;
           off \<leftarrow> vj_tag_get_offset (vi_adm v) k entry;
           if src = VJ_TAG_TYPE_NONE then adm_do (\<lambda>d. sample_get_speed d c) v else Some v }
         else Some v }"

definition vj_event_chain_entry_source :: vims_handler where
  "vj_event_chain_entry_source env fmt va v = do {
     args \<leftarrow> p_ints 3 fmt va v;
     on_chain or_current or_current True
       (\<lambda>k c. sample_entry_source (args ! 2) k c) (\<lambda>k c. stream_entry_source (args ! 2) k c)
       (args ! 0) (args ! 1) v }"

text \<open>
  The next channel is meant to be kept between 1 and the newest identifier, but the value of the macro that clamps it is
  not used: an identifier that does not exist leaves the channel as it is.
\<close>

definition next_channel :: "int \<Rightarrow> int \<Rightarrow> int \<Rightarrow> veejay \<Rightarrow> (int option \<times> veejay) option" where
  "next_channel src cha n v = do {
     new \<leftarrow> c_int (cha + n);
     let newest = (if src = VJ_TAG_TYPE_NONE then sample_size (vi_adm v) else vj_tag_size (vi_adm v)) - 1;
     if newest \<le> 0 then Some (None, v)
     else do { (ok, v) \<leftarrow> exists_for src new v; Some (Some (if ok then new else cha), v) } }"

definition sample_channel_by :: "int \<Rightarrow> veejay \<Rightarrow> (bool \<times> veejay) option" where
  "sample_channel_by n v = do {
     let k = uc_sample_id v;
     (entry, v) \<leftarrow> on_adm (\<lambda>d. sample_get_selected_entry d k) v;
     (cha, v) \<leftarrow> on_adm (\<lambda>d. sample_get_chain_channel d k entry) v;
     (src, v) \<leftarrow> on_adm (\<lambda>d. sample_get_chain_source d k entry) v;
     (p, v) \<leftarrow> next_channel src cha n v;
     case p of
       None \<Rightarrow> Some (False, v)
     | Some cha \<Rightarrow> do {
         v \<leftarrow> adm_do (\<lambda>d. sample_set_chain_channel d k entry cha) v;
         go_on (restart_sample v) } }"

definition stream_channel_by :: "int \<Rightarrow> veejay \<Rightarrow> veejay option" where
  "stream_channel_by n v = do {
     let k = uc_sample_id v;
     let entry = vj_tag_get_selected_entry (vi_adm v) k;
     cha \<leftarrow> vj_tag_get_chain_channel (vi_adm v) k entry;
     src \<leftarrow> vj_tag_get_chain_source (vi_adm v) k entry;
     (p, v) \<leftarrow> next_channel src cha n v;
     case p of None \<Rightarrow> Some v | Some cha \<Rightarrow> adm_do (\<lambda>d. vj_tag_set_chain_channel d k entry cha) v }"

definition channel_by :: "int \<Rightarrow> veejay \<Rightarrow> veejay option" where
  "channel_by n v = do {
     (go, v) \<leftarrow> (if SAMPLE_PLAYING v then sample_channel_by n v else Some (True, v));
     if go \<and> STREAM_PLAYING v then stream_channel_by n v else Some v }"

definition vj_event_chain_entry_channel_dec :: vims_handler where
  "vj_event_chain_entry_channel_dec env fmt va v = do { args \<leftarrow> p_ints 1 fmt va v; channel_by (- (args ! 0)) v }"

definition vj_event_chain_entry_channel_inc :: vims_handler where
  "vj_event_chain_entry_channel_inc env fmt va v = do { args \<leftarrow> p_ints 1 fmt va v; channel_by (args ! 0) v }"

definition vj_event_chain_entry_channel :: vims_handler where
  "vj_event_chain_entry_channel env fmt va v = do {
     args \<leftarrow> p_ints 3 fmt va v;
     on_chain or_current or_current True
       (\<lambda>k entry v. do {
          (src, v) \<leftarrow> on_adm (\<lambda>d. sample_get_chain_source d k entry) v;
          (ok, v) \<leftarrow> exists_for src (args ! 2) v;
          go_on (if ok then adm_do (\<lambda>d. sample_set_chain_channel d k entry (args ! 2)) v else Some v) })
       (\<lambda>k entry v. do {
          src \<leftarrow> vj_tag_get_chain_source (vi_adm v) k entry;
          (ok, v) \<leftarrow> exists_for src (args ! 2) v;
          if ok then adm_do (\<lambda>d. vj_tag_set_chain_channel d k entry (args ! 2)) v else Some v })
       (args ! 0) (args ! 1) v }"

text \<open>Calibration of an effect that wants it is outside the model. For streams -1 stands for the newest sample.\<close>

definition sample_srccha :: "cmd_env \<Rightarrow> int \<Rightarrow> int \<Rightarrow> int \<Rightarrow> int \<Rightarrow> veejay \<Rightarrow> veejay option" where
  "sample_srccha env src cha k entry v = do {
     (ok, v) \<leftarrow> exists_for src cha v;
     if \<not> ok then Some v
     else do {
       (r, v) \<leftarrow> on_adm (\<lambda>d. sample_set_chain_source d k entry src) v;
       if r = - 1 then Some v
       else do {
         (r, v) \<leftarrow> on_adm (\<lambda>d. sample_set_chain_channel d k entry cha) v;
         if r = - 1 \<or> src = VJ_TAG_TYPE_NONE then Some v
         else do {
           (slot, v) \<leftarrow> on_adm (\<lambda>d. sample_has_cali_fx d k) v;
           if slot \<ge> 0 then ce_outside env ''sample_cali_prepare'' None [VInt k, VInt slot, VInt cha] v else Some v } } } }"

definition stream_srccha :: "cmd_env \<Rightarrow> int \<Rightarrow> int \<Rightarrow> int \<Rightarrow> int \<Rightarrow> veejay \<Rightarrow> veejay option" where
  "stream_srccha env src cha k entry v = do {
     (ok, v) \<leftarrow> exists_for src cha v;
     if \<not> ok then Some v
     else do {
       (r, v) \<leftarrow> on_adm (\<lambda>d. vj_tag_set_chain_source d k entry src) v;
       if r = - 1 then Some v
       else do {
         (r, v) \<leftarrow> on_adm (\<lambda>d. vj_tag_set_chain_channel d k entry cha) v;
         let slot = vj_tag_has_cali_fx (vi_adm v) k;
         if r \<noteq> - 1 \<and> src \<noteq> VJ_TAG_TYPE_NONE \<and> slot \<ge> 0
         then ce_outside env ''vj_tag_cali_prepare'' None [VInt k, VInt slot, VInt cha] v else Some v } } }"

definition vj_event_chain_entry_srccha :: vims_handler where
  "vj_event_chain_entry_srccha env fmt va v = do {
     args \<leftarrow> p_ints 4 fmt va v;
     on_chain sample_arg sample_arg True
       (\<lambda>k entry v. go_on (sample_srccha env (args ! 2) (args ! 3) k entry v))
       (\<lambda>k entry v. stream_srccha env (args ! 2) (args ! 3) k entry v)
       (args ! 0) (args ! 1) v }"

subsection \<open>Parameters of an effect\<close>

definition step_value :: "fx_table \<Rightarrow> int \<Rightarrow> int \<Rightarrow> int \<Rightarrow> int option" where
  "step_value T effect p tval = do {
     hi \<leftarrow> vj_effect_get_max_limit T effect p;
     if tval > hi then vj_effect_get_min_limit T effect p
     else do {
       lo \<leftarrow> vj_effect_get_min_limit T effect p;
       if tval < lo then vj_effect_get_max_limit T effect p else Some tval } }"

definition vj_event_chain_arg_inc :: vims_handler where
  "vj_event_chain_arg_inc env fmt va v = do {
     args \<leftarrow> p_ints 2 fmt va v;
     on_playing
       (\<lambda>k v. do {
          (c, v) \<leftarrow> on_adm (\<lambda>d. sample_get_selected_entry d k) v;
          (effect, v) \<leftarrow> on_adm (\<lambda>d. sample_get_effect_any d k c) v;
          (val, v) \<leftarrow> on_adm (\<lambda>d. sample_get_effect_arg d k c (args ! 0)) v;
          if vj_effect_is_valid (ad_fx (vi_adm v)) effect = 0 then Some v
          else do {
            tval \<leftarrow> c_int (val + args ! 1);
            tval \<leftarrow> step_value (ad_fx (vi_adm v)) effect (args ! 0) tval;
            adm_do (\<lambda>d. sample_set_effect_arg d k c (args ! 0) tval) v } })
       (\<lambda>k v. do {
          let c = vj_tag_get_selected_entry (vi_adm v) k;
          effect \<leftarrow> vj_tag_get_effect_any (vi_adm v) k c;
          val \<leftarrow> vj_tag_get_effect_arg (vi_adm v) k c (args ! 0);
          tval \<leftarrow> c_int (val + args ! 1);
          tval \<leftarrow> step_value (ad_fx (vi_adm v)) effect (args ! 0) tval;
          adm_do (\<lambda>d. vj_tag_set_effect_arg d k c (args ! 0) tval) v }) v }"

definition vj_event_chain_entry_set_arg_val :: vims_handler where
  "vj_event_chain_entry_set_arg_val env fmt va v = do {
     args \<leftarrow> p_ints 4 fmt va v;
     on_chain sample_arg or_current True
       (\<lambda>k c v. do {
          (effect, v) \<leftarrow> on_adm (\<lambda>d. sample_get_effect_any d k c) v;
          ok \<leftarrow> vj_effect_valid_value (ad_fx (vi_adm v)) effect (args ! 2) (args ! 3);
          go_on (if ok \<noteq> 0 then adm_do (\<lambda>d. sample_set_effect_arg d k c (args ! 2) (args ! 3)) v else Some v) })
       (\<lambda>k c v. do {
          effect \<leftarrow> vj_tag_get_effect_any (vi_adm v) k c;
          ok \<leftarrow> vj_effect_valid_value (ad_fx (vi_adm v)) effect (args ! 2) (args ! 3);
          if ok \<noteq> 0 then adm_do (\<lambda>d. vj_tag_set_effect_arg d k c (args ! 2) (args ! 3)) v else Some v })
       (args ! 0) (args ! 1) v }"

text \<open>
  A value in percent of the largest one, added to the least one, in \<open>float\<close>. The effect is the one of the sample or
  stream that is played, and a parameter number that is too large becomes the number of parameters.
\<close>

definition scaled_value :: "(rat \<Rightarrow> rat) \<Rightarrow> fx_table \<Rightarrow> int \<Rightarrow> int \<Rightarrow> int \<Rightarrow> (int \<times> int) option" where
  "scaled_value fl T effect p value = do {
     n \<leftarrow> vj_effect_get_num_params T effect;
     let p = (if p > n then n else p);
     lo \<leftarrow> vj_effect_get_min_limit T effect p;
     hi \<leftarrow> vj_effect_get_max_limit T effect p;
     x \<leftarrow> c_int (c_trunc (fl (fl (of_int lo) + fl (fl (of_int hi) * fl (fl (of_int value) / 100)))));
     Some (p, x) }"

definition vj_event_chain_entry_set_narg_val :: vims_handler where
  "vj_event_chain_entry_set_narg_val env fmt va v = do {
     (args, s) \<leftarrow> P_A SAMPLE_MAX_PARAMETERS (Some 4096) fmt va v;
     str \<leftarrow> s;
     case scan_int str of
       None \<Rightarrow> Some v
     | Some (value, rest) \<Rightarrow>
         if SAMPLE_PLAYING v
         then do {
           (go, a, c, v) \<leftarrow> sample_part or_current True (\<lambda>k c v. do {
             (effect, v) \<leftarrow> on_adm (\<lambda>d. sample_get_effect_any d (uc_sample_id v) c) v;
             (p, x) \<leftarrow> scaled_value (ce_flt env) (ad_fx (vi_adm v)) effect (args ! 2) value;
             (r, v) \<leftarrow> on_adm (\<lambda>d. sample_set_effect_arg d k c p x) v;
             u \<leftarrow> (if r = - 1 then vj_effect_get_description (ad_fx (vi_adm v)) effect else Some ());
             Some (True, chain_changed v) }) (args ! 0) (args ! 1) v;
           Some v }
         else if STREAM_PLAYING v
         then do {
           let k = or_current v (args ! 0);
           let c = (if args ! 1 = - 1 then vj_tag_get_selected_entry (vi_adm v) (uc_sample_id v) else args ! 1);
           if v_chi c \<or> \<not> stream_exists v (uc_sample_id v) then Some v
           else do {
             effect \<leftarrow> vj_tag_get_effect_any (vi_adm v) (uc_sample_id v) c;
             (p, x) \<leftarrow> scaled_value (ce_flt env) (ad_fx (vi_adm v)) effect (args ! 2) value;
             (r, v) \<leftarrow> on_adm (\<lambda>d. vj_tag_set_effect_arg d k c p x) v;
             u \<leftarrow> (if r = - 1 then vj_effect_get_description (ad_fx (vi_adm v)) effect else Some ());
             Some (chain_changed v) } }
         else Some v }"

text \<open>
  A preset: the numbers of the text are appended to the arguments until one of them is 0 or none is left, without a
  test of the length of the array. \<open>strtol\<close> keeps to the bounds of \<open>long\<close>.
\<close>

fun preset_args :: "nat \<Rightarrow> string \<Rightarrow> int \<Rightarrow> int list \<Rightarrow> int list option" where
  "preset_args 0 cs i args = Some args"
| "preset_args (Suc n) cs i args =
     (case scan_int cs of
        None \<Rightarrow> Some args
      | Some (x, rest) \<Rightarrow>
          if x = 0 then Some args
          else do {
            args \<leftarrow> c_update args i (int32_of_long (max (- (2 ^ 63)) (min (2 ^ 63 - 1) x)));
            preset_args n rest (i + 1) args })"

fun sample_preset :: "int \<Rightarrow> int \<Rightarrow> int \<Rightarrow> int list \<Rightarrow> int list \<Rightarrow> veejay \<Rightarrow> veejay option" where
  "sample_preset k c fx args [] v = Some v"
| "sample_preset k c fx args (i # is) v = do {
     x \<leftarrow> c_nth args (i + 3);
     ok \<leftarrow> vj_effect_valid_value (ad_fx (vi_adm v)) fx i x;
     v \<leftarrow> (if ok \<noteq> 0
           then do {
             (r, v) \<leftarrow> on_adm (\<lambda>d. sample_set_effect_arg d k c i x) v;
             u \<leftarrow> (if r = - 1 then vj_effect_get_description (ad_fx (vi_adm v)) fx else Some ());
             Some v }
           else Some v);
     sample_preset k c fx args is v }"

fun stream_preset :: "int \<Rightarrow> int \<Rightarrow> int \<Rightarrow> int list \<Rightarrow> int list \<Rightarrow> veejay \<Rightarrow> veejay option" where
  "stream_preset k c fx args [] v = Some v"
| "stream_preset k c fx args (i # is) v = do {
     x \<leftarrow> c_nth args (i + 3);
     ok \<leftarrow> vj_effect_valid_value (ad_fx (vi_adm v)) fx i x;
     v \<leftarrow> (if ok \<noteq> 0
           then do {
             (r, v) \<leftarrow> on_adm (\<lambda>d. vj_tag_set_effect_arg d k c i x) v;
             u \<leftarrow> (if r \<noteq> 0 then vj_effect_get_description (ad_fx (vi_adm v)) fx else Some ());
             Some v }
           else do {
             lo \<leftarrow> vj_effect_get_min_limit (ad_fx (vi_adm v)) fx i;
             hi \<leftarrow> vj_effect_get_max_limit (ad_fx (vi_adm v)) fx i;
             Some v });
     stream_preset k c fx args is v }"

definition vj_event_chain_entry_preset :: vims_handler where
  "vj_event_chain_entry_preset env fmt va v = do {
     (args, s) \<leftarrow> P_A SAMPLE_MAX_PARAMETERS (Some 1024) fmt va v;
     str \<leftarrow> s;
     args \<leftarrow> preset_args (length str) str 3 args;
     let fx = args ! 2;
     (go, a, c, v) \<leftarrow> sample_part or_current True (\<lambda>k c v. do {
       n \<leftarrow> vj_effect_get_num_params (ad_fx (vi_adm v)) fx;
       (ok, v) \<leftarrow> sample_add_effect env k c fx v;
       go_on (if ok then sample_preset k c fx args [0..n - 1] v else Some v) }) (args ! 0) (args ! 1) v;
     if \<not> go \<or> \<not> STREAM_PLAYING v then Some v
     else do {
       let k = or_current v a;
       let c = (if c = - 1 then vj_tag_get_selected_entry (vi_adm v) (uc_sample_id v) else c);
       if v_chi c \<or> \<not> stream_exists v (uc_sample_id v) then Some v
       else do {
         n \<leftarrow> vj_effect_get_num_params (ad_fx (vi_adm v)) fx;
         (ok, v) \<leftarrow> stream_add_effect env k c fx v;
         if ok then map_option chain_changed (stream_preset k c fx args [0..n - 1] v) else Some v } } }"

subsection \<open>Keyframes\<close>

definition on_either :: "(int \<Rightarrow> veejay \<Rightarrow> veejay option) \<Rightarrow> (int \<Rightarrow> veejay \<Rightarrow> veejay option) \<Rightarrow> veejay \<Rightarrow> veejay option" where
  "on_either f g v =
     (if SAMPLE_PLAYING v then f (uc_sample_id v) v
      else if STREAM_PLAYING v then g (uc_sample_id v) v else Some v)"

definition vj_event_set_kf_status :: vims_handler where
  "vj_event_set_kf_status env fmt va v = do {
     args \<leftarrow> p_ints 3 fmt va v;
     on_either
       (\<lambda>k v. do {
          v \<leftarrow> adm_do (\<lambda>d. sample_chain_set_kf_status d k (args ! 0) (args ! 1)) v;
          adm_do (\<lambda>d. sample_set_kf_type d k (args ! 0) (args ! 2)) v })
       (\<lambda>k v. do {
          v \<leftarrow> adm_do (\<lambda>d. vj_tag_chain_set_kf_status d k (args ! 0) (args ! 1)) v;
          adm_do (\<lambda>d. vj_tag_set_kf_type d k (args ! 0) (args ! 2)) v }) v }"

definition vj_event_reset_kf :: vims_handler where
  "vj_event_reset_kf env fmt va v = do {
     args \<leftarrow> p_ints 3 fmt va v;
     on_either (\<lambda>k. adm_do (\<lambda>d. sample_chain_reset_kf d k (args ! 0))) (\<lambda>k. adm_do (\<lambda>d. vj_tag_chain_reset_kf d k (args ! 0))) v }"

end
