(* ===== verification/EventStream.thy ===== *)
theory EventStream
  imports EventMix
begin

text \<open>
  The commands on streams and on bundles of messages (\<open>veejay/vj-event.c\<close>). A stream is opened by \<open>veejay_create_tag\<close> or
  \<open>vj_tag_new\<close>; file and plugin names are printed to arrays on the stack of the handler. Of a bundle the model keeps its
  text by its number (\<open>BundleHash\<close>); the keys that are bound to bundles belong to the display.
\<close>

definition VIMS_BUNDLE_START :: int where "VIMS_BUNDLE_START = 500"
definition VIMS_BUNDLE_END :: int where "VIMS_BUNDLE_END = 599"

subsection \<open>Streams\<close>

definition vj_event_tag_set_descr :: vims_handler where
  "vj_event_tag_set_descr env fmt va v = do {
     (args, s) \<leftarrow> P_A 2 (Some TAG_MAX_DESCR_LEN) fmt va v;
     if \<not> STREAM_PLAYING v then Some v
     else do {
       title \<leftarrow> s;
       let k = stream_arg v (args ! 0);
       Some (tag_do (\<lambda>d. vj_tag_set_description d k (Some title)) v) } }"

definition vj_event_tag_del :: vims_handler where
  "vj_event_tag_del env fmt va v = do {
     args \<leftarrow> p_ints 1 fmt va v;
     let k = args ! 0;
     if STREAM_PLAYING v \<and> uc_sample_id v = k then Some v
     else if stream_exists v k
     then do {
       (r, v) \<leftarrow> on_adm (\<lambda>d. vj_tag_del d k) v;
       Some (if r \<noteq> 0 then tag_do (\<lambda>d. vj_tag_verify_delete d k 1) v else v) }
     else Some v }"

definition vj_event_tag_toggle :: vims_handler where
  "vj_event_tag_toggle env fmt va v = do {
     args \<leftarrow> p_ints 1 fmt va v;
     if STREAM_PLAYING v
     then let k = uc_sample_id v;
              status = (if vj_tag_get_active (vi_adm v) k = 0 then 1 else 0)
          in adm_do (\<lambda>d. vj_tag_set_active (pe_stream (ce_play env)) d k status) v
     else Some v }"

definition create_stream :: "cmd_env \<Rightarrow> int \<Rightarrow> string option \<Rightarrow> int \<Rightarrow> int \<Rightarrow> veejay \<Rightarrow> (int \<times> veejay) option" where
  "create_stream env type name channel device v =
     veejay_create_tag (ce_play env) v type name (vi_nstreams v) channel device"

definition named_stream :: "nat \<Rightarrow> nat \<Rightarrow> (cmd_env \<Rightarrow> string \<Rightarrow> int list \<Rightarrow> veejay \<Rightarrow> veejay option) \<Rightarrow> vims_handler" where
  "named_stream n m f env fmt va v = do {
     (args, s) \<leftarrow> P_A n (Some m) fmt va v;
     name \<leftarrow> s;
     f env name args v }"

definition vj_event_tag_new_generator :: vims_handler where
  "vj_event_tag_new_generator = named_stream 2 255 (\<lambda>env name args v.
     map_option snd (create_stream env VJ_TAG_TYPE_GENERATOR (Some name) 0 (args ! 0) v))"

definition vj_event_tag_new_picture :: vims_handler where
  "vj_event_tag_new_picture = named_stream 0 255 (\<lambda>env name args v.
     map_option snd (create_stream env VJ_TAG_TYPE_PICTURE (Some name) 0 0 v))"

text \<open>The count of streams goes up twice: \<open>veejay_create_tag\<close> has counted the new stream already.\<close>

definition vj_event_stream_new_cali :: vims_handler where
  "vj_event_stream_new_cali = named_stream 2 1024 (\<lambda>env name args v. do {
     (k, v) \<leftarrow> create_stream env VJ_TAG_TYPE_CALI (Some name) 0 0 v;
     Some (if k > 0 then v\<lparr>vi_nstreams := vi_nstreams v + 1\<rparr> else v) })"

definition vj_event_tag_new_v4l :: vims_handler where
  "vj_event_tag_new_v4l env fmt va v = do {
     args \<leftarrow> p_ints 2 fmt va v;
     (k, v) \<leftarrow> on_adm (vj_tag_new (pe_stream (ce_play env)) VJ_TAG_TYPE_V4L (Some (''video'' @ show_int (args ! 0)))
                 (vi_nstreams v) (args ! 1) (args ! 0)) v;
     Some (if k > 0 then v\<lparr>vi_nstreams := vi_nstreams v + 1\<rparr> else v) }"

definition vj_event_tag_new_net :: vims_handler where
  "vj_event_tag_new_net = named_stream 2 255 (\<lambda>env name args v.
     if (map lower (take 9 name) = ''localhost'' \<or> take 9 name = ''127.0.0.1'') \<and> args ! 0 = uc_port v then Some v
     else map_option snd (create_stream env VJ_TAG_TYPE_NET (Some name) (args ! 0) 0 v))"

definition vj_event_tag_new_mcast :: vims_handler where
  "vj_event_tag_new_mcast = named_stream 3 255 (\<lambda>env name args v.
     map_option snd (create_stream env VJ_TAG_TYPE_MCAST (Some name) (args ! 0) 0 v))"

definition CLAMPVAL :: "int \<Rightarrow> int" where
  "CLAMPVAL a = (if a < 0 then 0 else if a > 255 then 255 else a)"

definition vj_event_tag_new_color :: vims_handler where
  "vj_event_tag_new_color env fmt va v = do {
     args \<leftarrow> p_ints 4 fmt va v;
     (k, v) \<leftarrow> on_adm (vj_tag_new (pe_stream (ce_play env)) VJ_TAG_TYPE_COLOR None (- 1) (- 1) 0) v;
     Some (if k > 0
           then tag_do (\<lambda>d. vj_tag_set_stream_color d k (CLAMPVAL (args ! 0)) (CLAMPVAL (args ! 1)) (CLAMPVAL (args ! 2))) v
           else v) }"

definition vj_event_tag_new_y4m :: vims_handler where
  "vj_event_tag_new_y4m = named_stream 0 255 (\<lambda>env name args v.
     map_option snd (create_stream env VJ_TAG_TYPE_YUV4MPEG (Some name) 0 0 v))"

definition vj_event_set_stream_color :: vims_handler where
  "vj_event_set_stream_color env fmt va v = do {
     args \<leftarrow> p_ints 4 fmt va v;
     let k = (if STREAM_PLAYING v then stream_arg v (args ! 0) else args ! 0);
     let type = vj_tag_get_type (vi_adm v) k;
     Some (if stream_exists v k \<and> (type = VJ_TAG_TYPE_COLOR \<or> type = VJ_TAG_TYPE_GENERATOR)
           then tag_do (\<lambda>d. vj_tag_set_stream_color d k (CLAMPVAL (args ! 1)) (CLAMPVAL (args ! 2)) (CLAMPVAL (args ! 3))) v
           else v) }"

subsection \<open>Bundles\<close>

definition vj_event_bundle_get :: "veejay \<Rightarrow> int \<Rightarrow> string option" where
  "vj_event_bundle_get v n = ct_bundles (vi_ctl v) n"

definition vj_event_bundle_exists :: "veejay \<Rightarrow> int \<Rightarrow> bool" where
  "vj_event_bundle_exists v n \<longleftrightarrow> vj_event_bundle_get v n \<noteq> None"

definition vj_event_suggest_bundle_id :: "veejay \<Rightarrow> int" where
  "vj_event_suggest_bundle_id v =
     (case filter (\<lambda>n. \<not> vj_event_bundle_exists v n) [VIMS_BUNDLE_START..VIMS_BUNDLE_END - 1] of [] \<Rightarrow> - 1 | n # _ \<Rightarrow> n)"

definition vj_event_bundle_del :: "int \<Rightarrow> veejay \<Rightarrow> int \<times> veejay" where
  "vj_event_bundle_del n v =
     (if vj_event_bundle_exists v n then (0, set_ctl (ct_bundles_update (\<lambda>m. m(n := None))) v) else (- 1, v))"

text \<open>A bundle that replaces one is stored in a node of its own that is thrown away again.\<close>

definition vj_event_bundle_store :: "int \<Rightarrow> string \<Rightarrow> veejay \<Rightarrow> veejay" where
  "vj_event_bundle_store n msg v =
     (if vj_event_bundle_exists v n then v else set_ctl (ct_bundles_update (\<lambda>m. m(n \<mapsto> msg))) v)"

definition vj_event_bundle_new :: "string \<Rightarrow> string option" where
  "vj_event_bundle_new msg = (if msg = [] then None else Some msg)"

definition vj_event_do_bundled_msg :: vims_handler where
  "vj_event_do_bundled_msg env fmt va v = do {
     (args, s) \<leftarrow> P_A 1 (Some 1024) fmt va v;
     case vj_event_bundle_get v (args ! 0) of None \<Rightarrow> Some v | Some m \<Rightarrow> ce_bundle env m v }"

definition vj_event_bundled_msg_del :: vims_handler where
  "vj_event_bundled_msg_del env fmt va v = do {
     args \<leftarrow> p_ints 1 fmt va v;
     Some (snd (vj_event_bundle_del (args ! 0) v)) }"

definition vj_event_bundled_msg_add :: vims_handler where
  "vj_event_bundled_msg_add env fmt va v = do {
     (args, s) \<leftarrow> P_A 2 (Some 1024) fmt va v;
     let n = (if args ! 0 = 0 then vj_event_suggest_bundle_id v else args ! 0);
     if n < VIMS_BUNDLE_START \<or> n > VIMS_BUNDLE_END then Some v
     else do {
       msg \<leftarrow> s;
       case vj_event_bundle_new (map (\<lambda>c. if c = CHR ''_'' then CHR '' '' else c) msg) of
         None \<Rightarrow> Some v
       | Some m \<Rightarrow>
           let v = (if vj_event_bundle_exists v n then snd (vj_event_bundle_del n v) else v)
           in Some (vj_event_bundle_store n m v) } }"

end
