(* ===== verification/VimsEvents.thy ===== *)
theory VimsEvents
  imports EventStream
begin

text \<open>
  The table of commands (\<open>veejay/vj-eventman.c\<close>): for every command number of \<open>vims.h\<close> the format of its arguments, the
  handler, the number of arguments, flags and default values. The table is that of a build with SDL, FreeType,
  libxml2, gdk-pixbuf and the software scaler, without DV devices. Descriptions and help texts are left out.
\<close>

unbundle bit_operations_syntax

subsection \<open>Command numbers\<close>

definition VIMS_MAX :: int where "VIMS_MAX = 602"
definition VIMS_FXLIST_INC :: int where "VIMS_FXLIST_INC = 1"
definition VIMS_FXLIST_DEC :: int where "VIMS_FXLIST_DEC = 2"
definition VIMS_FXLIST_ADD :: int where "VIMS_FXLIST_ADD = 3"
definition VIMS_PRINT_INFO :: int where "VIMS_PRINT_INFO = 4"
definition VIMS_PREVIEW_BW :: int where "VIMS_PREVIEW_BW = 8"
definition VIMS_FRONTBACK :: int where "VIMS_FRONTBACK = 6"
definition VIMS_COMPOSITE :: int where "VIMS_COMPOSITE = 47"
definition VIMS_RENDER_DEPTH :: int where "VIMS_RENDER_DEPTH = 48"
definition VIMS_FEEDBACK :: int where "VIMS_FEEDBACK = 49"
definition VIMS_MACRO :: int where "VIMS_MACRO = 33"
definition VIMS_MACRO_SELECT :: int where "VIMS_MACRO_SELECT = 34"
definition VIMS_CONTINUOUS_PLAY :: int where "VIMS_CONTINUOUS_PLAY = 35"
definition VIMS_VIDEO_INFORMATION :: int where "VIMS_VIDEO_INFORMATION = 400"
definition VIMS_PROMOTION :: int where "VIMS_PROMOTION = 444"
definition VIMS_EFFECT_LIST :: int where "VIMS_EFFECT_LIST = 401"
definition VIMS_EDITLIST_LIST :: int where "VIMS_EDITLIST_LIST = 402"
definition VIMS_BUNDLE_LIST :: int where "VIMS_BUNDLE_LIST = 403"
definition VIMS_STREAM_LIST :: int where "VIMS_STREAM_LIST = 405"
definition VIMS_SAMPLE_LIST :: int where "VIMS_SAMPLE_LIST = 408"
definition VIMS_STREAM_GET_V4L :: int where "VIMS_STREAM_GET_V4L = 409"
definition VIMS_CHAIN_GET_ENTRY :: int where "VIMS_CHAIN_GET_ENTRY = 410"
definition VIMS_VIMS_LIST :: int where "VIMS_VIMS_LIST = 411"
definition VIMS_SAMPLE_INFO :: int where "VIMS_SAMPLE_INFO = 413"
definition VIMS_SAMPLE_OPTIONS :: int where "VIMS_SAMPLE_OPTIONS = 414"
definition VIMS_DEVICE_LIST :: int where "VIMS_DEVICE_LIST = 415"
definition VIMS_FONT_LIST :: int where "VIMS_FONT_LIST = 416"
definition VIMS_SRT_LIST :: int where "VIMS_SRT_LIST = 417"
definition VIMS_SRT_INFO :: int where "VIMS_SRT_INFO = 418"
definition VIMS_TRACK_LIST :: int where "VIMS_TRACK_LIST = 5"
definition VIMS_SEQUENCE_LIST :: int where "VIMS_SEQUENCE_LIST = 419"
definition VIMS_KEYLIST :: int where "VIMS_KEYLIST = 420"
definition VIMS_WORKINGDIR :: int where "VIMS_WORKINGDIR = 421"
definition VIMS_SAMPLE_STACK :: int where "VIMS_SAMPLE_STACK = 422"
definition VIMS_GET_IMAGE :: int where "VIMS_GET_IMAGE = 423"
definition VIMS_GET_SHM :: int where "VIMS_GET_SHM = 425"
definition VIMS_CHAIN_GET_PARAMETERS :: int where "VIMS_CHAIN_GET_PARAMETERS = 435"
definition VIMS_SET_VOLUME :: int where "VIMS_SET_VOLUME = 300"
definition VIMS_FULLSCREEN :: int where "VIMS_FULLSCREEN = 301"
definition VIMS_SUSPEND :: int where "VIMS_SUSPEND = 254"
definition VIMS_QUIT :: int where "VIMS_QUIT = 600"
definition VIMS_CLOSE :: int where "VIMS_CLOSE = 601"
definition VIMS_RECORD_DATAFORMAT :: int where "VIMS_RECORD_DATAFORMAT = 302"
definition VIMS_SET_PLAIN_MODE :: int where "VIMS_SET_PLAIN_MODE = 303"
definition VIMS_SWITCH_SAMPLE_STREAM :: int where "VIMS_SWITCH_SAMPLE_STREAM = 305"
definition VIMS_AUDIO_ENABLE :: int where "VIMS_AUDIO_ENABLE = 306"
definition VIMS_AUDIO_DISABLE :: int where "VIMS_AUDIO_DISABLE = 307"
definition VIMS_SELECT_BANK :: int where "VIMS_SELECT_BANK = 308"
definition VIMS_SELECT_ID :: int where "VIMS_SELECT_ID = 309"
definition VIMS_SAMPLE_RAND_START :: int where "VIMS_SAMPLE_RAND_START = 315"
definition VIMS_SAMPLE_RAND_STOP :: int where "VIMS_SAMPLE_RAND_STOP = 316"
definition VIMS_REC_AUTO_START :: int where "VIMS_REC_AUTO_START = 320"
definition VIMS_REC_STOP :: int where "VIMS_REC_STOP = 321"
definition VIMS_REC_START :: int where "VIMS_REC_START = 322"
definition VIMS_EFFECT_SET_BG :: int where "VIMS_EFFECT_SET_BG = 339"
definition VIMS_SAMPLE_MODE :: int where "VIMS_SAMPLE_MODE = 323"
definition VIMS_BEZERK :: int where "VIMS_BEZERK = 324"
definition VIMS_DEBUG_LEVEL :: int where "VIMS_DEBUG_LEVEL = 325"
definition VIMS_RESIZE_SDL_SCREEN :: int where "VIMS_RESIZE_SDL_SCREEN = 326"
definition VIMS_SET_PLAY_MODE :: int where "VIMS_SET_PLAY_MODE = 327"
definition VIMS_SET_MODE_AND_GO :: int where "VIMS_SET_MODE_AND_GO = 328"
definition VIMS_RGB_PARAMETER_TYPE :: int where "VIMS_RGB_PARAMETER_TYPE = 329"
definition VIMS_SCREENSHOT :: int where "VIMS_SCREENSHOT = 330"
definition VIMS_NO_CACHING :: int where "VIMS_NO_CACHING = 331"
definition VIMS_RGB24_IMAGE :: int where "VIMS_RGB24_IMAGE = 333"
definition VIMS_CALI_IMAGE :: int where "VIMS_CALI_IMAGE = 332"
definition VIMS_SYNC_CORRECTION :: int where "VIMS_SYNC_CORRECTION = 334"
definition VIMS_FRAMERATE :: int where "VIMS_FRAMERATE = 335"
definition VIMS_SUB_RENDER :: int where "VIMS_SUB_RENDER = 336"
definition VIMS_VIDEO_PLAY_FORWARD :: int where "VIMS_VIDEO_PLAY_FORWARD = 10"
definition VIMS_VIDEO_PLAY_BACKWARD :: int where "VIMS_VIDEO_PLAY_BACKWARD = 11"
definition VIMS_VIDEO_PLAY_STOP :: int where "VIMS_VIDEO_PLAY_STOP = 12"
definition VIMS_VIDEO_SKIP_FRAME :: int where "VIMS_VIDEO_SKIP_FRAME = 13"
definition VIMS_VIDEO_PREV_FRAME :: int where "VIMS_VIDEO_PREV_FRAME = 14"
definition VIMS_VIDEO_SKIP_SECOND :: int where "VIMS_VIDEO_SKIP_SECOND = 15"
definition VIMS_VIDEO_PREV_SECOND :: int where "VIMS_VIDEO_PREV_SECOND = 16"
definition VIMS_VIDEO_GOTO_START :: int where "VIMS_VIDEO_GOTO_START = 17"
definition VIMS_VIDEO_GOTO_END :: int where "VIMS_VIDEO_GOTO_END = 18"
definition VIMS_VIDEO_SET_FRAME :: int where "VIMS_VIDEO_SET_FRAME = 19"
definition VIMS_VIDEO_SET_SPEED :: int where "VIMS_VIDEO_SET_SPEED = 20"
definition VIMS_VIDEO_SET_SLOW :: int where "VIMS_VIDEO_SET_SLOW = 21"
definition VIMS_VIDEO_MCAST_START :: int where "VIMS_VIDEO_MCAST_START = 22"
definition VIMS_VIDEO_MCAST_STOP :: int where "VIMS_VIDEO_MCAST_STOP = 23"
definition VIMS_VIDEO_SET_SPEEDK :: int where "VIMS_VIDEO_SET_SPEEDK = 24"
definition VIMS_EDITLIST_PASTE_AT :: int where "VIMS_EDITLIST_PASTE_AT = 50"
definition VIMS_SHM_WRITER :: int where "VIMS_SHM_WRITER = 25"
definition VIMS_EDITLIST_COPY :: int where "VIMS_EDITLIST_COPY = 51"
definition VIMS_EDITLIST_DEL :: int where "VIMS_EDITLIST_DEL = 52"
definition VIMS_EDITLIST_CROP :: int where "VIMS_EDITLIST_CROP = 53"
definition VIMS_EDITLIST_CUT :: int where "VIMS_EDITLIST_CUT = 54"
definition VIMS_EDITLIST_ADD :: int where "VIMS_EDITLIST_ADD = 55"
definition VIMS_EDITLIST_ADD_SAMPLE :: int where "VIMS_EDITLIST_ADD_SAMPLE = 56"
definition VIMS_EDITLIST_SAVE :: int where "VIMS_EDITLIST_SAVE = 58"
definition VIMS_EDITLIST_LOAD :: int where "VIMS_EDITLIST_LOAD = 59"
definition VIMS_OFFLINE_SAMPLES :: int where "VIMS_OFFLINE_SAMPLES = 70"
definition VIMS_OFFLINE_TAGS :: int where "VIMS_OFFLINE_TAGS = 71"
definition VIMS_OFFLINE_PLAYMODE :: int where "VIMS_OFFLINE_PLAYMODE = 72"
definition VIMS_BUNDLE :: int where "VIMS_BUNDLE = 80"
definition VIMS_BUNDLE_DEL :: int where "VIMS_BUNDLE_DEL = 81"
definition VIMS_BUNDLE_ADD :: int where "VIMS_BUNDLE_ADD = 82"
definition VIMS_BUNDLE_ATTACH_KEY :: int where "VIMS_BUNDLE_ATTACH_KEY = 83"
definition VIMS_BUNDLE_FILE :: int where "VIMS_BUNDLE_FILE = 84"
definition VIMS_BUNDLE_SAVE :: int where "VIMS_BUNDLE_SAVE = 85"
definition VIMS_BUNDLE_CAPTURE :: int where "VIMS_BUNDLE_CAPTURE = 86"
definition VIMS_SET_SAMPLE_START :: int where "VIMS_SET_SAMPLE_START = 150"
definition VIMS_SET_SAMPLE_END :: int where "VIMS_SET_SAMPLE_END = 151"
definition VIMS_SAMPLE_KF_CLEAR :: int where "VIMS_SAMPLE_KF_CLEAR = 152"
definition VIMS_SAMPLE_NEW :: int where "VIMS_SAMPLE_NEW = 100"
definition VIMS_SAMPLE_SELECT :: int where "VIMS_SAMPLE_SELECT = 101"
definition VIMS_SAMPLE_DEL :: int where "VIMS_SAMPLE_DEL = 120"
definition VIMS_SAMPLE_SET_LOOPTYPE :: int where "VIMS_SAMPLE_SET_LOOPTYPE = 102"
definition VIMS_SAMPLE_SET_DESCRIPTION :: int where "VIMS_SAMPLE_SET_DESCRIPTION = 103"
definition VIMS_SAMPLE_SET_SPEED :: int where "VIMS_SAMPLE_SET_SPEED = 104"
definition VIMS_SAMPLE_SET_START :: int where "VIMS_SAMPLE_SET_START = 105"
definition VIMS_SAMPLE_SET_END :: int where "VIMS_SAMPLE_SET_END = 106"
definition VIMS_SAMPLE_SET_DUP :: int where "VIMS_SAMPLE_SET_DUP = 107"
definition VIMS_SAMPLE_SET_MARKER_START :: int where "VIMS_SAMPLE_SET_MARKER_START = 108"
definition VIMS_SAMPLE_SET_MARKER_END :: int where "VIMS_SAMPLE_SET_MARKER_END = 109"
definition VIMS_SAMPLE_SET_MARKER :: int where "VIMS_SAMPLE_SET_MARKER = 110"
definition VIMS_SAMPLE_SKIP_FRAME :: int where "VIMS_SAMPLE_SKIP_FRAME = 114"
definition VIMS_SAMPLE_CLEAR_MARKER :: int where "VIMS_SAMPLE_CLEAR_MARKER = 111"
definition VIMS_SAMPLE_LOAD_SAMPLELIST :: int where "VIMS_SAMPLE_LOAD_SAMPLELIST = 125"
definition VIMS_SAMPLE_SAVE_SAMPLELIST :: int where "VIMS_SAMPLE_SAVE_SAMPLELIST = 126"
definition VIMS_SAMPLE_DEL_ALL :: int where "VIMS_SAMPLE_DEL_ALL = 121"
definition VIMS_SAMPLE_COPY :: int where "VIMS_SAMPLE_COPY = 127"
definition VIMS_SAMPLE_SET_POSITION :: int where "VIMS_SAMPLE_SET_POSITION = 128"
definition VIMS_SAMPLE_REC_START :: int where "VIMS_SAMPLE_REC_START = 130"
definition VIMS_SAMPLE_REC_STOP :: int where "VIMS_SAMPLE_REC_STOP = 131"
definition VIMS_SAMPLE_CHAIN_ENABLE :: int where "VIMS_SAMPLE_CHAIN_ENABLE = 112"
definition VIMS_SAMPLE_CHAIN_DISABLE :: int where "VIMS_SAMPLE_CHAIN_DISABLE = 113"
definition VIMS_SAMPLE_UPDATE :: int where "VIMS_SAMPLE_UPDATE = 143"
definition VIMS_SAMPLE_TOGGLE_LOOP :: int where "VIMS_SAMPLE_TOGGLE_LOOP = 144"
definition VIMS_SAMPLE_KF_STATUS :: int where "VIMS_SAMPLE_KF_STATUS = 145"
definition VIMS_SAMPLE_KF_GET :: int where "VIMS_SAMPLE_KF_GET = 146"
definition VIMS_SAMPLE_KF_RESET :: int where "VIMS_SAMPLE_KF_RESET = 147"
definition VIMS_SAMPLE_HOLD_FRAME :: int where "VIMS_SAMPLE_HOLD_FRAME = 148"
definition VIMS_SAMPLE_NEXT :: int where "VIMS_SAMPLE_NEXT = 149"
definition VIMS_STREAM_COLOR :: int where "VIMS_STREAM_COLOR = 202"
definition VIMS_STREAM_SELECT :: int where "VIMS_STREAM_SELECT = 201"
definition VIMS_STREAM_DELETE :: int where "VIMS_STREAM_DELETE = 220"
definition VIMS_STREAM_NEW_V4L :: int where "VIMS_STREAM_NEW_V4L = 240"
definition VIMS_STREAM_NEW_COLOR :: int where "VIMS_STREAM_NEW_COLOR = 242"
definition VIMS_STREAM_NEW_Y4M :: int where "VIMS_STREAM_NEW_Y4M = 243"
definition VIMS_STREAM_NEW_CALI :: int where "VIMS_STREAM_NEW_CALI = 244"
definition VIMS_V4L_BLACKFRAME :: int where "VIMS_V4L_BLACKFRAME = 248"
definition VIMS_V4L_CALI :: int where "VIMS_V4L_CALI = 249"
definition VIMS_STREAM_NEW_UNICAST :: int where "VIMS_STREAM_NEW_UNICAST = 245"
definition VIMS_STREAM_NEW_MCAST :: int where "VIMS_STREAM_NEW_MCAST = 246"
definition VIMS_STREAM_NEW_PICTURE :: int where "VIMS_STREAM_NEW_PICTURE = 247"
definition VIMS_STREAM_NEW_GENERATOR :: int where "VIMS_STREAM_NEW_GENERATOR = 250"
definition VIMS_STREAM_NEW_SHARED :: int where "VIMS_STREAM_NEW_SHARED = 251"
definition VIMS_STREAM_OFFLINE_REC_START :: int where "VIMS_STREAM_OFFLINE_REC_START = 228"
definition VIMS_STREAM_OFFLINE_REC_STOP :: int where "VIMS_STREAM_OFFLINE_REC_STOP = 229"
definition VIMS_STREAM_REC_START :: int where "VIMS_STREAM_REC_START = 230"
definition VIMS_STREAM_REC_STOP :: int where "VIMS_STREAM_REC_STOP = 231"
definition VIMS_STREAM_CHAIN_ENABLE :: int where "VIMS_STREAM_CHAIN_ENABLE = 212"
definition VIMS_STREAM_CHAIN_DISABLE :: int where "VIMS_STREAM_CHAIN_DISABLE = 213"
definition VIMS_STREAM_SET_DESCRIPTION :: int where "VIMS_STREAM_SET_DESCRIPTION = 203"
definition VIMS_STREAM_SET_BRIGHTNESS :: int where "VIMS_STREAM_SET_BRIGHTNESS = 207"
definition VIMS_STREAM_SET_CONTRAST :: int where "VIMS_STREAM_SET_CONTRAST = 208"
definition VIMS_STREAM_SET_HUE :: int where "VIMS_STREAM_SET_HUE = 209"
definition VIMS_STREAM_SET_COLOR :: int where "VIMS_STREAM_SET_COLOR = 210"
definition VIMS_STREAM_SET_WHITE :: int where "VIMS_STREAM_SET_WHITE = 211"
definition VIMS_STREAM_SET_SATURATION :: int where "VIMS_STREAM_SET_SATURATION = 215"
definition VIMS_STREAM_SET_LENGTH :: int where "VIMS_STREAM_SET_LENGTH = 216"
definition VIMS_SEQUENCE_STATUS :: int where "VIMS_SEQUENCE_STATUS = 340"
definition VIMS_SEQUENCE_ADD :: int where "VIMS_SEQUENCE_ADD = 341"
definition VIMS_SEQUENCE_DEL :: int where "VIMS_SEQUENCE_DEL = 342"
definition VIMS_PROJ_INC :: int where "VIMS_PROJ_INC = 160"
definition VIMS_PROJ_DEC :: int where "VIMS_PROJ_DEC = 161"
definition VIMS_PROJ_SET_POINT :: int where "VIMS_PROJ_SET_POINT = 162"
definition VIMS_PROJ_STACK :: int where "VIMS_PROJ_STACK = 164"
definition VIMS_PROJ_TOGGLE :: int where "VIMS_PROJ_TOGGLE = 165"
definition VIMS_CHAIN_ENTRY_SET_NARG_VAL :: int where "VIMS_CHAIN_ENTRY_SET_NARG_VAL = 349"
definition VIMS_CHAIN_ENTRY_CHANNEL_INC :: int where "VIMS_CHAIN_ENTRY_CHANNEL_INC = 350"
definition VIMS_CHAIN_ENTRY_CHANNEL_DEC :: int where "VIMS_CHAIN_ENTRY_CHANNEL_DEC = 351"
definition VIMS_CHAIN_TOGGLE_ALL :: int where "VIMS_CHAIN_TOGGLE_ALL = 352"
definition VIMS_CHAIN_ENABLE :: int where "VIMS_CHAIN_ENABLE = 353"
definition VIMS_CHAIN_DISABLE :: int where "VIMS_CHAIN_DISABLE = 354"
definition VIMS_CHAIN_CLEAR :: int where "VIMS_CHAIN_CLEAR = 355"
definition VIMS_CHAIN_FADE_IN :: int where "VIMS_CHAIN_FADE_IN = 356"
definition VIMS_CHAIN_FADE_OUT :: int where "VIMS_CHAIN_FADE_OUT = 357"
definition VIMS_CHAIN_LIST :: int where "VIMS_CHAIN_LIST = 358"
definition VIMS_CHAIN_SET_ENTRY :: int where "VIMS_CHAIN_SET_ENTRY = 359"
definition VIMS_CHAIN_ENTRY_SET_EFFECT :: int where "VIMS_CHAIN_ENTRY_SET_EFFECT = 360"
definition VIMS_CHAIN_ENTRY_SET_PRESET :: int where "VIMS_CHAIN_ENTRY_SET_PRESET = 361"
definition VIMS_CHAIN_ENTRY_SET_ARG_VAL :: int where "VIMS_CHAIN_ENTRY_SET_ARG_VAL = 362"
definition VIMS_CHAIN_ENTRY_SET_VIDEO_ON :: int where "VIMS_CHAIN_ENTRY_SET_VIDEO_ON = 363"
definition VIMS_CHAIN_ENTRY_SET_VIDEO_OFF :: int where "VIMS_CHAIN_ENTRY_SET_VIDEO_OFF = 364"
definition VIMS_CHAIN_ENTRY_SET_DEFAULTS :: int where "VIMS_CHAIN_ENTRY_SET_DEFAULTS = 365"
definition VIMS_CHAIN_ENTRY_SET_CHANNEL :: int where "VIMS_CHAIN_ENTRY_SET_CHANNEL = 366"
definition VIMS_CHAIN_ENTRY_SET_SOURCE :: int where "VIMS_CHAIN_ENTRY_SET_SOURCE = 367"
definition VIMS_CHAIN_ENTRY_SET_SOURCE_CHANNEL :: int where "VIMS_CHAIN_ENTRY_SET_SOURCE_CHANNEL = 368"
definition VIMS_CHAIN_ENTRY_CLEAR :: int where "VIMS_CHAIN_ENTRY_CLEAR = 369"
definition VIMS_CHAIN_MANUAL_FADE :: int where "VIMS_CHAIN_MANUAL_FADE = 370"
definition VIMS_CHAIN_ENTRY_DOWN :: int where "VIMS_CHAIN_ENTRY_DOWN = 371"
definition VIMS_CHAIN_ENTRY_UP :: int where "VIMS_CHAIN_ENTRY_UP = 372"
definition VIMS_CHAIN_ENTRY_SOURCE_TOGGLE :: int where "VIMS_CHAIN_ENTRY_SOURCE_TOGGLE = 373"
definition VIMS_CHAIN_ENTRY_INC_ARG :: int where "VIMS_CHAIN_ENTRY_INC_ARG = 374"
definition VIMS_CHAIN_ENTRY_DEC_ARG :: int where "VIMS_CHAIN_ENTRY_DEC_ARG = 375"
definition VIMS_CHAIN_TOGGLE :: int where "VIMS_CHAIN_TOGGLE = 376"
definition VIMS_CHAIN_ENTRY_SET_STATE :: int where "VIMS_CHAIN_ENTRY_SET_STATE = 377"
definition VIMS_CHAIN_FOLLOW_FADE :: int where "VIMS_CHAIN_FOLLOW_FADE = 382"
definition VIMS_OSL :: int where "VIMS_OSL = 387"
definition VIMS_OSD_EXTRA :: int where "VIMS_OSD_EXTRA = 388"
definition VIMS_COPYRIGHT :: int where "VIMS_COPYRIGHT = 389"
definition VIMS_FONT_POS :: int where "VIMS_FONT_POS = 390"
definition VIMS_FONT_COL :: int where "VIMS_FONT_COL = 391"
definition VIMS_FONT_SIZE_FONT :: int where "VIMS_FONT_SIZE_FONT = 392"
definition VIMS_SRT_ADD :: int where "VIMS_SRT_ADD = 393"
definition VIMS_SRT_DEL :: int where "VIMS_SRT_DEL = 394"
definition VIMS_SRT_UPDATE :: int where "VIMS_SRT_UPDATE = 395"
definition VIMS_SRT_SAVE :: int where "VIMS_SRT_SAVE = 396"
definition VIMS_SRT_LOAD :: int where "VIMS_SRT_LOAD = 397"
definition VIMS_SRT_SELECT :: int where "VIMS_SRT_SELECT = 398"
definition VIMS_OSD :: int where "VIMS_OSD = 399"
definition VIMS_OUTPUT_Y4M_START :: int where "VIMS_OUTPUT_Y4M_START = 40"
definition VIMS_OUTPUT_Y4M_STOP :: int where "VIMS_OUTPUT_Y4M_STOP = 41"
definition VIMS_GET_FRAME :: int where "VIMS_GET_FRAME = 42"
definition VIMS_VLOOPBACK_START :: int where "VIMS_VLOOPBACK_START = 45"
definition VIMS_VLOOPBACK_STOP :: int where "VIMS_VLOOPBACK_STOP = 46"

lemmas vims_ids = VIMS_MAX_def VIMS_FXLIST_INC_def VIMS_FXLIST_DEC_def VIMS_FXLIST_ADD_def VIMS_PRINT_INFO_def
  VIMS_PREVIEW_BW_def VIMS_FRONTBACK_def VIMS_COMPOSITE_def VIMS_RENDER_DEPTH_def VIMS_FEEDBACK_def VIMS_MACRO_def
  VIMS_MACRO_SELECT_def VIMS_CONTINUOUS_PLAY_def VIMS_VIDEO_INFORMATION_def VIMS_PROMOTION_def VIMS_EFFECT_LIST_def
  VIMS_EDITLIST_LIST_def VIMS_BUNDLE_LIST_def VIMS_STREAM_LIST_def VIMS_SAMPLE_LIST_def VIMS_STREAM_GET_V4L_def
  VIMS_CHAIN_GET_ENTRY_def VIMS_VIMS_LIST_def VIMS_SAMPLE_INFO_def VIMS_SAMPLE_OPTIONS_def VIMS_DEVICE_LIST_def
  VIMS_FONT_LIST_def VIMS_SRT_LIST_def VIMS_SRT_INFO_def VIMS_TRACK_LIST_def VIMS_SEQUENCE_LIST_def VIMS_KEYLIST_def
  VIMS_WORKINGDIR_def VIMS_SAMPLE_STACK_def VIMS_GET_IMAGE_def VIMS_GET_SHM_def VIMS_CHAIN_GET_PARAMETERS_def
  VIMS_SET_VOLUME_def VIMS_FULLSCREEN_def VIMS_SUSPEND_def VIMS_QUIT_def VIMS_CLOSE_def VIMS_RECORD_DATAFORMAT_def
  VIMS_SET_PLAIN_MODE_def VIMS_SWITCH_SAMPLE_STREAM_def VIMS_AUDIO_ENABLE_def VIMS_AUDIO_DISABLE_def
  VIMS_SELECT_BANK_def VIMS_SELECT_ID_def VIMS_SAMPLE_RAND_START_def VIMS_SAMPLE_RAND_STOP_def VIMS_REC_AUTO_START_def
  VIMS_REC_STOP_def VIMS_REC_START_def VIMS_EFFECT_SET_BG_def VIMS_SAMPLE_MODE_def VIMS_BEZERK_def
  VIMS_DEBUG_LEVEL_def VIMS_RESIZE_SDL_SCREEN_def VIMS_SET_PLAY_MODE_def VIMS_SET_MODE_AND_GO_def
  VIMS_RGB_PARAMETER_TYPE_def VIMS_SCREENSHOT_def VIMS_NO_CACHING_def VIMS_RGB24_IMAGE_def VIMS_CALI_IMAGE_def
  VIMS_SYNC_CORRECTION_def VIMS_FRAMERATE_def VIMS_SUB_RENDER_def VIMS_VIDEO_PLAY_FORWARD_def
  VIMS_VIDEO_PLAY_BACKWARD_def VIMS_VIDEO_PLAY_STOP_def VIMS_VIDEO_SKIP_FRAME_def VIMS_VIDEO_PREV_FRAME_def
  VIMS_VIDEO_SKIP_SECOND_def VIMS_VIDEO_PREV_SECOND_def VIMS_VIDEO_GOTO_START_def VIMS_VIDEO_GOTO_END_def
  VIMS_VIDEO_SET_FRAME_def VIMS_VIDEO_SET_SPEED_def VIMS_VIDEO_SET_SLOW_def VIMS_VIDEO_MCAST_START_def
  VIMS_VIDEO_MCAST_STOP_def VIMS_VIDEO_SET_SPEEDK_def VIMS_EDITLIST_PASTE_AT_def VIMS_SHM_WRITER_def
  VIMS_EDITLIST_COPY_def VIMS_EDITLIST_DEL_def VIMS_EDITLIST_CROP_def VIMS_EDITLIST_CUT_def VIMS_EDITLIST_ADD_def
  VIMS_EDITLIST_ADD_SAMPLE_def VIMS_EDITLIST_SAVE_def VIMS_EDITLIST_LOAD_def VIMS_OFFLINE_SAMPLES_def
  VIMS_OFFLINE_TAGS_def VIMS_OFFLINE_PLAYMODE_def VIMS_BUNDLE_def VIMS_BUNDLE_DEL_def VIMS_BUNDLE_ADD_def
  VIMS_BUNDLE_ATTACH_KEY_def VIMS_BUNDLE_FILE_def VIMS_BUNDLE_SAVE_def VIMS_BUNDLE_CAPTURE_def
  VIMS_SET_SAMPLE_START_def VIMS_SET_SAMPLE_END_def VIMS_SAMPLE_KF_CLEAR_def VIMS_SAMPLE_NEW_def
  VIMS_SAMPLE_SELECT_def VIMS_SAMPLE_DEL_def VIMS_SAMPLE_SET_LOOPTYPE_def VIMS_SAMPLE_SET_DESCRIPTION_def
  VIMS_SAMPLE_SET_SPEED_def VIMS_SAMPLE_SET_START_def VIMS_SAMPLE_SET_END_def VIMS_SAMPLE_SET_DUP_def
  VIMS_SAMPLE_SET_MARKER_START_def VIMS_SAMPLE_SET_MARKER_END_def VIMS_SAMPLE_SET_MARKER_def
  VIMS_SAMPLE_SKIP_FRAME_def VIMS_SAMPLE_CLEAR_MARKER_def VIMS_SAMPLE_LOAD_SAMPLELIST_def
  VIMS_SAMPLE_SAVE_SAMPLELIST_def VIMS_SAMPLE_DEL_ALL_def VIMS_SAMPLE_COPY_def VIMS_SAMPLE_SET_POSITION_def
  VIMS_SAMPLE_REC_START_def VIMS_SAMPLE_REC_STOP_def VIMS_SAMPLE_CHAIN_ENABLE_def VIMS_SAMPLE_CHAIN_DISABLE_def
  VIMS_SAMPLE_UPDATE_def VIMS_SAMPLE_TOGGLE_LOOP_def VIMS_SAMPLE_KF_STATUS_def VIMS_SAMPLE_KF_GET_def
  VIMS_SAMPLE_KF_RESET_def VIMS_SAMPLE_HOLD_FRAME_def VIMS_SAMPLE_NEXT_def VIMS_STREAM_COLOR_def
  VIMS_STREAM_SELECT_def VIMS_STREAM_DELETE_def VIMS_STREAM_NEW_V4L_def VIMS_STREAM_NEW_COLOR_def
  VIMS_STREAM_NEW_Y4M_def VIMS_STREAM_NEW_CALI_def VIMS_V4L_BLACKFRAME_def VIMS_V4L_CALI_def
  VIMS_STREAM_NEW_UNICAST_def VIMS_STREAM_NEW_MCAST_def VIMS_STREAM_NEW_PICTURE_def VIMS_STREAM_NEW_GENERATOR_def
  VIMS_STREAM_NEW_SHARED_def VIMS_STREAM_OFFLINE_REC_START_def VIMS_STREAM_OFFLINE_REC_STOP_def
  VIMS_STREAM_REC_START_def VIMS_STREAM_REC_STOP_def VIMS_STREAM_CHAIN_ENABLE_def VIMS_STREAM_CHAIN_DISABLE_def
  VIMS_STREAM_SET_DESCRIPTION_def VIMS_STREAM_SET_BRIGHTNESS_def VIMS_STREAM_SET_CONTRAST_def VIMS_STREAM_SET_HUE_def
  VIMS_STREAM_SET_COLOR_def VIMS_STREAM_SET_WHITE_def VIMS_STREAM_SET_SATURATION_def VIMS_STREAM_SET_LENGTH_def
  VIMS_SEQUENCE_STATUS_def VIMS_SEQUENCE_ADD_def VIMS_SEQUENCE_DEL_def VIMS_PROJ_INC_def VIMS_PROJ_DEC_def
  VIMS_PROJ_SET_POINT_def VIMS_PROJ_STACK_def VIMS_PROJ_TOGGLE_def VIMS_CHAIN_ENTRY_SET_NARG_VAL_def
  VIMS_CHAIN_ENTRY_CHANNEL_INC_def VIMS_CHAIN_ENTRY_CHANNEL_DEC_def VIMS_CHAIN_TOGGLE_ALL_def VIMS_CHAIN_ENABLE_def
  VIMS_CHAIN_DISABLE_def VIMS_CHAIN_CLEAR_def VIMS_CHAIN_FADE_IN_def VIMS_CHAIN_FADE_OUT_def VIMS_CHAIN_LIST_def
  VIMS_CHAIN_SET_ENTRY_def VIMS_CHAIN_ENTRY_SET_EFFECT_def VIMS_CHAIN_ENTRY_SET_PRESET_def
  VIMS_CHAIN_ENTRY_SET_ARG_VAL_def VIMS_CHAIN_ENTRY_SET_VIDEO_ON_def VIMS_CHAIN_ENTRY_SET_VIDEO_OFF_def
  VIMS_CHAIN_ENTRY_SET_DEFAULTS_def VIMS_CHAIN_ENTRY_SET_CHANNEL_def VIMS_CHAIN_ENTRY_SET_SOURCE_def
  VIMS_CHAIN_ENTRY_SET_SOURCE_CHANNEL_def VIMS_CHAIN_ENTRY_CLEAR_def VIMS_CHAIN_MANUAL_FADE_def
  VIMS_CHAIN_ENTRY_DOWN_def VIMS_CHAIN_ENTRY_UP_def VIMS_CHAIN_ENTRY_SOURCE_TOGGLE_def VIMS_CHAIN_ENTRY_INC_ARG_def
  VIMS_CHAIN_ENTRY_DEC_ARG_def VIMS_CHAIN_TOGGLE_def VIMS_CHAIN_ENTRY_SET_STATE_def VIMS_CHAIN_FOLLOW_FADE_def
  VIMS_OSL_def VIMS_OSD_EXTRA_def VIMS_COPYRIGHT_def VIMS_FONT_POS_def VIMS_FONT_COL_def VIMS_FONT_SIZE_FONT_def
  VIMS_SRT_ADD_def VIMS_SRT_DEL_def VIMS_SRT_UPDATE_def VIMS_SRT_SAVE_def VIMS_SRT_LOAD_def VIMS_SRT_SELECT_def
  VIMS_OSD_def VIMS_OUTPUT_Y4M_START_def VIMS_OUTPUT_Y4M_STOP_def VIMS_GET_FRAME_def VIMS_VLOOPBACK_START_def
  VIMS_VLOOPBACK_STOP_def

definition VIMS_REQUIRE_ALL_PARAMS :: int where "VIMS_REQUIRE_ALL_PARAMS = 1"
definition VIMS_LONG_PARAMS :: int where "VIMS_LONG_PARAMS = 8"
definition VIMS_ALLOW_ANY :: int where "VIMS_ALLOW_ANY = 16"

lemmas vims_flags = VIMS_REQUIRE_ALL_PARAMS_def VIMS_LONG_PARAMS_def VIMS_ALLOW_ANY_def

subsection \<open>Events\<close>

text \<open>
  \<open>_new_event\<close> takes a variable number of parameters: for each argument its default value, and a null pointer at the end.
  An entry that gives too few makes it read the null pointer as a value, which gives 0, and a 0 where a
  text is wanted is the null pointer. A text where a number is wanted (\<open>Text\<close>) would be read as part of an address.
\<close>

datatype event_param = Def int | Text | Null

record vims_event =
  ev_format :: "string option"
  ev_vims_id :: int
  ev_function :: vims_handler
  ev_arguments :: nat
  ev_flags :: int
  ev_defaults :: "int list"

fun event_defaults :: "string \<Rightarrow> nat \<Rightarrow> nat \<Rightarrow> event_param list \<Rightarrow> int list option" where
  "event_defaults fmt it 0 ps = Some []"
| "event_defaults fmt it (Suc n) ps = do {
     c \<leftarrow> c_nth fmt (int it);
     x \<leftarrow> (case ps of
            Def x # _ \<Rightarrow> if c = CHR ''d'' \<or> x = 0 then Some x else c_undefined
          | Null # _ \<Rightarrow> Some 0
          | Text # _ \<Rightarrow> c_undefined
          | [] \<Rightarrow> c_undefined);
     xs \<leftarrow> event_defaults fmt (it + 3) n (tl ps);
     Some (x # xs) }"

definition new_event :: "string option \<Rightarrow> int \<Rightarrow> vims_handler \<Rightarrow> nat \<Rightarrow> int \<Rightarrow> event_param list \<Rightarrow> vims_event option" where
  "new_event format vims_id f n_arg flags ps = do {
     xs \<leftarrow> (case format of None \<Rightarrow> if n_arg = 0 then Some [] else null_deref | Some fmt \<Rightarrow> event_defaults fmt 1 n_arg ps);
     Some \<lparr>ev_format = format, ev_vims_id = vims_id, ev_function = f, ev_arguments = n_arg, ev_flags = flags,
           ev_defaults = xs\<rparr> }"

text \<open>A handler of a part that is not modelled.\<close>

definition elsewhere :: "string \<Rightarrow> vims_handler" where
  "elsewhere name env fmt va v = ce_outside env name fmt va v"

subsection \<open>The table\<close>

definition vims_events_1 :: "(int \<times> vims_event option) list" where
  "vims_events_1 = [
     (VIMS_MACRO, new_event (Some ''%d %d'') VIMS_MACRO (elsewhere ''vj_event_set_macro_status'')
        2 VIMS_ALLOW_ANY [Def 1, Def 0, Null]),
     (VIMS_MACRO_SELECT, new_event (Some ''%d'') VIMS_MACRO_SELECT (elsewhere ''vj_event_select_macro'')
        1 VIMS_ALLOW_ANY [Def 0, Null]),
     (VIMS_VIDEO_PLAY_FORWARD, new_event None VIMS_VIDEO_PLAY_FORWARD vj_event_play_forward 0 VIMS_ALLOW_ANY [Null]),
     (VIMS_VIDEO_PLAY_BACKWARD, new_event None VIMS_VIDEO_PLAY_BACKWARD vj_event_play_reverse 0 VIMS_ALLOW_ANY [Null]),
     (VIMS_VIDEO_PLAY_STOP, new_event None VIMS_VIDEO_PLAY_STOP vj_event_play_stop 0 VIMS_ALLOW_ANY [Null]),
     (VIMS_VIDEO_SKIP_FRAME, new_event (Some ''%d'') VIMS_VIDEO_SKIP_FRAME vj_event_inc_frame
        1 VIMS_ALLOW_ANY [Def 1, Null]),
     (VIMS_SAMPLE_SKIP_FRAME, new_event (Some ''%d %d'') VIMS_SAMPLE_SKIP_FRAME vj_event_sample_skip_frame
        2 VIMS_REQUIRE_ALL_PARAMS [Def 0, Def 0, Null]),
     (VIMS_VIDEO_PREV_FRAME, new_event (Some ''%d'') VIMS_VIDEO_PREV_FRAME vj_event_dec_frame
        1 VIMS_ALLOW_ANY [Def 1, Null]),
     (VIMS_VIDEO_SKIP_SECOND, new_event (Some ''%d'') VIMS_VIDEO_SKIP_SECOND vj_event_next_second
        1 VIMS_ALLOW_ANY [Def 1, Null]),
     (VIMS_VIDEO_PREV_SECOND, new_event (Some ''%d'') VIMS_VIDEO_PREV_SECOND vj_event_prev_second
        1 VIMS_ALLOW_ANY [Def 1, Null]),
     (VIMS_VIDEO_GOTO_START, new_event None VIMS_VIDEO_GOTO_START vj_event_goto_start 0 VIMS_ALLOW_ANY [Null]),
     (VIMS_VIDEO_GOTO_END, new_event None VIMS_VIDEO_GOTO_END vj_event_goto_end 0 VIMS_ALLOW_ANY [Null]),
     (VIMS_VIDEO_SET_SPEEDK, new_event (Some ''%d'') VIMS_VIDEO_SET_SPEED vj_event_play_speed_kb
        1 VIMS_ALLOW_ANY [Def 1, Null]),
     (VIMS_VIDEO_SET_SPEED, new_event (Some ''%d'') VIMS_VIDEO_SET_SPEED vj_event_play_speed
        1 VIMS_ALLOW_ANY [Def 1, Null])]"

definition vims_events_2 :: "(int \<times> vims_event option) list" where
  "vims_events_2 = [
     (VIMS_VIDEO_SET_SLOW, new_event (Some ''%d'') VIMS_VIDEO_SET_SLOW vj_event_play_slow
        1 VIMS_ALLOW_ANY [Def 0, Null]),
     (VIMS_VIDEO_SET_FRAME, new_event (Some ''%d'') VIMS_VIDEO_SET_FRAME vj_event_set_frame
        1 VIMS_REQUIRE_ALL_PARAMS [Def 0, Null]),
     (VIMS_CHAIN_ENTRY_UP, new_event (Some ''%d'') VIMS_CHAIN_ENTRY_UP vj_event_entry_up
        1 VIMS_ALLOW_ANY [Def 1, Null]),
     (VIMS_CHAIN_ENTRY_DOWN, new_event (Some ''%d'') VIMS_CHAIN_ENTRY_DOWN vj_event_entry_down
        1 VIMS_ALLOW_ANY [Def (- 1), Null]),
     (VIMS_CHAIN_ENTRY_CHANNEL_INC, new_event (Some ''%d'') VIMS_CHAIN_ENTRY_CHANNEL_INC vj_event_chain_entry_channel_inc
        1 VIMS_ALLOW_ANY [Def 1, Null]),
     (VIMS_CHAIN_ENTRY_CHANNEL_DEC, new_event (Some ''%d'') VIMS_CHAIN_ENTRY_CHANNEL_DEC vj_event_chain_entry_channel_dec
        1 VIMS_ALLOW_ANY [Def 1, Null]),
     (VIMS_CHAIN_ENTRY_SOURCE_TOGGLE, new_event (Some ''%d %d'') VIMS_CHAIN_ENTRY_SOURCE_TOGGLE vj_event_chain_entry_src_toggle
        2 VIMS_REQUIRE_ALL_PARAMS [Def 1, Def 0, Null]),
     (VIMS_CHAIN_ENTRY_INC_ARG, new_event (Some ''%d %d'') VIMS_CHAIN_ENTRY_INC_ARG vj_event_chain_arg_inc
        2 VIMS_REQUIRE_ALL_PARAMS [Def 0, Def 0, Null]),
     (VIMS_CHAIN_ENTRY_DEC_ARG, new_event (Some ''%d %d'') VIMS_CHAIN_ENTRY_DEC_ARG vj_event_chain_arg_inc
        2 VIMS_REQUIRE_ALL_PARAMS [Def 0, Def 0, Null]),
     (VIMS_CHAIN_ENTRY_SET_STATE, new_event (Some ''%d %d'') VIMS_CHAIN_ENTRY_SET_STATE vj_event_chain_entry_video_toggle
        0 VIMS_ALLOW_ANY [Null]),
     (VIMS_CHAIN_TOGGLE, new_event None VIMS_CHAIN_TOGGLE vj_event_chain_toggle 0 VIMS_ALLOW_ANY [Null]),
     (VIMS_SET_SAMPLE_START, new_event None VIMS_SET_SAMPLE_START vj_event_sample_start 0 VIMS_ALLOW_ANY [Null]),
     (VIMS_SAMPLE_KF_STATUS, new_event (Some ''%d %d %d'') VIMS_SAMPLE_KF_STATUS vj_event_set_kf_status
        3 VIMS_REQUIRE_ALL_PARAMS [Def 0, Def 0, Def 0, Null])]"

definition vims_events_3 :: "(int \<times> vims_event option) list" where
  "vims_events_3 = [
     (VIMS_SAMPLE_KF_RESET, new_event (Some ''%d'') VIMS_SAMPLE_KF_STATUS vj_event_reset_kf
        1 VIMS_REQUIRE_ALL_PARAMS [Def 0, Null]),
     (VIMS_SAMPLE_KF_GET, new_event (Some ''%d %d'') VIMS_SAMPLE_KF_GET (elsewhere ''vj_event_get_keyframes'')
        2 VIMS_REQUIRE_ALL_PARAMS [Def 0, Def 0, Null]),
     (VIMS_SAMPLE_KF_CLEAR, new_event (Some ''%d %d'') VIMS_SAMPLE_KF_CLEAR (elsewhere ''vj_event_del_keyframes'')
        2 VIMS_REQUIRE_ALL_PARAMS [Def 0, Def 0, Null]),
     (VIMS_SET_SAMPLE_END, new_event None VIMS_SET_SAMPLE_END vj_event_sample_end 0 VIMS_ALLOW_ANY [Null]),
     (VIMS_FXLIST_INC, new_event (Some ''%d'') VIMS_FXLIST_INC vj_event_effect_inc 1 VIMS_ALLOW_ANY [Def 1, Null]),
     (VIMS_FXLIST_DEC, new_event (Some ''%d'') VIMS_FXLIST_DEC vj_event_effect_dec 1 VIMS_ALLOW_ANY [Def 1, Null]),
     (VIMS_FXLIST_ADD, new_event None VIMS_FXLIST_ADD vj_event_effect_add 0 VIMS_ALLOW_ANY [Null]),
     (VIMS_SELECT_BANK, new_event (Some ''%d'') VIMS_SELECT_BANK vj_event_select_bank 1 VIMS_ALLOW_ANY [Def 0, Null]),
     (VIMS_SELECT_ID, new_event (Some ''%d'') VIMS_SELECT_ID vj_event_select_id 1 VIMS_ALLOW_ANY [Def 1, Null]),
     (VIMS_SAMPLE_RAND_START, new_event (Some ''%d'') VIMS_SAMPLE_RAND_START vj_event_sample_rand_start
        1 VIMS_ALLOW_ANY [Def 0, Null]),
     (VIMS_SAMPLE_RAND_STOP, new_event None VIMS_SAMPLE_RAND_STOP vj_event_sample_rand_stop 0 VIMS_ALLOW_ANY [Null]),
     (VIMS_SAMPLE_TOGGLE_LOOP, new_event (Some ''%d %d'') VIMS_SAMPLE_TOGGLE_LOOP vj_event_sample_set_loop_type
        2 VIMS_REQUIRE_ALL_PARAMS [Def 0, Def (- 1), Null]),
     (VIMS_PREVIEW_BW, new_event None VIMS_PREVIEW_BW (elsewhere ''vj_event_toggle_bw'')
        0 VIMS_ALLOW_ANY [Null, Null]),
     (VIMS_RECORD_DATAFORMAT, new_event (Some ''%s'') VIMS_RECORD_DATAFORMAT (elsewhere ''vj_event_tag_set_format'')
        1 (VIMS_REQUIRE_ALL_PARAMS OR VIMS_LONG_PARAMS) [Null, Null])]"

definition vims_events_4 :: "(int \<times> vims_event option) list" where
  "vims_events_4 = [
     (VIMS_REC_AUTO_START, new_event None VIMS_REC_AUTO_START vj_event_misc_start_rec_auto 0 VIMS_ALLOW_ANY [Null]),
     (VIMS_REC_START, new_event None VIMS_REC_START vj_event_misc_start_rec 0 VIMS_ALLOW_ANY [Null]),
     (VIMS_REC_STOP, new_event None VIMS_REC_STOP vj_event_misc_stop_rec 0 VIMS_ALLOW_ANY [Null]),
     (VIMS_SAMPLE_NEW, new_event (Some ''%d %d'') VIMS_SAMPLE_NEW vj_event_sample_new
        2 VIMS_REQUIRE_ALL_PARAMS [Def 0, Def (- 1), Null]),
     (VIMS_PRINT_INFO, new_event (Some ''%d'') VIMS_PRINT_INFO (elsewhere ''vj_event_print_info'')
        1 VIMS_ALLOW_ANY [Def 0, Null]),
     (VIMS_SET_PLAIN_MODE, new_event (Some ''%d'') VIMS_SET_PLAIN_MODE vj_event_set_play_mode
        1 VIMS_ALLOW_ANY [Def 2, Null]),
     (VIMS_SAMPLE_SET_LOOPTYPE, new_event (Some ''%d %d'') VIMS_SAMPLE_SET_LOOPTYPE vj_event_sample_set_loop_type
        2 VIMS_REQUIRE_ALL_PARAMS [Def 0, Def 1, Null]),
     (VIMS_SAMPLE_SET_SPEED, new_event (Some ''%d %d'') VIMS_SAMPLE_SET_SPEED vj_event_sample_set_speed
        2 VIMS_REQUIRE_ALL_PARAMS [Def 0, Def 1, Null]),
     (VIMS_SAMPLE_HOLD_FRAME, new_event (Some ''%d %d %d'') VIMS_SAMPLE_HOLD_FRAME vj_event_hold_frame
        3 VIMS_ALLOW_ANY [Def 0, Def 0, Def 5, Null]),
     (VIMS_SAMPLE_NEXT, new_event None VIMS_SAMPLE_NEXT vj_event_sample_next 0 VIMS_ALLOW_ANY [Null]),
     (VIMS_SAMPLE_SET_POSITION, new_event (Some ''%d %d %d'') VIMS_SAMPLE_SET_POSITION vj_event_sample_set_position
        3 VIMS_REQUIRE_ALL_PARAMS [Def 0, Def (- 1), Def (- 1), Null]),
     (VIMS_SAMPLE_SET_DESCRIPTION, new_event (Some ''%d %s'') VIMS_SAMPLE_SET_DESCRIPTION vj_event_sample_set_descr
        2 (VIMS_REQUIRE_ALL_PARAMS OR VIMS_LONG_PARAMS) [Def 0, Null, Null])]"

definition vims_events_5 :: "(int \<times> vims_event option) list" where
  "vims_events_5 = [
     (VIMS_SAMPLE_SET_END, new_event (Some ''%d %d'') VIMS_SAMPLE_SET_END vj_event_sample_set_end
        2 VIMS_REQUIRE_ALL_PARAMS [Def 0, Def 0, Null]),
     (VIMS_SAMPLE_SET_START, new_event (Some ''%d %d'') VIMS_SAMPLE_SET_START vj_event_sample_set_start
        2 VIMS_REQUIRE_ALL_PARAMS [Def 0, Def 0, Null]),
     (VIMS_SAMPLE_SET_DUP, new_event (Some ''%d %d'') VIMS_SAMPLE_SET_DUP vj_event_sample_set_dup
        2 VIMS_REQUIRE_ALL_PARAMS [Def 0, Def 0, Null]),
     (VIMS_SAMPLE_SET_MARKER_START, new_event (Some ''%d %d'') VIMS_SAMPLE_SET_MARKER_START vj_event_sample_set_marker_start
        2 VIMS_REQUIRE_ALL_PARAMS [Def 0, Def 0, Null]),
     (VIMS_SAMPLE_SET_MARKER_END, new_event (Some ''%d %d'') VIMS_SAMPLE_SET_MARKER_END vj_event_sample_set_marker_end
        2 VIMS_REQUIRE_ALL_PARAMS [Def 0, Def 0, Null]),
     (VIMS_SAMPLE_SET_MARKER, new_event (Some ''%d %d %d'') VIMS_SAMPLE_SET_MARKER vj_event_sample_set_marker
        3 VIMS_REQUIRE_ALL_PARAMS [Def 0, Def 0, Def 0, Null]),
     (VIMS_SAMPLE_CLEAR_MARKER, new_event (Some ''%d'') VIMS_SAMPLE_CLEAR_MARKER vj_event_sample_set_marker_clear
        1 VIMS_ALLOW_ANY [Def 0, Null]),
     (VIMS_SAMPLE_LOAD_SAMPLELIST, new_event (Some ''%s'') VIMS_SAMPLE_LOAD_SAMPLELIST (elsewhere ''vj_event_sample_load_list'')
        1 (VIMS_REQUIRE_ALL_PARAMS OR VIMS_LONG_PARAMS) [Null, Null]),
     (VIMS_SAMPLE_SAVE_SAMPLELIST, new_event (Some ''%s'') VIMS_SAMPLE_SAVE_SAMPLELIST (elsewhere ''vj_event_sample_save_list'')
        1 (VIMS_REQUIRE_ALL_PARAMS OR VIMS_LONG_PARAMS) [Null, Null]),
     (VIMS_SAMPLE_CHAIN_ENABLE, new_event (Some ''%d'') VIMS_SAMPLE_CHAIN_ENABLE vj_event_sample_chain_enable
        1 VIMS_ALLOW_ANY [Def 0, Null]),
     (VIMS_SAMPLE_CHAIN_DISABLE, new_event (Some ''%d'') VIMS_SAMPLE_CHAIN_DISABLE vj_event_sample_chain_disable
        1 VIMS_ALLOW_ANY [Def 0, Null]),
     (VIMS_SAMPLE_REC_START, new_event (Some ''%d %d'') VIMS_SAMPLE_REC_START (elsewhere ''vj_event_sample_rec_start'')
        2 VIMS_REQUIRE_ALL_PARAMS [Def 0, Def 0, Null])]"

definition vims_events_6 :: "(int \<times> vims_event option) list" where
  "vims_events_6 = [
     (VIMS_SAMPLE_REC_STOP, new_event None VIMS_SAMPLE_REC_STOP (elsewhere ''vj_event_sample_rec_stop'')
        0 VIMS_ALLOW_ANY [Null]),
     (VIMS_SAMPLE_DEL, new_event (Some ''%d'') VIMS_SAMPLE_DEL vj_event_sample_del
        1 VIMS_REQUIRE_ALL_PARAMS [Def 0, Null]),
     (VIMS_SAMPLE_DEL_ALL, new_event None VIMS_SAMPLE_DEL_ALL vj_event_sample_clear_all 0 VIMS_ALLOW_ANY [Null]),
     (VIMS_SAMPLE_COPY, new_event (Some ''%d'') VIMS_SAMPLE_COPY vj_event_sample_copy
        1 VIMS_REQUIRE_ALL_PARAMS [Def 0, Null]),
     (VIMS_SAMPLE_SELECT, new_event (Some ''%d'') VIMS_SAMPLE_SELECT vj_event_sample_select
        1 VIMS_ALLOW_ANY [Def 0, Null]),
     (VIMS_STREAM_SELECT, new_event (Some ''%d'') VIMS_STREAM_SELECT vj_event_tag_select
        1 VIMS_ALLOW_ANY [Def 0, Null]),
     (VIMS_STREAM_DELETE, new_event (Some ''%d'') VIMS_STREAM_DELETE vj_event_tag_del
        1 VIMS_REQUIRE_ALL_PARAMS [Def 0, Null]),
     (VIMS_V4L_CALI, new_event (Some ''%s'') VIMS_V4L_CALI (elsewhere ''vj_event_cali_write_file'')
        1 (VIMS_REQUIRE_ALL_PARAMS OR VIMS_LONG_PARAMS) [Null, Null]),
     (VIMS_STREAM_NEW_CALI, new_event (Some ''%s'') VIMS_STREAM_NEW_CALI vj_event_stream_new_cali
        1 (VIMS_REQUIRE_ALL_PARAMS OR VIMS_LONG_PARAMS) [Null, Null]),
     (VIMS_V4L_BLACKFRAME, new_event (Some ''%d %d %d %d'') VIMS_V4L_BLACKFRAME (elsewhere ''vj_event_v4l_blackframe'')
        4 VIMS_REQUIRE_ALL_PARAMS [Def 0, Def 5, Def 0, Def 0, Null]),
     (VIMS_STREAM_NEW_SHARED, new_event (Some ''%d'') VIMS_STREAM_NEW_SHARED (elsewhere ''vj_event_connect_shm'')
        1 VIMS_REQUIRE_ALL_PARAMS [Def 0, Null, Null]),
     (VIMS_STREAM_NEW_GENERATOR, new_event (Some ''%d %s'') VIMS_STREAM_NEW_GENERATOR vj_event_tag_new_generator
        2 VIMS_REQUIRE_ALL_PARAMS [Def 0, Null]),
     (VIMS_STREAM_NEW_V4L, new_event (Some ''%d %d'') VIMS_STREAM_NEW_V4L vj_event_tag_new_v4l
        2 VIMS_REQUIRE_ALL_PARAMS [Def 0, Def 0, Null])]"

definition vims_events_7 :: "(int \<times> vims_event option) list" where
  "vims_events_7 = [
     (VIMS_STREAM_NEW_Y4M, new_event (Some ''%s'') VIMS_STREAM_NEW_Y4M vj_event_tag_new_y4m
        1 VIMS_REQUIRE_ALL_PARAMS [Null, Null]),
     (VIMS_STREAM_NEW_COLOR, new_event (Some ''%d %d %d'') VIMS_STREAM_NEW_COLOR vj_event_tag_new_color
        3 VIMS_REQUIRE_ALL_PARAMS [Def 0, Def 0, Def 0, Null]),
     (VIMS_RGB_PARAMETER_TYPE, new_event (Some ''%d'') VIMS_RGB_PARAMETER_TYPE vj_event_set_rgb_parameter_type
        1 VIMS_REQUIRE_ALL_PARAMS [Def 0, Null]),
     (VIMS_STREAM_COLOR, new_event (Some ''%d %d %d %d'') VIMS_STREAM_COLOR vj_event_set_stream_color
        4 (VIMS_LONG_PARAMS OR VIMS_REQUIRE_ALL_PARAMS) [Def 0, Def 0, Def 0, Def 0, Null]),
     (VIMS_STREAM_NEW_UNICAST, new_event (Some ''%d %s'') VIMS_STREAM_NEW_UNICAST vj_event_tag_new_net
        2 (VIMS_LONG_PARAMS OR VIMS_REQUIRE_ALL_PARAMS) [Def 0, Null, Null]),
     (VIMS_STREAM_NEW_MCAST, new_event (Some ''%d %s'') VIMS_STREAM_NEW_MCAST vj_event_tag_new_mcast
        2 (VIMS_LONG_PARAMS OR VIMS_REQUIRE_ALL_PARAMS) [Def 0, Null, Null]),
     (VIMS_STREAM_NEW_PICTURE, new_event (Some ''%s'') VIMS_STREAM_NEW_PICTURE vj_event_tag_new_picture
        1 (VIMS_LONG_PARAMS OR VIMS_REQUIRE_ALL_PARAMS) [Null, Null]),
     (VIMS_STREAM_OFFLINE_REC_START, new_event (Some ''%d %d %d'') VIMS_STREAM_OFFLINE_REC_START (elsewhere ''vj_event_tag_rec_offline_start'')
        3 VIMS_REQUIRE_ALL_PARAMS [Def 0, Def 0, Def 0, Null]),
     (VIMS_STREAM_OFFLINE_REC_STOP, new_event None VIMS_STREAM_OFFLINE_REC_STOP (elsewhere ''vj_event_tag_rec_offline_stop'')
        0 VIMS_ALLOW_ANY [Null]),
     (VIMS_STREAM_SET_DESCRIPTION, new_event (Some ''%d %s'') VIMS_STREAM_SET_DESCRIPTION vj_event_tag_set_descr
        2 (VIMS_LONG_PARAMS OR VIMS_REQUIRE_ALL_PARAMS) [Def 0, Null, Null]),
     (VIMS_STREAM_REC_START, new_event (Some ''%d %d'') VIMS_STREAM_REC_START (elsewhere ''vj_event_tag_rec_start'')
        2 VIMS_REQUIRE_ALL_PARAMS [Def 0, Def 0, Null]),
     (VIMS_STREAM_REC_STOP, new_event (Some ''%d %d'') VIMS_STREAM_REC_STOP (elsewhere ''vj_event_tag_rec_stop'')
        0 VIMS_ALLOW_ANY [Null])]"

definition vims_events_8 :: "(int \<times> vims_event option) list" where
  "vims_events_8 = [
     (VIMS_STREAM_CHAIN_ENABLE, new_event (Some ''%d'') VIMS_STREAM_CHAIN_ENABLE vj_event_tag_chain_enable
        1 VIMS_ALLOW_ANY [Def 0, Null]),
     (VIMS_STREAM_CHAIN_DISABLE, new_event (Some ''%d'') VIMS_STREAM_CHAIN_DISABLE vj_event_tag_chain_disable
        1 VIMS_ALLOW_ANY [Def 0, Null]),
     (VIMS_CHAIN_ENTRY_SET_EFFECT, new_event (Some ''%d %d %d'') VIMS_CHAIN_ENTRY_SET_EFFECT vj_event_chain_entry_set
        3 VIMS_REQUIRE_ALL_PARAMS [Def 0, Def (- 1), Def 0, Null]),
     (VIMS_CHAIN_ENTRY_SET_PRESET, new_event (Some ''%d %d %d %s'') VIMS_CHAIN_ENTRY_SET_PRESET vj_event_chain_entry_preset
        4 VIMS_LONG_PARAMS [Def 0, Def (- 1), Def 0, Null, Null]),
     (VIMS_CHAIN_ENTRY_SET_NARG_VAL, new_event (Some ''%d %d %d %s'') VIMS_CHAIN_ENTRY_SET_ARG_VAL vj_event_chain_entry_set_narg_val
        4 VIMS_LONG_PARAMS [Def 0, Def (- 1), Def 0, Def 0, Null]),
     (VIMS_CHAIN_ENTRY_SET_ARG_VAL, new_event (Some ''%d %d %d %d'') VIMS_CHAIN_ENTRY_SET_ARG_VAL vj_event_chain_entry_set_arg_val
        4 VIMS_REQUIRE_ALL_PARAMS [Def 0, Def (- 1), Def 0, Def 0, Null]),
     (VIMS_CHAIN_ENTRY_SET_VIDEO_ON, new_event (Some ''%d %d'') VIMS_CHAIN_ENTRY_SET_VIDEO_ON vj_event_chain_entry_enable_video
        2 VIMS_REQUIRE_ALL_PARAMS [Def 0, Def (- 1), Null]),
     (VIMS_CHAIN_ENTRY_SET_VIDEO_OFF, new_event (Some ''%d %d'') VIMS_CHAIN_ENTRY_SET_VIDEO_OFF vj_event_chain_entry_disable_video
        2 VIMS_REQUIRE_ALL_PARAMS [Def 0, Def (- 1), Null]),
     (VIMS_CHAIN_ENTRY_SET_DEFAULTS, new_event (Some ''%d %d'') VIMS_CHAIN_ENTRY_SET_DEFAULTS vj_event_chain_entry_set_defaults
        2 VIMS_REQUIRE_ALL_PARAMS [Def 0, Def (- 1), Null]),
     (VIMS_CHAIN_ENTRY_SET_CHANNEL, new_event (Some ''%d %d %d'') VIMS_CHAIN_ENTRY_SET_CHANNEL vj_event_chain_entry_channel
        3 VIMS_REQUIRE_ALL_PARAMS [Def 0, Def (- 1), Def 1, Null])]"

definition vims_events_9 :: "(int \<times> vims_event option) list" where
  "vims_events_9 = [
     (VIMS_CHAIN_ENTRY_SET_SOURCE, new_event (Some ''%d %d %d'') VIMS_CHAIN_ENTRY_SET_SOURCE vj_event_chain_entry_source
        3 VIMS_REQUIRE_ALL_PARAMS [Def 0, Def (- 1), Def 0, Null]),
     (VIMS_CHAIN_ENTRY_SET_SOURCE_CHANNEL, new_event (Some ''%d %d %d %d'') VIMS_CHAIN_ENTRY_SET_SOURCE_CHANNEL vj_event_chain_entry_srccha
        4 VIMS_REQUIRE_ALL_PARAMS [Def 0, Def (- 1), Def 0, Def 0, Null]),
     (VIMS_CHAIN_ENTRY_CLEAR, new_event (Some ''%d %d'') VIMS_CHAIN_ENTRY_CLEAR vj_event_chain_entry_del
        2 VIMS_REQUIRE_ALL_PARAMS [Def 0, Def (- 1), Null]),
     (VIMS_CHAIN_ENABLE, new_event None VIMS_CHAIN_ENABLE vj_event_chain_enable 0 VIMS_ALLOW_ANY [Null]),
     (VIMS_CHAIN_DISABLE, new_event None VIMS_CHAIN_DISABLE vj_event_chain_disable 0 VIMS_ALLOW_ANY [Null]),
     (VIMS_CHAIN_CLEAR, new_event (Some ''%d'') VIMS_CHAIN_CLEAR vj_event_chain_clear 1 VIMS_ALLOW_ANY [Def 0, Null]),
     (VIMS_CHAIN_FADE_IN, new_event (Some ''%d %d'') VIMS_CHAIN_FADE_IN vj_event_chain_fade_in
        2 VIMS_ALLOW_ANY [Def 0, Def 100, Null]),
     (VIMS_CHAIN_FADE_OUT, new_event (Some ''%d %d'') VIMS_CHAIN_FADE_OUT vj_event_chain_fade_out
        2 VIMS_ALLOW_ANY [Def 0, Def 100, Null]),
     (VIMS_CHAIN_FOLLOW_FADE, new_event (Some ''%d'') VIMS_CHAIN_FOLLOW_FADE vj_event_chain_fade_follow
        1 VIMS_ALLOW_ANY [Def 0, Null]),
     (VIMS_CHAIN_MANUAL_FADE, new_event (Some ''%d %d'') VIMS_CHAIN_MANUAL_FADE vj_event_manual_chain_fade
        2 VIMS_REQUIRE_ALL_PARAMS [Def 0, Def 0, Null]),
     (VIMS_CHAIN_SET_ENTRY, new_event (Some ''%d'') VIMS_CHAIN_SET_ENTRY vj_event_chain_entry_select
        1 VIMS_REQUIRE_ALL_PARAMS [Def 0, Null]),
     (VIMS_OUTPUT_Y4M_START, new_event (Some ''%s'') VIMS_OUTPUT_Y4M_START vj_event_output_y4m_start
        1 (VIMS_LONG_PARAMS OR VIMS_REQUIRE_ALL_PARAMS) [Null, Null]),
     (VIMS_OUTPUT_Y4M_STOP, new_event None VIMS_OUTPUT_Y4M_STOP vj_event_output_y4m_stop 0 VIMS_ALLOW_ANY [Null])]"

definition vims_events_10 :: "(int \<times> vims_event option) list" where
  "vims_events_10 = [
     (VIMS_RESIZE_SDL_SCREEN, new_event (Some ''%d %d %d %d'') VIMS_RESIZE_SDL_SCREEN (elsewhere ''vj_event_set_screen_size'')
        4 VIMS_REQUIRE_ALL_PARAMS [Def 0, Def 0, Def 0, Def 0, Null]),
     (VIMS_SET_PLAY_MODE, new_event (Some ''%d'') VIMS_SET_PLAY_MODE vj_event_set_play_mode 1 VIMS_ALLOW_ANY [Def 0]),
     (VIMS_SET_MODE_AND_GO, new_event (Some ''%d %d'') VIMS_SET_MODE_AND_GO vj_event_set_play_mode_go
        2 VIMS_REQUIRE_ALL_PARAMS [Def 0, Def 0, Null]),
     (VIMS_SWITCH_SAMPLE_STREAM, new_event None VIMS_SWITCH_SAMPLE_STREAM vj_event_switch_sample_tag
        0 VIMS_ALLOW_ANY [Null]),
     (VIMS_AUDIO_DISABLE, new_event None VIMS_AUDIO_DISABLE (elsewhere ''vj_event_disable_audio'')
        0 VIMS_ALLOW_ANY [Null]),
     (VIMS_AUDIO_ENABLE, new_event None VIMS_AUDIO_ENABLE (elsewhere ''vj_event_enable_audio'')
        0 VIMS_ALLOW_ANY [Null]),
     (VIMS_EDITLIST_PASTE_AT, new_event (Some ''%d'') VIMS_EDITLIST_PASTE_AT vj_event_el_paste_at
        1 VIMS_REQUIRE_ALL_PARAMS [Def 0, Null]),
     (VIMS_EDITLIST_CUT, new_event (Some ''%d %d'') VIMS_EDITLIST_CUT vj_event_el_cut
        2 VIMS_REQUIRE_ALL_PARAMS [Def 0, Def 0, Null]),
     (VIMS_EDITLIST_COPY, new_event (Some ''%d %d'') VIMS_EDITLIST_COPY vj_event_el_copy
        2 VIMS_REQUIRE_ALL_PARAMS [Def 0, Def 0, Null]),
     (VIMS_EDITLIST_CROP, new_event (Some ''%d %d'') VIMS_EDITLIST_CROP vj_event_el_crop
        2 VIMS_REQUIRE_ALL_PARAMS [Def 0, Def 0, Null]),
     (VIMS_EDITLIST_DEL, new_event (Some ''%d %d'') VIMS_EDITLIST_DEL vj_event_el_del
        2 VIMS_REQUIRE_ALL_PARAMS [Def 0, Def 0, Null]),
     (VIMS_EDITLIST_SAVE, new_event (Some ''%d %d %s'') VIMS_EDITLIST_SAVE (elsewhere ''vj_event_el_save_editlist'')
        3 (VIMS_LONG_PARAMS OR VIMS_ALLOW_ANY) [Def 0, Def 0, Null, Null]),
     (VIMS_EDITLIST_LOAD, new_event (Some ''%s'') VIMS_EDITLIST_LOAD vj_event_el_load_editlist
        1 (VIMS_LONG_PARAMS OR VIMS_REQUIRE_ALL_PARAMS) [Null, Null])]"

definition vims_events_11 :: "(int \<times> vims_event option) list" where
  "vims_events_11 = [
     (VIMS_EDITLIST_ADD, new_event (Some ''%s'') VIMS_EDITLIST_ADD (elsewhere ''vj_event_el_add_video'')
        1 (VIMS_LONG_PARAMS OR VIMS_REQUIRE_ALL_PARAMS) [Null, Null]),
     (VIMS_EDITLIST_ADD_SAMPLE, new_event (Some ''%d %s'') VIMS_EDITLIST_ADD_SAMPLE (elsewhere ''vj_event_el_add_video_sample'')
        2 (VIMS_LONG_PARAMS OR VIMS_REQUIRE_ALL_PARAMS) [Def 0, Null, Null]),
     (VIMS_STREAM_LIST, new_event (Some ''%d'') VIMS_STREAM_LIST (elsewhere ''vj_event_send_tag_list'')
        1 VIMS_ALLOW_ANY [Def 0, Null]),
     (VIMS_TRACK_LIST, new_event None VIMS_TRACK_LIST (elsewhere ''vj_event_send_track_list'')
        0 VIMS_ALLOW_ANY [Null]),
     (VIMS_WORKINGDIR, new_event (Some ''%d'') VIMS_WORKINGDIR (elsewhere ''vj_event_send_working_dir'')
        1 VIMS_ALLOW_ANY [Def 0, Null]),
     (VIMS_SAMPLE_LIST, new_event (Some ''%d'') VIMS_SAMPLE_LIST (elsewhere ''vj_event_send_sample_list'')
        1 VIMS_ALLOW_ANY [Def 0, Null]),
     (VIMS_SAMPLE_INFO, new_event (Some ''%d %d'') VIMS_SAMPLE_INFO (elsewhere ''vj_event_send_sample_info'')
        2 VIMS_REQUIRE_ALL_PARAMS [Def 0, Def 0, Null]),
     (VIMS_SAMPLE_OPTIONS, new_event (Some ''%d %d'') VIMS_SAMPLE_OPTIONS (elsewhere ''vj_event_send_sample_options'')
        2 VIMS_REQUIRE_ALL_PARAMS [Def 0, Def 0, Null]),
     (VIMS_EDITLIST_LIST, new_event None VIMS_EDITLIST_LIST (elsewhere ''vj_event_send_editlist'')
        0 VIMS_ALLOW_ANY [Null]),
     (VIMS_BUNDLE, new_event (Some ''%d'') VIMS_BUNDLE vj_event_do_bundled_msg
        1 VIMS_REQUIRE_ALL_PARAMS [Def 0, Null]),
     (VIMS_BUNDLE_FILE, new_event (Some ''%s'') VIMS_BUNDLE_FILE (elsewhere ''vj_event_read_file'')
        1 (VIMS_LONG_PARAMS OR VIMS_REQUIRE_ALL_PARAMS) [Null, Null]),
     (VIMS_BUNDLE_SAVE, new_event (Some ''%d %s'') VIMS_BUNDLE_SAVE (elsewhere ''vj_event_write_actionfile'')
        2 (VIMS_LONG_PARAMS OR VIMS_REQUIRE_ALL_PARAMS) [Def 0, Null, Null]),
     (VIMS_BUNDLE_DEL, new_event (Some ''%d'') VIMS_BUNDLE_DEL vj_event_bundled_msg_del
        1 VIMS_REQUIRE_ALL_PARAMS [Def 0, Null]),
     (VIMS_BUNDLE_LIST, new_event None VIMS_BUNDLE_LIST (elsewhere ''vj_event_send_bundles'') 0 VIMS_ALLOW_ANY [Null])]"

definition vims_events_12 :: "(int \<times> vims_event option) list" where
  "vims_events_12 = [
     (VIMS_KEYLIST, new_event None VIMS_KEYLIST (elsewhere ''vj_event_send_keylist'') 0 VIMS_ALLOW_ANY [Null]),
     (VIMS_DEVICE_LIST, new_event None VIMS_DEVICE_LIST (elsewhere ''vj_event_send_devicelist'')
        0 VIMS_ALLOW_ANY [Null]),
     (VIMS_VIMS_LIST, new_event None VIMS_VIMS_LIST (elsewhere ''vj_event_send_vimslist'') 0 VIMS_ALLOW_ANY [Null]),
     (VIMS_BUNDLE_ADD, new_event (Some ''%d %s'') VIMS_BUNDLE_ADD vj_event_bundled_msg_add
        2 (VIMS_LONG_PARAMS OR VIMS_REQUIRE_ALL_PARAMS) [Def 0, Def 0, Null]),
     (VIMS_CALI_IMAGE, new_event (Some ''%d %d'') VIMS_REQUIRE_ALL_PARAMS (elsewhere ''vj_event_get_cali_image'')
        2 VIMS_REQUIRE_ALL_PARAMS [Def 0, Def 0, Null]),
     (VIMS_BUNDLE_CAPTURE, new_event None VIMS_BUNDLE_CAPTURE (elsewhere ''vj_event_quick_bundle'')
        0 VIMS_ALLOW_ANY [Null]),
     (VIMS_CHAIN_LIST, new_event (Some ''%d'') VIMS_CHAIN_LIST (elsewhere ''vj_event_send_chain_list'')
        1 VIMS_ALLOW_ANY [Def 0, Null]),
     (VIMS_SAMPLE_STACK, new_event (Some ''%d'') VIMS_SAMPLE_STACK (elsewhere ''vj_event_send_sample_stack'')
        1 VIMS_ALLOW_ANY [Null]),
     (VIMS_CHAIN_GET_ENTRY, new_event (Some ''%d %d'') VIMS_CHAIN_GET_ENTRY (elsewhere ''vj_event_send_chain_entry'')
        2 VIMS_ALLOW_ANY [Def 0, Def (- 1), Null]),
     (VIMS_CHAIN_GET_PARAMETERS, new_event (Some ''%d %d'') VIMS_CHAIN_GET_ENTRY (elsewhere ''vj_event_send_chain_entry_parameters'')
        2 VIMS_ALLOW_ANY [Def 0, Def (- 1), Null]),
     (VIMS_EFFECT_LIST, new_event None VIMS_EFFECT_LIST (elsewhere ''vj_event_send_effect_list'') 0 VIMS_ALLOW_ANY []),
     (VIMS_PROMOTION, new_event None VIMS_PROMOTION (elsewhere ''vj_event_promote_me'') 0 VIMS_ALLOW_ANY []),
     (VIMS_VIDEO_INFORMATION, new_event None VIMS_VIDEO_INFORMATION (elsewhere ''vj_event_send_video_information'')
        0 VIMS_ALLOW_ANY []),
     (VIMS_BUNDLE_ATTACH_KEY, new_event (Some ''%d %d %d %s'') VIMS_BUNDLE_ATTACH_KEY (elsewhere ''vj_event_attach_detach_key'')
        4 VIMS_ALLOW_ANY [Def 0, Def 0, Def 0, Null, Null])]"

definition vims_events_13 :: "(int \<times> vims_event option) list" where
  "vims_events_13 = [
     (VIMS_RGB24_IMAGE, new_event (Some ''%d %d'') VIMS_REQUIRE_ALL_PARAMS (elsewhere ''vj_event_get_scaled_image'')
        2 VIMS_REQUIRE_ALL_PARAMS [Def 0, Def 0, Null]),
     (VIMS_SCREENSHOT, new_event (Some ''%d %d %s'') VIMS_SCREENSHOT (elsewhere ''vj_event_screenshot'')
        3 (VIMS_LONG_PARAMS OR VIMS_REQUIRE_ALL_PARAMS) [Def 0, Def 0, Null, Null]),
     (VIMS_CHAIN_TOGGLE_ALL, new_event (Some ''%d'') VIMS_CHAIN_TOGGLE_ALL vj_event_all_samples_chain_toggle
        1 VIMS_REQUIRE_ALL_PARAMS [Def 0, Null]),
     (VIMS_SAMPLE_UPDATE, new_event (Some ''%d %d %d'') VIMS_SAMPLE_UPDATE vj_event_sample_rel_start
        3 VIMS_REQUIRE_ALL_PARAMS [Def 0, Def 0, Def 0, Null]),
     (VIMS_STREAM_SET_LENGTH, new_event (Some ''%d'') VIMS_STREAM_SET_LENGTH vj_event_stream_set_length
        1 VIMS_REQUIRE_ALL_PARAMS [Def 0, Null]),
     (VIMS_STREAM_SET_BRIGHTNESS, new_event (Some ''%d %d'') VIMS_STREAM_SET_BRIGHTNESS (elsewhere ''vj_event_v4l_set_brightness'')
        2 VIMS_REQUIRE_ALL_PARAMS [Def 0, Def 0, Null]),
     (VIMS_STREAM_SET_CONTRAST, new_event (Some ''%d %d'') VIMS_STREAM_SET_CONTRAST (elsewhere ''vj_event_v4l_set_contrast'')
        2 VIMS_REQUIRE_ALL_PARAMS [Def 0, Def 0, Null]),
     (VIMS_STREAM_SET_HUE, new_event (Some ''%d %d'') VIMS_STREAM_SET_BRIGHTNESS (elsewhere ''vj_event_v4l_set_hue'')
        2 VIMS_REQUIRE_ALL_PARAMS [Def 0, Def 0, Null]),
     (VIMS_STREAM_SET_COLOR, new_event (Some ''%d %d'') VIMS_STREAM_SET_COLOR (elsewhere ''vj_event_v4l_set_color'')
        2 VIMS_REQUIRE_ALL_PARAMS [Def 0, Def 0, Null])]"

definition vims_events_14 :: "(int \<times> vims_event option) list" where
  "vims_events_14 = [
     (VIMS_STREAM_SET_SATURATION, new_event (Some ''%d %d'') VIMS_STREAM_SET_WHITE (elsewhere ''vj_event_v4l_set_saturation'')
        2 VIMS_REQUIRE_ALL_PARAMS [Def 0, Def 0, Null]),
     (VIMS_STREAM_SET_WHITE, new_event (Some ''%d %d'') VIMS_STREAM_SET_WHITE (elsewhere ''vj_event_v4l_set_white'')
        2 VIMS_REQUIRE_ALL_PARAMS [Def 0, Def 0, Null]),
     (VIMS_STREAM_GET_V4L, new_event (Some ''%d'') VIMS_STREAM_GET_V4L (elsewhere ''vj_event_v4l_get_info'')
        1 VIMS_REQUIRE_ALL_PARAMS [Def 0, Null]),
     (VIMS_VLOOPBACK_START, new_event (Some ''%d'') VIMS_VLOOPBACK_START (elsewhere ''vj_event_vloopback_start'')
        1 VIMS_REQUIRE_ALL_PARAMS [Def 0, Null]),
     (VIMS_VLOOPBACK_STOP, new_event None VIMS_VLOOPBACK_STOP (elsewhere ''vj_event_vloopback_stop'')
        0 VIMS_ALLOW_ANY [Null]),
     (VIMS_EFFECT_SET_BG, new_event None VIMS_EFFECT_SET_BG vj_event_effect_set_bg 0 VIMS_ALLOW_ANY [Null]),
     (VIMS_QUIT, new_event None VIMS_QUIT (elsewhere ''vj_event_quit'') 0 VIMS_ALLOW_ANY [Null]),
     (VIMS_CLOSE, new_event None VIMS_QUIT (elsewhere ''vj_event_linkclose'') 0 VIMS_ALLOW_ANY [Null]),
     (VIMS_SET_VOLUME, new_event (Some ''%d'') VIMS_SET_VOLUME (elsewhere ''vj_event_set_volume'')
        1 VIMS_REQUIRE_ALL_PARAMS [Def 0, Null]),
     (VIMS_SUSPEND, new_event None VIMS_SUSPEND vj_event_suspend 0 VIMS_ALLOW_ANY [Null]),
     (VIMS_DEBUG_LEVEL, new_event None VIMS_DEBUG_LEVEL vj_event_debug_level 0 VIMS_ALLOW_ANY [Null]),
     (VIMS_SYNC_CORRECTION, new_event (Some ''%d'') VIMS_SYNC_CORRECTION vj_event_sync_correction
        1 VIMS_REQUIRE_ALL_PARAMS [Def 0, Null]),
     (VIMS_FRAMERATE, new_event (Some ''%d'') VIMS_FRAMERATE (elsewhere ''vj_event_set_framerate'')
        1 VIMS_REQUIRE_ALL_PARAMS [Def 0, Null]),
     (VIMS_BEZERK, new_event None VIMS_BEZERK vj_event_bezerk 0 VIMS_ALLOW_ANY [Null]),
     (VIMS_NO_CACHING, new_event None VIMS_NO_CACHING vj_event_no_caching 0 VIMS_ALLOW_ANY [Null]),
     (VIMS_SAMPLE_MODE, new_event None VIMS_SAMPLE_MODE vj_event_sample_mode 0 VIMS_ALLOW_ANY [Null])]"

definition vims_events_15 :: "(int \<times> vims_event option) list" where
  "vims_events_15 = [
     (VIMS_VIDEO_MCAST_START, new_event (Some ''%d'') VIMS_VIDEO_MCAST_START (elsewhere ''vj_event_mcast_start'')
        1 VIMS_ALLOW_ANY [Def 1, Null]),
     (VIMS_VIDEO_MCAST_STOP, new_event None VIMS_VIDEO_MCAST_STOP (elsewhere ''vj_event_mcast_stop'')
        0 VIMS_ALLOW_ANY [Null]),
     (VIMS_GET_FRAME, new_event None VIMS_GET_FRAME (elsewhere ''vj_event_send_frame'') 0 VIMS_ALLOW_ANY [Null]),
     (VIMS_SUB_RENDER, new_event (Some ''%d'') VIMS_SUB_RENDER vj_event_sub_render 1 VIMS_ALLOW_ANY [Def 0, Null]),
     (VIMS_CONTINUOUS_PLAY, new_event (Some ''%d'') VIMS_CONTINUOUS_PLAY vj_event_play_norestart
        1 VIMS_ALLOW_ANY [Def 0, Null]),
     (VIMS_PROJ_INC, new_event (Some ''%d %d'') VIMS_PROJ_INC (elsewhere ''vj_event_projection_inc'')
        2 VIMS_ALLOW_ANY [Def 0, Def 0, Null]),
     (VIMS_PROJ_DEC, new_event (Some ''%d %d'') VIMS_PROJ_DEC (elsewhere ''vj_event_projection_dec'')
        2 VIMS_ALLOW_ANY [Def 0, Def 0, Null]),
     (VIMS_FRONTBACK, new_event None VIMS_FRONTBACK (elsewhere ''vj_event_viewport_frontback'')
        0 VIMS_ALLOW_ANY [Null]),
     (VIMS_FEEDBACK, new_event (Some ''%d'') VIMS_FEEDBACK vj_event_feedback 1 VIMS_ALLOW_ANY [Text, Null]),
     (VIMS_RENDER_DEPTH, new_event (Some ''%d'') VIMS_RENDER_DEPTH vj_event_render_depth
        1 VIMS_ALLOW_ANY [Text, Null]),
     (VIMS_COMPOSITE, new_event None VIMS_COMPOSITE vj_event_viewport_composition 0 VIMS_ALLOW_ANY [Null]),
     (VIMS_PROJ_TOGGLE, new_event None VIMS_PROJ_TOGGLE (elsewhere ''vj_event_vp_proj_toggle'')
        0 VIMS_ALLOW_ANY [Null]),
     (VIMS_PROJ_STACK, new_event (Some ''%d %d'') VIMS_PROJ_STACK (elsewhere ''vj_event_vp_stack'')
        2 VIMS_ALLOW_ANY [Def 1, Def 1, Null])]"

definition vims_events_16 :: "(int \<times> vims_event option) list" where
  "vims_events_16 = [
     (VIMS_PROJ_SET_POINT, new_event (Some ''%d %d %d %d'') VIMS_PROJ_SET_POINT (elsewhere ''vj_event_vp_set_points'')
        4 VIMS_REQUIRE_ALL_PARAMS [Def 0, Def 0, Def 0, Def 0, Null]),
     (VIMS_FULLSCREEN, new_event (Some ''%d'') VIMS_FULLSCREEN (elsewhere ''vj_event_fullscreen'')
        1 VIMS_ALLOW_ANY [Def 1, Null]),
     (VIMS_FONT_COL, new_event (Some ''%d %d %d %d %d'') VIMS_FONT_COL (elsewhere ''vj_event_font_set_color'')
        5 VIMS_REQUIRE_ALL_PARAMS [Def 0, Def 0, Def 0, Def 0, Def 0, Null]),
     (VIMS_FONT_POS, new_event (Some ''%d %d'') VIMS_FONT_POS (elsewhere ''vj_event_font_set_position'')
        2 VIMS_REQUIRE_ALL_PARAMS [Def 0, Def 0, Null]),
     (VIMS_FONT_SIZE_FONT, new_event (Some ''%d %d'') VIMS_FONT_SIZE_FONT (elsewhere ''vj_event_font_set_size_and_font'')
        2 VIMS_REQUIRE_ALL_PARAMS [Def 0, Def 0, Null]),
     (VIMS_OSL, new_event None VIMS_OSL (elsewhere ''vj_event_toggle_osl'') 0 VIMS_ALLOW_ANY [Null]),
     (VIMS_OSD_EXTRA, new_event None VIMS_OSD_EXTRA (elsewhere ''vj_event_toggle_osd_extra'') 0 VIMS_ALLOW_ANY [Null]),
     (VIMS_COPYRIGHT, new_event None VIMS_OSD (elsewhere ''vj_event_toggle_copyright'') 0 VIMS_ALLOW_ANY [Null]),
     (VIMS_OSD, new_event None VIMS_OSD (elsewhere ''vj_event_toggle_osd'') 0 VIMS_ALLOW_ANY [Null]),
     (VIMS_SRT_ADD, new_event (Some ''%d %d %d %d %d %s'') VIMS_SRT_ADD (elsewhere ''vj_event_add_subtitle'')
        6 (VIMS_LONG_PARAMS OR VIMS_REQUIRE_ALL_PARAMS) [Def 0, Def 0, Def 0, Def 0, Def 0, Null, Null]),
     (VIMS_SRT_SELECT, new_event (Some ''%d'') VIMS_SRT_SELECT (elsewhere ''vj_event_select_subtitle'')
        1 VIMS_REQUIRE_ALL_PARAMS [Def 0, Null])]"

definition vims_events_17 :: "(int \<times> vims_event option) list" where
  "vims_events_17 = [
     (VIMS_SRT_DEL, new_event (Some ''%d'') VIMS_SRT_DEL (elsewhere ''vj_event_del_subtitle'')
        1 VIMS_REQUIRE_ALL_PARAMS [Def 0, Null]),
     (VIMS_SRT_UPDATE, new_event (Some ''%d %d %d %s'') VIMS_SRT_UPDATE (elsewhere ''vj_event_upd_subtitle'')
        4 (VIMS_REQUIRE_ALL_PARAMS OR VIMS_LONG_PARAMS) [Def 0, Def 0, Def 0, Null, Null]),
     (VIMS_SRT_SAVE, new_event (Some ''%s'') VIMS_SRT_SAVE (elsewhere ''vj_event_save_srt'')
        1 (VIMS_REQUIRE_ALL_PARAMS OR VIMS_LONG_PARAMS) [Null, Null]),
     (VIMS_SRT_LOAD, new_event (Some ''%s'') VIMS_SRT_LOAD (elsewhere ''vj_event_load_srt'')
        1 (VIMS_REQUIRE_ALL_PARAMS OR VIMS_LONG_PARAMS) [Null, Null]),
     (VIMS_OFFLINE_PLAYMODE, new_event None VIMS_OFFLINE_PLAYMODE vj_event_playmode_rule 0 VIMS_ALLOW_ANY [Null]),
     (VIMS_OFFLINE_SAMPLES, new_event None VIMS_OFFLINE_SAMPLES vj_event_offline_samples 0 VIMS_ALLOW_ANY [Null]),
     (VIMS_OFFLINE_TAGS, new_event None VIMS_OFFLINE_TAGS vj_event_offline_tags 0 VIMS_ALLOW_ANY [Null]),
     (VIMS_FONT_LIST, new_event None VIMS_FONT_LIST (elsewhere ''vj_event_get_font_list'') 0 VIMS_ALLOW_ANY [Null]),
     (VIMS_SRT_LIST, new_event None VIMS_SRT_LIST (elsewhere ''vj_event_get_srt_list'') 0 VIMS_ALLOW_ANY [Null]),
     (VIMS_SRT_INFO, new_event (Some ''%d'') VIMS_SRT_INFO (elsewhere ''vj_event_get_srt_info'')
        1 VIMS_ALLOW_ANY [Def 1, Null]),
     (VIMS_SEQUENCE_LIST, new_event None VIMS_SRT_INFO (elsewhere ''vj_event_get_sample_sequences'')
        0 VIMS_ALLOW_ANY [Null]),
     (VIMS_SEQUENCE_STATUS, new_event (Some ''%d'') VIMS_SEQUENCE_STATUS vj_event_sample_sequencer_active
        1 VIMS_ALLOW_ANY [Def 0, Null]),
     (VIMS_SEQUENCE_ADD, new_event (Some ''%d %d'') VIMS_SEQUENCE_ADD vj_event_sequencer_add_sample
        2 VIMS_REQUIRE_ALL_PARAMS [Def 0, Def 0, Null]),
     (VIMS_SEQUENCE_DEL, new_event (Some ''%d'') VIMS_SEQUENCE_DEL vj_event_sequencer_del_sample
        1 VIMS_REQUIRE_ALL_PARAMS [Def 0, Null])]"

definition vims_events_18 :: "(int \<times> vims_event option) list" where
  "vims_events_18 = [
     (VIMS_GET_IMAGE, new_event (Some ''%d %d %d %d %d'') VIMS_GET_IMAGE (elsewhere ''vj_event_get_image_part'')
        5 VIMS_ALLOW_ANY [Def 0, Def 0, Def 0, Def 0, Def 0, Null]),
     (VIMS_SHM_WRITER, new_event (Some ''%d'') VIMS_SHM_WRITER (elsewhere ''vj_event_set_shm_status'')
        1 VIMS_ALLOW_ANY [Def 0, Null]),
     (VIMS_GET_SHM, new_event (Some ''%d'') VIMS_GET_SHM (elsewhere ''vj_event_get_shm'')
        1 VIMS_ALLOW_ANY [Def 0, Null])]"

lemmas vims_events_parts =
  vims_events_1_def vims_events_2_def vims_events_3_def vims_events_4_def vims_events_5_def vims_events_6_def vims_events_7_def vims_events_8_def vims_events_9_def vims_events_10_def vims_events_11_def vims_events_12_def vims_events_13_def vims_events_14_def vims_events_15_def vims_events_16_def vims_events_17_def vims_events_18_def

definition vims_events :: "(int \<times> vims_event option) list" where
  "vims_events = vims_events_1 @ vims_events_2 @ vims_events_3 @ vims_events_4 @ vims_events_5 @ vims_events_6 @ vims_events_7 @ vims_events_8 @ vims_events_9 @ vims_events_10 @ vims_events_11 @ vims_events_12 @ vims_events_13 @ vims_events_14 @ vims_events_15 @ vims_events_16 @ vims_events_17 @ vims_events_18"

text \<open>The outer \<open>None\<close> is an entry that is not defined, the inner one a number without an entry.\<close>

definition index_map :: "int \<Rightarrow> vims_event option option" where
  "index_map n = (case map_of vims_events n of None \<Rightarrow> Some None | Some None \<Rightarrow> c_undefined | Some (Some e) \<Rightarrow> Some (Some e))"

end
