(* ===== verification/VimsDispatch.thy ===== *)
theory VimsDispatch
  imports VimsEvents
begin

text \<open>
  From the text of a message to the handler (\<open>veejay/vj-event.c\<close>): a message \<open>NNN:a b c;\<close> is split into its command number
  and arguments, checked against the table of commands, and its handler is called; a message \<open>BUN:NNN{...}\<close> holds
  several. A message is a string without its terminating zero, given with the length that the server counted.

  \<^item> Bundles may run bundles. \<open>depth\<close> is how many nested calls the stack has room for; a bundle that runs itself is
    undefined for every depth.
  \<^item> Keyframe packets and the macro recorder belong to parts that are not modelled.
\<close>

definition MSG_MIN_LEN :: int where "MSG_MIN_LEN = 4"
definition VIMS_ARGS :: nat where "VIMS_ARGS = 16"

definition char_at :: "string \<Rightarrow> int \<Rightarrow> char option" where
  "char_at s i = c_nth (s @ [CHR 0x00]) i"

subsection \<open>The table\<close>

definition with_event :: "int \<Rightarrow> 'r \<Rightarrow> (vims_event \<Rightarrow> 'r) \<Rightarrow> 'r option" where
  "with_event n dflt f = do { p \<leftarrow> index_map n; Some (case p of None \<Rightarrow> dflt | Some e \<Rightarrow> f e) }"

definition vj_event_vevo_get_num_args :: "int \<Rightarrow> nat option" where
  "vj_event_vevo_get_num_args n = with_event n 0 ev_arguments"

definition vj_event_vevo_get_event_format :: "int \<Rightarrow> string option option" where
  "vj_event_vevo_get_event_format n = with_event n None ev_format"

definition vj_event_vevo_get_flags :: "int \<Rightarrow> int option" where
  "vj_event_vevo_get_flags n = with_event n 0 ev_flags"

definition vj_event_vevo_get_default_value :: "int \<Rightarrow> nat \<Rightarrow> int option" where
  "vj_event_vevo_get_default_value n p = with_event n 0 (\<lambda>e. if p < length (ev_defaults e) then ev_defaults e ! p else 0)"

definition vj_event_exists :: "int \<Rightarrow> bool option" where
  "vj_event_exists n = with_event n False (\<lambda>_. True)"

definition vj_event_vevo_inline_fire :: "cmd_env \<Rightarrow> int \<Rightarrow> string option \<Rightarrow> vims_arg list \<Rightarrow> veejay \<Rightarrow> veejay option" where
  "vj_event_vevo_inline_fire env n fmt va v = do {
     p \<leftarrow> index_map n;
     case p of None \<Rightarrow> null_deref | Some e \<Rightarrow> ev_function e env fmt va v }"

text \<open>Four arguments are passed, whatever the event takes.\<close>

definition vj_event_vevo_inline_fire_default :: "cmd_env \<Rightarrow> int \<Rightarrow> string option \<Rightarrow> veejay \<Rightarrow> veejay option" where
  "vj_event_vevo_inline_fire_default env n fmt v = do {
     p \<leftarrow> index_map n;
     case p of
       None \<Rightarrow> Some v
     | Some e \<Rightarrow>
         if ev_arguments e > 4 then out_of_bounds
         else vj_event_vevo_inline_fire env n fmt (map VInt (take 4 (ev_defaults e @ replicate 4 0))) v }"

subsection \<open>Calling a handler\<close>

text \<open>A number that was not written yet is \<open>None\<close>.\<close>

definition vj_event_verify_args :: "int option list \<Rightarrow> int \<Rightarrow> nat \<Rightarrow> nat \<Rightarrow> bool option" where
  "vj_event_verify_args fx net_id arglen np =
     (if net_id \<noteq> VIMS_CHAIN_ENTRY_SET_PRESET then Some (arglen = np)
      else if arglen < 3 then Some False
      else do { p \<leftarrow> c_nth fx 2; fx_id \<leftarrow> p; Some (fx_id > 0) })"

text \<open>The arguments for the handler, or \<open>None\<close> when one of them is not a string that should be.\<close>

fun fire_args :: "string \<Rightarrow> int \<Rightarrow> string option \<Rightarrow> int option list \<Rightarrow> nat \<Rightarrow> nat \<Rightarrow> vims_arg list option option" where
  "fire_args fmt flags s args i 0 = Some (Some [])"
| "fire_args fmt flags s args i (Suc m) = do {
     c \<leftarrow> char_at fmt (1 + 3 * int i);
     x \<leftarrow> (if c = CHR ''d'' then do { p \<leftarrow> c_nth args (int i); x \<leftarrow> p; Some (Some (VInt x)) }
           else if c = CHR ''s'' then
             Some (case s of
                     None \<Rightarrow> None
                   | Some t \<Rightarrow> if flags AND VIMS_REQUIRE_ALL_PARAMS \<noteq> 0 \<and> t = [] then None else Some (VStr t))
           else c_undefined);
     case x of
       None \<Rightarrow> Some None
     | Some x \<Rightarrow> do {
         xs \<leftarrow> fire_args fmt flags s args (Suc i) m;
         Some (case xs of None \<Rightarrow> None | Some xs \<Rightarrow> Some (x # xs)) } }"

text \<open>
  Only a preset may have fewer arguments than its event. The loop for the missing ones looks at the format of the first
  of them alone, and leaves a text without a value.
\<close>

definition vj_event_fire_net_event :: "cmd_env \<Rightarrow> int \<Rightarrow> string option \<Rightarrow> int option list \<Rightarrow> nat \<Rightarrow> veejay \<Rightarrow> veejay option" where
  "vj_event_fire_net_event env net_id s args arglen v = do {
     np \<leftarrow> vj_event_vevo_get_num_args net_id;
     fmt \<leftarrow> vj_event_vevo_get_event_format net_id;
     flags \<leftarrow> vj_event_vevo_get_flags net_id;
     ok \<leftarrow> vj_event_verify_args args net_id arglen np;
     if \<not> ok then Some v
     else if np = 0 then vj_event_vevo_inline_fire_default env net_id fmt v
     else do {
       f \<leftarrow> fmt;
       xs \<leftarrow> fire_args f flags s args 0 arglen;
       case xs of
         None \<Rightarrow> Some v
       | Some xs \<Rightarrow> do {
           c \<leftarrow> (if arglen < np then char_at f (1 + 3 * int arglen) else Some CHR ''d'');
           if c \<noteq> CHR ''d'' then c_undefined
           else do {
             ds \<leftarrow> those (map (vj_event_vevo_get_default_value net_id) [arglen..<np]);
             let va = xs @ map VInt ds;
             vj_event_vevo_inline_fire env net_id fmt (va @ replicate (VIMS_ARGS - length va) VNull)
               (set_ctl (ct_last_args_update (\<lambda>_. int arglen)) v) } } } }"

subsection \<open>Arguments in the text\<close>

text \<open>A long text is the rest of the message; another is a word, scanned into 256 bytes with a width of 256.\<close>

definition take_word :: "string \<Rightarrow> string" where
  "take_word cs = takeWhile (\<lambda>c. \<not> is_space c) (skip_space cs)"

definition inline_str_to_str :: "int \<Rightarrow> string \<Rightarrow> string option option" where
  "inline_str_to_str flags msg =
     (if msg = [] then Some None
      else if flags AND VIMS_LONG_PARAMS \<noteq> 0 then Some (Some msg)
      else let w = take_word msg
           in if w = [] then Some None else if length w > 255 then out_of_bounds else Some (Some w))"

definition inline_str_to_int :: "string \<Rightarrow> (int \<times> string) option option" where
  "inline_str_to_int msg =
     (case scan_int msg of None \<Rightarrow> Some None | Some (x, rest) \<Rightarrow> do { x \<leftarrow> c_int x; Some (Some (x, rest)) })"

text \<open>The value, where it goes, and the rest of the text, or \<open>None\<close> for an argument that is not valid.\<close>

definition parse_arg :: "string \<Rightarrow> int \<Rightarrow> string \<Rightarrow> nat \<Rightarrow> int option list \<Rightarrow> string option \<Rightarrow>
    (int option list \<times> string option \<times> string) option option" where
  "parse_arg fmt flags a i args s = do {
     c \<leftarrow> char_at fmt (1 + 3 * int i);
     if c = CHR ''d'' then do {
       r \<leftarrow> inline_str_to_int a;
       case r of
         None \<Rightarrow> Some None
       | Some (x, rest) \<Rightarrow> do { args \<leftarrow> c_update args (int i) (Some x); Some (Some (args, s, rest)) } }
     else if c = CHR ''s'' \<and> s = None then do {
       r \<leftarrow> inline_str_to_str flags a;
       Some (case r of None \<Rightarrow> None | Some t \<Rightarrow> Some (args, Some t, drop (length t) a)) }
     else Some None }"

fun parse_args :: "string \<Rightarrow> int \<Rightarrow> string \<Rightarrow> nat \<Rightarrow> nat \<Rightarrow> int option list \<Rightarrow> string option \<Rightarrow>
    (int option list \<times> string option \<times> nat) option option" where
  "parse_args fmt flags a i 0 args s = Some (Some (args, s, i))"
| "parse_args fmt flags a i (Suc m) args s = do {
     r \<leftarrow> parse_arg fmt flags a i args s;
     case r of
       None \<Rightarrow> Some None
     | Some (args, s, a) \<Rightarrow>
         if a = [] \<or> hd a = CHR '';'' then Some (Some (args, s, i))
         else parse_args fmt flags (if hd a = CHR '' '' then tl a else a) (Suc i) m args s }"

subsection \<open>Messages\<close>

definition veejay_chomp_str :: "string \<Rightarrow> int \<Rightarrow> string \<times> int" where
  "veejay_chomp_str msg n =
     (if length msg > 1 \<and> last msg = CHR 0x0A then (butlast msg, int (length msg) - 1) else (msg, n))"

definition default_args :: "nat \<Rightarrow> int list \<Rightarrow> int option list" where
  "default_args np ds = map Some (take np ds) @ replicate (VIMS_ARGS - np) None"

text \<open>
  The defaults are filled in when the first argument is a number. After the loop \<open>i\<close> is the number of arguments that were
  read, or one more when there is text behind the last one.
\<close>

definition parse_with_args :: "cmd_env \<Rightarrow> int \<Rightarrow> string \<Rightarrow> int \<Rightarrow> veejay \<Rightarrow> (int \<times> veejay) option" where
  "parse_with_args env net_id msg msg_len v = do {
     np \<leftarrow> vj_event_vevo_get_num_args net_id;
     fmt \<leftarrow> vj_event_vevo_get_event_format net_id;
     flags \<leftarrow> vj_event_vevo_get_flags net_id;
     c \<leftarrow> char_at msg (msg_len - 4);
     let n = (if c = CHR '';'' then 5 else 4);
     let arguments = take (nat (msg_len - n)) (drop 4 msg);
     if np = 0 then Some (0, v)
     else if np > VIMS_ARGS then out_of_bounds
     else do {
       f \<leftarrow> fmt;
       c \<leftarrow> char_at f 1;
       ds \<leftarrow> those (map (vj_event_vevo_get_default_value net_id) [0..<np]);
       let args = (if c = CHR ''d'' then default_args np ds else replicate VIMS_ARGS None);
       r \<leftarrow> parse_args f flags arguments 0 np args None;
       case r of
         None \<Rightarrow> Some (0, v)
       | Some (args, s, i) \<Rightarrow> do {
           let i = (if flags AND VIMS_ALLOW_ANY \<noteq> 0 then np else Suc i);
           v \<leftarrow> vj_event_fire_net_event env net_id s args i v;
           Some (1, v) } } }"

definition parse_command :: "cmd_env \<Rightarrow> string \<Rightarrow> int \<Rightarrow> veejay \<Rightarrow> (int \<times> veejay) option" where
  "parse_command env msg msg_len v =
     (case scan_field 3 msg of
        None \<Rightarrow> Some (0, v)
      | Some (net_id, _) \<Rightarrow>
          if net_id \<le> 0 \<or> net_id \<ge> VIMS_MAX then Some (0, v)
          else if net_id \<ge> VIMS_BUNDLE_START \<and> net_id < VIMS_BUNDLE_END then
            (case vj_event_bundle_get v net_id of
               None \<Rightarrow> Some (0, v)
             | Some m \<Rightarrow> do { v \<leftarrow> ce_bundle env m v; Some (1, v) })
          else if msg_len \<le> MSG_MIN_LEN then do {
            np \<leftarrow> vj_event_vevo_get_num_args net_id;
            ds \<leftarrow> those (map (vj_event_vevo_get_default_value net_id) [0..<np]);
            v \<leftarrow> vj_event_fire_net_event env net_id None (default_args np ds) np v;
            Some (0, v) }
          else parse_with_args env net_id msg msg_len v)"

definition starts_with :: "string \<Rightarrow> string \<Rightarrow> bool" where
  "starts_with w msg \<longleftrightarrow> map lower (take (length w) msg) = w"

definition parse_message :: "cmd_env \<Rightarrow> string \<Rightarrow> int \<Rightarrow> veejay \<Rightarrow> (int \<times> veejay) option" where
  "parse_message env msg msg_len v =
     (if msg_len < MSG_MIN_LEN then Some (0, v)
      else if starts_with ''bun'' msg then do {
        v \<leftarrow> ce_bundle env (fst (veejay_chomp_str msg msg_len)) v;
        Some (1, v) }
      else if starts_with ''key'' msg then do {
        v \<leftarrow> ce_outside env ''vj_event_parse_kf'' None [VStr msg, VInt msg_len] v;
        Some (1, v) }
      else let (msg, msg_len) = veejay_chomp_str msg msg_len in parse_command env msg (msg_len - 1) v)"

subsection \<open>Bundles\<close>

text \<open>
  The messages between the braces run one after the other. The code looks for the next semicolon from the second character
  of a message on, and copies each message to an array of 256 bytes. The loop over the number of messages
  finds nothing left after its first round, so the number only has to be positive.
\<close>

fun bundle_scan :: "(string \<Rightarrow> veejay \<Rightarrow> veejay option) \<Rightarrow> string \<Rightarrow> string \<Rightarrow> veejay \<Rightarrow> veejay option" where
  "bundle_scan f cur [] v = Some v"
| "bundle_scan f cur [c] v =
     (if c = CHR '';'' then if length cur > 254 then out_of_bounds else f (cur @ [c]) v else Some v)"
| "bundle_scan f cur (c # d # rest) v =
     (if c = CHR ''}'' then Some v
      else if c = CHR '';'' then
        if length cur > 254 then out_of_bounds
        else do { v \<leftarrow> f (cur @ [c]) v; bundle_scan f [d] rest v }
      else bundle_scan f (cur @ [c]) (d # rest) v)"

definition parse_bundle :: "(string \<Rightarrow> veejay \<Rightarrow> veejay option) \<Rightarrow> string \<Rightarrow> veejay \<Rightarrow> veejay option" where
  "parse_bundle f msg v = do {
     c \<leftarrow> char_at msg 3;
     if c \<noteq> CHR '':'' then Some v
     else
       case scan_field 3 (drop 4 msg) of
         None \<Rightarrow> Some v
       | Some (num_msg, _) \<Rightarrow>
           if num_msg \<le> 0 then Some v
           else do {
             c \<leftarrow> char_at msg 7;
             if c \<noteq> CHR ''{'' then Some v else bundle_scan f [] (drop 8 msg) v } }"

fun vj_event_parse_bundle :: "nat \<Rightarrow> cmd_env \<Rightarrow> string \<Rightarrow> veejay \<Rightarrow> veejay option" where
  "vj_event_parse_bundle 0 env msg v = c_undefined"
| "vj_event_parse_bundle (Suc depth) env msg v =
     parse_bundle (\<lambda>m v. map_option snd
       (parse_message (env\<lparr>ce_bundle := vj_event_parse_bundle depth env\<rparr>) m (int (length m)) v)) msg v"

definition vj_event_parse_msg :: "nat \<Rightarrow> cmd_env \<Rightarrow> string \<Rightarrow> int \<Rightarrow> veejay \<Rightarrow> (int \<times> veejay) option" where
  "vj_event_parse_msg depth env = parse_message (env\<lparr>ce_bundle := vj_event_parse_bundle depth env\<rparr>)"

text \<open>Messages that arrive one after the other.\<close>

fun run_messages :: "nat \<Rightarrow> cmd_env \<Rightarrow> string list \<Rightarrow> veejay \<Rightarrow> veejay option" where
  "run_messages depth env [] v = Some v"
| "run_messages depth env (m # ms) v = do {
     (r, v) \<leftarrow> vj_event_parse_msg depth env m (int (length m)) v;
     run_messages depth env ms v }"

end
