(* ===== verification/VimsText.thy ===== *)
theory VimsText
  imports VimsDispatch
begin

text \<open>
  What the text of a command means. A command is sent as its number in three digits, a colon, its arguments and a
  semicolon. The arguments a handler sees are related here to the ones that were written, with the defaults of
  the table for those that are left out.
\<close>

subsection \<open>The text of a command\<close>

fun int_format :: "nat \<Rightarrow> string" where
  "int_format 0 = []"
| "int_format (Suc 0) = ''%d''"
| "int_format (Suc (Suc n)) = ''%d '' @ int_format (Suc n)"

fun show_ints :: "int list \<Rightarrow> string" where
  "show_ints [] = []"
| "show_ints [x] = show_int x"
| "show_ints (x # y # xs) = show_int x @ '' '' @ show_ints (y # xs)"

definition message :: "int \<Rightarrow> string \<Rightarrow> string" where
  "message n a = show_pad 3 n @ '':'' @ a @ '';''"

definition command_text :: "int \<Rightarrow> int list \<Rightarrow> string" where
  "command_text n xs = message n (show_ints xs)"

text \<open>Numbers, then a text that may be long.\<close>

definition text_format :: "nat \<Rightarrow> string" where
  "text_format k = concat (replicate k ''%d '') @ ''%s''"

definition text_args :: "int list \<Rightarrow> string \<Rightarrow> string" where
  "text_args xs t = concat (map (\<lambda>x. show_int x @ '' '') xs) @ t"

lemma char_at_int_format: "i < n \<Longrightarrow> char_at (int_format n) (1 + 3 * int i) = Some CHR ''d''"
proof (induction n arbitrary: i rule: int_format.induct)
  case (3 n)
  show ?case
  proof (cases i)
    case (Suc j)
    with 3 have "char_at (int_format (Suc n)) (1 + 3 * int j) = Some CHR ''d''" by simp
    moreover have "nat (4 + 3 * int j) = Suc (Suc (Suc (nat (1 + 3 * int j))))" by simp
    ultimately show ?thesis using Suc by (auto simp: char_at_def c_nth_def split: if_splits)
  qed (simp add: char_at_def c_nth_def)
qed (auto simp: char_at_def c_nth_def)

lemma show_int_nonempty [simp]: "show_int x \<noteq> []"
  by (simp add: show_int_def)

lemma show_ints_nonempty [simp]: "xs \<noteq> [] \<Longrightarrow> show_ints xs \<noteq> []"
  by (cases xs rule: show_ints.cases) simp_all

definition plain_char :: "char \<Rightarrow> bool" where
  "plain_char c \<longleftrightarrow> is_digit c \<or> c = CHR ''-'' \<or> c = CHR '' ''"

lemma show_ints_chars: "c \<in> set (show_ints xs) \<Longrightarrow> plain_char c"
  using show_nat_digits
  by (induction xs rule: show_ints.induct) (auto simp: plain_char_def show_int_def split: if_splits)

lemma show_pad_digits: "0 \<le> n \<Longrightarrow> c \<in> set (show_pad w n) \<Longrightarrow> is_digit c"
  using show_nat_digits by (auto simp: show_pad_def is_digit_def)

subsection \<open>The arguments\<close>

lemma inline_str_to_int_show:
  assumes "rest = [] \<or> \<not> is_digit (hd rest)" "- 2147483648 \<le> x" "x < 2147483648"
  shows "inline_str_to_int (show_int x @ rest) = Some (Some (x, rest))"
  using scan_int_show [OF assms(1)] assms by (simp add: inline_str_to_int_def c_int_def)

abbreviation c_ints :: "int list \<Rightarrow> bool" where
  "c_ints xs \<equiv> list_all (\<lambda>x. - 2147483648 \<le> x \<and> x < 2147483648) xs"

lemma parse_args_ints:
  assumes "xs \<noteq> []" "length xs \<le> m" "i + m \<le> n" "c_ints xs" "i + length xs \<le> length args"
  shows "parse_args (int_format n) flags (show_ints xs) i m args None
    = Some (Some (take i args @ map Some xs @ drop (i + length xs) args, None, i + length xs - 1))"
  using assms
proof (induction xs arbitrary: i m args rule: show_ints.induct)
  case (2 x)
  then obtain m' where m: "m = Suc m'" by (cases m) auto
  have "char_at (int_format n) (1 + 3 * int i) = Some CHR ''d''" using 2 m by (intro char_at_int_format) simp
  with 2 m inline_str_to_int_show [of "[]" x] show ?case
    by (simp add: parse_arg_def upd_conv_take_nth_drop)
next
  case (3 x y xs)
  then obtain m' where m: "m = Suc m'" by (cases m) auto
  have d: "char_at (int_format n) (1 + 3 * int i) = Some CHR ''d''" using 3 m by (intro char_at_int_format) simp
  have nd: "\<not> is_digit CHR '' ''" by (simp add: is_digit_def)
  have p: "inline_str_to_int (show_int x @ CHR '' '' # show_ints (y # xs)) = Some (Some (x, CHR '' '' # show_ints (y # xs)))"
    using 3 nd by (intro inline_str_to_int_show) auto
  have i: "i < length args" "Suc i \<le> length args" using 3 by auto
  have "parse_args (int_format n) flags (show_ints (y # xs)) (Suc i) m' (args[i := Some x]) None
    = Some (Some (take (Suc i) (args[i := Some x]) @ map Some (y # xs) @ drop (Suc i + length (y # xs)) (args[i := Some x]),
        None, Suc i + length (y # xs) - 1))"
    using 3 m by (intro "3.IH") auto
  moreover have "take (Suc i) (args[i := Some x]) = take i args @ [Some x]"
    using i by (simp add: take_Suc_conv_app_nth)
  ultimately show ?case using i d p by (simp add: m parse_arg_def)
qed simp

lemma fire_args_ints:
  assumes "m + i \<le> n" "length pre = i" "length ys = m"
  shows "fire_args (int_format n) flags s (pre @ map Some ys @ post) i m = Some (Some (map VInt ys))"
  using assms
proof (induction ys arbitrary: i m pre)
  case (Cons y ys)
  then obtain m' where m: "m = Suc m'" by (cases m) auto
  have d: "char_at (int_format n) (1 + 3 * int i) = Some CHR ''d''" using Cons m by (intro char_at_int_format) simp
  have "fire_args (int_format n) flags s ((pre @ [Some y]) @ map Some ys @ post) (Suc i) m' = Some (Some (map VInt ys))"
    using Cons.prems m by (intro Cons.IH) simp_all
  moreover have "(pre @ Some y # map Some ys @ post) ! i = Some y" using Cons.prems by (simp add: nth_append)
  ultimately show ?case using d Cons.prems by (simp add: m)
qed simp

definition numeric_event :: "vims_event \<Rightarrow> bool" where
  "numeric_event e \<longleftrightarrow> 0 < ev_arguments e \<and> ev_arguments e \<le> VIMS_ARGS \<and> ev_format e = Some (int_format (ev_arguments e))
     \<and> length (ev_defaults e) = ev_arguments e"

definition call_event :: "cmd_env \<Rightarrow> vims_event \<Rightarrow> vims_arg list \<Rightarrow> veejay \<Rightarrow> veejay option" where
  "call_event env e va v = ev_function e env (ev_format e) (va @ replicate (VIMS_ARGS - length va) VNull)
     (set_ctl (ct_last_args_update (\<lambda>_. int (length va))) v)"

lemma those_pointwise: "(\<And>i. f i = Some (g i)) \<Longrightarrow> those (map f xs) = Some (map g xs)"
  by (induction xs) simp_all

lemma event_lookup:
  assumes "index_map n = Some (Some e)"
  shows "vj_event_vevo_get_num_args n = Some (ev_arguments e)" "vj_event_vevo_get_event_format n = Some (ev_format e)"
    "vj_event_vevo_get_flags n = Some (ev_flags e)"
    "those (map (vj_event_vevo_get_default_value n) [i..<j])
      = Some (map (\<lambda>p. if p < length (ev_defaults e) then ev_defaults e ! p else 0) [i..<j])"
    "vj_event_vevo_inline_fire env n fmt va v = ev_function e env fmt va v"
  using assms
  by (simp_all add: vj_event_vevo_get_num_args_def vj_event_vevo_get_event_format_def vj_event_vevo_get_flags_def
      vj_event_vevo_get_default_value_def vj_event_vevo_inline_fire_def with_event_def those_pointwise)

lemma event_default_list:
  assumes "index_map n = Some (Some e)" "length (ev_defaults e) = k"
  shows "those (map (vj_event_vevo_get_default_value n) [0..<k]) = Some (ev_defaults e)"
  using assms(2) by (simp add: event_lookup [OF assms(1)]) (intro nth_equalityI; simp)

lemma fire_numeric:
  assumes "index_map n = Some (Some e)" "numeric_event e" "n \<noteq> VIMS_CHAIN_ENTRY_SET_PRESET" "length ys = ev_arguments e"
  shows "vj_event_fire_net_event env n s (map Some ys @ post) (ev_arguments e) v = call_event env e (map VInt ys) v"
  using assms fire_args_ints [of "length ys" 0 "ev_arguments e" "[]" ys]
  by (simp add: vj_event_fire_net_event_def vj_event_verify_args_def event_lookup [OF assms(1)] numeric_event_def call_event_def)

subsection \<open>Messages\<close>

text \<open>A number that is not that of a bundle.\<close>

definition command_number :: "int \<Rightarrow> bool" where
  "command_number n \<longleftrightarrow> 0 < n \<and> n < VIMS_MAX \<and> \<not> (VIMS_BUNDLE_START \<le> n \<and> n < VIMS_BUNDLE_END)"

definition no_semicolon :: "string \<Rightarrow> bool" where
  "no_semicolon a \<longleftrightarrow> CHR '';'' \<notin> set a"

lemma message_shape:
  assumes "0 \<le> n" "n < 1000"
  shows "length (message n a) = 5 + length a" "drop 4 (message n a) = a @ '';''" "last (message n a) = CHR '';''"
    "scan_field 3 (message n a) = Some (n, '':'' @ a @ '';'')" "is_digit (hd (message n a))" "message n a \<noteq> []"
proof -
  have "show_pad 3 n \<noteq> []" using assms scan_field_pad(2) [of n 3] by auto
  then show "is_digit (hd (message n a))"
    using assms(1) by (auto simp: message_def intro!: show_pad_digits [of n _ 3])
qed (use scan_field_pad [of n 3] assms in \<open>simp_all add: message_def\<close>)

text \<open>The parser takes a semicolon four characters before the end for the end of the arguments.\<close>

definition tail_ok :: "string \<Rightarrow> bool" where
  "tail_ok a \<longleftrightarrow> length a < 4 \<or> a ! (length a - 4) \<noteq> CHR '';''"

lemma no_semicolon_tail:
  assumes "no_semicolon a"
  shows "tail_ok a"
proof (cases "length a < 4")
  case False
  then have "a ! (length a - 4) \<in> set a" by (intro nth_mem) simp
  then show ?thesis using assms by (auto simp: no_semicolon_def tail_ok_def)
qed (simp add: tail_ok_def)

lemma message_tail:
  assumes "0 \<le> n" "n < 1000" "tail_ok a"
  shows "message n a ! length a \<noteq> CHR '';''"
proof (cases "length a < 4")
  case True
  let ?p = "show_pad 3 n @ '':''"
  have p: "length ?p = 4" using scan_field_pad(2) [of n 3] assms by simp
  have "message n a = ?p @ a @ '';''" by (simp add: message_def)
  then have "message n a ! length a = ?p ! length a" using True p by (simp only: nth_append) simp
  moreover have "?p ! length a \<in> set ?p" using True p by (intro nth_mem) simp
  ultimately show ?thesis
    using show_pad_digits [of n "CHR '';''" 3] assms(1) by (auto simp: is_digit_def)
next
  case False
  have "message n a ! length a = (drop 4 (message n a)) ! (length a - 4)"
    using False message_shape(1) [OF assms(1,2)] by (subst nth_drop) auto
  then show ?thesis using False assms(3) by (simp add: message_shape(2) [OF assms(1,2)] nth_append tail_ok_def)
qed

lemma show_ints_no_semicolon: "no_semicolon (show_ints xs)"
  using show_ints_chars [of "CHR '';''" xs] by (auto simp: no_semicolon_def plain_char_def is_digit_def)

lemma digit_not_letter: "is_digit c \<Longrightarrow> lower c \<noteq> CHR ''b'' \<and> lower c \<noteq> CHR ''k''"
  by (auto simp: is_digit_def lower_def Let_def)

text \<open>The call that a message comes to: the defaults when nothing follows the colon, else the arguments.\<close>

lemma parse_command_message:
  assumes "command_number n"
  shows "vj_event_parse_msg depth env (message n a) (int (length (message n a))) v
    = (let env = env\<lparr>ce_bundle := vj_event_parse_bundle depth env\<rparr>
       in if a = [] then do {
            np \<leftarrow> vj_event_vevo_get_num_args n;
            ds \<leftarrow> those (map (vj_event_vevo_get_default_value n) [0..<np]);
            v \<leftarrow> vj_event_fire_net_event env n None (default_args np ds) np v;
            Some (0, v) }
          else parse_with_args env n (message n a) (int (length a) + 4) v)"
proof -
  have n: "0 \<le> n" "n < 1000" using assms by (simp_all add: command_number_def VIMS_MAX_def)
  note m = message_shape [OF n, of a]
  obtain c cs where c: "message n a = c # cs" using m(6) by (cases "message n a") auto
  have "\<not> starts_with ''bun'' (message n a)" "\<not> starts_with ''key'' (message n a)"
    using m(5) digit_not_letter [of c] by (auto simp: starts_with_def c)
  moreover have "veejay_chomp_str (message n a) k = (message n a, k)" for k
    using m(3) by (simp add: veejay_chomp_str_def)
  moreover have "0 < n" "n < VIMS_MAX" "n < VIMS_BUNDLE_START \<or> VIMS_BUNDLE_END \<le> n"
    using assms(1) by (auto simp: command_number_def)
  ultimately show ?thesis
    using m by (elim disjE) (simp_all add: vj_event_parse_msg_def parse_message_def parse_command_def MSG_MIN_LEN_def Let_def algebra_simps)
qed

lemma parse_with_args_message:
  assumes "command_number n" "tail_ok a" "a \<noteq> []" "index_map n = Some (Some e)"
    "0 < ev_arguments e" "ev_arguments e \<le> VIMS_ARGS" "ev_format e = Some f" "char_at f 1 = Some c"
    "length (ev_defaults e) = ev_arguments e"
  shows "parse_with_args env n (message n a) (int (length a) + 4) v = do {
      r \<leftarrow> parse_args f (ev_flags e) a 0 (ev_arguments e)
        (if c = CHR ''d'' then default_args (ev_arguments e) (ev_defaults e) else replicate VIMS_ARGS None) None;
      case r of
        None \<Rightarrow> Some (0, v)
      | Some (args, s, i) \<Rightarrow> do {
          v \<leftarrow> vj_event_fire_net_event env n s args (if ev_flags e AND VIMS_ALLOW_ANY \<noteq> 0 then ev_arguments e else Suc i) v;
          Some (1, v) } }"
proof -
  have n: "0 \<le> n" "n < 1000" using assms by (simp_all add: command_number_def VIMS_MAX_def)
  note m = message_shape [OF n, of a]
  have "char_at (message n a) (int (length a)) = Some (message n a ! length a)"
    using m(1) by (simp add: char_at_def nth_append)
  moreover have "message n a ! length a \<noteq> CHR '';''" by (rule message_tail [OF n assms(2)])
  ultimately show ?thesis
    using assms m by (simp add: parse_with_args_def event_lookup(1-3) [OF assms(4)] event_default_list [OF assms(4)] Let_def)
qed

subsection \<open>Commands with numbers\<close>

text \<open>The numbers that were written, then the defaults of the others.\<close>

definition given_args :: "vims_event \<Rightarrow> int list \<Rightarrow> int list" where
  "given_args e xs = xs @ drop (length xs) (ev_defaults e)"

definition complete :: "vims_event \<Rightarrow> int list \<Rightarrow> bool" where
  "complete e xs \<longleftrightarrow> c_ints xs \<and> length xs \<le> ev_arguments e
     \<and> (xs = [] \<or> length xs = ev_arguments e \<or> ev_flags e AND VIMS_ALLOW_ANY \<noteq> 0)"

definition numeric_command :: "int \<Rightarrow> vims_event \<Rightarrow> bool" where
  "numeric_command n e \<longleftrightarrow> command_number n \<and> n \<noteq> VIMS_CHAIN_ENTRY_SET_PRESET
     \<and> index_map n = Some (Some e) \<and> numeric_event e"

lemma numeric_commandD:
  assumes "numeric_command n e"
  shows "command_number n" "n \<noteq> VIMS_CHAIN_ENTRY_SET_PRESET" "index_map n = Some (Some e)" "numeric_event e"
    "0 < ev_arguments e" "ev_arguments e \<le> VIMS_ARGS" "ev_format e = Some (int_format (ev_arguments e))"
    "length (ev_defaults e) = ev_arguments e" "char_at (int_format (ev_arguments e)) 1 = Some CHR ''d''"
  using assms char_at_int_format [of 0 "ev_arguments e"] by (auto simp: numeric_command_def numeric_event_def)

lemma parse_no_args:
  assumes "numeric_command n e"
  shows "vj_event_parse_msg depth env (message n []) (int (length (message n []))) v
    = map_option (Pair 0) (call_event (env\<lparr>ce_bundle := vj_event_parse_bundle depth env\<rparr>) e (map VInt (ev_defaults e)) v)"
proof -
  note e = numeric_commandD [OF assms]
  have "take (ev_arguments e) (ev_defaults e) = ev_defaults e" using e by simp
  moreover have "(do { v \<leftarrow> p; Some (0, v) }) = map_option (Pair (0 :: int)) p" for p :: "veejay option" by (cases p) auto
  ultimately show ?thesis
    using e fire_numeric [OF e(3,4,2,8)]
    by (simp add: parse_command_message event_lookup(1-3) [OF e(3)] event_default_list [OF e(3)] Let_def default_args_def)
qed

lemma parse_numbers:
  assumes "numeric_command n e" "complete e xs" "xs \<noteq> []"
  shows "vj_event_parse_msg depth env (command_text n xs) (int (length (command_text n xs))) v
    = map_option (Pair 1) (call_event (env\<lparr>ce_bundle := vj_event_parse_bundle depth env\<rparr>) e (map VInt (given_args e xs)) v)"
proof -
  note e = numeric_commandD [OF assms(1)]
  let ?k = "ev_arguments e" and ?args = "default_args (ev_arguments e) (ev_defaults e)"
  have len: "length ?args = VIMS_ARGS" using e by (simp add: default_args_def)
  have xs: "c_ints xs" "length xs \<le> ?k" "length xs = ?k \<or> ev_flags e AND VIMS_ALLOW_ANY \<noteq> 0"
    using assms(2,3) by (auto simp: complete_def)
  have "parse_args (int_format ?k) (ev_flags e) (show_ints xs) 0 ?k ?args None
    = Some (Some (map Some xs @ drop (length xs) ?args, None, length xs - 1))"
    using parse_args_ints [of xs ?k 0 ?k ?args "ev_flags e"] xs e assms(3) len by simp
  moreover have "map Some xs @ drop (length xs) ?args = map Some (given_args e xs) @ replicate (VIMS_ARGS - ?k) None"
    using xs e by (simp add: given_args_def default_args_def drop_map)
  moreover have "ev_flags e AND VIMS_ALLOW_ANY = 0 \<Longrightarrow> length xs = ?k" using xs by simp
  moreover have "length (given_args e xs) = ?k" using xs e by (simp add: given_args_def)
  moreover have "(do { v \<leftarrow> p; Some (1, v) }) = map_option (Pair (1 :: int)) p" for p :: "veejay option" by (cases p) auto
  ultimately show ?thesis
    using e fire_numeric [OF e(3,4,2), of "given_args e xs"] assms(3)
    by (simp add: command_text_def parse_command_message parse_with_args_message [OF _ _ _ e(3) e(5,6,7,9,8)]
        no_semicolon_tail show_ints_no_semicolon Let_def)
qed

subsection \<open>Commands with a text\<close>

lemma char_at_text_format:
  "i < k \<Longrightarrow> char_at (text_format k) (1 + 3 * int i) = Some CHR ''d''"
  "char_at (text_format k) (1 + 3 * int k) = Some CHR ''s''"
proof -
  have shift: "char_at (CHR ''%'' # CHR ''d'' # CHR '' '' # f) (1 + 3 * int (Suc j)) = char_at f (1 + 3 * int j)" for f j
  proof -
    have "nat (4 + 3 * int j) = Suc (Suc (Suc (nat (1 + 3 * int j))))" by simp
    then show ?thesis by (auto simp: char_at_def c_nth_def)
  qed
  have step: "text_format (Suc k) = CHR ''%'' # CHR ''d'' # CHR '' '' # text_format k" for k by (simp add: text_format_def)
  show "char_at (text_format k) (1 + 3 * int k) = Some CHR ''s''"
  proof (induction k)
    case (Suc k)
    then show ?case unfolding step shift .
  qed (simp add: text_format_def char_at_def)
  show "i < k \<Longrightarrow> char_at (text_format k) (1 + 3 * int i) = Some CHR ''d''"
  proof (induction k arbitrary: i)
    case (Suc k)
    show ?case
    proof (cases i)
      case 0
      then show ?thesis by (simp add: step char_at_def)
    next
      case (Suc j)
      with Suc.prems Suc.IH [of j] show ?thesis unfolding step Suc shift by simp
    qed
  qed simp
qed

lemma parse_args_text:
  assumes "i + length xs = k" "c_ints xs" "k \<le> length args" "t \<noteq> []" "flags AND VIMS_LONG_PARAMS \<noteq> 0"
  shows "parse_args (text_format k) flags (text_args xs t) i (Suc (length xs)) args None
    = Some (Some (take i args @ map Some xs @ drop k args, Some t, k))"
  using assms
proof (induction xs arbitrary: i args)
  case Nil
  then show ?case using char_at_text_format(2) [of k] by (simp add: parse_arg_def inline_str_to_str_def text_args_def)
next
  case (Cons x xs)
  have d: "char_at (text_format k) (1 + 3 * int i) = Some CHR ''d''" using Cons.prems by (intro char_at_text_format(1)) simp
  have nd: "\<not> is_digit CHR '' ''" by (simp add: is_digit_def)
  have p: "inline_str_to_int (show_int x @ CHR '' '' # text_args xs t) = Some (Some (x, CHR '' '' # text_args xs t))"
    using Cons.prems nd by (intro inline_str_to_int_show) auto
  have i: "i < length args" "Suc i \<le> length args" using Cons.prems by auto
  have t: "text_args (x # xs) t = show_int x @ CHR '' '' # text_args xs t" by (simp add: text_args_def)
  have "parse_args (text_format k) flags (text_args xs t) (Suc i) (Suc (length xs)) (args[i := Some x]) None
    = Some (Some (take (Suc i) (args[i := Some x]) @ map Some xs @ drop k (args[i := Some x]), Some t, k))"
    using Cons.prems by (intro Cons.IH) simp_all
  moreover have "take (Suc i) (args[i := Some x]) = take i args @ [Some x]" using i by (simp add: take_Suc_conv_app_nth)
  ultimately show ?case using i d p Cons.prems unfolding t by (simp add: parse_arg_def)
qed

lemma fire_args_text:
  assumes "i + length ys = k" "length pre = i" "t \<noteq> []"
  shows "fire_args (text_format k) flags (Some t) (pre @ map Some ys @ post) i (Suc (length ys))
    = Some (Some (map VInt ys @ [VStr t]))"
  using assms
proof (induction ys arbitrary: i pre)
  case Nil
  then show ?case using char_at_text_format(2) [of k] by simp
next
  case (Cons y ys)
  have d: "char_at (text_format k) (1 + 3 * int i) = Some CHR ''d''" using Cons.prems by (intro char_at_text_format(1)) simp
  have "fire_args (text_format k) flags (Some t) ((pre @ [Some y]) @ map Some ys @ post) (Suc i) (Suc (length ys))
    = Some (Some (map VInt ys @ [VStr t]))"
    using Cons.prems by (intro Cons.IH) simp_all
  moreover have "(pre @ Some y # map Some ys @ post) ! i = Some y" using Cons.prems by (simp add: nth_append)
  ultimately show ?case using d Cons.prems by simp
qed

definition text_command :: "int \<Rightarrow> vims_event \<Rightarrow> nat \<Rightarrow> bool" where
  "text_command n e k \<longleftrightarrow> command_number n \<and> n \<noteq> VIMS_CHAIN_ENTRY_SET_PRESET \<and> index_map n = Some (Some e) \<and>
     ev_arguments e = Suc k \<and> k < VIMS_ARGS \<and> ev_format e = Some (text_format k) \<and> length (ev_defaults e) = Suc k \<and>
     ev_flags e AND VIMS_LONG_PARAMS \<noteq> 0"

lemma parse_text:
  assumes "text_command n e k" "length xs = k" "c_ints xs" "t \<noteq> []" "tail_ok (text_args xs t)"
  shows "vj_event_parse_msg depth env (message n (text_args xs t)) (int (length (message n (text_args xs t)))) v
    = map_option (Pair 1) (call_event (env\<lparr>ce_bundle := vj_event_parse_bundle depth env\<rparr>) e (map VInt xs @ [VStr t]) v)"
proof -
  have e: "command_number n" "n \<noteq> VIMS_CHAIN_ENTRY_SET_PRESET" "index_map n = Some (Some e)" "ev_arguments e = Suc k" "k < VIMS_ARGS"
    "ev_format e = Some (text_format k)" "length (ev_defaults e) = ev_arguments e" "ev_flags e AND VIMS_LONG_PARAMS \<noteq> 0"
    using assms(1) by (simp_all add: text_command_def)
  note nos = assms(5)
  have ne: "text_args xs t \<noteq> []" using assms(4) by (simp add: text_args_def)
  obtain c where c: "char_at (text_format k) 1 = Some c"
    using char_at_text_format(1) [of 0 k] char_at_text_format(2) [of 0] by (cases k) auto
  define args where
    "args = (if c = CHR ''d'' then default_args (ev_arguments e) (ev_defaults e) else replicate VIMS_ARGS None)"
  have len: "length args = VIMS_ARGS" using e by (simp add: args_def default_args_def)
  have p: "parse_args (text_format k) (ev_flags e) (text_args xs t) 0 (ev_arguments e) args None
    = Some (Some (map Some xs @ drop k args, Some t, k))"
    using parse_args_text [of 0 xs k args t "ev_flags e"] assms e len by simp
  have f: "fire_args (text_format k) (ev_flags e) (Some t) (map Some xs @ drop k args) 0 (Suc k)
    = Some (Some (map VInt xs @ [VStr t]))"
    using fire_args_text [of 0 xs k "[]" t] assms by simp
  have one: "(do { v \<leftarrow> p; Some (1, v) }) = map_option (Pair (1 :: int)) p" for p :: "veejay option" by (cases p) auto
  have n: "0 < ev_arguments e" "ev_arguments e \<le> VIMS_ARGS" using e by simp_all
  show ?thesis
    using p f ne e assms(2) one
    by (simp add: parse_command_message [OF e(1)] parse_with_args_message [OF e(1) nos ne e(3) n e(6) c e(7), folded args_def] vj_event_fire_net_event_def vj_event_verify_args_def
        event_lookup [OF e(3)] call_event_def Let_def
        del: fire_args.simps)
qed

subsection \<open>Commands without arguments\<close>

definition plain_command :: "int \<Rightarrow> vims_event \<Rightarrow> bool" where
  "plain_command n e \<longleftrightarrow> command_number n \<and> n \<noteq> VIMS_CHAIN_ENTRY_SET_PRESET \<and> index_map n = Some (Some e) \<and>
     ev_arguments e = 0 \<and> ev_defaults e = []"

definition call_plain :: "cmd_env \<Rightarrow> vims_event \<Rightarrow> veejay \<Rightarrow> veejay option" where
  "call_plain env e v = ev_function e env (ev_format e) (replicate 4 (VInt 0)) v"

lemma parse_plain:
  assumes "plain_command n e"
  shows "vj_event_parse_msg depth env (message n []) (int (length (message n []))) v
    = map_option (Pair 0) (call_plain (env\<lparr>ce_bundle := vj_event_parse_bundle depth env\<rparr>) e v)"
proof -
  have e: "command_number n" "n \<noteq> VIMS_CHAIN_ENTRY_SET_PRESET" "index_map n = Some (Some e)" "ev_arguments e = 0" "ev_defaults e = []"
    using assms by (simp_all add: plain_command_def)
  have "(do { v \<leftarrow> p; Some (0, v) }) = map_option (Pair (0 :: int)) p" for p :: "veejay option" by (cases p) auto
  moreover have "take 4 (replicate 4 (0 :: int)) = replicate 4 0" by simp
  ultimately show ?thesis
    using e
    by (simp add: parse_command_message event_lookup(1-3,5) [OF e(3)] Let_def vj_event_fire_net_event_def vj_event_verify_args_def
        vj_event_vevo_inline_fire_default_def call_plain_def)
qed

subsection \<open>Scripts\<close>

text \<open>A command: its number and event, numbers, and a text, which is empty when the event takes none.\<close>

type_synonym vims_command = "int \<times> vims_event \<times> int list \<times> string"

definition command_ok :: "vims_command \<Rightarrow> bool" where
  "command_ok = (\<lambda>(n, e, xs, t).
     if t \<noteq> [] then text_command n e (length xs) \<and> c_ints xs \<and> tail_ok (text_args xs t)
     else plain_command n e \<and> xs = [] \<or> numeric_command n e \<and> complete e xs)"

definition text_of :: "vims_command \<Rightarrow> string" where
  "text_of = (\<lambda>(n, e, xs, t). message n (if t = [] then show_ints xs else text_args xs t))"

definition call_command :: "cmd_env \<Rightarrow> vims_command \<Rightarrow> veejay \<Rightarrow> veejay option" where
  "call_command env = (\<lambda>(n, e, xs, t) v.
     if ev_arguments e = 0 then call_plain env e v
     else call_event env e (if t = [] then map VInt (given_args e xs) else map VInt xs @ [VStr t]) v)"

lemma parse_command_text:
  assumes "command_ok c"
  shows "map_option snd (vj_event_parse_msg depth env (text_of c) (int (length (text_of c))) v)
    = call_command (env\<lparr>ce_bundle := vj_event_parse_bundle depth env\<rparr>) c v"
proof -
  obtain n e xs t where c: "c = (n, e, xs, t)" by (cases c) auto
  consider "t \<noteq> []" "text_command n e (length xs)" "c_ints xs" "tail_ok (text_args xs t)"
    | "t = []" "plain_command n e" "xs = []" | "t = []" "numeric_command n e" "xs = []"
    | "t = []" "numeric_command n e" "complete e xs" "xs \<noteq> []"
    using assms by (cases "t = []"; cases "xs = []") (auto simp: c command_ok_def)
  then show ?thesis
  proof cases
    case 1
    then have "ev_arguments e \<noteq> 0" by (simp add: text_command_def)
    with 1 parse_text [of n e "length xs" xs t depth env v] show ?thesis
      by (simp add: c text_of_def call_command_def option.map_comp comp_def option.map_ident)
  next
    case 2
    with parse_plain [of n e depth env v] show ?thesis
      by (simp add: c text_of_def call_command_def plain_command_def option.map_comp comp_def option.map_ident)
  next
    case 3
    with parse_no_args [of n e depth env v] numeric_commandD(5) [OF 3(2)] show ?thesis
      by (simp add: c text_of_def call_command_def given_args_def option.map_comp comp_def option.map_ident)
  next
    case 4
    with parse_numbers [of n e xs depth env v] numeric_commandD(5) [OF 4(2)] show ?thesis
      by (simp add: c text_of_def command_text_def call_command_def option.map_comp comp_def option.map_ident)
  qed
qed

fun exec_commands :: "nat \<Rightarrow> cmd_env \<Rightarrow> vims_command list \<Rightarrow> veejay \<Rightarrow> veejay option" where
  "exec_commands depth env [] v = Some v"
| "exec_commands depth env (c # cs) v = do {
     v \<leftarrow> call_command (env\<lparr>ce_bundle := vj_event_parse_bundle depth env\<rparr>) c v;
     exec_commands depth env cs v }"

text \<open>One message after another.\<close>

lemma run_message:
  assumes "map_option snd (vj_event_parse_msg depth env m (int (length m)) v) = r"
  shows "run_messages depth env (m # ms) v = do { v \<leftarrow> r; run_messages depth env ms v }"
  using assms by (cases "vj_event_parse_msg depth env m (int (length m)) v") auto

lemma run_commands:
  assumes "list_all command_ok cs"
  shows "run_messages depth env (map text_of cs) v = exec_commands depth env cs v"
  using assms
proof (induction cs arbitrary: v)
  case (Cons c cs)
  then have "run_messages depth env (map text_of cs) = exec_commands depth env cs" by auto
  moreover have "command_ok c" using Cons.prems by simp
  ultimately show ?case by (simp only: list.map run_message [OF parse_command_text] exec_commands.simps)
qed simp

end
