(* ===== verification/VimsTable.thy ===== *)
theory VimsTable
  imports VimsText
begin

text \<open>
  What the table of commands promises: every number has one entry, numbers are below the maximum and not those of bundles, and the
  format of an entry asks for as many values as the entry has arguments. Two entries are not defined.
\<close>

definition event_shape :: "vims_event \<Rightarrow> bool" where
  "event_shape e \<longleftrightarrow> ev_arguments e \<le> VIMS_ARGS \<and> length (ev_defaults e) = ev_arguments e \<and>
     (ev_arguments e = 0 \<or> ev_format e = Some (int_format (ev_arguments e)) \<or>
      ev_format e = Some (text_format (ev_arguments e - 1)))"

definition entry_shape :: "int \<times> vims_event option \<Rightarrow> bool" where
  "entry_shape = (\<lambda>(n, p). command_number n \<and>
     (case p of None \<Rightarrow> n = VIMS_RENDER_DEPTH \<or> n = VIMS_FEEDBACK | Some e \<Rightarrow> event_shape e))"

lemmas table_shape = entry_shape_def event_shape_def new_event_def VIMS_ARGS_def command_number_def VIMS_BUNDLE_START_def VIMS_BUNDLE_END_def eval_nat_numeral
  text_format_def vims_ids c_nth_def

lemma events_shape_1: "list_all entry_shape (vims_events_1 @ vims_events_2 @ vims_events_3 @ vims_events_4 @ vims_events_5 @ vims_events_6)"
  by (simp add: vims_events_1_def vims_events_2_def vims_events_3_def vims_events_4_def vims_events_5_def
      vims_events_6_def table_shape)

lemma events_shape_2: "list_all entry_shape (vims_events_7 @ vims_events_8 @ vims_events_9 @ vims_events_10 @ vims_events_11 @ vims_events_12)"
  by (simp add: vims_events_7_def vims_events_8_def vims_events_9_def vims_events_10_def vims_events_11_def
      vims_events_12_def table_shape)

lemma events_shape_3: "list_all entry_shape (vims_events_13 @ vims_events_14 @ vims_events_15 @ vims_events_16 @ vims_events_17 @ vims_events_18)"
  by (simp add: vims_events_13_def vims_events_14_def vims_events_15_def vims_events_16_def vims_events_17_def
      vims_events_18_def table_shape)

lemma vims_events_shape: "list_all entry_shape vims_events"
  using events_shape_1 events_shape_2 events_shape_3 by (simp add: vims_events_def)

lemma vims_events_ids: "map fst vims_events = [33, 34, 10, 11, 12, 13, 114, 14, 15, 16, 17, 18, 24, 20, 21, 19, 372, 371, 350, 351, 373, 374, 375, 377, 376,
    150, 145, 147, 146, 152, 151, 1, 2, 3, 308, 309, 315, 316, 144, 8, 302, 320, 322, 321, 100, 4, 303, 102, 104,
    148, 149, 128, 103, 106, 105, 107, 108, 109, 110, 111, 125, 126, 112, 113, 130, 131, 120, 121, 127, 101, 201,
    220, 249, 244, 248, 251, 250, 240, 243, 242, 329, 202, 245, 246, 247, 228, 229, 203, 230, 231, 212, 213, 360,
    361, 349, 362, 363, 364, 365, 366, 367, 368, 369, 353, 354, 355, 356, 357, 382, 370, 359, 40, 41, 326, 327,
    328, 305, 307, 306, 50, 54, 51, 53, 52, 58, 59, 55, 56, 405, 5, 421, 408, 413, 414, 402, 80, 84, 85, 81, 403,
    420, 415, 411, 82, 332, 86, 358, 422, 410, 435, 401, 444, 400, 83, 333, 330, 352, 143, 216, 207, 208, 209,
    210, 215, 211, 409, 45, 46, 339, 600, 601, 300, 254, 325, 334, 335, 324, 331, 323, 22, 23, 42, 336, 35, 160,
    161, 6, 49, 48, 47, 165, 164, 162, 301, 391, 390, 392, 387, 388, 389, 399, 393, 398, 394, 395, 396, 397, 72,
    70, 71, 416, 417, 418, 419, 340, 341, 342, 423, 25, 425]"
  by (simp add: vims_events_def vims_events_parts vims_ids)


lemma index_map_entry:
  assumes "(n, Some e) \<in> set vims_events"
  shows "index_map n = Some (Some e)"
proof -
  have "distinct (map fst vims_events)" by (simp add: vims_events_ids)
  then have "map_of vims_events n = Some (Some e)" using assms by (rule map_of_is_SomeI)
  then show ?thesis by (simp add: index_map_def)
qed

text \<open>An entry with numbers.\<close>

definition numbers_event :: "int \<Rightarrow> vims_handler \<Rightarrow> nat \<Rightarrow> int \<Rightarrow> int list \<Rightarrow> vims_event" where
  "numbers_event n f k flags ds =
     \<lparr>ev_format = Some (int_format k), ev_vims_id = n, ev_function = f, ev_arguments = k, ev_flags = flags, ev_defaults = ds\<rparr>"

definition plain_event :: "int \<Rightarrow> vims_handler \<Rightarrow> vims_event" where
  "plain_event n f =
     \<lparr>ev_format = None, ev_vims_id = n, ev_function = f, ev_arguments = 0, ev_flags = VIMS_ALLOW_ANY, ev_defaults = []\<rparr>"

lemma numbers_event_command:
  assumes "(n, Some (numbers_event i f k flags ds)) \<in> set vims_events" "command_number n" "n \<noteq> VIMS_CHAIN_ENTRY_SET_PRESET"
    "0 < k" "k \<le> VIMS_ARGS" "length ds = k"
  shows "numeric_command n (numbers_event i f k flags ds)"
  using assms index_map_entry by (simp add: numeric_command_def numeric_event_def numbers_event_def)

lemma plain_event_command:
  assumes "(n, Some (plain_event i f)) \<in> set vims_events" "command_number n" "n \<noteq> VIMS_CHAIN_ENTRY_SET_PRESET"
  shows "plain_command n (plain_event i f)"
  using assms index_map_entry by (simp add: plain_command_def plain_event_def)

lemmas table_entry = vims_events_def vims_events_1_def vims_ids new_event_def plain_event_def numbers_event_def

end
