(* ===== verification/LivePlay.thy ===== *)
theory LivePlay
  imports VimsTable PlayLoops
begin

text \<open>
  Playing live: a sample plays while messages about its speed and its position arrive. The messages and the frames, in any
  order, refine \<open>spec_live\<close>, a function of the record of the sample, the position and the speed.
\<close>

subsection \<open>What a handler reads of its arguments\<close>

lemma p_a_ints:
  assumes "length xs = k" "z + k \<le> length args" "int (z + k) \<le> known"
  shows "p_a m known (int_format k) (map VInt xs @ rest) z args s = Some (take z args @ xs @ drop (z + k) args, s)"
  using assms
proof (induction k arbitrary: xs z args rule: int_format.induct)
  case 2
  then obtain x where "xs = [x]" by (cases xs) auto
  with 2 show ?case by (simp add: upd_conv_take_nth_drop)
next
  case (3 n)
  then obtain x ys where xs: "xs = x # ys" "length ys = Suc n" by (cases xs) auto
  have "p_a m known (int_format (Suc n)) (map VInt ys @ rest) (Suc z) (args[z := x]) s
    = Some (take (Suc z) (args[z := x]) @ ys @ drop (Suc z + Suc n) (args[z := x]), s)"
    using 3 xs by (intro "3.IH") simp_all
  moreover have "take (Suc z) (args[z := x]) = take z args @ [x]" using "3.prems" by (simp add: take_Suc_conv_app_nth)
  ultimately show ?case using "3.prems" xs by simp
qed simp

definition last_args :: "nat \<Rightarrow> veejay \<Rightarrow> veejay" where
  "last_args k = set_ctl (ct_last_args_update (\<lambda>_. int k))"

lemma p_ints_call:
  assumes "length xs = k" "k \<le> n"
  shows "p_ints n (Some (int_format k)) (map VInt xs @ rest) (last_args k v) = Some (xs @ replicate (n - k) 0)"
  using p_a_ints [of xs k 0 "replicate n 0" "int k" None rest None] assms
  by (simp add: p_ints_def P_A_def last_args_def set_ctl_def)

lemma call_numbers:
  assumes "length xs = k"
  shows "call_event env (numbers_event n f k flags ds) (map VInt xs) v
    = f env (Some (int_format k)) (map VInt xs @ replicate (VIMS_ARGS - k) VNull) (last_args k v)"
  using assms by (simp add: call_event_def numbers_event_def last_args_def)

subsection \<open>Commands\<close>

datatype live_cmd = Go_frame int | Skip_frames int | Back_frames int | Play_speed int | Play_stop | Play_forward | Play_back
  | Goto_start | Goto_end

fun live_command :: "live_cmd \<Rightarrow> vims_command" where
  "live_command (Go_frame n) =
     (VIMS_VIDEO_SET_FRAME, numbers_event VIMS_VIDEO_SET_FRAME vj_event_set_frame 1 VIMS_REQUIRE_ALL_PARAMS [0], [n], [])"
| "live_command (Skip_frames n) =
     (VIMS_VIDEO_SKIP_FRAME, numbers_event VIMS_VIDEO_SKIP_FRAME vj_event_inc_frame 1 VIMS_ALLOW_ANY [1], [n], [])"
| "live_command (Back_frames n) =
     (VIMS_VIDEO_PREV_FRAME, numbers_event VIMS_VIDEO_PREV_FRAME vj_event_dec_frame 1 VIMS_ALLOW_ANY [1], [n], [])"
| "live_command (Play_speed n) =
     (VIMS_VIDEO_SET_SPEED, numbers_event VIMS_VIDEO_SET_SPEED vj_event_play_speed 1 VIMS_ALLOW_ANY [1], [n], [])"
| "live_command Play_stop = (VIMS_VIDEO_PLAY_STOP, plain_event VIMS_VIDEO_PLAY_STOP vj_event_play_stop, [], [])"
| "live_command Play_forward = (VIMS_VIDEO_PLAY_FORWARD, plain_event VIMS_VIDEO_PLAY_FORWARD vj_event_play_forward, [], [])"
| "live_command Play_back = (VIMS_VIDEO_PLAY_BACKWARD, plain_event VIMS_VIDEO_PLAY_BACKWARD vj_event_play_reverse, [], [])"
| "live_command Goto_start = (VIMS_VIDEO_GOTO_START, plain_event VIMS_VIDEO_GOTO_START vj_event_goto_start, [], [])"
| "live_command Goto_end = (VIMS_VIDEO_GOTO_END, plain_event VIMS_VIDEO_GOTO_END vj_event_goto_end, [], [])"

text \<open>-1 stands for the end of the list; sums of frame numbers stay in the range of an \<open>int\<close>.\<close>

fun live_ok :: "live_cmd \<Rightarrow> bool" where
  "live_ok (Go_frame n) \<longleftrightarrow> n \<noteq> - 1 \<and> - 2147483648 \<le> n \<and> n < 2147483648"
| "live_ok (Skip_frames n) \<longleftrightarrow> \<bar>n\<bar> < 1073741824"
| "live_ok (Back_frames n) \<longleftrightarrow> \<bar>n\<bar> < 1073741824"
| "live_ok (Play_speed n) \<longleftrightarrow> - 2147483648 \<le> n \<and> n < 2147483648"
| "live_ok _ \<longleftrightarrow> True"

definition live_text :: "live_cmd \<Rightarrow> string" where
  "live_text c = text_of (live_command c)"

lemma live_table:
  "(VIMS_VIDEO_SET_FRAME, Some (numbers_event VIMS_VIDEO_SET_FRAME vj_event_set_frame 1 VIMS_REQUIRE_ALL_PARAMS [0])) \<in> set vims_events"
  "(VIMS_VIDEO_SKIP_FRAME, Some (numbers_event VIMS_VIDEO_SKIP_FRAME vj_event_inc_frame 1 VIMS_ALLOW_ANY [1])) \<in> set vims_events"
  "(VIMS_VIDEO_PREV_FRAME, Some (numbers_event VIMS_VIDEO_PREV_FRAME vj_event_dec_frame 1 VIMS_ALLOW_ANY [1])) \<in> set vims_events"
  "(VIMS_VIDEO_SET_SPEED, Some (numbers_event VIMS_VIDEO_SET_SPEED vj_event_play_speed 1 VIMS_ALLOW_ANY [1])) \<in> set vims_events"
  "(VIMS_VIDEO_PLAY_STOP, Some (plain_event VIMS_VIDEO_PLAY_STOP vj_event_play_stop)) \<in> set vims_events"
  "(VIMS_VIDEO_PLAY_FORWARD, Some (plain_event VIMS_VIDEO_PLAY_FORWARD vj_event_play_forward)) \<in> set vims_events"
  "(VIMS_VIDEO_PLAY_BACKWARD, Some (plain_event VIMS_VIDEO_PLAY_BACKWARD vj_event_play_reverse)) \<in> set vims_events"
  "(VIMS_VIDEO_GOTO_START, Some (plain_event VIMS_VIDEO_GOTO_START vj_event_goto_start)) \<in> set vims_events"
  "(VIMS_VIDEO_GOTO_END, Some (plain_event VIMS_VIDEO_GOTO_END vj_event_goto_end)) \<in> set vims_events"
  by (simp_all add: table_entry vims_events_2_def c_nth_def)

lemmas live_numbers =
  numbers_event_command [OF live_table(1)] numbers_event_command [OF live_table(2)] numbers_event_command [OF live_table(3)]
  numbers_event_command [OF live_table(4)]

lemmas live_plain =
  plain_event_command [OF live_table(5)] plain_event_command [OF live_table(6)] plain_event_command [OF live_table(7)]
  plain_event_command [OF live_table(8)] plain_event_command [OF live_table(9)]

lemma event_sel [simp]:
  "ev_arguments (numbers_event n f k flags ds) = k" "ev_arguments (plain_event n f) = 0"
  "ev_defaults (numbers_event n f k flags ds) = ds" "ev_defaults (plain_event n f) = []"
  "ev_flags (numbers_event n f k flags ds) = flags"
  by (simp_all add: numbers_event_def plain_event_def)

lemma live_command_ok:
  assumes "live_ok c"
  shows "command_ok (live_command c)"
proof -
  have n: "command_number VIMS_VIDEO_SET_FRAME" "command_number VIMS_VIDEO_SKIP_FRAME" "command_number VIMS_VIDEO_PREV_FRAME"
    "command_number VIMS_VIDEO_SET_SPEED" "command_number VIMS_VIDEO_PLAY_STOP" "command_number VIMS_VIDEO_PLAY_FORWARD"
    "command_number VIMS_VIDEO_PLAY_BACKWARD" "command_number VIMS_VIDEO_GOTO_START" "command_number VIMS_VIDEO_GOTO_END"
    by (simp_all add: command_number_def vims_ids VIMS_BUNDLE_START_def)
  have p: "VIMS_VIDEO_SET_FRAME \<noteq> VIMS_CHAIN_ENTRY_SET_PRESET" "VIMS_VIDEO_SKIP_FRAME \<noteq> VIMS_CHAIN_ENTRY_SET_PRESET"
    "VIMS_VIDEO_PREV_FRAME \<noteq> VIMS_CHAIN_ENTRY_SET_PRESET" "VIMS_VIDEO_SET_SPEED \<noteq> VIMS_CHAIN_ENTRY_SET_PRESET"
    "VIMS_VIDEO_PLAY_STOP \<noteq> VIMS_CHAIN_ENTRY_SET_PRESET" "VIMS_VIDEO_PLAY_FORWARD \<noteq> VIMS_CHAIN_ENTRY_SET_PRESET"
    "VIMS_VIDEO_PLAY_BACKWARD \<noteq> VIMS_CHAIN_ENTRY_SET_PRESET" "VIMS_VIDEO_GOTO_START \<noteq> VIMS_CHAIN_ENTRY_SET_PRESET"
    "VIMS_VIDEO_GOTO_END \<noteq> VIMS_CHAIN_ENTRY_SET_PRESET"
    by (simp_all add: vims_ids)
  show ?thesis
    using assms n p live_numbers live_plain
    by (cases c) (simp_all add: command_ok_def complete_def VIMS_ARGS_def abs_less_iff)
qed

subsection \<open>What the handlers do to a sample that plays\<close>

text \<open>No link of the client forces another mode.\<close>

definition free_link :: "veejay \<Rightarrow> bool" where
  "free_link v \<longleftrightarrow> link_mode v \<noteq> VJ_PLAYBACK_MODE_TAG \<and> link_mode v \<noteq> VJ_PLAYBACK_MODE_PLAIN"

fun spec_live_cmd :: "int \<times> int \<Rightarrow> live_cmd \<Rightarrow> sample_info \<Rightarrow> int \<Rightarrow> int \<Rightarrow> sample_info \<times> int \<times> int" where
  "spec_live_cmd bounds (Go_frame n) si p s = (let (sj, q) = put_pos bounds n si in (sj, q, s))"
| "spec_live_cmd bounds (Skip_frames n) si p s = (let (sj, q) = put_pos bounds (p + n) si in (sj, q, s))"
| "spec_live_cmd bounds (Back_frames n) si p s = (let (sj, q) = put_pos bounds (p - n) si in (sj, q, s))"
| "spec_live_cmd bounds (Play_speed n) si p s = (let (sj, t) = put_speed n si in (sj, p, t))"
| "spec_live_cmd bounds Play_stop si p s = (let (sj, t) = put_speed (if s = 0 then 1 else 0) si in (sj, p, t))"
| "spec_live_cmd bounds Play_forward si p s = (let (sj, t) = put_speed (if s = 0 then 1 else \<bar>s\<bar>) si in (sj, p, t))"
| "spec_live_cmd bounds Play_back si p s = (let (sj, t) = put_speed (if s = 0 then - 1 else - \<bar>s\<bar>) si in (sj, p, t))"
| "spec_live_cmd bounds Goto_start si p s = (let (sj, q) = put_pos bounds (get_start si) si in (sj, q, s))"
| "spec_live_cmd bounds Goto_end si p s = (let (sj, q) = put_pos bounds (get_end si) si in (sj, q, s))"

lemma solo_ctl [simp]: "solo k si (set_ctl f v) = solo k si v"
  by (simp add: solo_def plays_def listed_def set_ctl_def)

lemma solo_playing:
  assumes "solo k si v" "free_link v"
  shows "SAMPLE_PLAYING v" "\<not> STREAM_PLAYING v" "\<not> PLAIN_PLAYING v" "uc_sample_id v = k"
  using assms by (simp_all add: solo_def plays_def playing_defs free_link_def mode_consts)

lemma last_args_fields [simp]:
  "st_current_frame_num (last_args n v) = st_current_frame_num v" "st_min_frame_num (last_args n v) = st_min_frame_num v"
  "st_max_frame_num (last_args n v) = st_max_frame_num v" "solo k si (last_args n v) = solo k si v"
  "st_current_playback_speed (last_args n v) = st_current_playback_speed v" "free_link (last_args n v) = free_link v"
  "vi_adm (last_args n v) = vi_adm v"
  by (simp_all add: last_args_def set_ctl_def free_link_def link_mode_def solo_def plays_def listed_def)

lemma position_solo:
  assumes "solo k si v" "put_pos (bounds_of v) p si = (sj, q)"
  shows "\<exists>v'. set_frame p v = Some v' \<and> arrives k sj q (st_current_playback_speed v) v v' \<and> solo k sj v'"
proof -
  obtain v' where "veejay_set_frame v p = Some (1, v')" "arrives k sj q (st_current_playback_speed v) v v'" "solo k sj v'"
    by (rule go_to [OF assms])
  then show ?thesis by (simp add: set_frame_def)
qed

lemma speed_solo:
  assumes "solo k si v" "st_current_playback_speed v = si_speed si" "put_speed s si = (sj, t)"
  shows "\<exists>v'. set_speed s v = Some v' \<and> arrives k sj (st_current_frame_num v) t v v' \<and> solo k sj v'"
proof -
  obtain v' where "veejay_set_speed v s = Some (1, v')" "arrives k sj (st_current_frame_num v) t v v'" "solo k sj v'"
    by (rule go_on [OF assms])
  then show ?thesis by (simp add: set_speed_def)
qed

lemma bound_solo:
  assumes "solo k si v" "on_adm g v = Some (n, v1)" "moves k si v v1" "put_pos (bounds_of v) n si = (sj, q)"
  shows "\<exists>v'. do { (n, v) \<leftarrow> on_adm g v; set_frame n v } = Some v' \<and>
    arrives k sj q (st_current_playback_speed v) v v' \<and> solo k sj v'"
proof -
  note a = moves_arrives [OF assms(3)]
  have s1: "solo k si v1" using solo_arrives [OF assms(1) a] by simp
  have "put_pos (bounds_of v1) n si = (sj, q)" using assms(4) moves_fields(1,2) [OF assms(3)] by simp
  from position_solo [OF s1 this] obtain v' where v': "set_frame n v1 = Some v'"
    "arrives k sj q (st_current_playback_speed v1) v1 v'" "solo k sj v'" by blast
  have "arrives k sj q (st_current_playback_speed v) v v'"
    using arrives_trans [OF a v'(2)] moves_fields(4) [OF assms(3)] by simp
  then show ?thesis using v' assms(2) by simp
qed

lemma plain_call:
  "call_command env (n, plain_event i f, [], []) v = f env None (replicate 4 (VInt 0)) v"
  by (simp add: call_command_def call_plain_def) (simp add: plain_event_def)

lemma number_call:
  "length ds = 1 \<Longrightarrow> call_command env (n, numbers_event i f (Suc 0) flags ds, [x], []) v
    = f env (Some ''%d'') (VInt x # replicate 15 VNull) (last_args (Suc 0) v)"
  using call_numbers [of "[x]" 1 env i f flags ds v] by (simp add: call_command_def given_args_def VIMS_ARGS_def)

lemma one_number:
  "p_ints (Suc 0) (Some ''%d'') (VInt x # rest) (last_args (Suc 0) v) = Some [x]"
  "p_ints 2 (Some ''%d'') (VInt x # rest) (last_args (Suc 0) v) = Some [x, 0]"
  using p_ints_call [of "[x]" 1 1 rest v] p_ints_call [of "[x]" 1 2 rest v] by simp_all

lemma live_cmd_number:
  assumes "solo k si v" "free_link v" "st_current_playback_speed v = si_speed si" "live_ok c"
    "\<bar>st_current_frame_num v\<bar> < 1073741824" "spec_live_cmd (bounds_of v) c si (st_current_frame_num v) (st_current_playback_speed v) = (sj, q, t)"
    "c = Go_frame n \<or> c = Skip_frames n \<or> c = Back_frames n \<or> c = Play_speed n"
  shows "\<exists>v'. call_command env (live_command c) v = Some v' \<and> arrives k sj q t (last_args 1 v) v' \<and> solo k sj v'"
proof -
  let ?v = "last_args 1 v"
  have s: "solo k si ?v" "\<not> STREAM_PLAYING ?v" using assms(1,2) solo_playing [of k si ?v] by simp_all
  have pos: "\<exists>v'. set_frame p ?v = Some v' \<and> arrives k sj q t ?v v' \<and> solo k sj v'"
    if "put_pos (bounds_of v) p si = (sj, q)" "t = st_current_playback_speed v" for p
    using position_solo [OF s(1), of p sj q] that by simp
  from assms(7) show ?thesis
  proof (elim disjE)
    assume c: "c = Go_frame n"
    then have "put_pos (bounds_of v) n si = (sj, q)" "t = st_current_playback_speed v"
      using assms(6) by (auto split: prod.splits)
    from pos [OF this] show ?thesis
      using c assms(4) s(2) by (simp add: number_call vj_event_set_frame_def one_number)
  next
    assume c: "c = Skip_frames n"
    then have "put_pos (bounds_of v) (st_current_frame_num v + n) si = (sj, q)" "t = st_current_playback_speed v"
      using assms(6) by (auto split: prod.splits)
    from pos [OF this] show ?thesis
      using c assms(4,5) s(2) by (simp add: number_call vj_event_inc_frame_def skip_by_def one_number c_int_def abs_less_iff)
  next
    assume c: "c = Back_frames n"
    then have "put_pos (bounds_of v) (st_current_frame_num v - n) si = (sj, q)" "t = st_current_playback_speed v"
      using assms(6) by (auto split: prod.splits)
    from pos [OF this] show ?thesis
      using c assms(4,5) s(2) by (simp add: number_call vj_event_dec_frame_def skip_by_def one_number c_int_def abs_less_iff)
  next
    assume c: "c = Play_speed n"
    then have "put_speed n si = (sj, t)" "q = st_current_frame_num v" using assms(6) by (auto split: prod.splits)
    with speed_solo [OF s(1)] assms(3) c s(2) show ?thesis
      by (simp add: number_call vj_event_play_speed_def one_number)
  qed
qed

lemma live_cmd_plain:
  assumes "solo k si v" "free_link v" "st_current_playback_speed v = si_speed si"
    "spec_live_cmd (bounds_of v) c si (st_current_frame_num v) (st_current_playback_speed v) = (sj, q, t)"
    "c \<in> {Play_stop, Play_forward, Play_back, Goto_start, Goto_end}"
  shows "\<exists>v'. call_command env (live_command c) v = Some v' \<and> arrives k sj q t v v' \<and> solo k sj v'"
proof -
  note pl = solo_playing [OF assms(1,2)]
  have p: "plays k si v" using assms(1) by (simp add: solo_def)
  have after: "\<not> PLAIN_PLAYING v'" if "arrives k sj q t v v'" for v' sj q t
  proof (rule arrivesE [OF that])
    fix d' z assume "v' = v\<lparr>vi_adm := d', st_current_frame_num := q, st_current_playback_speed := t, uc_direction := z\<rparr>"
    then show ?thesis using pl(3) by (simp add: PLAIN_PLAYING_def link_mode_def)
  qed
  have spd: "\<exists>v'. set_speed x v = Some v' \<and> arrives k sj q t v v' \<and> solo k sj v'"
    if "put_speed x si = (sj, t)" "q = st_current_frame_num v" for x
    using speed_solo [OF assms(1,3) that(1)] that(2) by simp
  show ?thesis
  proof (cases c)
    case Play_stop
    then show ?thesis using assms(4) pl spd by (auto simp: plain_call vj_event_play_stop_def split: prod.splits)
  next
    case Play_forward
    then show ?thesis
      using assms(4) pl spd [of "if st_current_playback_speed v = 0 then 1 else \<bar>st_current_playback_speed v\<bar>"]
      by (auto simp: plain_call vj_event_play_forward_def Let_def abs_if split: prod.splits if_splits)
  next
    case Play_back
    then show ?thesis
      using assms(4) pl spd [of "if st_current_playback_speed v = 0 then - 1 else - \<bar>st_current_playback_speed v\<bar>"]
      by (auto simp: plain_call vj_event_play_reverse_def Let_def abs_if split: prod.splits if_splits)
  next
    case Goto_start
    obtain v1 where "on_adm (\<lambda>d. sample_get_startFrame d k) v = Some (get_start si, v1)" "moves k si v v1"
      using get_start_plays [OF p] by blast
    from bound_solo [OF assms(1) this] Goto_start assms(4) obtain v' where "to_start v = Some v'"
      "arrives k sj q t v v'" "solo k sj v'" using pl(4) by (auto simp: to_start_def split: prod.splits)
    then show ?thesis using Goto_start pl after by (simp add: plain_call vj_event_goto_start_def)
  next
    case Goto_end
    obtain v1 where "on_adm (\<lambda>d. sample_get_endFrame d k) v = Some (get_end si, v1)" "moves k si v v1"
      using get_end_plays [OF p] by blast
    from bound_solo [OF assms(1) this] Goto_end assms(4) obtain v' where
      "do { (n, v) \<leftarrow> on_adm (\<lambda>d. sample_get_endFrame d k) v; set_frame n v } = Some v'"
      "arrives k sj q t v v'" "solo k sj v'" by (auto split: prod.splits)
    then show ?thesis using Goto_end pl after by (simp add: plain_call vj_event_goto_end_def)
  qed (use assms(5) in simp_all)
qed

subsection \<open>Sessions\<close>

datatype live_step = Command live_cmd | Frame

text \<open>A command arrives as its text; a frame is the step of the player.\<close>

fun run_live :: "nat \<Rightarrow> cmd_env \<Rightarrow> live_step list \<Rightarrow> veejay \<Rightarrow> veejay option" where
  "run_live depth env [] v = Some v"
| "run_live depth env (Command c # xs) v = do { v \<leftarrow> run_messages depth env [live_text c] v; run_live depth env xs v }"
| "run_live depth env (Frame # xs) v = do { (r, v) \<leftarrow> vj_perform_queue_frame (ce_play env) v False; run_live depth env xs v }"

fun spec_live :: "play_env \<Rightarrow> int \<times> int \<Rightarrow> live_step list \<Rightarrow> sample_info \<Rightarrow> int \<Rightarrow> int \<Rightarrow> nat \<Rightarrow> sample_info \<times> int \<times> int \<times> nat" where
  "spec_live env bounds [] si p s c = (si, p, s, c)"
| "spec_live env bounds (Command x # xs) si p s c =
     (let (sj, q, t) = spec_live_cmd bounds x si p s in spec_live env bounds xs sj q t c)"
| "spec_live env bounds (Frame # xs) si p s c =
     (let (sj, q, t, c) = spec_frames env bounds 1 si p s c in spec_live env bounds xs sj q t c)"

definition step_ok :: "live_step \<Rightarrow> bool" where
  "step_ok x = (case x of Command c \<Rightarrow> live_ok c | Frame \<Rightarrow> True)"

definition with_args :: "int \<Rightarrow> veejay \<Rightarrow> veejay" where
  "with_args n = set_ctl (ct_last_args_update (\<lambda>_. n))"

definition lives :: "int \<Rightarrow> sample_info \<Rightarrow> int \<Rightarrow> int \<Rightarrow> nat \<Rightarrow> veejay \<Rightarrow> veejay \<Rightarrow> bool" where
  "lives k sj q t c v v' \<longleftrightarrow> (\<exists>n. played k sj q t c (with_args n v) v')"

lemma with_args_same: "with_args (ct_last_args (vi_ctl v)) v = v"
  by (simp add: with_args_def set_ctl_def)

lemma with_args_again: "with_args m (with_args n v) = with_args m v"
  by (simp add: with_args_def set_ctl_def comp_def)

lemma with_args_fields [simp]:
  "bounds_of (with_args n v) = bounds_of v" "vi_rands (with_args n v) = vi_rands v" "unheld (with_args n v) = unheld v"
  "vi_adm (with_args n v) = vi_adm v" "free_link (with_args n v) = free_link v"
  by (simp_all add: with_args_def set_ctl_def unheld_def free_link_def link_mode_def)

lemma played_lives: "played k sj q t c v v' \<Longrightarrow> lives k sj q t c v v'"
  unfolding lives_def by (rule exI [of _ "ct_last_args (vi_ctl v)"]) (simp add: with_args_same)

lemma arrives_played:
  assumes "arrives k sj q t v v'"
  shows "played k sj q t (vi_rands v) v v'"
proof (rule arrivesE [OF assms])
  fix d' z assume "becomes k sj (vi_adm v) d'"
    "v' = v\<lparr>vi_adm := d', st_current_frame_num := q, st_current_playback_speed := t, uc_direction := z\<rparr>"
  then show ?thesis
    unfolding played_def by (intro exI [of _ d'] exI [of _ z] exI [of _ "st_cycle_count v"]) simp
qed

lemma played_with_args:
  assumes "played k sj q t c v v'"
  shows "played k sj q t c (with_args n v) (with_args n v')"
proof (rule playedE [OF assms])
  fix d' z cc assume "becomes k sj (vi_adm v) d'"
    "v' = v\<lparr>vi_adm := d', st_current_frame_num := q, st_current_playback_speed := t, uc_direction := z, vi_rands := c,
             st_cycle_count := cc\<rparr>"
  then show ?thesis
    unfolding played_def with_args_def set_ctl_def by (intro exI [of _ d'] exI [of _ z] exI [of _ cc]) simp
qed

lemma lives_trans:
  assumes "lives k si p s b v v1" "lives k sj q t c v1 v2"
  shows "lives k sj q t c v v2"
proof -
  obtain m n where "played k si p s b (with_args m v) v1" and 2: "played k sj q t c (with_args n v1) v2"
    using assms by (auto simp: lives_def)
  then have "played k si p s b (with_args n v) (with_args n v1)"
    using played_with_args [of k si p s b "with_args m v" v1 n] by (simp add: with_args_again)
  from played_trans [OF this 2] show ?thesis unfolding lives_def by blast
qed

lemma lives_fields:
  assumes "lives k sj q t c v v'"
  shows "st_current_frame_num v' = q" "st_current_playback_speed v' = t" "vi_rands v' = c" "bounds_of v' = bounds_of v"
    "unheld v' = unheld v" "sample_at (vi_adm v') k = Some sj" "j \<noteq> k \<Longrightarrow> sample_at (vi_adm v') j = sample_at (vi_adm v) j"
    "free_link v' = free_link v"
proof -
  obtain n where p: "played k sj q t c (with_args n v) v'" using assms by (auto simp: lives_def)
  from played_fields [OF p] show "st_current_frame_num v' = q" "st_current_playback_speed v' = t" "vi_rands v' = c"
    "bounds_of v' = bounds_of v" "unheld v' = unheld v" "sample_at (vi_adm v') k = Some sj"
    "j \<noteq> k \<Longrightarrow> sample_at (vi_adm v') j = sample_at (vi_adm v) j"
    by simp_all
  from p show "free_link v' = free_link v"
    by (rule playedE) (simp add: free_link_def link_mode_def with_args_def set_ctl_def)
qed

text \<open>What every step keeps of the record, and where the position stays.\<close>

lemma spec_live_cmd_keeps:
  assumes "spec_live_cmd bounds c si p s = (sj, q, t)" "s = si_speed si" "fst (play_range si) \<le> snd (play_range si)"
    "fst (play_range si) \<le> p" "p \<le> snd (play_range si)"
  shows "fixed_part sj = fixed_part si" "t = si_speed sj" "fst (play_range si) \<le> q \<and> q \<le> snd (play_range si)"
proof -
  consider x where "put_pos bounds x si = (sj, q)" "t = s" | x where "put_speed x si = (sj, t)" "q = p"
    using assms(1) by (cases c) (auto split: prod.splits)
  then have "fixed_part sj = fixed_part si \<and> t = si_speed sj \<and> fst (play_range si) \<le> q \<and> q \<le> snd (play_range si)"
  proof cases
    case 1
    then show ?thesis using put_pos_fixed [OF 1(1)] put_pos_keeps(3,6) [OF 1(1)] assms(2,3) by simp
  next
    case 2
    then show ?thesis using put_speed_fixed [OF 2(1)] put_speed_keeps(3) [OF 2(1)] assms(4,5) by simp
  qed
  then show "fixed_part sj = fixed_part si" "t = si_speed sj" "fst (play_range si) \<le> q \<and> q \<le> snd (play_range si)" by simp_all
qed

definition live_state :: "int \<Rightarrow> sample_info \<Rightarrow> veejay \<Rightarrow> bool" where
  "live_state k si v \<longleftrightarrow> solo k si v \<and> unheld v \<and> free_link v \<and> st_current_playback_speed v = si_speed si \<and>
     0 \<le> fst (play_range si) \<and> snd (play_range si) < 1073741824 \<and>
     fst (play_range si) \<le> st_current_frame_num v \<and> st_current_frame_num v \<le> snd (play_range si)"

lemma live_stateD:
  assumes "live_state k si v"
  shows "solo k si v" "unheld v" "free_link v" "st_current_playback_speed v = si_speed si" "0 \<le> fst (play_range si)"
    "snd (play_range si) < 1073741824" "fst (play_range si) \<le> st_current_frame_num v"
    "st_current_frame_num v \<le> snd (play_range si)" "fst (play_range si) \<le> snd (play_range si)"
    "\<bar>st_current_frame_num v\<bar> < 1073741824"
  using assms by (simp_all add: live_state_def)

lemma live_state_next:
  assumes "live_state k si v" "lives k sj q t c v v'" "solo k sj v'" "fixed_part sj = fixed_part si" "t = si_speed sj"
    "fst (play_range si) \<le> q \<and> q \<le> snd (play_range si)"
  shows "live_state k sj v'"
  using assms lives_fields [OF assms(2)] fixed_partD(1) [OF assms(4)] by (simp add: live_state_def)

lemma live_command_step:
  assumes "live_state k si v" "live_ok x"
    "spec_live_cmd (bounds_of v) x si (st_current_frame_num v) (st_current_playback_speed v) = (sj, q, t)"
  shows "\<exists>v'. run_messages depth env [live_text x] v = Some v' \<and> lives k sj q t (vi_rands v) v v' \<and> live_state k sj v' \<and>
    fixed_part sj = fixed_part si"
proof -
  note d = live_stateD [OF assms(1)]
  let ?env = "env\<lparr>ce_bundle := vj_event_parse_bundle depth env\<rparr>"
  have "\<exists>n v'. call_command ?env (live_command x) v = Some v' \<and> arrives k sj q t (with_args n v) v' \<and> solo k sj v'"
  proof (cases "x \<in> {Play_stop, Play_forward, Play_back, Goto_start, Goto_end}")
    case True
    from live_cmd_plain [OF d(1,3,4) assms(3) True, of ?env] show ?thesis
      by (metis with_args_same)
  next
    case False
    then obtain n where "x = Go_frame n \<or> x = Skip_frames n \<or> x = Back_frames n \<or> x = Play_speed n" by (cases x) auto
    from live_cmd_number [OF d(1,3,4) assms(2) d(10) assms(3) this, of ?env] show ?thesis
      unfolding last_args_def with_args_def by blast
  qed
  then obtain n v' where c: "call_command ?env (live_command x) v = Some v'" and a: "arrives k sj q t (with_args n v) v'"
    and s: "solo k sj v'" by blast
  have l: "lives k sj q t (vi_rands v) v v'"
    using arrives_played [OF a] unfolding lives_def by (intro exI [of _ n]) simp
  have "run_messages depth env [live_text x] v = Some v'"
    using run_commands [of "[live_command x]" depth env v] live_command_ok [OF assms(2)] c by (simp add: live_text_def)
  moreover have "live_state k sj v'" "fixed_part sj = fixed_part si"
    using live_state_next [OF assms(1) l s] spec_live_cmd_keeps [OF assms(3) d(4,9,7,8)] by simp_all
  ultimately show ?thesis using l by blast
qed

lemma live_frame_step:
  assumes "live_state k si v"
    "spec_frames (ce_play env) (bounds_of v) 1 si (st_current_frame_num v) (st_current_playback_speed v) (vi_rands v) = (sj, q, t, c)"
  shows "\<exists>v'. vj_perform_queue_frame (ce_play env) v False = Some v' \<and> lives k sj q t c v (snd v') \<and>
    live_state k sj (snd v') \<and> fixed_part sj = fixed_part si"
proof -
  note d = live_stateD [OF assms(1)]
  obtain v' where v': "queue_frames (ce_play env) 1 v = Some v'" "solo k sj v'" "played k sj q t c v v'"
    using queue_frames_solo [OF d(1,2) assms(2)] by blast
  then obtain r where r: "vj_perform_queue_frame (ce_play env) v False = Some (r, v')"
    by (cases "vj_perform_queue_frame (ce_play env) v False") auto
  have "live_state k sj v'" "fixed_part sj = fixed_part si"
    using live_state_next [OF assms(1) played_lives [OF v'(3)] v'(2)] spec_frames_keeps [OF assms(2) d(7,8)] d(5,6) by simp_all
  then show ?thesis using r played_lives [OF v'(3)] by (intro exI [of _ "(r, v')"]) simp
qed

lemma run_live_refines:
  assumes "live_state k si v" "list_all step_ok xs"
    "spec_live (ce_play env) (bounds_of v) xs si (st_current_frame_num v) (st_current_playback_speed v) (vi_rands v) = (sj, q, t, c)"
  shows "\<exists>v'. run_live depth env xs v = Some v' \<and> lives k sj q t c v v' \<and> live_state k sj v' \<and> fixed_part sj = fixed_part si"
  using assms
proof (induction xs arbitrary: si v)
  case Nil
  then show ?case using played_lives [OF played_self [OF live_stateD(1) [OF Nil.prems(1)]]] by auto
next
  case (Cons x xs)
  have "\<exists>s1 q1 t1 c1 v1. spec_live (ce_play env) (bounds_of v) (x # xs) si (st_current_frame_num v) (st_current_playback_speed v) (vi_rands v)
        = spec_live (ce_play env) (bounds_of v) xs s1 q1 t1 c1 \<and> run_live depth env (x # xs) v = run_live depth env xs v1 \<and>
      lives k s1 q1 t1 c1 v v1 \<and> live_state k s1 v1 \<and> fixed_part s1 = fixed_part si"
  proof (cases x)
    case (Command y)
    obtain s1 q1 t1 where s: "spec_live_cmd (bounds_of v) y si (st_current_frame_num v) (st_current_playback_speed v) = (s1, q1, t1)"
      by (metis prod_cases3)
    have "live_ok y" using Cons.prems(2) Command by (simp add: step_ok_def)
    from live_command_step [OF Cons.prems(1) this s, of depth env] obtain v1 where
      "run_messages depth env [live_text y] v = Some v1" "lives k s1 q1 t1 (vi_rands v) v v1" "live_state k s1 v1" "fixed_part s1 = fixed_part si" by blast
    then show ?thesis using Command s
      by (intro exI [of _ s1] exI [of _ q1] exI [of _ t1] exI [of _ "vi_rands v"] exI [of _ v1])
        (simp del: run_messages.simps)
  next
    case Frame
    obtain s1 q1 t1 c1 where s: "spec_frames (ce_play env) (bounds_of v) 1 si (st_current_frame_num v) (st_current_playback_speed v)
      (vi_rands v) = (s1, q1, t1, c1)" by (metis prod_cases4)
    from live_frame_step [OF Cons.prems(1) s] obtain r v1 where
      "vj_perform_queue_frame (ce_play env) v False = Some (r, v1)" "lives k s1 q1 t1 c1 v v1" "live_state k s1 v1" "fixed_part s1 = fixed_part si" by auto
    then show ?thesis using Frame s
      by (intro exI [of _ s1] exI [of _ q1] exI [of _ t1] exI [of _ c1] exI [of _ v1]) (simp del: spec_frames.simps)
  qed
  then obtain s1 q1 t1 c1 v1 where
    spec: "spec_live (ce_play env) (bounds_of v) (x # xs) si (st_current_frame_num v) (st_current_playback_speed v) (vi_rands v)
        = spec_live (ce_play env) (bounds_of v) xs s1 q1 t1 c1"
    and run: "run_live depth env (x # xs) v = run_live depth env xs v1" and l: "lives k s1 q1 t1 c1 v v1" and st: "live_state k s1 v1"
    and fp: "fixed_part s1 = fixed_part si" by blast
  have "spec_live (ce_play env) (bounds_of v1) xs s1 (st_current_frame_num v1) (st_current_playback_speed v1) (vi_rands v1) = (sj, q, t, c)"
    using Cons.prems(3) unfolding spec lives_fields(1-4) [OF l] .
  from Cons.IH [OF st _ this] Cons.prems(2) obtain v' where "run_live depth env xs v1 = Some v'" "lives k sj q t c v1 v'" "live_state k sj v'"
    "fixed_part sj = fixed_part s1" by auto
  then show ?case using run fp lives_trans [OF l] by auto
qed

text \<open>
  C1. Playing live. A sample plays and messages that change its speed or its position arrive between the frames, any number
  and in any order: nothing is undefined, and the record of the sample, the position, the speed and the number of random numbers drawn are
  those that \<open>spec_live\<close> computes from the record and the position alone. The position stays between the start and the end of the
  sample, whatever the messages ask for, and no other sample changes.
\<close>

theorem live_playing_refines:
  assumes "live_state k si v" "list_all step_ok xs"
    "spec_live (ce_play env) (st_min_frame_num v, st_max_frame_num v) xs si (st_current_frame_num v) (st_current_playback_speed v)
       (vi_rands v) = (sj, q, t, c)"
  shows "\<exists>v'. run_live depth env xs v = Some v' \<and> sample_at (vi_adm v') k = Some sj \<and> st_current_frame_num v' = q \<and>
    st_current_playback_speed v' = t \<and> vi_rands v' = c \<and> play_range sj = play_range si \<and>
    fst (play_range si) \<le> q \<and> q \<le> snd (play_range si) \<and> (\<forall>j. j \<noteq> k \<longrightarrow> sample_at (vi_adm v') j = sample_at (vi_adm v) j)"
proof -
  obtain v' where v': "run_live depth env xs v = Some v'" "lives k sj q t c v v'" "live_state k sj v'" "fixed_part sj = fixed_part si"
    using run_live_refines [OF assms(1,2), of env] assms(3) by blast
  note f = lives_fields [OF v'(2)] and r = fixed_partD(1) [OF v'(4)] and b = live_stateD(7,8) [OF v'(3)]
  show ?thesis by (rule exI [of _ v']) (use v'(1) f r b in simp)
qed

text \<open>An environment in which nothing outside answers.\<close>

definition env_alone :: cmd_env where
  "env_alone = \<lparr>ce_play = env_quiet, ce_flt = (\<lambda>x. x), ce_alloc = (\<lambda>_. True), ce_bundle = (\<lambda>_ _. None),
     ce_outside = (\<lambda>_ _ _ _. None)\<rparr>"

lemma demo_live: "live_state 1 (demo_loop 2) (vj_demo (demo_loop 2))"
proof -
  have "solo 1 (demo_loop 2) (vj_demo (demo_loop 2))" "unheld (vj_demo (demo_loop 2))"
    by (rule demo_solo; simp add: demo_loop_facts)+
  moreover have "free_link (vj_demo (demo_loop 2))"
    by (simp add: free_link_def link_mode_def vj_demo_def ctl_zero_def mode_consts)
  ultimately show ?thesis by (simp add: live_state_def demo_loop_facts vj_demo_fields)
qed

theorem live_playing_refines_witness:
  "\<exists>v'. run_live 1 env_alone [Frame, Command (Go_frame 7), Command Play_back, Frame, Frame] (vj_demo (demo_loop 2)) = Some v' \<and>
     st_current_frame_num v' \<in> {0, 1}"
proof -
  let ?xs = "[Frame, Command (Go_frame 7), Command Play_back, Frame, Frame]" and ?v = "vj_demo (demo_loop 2)"
  have ok: "list_all step_ok ?xs" by (simp add: step_ok_def)
  obtain sj q t c where "spec_live (ce_play env_alone) (st_min_frame_num ?v, st_max_frame_num ?v) ?xs (demo_loop 2)
    (st_current_frame_num ?v) (st_current_playback_speed ?v) (vi_rands ?v) = (sj, q, t, c)" by (metis prod_cases4)
  from live_playing_refines [OF demo_live ok this, of 1] obtain v' where
    "run_live 1 env_alone ?xs ?v = Some v'" "0 \<le> st_current_frame_num v'" "st_current_frame_num v' \<le> 1"
    by (auto simp: demo_loop_facts)
  then show ?thesis by (intro exI [of _ v']) auto
qed

lemma live_texts: "text_of (live_command (Go_frame 1)) = ''019:1;''" "text_of (live_command Play_back) = ''011:;''"
proof -
  have "message 19 (show_int 1) = ''019:1;''" "message 11 [] = ''011:;''" by code_simp+
  then show "text_of (live_command (Go_frame 1)) = ''019:1;''" "text_of (live_command Play_back) = ''011:;''"
    by (simp_all add: text_of_def vims_ids)
qed

text \<open>
  C2. Messages mean what they say. A list of commands (without arguments, with numbers of which the last may be left
  out where the table allows it, or with numbers and a long text), each sent as its text and parsed, does what the
  handlers of the table do when they are called one after the other with those numbers and texts, completed by the
  defaults of the table.
\<close>

theorem commands_as_text:
  assumes "list_all command_ok cs"
  shows "run_messages depth env (map text_of cs) v = exec_commands depth env cs v"
  using assms by (rule run_commands)

theorem commands_as_text_witness:
  "run_messages 1 env_alone [''019:1;'', ''011:;''] (vj_demo (demo_loop 2))
    = exec_commands 1 env_alone [live_command (Go_frame 1), live_command Play_back] (vj_demo (demo_loop 2))"
proof -
  have "list_all command_ok [live_command (Go_frame 1), live_command Play_back]"
    using live_command_ok [of "Go_frame 1"] live_command_ok [of Play_back] by (simp del: live_command.simps)
  from commands_as_text [OF this] show ?thesis
    by (simp add: live_texts del: run_messages.simps exec_commands.simps live_command.simps)
qed

end
