(* ===== verification/VimsBundle.thy ===== *)
theory VimsBundle
  imports LivePlay
begin

text \<open>
  Bundles: several messages in one. The scan of a bundle runs the messages between its braces as if they came one by one;
  stored under a number, a bundle is a command of its own, and may run other bundles, or itself.
\<close>

subsection \<open>Scanning a bundle\<close>

definition in_bundle :: "string \<Rightarrow> bool" where
  "in_bundle m \<longleftrightarrow> 4 \<le> length m \<and> length m \<le> 255 \<and> last m = CHR '';'' \<and>
     CHR '';'' \<notin> set (butlast m) \<and> CHR ''}'' \<notin> set (butlast m)"

definition bundle_text :: "int \<Rightarrow> string list \<Rightarrow> string" where
  "bundle_text k ms = ''BUN:'' @ show_pad 3 k @ ''{'' @ concat ms @ ''}''"

fun each_message :: "(string \<Rightarrow> veejay \<Rightarrow> veejay option) \<Rightarrow> string list \<Rightarrow> veejay \<Rightarrow> veejay option" where
  "each_message f [] v = Some v"
| "each_message f (m # ms) v = do { v \<leftarrow> f m v; each_message f ms v }"

lemma scan_body:
  assumes "CHR '';'' \<notin> set body" "CHR ''}'' \<notin> set body"
  shows "bundle_scan f cur (body @ CHR '';'' # d # rest) v =
    (if length (cur @ body) > 254 then out_of_bounds else do { v \<leftarrow> f (cur @ body @ '';'') v; bundle_scan f [d] rest v })"
  using assms
proof (induction body arbitrary: cur)
  case (Cons c body)
  obtain x xs where x: "body @ CHR '';'' # d # rest = x # xs" by (cases body) auto
  have "bundle_scan f cur ((c # body) @ CHR '';'' # d # rest) v = bundle_scan f (cur @ [c]) (body @ CHR '';'' # d # rest) v"
    using Cons.prems unfolding append_Cons x by auto
  then show ?case using Cons by simp
qed simp

lemma scan_messages:
  assumes "list_all in_bundle ms"
  shows "bundle_scan f [hd (concat ms @ ''}'')] (tl (concat ms @ ''}'')) v = each_message f ms v"
  using assms
proof (induction ms arbitrary: v)
  case (Cons m ms)
  let ?x = "concat ms @ ''}''"
  obtain d rest where x: "?x = d # rest" by (cases ?x) auto
  have m: "m = butlast m @ '';''" using Cons.prems by (cases m rule: rev_cases) (auto simp: in_bundle_def)
  obtain b bs where b: "butlast m = b # bs" using Cons.prems by (cases m rule: rev_cases; cases "butlast m") (auto simp: in_bundle_def)
  have e: "m = b # bs @ '';''" using m b by simp
  have "CHR '';'' \<notin> set bs" "CHR ''}'' \<notin> set bs" "length ([b] @ bs) \<le> 254"
    using Cons.prems b e by (auto simp: in_bundle_def)
  then have "bundle_scan f [b] (bs @ CHR '';'' # d # rest) v = do { v \<leftarrow> f m v; bundle_scan f [d] rest v }"
    using scan_body [of bs f "[b]" d rest v] e by simp
  moreover have "bundle_scan f [d] rest w = each_message f ms w" for w using Cons x by simp
  moreover have "concat (m # ms) @ ''}'' = b # bs @ CHR '';'' # d # rest" using e x by simp
  ultimately show ?case by simp
qed simp

lemma scan_bundle:
  assumes "list_all in_bundle ms"
  shows "bundle_scan f [] (concat ms @ ''}'') v = each_message f ms v"
proof (cases ms)
  case (Cons m ns)
  have "4 \<le> length m" "last m = CHR '';''" using assms Cons by (simp_all add: in_bundle_def)
  then obtain a b bs where m: "m = a # b # bs" by (cases m; cases "tl m") auto
  then have "a \<noteq> CHR '';''" "a \<noteq> CHR ''}''" using assms Cons by (auto simp: in_bundle_def)
  then have "bundle_scan f [] (concat ms @ ''}'') v = bundle_scan f [hd (concat ms @ ''}'')] (tl (concat ms @ ''}'')) v"
    by (simp add: Cons m)
  then show ?thesis using scan_messages [OF assms] by simp
qed simp

lemma lower_bun: "map lower ''BUN'' = ''bun''"
  by code_simp

lemma bundle_shape:
  assumes "0 < k" "k < 1000"
  shows "drop 8 (bundle_text k ms) = concat ms @ ''}''" "char_at (bundle_text k ms) 3 = Some CHR '':''"
    "char_at (bundle_text k ms) 7 = Some CHR ''{''" "scan_field 3 (drop 4 (bundle_text k ms)) = Some (k, ''{'' @ concat ms @ ''}'')"
    "last (bundle_text k ms) = CHR ''}''" "4 \<le> length (bundle_text k ms)" "starts_with ''bun'' (bundle_text k ms)"
proof -
  have l: "length (show_pad 3 k) = 3" using scan_field_pad(2) [of k 3] assms by simp
  then have "(show_pad 3 k @ CHR ''{'' # r) ! 3 = CHR ''{''" for r by (simp add: nth_append)
  then show "char_at (bundle_text k ms) 7 = Some CHR ''{''" using l by (simp add: bundle_text_def char_at_def c_nth_def numeral_eq_Suc)
  show "starts_with ''bun'' (bundle_text k ms)"
    using lower_bun by (simp add: starts_with_def bundle_text_def)
qed (use scan_field_pad [of k 3] assms in \<open>simp_all add: bundle_text_def char_at_def c_nth_def numeral_eq_Suc\<close>)

lemma parse_bundle_messages:
  assumes "0 < k" "k < 1000" "list_all in_bundle ms"
  shows "parse_bundle f (bundle_text k ms) v = each_message f ms v"
  using assms(1) by (simp add: parse_bundle_def bundle_shape [OF assms(1,2)] scan_bundle [OF assms(3)])

lemma each_run_messages:
  "each_message (\<lambda>m v. map_option snd (vj_event_parse_msg depth env m (int (length m)) v)) ms v = run_messages depth env ms v"
proof (induction ms arbitrary: v)
  case (Cons m ms)
  then have "each_message (\<lambda>m v. map_option snd (vj_event_parse_msg depth env m (int (length m)) v)) ms = run_messages depth env ms"
    by auto
  then show ?case by (simp only: each_message.simps run_message [OF refl])
qed simp

lemma run_bundle:
  assumes "0 < k" "k < 1000" "list_all in_bundle ms"
  shows "vj_event_parse_bundle (Suc depth) env (bundle_text k ms) v = run_messages depth env ms v"
  using parse_bundle_messages [OF assms] each_run_messages
  by (simp add: vj_event_parse_msg_def [abs_def])

lemma parse_bundle_text:
  assumes "0 < k" "k < 1000" "list_all in_bundle ms"
  shows "vj_event_parse_msg (Suc depth) env (bundle_text k ms) (int (length (bundle_text k ms))) v
    = map_option (Pair 1) (run_messages depth env ms v)"
proof -
  have "veejay_chomp_str (bundle_text k ms) n = (bundle_text k ms, n)" for n
    by (simp add: veejay_chomp_str_def bundle_shape(5) [OF assms(1,2)])
  moreover have "(do { v \<leftarrow> p; Some (1, v) }) = map_option (Pair (1 :: int)) p" for p :: "veejay option" by (cases p) auto
  ultimately show ?thesis
    using bundle_shape(6,7) [OF assms(1,2), of ms] run_bundle [OF assms, of depth env v]
    by (simp add: vj_event_parse_msg_def parse_message_def MSG_MIN_LEN_def del: vj_event_parse_bundle.simps)
qed

subsection \<open>Bundles that are stored\<close>

definition bundle_number :: "int \<Rightarrow> bool" where
  "bundle_number n \<longleftrightarrow> VIMS_BUNDLE_START \<le> n \<and> n < VIMS_BUNDLE_END"

lemma parse_stored:
  assumes "bundle_number n" "vj_event_bundle_get v n = Some b"
  shows "map_option snd (vj_event_parse_msg depth env (message n []) (int (length (message n []))) v)
    = vj_event_parse_bundle depth env b v"
proof -
  have n: "0 \<le> n" "n < 1000" "0 < n" "n < VIMS_MAX" "VIMS_BUNDLE_START \<le> n" "n < VIMS_BUNDLE_END"
    using assms(1) by (simp_all add: bundle_number_def VIMS_BUNDLE_START_def VIMS_BUNDLE_END_def VIMS_MAX_def)
  note m = message_shape [OF n(1,2), of "[]"]
  obtain c cs where c: "message n [] = c # cs" using m(6) by (cases "message n []") auto
  have "\<not> starts_with ''bun'' (message n [])" "\<not> starts_with ''key'' (message n [])"
    using m(5) digit_not_letter [of c] by (auto simp: starts_with_def c)
  moreover have "veejay_chomp_str (message n []) k = (message n [], k)" for k using m(3) by (simp add: veejay_chomp_str_def)
  moreover have "map_option snd (do { v \<leftarrow> p; Some (1 :: int, v) }) = p" for p :: "veejay option" by (cases p) auto
  ultimately show ?thesis
    using n m assms(2) by (simp add: vj_event_parse_msg_def parse_message_def parse_command_def MSG_MIN_LEN_def)
qed

text \<open>A bundle that calls itself: at no depth of calls the run is over.\<close>

lemma self_call_in_bundle: "bundle_number n \<Longrightarrow> in_bundle (message n [])"
proof -
  assume n: "bundle_number n"
  have p: "0 \<le> n" "length (show_pad 3 n) = 3"
    using n scan_field_pad(2) [of n 3] by (simp_all add: bundle_number_def VIMS_BUNDLE_START_def VIMS_BUNDLE_END_def)
  have b: "butlast (message n []) = show_pad 3 n @ '':''" by (simp add: message_def butlast_append)
  have "CHR '';'' \<notin> set (show_pad 3 n)" "CHR ''}'' \<notin> set (show_pad 3 n)"
    using show_pad_digits [OF p(1), of "CHR '';''" 3] show_pad_digits [OF p(1), of "CHR ''}''" 3] by (auto simp: is_digit_def)
  then show ?thesis unfolding in_bundle_def b using p by (simp add: message_def)
qed

lemma self_call_never_over:
  assumes "bundle_number n" "0 < k" "k < 1000" "vj_event_bundle_get v n = Some (bundle_text k (message n [] # ms))"
    "list_all in_bundle ms"
  shows "vj_event_parse_msg depth env (message n []) (int (length (message n []))) v = None"
proof -
  have "map_option snd (vj_event_parse_msg depth env (message n []) (int (length (message n []))) v) = None"
  proof (induction depth)
    case 0
    then show ?case unfolding parse_stored [OF assms(1,4)] by simp
  next
    case (Suc depth)
    have "list_all in_bundle (message n [] # ms)" using self_call_in_bundle [OF assms(1)] assms(5) by simp
    from run_bundle [OF assms(2,3) this, of depth env v] have
      "vj_event_parse_bundle (Suc depth) env (bundle_text k (message n [] # ms)) v = None"
      unfolding run_message [OF refl] Suc by (simp del: vj_event_parse_bundle.simps)
    with parse_stored [OF assms(1,4)] show ?case by (simp del: vj_event_parse_bundle.simps)
  qed
  then show ?thesis by simp
qed

subsection \<open>Bundles that are made\<close>

definition underscored :: "string \<Rightarrow> string" where
  "underscored = map (\<lambda>c. if c = CHR '' '' then CHR ''_'' else c)"

definition bundle_event :: vims_event where
  "bundle_event = \<lparr>ev_format = Some (text_format 1), ev_vims_id = VIMS_BUNDLE_ADD, ev_function = vj_event_bundled_msg_add,
     ev_arguments = 2, ev_flags = VIMS_LONG_PARAMS OR VIMS_REQUIRE_ALL_PARAMS, ev_defaults = [0, 0]\<rparr>"

lemma bundle_entry: "(VIMS_BUNDLE_ADD, Some bundle_event) \<in> set vims_events"
  by (simp add: table_entry vims_events_12_def bundle_event_def text_format_def c_nth_def numeral_2_eq_2)

lemma bundle_command: "text_command VIMS_BUNDLE_ADD bundle_event 1"
proof -
  have "index_map VIMS_BUNDLE_ADD = Some (Some bundle_event)" by (rule index_map_entry [OF bundle_entry])
  moreover have "(8 OR 1) AND (8 :: int) \<noteq> 0" by simp
  ultimately show ?thesis
    by (simp add: text_command_def command_number_def vims_ids VIMS_BUNDLE_START_def VIMS_BUNDLE_END_def bundle_event_def
        VIMS_ARGS_def vims_flags)
qed

definition with_bundle :: "int \<Rightarrow> string \<Rightarrow> veejay \<Rightarrow> veejay" where
  "with_bundle n b = set_ctl (\<lambda>c. c\<lparr>ct_last_args := 2, ct_bundles := (ct_bundles c)(n \<mapsto> b)\<rparr>)"

lemma add_bundle:
  assumes "bundle_number n" "CHR ''_'' \<notin> set b" "b \<noteq> []" "length b < 1024"
  shows "call_command env (VIMS_BUNDLE_ADD, bundle_event, [n], underscored b) v = Some (with_bundle n b v)"
proof -
  have ne: "underscored b \<noteq> []" "length (underscored b) < 1024" using assms by (simp_all add: underscored_def)
  have un: "map (\<lambda>c. if c = CHR ''_'' then CHR '' '' else c) (underscored b) = b"
    using assms(2) by (auto simp: underscored_def intro!: map_idI)
  have call: "call_command env (VIMS_BUNDLE_ADD, bundle_event, [n], underscored b) v = vj_event_bundled_msg_add env
    (Some ''%d %s'') (VInt n # VStr (underscored b) # replicate 14 VNull) (last_args 2 v)"
    using ne by (simp add: call_command_def call_event_def bundle_event_def text_format_def VIMS_ARGS_def last_args_def)
  have p: "P_A 2 (Some 1024) (Some ''%d %s'') (VInt n # VStr (underscored b) # r) (last_args 2 v) = Some ([n, 0], Some (underscored b))"
    for r using ne by (simp add: P_A_def last_args_def set_ctl_def numeral_2_eq_2)
  have n: "n \<noteq> 0" "\<not> (n < VIMS_BUNDLE_START \<or> n > VIMS_BUNDLE_END)"
    using assms(1) by (simp_all add: bundle_number_def VIMS_BUNDLE_START_def VIMS_BUNDLE_END_def)
  show ?thesis
    unfolding call using p n un assms(3) ne(1)
    by (simp add: vj_event_bundled_msg_add_def vj_event_bundle_new_def vj_event_bundle_store_def vj_event_bundle_del_def
        vj_event_bundle_exists_def vj_event_bundle_get_def with_bundle_def last_args_def set_ctl_def Let_def)
qed

lemma bundle_tail:
  assumes "0 < k" "k < 1000" "list_all in_bundle ms" "length xs \<le> 1"
  shows "tail_ok (text_args xs (underscored (bundle_text k ms)))"
proof -
  have "bundle_text k ms ! (length (bundle_text k ms) - 4) \<noteq> CHR '';''"
  proof (cases ms rule: rev_cases)
    case Nil
    have l: "length (show_pad 3 k) = 3" using scan_field_pad(2) [of k 3] assms by simp
    then have "show_pad 3 k ! 1 \<in> set (show_pad 3 k)" by (intro nth_mem) simp
    then have "is_digit (show_pad 3 k ! 1)" using show_pad_digits [of k _ 3] assms(1) by simp
    then have "show_pad 3 k ! 1 \<noteq> CHR '';''" by (auto simp: is_digit_def)
    moreover have "bundle_text k ms ! 5 = show_pad 3 k ! 1" using l by (simp add: Nil bundle_text_def nth_append numeral_eq_Suc)
    moreover have "length (bundle_text k ms) - 4 = 5" using l by (simp add: Nil bundle_text_def)
    ultimately show ?thesis by simp
  next
    case (snoc ns m)
    then have m: "4 \<le> length m" "CHR '';'' \<notin> set (butlast m)" using assms(3) by (simp_all add: in_bundle_def)
    obtain p where p: "bundle_text k ms = p @ m @ ''}''" by (simp add: bundle_text_def snoc)
    have "length (bundle_text k ms) - 4 = length p + (length m - 3)" using m by (simp add: p)
    then have "bundle_text k ms ! (length (bundle_text k ms) - 4) = (p @ m @ ''}'') ! (length p + (length m - 3))" by (simp only: p)
    also have "\<dots> = (m @ ''}'') ! (length m - 3)" by (rule nth_append_length_plus)
    also have "\<dots> = m ! (length m - 3)" using m by (intro nth_append_left) linarith
    also have "\<dots> = butlast m ! (length m - 3)" using m by (simp add: nth_butlast)
    finally have "bundle_text k ms ! (length (bundle_text k ms) - 4) = butlast m ! (length m - 3)" .
    moreover have "butlast m ! (length m - 3) \<in> set (butlast m)" using m by (intro nth_mem) simp
    ultimately show ?thesis using m(2) by metis
  qed
  moreover have "length (bundle_text k ms) \<ge> 4" by (rule bundle_shape [OF assms(1,2)])
  ultimately have u: "underscored (bundle_text k ms) ! (length (bundle_text k ms) - 4) \<noteq> CHR '';''"
    "length (underscored (bundle_text k ms)) = length (bundle_text k ms)" "4 \<le> length (bundle_text k ms)"
    by (auto simp: underscored_def)
  define t where "t = underscored (bundle_text k ms)"
  have "\<exists>p. text_args xs t = p @ t" by (simp add: text_args_def)
  then obtain p where p: "text_args xs t = p @ t" by blast
  have "length (p @ t) - 4 = length p + (length t - 4)" using u by (simp add: t_def)
  then have "(p @ t) ! (length (p @ t) - 4) = t ! (length t - 4)" by (simp only: nth_append_length_plus)
  then show ?thesis using u unfolding t_def [symmetric] p by (simp add: tail_ok_def)
qed

definition add_bundle_command :: "int \<Rightarrow> int \<Rightarrow> vims_command list \<Rightarrow> vims_command" where
  "add_bundle_command n k cs = (VIMS_BUNDLE_ADD, bundle_event, [n], underscored (bundle_text k (map text_of cs)))"

text \<open>A bundle of two commands.\<close>

definition demo_commands :: "vims_command list" where
  "demo_commands = [live_command (Go_frame 1), live_command Play_back]"

definition demo_bundle :: string where
  "demo_bundle = ''BUN:002{019:1;011:;}''"

lemma demo_bundle:
  "bundle_text 2 (map text_of demo_commands) = demo_bundle" "list_all command_ok demo_commands"
  "list_all in_bundle (map text_of demo_commands)" "CHR ''_'' \<notin> set demo_bundle" "length demo_bundle < 1024"
  "bundle_number 500"
proof -
  have "bundle_text 2 [''019:1;'', ''011:;''] = ''BUN:002{019:1;011:;}''" by code_simp
  then show "bundle_text 2 (map text_of demo_commands) = demo_bundle"
    by (simp add: demo_commands_def demo_bundle_def live_texts del: live_command.simps)
  show "list_all command_ok demo_commands"
    using live_command_ok [of "Go_frame 1"] live_command_ok [of Play_back] by (simp add: demo_commands_def del: live_command.simps)
  show "list_all in_bundle (map text_of demo_commands)"
    by (simp add: demo_commands_def live_texts in_bundle_def del: live_command.simps)
qed (simp_all add: demo_bundle_def bundle_number_def VIMS_BUNDLE_START_def VIMS_BUNDLE_END_def)

text \<open>
  C4. A bundle is a sequence. Commands sent as one bundle do what they do one after the other, whatever number of
  messages (not 0) its head announces; the messages must be at most 255 bytes long and hold no brace.
\<close>

theorem bundle_is_sequence:
  assumes "0 < k" "k < 1000" "list_all command_ok cs" "list_all in_bundle (map text_of cs)"
  shows "vj_event_parse_msg (Suc depth) env (bundle_text k (map text_of cs)) (int (length (bundle_text k (map text_of cs)))) v
    = map_option (Pair 1) (exec_commands depth env cs v)"
  using parse_bundle_text [OF assms(1,2,4)] run_commands [OF assms(3)] by simp

theorem bundle_is_sequence_witness:
  "vj_event_parse_msg 1 env_alone demo_bundle (int (length demo_bundle)) (vj_demo (demo_loop 2))
    = map_option (Pair 1) (exec_commands 0 env_alone demo_commands (vj_demo (demo_loop 2)))"
  using bundle_is_sequence [of 2 demo_commands 0, OF _ _ demo_bundle(2,3)]
  by (simp add: demo_bundle(1) del: exec_commands.simps)



text \<open>
  A bundle that calls itself first never comes to an end: at no depth of calls is its run over, so in C the stack overflows.
\<close>

theorem self_calling_bundle_never_ends:
  assumes "bundle_number n" "0 < k" "k < 1000" "vj_event_bundle_get v n = Some (bundle_text k (message n [] # ms))"
    "list_all in_bundle ms"
  shows "vj_event_parse_msg depth env (message n []) (int (length (message n []))) v = None"
  using assms by (rule self_call_never_over)

theorem self_calling_bundle_never_ends_witness:
  "vj_event_parse_msg 1000 env_alone (message 500 []) (int (length (message 500 [])))
     (with_bundle 500 (bundle_text 1 [message 500 []]) (vj_demo (demo_loop 2))) = None"
proof -
  have "vj_event_bundle_get (with_bundle 500 (bundle_text 1 [message 500 []]) (vj_demo (demo_loop 2))) 500
    = Some (bundle_text 1 [message 500 []])"
    by (simp add: vj_event_bundle_get_def with_bundle_def set_ctl_def)
  then show ?thesis by (intro self_calling_bundle_never_ends [where k = 1 and ms = "[]", OF demo_bundle(6)]) simp_all
qed

end
