(* ===== verification/VimsRemote.thy ===== *)
theory VimsRemote
  imports VimsServer VimsBundle
begin

text \<open>
  The event loop (\<open>vj_event_update_remote\<close>): once per frame the servers are polled, new clients are accepted, and each client
  that has sent something is served: its messages are received, taken from the queue one by one and parsed. A client that
  cannot be read any more is dropped.

  \<^item> \<open>vjs\<close> is the array of servers: commands, status, multicast and data, by port.
  \<^item> Parameters, one record per call: what the operating system answers, what the multicast server delivers, and
    what the answers to a message do to the servers (an answer that cannot be sent drops the client).
  \<^item> \<open>is_dat\<close>, read by the handlers that send frames, and the replay of recorded macros are left out.
\<close>

subsection \<open>Servers\<close>

definition VEEJAY_PORT_CMD :: nat where "VEEJAY_PORT_CMD = 0"
definition VEEJAY_PORT_STA :: nat where "VEEJAY_PORT_STA = 1"
definition VEEJAY_PORT_DAT :: nat where "VEEJAY_PORT_DAT = 3"

type_synonym servers = "nat \<Rightarrow> vj_server"

record remote_input =
  ri_select :: "nat \<Rightarrow> int set \<Rightarrow> int \<times> int set \<times> int set"
  ri_accept :: "nat \<Rightarrow> int"
  ri_mcast :: "string list option"
  ri_recv :: "nat \<Rightarrow> int \<Rightarrow> received list"
  ri_answer :: "string \<Rightarrow> servers \<Rightarrow> servers"

text \<open>Polling comes first for all three servers, then the connections are accepted.\<close>

definition accept_client :: "remote_input \<Rightarrow> nat \<Rightarrow> int \<Rightarrow> servers \<Rightarrow> servers option" where
  "accept_client inp port p vjs =
     (if p = 0 then Some vjs
      else do { (n, s) \<leftarrow> vj_server_new_connection (vjs port) (ri_accept inp port); Some (vjs(port := s)) })"

definition poll_servers :: "remote_input \<Rightarrow> servers \<Rightarrow> servers option" where
  "poll_servers inp vjs = do {
     let (p1, s1) = vj_server_poll (ri_select inp VEEJAY_PORT_CMD) (vjs VEEJAY_PORT_CMD);
     let (p2, s2) = vj_server_poll (ri_select inp VEEJAY_PORT_STA) (vjs VEEJAY_PORT_STA);
     let (p3, s3) = vj_server_poll (ri_select inp VEEJAY_PORT_DAT) (vjs VEEJAY_PORT_DAT);
     vjs \<leftarrow> accept_client inp VEEJAY_PORT_CMD p1 (vjs(VEEJAY_PORT_CMD := s1, VEEJAY_PORT_STA := s2, VEEJAY_PORT_DAT := s3));
     vjs \<leftarrow> accept_client inp VEEJAY_PORT_STA p2 vjs;
     accept_client inp VEEJAY_PORT_DAT p3 vjs }"

subsection \<open>Serving a client\<close>

text \<open>The loop over the messages of a link; \<open>None\<close> also when it is not over after \<open>m\<close> rounds.\<close>

fun serve_messages :: "nat \<Rightarrow> nat \<Rightarrow> cmd_env \<Rightarrow> remote_input \<Rightarrow> nat \<Rightarrow> int \<Rightarrow> servers \<Rightarrow> veejay \<Rightarrow> (servers \<times> veejay) option" where
  "serve_messages 0 depth env inp port i vjs v = c_undefined"
| "serve_messages (Suc m) depth env inp port i vjs v = do {
     (r, s) \<leftarrow> vj_server_retrieve_msg (vjs port) i;
     case r of
       Some (Some a, len) \<Rightarrow> do {
         l \<leftarrow> c_nth (vs_link s) i;
         p \<leftarrow> lk_pool l;
         bs \<leftarrow> pool_read p a len;
         (n, v) \<leftarrow> vj_event_parse_msg depth env bs len v;
         serve_messages m depth env inp port i (ri_answer inp bs (vjs(port := s))) v }
     | _ \<Rightarrow> Some (vjs(port := s), v) }"

definition current_link :: "int \<Rightarrow> veejay \<Rightarrow> veejay" where
  "current_link i = set_ctl (ct_current_link_update (\<lambda>_. i))"

fun drop_client :: "nat list \<Rightarrow> int \<Rightarrow> servers \<Rightarrow> servers option" where
  "drop_client [] i vjs = Some vjs"
| "drop_client (port # ports) i vjs = do {
     (r, s) \<leftarrow> vj_server_del_client (vjs port) i;
     drop_client ports i (vjs(port := s)) }"

text \<open>One round of the loop over the links of a server; a client that is gone is dropped from \<open>ports\<close>.\<close>

definition serve_client :: "nat \<Rightarrow> nat \<Rightarrow> cmd_env \<Rightarrow> remote_input \<Rightarrow> nat \<Rightarrow> nat list \<Rightarrow> int \<Rightarrow> servers \<Rightarrow> veejay \<Rightarrow>
    (servers \<times> veejay) option" where
  "serve_client fuel depth env inp port ports i vjs v = do {
     r \<leftarrow> vj_server_link_can_read (vjs port) i;
     if r = 0 then Some (vjs, v)
     else do {
       s \<leftarrow> vj_server_init_msg_pool (vjs port) i;
       (w, s) \<leftarrow> vj_server_update fuel (ri_recv inp port i) s i;
       case w of
         Walk_more \<Rightarrow> c_undefined
       | Walk_done res \<Rightarrow>
           if res > 0 then serve_messages fuel depth env inp port i (vjs(port := s)) (current_link i v)
           else do { vjs \<leftarrow> drop_client ports i (vjs(port := s)); Some (vjs, v) } } }"

fun serve_clients :: "nat \<Rightarrow> nat \<Rightarrow> cmd_env \<Rightarrow> remote_input \<Rightarrow> nat \<Rightarrow> nat list \<Rightarrow> nat list \<Rightarrow> servers \<Rightarrow> veejay \<Rightarrow>
    (servers \<times> veejay) option" where
  "serve_clients fuel depth env inp port ports [] vjs v = Some (vjs, v)"
| "serve_clients fuel depth env inp port ports (i # js) vjs v = do {
     (vjs, v) \<leftarrow> serve_client fuel depth env inp port ports (int i) vjs v;
     serve_clients fuel depth env inp port ports js vjs v }"

definition vj_event_update_remote :: "nat \<Rightarrow> nat \<Rightarrow> cmd_env \<Rightarrow> remote_input \<Rightarrow> servers \<Rightarrow> veejay \<Rightarrow> (servers \<times> veejay) option" where
  "vj_event_update_remote fuel depth env inp vjs v = do {
     vjs \<leftarrow> poll_servers inp vjs;
     v \<leftarrow> (case ri_mcast inp of None \<Rightarrow> Some v | Some ms \<Rightarrow> run_messages depth env ms (current_link 0 v));
     (vjs, v) \<leftarrow> serve_clients fuel depth env inp VEEJAY_PORT_CMD [VEEJAY_PORT_CMD, VEEJAY_PORT_STA] [0..<VJ_MAX_CONNECTIONS] vjs v;
     serve_clients fuel depth env inp VEEJAY_PORT_DAT [VEEJAY_PORT_DAT] [0..<VJ_MAX_CONNECTIONS] vjs v }"

subsection \<open>What a link's work leaves alone\<close>

text \<open>The work on link \<open>i\<close> changes neither another link nor who holds one or can be read.\<close>

definition only_link :: "int \<Rightarrow> vj_server \<Rightarrow> vj_server \<Rightarrow> bool" where
  "only_link i s s' \<longleftrightarrow> vs_fds s' = vs_fds s \<and> vs_use_mcast s' = vs_use_mcast s \<and> length (vs_link s') = length (vs_link s) \<and>
     (\<forall>j. j \<noteq> nat i \<longrightarrow> vs_link s' ! j = vs_link s ! j) \<and>
     lk_in_use (vs_link s' ! nat i) = lk_in_use (vs_link s ! nat i) \<and> lk_handle (vs_link s' ! nat i) = lk_handle (vs_link s ! nat i)"

lemma only_link_trans: "only_link i s s1 \<Longrightarrow> only_link i s1 s2 \<Longrightarrow> only_link i s s2"
  by (simp add: only_link_def)

lemma only_link_refl [simp]: "only_link i s s"
  by (simp add: only_link_def)

lemma only_link_buf [simp]:
  "only_link i s (s'\<lparr>vs_recv_buf := b\<rparr>) = only_link i s s'" "only_link i (s\<lparr>vs_recv_buf := b\<rparr>) s' = only_link i s s'"
  by (simp_all add: only_link_def)

lemma only_link_with:
  assumes "with_link s i k = Some (r, s')"
    "\<And>l l' r. k l = Some (r, l') \<Longrightarrow> lk_in_use l' = lk_in_use l \<and> lk_handle l' = lk_handle l"
  shows "only_link i s s'"
proof -
  obtain l l' where l: "c_nth (vs_link s) i = Some l" "k l = Some (r, l')" "s' = s\<lparr>vs_link := (vs_link s)[nat i := l']\<rparr>"
    using assms(1) by (auto simp: with_link_def bind_eq_Some_conv)
  note li = c_nth_SomeD [OF l(1)]
  then have "nat i < length (vs_link s)" by auto
  then show ?thesis using l(3) li assms(2) [OF l(2)] by (simp add: only_link_def)
qed

lemma init_pool_only: "vj_server_init_msg_pool s i = Some s' \<Longrightarrow> only_link i s s'"
  by (auto simp: vj_server_init_msg_pool_def bind_eq_Some_conv intro!: only_link_with split: if_splits)

lemma empty_queue_only: "vj_server_empty_queue s i = Some (r, s') \<Longrightarrow> only_link i s s'"
  unfolding vj_server_empty_queue_def by (rule only_link_with) (auto split: option.splits)

lemma retrieved_only:
  "with_link s i (\<lambda>l. Some ((), l\<lparr>lk_n_retrieved := lk_n_retrieved l + 1\<rparr>)) = Some (r, s') \<Longrightarrow> only_link i s s'"
  by (rule only_link_with) auto

lemma retrieve_only: "vj_server_retrieve_msg s i = Some (r, s') \<Longrightarrow> only_link i s s'"
  by (auto simp: vj_server_retrieve_msg_def bind_eq_Some_conv split: if_splits dest: retrieved_only)

lemma parse_msg_only:
  assumes "with_link (s\<lparr>vs_recv_buf := b\<rparr>) i (vj_parse_msg buf n fuel) = Some (r, s')"
  shows "only_link i s s'"
proof -
  have "only_link i (s\<lparr>vs_recv_buf := b\<rparr>) s'"
    by (rule only_link_with [OF assms]) (auto simp: vj_parse_msg_def link_same_def dest!: parse_loop_same)
  then show ?thesis by simp
qed

lemma update_only:
  assumes "vj_server_update fuel rs s i = Some (w, s')"
  shows "only_link i s s'"
proof -
  obtain l where l: "c_nth (vs_link s) i = Some l" using assms by (auto simp: vj_server_update_def bind_eq_Some_conv)
  show ?thesis
  proof (cases "lk_in_use l = 0")
    case True
    with assms l show ?thesis by (simp add: vj_server_update_def)
  next
    case used: False
    then obtain r s1 where e: "vj_server_empty_queue s i = Some (r, s1)"
      using assms l by (auto simp: vj_server_update_def bind_eq_Some_conv)
    note only = empty_queue_only [OF e]
    show ?thesis
    proof (cases "lk_handle l \<in> vs_fds s1")
      case False
      with assms l e used only show ?thesis by (simp add: vj_server_update_def)
    next
      case True
      then obtain got buf where g: "recv_first rs (vs_recv_buf s1) = Some (got, buf)"
        using assms l e used by (auto simp: vj_server_update_def bind_eq_Some_conv)
      show ?thesis
      proof (cases got)
        case None
        with assms l e g used True only show ?thesis by (auto simp: vj_server_update_def)
      next
        case (Some n)
        show ?thesis
        proof (cases "n \<le> 0")
          case True
          with assms l e g used \<open>lk_handle l \<in> vs_fds s1\<close> Some only show ?thesis by (auto simp: vj_server_update_def)
        next
          case False
          then obtain v where v: "vj_verify_msg (vs_use_mcast s1) buf n fuel = Some v"
            using assms l e g used True Some by (auto simp: vj_server_update_def bind_eq_Some_conv Let_def)
          show ?thesis
            using assms l e g used True Some False v only
            by (cases v) (auto simp: vj_server_update_def bind_eq_Some_conv Let_def split: if_splits dest!: parse_msg_only dest: only_link_trans)
        qed
      qed
    qed
  qed
qed

subsection \<open>A client that is served\<close>

lemma serve_messages_holds:
  assumes "slots_ok (vjs port)" "0 \<le> i" "i < int VJ_MAX_CONNECTIONS" "vs_link (vjs port) ! nat i = l" "holds l p ts e"
    "lk_n_queued l = int (length ts)" "lk_n_retrieved l = int k" "k \<le> length ts" "length ts < VJ_MAX_PENDING_MSG" "lk_in_use l \<noteq> 0"
    "length ts - k < m" "ri_answer inp = (\<lambda>bs vjs. vjs)"
  shows "\<exists>s. only_link i (vjs port) s \<and> slots_ok s \<and> (\<forall>v. serve_messages m depth env inp port i vjs v
    = map_option (Pair (vjs(port := s))) (run_messages depth env (drop k ts) v))"
  using assms
proof (induction m arbitrary: vjs l k)
  case (Suc m)
  note len = slots_ok_length [OF Suc.prems(1)]
  show ?case
  proof (cases "k = length ts")
    case True
    then show ?thesis using Suc.prems len
      by (intro exI [of _ "vjs port"]) (simp add: vj_server_retrieve_msg_def)
  next
    case False
    then have k: "k < length ts" using Suc.prems(8) by simp
    then obtain a where a: "lk_m_queue l ! k = \<lparr>vm_msg = Some a, vm_len = int (length (ts ! k))\<rparr>"
        "pool_read p a (int (length (ts ! k))) = Some (ts ! k)"
      using Suc.prems(5) by (auto simp: holds_def)
    let ?l = "l\<lparr>lk_n_retrieved := int k + 1\<rparr>"
    let ?s = "vjs port\<lparr>vs_link := (vs_link (vjs port))[nat i := ?l]\<rparr>"
    let ?vjs = "vjs(port := ?s)"
    have q: "length (lk_m_queue l) = VJ_MAX_PENDING_MSG" "lk_pool l = Some p" using Suc.prems(5) by (simp_all add: holds_def)
    have r: "vj_server_retrieve_msg (vjs port) i = Some (Some (Some a, int (length (ts ! k))), ?s)"
      using Suc.prems k a(1) q len by (simp add: vj_server_retrieve_msg_def with_link_def)
    have ok: "slots_ok ?s" using server_step_slots [OF server_step.retrieve [OF r]] Suc.prems(1) by blast
    have "holds ?l p ts e" using Suc.prems(5) by (simp add: holds_def)
    moreover have "vs_link (?vjs port) ! nat i = ?l" using Suc.prems(2,3) len by simp
    moreover have "length ts - Suc k < m" using Suc.prems(11) k by linarith
    ultimately have "\<exists>s. only_link i (?vjs port) s \<and> slots_ok s \<and> (\<forall>v. serve_messages m depth env inp port i ?vjs v
        = map_option (Pair (?vjs(port := s))) (run_messages depth env (drop (Suc k) ts) v))"
      by (intro Suc.IH [where l = ?l and k = "Suc k"]) (use Suc.prems ok k in simp_all)
    then obtain s where s: "only_link i ?s s" "slots_ok s" "\<And>v. serve_messages m depth env inp port i ?vjs v
        = map_option (Pair (vjs(port := s))) (run_messages depth env (drop (Suc k) ts) v)" by auto
    have "serve_messages (Suc m) depth env inp port i vjs v = map_option (Pair (vjs(port := s))) (run_messages depth env (drop k ts) v)" for v
      using r a(2) q len Suc.prems(2,3,12) s(3) k
      by (cases "vj_event_parse_msg depth env (ts ! k) (int (length (ts ! k))) v") (auto simp: Cons_nth_drop_Suc [symmetric])
    then show ?thesis using s(2) only_link_trans [OF retrieve_only [OF r] s(1)] by blast
  qed
qed simp

text \<open>The packet of a command, and what a client does in a round: it sends commands, in one piece, or it is gone.\<close>

definition command_packet :: "vims_command \<Rightarrow> packet" where
  "command_packet = (\<lambda>(n, e, xs, t). Vims n (if t = [] then show_ints xs else text_args xs t))"

lemma command_packet_text: "packet_text (command_packet c) = text_of c"
  by (cases c) (simp add: command_packet_def text_of_def message_def packet_text.simps(1))

datatype client = Silent | Sends "vims_command list" | Gone

definition command_bytes :: "vims_command list \<Rightarrow> string" where
  "command_bytes cs = concat (map encode (map command_packet cs))"

fun client_sends :: "client \<Rightarrow> received list" where
  "client_sends (Sends cs) = [Recv_bytes [hd (command_bytes cs)] False, Recv_bytes (tl (command_bytes cs)) False]"
| "client_sends c = []"

fun client_ok :: "bool \<Rightarrow> client \<Rightarrow> bool" where
  "client_ok use_mcast (Sends cs) \<longleftrightarrow> cs \<noteq> [] \<and> list_all command_ok cs \<and>
     (\<forall>c \<in> set cs. packet_ok use_mcast (command_packet c) \<and> packet_long (command_packet c)) \<and> length (command_bytes cs) \<le> RECV_SIZE"
| "client_ok use_mcast c \<longleftrightarrow> True"

lemma command_bytes_shape:
  assumes "client_ok use_mcast (Sends cs)"
  shows "command_bytes cs \<noteq> []" "length cs < VJ_MAX_PENDING_MSG"
proof -
  have "5 * length cs \<le> length (command_bytes cs)"
    using concat_encode_length [of "map command_packet cs" use_mcast] assms by (simp add: command_bytes_def)
  then show "command_bytes cs \<noteq> []" "length cs < VJ_MAX_PENDING_MSG"
    using assms by (auto simp: RECV_SIZE_def VJ_MAX_PENDING_MSG_def)
qed

lemma can_readD:
  assumes "vj_server_link_can_read s (int i) = Some 1"
  shows "lk_in_use (vs_link s ! i) \<noteq> 0" "lk_handle (vs_link s ! i) \<in> vs_fds s" "i < length (vs_link s)"
  using assms by (auto simp: vj_server_link_can_read_def bind_eq_Some_conv split: if_splits dest!: c_nth_SomeD)

lemma pool_ready:
  assumes "slots_ok s" "vj_server_link_can_read s (int i) = Some 1"
  shows "\<exists>s'. vj_server_init_msg_pool s (int i) = Some s' \<and> only_link (int i) s s' \<and> slots_ok s' \<and> lk_pool (vs_link s' ! i) \<noteq> None"
proof -
  note r = can_readD [OF assms(2)]
  let ?l = "if lk_pool (vs_link s ! i) = None then (vs_link s ! i)\<lparr>lk_pool := Some (vj_simple_pool_init MSG_POOL_SIZE)\<rparr> else vs_link s ! i"
  have i: "vj_server_init_msg_pool s (int i) = Some (s\<lparr>vs_link := (vs_link s)[i := ?l]\<rparr>)"
    using r(3) by (simp add: vj_server_init_msg_pool_def with_link_def)
  then show ?thesis
    using r(3) init_pool_only [OF i] server_step_slots [OF server_step.pool [OF assms(2) i] assms(1)] by auto
qed

text \<open>Its commands run as the calls they stand for.\<close>

lemma serve_sends:
  assumes "slots_ok (vjs port)" "vj_server_link_can_read (vjs port) (int i) = Some 1" "client_ok (vs_use_mcast (vjs port)) (Sends cs)"
    "ri_recv inp port (int i) = client_sends (Sends cs)" "ri_answer inp = (\<lambda>bs vjs. vjs)" "VJ_MAX_PENDING_MSG \<le> fuel"
  shows "\<exists>s. only_link (int i) (vjs port) s \<and> slots_ok s \<and> serve_client fuel depth env inp port ports (int i) vjs v
    = map_option (Pair (vjs(port := s))) (exec_commands depth env cs (current_link (int i) v))"
proof -
  note r = can_readD [OF assms(2)] and shape = command_bytes_shape [OF assms(3)] and len = slots_ok_length [OF assms(1)]
  let ?pks = "map command_packet cs" and ?n = "length cs"
  obtain s1 where s1: "vj_server_init_msg_pool (vjs port) (int i) = Some s1" "only_link (int i) (vjs port) s1" "slots_ok s1"
      "lk_pool (vs_link s1 ! i) \<noteq> None" using pool_ready [OF assms(1,2)] by blast
  have ok: "\<forall>pk \<in> set ?pks. packet_ok (vs_use_mcast s1) pk \<and> packet_long pk"
    using assms(3) s1(2) by (simp add: only_link_def)
  have bytes: "concat (map encode ?pks) = hd (command_bytes cs) # tl (command_bytes cs)"
    using shape(1) by (simp add: command_bytes_def)
  have small: "length (tl (command_bytes cs)) < RECV_SIZE" "length ?pks \<le> fuel"
    using assms(3,6) shape by (auto simp: command_bytes_def RECV_SIZE_def less_le_trans)
  have texts: "packet_text \<circ> command_packet = text_of" by (auto simp: command_packet_text)
  have s1_ok: "server_ok s1" using s1(3) by (simp add: slots_ok_def)
  have ready: "0 \<le> int i" "int i < int VJ_MAX_CONNECTIONS" "lk_in_use (vs_link s1 ! nat (int i)) \<noteq> 0"
      "lk_handle (vs_link s1 ! nat (int i)) \<in> vs_fds s1" "lk_pool (vs_link s1 ! nat (int i)) \<noteq> None"
    using r len s1(2,4) by (auto simp: only_link_def)
  obtain s2 p e where s2: "vj_server_update fuel (client_sends (Sends cs)) s1 (int i) = Some (Walk_done (int ?n), s2)"
     "holds (vs_link s2 ! i) p (map text_of cs) e" "lk_n_queued (vs_link s2 ! i) = int ?n"
     "lk_n_retrieved (vs_link s2 ! i) = 0" "lk_in_use (vs_link s2 ! i) \<noteq> 0"
    using update_packets [OF s1_ok ready ok bytes small, of False False] by (auto simp: texts)
  have ok2: "slots_ok s2" using update_slots [OF s1(3) s2(1)] .
  let ?vjs = "vjs(port := s2)"
  have "\<exists>s. only_link (int i) (?vjs port) s \<and> slots_ok s \<and> (\<forall>v. serve_messages fuel depth env inp port (int i) ?vjs v
      = map_option (Pair (?vjs(port := s))) (run_messages depth env (drop 0 (map text_of cs)) v))"
    by (rule serve_messages_holds [where l = "vs_link s2 ! i" and p = p and e = e])
      (use ok2 s2 r(3) len assms(5,6) shape(2) in simp_all)
  then obtain s where s: "only_link (int i) s2 s" "slots_ok s" "\<And>v. serve_messages fuel depth env inp port (int i) ?vjs v
      = map_option (Pair (vjs(port := s))) (run_messages depth env (map text_of cs) v)" by auto
  have "0 < ?n" using assms(3) by simp
  then have "serve_client fuel depth env inp port ports (int i) vjs v
    = map_option (Pair (vjs(port := s))) (run_messages depth env (map text_of cs) (current_link (int i) v))"
    using assms(2,4) s1(1) s2(1) s(3) by (simp add: serve_client_def del: client_sends.simps)
  then show ?thesis
    using s(1,2) only_link_trans [OF only_link_trans [OF s1(2) update_only [OF s2(1)]]] run_commands assms(3) by auto
qed

subsection \<open>A client that is gone\<close>

text \<open>What is left of the servers after the round of link \<open>i\<close>: the other links are as they were.\<close>

definition others :: "nat \<Rightarrow> vj_server \<Rightarrow> vj_server \<Rightarrow> bool" where
  "others i s s' \<longleftrightarrow> vs_use_mcast s' = vs_use_mcast s \<and>
     (\<forall>j < VJ_MAX_CONNECTIONS. j \<noteq> i \<longrightarrow> vs_link s' ! j = vs_link s ! j \<and>
        vj_server_link_can_read s' (int j) = vj_server_link_can_read s (int j))"

definition served :: "client \<Rightarrow> nat \<Rightarrow> vj_server \<Rightarrow> vj_server \<Rightarrow> bool" where
  "served c i s s' \<longleftrightarrow> slots_ok s' \<and> others i s s' \<and>
     (if c = Gone then lk_in_use (vs_link s' ! i) = 0
      else lk_in_use (vs_link s' ! i) = lk_in_use (vs_link s ! i) \<and> lk_handle (vs_link s' ! i) = lk_handle (vs_link s ! i))"

lemma can_read_at:
  assumes "slots_ok s" "j < VJ_MAX_CONNECTIONS"
  shows "vj_server_link_can_read s (int j)
    = Some (if lk_in_use (vs_link s ! j) \<noteq> 0 \<and> lk_handle (vs_link s ! j) \<in> vs_fds s then 1 else 0)"
  using slots_ok_length [OF assms(1)] assms(2) by (simp add: vj_server_link_can_read_def)

lemma only_link_others:
  assumes "only_link (int i) s s'" "slots_ok s" "slots_ok s'"
  shows "others i s s'"
  using assms(1) by (auto simp: others_def only_link_def can_read_at assms(2,3))

lemma only_link_served:
  assumes "only_link (int i) s s'" "slots_ok s" "slots_ok s'" "c \<noteq> Gone"
  shows "served c i s s'"
  using only_link_others [OF assms(1-3)] assms by (simp add: served_def only_link_def)

lemma del_client_at:
  assumes "slots_ok s" "i < VJ_MAX_CONNECTIONS"
  shows "\<exists>r s'. vj_server_del_client s (int i) = Some (r, s') \<and> served Gone i s s'"
proof -
  note len = slots_ok_length [OF assms(1)]
  define l where "l = vs_link s ! i"
  show ?thesis
  proof (cases "lk_in_use l = 0")
    case True
    then show ?thesis using assms len by (simp add: vj_server_del_client_def served_def others_def l_def)
  next
    case False
    then have h: "0 < lk_handle l" "\<And>j. j < VJ_MAX_CONNECTIONS \<Longrightarrow> j \<noteq> i \<Longrightarrow> lk_in_use (vs_link s ! j) \<noteq> 0 \<Longrightarrow>
        lk_handle (vs_link s ! j) \<noteq> lk_handle l"
      using assms by (auto simp: slots_ok_def l_def)
    let ?l = "l\<lparr>lk_in_use := 0, lk_handle := - 1, lk_promote := 0, lk_n_queued := 0, lk_n_retrieved := 0, lk_pool := None\<rparr>"
    let ?s = "s\<lparr>vs_link := (vs_link s)[i := ?l], vs_fds := vs_fds s - {lk_handle l}, vs_wds := vs_wds s - {lk_handle l}\<rparr>"
    have d: "vj_server_del_client s (int i) = Some (1, ?s)"
      using False h(1) assms(2) len by (simp add: vj_server_del_client_def with_link_def l_def)
    have ok: "slots_ok ?s" by (rule del_client_slots [OF assms(1) d])
    have "others i s ?s" using h(2) by (auto simp: others_def can_read_at [OF ok] can_read_at [OF assms(1)])
    then have "served Gone i s ?s" using ok assms(2) len by (simp add: served_def)
    then show ?thesis using d by blast
  qed
qed

lemma served_trans: "served Gone i s s1 \<Longrightarrow> only_link (int i) s0 s \<Longrightarrow> slots_ok s0 \<Longrightarrow> slots_ok s \<Longrightarrow> served Gone i s0 s1"
  using only_link_others [of i s0 s] by (auto simp: served_def others_def)

lemma update_gone:
  assumes "slots_ok s" "vj_server_link_can_read s (int i) = Some 1" "lk_pool (vs_link s ! i) \<noteq> None"
  shows "\<exists>s'. vj_server_update fuel [] s (int i) = Some (Walk_done (- 1), s')"
proof -
  note r = can_readD [OF assms(2)]
  obtain p where p: "lk_pool (vs_link s ! i) = Some p" using assms(3) by auto
  obtain x s1 where e: "vj_server_empty_queue s (int i) = Some (x, s1)"
    using r(3) p by (simp add: vj_server_empty_queue_def with_link_def)
  have "vs_fds s1 = vs_fds s" using empty_queue_only [OF e] by (simp add: only_link_def)
  then show ?thesis using r e by (simp add: vj_server_update_def recv_first_def)
qed

lemma serve_gone:
  assumes "slots_ok (vjs p1)" "slots_ok (vjs p2)" "p1 \<noteq> p2" "i < VJ_MAX_CONNECTIONS"
    "vj_server_link_can_read (vjs p1) (int i) = Some 1" "ri_recv inp p1 (int i) = []"
  shows "\<exists>s1 s2. served Gone i (vjs p1) s1 \<and> served Gone i (vjs p2) s2 \<and>
    (\<forall>v. serve_client fuel depth env inp p1 [p1, p2] (int i) vjs v = Some (vjs(p1 := s1, p2 := s2), v))"
proof -
  obtain s where s: "vj_server_init_msg_pool (vjs p1) (int i) = Some s" "only_link (int i) (vjs p1) s" "slots_ok s"
      "lk_pool (vs_link s ! i) \<noteq> None" using pool_ready [OF assms(1,5)] by blast
  have "vj_server_link_can_read s (int i) = Some 1"
    using assms(1,4,5) s(2,3) by (simp add: can_read_at only_link_def split: if_splits)
  then obtain t where t: "vj_server_update fuel [] s (int i) = Some (Walk_done (- 1), t)" using update_gone s(3,4) by blast
  have ot: "slots_ok t" "only_link (int i) (vjs p1) t"
    using update_slots [OF s(3) t] only_link_trans [OF s(2) update_only [OF t]] by simp_all
  obtain r1 s1 where s1: "vj_server_del_client t (int i) = Some (r1, s1)" "served Gone i t s1" using del_client_at [OF ot(1) assms(4)] by blast
  obtain r2 s2 where s2: "vj_server_del_client (vjs p2) (int i) = Some (r2, s2)" "served Gone i (vjs p2) s2"
    using del_client_at [OF assms(2,4)] by blast
  have "served Gone i (vjs p1) s1" using served_trans [OF s1(2) ot(2) assms(1) ot(1)] .
  then show ?thesis
    using assms(3,5,6) s(1) t s1(1) s2 by (intro exI [of _ s1] exI [of _ s2]) (simp add: serve_client_def)
qed

subsection \<open>A round of the event loop\<close>

text \<open>What the clients' commands come to: those of the first link first.\<close>

fun spec_round :: "nat \<Rightarrow> cmd_env \<Rightarrow> (nat \<Rightarrow> client) \<Rightarrow> nat list \<Rightarrow> veejay \<Rightarrow> veejay option" where
  "spec_round depth env cl [] v = Some v"
| "spec_round depth env cl (i # js) v =
     (case cl i of
        Sends cs \<Rightarrow> do { v \<leftarrow> exec_commands depth env cs (current_link (int i) v); spec_round depth env cl js v }
      | _ \<Rightarrow> spec_round depth env cl js v)"

text \<open>Client \<open>c\<close> is on link \<open>i\<close> of the command server.\<close>

definition client_on :: "remote_input \<Rightarrow> vj_server \<Rightarrow> nat \<Rightarrow> client \<Rightarrow> bool" where
  "client_on inp s i c \<longleftrightarrow> client_ok (vs_use_mcast s) c \<and>
     vj_server_link_can_read s (int i) = Some (if c = Silent then 0 else 1) \<and>
     (c \<noteq> Silent \<longrightarrow> ri_recv inp VEEJAY_PORT_CMD (int i) = client_sends c)"

lemma ports [simp]: "VEEJAY_PORT_CMD \<noteq> VEEJAY_PORT_STA" "VEEJAY_PORT_STA \<noteq> VEEJAY_PORT_CMD"
  "VEEJAY_PORT_DAT \<noteq> VEEJAY_PORT_CMD" "VEEJAY_PORT_DAT \<noteq> VEEJAY_PORT_STA"
  by (simp_all add: VEEJAY_PORT_CMD_def VEEJAY_PORT_STA_def VEEJAY_PORT_DAT_def)

lemma served_self: "slots_ok s \<Longrightarrow> c \<noteq> Gone \<Longrightarrow> served c i s s"
  by (simp add: served_def others_def)

lemma serve_one:
  assumes "slots_ok (vjs VEEJAY_PORT_CMD)" "slots_ok (vjs VEEJAY_PORT_STA)" "i < VJ_MAX_CONNECTIONS" "client_on inp (vjs VEEJAY_PORT_CMD) i (cl i)"
    "ri_answer inp = (\<lambda>bs vjs. vjs)" "VJ_MAX_PENDING_MSG \<le> fuel"
  shows "\<exists>s1 s2. served (cl i) i (vjs VEEJAY_PORT_CMD) s1 \<and> served (cl i) i (vjs VEEJAY_PORT_STA) s2 \<and>
    serve_client fuel depth env inp VEEJAY_PORT_CMD [VEEJAY_PORT_CMD, VEEJAY_PORT_STA] (int i) vjs v
      = map_option (Pair (vjs(VEEJAY_PORT_CMD := s1, VEEJAY_PORT_STA := s2))) (spec_round depth env cl [i] v)"
proof (cases "cl i")
  case Silent
  then show ?thesis
    using assms(1,2,4) served_self
    by (intro exI [of _ "vjs VEEJAY_PORT_CMD"] exI [of _ "vjs VEEJAY_PORT_STA"]) (simp add: client_on_def serve_client_def)
next
  case (Sends cs)
  note c = assms(4) [unfolded client_on_def Sends]
  obtain s where s: "only_link (int i) (vjs VEEJAY_PORT_CMD) s" "slots_ok s"
      "serve_client fuel depth env inp VEEJAY_PORT_CMD [VEEJAY_PORT_CMD, VEEJAY_PORT_STA] (int i) vjs v
        = map_option (Pair (vjs(VEEJAY_PORT_CMD := s))) (exec_commands depth env cs (current_link (int i) v))"
    using serve_sends [of vjs VEEJAY_PORT_CMD i cs inp fuel depth env "[VEEJAY_PORT_CMD, VEEJAY_PORT_STA]" v] c assms(1,5,6) by auto
  have "vjs(VEEJAY_PORT_CMD := s) = vjs(VEEJAY_PORT_CMD := s, VEEJAY_PORT_STA := vjs VEEJAY_PORT_STA)" by (simp add: fun_eq_iff)
  moreover have "exec_commands depth env cs (current_link (int i) v) = spec_round depth env cl [i] v"
    by (cases "exec_commands depth env cs (current_link (int i) v)") (simp_all add: Sends)
  ultimately show ?thesis
    using s only_link_served [OF s(1) assms(1) s(2), of "cl i"] served_self [OF assms(2), of "cl i" i] Sends
    by (intro exI [of _ s] exI [of _ "vjs VEEJAY_PORT_STA"]) simp
next
  case Gone
  then show ?thesis
    using serve_gone [of vjs VEEJAY_PORT_CMD VEEJAY_PORT_STA i inp fuel depth env] assms(1-4) ports(1) by (auto simp: client_on_def)
qed

lemma served_other:
  assumes "served c i s s'" "j < VJ_MAX_CONNECTIONS" "j \<noteq> i"
  shows "vs_link s' ! j = vs_link s ! j" "client_on inp s' j d = client_on inp s j d"
  using assms by (simp_all add: served_def others_def client_on_def)

text \<open>The links after the round: those of the clients that are gone are free, the others are held as before.\<close>

definition links_after :: "(nat \<Rightarrow> client) \<Rightarrow> nat list \<Rightarrow> vj_server \<Rightarrow> vj_server \<Rightarrow> bool" where
  "links_after cl js s s' \<longleftrightarrow> slots_ok s' \<and> (\<forall>i < VJ_MAX_CONNECTIONS.
     if i \<in> set js \<and> cl i = Gone then lk_in_use (vs_link s' ! i) = 0
     else lk_in_use (vs_link s' ! i) = lk_in_use (vs_link s ! i) \<and> lk_handle (vs_link s' ! i) = lk_handle (vs_link s ! i))"

lemma links_after_step:
  assumes "served (cl i) i s s1" "links_after cl js s1 s2" "i \<notin> set js" "i < VJ_MAX_CONNECTIONS"
  shows "links_after cl (i # js) s s2"
  unfolding links_after_def
proof (intro conjI allI impI)
  show "slots_ok s2" using assms(2) by (simp add: links_after_def)
  fix j assume "j < VJ_MAX_CONNECTIONS"
  then show "if j \<in> set (i # js) \<and> cl j = Gone then lk_in_use (vs_link s2 ! j) = 0
     else lk_in_use (vs_link s2 ! j) = lk_in_use (vs_link s ! j) \<and> lk_handle (vs_link s2 ! j) = lk_handle (vs_link s ! j)"
    using assms served_other(1) [OF assms(1), of j] by (cases "j = i") (auto simp: links_after_def served_def split: if_splits)
qed

lemma serve_round:
  assumes "slots_ok (vjs VEEJAY_PORT_CMD)" "slots_ok (vjs VEEJAY_PORT_STA)" "distinct js" "set js \<subseteq> {..<VJ_MAX_CONNECTIONS}"
    "\<forall>i \<in> set js. client_on inp (vjs VEEJAY_PORT_CMD) i (cl i)"
    "ri_answer inp = (\<lambda>bs vjs. vjs)" "VJ_MAX_PENDING_MSG \<le> fuel"
  shows "\<exists>s1 s2. links_after cl js (vjs VEEJAY_PORT_CMD) s1 \<and> links_after cl js (vjs VEEJAY_PORT_STA) s2 \<and>
    serve_clients fuel depth env inp VEEJAY_PORT_CMD [VEEJAY_PORT_CMD, VEEJAY_PORT_STA] js vjs v
      = map_option (Pair (vjs(VEEJAY_PORT_CMD := s1, VEEJAY_PORT_STA := s2))) (spec_round depth env cl js v)"
  using assms
proof (induction js arbitrary: vjs v)
  case Nil
  then show ?case
    by (intro exI [of _ "vjs VEEJAY_PORT_CMD"] exI [of _ "vjs VEEJAY_PORT_STA"]) (simp add: links_after_def)
next
  case (Cons i js)
  have i: "i < VJ_MAX_CONNECTIONS" "client_on inp (vjs VEEJAY_PORT_CMD) i (cl i)" "i \<notin> set js" using Cons.prems(3-5) by auto
  obtain s1 s2 where s: "served (cl i) i (vjs VEEJAY_PORT_CMD) s1" "served (cl i) i (vjs VEEJAY_PORT_STA) s2"
      "serve_client fuel depth env inp VEEJAY_PORT_CMD [VEEJAY_PORT_CMD, VEEJAY_PORT_STA] (int i) vjs v
        = map_option (Pair (vjs(VEEJAY_PORT_CMD := s1, VEEJAY_PORT_STA := s2))) (spec_round depth env cl [i] v)"
    using serve_one [of vjs i inp cl fuel depth env v] Cons.prems(1,2,6,7) i(1,2) by blast
  let ?vjs = "vjs(VEEJAY_PORT_CMD := s1, VEEJAY_PORT_STA := s2)"
  have at: "?vjs VEEJAY_PORT_CMD = s1" "?vjs VEEJAY_PORT_STA = s2" using ports by simp_all
  have "\<forall>j \<in> set js. client_on inp (?vjs VEEJAY_PORT_CMD) j (cl j)"
  proof
    fix j assume j: "j \<in> set js"
    then have "j < VJ_MAX_CONNECTIONS" "j \<noteq> i" "client_on inp (vjs VEEJAY_PORT_CMD) j (cl j)" using Cons.prems(4,5) i(3) by auto
    then show "client_on inp (?vjs VEEJAY_PORT_CMD) j (cl j)" unfolding at using served_other(2) [OF s(1)] by blast
  qed
  moreover have "slots_ok (?vjs VEEJAY_PORT_CMD)" "slots_ok (?vjs VEEJAY_PORT_STA)" using s(1,2) unfolding at by (simp_all add: served_def)
  ultimately have "\<exists>t1 t2. links_after cl js (?vjs VEEJAY_PORT_CMD) t1 \<and> links_after cl js (?vjs VEEJAY_PORT_STA) t2 \<and>
      serve_clients fuel depth env inp VEEJAY_PORT_CMD [VEEJAY_PORT_CMD, VEEJAY_PORT_STA] js ?vjs w
        = map_option (Pair (?vjs(VEEJAY_PORT_CMD := t1, VEEJAY_PORT_STA := t2))) (spec_round depth env cl js w)" for w
    by (intro Cons.IH) (use Cons.prems(3,4,6,7) in simp_all)
  note IH = this [unfolded at]
  have spec: "spec_round depth env cl (i # js) v = do { v \<leftarrow> spec_round depth env cl [i] v; spec_round depth env cl js v }"
    by (simp split: client.split)
  have up: "?vjs(VEEJAY_PORT_CMD := t1, VEEJAY_PORT_STA := t2) = vjs(VEEJAY_PORT_CMD := t1, VEEJAY_PORT_STA := t2)" for t1 t2
    by (simp add: fun_eq_iff)
  have after: "links_after cl js s1 t \<Longrightarrow> links_after cl (i # js) (vjs VEEJAY_PORT_CMD) t"
    "links_after cl js s2 t \<Longrightarrow> links_after cl (i # js) (vjs VEEJAY_PORT_STA) t" for t
    using links_after_step [of cl i "vjs VEEJAY_PORT_CMD" s1 js t] links_after_step [of cl i "vjs VEEJAY_PORT_STA" s2 js t] s(1,2) i by auto
  show ?case
  proof (cases "spec_round depth env cl [i] v")
    case None
    from IH [of v] show ?thesis using s(3) after unfolding spec None by auto
  next
    case (Some w)
    obtain t1 t2 where t: "links_after cl js s1 t1" "links_after cl js s2 t2"
        "serve_clients fuel depth env inp VEEJAY_PORT_CMD [VEEJAY_PORT_CMD, VEEJAY_PORT_STA] js ?vjs w
          = map_option (Pair (vjs(VEEJAY_PORT_CMD := t1, VEEJAY_PORT_STA := t2))) (spec_round depth env cl js w)"
      using IH [of w] unfolding up by blast
    then show ?thesis
      using s(3) after unfolding spec Some by - (rule exI [of _ t1], rule exI [of _ t2], simp del: fun_upd_apply)
  qed
qed

lemma serve_nobody:
  assumes "\<forall>i \<in> set js. vj_server_link_can_read (vjs port) (int i) = Some 0"
  shows "serve_clients fuel depth env inp port ports js vjs v = Some (vjs, v)"
  using assms by (induction js) (simp_all add: serve_client_def)

text \<open>One client, on the first link, which has sent two commands.\<close>

definition remote_commands :: "vims_command list" where
  "remote_commands = [live_command (Go_frame 100), live_command (Skip_frames 250)]"

definition remote_demo :: remote_input where
  "remote_demo = \<lparr>ri_select = (\<lambda>port fds. if port = VEEJAY_PORT_CMD then (1, {7}, {}) else (0, {}, {})), ri_accept = (\<lambda>port. - 1),
     ri_mcast = None,
     ri_recv = (\<lambda>port i. if port = VEEJAY_PORT_CMD \<and> i = 0
       then [Recv_bytes ''V'' False, Recv_bytes ''008D019:100;V008D013:250;'' False] else []),
     ri_answer = (\<lambda>bs vjs. vjs)\<rparr>"

definition remote_servers :: servers where
  "remote_servers = (\<lambda>port. if port = VEEJAY_PORT_CMD then server_one else vj_server_alloc 3 16)"

lemma remote_bytes: "command_bytes remote_commands = ''V008D019:100;V008D013:250;''"
proof -
  have "concat (map encode [Vims 19 ''100'', Vims 13 ''250'']) = ''V008D019:100;V008D013:250;''" by code_simp
  moreover have "show_ints [100] = ''100''" "show_ints [250] = ''250''" by code_simp+
  ultimately show ?thesis by (simp add: command_bytes_def remote_commands_def command_packet_def vims_ids)
qed

definition remote_polled :: servers where
  "remote_polled = (\<lambda>port. if port = VEEJAY_PORT_CMD then server_one\<lparr>vs_fds := {7}, vs_wds := {}\<rparr>
     else (vj_server_alloc 3 16)\<lparr>vs_fds := {}, vs_wds := {}\<rparr>)"

lemma server_one_slots: "slots_ok server_one"
proof -
  have a: "slots_ok (vj_server_alloc 3 16)" by (rule server_alloc_slots) simp
  have "link_ok (link_zero\<lparr>lk_handle := 7, lk_in_use := 1\<rparr>)" by (simp add: link_ok_def link_zero_def del: replicate.simps)
  then have "link_ok link_one" using pool_init_ok by (simp add: link_one_def)
  moreover have "7 \<notin> open_fds (vj_server_alloc 3 16)"
    by (auto simp: open_fds_def vj_server_alloc_def link_zero_def Let_def simp del: replicate.simps)
  ultimately have "slots_ok (vj_server_alloc 3 16\<lparr>vs_link := (vs_link (vj_server_alloc 3 16))[nat 0 := link_one]\<rparr>)"
    by (intro slots_ok_link [OF a]) (simp_all add: VJ_MAX_CONNECTIONS_def, simp add: link_one_def)
  then show ?thesis by (rule slots_ok_cong) (simp_all add: server_one_def)
qed

lemma remote_polled: "poll_servers remote_demo remote_servers = Some remote_polled"
proof -
  have "link_one \<in> set (vs_link server_one)"
    by (simp add: server_one_def vj_server_alloc_def Let_def VJ_MAX_CONNECTIONS_def numeral_eq_Suc)
  then have 7: "poll_set server_one \<inter> {7} = {7}" by (auto simp: poll_set_def link_one_def intro!: exI [of _ link_one])
  have p: "vj_server_poll (ri_select remote_demo VEEJAY_PORT_CMD) server_one = (1, server_one\<lparr>vs_fds := {7}, vs_wds := {}\<rparr>)"
    using 7 by (simp add: vj_server_poll_def remote_demo_def)
  have q: "vj_server_poll (ri_select remote_demo port) (vj_server_alloc 3 16) = (0, (vj_server_alloc 3 16)\<lparr>vs_fds := {}, vs_wds := {}\<rparr>)"
    if "port \<noteq> VEEJAY_PORT_CMD" for port
    using that by (simp add: vj_server_poll_def remote_demo_def)
  have self: "(vj_server_alloc 3 16)\<lparr>vs_fds := {}, vs_wds := {}\<rparr> = vj_server_alloc 3 16"
    by (simp add: vj_server_alloc_def Let_def)
  have "accept_client remote_demo port p vjs = Some vjs" for port p vjs
    by (simp add: accept_client_def vj_server_new_connection_def remote_demo_def)
  then show ?thesis by (simp add: poll_servers_def p q self remote_servers_def fun_eq_iff remote_polled_def)
qed

lemma spec_round_silent: "\<forall>i \<in> set js. cl i = Silent \<Longrightarrow> spec_round depth env cl js v = Some v"
  by (induction js) simp_all

text \<open>
  C12. A round of the event loop. After polling, every client either is silent, has sent commands, or is gone: the round does
  what the handlers of the commands do, client after client and command after command, each with its client's
  link as the current one; the clients that are gone lose their links to the command and the status server, and every
  other client keeps its own. The commands are at least seven characters long and none of their answers fails.
\<close>

theorem remote_round:
  assumes "poll_servers inp vjs = Some vjs1" "slots_ok (vjs1 VEEJAY_PORT_CMD)" "slots_ok (vjs1 VEEJAY_PORT_STA)"
    "\<forall>i < VJ_MAX_CONNECTIONS. client_on inp (vjs1 VEEJAY_PORT_CMD) i (cl i)"
    "\<forall>i < VJ_MAX_CONNECTIONS. vj_server_link_can_read (vjs1 VEEJAY_PORT_DAT) (int i) = Some 0"
    "ri_mcast inp = None" "ri_answer inp = (\<lambda>bs vjs. vjs)" "VJ_MAX_PENDING_MSG \<le> fuel"
  shows "\<exists>s1 s2. links_after cl [0..<VJ_MAX_CONNECTIONS] (vjs1 VEEJAY_PORT_CMD) s1 \<and>
    links_after cl [0..<VJ_MAX_CONNECTIONS] (vjs1 VEEJAY_PORT_STA) s2 \<and>
    vj_event_update_remote fuel depth env inp vjs v
      = map_option (Pair (vjs1(VEEJAY_PORT_CMD := s1, VEEJAY_PORT_STA := s2))) (spec_round depth env cl [0..<VJ_MAX_CONNECTIONS] v)"
proof -
  obtain s1 s2 where s: "links_after cl [0..<VJ_MAX_CONNECTIONS] (vjs1 VEEJAY_PORT_CMD) s1"
      "links_after cl [0..<VJ_MAX_CONNECTIONS] (vjs1 VEEJAY_PORT_STA) s2"
      "serve_clients fuel depth env inp VEEJAY_PORT_CMD [VEEJAY_PORT_CMD, VEEJAY_PORT_STA] [0..<VJ_MAX_CONNECTIONS] vjs1 v
        = map_option (Pair (vjs1(VEEJAY_PORT_CMD := s1, VEEJAY_PORT_STA := s2))) (spec_round depth env cl [0..<VJ_MAX_CONNECTIONS] v)"
    using serve_round [of vjs1 "[0..<VJ_MAX_CONNECTIONS]" inp cl fuel depth env v] assms(2-4,7,8)
    by (auto simp: atLeast0LessThan)
  have "serve_clients fuel depth env inp VEEJAY_PORT_DAT [VEEJAY_PORT_DAT] [0..<VJ_MAX_CONNECTIONS] vjs2 w = Some (vjs2, w)"
    if "vjs2 = vjs1(VEEJAY_PORT_CMD := s1, VEEJAY_PORT_STA := s2)" for w vjs2
    by (rule serve_nobody) (use assms(5) ports that in auto)
  then have "vj_event_update_remote fuel depth env inp vjs v
      = map_option (Pair (vjs1(VEEJAY_PORT_CMD := s1, VEEJAY_PORT_STA := s2))) (spec_round depth env cl [0..<VJ_MAX_CONNECTIONS] v)"
    using assms(1,6) s(3)
    by (cases "spec_round depth env cl [0..<VJ_MAX_CONNECTIONS] v") (simp_all add: vj_event_update_remote_def)
  then show ?thesis using s(1,2) by blast
qed

text \<open>The client's two commands run, and it keeps its link.\<close>

theorem remote_round_witness:
  "\<exists>s1 s2. lk_handle (vs_link s1 ! 0) = 7 \<and> vj_event_update_remote VJ_MAX_PENDING_MSG 1 env_alone remote_demo remote_servers (vj_demo (demo_loop 2))
    = map_option (Pair (remote_polled(VEEJAY_PORT_CMD := s1, VEEJAY_PORT_STA := s2)))
        (exec_commands 1 env_alone remote_commands (current_link 0 (vj_demo (demo_loop 2))))"
proof -
  let ?cl = "\<lambda>i. if i = 0 then Sends remote_commands else Silent" and ?s = "remote_polled VEEJAY_PORT_CMD"
  have s: "slots_ok ?s" "slots_ok (remote_polled VEEJAY_PORT_STA)" "slots_ok (remote_polled VEEJAY_PORT_DAT)"
    using server_one_slots server_alloc_slots [of 3 16] by (auto simp: remote_polled_def intro: slots_ok_cong)
  have l: "vs_link ?s ! 0 = link_one" "\<And>i. i < VJ_MAX_CONNECTIONS \<Longrightarrow> i \<noteq> 0 \<Longrightarrow> vs_link ?s ! i = link_zero"
      "\<And>i. i < VJ_MAX_CONNECTIONS \<Longrightarrow> vs_link (remote_polled VEEJAY_PORT_DAT) ! i = link_zero" "vs_fds ?s = {7}" "vs_use_mcast ?s = False"
    by (simp_all add: remote_polled_def server_one_def vj_server_alloc_def Let_def VJ_MAX_CONNECTIONS_def)
  have one: "lk_in_use link_one = 1" "lk_handle link_one = 7" "lk_in_use link_zero = 0"
    by (simp_all add: link_one_def link_zero_def del: replicate.simps)
  have "packet_ok False (Vims 19 ''100'') \<and> packet_ok False (Vims 13 ''250'') \<and> packet_long (Vims 19 ''100'') \<and> packet_long (Vims 13 ''250'')"
    "show_ints [100] = ''100''" "show_ints [250] = ''250''" by code_simp+
  then have ok: "client_ok False (Sends remote_commands)"
    using live_command_ok [of "Go_frame 100"] live_command_ok [of "Skip_frames 250"] remote_bytes
    by (simp add: remote_commands_def command_packet_def vims_ids RECV_SIZE_def)
  have on: "\<forall>i < VJ_MAX_CONNECTIONS. client_on remote_demo ?s i (?cl i)"
  proof (intro allI impI)
    fix i assume i: "i < VJ_MAX_CONNECTIONS"
    show "client_on remote_demo ?s i (?cl i)"
      using can_read_at [OF s(1) i] l i one ok remote_bytes
      by (cases "i = 0") (simp_all add: client_on_def remote_demo_def)
  qed
  have dat: "\<forall>i < VJ_MAX_CONNECTIONS. vj_server_link_can_read (remote_polled VEEJAY_PORT_DAT) (int i) = Some 0"
    using can_read_at [OF s(3)] l(3) one by simp
  have "[0..<VJ_MAX_CONNECTIONS] = 0 # [1..<VJ_MAX_CONNECTIONS]" by (simp add: upt_conv_Cons VJ_MAX_CONNECTIONS_def)
  then have spec: "spec_round 1 env_alone ?cl [0..<VJ_MAX_CONNECTIONS] v = exec_commands 1 env_alone remote_commands (current_link 0 v)" for v
    using spec_round_silent [of "[1..<VJ_MAX_CONNECTIONS]" ?cl 1 env_alone]
    by (cases "exec_commands 1 env_alone remote_commands (current_link 0 v)") simp_all
  have "ri_mcast remote_demo = None" "ri_answer remote_demo = (\<lambda>bs vjs. vjs)" by (simp_all add: remote_demo_def)
  from remote_round [OF remote_polled s(1,2) on dat this order_refl, of 1 env_alone "vj_demo (demo_loop 2)", unfolded spec]
  obtain s1 s2 where r: "links_after ?cl [0..<VJ_MAX_CONNECTIONS] ?s s1"
    "vj_event_update_remote VJ_MAX_PENDING_MSG 1 env_alone remote_demo remote_servers (vj_demo (demo_loop 2))
      = map_option (Pair (remote_polled(VEEJAY_PORT_CMD := s1, VEEJAY_PORT_STA := s2)))
          (exec_commands 1 env_alone remote_commands (current_link 0 (vj_demo (demo_loop 2))))" by blast
  have "lk_handle (vs_link s1 ! 0) = 7" using r(1) l(1) one by (simp add: links_after_def VJ_MAX_CONNECTIONS_def)
  then show ?thesis using r(2) by blast
qed

end
