(* ===== verification/Multicast.thy ===== *)
theory Multicast
  imports Prelude "HOL-Library.Sublist"
begin

text \<open>
  Video frames over multicast (\<open>libvjnet/packet.c\<close>, \<open>mcastsender.c\<close>, \<open>mcastreceiver.c\<close>): the sender cuts a frame into
  packets of \<open>CHUNK_SIZE\<close> bytes, the receiver puts them together in one of three slots, by the number of their frame.

  \<^item> A packet is its header, the description of its frame and its bytes; the copies of the two structs into the datagram
    and back are left out, sender and receiver have the same byte order.
  \<^item> Parameters: what \<open>sendto\<close> returns for a packet; the packets that \<open>recv\<close> delivers, of full size, after which it fails.
  \<^item> A byte of a received frame is \<open>None\<close> until it is written. Allocation succeeds and gives the size asked for.
  \<^item> The multicast sockets are left out. No other file of the repository calls the receiving end.
\<close>

subsection \<open>Packets\<close>

type_synonym u16 = "16 word"
type_synonym u32 = "32 word"

definition CHUNK_SIZE :: nat where "CHUNK_SIZE = 1500 - 32"

record packet_header =
  ph_flag :: u8
  ph_seq_num :: u8
  ph_usec :: u32
  ph_timeout :: u32
  ph_length :: u8

record frame_info =
  fi_width :: u16
  fi_height :: u16
  fi_fmt :: u8
  fi_len :: u32
  fi_mode :: u8

record mcast_packet =
  pk_header :: packet_header
  pk_info :: frame_info
  pk_data :: string

text \<open>The number of microseconds of the clock is a parameter; the sender overwrites it.\<close>

definition packet_construct_header :: "u32 \<Rightarrow> u8 \<Rightarrow> packet_header" where
  "packet_construct_header now flag = \<lparr>ph_flag = flag, ph_seq_num = 0, ph_usec = now, ph_timeout = 0, ph_length = 0\<rparr>"

definition packet_put_data :: "packet_header \<Rightarrow> frame_info \<Rightarrow> string \<Rightarrow> int \<Rightarrow> mcast_packet option" where
  "packet_put_data h i plane pos = do {
     bs \<leftarrow> c_slice plane pos (int CHUNK_SIZE);
     Some \<lparr>pk_header = h, pk_info = i, pk_data = bs\<rparr> }"

text \<open>The rest of the packet is zero.\<close>

definition packet_put_padded_data :: "packet_header \<Rightarrow> frame_info \<Rightarrow> string \<Rightarrow> int \<Rightarrow> int \<Rightarrow> mcast_packet option" where
  "packet_put_padded_data h i plane pos bytes = do {
     bs \<leftarrow> c_slice plane pos bytes;
     if length bs > CHUNK_SIZE then out_of_bounds
     else Some \<lparr>pk_header = h, pk_info = i, pk_data = bs @ replicate (CHUNK_SIZE - length bs) (CHR 0x00)\<rparr> }"

subsection \<open>Sending\<close>

record mcast_sender =
  ms_stamp :: u32

definition stamp_reset :: "mcast_sender \<Rightarrow> mcast_sender" where
  "stamp_reset v = v\<lparr>ms_stamp := 1\<rparr>"

definition stamp_make :: "mcast_sender \<Rightarrow> u32 \<times> mcast_sender" where
  "stamp_make v = (let s = ms_stamp v + 1 in (s, v\<lparr>ms_stamp := s\<rparr>))"

definition mcast_new_sender :: mcast_sender where
  "mcast_new_sender = \<lparr>ms_stamp = 1\<rparr>"

text \<open>The frame: what \<open>VJFrame\<close> holds of it, its bytes and their number, the time in milliseconds and the mode.\<close>

record video_frame =
  vf_format :: int
  vf_width :: int
  vf_height :: int
  vf_buf :: string
  vf_ms :: int
  vf_mode :: int

fun send_chunks :: "(mcast_packet \<Rightarrow> int) \<Rightarrow> packet_header \<Rightarrow> frame_info \<Rightarrow> string \<Rightarrow> nat list \<Rightarrow> (bool \<times> mcast_packet list) option" where
  "send_chunks out h i buf [] = Some (True, [])"
| "send_chunks out h i buf (k # ks) = do {
     p \<leftarrow> packet_put_data (h\<lparr>ph_flag := 1, ph_seq_num := of_nat k\<rparr>) i buf (int k * int CHUNK_SIZE);
     if out p \<le> 0 then Some (False, [])
     else do { (ok, ps) \<leftarrow> send_chunks out h i buf ks; Some (ok, p # ps) } }"

text \<open>A frame of more than one packet. The header's length and numbers are bytes.\<close>

definition send_many :: "(mcast_packet \<Rightarrow> int) \<Rightarrow> packet_header \<Rightarrow> frame_info \<Rightarrow> string \<Rightarrow> int \<Rightarrow> (int \<times> mcast_packet list) option" where
  "send_many out header info buf total_len = do {
     let pred_chunks = total_len div int CHUNK_SIZE;
     let bytes_left = total_len mod int CHUNK_SIZE;
     let header = header\<lparr>ph_length := of_int (pred_chunks + (if bytes_left > 0 then 1 else 0))\<rparr>;
     (ok, ps) \<leftarrow> send_chunks out header info buf [0..<nat pred_chunks];
     if \<not> ok then Some (- 1, ps)
     else if bytes_left \<noteq> 0 then do {
       let i = uint (ph_length header) - 1;
       p \<leftarrow> packet_put_padded_data (header\<lparr>ph_seq_num := of_int i, ph_flag := 1\<rparr>) info buf (i * int CHUNK_SIZE) bytes_left;
       Some (if out p \<le> 0 then (- 1, ps) else (1, ps @ [p])) }
     else Some (1, ps) }"

text \<open>The result, the packets that were sent and the sender after it.\<close>

definition mcast_send_frame :: "(mcast_packet \<Rightarrow> int) \<Rightarrow> u32 \<Rightarrow> mcast_sender \<Rightarrow> video_frame \<Rightarrow> int \<Rightarrow>
    (int \<times> mcast_packet list \<times> mcast_sender) option" where
  "mcast_send_frame out now v frame total_len = do {
     let info = \<lparr>fi_width = of_int (vf_width frame), fi_height = of_int (vf_height frame), fi_fmt = of_int (vf_format frame),
                 fi_len = of_int total_len, fi_mode = of_int (vf_mode frame)\<rparr>;
     let (frame_num, v) = stamp_make v;
     let header = (packet_construct_header now 1)\<lparr>ph_timeout := of_int (vf_ms frame * 1000), ph_usec := frame_num\<rparr>;
     if total_len \<le> int CHUNK_SIZE
     then do {
       p \<leftarrow> packet_put_padded_data (header\<lparr>ph_seq_num := 0, ph_flag := 1, ph_length := 1\<rparr>) info (vf_buf frame) 0 total_len;
       Some (if out p \<le> 0 then (- 1, [], v) else (1, [p], v)) }
     else do {
       (r, ps) \<leftarrow> send_many out header info (vf_buf frame) total_len;
       Some (r, ps, if r = 1 \<and> frame_num = 0xffff then stamp_reset v else v) } }"

subsection \<open>Receiving\<close>

definition PACKET_SLOTS :: nat where "PACKET_SLOTS = 3"

record packet_buffer =
  pb_hdr :: packet_header
  pb_inf :: frame_info
  pb_buf :: "char option list option"
  pb_len :: u32
  pb_count :: int
  pb_rdy :: int

record mcast_receiver =
  mr_slot :: "packet_buffer list"
  mr_last :: u32

definition header_zero :: packet_header where
  "header_zero = \<lparr>ph_flag = 0, ph_seq_num = 0, ph_usec = 0, ph_timeout = 0, ph_length = 0\<rparr>"

definition info_zero :: frame_info where
  "info_zero = \<lparr>fi_width = 0, fi_height = 0, fi_fmt = 0, fi_len = 0, fi_mode = 0\<rparr>"

definition slot_zero :: packet_buffer where
  "slot_zero = \<lparr>pb_hdr = header_zero, pb_inf = info_zero, pb_buf = None, pb_len = 0, pb_count = 0, pb_rdy = 0\<rparr>"

definition mcast_new_receiver :: mcast_receiver where
  "mcast_new_receiver = \<lparr>mr_slot = replicate PACKET_SLOTS slot_zero, mr_last = 0\<rparr>"

text \<open>Releasing a slot leaves its length.\<close>

definition release_slot :: "packet_buffer \<Rightarrow> packet_buffer" where
  "release_slot s = s\<lparr>pb_buf := None, pb_count := 0, pb_hdr := header_zero, pb_inf := info_zero, pb_rdy := 0\<rparr>"

definition slot_stamp :: "packet_buffer \<Rightarrow> u32" where
  "slot_stamp s = ph_usec (pb_hdr s)"

text \<open>The slot with the least number, the first of them.\<close>

fun oldest_slot :: "packet_buffer list \<Rightarrow> nat" where
  "oldest_slot [] = 0"
| "oldest_slot (s # ss) = (if \<forall>t \<in> set ss. slot_stamp s \<le> slot_stamp t then 0 else Suc (oldest_slot ss))"

definition choose_slot :: "u32 \<Rightarrow> packet_buffer list \<Rightarrow> int \<times> packet_buffer list" where
  "choose_slot stamp slots =
     (let d = first_index (\<lambda>s. slot_stamp s = stamp) slots
      in if d \<noteq> - 1 then (d, slots)
         else let d = first_index (\<lambda>s. pb_count s = 0) slots
              in if d \<noteq> - 1 then (d, slots)
                 else let o' = oldest_slot slots in (int o', slots[o' := release_slot (slots ! o')]))"

definition packet_get_data :: "mcast_packet \<Rightarrow> char option list \<Rightarrow> nat \<Rightarrow> char option list option" where
  "packet_get_data p plane pos =
     (if pos + CHUNK_SIZE > length plane then out_of_bounds
      else Some (take pos plane @ map Some (pk_data p) @ drop (pos + CHUNK_SIZE) plane))"

definition mcast_recv_packet_frame :: "mcast_receiver \<Rightarrow> mcast_packet \<Rightarrow> (int \<times> mcast_receiver) option" where
  "mcast_recv_packet_frame v p = do {
     let hdr = pk_header p;
     let inf = pk_info p;
     let (d, slots) = choose_slot (ph_usec hdr) (mr_slot v);
     pb \<leftarrow> c_nth slots d;
     let buf = (case pb_buf pb of Some b \<Rightarrow> b | None \<Rightarrow> replicate (unat (fi_width inf) * unat (fi_height inf) * 3) None);
     buf \<leftarrow> packet_get_data p buf (CHUNK_SIZE * unat (ph_seq_num hdr));
     let count = pb_count pb + 1;
     let full = (count \<ge> uint (ph_length hdr));
     let pb = \<lparr>pb_hdr = hdr, pb_inf = inf, pb_buf = Some buf, pb_len = fi_len inf, pb_count = count,
               pb_rdy = (if full then 1 else pb_rdy pb)\<rparr>;
     let v = v\<lparr>mr_slot := slots[nat d := pb]\<rparr>;
     Some (if full then (2, v\<lparr>mr_last := ph_usec hdr\<rparr>) else (1, v)) }"

fun receive_until :: "mcast_receiver \<Rightarrow> mcast_packet list \<Rightarrow> (mcast_receiver \<times> mcast_packet list) option" where
  "receive_until v [] = Some (v, [])"
| "receive_until v (p # ps) = do {
     (n, v) \<leftarrow> mcast_recv_packet_frame v p;
     if n = 2 then Some (v, ps) else receive_until v ps }"

text \<open>The newer slot: the loop keeps the last one with a number above that of the first.\<close>

definition newest_slot :: "packet_buffer list \<Rightarrow> int" where
  "newest_slot slots =
     (let d = first_index (\<lambda>s. pb_rdy s = 1) slots
      in if d = - 1 then - 1
         else foldl (\<lambda>e i. if pb_rdy (slots ! i) = 1 \<and> slot_stamp (slots ! i) > slot_stamp (slots ! nat d) then int i else e)
                d [0..<length slots])"

text \<open>What is returned of a frame: width, height, format, length and bytes.\<close>

type_synonym received_frame = "u16 \<times> u16 \<times> u8 \<times> u32 \<times> char option list option"

definition mcast_recv_frame :: "mcast_receiver \<Rightarrow> mcast_packet list \<Rightarrow> (received_frame option \<times> mcast_receiver \<times> mcast_packet list) option" where
  "mcast_recv_frame v ps = do {
     let v = v\<lparr>mr_slot := map (\<lambda>s. if pb_rdy s = 1 \<or> slot_stamp s < mr_last v then release_slot s else s) (mr_slot v)\<rparr>;
     (v, ps) \<leftarrow> receive_until v ps;
     let d = newest_slot (mr_slot v);
     if d = - 1 then Some (None, v, ps)
     else do {
       pb \<leftarrow> c_nth (mr_slot v) d;
       Some (Some (fi_width (pb_inf pb), fi_height (pb_inf pb), fi_fmt (pb_inf pb), pb_len pb, pb_buf pb), v, ps) } }"

subsection \<open>The packets of a frame\<close>

definition chunks :: "nat \<Rightarrow> nat" where
  "chunks n = n div CHUNK_SIZE + (if n mod CHUNK_SIZE = 0 then 0 else 1)"

definition chunk_data :: "string \<Rightarrow> nat \<Rightarrow> string" where
  "chunk_data buf k = (let bs = take CHUNK_SIZE (drop (k * CHUNK_SIZE) buf) in bs @ replicate (CHUNK_SIZE - length bs) (CHR 0x00))"

definition frame_description :: "video_frame \<Rightarrow> frame_info" where
  "frame_description f = \<lparr>fi_width = of_int (vf_width f), fi_height = of_int (vf_height f), fi_fmt = of_int (vf_format f),
     fi_len = of_nat (length (vf_buf f)), fi_mode = of_int (vf_mode f)\<rparr>"

definition frame_packet :: "video_frame \<Rightarrow> u32 \<Rightarrow> nat \<Rightarrow> mcast_packet" where
  "frame_packet f t k = \<lparr>pk_header = \<lparr>ph_flag = 1, ph_seq_num = of_nat k, ph_usec = t, ph_timeout = of_int (vf_ms f * 1000),
       ph_length = of_nat (chunks (length (vf_buf f)))\<rparr>,
     pk_info = frame_description f, pk_data = chunk_data (vf_buf f) k\<rparr>"

definition frame_packets :: "video_frame \<Rightarrow> u32 \<Rightarrow> mcast_packet list" where
  "frame_packets f t = map (frame_packet f t) [0..<chunks (length (vf_buf f))]"

text \<open>A frame of at most 255 packets, which fit in the memory that the receiver takes for it.\<close>

definition sendable :: "video_frame \<Rightarrow> bool" where
  "sendable f \<longleftrightarrow> vf_buf f \<noteq> [] \<and> chunks (length (vf_buf f)) < 256 \<and>
     0 \<le> vf_width f \<and> vf_width f < 65536 \<and> 0 \<le> vf_height f \<and> vf_height f < 65536 \<and>
     CHUNK_SIZE * chunks (length (vf_buf f)) \<le> nat (vf_width f) * nat (vf_height f) * 3"

lemma chunk_size [simp]: "0 < CHUNK_SIZE"
  by (simp add: CHUNK_SIZE_def)

lemma chunks_bounds:
  assumes "0 < n"
  shows "0 < chunks n" "n \<le> chunks n * CHUNK_SIZE" "(chunks n - 1) * CHUNK_SIZE < n"
proof -
  define q r where "q = n div CHUNK_SIZE" and "r = n mod CHUNK_SIZE"
  have e: "n = q * CHUNK_SIZE + r" "r < CHUNK_SIZE" by (simp_all add: q_def r_def)
  have c: "chunks n = q + (if r = 0 then 0 else 1)" by (simp add: chunks_def q_def r_def)
  show "n \<le> chunks n * CHUNK_SIZE" unfolding c using e by simp
  show "0 < chunks n" unfolding c using e assms by (cases q) auto
  show "(chunks n - 1) * CHUNK_SIZE < n" unfolding c using e assms by (cases "r = 0"; cases q) auto
qed

lemma c_slice_nat: "c_slice s (int i) (int n) = (if i + n > length s then out_of_bounds else Some (take n (drop i s)))"
  by (simp add: c_slice_def flip: of_nat_add)

lemma chunks_one:
  assumes "0 < n" "n \<le> CHUNK_SIZE"
  shows "chunks n = 1"
proof (cases "n = CHUNK_SIZE")
  case False
  then have "n < CHUNK_SIZE" using assms by simp
  then show ?thesis using assms(1) by (simp add: chunks_def)
qed (simp add: chunks_def)

lemma send_full_chunks:
  assumes "\<forall>p. 0 < out p" "\<forall>k \<in> set ks. (k + 1) * CHUNK_SIZE \<le> length (vf_buf f)"
    "h = \<lparr>ph_flag = x, ph_seq_num = y, ph_usec = t, ph_timeout = of_int (vf_ms f * 1000), ph_length = of_nat (chunks (length (vf_buf f)))\<rparr>"
  shows "send_chunks out h (frame_description f) (vf_buf f) ks = Some (True, map (frame_packet f t) ks)"
  using assms(2)
proof (induction ks)
  case (Cons k ks)
  then have k: "k * CHUNK_SIZE + CHUNK_SIZE \<le> length (vf_buf f)" by simp
  then have "c_slice (vf_buf f) (int k * int CHUNK_SIZE) (int CHUNK_SIZE) = Some (chunk_data (vf_buf f) k)"
    using c_slice_nat [of "vf_buf f" "k * CHUNK_SIZE" CHUNK_SIZE] by (simp add: chunk_data_def)
  then show ?case
    using Cons assms(1) by (simp add: packet_put_data_def frame_packet_def assms(3) not_le)
qed simp

lemma put_padded:
  assumes "0 < m" "m = length (vf_buf f) - k * CHUNK_SIZE" "m \<le> CHUNK_SIZE"
  shows "packet_put_padded_data h i (vf_buf f) (int k * int CHUNK_SIZE) (int m)
    = Some \<lparr>pk_header = h, pk_info = i, pk_data = chunk_data (vf_buf f) k\<rparr>"
proof -
  have "take m (drop (k * CHUNK_SIZE) (vf_buf f)) = take CHUNK_SIZE (drop (k * CHUNK_SIZE) (vf_buf f))"
    "k * CHUNK_SIZE + m = length (vf_buf f)" using assms by simp_all
  then have "c_slice (vf_buf f) (int k * int CHUNK_SIZE) (int m) = Some (take CHUNK_SIZE (drop (k * CHUNK_SIZE) (vf_buf f)))"
    using c_slice_nat [of "vf_buf f" "k * CHUNK_SIZE" m] by simp
  then show ?thesis by (simp add: packet_put_padded_data_def chunk_data_def)
qed

lemma send_many_packets:
  assumes "sendable f" "\<forall>p. 0 < out p"
    "h = \<lparr>ph_flag = x, ph_seq_num = y, ph_usec = t, ph_timeout = of_int (vf_ms f * 1000), ph_length = z\<rparr>"
  shows "send_many out h (frame_description f) (vf_buf f) (int (length (vf_buf f))) = Some (1, frame_packets f t)"
proof -
  let ?n = "length (vf_buf f)"
  define q r where "q = ?n div CHUNK_SIZE" and "r = ?n mod CHUNK_SIZE"
  have e: "q * CHUNK_SIZE + r = ?n" "r < CHUNK_SIZE" by (simp_all add: q_def r_def)
  have c: "chunks ?n = q + (if r = 0 then 0 else 1)" by (simp add: chunks_def q_def r_def)
  have dm: "int ?n div int CHUNK_SIZE = int q" "int ?n mod int CHUNK_SIZE = int r" by (simp_all add: q_def r_def of_nat_div of_nat_mod)
  let ?h = "h\<lparr>ph_length := of_int (int q + (if 0 < int r then 1 else 0))\<rparr>"
  have len: "of_int (int q + (if 0 < int r then 1 else 0)) = (of_nat (chunks ?n) :: u8)" by (simp add: c)
  have hd: "?h = \<lparr>ph_flag = x, ph_seq_num = y, ph_usec = t, ph_timeout = of_int (vf_ms f * 1000), ph_length = of_nat (chunks ?n)\<rparr>"
    unfolding len by (simp add: assms(3))
  have full: "send_chunks out ?h (frame_description f) (vf_buf f) [0..<q] = Some (True, map (frame_packet f t) [0..<q])"
  proof (rule send_full_chunks [OF assms(2) _ hd], intro ballI)
    fix k assume "k \<in> set [0..<q]"
    then have "(k + 1) * CHUNK_SIZE \<le> q * CHUNK_SIZE" by (intro mult_le_mono1) simp
    then show "(k + 1) * CHUNK_SIZE \<le> ?n" using e(1) by linarith
  qed
  show ?thesis
  proof (cases "r = 0")
    case True
    then show ?thesis unfolding send_many_def dm Let_def nat_int full by (simp add: frame_packets_def c)
  next
    case False
    have "chunks ?n < 256" using assms(1) by (simp add: sendable_def)
    then have "uint (of_nat (chunks ?n) :: u8) = int (chunks ?n)" by (simp add: unsigned_of_nat take_bit_nat_eq_self)
    then have i: "uint (ph_length ?h) - 1 = int q" unfolding hd using False c by simp
    have put: "packet_put_padded_data h i (vf_buf f) (int q * int CHUNK_SIZE) (int r)
        = Some \<lparr>pk_header = h, pk_info = i, pk_data = chunk_data (vf_buf f) q\<rparr>" for h i
      by (rule put_padded) (use False e in auto)
    have p: "packet_put_padded_data (?h\<lparr>ph_seq_num := of_int (int q), ph_flag := 1\<rparr>) (frame_description f) (vf_buf f) (int q * int CHUNK_SIZE) (int r)
        = Some (frame_packet f t q)"
      unfolding hd put by (simp add: frame_packet_def)
    show ?thesis unfolding send_many_def dm Let_def nat_int full i p
      using False assms(2) by (simp add: frame_packets_def c not_le)
  qed
qed

lemma send_frame_packets:
  assumes "sendable f" "\<forall>p. 0 < out p" "ms_stamp v + 1 \<noteq> 0xffff"
  shows "mcast_send_frame out now v f (int (length (vf_buf f)))
    = Some (1, frame_packets f (ms_stamp v + 1), v\<lparr>ms_stamp := ms_stamp v + 1\<rparr>)"
proof -
  let ?n = "length (vf_buf f)" and ?t = "ms_stamp v + 1"
  have n: "0 < ?n" "chunks ?n < 256" using assms(1) by (simp_all add: sendable_def)
  note b = chunks_bounds [OF n(1)]
  show ?thesis
  proof (cases "?n \<le> CHUNK_SIZE")
    case True
    then show ?thesis
      using put_padded [of ?n f 0] chunks_one [OF n(1) True] n(1) assms(2)
      by (simp add: mcast_send_frame_def stamp_make_def packet_construct_header_def frame_packets_def frame_packet_def
          frame_description_def Let_def not_le)
  next
    case False
    then show ?thesis
      using send_many_packets [OF assms(1,2) refl, where t = ?t and x = 1 and y = 0 and z = 0] assms(3)
      by (simp add: mcast_send_frame_def stamp_make_def packet_construct_header_def frame_description_def Let_def)
  qed
qed

subsection \<open>Pieces of a frame\<close>

definition piece :: "char option list \<Rightarrow> nat \<Rightarrow> char option list" where
  "piece b k = take CHUNK_SIZE (drop (CHUNK_SIZE * k) b)"

lemma chunk_data_length [simp]: "length (chunk_data buf k) = CHUNK_SIZE"
  by (simp add: chunk_data_def Let_def)

lemma put_piece:
  assumes "packet_get_data p b (CHUNK_SIZE * k) = Some b'" "length (pk_data p) = CHUNK_SIZE"
  shows "length b' = length b" "piece b' k = map Some (pk_data p)" "j \<noteq> k \<Longrightarrow> piece b' j = piece b j"
proof -
  have b: "CHUNK_SIZE * k + CHUNK_SIZE \<le> length b"
      "b' = take (CHUNK_SIZE * k) b @ map Some (pk_data p) @ drop (CHUNK_SIZE * k + CHUNK_SIZE) b"
    using assms(1) by (auto simp: packet_get_data_def split: if_splits)
  show "length b' = length b" "piece b' k = map Some (pk_data p)" using b assms(2) by (simp_all add: piece_def)
  assume "j \<noteq> k"
  then consider "Suc j \<le> k" | "Suc k \<le> j" by linarith
  then show "piece b' j = piece b j"
  proof cases
    case 1
    then have "CHUNK_SIZE * Suc j \<le> CHUNK_SIZE * k" by (rule mult_le_mono2)
    then have "CHUNK_SIZE * j + CHUNK_SIZE \<le> CHUNK_SIZE * k" by simp
    then show ?thesis using b by (simp add: piece_def drop_append take_append) (simp add: drop_take min_def)
  next
    case 2
    then have "CHUNK_SIZE * Suc k \<le> CHUNK_SIZE * j" by (rule mult_le_mono2)
    then have le: "CHUNK_SIZE * k + CHUNK_SIZE \<le> CHUNK_SIZE * j" by simp
    then have "CHUNK_SIZE * j - (CHUNK_SIZE * k + CHUNK_SIZE) + (CHUNK_SIZE * k + CHUNK_SIZE) = CHUNK_SIZE * j"
      "CHUNK_SIZE * k - CHUNK_SIZE * j = 0" "CHUNK_SIZE * k \<le> CHUNK_SIZE * j" by linarith+
    then show ?thesis using b assms(2) le by (simp add: piece_def drop_append add.commute)
  qed
qed

text \<open>All pieces are the frame.\<close>

lemma pieces_all:
  assumes "\<forall>k < chunks (length buf). piece b k = map Some (chunk_data buf k)" "chunks (length buf) * CHUNK_SIZE \<le> length b" "buf \<noteq> []"
  shows "take (length buf) b = map Some buf"
proof (rule nth_equalityI)
  have n: "0 < length buf" using assms(3) by simp
  note c = chunks_bounds [OF n]
  show "length (take (length buf) b) = length (map Some buf)" using c(2) assms(2) by simp
  fix i assume "i < length (take (length buf) b)"
  then have i: "i < length buf" "i < length b" by simp_all
  define k r where "k = i div CHUNK_SIZE" and "r = i mod CHUNK_SIZE"
  have e: "i = CHUNK_SIZE * k + r" "r < CHUNK_SIZE" by (simp_all add: k_def r_def)
  have "CHUNK_SIZE * k < chunks (length buf) * CHUNK_SIZE" using e i c(2) by linarith
  then have k: "k < chunks (length buf)" by (simp add: mult.commute)
  have "b ! i = piece b k ! r" using e i by (simp add: piece_def)
  also have "\<dots> = Some (chunk_data buf k ! r)" using assms(1) k e(2) by simp
  also have "chunk_data buf k ! r = buf ! i"
  proof -
    have "r < length buf - CHUNK_SIZE * k" using e i by linarith
    then show ?thesis using e by (simp add: chunk_data_def Let_def nth_append mult.commute)
  qed
  finally show "take (length buf) b ! i = map Some buf ! i" using i by simp
qed

subsection \<open>Slots\<close>

definition slot_free :: "packet_buffer \<Rightarrow> bool" where
  "slot_free s \<longleftrightarrow> slot_stamp s = 0 \<and> pb_buf s = None \<and> pb_count s = 0 \<and> pb_rdy s = 0"

text \<open>Free, or with a part of a frame before number \<open>t\<close>.\<close>

definition slot_old :: "u32 \<Rightarrow> packet_buffer \<Rightarrow> bool" where
  "slot_old t s \<longleftrightarrow> slot_free s \<or> slot_stamp s < t \<and> 0 < pb_count s \<and> pb_rdy s = 0"

definition slot_has :: "video_frame \<Rightarrow> u32 \<Rightarrow> nat list \<Rightarrow> packet_buffer \<Rightarrow> bool" where
  "slot_has f t ks s \<longleftrightarrow> slot_stamp s = t \<and> pb_inf s = frame_description f \<and> pb_len s = of_nat (length (vf_buf f)) \<and>
     pb_count s = int (length ks) \<and> pb_rdy s = (if length ks < chunks (length (vf_buf f)) then 0 else 1) \<and>
     (\<exists>b. pb_buf s = Some b \<and> chunks (length (vf_buf f)) * CHUNK_SIZE \<le> length b \<and>
        (\<forall>k \<in> set ks. piece b k = map Some (chunk_data (vf_buf f) k)))"

definition ready_for :: "u32 \<Rightarrow> mcast_receiver \<Rightarrow> bool" where
  "ready_for t v \<longleftrightarrow> length (mr_slot v) = PACKET_SLOTS \<and> (\<forall>s \<in> set (mr_slot v). slot_old t s)"

definition collecting :: "video_frame \<Rightarrow> u32 \<Rightarrow> nat list \<Rightarrow> mcast_receiver \<Rightarrow> bool" where
  "collecting f t ks v \<longleftrightarrow> length (mr_slot v) = PACKET_SLOTS \<and>
     (\<exists>d < PACKET_SLOTS. slot_has f t ks (mr_slot v ! d) \<and> (\<forall>j < PACKET_SLOTS. j \<noteq> d \<longrightarrow> slot_old t (mr_slot v ! j)))"

lemma slot_old_stamp: "0 < t \<Longrightarrow> slot_old t s \<Longrightarrow> slot_stamp s \<noteq> t"
  by (auto simp: slot_old_def slot_free_def)

lemma slot_old_mono: "slot_old t s \<Longrightarrow> t \<le> u \<Longrightarrow> slot_old u s"
  by (auto simp: slot_old_def)

lemma release_free: "slot_free (release_slot s)"
  by (simp add: slot_free_def release_slot_def slot_stamp_def header_zero_def)

lemma oldest_slot_less: "ss \<noteq> [] \<Longrightarrow> oldest_slot ss < length ss"
proof (induction ss)
  case (Cons s ss)
  then show ?case by (cases "ss = []") auto
qed simp

text \<open>A new frame gets a free slot, for which an older part may have to go.\<close>

lemma choose_new:
  assumes "ready_for t v" "0 < t"
  shows "\<exists>d slots. choose_slot t (mr_slot v) = (int d, slots) \<and> d < PACKET_SLOTS \<and> length slots = PACKET_SLOTS \<and>
    slot_free (slots ! d) \<and> (\<forall>s \<in> set slots. slot_old t s)"
proof -
  let ?ss = "mr_slot v"
  have old: "\<forall>s \<in> set ?ss. slot_old t s" and len: "length ?ss = PACKET_SLOTS" using assms(1) by (simp_all add: ready_for_def)
  have none: "first_index (\<lambda>s. slot_stamp s = t) ?ss = - 1"
    using old slot_old_stamp [OF assms(2)] by (auto simp: first_index_none_iff)
  let ?e = "first_index (\<lambda>s. pb_count s = 0) ?ss"
  show ?thesis
  proof (cases "?e = - 1")
    case False
    then have e: "0 \<le> ?e" using first_index_ge [of "\<lambda>s. pb_count s = 0" ?ss] by simp
    then have "pb_count (?ss ! nat ?e) = 0" "nat ?e < length ?ss" using first_index_hit [OF e] first_index_nat_less by auto
    moreover have "slot_old t (?ss ! nat ?e)" using old calculation(2) by simp
    ultimately show ?thesis
      using none False e old len
      by (intro exI [of _ "nat ?e"] exI [of _ ?ss]) (auto simp: choose_slot_def Let_def slot_old_def)
  next
    case True
    let ?o = "oldest_slot ?ss"
    have o: "?o < length ?ss" using len by (intro oldest_slot_less) (auto simp: PACKET_SLOTS_def)
    have "\<forall>s \<in> set (?ss[?o := release_slot (?ss ! ?o)]). slot_old t s"
      using old release_free set_update_subset_insert [of ?ss ?o "release_slot (?ss ! ?o)"] by (auto simp: slot_old_def)
    then show ?thesis
      using none True o len release_free
      by (intro exI [of _ ?o] exI [of _ "?ss[?o := release_slot (?ss ! ?o)]"]) (simp add: choose_slot_def Let_def)
  qed
qed

subsection \<open>Receiving a frame\<close>

lemma frame_numbers:
  assumes "sendable f" "k < chunks (length (vf_buf f))"
  shows "unat (of_nat k :: u8) = k" "uint (of_nat (chunks (length (vf_buf f))) :: u8) = int (chunks (length (vf_buf f)))"
    "unat (fi_width (frame_description f)) * unat (fi_height (frame_description f)) * 3 = nat (vf_width f) * nat (vf_height f) * 3"
proof -
  have c: "chunks (length (vf_buf f)) < 256" and w: "0 \<le> vf_width f" "vf_width f < 65536" "0 \<le> vf_height f" "vf_height f < 65536"
    using assms(1) by (simp_all add: sendable_def)
  show "unat (of_nat k :: u8) = k" using assms(2) c by (simp add: unsigned_of_nat take_bit_nat_eq_self)
  show "uint (of_nat (chunks (length (vf_buf f))) :: u8) = int (chunks (length (vf_buf f)))"
    using c by (simp add: unsigned_of_nat take_bit_nat_eq_self)
  have "unat (of_int (vf_width f) :: u16) = nat (vf_width f)" "unat (of_int (vf_height f) :: u16) = nat (vf_height f)"
    using w by (simp_all add: unsigned_of_int take_bit_int_eq_self)
  then show "unat (fi_width (frame_description f)) * unat (fi_height (frame_description f)) * 3 = nat (vf_width f) * nat (vf_height f) * 3"
    by (simp add: frame_description_def)
qed

text \<open>One packet of a frame, into its slot.\<close>

lemma recv_into:
  assumes "choose_slot t (mr_slot v) = (int d, slots)" "d < length slots" "sendable f" "k < chunks (length (vf_buf f))"
    "slot_free (slots ! d) \<and> ks = [] \<or> slot_has f t ks (slots ! d)" "length ks < chunks (length (vf_buf f))"
  shows "\<exists>s. slot_has f t (k # ks) s \<and> mcast_recv_packet_frame v (frame_packet f t k) =
    Some (if Suc (length ks) < chunks (length (vf_buf f)) then (1, v\<lparr>mr_slot := slots[d := s]\<rparr>)
          else (2, v\<lparr>mr_slot := slots[d := s], mr_last := t\<rparr>))"
proof -
  let ?c = "chunks (length (vf_buf f))" and ?pb = "slots ! d"
  note n = frame_numbers [OF assms(3,4)]
  define b where "b = (case pb_buf ?pb of Some b \<Rightarrow> b | None \<Rightarrow> replicate (nat (vf_width f) * nat (vf_height f) * 3) None)"
  have fits: "CHUNK_SIZE * ?c \<le> nat (vf_width f) * nat (vf_height f) * 3" using assms(3) by (simp add: sendable_def)
  have pb: "pb_count ?pb = int (length ks)" "pb_rdy ?pb = 0" "?c * CHUNK_SIZE \<le> length b"
      "\<forall>j \<in> set ks. piece b j = map Some (chunk_data (vf_buf f) j)"
    using assms(5,6) fits by (auto simp: slot_free_def slot_has_def b_def mult.commute)
  have "CHUNK_SIZE * Suc k \<le> CHUNK_SIZE * ?c" using assms(4) by (intro mult_le_mono2) simp
  then have "CHUNK_SIZE * k + CHUNK_SIZE \<le> length b" using pb(3) by (simp add: mult.commute)
  then obtain b' where b': "packet_get_data (frame_packet f t k) b (CHUNK_SIZE * k) = Some b'"
    by (simp add: packet_get_data_def)
  have "length (pk_data (frame_packet f t k)) = CHUNK_SIZE" by (simp add: frame_packet_def)
  note put = put_piece [OF b' this]
  let ?full = "int (length ks) + 1 \<ge> int ?c"
  let ?s = "\<lparr>pb_hdr = pk_header (frame_packet f t k), pb_inf = frame_description f, pb_buf = Some b', pb_len = of_nat (length (vf_buf f)),
     pb_count = int (length ks) + 1, pb_rdy = (if ?full then 1 else 0)\<rparr>"
  have data: "pk_data (frame_packet f t k) = chunk_data (vf_buf f) k" by (simp add: frame_packet_def)
  have "\<forall>j \<in> set (k # ks). piece b' j = map Some (chunk_data (vf_buf f) j)"
  proof
    fix j assume "j \<in> set (k # ks)"
    then show "piece b' j = map Some (chunk_data (vf_buf f) j)" using put(2,3) pb(4) by (cases "j = k") (simp_all add: data)
  qed
  moreover have "pb_rdy ?s = (if length (k # ks) < ?c then 0 else 1)" by auto
  ultimately have "slot_has f t (k # ks) ?s"
    using put(1) pb(3) unfolding slot_has_def by (simp add: slot_stamp_def frame_packet_def)
  moreover have "mcast_recv_packet_frame v (frame_packet f t k) =
    Some (if ?full then (2, v\<lparr>mr_slot := slots[d := ?s], mr_last := t\<rparr>) else (1, v\<lparr>mr_slot := slots[d := ?s]\<rparr>))"
  proof -
    have h: "ph_usec (pk_header (frame_packet f t k)) = t" "unat (ph_seq_num (pk_header (frame_packet f t k))) = k"
      "uint (ph_length (pk_header (frame_packet f t k))) = int ?c" "pk_info (frame_packet f t k) = frame_description f"
      using n by (simp_all add: frame_packet_def)
    have l: "fi_len (frame_description f) = of_nat (length (vf_buf f))" by (simp add: frame_description_def)
    show ?thesis
      using assms(1,2) b' pb(1,2) unfolding mcast_recv_packet_frame_def h Let_def n(3) b_def by (simp add: l)
  qed
  moreover have "?full = (\<not> Suc (length ks) < ?c)" by auto
  ultimately show ?thesis by (intro exI [of _ ?s]) simp
qed

lemma recv_first_packet:
  assumes "ready_for t v" "0 < t" "sendable f" "k < chunks (length (vf_buf f))"
  shows "\<exists>v'. mcast_recv_packet_frame v (frame_packet f t k) = Some (if 1 < chunks (length (vf_buf f)) then 1 else 2, v') \<and>
    collecting f t [k] v' \<and> mr_last v' = (if 1 < chunks (length (vf_buf f)) then mr_last v else t)"
proof -
  obtain d slots where d: "choose_slot t (mr_slot v) = (int d, slots)" "d < PACKET_SLOTS" "length slots = PACKET_SLOTS"
      "slot_free (slots ! d)" "\<forall>s \<in> set slots. slot_old t s" using choose_new [OF assms(1,2)] by blast
  then obtain s where s: "slot_has f t [k] s" "mcast_recv_packet_frame v (frame_packet f t k) =
    Some (if 1 < chunks (length (vf_buf f)) then (1, v\<lparr>mr_slot := slots[d := s]\<rparr>) else (2, v\<lparr>mr_slot := slots[d := s], mr_last := t\<rparr>))"
    using recv_into [OF d(1) _ assms(3,4), of "[]"] assms(4) by auto
  have "slot_old t (slots ! j)" if "j < PACKET_SLOTS" for j using d(3,5) that by simp
  then have "collecting f t [k] v'" if "mr_slot v' = slots[d := s]" for v'
    using d(2,3) s(1) that by (auto simp: collecting_def)
  then show ?thesis using s(2) by auto
qed

lemma recv_next_packet:
  assumes "collecting f t ks v" "0 < t" "sendable f" "k < chunks (length (vf_buf f))" "length ks < chunks (length (vf_buf f))"
  shows "\<exists>v'. mcast_recv_packet_frame v (frame_packet f t k) = Some (if Suc (length ks) < chunks (length (vf_buf f)) then 1 else 2, v') \<and>
    collecting f t (k # ks) v' \<and> mr_last v' = (if Suc (length ks) < chunks (length (vf_buf f)) then mr_last v else t)"
proof -
  obtain d where d: "length (mr_slot v) = PACKET_SLOTS" "d < PACKET_SLOTS" "slot_has f t ks (mr_slot v ! d)"
      "\<And>j. j < PACKET_SLOTS \<Longrightarrow> j \<noteq> d \<Longrightarrow> slot_old t (mr_slot v ! j)"
    using assms(1) unfolding collecting_def by blast
  have "first_index (\<lambda>s. slot_stamp s = t) (mr_slot v) = int d"
    by (rule first_index_eqI) (use d slot_old_stamp [OF assms(2)] in \<open>auto simp: slot_has_def\<close>)
  then have c: "choose_slot t (mr_slot v) = (int d, mr_slot v)" by (simp add: choose_slot_def Let_def)
  from recv_into [OF c _ assms(3,4) _ assms(5)] d obtain s where s: "slot_has f t (k # ks) s"
      "mcast_recv_packet_frame v (frame_packet f t k) = Some (if Suc (length ks) < chunks (length (vf_buf f))
        then (1, v\<lparr>mr_slot := (mr_slot v)[d := s]\<rparr>) else (2, v\<lparr>mr_slot := (mr_slot v)[d := s], mr_last := t\<rparr>))" by auto
  have "collecting f t (k # ks) v'" if "mr_slot v' = (mr_slot v)[d := s]" for v'
    unfolding collecting_def using d s(1) that by (intro conjI exI [of _ d]) simp_all
  then show ?thesis using s(2) by auto
qed

lemma receive_some:
  assumes "collecting f t ks v" "0 < t" "sendable f" "set js \<subseteq> {..<chunks (length (vf_buf f))}"
    "length ks + length js < chunks (length (vf_buf f))"
  shows "\<exists>v'. receive_until v (map (frame_packet f t) js @ rest) = receive_until v' rest \<and>
    collecting f t (rev js @ ks) v' \<and> mr_last v' = mr_last v"
  using assms
proof (induction js arbitrary: ks v)
  case Nil
  then show ?case by (intro exI [of _ v]) simp
next
  case (Cons k js)
  have k: "k < chunks (length (vf_buf f))" "length ks < chunks (length (vf_buf f))" "Suc (length ks) < chunks (length (vf_buf f))"
    using Cons.prems(4,5) by auto
  from recv_next_packet [OF Cons.prems(1-3) k(1,2)] k(3) obtain v1 where
    v1: "mcast_recv_packet_frame v (frame_packet f t k) = Some (1, v1)" "collecting f t (k # ks) v1" "mr_last v1 = mr_last v" by auto
  from Cons.IH [OF v1(2) Cons.prems(2,3)] Cons.prems(4,5) obtain v' where
    "receive_until v1 (map (frame_packet f t) js @ rest) = receive_until v' rest" "collecting f t (rev js @ k # ks) v'" "mr_last v' = mr_last v1"
    by auto
  then show ?case using v1 by auto
qed

lemma receive_rest:
  assumes "collecting f t ks v" "0 < t" "sendable f" "set js \<subseteq> {..<chunks (length (vf_buf f))}" "js \<noteq> []"
    "length ks + length js = chunks (length (vf_buf f))"
  shows "\<exists>v'. receive_until v (map (frame_packet f t) js @ rest) = Some (v', rest) \<and>
    collecting f t (rev js @ ks) v' \<and> mr_last v' = t"
proof -
  obtain js1 k where js: "js = js1 @ [k]" using assms(5) by (cases js rule: rev_cases) auto
  have part: "length ks + length js1 < chunks (length (vf_buf f))" "set js1 \<subseteq> {..<chunks (length (vf_buf f))}" "k < chunks (length (vf_buf f))"
    using assms(4,6) js by auto
  from receive_some [OF assms(1-3) part(2,1), of "frame_packet f t k # rest"] obtain v1 where
    v1: "receive_until v (map (frame_packet f t) js1 @ frame_packet f t k # rest) = receive_until v1 (frame_packet f t k # rest)"
      "collecting f t (rev js1 @ ks) v1" by blast
  from recv_next_packet [OF v1(2) assms(2,3) part(3)] assms(6) js obtain v' where
    "mcast_recv_packet_frame v1 (frame_packet f t k) = Some (2, v')" "collecting f t (k # rev js1 @ ks) v'" "mr_last v' = t" by auto
  then show ?thesis using v1(1) js by auto
qed

text \<open>From a receiver that has nothing of the frame: not all of its packets, or as many as it has.\<close>

lemma receive_part:
  assumes "ready_for t v" "0 < t" "sendable f" "set js \<subseteq> {..<chunks (length (vf_buf f))}" "length js < chunks (length (vf_buf f))"
  shows "\<exists>v'. receive_until v (map (frame_packet f t) js @ rest) = receive_until v' rest \<and>
    mr_last v' = mr_last v \<and> (\<forall>u > t. ready_for u v')"
proof (cases js)
  case Nil
  then show ?thesis using assms(1) by (intro exI [of _ v]) (auto simp: ready_for_def intro: slot_old_mono)
next
  case (Cons k js1)
  then have k: "k < chunks (length (vf_buf f))" "1 < chunks (length (vf_buf f))" using assms(4,5) by auto
  from recv_first_packet [OF assms(1-3) k(1)] k(2) obtain v1 where
    v1: "mcast_recv_packet_frame v (frame_packet f t k) = Some (1, v1)" "collecting f t [k] v1" "mr_last v1 = mr_last v" by auto
  from receive_some [OF v1(2) assms(2,3), of js1 rest] assms(4,5) Cons obtain v' where
    v': "receive_until v1 (map (frame_packet f t) js1 @ rest) = receive_until v' rest" "collecting f t (rev js1 @ [k]) v'" "mr_last v' = mr_last v1"
    by auto
  have "ready_for u v'" if "t < u" for u
  proof -
    obtain d where d: "length (mr_slot v') = PACKET_SLOTS" "slot_has f t (rev js1 @ [k]) (mr_slot v' ! d)"
      "\<And>j. j < PACKET_SLOTS \<Longrightarrow> j \<noteq> d \<Longrightarrow> slot_old t (mr_slot v' ! j)" using v'(2) unfolding collecting_def by blast
    have "slot_old u (mr_slot v' ! j)" if "j < PACKET_SLOTS" for j
      using d(2) d(3) [OF that] slot_old_mono [of t _ u] \<open>t < u\<close> assms(5) Cons
      by (cases "j = d") (auto simp: slot_has_def slot_old_def)
    then show ?thesis using d(1) by (auto simp: ready_for_def in_set_conv_nth)
  qed
  then show ?thesis using v1 v' Cons by auto
qed

lemma receive_full:
  assumes "ready_for t v" "0 < t" "sendable f" "set js \<subseteq> {..<chunks (length (vf_buf f))}" "length js = chunks (length (vf_buf f))"
  shows "\<exists>v'. receive_until v (map (frame_packet f t) js @ rest) = Some (v', rest) \<and> mr_last v' = t \<and> collecting f t (rev js) v'"
proof -
  have "vf_buf f \<noteq> []" using assms(3) by (simp add: sendable_def)
  then have "0 < chunks (length (vf_buf f))" by (intro chunks_bounds) simp
  then obtain k js1 where js: "js = k # js1" using assms(5) by (cases js) auto
  then have k: "k < chunks (length (vf_buf f))" using assms(4) by simp
  from recv_first_packet [OF assms(1-3) k] obtain v1 where
    v1: "mcast_recv_packet_frame v (frame_packet f t k) = Some (if 1 < chunks (length (vf_buf f)) then 1 else 2, v1)"
      "collecting f t [k] v1" "mr_last v1 = (if 1 < chunks (length (vf_buf f)) then mr_last v else t)" by blast
  show ?thesis
  proof (cases "js1 = []")
    case True
    then show ?thesis using v1 js assms(5) by auto
  next
    case False
    then have "1 < chunks (length (vf_buf f))" using js assms(5) by (cases js1) auto
    moreover from receive_rest [OF v1(2) assms(2,3) _ False, of rest] assms(4,5) js obtain v' where
      "receive_until v1 (map (frame_packet f t) js1 @ rest) = Some (v', rest)" "collecting f t (rev js1 @ [k]) v'" "mr_last v' = t" by auto
    ultimately show ?thesis using v1 js by auto
  qed
qed

subsection \<open>A call of the receiver\<close>

text \<open>A frame, its number and the packets of it that arrive, by their numbers and in the order of their arrival.\<close>

type_synonym arrival = "video_frame \<times> u32 \<times> nat list"

fun arrival_packets :: "arrival \<Rightarrow> mcast_packet list" where
  "arrival_packets (f, t, js) = map (frame_packet f t) js"

fun arrival_ok :: "arrival \<Rightarrow> bool" where
  "arrival_ok (f, t, js) \<longleftrightarrow> 0 < t \<and> t < 65536 \<and> sendable f \<and> distinct js \<and> set js \<subseteq> {..<chunks (length (vf_buf f))}"

fun complete_arrival :: "arrival \<Rightarrow> bool" where
  "complete_arrival (f, t, js) \<longleftrightarrow> length js = chunks (length (vf_buf f))"

definition stamp_of :: "arrival \<Rightarrow> u32" where
  "stamp_of = (\<lambda>(f, t, js). t)"

definition in_order :: "arrival list \<Rightarrow> bool" where
  "in_order L \<longleftrightarrow> sorted_wrt (\<lambda>x y. stamp_of x < stamp_of y) L"

fun shows_frame :: "video_frame \<Rightarrow> received_frame \<Rightarrow> bool" where
  "shows_frame f (w, h, fmt, n, b) \<longleftrightarrow> w = of_int (vf_width f) \<and> h = of_int (vf_height f) \<and> fmt = of_int (vf_format f) \<and>
     n = of_nat (length (vf_buf f)) \<and> (\<exists>bs. b = Some bs \<and> take (length (vf_buf f)) bs = map Some (vf_buf f))"

text \<open>Between two calls: what is in a slot is of no more use.\<close>

definition settled :: "mcast_receiver \<Rightarrow> bool" where
  "settled v \<longleftrightarrow> length (mr_slot v) = PACKET_SLOTS \<and>
     (\<forall>s \<in> set (mr_slot v). slot_free s \<or> pb_rdy s = 1 \<or> slot_stamp s < mr_last v)"

definition clear_slots :: "mcast_receiver \<Rightarrow> mcast_receiver" where
  "clear_slots v = v\<lparr>mr_slot := map (\<lambda>s. if pb_rdy s = 1 \<or> slot_stamp s < mr_last v then release_slot s else s) (mr_slot v)\<rparr>"

lemma clear_ready: "settled v \<Longrightarrow> ready_for t (clear_slots v)"
  using release_free by (auto simp: settled_def ready_for_def clear_slots_def slot_old_def)

lemma arrival_short:
  assumes "arrival_ok (f, t, js)" "\<not> complete_arrival (f, t, js)"
  shows "length js < chunks (length (vf_buf f))"
proof -
  have "card (set js) \<le> card {..<chunks (length (vf_buf f))}" using assms(1) by (intro card_mono) auto
  then have "length js \<le> chunks (length (vf_buf f))" using assms(1) by (simp add: distinct_card)
  then show ?thesis using assms(2) by simp
qed

lemma receive_incomplete:
  assumes "ready_for t v" "list_all arrival_ok L" "list_all (\<lambda>x. \<not> complete_arrival x) L" "in_order L"
    "\<forall>x \<in> set L. t \<le> stamp_of x"
  shows "\<exists>v'. receive_until v (concat (map arrival_packets L) @ rest) = receive_until v' rest \<and> mr_last v' = mr_last v \<and>
    (\<forall>u \<ge> t. (\<forall>x \<in> set L. stamp_of x < u) \<longrightarrow> ready_for u v')"
  using assms
proof (induction L arbitrary: t v)
  case Nil
  then show ?case by (intro exI [of _ v]) (auto simp: ready_for_def intro: slot_old_mono)
next
  case (Cons x L)
  obtain f s js where x: "x = (f, s, js)" by (cases x)
  have ok: "0 < s" "sendable f" "set js \<subseteq> {..<chunks (length (vf_buf f))}" "length js < chunks (length (vf_buf f))" "t \<le> s"
    using Cons.prems(2,3,5) arrival_short [of f s js] by (simp_all add: x stamp_of_def)
  have "ready_for s v" using Cons.prems(1) ok(5) by (auto simp: ready_for_def intro: slot_old_mono)
  from receive_part [OF this ok(1-4), of "concat (map arrival_packets L) @ rest"] obtain v1 where
    v1: "receive_until v (map (frame_packet f s) js @ concat (map arrival_packets L) @ rest)
        = receive_until v1 (concat (map arrival_packets L) @ rest)"
      "mr_last v1 = mr_last v" "\<And>u. s < u \<Longrightarrow> ready_for u v1" by blast
  show ?case
  proof (cases L)
    case Nil
    then show ?thesis using v1 by (intro exI [of _ v1]) (simp add: x stamp_of_def)
  next
    case (Cons y L')
    have s: "s < stamp_of y" "\<forall>z \<in> set L. stamp_of y \<le> stamp_of z" "in_order L"
      using Cons.prems(4) Cons by (auto simp: in_order_def x stamp_of_def less_imp_le)
    from Cons.IH [OF v1(3) [OF s(1)] _ _ s(3,2)] Cons.prems(2,3) obtain v' where
      v': "receive_until v1 (concat (map arrival_packets L) @ rest) = receive_until v' rest" "mr_last v' = mr_last v1"
        "\<And>u. stamp_of y \<le> u \<Longrightarrow> (\<forall>z \<in> set L. stamp_of z < u) \<Longrightarrow> ready_for u v'" by auto
    have "ready_for u v'" if "\<forall>z \<in> set (x # L). stamp_of z < u" for u
      using that Cons by (intro v'(3)) (auto simp: less_imp_le)
    then show ?thesis using v1 v' by (intro exI [of _ v']) (simp add: x)
  qed
qed

lemma newest_only:
  assumes "d < length slots" "pb_rdy (slots ! d) = 1" "\<And>j. j < length slots \<Longrightarrow> j \<noteq> d \<Longrightarrow> pb_rdy (slots ! j) \<noteq> 1"
  shows "newest_slot slots = int d"
proof -
  have f: "first_index (\<lambda>s. pb_rdy s = 1) slots = int d" by (rule first_index_eqI) (use assms in auto)
  have keep: "foldl (\<lambda>e i. if P i then int i else e) e xs = e" if "\<forall>i \<in> set xs. \<not> P i" for P e xs
    using that by (induction xs) auto
  have "\<not> (pb_rdy (slots ! i) = 1 \<and> slot_stamp (slots ! i) > slot_stamp (slots ! d))" if "i < length slots" for i
    using assms(3) [OF that] by (cases "i = d") auto
  then show ?thesis by (simp add: newest_slot_def f Let_def keep)
qed

lemma newest_none: "\<forall>s \<in> set slots. pb_rdy s \<noteq> 1 \<Longrightarrow> newest_slot slots = - 1"
  by (simp add: newest_slot_def first_index_none_iff)

lemma stamp_bounds: "arrival_ok x \<Longrightarrow> 1 \<le> stamp_of x \<and> stamp_of x < 65536"
  by (cases x) (simp add: stamp_of_def word_less_nat_alt word_le_nat_alt)

text \<open>Frames of which packets are missing, and then nothing more, or one of which none is.\<close>

lemma call_incomplete:
  assumes "settled v" "list_all arrival_ok L" "list_all (\<lambda>x. \<not> complete_arrival x) L" "in_order L"
  shows "\<exists>v'. receive_until (clear_slots v) (concat (map arrival_packets L) @ rest) = receive_until v' rest \<and>
    (\<forall>u \<ge> 1. (\<forall>x \<in> set L. stamp_of x < u) \<longrightarrow> ready_for u v')"
  using receive_incomplete [OF clear_ready [OF assms(1)] assms(2-4), of 1 rest] assms(2) stamp_bounds
  by (auto simp: list_all_iff)

lemma recv_frame_none:
  assumes "settled v" "list_all arrival_ok L" "list_all (\<lambda>x. \<not> complete_arrival x) L" "in_order L"
  shows "\<exists>v'. mcast_recv_frame v (concat (map arrival_packets L)) = Some (None, v', [])"
proof -
  from call_incomplete [OF assms, of "[]"] obtain v' where
    v': "receive_until (clear_slots v) (concat (map arrival_packets L)) = Some (v', [])"
      "\<And>u. 1 \<le> u \<Longrightarrow> (\<forall>x \<in> set L. stamp_of x < u) \<Longrightarrow> ready_for u v'" by auto
  have "ready_for 65536 v'" using v'(2) assms(2) stamp_bounds by (auto simp: list_all_iff)
  then have "\<forall>s \<in> set (mr_slot v'). pb_rdy s \<noteq> 1" by (auto simp: ready_for_def slot_old_def slot_free_def)
  then show ?thesis using v'(1) by (simp add: mcast_recv_frame_def clear_slots_def newest_none)
qed

lemma recv_frame_full:
  assumes "settled v" "list_all arrival_ok (L @ [x])" "list_all (\<lambda>x. \<not> complete_arrival x) L" "complete_arrival x" "in_order (L @ [x])"
  shows "\<exists>r v'. mcast_recv_frame v (concat (map arrival_packets (L @ [x])) @ rest) = Some (Some r, v', rest) \<and>
    shows_frame (fst x) r \<and> settled v'"
proof -
  obtain f t js where x: "x = (f, t, js)" by (cases x)
  have ok: "0 < t" "sendable f" "distinct js" "set js \<subseteq> {..<chunks (length (vf_buf f))}" "length js = chunks (length (vf_buf f))"
    using assms(2,4) by (simp_all add: x)
  have L: "list_all arrival_ok L" "in_order L" "\<forall>y \<in> set L. stamp_of y < t" "1 \<le> t"
    using assms(2,5) stamp_bounds [of x] by (simp_all add: in_order_def sorted_wrt_append x stamp_of_def)
  from call_incomplete [OF assms(1) L(1) assms(3) L(2), of "map (frame_packet f t) js @ rest"] obtain v1 where
    v1: "receive_until (clear_slots v) (concat (map arrival_packets (L @ [x])) @ rest) = receive_until v1 (map (frame_packet f t) js @ rest)"
      "ready_for t v1" using L(3,4) by (auto simp: x)
  from receive_full [OF v1(2) ok(1,2,4,5), of rest] obtain v' where
    v': "receive_until v1 (map (frame_packet f t) js @ rest) = Some (v', rest)" "mr_last v' = t" "collecting f t (rev js) v'" by blast
  obtain d where d: "length (mr_slot v') = PACKET_SLOTS" "d < PACKET_SLOTS" "slot_has f t (rev js) (mr_slot v' ! d)"
      "\<And>j. j < PACKET_SLOTS \<Longrightarrow> j \<noteq> d \<Longrightarrow> slot_old t (mr_slot v' ! j)" using v'(3) unfolding collecting_def by blast
  let ?pb = "mr_slot v' ! d"
  have rdy: "pb_rdy ?pb = 1" using d(3) ok(5) by (simp add: slot_has_def)
  have "pb_rdy (mr_slot v' ! j) = 0" if "j < PACKET_SLOTS" "j \<noteq> d" for j
    using d(4) [OF that] by (auto simp: slot_old_def slot_free_def)
  then have "newest_slot (mr_slot v') = int d" by (intro newest_only) (use d(1,2) rdy in simp_all)
  then have call: "mcast_recv_frame v (concat (map arrival_packets (L @ [x])) @ rest)
      = Some (Some (fi_width (pb_inf ?pb), fi_height (pb_inf ?pb), fi_fmt (pb_inf ?pb), pb_len ?pb, pb_buf ?pb), v', rest)"
    using v1(1) v'(1) d(1,2) by (simp add: mcast_recv_frame_def clear_slots_def)
  obtain b where b: "pb_buf ?pb = Some b" "chunks (length (vf_buf f)) * CHUNK_SIZE \<le> length b"
      "\<forall>k \<in> set js. piece b k = map Some (chunk_data (vf_buf f) k)" using d(3) by (auto simp: slot_has_def)
  have "set js = {..<chunks (length (vf_buf f))}"
    using ok(3-5) by (intro card_subset_eq) (simp_all add: distinct_card)
  then have "take (length (vf_buf f)) b = map Some (vf_buf f)"
    using b ok(2) by (intro pieces_all) (auto simp: sendable_def)
  moreover have "settled v'"
    unfolding settled_def
  proof (intro conjI ballI)
    fix s assume "s \<in> set (mr_slot v')"
    then obtain j where j: "j < PACKET_SLOTS" "s = mr_slot v' ! j" using d(1) by (auto simp: in_set_conv_nth)
    show "slot_free s \<or> pb_rdy s = 1 \<or> slot_stamp s < mr_last v'"
      using rdy d(4) [OF j(1)] j(2) v'(2) by (cases "j = d") (auto simp: slot_old_def)
  qed (rule d(1))
  ultimately show ?thesis
    using call b(1) d(3) by (auto simp: x slot_has_def frame_description_def)
qed

subsection \<open>A stream of frames\<close>

fun receive_frames :: "nat \<Rightarrow> mcast_receiver \<Rightarrow> mcast_packet list \<Rightarrow> (received_frame option list \<times> mcast_receiver \<times> mcast_packet list) option" where
  "receive_frames 0 v ps = Some ([], v, ps)"
| "receive_frames (Suc n) v ps = do {
     (r, v, ps) \<leftarrow> mcast_recv_frame v ps;
     (rs, v, ps) \<leftarrow> receive_frames n v ps;
     Some (r # rs, v, ps) }"

fun send_frames :: "(mcast_packet \<Rightarrow> int) \<Rightarrow> u32 \<Rightarrow> mcast_sender \<Rightarrow> video_frame list \<Rightarrow> (mcast_packet list list \<times> mcast_sender) option" where
  "send_frames out now v [] = Some ([], v)"
| "send_frames out now v (f # fs) = do {
     (r, ps, v) \<leftarrow> mcast_send_frame out now v f (int (length (vf_buf f)));
     (pss, v) \<leftarrow> send_frames out now v fs;
     Some (ps # pss, v) }"

lemma receive_arrivals:
  assumes "settled v" "list_all arrival_ok L" "in_order L"
  shows "\<exists>rs v'. receive_frames (Suc (length (filter complete_arrival L))) v (concat (map arrival_packets L))
      = Some (map Some rs @ [None], v', []) \<and> list_all2 shows_frame (map fst (filter complete_arrival L)) rs"
  using assms
proof (induction "length L" arbitrary: L v rule: less_induct)
  case less
  show ?case
  proof (cases "\<exists>x \<in> set L. complete_arrival x")
    case False
    then have "list_all (\<lambda>x. \<not> complete_arrival x) L" "filter complete_arrival L = []" by (auto simp: list_all_iff)
    with recv_frame_none [OF less.prems(1,2) _ less.prems(3)] show ?thesis by auto
  next
    case True
    then obtain L1 x L2 where L: "L = L1 @ x # L2" "complete_arrival x" "\<forall>y \<in> set L1. \<not> complete_arrival y"
      by (rule split_list_first_propE)
    have ok: "list_all arrival_ok (L1 @ [x])" "list_all (\<lambda>x. \<not> complete_arrival x) L1" "in_order (L1 @ [x])"
        "list_all arrival_ok L2" "in_order L2"
      using less.prems(2,3) L by (auto simp: in_order_def sorted_wrt_append list_all_iff)
    from recv_frame_full [OF less.prems(1) ok(1,2) L(2) ok(3), of "concat (map arrival_packets L2)"] obtain r v1 where
      r: "mcast_recv_frame v (concat (map arrival_packets L)) = Some (Some r, v1, concat (map arrival_packets L2))"
        "shows_frame (fst x) r" "settled v1" by (auto simp: L(1))
    have "length L2 < length L" by (simp add: L(1))
    from less.hyps [OF this r(3) ok(4,5)] obtain rs v' where
      "receive_frames (Suc (length (filter complete_arrival L2))) v1 (concat (map arrival_packets L2)) = Some (map Some rs @ [None], v', [])"
        "list_all2 shows_frame (map fst (filter complete_arrival L2)) rs" by blast
    moreover have "filter complete_arrival L = x # filter complete_arrival L2" using L by (simp add: filter_False)
    moreover have "receive_frames (Suc m) v (concat (map arrival_packets L))
        = do { (rs, v, ps) \<leftarrow> receive_frames m v1 (concat (map arrival_packets L2)); Some (Some r # rs, v, ps) }" for m
      by (simp add: r(1))
    ultimately show ?thesis
      using r(2) by (intro exI [of _ "r # rs"] exI [of _ v']) (simp del: receive_frames.simps)
  qed
qed

lemma settled_new: "settled mcast_new_receiver"
  by (simp add: settled_def mcast_new_receiver_def slot_free_def slot_stamp_def slot_zero_def header_zero_def PACKET_SLOTS_def)

text \<open>The packets of the frames that a sender sends one after the other, and those of them that arrive.\<close>

fun numbered :: "u32 \<Rightarrow> video_frame list \<Rightarrow> mcast_packet list list" where
  "numbered t [] = []"
| "numbered t (f # fs) = frame_packets f t # numbered (t + 1) fs"

fun arrivals :: "u32 \<Rightarrow> video_frame list \<Rightarrow> nat list list \<Rightarrow> arrival list" where
  "arrivals t (f # fs) (js # jss) = (f, t, js) # arrivals (t + 1) fs jss"
| "arrivals t fs jss = []"

definition lossy :: "video_frame \<Rightarrow> nat list \<Rightarrow> bool" where
  "lossy f js \<longleftrightarrow> distinct js \<and> set js \<subseteq> {..<chunks (length (vf_buf f))}"

definition arrived :: "mcast_packet list list \<Rightarrow> nat list list \<Rightarrow> mcast_packet list" where
  "arrived pss jss = concat (map2 (\<lambda>ps js. map (\<lambda>j. ps ! j) js) pss jss)"

definition complete_frames :: "video_frame list \<Rightarrow> nat list list \<Rightarrow> video_frame list" where
  "complete_frames fs jss = map fst (filter (\<lambda>(f, js). length js = chunks (length (vf_buf f))) (zip fs jss))"

lemma stamp_next: "unat (t :: u32) + 1 < 65536 \<Longrightarrow> unat (t + 1) = unat t + 1"
  by (simp add: unat_word_ariths)

lemma send_frames_packets:
  assumes "list_all sendable fs" "\<forall>p. 0 < out p" "unat (ms_stamp v) + length fs < 65535"
  shows "\<exists>v'. send_frames out now v fs = Some (numbered (ms_stamp v + 1) fs, v')"
  using assms
proof (induction fs arbitrary: v)
  case (Cons f fs)
  let ?v = "v\<lparr>ms_stamp := ms_stamp v + 1\<rparr>"
  have u: "unat (ms_stamp v + 1) = unat (ms_stamp v) + 1" using Cons.prems(3) by (intro stamp_next) simp
  then have "ms_stamp v + 1 \<noteq> 0xffff" using Cons.prems(3) by auto
  from send_frame_packets [OF _ Cons.prems(2) this, of f now] Cons.prems(1) have
    f: "mcast_send_frame out now v f (int (length (vf_buf f))) = Some (1, frame_packets f (ms_stamp v + 1), ?v)" by simp
  from Cons.IH [of ?v] Cons.prems u obtain v' where "send_frames out now ?v fs = Some (numbered (ms_stamp v + 1 + 1) fs, v')" by auto
  then show ?case using f by simp
qed simp

lemma pick_packets:
  assumes "lossy f js"
  shows "map (\<lambda>j. frame_packets f t ! j) js = map (frame_packet f t) js"
  using assms by (auto simp: lossy_def frame_packets_def)

lemma arrivals_facts:
  assumes "list_all sendable fs" "list_all2 lossy fs jss" "0 < t" "unat t + length fs \<le> 65536"
  shows "list_all arrival_ok (arrivals t fs jss) \<and> in_order (arrivals t fs jss) \<and> (\<forall>x \<in> set (arrivals t fs jss). t \<le> stamp_of x) \<and>
    concat (map arrival_packets (arrivals t fs jss)) = arrived (numbered t fs) jss \<and>
    map fst (filter complete_arrival (arrivals t fs jss)) = complete_frames fs jss"
  using assms
proof (induction t fs jss rule: arrivals.induct)
  case (1 t f fs js jss)
  have t: "t < 65536" using "1.prems"(4) by (simp add: word_less_nat_alt)
  show ?case
  proof (cases fs)
    case Nil
    then show ?thesis using "1.prems" t
      by (simp add: in_order_def stamp_of_def lossy_def arrived_def complete_frames_def pick_packets)
  next
    case (Cons g gs)
    have u: "unat (t + 1) = unat t + 1" using "1.prems"(4) Cons by (intro stamp_next) simp
    then have o: "0 < t + 1" "t < t + 1" by (simp_all add: word_less_nat_alt)
    have ok: "sendable f" "list_all sendable fs" "lossy f js" "list_all2 lossy fs jss" "unat (t + 1) + length fs \<le> 65536"
      using "1.prems" u by simp_all
    note IH = "1.IH" [OF ok(2,4) o(1) ok(5)]
    have "\<forall>x \<in> set (arrivals (t + 1) fs jss). t < stamp_of x" using IH o(2) by (meson less_le_trans)
    then show ?thesis
      using IH ok(1,3) "1.prems"(3) t
      by (auto simp: in_order_def stamp_of_def lossy_def arrived_def complete_frames_def pick_packets less_imp_le)
  qed
qed (auto simp: in_order_def arrived_def complete_frames_def)

text \<open>
  C13. A lost packet costs its frame and no other. A new sender sends any frames, each of at most 255 packets; of each
  frame's packets some are lost and the others arrive in any order, the frames one after the other: the receiver shows exactly the frames
  of which every packet arrived, in order, each with the size, the format and the bytes that were sent, and then none.
\<close>

theorem multicast_frames_delivered:
  assumes "list_all sendable fs" "\<forall>p. 0 < out p" "length fs < 65534" "list_all2 lossy fs jss"
  shows "\<exists>pss v rs r. send_frames out now mcast_new_sender fs = Some (pss, v) \<and>
    receive_frames (Suc (length rs)) mcast_new_receiver (arrived pss jss) = Some (map Some rs @ [None], r, []) \<and>
    list_all2 shows_frame (complete_frames fs jss) rs"
proof -
  have one: "ms_stamp mcast_new_sender + 1 = 2" by (simp add: mcast_new_sender_def)
  have "unat (ms_stamp mcast_new_sender) + length fs < 65535" using assms(3) by (simp add: mcast_new_sender_def)
  from send_frames_packets [OF assms(1,2) this, of now] obtain v where
    v: "send_frames out now mcast_new_sender fs = Some (numbered 2 fs, v)" unfolding one by blast
  let ?L = "arrivals 2 fs jss"
  have f: "list_all arrival_ok ?L" "in_order ?L" "concat (map arrival_packets ?L) = arrived (numbered 2 fs) jss"
      "map fst (filter complete_arrival ?L) = complete_frames fs jss"
    using arrivals_facts [OF assms(1,4), of 2] assms(3) by simp_all
  from receive_arrivals [OF settled_new f(1,2)] obtain rs r where
    r: "receive_frames (Suc (length (filter complete_arrival ?L))) mcast_new_receiver (arrived (numbered 2 fs) jss)
        = Some (map Some rs @ [None], r, [])" "list_all2 shows_frame (complete_frames fs jss) rs" unfolding f(3,4) by blast
  have "length rs = length (filter complete_arrival ?L)" using list_all2_lengthD [OF r(2)] by (simp flip: f(4))
  then show ?thesis using v r by metis
qed

definition small_frame :: video_frame where
  "small_frame = \<lparr>vf_format = 1, vf_width = 40, vf_height = 40, vf_buf = ''frame'', vf_ms = 40, vf_mode = 0\<rparr>"

definition two_packet_frame :: video_frame where
  "two_packet_frame = small_frame\<lparr>vf_buf := replicate 2000 (CHR ''x'')\<rparr>"

text \<open>Three frames; of the second the first packet is lost, those of the third come in the wrong order.\<close>

theorem multicast_frames_delivered_witness:
  "\<exists>pss v rs r. send_frames (\<lambda>_. 1) 0 mcast_new_sender [small_frame, two_packet_frame, two_packet_frame] = Some (pss, v) \<and>
    receive_frames 3 mcast_new_receiver (arrived pss [[0], [1], [1, 0]]) = Some (map Some rs @ [None], r, []) \<and>
    list_all2 shows_frame [small_frame, two_packet_frame] rs"
proof -
  let ?fs = "[small_frame, two_packet_frame, two_packet_frame]" and ?jss = "[[0], [1], [1, 0]]"
  have c: "chunks (length (vf_buf small_frame)) = 1" "chunks (length (vf_buf two_packet_frame)) = 2"
    by (simp_all add: small_frame_def two_packet_frame_def chunks_def CHUNK_SIZE_def del: replicate.simps)
  have ok: "sendable small_frame" "sendable two_packet_frame"
    by (simp_all add: sendable_def c CHUNK_SIZE_def) (simp_all add: small_frame_def two_packet_frame_def)
  have l: "list_all2 lossy ?fs ?jss" by (simp add: lossy_def c)
  have cf: "complete_frames ?fs ?jss = [small_frame, two_packet_frame]" by (simp add: complete_frames_def c)
  from multicast_frames_delivered [OF _ _ _ l, of "\<lambda>_. 1" 0] ok obtain pss v rs r where
    r: "send_frames (\<lambda>_. 1) 0 mcast_new_sender ?fs = Some (pss, v)"
      "receive_frames (Suc (length rs)) mcast_new_receiver (arrived pss ?jss) = Some (map Some rs @ [None], r, [])"
      "list_all2 shows_frame [small_frame, two_packet_frame] rs" unfolding cf by auto
  have "Suc (length rs) = 3" using list_all2_lengthD [OF r(3)] by simp
  then show ?thesis using r by metis
qed

subsection \<open>Frames of more than 255 packets\<close>

text \<open>A frame whose number of packets does not fit in a byte: the header says \<open>announced f\<close> instead.\<close>

definition announced :: "video_frame \<Rightarrow> nat" where
  "announced f = chunks (length (vf_buf f)) mod 256"

lemma send_large:
  assumes "\<forall>p. 0 < out p" "length (vf_buf f) div CHUNK_SIZE = q" "256 \<le> q" "0 < announced f"
    "h = \<lparr>ph_flag = x, ph_seq_num = y, ph_usec = t, ph_timeout = of_int (vf_ms f * 1000), ph_length = z\<rparr>"
  shows "\<exists>more. send_many out h (frame_description f) (vf_buf f) (int (length (vf_buf f))) = Some (1, map (frame_packet f t) [0..<q] @ more) \<and>
    length more = chunks (length (vf_buf f)) - q"
proof -
  let ?n = "length (vf_buf f)"
  define r where "r = ?n mod CHUNK_SIZE"
  have e: "q * CHUNK_SIZE + r = ?n" "r < CHUNK_SIZE" using assms(2) by (auto simp: r_def)
  have c: "chunks ?n = q + (if r = 0 then 0 else 1)" using assms(2) by (simp add: chunks_def r_def)
  have dm: "int ?n div int CHUNK_SIZE = int q" "int ?n mod int CHUNK_SIZE = int r"
    using assms(2) by (simp_all add: r_def of_nat_mod flip: of_nat_div)
  let ?h = "h\<lparr>ph_length := of_int (int q + (if 0 < int r then 1 else 0))\<rparr>"
  have len: "of_int (int q + (if 0 < int r then 1 else 0)) = (of_nat (chunks ?n) :: u8)" by (simp add: c)
  have hd: "?h = \<lparr>ph_flag = x, ph_seq_num = y, ph_usec = t, ph_timeout = of_int (vf_ms f * 1000), ph_length = of_nat (chunks ?n)\<rparr>"
    unfolding len by (simp add: assms(5))
  have full: "send_chunks out ?h (frame_description f) (vf_buf f) [0..<q] = Some (True, map (frame_packet f t) [0..<q])"
  proof (rule send_full_chunks [OF assms(1) _ hd], intro ballI)
    fix k assume "k \<in> set [0..<q]"
    then have "(k + 1) * CHUNK_SIZE \<le> q * CHUNK_SIZE" by (intro mult_le_mono1) simp
    then show "(k + 1) * CHUNK_SIZE \<le> ?n" using e(1) by linarith
  qed
  show ?thesis
  proof (cases "r = 0")
    case True
    then show ?thesis unfolding send_many_def dm Let_def nat_int full by (simp add: c)
  next
    case False
    let ?i = "announced f - 1"
    have "uint (of_nat (chunks ?n) :: u8) = int (announced f)"
      by (simp add: unsigned_of_nat announced_def take_bit_eq_mod)
    then have i: "uint (ph_length ?h) - 1 = int ?i" unfolding hd using assms(4) by simp
    have "?i < 256" by (simp add: announced_def less_imp_diff_less)
    then have "Suc ?i * CHUNK_SIZE \<le> q * CHUNK_SIZE" using assms(3) by (intro mult_le_mono1) simp
    then have "?i * CHUNK_SIZE + r \<le> ?n" using e by simp
    then have "c_slice (vf_buf f) (int ?i * int CHUNK_SIZE) (int r) = Some (take r (drop (?i * CHUNK_SIZE) (vf_buf f)))"
      using c_slice_nat [of "vf_buf f" "?i * CHUNK_SIZE" r] by simp
    then have "\<exists>p. packet_put_padded_data h' (frame_description f) (vf_buf f) (int ?i * int CHUNK_SIZE) (int r) = Some p" for h'
      using e(2) by (simp add: packet_put_padded_data_def)
    then obtain p where p: "packet_put_padded_data (?h\<lparr>ph_seq_num := of_int (int ?i), ph_flag := 1\<rparr>) (frame_description f) (vf_buf f)
        (int ?i * int CHUNK_SIZE) (int r) = Some p" by blast
    show ?thesis unfolding send_many_def dm Let_def nat_int full i p
      using False assms(1) by (intro exI [of _ "[p]"]) (simp add: c not_le)
  qed
qed

text \<open>The first slot after \<open>j\<close> of its packets, in order.\<close>

definition filled :: "video_frame \<Rightarrow> nat \<Rightarrow> char option list" where
  "filled f j = map Some (take (j * CHUNK_SIZE) (vf_buf f)) @
     replicate (nat (vf_width f) * nat (vf_height f) * 3 - j * CHUNK_SIZE) None"

definition filling :: "video_frame \<Rightarrow> u32 \<Rightarrow> nat \<Rightarrow> mcast_receiver \<Rightarrow> bool" where
  "filling f t j v \<longleftrightarrow> (\<exists>s. mr_slot v = [s, slot_zero, slot_zero] \<and>
     (if j = 0 then s = slot_zero
      else slot_stamp s = t \<and> pb_inf s = frame_description f \<and> pb_len s = of_nat (length (vf_buf f)) \<and> pb_count s = int j \<and>
        pb_buf s = Some (filled f j) \<and> pb_rdy s = (if j < announced f then 0 else 1)))"

definition large_frame :: "video_frame \<Rightarrow> bool" where
  "large_frame f \<longleftrightarrow> 256 * CHUNK_SIZE \<le> length (vf_buf f) \<and> 0 < announced f \<and>
     0 \<le> vf_width f \<and> vf_width f < 65536 \<and> 0 \<le> vf_height f \<and> vf_height f < 65536 \<and>
     length (vf_buf f) \<le> nat (vf_width f) * nat (vf_height f) * 3"

lemma fill_step:
  assumes "filling f t j v" "j < announced f" "large_frame f" "0 < t"
  shows "\<exists>v'. mcast_recv_packet_frame v (frame_packet f t j) = Some (if Suc j < announced f then 1 else 2, v') \<and> filling f t (Suc j) v'"
proof -
  let ?N = "nat (vf_width f) * nat (vf_height f) * 3"
  obtain s where s: "mr_slot v = [s, slot_zero, slot_zero]" "if j = 0 then s = slot_zero
      else slot_stamp s = t \<and> pb_inf s = frame_description f \<and> pb_len s = of_nat (length (vf_buf f)) \<and> pb_count s = int j \<and>
        pb_buf s = Some (filled f j) \<and> pb_rdy s = (if j < announced f then 0 else 1)" using assms(1) unfolding filling_def by blast
  have "announced f < 256" by (simp add: announced_def)
  then have j: "j < 256" using assms(2) by simp
  have z: "slot_stamp slot_zero = 0" "pb_count slot_zero = 0" "pb_buf slot_zero = None" "pb_rdy slot_zero = 0"
    by (simp_all add: slot_stamp_def slot_zero_def header_zero_def)
  have ch: "choose_slot t (mr_slot v) = (0, mr_slot v)"
    using s assms(4) z by (cases "j = 0") (simp_all add: choose_slot_def Let_def)
  have b: "(case pb_buf s of Some b \<Rightarrow> b | None \<Rightarrow> replicate ?N None) = filled f j" "pb_count s = int j" "pb_rdy s = 0"
    using s(2) z assms(2) by (auto simp: filled_def split: if_splits)
  have "Suc j * CHUNK_SIZE \<le> 256 * CHUNK_SIZE" using j by (intro mult_le_mono1) simp
  moreover have "256 * CHUNK_SIZE \<le> length (vf_buf f)" "length (vf_buf f) \<le> ?N" using assms(3) by (simp_all add: large_frame_def)
  ultimately have le: "Suc j * CHUNK_SIZE \<le> length (vf_buf f)" "Suc j * CHUNK_SIZE \<le> ?N" by linarith+
  have lf: "length (filled f j) = ?N" using le by (simp add: filled_def)
  have cd: "chunk_data (vf_buf f) j = take CHUNK_SIZE (drop (j * CHUNK_SIZE) (vf_buf f))"
    using le(1) by (simp add: chunk_data_def Let_def)
  have pre: "take (j * CHUNK_SIZE) (filled f j) = map Some (take (j * CHUNK_SIZE) (vf_buf f))"
    and post: "drop (Suc j * CHUNK_SIZE) (filled f j) = replicate (?N - Suc j * CHUNK_SIZE) None"
    using le by (simp_all add: filled_def)
  have "map Some (take (j * CHUNK_SIZE) (vf_buf f)) @ map Some (chunk_data (vf_buf f) j) = map Some (take (Suc j * CHUNK_SIZE) (vf_buf f))"
    using take_add [of "j * CHUNK_SIZE" CHUNK_SIZE "vf_buf f"] by (simp add: cd add.commute flip: map_append)
  then have data: "map Some (take (j * CHUNK_SIZE) (vf_buf f)) @ map Some (chunk_data (vf_buf f) j) @ r
      = map Some (take (Suc j * CHUNK_SIZE) (vf_buf f)) @ r" for r by (metis append_assoc)
  have "packet_get_data (frame_packet f t j) (filled f j) (CHUNK_SIZE * j)
    = Some (take (j * CHUNK_SIZE) (filled f j) @ map Some (chunk_data (vf_buf f) j) @ drop (Suc j * CHUNK_SIZE) (filled f j))"
    using le lf by (simp add: packet_get_data_def frame_packet_def mult.commute [of CHUNK_SIZE j] add.commute)
  then have put: "packet_get_data (frame_packet f t j) (filled f j) (CHUNK_SIZE * j) = Some (filled f (Suc j))"
    unfolding pre post data by (simp only: filled_def)
  have h: "ph_usec (pk_header (frame_packet f t j)) = t" "unat (ph_seq_num (pk_header (frame_packet f t j))) = j"
      "uint (ph_length (pk_header (frame_packet f t j))) = int (announced f)" "pk_info (frame_packet f t j) = frame_description f"
    using j by (simp_all add: frame_packet_def unsigned_of_nat take_bit_nat_eq_self announced_def take_bit_eq_mod)
  have w: "unat (fi_width (frame_description f)) * unat (fi_height (frame_description f)) * 3 = ?N"
    using assms(3) by (simp add: large_frame_def frame_description_def unsigned_of_int take_bit_int_eq_self)
  have l: "fi_len (frame_description f) = of_nat (length (vf_buf f))" by (simp add: frame_description_def)
  let ?full = "int j + 1 \<ge> int (announced f)"
  let ?s = "\<lparr>pb_hdr = pk_header (frame_packet f t j), pb_inf = frame_description f, pb_buf = Some (filled f (Suc j)),
     pb_len = of_nat (length (vf_buf f)), pb_count = int j + 1, pb_rdy = (if ?full then 1 else 0)\<rparr>"
  have "mcast_recv_packet_frame v (frame_packet f t j) = Some (if ?full then (2, v\<lparr>mr_slot := [?s, slot_zero, slot_zero], mr_last := t\<rparr>)
      else (1, v\<lparr>mr_slot := [?s, slot_zero, slot_zero]\<rparr>))"
    using put b(2,3) unfolding mcast_recv_packet_frame_def h Let_def w ch by (simp add: s(1) b(1) l)
  moreover have "filling f t (Suc j) v'" if "mr_slot v' = [?s, slot_zero, slot_zero]" for v'
    using that by (auto simp: filling_def slot_stamp_def h)
  moreover have "?full = (\<not> Suc j < announced f)" by auto
  ultimately show ?thesis by auto
qed

lemma fill_steps:
  assumes "filling f t j v" "j < announced f" "large_frame f" "0 < t"
  shows "\<exists>v'. receive_until v (map (frame_packet f t) [j..<announced f] @ rest) = Some (v', rest) \<and> filling f t (announced f) v'"
  using assms(1,2)
proof (induction "announced f - j" arbitrary: j v)
  case (Suc n)
  from fill_step [OF Suc.prems assms(3,4)] obtain v1 where
    v1: "mcast_recv_packet_frame v (frame_packet f t j) = Some (if Suc j < announced f then 1 else 2, v1)" "filling f t (Suc j) v1" by blast
  have l: "[j..<announced f] = j # [Suc j..<announced f]" using Suc.prems(2) by (rule upt_conv_Cons)
  show ?case
  proof (cases "Suc j < announced f")
    case True
    from Suc.hyps(1) [of "Suc j", OF _ v1(2) True] Suc.hyps(2) v1(1) True show ?thesis by (auto simp: l)
  next
    case False
    then have "announced f = Suc j" using Suc.prems(2) by simp
    then show ?thesis using v1 by (auto simp: l)
  qed
qed simp

text \<open>
  C30. Large frames are shown in part. A frame of more than 255 packets (a picture of 640 by 480 has them) is taken for complete after
  as many packets as the low byte of their number says: it is shown with its full length, although none of the bytes
  behind those packets has been received.
\<close>

theorem large_frame_shown_in_part:
  assumes "large_frame f" "\<forall>p. 0 < out p"
  shows "\<exists>ps v w h fmt b r rest. mcast_send_frame out now mcast_new_sender f (int (length (vf_buf f))) = Some (1, ps, v) \<and>
    length ps = chunks (length (vf_buf f)) \<and>
    mcast_recv_frame mcast_new_receiver ps = Some (Some (w, h, fmt, of_nat (length (vf_buf f)), Some b), r, rest) \<and>
    length rest = length ps - announced f \<and>
    (\<forall>i. announced f * CHUNK_SIZE \<le> i \<and> i < length (vf_buf f) \<longrightarrow> b ! i = None)"
proof -
  let ?n = "length (vf_buf f)" and ?q = "length (vf_buf f) div CHUNK_SIZE" and ?t = "ms_stamp mcast_new_sender + 1"
  have t: "0 < ?t" "?t \<noteq> 0xffff" by (simp_all add: mcast_new_sender_def)
  have "256 * CHUNK_SIZE div CHUNK_SIZE \<le> ?q" using assms(1) by (intro div_le_mono) (simp add: large_frame_def)
  then have q: "256 \<le> ?q" by simp
  have m: "0 < announced f" "announced f < 256" using assms(1) by (simp_all add: large_frame_def announced_def)
  have "256 * CHUNK_SIZE \<le> ?n" using assms(1) by (simp add: large_frame_def)
  then have big: "\<not> ?n \<le> CHUNK_SIZE" using chunk_size by linarith
  from send_large [OF assms(2) refl q m(1) refl, where t = ?t and x = 1 and y = 0 and z = 0] obtain more where
    more: "send_many out \<lparr>ph_flag = 1, ph_seq_num = 0, ph_usec = ?t, ph_timeout = of_int (vf_ms f * 1000), ph_length = 0\<rparr>
      (frame_description f) (vf_buf f) (int ?n) = Some (1, map (frame_packet f ?t) [0..<?q] @ more)" "length more = chunks ?n - ?q" by blast
  let ?ps = "map (frame_packet f ?t) [0..<?q] @ more"
  have send: "mcast_send_frame out now mcast_new_sender f (int ?n) = Some (1, ?ps, mcast_new_sender\<lparr>ms_stamp := ?t\<rparr>)"
    using more(1) big t(2) by (simp add: mcast_send_frame_def stamp_make_def packet_construct_header_def frame_description_def Let_def)
  have lps: "length ?ps = chunks ?n" using more(2) by (simp add: chunks_def)
  let ?rest = "map (frame_packet f ?t) [announced f..<?q] @ more"
  have split: "?ps = map (frame_packet f ?t) [0..<announced f] @ ?rest"
  proof -
    have "[0..<?q] = [0..<announced f] @ [announced f..<?q]" using upt_add_eq_append [of 0 "announced f" "?q - announced f"] m q by simp
    then show ?thesis by simp
  qed
  have clear: "clear_slots mcast_new_receiver = mcast_new_receiver"
    by (simp add: clear_slots_def mcast_new_receiver_def slot_zero_def slot_stamp_def header_zero_def)
  have "filling f ?t 0 mcast_new_receiver" by (simp add: filling_def mcast_new_receiver_def PACKET_SLOTS_def numeral_3_eq_3)
  from fill_steps [OF this m(1) assms(1) t(1), of ?rest] obtain v where
    v: "receive_until mcast_new_receiver ?ps = Some (v, ?rest)" "filling f ?t (announced f) v" unfolding split by blast
  obtain s where s: "mr_slot v = [s, slot_zero, slot_zero]" "pb_inf s = frame_description f" "pb_len s = of_nat ?n"
      "pb_buf s = Some (filled f (announced f))" "pb_rdy s = 1" using v(2) m(1) by (auto simp: filling_def)
  have "newest_slot (mr_slot v) = int 0"
    by (rule newest_only) (use s in \<open>auto simp: slot_zero_def nth_Cons' numeral_2_eq_2\<close>)
  then have recv: "mcast_recv_frame mcast_new_receiver ?ps = Some (Some (fi_width (frame_description f), fi_height (frame_description f),
      fi_fmt (frame_description f), of_nat ?n, Some (filled f (announced f))), v, ?rest)"
    using v(1) s clear by (simp add: mcast_recv_frame_def clear_slots_def)
  have "announced f * CHUNK_SIZE \<le> 256 * CHUNK_SIZE" using m(2) by (intro mult_le_mono1) simp
  then have "announced f * CHUNK_SIZE \<le> ?n" using \<open>256 * CHUNK_SIZE \<le> ?n\<close> by linarith
  moreover have "?n \<le> nat (vf_width f) * nat (vf_height f) * 3" using assms(1) by (simp add: large_frame_def)
  ultimately have "\<forall>i. announced f * CHUNK_SIZE \<le> i \<and> i < ?n \<longrightarrow> filled f (announced f) ! i = None"
    by (auto simp: filled_def nth_append)
  moreover have "length ?rest = length ?ps - announced f" using m(2) q by simp
  ultimately show ?thesis using send lps recv by blast
qed

text \<open>A picture of 640 by 480, with two bytes a pixel, is cut into 419 packets and taken for complete after 163.\<close>

definition vga_frame :: video_frame where
  "vga_frame = \<lparr>vf_format = 1, vf_width = 640, vf_height = 480, vf_buf = replicate 614400 (CHR ''x''), vf_ms = 40, vf_mode = 0\<rparr>"

theorem large_frame_shown_in_part_witness:
  "\<exists>ps v w h fmt b r rest. mcast_send_frame (\<lambda>_. 1) 0 mcast_new_sender vga_frame 614400 = Some (1, ps, v) \<and> length ps = 419 \<and>
    mcast_recv_frame mcast_new_receiver ps = Some (Some (w, h, fmt, 614400, Some b), r, rest) \<and> b ! 300000 = None"
proof -
  have n: "length (vf_buf vga_frame) = 614400" by (simp add: vga_frame_def del: replicate.simps)
  have c: "chunks 614400 = 419" by (simp add: chunks_def CHUNK_SIZE_def)
  have a: "announced vga_frame = 163" by (simp add: announced_def n c)
  have "large_frame vga_frame"
    by (simp add: large_frame_def n a CHUNK_SIZE_def) (simp add: vga_frame_def del: replicate.simps)
  from large_frame_shown_in_part [OF this, of "\<lambda>_. 1" 0] show ?thesis
    by (auto simp: n c a CHUNK_SIZE_def)
qed

end
