(* ===== verification/Recording.thy ===== *)
theory Recording
  imports SampleSwitch
begin

text \<open>
  Recording what is played (\<open>libsamplerec/samplerecord.c\<close>, the recording part of \<open>libstream/vj-tag.c\<close>, and of
  \<open>veejay/vj-perform.c\<close>): a recording encodes a given number of frames into a file. When the file is nearly full it is closed,
  added as a new sample, and the recording goes on in a further file.

  \<^item> \<open>recorder\<close> is the state of the server with what recording adds to it: the encoders in use, the files that are open and
    those that have been closed, and the settings.
  \<^item> Parameters, one record per call (\<open>rec_env\<close>): whether an encoder can be started and a file opened, what an encoder makes of the
    picture (nothing when it fails), what writing it answers, how many bytes are left in a file, and the list of frames that
    opening a closed file gives.
  \<^item> Sound and the pixel format are left out. A C string holds no zero byte.
\<close>

subsection \<open>State\<close>

record out_file =
  of_name :: string
  of_format :: char
  of_frames :: "string list"

record vj_frame =
  fr_len :: int
  fr_uv_len :: int
  fr_width :: int
  fr_height :: int

record rec_env =
  re_start :: "int \<Rightarrow> string \<Rightarrow> bool"
  re_open :: "string \<Rightarrow> char \<Rightarrow> bool"
  re_encode :: "int \<Rightarrow> int \<Rightarrow> string"
  re_write :: "string \<Rightarrow> int"
  re_remain :: "out_file \<Rightarrow> int"
  re_movie :: "string \<Rightarrow> (editlist \<times> lav_file) option"
  re_frame :: vj_frame
  re_output_height :: int
  re_audio :: bool
  re_tag_frame :: "int \<Rightarrow> int"
  re_time :: string
  re_play :: play_env

record recorder =
  rc_vj :: veejay
  rc_encoders :: "addr set"
  rc_files :: "addr \<rightharpoonup> out_file"
  rc_disk :: "out_file list"
  rc_format :: int
  rc_rec_id :: int
  rc_sample_record :: int
  rc_sample_record_id :: int
  rc_sample_record_switch :: int
  rc_render_list :: int
  rc_tag_record :: int
  rc_tag_record_switch :: int
  rc_offline_record :: int
  rc_offline_tag_id :: int
  rc_offline_created_sample :: int
  rc_use_osd :: int

definition rc_adm :: "recorder \<Rightarrow> adm" where "rc_adm r = vi_adm (rc_vj r)"

definition rc_set :: "adm \<Rightarrow> recorder \<Rightarrow> recorder" where
  "rc_set d r = r\<lparr>rc_vj := (rc_vj r)\<lparr>vi_adm := d\<rparr>\<rparr>"

definition on_rc :: "(adm \<Rightarrow> ('r \<times> adm) option) \<Rightarrow> recorder \<Rightarrow> ('r \<times> recorder) option" where
  "on_rc f r = do { (x, d) \<leftarrow> f (rc_adm r); Some (x, rc_set d r) }"

definition on_vj :: "(veejay \<Rightarrow> veejay option) \<Rightarrow> recorder \<Rightarrow> recorder option" where
  "on_vj f r = do { v \<leftarrow> f (rc_vj r); Some (r\<lparr>rc_vj := v\<rparr>) }"

definition with_rc_sample :: "recorder \<Rightarrow> int \<Rightarrow> 'r \<Rightarrow> (recorder \<Rightarrow> addr \<Rightarrow> sample_info \<Rightarrow> ('r \<times> recorder) option) \<Rightarrow>
    ('r \<times> recorder) option" where
  "with_rc_sample r s1 dflt k = do {
     (p, d) \<leftarrow> sample_get (rc_adm r) s1;
     case p of
       None \<Rightarrow> Some (dflt, rc_set d r)
     | Some a \<Rightarrow> (case ad_samples d a of None \<Rightarrow> dangling | Some si \<Rightarrow> k (rc_set d r) a si) }"

definition rc_put :: "addr \<Rightarrow> sample_info \<Rightarrow> recorder \<Rightarrow> recorder" where
  "rc_put a si r = rc_set (put_sample a si (rc_adm r)) r"

definition c_string :: "adm \<Rightarrow> addr option \<Rightarrow> string option" where
  "c_string d p = do { a \<leftarrow> p; ad_strs d a }"

subsection \<open>Formats\<close>

definition ENCODER_MJPEG :: int where "ENCODER_MJPEG = 0"
definition ENCODER_DVVIDEO :: int where "ENCODER_DVVIDEO = 1"
definition ENCODER_YUV420 :: int where "ENCODER_YUV420 = 4"
definition ENCODER_YUV422 :: int where "ENCODER_YUV422 = 5"
definition ENCODER_QUICKTIME_DV :: int where "ENCODER_QUICKTIME_DV = 6"
definition ENCODER_QUICKTIME_MJPEG :: int where "ENCODER_QUICKTIME_MJPEG = 7"
definition ENCODER_LZO :: int where "ENCODER_LZO = 8"
definition ENCODER_YUV420F :: int where "ENCODER_YUV420F = 9"
definition ENCODER_YUV422F :: int where "ENCODER_YUV422F = 10"
definition ENCODER_MJPEGB :: int where "ENCODER_MJPEGB = 11"
definition ENCODER_LJPEG :: int where "ENCODER_LJPEG = 12"
definition ENCODER_YUV4MPEG :: int where "ENCODER_YUV4MPEG = 13"
definition ENCODER_YUV4MPEG420 :: int where "ENCODER_YUV4MPEG420 = 14"
definition ENCODER_HUFFYUV :: int where "ENCODER_HUFFYUV = 15"
definition NUM_ENCODERS :: int where "NUM_ENCODERS = 16"

lemmas encoder_defs = ENCODER_MJPEG_def ENCODER_DVVIDEO_def ENCODER_YUV420_def ENCODER_YUV422_def ENCODER_QUICKTIME_DV_def
  ENCODER_QUICKTIME_MJPEG_def ENCODER_LZO_def ENCODER_YUV420F_def ENCODER_YUV422F_def ENCODER_MJPEGB_def ENCODER_LJPEG_def
  ENCODER_YUV4MPEG_def ENCODER_YUV4MPEG420_def ENCODER_HUFFYUV_def NUM_ENCODERS_def

text \<open>The container of a format; a zero byte when there is none.\<close>

definition vj_avcodec_find_lav :: "int \<Rightarrow> char" where
  "vj_avcodec_find_lav encoder =
     (if encoder = ENCODER_MJPEG \<or> encoder = ENCODER_HUFFYUV then CHR ''a''
      else if encoder = ENCODER_QUICKTIME_MJPEG then CHR ''q''
      else if encoder = ENCODER_DVVIDEO then CHR ''d''
      else if encoder = ENCODER_QUICKTIME_DV then CHR ''Q''
      else if encoder = ENCODER_MJPEGB then CHR ''c''
      else if encoder = ENCODER_LJPEG then CHR ''l''
      else if encoder = ENCODER_YUV420 then CHR ''Y''
      else if encoder = ENCODER_YUV422 then CHR ''P''
      else if encoder = ENCODER_YUV422F then CHR ''V''
      else if encoder = ENCODER_YUV420F then CHR ''v''
      else if encoder = ENCODER_LZO then CHR ''L''
      else if encoder = ENCODER_YUV4MPEG \<or> encoder = ENCODER_YUV4MPEG420 then CHR ''S''
      else CHR 0x00)"

text \<open>Only AVI files know how many bytes are left. The pointer to the file is not tested.\<close>

definition avi_formats :: string where "avi_formats = ''aAMPDvVYLld''"

definition lav_bytes_remain :: "rec_env \<Rightarrow> recorder \<Rightarrow> addr option \<Rightarrow> int option" where
  "lav_bytes_remain env r p =
     (case p of
        None \<Rightarrow> null_deref
      | Some a \<Rightarrow> (case rc_files r a of
                     None \<Rightarrow> dangling
                   | Some f \<Rightarrow> Some (if of_format f \<in> set avi_formats then re_remain env f else - 1)))"

definition available_diskspace :: int where "available_diskspace = 1"

definition sufficient_space :: "int \<Rightarrow> int \<Rightarrow> int" where "sufficient_space max_size nframes = available_diskspace"

subsection \<open>Encoders and files\<close>

definition vj_avcodec_start :: "rec_env \<Rightarrow> int \<Rightarrow> string \<Rightarrow> recorder \<Rightarrow> addr option \<times> recorder" where
  "vj_avcodec_start env format name r =
     (if re_start env format name
      then let (e, d) = ad_alloc (rc_adm r) in (Some e, (rc_set d r)\<lparr>rc_encoders := insert e (rc_encoders r)\<rparr>)
      else (None, r))"

definition vj_avcodec_close_encoder :: "addr option \<Rightarrow> recorder \<Rightarrow> recorder option" where
  "vj_avcodec_close_encoder p r =
     (case p of
        None \<Rightarrow> Some r
      | Some e \<Rightarrow> if e \<in> rc_encoders r then Some (r\<lparr>rc_encoders := rc_encoders r - {e}\<rparr>) else dangling)"

definition vj_avcodec_stop :: "addr option \<Rightarrow> int \<Rightarrow> recorder \<Rightarrow> recorder option" where
  "vj_avcodec_stop p fmt r = (if p = None \<or> fmt = 900 then Some r else vj_avcodec_close_encoder p r)"

definition lav_open_output_file :: "rec_env \<Rightarrow> string \<Rightarrow> char \<Rightarrow> recorder \<Rightarrow> addr option \<times> recorder" where
  "lav_open_output_file env name cformat r =
     (if re_open env name cformat
      then let (f, d) = ad_alloc (rc_adm r)
           in (Some f, (rc_set d r)\<lparr>rc_files := (rc_files r)(f \<mapsto> \<lparr>of_name = name, of_format = cformat, of_frames = []\<rparr>)\<rparr>)
      else (None, r))"

definition lav_write_frame :: "rec_env \<Rightarrow> addr \<Rightarrow> string \<Rightarrow> recorder \<Rightarrow> (int \<times> recorder) option" where
  "lav_write_frame env a buf r =
     (case rc_files r a of
        None \<Rightarrow> dangling
      | Some f \<Rightarrow> if re_write env buf \<noteq> 0 then Some (re_write env buf, r)
                  else Some (0, r\<lparr>rc_files := (rc_files r)(a \<mapsto> f\<lparr>of_frames := of_frames f @ [buf]\<rparr>)\<rparr>))"

text \<open>A file that is closed is on the disk.\<close>

definition lav_close :: "addr \<Rightarrow> recorder \<Rightarrow> recorder option" where
  "lav_close a r =
     (case rc_files r a of
        None \<Rightarrow> dangling
      | Some f \<Rightarrow> Some (r\<lparr>rc_files := (rc_files r)(a := None), rc_disk := rc_disk r @ [f]\<rparr>))"


subsection \<open>Recording a sample\<close>

definition sample_record_init :: "int \<Rightarrow> int" where "sample_record_init len = (if len \<le> 0 then 0 else 1)"

definition sample_get_num_encoded_files :: "adm \<Rightarrow> int \<Rightarrow> (int \<times> adm) option" where
  "sample_get_num_encoded_files d s1 = read_sample d s1 (- 1) si_sequence_num"

definition sample_get_encoder_format :: "adm \<Rightarrow> int \<Rightarrow> (int \<times> adm) option" where
  "sample_get_encoder_format d s1 = read_sample d s1 (- 1) si_encoder_format"

definition sample_get_encoded_frames :: "adm \<Rightarrow> int \<Rightarrow> (int \<times> adm) option" where
  "sample_get_encoded_frames d s1 = read_sample d s1 (- 1) si_encoder_total_frames_recorded"

definition sample_get_total_frames :: "adm \<Rightarrow> int \<Rightarrow> (int \<times> adm) option" where
  "sample_get_total_frames d s1 = read_sample d s1 (- 1) si_encoder_frames_to_record"

definition sample_get_frames_left :: "adm \<Rightarrow> int \<Rightarrow> (int \<times> adm) option" where
  "sample_get_frames_left d s1 =
     read_sample d s1 0 (\<lambda>si. si_encoder_frames_to_record si - si_encoder_total_frames_recorded si)"

definition sample_encoder_active :: "adm \<Rightarrow> int \<Rightarrow> (int \<times> adm) option" where
  "sample_encoder_active d s1 = read_sample d s1 0 si_encoder_active"

definition sample_reset_autosplit :: "adm \<Rightarrow> int \<Rightarrow> (int \<times> adm) option" where
  "sample_reset_autosplit d s1 = write_sample d s1 (- 1) 1 (\<lambda>si. si\<lparr>si_sequence_num := 0\<rparr>)"

definition sample_reset_encoder :: "adm \<Rightarrow> int \<Rightarrow> (unit \<times> adm) option" where
  "sample_reset_encoder d s1 = write_sample d s1 () () (\<lambda>si. si\<lparr>si_encoder_active := 0, si_encoder_format := 0,
     si_encoder_width := 0, si_encoder_height := 0, si_encoder_max_size := 0, si_encoder_file := None, si_encoder := None,
     si_encoder_total_frames_recorded := 0, si_encoder_frames_recorded := 0, si_encoder_frames_to_record := 0\<rparr>)"

text \<open>The name of the file; printing a null pointer is undefined.\<close>

definition sample_get_encoded_file :: "adm \<Rightarrow> int \<Rightarrow> ((int \<times> string option) \<times> adm) option" where
  "sample_get_encoded_file d s1 = with_sample d s1 (- 1, None) (\<lambda>d a si. do {
     t \<leftarrow> c_string d (si_encoder_destination si);
     Some ((1, Some t), d) })"

definition sample_get_sequenced_file :: "adm \<Rightarrow> int \<Rightarrow> int \<Rightarrow> string \<Rightarrow> ((int \<times> string option) \<times> adm) option" where
  "sample_get_sequenced_file d s1 num ext = with_sample d s1 (- 1, None) (\<lambda>d a si. do {
     t \<leftarrow> c_string d (si_encoder_destination si);
     Some ((1, Some (t @ ''-'' @ show_pad 5 num @ ''.'' @ ext)), d) })"

definition sample_ext :: "int \<Rightarrow> string" where
  "sample_ext format =
     (if format = ENCODER_DVVIDEO then ''dv''
      else if format = ENCODER_YUV4MPEG then ''yuv''
      else if format = ENCODER_QUICKTIME_MJPEG \<or> format = ENCODER_QUICKTIME_DV then ''mov''
      else ''avi'')"

text \<open>The name is cut after 31 characters, spaces become underscores, and the number of the file and the extension follow.\<close>

definition file_name :: "string \<Rightarrow> int \<Rightarrow> string \<Rightarrow> string" where
  "file_name base n ext =
     (let tmp = map (\<lambda>c. if c = CHR '' '' then CHR ''_'' else c) (take 31 base);
          est_len = length tmp + length tmp + 4 + 1 + 3 + 1 + 1
      in take (est_len - 1) (tmp @ ''-'' @ show_pad 4 n @ ''.'' @ ext))"

definition sample_try_filename :: "adm \<Rightarrow> int \<Rightarrow> string option \<Rightarrow> int \<Rightarrow> (int \<times> adm) option" where
  "sample_try_filename d s1 filename format = with_sample d s1 0 (\<lambda>d a si. do {
     let base = (case filename of None \<Rightarrow> ''Sample_'' @ show_pad 4 s1 | Some f \<Rightarrow> f);
     d \<leftarrow> free_ptr free_str (si_encoder_destination si) d;
     let (p, d) = strdup (file_name base (si_sequence_num si) (sample_ext format)) d;
     Some (1, put_sample a (si\<lparr>si_encoder_destination := Some p\<rparr>) d) })"

definition sample_max_size :: "int \<Rightarrow> vj_frame \<Rightarrow> int" where
  "sample_max_size format frame =
     (let tmp = fr_len frame; tmp1 = fr_uv_len frame
      in if format = ENCODER_YUV420 \<or> format = ENCODER_YUV420F then 2048 + tmp + tmp div 4 + tmp div 4
         else if format = ENCODER_YUV422 \<or> format = ENCODER_YUV422F \<or> format = ENCODER_YUV4MPEG then 2048 + tmp + tmp1 + tmp1
         else if format = ENCODER_LZO then tmp * 3
         else if format = ENCODER_DVVIDEO then (if fr_height frame = 480 then 120000 else 144000)
         else 8 * (16 * 65535))"

text \<open>The number of frames is set for the first file only. When the output file cannot be opened the sample stays active.\<close>

definition sample_start_encoder :: "rec_env \<Rightarrow> addr \<Rightarrow> sample_info \<Rightarrow> vj_frame \<Rightarrow> int \<Rightarrow> int \<Rightarrow> recorder \<Rightarrow> (int \<times> recorder) option" where
  "sample_start_encoder env a si frame format nframes r =
     (let cformat = vj_avcodec_find_lav format
      in if cformat = CHR 0x00 then Some (- 1, r)
         else do {
           name \<leftarrow> c_string (rc_adm r) (si_encoder_destination si);
           let (enc, r) = vj_avcodec_start env format name r;
           let si = si\<lparr>si_encoder := enc\<rparr>;
           if enc = None then Some (- 1, rc_put a si r)
           else do {
             let si = si\<lparr>si_encoder_active := 1, si_encoder_format := format,
                         si_encoder_frames_to_record :=
                           (if si_encoder_total_frames_recorded si = 0 then nframes else si_encoder_frames_to_record si),
                         si_encoder_frames_recorded := 0, si_encoder_max_size := sample_max_size format frame,
                         si_encoder_width := fr_width frame, si_encoder_height := fr_height frame\<rparr>;
             if sufficient_space (si_encoder_max_size si) nframes = 0
             then do {
               r \<leftarrow> vj_avcodec_close_encoder enc r;
               Some (- 1, rc_put a (si\<lparr>si_encoder := None, si_encoder_active := 0\<rparr>) r) }
             else if cformat \<noteq> CHR ''S''
             then let (f, r) = lav_open_output_file env name cformat r
                  in if f = None
                     then do {
                       r \<leftarrow> vj_avcodec_close_encoder enc r;
                       Some (- 1, rc_put a (si\<lparr>si_encoder_file := None, si_encoder := None\<rparr>) r) }
                     else Some (0, rc_put a (si\<lparr>si_encoder_file := f\<rparr>) r)
             else Some (0, rc_put a si r) } })"

definition sample_init_encoder :: "rec_env \<Rightarrow> int \<Rightarrow> string option \<Rightarrow> int \<Rightarrow> vj_frame option \<Rightarrow> addr option \<Rightarrow> int \<Rightarrow> recorder \<Rightarrow>
    (int \<times> recorder) option" where
  "sample_init_encoder env s1 filename format frame el nframes r = do {
     (x, r) \<leftarrow> on_rc (\<lambda>d. sample_try_filename d s1 filename format) r;
     if x = 0 then Some (- 1, r)
     else with_rc_sample r s1 (- 1) (\<lambda>r a si.
       if format < 0 \<or> format > NUM_ENCODERS then Some (- 1, r)
       else if nframes \<le> 0 then Some (- 1, r)
       else case (el, frame) of
         (Some e, Some fr) \<Rightarrow>
           if si_encoder_active si \<noteq> 0 then Some (- 1, r)
           else do {
             (x, r) \<leftarrow> sample_start_encoder env a si fr format nframes r;
             Some (if x = 0 then 1 else - 1, r) }
       | _ \<Rightarrow> Some (- 1, r)) }"

definition sample_continue_record :: "rec_env \<Rightarrow> int \<Rightarrow> recorder \<Rightarrow> (int \<times> recorder) option" where
  "sample_continue_record env s1 r = with_rc_sample r s1 (- 1) (\<lambda>r a si. do {
     bytes \<leftarrow> lav_bytes_remain env r (si_encoder_file si);
     if bytes \<ge> 0 \<and> bytes < 512 * 1024
     then Some (2, rc_put a (si\<lparr>si_sequence_num := si_sequence_num si + 1, si_encoder_frames_recorded := 0\<rparr>) r)
     else if si_encoder_total_frames_recorded si \<ge> si_encoder_frames_to_record si then Some (1, r)
     else Some (0, r) })"

text \<open>The encoder is used without a test; an encoder that has been closed is undefined. A frame that cannot be written ends the
  recording like the last one.\<close>

definition use_encoder :: "addr option \<Rightarrow> recorder \<Rightarrow> unit option" where
  "use_encoder p r = (case p of None \<Rightarrow> null_deref | Some e \<Rightarrow> if e \<in> rc_encoders r then Some () else dangling)"

definition count_frame :: "sample_info \<Rightarrow> sample_info" where
  "count_frame si = si\<lparr>si_encoder_frames_recorded := si_encoder_frames_recorded si + 1,
     si_encoder_total_frames_recorded := si_encoder_total_frames_recorded si + 1\<rparr>"

definition sample_record_frame :: "rec_env \<Rightarrow> int \<Rightarrow> recorder \<Rightarrow> (int \<times> recorder) option" where
  "sample_record_frame env s1 r = with_rc_sample r s1 (- 1) (\<lambda>r a si.
     if si_encoder_active si = 0 then Some (- 1, r)
     else do {
       use_encoder (si_encoder si) r;
       let buf = re_encode env (si_encoder_format si) (si_encoder_frames_recorded si);
       if buf = [] then Some (- 1, r)
       else case si_encoder_file si of
         None \<Rightarrow> sample_continue_record env s1 (rc_put a (count_frame si) r)
       | Some f \<Rightarrow> do {
           (e, r) \<leftarrow> lav_write_frame env f buf r;
           if e \<noteq> 0 then Some (1, r)
           else sample_continue_record env s1 (rc_put a (count_frame si) r) } })"

definition sample_stop_encoder :: "int \<Rightarrow> recorder \<Rightarrow> (int \<times> recorder) option" where
  "sample_stop_encoder s1 r = with_rc_sample r s1 (- 1) (\<lambda>r a si.
     if si_encoder_active si = 0 then Some (0, r)
     else do {
       r \<leftarrow> (case si_encoder_file si of None \<Rightarrow> Some r | Some f \<Rightarrow> lav_close f r);
       r \<leftarrow> vj_avcodec_stop (si_encoder si) (si_encoder_format si) r;
       Some (1, rc_put a (si\<lparr>si_encoder_active := 0, si_encoder_file := None, si_encoder := None\<rparr>) r) })"


subsection \<open>Recording a stream\<close>

definition vj_tag_get_num_encoded_files :: "adm \<Rightarrow> int \<Rightarrow> int" where
  "vj_tag_get_num_encoded_files d t1 = read_tag d t1 (- 1) tag_sequence_num"

definition vj_tag_get_encoder_format :: "adm \<Rightarrow> int \<Rightarrow> int" where
  "vj_tag_get_encoder_format d t1 = read_tag d t1 (- 1) tag_encoder_format"

definition vj_tag_get_encoded_frames :: "adm \<Rightarrow> int \<Rightarrow> int" where
  "vj_tag_get_encoded_frames d t1 = read_tag d t1 (- 1) tag_encoder_total_frames_recorded"

definition vj_tag_get_total_frames :: "adm \<Rightarrow> int \<Rightarrow> int" where
  "vj_tag_get_total_frames d t1 = read_tag d t1 (- 1) tag_encoder_frames_to_record"

definition vj_tag_get_frames_left :: "adm \<Rightarrow> int \<Rightarrow> int" where
  "vj_tag_get_frames_left d t1 =
     read_tag d t1 0 (\<lambda>t. tag_encoder_frames_to_record t - tag_encoder_total_frames_recorded t)"

definition vj_tag_encoder_active :: "adm \<Rightarrow> int \<Rightarrow> int" where
  "vj_tag_encoder_active d t1 = read_tag d t1 0 tag_encoder_active"

definition vj_tag_get_encoded_file :: "adm \<Rightarrow> int \<Rightarrow> string option" where
  "vj_tag_get_encoded_file d t1 = read_tag d t1 None (\<lambda>t. Some (tag_encoder_destination t))"

definition vj_tag_get_sequenced_file :: "adm \<Rightarrow> int \<Rightarrow> int \<Rightarrow> string \<Rightarrow> int \<times> string option" where
  "vj_tag_get_sequenced_file d t1 num ext =
     read_tag d t1 (- 1, None) (\<lambda>t. (1, Some (tag_encoder_destination t @ ''-'' @ show_pad 5 num @ ''.'' @ ext)))"

definition vj_tag_reset_autosplit :: "adm \<Rightarrow> int \<Rightarrow> int \<times> adm" where
  "vj_tag_reset_autosplit d t1 =
     write_tag d t1 (- 1) 1 (\<lambda>t. t\<lparr>tag_encoder_base := [], tag_encoder_destination := [], tag_sequence_num := 0\<rparr>)"

text \<open>The pointers to the encoder and the file are left as they are.\<close>

definition vj_tag_reset_encoder :: "adm \<Rightarrow> int \<Rightarrow> unit \<times> adm" where
  "vj_tag_reset_encoder d t1 = write_tag d t1 () () (\<lambda>t. t\<lparr>tag_encoder_format := 0, tag_encoder_width := 0,
     tag_encoder_height := 0, tag_encoder_max_size := 0, tag_encoder_active := 0, tag_encoder_total_frames_recorded := 0,
     tag_encoder_frames_to_record := 0, tag_encoder_frames_recorded := 0\<rparr>)"

definition tag_ext :: "int \<Rightarrow> string" where
  "tag_ext format =
     (if format = ENCODER_QUICKTIME_DV \<or> format = ENCODER_QUICKTIME_MJPEG then ''mov''
      else if format = ENCODER_YUV4MPEG then ''yuv''
      else if format = ENCODER_DVVIDEO then ''dv'' else ''avi'')"

text \<open>The first part of the name is kept, 254 characters of it; the whole has to fit the 256 bytes of its array.\<close>

definition vj_tag_try_filename :: "adm \<Rightarrow> int \<Rightarrow> string option \<Rightarrow> int \<Rightarrow> (int \<times> adm) option" where
  "vj_tag_try_filename d t1 filename format = read_tag d t1 (Some (0, d)) (\<lambda>t.
     let base = (case filename of None \<Rightarrow> tag_encoder_base t | Some f \<Rightarrow> take 254 f);
         dest = base @ ''-'' @ show_pad 4 (tag_sequence_num t) @ ''.'' @ tag_ext format
     in if length dest > 255 then out_of_bounds
        else Some (1, modify_tag d t1 (\<lambda>t. t\<lparr>tag_encoder_base := base, tag_encoder_destination := dest\<rparr>)))"

definition tag_max_size :: "int \<Rightarrow> vj_frame \<Rightarrow> int \<Rightarrow> int" where
  "tag_max_size format frame output_height =
     (let tmp = fr_len frame
      in if format = ENCODER_DVVIDEO then (if output_height = 480 then 120000 else 144000)
         else if format = ENCODER_YUV420 \<or> format = ENCODER_YUV420F then 2048 + tmp + tmp div 4 + tmp div 4
         else if format = ENCODER_YUV422 \<or> format = ENCODER_YUV422F \<or> format = ENCODER_YUV4MPEG then 2048 + tmp + tmp div 2 + tmp div 2
         else if format = ENCODER_LZO then tmp * 3
         else 4 * 65535)"

definition rc_tag :: "int \<Rightarrow> (vj_tag \<Rightarrow> vj_tag) \<Rightarrow> recorder \<Rightarrow> recorder" where
  "rc_tag t1 f r = rc_set (modify_tag (rc_adm r) t1 f) r"

definition vj_tag_start_encoder :: "rec_env \<Rightarrow> int \<Rightarrow> vj_tag \<Rightarrow> int \<Rightarrow> int \<Rightarrow> recorder \<Rightarrow> (int \<times> recorder) option" where
  "vj_tag_start_encoder env t1 t format nframes r =
     (let cformat = vj_avcodec_find_lav format;
          name = tag_encoder_destination t;
          (enc, r) = vj_avcodec_start env format name r;
          r = rc_tag t1 (tag_encoder_update (\<lambda>_. enc)) r
      in if enc = None then Some (0, r)
         else do {
           let size = tag_max_size format (re_frame env) (re_output_height env);
           let r = rc_tag t1 (\<lambda>t. t\<lparr>tag_encoder_active := 1, tag_encoder_format := format, tag_encoder_max_size := size,
                   tag_encoder_frames_to_record :=
                     (if tag_encoder_total_frames_recorded t = 0 then nframes else tag_encoder_frames_to_record t),
                   tag_encoder_frames_recorded := 0\<rparr>) r;
           if sufficient_space size nframes = 0
           then do {
             r \<leftarrow> vj_avcodec_close_encoder enc r;
             Some (0, rc_tag t1 (\<lambda>t. t\<lparr>tag_encoder_active := 0, tag_encoder := None\<rparr>) r) }
           else do {
             let (f, r) = (if cformat \<noteq> CHR ''S''
                           then let (f, r) = lav_open_output_file env name cformat r
                                in (f, rc_tag t1 (tag_encoder_file_update (\<lambda>_. f)) r)
                           else (None, r));
             if cformat \<noteq> CHR ''S'' \<and> f = None
             then do {
               r \<leftarrow> vj_avcodec_close_encoder enc r;
               Some (0, rc_tag t1 (\<lambda>t. t\<lparr>tag_encoder := None, tag_encoder_active := 0\<rparr>) r) }
             else Some (1, rc_tag t1 (\<lambda>t. t\<lparr>tag_encoder_width := fr_width (re_frame env),
                                          tag_encoder_height := fr_height (re_frame env)\<rparr>) r) } })"

definition vj_tag_init_encoder :: "rec_env \<Rightarrow> int \<Rightarrow> string option \<Rightarrow> int \<Rightarrow> int \<Rightarrow> recorder \<Rightarrow> (int \<times> recorder) option" where
  "vj_tag_init_encoder env t1 filename format nframes r =
     read_tag (rc_adm r) t1 (Some (0, r)) (\<lambda>t.
       if tag_encoder_active t \<noteq> 0 then Some (0, r)
       else do {
         (x, r) \<leftarrow> on_rc (\<lambda>d. vj_tag_try_filename d t1 filename format) r;
         if x = 0 then Some (0, r)
         else if nframes \<le> 0 then Some (0, r)
         else do {
           t \<leftarrow> vj_tag_get (rc_adm r) t1;
           vj_tag_start_encoder env t1 t format nframes r } })"

definition vj_tag_continue_record :: "rec_env \<Rightarrow> int \<Rightarrow> recorder \<Rightarrow> (int \<times> recorder) option" where
  "vj_tag_continue_record env t1 r = read_tag (rc_adm r) t1 (Some (- 1, r)) (\<lambda>t. do {
     bytes \<leftarrow> lav_bytes_remain env r (tag_encoder_file t);
     if bytes \<ge> 0 \<and> bytes < 512 * 1024
     then Some (2, rc_tag t1 (\<lambda>t. t\<lparr>tag_sequence_num := tag_sequence_num t + 1, tag_encoder_frames_recorded := 0\<rparr>) r)
     else if tag_encoder_total_frames_recorded t \<ge> tag_encoder_frames_to_record t then Some (1, r)
     else Some (0, r) })"

definition count_tag_frame :: "vj_tag \<Rightarrow> vj_tag" where
  "count_tag_frame t = t\<lparr>tag_encoder_frames_recorded := tag_encoder_frames_recorded t + 1,
     tag_encoder_total_frames_recorded := tag_encoder_total_frames_recorded t + 1\<rparr>"

definition vj_tag_record_frame :: "rec_env \<Rightarrow> int \<Rightarrow> recorder \<Rightarrow> (int \<times> recorder) option" where
  "vj_tag_record_frame env t1 r = read_tag (rc_adm r) t1 (Some (- 1, r)) (\<lambda>t.
     if tag_encoder_active t = 0 then Some (- 1, r)
     else do {
       use_encoder (tag_encoder t) r;
       let buf = re_encode env (tag_encoder_format t) (tag_encoder_frames_recorded t);
       if buf = [] then Some (- 1, r)
       else case tag_encoder_file t of
         None \<Rightarrow> vj_tag_continue_record env t1 (rc_tag t1 count_tag_frame r)
       | Some f \<Rightarrow> do {
           (e, r) \<leftarrow> lav_write_frame env f buf r;
           if e \<noteq> 0 then Some (- 1, r)
           else vj_tag_continue_record env t1 (rc_tag t1 count_tag_frame r) } })"

definition vj_tag_stop_encoder :: "int \<Rightarrow> recorder \<Rightarrow> (int \<times> recorder) option" where
  "vj_tag_stop_encoder t1 r = read_tag (rc_adm r) t1 (Some (- 1, r)) (\<lambda>t.
     if tag_encoder_active t = 0 then Some (0, r)
     else do {
       r \<leftarrow> (case tag_encoder_file t of None \<Rightarrow> Some r | Some f \<Rightarrow> lav_close f r);
       r \<leftarrow> vj_avcodec_stop (tag_encoder t) (tag_encoder_format t) r;
       Some (1, rc_tag t1 (\<lambda>t. t\<lparr>tag_encoder := None, tag_encoder_file := None, tag_encoder_active := 0\<rparr>) r) })"


subsection \<open>A recorded file as a new sample\<close>

text \<open>Opening a video file gives a list that refers to the file.\<close>

definition open_movie :: "rec_env \<Rightarrow> string \<Rightarrow> adm \<Rightarrow> addr option \<times> adm" where
  "open_movie env name d =
     (case re_movie env name of
        None \<Rightarrow> (None, d)
      | Some (el, f) \<Rightarrow>
          let (fd, d) = ad_alloc d; (e, d) = ad_alloc d
          in (Some e, d\<lparr>ad_lav := (ad_lav d)(fd \<mapsto> f), ad_els := (ad_els d)(e \<mapsto> el\<lparr>el_lav_fd := [0 \<mapsto> fd]\<rparr>)\<rparr>))"

definition silence :: "bool \<Rightarrow> editlist \<Rightarrow> editlist \<Rightarrow> editlist" where
  "silence play pl el =
     (if el_has_audio pl \<noteq> 0 \<and> play \<and>
         (el_audio_rate el \<noteq> el_audio_rate pl \<or> el_audio_chans el \<noteq> el_audio_chans pl \<or> el_audio_bits el \<noteq> el_audio_bits pl \<or>
          el_audio_bps el \<noteq> el_audio_bps pl)
      then el\<lparr>el_has_audio := 0, el_audio_chans := 0, el_audio_rate := 0, el_audio_bps := 0, el_audio_bits := 0\<rparr> else el)"

text \<open>The case of a new sample; its identifier, or -1.\<close>

definition veejay_edit_addmovie_sample :: "rec_env \<Rightarrow> string \<Rightarrow> recorder \<Rightarrow> (int \<times> recorder) option" where
  "veejay_edit_addmovie_sample env movie r =
     (let (p, d) = open_movie env movie (rc_adm r)
      in case p of
           None \<Rightarrow> Some (- 1, r)
         | Some e \<Rightarrow> do {
             pl \<leftarrow> ad_els d (vi_edit_list (rc_vj r));
             el \<leftarrow> ad_els d e;
             let el = silence (re_audio env) pl el;
             let d = d\<lparr>ad_els := (ad_els d)(e \<mapsto> el)\<rparr>;
             (skel, d) \<leftarrow> sample_skeleton_new d 0 (sint (el_total_frames el));
             case skel of
               None \<Rightarrow> Some (- 1, rc_set d r)
             | Some a \<Rightarrow> do {
                 si \<leftarrow> ad_samples d a;
                 (x, d) \<leftarrow> sample_store (put_sample a (si\<lparr>si_edit_list := Some e\<rparr>) d) skel;
                 si \<leftarrow> ad_samples d a;
                 let d = put_sample a (si\<lparr>si_speed := st_current_playback_speed (rc_vj r)\<rparr>) d;
                 Some (si_sample_id si, rc_set d r) } })"

definition is_y4m :: "recorder \<Rightarrow> bool" where
  "is_y4m r \<longleftrightarrow> rc_format r = ENCODER_YUV4MPEG \<or> rc_format r = ENCODER_YUV4MPEG420"

definition add_recorded :: "rec_env \<Rightarrow> string \<Rightarrow> recorder \<Rightarrow> (int \<times> recorder) option" where
  "add_recorded env name r = do {
     (k, r) \<leftarrow> (if is_y4m r
                then do {
                  (k, v) \<leftarrow> veejay_create_tag (re_play env) (rc_vj r) VJ_TAG_TYPE_YUV4MPEG (Some name) (vi_nstreams (rc_vj r)) 0 0;
                  Some (k, r\<lparr>rc_vj := v\<rparr>) }
                else veejay_edit_addmovie_sample env name r);
     Some (if k \<le> 0 then 0 else k, r) }"

text \<open>The stream that is recorded.\<close>

definition rec_stream :: "recorder \<Rightarrow> int" where
  "rec_stream r = (if rc_offline_record r \<noteq> 0 then rc_offline_tag_id r else uc_sample_id (rc_vj r))"

text \<open>A sample that does not exist answers -1, which counts as true: the name is not initialised then.\<close>

definition vj_perform_record_commit_single :: "rec_env \<Rightarrow> recorder \<Rightarrow> (int \<times> recorder) option" where
  "vj_perform_record_commit_single env r =
     (if uc_playback_mode (rc_vj r) = VJ_PLAYBACK_MODE_SAMPLE
      then do {
        ((x, name), r) \<leftarrow> on_rc (\<lambda>d. sample_get_encoded_file d (uc_sample_id (rc_vj r))) r;
        name \<leftarrow> name;
        add_recorded env name r }
      else if uc_playback_mode (rc_vj r) = VJ_PLAYBACK_MODE_TAG
      then (case vj_tag_get_encoded_file (rc_adm r) (rec_stream r) of
              None \<Rightarrow> Some (0, r)
            | Some name \<Rightarrow> add_recorded env name r)
      else Some (0, r))"

definition play_newest :: "rec_env \<Rightarrow> recorder \<Rightarrow> recorder option" where
  "play_newest env = on_vj (\<lambda>v. veejay_set_sample (re_play env) v (sample_size (vi_adm v) - 1))"

definition vj_perform_record_stop :: "rec_env \<Rightarrow> recorder \<Rightarrow> recorder option" where
  "vj_perform_record_stop env r =
     (if uc_playback_mode (rc_vj r) = VJ_PLAYBACK_MODE_SAMPLE
      then do {
        (x, r) \<leftarrow> on_rc (\<lambda>d. sample_reset_encoder d (uc_sample_id (rc_vj r))) r;
        (x, r) \<leftarrow> on_rc (\<lambda>d. sample_reset_autosplit d (uc_sample_id (rc_vj r))) r;
        r \<leftarrow> (if rc_sample_record r \<noteq> 0 \<and> rc_sample_record_switch r \<noteq> 0 \<and> \<not> is_y4m r then play_newest env r else Some r);
        Some (r\<lparr>rc_sample_record := 0, rc_sample_record_id := 0, rc_sample_record_switch := 0, rc_render_list := 0\<rparr>) }
      else if uc_playback_mode (rc_vj r) = VJ_PLAYBACK_MODE_TAG
      then do {
        let k = rec_stream r;
        let play = (if rc_offline_record r \<noteq> 0 then rc_offline_created_sample r else rc_tag_record_switch r);
        let r = rc_set (snd (vj_tag_reset_encoder (rc_adm r) k)) r;
        let r = rc_set (snd (vj_tag_reset_autosplit (rc_adm r) k)) r;
        let r = (if rc_offline_record r \<noteq> 0
                 then r\<lparr>rc_offline_record := 0, rc_offline_created_sample := 0, rc_offline_tag_id := 0\<rparr>
                 else r\<lparr>rc_tag_record := 0, rc_tag_record_switch := 0\<rparr>);
        if play \<noteq> 0 \<and> \<not> is_y4m r
        then play_newest env (r\<lparr>rc_vj := (rc_vj r)\<lparr>uc_playback_mode := VJ_PLAYBACK_MODE_SAMPLE\<rparr>\<rparr>) else Some r }
      else Some r)"

subsection \<open>Recording from frame to frame\<close>

definition sequence_done :: "recorder \<Rightarrow> recorder" where
  "sequence_done r = (if seq_active (rc_vj r) \<noteq> 0 \<and> rc_rec_id r \<noteq> 0 then r\<lparr>rc_rec_id := 0\<rparr> else r)"

text \<open>The file is full: it is added as a sample, and what is left goes to a further file.\<close>

definition split_sample_file :: "rec_env \<Rightarrow> int \<Rightarrow> recorder \<Rightarrow> recorder option" where
  "split_sample_file env s1 r = do {
     (frames_left, r) \<leftarrow> on_rc (\<lambda>d. sample_get_frames_left d s1) r;
     (x, r) \<leftarrow> sample_stop_encoder s1 r;
     (n, r) \<leftarrow> vj_perform_record_commit_single env r;
     if frames_left > 0
     then do {
       (x, r) \<leftarrow> sample_init_encoder env s1 None (rc_format r) (Some (re_frame env)) (vi_current_edit_list (rc_vj r)) frames_left r;
       Some r }
     else do {
       (x, r) \<leftarrow> on_rc (\<lambda>d. sample_reset_encoder d s1) r;
       (x, r) \<leftarrow> on_rc (\<lambda>d. sample_reset_autosplit d s1) r;
       Some r } }"

definition vj_perform_record_sample_frame :: "rec_env \<Rightarrow> int \<Rightarrow> recorder \<Rightarrow> recorder option" where
  "vj_perform_record_sample_frame env s1 r = do {
     (res, r) \<leftarrow> (if available_diskspace \<noteq> 0 then sample_record_frame env s1 r else Some (1, r));
     if res = 2 then split_sample_file env s1 r
     else if res = 1
     then do {
       (x, r) \<leftarrow> sample_stop_encoder s1 (sequence_done r);
       (n, r) \<leftarrow> vj_perform_record_commit_single env r;
       vj_perform_record_stop env r }
     else if res = - 1
     then do {
       (x, r) \<leftarrow> sample_stop_encoder s1 (sequence_done r);
       vj_perform_record_stop env r }
     else Some r }"

definition vj_perform_render_tag_frame :: "rec_env \<Rightarrow> recorder \<Rightarrow> (int \<times> recorder) option" where
  "vj_perform_render_tag_frame env r =
     (if rc_offline_record r \<noteq> 0 \<and> re_tag_frame env (rec_stream r) = 0 then Some (0, r)
      else vj_tag_record_frame env (rec_stream r) r)"

definition split_tag_file :: "rec_env \<Rightarrow> int \<Rightarrow> recorder \<Rightarrow> recorder option" where
  "split_tag_file env k r = do {
     let frames_left = vj_tag_get_frames_left (rc_adm r) k;
     (x, r) \<leftarrow> vj_tag_stop_encoder k r;
     (n, r) \<leftarrow> vj_perform_record_commit_single env r;
     let r = rc_set (snd (vj_tag_reset_encoder (rc_adm r) k)) r;
     if frames_left > 0
     then do { (x, r) \<leftarrow> vj_tag_init_encoder env k None (rc_format r) frames_left r; Some r }
     else do {
       let r = rc_set (snd (vj_tag_reset_encoder (rc_adm r) k)) r;
       Some (rc_set (snd (vj_tag_reset_autosplit (rc_adm r) k)) r) } }"

definition vj_perform_record_tag_frame :: "rec_env \<Rightarrow> recorder \<Rightarrow> recorder option" where
  "vj_perform_record_tag_frame env r = do {
     let k = rec_stream r;
     (res, r) \<leftarrow> (if available_diskspace \<noteq> 0 then vj_perform_render_tag_frame env r else Some (1, r));
     if res = 2 then split_tag_file env k r
     else if res = 1
     then do {
       (x, r) \<leftarrow> vj_tag_stop_encoder k r;
       (n, r) \<leftarrow> vj_perform_record_commit_single env r;
       vj_perform_record_stop env r }
     else if res = - 1
     then do { (x, r) \<leftarrow> vj_tag_stop_encoder k r; vj_perform_record_stop env r }
     else Some r }"

text \<open>Which sample is recorded when a sequence is, and whether there is anything to record.\<close>

definition vj_perform_record_frame :: "rec_env \<Rightarrow> recorder \<Rightarrow> recorder option" where
  "vj_perform_record_frame env r =
     (let v = rc_vj r;
          which_sample = (if seq_active v \<noteq> 0 \<and> rc_rec_id r \<noteq> 0 \<and> uc_playback_mode v = VJ_PLAYBACK_MODE_SAMPLE
                          then rc_rec_id r else uc_sample_id v)
      in if uc_playback_mode v = VJ_PLAYBACK_MODE_TAG then vj_perform_record_tag_frame env r
         else if uc_playback_mode v = VJ_PLAYBACK_MODE_SAMPLE then vj_perform_record_sample_frame env which_sample r
         else Some r)"

text \<open>The switch is read when the frame is queued; for a sample that does not exist it is 0.\<close>

definition enc_active :: "recorder \<Rightarrow> (bool \<times> recorder) option" where
  "enc_active r =
     (let v = rc_vj r
      in if uc_playback_mode v = VJ_PLAYBACK_MODE_SAMPLE
         then do {
           ((x, vars), r) \<leftarrow> on_rc (\<lambda>d. sample_var d (uc_sample_id v)) r;
           let enc = (case vars of None \<Rightarrow> 0 | Some (ty, fd, fx, enc, act) \<Rightarrow> enc);
           Some (seq_active v \<noteq> 0 \<and> rc_rec_id r \<noteq> 0 \<or> enc \<noteq> 0, r) }
         else if uc_playback_mode v = VJ_PLAYBACK_MODE_TAG
         then Some (case snd (vj_tag_var (rc_adm r) (uc_sample_id v)) of None \<Rightarrow> False | Some (ty, fd, fx, enc, act) \<Rightarrow> enc \<noteq> 0, r)
         else Some (False, r))"

definition vj_perform_record_video_frame :: "rec_env \<Rightarrow> recorder \<Rightarrow> recorder option" where
  "vj_perform_record_video_frame env r = do {
     (enc, r) \<leftarrow> enc_active r;
     if enc then vj_perform_record_frame env r else Some r }"


subsection \<open>Starting and stopping\<close>

text \<open>The handlers, with their arguments already read. The time of day is part of the name.\<close>

definition veejay_create_temp_file :: "rec_env \<Rightarrow> string \<Rightarrow> string" where
  "veejay_create_temp_file env prefix = prefix @ ''_'' @ re_time env"

fun longest_sequence :: "int list \<Rightarrow> int \<Rightarrow> adm \<Rightarrow> (int \<times> adm) option" where
  "longest_sequence [] n d = Some (n, d)"
| "longest_sequence (k # ks) n d = do { (m, d) \<leftarrow> sample_get_longest d k; longest_sequence ks (n + m) d }"

fun first_existing :: "int list \<Rightarrow> adm \<Rightarrow> (int \<times> adm) option" where
  "first_existing [] d = Some (0, d)"
| "first_existing (k # ks) d = do { (x, d) \<leftarrow> sample_exists d k; if x \<noteq> 0 then Some (k, d) else first_existing ks d }"

definition sequence_slots :: "recorder \<Rightarrow> int list" where
  "sequence_slots r = take (nat MAX_SEQUENCES) (seq_samples (rc_vj r))"

definition rewind :: "recorder \<Rightarrow> recorder option" where
  "rewind r = do {
     (start, r) \<leftarrow> on_rc (\<lambda>d. sample_get_startFrame d (uc_sample_id (rc_vj r))) r;
     on_vj (\<lambda>v. map_option snd (veejay_set_frame v start)) r }"

definition start_sequence :: "rec_env \<Rightarrow> recorder \<Rightarrow> recorder option" where
  "start_sequence env r = do {
     (start_at, r) \<leftarrow> on_rc (first_existing (sequence_slots r)) r;
     let r = r\<lparr>rc_rec_id := uc_sample_id (rc_vj r)\<rparr>;
     if start_at = uc_sample_id (rc_vj r) then rewind r
     else on_vj (\<lambda>v. veejay_change_playback_mode (re_play env) v VJ_PLAYBACK_MODE_SAMPLE start_at) r }"

definition vj_event_sample_rec_start :: "rec_env \<Rightarrow> int \<Rightarrow> int \<Rightarrow> recorder \<Rightarrow> recorder option" where
  "vj_event_sample_rec_start env num autoplay r =
     (let k = uc_sample_id (rc_vj r); seq = (seq_active (rc_vj r) \<noteq> 0)
      in if uc_playback_mode (rc_vj r) \<noteq> VJ_PLAYBACK_MODE_SAMPLE \<or> rc_format r = - 1 then Some r
         else if seq \<and> rc_rec_id r \<noteq> 0 then Some r
         else do {
           (prefix, r) \<leftarrow> (if seq then Some (''sequence_'', r)
                          else do { ((x, t), r) \<leftarrow> on_rc (\<lambda>d. sample_get_description d k) r; t \<leftarrow> t; Some (t, r) });
           let name = veejay_create_temp_file env prefix;
           (n, r) \<leftarrow> (if num \<noteq> 0 then Some (num, r)
                     else if seq then on_rc (longest_sequence (sequence_slots r) 0) r
                     else on_rc (\<lambda>d. sample_get_longest d k) r);
           if n \<le> 1 then Some r
           else do {
             (x, r) \<leftarrow> sample_init_encoder env k (Some name) (rc_format r) (Some (re_frame env)) (vi_current_edit_list (rc_vj r)) n r;
             if x \<noteq> 1
             then do { (x, r) \<leftarrow> sample_stop_encoder k r; Some (r\<lparr>rc_sample_record := 0\<rparr>) }
             else do {
               let r = r\<lparr>rc_sample_record_id := k, rc_sample_record_switch := autoplay, rc_use_osd := 0, rc_sample_record := 1\<rparr>;
               if seq then start_sequence env r
               else do { r \<leftarrow> rewind r; Some (r\<lparr>rc_rec_id := 0\<rparr>) } } } })"

definition vj_event_sample_rec_stop :: "rec_env \<Rightarrow> recorder \<Rightarrow> recorder option" where
  "vj_event_sample_rec_stop env r =
     (if uc_playback_mode (rc_vj r) \<noteq> VJ_PLAYBACK_MODE_SAMPLE then Some r
      else do {
        let k = (if seq_active (rc_vj r) \<noteq> 0 \<and> rc_rec_id r \<noteq> 0 then rc_rec_id r else uc_sample_id (rc_vj r));
        (x, r) \<leftarrow> sample_stop_encoder k r;
        if x \<noteq> 1 then Some r
        else do {
          let r = r\<lparr>rc_sample_record := 0\<rparr>;
          ((x, name), r) \<leftarrow> on_rc (\<lambda>d. sample_get_encoded_file d k) r;
          case name of
            None \<Rightarrow> Some r
          | Some name \<Rightarrow> do {
              (ns, r) \<leftarrow> veejay_edit_addmovie_sample env name r;
              (x, r) \<leftarrow> on_rc (\<lambda>d. sample_reset_encoder d k) r;
              let switch = rc_sample_record_switch r;
              let r = r\<lparr>rc_sample_record := 0, rc_sample_record_id := 0, rc_rec_id := 0, rc_sample_record_switch := 0\<rparr>;
              if switch \<noteq> 0 \<and> ns > 0
              then on_vj (\<lambda>v. veejay_change_playback_mode (re_play env) v VJ_PLAYBACK_MODE_SAMPLE ns) r
              else Some r } } })"

definition vj_event_tag_record :: "rec_env \<Rightarrow> int \<Rightarrow> int \<Rightarrow> recorder \<Rightarrow> recorder option" where
  "vj_event_tag_record env num autoplay r =
     (let k = uc_sample_id (rc_vj r)
      in if uc_playback_mode (rc_vj r) \<noteq> VJ_PLAYBACK_MODE_TAG \<or> num \<le> 0 \<or> autoplay < 0 \<or> autoplay > 1 then Some r
         else do {
           sourcename \<leftarrow> snd (vj_tag_get_description (rc_adm r) k);
           let prefix = sourcename @ ''-'' @ show_pad 2 k @ ''-'';
           let name = veejay_create_temp_file env prefix;
           if rc_format r = - 1 \<or> num \<le> 1 then Some r
           else do {
             (x, r) \<leftarrow> vj_tag_init_encoder env k (Some name) (rc_format r) num r;
             if x \<le> 0
             then do { (x, r) \<leftarrow> vj_tag_stop_encoder k r; Some (r\<lparr>rc_tag_record := 0\<rparr>) }
             else Some (r\<lparr>rc_use_osd := 0, rc_tag_record_switch := (if autoplay = 0 then 0 else 1), rc_tag_record := 1\<rparr>) } })"

definition vj_event_tag_rec_stop :: "rec_env \<Rightarrow> recorder \<Rightarrow> recorder option" where
  "vj_event_tag_rec_stop env r =
     (let k = uc_sample_id (rc_vj r); play_now = rc_tag_record_switch r
      in if uc_playback_mode (rc_vj r) \<noteq> VJ_PLAYBACK_MODE_TAG \<or> rc_tag_record r = 0 then Some r
         else do {
           (x, r) \<leftarrow> vj_tag_stop_encoder k r;
           if x = 0 then Some r
           else case vj_tag_get_encoded_file (rc_adm r) k of
             None \<Rightarrow> Some r
           | Some name \<Rightarrow> do {
               (ns, r) \<leftarrow> veejay_edit_addmovie_sample env name r;
               let r = rc_set (snd (vj_tag_reset_encoder (rc_adm r) k)) r;
               let r = r\<lparr>rc_tag_record := 0, rc_tag_record_switch := 0\<rparr>;
               if play_now \<noteq> 0
               then on_vj (\<lambda>v. veejay_change_playback_mode (re_play env) v VJ_PLAYBACK_MODE_SAMPLE (sample_size (vi_adm v) - 1)) r
               else Some r } })"

definition vj_event_tag_rec_offline_start :: "rec_env \<Rightarrow> int \<Rightarrow> int \<Rightarrow> int \<Rightarrow> recorder \<Rightarrow> recorder option" where
  "vj_event_tag_rec_offline_start env k num autoplay r =
     (if rc_offline_record r \<noteq> 0 \<or> rc_tag_record r \<noteq> 0 then Some r
      else if uc_playback_mode (rc_vj r) = VJ_PLAYBACK_MODE_TAG \<and> k = uc_sample_id (rc_vj r)
      then vj_event_tag_record env num autoplay r
      else if vj_tag_exists (rc_adm r) k = 0 then Some r
      else do {
        let name = veejay_create_temp_file env (''stream-'' @ show_pad 2 k);
        if rc_format r = - 1 then Some r
        else do {
          (x, r) \<leftarrow> vj_tag_init_encoder env k (Some name) (rc_format r) num r;
          Some (if x \<noteq> 0 then r\<lparr>rc_offline_record := 1, rc_offline_tag_id := k, rc_offline_created_sample := autoplay\<rparr> else r) } })"

text \<open>The test of the answer is the wrong way round: the file is looked for when there was no recording, and then under the
  stream that is played; when there is one, nothing is added.\<close>

definition vj_event_tag_rec_offline_stop :: "rec_env \<Rightarrow> recorder \<Rightarrow> recorder option" where
  "vj_event_tag_rec_offline_stop env r =
     (if rc_offline_record r = 0 then Some r
      else do {
        (x, r) \<leftarrow> vj_tag_stop_encoder (rc_offline_tag_id r) r;
        if x = 0 \<and> vj_tag_get_encoded_file (rc_adm r) (uc_sample_id (rc_vj r)) \<noteq> None then Some r
        else if x = 0 then c_undefined
        else Some (r\<lparr>rc_offline_record := 0, rc_offline_tag_id := 0, rc_offline_created_sample := 0\<rparr>) })"


subsection \<open>What recording leaves alone\<close>

text \<open>The addresses of lists and strings have been handed out.\<close>

definition below :: "adm \<Rightarrow> bool" where
  "below d \<longleftrightarrow> (\<forall>a el. ad_els d a = Some el \<longrightarrow> a < ad_next d) \<and> (\<forall>a t. ad_strs d a = Some t \<longrightarrow> a < ad_next d)"

lemma below_memo [simp]: "below (memo_sample d k) = below d" "below (put_sample a si d) = below d"
  by (simp_all add: below_def put_sample_def)

text \<open>\<open>keeps i k si d d'\<close>: at most \<open>i\<close> samples were added, sample \<open>k\<close> is \<open>si\<close> afterwards and the others are as they were.\<close>

definition keeps :: "nat \<Rightarrow> int \<Rightarrow> sample_info \<Rightarrow> adm \<Rightarrow> adm \<Rightarrow> bool" where
  "keeps i k si d d' \<longleftrightarrow> adm_ok d' \<and> sample_at d' k = Some si \<and>
     (\<forall>j s. j \<noteq> k \<longrightarrow> sample_at d j = Some s \<longrightarrow> sample_at d' j = Some s) \<and> ad_els d \<subseteq>\<^sub>m ad_els d' \<and> ad_next d \<le> ad_next d' \<and>
     next_avail_num d' = next_avail_num d \<and> this_sample_id d \<le> this_sample_id d' \<and>
     this_sample_id d' \<le> this_sample_id d + int i \<and> (below d \<longrightarrow> below d')"

lemma keepsD:
  assumes "keeps i k si d d'"
  shows "adm_ok d'" "sample_at d' k = Some si" "j \<noteq> k \<Longrightarrow> sample_at d j = Some s \<Longrightarrow> sample_at d' j = Some s"
    "ad_els d \<subseteq>\<^sub>m ad_els d'" "ad_next d \<le> ad_next d'" "next_avail_num d' = next_avail_num d"
    "this_sample_id d' \<le> this_sample_id d + int i" "this_sample_id d \<le> this_sample_id d'" "below d \<Longrightarrow> below d'"
  using assms by (simp_all add: keeps_def)

lemma keeps_trans:
  assumes "keeps i k si d d1" "keeps j k sj d1 d2"
  shows "keeps (i + j) k sj d d2"
  using assms by (auto simp: keeps_def intro: map_le_trans)

lemma keeps_self: "adm_ok d \<Longrightarrow> sample_at d k = Some si \<Longrightarrow> keeps 0 k si d d"
  by (simp add: keeps_def)

lemma keeps_memo: "adm_ok d \<Longrightarrow> sample_at d k = Some si \<Longrightarrow> keeps 0 k si d (memo_sample d j)"
  by (simp add: keeps_def adm_ok_memo)

lemma keeps_put:
  assumes "adm_ok d" "find_sample d k = Some a" "sample_at d k = Some si" "side (memo_sample d k) d1" "si_sample_id si' = si_sample_id si"
    "ad_els d1 = ad_els d" "ad_next d \<le> ad_next d1" "next_avail_num d1 = next_avail_num d" "below d \<longrightarrow> below d1"
  shows "keeps 0 k si' d (put_sample a si' d1)"
  using put_side [OF assms(1-5)] assms(4,6-9) by (simp add: keeps_def side_def) (simp add: put_sample_def)

lemma keeps_modify:
  assumes "adm_ok d" "sample_at d k = Some si" "\<forall>si. si_sample_id (f si) = si_sample_id si"
  shows "keeps 0 k (f si) d (modify_sample d k f)"
  using assms by (simp add: keeps_def adm_ok_modify sample_at_modify)
    (simp add: modify_sample_def below_def split: option.splits)

lemma strs_modify [simp]: "ad_strs (modify_sample d k f) = ad_strs d" "ad_next (modify_sample d k f) = ad_next d"
  by (simp_all add: modify_sample_def split: option.splits)

text \<open>The recorder \<open>r\<close> with the parts that recording a sample changes.\<close>

definition rec_state :: "recorder \<Rightarrow> adm \<Rightarrow> addr set \<Rightarrow> (addr \<rightharpoonup> out_file) \<Rightarrow> out_file list \<Rightarrow> recorder" where
  "rec_state r d E F D = r\<lparr>rc_vj := (rc_vj r)\<lparr>vi_adm := d\<rparr>, rc_encoders := E, rc_files := F, rc_disk := D\<rparr>"

lemma rec_state_simps [simp]:
  "rc_adm (rec_state r d E F D) = d" "rc_set d' (rec_state r d E F D) = rec_state r d' E F D"
  "rc_encoders (rec_state r d E F D) = E" "rc_files (rec_state r d E F D) = F" "rc_disk (rec_state r d E F D) = D"
  "(rec_state r d E F D)\<lparr>rc_encoders := E'\<rparr> = rec_state r d E' F D"
  "(rec_state r d E F D)\<lparr>rc_files := F'\<rparr> = rec_state r d E F' D"
  "(rec_state r d E F D)\<lparr>rc_files := F', rc_disk := D'\<rparr> = rec_state r d E F' D'"
  "(rec_state r d E F D)\<lparr>rc_disk := D'\<rparr> = rec_state r d E F D'"
  "(rec_state r d E F D)\<lparr>rc_disk := D', rc_encoders := E'\<rparr> = rec_state r d E' F D'"
  "rc_put a si (rec_state r d E F D) = rec_state r (put_sample a si d) E F D"
  "rc_vj (rec_state r d E F D) = (rc_vj r)\<lparr>vi_adm := d\<rparr>" "rc_format (rec_state r d E F D) = rc_format r"
  "rc_rec_id (rec_state r d E F D) = rc_rec_id r"
  by (simp_all add: rec_state_def rc_adm_def rc_set_def rc_put_def)

lemma rec_state_self: "rec_state r (rc_adm r) (rc_encoders r) (rc_files r) (rc_disk r) = r"
  by (simp add: rec_state_def rc_adm_def)

lemma on_rc_state: "f d = Some (x, d') \<Longrightarrow> on_rc f (rec_state r d E F D) = Some (x, rec_state r d' E F D)"
  by (simp add: on_rc_def)

lemma found_at:
  assumes "sample_at d k = Some si"
  obtains a where "find_sample d k = Some a" "ad_samples d a = Some si"
  using assms by (auto simp: sample_at_def split: option.splits)

lemma with_rc_sample_found:
  assumes "adm_ok d" "k \<noteq> SAMPLE_MAX_SAMPLES" "find_sample d k = Some a" "sample_at d k = Some si"
  shows "with_rc_sample (rec_state r d E F D) k dflt K = K (rec_state r (memo_sample d k) E F D) a si"
  using assms by (simp add: with_rc_sample_def sample_get_find sample_at_def)

subsection \<open>One operation at a time\<close>

definition stopped :: "sample_info \<Rightarrow> sample_info" where
  "stopped si = si\<lparr>si_encoder_active := 0, si_encoder_file := None, si_encoder := None\<rparr>"

definition reset :: "sample_info \<Rightarrow> sample_info" where
  "reset si = si\<lparr>si_encoder_active := 0, si_encoder_format := 0, si_encoder_width := 0, si_encoder_height := 0,
     si_encoder_max_size := 0, si_encoder_file := None, si_encoder := None, si_encoder_total_frames_recorded := 0,
     si_encoder_frames_recorded := 0, si_encoder_frames_to_record := 0, si_sequence_num := 0\<rparr>"

lemma stopped_fields:
  "si_encoder_active (stopped si) = 0" "si_encoder_destination (stopped si) = si_encoder_destination si"
  "si_encoder_total_frames_recorded (stopped si) = si_encoder_total_frames_recorded si" "si_sequence_num (stopped si) = si_sequence_num si"
  "si_encoder_frames_to_record (stopped si) = si_encoder_frames_to_record si"
  by (simp_all add: stopped_def)

lemma stop_rec_sample:
  assumes "adm_ok d" "k \<noteq> SAMPLE_MAX_SAMPLES" "sample_at d k = Some si" "si_encoder_active si \<noteq> 0" "si_encoder_file si = Some f"
    "F f = Some out" "si_encoder si = Some e" "e \<in> E" "si_encoder_format si \<noteq> 900"
  shows "\<exists>d'. sample_stop_encoder k (rec_state r d E F D) = Some (1, rec_state r d' (E - {e}) (F(f := None)) (D @ [out])) \<and>
    keeps 0 k (stopped si) d d' \<and> ad_strs d' = ad_strs d"
proof -
  obtain a where a: "find_sample d k = Some a" by (rule found_at [OF assms(3)])
  have "keeps 0 k (stopped si) d (put_sample a (stopped si) (memo_sample d k))"
    by (rule keeps_put [OF assms(1) a assms(3) side_refl [OF adm_ok_memo [OF assms(1)]]]) (simp_all add: stopped_def)
  moreover have "sample_stop_encoder k (rec_state r d E F D) =
      Some (1, rec_state r (put_sample a (stopped si) (memo_sample d k)) (E - {e}) (F(f := None)) (D @ [out]))"
    using assms(4-9) by (simp add: sample_stop_encoder_def with_rc_sample_found [OF assms(1,2) a assms(3)] lav_close_def
        vj_avcodec_stop_def vj_avcodec_close_encoder_def stopped_def del: fun_upd_apply)
  ultimately show ?thesis by (auto simp: put_sample_def)
qed

lemma frames_left_sample:
  assumes "adm_ok d" "k \<noteq> SAMPLE_MAX_SAMPLES" "sample_at d k = Some si"
  shows "on_rc (\<lambda>d. sample_get_frames_left d k) (rec_state r d E F D) =
    Some (si_encoder_frames_to_record si - si_encoder_total_frames_recorded si, rec_state r (memo_sample d k) E F D)"
  using assms by (simp add: on_rc_def sample_get_frames_left_def read_sample_at)

lemma reset_sample:
  assumes "adm_ok d" "k \<noteq> SAMPLE_MAX_SAMPLES" "sample_at d k = Some si"
  shows "\<exists>d1 d2. on_rc (\<lambda>d. sample_reset_encoder d k) (rec_state r d E F D) = Some ((), rec_state r d1 E F D) \<and>
    on_rc (\<lambda>d. sample_reset_autosplit d k) (rec_state r d1 E F D) = Some (1, rec_state r d2 E F D) \<and>
    keeps 0 k (reset si) d d2 \<and> ad_strs d2 = ad_strs d"
proof -
  let ?f = "\<lambda>si. si\<lparr>si_encoder_active := 0, si_encoder_format := 0,
     si_encoder_width := 0, si_encoder_height := 0, si_encoder_max_size := 0, si_encoder_file := None, si_encoder := None,
     si_encoder_total_frames_recorded := 0, si_encoder_frames_recorded := 0, si_encoder_frames_to_record := 0\<rparr>"
  let ?g = "\<lambda>si. si\<lparr>si_sequence_num := 0\<rparr>"
  have 1: "keeps 0 k (?f si) d (modify_sample d k ?f)" by (rule keeps_modify [OF assms(1,3)]) simp
  have 2: "keeps 0 k (?g (?f si)) (modify_sample d k ?f) (modify_sample (modify_sample d k ?f) k ?g)"
    by (rule keeps_modify [OF keepsD(1,2) [OF 1]]) simp
  have "keeps 0 k (reset si) d (modify_sample (modify_sample d k ?f) k ?g)"
    using keeps_trans [OF 1 2] by (simp add: reset_def)
  moreover have "on_rc (\<lambda>d. sample_reset_encoder d k) (rec_state r d E F D) = Some ((), rec_state r (modify_sample d k ?f) E F D)"
    by (rule on_rc_state) (use assms in \<open>simp add: sample_reset_encoder_def write_sample_modify\<close>)
  moreover have "on_rc (\<lambda>d. sample_reset_autosplit d k) (rec_state r (modify_sample d k ?f) E F D) =
      Some (1, rec_state r (modify_sample (modify_sample d k ?f) k ?g) E F D)"
    by (rule on_rc_state)
      (use write_sample_modify [OF keepsD(1) [OF 1] assms(2)] keepsD(2) [OF 1] in \<open>simp add: sample_reset_autosplit_def\<close>)
  ultimately show ?thesis by (metis strs_modify(1))
qed


definition file_full :: "rec_env \<Rightarrow> out_file \<Rightarrow> bool" where
  "file_full env out \<longleftrightarrow> of_format out \<in> set avi_formats \<and> 0 \<le> re_remain env out \<and> re_remain env out < 512 * 1024"

definition counted :: "bool \<Rightarrow> sample_info \<Rightarrow> sample_info" where
  "counted full si = (let si = count_frame si
                      in if full then si\<lparr>si_sequence_num := si_sequence_num si + 1, si_encoder_frames_recorded := 0\<rparr> else si)"

lemma count_frame_fields:
  "si_encoder_total_frames_recorded (count_frame si) = si_encoder_total_frames_recorded si + 1"
  "si_encoder_frames_to_record (count_frame si) = si_encoder_frames_to_record si"
  by (simp_all add: count_frame_def)

lemma continue_sample:
  assumes "adm_ok d" "k \<noteq> SAMPLE_MAX_SAMPLES" "sample_at d k = Some si" "si_encoder_file si = Some f" "F f = Some out"
  shows "\<exists>d'. sample_continue_record env k (rec_state r d E F D) =
      Some (if file_full env out then 2 else if si_encoder_total_frames_recorded si \<ge> si_encoder_frames_to_record si then 1 else 0,
            rec_state r d' E F D) \<and>
    keeps 0 k (if file_full env out then si\<lparr>si_sequence_num := si_sequence_num si + 1, si_encoder_frames_recorded := 0\<rparr> else si) d d' \<and>
    ad_strs d' = ad_strs d"
proof -
  obtain a where a: "find_sample d k = Some a" by (rule found_at [OF assms(3)])
  let ?s = "si\<lparr>si_sequence_num := si_sequence_num si + 1, si_encoder_frames_recorded := 0\<rparr>"
  have p: "keeps 0 k ?s d (put_sample a ?s (memo_sample d k))"
    by (rule keeps_put [OF assms(1) a assms(3) side_refl [OF adm_ok_memo [OF assms(1)]]]) simp_all
  have b: "lav_bytes_remain env (rec_state r (memo_sample d k) E F D) (si_encoder_file si) =
      Some (if of_format out \<in> set avi_formats then re_remain env out else - 1)"
    using assms(4,5) by (simp add: lav_bytes_remain_def)
  show ?thesis
  proof (cases "file_full env out")
    case True
    then have "sample_continue_record env k (rec_state r d E F D) = Some (2, rec_state r (put_sample a ?s (memo_sample d k)) E F D)"
      using b by (simp add: sample_continue_record_def with_rc_sample_found [OF assms(1,2) a assms(3)] file_full_def)
    then show ?thesis using p True by (auto simp: put_sample_def)
  next
    case False
    then have "sample_continue_record env k (rec_state r d E F D) =
        Some (if si_encoder_total_frames_recorded si \<ge> si_encoder_frames_to_record si then 1 else 0, rec_state r (memo_sample d k) E F D)"
      using b by (auto simp: sample_continue_record_def with_rc_sample_found [OF assms(1,2) a assms(3)] file_full_def)
    then show ?thesis using keeps_memo [OF assms(1,3)] False by auto
  qed
qed

lemma record_sample:
  assumes "adm_ok d" "k \<noteq> SAMPLE_MAX_SAMPLES" "sample_at d k = Some si" "si_encoder_active si \<noteq> 0" "si_encoder si = Some e" "e \<in> E"
    "si_encoder_file si = Some f" "F f = Some out" "buf = re_encode env (si_encoder_format si) (si_encoder_frames_recorded si)"
    "buf \<noteq> []" "re_write env buf = 0" "out' = out\<lparr>of_frames := of_frames out @ [buf]\<rparr>"
  shows "\<exists>d'. sample_record_frame env k (rec_state r d E F D) =
      Some (if file_full env out' then 2
            else if si_encoder_total_frames_recorded si + 1 \<ge> si_encoder_frames_to_record si then 1 else 0,
            rec_state r d' E (F(f \<mapsto> out')) D) \<and>
    keeps 0 k (counted (file_full env out') si) d d' \<and> ad_strs d' = ad_strs d"
proof -
  obtain a where a: "find_sample d k = Some a" by (rule found_at [OF assms(3)])
  let ?d = "put_sample a (count_frame si) (memo_sample d k)"
  have p: "keeps 0 k (count_frame si) d ?d"
    by (rule keeps_put [OF assms(1) a assms(3) side_refl [OF adm_ok_memo [OF assms(1)]]]) (simp_all add: count_frame_def)
  have eq: "sample_record_frame env k (rec_state r d E F D) = sample_continue_record env k (rec_state r ?d E (F(f \<mapsto> out')) D)"
    using assms(4-12) by (simp add: sample_record_frame_def with_rc_sample_found [OF assms(1,2) a assms(3)] use_encoder_def
        lav_write_frame_def del: fun_upd_apply)
  have f: "si_encoder_file (count_frame si) = Some f" "(F(f \<mapsto> out')) f = Some out'" using assms(7) by (simp_all add: count_frame_def)
  obtain d' where "sample_continue_record env k (rec_state r ?d E (F(f \<mapsto> out')) D) =
      Some (if file_full env out' then 2
            else if si_encoder_total_frames_recorded si + 1 \<ge> si_encoder_frames_to_record si then 1 else 0,
            rec_state r d' E (F(f \<mapsto> out')) D)" "keeps 0 k (counted (file_full env out') si) ?d d'" "ad_strs d' = ad_strs ?d"
    using continue_sample [where F = "F(f \<mapsto> out')", OF keepsD(1) [OF p] assms(2) keepsD(2) [OF p] f, of env r E D]
    by (auto simp: counted_def Let_def count_frame_fields)
  then show ?thesis using eq keeps_trans [OF p] by (auto simp: put_sample_def)
qed


definition started :: "rec_env \<Rightarrow> int \<Rightarrow> int \<Rightarrow> addr \<Rightarrow> addr \<Rightarrow> sample_info \<Rightarrow> sample_info" where
  "started env fmt n e f si = si\<lparr>si_encoder := Some e, si_encoder_active := 1, si_encoder_format := fmt,
     si_encoder_frames_to_record := (if si_encoder_total_frames_recorded si = 0 then n else si_encoder_frames_to_record si),
     si_encoder_frames_recorded := 0, si_encoder_max_size := sample_max_size fmt (re_frame env),
     si_encoder_width := fr_width (re_frame env), si_encoder_height := fr_height (re_frame env), si_encoder_file := Some f\<rparr>"

lemma started_fields:
  "si_encoder_active (started env fmt n e f si) = 1" "si_encoder (started env fmt n e f si) = Some e"
  "si_encoder_file (started env fmt n e f si) = Some f" "si_encoder_format (started env fmt n e f si) = fmt"
  "si_encoder_destination (started env fmt n e f si) = si_encoder_destination si" "si_encoder_frames_recorded (started env fmt n e f si) = 0"
  "si_encoder_frames_to_record (started env fmt n e f si) =
     (if si_encoder_total_frames_recorded si = 0 then n else si_encoder_frames_to_record si)"
  "si_encoder_total_frames_recorded (started env fmt n e f si) = si_encoder_total_frames_recorded si"
  "si_sequence_num (started env fmt n e f si) = si_sequence_num si"
  by (simp_all add: started_def)

definition allocated :: "adm \<Rightarrow> addr set \<Rightarrow> (addr \<rightharpoonup> out_file) \<Rightarrow> bool" where
  "allocated d E F \<longleftrightarrow> below d \<and> (\<forall>a \<in> E. a < ad_next d) \<and> (\<forall>a f. F a = Some f \<longrightarrow> a < ad_next d)"

text \<open>A format with a container, and an environment in which an encoder and a file can be had for it.\<close>

definition can_start :: "rec_env \<Rightarrow> int \<Rightarrow> bool" where
  "can_start env fmt \<longleftrightarrow> 0 \<le> fmt \<and> fmt \<le> NUM_ENCODERS \<and> vj_avcodec_find_lav fmt \<noteq> CHR 0x00 \<and> vj_avcodec_find_lav fmt \<noteq> CHR ''S'' \<and>
     (\<forall>name. re_start env fmt name \<and> re_open env name (vj_avcodec_find_lav fmt))"

lemma side_alloc:
  assumes "adm_ok d" "ad_next d \<le> n"
  shows "side d (d\<lparr>ad_next := n, ad_strs := x\<rparr>)" "side d (d\<lparr>ad_next := n\<rparr>)"
proof -
  have "find_sample (d\<lparr>ad_next := n, ad_strs := x\<rparr>) k = find_sample d k" "find_sample (d\<lparr>ad_next := n\<rparr>) k = find_sample d k" for k
    by (rule find_sample_cong; simp)+
  then show "side d (d\<lparr>ad_next := n, ad_strs := x\<rparr>)" "side d (d\<lparr>ad_next := n\<rparr>)"
    using assms by (auto simp: side_def elim!: adm_ok_cong)
qed

lemma try_filename:
  assumes "adm_ok d" "k \<noteq> SAMPLE_MAX_SAMPLES" "sample_at d k = Some si" "\<forall>q. si_encoder_destination si = Some q \<longrightarrow> q \<in> dom (ad_strs d)"
    "name = file_name (case filename of None \<Rightarrow> ''Sample_'' @ show_pad 4 k | Some f \<Rightarrow> f) (si_sequence_num si) (sample_ext fmt)"
  shows "\<exists>d' p. sample_try_filename d k filename fmt = Some (1, d') \<and> keeps 0 k (si\<lparr>si_encoder_destination := Some p\<rparr>) d d' \<and>
    ad_strs d' p = Some name \<and> p < ad_next d'"
proof -
  obtain a where a: "find_sample d k = Some a" by (rule found_at [OF assms(3)])
  let ?m = "memo_sample d k"
  obtain x where x: "free_ptr free_str (si_encoder_destination si) ?m = Some (?m\<lparr>ad_strs := x\<rparr>)" "dom x \<subseteq> dom (ad_strs d)"
  proof (cases "si_encoder_destination si")
    case None
    have "free_ptr free_str (si_encoder_destination si) ?m = Some (?m\<lparr>ad_strs := ad_strs d\<rparr>)"
      using None by (simp add: free_ptr_def memo_sample_def)
    then show ?thesis by (rule that) simp
  next
    case (Some q)
    then have "free_ptr free_str (si_encoder_destination si) ?m = Some (?m\<lparr>ad_strs := (ad_strs d)(q := None)\<rparr>)"
      using assms(4) by (auto simp: free_ptr_def free_str_def)
    then show ?thesis by (rule that) auto
  qed
  let ?p = "ad_next d"
  let ?d1 = "?m\<lparr>ad_next := Suc ?p, ad_strs := x(?p \<mapsto> name)\<rparr>"
  let ?d' = "put_sample a (si\<lparr>si_encoder_destination := Some ?p\<rparr>) ?d1"
  have side: "side ?m ?d1" using side_alloc(1) [OF adm_ok_memo [OF assms(1)]] by simp
  have "keeps 0 k (si\<lparr>si_encoder_destination := Some ?p\<rparr>) d ?d'"
    by (rule keeps_put [OF assms(1) a assms(3) side]) (use x(2) in \<open>auto simp: below_def less_Suc_eq\<close>)
  moreover have "sample_try_filename d k filename fmt = Some (1, ?d')"
    unfolding sample_try_filename_def
    by (rule with_sample_found [OF assms(1,2) a assms(3)]) (simp add: x(1) strdup_def ad_alloc_def Let_def assms(5) [symmetric])
  ultimately show ?thesis by (intro exI conjI) (assumption | simp add: put_sample_def)+
qed

lemma start_rec_sample:
  assumes "adm_ok d" "find_sample d k = Some a" "sample_at d k = Some si" "can_start env fmt" "allocated d E F"
    "si_encoder_destination si = Some p" "ad_strs d p = Some name"
  shows "\<exists>d' e f. sample_start_encoder env a si (re_frame env) fmt n (rec_state r (memo_sample d k) E F D) =
      Some (0, rec_state r d' (insert e E) (F(f \<mapsto> \<lparr>of_name = name, of_format = vj_avcodec_find_lav fmt, of_frames = []\<rparr>)) D) \<and>
    keeps 0 k (started env fmt n e f si) d d' \<and> ad_strs d' = ad_strs d \<and> e \<notin> E \<and> f \<notin> dom F \<and> e < ad_next d' \<and> f < ad_next d'"
proof -
  let ?e = "ad_next d" and ?f = "Suc (ad_next d)" and ?m = "memo_sample d k"
  let ?d1 = "?m\<lparr>ad_next := Suc ?f\<rparr>"
  let ?d' = "put_sample a (started env fmt n ?e ?f si) ?d1"
  have side: "side ?m ?d1" using side_alloc(2) [OF adm_ok_memo [OF assms(1)]] by simp
  have "keeps 0 k (started env fmt n ?e ?f si) d ?d'"
    by (rule keeps_put [OF assms(1-3) side]) (auto simp: below_def started_def intro: less_SucI)
  moreover have "sample_start_encoder env a si (re_frame env) fmt n (rec_state r ?m E F D) =
      Some (0, rec_state r ?d' (insert ?e E) (F(?f \<mapsto> \<lparr>of_name = name, of_format = vj_avcodec_find_lav fmt, of_frames = []\<rparr>)) D)"
    using assms(4,6,7) by (simp add: sample_start_encoder_def can_start_def c_string_def vj_avcodec_start_def ad_alloc_def
        sufficient_space_def available_diskspace_def lav_open_output_file_def started_def Let_def del: fun_upd_apply)
  moreover have "?e \<notin> E" "?f \<notin> dom F" using assms(5) by (auto simp: allocated_def)
  ultimately show ?thesis
    by - (rule exI [of _ ?d'], rule exI [of _ ?e], rule exI [of _ ?f], simp add: put_sample_def)
qed

lemma init_sample:
  assumes "adm_ok d" "k \<noteq> SAMPLE_MAX_SAMPLES" "sample_at d k = Some si" "si_encoder_active si = 0"
    "\<forall>q. si_encoder_destination si = Some q \<longrightarrow> q \<in> dom (ad_strs d)" "can_start env fmt" "0 < n" "allocated d E F"
    "name = file_name (case filename of None \<Rightarrow> ''Sample_'' @ show_pad 4 k | Some f \<Rightarrow> f) (si_sequence_num si) (sample_ext fmt)"
  shows "\<exists>d' p e f. sample_init_encoder env k filename fmt (Some (re_frame env)) (Some el) n (rec_state r d E F D) =
      Some (1, rec_state r d' (insert e E) (F(f \<mapsto> \<lparr>of_name = name, of_format = vj_avcodec_find_lav fmt, of_frames = []\<rparr>)) D) \<and>
    keeps 0 k (started env fmt n e f (si\<lparr>si_encoder_destination := Some p\<rparr>)) d d' \<and> e \<notin> E \<and> f \<notin> dom F \<and> e < ad_next d' \<and> f < ad_next d' \<and>
    ad_strs d' p = Some name"
proof -
  obtain d1 p where 1: "sample_try_filename d k filename fmt = Some (1, d1)" "keeps 0 k (si\<lparr>si_encoder_destination := Some p\<rparr>) d d1"
      "ad_strs d1 p = Some name" "p < ad_next d1"
    using try_filename [OF assms(1-3,5,9)] by blast
  let ?s = "si\<lparr>si_encoder_destination := Some p\<rparr>"
  note k1 = keepsD [OF 1(2)]
  have al: "allocated d1 E F" using assms(8) k1(9) less_le_trans [OF _ k1(5)] by (auto simp: allocated_def)
  obtain a where a: "find_sample d1 k = Some a" by (rule found_at [OF k1(2)])
  obtain d' e f where 2: "sample_start_encoder env a ?s (re_frame env) fmt n (rec_state r (memo_sample d1 k) E F D) =
      Some (0, rec_state r d' (insert e E) (F(f \<mapsto> \<lparr>of_name = name, of_format = vj_avcodec_find_lav fmt, of_frames = []\<rparr>)) D)"
      "keeps 0 k (started env fmt n e f ?s) d1 d'" "ad_strs d' = ad_strs d1" "e \<notin> E" "f \<notin> dom F" "e < ad_next d'" "f < ad_next d'"
    using start_rec_sample [OF k1(1) a k1(2) assms(6) al, of p name n r D] 1(3) by auto
  have "sample_init_encoder env k filename fmt (Some (re_frame env)) (Some el) n (rec_state r d E F D) =
      Some (1, rec_state r d' (insert e E) (F(f \<mapsto> \<lparr>of_name = name, of_format = vj_avcodec_find_lav fmt, of_frames = []\<rparr>)) D)"
    using assms(4,6,7) 2(1) by (simp add: sample_init_encoder_def on_rc_state [of "\<lambda>d. sample_try_filename d k filename fmt" d, OF 1(1)]
        with_rc_sample_found [OF k1(1) assms(2) a k1(2)] can_start_def del: fun_upd_apply)
  then show ?thesis using keeps_trans [OF 1(2) 2(2)] 2(3-7) 1(3)
    by - (rule exI [of _ d'], rule exI [of _ p], rule exI [of _ e], rule exI [of _ f], simp)
qed


subsection \<open>Adding the file\<close>

lemma new_id_memory:
  assumes "new_id d = Some (sid, d')"
  shows "ad_strs d' = ad_strs d \<and> ad_els d' = ad_els d \<and> ad_next d' = ad_next d \<and> next_avail_num d' = next_avail_num d \<and>
    this_sample_id d \<le> this_sample_id d' \<and> this_sample_id d' \<le> max 1 (this_sample_id d) + 1"
  using assms by (auto simp: new_id_def Let_def split: option.splits Option.bind_splits simp del: find_avail.simps)

lemma skeleton_fields:
  assumes "sample_skeleton_new d s e = Some (p, d')"
  shows "\<exists>x. (ad_strs d' = ad_strs d \<or> ad_strs d' = (ad_strs d)(Suc (ad_next d) \<mapsto> x) \<and> Suc (ad_next d) < ad_next d') \<and> ad_els d' = ad_els d \<and>
    ad_next d \<le> ad_next d' \<and> next_avail_num d' = next_avail_num d \<and> this_sample_id d \<le> this_sample_id d' \<and>
    this_sample_id d' \<le> max 1 (this_sample_id d) + 1"
proof (cases "initialized d = 0 \<or> e \<le> (if s < 0 then 0 else s)")
  case True
  then show ?thesis using assms by (auto simp: sample_skeleton_new_def ad_alloc_def Let_def split: if_splits)
next
  case False
  obtain sid d1 where n: "new_id (d\<lparr>ad_next := Suc (ad_next d)\<rparr>) = Some (sid, d1)"
    using assms False by (cases "new_id (d\<lparr>ad_next := Suc (ad_next d)\<rparr>)") (auto simp: sample_skeleton_new_def ad_alloc_def Let_def)
  note m = new_id_memory [OF n]
  from assms False n obtain si where
    "d' = (put_sample (ad_next d) si (snd (vpn (snd (strdup (''sample_'' @ show_pad 5 sid @ ''.edl'') d1)))))\<lparr>sample_cache :=
       (sample_cache (snd (vpn (snd (strdup (''sample_'' @ show_pad 5 sid @ ''.edl'') d1)))))(sid := Some (ad_next d))\<rparr>"
    by (auto simp: sample_skeleton_new_def ad_alloc_def Let_def split: prod.splits if_splits)
  then show ?thesis using m by (auto simp: strdup_def vpn_def ad_alloc_def put_sample_def Let_def)
qed

lemma skeleton_memory:
  assumes "sample_skeleton_new d s e = Some (p, d')" "below d"
  shows "ad_strs d \<subseteq>\<^sub>m ad_strs d'" "ad_next d \<le> ad_next d'" "next_avail_num d' = next_avail_num d" "this_sample_id d \<le> this_sample_id d'"
    "this_sample_id d' \<le> max 1 (this_sample_id d) + 1" "below d'"
proof -
  obtain x where x: "ad_strs d' = ad_strs d \<or> ad_strs d' = (ad_strs d)(Suc (ad_next d) \<mapsto> x) \<and> Suc (ad_next d) < ad_next d'" "ad_els d' = ad_els d"
      "ad_next d \<le> ad_next d'" "next_avail_num d' = next_avail_num d" "this_sample_id d \<le> this_sample_id d'"
      "this_sample_id d' \<le> max 1 (this_sample_id d) + 1"
    using skeleton_fields [OF assms(1)] by blast
  then show "ad_next d \<le> ad_next d'" "next_avail_num d' = next_avail_num d" "this_sample_id d \<le> this_sample_id d'"
    "this_sample_id d' \<le> max 1 (this_sample_id d) + 1" by simp_all
  have "ad_strs d (Suc (ad_next d)) = None" using assms(2) by (cases "ad_strs d (Suc (ad_next d))") (auto simp: below_def)
  then show "ad_strs d \<subseteq>\<^sub>m ad_strs d'" using x(1) by (auto simp: map_le_def)
  have "a < ad_next d \<Longrightarrow> a < ad_next d'" for a using x(3) by (rule less_le_trans [rotated])
  moreover have "a < ad_next d" if "ad_els d a = Some el \<or> ad_strs d a = Some t" for a el t using that assms(2) by (auto simp: below_def)
  ultimately show "below d'" unfolding below_def using x(1,2) by (metis fun_upd_apply)
qed

text \<open>What opening the file \<open>name\<close> gives: at least two frames, the first of them in that file.\<close>

definition movie_ok :: "string \<Rightarrow> editlist \<Rightarrow> bool" where
  "movie_ok name el \<longleftrightarrow> 0 < sint (el_total_frames el) \<and> el_video_file_list el 0 = Some name \<and>
     (\<exists>x xs. el_frame_list el = Some (Some x # xs) \<and> el_file x = 0)"

definition holds_file :: "adm \<Rightarrow> int \<Rightarrow> string \<Rightarrow> bool" where
  "holds_file d j name \<longleftrightarrow>
     (\<exists>s a el. sample_at d j = Some s \<and> si_edit_list s = Some a \<and> ad_els d a = Some el \<and> el_video_file_list el 0 = Some name)"

lemma silence_fields [simp]:
  "el_total_frames (silence b pl el) = el_total_frames el" "el_video_file_list (silence b pl el) = el_video_file_list el"
  "el_frame_list (silence b pl el) = el_frame_list el" "el_lav_fd (silence b pl el) = el_lav_fd el"
  "el_has_video (silence b pl el) = el_has_video el" "el_is_empty (silence b pl el) = el_is_empty el"
  by (simp_all add: silence_def)

lemma movie_length:
  assumes "el_frame_list el = Some (Some x # xs)" "el_file x = 0" "el_lav_fd el 0 = Some fd" "files fd = Some lf"
  shows "\<exists>n. vj_el_bogus_length files el 0 = Some n"
  using assms by (simp add: vj_el_bogus_length_def el_clamp_frame_def el_frame_file_def el_frame_at_def buf_read_def)

lemma adm_ok_movie: "adm_ok d \<Longrightarrow> ad_next d \<le> n \<Longrightarrow> adm_ok (d\<lparr>ad_next := n, ad_lav := x, ad_els := y\<rparr>)"
  by (erule adm_ok_cong) simp_all

lemma sample_at_movie: "sample_at (d\<lparr>ad_next := n, ad_lav := x, ad_els := y\<rparr>) k = sample_at d k"
proof -
  have "find_sample (d\<lparr>ad_next := n, ad_lav := x, ad_els := y\<rparr>) k = find_sample d k" by (rule find_sample_cong) simp_all
  then show ?thesis by (simp add: sample_at_def split: option.splits)
qed

text \<open>The new sample with its list is stored, then it gets the speed.\<close>

lemma store_movie:
  assumes "adm_ok d" "ad_samples d a = Some sk" "sample_cache d j = Some a" "hash_of d j = None" "\<forall>n. avail_num d n \<noteq> j"
    "si_sample_id sk = j" "0 < j" "j < SAMPLE_MAX_SAMPLES" "ad_els d e = Some el" "vj_el_bogus_length (ad_lav d) el 0 = Some n"
  shows "\<exists>d1 s d'. sample_store (put_sample a (sk\<lparr>si_edit_list := Some e\<rparr>) d) (Some a) = Some (0, d1) \<and> ad_samples d1 a = Some s \<and>
    si_sample_id s = j \<and> d' = put_sample a (s\<lparr>si_speed := v\<rparr>) d1 \<and> adm_ok d' \<and> (\<exists>s. sample_at d' j = Some s \<and> si_edit_list s = Some e) \<and>
    (\<forall>i. i \<noteq> j \<longrightarrow> sample_at d' i = sample_at d i) \<and> ad_els d' = ad_els d \<and> ad_strs d' = ad_strs d \<and> ad_next d' = ad_next d \<and>
    next_avail_num d' = next_avail_num d \<and> this_sample_id d' = this_sample_id d \<and> below d' = below d"
proof -
  let ?sk = "sk\<lparr>si_edit_list := Some e\<rparr>"
  let ?s = "?sk\<lparr>si_play_length := n\<rparr>"
  let ?d0 = "put_sample a ?sk d"
  let ?d1 = "(put_sample a ?s ?d0)\<lparr>SampleHash := Hash_table ((hash_of ?d0)(j \<mapsto> a))\<rparr>"
  let ?d' = "put_sample a (?s\<lparr>si_speed := v\<rparr>) ?d1"
  have ok0: "adm_ok ?d0" using adm_ok_put [OF assms(1,2), of ?sk] by (simp add: put_sample_def)
  have st: "stored_as ?d0 ?sk ?s" using assms(9,10) by (simp add: stored_as_def put_sample_def)
  have h: "hash_of ?d0 = hash_of d" by (simp add: put_sample_def hash_of_def)
  have "sample_store ?d0 (Some a) = Some (0, ?d1)" "adm_ok ?d1"
    using store_new [OF ok0, of a ?sk j ?s] st assms(3-6) h by (auto simp: put_sample_def)
  moreover have s: "ad_samples ?d1 a = Some ?s" by (simp add: put_sample_def)
  ultimately have ok: "sample_store ?d0 (Some a) = Some (0, ?d1)" "adm_ok ?d'"
    using adm_ok_put [OF _ s, of "?s\<lparr>si_speed := v\<rparr>"] by (auto simp: put_sample_def)
  have f: "find_sample ?d' j = Some a" using assms(3,7,8) by (simp add: find_sample_def put_sample_def)
  have old: "sample_at ?d' i = sample_at d i" if i: "i \<noteq> j" for i
  proof -
    have e: "find_sample ?d' i = find_sample d i"
      by (rule find_sample_eq) (use i in \<open>simp_all add: put_sample_def hash_of_def\<close>)
    have "find_sample d i \<noteq> Some a"
    proof
      assume "find_sample d i = Some a"
      from find_sample_live [OF assms(1) this] assms(2,6) i show False by auto
    qed
    then show ?thesis using e by (auto simp: sample_at_def put_sample_def split: option.splits)
  qed
  have "sample_at ?d' j = Some (?s\<lparr>si_speed := v\<rparr>)" using f by (simp add: sample_at_def put_sample_def)
  then show ?thesis using ok s old assms(6)
    by - (rule exI [of _ ?d1], rule exI [of _ ?s], rule exI [of _ ?d'], simp add: put_sample_def below_def)
qed

lemma add_movie:
  assumes "adm_ok d" "below d" "sample_at d k = Some si" "this_sample_id d < SAMPLE_MAX_SAMPLES" "int (next_avail_num d) < SAMPLE_MAX_SAMPLES"
    "re_movie env name = Some (el, lf)" "movie_ok name el" "vi_edit_list (rc_vj r) \<in> dom (ad_els d)"
  shows "\<exists>j d'. veejay_edit_addmovie_sample env name (rec_state r d E F D) = Some (j, rec_state r d' E F D) \<and> 0 < j \<and>
    keeps 1 k si d d' \<and> sample_at d j = None \<and> holds_file d' j name \<and> ad_strs d \<subseteq>\<^sub>m ad_strs d'"
proof -
  let ?fd = "ad_next d" and ?e = "Suc (ad_next d)"
  let ?d0 = "d\<lparr>ad_next := Suc ?e, ad_lav := (ad_lav d)(?fd \<mapsto> lf), ad_els := (ad_els d)(?e \<mapsto> el\<lparr>el_lav_fd := [0 \<mapsto> ?fd]\<rparr>)\<rparr>"
  have fresh: "ad_els d ?e = None" using assms(2) by (cases "ad_els d ?e") (auto simp: below_def)
  obtain pl where pl: "ad_els d (vi_edit_list (rc_vj r)) = Some pl" using assms(8) by auto
  with fresh have ne: "vi_edit_list (rc_vj r) \<noteq> ?e" by auto
  define E1 where "E1 = silence (re_audio env) pl (el\<lparr>el_lav_fd := [0 \<mapsto> ?fd]\<rparr>)"
  define d1 where "d1 = d\<lparr>ad_next := Suc ?e, ad_lav := (ad_lav d)(?fd \<mapsto> lf), ad_els := (ad_els d)(?e \<mapsto> E1)\<rparr>"
  have opened: "open_movie env name d = (Some ?e, ?d0)" using assms(6) by (simp add: open_movie_def ad_alloc_def Let_def)
  have d1: "?d0\<lparr>ad_els := (ad_els ?d0)(?e \<mapsto> E1)\<rparr> = d1" by (simp add: d1_def)
  have ok1: "adm_ok d1" "below d1" and at1: "sample_at d1 i = sample_at d i" for i
    using assms(1,2) by (auto simp: d1_def below_def sample_at_movie intro!: adm_ok_movie less_SucI)
  have bound: "int (next_avail_num d1) < SAMPLE_MAX_SAMPLES" "this_sample_id d1 < SAMPLE_MAX_SAMPLES"
    and len: "0 < sint (el_total_frames E1)" using assms(4,5,7) by (simp_all add: d1_def E1_def movie_ok_def)
  obtain j a sk d2 where new: "sample_skeleton_new d1 0 (sint (el_total_frames E1)) = Some (Some a, d2)"
      "adm_ok d2" "sample_at d1 j = None" "0 < j" "j < SAMPLE_MAX_SAMPLES" "ad_samples d2 a = Some sk" "sample_cache d2 j = Some a"
      "hash_of d2 j = None" "\<forall>n. avail_num d2 n \<noteq> j" "si_sample_id sk = j" "\<forall>i. i \<noteq> j \<longrightarrow> sample_at d2 i = sample_at d1 i"
      "ad_els d2 = ad_els d1" "ad_lav d2 = ad_lav d1"
    by (rule skeleton_new_cases [OF ok1(1) order_refl len bound])
  note mem = skeleton_memory [OF new(1) ok1(2)]
  have tot: "el_total_frames E1 = el_total_frames el" by (simp add: E1_def)
  obtain x xs where fr: "el_frame_list E1 = Some (Some x # xs)" "el_file x = 0" using assms(7) by (auto simp: movie_ok_def E1_def)
  have lav: "el_lav_fd E1 0 = Some ?fd" "ad_lav d2 ?fd = Some lf" using new(13) by (simp_all add: E1_def d1_def)
  obtain n where n: "vj_el_bogus_length (ad_lav d2) E1 0 = Some n" using movie_length [of E1 x xs ?fd "ad_lav d2" lf, OF fr lav] by blast
  have el2: "ad_els d2 ?e = Some E1" using new(12) by (simp add: d1_def)
  obtain d3 s d' where st: "sample_store (put_sample a (sk\<lparr>si_edit_list := Some ?e\<rparr>) d2) (Some a) = Some (0, d3)" "ad_samples d3 a = Some s"
      "si_sample_id s = j" "d' = put_sample a (s\<lparr>si_speed := st_current_playback_speed (rc_vj r)\<rparr>) d3" "adm_ok d'"
      "\<exists>s. sample_at d' j = Some s \<and> si_edit_list s = Some ?e" "\<forall>i. i \<noteq> j \<longrightarrow> sample_at d' i = sample_at d2 i" "ad_els d' = ad_els d2"
      "ad_strs d' = ad_strs d2" "ad_next d' = ad_next d2" "next_avail_num d' = next_avail_num d2" "this_sample_id d' = this_sample_id d2"
      "below d' = below d2"
    using store_movie [OF new(2,6-10,4,5) el2 n, of "st_current_playback_speed (rc_vj r)"] by blast
  have run: "veejay_edit_addmovie_sample env name (rec_state r d E F D) = Some (j, rec_state r d' E F D)"
    using opened ne pl new(1) [unfolded tot] new(6) st(1-4) by (simp add: veejay_edit_addmovie_sample_def fun_upd_same fun_upd_other E1_def [symmetric]
        d1_def [symmetric] Let_def del: fun_upd_apply)
  have jk: "sample_at d j = None" "j \<noteq> k" using new(3) at1 assms(3) by auto
  obtain q where q: "find_sample d k = Some q" "ad_samples d q = Some si" by (rule found_at [OF assms(3)])
  have "1 \<le> this_sample_id d" using adm_ok_range [OF assms(1) q(2)] by linarith
  moreover have old: "sample_at d' i = Some t" if "sample_at d i = Some t" for i t
    using that jk(1) st(7) new(11) at1 by (cases "i = j") auto
  ultimately have "keeps 1 k si d d'"
    using st(5,8,10-13) new(12) assms(3) mem fresh by (auto simp: keeps_def d1_def map_le_def)
  moreover have "holds_file d' j name" using st(6,8) el2 assms(7) by (auto simp: holds_file_def E1_def movie_ok_def)
  moreover have "ad_strs d \<subseteq>\<^sub>m ad_strs d'" using mem(1) st(9) by (simp add: d1_def)
  ultimately show ?thesis using run new(4) jk(1) by blast
qed


subsection \<open>A recording under way\<close>

definition no_encoder :: "sample_info \<Rightarrow> sample_info" where
  "no_encoder si = (reset si)\<lparr>si_encoder_destination := None\<rparr>"

lemma no_encoder_simps:
  "no_encoder (stopped si) = no_encoder si" "no_encoder (counted b si) = no_encoder si" "no_encoder (reset si) = no_encoder si"
  "no_encoder (started env fmt n e f si) = no_encoder si" "no_encoder (si\<lparr>si_encoder_destination := x\<rparr>) = no_encoder si"
  by (simp_all add: no_encoder_def reset_def stopped_def counted_def count_frame_def started_def Let_def)

text \<open>Each file has become a sample of its own under a new identifier.\<close>

definition added :: "adm \<Rightarrow> adm \<Rightarrow> out_file list \<Rightarrow> int list \<Rightarrow> bool" where
  "added d d' fs js \<longleftrightarrow> distinct js \<and> list_all2 (\<lambda>f j. sample_at d j = None \<and> holds_file d' j (of_name f)) fs js"

lemma holds_file_keeps:
  assumes "keeps i k si d d'" "holds_file d j name" "j \<noteq> k"
  shows "holds_file d' j name"
  using assms keepsD(3) [OF assms(1,3)] map_le_imp_upd_le keepsD(4) [OF assms(1)]
  by (force simp: holds_file_def map_le_def dom_def)

lemma added_keeps:
  assumes "added d0 d fs js" "keeps i k si d d'" "sample_at d0 k \<noteq> None"
  shows "added d0 d' fs js"
proof -
  have step: "holds_file d' j (of_name f)" if "sample_at d0 j = None" "holds_file d j (of_name f)" for f j
    using holds_file_keeps [OF assms(2) that(2)] that(1) assms(3) by (cases "j = k") auto
  have "list_all2 (\<lambda>f j. sample_at d0 j = None \<and> holds_file d' j (of_name f)) fs js"
    by (rule list_all2_mono [where P = "\<lambda>f j. sample_at d0 j = None \<and> holds_file d j (of_name f)"])
      (use assms(1) step in \<open>auto simp: added_def\<close>)
  then show ?thesis using assms(1) by (simp add: added_def)
qed

lemma added_snoc:
  assumes "added d0 d fs js" "sample_at d0 j = None" "holds_file d j (of_name f)" "sample_at d1 j = None" "added d0 d1 fs js"
  shows "added d0 d (fs @ [f]) (js @ [j])"
proof -
  have "sample_at d1 i \<noteq> None" if "i \<in> set js" for i
    using that assms(5) by (auto simp: added_def holds_file_def list_all2_conv_all_nth in_set_conv_nth)
  then have "j \<notin> set js" using assms(4) by blast
  then show ?thesis using assms(1-3) by (auto simp: added_def list_all2_appendI)
qed

definition open_at :: "recorder \<Rightarrow> int \<Rightarrow> int \<Rightarrow> sample_info \<Rightarrow> out_file list \<Rightarrow> int list \<Rightarrow> out_file \<Rightarrow>
    adm \<Rightarrow> sample_info \<Rightarrow> addr \<Rightarrow> addr \<Rightarrow> addr \<Rightarrow> bool" where
  "open_at r0 k fmt s0 fs js cur d si e f p \<longleftrightarrow>
     e \<notin> rc_encoders r0 \<and> f \<notin> dom (rc_files r0) \<and> allocated d (rc_encoders r0) (rc_files r0) \<and>
     keeps (length fs) k si (rc_adm r0) d \<and> no_encoder si = no_encoder s0 \<and> added (rc_adm r0) d fs js \<and>
     si_encoder_active si = 1 \<and> si_encoder si = Some e \<and> si_encoder_file si = Some f \<and> si_encoder_format si = fmt \<and>
     si_encoder_destination si = Some p \<and> ad_strs d p = Some (of_name cur) \<and> of_format cur = vj_avcodec_find_lav fmt"

definition going_at :: "recorder \<Rightarrow> int \<Rightarrow> int \<Rightarrow> int \<Rightarrow> sample_info \<Rightarrow> out_file list \<Rightarrow> int list \<Rightarrow> out_file \<Rightarrow>
    adm \<Rightarrow> sample_info \<Rightarrow> addr \<Rightarrow> addr \<Rightarrow> addr \<Rightarrow> bool" where
  "going_at r0 k fmt n s0 fs js cur d si e f p \<longleftrightarrow> open_at r0 k fmt s0 fs js cur d si e f p \<and>
     si_encoder_frames_to_record si = n \<and> si_encoder_frames_recorded si = int (length (of_frames cur)) \<and>
     si_encoder_total_frames_recorded si = int (length (concat (map of_frames (fs @ [cur])))) \<and>
     si_sequence_num si = int (length fs)"

definition going_state :: "recorder \<Rightarrow> out_file list \<Rightarrow> out_file \<Rightarrow> adm \<Rightarrow> addr \<Rightarrow> addr \<Rightarrow> recorder" where
  "going_state r0 fs cur d e f = rec_state r0 d (insert e (rc_encoders r0)) ((rc_files r0)(f \<mapsto> cur)) (rc_disk r0 @ fs)"

definition going :: "recorder \<Rightarrow> int \<Rightarrow> int \<Rightarrow> int \<Rightarrow> sample_info \<Rightarrow> out_file list \<Rightarrow> int list \<Rightarrow> out_file \<Rightarrow> recorder \<Rightarrow> bool" where
  "going r0 k fmt n s0 fs js cur r \<longleftrightarrow>
     (\<exists>d si e f p. r = going_state r0 fs cur d e f \<and> going_at r0 k fmt n s0 fs js cur d si e f p)"

text \<open>The state in which a sample is recorded: it plays by itself, and its list and that of the program exist.\<close>

definition recordable :: "recorder \<Rightarrow> int \<Rightarrow> int \<Rightarrow> sample_info \<Rightarrow> nat \<Rightarrow> bool" where
  "recordable r k fmt si i \<longleftrightarrow> adm_ok (rc_adm r) \<and> k \<noteq> SAMPLE_MAX_SAMPLES \<and> sample_at (rc_adm r) k = Some si \<and>
     uc_playback_mode (rc_vj r) = VJ_PLAYBACK_MODE_SAMPLE \<and> uc_sample_id (rc_vj r) = k \<and> seq_active (rc_vj r) = 0 \<and> rc_format r = fmt \<and>
     rc_sample_record_switch r = 0 \<and> vi_edit_list (rc_vj r) \<in> dom (ad_els (rc_adm r)) \<and> vi_current_edit_list (rc_vj r) \<noteq> None \<and>
     allocated (rc_adm r) (rc_encoders r) (rc_files r) \<and> this_sample_id (rc_adm r) + int i \<le> SAMPLE_MAX_SAMPLES \<and>
     int (next_avail_num (rc_adm r)) < SAMPLE_MAX_SAMPLES"

definition good_env :: "rec_env \<Rightarrow> int \<Rightarrow> bool" where
  "good_env env fmt \<longleftrightarrow> can_start env fmt \<and> (\<forall>i. re_encode env fmt i \<noteq> []) \<and> (\<forall>buf. re_write env buf = 0) \<and>
     (\<forall>name. \<exists>el lf. re_movie env name = Some (el, lf) \<and> movie_ok name el)"

definition record_into :: "rec_env \<Rightarrow> int \<Rightarrow> out_file \<Rightarrow> out_file" where
  "record_into env fmt cur = cur\<lparr>of_frames := of_frames cur @ [re_encode env fmt (int (length (of_frames cur)))]\<rparr>"

lemma fmt_facts:
  assumes "good_env env fmt"
  shows "fmt \<noteq> 900" "fmt \<noteq> ENCODER_YUV4MPEG" "fmt \<noteq> ENCODER_YUV4MPEG420"
  using assms by (auto simp: good_env_def can_start_def encoder_defs vj_avcodec_find_lav_def)

lemma allocated_keeps: "allocated d E F \<Longrightarrow> keeps i k si d d' \<Longrightarrow> allocated d' E F"
  using less_le_trans [of _ "ad_next d" "ad_next d'"] by (auto simp: allocated_def keeps_def)

lemma commit_sample:
  assumes "recordable r0 k fmt s0 (Suc i)" "good_env env fmt" "keeps i k si (rc_adm r0) d" "si_encoder_destination si = Some p"
    "ad_strs d p = Some name" "below d"
  shows "\<exists>j d'. vj_perform_record_commit_single env (rec_state r0 d E F D) = Some (j, rec_state r0 d' E F D) \<and>
    keeps 1 k si d d' \<and> sample_at d j = None \<and> holds_file d' j name \<and> ad_strs d \<subseteq>\<^sub>m ad_strs d'"
proof -
  note k = keepsD [OF assms(3)]
  have r: "k \<noteq> SAMPLE_MAX_SAMPLES" "uc_playback_mode (rc_vj r0) = VJ_PLAYBACK_MODE_SAMPLE" "uc_sample_id (rc_vj r0) = k" "rc_format r0 = fmt"
      "vi_edit_list (rc_vj r0) \<in> dom (ad_els (rc_adm r0))" "this_sample_id (rc_adm r0) + int (Suc i) \<le> SAMPLE_MAX_SAMPLES"
      "int (next_avail_num (rc_adm r0)) < SAMPLE_MAX_SAMPLES"
    using assms(1) by (simp_all add: recordable_def)
  let ?m = "memo_sample d k"
  obtain a where a: "find_sample d k = Some a" by (rule found_at [OF k(2)])
  have "sample_get_encoded_file d k = Some ((1, Some name), ?m)" unfolding sample_get_encoded_file_def
    by (rule with_sample_found [OF k(1) r(1) a k(2)]) (use assms(4,5) in \<open>simp add: c_string_def\<close>)
  then have nm: "on_rc (\<lambda>d. sample_get_encoded_file d k) (rec_state r0 d E F D) = Some ((1, Some name), rec_state r0 ?m E F D)"
    by (rule on_rc_state)
  have "\<exists>el lf. re_movie env name = Some (el, lf) \<and> movie_ok name el" using assms(2) by (simp add: good_env_def)
  then obtain el lf where m: "re_movie env name = Some (el, lf)" "movie_ok name el" by blast
  have els: "vi_edit_list (rc_vj r0) \<in> dom (ad_els ?m)" using r(5) k(4) by (auto simp: map_le_def dom_def)
  have room: "this_sample_id ?m < SAMPLE_MAX_SAMPLES" "int (next_avail_num ?m) < SAMPLE_MAX_SAMPLES" using r(6,7) k(6,7) by simp_all
  have pm: "below ?m" "sample_at ?m k = Some si" using assms(6) k(2) by simp_all
  obtain j d' where add: "veejay_edit_addmovie_sample env name (rec_state r0 ?m E F D) = Some (j, rec_state r0 d' E F D)" "0 < j"
      "keeps 1 k si ?m d'" "sample_at ?m j = None" "holds_file d' j name" "ad_strs ?m \<subseteq>\<^sub>m ad_strs d'"
    using add_movie [OF adm_ok_memo [OF k(1)] pm room m els] by blast
  have "keeps 1 k si d d'" using keeps_trans [OF keeps_memo [OF k(1,2)] add(3)] by simp
  moreover have "vj_perform_record_commit_single env (rec_state r0 d E F D) = Some (j, rec_state r0 d' E F D)"
    using r(2-4) add(1,2) fmt_facts [OF assms(2)] by (simp add: vj_perform_record_commit_single_def nm add_recorded_def is_y4m_def)
  moreover have "sample_at d j = None" "ad_strs d \<subseteq>\<^sub>m ad_strs d'" using add(4,6) by simp_all
  ultimately show ?thesis using add(5) by blast
qed

text \<open>The file is closed and becomes a sample.\<close>

lemma close_and_add:
  assumes "open_at r0 k fmt s0 fs js cur d si e f p" "recordable r0 k fmt s0 (Suc (length fs))" "good_env env fmt"
  shows "\<exists>j d1 d2. sample_stop_encoder k (going_state r0 fs cur d e f) =
      Some (1, rec_state r0 d1 (rc_encoders r0) (rc_files r0) (rc_disk r0 @ fs @ [cur])) \<and>
    vj_perform_record_commit_single env (rec_state r0 d1 (rc_encoders r0) (rc_files r0) (rc_disk r0 @ fs @ [cur])) =
      Some (j, rec_state r0 d2 (rc_encoders r0) (rc_files r0) (rc_disk r0 @ fs @ [cur])) \<and>
    keeps (length (fs @ [cur])) k (stopped si) (rc_adm r0) d2 \<and> added (rc_adm r0) d2 (fs @ [cur]) (js @ [j]) \<and>
    allocated d2 (rc_encoders r0) (rc_files r0) \<and> ad_strs d2 p \<noteq> None"
proof -
  have g: "e \<notin> rc_encoders r0" "f \<notin> dom (rc_files r0)" "allocated d (rc_encoders r0) (rc_files r0)"
      "keeps (length fs) k si (rc_adm r0) d" "added (rc_adm r0) d fs js" "si_encoder_active si = 1" "si_encoder si = Some e"
      "si_encoder_file si = Some f" "si_encoder_format si = fmt" "si_encoder_destination si = Some p" "ad_strs d p = Some (of_name cur)"
    using assms(1) by (simp_all add: open_at_def)
  have kM: "k \<noteq> SAMPLE_MAX_SAMPLES" "sample_at (rc_adm r0) k \<noteq> None" using assms(2) by (simp_all add: recordable_def)
  note k = keepsD [OF g(4)]
  let ?E = "insert e (rc_encoders r0)" and ?F = "(rc_files r0)(f \<mapsto> cur)" and ?D = "rc_disk r0 @ fs @ [cur]"
  have EF: "?E - {e} = rc_encoders r0" "?F(f := None) = rc_files r0" using g(1,2) by (auto simp: fun_upd_idem domIff)
  obtain d1 where stop: "sample_stop_encoder k (going_state r0 fs cur d e f) = Some (1, rec_state r0 d1 (rc_encoders r0) (rc_files r0) ?D)"
      "keeps 0 k (stopped si) d d1" "ad_strs d1 = ad_strs d"
    using stop_rec_sample [where F = ?F and E = ?E and f = f and e = e and out = cur and r = r0 and D = "rc_disk r0 @ fs", OF k(1) kM(1) k(2)]
      g(6-9) fmt_facts(1) [OF assms(3)] EF by (auto simp: going_state_def)
  have k1: "keeps (length fs) k (stopped si) (rc_adm r0) d1" using keeps_trans [OF g(4) stop(2)] by simp
  have b: "below d1" "allocated d1 (rc_encoders r0) (rc_files r0)" using allocated_keeps [OF g(3) stop(2)] by (simp_all add: allocated_def)
  have p: "si_encoder_destination (stopped si) = Some p" "ad_strs d1 p = Some (of_name cur)" using g(10,11) stop(3) by (simp_all add: stopped_def)
  obtain j d2 where c: "vj_perform_record_commit_single env (rec_state r0 d1 (rc_encoders r0) (rc_files r0) ?D) =
      Some (j, rec_state r0 d2 (rc_encoders r0) (rc_files r0) ?D)" "keeps 1 k (stopped si) d1 d2" "sample_at d1 j = None"
      "holds_file d2 j (of_name cur)" "ad_strs d1 \<subseteq>\<^sub>m ad_strs d2"
    using commit_sample [OF assms(2,3) k1 p b(1)] by blast
  have a1: "added (rc_adm r0) d1 fs js" by (rule added_keeps [OF g(5) stop(2) kM(2)])
  have a2: "added (rc_adm r0) d2 fs js" by (rule added_keeps [OF a1 c(2) kM(2)])
  have "sample_at (rc_adm r0) j = None"
    using keepsD(3) [OF k1, of j] keepsD(2) [OF k1] c(3) by (cases "j = k"; cases "sample_at (rc_adm r0) j") auto
  then have "added (rc_adm r0) d2 (fs @ [cur]) (js @ [j])" using added_snoc [OF a2 _ c(4,3) a1] by simp
  moreover have "ad_strs d2 p \<noteq> None" using c(5) p(2) by (auto simp: map_le_def dom_def)
  ultimately show ?thesis using stop(1) c(1) keeps_trans [OF k1 c(2)] allocated_keeps [OF b(2) c(2)] by auto
qed


text \<open>One frame of a recording: the file grows, is closed for a further one, or the recording is over.\<close>

definition over :: "recorder \<Rightarrow> int \<Rightarrow> sample_info \<Rightarrow> out_file list \<Rightarrow> int list \<Rightarrow> recorder \<Rightarrow> bool" where
  "over r0 k s0 fs js r \<longleftrightarrow> (\<exists>d si.
     rc_adm r = d \<and> rc_encoders r = rc_encoders r0 \<and> rc_files r = rc_files r0 \<and> rc_disk r = rc_disk r0 @ fs \<and>
     rc_vj r = (rc_vj r0)\<lparr>vi_adm := d\<rparr> \<and> keeps (length fs) k si (rc_adm r0) d \<and> no_encoder si = no_encoder s0 \<and> reset si = si \<and>
     added (rc_adm r0) d fs js)"

lemma reset_idem [simp]: "reset (reset si) = reset si"
  by (simp add: reset_def)

lemma going_record:
  assumes "going_at r0 k fmt n s0 fs js cur d si e f p" "recordable r0 k fmt s0 i" "good_env env fmt"
    "out = record_into env fmt cur"
  shows "\<exists>d'. sample_record_frame env k (going_state r0 fs cur d e f) =
      Some (if file_full env out then 2 else if int (length (concat (map of_frames (fs @ [out])))) \<ge> n then 1 else 0,
            going_state r0 fs out d' e f) \<and>
    keeps 0 k (counted (file_full env out) si) d d' \<and> ad_strs d' = ad_strs d"
proof -
  have g: "keeps (length fs) k si (rc_adm r0) d" "si_encoder_active si \<noteq> 0" "si_encoder si = Some e" "si_encoder_file si = Some f"
      "si_encoder_format si = fmt" "si_encoder_frames_to_record si = n" "si_encoder_frames_recorded si = int (length (of_frames cur))"
      "si_encoder_total_frames_recorded si = int (length (concat (map of_frames (fs @ [cur]))))"
    using assms(1) by (simp_all add: going_at_def open_at_def)
  have env: "re_encode env fmt (int (length (of_frames cur))) \<noteq> []" "\<And>buf. re_write env buf = 0" using assms(3) by (simp_all add: good_env_def)
  have kM: "k \<noteq> SAMPLE_MAX_SAMPLES" using assms(2) by (simp add: recordable_def)
  have out: "out = cur\<lparr>of_frames := of_frames cur @ [re_encode env (si_encoder_format si) (si_encoder_frames_recorded si)]\<rparr>"
    using assms(4) g(5,7) by (simp add: record_into_def)
  have tot: "si_encoder_total_frames_recorded si + 1 = int (length (concat (map of_frames (fs @ [out]))))"
    using g(8) by (simp add: assms(4) record_into_def)
  have "\<exists>d'. sample_record_frame env k (rec_state r0 d (insert e (rc_encoders r0)) ((rc_files r0)(f \<mapsto> cur)) (rc_disk r0 @ fs)) =
      Some (if file_full env out then 2 else if si_encoder_total_frames_recorded si + 1 \<ge> si_encoder_frames_to_record si then 1 else 0,
            rec_state r0 d' (insert e (rc_encoders r0)) ((rc_files r0)(f \<mapsto> cur, f \<mapsto> out)) (rc_disk r0 @ fs)) \<and>
    keeps 0 k (counted (file_full env out) si) d d' \<and> ad_strs d' = ad_strs d"
    by (rule record_sample [OF keepsD(1) [OF g(1)] kM keepsD(2) [OF g(1)] g(2,3) insertI1 g(4) _ refl _ env(2) out])
      (use env(1) g(5,7) in simp_all)
  then show ?thesis unfolding tot g(6) by (simp only: going_state_def fun_upd_upd)
qed

lemma open_keeps:
  assumes "open_at r0 k fmt s0 fs js cur d si e f p" "keeps 0 k sj d d'" "ad_strs d' = ad_strs d" "of_name out = of_name cur"
    "of_format out = of_format cur" "no_encoder sj = no_encoder si" "si_encoder_active sj = si_encoder_active si"
    "si_encoder sj = si_encoder si" "si_encoder_file sj = si_encoder_file si" "si_encoder_format sj = si_encoder_format si"
    "si_encoder_destination sj = si_encoder_destination si" "sample_at (rc_adm r0) k \<noteq> None"
  shows "open_at r0 k fmt s0 fs js out d' sj e f p"
proof -
  have g: "keeps (length fs) k si (rc_adm r0) d" "allocated d (rc_encoders r0) (rc_files r0)" "added (rc_adm r0) d fs js"
    using assms(1) by (simp_all add: open_at_def)
  note n = keeps_trans [OF g(1) assms(2)] allocated_keeps [OF g(2) assms(2)] added_keeps [OF g(3) assms(2,12)]
  show ?thesis using assms(1,3-11) n by (simp add: open_at_def)
qed

lemma counted_fields:
  "no_encoder (counted b si) = no_encoder si" "si_encoder_active (counted b si) = si_encoder_active si"
  "si_encoder (counted b si) = si_encoder si" "si_encoder_file (counted b si) = si_encoder_file si"
  "si_encoder_format (counted b si) = si_encoder_format si" "si_encoder_destination (counted b si) = si_encoder_destination si"
  "si_encoder_frames_to_record (counted b si) = si_encoder_frames_to_record si"
  "si_encoder_total_frames_recorded (counted b si) = si_encoder_total_frames_recorded si + 1"
  "si_encoder_frames_recorded (counted b si) = (if b then 0 else si_encoder_frames_recorded si + 1)"
  "si_sequence_num (counted b si) = si_sequence_num si + (if b then 1 else 0)"
  by (simp add: no_encoder_simps) (simp_all add: counted_def count_frame_def Let_def)

lemma record_into_fields:
  "of_name (record_into env fmt cur) = of_name cur" "of_format (record_into env fmt cur) = of_format cur"
  "length (of_frames (record_into env fmt cur)) = Suc (length (of_frames cur))"
  by (simp_all add: record_into_def)

lemma open_counted:
  assumes "going_at r0 k fmt n s0 fs js cur d si e f p" "keeps 0 k (counted b si) d d'" "ad_strs d' = ad_strs d"
    "out = record_into env fmt cur" "sample_at (rc_adm r0) k \<noteq> None"
  shows "open_at r0 k fmt s0 fs js out d' (counted b si) e f p"
proof -
  have "open_at r0 k fmt s0 fs js cur d si e f p" using assms(1) by (simp add: going_at_def)
  then show ?thesis
    by (rule open_keeps [OF _ assms(2,3) _ _ _ _ _ _ _ _ assms(5)]) (simp_all add: counted_fields assms(4) record_into_fields)
qed

lemma going_grows:
  assumes "going_at r0 k fmt n s0 fs js cur d si e f p" "keeps 0 k (counted False si) d d'" "ad_strs d' = ad_strs d"
    "out = record_into env fmt cur" "sample_at (rc_adm r0) k \<noteq> None"
  shows "going_at r0 k fmt n s0 fs js out d' (counted False si) e f p"
  using open_counted [OF assms] assms(1) by (simp add: going_at_def counted_fields assms(4) record_into_fields)

text \<open>A recording is started, with the name that is given or the one of the sample.\<close>

lemma start_going:
  assumes "recordable r0 k fmt s0 i" "can_start env fmt" "keeps (length fs) k si (rc_adm r0) d" "no_encoder si = no_encoder s0"
    "added (rc_adm r0) d fs js" "allocated d (rc_encoders r0) (rc_files r0)" "si_encoder_active si = 0"
    "\<forall>q. si_encoder_destination si = Some q \<longrightarrow> q \<in> dom (ad_strs d)" "0 < num"
    "(if si_encoder_total_frames_recorded si = 0 then num else si_encoder_frames_to_record si) = n"
    "si_encoder_total_frames_recorded si = int (length (concat (map of_frames fs)))" "si_sequence_num si = int (length fs)"
    "name = file_name (case filename of None \<Rightarrow> ''Sample_'' @ show_pad 4 k | Some f \<Rightarrow> f) (int (length fs)) (sample_ext fmt)"
    "cur = \<lparr>of_name = name, of_format = vj_avcodec_find_lav fmt, of_frames = []\<rparr>" "vi_current_edit_list (rc_vj r0) = Some el"
  shows "\<exists>r. sample_init_encoder env k filename fmt (Some (re_frame env)) (Some el) num
      (rec_state r0 d (rc_encoders r0) (rc_files r0) (rc_disk r0 @ fs)) = Some (1, r) \<and> going r0 k fmt n s0 fs js cur r"
proof -
  have kM: "k \<noteq> SAMPLE_MAX_SAMPLES" "sample_at (rc_adm r0) k \<noteq> None" using assms(1) by (simp_all add: recordable_def)
  note k = keepsD [OF assms(3)]
  have "\<exists>d' p e f. sample_init_encoder env k filename fmt (Some (re_frame env)) (Some el) num
      (rec_state r0 d (rc_encoders r0) (rc_files r0) (rc_disk r0 @ fs)) =
        Some (1, rec_state r0 d' (insert e (rc_encoders r0))
          ((rc_files r0)(f \<mapsto> \<lparr>of_name = name, of_format = vj_avcodec_find_lav fmt, of_frames = []\<rparr>)) (rc_disk r0 @ fs)) \<and>
      keeps 0 k (started env fmt num e f (si\<lparr>si_encoder_destination := Some p\<rparr>)) d d' \<and> e \<notin> rc_encoders r0 \<and> f \<notin> dom (rc_files r0) \<and>
      e < ad_next d' \<and> f < ad_next d' \<and> ad_strs d' p = Some name"
    by (rule init_sample [OF k(1) kM(1) k(2) assms(7,8,2,9,6)]) (simp add: assms(12,13))
  then obtain d' p e f where 1: "sample_init_encoder env k filename fmt (Some (re_frame env)) (Some el) num
      (rec_state r0 d (rc_encoders r0) (rc_files r0) (rc_disk r0 @ fs)) =
        Some (1, rec_state r0 d' (insert e (rc_encoders r0)) ((rc_files r0)(f \<mapsto> cur)) (rc_disk r0 @ fs))"
      "keeps 0 k (started env fmt num e f (si\<lparr>si_encoder_destination := Some p\<rparr>)) d d'" "e \<notin> rc_encoders r0" "f \<notin> dom (rc_files r0)"
      "e < ad_next d'" "f < ad_next d'" "ad_strs d' p = Some name"
    unfolding assms(14) by blast
  let ?s = "started env fmt num e f (si\<lparr>si_encoder_destination := Some p\<rparr>)"
  have "keeps (length fs) k ?s (rc_adm r0) d'" using keeps_trans [OF assms(3) 1(2)] by simp
  moreover have "no_encoder ?s = no_encoder s0" by (simp add: no_encoder_simps assms(4))
  moreover have "si_encoder_frames_to_record ?s = n" using assms(10) by (auto simp: started_fields split: if_splits)
  ultimately have "going_at r0 k fmt n s0 fs js cur d' ?s e f p"
    using 1(3-7) allocated_keeps [OF assms(6) 1(2)] added_keeps [OF assms(5) 1(2) kM(2)] assms(11,12,14)
    by (simp add: going_at_def open_at_def started_fields(1-6,8,9))
  then show ?thesis using 1(1) unfolding going_def going_state_def by blast
qed

text \<open>The names of the files after the first are those of the sample.\<close>

definition new_file :: "int \<Rightarrow> int \<Rightarrow> nat \<Rightarrow> out_file" where
  "new_file k fmt q = \<lparr>of_name = file_name (''Sample_'' @ show_pad 4 k) (int q) (sample_ext fmt),
     of_format = vj_avcodec_find_lav fmt, of_frames = []\<rparr>"

lemma length_record_into: "length (of_frames (record_into env fmt cur)) = Suc (length (of_frames cur))"
  by (simp add: record_into_def)

lemma record_step_on:
  assumes "going r0 k fmt n s0 fs js cur r" "recordable r0 k fmt s0 (Suc (length fs))" "good_env env fmt" "out = record_into env fmt cur"
    "int (length (concat (map of_frames (fs @ [out])))) < n"
  shows "\<exists>r'. vj_perform_record_sample_frame env k r = Some r' \<and>
    (if file_full env out then \<exists>j. going r0 k fmt n s0 (fs @ [out]) (js @ [j]) (new_file k fmt (Suc (length fs))) r'
     else going r0 k fmt n s0 fs js out r')"
proof -
  obtain d si e f p where g: "r = going_state r0 fs cur d e f" "going_at r0 k fmt n s0 fs js cur d si e f p"
    using assms(1) by (auto simp: going_def)
  have kM: "k \<noteq> SAMPLE_MAX_SAMPLES" "sample_at (rc_adm r0) k \<noteq> None" using assms(2) by (simp_all add: recordable_def)
  obtain d1 where 1: "sample_record_frame env k r = Some (if file_full env out then 2 else 0, going_state r0 fs out d1 e f)"
      "keeps 0 k (counted (file_full env out) si) d d1" "ad_strs d1 = ad_strs d"
    using going_record [OF g(2) assms(2-4)] assms(5) g(1) by (auto split: if_splits)
  show ?thesis
  proof (cases "file_full env out")
    case False
    then have b: "file_full env out = False" by simp
    from False have "vj_perform_record_sample_frame env k r = Some (going_state r0 fs out d1 e f)"
      using 1(1) by (simp add: vj_perform_record_sample_frame_def available_diskspace_def)
    moreover have "going r0 k fmt n s0 fs js out (going_state r0 fs out d1 e f)"
      using going_grows [OF g(2) 1(2) [unfolded b] 1(3) assms(4) kM(2)] unfolding going_def by blast
    ultimately show ?thesis using False by auto
  next
    case True
    then have b: "file_full env out = True" by simp
    let ?s = "counted True si" and ?m = "memo_sample d1 k"
    note k1 = 1(2) [unfolded b]
    have o1: "open_at r0 k fmt s0 fs js out d1 ?s e f p" by (rule open_counted [OF g(2) k1 1(3) assms(4) kM(2)])
    note d1 = keepsD(1,2) [OF k1]
    have o2: "open_at r0 k fmt s0 fs js out ?m ?s e f p"
      by (rule open_keeps [OF o1 keeps_memo [OF d1]]) (simp_all add: kM(2))
    obtain j d2 d3 where c: "sample_stop_encoder k (going_state r0 fs out ?m e f) =
        Some (1, rec_state r0 d2 (rc_encoders r0) (rc_files r0) (rc_disk r0 @ fs @ [out]))"
      "vj_perform_record_commit_single env (rec_state r0 d2 (rc_encoders r0) (rc_files r0) (rc_disk r0 @ fs @ [out])) =
        Some (j, rec_state r0 d3 (rc_encoders r0) (rc_files r0) (rc_disk r0 @ fs @ [out]))"
      "keeps (length (fs @ [out])) k (stopped ?s) (rc_adm r0) d3" "added (rc_adm r0) d3 (fs @ [out]) (js @ [j])"
      "allocated d3 (rc_encoders r0) (rc_files r0)" "ad_strs d3 p \<noteq> None"
      using close_and_add [OF o2 assms(2,3)] by blast
    let ?left = "n - int (length (concat (map of_frames (fs @ [out]))))"
    have s: "si_encoder_frames_to_record si = n" "si_sequence_num si = int (length fs)" "si_encoder_destination si = Some p"
        "si_encoder_total_frames_recorded si + 1 = int (length (concat (map of_frames (fs @ [out]))))" "no_encoder si = no_encoder s0"
      using g(2) by (simp_all add: going_at_def open_at_def assms(4) record_into_fields)
    have left: "on_rc (\<lambda>d. sample_get_frames_left d k) (going_state r0 fs out d1 e f) = Some (?left, going_state r0 fs out ?m e f)"
      using frames_left_sample [OF d1(1) kM(1) d1(2)] s(1,4) by (simp add: going_state_def counted_fields)
    obtain el where el: "vi_current_edit_list (rc_vj r0) = Some el" using assms(2) by (auto simp: recordable_def)
    obtain r' where i: "sample_init_encoder env k None fmt (Some (re_frame env)) (Some el) ?left
        (rec_state r0 d3 (rc_encoders r0) (rc_files r0) (rc_disk r0 @ fs @ [out])) = Some (1, r')"
      "going r0 k fmt n s0 (fs @ [out]) (js @ [j]) (new_file k fmt (Suc (length fs))) r'"
    proof -
      have "\<exists>r'. sample_init_encoder env k None fmt (Some (re_frame env)) (Some el) ?left
          (rec_state r0 d3 (rc_encoders r0) (rc_files r0) (rc_disk r0 @ (fs @ [out]))) = Some (1, r') \<and>
        going r0 k fmt n s0 (fs @ [out]) (js @ [j]) (new_file k fmt (Suc (length fs))) r'"
        by (rule start_going [OF assms(2) _ c(3) _ c(4,5)])
          (use assms(3,5) s c(6) el in \<open>simp_all add: good_env_def no_encoder_simps(1,2) stopped_fields counted_fields new_file_def domIff\<close>)
      then show ?thesis using that by auto
    qed
    have "rc_format r0 = fmt" using assms(2) by (simp add: recordable_def)
    then have "vj_perform_record_sample_frame env k r = Some r'"
      using 1(1) True left c(1,2) i(1) el assms(5)
      by (simp add: vj_perform_record_sample_frame_def available_diskspace_def split_sample_file_def)
    then show ?thesis using i(2) True by auto
  qed
qed


text \<open>The last frame: the file is closed, becomes a sample, and the encoder of the sample is reset.\<close>

lemma reset_over:
  assumes "recordable r0 k fmt s0 i" "keeps (length fs) k si (rc_adm r0) d" "added (rc_adm r0) d fs js" "no_encoder si = no_encoder s0"
  shows "\<exists>d1 d2. on_rc (\<lambda>d. sample_reset_encoder d k) (rec_state r0 d (rc_encoders r0) (rc_files r0) (rc_disk r0 @ fs)) =
      Some ((), rec_state r0 d1 (rc_encoders r0) (rc_files r0) (rc_disk r0 @ fs)) \<and>
    on_rc (\<lambda>d. sample_reset_autosplit d k) (rec_state r0 d1 (rc_encoders r0) (rc_files r0) (rc_disk r0 @ fs)) =
      Some (1, rec_state r0 d2 (rc_encoders r0) (rc_files r0) (rc_disk r0 @ fs)) \<and>
    over r0 k s0 fs js (rec_state r0 d2 (rc_encoders r0) (rc_files r0) (rc_disk r0 @ fs))"
proof -
  have kM: "k \<noteq> SAMPLE_MAX_SAMPLES" "sample_at (rc_adm r0) k \<noteq> None" using assms(1) by (simp_all add: recordable_def)
  obtain d1 d2 where r: "on_rc (\<lambda>d. sample_reset_encoder d k) (rec_state r0 d (rc_encoders r0) (rc_files r0) (rc_disk r0 @ fs)) =
      Some ((), rec_state r0 d1 (rc_encoders r0) (rc_files r0) (rc_disk r0 @ fs))"
    "on_rc (\<lambda>d. sample_reset_autosplit d k) (rec_state r0 d1 (rc_encoders r0) (rc_files r0) (rc_disk r0 @ fs)) =
      Some (1, rec_state r0 d2 (rc_encoders r0) (rc_files r0) (rc_disk r0 @ fs))" "keeps 0 k (reset si) d d2"
    using reset_sample [OF keepsD(1) [OF assms(2)] kM(1) keepsD(2) [OF assms(2)]] by blast
  have "keeps (length fs) k (reset si) (rc_adm r0) d2" using keeps_trans [OF assms(2) r(3)] by simp
  then have "over r0 k s0 fs js (rec_state r0 d2 (rc_encoders r0) (rc_files r0) (rc_disk r0 @ fs))"
    using added_keeps [OF assms(3) r(3) kM(2)] assms(4)
    by (auto simp: over_def no_encoder_simps intro!: exI [of _ "reset si"])
  then show ?thesis using r(1,2) by blast
qed

lemma over_settings: "over r0 k s0 fs js r \<Longrightarrow> over r0 k s0 fs js
    (r\<lparr>rc_sample_record := 0, rc_sample_record_id := 0, rc_sample_record_switch := 0, rc_render_list := 0\<rparr>)"
  by (simp add: over_def rc_adm_def)

lemma record_step_over:
  assumes "going r0 k fmt n s0 fs js cur r" "recordable r0 k fmt s0 (Suc (length fs))" "good_env env fmt" "out = record_into env fmt cur"
    "int (length (concat (map of_frames (fs @ [out])))) = n"
  shows "\<exists>r' j. vj_perform_record_sample_frame env k r = Some r' \<and> over r0 k s0 (fs @ [out]) (js @ [j]) r'"
proof -
  obtain d si e f p where g: "r = going_state r0 fs cur d e f" "going_at r0 k fmt n s0 fs js cur d si e f p"
    using assms(1) by (auto simp: going_def)
  have r0: "k \<noteq> SAMPLE_MAX_SAMPLES" "sample_at (rc_adm r0) k \<noteq> None" "uc_playback_mode (rc_vj r0) = VJ_PLAYBACK_MODE_SAMPLE"
      "uc_sample_id (rc_vj r0) = k" "seq_active (rc_vj r0) = 0" "rc_sample_record_switch r0 = 0"
    using assms(2) by (simp_all add: recordable_def)
  let ?s = "counted (file_full env out) si"
  obtain d1 where 1: "sample_record_frame env k r = Some (if file_full env out then 2 else 1, going_state r0 fs out d1 e f)"
      "keeps 0 k ?s d d1" "ad_strs d1 = ad_strs d"
    using going_record [OF g(2) assms(2-4)] assms(5) g(1) by (auto split: if_splits)
  have o1: "open_at r0 k fmt s0 fs js out d1 ?s e f p" by (rule open_counted [OF g(2) 1(2,3) assms(4) r0(2)])
  note d1 = keepsD(1,2) [OF 1(2)]
  have ns: "no_encoder (stopped ?s) = no_encoder s0" using g(2) by (simp add: going_at_def open_at_def no_encoder_simps)
  show ?thesis
  proof (cases "file_full env out")
    case True
    let ?m = "memo_sample d1 k"
    have o2: "open_at r0 k fmt s0 fs js out ?m ?s e f p"
      by (rule open_keeps [OF o1 keeps_memo [OF d1]]) (simp_all add: r0(2))
    obtain j d2 d3 where c: "sample_stop_encoder k (going_state r0 fs out ?m e f) =
        Some (1, rec_state r0 d2 (rc_encoders r0) (rc_files r0) (rc_disk r0 @ fs @ [out]))"
      "vj_perform_record_commit_single env (rec_state r0 d2 (rc_encoders r0) (rc_files r0) (rc_disk r0 @ fs @ [out])) =
        Some (j, rec_state r0 d3 (rc_encoders r0) (rc_files r0) (rc_disk r0 @ fs @ [out]))"
      "keeps (length (fs @ [out])) k (stopped ?s) (rc_adm r0) d3" "added (rc_adm r0) d3 (fs @ [out]) (js @ [j])"
      using close_and_add [OF o2 assms(2,3)] by blast
    have s: "si_encoder_frames_to_record si = n" "si_encoder_total_frames_recorded si + 1 = n"
      using g(2) assms(5) by (simp_all add: going_at_def assms(4) record_into_fields)
    have left: "on_rc (\<lambda>d. sample_get_frames_left d k) (going_state r0 fs out d1 e f) = Some (0, going_state r0 fs out ?m e f)"
      using frames_left_sample [OF d1(1) r0(1) d1(2)] s by (simp add: going_state_def counted_fields)
    obtain d4 d5 where "on_rc (\<lambda>d. sample_reset_encoder d k) (rec_state r0 d3 (rc_encoders r0) (rc_files r0) (rc_disk r0 @ fs @ [out])) =
        Some ((), rec_state r0 d4 (rc_encoders r0) (rc_files r0) (rc_disk r0 @ fs @ [out]))"
      "on_rc (\<lambda>d. sample_reset_autosplit d k) (rec_state r0 d4 (rc_encoders r0) (rc_files r0) (rc_disk r0 @ fs @ [out])) =
        Some (1, rec_state r0 d5 (rc_encoders r0) (rc_files r0) (rc_disk r0 @ fs @ [out]))"
      "over r0 k s0 (fs @ [out]) (js @ [j]) (rec_state r0 d5 (rc_encoders r0) (rc_files r0) (rc_disk r0 @ fs @ [out]))"
      using reset_over [OF assms(2) c(3,4) ns] by blast
    then show ?thesis using 1(1) True left c(1,2)
      by (auto simp: vj_perform_record_sample_frame_def available_diskspace_def split_sample_file_def)
  next
    case False
    have sd: "sequence_done (going_state r0 fs out d1 e f) = going_state r0 fs out d1 e f"
      using r0(5) by (simp add: sequence_done_def going_state_def)
    obtain j d2 d3 where c: "sample_stop_encoder k (going_state r0 fs out d1 e f) =
        Some (1, rec_state r0 d2 (rc_encoders r0) (rc_files r0) (rc_disk r0 @ fs @ [out]))"
      "vj_perform_record_commit_single env (rec_state r0 d2 (rc_encoders r0) (rc_files r0) (rc_disk r0 @ fs @ [out])) =
        Some (j, rec_state r0 d3 (rc_encoders r0) (rc_files r0) (rc_disk r0 @ fs @ [out]))"
      "keeps (length (fs @ [out])) k (stopped ?s) (rc_adm r0) d3" "added (rc_adm r0) d3 (fs @ [out]) (js @ [j])"
      using close_and_add [OF o1 assms(2,3)] by blast
    obtain d4 d5 where d: "on_rc (\<lambda>d. sample_reset_encoder d k) (rec_state r0 d3 (rc_encoders r0) (rc_files r0) (rc_disk r0 @ fs @ [out])) =
        Some ((), rec_state r0 d4 (rc_encoders r0) (rc_files r0) (rc_disk r0 @ fs @ [out]))"
      "on_rc (\<lambda>d. sample_reset_autosplit d k) (rec_state r0 d4 (rc_encoders r0) (rc_files r0) (rc_disk r0 @ fs @ [out])) =
        Some (1, rec_state r0 d5 (rc_encoders r0) (rc_files r0) (rc_disk r0 @ fs @ [out]))"
      "over r0 k s0 (fs @ [out]) (js @ [j]) (rec_state r0 d5 (rc_encoders r0) (rc_files r0) (rc_disk r0 @ fs @ [out]))"
      using reset_over [OF assms(2) c(3,4) ns] by blast
    have sw: "rc_sample_record_switch (rec_state r0 d5 (rc_encoders r0) (rc_files r0) (rc_disk r0 @ fs @ [out])) = 0"
      using r0(6) by (simp add: rec_state_def)
    show ?thesis using 1(1) False sd c(1,2) d(1,2) over_settings [OF d(3)] r0(3,4) sw
      by (auto simp: vj_perform_record_sample_frame_def available_diskspace_def vj_perform_record_stop_def)
  qed
qed


subsection \<open>A whole recording\<close>

fun record_frames :: "rec_env list \<Rightarrow> recorder \<Rightarrow> recorder option" where
  "record_frames [] r = Some r"
| "record_frames (env # es) r = do { r \<leftarrow> vj_perform_record_video_frame env r; record_frames es r }"

text \<open>The specification: the files that a recording makes of the frames, the file \<open>cur\<close> being the \<open>q\<close>-th and open.\<close>

fun recorded :: "int \<Rightarrow> int \<Rightarrow> nat \<Rightarrow> out_file \<Rightarrow> rec_env list \<Rightarrow> out_file list" where
  "recorded k fmt q cur [] = []"
| "recorded k fmt q cur (env # es) =
     (let out = record_into env fmt cur
      in if es = [] then [out]
         else if file_full env out then out # recorded k fmt (Suc q) (new_file k fmt (Suc q)) es
         else recorded k fmt q out es)"

lemma recorded_length:
  "es \<noteq> [] \<Longrightarrow> length (concat (map of_frames (recorded k fmt q cur es))) = length (of_frames cur) + length es"
  by (induction k fmt q cur es rule: recorded.induct) (auto simp: Let_def record_into_fields new_file_def)

lemma recordable_mono: "recordable r k fmt si j \<Longrightarrow> i \<le> j \<Longrightarrow> recordable r k fmt si i"
  by (simp add: recordable_def)

lemma enc_active_state:
  assumes "adm_ok d" "k \<noteq> SAMPLE_MAX_SAMPLES" "sample_at d k = Some si" "uc_playback_mode (rc_vj r) = VJ_PLAYBACK_MODE_SAMPLE"
    "uc_sample_id (rc_vj r) = k" "seq_active (rc_vj r) = 0"
  shows "enc_active (rec_state r d E F D) = Some (si_encoder_active si \<noteq> 0, rec_state r (memo_sample d k) E F D)"
proof -
  have "sample_var d k = Some ((1, Some (0, si_fader_active si, si_effect_toggle si, si_encoder_active si, 1)), memo_sample d k)"
    using assms(1-3) by (simp add: sample_var_def read_sample_at)
  then have "on_rc (\<lambda>d. sample_var d k) (rec_state r d E F D) =
      Some ((1, Some (0, si_fader_active si, si_effect_toggle si, si_encoder_active si, 1)), rec_state r (memo_sample d k) E F D)"
    by (rule on_rc_state)
  then show ?thesis using assms(4-6) by (simp add: enc_active_def)
qed

lemma going_video:
  assumes "going r0 k fmt n s0 fs js cur r" "recordable r0 k fmt s0 i"
  shows "\<exists>r'. going r0 k fmt n s0 fs js cur r' \<and>
    vj_perform_record_video_frame env r = vj_perform_record_sample_frame env k r'"
proof -
  obtain d si e f p where g: "r = going_state r0 fs cur d e f" "going_at r0 k fmt n s0 fs js cur d si e f p"
    using assms(1) by (auto simp: going_def)
  have r0: "k \<noteq> SAMPLE_MAX_SAMPLES" "sample_at (rc_adm r0) k \<noteq> None" "uc_playback_mode (rc_vj r0) = VJ_PLAYBACK_MODE_SAMPLE"
      "uc_sample_id (rc_vj r0) = k" "seq_active (rc_vj r0) = 0"
    using assms(2) by (simp_all add: recordable_def)
  have o: "open_at r0 k fmt s0 fs js cur d si e f p" using g(2) by (simp add: going_at_def)
  then have k: "adm_ok d" "sample_at d k = Some si" "si_encoder_active si = 1"
    using keepsD(1,2) [of "length fs" k si "rc_adm r0" d] by (simp_all add: open_at_def)
  let ?r = "going_state r0 fs cur (memo_sample d k) e f"
  have "open_at r0 k fmt s0 fs js cur (memo_sample d k) si e f p"
    by (rule open_keeps [OF o keeps_memo [OF k(1,2)]]) (simp_all add: r0(2))
  then have "going r0 k fmt n s0 fs js cur ?r" using g(2) unfolding going_def going_at_def by blast
  moreover have "enc_active r = Some (True, ?r)"
    unfolding g(1) going_state_def using enc_active_state [OF k(1) r0(1) k(2) r0(3-5)] k(3) by simp
  moreover have "vj_perform_record_frame env ?r = vj_perform_record_sample_frame env k ?r"
    using r0(3-5) by (simp add: vj_perform_record_frame_def going_state_def VJ_PLAYBACK_MODE_SAMPLE_def VJ_PLAYBACK_MODE_TAG_def)
  ultimately show ?thesis by (intro exI [of _ ?r]) (simp add: vj_perform_record_video_frame_def)
qed

lemma record_all:
  assumes "going r0 k fmt n s0 fs js cur r" "recordable r0 k fmt s0 (length fs + length es)" "\<forall>env \<in> set es. good_env env fmt"
    "es \<noteq> []" "int (length (concat (map of_frames (fs @ [cur])))) + int (length es) = n"
  shows "\<exists>r' js. record_frames es r = Some r' \<and> over r0 k s0 (fs @ recorded k fmt (length fs) cur es) js r'"
  using assms
proof (induction es arbitrary: fs js cur r)
  case (Cons env es)
  let ?out = "record_into env fmt cur"
  have g: "good_env env fmt" using Cons.prems(3) by simp
  have rc: "recordable r0 k fmt s0 (Suc (length fs))" by (rule recordable_mono [OF Cons.prems(2)]) simp
  obtain r1 where r1: "going r0 k fmt n s0 fs js cur r1"
      "vj_perform_record_video_frame env r = vj_perform_record_sample_frame env k r1"
    using going_video [OF Cons.prems(1,2)] by blast
  have len: "int (length (concat (map of_frames (fs @ [?out])))) + int (length es) = n"
    using Cons.prems(5) by (simp add: record_into_fields)
  show ?case
  proof (cases "es = []")
    case True
    then obtain r' j where "vj_perform_record_sample_frame env k r1 = Some r'" "over r0 k s0 (fs @ [?out]) (js @ [j]) r'"
      using record_step_over [OF r1(1) rc g refl] len by auto
    then show ?thesis using True r1(2) by auto
  next
    case False
    then have lt: "int (length (concat (map of_frames (fs @ [?out])))) < n" using len by (cases es) auto
    obtain r2 where r2: "vj_perform_record_sample_frame env k r1 = Some r2"
        "if file_full env ?out then \<exists>j. going r0 k fmt n s0 (fs @ [?out]) (js @ [j]) (new_file k fmt (Suc (length fs))) r2
         else going r0 k fmt n s0 fs js ?out r2"
      using record_step_on [OF r1(1) rc g refl lt] by blast
    have es: "\<forall>env \<in> set es. good_env env fmt" using Cons.prems(3) by simp
    show ?thesis
    proof (cases "file_full env ?out")
      case True
      then obtain j where j: "going r0 k fmt n s0 (fs @ [?out]) (js @ [j]) (new_file k fmt (Suc (length fs))) r2" using r2(2) by auto
      have "recordable r0 k fmt s0 (length (fs @ [?out]) + length es)" using Cons.prems(2) by simp
      from Cons.IH [OF j this es False] len show ?thesis using r1(2) r2(1) True False by (auto simp: new_file_def Let_def)
    next
      case False': False
      have "recordable r0 k fmt s0 (length fs + length es)" by (rule recordable_mono [OF Cons.prems(2)]) simp
      from Cons.IH [OF _ this es False len] show ?thesis using r1(2) r2 False' False by (auto simp: Let_def)
    qed
  qed
qed simp

lemma over_state:
  assumes "over r0 k s0 fs js r"
  obtains d si where "r = rec_state r d (rc_encoders r) (rc_files r) (rc_disk r)" "adm_ok d" "sample_at d k = Some si"
    "si_encoder_active si = 0" "rc_adm r = d"
proof -
  obtain d si where o: "rc_adm r = d" "keeps (length fs) k si (rc_adm r0) d" "reset si = si" using assms by (auto simp: over_def)
  have "si_encoder_active (reset si) = 0" by (simp add: reset_def)
  then show ?thesis using that [of d si] rec_state_self [of r] o keepsD(1,2) [OF o(2)] by simp
qed

text \<open>Once a recording is over, frames leave it alone.\<close>

lemma over_video:
  assumes "over r0 k s0 fs js r" "recordable r0 k fmt s0 i"
  shows "\<exists>r'. vj_perform_record_video_frame env r = Some r' \<and> over r0 k s0 fs js r'"
proof -
  obtain d si where o: "r = rec_state r d (rc_encoders r) (rc_files r) (rc_disk r)" "adm_ok d" "sample_at d k = Some si"
      "si_encoder_active si = 0" "rc_adm r = d"
    by (rule over_state [OF assms(1)])
  have v: "rc_vj r = (rc_vj r0)\<lparr>vi_adm := d\<rparr>" using assms(1) o(5) by (auto simp: over_def)
  have r0: "k \<noteq> SAMPLE_MAX_SAMPLES" "sample_at (rc_adm r0) k \<noteq> None" "uc_playback_mode (rc_vj r) = VJ_PLAYBACK_MODE_SAMPLE"
      "uc_sample_id (rc_vj r) = k" "seq_active (rc_vj r) = 0"
    using assms(2) by (simp_all add: recordable_def v)
  let ?r = "rec_state r (memo_sample d k) (rc_encoders r) (rc_files r) (rc_disk r)"
  have "enc_active r = Some (False, ?r)"
    using enc_active_state [where r = r and E = "rc_encoders r" and F = "rc_files r" and D = "rc_disk r", OF o(2) r0(1) o(3) r0(3-5)]
      o(1,4) by simp
  then have "vj_perform_record_video_frame env r = Some ?r" by (simp add: vj_perform_record_video_frame_def)
  moreover obtain sj where sj: "keeps (length fs) k sj (rc_adm r0) d" "no_encoder sj = no_encoder s0" "reset sj = sj"
      "added (rc_adm r0) d fs js" "rc_encoders r = rc_encoders r0" "rc_files r = rc_files r0" "rc_disk r = rc_disk r0 @ fs"
    using assms(1) o(5) by (auto simp: over_def)
  have "keeps (length fs) k sj (rc_adm r0) (memo_sample d k)"
    using keeps_trans [OF sj(1) keeps_memo [OF keepsD(1,2) [OF sj(1)]]] by simp
  then have "over r0 k s0 fs js ?r"
    using added_keeps [OF sj(4) keeps_memo [OF keepsD(1,2) [OF sj(1)]] r0(2)] sj(2,3,5-7) by (auto simp: over_def v)
  ultimately show ?thesis by blast
qed

lemma over_frames:
  assumes "over r0 k s0 fs js r" "recordable r0 k fmt s0 i"
  shows "\<exists>r'. record_frames es r = Some r' \<and> over r0 k s0 fs js r'"
  using assms(1)
proof (induction es arbitrary: r)
  case (Cons env es)
  then show ?case using over_video [OF Cons.prems assms(2), of env] by fastforce
qed simp


subsection \<open>Properties\<close>

definition recorded_files :: "int \<Rightarrow> int \<Rightarrow> string \<Rightarrow> rec_env list \<Rightarrow> out_file list" where
  "recorded_files k fmt t es =
     recorded k fmt 0 \<lparr>of_name = file_name t 0 (sample_ext fmt), of_format = vj_avcodec_find_lav fmt, of_frames = []\<rparr> es"

text \<open>A sample that is not being recorded and whose counters are those of a fresh encoder.\<close>

definition fresh_encoder :: "adm \<Rightarrow> sample_info \<Rightarrow> bool" where
  "fresh_encoder d si \<longleftrightarrow> si_encoder_active si = 0 \<and> si_encoder_total_frames_recorded si = 0 \<and> si_sequence_num si = 0 \<and>
     si_encoder_file si = None \<and> (\<forall>q. si_encoder_destination si = Some q \<longrightarrow> q \<in> dom (ad_strs d))"


text \<open>An encoder that gives one byte, files that are full after one frame, and movies of two frames.\<close>

definition movie_demo :: "string \<Rightarrow> editlist" where
  "movie_demo name = el_demo\<lparr>el_video_file_list := [0 \<mapsto> name]\<rparr>"

definition rec_demo :: rec_env where
  "rec_demo = \<lparr>re_start = (\<lambda>_ _. True), re_open = (\<lambda>_ _. True), re_encode = (\<lambda>_ _. ''x''), re_write = (\<lambda>_. 0), re_remain = (\<lambda>_. 1000),
     re_movie = (\<lambda>name. Some (movie_demo name, \<lparr>lav_format = CHR ''a'', lav_bogus_len = 0\<rparr>)),
     re_frame = \<lparr>fr_len = 76800, fr_uv_len = 38400, fr_width = 320, fr_height = 240\<rparr>, re_output_height = 240, re_audio = False,
     re_tag_frame = (\<lambda>_. 1), re_time = ''010125_120000'', re_play = env_quiet\<rparr>"

definition recorder_demo :: recorder where
  "recorder_demo = \<lparr>rc_vj = vj_demo (demo_loop 1), rc_encoders = {}, rc_files = Map.empty, rc_disk = [], rc_format = ENCODER_MJPEG,
     rc_rec_id = 0, rc_sample_record = 0, rc_sample_record_id = 0, rc_sample_record_switch = 0, rc_render_list = 0,
     rc_tag_record = 0, rc_tag_record_switch = 0, rc_offline_record = 0, rc_offline_tag_id = 0, rc_offline_created_sample = 0,
     rc_use_osd = 0\<rparr>"

lemma recorder_demo:
  "recordable recorder_demo 1 ENCODER_MJPEG (demo_loop 1) 2" "fresh_encoder (rc_adm recorder_demo) (demo_loop 1)"
  "can_start rec_demo ENCODER_MJPEG" "good_env rec_demo ENCODER_MJPEG"
proof -
  have s: "solo 1 (demo_loop 1) (vj_demo (demo_loop 1))" by (rule demo_solo; simp add: demo_loop_facts)
  then have a: "adm_ok (rc_adm recorder_demo)" "sample_at (rc_adm recorder_demo) 1 = Some (demo_loop 1)"
    by (simp_all add: solo_def plays_def recorder_demo_def rc_adm_def)
  have f: "ad_els (rc_adm recorder_demo) = [1 \<mapsto> el_demo]" "ad_strs (rc_adm recorder_demo) = Map.empty" "ad_next (rc_adm recorder_demo) = 2"
      "this_sample_id (rc_adm recorder_demo) = 2" "next_avail_num (rc_adm recorder_demo) = 0"
    by (simp_all add: recorder_demo_def rc_adm_def vj_demo_def adm_demo_def adm_start_def sample_init_def)
  show "recordable recorder_demo 1 ENCODER_MJPEG (demo_loop 1) 2"
    using a f by (simp add: recordable_def allocated_def below_def SAMPLE_MAX_SAMPLES_def) (simp add: recorder_demo_def vj_demo_def)
  show "fresh_encoder (rc_adm recorder_demo) (demo_loop 1)"
    by (simp add: fresh_encoder_def demo_loop_def sample_demo_def sample_zero_def)
  show c: "can_start rec_demo ENCODER_MJPEG" by (simp add: can_start_def rec_demo_def encoder_defs vj_avcodec_find_lav_def)
  have "movie_ok name (movie_demo name)" for name by (simp add: movie_ok_def movie_demo_def el_demo_def N_EL_FILE_def)
  then show "good_env rec_demo ENCODER_MJPEG" using c by (simp add: good_env_def) (simp add: rec_demo_def)
qed



subsection \<open>Formats without a file\<close>

lemma start_y4m:
  assumes "adm_ok d" "find_sample d k = Some a" "sample_at d k = Some si" "vj_avcodec_find_lav fmt = CHR ''S''"
    "si_encoder_destination si = Some p" "ad_strs d p = Some name" "re_start env fmt name" "si_encoder_file si = None"
  shows "\<exists>d' e sj. sample_start_encoder env a si fr fmt n (rec_state r (memo_sample d k) E F D) =
      Some (0, rec_state r d' (insert e E) F D) \<and> keeps 0 k sj d d' \<and> si_encoder_active sj = 1 \<and> si_encoder sj = Some e \<and>
    si_encoder_file sj = None \<and> si_encoder_format sj = fmt"
proof -
  let ?e = "ad_next d" and ?m = "memo_sample d k"
  let ?d1 = "?m\<lparr>ad_next := Suc ?e\<rparr>"
  let ?s = "si\<lparr>si_encoder := Some ?e, si_encoder_active := 1, si_encoder_format := fmt,
     si_encoder_frames_to_record := (if si_encoder_total_frames_recorded si = 0 then n else si_encoder_frames_to_record si),
     si_encoder_frames_recorded := 0, si_encoder_max_size := sample_max_size fmt fr,
     si_encoder_width := fr_width fr, si_encoder_height := fr_height fr\<rparr>"
  let ?d' = "put_sample a ?s ?d1"
  have side: "side ?m ?d1" using side_alloc(2) [OF adm_ok_memo [OF assms(1)]] by simp
  have "keeps 0 k ?s d ?d'"
    by (rule keeps_put [OF assms(1-3) side]) (auto simp: below_def intro: less_SucI)
  moreover have "sample_start_encoder env a si fr fmt n (rec_state r ?m E F D) = Some (0, rec_state r ?d' (insert ?e E) F D)"
    using assms(4-7) by (simp add: sample_start_encoder_def c_string_def vj_avcodec_start_def ad_alloc_def
        sufficient_space_def available_diskspace_def Let_def)
  ultimately show ?thesis using assms(8)
    by - (rule exI [of _ ?d'], rule exI [of _ ?e], rule exI [of _ ?s], simp)
qed

lemma record_without_file:
  assumes "adm_ok d" "k \<noteq> SAMPLE_MAX_SAMPLES" "sample_at d k = Some si" "si_encoder_active si \<noteq> 0" "si_encoder si = Some e" "e \<in> E"
    "si_encoder_file si = None" "re_encode env (si_encoder_format si) (si_encoder_frames_recorded si) \<noteq> []"
  shows "sample_record_frame env k (rec_state r d E F D) = None"
proof -
  obtain a where a: "find_sample d k = Some a" by (rule found_at [OF assms(3)])
  let ?d = "put_sample a (count_frame si) (memo_sample d k)"
  have p: "keeps 0 k (count_frame si) d ?d"
    by (rule keeps_put [OF assms(1) a assms(3) side_refl [OF adm_ok_memo [OF assms(1)]]]) (simp_all add: count_frame_def)
  obtain b where b: "find_sample ?d k = Some b" by (rule found_at [OF keepsD(2) [OF p]])
  have "sample_continue_record env k (rec_state r ?d E F D) = None"
    unfolding sample_continue_record_def with_rc_sample_found [OF keepsD(1) [OF p] assms(2) b keepsD(2) [OF p]]
    using assms(7) by (simp add: lav_bytes_remain_def count_frame_def)
  then show ?thesis
    using assms(4-8) by (simp add: sample_record_frame_def with_rc_sample_found [OF assms(1,2) a assms(3)] use_encoder_def)
qed

text \<open>
  Recording to a YUV4MPEG stream is undefined. The formats for such streams write without a file of their own;
  recording starts, and after the first frame is encoded the room left in the file is asked of a null pointer.
\<close>

theorem y4m_recording_undefined:
  assumes "recordable r k fmt si i" "fresh_encoder (rc_adm r) si" "fmt = ENCODER_YUV4MPEG \<or> fmt = ENCODER_YUV4MPEG420" "0 < n"
    "\<forall>name. re_start env fmt name" "\<forall>j. re_encode env' fmt j \<noteq> []"
  shows "\<exists>r'. sample_init_encoder env k (Some t) fmt (Some (re_frame env)) (vi_current_edit_list (rc_vj r)) n r = Some (1, r') \<and>
    vj_perform_record_video_frame env' r' = None"
proof -
  define d E F D where "d = rc_adm r" and "E = rc_encoders r" and "F = rc_files r" and "D = rc_disk r"
  have st: "rec_state r d E F D = r" by (simp add: rec_state_self d_def E_def F_def D_def)
  have r: "adm_ok d" "k \<noteq> SAMPLE_MAX_SAMPLES" "sample_at d k = Some si" "uc_playback_mode (rc_vj r) = VJ_PLAYBACK_MODE_SAMPLE"
      "uc_sample_id (rc_vj r) = k" "seq_active (rc_vj r) = 0"
    using assms(1) by (simp_all add: recordable_def d_def)
  obtain el where el: "vi_current_edit_list (rc_vj r) = Some el" using assms(1) by (auto simp: recordable_def)
  have si: "si_encoder_active si = 0" "si_encoder_file si = None" "\<forall>q. si_encoder_destination si = Some q \<longrightarrow> q \<in> dom (ad_strs d)"
    using assms(2) by (auto simp: fresh_encoder_def d_def)
  have fmt: "vj_avcodec_find_lav fmt = CHR ''S''" "\<not> (fmt < 0 \<or> fmt > NUM_ENCODERS)"
    using assms(3) by (auto simp: vj_avcodec_find_lav_def encoder_defs)
  obtain d1 p where 1: "sample_try_filename d k (Some t) fmt = Some (1, d1)" "keeps 0 k (si\<lparr>si_encoder_destination := Some p\<rparr>) d d1"
      "ad_strs d1 p = Some (file_name t (si_sequence_num si) (sample_ext fmt))"
    using try_filename [OF r(1-3) si(3), of _ "Some t" fmt] by auto
  let ?s = "si\<lparr>si_encoder_destination := Some p\<rparr>"
  note k1 = keepsD [OF 1(2)]
  obtain a where a: "find_sample d1 k = Some a" by (rule found_at [OF k1(2)])
  obtain d2 e sj where 2: "sample_start_encoder env a ?s (re_frame env) fmt n (rec_state r (memo_sample d1 k) E F D) =
      Some (0, rec_state r d2 (insert e E) F D)" "keeps 0 k sj d1 d2" "si_encoder_active sj = 1" "si_encoder sj = Some e"
      "si_encoder_file sj = None" "si_encoder_format sj = fmt"
    using start_y4m [OF k1(1) a k1(2) fmt(1) _ 1(3), of env "re_frame env" n r E F D] assms(5) si(2) by auto
  have "sample_init_encoder env k (Some t) fmt (Some (re_frame env)) (Some el) n (rec_state r d E F D) = Some (1, rec_state r d2 (insert e E) F D)"
    using fmt(2) assms(4) 2(1) si(1) by (simp add: sample_init_encoder_def on_rc_state [of "\<lambda>d. sample_try_filename d k (Some t) fmt" d, OF 1(1)]
        with_rc_sample_found [OF k1(1) r(2) a k1(2)])
  moreover have "vj_perform_record_video_frame env' (rec_state r d2 (insert e E) F D) = None"
  proof -
    note k2 = keepsD(1,2) [OF 2(2)]
    have act: "enc_active (rec_state r d2 (insert e E) F D) = Some (True, rec_state r (memo_sample d2 k) (insert e E) F D)"
      using enc_active_state [OF k2(1) r(2) k2(2) r(4-6)] 2(3) by simp
    have "sample_record_frame env' k (rec_state r (memo_sample d2 k) (insert e E) F D) = None"
      by (rule record_without_file [OF adm_ok_memo [OF k2(1)] r(2)]) (use k2(2) 2(3-6) assms(6) in auto)
    then show ?thesis using act r(4-6)
      by (simp add: vj_perform_record_video_frame_def vj_perform_record_frame_def vj_perform_record_sample_frame_def
          available_diskspace_def VJ_PLAYBACK_MODE_SAMPLE_def VJ_PLAYBACK_MODE_TAG_def)
  qed
  ultimately show ?thesis using el st by auto
qed

theorem y4m_recording_undefined_witness:
  "\<exists>r'. sample_init_encoder rec_demo 1 (Some ''holiday'') ENCODER_YUV4MPEG (Some (re_frame rec_demo))
       (vi_current_edit_list (rc_vj (recorder_demo\<lparr>rc_format := ENCODER_YUV4MPEG\<rparr>))) 10 (recorder_demo\<lparr>rc_format := ENCODER_YUV4MPEG\<rparr>) = Some (1, r') \<and>
     vj_perform_record_video_frame rec_demo r' = None"
proof -
  let ?r = "recorder_demo\<lparr>rc_format := ENCODER_YUV4MPEG\<rparr>"
  have "recordable ?r 1 ENCODER_YUV4MPEG (demo_loop 1) 2" "fresh_encoder (rc_adm ?r) (demo_loop 1)"
    using recorder_demo(1,2) by (simp_all add: recordable_def rc_adm_def)
  from y4m_recording_undefined [OF this, of 10 rec_demo rec_demo "''holiday''"] show ?thesis by (simp add: rec_demo_def)
qed

end
