(* ===== verification/VevoPort.thy ===== *)
theory VevoPort
  imports CText "HOL-Library.AList"
begin

text \<open>
  Property ports (\<open>libvevo/vevo.c\<close>): containers of named values, on which keyframes, plugins, fonts and the command
  table are kept.

  \<^item> A port of the types 1 to 50, or of a negative type, keeps its properties in a linked list, any other in a hash
    table. Beside either it keeps an index of the names. Properties are found by the 64-bit hash of their name.
  \<^item> Lists and table are association lists. The order of the table is not observed by what is modelled here.
  \<^item> The blocks of nodes, storages and atoms come from the pool of the port; here they are part of its value. A storage
    that is replaced is released to the pool.
  \<^item> A function that stores a value in \<open>*dst\<close> answers it. Sizes and alignments are those of x86-64, the memory is not
    exhausted, and \<open>vevo_strict_init\<close> has run (\<open>main\<close> calls it first), so the table of sizes is filled.
\<close>

type_synonym ukey = u64

definition VEVO_ATOM_TYPE_INT :: int where "VEVO_ATOM_TYPE_INT = 1"
definition VEVO_ATOM_TYPE_DOUBLE :: int where "VEVO_ATOM_TYPE_DOUBLE = 2"
definition VEVO_ATOM_TYPE_BOOL :: int where "VEVO_ATOM_TYPE_BOOL = 3"
definition VEVO_ATOM_TYPE_STRING :: int where "VEVO_ATOM_TYPE_STRING = 4"
definition VEVO_ATOM_TYPE_UINT64 :: int where "VEVO_ATOM_TYPE_UINT64 = 5"
definition VEVO_ATOM_TYPE_UTF8STRING :: int where "VEVO_ATOM_TYPE_UTF8STRING = 8"
definition VEVO_ATOM_TYPE_FUNCPTR :: int where "VEVO_ATOM_TYPE_FUNCPTR = 11"
definition VEVO_ATOM_TYPE_VOIDPTR :: int where "VEVO_ATOM_TYPE_VOIDPTR = 65"
definition VEVO_ATOM_TYPE_PORTPTR :: int where "VEVO_ATOM_TYPE_PORTPTR = 66"

definition VEVO_NO_ERROR :: int where "VEVO_NO_ERROR = 0"
definition VEVO_ERROR_MEMORY_ALLOCATION :: int where "VEVO_ERROR_MEMORY_ALLOCATION = 1"
definition VEVO_ERROR_NOSUCH_ELEMENT :: int where "VEVO_ERROR_NOSUCH_ELEMENT = 3"
definition VEVO_ERROR_NOSUCH_PROPERTY :: int where "VEVO_ERROR_NOSUCH_PROPERTY = 4"
definition VEVO_ERROR_PROPERTY_EMPTY :: int where "VEVO_ERROR_PROPERTY_EMPTY = 8"

definition VEVO_ANONYMOUS_PORT :: int where "VEVO_ANONYMOUS_PORT = - 1"
definition VEVO_PORT_POOL :: int where "VEVO_PORT_POOL = 1041"
definition VEVO_PROPERTY_SOFTREF :: int where "VEVO_PROPERTY_SOFTREF = 4"
definition VEVO_PROPERTY_PROTECTED :: int where "VEVO_PROPERTY_PROTECTED = 1024"

lemmas vevo_types = VEVO_ATOM_TYPE_INT_def VEVO_ATOM_TYPE_DOUBLE_def VEVO_ATOM_TYPE_BOOL_def VEVO_ATOM_TYPE_STRING_def
  VEVO_ATOM_TYPE_UINT64_def VEVO_ATOM_TYPE_UTF8STRING_def VEVO_ATOM_TYPE_FUNCPTR_def VEVO_ATOM_TYPE_VOIDPTR_def
  VEVO_ATOM_TYPE_PORTPTR_def

lemmas vevo_errors = VEVO_NO_ERROR_def VEVO_ERROR_MEMORY_ALLOCATION_def VEVO_ERROR_NOSUCH_ELEMENT_def
  VEVO_ERROR_NOSUCH_PROPERTY_def VEVO_ERROR_PROPERTY_EMPTY_def

subsection \<open>Names\<close>

text \<open>\<open>char\<close> is signed, and is sign-extended to the 64 bits of the key.\<close>

definition signed_char :: "char \<Rightarrow> int" where
  "signed_char c = (if (of_char c :: int) < 128 then of_char c else of_char c - 256)"

definition hash_step :: "ukey \<Rightarrow> char \<Rightarrow> ukey" where
  "hash_step h c = push_bit 5 h + h + word_of_int (signed_char c)"

definition hash_key_code :: "string \<Rightarrow> ukey" where
  "hash_key_code s = foldl hash_step 5381 s"

subsection \<open>Atoms\<close>

text \<open>
  A value of a property, as it lies at the address that is given: a number, a real number, a \<open>char *\<close> (possibly the null
  pointer) or another pointer.
\<close>

datatype vval = PInt int | PDouble rat | PU64 u64 | PStr "string option" | PPtr "addr option"

text \<open>\<open>at_value\<close> is \<open>None\<close> where there is no memory for a value, and where it has not been written yet.\<close>

record atom =
  at_type :: int
  at_value :: "vval option"
  at_size :: int
  at_set_func :: "addr option"
  at_get_func :: "addr option"

text \<open>\<open>atom_sizes_\<close> as \<open>vevo_strict_init\<close> leaves it.\<close>

definition atom_sizes :: "int \<Rightarrow> int" where
  "atom_sizes t =
     (if t \<in> {1, 3} then 4 else if t \<in> {2, 4, 5, 8, 65, 66} then 8 else 0)"

definition vevo_atom_size :: "int \<Rightarrow> int option" where
  "vevo_atom_size t = (if 0 \<le> t \<and> t < 100 then Some (atom_sizes t) else out_of_bounds)"

definition string_type :: "int \<Rightarrow> bool" where
  "string_type t \<longleftrightarrow> t = VEVO_ATOM_TYPE_STRING \<or> t = VEVO_ATOM_TYPE_UTF8STRING"

text \<open>The value that is read as one of type \<open>t\<close> is one. An \<open>int32_t\<close> has 32 bits.\<close>

fun has_type :: "int \<Rightarrow> vval \<Rightarrow> bool" where
  "has_type t (PInt i) \<longleftrightarrow> (t = VEVO_ATOM_TYPE_INT \<or> t = VEVO_ATOM_TYPE_BOOL) \<and> - 2147483648 \<le> i \<and> i < 2147483648"
| "has_type t (PDouble x) \<longleftrightarrow> t = VEVO_ATOM_TYPE_DOUBLE"
| "has_type t (PU64 w) \<longleftrightarrow> t = VEVO_ATOM_TYPE_UINT64"
| "has_type t (PStr s) \<longleftrightarrow> string_type t"
| "has_type t (PPtr p) \<longleftrightarrow> t = VEVO_ATOM_TYPE_VOIDPTR \<or> t = VEVO_ATOM_TYPE_PORTPTR"

definition vevo_new_atom :: "int \<Rightarrow> int \<Rightarrow> atom" where
  "vevo_new_atom t n = \<lparr>at_type = t, at_value = None, at_size = n, at_set_func = None, at_get_func = None\<rparr>"

text \<open>
  The value at \<open>dst\<close>, \<open>None\<close> for the null pointer, in a new atom. A string is copied with its end; of the null string
  there is nothing. A type without a size has no value.
\<close>

definition vevo_put_atom :: "int \<Rightarrow> vval option \<Rightarrow> atom option" where
  "vevo_put_atom t dst =
     (if string_type t
      then case dst of
             None \<Rightarrow> null_deref
           | Some (PStr None) \<Rightarrow> Some (vevo_new_atom t 0)
           | Some (PStr (Some s)) \<Rightarrow> Some ((vevo_new_atom t (int (length s) + 1))\<lparr>at_value := Some (PStr (Some s))\<rparr>)
           | Some _ \<Rightarrow> c_undefined
      else do {
        n \<leftarrow> vevo_atom_size t;
        if n = 0 then Some (vevo_new_atom t 0)
        else case dst of
               None \<Rightarrow> null_deref
             | Some x \<Rightarrow> if has_type t x then Some ((vevo_new_atom t n)\<lparr>at_value := Some x\<rparr>) else c_undefined })"

subsection \<open>Storages\<close>

text \<open>The union \<open>elements\<close> is a pointer to one atom or an array of pointers to several.\<close>

datatype elements = One "atom option" | Many "atom list"

record vevo_storage =
  st_atom_type :: int
  st_elements :: elements
  st_num_elements :: int
  st_flags :: int
  st_softlink :: int

definition vevo_new_storage :: vevo_storage where
  "vevo_new_storage = \<lparr>st_atom_type = 0, st_elements = One None, st_num_elements = 0, st_flags = 0, st_softlink = 0\<rparr>"

text \<open>The atoms that \<open>d\<close> had go back to the pool. \<open>src\<close> is the array of values, \<open>None\<close> for the null pointer.\<close>

definition storage_put_atom_value :: "vval list option \<Rightarrow> int \<Rightarrow> vevo_storage \<Rightarrow> int \<Rightarrow> vevo_storage option" where
  "storage_put_atom_value src n d v =
     (let d = d\<lparr>st_atom_type := v, st_num_elements := n\<rparr>
      in if n = 0 then do { k \<leftarrow> vevo_atom_size v; Some (d\<lparr>st_elements := One (Some (vevo_new_atom v k))\<rparr>) }
         else if n = 1 then do {
           a \<leftarrow> (case src of None \<Rightarrow> vevo_put_atom v None | Some [] \<Rightarrow> out_of_bounds | Some (x # _) \<Rightarrow> vevo_put_atom v (Some x));
           Some (d\<lparr>st_elements := One (Some a)\<rparr>) }
         else if n < 0 then c_undefined
         else case src of
                None \<Rightarrow> null_deref
              | Some xs \<Rightarrow>
                  if int (length xs) < n then out_of_bounds
                  else do {
                    as \<leftarrow> those (map (\<lambda>x. vevo_put_atom v (Some x)) (take (nat n) xs));
                    Some (d\<lparr>st_elements := Many as\<rparr>) })"

definition storage_put_atom_func :: "addr option \<Rightarrow> addr option \<Rightarrow> vevo_storage \<Rightarrow> int \<Rightarrow> vevo_storage" where
  "storage_put_atom_func set_func get_func d v =
     d\<lparr>st_atom_type := v, st_num_elements := 1,
       st_elements := One (Some ((vevo_new_atom v 0)\<lparr>at_set_func := set_func, at_get_func := get_func\<rparr>))\<rparr>"

text \<open>The single atom; the atom with index \<open>i\<close>. Reading the union as what it is not is undefined.\<close>

definition the_atom :: "vevo_storage \<Rightarrow> atom option" where
  "the_atom t = (case st_elements t of One (Some a) \<Rightarrow> Some a | One None \<Rightarrow> null_deref | Many _ \<Rightarrow> c_undefined)"

definition nth_atom :: "vevo_storage \<Rightarrow> int \<Rightarrow> atom option" where
  "nth_atom t i = (case st_elements t of Many as \<Rightarrow> c_nth as i | One _ \<Rightarrow> c_undefined)"

definition got_atom :: "vevo_storage \<Rightarrow> atom \<Rightarrow> int \<times> vval option" where
  "got_atom t a =
     (if at_size a \<le> 0 \<or> st_atom_type t = VEVO_ATOM_TYPE_FUNCPTR then (VEVO_NO_ERROR, None)
      else (VEVO_NO_ERROR, at_value a))"

text \<open>
  The error code, and what is copied to \<open>dst\<close> if anything is. A string of type \<open>VEVO_ATOM_TYPE_STRING\<close> is copied to where
  the pointer at \<open>dst\<close> points, anything else to \<open>dst\<close>.
\<close>

definition atom_get_value :: "vevo_storage \<Rightarrow> int \<Rightarrow> (int \<times> vval option) option" where
  "atom_get_value t idx =
     (if st_num_elements t = 1 \<and> idx = 0
      then case st_elements t of
             One None \<Rightarrow> Some (VEVO_ERROR_NOSUCH_ELEMENT, None)
           | One (Some a) \<Rightarrow> Some (got_atom t a)
           | Many _ \<Rightarrow> c_undefined
      else if 1 < st_num_elements t \<and> 0 \<le> idx \<and> idx < st_num_elements t
      then map_option (got_atom t) (nth_atom t idx)
      else if st_num_elements t = 0 \<and> idx = 0 then Some (VEVO_ERROR_PROPERTY_EMPTY, None)
      else Some (VEVO_ERROR_NOSUCH_ELEMENT, None))"

definition vevo_storage_size :: "vevo_storage \<Rightarrow> int option" where
  "vevo_storage_size t =
     (if st_num_elements t = 0 then Some 0
      else if st_num_elements t = 1 then map_option at_size (the_atom t)
      else case st_elements t of
             Many as \<Rightarrow> if st_num_elements t \<le> int (length as) then Some (sum_list (map at_size (take (nat (st_num_elements t)) as)))
                       else out_of_bounds
           | One _ \<Rightarrow> c_undefined)"

subsection \<open>Ports\<close>

text \<open>
  What a node of the hash table holds: a storage, or the number that \<open>vevo_property_soft_reference\<close> leaves there in
  place of it.
\<close>

datatype slot = Stored vevo_storage | Mislaid ukey

record vport =
  vp_table :: "(ukey \<times> slot) list option"
  vp_list :: "(ukey \<times> vevo_storage) list"
  vp_index :: "(string \<times> ukey) list"

definition vevo_port_new :: "int \<Rightarrow> vport" where
  "vevo_port_new t = \<lparr>vp_table = (if 1 \<le> t \<and> t \<le> 50 \<or> t < 0 then None else Some []), vp_list = [], vp_index = []\<rparr>"

definition prop_node_append :: "vport \<Rightarrow> ukey \<Rightarrow> vevo_storage \<Rightarrow> vport" where
  "prop_node_append p h t = p\<lparr>vp_list := vp_list p @ [(h, t)]\<rparr>"

definition prop_node_get :: "vport \<Rightarrow> ukey \<Rightarrow> vevo_storage option" where
  "prop_node_get p h = map_of (vp_list p) h"

definition port_node_append :: "vport \<Rightarrow> string \<Rightarrow> ukey \<Rightarrow> vport" where
  "port_node_append p key h = p\<lparr>vp_index := vp_index p @ [(key, h)]\<rparr>"

text \<open>The node of the table; looking a name up in a null table is undefined.\<close>

definition property_exists :: "vport \<Rightarrow> ukey \<Rightarrow> slot option option" where
  "property_exists p h = (case vp_table p of None \<Rightarrow> null_deref | Some t \<Rightarrow> Some (map_of t h))"

definition hnode_get :: "slot \<Rightarrow> vevo_storage option" where
  "hnode_get x = (case x of Stored t \<Rightarrow> Some t | Mislaid _ \<Rightarrow> dangling)"

text \<open>The storage under a hash, in the list or in the table.\<close>

definition find_storage :: "vport \<Rightarrow> ukey \<Rightarrow> vevo_storage option option" where
  "find_storage p h =
     (if vp_table p = None then Some (prop_node_get p h)
      else do {
        n \<leftarrow> property_exists p h;
        case n of None \<Rightarrow> Some None | Some x \<Rightarrow> map_option Some (hnode_get x) })"

definition set_node :: "ukey \<Rightarrow> slot \<Rightarrow> vport \<Rightarrow> vport" where
  "set_node h x p = p\<lparr>vp_table := map_option (AList.update h x) (vp_table p)\<rparr>"

definition set_storage :: "ukey \<Rightarrow> vevo_storage \<Rightarrow> vport \<Rightarrow> vport" where
  "set_storage h t p = (if vp_table p = None then p\<lparr>vp_list := AList.update h t (vp_list p)\<rparr> else set_node h (Stored t) p)"

text \<open>
  On a table \<open>hnode_put\<close> stores the hash where the storage was. The list is handled right.
\<close>

definition vevo_property_soft_reference :: "vport \<Rightarrow> string \<Rightarrow> (int \<times> vport) option" where
  "vevo_property_soft_reference p key = do {
     let h = hash_key_code key;
     t \<leftarrow> find_storage p h;
     Some (VEVO_NO_ERROR,
       case t of None \<Rightarrow> p
       | Some t \<Rightarrow> if vp_table p = None then set_storage h (t\<lparr>st_softlink := 1\<rparr>) p else set_node h (Mislaid h) p) }"

definition raise_flag :: "int \<Rightarrow> vport \<Rightarrow> string \<Rightarrow> (int \<times> vport) option" where
  "raise_flag b p key = do {
     let h = hash_key_code key;
     t \<leftarrow> find_storage p h;
     Some (case t of None \<Rightarrow> (VEVO_ERROR_NOSUCH_PROPERTY, p)
           | Some t \<Rightarrow> (VEVO_NO_ERROR, set_storage h (t\<lparr>st_flags := st_flags t OR b\<rparr>) p)) }"

definition vevo_property_protect :: "vport \<Rightarrow> string \<Rightarrow> (int \<times> vport) option" where
  "vevo_property_protect = raise_flag VEVO_PROPERTY_PROTECTED"

definition vevo_property_softref :: "vport \<Rightarrow> string \<Rightarrow> (int \<times> vport) option" where
  "vevo_property_softref = raise_flag VEVO_PROPERTY_SOFTREF"

definition vevo_property_exists :: "vport \<Rightarrow> string \<Rightarrow> int option" where
  "vevo_property_exists p key = do {
     let h = hash_key_code key;
     if vp_table p = None then Some (if prop_node_get p h \<noteq> None then 1 else 0)
     else do { n \<leftarrow> property_exists p h; Some (if n \<noteq> None then 1 else 0) } }"

subsection \<open>Reading\<close>

definition vevo_property_num_elements :: "vport option \<Rightarrow> string \<Rightarrow> int option" where
  "vevo_property_num_elements p key =
     (case p of None \<Rightarrow> Some (- 1)
      | Some p \<Rightarrow> do { t \<leftarrow> find_storage p (hash_key_code key); Some (case t of None \<Rightarrow> - 1 | Some t \<Rightarrow> st_num_elements t) })"

definition vevo_property_atom_type :: "vport \<Rightarrow> string \<Rightarrow> int option" where
  "vevo_property_atom_type p key = do {
     t \<leftarrow> find_storage p (hash_key_code key);
     Some (case t of None \<Rightarrow> - 1 | Some t \<Rightarrow> st_atom_type t) }"

text \<open>
  The braces are misplaced: the look-up in the table is the other branch of the look-up in the list, where there is no
  table, and a port with a table has no size.
\<close>

definition vevo_property_atom_size :: "vport \<Rightarrow> string \<Rightarrow> int option" where
  "vevo_property_atom_size p key = do {
     let h = hash_key_code key;
     if vp_table p = None
     then case prop_node_get p h of
            Some t \<Rightarrow> vevo_storage_size t
          | None \<Rightarrow> do { n \<leftarrow> property_exists p h; Some (- 1) }
     else Some (- 1) }"

text \<open>The answer is a \<open>size_t\<close>: -1 is its greatest value.\<close>

definition SIZE_T_MAX :: int where "SIZE_T_MAX = 18446744073709551615"

definition vevo_property_element_size :: "vport \<Rightarrow> string \<Rightarrow> int \<Rightarrow> int option" where
  "vevo_property_element_size p key idx = do {
     t \<leftarrow> find_storage p (hash_key_code key);
     case t of
       None \<Rightarrow> Some SIZE_T_MAX
     | Some t \<Rightarrow>
         if st_num_elements t = 1 then map_option at_size (the_atom t)
         else if 1 < st_num_elements t then map_option at_size (nth_atom t idx)
         else if vp_table p = None \<or> st_num_elements t = 0 then Some 0 else Some SIZE_T_MAX }"

definition vevo_property_get :: "vport \<Rightarrow> string \<Rightarrow> int \<Rightarrow> (int \<times> vval option) option" where
  "vevo_property_get p key idx = do {
     t \<leftarrow> find_storage p (hash_key_code key);
     case t of None \<Rightarrow> Some (VEVO_ERROR_NOSUCH_PROPERTY, None) | Some t \<Rightarrow> atom_get_value t idx }"

definition vv_property_get :: "vport \<Rightarrow> ukey \<Rightarrow> int \<Rightarrow> (int \<times> vval option) option" where
  "vv_property_get p h idx =
     (case prop_node_get p h of None \<Rightarrow> Some (VEVO_ERROR_NOSUCH_PROPERTY, None) | Some t \<Rightarrow> atom_get_value t idx)"

definition vevo_list_properties :: "vport option \<Rightarrow> string list option" where
  "vevo_list_properties p =
     (case p of None \<Rightarrow> None | Some p \<Rightarrow> if vp_index p = [] then None else Some (map fst (vp_index p)))"

definition vevo_num_properties :: "vport \<Rightarrow> int" where
  "vevo_num_properties p = int (length (vp_index p))"

subsection \<open>Writing\<close>

text \<open>
  The end of \<open>vevo_property_set\<close> and \<open>vevo_property_set_f\<close>: a new name goes to the end of index and list, the storage of
  one that exists is replaced.
\<close>

definition put_storage :: "bool \<Rightarrow> string \<Rightarrow> ukey \<Rightarrow> vevo_storage \<Rightarrow> vport \<Rightarrow> vport" where
  "put_storage new key h t p =
     (let p = (if new then port_node_append p key h else p)
      in if vp_table p = None then (if new then prop_node_append p h t else set_storage h t p) else set_node h (Stored t) p)"

definition vevo_property_set :: "vport \<Rightarrow> string \<Rightarrow> int \<Rightarrow> int \<Rightarrow> vval list option \<Rightarrow> (int \<times> vport) option" where
  "vevo_property_set p key atom_type n src = do {
     let h = hash_key_code key;
     old \<leftarrow> find_storage p h;
     t \<leftarrow> storage_put_atom_value src n vevo_new_storage atom_type;
     Some (VEVO_NO_ERROR, put_storage (old = None) key h t p) }"

definition vevo_property_set_f :: "vport \<Rightarrow> string \<Rightarrow> int \<Rightarrow> addr option \<Rightarrow> addr option \<Rightarrow> (int \<times> vport) option" where
  "vevo_property_set_f p key atom_type set_func get_func = do {
     let h = hash_key_code key;
     old \<leftarrow> find_storage p h;
     let t = storage_put_atom_func set_func get_func vevo_new_storage atom_type;
     Some (VEVO_NO_ERROR, put_storage (old = None) key h t p) }"

text \<open>By hash, on the list, without a name.\<close>

definition vv_property_set :: "vport \<Rightarrow> ukey \<Rightarrow> int \<Rightarrow> int \<Rightarrow> vval list option \<Rightarrow> (int \<times> vport) option" where
  "vv_property_set p h atom_type n src = do {
     t \<leftarrow> storage_put_atom_value src n vevo_new_storage atom_type;
     Some (VEVO_NO_ERROR,
       if prop_node_get p h = None then prop_node_append p h t else p\<lparr>vp_list := AList.update h t (vp_list p)\<rparr>) }"

text \<open>The first node that fits is taken out.\<close>

fun drop_node :: "('a \<Rightarrow> bool) \<Rightarrow> 'a list \<Rightarrow> 'a list" where
  "drop_node P [] = []"
| "drop_node P (x # xs) = (if P x then xs else x # drop_node P xs)"

text \<open>The names in the index are hashed again for the search.\<close>

definition drop_index :: "ukey \<Rightarrow> (string \<times> ukey) list \<Rightarrow> (string \<times> ukey) list" where
  "drop_index h xs =
     (case find (\<lambda>(k, _). hash_key_code k = h) xs of
        Some (_, c) \<Rightarrow> if c = h then drop_node (\<lambda>(k, _). hash_key_code k = h) xs else xs
      | None \<Rightarrow> xs)"

text \<open>
  Only the list is searched for the storage. The answer is always that there was no such property.
\<close>

definition vevo_property_del :: "vport \<Rightarrow> string \<Rightarrow> (int \<times> vport) option" where
  "vevo_property_del p key = do {
     let h = hash_key_code key;
     let p = p\<lparr>vp_index := drop_index h (vp_index p)\<rparr>;
     p \<leftarrow> (if prop_node_get p h = None then Some p
           else let p = p\<lparr>vp_list := drop_node (\<lambda>(k, _). k = h) (vp_list p)\<rparr>
                in if vp_table p = None then Some p
                   else do {
                     n \<leftarrow> property_exists p h;
                     case n of
                       None \<Rightarrow> Some p
                     | Some x \<Rightarrow> do { t \<leftarrow> hnode_get x; Some (p\<lparr>vp_table := map_option (AList.delete h) (vp_table p)\<rparr>) } });
     Some (VEVO_ERROR_NOSUCH_PROPERTY, p) }"

subsection \<open>Functions as properties\<close>

text \<open>Which function is called; the call itself happens outside.\<close>

definition vevo_property_call :: "vport \<Rightarrow> string \<Rightarrow> (int \<times> addr option) option" where
  "vevo_property_call p key = do {
     t \<leftarrow> find_storage p (hash_key_code key);
     case t of
       None \<Rightarrow> Some (VEVO_ERROR_NOSUCH_PROPERTY, None)
     | Some t \<Rightarrow> do { a \<leftarrow> the_atom t; f \<leftarrow> at_set_func a; Some (1, Some f) } }"

definition vevo_property_call_get :: "vport \<Rightarrow> string \<Rightarrow> addr option option" where
  "vevo_property_call_get p key = do {
     t \<leftarrow> find_storage p (hash_key_code key);
     case t of None \<Rightarrow> Some None | Some t \<Rightarrow> do { a \<leftarrow> the_atom t; f \<leftarrow> at_get_func a; Some (Some f) } }"

subsection \<open>Strings\<close>

text \<open>
  The string at a new block of \<open>n\<close> bytes. A value that is not of type \<open>VEVO_ATOM_TYPE_STRING\<close> is copied over the pointer to
  the block.
\<close>

definition string_value :: "int \<Rightarrow> int \<Rightarrow> vval option \<Rightarrow> string option" where
  "string_value t n x =
     (if t \<noteq> VEVO_ATOM_TYPE_STRING then c_undefined
      else case x of Some (PStr (Some s)) \<Rightarrow> if int (length s) < n then Some s else out_of_bounds | _ \<Rightarrow> c_undefined)"

definition vevo_property_get_string :: "vport \<Rightarrow> string \<Rightarrow> string option option" where
  "vevo_property_get_string p key = do {
     n \<leftarrow> vevo_property_element_size p key 0;
     if n \<le> 0 then Some None
     else do {
       (err, x) \<leftarrow> vevo_property_get p key 0;
       if err \<noteq> VEVO_NO_ERROR then Some None
       else do { t \<leftarrow> vevo_property_atom_type p key; s \<leftarrow> string_value t n x; Some (Some s) } } }"

text \<open>The blocks are cleared, so a null string comes out empty.\<close>

fun get_strings :: "vport \<Rightarrow> string \<Rightarrow> int list \<Rightarrow> string list option option" where
  "get_strings p key [] = Some (Some [])"
| "get_strings p key (i # js) = do {
     n \<leftarrow> vevo_property_element_size p key i;
     (err, x) \<leftarrow> vevo_property_get p key i;
     if err \<noteq> VEVO_NO_ERROR then Some None
     else do {
       t \<leftarrow> vevo_property_atom_type p key;
       s \<leftarrow> (if x = None then Some [] else string_value t (n + 1) x);
       rest \<leftarrow> get_strings p key js;
       Some (map_option ((#) s) rest) } }"

definition vevo_property_get_string_arr :: "vport \<Rightarrow> string \<Rightarrow> string list option option" where
  "vevo_property_get_string_arr p key = do {
     n \<leftarrow> vevo_property_num_elements (Some p) key;
     if n \<le> 0 then Some None else get_strings p key [0..n - 1] }"

subsection \<open>Copies\<close>

text \<open>The values of a property, one after the other.\<close>

fun get_all :: "vport \<Rightarrow> string \<Rightarrow> int list \<Rightarrow> vval list option option" where
  "get_all p key [] = Some (Some [])"
| "get_all p key (i # js) = do {
     (err, x) \<leftarrow> vevo_property_get p key i;
     if err \<noteq> VEVO_NO_ERROR then Some None
     else do {
       v \<leftarrow> x;
       rest \<leftarrow> get_all p key js;
       Some (map_option ((#) v) rest) } }"

text \<open>
  Arrays of strings are not copied, and nothing tells so. The empty string that the code tests for after it has
  returned for it is left out.
\<close>

definition vevo_property_clone :: "vport \<Rightarrow> vport \<Rightarrow> string \<Rightarrow> string \<Rightarrow> (int \<times> vport) option" where
  "vevo_property_clone p to key as_key = do {
     n \<leftarrow> vevo_property_num_elements (Some p) key;
     t \<leftarrow> vevo_property_atom_type p key;
     if n \<le> 0 then Some (if n = 0 then VEVO_ERROR_PROPERTY_EMPTY else VEVO_ERROR_NOSUCH_ELEMENT, to)
     else if t \<in> {VEVO_ATOM_TYPE_INT, VEVO_ATOM_TYPE_BOOL, VEVO_ATOM_TYPE_DOUBLE, VEVO_ATOM_TYPE_UINT64}
     then do {
       xs \<leftarrow> get_all p key [0..n - 1];
       case xs of
         None \<Rightarrow> Some (VEVO_ERROR_NOSUCH_ELEMENT, to)
       | Some xs \<Rightarrow> do {
           (err, to) \<leftarrow> vevo_property_set to as_key t n (Some xs);
           Some (if err \<noteq> VEVO_NO_ERROR then VEVO_ERROR_MEMORY_ALLOCATION else VEVO_NO_ERROR, to) } }
     else if string_type t \<and> n = 1
     then do {
       s \<leftarrow> vevo_property_get_string p key;
       (err, to) \<leftarrow> vevo_property_set to as_key t 1 (Some [PStr s]);
       Some (if err \<noteq> VEVO_NO_ERROR then VEVO_ERROR_MEMORY_ALLOCATION else VEVO_NO_ERROR, to) }
     else Some (VEVO_NO_ERROR, to) }"

text \<open>
  The properties of \<open>A\<close> of one type that \<open>B\<close> does not have are stored there as pointers. An empty \<open>A\<close> has no list of
  names, and the loop reads it all the same.
\<close>

fun union_names :: "vport \<Rightarrow> int \<Rightarrow> string list \<Rightarrow> vport \<Rightarrow> vport option" where
  "union_names A t [] B = Some B"
| "union_names A t (k # ks) B = do {
     there \<leftarrow> vevo_property_exists B k;
     ty \<leftarrow> (if there = 0 then vevo_property_atom_type A k else Some 0);
     B \<leftarrow> (if there = 0 \<and> ty = t
           then do {
             (err, x) \<leftarrow> vevo_property_get A k 0;
             if err \<noteq> VEVO_NO_ERROR then Some B
             else map_option snd (vevo_property_set B k VEVO_ATOM_TYPE_VOIDPTR 1 (Some [case x of None \<Rightarrow> PPtr None | Some v \<Rightarrow> v])) }
           else Some B);
     union_names A t ks B }"

definition vevo_union_ports :: "vport option \<Rightarrow> vport option \<Rightarrow> int \<Rightarrow> (int \<times> vport option) option" where
  "vevo_union_ports A B t =
     (case (A, B) of
        (Some A, Some B) \<Rightarrow> do {
          ks \<leftarrow> vevo_list_properties (Some A);
          B \<leftarrow> union_names A t ks B;
          Some (0, Some B) }
      | _ \<Rightarrow> Some (1, B))"

section \<open>What a port holds\<close>

text \<open>
  The specification: names with their type and their values, in the order in which the names were first used.
\<close>

type_synonym port_spec = "(string \<times> int \<times> vval list) list"

fun value_read :: "vval \<Rightarrow> vval option" where
  "value_read (PStr None) = None"
| "value_read x = Some x"

definition atom_of :: "int \<Rightarrow> vval \<Rightarrow> atom" where
  "atom_of t x =
     \<lparr>at_type = t,
       at_value = value_read x,
       at_size = (case x of PStr None \<Rightarrow> 0 | PStr (Some s) \<Rightarrow> int (length s) + 1 | _ \<Rightarrow> atom_sizes t),
       at_set_func = None, at_get_func = None\<rparr>"

definition storage_of :: "int \<Rightarrow> vval list \<Rightarrow> vevo_storage" where
  "storage_of t xs =
     \<lparr>st_atom_type = t,
       st_elements = (case xs of [] \<Rightarrow> One (Some (vevo_new_atom t (atom_sizes t))) | [x] \<Rightarrow> One (Some (atom_of t x))
                      | _ \<Rightarrow> Many (map (atom_of t) xs)),
       st_num_elements = int (length xs), st_flags = 0, st_softlink = 0\<rparr>"

definition well_typed :: "int \<Rightarrow> vval list \<Rightarrow> bool" where
  "well_typed t xs \<longleftrightarrow> 0 \<le> t \<and> t < 100 \<and> (\<forall>x \<in> set xs. has_type t x)"

text \<open>Up to the flags.\<close>

definition stores :: "vevo_storage \<Rightarrow> int \<times> vval list \<Rightarrow> bool" where
  "stores s v \<longleftrightarrow> s\<lparr>st_flags := 0, st_softlink := 0\<rparr> = storage_of (fst v) (snd v) \<and> well_typed (fst v) (snd v)"

lemma put_atom_typed: "has_type t x \<Longrightarrow> 0 \<le> t \<Longrightarrow> t < 100 \<Longrightarrow> vevo_put_atom t (Some x) = Some (atom_of t x)"
  by (cases x)
    (auto simp: vevo_put_atom_def atom_of_def vevo_new_atom_def vevo_atom_size_def atom_sizes_def string_type_def vevo_types
      split: option.splits)

lemma those_map_Some: "\<forall>x \<in> set xs. f x = Some (g x) \<Longrightarrow> those (map f xs) = Some (map g xs)"
  by (induction xs) auto

lemma storage_put:
  assumes "well_typed t xs"
  shows "storage_put_atom_value (Some xs) (int (length xs)) vevo_new_storage t = Some (storage_of t xs)"
proof -
  have put: "\<forall>x \<in> set xs. vevo_put_atom t (Some x) = Some (atom_of t x)"
    using assms put_atom_typed by (auto simp: well_typed_def)
  have all: "those (map (\<lambda>x. vevo_put_atom t (Some x)) xs) = Some (map (atom_of t) xs)" by (rule those_map_Some [OF put])
  consider "xs = []" | x where "xs = [x]" | x y ys where "xs = x # y # ys" by (cases xs; cases "tl xs") auto
  then show ?thesis
  proof cases
    case 1
    then show ?thesis using assms
      by (simp add: storage_put_atom_value_def vevo_atom_size_def well_typed_def storage_of_def vevo_new_storage_def)
  next
    case 2
    then show ?thesis using put by (simp add: storage_put_atom_value_def storage_of_def vevo_new_storage_def)
  next
    case 3
    then have "int (length xs) \<noteq> 0" "int (length xs) \<noteq> 1" by simp_all
    then show ?thesis using all 3
      by (simp add: storage_put_atom_value_def storage_of_def vevo_new_storage_def Let_def del: map_eq_conv)
  qed
qed

lemma stores_put: "well_typed t xs \<Longrightarrow> stores (storage_of t xs) (t, xs)"
  by (simp add: stores_def) (simp add: storage_of_def)

lemma stores_fields:
  assumes "stores s (t, xs)"
  shows "st_atom_type s = t" "st_num_elements s = int (length xs)" "st_elements s = st_elements (storage_of t xs)" "well_typed t xs"
proof -
  have eq: "s\<lparr>st_flags := 0, st_softlink := 0\<rparr> = storage_of t xs" using assms by (simp add: stores_def)
  show "st_atom_type s = t" "st_num_elements s = int (length xs)" "st_elements s = st_elements (storage_of t xs)"
    using arg_cong [OF eq, of st_atom_type] arg_cong [OF eq, of st_num_elements] arg_cong [OF eq, of st_elements]
    by (simp_all add: storage_of_def)
  show "well_typed t xs" using assms by (simp add: stores_def)
qed

text \<open>What reading the element \<open>i\<close> answers.\<close>

definition read_value :: "vval list \<Rightarrow> int \<Rightarrow> int \<times> vval option" where
  "read_value xs i =
     (if 0 \<le> i \<and> i < int (length xs) then (VEVO_NO_ERROR, value_read (xs ! nat i))
      else if xs = [] \<and> i = 0 then (VEVO_ERROR_PROPERTY_EMPTY, None) else (VEVO_ERROR_NOSUCH_ELEMENT, None))"

lemma got_atom_typed: "has_type t x \<Longrightarrow> st_atom_type s = t \<Longrightarrow> got_atom s (atom_of t x) = (VEVO_NO_ERROR, value_read x)"
  by (cases x) (auto simp: got_atom_def atom_of_def atom_sizes_def vevo_types string_type_def split: option.splits)

lemma get_stored:
  assumes "stores s (t, xs)"
  shows "atom_get_value s i = Some (read_value xs i)"
proof -
  note f = stores_fields [OF assms]
  have got: "x \<in> set xs \<Longrightarrow> got_atom s (atom_of t x) = (VEVO_NO_ERROR, value_read x)" for x
    using f(1,4) by (intro got_atom_typed) (auto simp: well_typed_def)
  consider "xs = []" | x where "xs = [x]" | x y ys where "xs = x # y # ys" by (cases xs; cases "tl xs") auto
  then show ?thesis
  proof cases
    case 1
    then show ?thesis using f by (simp add: atom_get_value_def read_value_def)
  next
    case 2
    then show ?thesis using f got by (auto simp: atom_get_value_def read_value_def storage_of_def)
  next
    case 3
    have many: "st_elements s = Many (map (atom_of t) xs)" using f(3) 3 by (simp add: storage_of_def)
    show ?thesis
    proof (cases "0 \<le> i \<and> i < int (length xs)")
      case True
      then have "c_nth (map (atom_of t) xs) i = Some (atom_of t (xs ! nat i))" by (simp add: nat_less_iff)
      then have "nth_atom s i = Some (atom_of t (xs ! nat i))" by (simp add: nth_atom_def many)
      moreover have "atom_get_value s i = map_option (got_atom s) (nth_atom s i)"
        using True 3 f(2) by (simp add: atom_get_value_def)
      moreover have "xs ! nat i \<in> set xs" using True by (simp add: nat_less_iff)
      ultimately show ?thesis using True got by (simp add: read_value_def)
    qed (use 3 f in \<open>auto simp: atom_get_value_def read_value_def\<close>)
  qed
qed

text \<open>
  The relation between a port and what it holds, for names that are told apart by their hashes.
\<close>

definition list_holds :: "(ukey \<times> vevo_storage) list \<Rightarrow> port_spec \<Rightarrow> bool" where
  "list_holds = list_all2 (\<lambda>(h, s) (k, v). h = hash_key_code k \<and> stores s v)"

definition table_holds :: "string set \<Rightarrow> (ukey \<times> slot) list \<Rightarrow> port_spec \<Rightarrow> bool" where
  "table_holds N tab S \<longleftrightarrow>
     (\<forall>k \<in> N. rel_option (\<lambda>v x. \<exists>s. x = Stored s \<and> stores s v) (map_of S k) (map_of tab (hash_key_code k)))"

definition port_holds :: "string set \<Rightarrow> vport \<Rightarrow> port_spec \<Rightarrow> bool" where
  "port_holds N p S \<longleftrightarrow>
     distinct (map fst S) \<and> fst ` set S \<subseteq> N \<and> vp_index p = map (\<lambda>(k, _). (k, hash_key_code k)) S \<and>
     (case vp_table p of None \<Rightarrow> list_holds (vp_list p) S | Some tab \<Rightarrow> vp_list p = [] \<and> table_holds N tab S)"

definition told_apart :: "string set \<Rightarrow> bool" where
  "told_apart N \<longleftrightarrow> inj_on hash_key_code N"

lemma told_apartD: "told_apart N \<Longrightarrow> j \<in> N \<Longrightarrow> k \<in> N \<Longrightarrow> hash_key_code j = hash_key_code k \<longleftrightarrow> j = k"
  by (auto simp: told_apart_def inj_on_def)

lemma list_holds_Cons:
  "list_holds ((h, s) # xs) S \<longleftrightarrow> (\<exists>k v S'. S = (k, v) # S' \<and> h = hash_key_code k \<and> stores s v \<and> list_holds xs S')"
  by (cases S) (auto simp: list_holds_def)

lemma list_holds_Nil [simp]: "list_holds [] S \<longleftrightarrow> S = []" by (simp add: list_holds_def)

lemma list_found:
  assumes "list_holds xs S" "told_apart N" "k \<in> N" "fst ` set S \<subseteq> N"
  shows "rel_option (\<lambda>v s. stores s v) (map_of S k) (map_of xs (hash_key_code k))"
  using assms(1,4)
proof (induction xs arbitrary: S)
  case (Cons x xs)
  obtain h s where x: "x = (h, s)" by (cases x)
  obtain j v S' where S: "S = (j, v) # S'" "h = hash_key_code j" "stores s v" "list_holds xs S'"
    using Cons.prems(1) by (auto simp: x list_holds_Cons)
  have j: "j \<in> N" "fst ` set S' \<subseteq> N" using Cons.prems(2) S(1) by auto
  show ?case
  proof (cases "k = j")
    case False
    then have "hash_key_code k \<noteq> h" using told_apartD [OF assms(2,3) j(1)] S(2) by simp
    with False Cons.IH [OF S(4) j(2)] show ?thesis by (simp add: S(1) x)
  qed (use S x in simp)
qed simp

lemma find_stored:
  assumes "port_holds N p S" "told_apart N" "k \<in> N"
  shows "\<exists>t. find_storage p (hash_key_code k) = Some t \<and> rel_option (\<lambda>v s. stores s v) (map_of S k) t"
proof (cases "vp_table p")
  case None
  have "list_holds (vp_list p) S" "fst ` set S \<subseteq> N" using assms(1) None by (simp_all add: port_holds_def)
  from list_found [OF this(1) assms(2,3) this(2)] None show ?thesis by (simp add: find_storage_def prop_node_get_def)
next
  case (Some tab)
  then have "table_holds N tab S" using assms(1) by (simp add: port_holds_def)
  with assms(3) have "rel_option (\<lambda>v x. \<exists>s. x = Stored s \<and> stores s v) (map_of S k) (map_of tab (hash_key_code k))"
    by (simp add: table_holds_def)
  with Some show ?thesis
    by (cases "map_of S k"; cases "map_of tab (hash_key_code k)")
      (auto simp: find_storage_def property_exists_def hnode_get_def)
qed

lemma list_update:
  assumes "list_holds xs S" "told_apart N" "k \<in> N" "fst ` set S \<subseteq> N" "stores s v"
  shows "list_holds (AList.update (hash_key_code k) s xs) (AList.update k v S)"
  using assms(1,4)
proof (induction xs arbitrary: S)
  case (Cons x xs)
  obtain h t where x: "x = (h, t)" by (cases x)
  obtain j w S' where S: "S = (j, w) # S'" "h = hash_key_code j" "stores t w" "list_holds xs S'"
    using Cons.prems(1) by (auto simp: x list_holds_Cons)
  have j: "j \<in> N" "fst ` set S' \<subseteq> N" using Cons.prems(2) S(1) by auto
  then have "h = hash_key_code k \<longleftrightarrow> j = k" using told_apartD [OF assms(2) j(1) assms(3)] S(2) by simp
  with Cons.IH [OF S(4) j(2)] S x assms(5) show ?case by (simp add: list_holds_Cons)
qed (simp add: list_holds_Cons assms(5))

lemma update_new: "map_of xs k = None \<Longrightarrow> AList.update k v xs = xs @ [(k, v)]"
  by (induction xs) (auto split: if_splits)

lemma update_old_names: "map_of S k = Some v \<Longrightarrow> map fst (AList.update k w S) = map fst S"
  by (induction S) (auto split: if_splits)

lemma index_names:
  "map (\<lambda>(k, _). (k, hash_key_code k)) S = map (\<lambda>k. (k, hash_key_code k)) (map fst S)"
  by (induction S) auto

lemma table_update:
  assumes "table_holds N tab S" "told_apart N" "k \<in> N" "stores s v"
  shows "table_holds N (AList.update (hash_key_code k) (Stored s) tab) (AList.update k v S)"
  unfolding table_holds_def
proof
  fix j assume j: "j \<in> N"
  have "hash_key_code j = hash_key_code k \<longleftrightarrow> j = k" by (rule told_apartD [OF assms(2) j assms(3)])
  moreover have "rel_option (\<lambda>v x. \<exists>s. x = Stored s \<and> stores s v) (map_of S j) (map_of tab (hash_key_code j))"
    using assms(1) j by (simp add: table_holds_def)
  ultimately show "rel_option (\<lambda>v x. \<exists>s. x = Stored s \<and> stores s v) (map_of (AList.update k v S) j)
      (map_of (AList.update (hash_key_code k) (Stored s) tab) (hash_key_code j))"
    using assms(4) by (cases "j = k") (simp_all add: update_conv')
qed

text \<open>Storing under a name is updating the specification there.\<close>

lemma put_holds:
  assumes "port_holds N p S" "told_apart N" "k \<in> N" "stores s v"
  shows "port_holds N (put_storage (map_of S k = None) k (hash_key_code k) s p) (AList.update k v S)"
proof -
  have S: "distinct (map fst S)" "fst ` set S \<subseteq> N" and idx: "vp_index p = map (\<lambda>k. (k, hash_key_code k)) (map fst S)"
    using assms(1) by (simp_all add: port_holds_def index_names)
  have S': "distinct (map fst (AList.update k v S))" "fst ` set (AList.update k v S) \<subseteq> N"
    using S assms(3) by (auto simp: distinct_update dom_update)
  let ?q = "put_storage (map_of S k = None) k (hash_key_code k) s p"
  have index: "vp_index ?q = map (\<lambda>k. (k, hash_key_code k)) (map fst (AList.update k v S))"
  proof (cases "map_of S k")
    case None
    then show ?thesis using idx
      by (simp add: put_storage_def Let_def port_node_append_def prop_node_append_def set_node_def update_new)
  next
    case (Some w)
    then show ?thesis
      using idx by (simp add: put_storage_def Let_def set_storage_def set_node_def update_old_names [OF Some] del: map_map)
  qed
  show ?thesis
  proof (cases "vp_table p")
    case None
    have l: "list_holds (vp_list p) S" using assms(1) None by (simp add: port_holds_def)
    have new: "map_of (vp_list p) (hash_key_code k) = None" if "map_of S k = None"
      using list_found [OF l assms(2,3) S(2)] that by simp
    have "vp_list ?q = AList.update (hash_key_code k) s (vp_list p)" "vp_table ?q = None"
      using None new
      by (auto simp: put_storage_def Let_def port_node_append_def prop_node_append_def set_storage_def update_new)
    then show ?thesis using S' index list_update [OF l assms(2,3) S(2) assms(4)] by (simp add: port_holds_def index_names)
  next
    case (Some tab)
    then have tab: "table_holds N tab S" "vp_list p = []" using assms(1) by (simp_all add: port_holds_def)
    have "vp_table ?q = Some (AList.update (hash_key_code k) (Stored s) tab)" "vp_list ?q = []"
      using Some tab(2) by (simp_all add: put_storage_def Let_def port_node_append_def set_node_def)
    then show ?thesis using S' index table_update [OF tab(1) assms(2,3,4)] by (simp add: port_holds_def index_names)
  qed
qed

text \<open>Taking a property out of a list.\<close>

lemma drop_none: "\<forall>x \<in> set xs. \<not> P x \<Longrightarrow> drop_node P xs = xs"
  by (induction xs) auto

lemma list_delete:
  assumes "list_holds xs S" "told_apart N" "k \<in> N" "fst ` set S \<subseteq> N" "distinct (map fst S)"
  shows "list_holds (drop_node (\<lambda>(h, _). h = hash_key_code k) xs) (AList.delete k S)"
  using assms(1,4,5)
proof (induction xs arbitrary: S)
  case (Cons x xs)
  obtain h s where x: "x = (h, s)" by (cases x)
  obtain j v S' where S: "S = (j, v) # S'" "h = hash_key_code j" "stores s v" "list_holds xs S'"
    using Cons.prems(1) by (auto simp: x list_holds_Cons)
  have j: "j \<in> N" "fst ` set S' \<subseteq> N" "distinct (map fst S')" "j \<notin> fst ` set S'" using Cons.prems(2,3) S(1) by auto
  show ?case
  proof (cases "j = k")
    case True
    with S x j(4) show ?thesis by simp
  next
    case False
    then have "h \<noteq> hash_key_code k" using told_apartD [OF assms(2) j(1) assms(3)] S(2) by simp
    with False Cons.IH [OF S(4) j(2,3)] S x show ?thesis by (simp add: list_holds_Cons)
  qed
qed simp

lemma index_delete:
  fixes S :: port_spec
  assumes "told_apart N" "k \<in> N" "fst ` set S \<subseteq> N" "distinct (map fst S)"
  shows "drop_index (hash_key_code k) (map (\<lambda>(k, _). (k, hash_key_code k)) S)
    = map (\<lambda>(k, _). (k, hash_key_code k)) (AList.delete k S)"
proof -
  let ?ix = "\<lambda>S. map (\<lambda>(k, _). (k, hash_key_code k)) S"
  have same: "find (\<lambda>(j, _). hash_key_code j = h) (?ix S) = Some (j, c) \<Longrightarrow> c = h" for h j c and S :: port_spec
    by (induction S) (auto split: if_splits)
  have gone: "find P xs = None \<Longrightarrow> drop_node P xs = xs" for P and xs :: "(string \<times> ukey) list"
    by (rule drop_none) (auto simp: find_None_iff)
  have "drop_index h (?ix S) = drop_node (\<lambda>(j, _). hash_key_code j = h) (?ix S)" for h
    using same [of h S] gone [of "\<lambda>(j, _). hash_key_code j = h" "?ix S"]
    by (auto simp: drop_index_def split: option.split prod.split)
  moreover have "drop_node (\<lambda>(j, _). hash_key_code j = hash_key_code k) (?ix S) = ?ix (AList.delete k S)"
    using assms(3,4)
  proof (induction S)
    case (Cons x S)
    obtain j v where x: "x = (j, v)" by (cases x)
    have "j \<in> N" using Cons.prems x by simp
    then have "hash_key_code j = hash_key_code k \<longleftrightarrow> j = k" by (rule told_apartD [OF assms(1) _ assms(2)])
    with Cons x show ?case by auto
  qed simp
  ultimately show ?thesis by simp
qed

lemma del_holds:
  assumes "port_holds N p S" "told_apart N" "k \<in> N" "vp_table p = None"
  shows "\<exists>q. vevo_property_del p k = Some (VEVO_ERROR_NOSUCH_PROPERTY, q) \<and> port_holds N q (AList.delete k S) \<and> vp_table q = None"
proof -
  let ?h = "hash_key_code k"
  have S: "distinct (map fst S)" "fst ` set S \<subseteq> N" "vp_index p = map (\<lambda>(k, _). (k, hash_key_code k)) S" "list_holds (vp_list p) S"
    using assms(1,4) by (simp_all add: port_holds_def)
  define q where "q = p\<lparr>vp_index := drop_index ?h (vp_index p), vp_list := drop_node (\<lambda>(h, _). h = ?h) (vp_list p)\<rparr>"
  have "prop_node_get p ?h = None \<Longrightarrow> drop_node (\<lambda>(h, _). h = ?h) (vp_list p) = vp_list p"
    by (intro drop_none) (force simp: prop_node_get_def map_of_eq_None_iff)
  then have "vevo_property_del p k = Some (VEVO_ERROR_NOSUCH_PROPERTY, q)"
    using assms(4) by (cases p) (auto simp: vevo_property_del_def q_def prop_node_get_def Let_def)
  moreover have "port_holds N q (AList.delete k S)"
    using S assms(4) index_delete [OF assms(2,3) S(2,1)] list_delete [OF S(4) assms(2,3) S(2,1)]
      dom_delete_subset [of k S] by (auto simp: port_holds_def q_def distinct_delete)
  ultimately show ?thesis using assms(4) by (auto simp: q_def)
qed

text \<open>A flag changes nothing of what is held.\<close>

lemma update_same: "list_holds xs S \<Longrightarrow> map_of xs h = Some t \<Longrightarrow> stores (t\<lparr>st_flags := f\<rparr>) = stores t \<Longrightarrow>
    list_holds (AList.update h (t\<lparr>st_flags := f\<rparr>) xs) S"
  by (induction xs arbitrary: S) (auto simp: list_holds_Cons split: if_splits)

lemma flag_holds:
  assumes "port_holds N p S" "told_apart N" "k \<in> N"
  shows "\<exists>q. raise_flag b p k = Some (if map_of S k = None then VEVO_ERROR_NOSUCH_PROPERTY else VEVO_NO_ERROR, q) \<and>
    port_holds N q S \<and> (vp_table q = None \<longleftrightarrow> vp_table p = None)"
proof -
  let ?h = "hash_key_code k"
  obtain t where t: "find_storage p ?h = Some t" "rel_option (\<lambda>v s. stores s v) (map_of S k) t"
    using find_stored [OF assms] by auto
  show ?thesis
  proof (cases t)
    case None
    with t assms(1) show ?thesis by (simp add: raise_flag_def)
  next
    case (Some s)
    then obtain v where v: "map_of S k = Some v" "stores s v" using t(2) by (cases "map_of S k") auto
    let ?s = "s\<lparr>st_flags := st_flags s OR b\<rparr>"
    have same: "stores ?s = stores s" by (rule ext) (simp add: stores_def)
    have raised: "raise_flag b p k = Some (VEVO_NO_ERROR, set_storage ?h ?s p)"
      using t(1) Some by (simp add: raise_flag_def Let_def)
    have "port_holds N (set_storage ?h ?s p) S"
    proof (cases "vp_table p")
      case None
      then have "map_of (vp_list p) ?h = Some s" using t(1) Some by (simp add: find_storage_def prop_node_get_def)
      then show ?thesis using None assms(1) update_same [of "vp_list p" S ?h s] same
        by (simp add: port_holds_def set_storage_def)
    next
      case (Some tab)
      have "table_holds N tab S" using assms(1) Some by (simp add: port_holds_def)
      then have "table_holds N (AList.update ?h (Stored ?s) tab) (AList.update k v S)"
        using assms(2,3) v(2) by (intro table_update) (simp_all add: same)
      moreover have "map_of (AList.update k v S) = map_of S" using v(1) by (auto simp: update_conv')
      ultimately show ?thesis using Some assms(1) by (simp add: port_holds_def set_storage_def set_node_def table_holds_def)
    qed
    then show ?thesis using v(1) raised by (auto simp: set_storage_def set_node_def)
  qed
qed

subsection \<open>Sequences of operations\<close>

datatype port_cmd =
    Put string int "vval list" | Del string | Fetch string int | Count string | Kind string | Names | Protect string | Softref string

datatype port_answer = Code int | Value int "vval option" | Listing "string list option"

fun exec_port :: "port_cmd \<Rightarrow> vport \<Rightarrow> (port_answer \<times> vport) option" where
  "exec_port (Put k t xs) p = map_option (map_prod Code id) (vevo_property_set p k t (int (length xs)) (Some xs))"
| "exec_port (Del k) p = map_option (map_prod Code id) (vevo_property_del p k)"
| "exec_port (Fetch k i) p = map_option (\<lambda>(e, x). (Value e x, p)) (vevo_property_get p k i)"
| "exec_port (Count k) p = map_option (\<lambda>n. (Code n, p)) (vevo_property_num_elements (Some p) k)"
| "exec_port (Kind k) p = map_option (\<lambda>n. (Code n, p)) (vevo_property_atom_type p k)"
| "exec_port Names p = Some (Listing (vevo_list_properties (Some p)), p)"
| "exec_port (Protect k) p = map_option (map_prod Code id) (vevo_property_protect p k)"
| "exec_port (Softref k) p = map_option (map_prod Code id) (vevo_property_softref p k)"

fun run_port :: "port_cmd list \<Rightarrow> vport \<Rightarrow> (port_answer list \<times> vport) option" where
  "run_port [] p = Some ([], p)"
| "run_port (c # cs) p = do { (a, p) \<leftarrow> exec_port c p; (as, p) \<leftarrow> run_port cs p; Some (a # as, p) }"

fun spec_port :: "port_cmd \<Rightarrow> port_spec \<Rightarrow> port_answer \<times> port_spec" where
  "spec_port (Put k t xs) S = (Code VEVO_NO_ERROR, AList.update k (t, xs) S)"
| "spec_port (Del k) S = (Code VEVO_ERROR_NOSUCH_PROPERTY, AList.delete k S)"
| "spec_port (Fetch k i) S =
     (case map_of S k of None \<Rightarrow> Value VEVO_ERROR_NOSUCH_PROPERTY None
      | Some (t, xs) \<Rightarrow> case_prod Value (read_value xs i), S)"
| "spec_port (Count k) S = (Code (case map_of S k of None \<Rightarrow> - 1 | Some (t, xs) \<Rightarrow> int (length xs)), S)"
| "spec_port (Kind k) S = (Code (case map_of S k of None \<Rightarrow> - 1 | Some (t, xs) \<Rightarrow> t), S)"
| "spec_port Names S = (Listing (if S = [] then None else Some (map fst S)), S)"
| "spec_port (Protect k) S = (Code (if map_of S k = None then VEVO_ERROR_NOSUCH_PROPERTY else VEVO_NO_ERROR), S)"
| "spec_port (Softref k) S = (Code (if map_of S k = None then VEVO_ERROR_NOSUCH_PROPERTY else VEVO_NO_ERROR), S)"

fun spec_run :: "port_cmd list \<Rightarrow> port_spec \<Rightarrow> port_answer list \<times> port_spec" where
  "spec_run [] S = ([], S)"
| "spec_run (c # cs) S = (let (a, S) = spec_port c S; (as, S) = spec_run cs S in (a # as, S))"

text \<open>
  Commands on the names \<open>N\<close>; values are of the type they are stored as. Only ports with a list delete.
\<close>

fun port_cmd_ok :: "bool \<Rightarrow> string set \<Rightarrow> port_cmd \<Rightarrow> bool" where
  "port_cmd_ok lst N (Put k t xs) \<longleftrightarrow> k \<in> N \<and> well_typed t xs \<and> length xs < 2147483648"
| "port_cmd_ok lst N (Del k) \<longleftrightarrow> lst \<and> k \<in> N"
| "port_cmd_ok lst N (Fetch k i) \<longleftrightarrow> k \<in> N"
| "port_cmd_ok lst N (Count k) \<longleftrightarrow> k \<in> N"
| "port_cmd_ok lst N (Kind k) \<longleftrightarrow> k \<in> N"
| "port_cmd_ok lst N Names \<longleftrightarrow> True"
| "port_cmd_ok lst N (Protect k) \<longleftrightarrow> k \<in> N"
| "port_cmd_ok lst N (Softref k) \<longleftrightarrow> k \<in> N"

lemma read_holds:
  assumes "port_holds N p S" "told_apart N" "k \<in> N"
  shows "vevo_property_get p k i =
      Some (case map_of S k of None \<Rightarrow> (VEVO_ERROR_NOSUCH_PROPERTY, None) | Some (t, xs) \<Rightarrow> read_value xs i)"
    "vevo_property_num_elements (Some p) k = Some (case map_of S k of None \<Rightarrow> - 1 | Some (t, xs) \<Rightarrow> int (length xs))"
    "vevo_property_atom_type p k = Some (case map_of S k of None \<Rightarrow> - 1 | Some (t, xs) \<Rightarrow> t)"
proof -
  obtain t where t: "find_storage p (hash_key_code k) = Some t" "rel_option (\<lambda>v s. stores s v) (map_of S k) t"
    using find_stored [OF assms] by auto
  show "vevo_property_get p k i =
      Some (case map_of S k of None \<Rightarrow> (VEVO_ERROR_NOSUCH_PROPERTY, None) | Some (t, xs) \<Rightarrow> read_value xs i)"
    "vevo_property_num_elements (Some p) k = Some (case map_of S k of None \<Rightarrow> - 1 | Some (t, xs) \<Rightarrow> int (length xs))"
    "vevo_property_atom_type p k = Some (case map_of S k of None \<Rightarrow> - 1 | Some (t, xs) \<Rightarrow> t)"
    using t(2) by (cases "map_of S k"; cases t;
      auto simp: vevo_property_get_def vevo_property_num_elements_def vevo_property_atom_type_def t(1) get_stored stores_fields)+
qed

lemma set_holds:
  assumes "port_holds N p S" "told_apart N" "k \<in> N" "well_typed t xs"
  shows "\<exists>q. vevo_property_set p k t (int (length xs)) (Some xs) = Some (VEVO_NO_ERROR, q) \<and>
    port_holds N q (AList.update k (t, xs) S) \<and> (vp_table q = None \<longleftrightarrow> vp_table p = None)"
proof -
  obtain s where s: "find_storage p (hash_key_code k) = Some s" "rel_option (\<lambda>v s. stores s v) (map_of S k) s"
    using find_stored [OF assms(1-3)] by auto
  have "s = None \<longleftrightarrow> map_of S k = None" using s(2) by (cases s; cases "map_of S k") auto
  then have "vevo_property_set p k t (int (length xs)) (Some xs) =
      Some (VEVO_NO_ERROR, put_storage (map_of S k = None) k (hash_key_code k) (storage_of t xs) p)"
    by (simp add: vevo_property_set_def s(1) storage_put [OF assms(4)] Let_def)
  then show ?thesis using put_holds [OF assms(1-3) stores_put [OF assms(4)]]
    by (auto simp: put_storage_def Let_def port_node_append_def prop_node_append_def set_storage_def set_node_def)
qed

lemma exec_port_spec:
  assumes "port_holds N p S" "told_apart N" "port_cmd_ok (vp_table p = None) N c"
  shows "\<exists>q. exec_port c p = Some (fst (spec_port c S), q) \<and> port_holds N q (snd (spec_port c S)) \<and>
    (vp_table q = None \<longleftrightarrow> vp_table p = None)"
proof (cases c)
  case (Put k t xs)
  with set_holds [OF assms(1,2), of k t xs] assms(3) show ?thesis by auto
next
  case (Del k)
  with del_holds [OF assms(1,2), of k] assms(3) show ?thesis by auto
next
  case (Fetch k i)
  with read_holds(1) [OF assms(1,2), of k i] assms(1,3) show ?thesis by (auto split: option.splits prod.splits)
next
  case (Count k)
  with read_holds(2) [OF assms(1,2), of k] assms(1,3) show ?thesis by auto
next
  case (Kind k)
  with read_holds(3) [OF assms(1,2), of k] assms(1,3) show ?thesis by auto
next
  case Names
  with assms(1) show ?thesis by (auto simp: vevo_list_properties_def port_holds_def comp_def case_prod_beta)
next
  case (Protect k)
  with flag_holds [OF assms(1,2), of k] assms(3) show ?thesis by (auto simp: vevo_property_protect_def)
next
  case (Softref k)
  with flag_holds [OF assms(1,2), of k] assms(3) show ?thesis by (auto simp: vevo_property_softref_def)
qed

lemma run_port_spec:
  assumes "told_apart N" "\<forall>c \<in> set cs. port_cmd_ok lst N c"
  shows "port_holds N p S \<Longrightarrow> lst = (vp_table p = None) \<Longrightarrow>
    \<exists>q. run_port cs p = Some (fst (spec_run cs S), q) \<and> port_holds N q (snd (spec_run cs S)) \<and> lst = (vp_table q = None)"
  using assms(2)
proof (induction cs arbitrary: p S)
  case (Cons c cs)
  obtain q where q: "exec_port c p = Some (fst (spec_port c S), q)" "port_holds N q (snd (spec_port c S))"
      "vp_table q = None \<longleftrightarrow> vp_table p = None"
    using exec_port_spec [OF Cons.prems(1) assms(1), of c] Cons.prems(2,3) by auto
  with Cons.IH [OF q(2)] Cons.prems(2,3) show ?case by (auto simp: Let_def split: prod.splits)
qed simp

lemma new_port_holds: "port_holds N (vevo_port_new t) []" "vp_table (vevo_port_new t) = None \<longleftrightarrow> 1 \<le> t \<and> t \<le> 50 \<or> t < 0"
  by (simp_all add: port_holds_def vevo_port_new_def table_holds_def list_holds_def)

text \<open>
  C32. A port is a store of named values. Whatever sequence of commands sets, deletes, reads, counts, lists and protects
  properties of a new port, none of them has an undefined effect, and all answer as the specification does, which keeps
  the names with their types and values in the order of their first use - provided that the names have different hashes
  and, on a port with a table, that nothing is deleted.
\<close>

theorem port_commands_refine:
  assumes "told_apart N" "\<forall>c \<in> set cs. port_cmd_ok (1 \<le> t \<and> t \<le> 50 \<or> t < 0) N c"
  shows "\<exists>p. run_port cs (vevo_port_new t) = Some (fst (spec_run cs []), p)"
  using run_port_spec [OF assms new_port_holds(1)] new_port_holds(2) by blast

theorem port_commands_refine_witness:
  "\<exists>p. run_port [Put ''start'' 1 [PInt 5], Put ''path'' 4 [PStr (Some ''a.avi''), PStr (Some ''b'')], Put ''start'' 1 [PInt 7],
      Fetch ''start'' 0, Fetch ''path'' 1, Del ''path'', Fetch ''path'' 0, Names] (vevo_port_new VEVO_ANONYMOUS_PORT)
    = Some ([Code 0, Code 0, Code 0, Value 0 (Some (PInt 7)), Value 0 (Some (PStr (Some ''b''))), Code 4, Value 4 None,
        Listing (Some [''start''])], p)"
proof -
  let ?cs = "[Put ''start'' 1 [PInt 5], Put ''path'' 4 [PStr (Some ''a.avi''), PStr (Some ''b'')], Put ''start'' 1 [PInt 7],
      Fetch ''start'' 0, Fetch ''path'' 1, Del ''path'', Fetch ''path'' 0, Names]"
  have "hash_key_code ''start'' \<noteq> hash_key_code ''path''" by code_simp
  then have apart: "told_apart {''start'', ''path''}" by (auto simp: told_apart_def)
  have "\<forall>c \<in> set ?cs. port_cmd_ok (1 \<le> VEVO_ANONYMOUS_PORT \<and> VEVO_ANONYMOUS_PORT \<le> 50 \<or> VEVO_ANONYMOUS_PORT < 0) {''start'', ''path''} c"
    by (simp add: VEVO_ANONYMOUS_PORT_def well_typed_def vevo_types string_type_def)
  from port_commands_refine [OF apart this] show ?thesis
    by (simp add: read_value_def vevo_errors Let_def)
qed

section \<open>Where a port is not a store of named values\<close>

lemma hash_prefix: "hash_key_code u = hash_key_code u' \<Longrightarrow> hash_key_code (u @ v) = hash_key_code (u' @ v)"
  by (simp add: hash_key_code_def)

lemma hash_collides:
  assumes "signed_char c' = signed_char c + 1" "signed_char d' = signed_char d - 33"
  shows "hash_key_code (u @ [c', d'] @ v) = hash_key_code (u @ [c, d] @ v)"
proof -
  have "hash_step (hash_step h c') d' = hash_step (hash_step h c) d" for h
    by (simp add: hash_step_def assms push_bit_eq_mult algebra_simps)
  then have "hash_key_code (u @ [c', d']) = hash_key_code (u @ [c, d])" by (simp add: hash_key_code_def)
  from hash_prefix [OF this, of v] show ?thesis by simp
qed

text \<open>
  Two names whose hashes agree are one property. They agree when somewhere a character is replaced by the next one
  and the one after it by the one 33 before it, as in \<open>ab\<close> and \<open>bA\<close>: a value that is set under one name is read under the
  other.
\<close>

theorem colliding_names_are_one:
  assumes "signed_char c' = signed_char c + 1" "signed_char d' = signed_char d - 33" "well_typed t xs"
    "find_storage p (hash_key_code (u @ [c, d] @ v)) = Some s"
  shows "\<exists>q. vevo_property_set p (u @ [c, d] @ v) t (int (length xs)) (Some xs) = Some (VEVO_NO_ERROR, q) \<and>
    vevo_property_get q (u @ [c', d'] @ v) i = Some (read_value xs i)"
proof -
  let ?k = "u @ [c, d] @ v"
  let ?q = "put_storage (s = None) ?k (hash_key_code ?k) (storage_of t xs) p"
  have "vevo_property_set p ?k t (int (length xs)) (Some xs) = Some (VEVO_NO_ERROR, ?q)"
    using assms(4) by (simp add: vevo_property_set_def storage_put [OF assms(3)] Let_def)
  moreover have "find_storage ?q (hash_key_code ?k) = Some (Some (storage_of t xs))"
    using assms(4)
    by (cases "vp_table p")
      (auto simp: find_storage_def put_storage_def Let_def port_node_append_def prop_node_append_def prop_node_get_def
        set_storage_def set_node_def property_exists_def hnode_get_def update_conv' map_of_append map_add_def)
  then have "vevo_property_get ?q (u @ [c', d'] @ v) i = Some (read_value xs i)"
    by (simp only: vevo_property_get_def hash_collides [OF assms(1,2)] bind.bind_lunit option.case get_stored [OF stores_put [OF assms(3)]])
  ultimately show ?thesis by blast
qed

theorem colliding_names_are_one_witness:
  "\<exists>q. vevo_property_set (vevo_port_new VEVO_ANONYMOUS_PORT) ''ab'' 1 1 (Some [PInt 5]) = Some (VEVO_NO_ERROR, q) \<and>
    vevo_property_get q ''bA'' 0 = Some (0, Some (PInt 5))"
proof -
  have "signed_char CHR ''b'' = signed_char CHR ''a'' + 1" "signed_char CHR ''A'' = signed_char CHR ''b'' - 33" by code_simp+
  moreover have "well_typed 1 [PInt 5]" by (simp add: well_typed_def vevo_types)
  moreover have "find_storage (vevo_port_new VEVO_ANONYMOUS_PORT) h = Some None" for h
    by (simp add: vevo_port_new_def VEVO_ANONYMOUS_PORT_def find_storage_def prop_node_get_def)
  ultimately show ?thesis
    using colliding_names_are_one [of "CHR ''b''" "CHR ''a''" "CHR ''A''" "CHR ''b''" 1 "[PInt 5]" "vevo_port_new VEVO_ANONYMOUS_PORT" "[]" "[]" None 0]
    by (simp add: read_value_def vevo_errors)
qed

text \<open>
  A property of a port with a table cannot be deleted: its name disappears from the list of names, its value stays,
  and setting it again does not list it again.
\<close>

theorem table_property_stays:
  assumes "told_apart N" "\<forall>c \<in> set cs. port_cmd_ok False N c" "\<not> (1 \<le> t \<and> t \<le> 50 \<or> t < 0)" "k \<in> N" "well_typed ty xs"
    "map_of (snd (spec_run cs [])) k = Some (ty', ys)"
  shows "\<exists>as p q r. run_port cs (vevo_port_new t) = Some (as, p) \<and> vevo_property_del p k = Some (VEVO_ERROR_NOSUCH_PROPERTY, q) \<and>
    k \<in> fst ` set (vp_index p) \<and> k \<notin> fst ` set (vp_index q) \<and> vevo_property_get q k i = Some (read_value ys i) \<and>
    vevo_property_set q k ty (int (length xs)) (Some xs) = Some (VEVO_NO_ERROR, r) \<and> k \<notin> fst ` set (vp_index r)"
proof -
  let ?S = "snd (spec_run cs [])" and ?h = "hash_key_code k"
  have new: "False = (vp_table (vevo_port_new t) = None)" using assms(3) new_port_holds(2) [of t] by auto
  obtain p where p: "run_port cs (vevo_port_new t) = Some (fst (spec_run cs []), p)" "port_holds N p ?S" "vp_table p \<noteq> None"
    using run_port_spec [OF assms(1,2) new_port_holds(1) new] by auto
  have S: "vp_list p = []" "distinct (map fst ?S)" "fst ` set ?S \<subseteq> N" "vp_index p = map (\<lambda>(k, _). (k, hash_key_code k)) ?S"
    using p(2,3) by (auto simp: port_holds_def)
  let ?q = "p\<lparr>vp_index := map (\<lambda>(k, _). (k, hash_key_code k)) (AList.delete k ?S)\<rparr>"
  have del: "vevo_property_del p k = Some (VEVO_ERROR_NOSUCH_PROPERTY, ?q)"
    using S(1,4) index_delete [OF assms(1,4) S(3,2)]
    by (simp add: vevo_property_del_def prop_node_get_def Let_def)
  have names: "fst ` set (map (\<lambda>(k, _). (k, hash_key_code k)) S) = fst ` set S" for S :: port_spec by force
  have listed: "k \<in> fst ` set (vp_index p)"
    unfolding S(4) names using map_of_SomeD [OF assms(6)] by (rule rev_image_eqI) simp
  have gone: "k \<notin> fst ` set (vp_index ?q)" using delete_notin_dom [of k ?S] names by simp
  obtain s where s: "find_storage p ?h = Some (Some s)" "stores s (ty', ys)"
    using find_stored [OF p(2) assms(1,4)] assms(6) by (auto simp: option_rel_Some1)
  have "find_storage ?q ?h = find_storage p ?h" by (simp add: find_storage_def property_exists_def prop_node_get_def)
  then have same: "find_storage ?q ?h = Some (Some s)" using s(1) by simp
  let ?r = "put_storage False k ?h (storage_of ty xs) ?q"
  show ?thesis
  proof (intro exI conjI)
    show "run_port cs (vevo_port_new t) = Some (fst (spec_run cs []), p)" by (rule p(1))
    show "vevo_property_del p k = Some (VEVO_ERROR_NOSUCH_PROPERTY, ?q)" by (rule del)
    show "k \<in> fst ` set (vp_index p)" by (rule listed)
    show "k \<notin> fst ` set (vp_index ?q)" by (rule gone)
    show "vevo_property_get ?q k i = Some (read_value ys i)" using same get_stored [OF s(2)] by (simp add: vevo_property_get_def)
    show "vevo_property_set ?q k ty (int (length xs)) (Some xs) = Some (VEVO_NO_ERROR, ?r)"
      using same by (simp add: vevo_property_set_def storage_put [OF assms(5)] Let_def)
    have "vp_index ?r = vp_index ?q" by (simp add: put_storage_def Let_def set_storage_def set_node_def)
    then show "k \<notin> fst ` set (vp_index ?r)" using gone by simp
  qed
qed

theorem table_property_stays_witness:
  "\<exists>as p q r. run_port [Put ''uri'' 4 [PStr (Some ''/vims'')]] (vevo_port_new VEVO_PORT_POOL) = Some (as, p) \<and>
    vevo_property_del p ''uri'' = Some (VEVO_ERROR_NOSUCH_PROPERTY, q) \<and> ''uri'' \<in> fst ` set (vp_index p) \<and>
    ''uri'' \<notin> fst ` set (vp_index q) \<and> vevo_property_get q ''uri'' 0 = Some (0, Some (PStr (Some ''/vims''))) \<and>
    vevo_property_set q ''uri'' 4 (int (length [PStr (Some ''/x'')])) (Some [PStr (Some ''/x'')]) = Some (VEVO_NO_ERROR, r) \<and>
    ''uri'' \<notin> fst ` set (vp_index r)"
proof -
  let ?cs = "[Put ''uri'' 4 [PStr (Some ''/vims'')]]"
  have "told_apart {''uri''}" by (simp add: told_apart_def)
  moreover have "\<forall>c \<in> set ?cs. port_cmd_ok False {''uri''} c" by (simp add: well_typed_def string_type_def vevo_types)
  moreover have "\<not> (1 \<le> VEVO_PORT_POOL \<and> VEVO_PORT_POOL \<le> 50 \<or> VEVO_PORT_POOL < 0)" by (simp add: VEVO_PORT_POOL_def)
  moreover have "well_typed 4 [PStr (Some ''/x'')]" by (simp add: well_typed_def string_type_def vevo_types)
  moreover have "map_of (snd (spec_run ?cs [])) ''uri'' = Some (4, [PStr (Some ''/vims'')])" by (simp add: Let_def)
  ultimately have "\<exists>as p q r. run_port ?cs (vevo_port_new VEVO_PORT_POOL) = Some (as, p) \<and>
    vevo_property_del p ''uri'' = Some (VEVO_ERROR_NOSUCH_PROPERTY, q) \<and> ''uri'' \<in> fst ` set (vp_index p) \<and>
    ''uri'' \<notin> fst ` set (vp_index q) \<and> vevo_property_get q ''uri'' 0 = Some (read_value [PStr (Some ''/vims'')] 0) \<and>
    vevo_property_set q ''uri'' 4 (int (length [PStr (Some ''/x'')])) (Some [PStr (Some ''/x'')]) = Some (VEVO_NO_ERROR, r) \<and>
    ''uri'' \<notin> fst ` set (vp_index r)"
    by - (rule table_property_stays [where N = "{''uri''}"], simp_all)
  then show ?thesis by (simp only: read_value_def vevo_errors) simp
qed

section \<open>A port as a store of numbers\<close>

text \<open>Several operations, one after the other.\<close>

fun put_many :: "('k \<Rightarrow> 'v \<Rightarrow> 'p \<Rightarrow> 'p option) \<Rightarrow> ('k \<times> 'v) list \<Rightarrow> 'p \<Rightarrow> 'p option" where
  "put_many put [] p = Some p"
| "put_many put ((k, x) # kxs) p = do { p \<leftarrow> put k x p; put_many put kxs p }"

fun del_many :: "('k \<Rightarrow> 'p \<Rightarrow> 'p option) \<Rightarrow> 'k list \<Rightarrow> 'p \<Rightarrow> 'p option" where
  "del_many del [] p = Some p"
| "del_many del (k # ks) p = do { p \<leftarrow> del k p; del_many del ks p }"

text \<open>
  The interface that the users of a port rely on: numbers under the names of a set. \<open>ok\<close> is the invariant, and each
  operation on a name of the set leaves the others alone.
\<close>

locale number_store =
  fixes ok :: "'p \<Rightarrow> bool" and names :: "'k set" and fits :: "'v \<Rightarrow> bool"
    and look :: "'p \<Rightarrow> 'k \<Rightarrow> 'v option" and put :: "'k \<Rightarrow> 'v \<Rightarrow> 'p \<Rightarrow> 'p option" and del :: "'k \<Rightarrow> 'p \<Rightarrow> 'p option"
  assumes put_law: "ok p \<Longrightarrow> k \<in> names \<Longrightarrow> fits x \<Longrightarrow>
      \<exists>q. put k x p = Some q \<and> ok q \<and> (\<forall>j \<in> names. look q j = (if j = k then Some x else look p j))"
    and del_law: "ok p \<Longrightarrow> k \<in> names \<Longrightarrow>
      \<exists>q. del k p = Some q \<and> ok q \<and> (\<forall>j \<in> names. look q j = (if j = k then None else look p j))"
begin

lemma put_many_holds:
  assumes "ok p" "\<forall>(k, x) \<in> set kxs. k \<in> names \<and> fits x" "distinct (map fst kxs)"
  shows "\<exists>q. put_many put kxs p = Some q \<and> ok q \<and>
    (\<forall>j \<in> names. look q j = (case map_of kxs j of None \<Rightarrow> look p j | Some x \<Rightarrow> Some x))"
  using assms
proof (induction kxs arbitrary: p)
  case (Cons kx kxs)
  obtain k x where kx: "kx = (k, x)" by (cases kx)
  obtain p' where p': "put k x p = Some p'" "ok p'" "\<forall>j \<in> names. look p' j = (if j = k then Some x else look p j)"
    using put_law [of p k x] Cons.prems kx by auto
  obtain q where q: "put_many put kxs p' = Some q" "ok q"
      "\<forall>j \<in> names. look q j = (case map_of kxs j of None \<Rightarrow> look p' j | Some x \<Rightarrow> Some x)"
    using Cons.IH [OF p'(2)] Cons.prems kx by auto
  have "map_of kxs k = None" "k \<in> names" using Cons.prems(2,3) by (simp_all add: kx map_of_eq_None_iff)
  with q p' show ?case by (auto simp: kx split: option.split)
qed simp

lemma del_many_holds:
  assumes "ok p" "set ks \<subseteq> names"
  shows "\<exists>q. del_many del ks p = Some q \<and> ok q \<and> (\<forall>j \<in> names. look q j = (if j \<in> set ks then None else look p j))"
  using assms
proof (induction ks arbitrary: p)
  case (Cons k ks)
  obtain p' where p': "del k p = Some p'" "ok p'" "\<forall>j \<in> names. look p' j = (if j = k then None else look p j)"
    using del_law [of p k] Cons.prems by auto
  with Cons.IH [OF p'(2)] Cons.prems show ?case by fastforce
qed simp

end

text \<open>The number under a name; storing and deleting it.\<close>

definition number_at :: "vport \<Rightarrow> string \<Rightarrow> int option" where
  "number_at p k = (case vevo_property_get p k 0 of Some (e, Some (PInt i)) \<Rightarrow> Some i | _ \<Rightarrow> None)"

definition put_number :: "string \<Rightarrow> int \<Rightarrow> vport \<Rightarrow> vport option" where
  "put_number k x p = map_option snd (vevo_property_set p k VEVO_ATOM_TYPE_INT 1 (Some [PInt x]))"

definition del_number :: "string \<Rightarrow> vport \<Rightarrow> vport option" where
  "del_number k p = map_option snd (vevo_property_del p k)"

definition is_int32 :: "int \<Rightarrow> bool" where
  "is_int32 x \<longleftrightarrow> - 2147483648 \<le> x \<and> x < 2147483648"

text \<open>A list port whose names are in \<open>N\<close>, which holds numbers only.\<close>

definition number_entry :: "int \<times> vval list \<Rightarrow> bool" where
  "number_entry v \<longleftrightarrow> fst v = VEVO_ATOM_TYPE_INT \<and> (\<exists>x. snd v = [PInt x] \<and> is_int32 x)"

definition number_port :: "string set \<Rightarrow> vport \<Rightarrow> bool" where
  "number_port N p \<longleftrightarrow> vp_table p = None \<and>
     (\<exists>S. port_holds N p S \<and> (\<forall>e \<in> set S. number_entry (snd e)))"

lemma number_read:
  assumes "port_holds N p S" "told_apart N" "k \<in> N"
  shows "number_at p k = (case map_of S k of Some (t, PInt x # xs) \<Rightarrow> Some x | _ \<Rightarrow> None)"
proof -
  have "value_read x = Some (PInt i) \<longleftrightarrow> x = PInt i" for x i by (cases x rule: value_read.cases) auto
  then show ?thesis
    by (auto simp: number_at_def read_holds(1) [OF assms] read_value_def split: option.splits list.splits vval.splits)
qed

lemma number_store_port:
  assumes N: "told_apart N"
  shows "number_store (number_port N) N is_int32 number_at put_number del_number"
proof (unfold_locales, goal_cases)
  case (1 p k x)
  obtain S where S: "port_holds N p S" "\<forall>e \<in> set S. number_entry (snd e)"
      "vp_table p = None" using 1(1) by (auto simp: number_port_def)
  have typed: "well_typed VEVO_ATOM_TYPE_INT [PInt x]" using 1(3) by (simp add: well_typed_def is_int32_def vevo_types)
  obtain q where q: "vevo_property_set p k VEVO_ATOM_TYPE_INT 1 (Some [PInt x]) = Some (VEVO_NO_ERROR, q)"
      "port_holds N q (AList.update k (VEVO_ATOM_TYPE_INT, [PInt x]) S)" "vp_table q = None"
    using set_holds [OF S(1) N 1(2) typed] S(3) by auto
  let ?v = "(VEVO_ATOM_TYPE_INT, [PInt x])"
  have new: "number_entry ?v" using 1(3) by (simp add: number_entry_def)
  have upd: "e \<in> set (AList.update k ?v S) \<Longrightarrow> e = (k, ?v) \<or> e \<in> set S" for e by (induction S) (auto split: if_splits)
  have "\<forall>e \<in> set (AList.update k ?v S). number_entry (snd e)"
  proof
    fix e assume "e \<in> set (AList.update k ?v S)"
    then show "number_entry (snd e)" using upd [of e] new S(2) by auto
  qed
  then have "number_port N q" using q(2,3) by (auto simp: number_port_def)
  moreover have "number_at q j = (if j = k then Some x else number_at p j)" if "j \<in> N" for j
    using number_read [OF q(2) N that] number_read [OF S(1) N that] by (simp add: update_conv')
  ultimately show ?case using q(1) by (auto simp: put_number_def)
next
  case (2 p k)
  obtain S where S: "port_holds N p S" "\<forall>e \<in> set S. number_entry (snd e)"
      "vp_table p = None" using 2(1) by (auto simp: number_port_def)
  obtain q where q: "vevo_property_del p k = Some (VEVO_ERROR_NOSUCH_PROPERTY, q)" "port_holds N q (AList.delete k S)"
      "vp_table q = None" using del_holds [OF S(1) N 2(2) S(3)] by auto
  have "set (AList.delete k S) \<subseteq> set S" by (auto simp: AList.delete_eq)
  then have "\<forall>e \<in> set (AList.delete k S). number_entry (snd e)" using S(2) by blast
  then have "number_port N q" using q(2,3) by (auto simp: number_port_def)
  moreover have "number_at q j = (if j = k then None else number_at p j)" if "j \<in> N" for j
    using number_read [OF q(2) N that] number_read [OF S(1) N that] by (simp add: delete_conv')
  ultimately show ?case using q(1) by (auto simp: del_number_def)
qed

lemma number_port_new: "number_port N (vevo_port_new VEVO_ANONYMOUS_PORT)" "number_at (vevo_port_new VEVO_ANONYMOUS_PORT) k = None"
proof -
  have "vp_table (vevo_port_new VEVO_ANONYMOUS_PORT) = None" using new_port_holds(2) [of VEVO_ANONYMOUS_PORT]
    by (simp add: VEVO_ANONYMOUS_PORT_def)
  with new_port_holds(1) [of N VEVO_ANONYMOUS_PORT] show "number_port N (vevo_port_new VEVO_ANONYMOUS_PORT)"
    by (auto simp: number_port_def)
  show "number_at (vevo_port_new VEVO_ANONYMOUS_PORT) k = None"
    by (simp add: number_at_def vevo_port_new_def vevo_property_get_def find_storage_def prop_node_get_def VEVO_ANONYMOUS_PORT_def)
qed

end
