(* ===== verification/Keyframes.thy ===== *)
theory Keyframes
  imports VevoPort VimsArgs
begin

text \<open>
  Keyframes (\<open>veejay/vjkf.c\<close> and their callers in \<open>sampleadm.c\<close>, \<open>vj-tag.c\<close> and \<open>vj-event.c\<close>): for a parameter of an
  effect the value it takes at each frame of a range. They are properties of the port that the entry of the chain owns,
  and travel as packets \<open>key<entry><parameter><start><end><type>\<close> followed by four bytes for every frame.

  \<^item> \<open>kf_state\<close> adds the contents of the ports to the state of the server; a port that has none yet is new. Which ports
    are alive is known to \<open>adm\<close>, and a port that is not is dangling.
  \<^item> A packet is a list of bytes. The reader does not look at its length, so a read beyond the bytes is undefined.
  \<^item> \<open>int\<close> has 32 bits in two's complement, and shifting a byte into the sign bit gives the negative number, as gcc does.
\<close>

record kf_state =
  kf_vj :: veejay
  kf_ports :: "addr \<rightharpoonup> vport"

definition kf_adm :: "kf_state \<Rightarrow> adm" where "kf_adm s = vi_adm (kf_vj s)"

definition kf_set_adm :: "adm \<Rightarrow> kf_state \<Rightarrow> kf_state" where
  "kf_set_adm d s = s\<lparr>kf_vj := (kf_vj s)\<lparr>vi_adm := d\<rparr>\<rparr>"

definition kf_port :: "kf_state \<Rightarrow> addr \<Rightarrow> vport option" where
  "kf_port s a =
     (if a \<in> ad_ports (kf_adm s)
      then Some (case kf_ports s a of None \<Rightarrow> vevo_port_new VEVO_ANONYMOUS_PORT | Some p \<Rightarrow> p) else dangling)"

definition kf_set_port :: "addr \<Rightarrow> vport \<Rightarrow> kf_state \<Rightarrow> kf_state" where
  "kf_set_port a p s = s\<lparr>kf_ports := (kf_ports s)(a \<mapsto> p)\<rparr>"

subsection \<open>Names and numbers\<close>

text \<open>\<open>snprintf\<close> into 32 and into 100 bytes.\<close>

definition keyframe_id :: "int \<Rightarrow> int \<Rightarrow> string" where
  "keyframe_id p_id n_frame = take 31 (''FX'' @ show_int p_id @ ''_'' @ show_int n_frame)"

definition kf_token :: "string \<Rightarrow> int \<Rightarrow> string" where
  "kf_token prefix p_id = take 99 (prefix @ ''_p'' @ show_int p_id)"

definition int_bytes :: "int \<Rightarrow> string" where
  "int_bytes x = [char_of x, char_of (x div 256), char_of (x div 65536), char_of (x div 16777216)]"

definition bytes_int :: "string \<Rightarrow> int" where
  "bytes_int bs =
     (let u = of_char (bs ! 0) + 256 * of_char (bs ! 1) + 65536 * of_char (bs ! 2) + 16777216 * of_char (bs ! 3)
      in if u < 2147483648 then u else u - 4294967296)"

text \<open>
  A number is read into an \<open>int\<close> that has the value \<open>dflt\<close>; the error code, and what the variable has afterwards.
\<close>

definition get_number :: "vport \<Rightarrow> string \<Rightarrow> int \<Rightarrow> (int \<times> int) option" where
  "get_number p key dflt = do {
     (err, x) \<leftarrow> vevo_property_get p key 0;
     case x of
       None \<Rightarrow> Some (err, dflt)
     | Some (PInt i) \<Rightarrow> Some (err, i)
     | Some _ \<Rightarrow> c_undefined }"

definition get_keyframe_value :: "vport \<Rightarrow> int \<Rightarrow> int \<Rightarrow> int \<Rightarrow> (int \<times> int) option" where
  "get_keyframe_value p n_frame parameter_id dflt = do {
     (err, x) \<leftarrow> get_number p (keyframe_id parameter_id n_frame) dflt;
     Some (if err \<noteq> VEVO_NO_ERROR then (0, dflt) else (1, x)) }"

text \<open>Start, end and type of the keyframes of a parameter, or that one of them is missing.\<close>

definition keyframe_get_tokens :: "vport \<Rightarrow> int \<Rightarrow> (int \<times> int \<times> int) option option" where
  "keyframe_get_tokens p parameter_id = do {
     (err, start) \<leftarrow> get_number p (kf_token ''start'' parameter_id) 0;
     if err \<noteq> VEVO_NO_ERROR then Some None
     else do {
       (err, end) \<leftarrow> get_number p (kf_token ''end'' parameter_id) 0;
       if err \<noteq> VEVO_NO_ERROR then Some None
       else do {
         (err, type) \<leftarrow> get_number p (kf_token ''type'' parameter_id) 0;
         Some (if err \<noteq> VEVO_NO_ERROR then None else Some (start, end, type)) } } }"

subsection \<open>Packing\<close>

definition write_at :: "nat \<Rightarrow> string \<Rightarrow> string \<Rightarrow> string option" where
  "write_at off bs buf =
     (if off + length bs \<le> length buf then Some (take off buf @ bs @ drop (off + length bs) buf) else out_of_bounds)"

text \<open>Frames without a keyframe keep what the buffer has.\<close>

fun pack_values :: "vport \<Rightarrow> int \<Rightarrow> int list \<Rightarrow> nat \<Rightarrow> string \<Rightarrow> string option" where
  "pack_values p parameter_id [] off buf = Some buf"
| "pack_values p parameter_id (i # js) off buf = do {
     (err, value) \<leftarrow> get_number p (keyframe_id parameter_id i) 0;
     buf \<leftarrow> (if err = VEVO_NO_ERROR then write_at off (int_bytes value) buf else Some buf);
     pack_values p parameter_id js (off + 4) buf }"

definition packet_head :: "int \<Rightarrow> int \<Rightarrow> int \<Rightarrow> int \<Rightarrow> int \<Rightarrow> string" where
  "packet_head entry_id parameter_id start end type =
     ''key'' @ show_pad 2 entry_id @ show_pad 2 parameter_id @ show_pad 8 start @ show_pad 8 end @ show_pad 2 type"

text \<open>
  The loop stops before the last frame. A range that is not one has no room for the head. The length of the packet is
  that of the answer.
\<close>

definition keyframe_pack :: "vport \<Rightarrow> int \<Rightarrow> int \<Rightarrow> string option option" where
  "keyframe_pack p parameter_id entry_id = do {
     tokens \<leftarrow> keyframe_get_tokens p parameter_id;
     case tokens of
       None \<Rightarrow> Some None
     | Some (start, end, type) \<Rightarrow> do {
         let len = end - start;
         let room = len * 4 + 64;
         if room \<le> 0 \<or> 2147483647 < room then c_undefined
         else do {
           buf \<leftarrow> write_at 0 (packet_head entry_id parameter_id start end type @ [CHR 0x00]) (replicate (nat room) CHR 0x00);
           buf \<leftarrow> pack_values p parameter_id [start..end - 1] 25 buf;
           Some (Some (take (nat (25 + 4 * max 0 len)) buf)) } } }"

subsection \<open>Unpacking\<close>

text \<open>\<open>sscanf\<close> with \<open>key%2d%2d%8d%8d%2d\<close>, when it reads all five numbers.\<close>

definition scan_packet :: "string \<Rightarrow> (int \<times> int \<times> int \<times> int \<times> int) option" where
  "scan_packet bs =
     (let cs = takeWhile (\<lambda>c. c \<noteq> CHR 0x00) bs
      in if take 3 cs \<noteq> ''key'' then None
         else do {
           (fx_pos, cs) \<leftarrow> scan_field 2 (drop 3 cs);
           (parameter_id, cs) \<leftarrow> scan_field 2 cs;
           (start, cs) \<leftarrow> scan_field 8 cs;
           (end, cs) \<leftarrow> scan_field 8 cs;
           (type, cs) \<leftarrow> scan_field 2 cs;
           Some (fx_pos, parameter_id, start, end, type) })"

fun unpack_values :: "int \<Rightarrow> int list \<Rightarrow> string \<Rightarrow> vport \<Rightarrow> vport option" where
  "unpack_values parameter_id [] ptr p = Some p"
| "unpack_values parameter_id (i # js) ptr p =
     (if length ptr < 4 then out_of_bounds
      else do {
        p \<leftarrow> put_number (keyframe_id parameter_id i) (bytes_int ptr) p;
        unpack_values parameter_id js (drop 4 ptr) p })"

definition store_keyframes :: "int \<Rightarrow> int \<Rightarrow> int \<Rightarrow> int \<Rightarrow> string \<Rightarrow> vport \<Rightarrow> vport option" where
  "store_keyframes parameter_id start end type ptr p = do {
     p \<leftarrow> unpack_values parameter_id [start..end] ptr p;
     p \<leftarrow> put_number (kf_token ''start'' parameter_id) start p;
     p \<leftarrow> put_number (kf_token ''end'' parameter_id) end p;
     put_number (kf_token ''type'' parameter_id) type p }"

definition on_adm_kf :: "(adm \<Rightarrow> ('r \<times> adm) option) \<Rightarrow> kf_state \<Rightarrow> ('r \<times> kf_state) option" where
  "on_adm_kf f s = do { (x, d) \<leftarrow> f (kf_adm s); Some (x, kf_set_adm d s) }"

text \<open>The port of an entry of a sample; \<open>alloc\<close> tells to make one where there is none.\<close>

definition sample_kf_port :: "bool \<Rightarrow> int \<Rightarrow> int \<Rightarrow> kf_state \<Rightarrow> (addr option \<times> kf_state) option" where
  "sample_kf_port alloc lookup fx_pos s = do {
     (port, s) \<leftarrow> on_adm_kf (\<lambda>d. sample_get_kf_port d lookup fx_pos) s;
     if port \<noteq> None \<or> \<not> alloc then Some (port, s)
     else do {
       (x, s) \<leftarrow> on_adm_kf (\<lambda>d. sample_chain_alloc_kf d lookup fx_pos) s;
       on_adm_kf (\<lambda>d. sample_get_kf_port d lookup fx_pos) s } }"

definition kf_port_of :: "bool \<Rightarrow> int \<Rightarrow> int \<Rightarrow> int \<Rightarrow> kf_state \<Rightarrow> (addr option \<times> kf_state) option" where
  "kf_port_of alloc lookup fx_pos is_sample s =
     (if is_sample \<noteq> 0 then sample_kf_port alloc lookup fx_pos s
      else do { port \<leftarrow> vj_tag_get_kf_port (kf_adm s) lookup fx_pos; Some (port, s) })"

text \<open>The result, and the entry of the packet.\<close>

definition keyframe_unpack :: "string \<Rightarrow> int \<Rightarrow> int \<Rightarrow> kf_state \<Rightarrow> ((int \<times> int option) \<times> kf_state) option" where
  "keyframe_unpack bs lookup is_sample s =
     (case scan_packet bs of
        None \<Rightarrow> Some ((0, None), s)
      | Some (fx_pos, parameter_id, start, end, type) \<Rightarrow> do {
          (port, s) \<leftarrow> kf_port_of True lookup fx_pos is_sample s;
          a \<leftarrow> port;
          p \<leftarrow> kf_port s a;
          p \<leftarrow> store_keyframes parameter_id start end type (drop 25 bs) p;
          Some ((1, Some fx_pos), kf_set_port a p s) })"

subsection \<open>Clearing\<close>

definition clear_keyframes :: "int \<Rightarrow> vport \<Rightarrow> vport option" where
  "clear_keyframes parameter_id p = do {
     (e1, start) \<leftarrow> get_number p (kf_token ''start'' parameter_id) 0;
     (e2, end) \<leftarrow> get_number p (kf_token ''end'' parameter_id) 0;
     (e3, type) \<leftarrow> get_number p (kf_token ''type'' parameter_id) 0;
     p \<leftarrow> del_many del_number (map (keyframe_id parameter_id) [start..end]) p;
     p \<leftarrow> del_number (kf_token ''start'' parameter_id) p;
     p \<leftarrow> del_number (kf_token ''end'' parameter_id) p;
     del_number (kf_token ''type'' parameter_id) p }"

definition keyframe_clear_entry :: "int \<Rightarrow> int \<Rightarrow> int \<Rightarrow> int \<Rightarrow> kf_state \<Rightarrow> kf_state option" where
  "keyframe_clear_entry lookup fx_pos parameter_id is_sample s = do {
     (port, s) \<leftarrow> kf_port_of False lookup fx_pos is_sample s;
     case port of
       None \<Rightarrow> Some s
     | Some a \<Rightarrow> do { p \<leftarrow> kf_port s a; p \<leftarrow> clear_keyframes parameter_id p; Some (kf_set_port a p s) } }"

subsection \<open>Samples and streams\<close>

text \<open>
  The keyframes of a parameter as a packet. The test of the entry admits one too many, and only parameters 0 to 9 are
  packed. A stream's entry is not tested for a port.
\<close>

definition no_kf_entry :: "int \<Rightarrow> int \<Rightarrow> bool" where
  "no_kf_entry entry parameter_id \<longleftrightarrow>
     entry < 0 \<or> entry > int SAMPLE_MAX_EFFECTS \<or> parameter_id < 0 \<or> parameter_id > 9"

definition sample_chain_get_kfs :: "int \<Rightarrow> int \<Rightarrow> int \<Rightarrow> kf_state \<Rightarrow> (string option \<times> kf_state) option" where
  "sample_chain_get_kfs s1 entry parameter_id s = do {
     (port, s') \<leftarrow> on_adm_kf (\<lambda>d. with_sample d s1 None (\<lambda>d a si.
       if no_kf_entry entry parameter_id then Some (None, d) else do { e \<leftarrow> chain_entry si entry; Some (sc_kf e, d) })) s;
     case port of
       None \<Rightarrow> Some (None, s')
     | Some a \<Rightarrow> do { p \<leftarrow> kf_port s' a; data \<leftarrow> keyframe_pack p parameter_id entry; Some (data, s') } }"

definition sample_chain_set_kfs :: "int \<Rightarrow> int \<Rightarrow> string \<Rightarrow> kf_state \<Rightarrow> (int \<times> kf_state) option" where
  "sample_chain_set_kfs s1 len data s = do {
     (there, s) \<leftarrow> on_adm_kf (\<lambda>d. with_sample d s1 False (\<lambda>d a si. Some (True, d))) s;
     if \<not> there then Some (- 1, s)
     else if len \<le> 0 then Some (0, s)
     else do {
       ((r, entry), s) \<leftarrow> keyframe_unpack data s1 1 s;
       Some (if r = 0 then - 1 else 1, s) } }"

definition vj_tag_get_kf_tokens :: "int \<Rightarrow> int \<Rightarrow> int \<Rightarrow> kf_state \<Rightarrow> (int \<times> int \<times> int) option option" where
  "vj_tag_get_kf_tokens t1 entry parameter_id s = read_tag (kf_adm s) t1 (Some None) (\<lambda>t. do {
     e \<leftarrow> tag_entry t entry; a \<leftarrow> sc_kf e; p \<leftarrow> kf_port s a; keyframe_get_tokens p parameter_id })"

definition vj_tag_chain_get_kfs :: "int \<Rightarrow> int \<Rightarrow> int \<Rightarrow> kf_state \<Rightarrow> string option option" where
  "vj_tag_chain_get_kfs t1 entry parameter_id s = read_tag (kf_adm s) t1 (Some None) (\<lambda>t.
     if no_kf_entry entry parameter_id then Some None
     else do { e \<leftarrow> tag_entry t entry; a \<leftarrow> sc_kf e; p \<leftarrow> kf_port s a; keyframe_pack p parameter_id entry })"

definition vj_tag_chain_set_kfs :: "int \<Rightarrow> int \<Rightarrow> string \<Rightarrow> kf_state \<Rightarrow> (int \<times> kf_state) option" where
  "vj_tag_chain_set_kfs t1 len data s =
     (if vj_tag_get (kf_adm s) t1 = None \<or> len \<le> 0 then Some (- 1, s)
      else do {
        ((r, entry), s) \<leftarrow> keyframe_unpack data t1 0 s;
        let entry = (case entry of None \<Rightarrow> 0 | Some e \<Rightarrow> e);
        Some (if r = 0 \<or> entry < 0 \<or> entry > int SAMPLE_MAX_EFFECTS then - 1 else 1, s) })"

text \<open>
  The values of the parameters at a frame: the keyframe where there is one, the argument of the entry otherwise. \<open>k\<close> tells
  which parameters there are keyframes for. The answer is the result and the array.
\<close>

fun args_at :: "vport option \<Rightarrow> int list \<Rightarrow> int \<Rightarrow> int list \<Rightarrow> int list option" where
  "args_at port arg n_frame [] = Some []"
| "args_at port arg n_frame (i # js) = do {
     a \<leftarrow> c_nth arg i;
     x \<leftarrow> (case port of
            None \<Rightarrow> Some a
          | Some p \<Rightarrow> do { (there, tmp) \<leftarrow> get_keyframe_value p n_frame i 0; Some (if there = 0 then a else tmp) });
     rest \<leftarrow> args_at port arg n_frame js;
     Some (x # rest) }"

text \<open>A sample plays its keyframes whenever its entry has a port, a stream when the status of the entry says so.\<close>

definition sample_get_all_effect_arg :: "int \<Rightarrow> int \<Rightarrow> int \<Rightarrow> int \<Rightarrow> kf_state \<Rightarrow> ((int \<times> int list) \<times> kf_state) option" where
  "sample_get_all_effect_arg s1 position arg_len n_frame s = do {
     (e, s') \<leftarrow> on_adm_kf (\<lambda>d. with_sample d s1 None (\<lambda>d a si.
       if arg_len = 0 \<or> position \<ge> int SAMPLE_MAX_EFFECTS \<or> arg_len < 0 \<or> arg_len > int SAMPLE_MAX_PARAMETERS
       then Some (None, d) else do { e \<leftarrow> chain_entry si position; Some (Some e, d) })) s;
     case e of
       None \<Rightarrow> Some ((if arg_len = 0 then 1 else - 1, []), s')
     | Some e \<Rightarrow> do {
         port \<leftarrow> (case sc_kf e of None \<Rightarrow> Some None | Some a \<Rightarrow> map_option Some (kf_port s' a));
         xs \<leftarrow> args_at port (sc_arg e) n_frame [0..arg_len - 1];
         Some ((arg_len, xs), s') } }"

definition vj_tag_get_all_effect_args :: "int \<Rightarrow> int \<Rightarrow> int \<Rightarrow> int \<Rightarrow> kf_state \<Rightarrow> (int \<times> int list) option" where
  "vj_tag_get_all_effect_args t1 position arg_len n_frame s = read_tag (kf_adm s) t1 (Some (- 1, [])) (\<lambda>t.
     if arg_len = 0 then Some (1, [])
     else if position < 0 \<or> position \<ge> int SAMPLE_MAX_EFFECTS \<or> arg_len < 0 \<or> arg_len > int SAMPLE_MAX_PARAMETERS
     then Some (- 1, [])
     else do {
       e \<leftarrow> tag_entry t position;
       port \<leftarrow> (if sc_kf_status e = 0 then Some None else do { a \<leftarrow> sc_kf e; map_option Some (kf_port s a) });
       xs \<leftarrow> args_at port (sc_arg e) n_frame [0..arg_len - 1];
       Some (1, xs) })"

subsection \<open>Commands\<close>

text \<open>What is sent back to the client: eight digits with the length, and the packet.\<close>

definition kf_reply :: "string option \<Rightarrow> string" where
  "kf_reply data =
     (case data of
        Some bs \<Rightarrow> if 0 < length bs then take 8 (show_pad 8 (int (length bs))) @ bs else ''00000000''
      | None \<Rightarrow> ''00000000'')"

definition vj_event_get_keyframes :: "int \<Rightarrow> int \<Rightarrow> kf_state \<Rightarrow> (string \<times> kf_state) option" where
  "vj_event_get_keyframes entry parameter_id s =
     (let k = uc_sample_id (kf_vj s)
      in if SAMPLE_PLAYING (kf_vj s)
         then do { (data, s) \<leftarrow> sample_chain_get_kfs k entry parameter_id s; Some (kf_reply data, s) }
         else if STREAM_PLAYING (kf_vj s)
         then do { data \<leftarrow> vj_tag_chain_get_kfs k entry parameter_id s; Some (kf_reply data, s) }
         else Some (kf_reply None, s))"

definition vj_event_del_keyframes :: "int \<Rightarrow> int \<Rightarrow> kf_state \<Rightarrow> kf_state option" where
  "vj_event_del_keyframes entry parameter_id s =
     (let k = uc_sample_id (kf_vj s)
      in if SAMPLE_PLAYING (kf_vj s) then keyframe_clear_entry k entry parameter_id 1 s
         else if STREAM_PLAYING (kf_vj s) then keyframe_clear_entry k entry parameter_id 0 s
         else Some s)"

definition vj_event_parse_kf :: "string \<Rightarrow> int \<Rightarrow> kf_state \<Rightarrow> kf_state option" where
  "vj_event_parse_kf msg len s =
     (let k = uc_sample_id (kf_vj s)
      in if SAMPLE_PLAYING (kf_vj s) then map_option snd (sample_chain_set_kfs k len msg s)
         else if STREAM_PLAYING (kf_vj s) then map_option snd (vj_tag_chain_set_kfs k len msg s)
         else Some s)"

section \<open>The names are told apart\<close>

text \<open>The hash as a number that does not wrap.\<close>

definition hash_num :: "nat \<Rightarrow> string \<Rightarrow> nat" where
  "hash_num h s = foldl (\<lambda>h c. 33 * h + of_char c) h s"

definition ascii :: "string \<Rightarrow> bool" where
  "ascii s \<longleftrightarrow> (\<forall>c \<in> set s. of_char c < (128 :: nat))"

lemma ascii_simps [simp]:
  "ascii []" "ascii (c # s) \<longleftrightarrow> of_char c < (128 :: nat) \<and> ascii s" "ascii (s @ t) \<longleftrightarrow> ascii s \<and> ascii t"
  by (auto simp: ascii_def)

lemma hash_num_simps [simp]:
  "hash_num h [] = h" "hash_num h (c # s) = hash_num (33 * h + of_char c) s" "hash_num h (s @ t) = hash_num (hash_num h s) t"
  by (simp_all add: hash_num_def)

lemma hash_wraps: "ascii s \<Longrightarrow> foldl hash_step (of_nat h) s = of_nat (hash_num h s)"
proof (induction s arbitrary: h)
  case (Cons c s)
  have "signed_char c = int (of_char c)"
  proof -
    have "(of_char c :: int) = int (of_char c)" by (rule of_nat_of_char [symmetric])
    moreover have "int (of_char c) < 128" using Cons.prems by simp
    ultimately show ?thesis by (simp add: signed_char_def)
  qed
  then have "word_of_int (signed_char c) = (of_nat (of_char c) :: u64)" by (simp only: of_int_of_nat_eq)
  then have "hash_step (of_nat h) c = of_nat (33 * h + of_char c)" by (simp add: hash_step_def push_bit_eq_mult)
  then have "foldl hash_step (of_nat h) (c # s) = foldl hash_step (of_nat (33 * h + of_char c)) s" by (simp only: foldl_Cons)
  also have "\<dots> = of_nat (hash_num (33 * h + of_char c) s)" using Cons.prems by (intro Cons.IH) simp
  finally show ?case by simp
qed simp

lemma hash_num_range:
  assumes "ascii s"
  shows "h * 33 ^ length s \<le> hash_num h s" "hash_num h s + 4 \<le> (h + 4) * 33 ^ length s"
  using assms
proof (induction s arbitrary: h)
  case (Cons c s)
  {
    case 1
    have "h * 33 ^ length (c # s) = h * 33 * 33 ^ length s" by simp
    also have "\<dots> \<le> (33 * h + of_char c) * 33 ^ length s" by (intro mult_right_mono) simp_all
    also have "\<dots> \<le> hash_num (33 * h + of_char c) s" using 1 by (intro Cons.IH(1)) simp
    finally show ?case by simp
  next
    case 2
    have "hash_num (33 * h + of_char c) s + 4 \<le> (33 * h + of_char c + 4) * 33 ^ length s" using 2 by (intro Cons.IH(2)) simp
    also have "\<dots> \<le> ((h + 4) * 33) * 33 ^ length s" using 2 by (intro mult_right_mono) simp_all
    also have "\<dots> = (h + 4) * 33 ^ length (c # s)" by (simp only: length_Cons power_Suc mult.assoc)
    finally show ?case by simp
  }
qed simp_all

lemma hash_small:
  assumes "ascii s" "length s \<le> 10"
  shows "hash_num 5381 s < 2 ^ 64"
proof -
  have "hash_num 5381 s + 4 \<le> 5385 * 33 ^ length s" using hash_num_range(2) [OF assms(1), of 5381] by simp
  also have "\<dots> \<le> 5385 * 33 ^ 10" using assms(2) by (intro mult_left_mono power_increasing) simp_all
  also have "\<dots> < 2 ^ 64" by simp
  finally show ?thesis by linarith
qed

lemma hash_key_num:
  assumes "ascii s" "length s \<le> 10" "ascii t" "length t \<le> 10" "hash_key_code s = hash_key_code t"
  shows "hash_num 5381 s = hash_num 5381 t"
proof -
  have code: "hash_key_code u = of_nat (hash_num 5381 u)" if "ascii u" for u
    using hash_wraps [OF that, of 5381] by (simp add: hash_key_code_def)
  have "unat (of_nat (hash_num 5381 u) :: 64 word) = hash_num 5381 u" if "ascii u" "length u \<le> 10" for u
    using hash_small [OF that] by (simp add: unat_of_nat)
  then show ?thesis using assms code by metis
qed

text \<open>Strings of different length, and strings whose first parts are far enough apart, have different hashes.\<close>

lemma hash_lengths:
  assumes "ascii s" "ascii t" "length s < length t"
  shows "hash_num 5381 s < hash_num 5381 t"
proof -
  have "hash_num 5381 s < 5385 * 33 ^ length s" using hash_num_range(2) [OF assms(1), of 5381] by simp
  also have "\<dots> \<le> 5381 * 33 ^ Suc (length s)" by simp
  also have "\<dots> \<le> 5381 * 33 ^ length t" using assms(3) by (intro mult_left_mono power_increasing) simp_all
  also have "\<dots> \<le> hash_num 5381 t" by (rule hash_num_range(1) [OF assms(2)])
  finally show ?thesis .
qed

lemma hash_prefixes:
  assumes "ascii s" "ascii t" "length s = length t" "a + 4 \<le> b"
  shows "hash_num a s < hash_num b t"
proof -
  have "hash_num a s < (a + 4) * 33 ^ length s" using hash_num_range(2) [OF assms(1), of a] by simp
  also have "\<dots> \<le> b * 33 ^ length t" unfolding assms(3) using assms(4) by (intro mult_right_mono) simp_all
  also have "\<dots> \<le> hash_num b t" by (rule hash_num_range(1) [OF assms(2)])
  finally show ?thesis .
qed

text \<open>Digits and underscores are different modulo 33.\<close>

definition plain_char :: "char \<Rightarrow> bool" where
  "plain_char c \<longleftrightarrow> is_digit c \<or> c = CHR ''_''"

lemma plain_char_mod:
  assumes "plain_char c" "plain_char d" "(of_char c :: nat) mod 33 = of_char d mod 33"
  shows "c = d"
proof -
  have range: "48 \<le> (of_char c :: nat) \<and> (of_char c :: nat) \<le> 57 \<or> of_char c = (95 :: nat)" if "plain_char c" for c
    using that by (auto simp: plain_char_def is_digit_def)
  have residue: "x mod 33 = (if x = 95 then 29 else x - 33)" if "48 \<le> x \<and> x \<le> 57 \<or> x = 95" for x :: nat
    using that by (elim disjE conjE) (simp_all add: le_mod_geq)
  have "x = y" if "48 \<le> x \<and> x \<le> 57 \<or> x = 95" "48 \<le> y \<and> y \<le> 57 \<or> y = 95" "x mod 33 = y mod 33" for x y :: nat
  proof -
    have "(if x = 95 then 29 else x - 33) = (if y = 95 then 29 else y - 33)" using that(3) residue that(1,2) by metis
    then show ?thesis using that(1,2) by (cases "x = 95"; cases "y = 95") auto
  qed
  from this [OF range [OF assms(1)] range [OF assms(2)] assms(3)] show ?thesis by simp
qed

lemma hash_plain:
  assumes "\<forall>c \<in> set s. plain_char c" "\<forall>c \<in> set t. plain_char c" "length s = length t" "hash_num h s = hash_num h t"
  shows "s = t"
  using assms
proof (induction s arbitrary: t rule: rev_induct)
  case (snoc c s)
  obtain t' d where t: "t = t' @ [d]" using snoc.prems(3) by (cases t rule: rev_cases) auto
  have eq: "33 * hash_num h s + of_char c = 33 * hash_num h t' + of_char d" using snoc.prems(4) t by simp
  then have "(33 * hash_num h s + of_char c) mod 33 = (33 * hash_num h t' + of_char d) mod 33" by simp
  then have "(of_char c :: nat) mod 33 = of_char d mod 33" by simp
  then have c: "c = d" using snoc.prems(1,2) t by (intro plain_char_mod) auto
  then have "hash_num h s = hash_num h t'" using eq by simp
  then have "s = t'" using snoc.prems t by (intro snoc.IH) auto
  with c t show ?case by simp
qed simp

text \<open>The names of keyframes and of their bounds, for parameters below 100 and frames below 100000.\<close>

definition kf_param :: "int \<Rightarrow> bool" where "kf_param p \<longleftrightarrow> 0 \<le> p \<and> p < 100"

definition kf_frame :: "int \<Rightarrow> bool" where "kf_frame n \<longleftrightarrow> 0 \<le> n \<and> n < 100000"

definition kf_words :: "string set" where "kf_words = {''start'', ''end'', ''type''}"

definition kf_names :: "string set" where
  "kf_names = {keyframe_id p n | p n. kf_param p \<and> kf_frame n} \<union> {kf_token w p | w p. w \<in> kf_words \<and> kf_param p}"

lemma show_int_digits:
  assumes "0 \<le> i" "i < 10 ^ k" "0 < k"
  shows "\<forall>c \<in> set (show_int i). is_digit c" "length (show_int i) \<le> k"
  using assms show_nat_digits length_show_nat [of "nat i" k] by (simp_all add: show_int_def nat_less_iff)

lemma show_int_inj:
  assumes "0 \<le> i" "0 \<le> j" "show_int i = show_int j"
  shows "i = j"
proof -
  have "show_nat (nat i) = show_nat (nat j)" using assms by (simp add: show_int_def)
  then have "nat i = nat j" by (metis digits_nat_show)
  with assms show ?thesis by simp
qed

lemma kf_digits:
  "kf_param p \<Longrightarrow> (\<forall>c \<in> set (show_int p). is_digit c) \<and> length (show_int p) \<le> 2"
  "kf_frame n \<Longrightarrow> (\<forall>c \<in> set (show_int n). is_digit c) \<and> length (show_int n) \<le> 5"
  using show_int_digits [of p 2] show_int_digits [of n 5] by (auto simp: kf_param_def kf_frame_def)

lemma keyframe_id_text: "kf_param p \<Longrightarrow> kf_frame n \<Longrightarrow> keyframe_id p n = ''FX'' @ show_int p @ ''_'' @ show_int n"
  using kf_digits by (force simp: keyframe_id_def)

lemma kf_token_text: "w \<in> kf_words \<Longrightarrow> kf_param p \<Longrightarrow> kf_token w p = (w @ ''_p'') @ show_int p"
  using kf_digits(1) [of p] by (auto simp: kf_token_def kf_words_def)

definition kf_heads :: "string set" where "kf_heads = {''FX'', ''start_p'', ''end_p'', ''type_p''}"

lemma kf_names_shape:
  assumes "x \<in> kf_names"
  obtains u r where "x = u @ r" "u \<in> kf_heads" "\<forall>c \<in> set r. plain_char c" "length x \<le> 10" "ascii x"
proof -
  have digit: "is_digit c \<Longrightarrow> plain_char c" for c by (simp add: plain_char_def)
  have plain: "plain_char c \<Longrightarrow> of_char c < (128 :: nat)" for c by (auto simp: plain_char_def is_digit_def)
  have "\<exists>u r. x = u @ r \<and> u \<in> kf_heads \<and> (\<forall>c \<in> set r. plain_char c) \<and> length x \<le> 10"
    using assms unfolding kf_names_def
  proof (elim UnE CollectE exE conjE)
    fix p n assume x: "x = keyframe_id p n" "kf_param p" "kf_frame n"
    have "x = ''FX'' @ (show_int p @ ''_'' @ show_int n)" using x by (simp add: keyframe_id_text)
    moreover have "\<forall>c \<in> set (show_int p @ ''_'' @ show_int n). plain_char c"
      using kf_digits(1) [OF x(2)] kf_digits(2) [OF x(3)] digit by (auto simp: plain_char_def)
    moreover have "length x \<le> 10" using calculation(1) kf_digits(1) [OF x(2)] kf_digits(2) [OF x(3)] by simp
    ultimately show ?thesis by (intro exI [of _ "''FX''"] exI [of _ "show_int p @ ''_'' @ show_int n"]) (simp add: kf_heads_def)
  next
    fix w p assume x: "x = kf_token w p" "w \<in> kf_words" "kf_param p"
    have "x = (w @ ''_p'') @ show_int p" using x by (simp add: kf_token_text)
    moreover have "length (w @ ''_p'') \<le> 7" "w @ ''_p'' \<in> kf_heads" using x(2) by (auto simp: kf_words_def kf_heads_def)
    moreover have "\<forall>c \<in> set (show_int p). plain_char c" "length (show_int p) \<le> 2" using kf_digits(1) [OF x(3)] digit by auto
    ultimately show ?thesis by (intro exI [of _ "w @ ''_p''"] exI [of _ "show_int p"]) simp
  qed
  then obtain u r where ur: "x = u @ r" "u \<in> kf_heads" "\<forall>c \<in> set r. plain_char c" "length x \<le> 10" by auto
  moreover have "ascii u" using ur(2) by (auto simp: kf_heads_def)
  moreover have "ascii r" using ur(3) plain by (auto simp: ascii_def)
  ultimately show thesis using that by simp
qed

lemma kf_heads_apart:
  assumes "u \<in> kf_heads" "v \<in> kf_heads" "u \<noteq> v"
  shows "hash_num 5381 (take 2 u) + 4 \<le> hash_num 5381 (take 2 v) \<or> hash_num 5381 (take 2 v) + 4 \<le> hash_num 5381 (take 2 u)"
  using assms by (auto simp: kf_heads_def)

lemma kf_names_apart: "told_apart kf_names"
  unfolding told_apart_def
proof (rule inj_onI)
  fix x y assume xy: "x \<in> kf_names" "y \<in> kf_names" "hash_key_code x = hash_key_code y"
  obtain u r where x: "x = u @ r" "u \<in> kf_heads" "\<forall>c \<in> set r. plain_char c" "length x \<le> 10" "ascii x"
    by (rule kf_names_shape [OF xy(1)])
  obtain v q where y: "y = v @ q" "v \<in> kf_heads" "\<forall>c \<in> set q. plain_char c" "length y \<le> 10" "ascii y"
    by (rule kf_names_shape [OF xy(2)])
  have eq: "hash_num 5381 x = hash_num 5381 y" by (rule hash_key_num [OF x(5,4) y(5,4) xy(3)])
  then have len: "length x = length y"
    using hash_lengths [OF x(5) y(5)] hash_lengths [OF y(5) x(5)] by (cases "length x" "length y" rule: linorder_cases) auto
  have "u = v"
  proof (rule ccontr)
    assume ne: "u \<noteq> v"
    have two: "x = take 2 u @ drop 2 x" "y = take 2 v @ drop 2 y" if "2 \<le> length u" "2 \<le> length v"
      using that x(1) y(1) by simp_all
    have long: "2 \<le> length w" if "w \<in> kf_heads" for w using that by (auto simp: kf_heads_def)
    have "hash_num (hash_num 5381 (take 2 u)) (drop 2 x) = hash_num (hash_num 5381 (take 2 v)) (drop 2 y)"
      using eq two long x(2) y(2) by (metis hash_num_simps(3))
    moreover have "ascii (drop 2 x)" "ascii (drop 2 y)" "length (drop 2 x) = length (drop 2 y)"
      using x(5) y(5) len by (auto simp: ascii_def dest: in_set_dropD)
    ultimately show False
      using kf_heads_apart [OF x(2) y(2) ne] hash_prefixes [of "drop 2 x" "drop 2 y"] hash_prefixes [of "drop 2 y" "drop 2 x"]
      by fastforce
  qed
  moreover have "r = q"
    using calculation x(1,3) y(1,3) eq len by (intro hash_plain [of r q "hash_num 5381 u"]) auto
  ultimately show "x = y" using x(1) y(1) by simp
qed

interpretation kf: number_store "number_port kf_names" kf_names is_int32 number_at put_number del_number
  by (rule number_store_port [OF kf_names_apart])

subsection \<open>Different keyframes have different names\<close>

lemma kf_id_eq:
  assumes "kf_param p" "kf_frame n" "kf_param q" "kf_frame m"
  shows "keyframe_id p n = keyframe_id q m \<longleftrightarrow> p = q \<and> n = m"
proof
  assume "keyframe_id p n = keyframe_id q m"
  then have eq: "show_int p @ ''_'' @ show_int n = show_int q @ ''_'' @ show_int m" using assms by (simp add: keyframe_id_text)
  have first: "takeWhile is_digit (show_int i @ ''_'' @ t) = show_int i" if "kf_param i" for i t
    using kf_digits(1) [OF that] by (simp add: takeWhile_append is_digit_def)
  have "show_int p = show_int q" using arg_cong [OF eq, of "takeWhile is_digit"] first assms(1,3) by simp
  moreover from this have "show_int n = show_int m" using eq by simp
  ultimately show "p = q \<and> n = m" using show_int_inj assms by (auto simp: kf_param_def kf_frame_def)
qed simp

lemma kf_token_eq:
  assumes "w \<in> kf_words" "kf_param p" "v \<in> kf_words" "kf_param q"
  shows "kf_token w p = kf_token v q \<longleftrightarrow> w = v \<and> p = q"
proof
  assume "kf_token w p = kf_token v q"
  then have eq: "(w @ ''_p'') @ show_int p = (v @ ''_p'') @ show_int q" using assms by (simp add: kf_token_text)
  then have "w = v \<and> show_int p = show_int q" using assms(1,3) by (auto simp: kf_words_def)
  then show "w = v \<and> p = q" using show_int_inj assms(2,4) by (auto simp: kf_param_def)
qed simp

lemma kf_id_token: "kf_param p \<Longrightarrow> kf_frame n \<Longrightarrow> w \<in> kf_words \<Longrightarrow> kf_param q \<Longrightarrow> keyframe_id p n \<noteq> kf_token w q"
  by (auto simp: keyframe_id_text kf_token_text kf_words_def)

lemma kf_names_in: "kf_param p \<Longrightarrow> kf_frame n \<Longrightarrow> keyframe_id p n \<in> kf_names" "w \<in> kf_words \<Longrightarrow> kf_param p \<Longrightarrow> kf_token w p \<in> kf_names"
  by (auto simp: kf_names_def)

lemma kf_words_iff: "w \<in> kf_words \<longleftrightarrow> w = ''start'' \<or> w = ''end'' \<or> w = ''type''"
  by (simp add: kf_words_def)

section \<open>The keyframes of a port\<close>

text \<open>The value of parameter \<open>i\<close> at frame \<open>n\<close>; a bound or the type of its keyframes.\<close>

definition kf_at :: "vport \<Rightarrow> int \<Rightarrow> int \<Rightarrow> int option" where
  "kf_at p i n = number_at p (keyframe_id i n)"

definition kf_mark :: "vport \<Rightarrow> string \<Rightarrow> int \<Rightarrow> int option" where
  "kf_mark p w i = number_at p (kf_token w i)"

abbreviation kf_numbers :: "vport \<Rightarrow> bool" where "kf_numbers \<equiv> number_port kf_names"

lemma get_number_at:
  assumes "number_port N p" "told_apart N" "k \<in> N"
  shows "get_number p k d = Some (case number_at p k of None \<Rightarrow> (VEVO_ERROR_NOSUCH_PROPERTY, d) | Some x \<Rightarrow> (VEVO_NO_ERROR, x))"
proof -
  obtain S where S: "port_holds N p S" "\<forall>e \<in> set S. number_entry (snd e)" using assms(1) by (auto simp: number_port_def)
  note read = read_holds(1) [OF S(1) assms(2,3), of 0] and num = number_read [OF S(1) assms(2,3)]
  show ?thesis
  proof (cases "map_of S k")
    case None
    with read num show ?thesis by (simp add: get_number_def)
  next
    case (Some v)
    then have "number_entry v" using S(2) map_of_SomeD by fastforce
    then obtain x where "v = (VEVO_ATOM_TYPE_INT, [PInt x])" by (cases v) (auto simp: number_entry_def)
    with Some read num show ?thesis by (simp add: get_number_def read_value_def)
  qed
qed

lemma kf_value:
  assumes "kf_numbers p" "kf_param i" "kf_frame n"
  shows "get_keyframe_value p n i d = Some (case kf_at p i n of None \<Rightarrow> (0, d) | Some x \<Rightarrow> (1, x))"
    "get_number p (keyframe_id i n) d = Some (case kf_at p i n of None \<Rightarrow> (VEVO_ERROR_NOSUCH_PROPERTY, d) | Some x \<Rightarrow> (VEVO_NO_ERROR, x))"
  using get_number_at [OF assms(1) kf_names_apart kf_names_in(1) [OF assms(2,3)]]
  by (simp_all add: get_keyframe_value_def kf_at_def vevo_errors split: option.split)

lemma kf_mark_read:
  assumes "kf_numbers p" "kf_param i" "w \<in> kf_words"
  shows "get_number p (kf_token w i) d = Some (case kf_mark p w i of None \<Rightarrow> (VEVO_ERROR_NOSUCH_PROPERTY, d) | Some x \<Rightarrow> (VEVO_NO_ERROR, x))"
  using get_number_at [OF assms(1) kf_names_apart kf_names_in(2) [OF assms(3,2)]] by (simp add: kf_mark_def)

lemma int_bytes_length [simp]: "length (int_bytes x) = 4" by (simp add: int_bytes_def)

lemma bytes_of_int:
  assumes "is_int32 x"
  shows "bytes_int (int_bytes x @ r) = x"
proof -
  have c: "(of_char (char_of y :: char) :: int) = y mod 256" for y :: int by simp
  define u where "u = x mod 4294967296"
  have prod: "(65536 :: int) = 256 * 256" "(16777216 :: int) = 65536 * 256" "(4294967296 :: int) = 16777216 * 256" by simp_all
  have "x mod 65536 = 256 * (x div 256 mod 256) + x mod 256"
    unfolding prod(1) by (rule zmod_zmult2_eq) simp
  moreover have "x mod 16777216 = 65536 * (x div 65536 mod 256) + x mod 65536"
    unfolding prod(2) by (rule zmod_zmult2_eq) simp
  moreover have "u = 16777216 * (x div 16777216 mod 256) + x mod 16777216"
    unfolding u_def prod(3) by (rule zmod_zmult2_eq) simp
  ultimately have sum: "x mod 256 + 256 * (x div 256 mod 256) + 65536 * (x div 65536 mod 256) + 16777216 * (x div 16777216 mod 256) = u"
    by linarith
  have wrap: "u = (if 0 \<le> x then x else x + 4294967296)"
  proof (cases "0 \<le> x")
    case False
    have "u = (x + 4294967296) mod 4294967296" by (simp add: u_def)
    also have "\<dots> = x + 4294967296" using False assms unfolding is_int32_def by (intro mod_pos_pos_trivial) linarith+
    finally show ?thesis using False by simp
  qed (use assms in \<open>simp add: u_def is_int32_def\<close>)
  have "bytes_int (int_bytes x @ r) =
      (let v = x mod 256 + 256 * (x div 256 mod 256) + 65536 * (x div 65536 mod 256) + 16777216 * (x div 16777216 mod 256)
       in if v < 2147483648 then v else v - 4294967296)"
    by (simp only: bytes_int_def int_bytes_def c append_Cons nth_Cons_0 nth_Cons_Suc One_nat_def numeral_2_eq_2 numeral_3_eq_3)
  also have "\<dots> = x" unfolding sum Let_def using wrap assms by (simp add: is_int32_def)
  finally show ?thesis .
qed

subsection \<open>Storing\<close>

lemma put_many_fun: "put_many f [] = Some" "put_many f ((k, x) # r) = (\<lambda>p. do { p \<leftarrow> f k x p; put_many f r p })"
  by (rule ext, simp)+

lemma put_many_append: "put_many f (xs @ ys) = (\<lambda>p. do { p \<leftarrow> put_many f xs p; put_many f ys p })"
proof (induction xs)
  case (Cons x xs)
  then show ?case by (cases x) (simp only: append_Cons put_many_fun bind_assoc)
qed (simp add: put_many_fun(1))

lemma unpack_values_puts:
  assumes "length vs = length js" "\<forall>v \<in> set vs. is_int32 v"
  shows "unpack_values i js (concat (map int_bytes vs) @ r) = put_many put_number (zip (map (keyframe_id i) js) vs)"
  using assms
proof (induction js arbitrary: vs)
  case (Cons j js)
  then obtain v vs' where "vs = v # vs'" by (cases vs) auto
  moreover have "unpack_values i (j # js) (int_bytes v @ t) = (\<lambda>p. do { p \<leftarrow> put_number (keyframe_id i j) v p; unpack_values i js t p })"
    if "is_int32 v" for v t using that by (intro ext) (simp add: bytes_of_int)
  ultimately show ?case using Cons by (simp add: put_many_fun(2))
qed (rule ext, simp)

definition kf_marks :: "int \<Rightarrow> int \<Rightarrow> int \<Rightarrow> int \<Rightarrow> (string \<times> int) list" where
  "kf_marks i start end type = [(kf_token ''start'' i, start), (kf_token ''end'' i, end), (kf_token ''type'' i, type)]"

lemma store_puts:
  assumes "length vs = length [start..end]" "\<forall>v \<in> set vs. is_int32 v"
  shows "store_keyframes i start end type (concat (map int_bytes vs) @ r) p =
    put_many put_number (zip (map (keyframe_id i) [start..end]) vs @ kf_marks i start end type) p"
  using unpack_values_puts [OF assms]
  by (simp add: store_keyframes_def put_many_append kf_marks_def put_many_fun)

text \<open>Keyframes that fit the packet: a range of frames, a value for each, and a type of two digits.\<close>

definition kf_range :: "int \<Rightarrow> int \<Rightarrow> int \<Rightarrow> int \<Rightarrow> int list \<Rightarrow> bool" where
  "kf_range i start end type vs \<longleftrightarrow> kf_param i \<and> 0 \<le> start \<and> start \<le> end \<and> end < 100000 \<and> 0 \<le> type \<and> type < 100 \<and>
     length vs = nat (end - start + 1) \<and> (\<forall>v \<in> set vs. is_int32 v)"

definition kf_mark_of :: "string \<Rightarrow> int \<Rightarrow> int \<Rightarrow> int \<Rightarrow> int" where
  "kf_mark_of w start end type = (if w = ''start'' then start else if w = ''end'' then end else type)"

lemma kf_frames_in: "kf_range i start end type vs \<Longrightarrow> n \<in> set [start..end] \<Longrightarrow> kf_frame n"
  by (auto simp: kf_range_def kf_frame_def)

lemma map_of_keyframes:
  assumes "kf_range i start end type vs" "kf_frame n" "kf_param j"
  shows "map_of (zip (map (keyframe_id i) [start..end]) vs) (keyframe_id j n) =
    (if j = i \<and> start \<le> n \<and> n \<le> end then Some (vs ! nat (n - start)) else None)"
proof (cases "j = i \<and> start \<le> n \<and> n \<le> end")
  case True
  have len: "length (map (keyframe_id i) [start..end]) = length vs" using assms(1) by (simp add: kf_range_def)
  have dist: "distinct (map (keyframe_id i) [start..end])"
    using assms(1) kf_frames_in [OF assms(1)] kf_id_eq by (simp add: distinct_map inj_on_def kf_range_def)
  have "nat (n - start) < length vs" using True assms(1) by (auto simp: kf_range_def)
  moreover have "map (keyframe_id i) [start..end] ! nat (n - start) = keyframe_id j n" using True by simp
  ultimately show ?thesis using True map_of_zip_nth [OF len dist, of "nat (n - start)"] len by simp
next
  case False
  have "keyframe_id j n \<noteq> keyframe_id i m" if "m \<in> set [start..end]" for m
    using False that kf_id_eq [OF assms(3,2), of i m] kf_frames_in [OF assms(1) that] assms(1) by (auto simp: kf_range_def)
  then have "\<forall>m \<in> set [start..end]. keyframe_id j n \<noteq> keyframe_id i m" by blast
  then have "keyframe_id j n \<notin> fst ` set (zip (map (keyframe_id i) [start..end]) vs)"
    by (auto dest!: set_zip_leftD)
  then have "map_of (zip (map (keyframe_id i) [start..end]) vs) (keyframe_id j n) = None" by (simp add: map_of_eq_None_iff)
  moreover have "(if j = i \<and> start \<le> n \<and> n \<le> end then Some (vs ! nat (n - start)) else None) = None" using False by (rule if_not_P)
  ultimately show ?thesis by metis
qed

lemma store_keyframes_holds:
  assumes "kf_numbers p" "kf_range i start end type vs"
  shows "\<exists>q. store_keyframes i start end type (concat (map int_bytes vs) @ r) p = Some q \<and> kf_numbers q \<and>
    (\<forall>j n. kf_param j \<longrightarrow> kf_frame n \<longrightarrow>
       kf_at q j n = (if j = i \<and> start \<le> n \<and> n \<le> end then Some (vs ! nat (n - start)) else kf_at p j n)) \<and>
    (\<forall>j. \<forall>w \<in> kf_words. kf_param j \<longrightarrow> kf_mark q w j = (if j = i then Some (kf_mark_of w start end type) else kf_mark p w j))"
proof -
  let ?zs = "zip (map (keyframe_id i) [start..end]) vs" and ?ms = "kf_marks i start end type"
  have i: "kf_param i" and len: "length vs = length [start..end]" and fit: "\<forall>v \<in> set vs. is_int32 v"
    using assms(2) by (simp_all add: kf_range_def)
  have frame: "m \<in> set [start..end] \<Longrightarrow> kf_frame m" for m by (rule kf_frames_in [OF assms(2)])
  have in_names: "k \<in> kf_names \<and> is_int32 x" if "(k, x) \<in> set (?zs @ ?ms)" for k x
  proof (cases "(k, x) \<in> set ?zs")
    case True
    then have "k \<in> keyframe_id i ` set [start..end]" "x \<in> set vs" by (auto dest: set_zip_leftD set_zip_rightD)
    then show ?thesis using fit frame kf_names_in(1) [OF i] by auto
  next
    case False
    then have "(k, x) \<in> set ?ms" using that by simp
    then show ?thesis using assms(2) i kf_names_in(2) by (auto simp: kf_marks_def kf_range_def is_int32_def kf_words_def)
  qed
  have keys: "map fst ?zs = map (keyframe_id i) [start..end]" using len by simp
  have "distinct (map (keyframe_id i) [start..end])" using frame kf_id_eq i by (simp add: distinct_map inj_on_def)
  moreover have "distinct (map fst ?ms)" using i kf_token_eq by (simp add: kf_marks_def kf_words_def)
  moreover have "keyframe_id i ` set [start..end] \<inter> fst ` set ?ms = {}"
  proof -
    have "\<forall>m \<in> set [start..end]. \<forall>w \<in> kf_words. keyframe_id i m \<noteq> kf_token w i" using frame kf_id_token [OF i _ _ i] by blast
    then show ?thesis by (fastforce simp: kf_marks_def kf_words_def)
  qed
  ultimately have dist: "distinct (map fst (?zs @ ?ms))" using keys by simp
  obtain q where q: "put_many put_number (?zs @ ?ms) p = Some q" "kf_numbers q"
      "\<forall>k \<in> kf_names. number_at q k = (case map_of (?zs @ ?ms) k of None \<Rightarrow> number_at p k | Some x \<Rightarrow> Some x)"
    using kf.put_many_holds [OF assms(1) _ dist] in_names by auto
  have marks: "map_of ?ms (keyframe_id j n) = None" if "kf_param j" "kf_frame n" for j n
    using kf_id_token [OF that _ i] by (simp add: kf_marks_def kf_words_def)
  have frames: "kf_at q j n = (if j = i \<and> start \<le> n \<and> n \<le> end then Some (vs ! nat (n - start)) else kf_at p j n)"
    if "kf_param j" "kf_frame n" for j n
    using q(3) kf_names_in(1) [OF that] map_of_keyframes [OF assms(2) that(2,1)] marks [OF that] by (simp add: kf_at_def map_add_def)
  have no_frame: "map_of ?zs (kf_token w j) = None" if "w \<in> kf_words" "kf_param j" for w j
  proof -
    have "\<forall>m \<in> set [start..end]. keyframe_id i m \<noteq> kf_token w j" using kf_id_token [OF i frame that] by blast
    then have "kf_token w j \<notin> keyframe_id i ` set [start..end]" by (auto simp: image_iff)
    then show ?thesis using keys by (metis map_of_eq_None_iff set_map)
  qed
  have bounds: "kf_mark q w j = (if j = i then Some (kf_mark_of w start end type) else kf_mark p w j)" if "w \<in> kf_words" "kf_param j" for w j
  proof -
    have words: "''start'' \<in> kf_words" "''end'' \<in> kf_words" "''type'' \<in> kf_words" by (simp_all add: kf_words_def)
    have "w = ''start'' \<or> w = ''end'' \<or> w = ''type''" using that(1) by (simp add: kf_words_def)
    moreover have "map_of ?ms (kf_token w j) = (if w = ''start'' \<and> j = i then Some start
        else if w = ''end'' \<and> j = i then Some end else if w = ''type'' \<and> j = i then Some type else None)"
      by (simp only: kf_marks_def map_of.simps fun_upd_apply kf_token_eq [OF that words(1) i] kf_token_eq [OF that words(2) i]
          kf_token_eq [OF that words(3) i] fst_conv snd_conv)
    ultimately have "map_of ?ms (kf_token w j) = (if j = i then Some (kf_mark_of w start end type) else None)"
      by (auto simp: kf_mark_of_def)
    then show ?thesis using q(3) kf_names_in(2) [OF that] no_frame [OF that] by (simp add: kf_mark_def map_add_def)
  qed
  show ?thesis
  proof (intro exI [of _ q] conjI allI ballI impI)
    show "store_keyframes i start end type (concat (map int_bytes vs) @ r) p = Some q" using q(1) by (simp only: store_puts [OF len fit])
  qed (rule q(2), rule frames, assumption+, rule bounds, assumption+)
qed

subsection \<open>Packing and clearing\<close>

definition kf_value_of :: "vport \<Rightarrow> int \<Rightarrow> int \<Rightarrow> int" where
  "kf_value_of p i n = (case kf_at p i n of None \<Rightarrow> 0 | Some v \<Rightarrow> v)"

lemma pack_values_bytes:
  assumes "kf_numbers p" "kf_param i" "\<forall>j \<in> set js. kf_frame j" "4 * length js \<le> m"
  shows "pack_values p i js (length pre) (pre @ replicate m CHR 0x00) =
    Some (pre @ concat (map (\<lambda>n. int_bytes (kf_value_of p i n)) js) @ replicate (m - 4 * length js) CHR 0x00)"
  using assms(3,4)
proof (induction js arbitrary: pre m)
  case (Cons j js)
  let ?z = "\<lambda>n. replicate n CHR 0x00" and ?b = "int_bytes (kf_value_of p i j)"
  have m: "?z m = ?z 4 @ ?z (m - 4)" using Cons.prems(2) by (simp flip: replicate_add)
  have zero: "int_bytes 0 = ?z 4" by (simp add: int_bytes_def numeral_eq_Suc char_of_def)
  have "write_at (length pre) bs (pre @ ?z m) = Some (pre @ bs @ ?z (m - 4))" if "length bs = 4" for bs
    using that Cons.prems(2) by (simp add: write_at_def)
  then have step: "pack_values p i (j # js) (length pre) (pre @ ?z m) = pack_values p i js (length pre + 4) (pre @ ?b @ ?z (m - 4))"
    using Cons.prems(1) m zero
    by (cases "kf_at p i j") (simp_all add: kf_value(2) [OF assms(1,2)] kf_value_of_def vevo_errors)
  have "pack_values p i js (length (pre @ ?b)) ((pre @ ?b) @ ?z (m - 4)) =
      Some ((pre @ ?b) @ concat (map (\<lambda>n. int_bytes (kf_value_of p i n)) js) @ ?z (m - 4 - 4 * length js))"
    using Cons.prems by (intro Cons.IH) auto
  with step show ?case by (simp add: algebra_simps)
qed simp

lemma kf_tokens:
  assumes "kf_numbers p" "kf_param i" "kf_mark p ''start'' i = Some start" "kf_mark p ''end'' i = Some end"
    "kf_mark p ''type'' i = Some type"
  shows "keyframe_get_tokens p i = Some (Some (start, end, type))"
  using kf_mark_read [OF assms(1,2)] assms(3-5) by (simp add: keyframe_get_tokens_def kf_words_def)

lemma packet_head_length:
  assumes "0 \<le> entry" "entry < 100" "kf_param i" "0 \<le> start" "start < 100000" "0 \<le> end" "end < 100000" "0 \<le> type" "type < 100"
  shows "length (packet_head entry i start end type) = 25"
  using assms by (simp add: packet_head_def scan_field_pad(2) kf_param_def)

lemma pack_port:
  assumes "kf_numbers p" "kf_param i" "kf_mark p ''start'' i = Some start" "kf_mark p ''end'' i = Some end"
    "kf_mark p ''type'' i = Some type" "0 \<le> start" "start \<le> end" "end < 100000" "0 \<le> type" "type < 100" "0 \<le> entry" "entry < 100"
  shows "keyframe_pack p i entry =
    Some (Some (packet_head entry i start end type @ concat (map (\<lambda>n. int_bytes (kf_value_of p i n)) [start..end - 1])))"
proof -
  let ?h = "packet_head entry i start end type" and ?len = "end - start"
  let ?vs = "concat (map (\<lambda>n. int_bytes (kf_value_of p i n)) [start..end - 1])"
  have h: "length ?h = 25" using assms by (intro packet_head_length) auto
  define m where "m = nat (?len * 4 + 64) - 25"
  have m: "nat (?len * 4 + 64) = 25 + m" "4 * length [start..end - 1] \<le> m" using assms(7) by (simp_all add: m_def)
  have "replicate (25 + m) CHR 0x00 = replicate 25 CHR 0x00 @ CHR 0x00 # replicate (m - 1) CHR 0x00"
    using m assms(7) by (simp add: m_def flip: replicate_add replicate_Suc)
  then have "write_at 0 (?h @ [CHR 0x00]) (replicate (25 + m) CHR 0x00) = Some (?h @ CHR 0x00 # replicate (m - 1) CHR 0x00)"
    using h m assms(7) by (simp add: write_at_def m_def)
  also have "CHR 0x00 # replicate (m - 1) CHR 0x00 = replicate m CHR 0x00"
    using m(1) assms(7) by (cases m) (simp_all add: m_def)
  finally have head: "write_at 0 (?h @ [CHR 0x00]) (replicate (25 + m) CHR 0x00) = Some (?h @ replicate m CHR 0x00)" .
  have "\<forall>n \<in> set [start..end - 1]. kf_frame n" using assms(6,8) by (auto simp: kf_frame_def)
  from pack_values_bytes [OF assms(1,2) this m(2), of ?h]
  have vals: "pack_values p i [start..end - 1] 25 (?h @ replicate m CHR 0x00) =
      Some (?h @ ?vs @ replicate (m - 4 * length [start..end - 1]) CHR 0x00)" using h by simp
  have len: "length ?vs = nat (4 * ?len)" using assms(7) by (simp add: length_concat comp_def sum_list_triv)
  have "keyframe_pack p i entry = Some (Some (take (nat (25 + 4 * max 0 ?len)) (?h @ ?vs @ replicate (m - 4 * length [start..end - 1]) CHR 0x00)))"
  proof -
    have "\<not> (?len * 4 + 64 \<le> 0 \<or> 2147483647 < ?len * 4 + 64)" using assms(6-8) by simp
    then show ?thesis
      by (simp only: keyframe_pack_def kf_tokens [OF assms(1-5)] bind.bind_lunit option.case prod.case Let_def m(1) head vals if_False)
  qed
  moreover have "nat (25 + 4 * max 0 ?len) = length (?h @ ?vs)" using h len assms(7) by (simp add: nat_add_distrib)
  moreover have "take (length (?h @ ?vs)) (?h @ ?vs @ z) = ?h @ ?vs" for z by simp
  ultimately show ?thesis by (simp only:)
qed

lemma clear_holds:
  assumes "kf_numbers p" "kf_param i" "start = (case kf_mark p ''start'' i of None \<Rightarrow> 0 | Some x \<Rightarrow> x)"
    "end = (case kf_mark p ''end'' i of None \<Rightarrow> 0 | Some x \<Rightarrow> x)" "0 \<le> start" "end < 100000"
  shows "\<exists>q. clear_keyframes i p = Some q \<and> kf_numbers q \<and>
    (\<forall>j n. kf_param j \<longrightarrow> kf_frame n \<longrightarrow> kf_at q j n = (if j = i \<and> start \<le> n \<and> n \<le> end then None else kf_at p j n)) \<and>
    (\<forall>j. \<forall>w \<in> kf_words. kf_param j \<longrightarrow> kf_mark q w j = (if j = i then None else kf_mark p w j))"
proof -
  let ?ks = "map (keyframe_id i) [start..end] @ [kf_token ''start'' i, kf_token ''end'' i, kf_token ''type'' i]"
  have words: "''start'' \<in> kf_words" "''end'' \<in> kf_words" "''type'' \<in> kf_words" by (simp_all add: kf_words_def)
  have frame: "m \<in> set [start..end] \<Longrightarrow> kf_frame m" for m using assms(5,6) by (auto simp: kf_frame_def)
  have del_fun: "del_many f [] = Some" "del_many f (k # r) = (\<lambda>p. do { p \<leftarrow> f k p; del_many f r p })" for f k and r :: "string list"
    by (rule ext, simp)+
  have del_append: "del_many f (xs @ ys) = (\<lambda>p. do { p \<leftarrow> del_many f xs p; del_many f ys p })" for f and xs ys :: "string list"
    by (induction xs) (simp_all add: del_fun)
  define e where "e w = (if kf_mark p w i = None then VEVO_ERROR_NOSUCH_PROPERTY else VEVO_NO_ERROR)" for w
  have mark: "get_number p (kf_token w i) 0 = Some (e w, case kf_mark p w i of None \<Rightarrow> 0 | Some x \<Rightarrow> x)"
    if "w \<in> kf_words" for w
    using kf_mark_read [OF assms(1,2) that] by (simp add: e_def split: option.split)
  have run: "clear_keyframes i p = del_many del_number ?ks p"
    using mark [OF words(1)] mark [OF words(2)] mark [OF words(3)]
    by (simp add: clear_keyframes_def del_append del_fun assms(3,4) [symmetric])
  have "set ?ks \<subseteq> kf_names" using frame kf_names_in(1) [OF assms(2)] kf_names_in(2) [OF _ assms(2)] words by auto
  then obtain q where q: "del_many del_number ?ks p = Some q" "kf_numbers q"
      "\<forall>k \<in> kf_names. number_at q k = (if k \<in> set ?ks then None else number_at p k)"
    using kf.del_many_holds [OF assms(1)] by blast
  have ids: "keyframe_id j n \<in> set ?ks \<longleftrightarrow> j = i \<and> start \<le> n \<and> n \<le> end" if "kf_param j" "kf_frame n" for j n
  proof -
    have "(\<exists>m \<in> set [start..end]. keyframe_id j n = keyframe_id i m) = (\<exists>m \<in> set [start..end]. j = i \<and> n = m)"
      by (rule bex_cong [OF refl], rule kf_id_eq [OF that assms(2) frame])
    moreover have "keyframe_id j n \<notin> {kf_token ''start'' i, kf_token ''end'' i, kf_token ''type'' i}"
      using kf_id_token [OF that _ assms(2)] words by blast
    ultimately show ?thesis by (auto simp: image_iff)
  qed
  have marks: "kf_token w j \<in> set ?ks \<longleftrightarrow> j = i" if "w \<in> kf_words" "kf_param j" for w j
  proof -
    have "kf_token w j \<noteq> keyframe_id i m" if "m \<in> set [start..end]" for m
      using kf_id_token [OF assms(2) frame [OF that] \<open>w \<in> kf_words\<close> \<open>kf_param j\<close>] by metis
    then have "kf_token w j \<in> set ?ks \<longleftrightarrow> (w = ''start'' \<or> w = ''end'' \<or> w = ''type'') \<and> j = i"
      by (simp add: image_iff kf_token_eq [OF that words(1) assms(2)] kf_token_eq [OF that words(2) assms(2)]
          kf_token_eq [OF that words(3) assms(2)]) blast
    then show ?thesis using that(1) by (simp only: kf_words_iff simp_thms)
  qed
  show ?thesis
  proof (intro exI [of _ q] conjI allI ballI impI)
    show "clear_keyframes i p = Some q" using q(1) run by simp
    show "kf_numbers q" by (rule q(2))
    show "kf_at q j n = (if j = i \<and> start \<le> n \<and> n \<le> end then None else kf_at p j n)" if "kf_param j" "kf_frame n" for j n
      using q(3) kf_names_in(1) [OF that] ids [OF that] by (simp only: kf_at_def)
    show "kf_mark q w j = (if j = i then None else kf_mark p w j)" if "w \<in> kf_words" "kf_param j" for w j
      using q(3) kf_names_in(2) [OF that] marks [OF that] by (simp only: kf_mark_def)
  qed
qed

section \<open>The sample that plays\<close>

text \<open>
  \<open>kf_ready s k pos args p\<close>: sample \<open>k\<close> plays; entry \<open>pos\<close> of its chain has the arguments \<open>args\<close> and the keyframes of the
  port \<open>p\<close>, which is new when the entry has none yet. Memory that has not been handed out holds no port.
\<close>

definition kf_ready :: "kf_state \<Rightarrow> int \<Rightarrow> int \<Rightarrow> int list \<Rightarrow> vport \<Rightarrow> bool" where
  "kf_ready s k pos args p \<longleftrightarrow>
     adm_ok (kf_adm s) \<and> SAMPLE_PLAYING (kf_vj s) \<and> uc_sample_id (kf_vj s) = k \<and> \<not> outside pos \<and> kf_numbers p \<and>
     (\<exists>si. sample_at (kf_adm s) k = Some si \<and> chain_shape si \<and> sc_arg (si_effect_chain si ! nat pos) = args \<and>
        (case sc_kf (si_effect_chain si ! nat pos) of
           None \<Rightarrow> p = vevo_port_new VEVO_ANONYMOUS_PORT
         | Some a \<Rightarrow> kf_port s a = Some p)) \<and>
     (\<forall>b. ad_next (kf_adm s) \<le> b \<longrightarrow> kf_ports s b = None) \<and> (\<forall>b \<in> ad_ports (kf_adm s). b < ad_next (kf_adm s))"

lemma kf_fields [simp]:
  "kf_adm (kf_set_adm d s) = d" "kf_ports (kf_set_adm d s) = kf_ports s" "kf_adm (kf_set_port a p s) = kf_adm s"
  "kf_ports (kf_set_port a p s) = (kf_ports s)(a \<mapsto> p)" "kf_vj (kf_set_port a p s) = kf_vj s"
  "SAMPLE_PLAYING (kf_vj (kf_set_adm d s)) = SAMPLE_PLAYING (kf_vj s)" "uc_sample_id (kf_vj (kf_set_adm d s)) = uc_sample_id (kf_vj s)"
  by (simp_all add: kf_adm_def kf_set_adm_def kf_set_port_def SAMPLE_PLAYING_def link_mode_def)

lemma side_port:
  assumes "adm_ok d"
  shows "side d (d\<lparr>ad_next := Suc (ad_next d), ad_ports := x\<rparr>)"
proof -
  have "find_sample (d\<lparr>ad_next := Suc (ad_next d), ad_ports := x\<rparr>) k = find_sample d k" for k by (rule find_sample_cong; simp)
  then show ?thesis using assms by (auto simp: side_def elim!: adm_ok_cong)
qed

text \<open>Looking the sample up changes the pointer cache only.\<close>

definition kf_memo :: "int \<Rightarrow> kf_state \<Rightarrow> kf_state" where
  "kf_memo k s = kf_set_adm (memo_sample (kf_adm s) k) s"

lemma kf_ready_memo:
  assumes "kf_ready s k pos args p"
  shows "kf_ready (kf_memo j s) k pos args p"
  using assms by (auto simp: kf_ready_def kf_memo_def kf_port_def adm_ok_memo split: option.split)

lemma kf_ready_sample:
  assumes "kf_ready s k pos args p" "sample_at (kf_adm s) k = Some si"
  obtains a where "find_sample (kf_adm s) k = Some a" "k \<noteq> SAMPLE_MAX_SAMPLES"
    "chain_entry si pos = Some (si_effect_chain si ! nat pos)" "nat pos < length (si_effect_chain si)"
    "sc_arg (si_effect_chain si ! nat pos) = args" "length args = SAMPLE_MAX_PARAMETERS" "chain_shape si"
    "case sc_kf (si_effect_chain si ! nat pos) of None \<Rightarrow> p = vevo_port_new VEVO_ANONYMOUS_PORT | Some a \<Rightarrow> kf_port s a = Some p"
proof -
  have si: "chain_shape si" "sc_arg (si_effect_chain si ! nat pos) = args"
      "case sc_kf (si_effect_chain si ! nat pos) of None \<Rightarrow> p = vevo_port_new VEVO_ANONYMOUS_PORT | Some a \<Rightarrow> kf_port s a = Some p"
    and pos: "\<not> outside pos" using assms by (auto simp: kf_ready_def)
  obtain a where a: "find_sample (kf_adm s) k = Some a" using assms(2) by (auto simp: sample_at_def split: option.splits)
  have "k \<noteq> SAMPLE_MAX_SAMPLES" using a by (auto simp: find_sample_def split: if_splits)
  with that a si chain_entry_in [OF si(1) pos] show thesis by auto
qed

lemma on_sample_kf:
  assumes "kf_ready s k pos args p" "find_sample (kf_adm s) k = Some a" "sample_at (kf_adm s) k = Some si" "k \<noteq> SAMPLE_MAX_SAMPLES"
  shows "on_adm_kf (\<lambda>d. with_sample d k dflt K) s = do { (x, d) \<leftarrow> K (memo_sample (kf_adm s) k) a si; Some (x, kf_set_adm d s) }"
proof -
  have "adm_ok (kf_adm s)" using assms(1) by (simp add: kf_ready_def)
  then show ?thesis by (simp add: on_adm_kf_def with_sample_found [OF _ assms(4,2,3) refl])
qed

lemma get_kf:
  assumes "kf_ready s k pos args p" "sample_at (kf_adm s) k = Some si"
  shows "on_adm_kf (\<lambda>d. sample_get_kf_port d k pos) s = Some (sc_kf (si_effect_chain si ! nat pos), kf_memo k s)"
proof -
  obtain a where a: "find_sample (kf_adm s) k = Some a" "k \<noteq> SAMPLE_MAX_SAMPLES"
      "chain_entry si pos = Some (si_effect_chain si ! nat pos)"
    by (rule kf_ready_sample [OF assms])
  show ?thesis
    unfolding sample_get_kf_port_def read_entry_def on_sample_kf [OF assms(1) a(1) assms(2) a(2)] by (simp add: a(3) kf_memo_def)
qed

lemma kf_ready_put:
  assumes "kf_ready s k pos args p" "sample_at (kf_adm s) k = Some si" "sc_kf (si_effect_chain si ! nat pos) = Some b" "kf_numbers q"
  shows "kf_port s b = Some p" "kf_ready (kf_set_port b q s) k pos args q"
proof -
  show p: "kf_port s b = Some p" using assms(1-3) by (auto simp: kf_ready_def)
  then have "b \<in> ad_ports (kf_adm s)" by (simp add: kf_port_def split: if_splits)
  with assms show "kf_ready (kf_set_port b q s) k pos args q" by (auto simp: kf_ready_def kf_port_def)
qed

lemma alloc_kf:
  assumes "kf_ready s k pos args p" "sample_at (kf_adm s) k = Some si" "sc_kf (si_effect_chain si ! nat pos) = None"
  shows "\<exists>s' si'. on_adm_kf (\<lambda>d. sample_chain_alloc_kf d k pos) s = Some ((), s') \<and> kf_ready s' k pos args p \<and>
    sample_at (kf_adm s') k = Some si' \<and> sc_kf (si_effect_chain si' ! nat pos) \<noteq> None"
proof -
  obtain a where a: "find_sample (kf_adm s) k = Some a" "k \<noteq> SAMPLE_MAX_SAMPLES" "chain_shape si"
      "chain_entry si pos = Some (si_effect_chain si ! nat pos)" "nat pos < length (si_effect_chain si)"
      "sc_arg (si_effect_chain si ! nat pos) = args" "length args = SAMPLE_MAX_PARAMETERS"
    by (rule kf_ready_sample [OF assms(1,2)])
  let ?d = "memo_sample (kf_adm s) k" and ?e = "si_effect_chain si ! nat pos"
  let ?b = "ad_next (kf_adm s)" and ?ports = "insert (ad_next (kf_adm s)) (ad_ports (kf_adm s))"
  let ?d1 = "?d\<lparr>ad_next := Suc ?b, ad_ports := ?ports\<rparr>"
  let ?si = "put_entry pos (?e\<lparr>sc_kf := Some ?b\<rparr>) si"
  let ?s = "kf_set_adm (put_sample a ?si ?d1) s"
  have ok: "adm_ok (kf_adm s)" and fresh: "kf_ports s ?b = None" using assms(1) by (auto simp: kf_ready_def)
  have vpn: "vpn ?d = (?b, ?d1)" by (simp add: vpn_def ad_alloc_def Let_def)
  have run: "on_adm_kf (\<lambda>d. sample_chain_alloc_kf d k pos) s = Some ((), ?s)"
    unfolding sample_chain_alloc_kf_def on_sample_kf [OF assms(1) a(1) assms(2) a(2)] by (simp add: a(4) vpn)
  have "side ?d ?d1" using side_port [OF adm_ok_memo [OF ok, of k], of ?ports] by simp
  note put = put_side [OF ok a(1) assms(2) this, of ?si]
  have at: "sample_at (kf_adm ?s) k = Some ?si" using put(2) [of k] by (simp add: put_entry_def)
  have shape: "chain_shape ?si"
    using a(3,6,7) by (intro chain_shape_put) simp_all
  have entry: "si_effect_chain ?si ! nat pos = ?e\<lparr>sc_kf := Some ?b\<rparr>" using a(5) by (simp add: put_entry_def)
  have "p = vevo_port_new VEVO_ANONYMOUS_PORT" using assms by (auto simp: kf_ready_def)
  then have "kf_port ?s ?b = Some p" using fresh by (simp add: kf_port_def put_sample_def)
  then have "kf_ready ?s k pos args p"
    using assms(1) put(1) at shape entry a(6) unfolding kf_ready_def
    by (auto simp: put_entry_def put_sample_def Suc_le_eq less_SucI)
  with run at entry show ?thesis by auto
qed

text \<open>The port of the entry when there is one; a new one is made on demand.\<close>

lemma kf_port_there:
  assumes "kf_ready s k pos args p"
  shows "\<exists>a s'. kf_port_of True k pos 1 s = Some (Some a, s') \<and> kf_port s' a = Some p \<and>
    (\<forall>q. kf_numbers q \<longrightarrow> kf_ready (kf_set_port a q s') k pos args q)"
proof -
  obtain si where si: "sample_at (kf_adm s) k = Some si" using assms by (auto simp: kf_ready_def)
  have there: "\<exists>a. on_adm_kf (\<lambda>d. sample_get_kf_port d k pos) r = Some (Some a, kf_memo k r) \<and> kf_port (kf_memo k r) a = Some p \<and>
      (\<forall>q. kf_numbers q \<longrightarrow> kf_ready (kf_set_port a q (kf_memo k r)) k pos args q)"
    if "kf_ready r k pos args p" "sample_at (kf_adm r) k = Some si" "sc_kf (si_effect_chain si ! nat pos) = Some b" for r si b
  proof -
    have memo: "kf_ready (kf_memo k r) k pos args p" by (rule kf_ready_memo [OF that(1)])
    have "sample_at (kf_adm (kf_memo k r)) k = Some si" using that(2) by (simp add: kf_memo_def)
    note put = kf_ready_put [OF memo this that(3)]
    have "kf_numbers p" using that(1) by (simp add: kf_ready_def)
    then show ?thesis using get_kf [OF that(1,2)] that(3) put by auto
  qed
  show ?thesis
  proof (cases "sc_kf (si_effect_chain si ! nat pos)")
    case (Some b)
    with there [OF assms si Some] get_kf [OF assms si] show ?thesis by (auto simp: kf_port_of_def sample_kf_port_def)
  next
    case None
    let ?r = "kf_memo k s"
    have r: "kf_ready ?r k pos args p" "sample_at (kf_adm ?r) k = Some si"
      using kf_ready_memo [OF assms] si by (simp_all add: kf_memo_def)
    obtain s' si' b where s': "on_adm_kf (\<lambda>d. sample_chain_alloc_kf d k pos) ?r = Some ((), s')" "kf_ready s' k pos args p"
        "sample_at (kf_adm s') k = Some si'" "sc_kf (si_effect_chain si' ! nat pos) = Some b"
      using alloc_kf [OF r None] by auto
    with there [OF s'(2-4)] get_kf [OF assms si] None show ?thesis by (auto simp: kf_port_of_def sample_kf_port_def)
  qed
qed

lemma show_pad_chars: "0 \<le> i \<Longrightarrow> c \<in> set (show_pad w i) \<Longrightarrow> is_digit c"
  using show_nat_digits by (auto simp: show_pad_def is_digit_def split: if_splits)

lemma scan_packet_head:
  assumes "0 \<le> entry" "entry < 100" "kf_range i start end type vs"
  shows "scan_packet (packet_head entry i start end type @ r) = Some (entry, i, start, end, type)"
proof -
  let ?t = "takeWhile (\<lambda>c. c \<noteq> CHR 0x00) r"
  have bounds: "0 \<le> i" "i < 10 ^ 2" "0 \<le> start" "start < 10 ^ 8" "0 \<le> end" "end < 10 ^ 8" "0 \<le> type" "type < 10 ^ 2"
    "entry < 10 ^ 2" using assms by (auto simp: kf_range_def kf_param_def)
  have "c \<noteq> CHR 0x00" if "c \<in> set (packet_head entry i start end type)" for c
  proof -
    have "c \<in> set ''key'' \<or> is_digit c"
      using that unfolding packet_head_def set_append Un_iff
      by (elim disjE) (blast intro: show_pad_chars assms(1) bounds)+
    moreover have "\<not> is_digit CHR 0x00" by (simp add: is_digit_def)
    ultimately show ?thesis by auto
  qed
  then have "takeWhile (\<lambda>c. c \<noteq> CHR 0x00) (packet_head entry i start end type @ r) = packet_head entry i start end type @ ?t"
    by simp
  then have *: "scan_packet (packet_head entry i start end type @ r) = do {
      (fx_pos, cs) \<leftarrow> scan_field 2 (show_pad 2 entry @ show_pad 2 i @ show_pad 8 start @ show_pad 8 end @ show_pad 2 type @ ?t);
      (parameter_id, cs) \<leftarrow> scan_field 2 cs; (start, cs) \<leftarrow> scan_field 8 cs; (end, cs) \<leftarrow> scan_field 8 cs;
      (type, cs) \<leftarrow> scan_field 2 cs; Some (fx_pos, parameter_id, start, end, type) }"
    by (simp add: scan_packet_def packet_head_def Let_def)
  have field: "scan_field w (show_pad w x @ cs) = Some (x, cs)" if "0 \<le> x" "x < 10 ^ w" "0 < w" for w x cs
    by (rule scan_field_pad(1) [OF that])
  show ?thesis
    unfolding *
    by (simp only: bind.bind_lunit prod.case field [OF assms(1) bounds(9) zero_less_numeral] field [OF bounds(1,2) zero_less_numeral]
        field [OF bounds(3,4) zero_less_numeral] field [OF bounds(5,6) zero_less_numeral] field [OF bounds(7,8) zero_less_numeral])
qed

lemma unpack_ready:
  assumes "kf_ready s k pos args p" "kf_range i start end type vs"
  shows "\<exists>s' q. keyframe_unpack (packet_head pos i start end type @ concat (map int_bytes vs) @ r) k 1 s = Some ((1, Some pos), s') \<and>
    kf_ready s' k pos args q \<and>
    (\<forall>j n. kf_param j \<longrightarrow> kf_frame n \<longrightarrow>
       kf_at q j n = (if j = i \<and> start \<le> n \<and> n \<le> end then Some (vs ! nat (n - start)) else kf_at p j n)) \<and>
    (\<forall>j. \<forall>w \<in> kf_words. kf_param j \<longrightarrow> kf_mark q w j = (if j = i then Some (kf_mark_of w start end type) else kf_mark p w j))"
proof -
  let ?bs = "packet_head pos i start end type @ concat (map int_bytes vs) @ r"
  have pos: "0 \<le> pos" "pos < 100" using assms(1) by (auto simp: kf_ready_def outside_def SAMPLE_MAX_EFFECTS_def)
  have "kf_numbers p" using assms(1) by (simp add: kf_ready_def)
  from store_keyframes_holds [OF this assms(2), of r] obtain q where
    q: "store_keyframes i start end type (concat (map int_bytes vs) @ r) p = Some q" "kf_numbers q"
      "\<forall>j n. kf_param j \<longrightarrow> kf_frame n \<longrightarrow>
         kf_at q j n = (if j = i \<and> start \<le> n \<and> n \<le> end then Some (vs ! nat (n - start)) else kf_at p j n)"
      "\<forall>j. \<forall>w \<in> kf_words. kf_param j \<longrightarrow> kf_mark q w j = (if j = i then Some (kf_mark_of w start end type) else kf_mark p w j)"
    by blast
  obtain a s' where s': "kf_port_of True k pos 1 s = Some (Some a, s')" "kf_port s' a = Some p"
      "kf_numbers q \<longrightarrow> kf_ready (kf_set_port a q s') k pos args q" using kf_port_there [OF assms(1)] by blast
  have "length (packet_head pos i start end type) = 25"
    using pos assms(2) by (intro packet_head_length) (auto simp: kf_range_def)
  then have "drop 25 ?bs = concat (map int_bytes vs) @ r" by simp
  then have "keyframe_unpack ?bs k 1 s = Some ((1, Some pos), kf_set_port a q s')"
    by (simp add: keyframe_unpack_def scan_packet_head [OF pos assms(2)] s'(1,2) q(1))
  with s'(3) q(2-4) show ?thesis by blast
qed

text \<open>What an effect gets at frame \<open>n\<close>.\<close>

definition args_shown :: "(int \<Rightarrow> int \<Rightarrow> int option) \<Rightarrow> int list \<Rightarrow> int \<Rightarrow> int \<Rightarrow> int list" where
  "args_shown kf args m n = map (\<lambda>j. case kf j n of None \<Rightarrow> args ! nat j | Some x \<Rightarrow> x) [0..m - 1]"

lemma args_at_shown:
  assumes "length args = SAMPLE_MAX_PARAMETERS" "set js \<subseteq> {0..<32}"
  shows "args_at None args n js = Some (map (\<lambda>j. args ! nat j) js)"
    "kf_numbers p \<Longrightarrow> kf_frame n \<Longrightarrow>
      args_at (Some p) args n js = Some (map (\<lambda>j. case kf_at p j n of None \<Rightarrow> args ! nat j | Some x \<Rightarrow> x) js)"
proof -
  have arg: "c_nth args j = Some (args ! nat j)" if "0 \<le> j" "j < 32" for j using that assms(1) by (simp add: SAMPLE_MAX_PARAMETERS_def)
  show "args_at None args n js = Some (map (\<lambda>j. args ! nat j) js)" using assms(2) arg by (induction js) auto
  assume p: "kf_numbers p" "kf_frame n"
  show "args_at (Some p) args n js = Some (map (\<lambda>j. case kf_at p j n of None \<Rightarrow> args ! nat j | Some x \<Rightarrow> x) js)"
    using assms(2)
  proof (induction js)
    case (Cons j js)
    then have "kf_param j" "0 \<le> j" "j < 32" by (simp_all add: kf_param_def)
    with Cons show ?case by (simp add: arg kf_value(1) [OF p(1) _ p(2)] split: option.split)
  qed simp
qed

lemma effect_args_ready:
  assumes "kf_ready s k pos args p" "0 < m" "m \<le> 32" "kf_frame n"
  shows "sample_get_all_effect_arg k pos m n s = Some ((m, args_shown (kf_at p) args m n), kf_memo k s)"
proof -
  obtain si where si: "sample_at (kf_adm s) k = Some si" using assms(1) by (auto simp: kf_ready_def)
  obtain a where a: "find_sample (kf_adm s) k = Some a" "k \<noteq> SAMPLE_MAX_SAMPLES"
      "chain_entry si pos = Some (si_effect_chain si ! nat pos)" "nat pos < length (si_effect_chain si)"
      "sc_arg (si_effect_chain si ! nat pos) = args" "length args = SAMPLE_MAX_PARAMETERS" "chain_shape si"
      "case sc_kf (si_effect_chain si ! nat pos) of None \<Rightarrow> p = vevo_port_new VEVO_ANONYMOUS_PORT | Some a \<Rightarrow> kf_port s a = Some p"
    by (rule kf_ready_sample [OF assms(1) si])
  let ?e = "si_effect_chain si ! nat pos"
  have js: "set [0..m - 1] \<subseteq> {0..<32}" using assms(2,3) by auto
  have p: "kf_numbers p" and pos: "\<not> int SAMPLE_MAX_EFFECTS \<le> pos" using assms(1) by (auto simp: kf_ready_def outside_def)
  have args: "args_at port args n [0..m - 1] = Some (args_shown (kf_at p) args m n)"
    if "port = (case sc_kf ?e of None \<Rightarrow> None | Some a \<Rightarrow> Some p)" for port
  proof (cases "sc_kf ?e")
    case None
    then have "kf_at p j n = None" for j using a(8) number_port_new(2) by (simp add: kf_at_def)
    with None that args_at_shown(1) [OF a(6) js] show ?thesis by (simp add: args_shown_def)
  next
    case (Some b)
    with that args_at_shown(2) [OF a(6) js p assms(4)] show ?thesis by (simp add: args_shown_def)
  qed
  have port: "(case sc_kf ?e of None \<Rightarrow> Some None | Some a \<Rightarrow> map_option Some (kf_port (kf_memo k s) a))
      = Some (case sc_kf ?e of None \<Rightarrow> None | Some a \<Rightarrow> Some p)"
    using a(8) by (auto simp: kf_memo_def kf_port_def split: option.splits if_splits)
  have m: "\<not> (m = 0 \<or> int SAMPLE_MAX_EFFECTS \<le> pos \<or> m < 0 \<or> int SAMPLE_MAX_PARAMETERS < m)"
    using assms(2,3) pos by (auto simp: SAMPLE_MAX_PARAMETERS_def)
  show ?thesis
    unfolding sample_get_all_effect_arg_def on_sample_kf [OF assms(1) a(1) si a(2)]
    by (simp only: m if_False a(3) bind.bind_lunit prod.case option.case kf_memo_def [symmetric] port a(5) args [OF refl])
qed

lemma args_shown_cong:
  assumes "\<And>j. kf_param j \<Longrightarrow> kf j n = kf' j n" "m \<le> 32"
  shows "args_shown kf args m n = args_shown kf' args m n"
  unfolding args_shown_def
proof (rule map_cong [OF refl])
  fix j assume "j \<in> set [0..m - 1]"
  then have "kf j n = kf' j n" using assms(2) by (intro assms(1)) (simp add: kf_param_def)
  then show "(case kf j n of None \<Rightarrow> args ! nat j | Some x \<Rightarrow> x) = (case kf' j n of None \<Rightarrow> args ! nat j | Some x \<Rightarrow> x)" by simp
qed

text \<open>
  C33. Keyframes that a client sends for the sample that plays are what the effect gets: after the packet with the values
  \<open>vs\<close> for the frames \<open>start\<close> to \<open>end\<close> of parameter \<open>i\<close>, the arguments at a frame of the range have the value of
  that frame for \<open>i\<close>, and all other parameters and frames have what they had before, an earlier keyframe or the argument
  of the entry.
\<close>

theorem keyframes_played:
  assumes "kf_ready s k pos args p" "kf_range i start end type vs" "0 < len"
  shows "\<exists>s' q. vj_event_parse_kf (packet_head pos i start end type @ concat (map int_bytes vs) @ r) len s = Some s' \<and>
    kf_ready s' k pos args q \<and>
    (\<forall>m n. 0 < m \<longrightarrow> m \<le> 32 \<longrightarrow> kf_frame n \<longrightarrow>
       sample_get_all_effect_arg k pos m n s' =
         Some ((m, args_shown (\<lambda>j n. if j = i \<and> start \<le> n \<and> n \<le> end then Some (vs ! nat (n - start)) else kf_at p j n) args m n),
           kf_memo k s'))"
proof -
  let ?bs = "packet_head pos i start end type @ concat (map int_bytes vs) @ r"
  obtain si where si: "sample_at (kf_adm s) k = Some si" using assms(1) by (auto simp: kf_ready_def)
  obtain a where a: "find_sample (kf_adm s) k = Some a" "k \<noteq> SAMPLE_MAX_SAMPLES" by (rule kf_ready_sample [OF assms(1) si])
  obtain s' q where q: "keyframe_unpack ?bs k 1 (kf_memo k s) = Some ((1, Some pos), s')" "kf_ready s' k pos args q"
      "\<forall>j n. kf_param j \<longrightarrow> kf_frame n \<longrightarrow>
         kf_at q j n = (if j = i \<and> start \<le> n \<and> n \<le> end then Some (vs ! nat (n - start)) else kf_at p j n)"
    using unpack_ready [OF kf_ready_memo [OF assms(1)] assms(2)] by blast
  have "sample_chain_set_kfs k len ?bs s = Some (1, s')"
    unfolding sample_chain_set_kfs_def on_sample_kf [OF assms(1) a(1) si a(2)]
    using assms(3) q(1) by (simp add: kf_memo_def)
  moreover have "SAMPLE_PLAYING (kf_vj s)" "uc_sample_id (kf_vj s) = k" using assms(1) by (simp_all add: kf_ready_def)
  ultimately have run: "vj_event_parse_kf ?bs len s = Some s'" by (simp add: vj_event_parse_kf_def)
  show ?thesis
  proof (intro exI conjI allI impI)
    show "vj_event_parse_kf ?bs len s = Some s'" by (rule run)
    show "kf_ready s' k pos args q" by (rule q(2))
    fix m n :: int assume m: "0 < m" "m \<le> 32" "kf_frame n"
    let ?kf = "\<lambda>j n. if j = i \<and> start \<le> n \<and> n \<le> end then Some (vs ! nat (n - start)) else kf_at p j n"
    have "args_shown (kf_at q) args m n = args_shown ?kf args m n"
      using q(3) m(2,3) by (intro args_shown_cong) simp_all
    then show "sample_get_all_effect_arg k pos m n s' =
        Some ((m, args_shown (\<lambda>j n. if j = i \<and> start \<le> n \<and> n \<le> end then Some (vs ! nat (n - start)) else kf_at p j n) args m n),
          kf_memo k s')"
      by (simp only: effect_args_ready [OF q(2) m])
  qed
qed

subsection \<open>Asking for the keyframes\<close>

lemma kf_port_new_empty: "kf_at (vevo_port_new VEVO_ANONYMOUS_PORT) j n = None" "kf_mark (vevo_port_new VEVO_ANONYMOUS_PORT) w j = None"
  using number_port_new(2) by (simp_all add: kf_at_def kf_mark_def)

lemma pack_nothing:
  assumes "kf_numbers p" "kf_param i" "kf_mark p ''start'' i = None"
  shows "keyframe_pack p i entry = Some None"
proof -
  have "''start'' \<in> kf_words" by (simp add: kf_words_def)
  then show ?thesis
    using kf_mark_read [OF assms(1,2)] assms(3) by (simp add: keyframe_pack_def keyframe_get_tokens_def vevo_errors)
qed

lemma get_keyframes_ready:
  assumes "kf_ready s k pos args p"
  shows "vj_event_get_keyframes pos i s =
    (if i < 0 \<or> 9 < i then Some (kf_reply None, kf_memo k s)
     else do { data \<leftarrow> keyframe_pack p i pos; Some (kf_reply data, kf_memo k s) })"
proof -
  obtain si where si: "sample_at (kf_adm s) k = Some si" using assms by (auto simp: kf_ready_def)
  obtain a where a: "find_sample (kf_adm s) k = Some a" "k \<noteq> SAMPLE_MAX_SAMPLES"
      "chain_entry si pos = Some (si_effect_chain si ! nat pos)"
      "case sc_kf (si_effect_chain si ! nat pos) of None \<Rightarrow> p = vevo_port_new VEVO_ANONYMOUS_PORT | Some a \<Rightarrow> kf_port s a = Some p"
    by (rule kf_ready_sample [OF assms si])
  let ?e = "si_effect_chain si ! nat pos"
  have p: "kf_numbers p" and plays: "SAMPLE_PLAYING (kf_vj s)" "uc_sample_id (kf_vj s) = k"
    and pos: "\<not> (pos < 0 \<or> int SAMPLE_MAX_EFFECTS < pos)" using assms by (auto simp: kf_ready_def outside_def)
  have port: "kf_port (kf_memo k s) = kf_port s" by (rule ext) (simp add: kf_port_def kf_memo_def)
  have "sample_chain_get_kfs k pos i s =
      (if i < 0 \<or> 9 < i then Some (None, kf_memo k s) else do { data \<leftarrow> keyframe_pack p i pos; Some (data, kf_memo k s) })"
  proof (cases "i < 0 \<or> 9 < i")
    case True
    then show ?thesis
      unfolding sample_chain_get_kfs_def on_sample_kf [OF assms a(1) si a(2)] by (simp add: no_kf_entry_def kf_memo_def)
  next
    case False
    then have fine: "\<not> no_kf_entry pos i" and i: "kf_param i" using pos by (auto simp: no_kf_entry_def kf_param_def)
    have run: "sample_chain_get_kfs k pos i s = (case sc_kf ?e of None \<Rightarrow> Some (None, kf_memo k s)
        | Some a \<Rightarrow> do { p \<leftarrow> kf_port (kf_memo k s) a; data \<leftarrow> keyframe_pack p i pos; Some (data, kf_memo k s) })"
      unfolding sample_chain_get_kfs_def on_sample_kf [OF assms a(1) si a(2)] by (simp add: fine a(3) kf_memo_def [symmetric])
    show ?thesis
    proof (cases "sc_kf ?e")
      case None
      with a(4) have "keyframe_pack p i pos = Some None" using pack_nothing [OF p i] by (simp add: kf_port_new_empty)
      with None False run show ?thesis by simp
    next
      case (Some b)
      with a(4) False run show ?thesis by (simp add: port)
    qed
  qed
  with plays show ?thesis by (simp add: vj_event_get_keyframes_def)
qed

lemma unpack_values_short: "length ws < length js \<Longrightarrow> unpack_values i js (concat (map int_bytes ws)) p = None"
proof (induction js arbitrary: ws p)
  case (Cons j js)
  show ?case
  proof (cases ws)
    case (Cons w ws')
    with Cons.prems Cons.IH [of ws'] show ?thesis by (simp split: Option.bind_split)
  qed simp
qed simp

text \<open>The port has the keyframes \<open>vs\<close> for the frames \<open>start\<close> to \<open>end\<close> of parameter \<open>i\<close>.\<close>

definition kf_has :: "vport \<Rightarrow> int \<Rightarrow> int \<Rightarrow> int \<Rightarrow> int \<Rightarrow> int list \<Rightarrow> bool" where
  "kf_has p i start end type vs \<longleftrightarrow>
     (\<forall>w \<in> kf_words. kf_mark p w i = Some (kf_mark_of w start end type)) \<and>
     (\<forall>n \<in> {start..end}. kf_at p i n = Some (vs ! nat (n - start)))"

lemma kf_has_values:
  assumes "kf_has p i start end type vs" "kf_range i start end type vs"
  shows "map (kf_value_of p i) [start..end - 1] = butlast vs"
proof (rule nth_equalityI)
  show len: "length (map (kf_value_of p i) [start..end - 1]) = length (butlast vs)" using assms(2) by (simp add: kf_range_def)
  fix m assume "m < length (map (kf_value_of p i) [start..end - 1])"
  then have m: "m < nat (end - start)" by simp
  then have "kf_at p i (start + int m) = Some (vs ! m)" using assms(1) by (auto simp: kf_has_def)
  moreover have "map (kf_value_of p i) [start..end - 1] ! m = kf_value_of p i (start + int m)" using m by simp
  moreover have "butlast vs ! m = vs ! m" using m len by (intro nth_butlast) simp
  ultimately show "map (kf_value_of p i) [start..end - 1] ! m = butlast vs ! m" by (simp add: kf_value_of_def)
qed

text \<open>
  C35. What the server answers to a client that asks for keyframes cannot be sent back: the packet gives the range with its
  last frame and lacks the value of that frame, so reading exactly these bytes goes beyond them.
\<close>

theorem sent_keyframes_unreadable:
  assumes "kf_ready s k pos args p" "kf_range i start end type vs" "i \<le> 9" "kf_has p i start end type vs"
    "bs = packet_head pos i start end type @ concat (map int_bytes (butlast vs))"
  shows "vj_event_get_keyframes pos i s = Some (show_pad 8 (int (length bs)) @ bs, kf_memo k s) \<and>
    vj_event_parse_kf bs (int (length bs)) s = None"
proof
  have p: "kf_numbers p" and plays: "SAMPLE_PLAYING (kf_vj s)" "uc_sample_id (kf_vj s) = k"
    and pos: "0 \<le> pos" "pos < 100" using assms(1) by (auto simp: kf_ready_def outside_def SAMPLE_MAX_EFFECTS_def)
  have i: "kf_param i" "0 \<le> start" "start \<le> end" "end < 100000" "0 \<le> type" "type < 100" "\<not> (i < 0 \<or> 9 < i)"
    using assms(2,3) by (auto simp: kf_range_def kf_param_def)
  have head: "length (packet_head pos i start end type) = 25" using pos i by (intro packet_head_length) auto
  have mark: "kf_mark p ''start'' i = Some start" "kf_mark p ''end'' i = Some end" "kf_mark p ''type'' i = Some type"
    using assms(4) by (simp_all add: kf_has_def kf_words_def kf_mark_of_def)
  have len: "length bs = 25 + 4 * nat (end - start)"
    unfolding assms(5) using head assms(2) by (simp add: length_concat comp_def sum_list_triv kf_range_def)
  have "keyframe_pack p i pos = Some (Some bs)"
    unfolding pack_port [OF p i(1) mark i(2-6) pos] assms(5)
    by (simp only: kf_has_values [OF assms(4,2), symmetric] map_map comp_def)
  then have "vj_event_get_keyframes pos i s = Some (kf_reply (Some bs), kf_memo k s)"
    using i(7) by (simp add: get_keyframes_ready [OF assms(1)])
  moreover have "length (show_pad 8 (int (length bs))) = 8"
    using len i(2-4) by (intro scan_field_pad(2)) simp_all
  ultimately show "vj_event_get_keyframes pos i s = Some (show_pad 8 (int (length bs)) @ bs, kf_memo k s)"
    using len by (simp add: kf_reply_def)
  obtain si where si: "sample_at (kf_adm s) k = Some si" using assms(1) by (auto simp: kf_ready_def)
  obtain a where a: "find_sample (kf_adm s) k = Some a" "k \<noteq> SAMPLE_MAX_SAMPLES" by (rule kf_ready_sample [OF assms(1) si])
  obtain b s' where s': "kf_port_of True k pos 1 (kf_memo k s) = Some (Some b, s')" "kf_port s' b = Some p"
    using kf_port_there [OF kf_ready_memo [OF assms(1)]] by blast
  have "length (butlast vs) < length [start..end]" using i(3) assms(2) by (simp add: kf_range_def)
  from unpack_values_short [OF this]
  have "store_keyframes i start end type (concat (map int_bytes (butlast vs))) p = None" by (simp add: store_keyframes_def)
  moreover have "scan_packet bs = Some (pos, i, start, end, type)" unfolding assms(5) by (rule scan_packet_head [OF pos assms(2)])
  moreover have "drop 25 bs = concat (map int_bytes (butlast vs))" unfolding assms(5) using head by simp
  ultimately have "keyframe_unpack bs k 1 (kf_memo k s) = None" by (simp add: keyframe_unpack_def s')
  moreover have "0 < int (length bs)" using len by simp
  ultimately have "sample_chain_set_kfs k (int (length bs)) bs s = None"
    unfolding sample_chain_set_kfs_def on_sample_kf [OF assms(1) a(1) si a(2)] by (simp add: kf_memo_def)
  with plays show "vj_event_parse_kf bs (int (length bs)) s = None" by (simp add: vj_event_parse_kf_def)
qed

subsection \<open>Deleting keyframes\<close>

lemma kf_port_as_it_is:
  assumes "kf_ready s k pos args p"
  shows "\<exists>port. kf_port_of False k pos 1 s = Some (port, kf_memo k s) \<and>
    (case port of None \<Rightarrow> p = vevo_port_new VEVO_ANONYMOUS_PORT
     | Some a \<Rightarrow> kf_port (kf_memo k s) a = Some p \<and> (\<forall>q. kf_numbers q \<longrightarrow> kf_ready (kf_set_port a q (kf_memo k s)) k pos args q))"
proof -
  obtain si where si: "sample_at (kf_adm s) k = Some si" using assms by (auto simp: kf_ready_def)
  have new: "sc_kf (si_effect_chain si ! nat pos) = None \<Longrightarrow> p = vevo_port_new VEVO_ANONYMOUS_PORT"
    using assms si by (auto simp: kf_ready_def)
  have memo: "kf_ready (kf_memo k s) k pos args p" by (rule kf_ready_memo [OF assms])
  have "sample_at (kf_adm (kf_memo k s)) k = Some si" using si by (simp add: kf_memo_def)
  note put = kf_ready_put [OF memo this]
  have "kf_numbers p" using assms by (simp add: kf_ready_def)
  with put have some: "kf_port (kf_memo k s) b = Some p \<and> (\<forall>q. kf_numbers q \<longrightarrow> kf_ready (kf_set_port b q (kf_memo k s)) k pos args q)"
    if "sc_kf (si_effect_chain si ! nat pos) = Some b" for b using that by blast
  have "kf_port_of False k pos 1 s = Some (sc_kf (si_effect_chain si ! nat pos), kf_memo k s)"
    by (simp add: kf_port_of_def sample_kf_port_def get_kf [OF assms si])
  with new some show ?thesis by (cases "sc_kf (si_effect_chain si ! nat pos)") auto
qed

text \<open>
  C34. Deleting the keyframes of a parameter of the sample that plays removes all of the range and nothing else: the
  parameter has the argument of the entry again, frames outside the range and other parameters keep what they had, and a
  client that asks for the keyframes gets none. (A port without a range for the parameter is cleared as if it were frame 0.)
\<close>

theorem keyframes_cleared:
  assumes "kf_ready s k pos args p" "kf_param i"
    "kf_mark p ''start'' i = map_option fst rng" "kf_mark p ''end'' i = map_option snd rng"
    "case rng of None \<Rightarrow> True | Some (start, end) \<Rightarrow> 0 \<le> start \<and> end < 100000"
  shows "\<exists>s' q. vj_event_del_keyframes pos i s = Some s' \<and> kf_ready s' k pos args q \<and>
    vj_event_get_keyframes pos i s' = Some (''00000000'', kf_memo k s') \<and>
    (\<forall>m n. 0 < m \<longrightarrow> m \<le> 32 \<longrightarrow> kf_frame n \<longrightarrow>
       sample_get_all_effect_arg k pos m n s' =
         Some ((m, args_shown (\<lambda>j n. if j = i \<and> (case rng of None \<Rightarrow> n = 0 | Some (start, end) \<Rightarrow> start \<le> n \<and> n \<le> end)
           then None else kf_at p j n) args m n), kf_memo k s'))"
proof -
  let ?in = "\<lambda>n. case rng of None \<Rightarrow> n = 0 | Some (start, end) \<Rightarrow> start \<le> n \<and> n \<le> end"
  have p: "kf_numbers p" and plays: "SAMPLE_PLAYING (kf_vj s)" "uc_sample_id (kf_vj s) = k"
    using assms(1) by (auto simp: kf_ready_def)
  have words: "''start'' \<in> kf_words" by (simp add: kf_words_def)
  have "\<exists>s' q. vj_event_del_keyframes pos i s = Some s' \<and> kf_ready s' k pos args q \<and> kf_mark q ''start'' i = None \<and>
    (\<forall>j n. kf_param j \<longrightarrow> kf_frame n \<longrightarrow> kf_at q j n = (if j = i \<and> ?in n then None else kf_at p j n))"
  proof -
    obtain port where port: "kf_port_of False k pos 1 s = Some (port, kf_memo k s)"
        "case port of None \<Rightarrow> p = vevo_port_new VEVO_ANONYMOUS_PORT
         | Some a \<Rightarrow> kf_port (kf_memo k s) a = Some p \<and> (\<forall>q. kf_numbers q \<longrightarrow> kf_ready (kf_set_port a q (kf_memo k s)) k pos args q)"
      using kf_port_as_it_is [OF assms(1)] by blast
    show ?thesis
    proof (cases port)
      case None
      then have "vj_event_del_keyframes pos i s = Some (kf_memo k s)"
        using port(1) plays by (simp add: vj_event_del_keyframes_def keyframe_clear_entry_def)
      moreover have "p = vevo_port_new VEVO_ANONYMOUS_PORT" using None port(2) by simp
      moreover have "kf_ready (kf_memo k s) k pos args p" by (rule kf_ready_memo [OF assms(1)])
      ultimately show ?thesis by (intro exI [of _ "kf_memo k s"] exI [of _ p]) (simp add: kf_port_new_empty)
    next
      case (Some b)
      define start where "start = (case rng of None \<Rightarrow> 0 | Some (start, end) \<Rightarrow> start)"
      define endf where "endf = (case rng of None \<Rightarrow> 0 | Some (start, end) \<Rightarrow> end)"
      have bounds: "start = (case kf_mark p ''start'' i of None \<Rightarrow> 0 | Some x \<Rightarrow> x)"
          "endf = (case kf_mark p ''end'' i of None \<Rightarrow> 0 | Some x \<Rightarrow> x)" "0 \<le> start" "endf < 100000"
        using assms(3-5) by (auto simp: start_def endf_def split: option.splits)
      have inside: "?in n \<longleftrightarrow> start \<le> n \<and> n \<le> endf" for n by (auto simp: start_def endf_def split: option.splits)
      obtain q where q: "clear_keyframes i p = Some q" "kf_numbers q"
          "\<forall>j n. kf_param j \<longrightarrow> kf_frame n \<longrightarrow> kf_at q j n = (if j = i \<and> start \<le> n \<and> n \<le> endf then None else kf_at p j n)"
          "\<forall>j. \<forall>w \<in> kf_words. kf_param j \<longrightarrow> kf_mark q w j = (if j = i then None else kf_mark p w j)"
        using clear_holds [OF p assms(2) bounds] by blast
      have "vj_event_del_keyframes pos i s = Some (kf_set_port b q (kf_memo k s))"
        using port Some plays q(1) by (simp add: vj_event_del_keyframes_def keyframe_clear_entry_def)
      moreover have "kf_ready (kf_set_port b q (kf_memo k s)) k pos args q" using port(2) Some q(2) by simp
      moreover have "kf_mark q ''start'' i = None" using q(4) words assms(2) by simp
      ultimately show ?thesis using q(3) inside by auto
    qed
  qed
  then obtain s' q where q: "vj_event_del_keyframes pos i s = Some s'" "kf_ready s' k pos args q" "kf_mark q ''start'' i = None"
      "\<forall>j n. kf_param j \<longrightarrow> kf_frame n \<longrightarrow> kf_at q j n = (if j = i \<and> ?in n then None else kf_at p j n)" by blast
  have "kf_numbers q" using q(2) by (simp add: kf_ready_def)
  then have "keyframe_pack q i pos = Some None" by (rule pack_nothing [OF _ assms(2) q(3)])
  then have got: "vj_event_get_keyframes pos i s' = Some (''00000000'', kf_memo k s')"
    by (simp add: get_keyframes_ready [OF q(2)] kf_reply_def)
  show ?thesis
  proof (intro exI conjI allI impI)
    fix m n :: int assume m: "0 < m" "m \<le> 32" "kf_frame n"
    have "args_shown (kf_at q) args m n = args_shown (\<lambda>j n. if j = i \<and> ?in n then None else kf_at p j n) args m n"
      using q(4) m(2,3) by (intro args_shown_cong) simp_all
    then show "sample_get_all_effect_arg k pos m n s' =
        Some ((m, args_shown (\<lambda>j n. if j = i \<and> ?in n then None else kf_at p j n) args m n), kf_memo k s')"
      by (simp only: effect_args_ready [OF q(2) m])
  qed (rule q(1), rule q(2), rule got)
qed

subsection \<open>A sample with keyframes\<close>

definition kf_demo :: kf_state where
  "kf_demo = \<lparr>kf_vj = (vj_edit [10, 11])\<lparr>vi_adm := adm_demo, uc_playback_mode := VJ_PLAYBACK_MODE_SAMPLE, uc_sample_id := 1\<rparr>,
     kf_ports = Map.empty\<rparr>"

definition kf_demo_args :: "int list" where "kf_demo_args = sc_arg (chain_skeleton 1)"

lemma kf_demo_ready: "kf_ready kf_demo 1 0 kf_demo_args (vevo_port_new VEVO_ANONYMOUS_PORT)"
proof -
  have adm: "kf_adm kf_demo = adm_demo" by (simp add: kf_adm_def kf_demo_def)
  have "SAMPLE_PLAYING (kf_vj kf_demo)" "uc_sample_id (kf_vj kf_demo) = 1" "kf_ports kf_demo = Map.empty"
    by (simp_all add: kf_demo_def SAMPLE_PLAYING_def link_mode_def vj_edit_def)
  moreover have "\<not> outside 0" by (simp add: outside_def SAMPLE_MAX_EFFECTS_def)
  moreover have "chain_shape sample_demo" "sc_arg (si_effect_chain sample_demo ! nat 0) = kf_demo_args"
      "sc_kf (si_effect_chain sample_demo ! nat 0) = None"
    by (simp_all add: chain_shape_def sample_demo_def kf_demo_args_def chain_skeleton_def chain_zero_def SAMPLE_MAX_EFFECTS_def SAMPLE_MAX_PARAMETERS_def)
  moreover have "ad_ports adm_demo = {}" by (simp add: adm_demo_def adm_start_def sample_init_def)
  moreover have "kf_numbers (vevo_port_new VEVO_ANONYMOUS_PORT)" by (rule number_port_new(1))
  ultimately show ?thesis
    unfolding kf_ready_def adm using adm_demo_ok(1) adm_demo_sample(1) by auto
qed

lemma kf_demo_range: "kf_range 1 2 3 0 [40, - 7]"
  by (simp add: kf_range_def kf_param_def is_int32_def)

lemma kf_demo_set: "\<exists>s q. kf_ready s 1 0 kf_demo_args q \<and> kf_has q 1 2 3 0 [40, - 7] \<and> kf_at q 0 3 = None"
proof -
  obtain s q where q: "kf_ready s 1 0 kf_demo_args q"
      "\<forall>j n. kf_param j \<longrightarrow> kf_frame n \<longrightarrow>
         kf_at q j n = (if j = 1 \<and> 2 \<le> n \<and> n \<le> 3 then Some ([40, - 7] ! nat (n - 2)) else kf_at (vevo_port_new VEVO_ANONYMOUS_PORT) j n)"
      "\<forall>j. \<forall>w \<in> kf_words. kf_param j \<longrightarrow>
         kf_mark q w j = (if j = 1 then Some (kf_mark_of w 2 3 0) else kf_mark (vevo_port_new VEVO_ANONYMOUS_PORT) w j)"
    using unpack_ready [OF kf_demo_ready kf_demo_range] by blast
  have "kf_has q 1 2 3 0 [40, - 7]" using q(2,3) by (simp add: kf_has_def kf_param_def kf_frame_def)
  moreover have "kf_at q 0 3 = None" using q(2) by (simp add: kf_param_def kf_frame_def kf_port_new_empty)
  ultimately show ?thesis using q(1) by blast
qed

lemma kf_demo_has_marks:
  assumes "kf_has q 1 2 3 0 vs"
  shows "kf_mark q ''start'' 1 = Some 2" "kf_mark q ''end'' 1 = Some 3"
  using assms by (simp_all add: kf_has_def kf_words_def kf_mark_of_def)

theorem keyframes_played_witness:
  "\<exists>s'. vj_event_parse_kf (packet_head 0 1 2 3 0 @ concat (map int_bytes [40, - 7])) 33 kf_demo = Some s' \<and>
    sample_get_all_effect_arg 1 0 2 3 s' = Some ((2, [kf_demo_args ! 0, - 7]), kf_memo 1 s')"
proof -
  have "0 < (33 :: int)" by simp
  from keyframes_played [OF kf_demo_ready kf_demo_range this, of "[]"]
  obtain s' where s': "vj_event_parse_kf (packet_head 0 1 2 3 0 @ concat (map int_bytes [40, - 7])) 33 kf_demo = Some s'"
      "\<forall>m n. 0 < m \<longrightarrow> m \<le> 32 \<longrightarrow> kf_frame n \<longrightarrow> sample_get_all_effect_arg 1 0 m n s' =
         Some ((m, args_shown (\<lambda>j n. if j = 1 \<and> 2 \<le> n \<and> n \<le> 3 then Some ([40, - 7] ! nat (n - 2))
           else kf_at (vevo_port_new VEVO_ANONYMOUS_PORT) j n) kf_demo_args m n), kf_memo 1 s')"
    unfolding append_Nil2 by blast
  have "[0..2 - 1] = [0, 1 :: int]" by (simp add: upto.simps)
  moreover have "kf_frame 3" by (simp add: kf_frame_def)
  ultimately show ?thesis using s' by (simp add: args_shown_def kf_port_new_empty)
qed

theorem sent_keyframes_unreadable_witness:
  "\<exists>s bs. vj_event_get_keyframes 0 1 s = Some (show_pad 8 (int (length bs)) @ bs, kf_memo 1 s) \<and>
    vj_event_parse_kf bs (int (length bs)) s = None"
proof -
  obtain s q where q: "kf_ready s 1 0 kf_demo_args q" "kf_has q 1 2 3 0 [40, - 7]" using kf_demo_set by blast
  have "(1 :: int) \<le> 9" by simp
  from sent_keyframes_unreadable [OF q(1) kf_demo_range this q(2) refl] show ?thesis by blast
qed

theorem keyframes_cleared_witness:
  "\<exists>s s'. vj_event_del_keyframes 0 1 s = Some s' \<and> vj_event_get_keyframes 0 1 s' = Some (''00000000'', kf_memo 1 s') \<and>
    sample_get_all_effect_arg 1 0 2 3 s' = Some ((2, [kf_demo_args ! 0, kf_demo_args ! 1]), kf_memo 1 s')"
proof -
  obtain s q where q: "kf_ready s 1 0 kf_demo_args q" "kf_has q 1 2 3 0 [40, - 7]" "kf_at q 0 3 = None" using kf_demo_set by blast
  have marks: "kf_mark q ''start'' 1 = map_option fst (Some (2 :: int, 3 :: int))"
      "kf_mark q ''end'' 1 = map_option snd (Some (2 :: int, 3 :: int))"
    using kf_demo_has_marks [OF q(2)] by simp_all
  have one: "kf_param 1" by (simp add: kf_param_def)
  have bounds: "case Some (2 :: int, 3 :: int) of None \<Rightarrow> True | Some (start, end) \<Rightarrow> 0 \<le> start \<and> end < 100000" by simp
  obtain s' where s': "vj_event_del_keyframes 0 1 s = Some s'" "vj_event_get_keyframes 0 1 s' = Some (''00000000'', kf_memo 1 s')"
      "\<forall>m n. 0 < m \<longrightarrow> m \<le> 32 \<longrightarrow> kf_frame n \<longrightarrow> sample_get_all_effect_arg 1 0 m n s' =
         Some ((m, args_shown (\<lambda>j n. if j = 1 \<and> (case Some (2, 3) of None \<Rightarrow> n = 0 | Some (start, end) \<Rightarrow> start \<le> n \<and> n \<le> end)
           then None else kf_at q j n) kf_demo_args m n), kf_memo 1 s')"
    using keyframes_cleared [OF q(1) one marks bounds] by blast
  have "[0..2 - 1] = [0, 1 :: int]" by (simp add: upto.simps)
  moreover have "kf_frame 3" by (simp add: kf_frame_def)
  ultimately have "sample_get_all_effect_arg 1 0 2 3 s' = Some ((2, [kf_demo_args ! 0, kf_demo_args ! 1]), kf_memo 1 s')"
    using s'(3) q(3) by (simp add: args_shown_def)
  with s'(1,2) show ?thesis by blast
qed

end
