(* ===== verification/Spec2Isabelle.thy ===== *)
theory Spec2Isabelle
  imports EditListIO EffectTable SampleDelete SampleSwitch VimsRemote Multicast Recording Keyframes
begin

text \<open>
  Veejay is a visual instrument: a server that plays samples of edited video and live streams through chains of
  effects, and is driven by text messages from clients. This development models the server's state and the
  operations on it (\<open>veejay-current/veejay-server\<close>); pixels, audio, files and devices are outside.

  Parts, and the theories that model them:

  \<^item> \<open>Prelude\<close>: the outcomes of C code that the model distinguishes (\<open>None\<close> is undefined behaviour, with a
    name for each kind), C division and array access, and facts on lists and maps the components share.
  \<^item> \<open>ElCache\<close> (\<open>libel/elcache.c\<close>): the cache of decoded frames of an edit list; slots, eviction, and the
    process-wide count of cached bytes.
  \<^item> \<open>EffectTable\<close> (\<open>libvje/vj-effect.c\<close>): numbering, descriptors and activation of effects. What an
    effect's own initialisation answers is a parameter.
  \<^item> \<open>EditList\<close>, \<open>CText\<close>, \<open>EditListIO\<close> (\<open>libel/vj-el.c\<close>, \<open>libel/vj-el.h\<close>): edit lists, the decimal
    formats of \<open>fprintf\<close> and \<open>sscanf\<close>, and the edit-list file. Opening a video file is a parameter.
  \<^item> \<open>SampleStore\<close>, \<open>SampleParams\<close>, \<open>SampleChain\<close>, \<open>SampleDelete\<close> (\<open>libsample/sampleadm.c\<close>): the table of
    samples with its pointer cache and its identifiers; the parameters of a sample; its chain of effects, which
    calls the effect registry and the caches of edit lists and stops network streams; deletion. The record
    \<open>adm\<close> holds the static variables of \<open>sampleadm.c\<close> and the memory their pointers reach: a pointer is an
    address, a freed block is an address that is no longer allocated, and each string, port and edit list is
    freed at most once or the operation is undefined.

  \<^item> \<open>StreamStore\<close>, \<open>StreamParams\<close>, \<open>StreamChain\<close> (\<open>libstream/vj-tag.c\<close>): the table of live streams, their creation for
    each kind of source, their parameters and chains, and their deletion, on the same state \<open>adm\<close>. What opening a
    device, a file or a plugin answers is the argument \<open>stream_env\<close>. \<open>stream_reach\<close> is the set of states that
    sequences of commands reach, and \<open>streams_wf\<close> its invariant: every stream owns its ports and strings alone.

  \<^item> \<open>Playback\<close>, \<open>PlayFrames\<close>, \<open>PlayLoops\<close>, \<open>PlaySwitch\<close>, \<open>SampleSwitch\<close> (\<open>veejay/liblavplayvj.c\<close>, \<open>veejay/vj-perform.c\<close>): what is played and at which
    position and speed, switching between the edit list, samples and streams, and the step to the next frame with loops,
    sequences and the random player. The record \<open>veejay\<close> holds the playback fields and the state \<open>adm\<close>. \<open>solo\<close> is the
    state of a sample that plays without sequence and random player, \<open>arrives\<close> relates it to the state after a step, and
    \<open>spec_frames\<close> is the specification on the record and the position that the steps refine. \<open>PlaySwitch\<close> has the
    search of the sequence and the random choice, \<open>SampleSwitch\<close> the way from one sample to another.
  \<^item> \<open>EditOps\<close> (\<open>veejay/liblavplayvj.c\<close>): copy, cut, paste, delete and move of the frames of a list. \<open>frames_are\<close> tells
    which frames a list holds, and \<open>cut_out\<close>, \<open>put_in\<close> and \<open>slice\<close> are the specification on lists.

  \<^item> \<open>MsgPool\<close> (\<open>libvjmem/vj-x86.c\<close>) and \<open>VimsServer\<close> (\<open>libvjnet/vj-server.c\<close>): the command server. Client slots,
    the check of received bytes, their splitting into messages kept in the pool, and the queue the dispatcher
    (\<open>vj_event_update_remote\<close>) empties. The loops over the buffer take a number of rounds; as many as the buffer
    has bytes are enough unless a keyframe header has a negative length (\<open>verify_terminates\<close>).

  \<^item> \<open>VimsArgs\<close>, \<open>EventPlay\<close>, \<open>EventSample\<close>, \<open>EventChain\<close>, \<open>EventMix\<close>, \<open>EventStream\<close> (\<open>veejay/vj-event.c\<close>): the handlers of
    the commands (\<open>vj_event_...\<close>), grouped by what they change: what is played and where, samples, chains, mixing, streams and
    bundles. A handler is a function of its environment, its format and its arguments to the state (\<open>vims_handler\<close>), or
    undefined; \<open>P_A\<close> is the macro that reads the arguments into arrays on the stack. The record \<open>controls\<close> has the
    switches of the server and the static variables of \<open>vj-event.c\<close>. Handlers of other parts are \<open>elsewhere\<close>, which asks the
    argument \<open>ce_outside\<close>.
  \<^item> \<open>VimsEvents\<close> (\<open>veejay/vj-eventman.c\<close>, \<open>veejay/vims.h\<close>): the table of commands, entry by entry. \<open>VimsDispatch\<close>
    (\<open>veejay/vj-event.c\<close>): parsing a message, filling in defaults, calling the handler, and bundles. Bundles may call
    bundles: \<open>vj_event_parse_bundle\<close> takes the depth of calls that is allowed, and \<open>None\<close> at depth 0 stands for the stack that overflows.
  \<^item> \<open>VimsText\<close>, \<open>VimsTable\<close>, \<open>LivePlay\<close>, \<open>VimsBundle\<close>: what the text of a command means. \<open>text_of\<close> writes a command as a
    client does, \<open>call_command\<close> calls its handler, and parsing the one does the other; the table is well formed; messages about
    speed and position refine \<open>spec_live\<close> on the record and the position of the sample that plays; bundles are
    sequences of messages.
  \<^item> \<open>VimsRemote\<close> (\<open>vj_event_update_remote\<close>): the event loop. Once per frame the servers for commands, status and data are
    polled, new clients accepted, and each client that has sent something is served or dropped. \<open>spec_round\<close> is the
    specification on the commands of the clients, \<open>links_after\<close> tells which links are held afterwards.
  \<^item> \<open>Multicast\<close> (\<open>libvjnet/packet.c\<close>, \<open>mcastsender.c\<close>, \<open>mcastreceiver.c\<close>): frames cut into numbered packets and put together
    again in three slots, with packets lost and out of order.
  \<^item> \<open>Recording\<close> (\<open>libsamplerec/samplerecord.c\<close>, the recorder of \<open>libstream/vj-tag.c\<close>, \<open>vj_perform_record_...\<close> of
    \<open>veejay/vj-perform.c\<close>, and the commands that start and stop it): the frames shown are written to files, a file that
    is full is closed and followed by the next, and each becomes a sample. \<open>recorded\<close> is the specification, \<open>going\<close> the
    invariant of a recording that runs, \<open>over\<close> says that it has ended. What the encoder makes of a frame, what is free on
    the disk and what a finished file holds when it is opened again are arguments (\<open>rec_env\<close>).

  \<^item> \<open>VevoPort\<close> (\<open>libvevo/vevo.c\<close>): property ports, containers of named values that are found by the hash of the name.
    \<open>port_holds\<close> relates a port to the specification, a list of names with types and values; the locale \<open>number_store\<close> is
    what clients that keep numbers in a port rely on, interpreted by a port whose names have different hashes.
  \<^item> \<open>Keyframes\<close> (\<open>veejay/vjkf.c\<close>, its callers in \<open>sampleadm.c\<close>, \<open>vj-tag.c\<close> and \<open>vj-event.c\<close>): the values that a parameter
    of an effect has at each frame of a range. The names under which they are stored are shown to have different hashes, so
    the port is a store of numbers; \<open>kf_at\<close> reads it, \<open>args_shown\<close> is what the effect gets, \<open>kf_ready\<close> the invariant of a
    sample that plays with them. The record \<open>kf_state\<close> adds the contents of the ports to \<open>veejay\<close>.

  The function and variable names are those of the code. A function that returns \<open>int\<close> and changes the state
  is a function from the state to \<open>(int \<times> adm) option\<close>. Integers of the code are \<open>int\<close> where nothing depends
  on their width, words where entries are packed or wrap.

  Lemmas: each theory proves first what its operations do case by case, then the properties. \<open>adm_ok\<close> is the
  invariant of the sample table, \<open>fx_table_ok\<close> that of the registry, \<open>chain_env\<close> joins them for a sample whose
  chain is well formed. The locale \<open>record_table\<close> is the interface between the table and the operations on one
  record; it is interpreted by the table of samples.

  Not modelled: the graphical client and the tools (separate programs), the bundled third-party libraries, the
  pixel loops of the effects, containers and codecs, sockets and capture threads, XML files, recorded macros,
  the text form and the memory pool of property ports; of the handlers those that draw,
  write files, send text to clients or use macros and subtitles.
\<close>

end
